(* ===== verification/Prelude.thy ===== *)
theory Prelude
  imports Main "HOL-Library.Word" "HOL-Library.Monad_Syntax"
begin

text \<open>
  Shared vocabulary of the development: the machine integer types of the kernel code, the
  collections of simplification rules the component theories fill, and generic facts on options,
  lists and words that several components use.
\<close>

unbundle bit_operations_syntax

section \<open>Machine integers\<close>

type_synonym u8 = "8 word"
type_synonym u16 = "16 word"
type_synonym u32 = "32 word"
type_synonym u64 = "64 word"

section \<open>Rule collections\<close>

named_theorems frame_simps \<open>what an operation leaves unchanged\<close>
named_theorems word_val \<open>integer values of the word operations the code uses\<close>

section \<open>Ends of a list as pointers\<close>

primrec hd_opt :: "'a list \<Rightarrow> 'a option" where
  "hd_opt [] = None"
| "hd_opt (x # xs) = Some x"

primrec last_from :: "'a option \<Rightarrow> 'a list \<Rightarrow> 'a option" where
  "last_from b [] = b"
| "last_from b (x # xs) = last_from (Some x) xs"

lemma last_from_append [simp]: "last_from b (xs @ ys) = last_from (last_from b xs) ys"
  by (induction xs arbitrary: b) auto

lemma last_from_conv: "last_from b xs = (if xs = [] then b else Some (last xs))"
  by (induction xs arbitrary: b) auto

lemma last_from_eq_None [simp]: "last_from b xs = None \<longleftrightarrow> b = None \<and> xs = []"
  by (auto simp: last_from_conv)

lemma hd_opt_eq_None [simp]: "hd_opt xs = None \<longleftrightarrow> xs = []"
  by (cases xs) auto

lemma hd_opt_eq_Some: "hd_opt xs = Some x \<longleftrightarrow> (\<exists>ys. xs = x # ys)"
  by (cases xs) auto

section \<open>Removing one element of a list without repetitions\<close>

lemma remove1_split: "x \<notin> set as \<Longrightarrow> remove1 x (as @ x # bs) = as @ bs"
  by (simp add: remove1_append)

lemma distinct_split:
  assumes "distinct xs" and "x \<in> set xs"
  obtains as bs where "xs = as @ x # bs" and "x \<notin> set as" and "x \<notin> set bs"
    and "set as \<inter> set bs = {}" and "distinct as" and "distinct bs"
proof -
  from assms(2) obtain as bs where "xs = as @ x # bs"
    by (auto simp: in_set_conv_decomp)
  with assms(1) show thesis by (intro that) auto
qed

lemma find_remove1_neq: "\<not> P x \<Longrightarrow> List.find P (remove1 x xs) = List.find P xs"
  by (induction xs) auto

lemma find_in_set: "List.find P xs = Some x \<Longrightarrow> x \<in> set xs \<and> P x"
  by (induction xs) (auto split: if_splits)

section \<open>Words\<close>

lemma unat_lt_pow16: "unat (w :: u16) < 65536"
  using unsigned_less [of w, where ?'a = nat] by simp

lemma unat_lt_pow32: "unat (w :: u32) < 4294967296"
  using unsigned_less [of w, where ?'a = nat] by simp

lemma unat_ucast_16_32: "unat (ucast (w :: u16) :: u32) = unat w"
  using unat_lt_pow16 [of w] by (simp add: unsigned_ucast_eq take_bit_nat_eq_self)

end
