(* ===== verification/Dll.thy ===== *)
theory Dll
  imports Prelude
begin

text \<open>
  Intrusive doubly linked lists. The engine keeps its objects on four of them (the chains of the
  two hash tables, the list of active flows and the list of all connections); each lives in two
  pointer fields of the objects. A field is a function from objects to pointers, a pointer is an
  option with None for NULL. \<open>dll nx pv h xs\<close> says that the fields \<open>nx\<close> and \<open>pv\<close> link exactly
  the objects \<open>xs\<close>, in this order, from the head pointer \<open>h\<close>. The locales state the four pointer
  patterns of the code once; every list of the engine interprets them.
\<close>

section \<open>Segments and lists\<close>

fun dseg :: "('p \<Rightarrow> 'p option) \<Rightarrow> ('p \<Rightarrow> 'p option) \<Rightarrow> 'p option \<Rightarrow> 'p option \<Rightarrow>
  'p list \<Rightarrow> 'p option \<Rightarrow> bool" where
  "dseg nx pv h b [] q \<longleftrightarrow> h = q"
| "dseg nx pv h b (x # xs) q \<longleftrightarrow> h = Some x \<and> pv x = b \<and> dseg nx pv (nx x) (Some x) xs q"

definition dll :: "('p \<Rightarrow> 'p option) \<Rightarrow> ('p \<Rightarrow> 'p option) \<Rightarrow> 'p option \<Rightarrow> 'p list \<Rightarrow> bool" where
  "dll nx pv h xs \<longleftrightarrow> distinct xs \<and> dseg nx pv h None xs None"

lemma dseg_append:
  "dseg nx pv h b (xs @ ys) q \<longleftrightarrow>
     (\<exists>m. dseg nx pv h b xs m \<and> dseg nx pv m (last_from b xs) ys q)"
  by (induction xs arbitrary: h b) auto

lemma dseg_cong:
  "(\<And>x. x \<in> set xs \<Longrightarrow> nx x = nx' x) \<Longrightarrow> (\<And>x. x \<in> set xs \<Longrightarrow> pv x = pv' x) \<Longrightarrow>
   dseg nx pv h b xs q = dseg nx' pv' h b xs q"
  by (induction xs arbitrary: h b) auto

lemma dseg_upd_nx [simp]: "u \<notin> set xs \<Longrightarrow> dseg (nx(u := v)) pv h b xs q = dseg nx pv h b xs q"
  by (rule dseg_cong) auto

lemma dseg_upd_pv [simp]: "u \<notin> set xs \<Longrightarrow> dseg nx (pv(u := v)) h b xs q = dseg nx pv h b xs q"
  by (rule dseg_cong) auto

lemma dll_cong:
  "(\<And>x. x \<in> set xs \<Longrightarrow> nx x = nx' x) \<Longrightarrow> (\<And>x. x \<in> set xs \<Longrightarrow> pv x = pv' x) \<Longrightarrow>
   dll nx pv h xs = dll nx' pv' h xs"
  by (simp add: dll_def cong: dseg_cong)

lemma dll_upd_nx [simp]: "u \<notin> set xs \<Longrightarrow> dll (nx(u := v)) pv h xs = dll nx pv h xs"
  by (simp add: dll_def)

lemma dll_upd_pv [simp]: "u \<notin> set xs \<Longrightarrow> dll nx (pv(u := v)) h xs = dll nx pv h xs"
  by (simp add: dll_def)

lemma dll_distinct: "dll nx pv h xs \<Longrightarrow> distinct xs"
  by (simp add: dll_def)

lemma dll_Nil [simp]: "dll nx pv h [] \<longleftrightarrow> h = None"
  by (simp add: dll_def)

lemma dseg_head: "dseg nx pv h b xs None \<Longrightarrow> h = hd_opt xs"
  by (cases xs) auto

lemma dll_head: "dll nx pv h xs \<Longrightarrow> h = hd_opt xs"
  by (auto simp: dll_def dest: dseg_head)

lemma dll_None [simp]: "dll nx pv None xs \<longleftrightarrow> xs = []"
  by (cases xs) (auto simp: dll_def)

lemma dll_Some: "dll nx pv (Some x) xs \<Longrightarrow> \<exists>ys. xs = x # ys"
  using dll_head [of nx pv "Some x" xs] by (auto simp: hd_opt_eq_Some [symmetric])

text \<open>A head pointer and the link fields determine the list.\<close>

lemma dseg_unique:
  "dseg nx pv h b xs None \<Longrightarrow> dseg nx pv h b ys None \<Longrightarrow> xs = ys"
proof (induction xs arbitrary: h b ys)
  case Nil
  then show ?case by (cases ys) auto
next
  case (Cons x xs)
  then show ?case by (cases ys) auto
qed

lemma dll_unique: "dll nx pv h xs \<Longrightarrow> dll nx pv h ys \<Longrightarrow> xs = ys"
  by (auto simp: dll_def intro: dseg_unique)

text \<open>The neighbours of an object at a known place.\<close>

lemma dll_at:
  assumes "dll nx pv h (as @ x # bs)"
  shows "nx x = hd_opt bs" and "pv x = last_from None as"
  using assms by (auto simp: dll_def dseg_append dest: dseg_head)

lemma dll_split_iff:
  "dll nx pv h (as @ x # bs) \<longleftrightarrow>
     distinct (as @ x # bs) \<and> dseg nx pv h None as (Some x) \<and> pv x = last_from None as \<and>
     dseg nx pv (nx x) (Some x) bs None"
  by (auto simp: dll_def dseg_append)

section \<open>Changing the ends of a segment\<close>

lemma dseg_set_back:
  assumes "dseg nx pv h b (y # ys) q" and "y \<notin> set ys"
  shows "dseg nx (pv(y := b')) h b' (y # ys) q"
  using assms by auto

lemma dseg_set_last:
  assumes "dseg nx pv h b xs q" and "xs \<noteq> []" and "distinct xs"
  shows "dseg (nx(last xs := q')) pv h b xs q'"
  using assms
proof (induction xs arbitrary: h b)
  case Nil
  then show ?case by simp
next
  case (Cons x xs)
  then show ?case
    by (cases "xs = []") (auto split: if_splits)
qed

text \<open>Joining the two parts around a removed object.\<close>

lemma dll_join:
  assumes "dll nx pv h (as @ x # bs)"
  defines "nx' \<equiv> (case pv x of None \<Rightarrow> nx | Some p \<Rightarrow> nx(p := nx x))"
    and "pv' \<equiv> (case nx x of None \<Rightarrow> pv | Some n \<Rightarrow> pv(n := pv x))"
    and "h' \<equiv> (case pv x of None \<Rightarrow> nx x | Some p \<Rightarrow> h)"
  shows "dll nx' pv' h' (as @ bs)"
proof -
  have D: "distinct (as @ x # bs)" and A: "dseg nx pv h None as (Some x)"
    and P: "pv x = last_from None as" and B: "dseg nx pv (nx x) (Some x) bs None"
    using assms(1) by (auto simp: dll_split_iff)
  have N: "nx x = hd_opt bs" using assms(1) by (rule dll_at)
  have rear: "dseg nx' pv' (nx x) (last_from None as) bs None"
  proof (cases bs)
    case Nil
    with N show ?thesis by simp
  next
    case (Cons y ys)
    have "dseg nx (pv(y := last_from None as)) (nx x) (last_from None as) (y # ys) None"
      using B D Cons by (intro dseg_set_back) auto
    moreover have "pv' = pv(y := last_from None as)"
      using N Cons P by (simp add: pv'_def)
    moreover have "last_from None as = Some p \<Longrightarrow> p \<notin> set (y # ys)" for p
      using D Cons by (cases "as = []") (auto simp: last_from_conv dest: last_in_set)
    ultimately show ?thesis
      using P Cons by (auto simp: nx'_def split: option.splits)
  qed
  have front: "dseg nx' pv' h' None as (nx x)"
  proof (cases "as = []")
    case True
    with P show ?thesis by (simp add: h'_def)
  next
    case False
    have "dseg (nx(last as := nx x)) pv h None as (nx x)"
      using A False D by (intro dseg_set_last) auto
    moreover have "nx x = Some n \<Longrightarrow> n \<notin> set as" for n
      using N D by (auto simp: hd_opt_eq_Some)
    ultimately show ?thesis
      using P False
      by (auto simp: nx'_def pv'_def h'_def last_from_conv split: option.splits)
  qed
  from front rear D show ?thesis by (auto simp: dll_def dseg_append)
qed

text \<open>Putting a new object in front, and behind.\<close>

lemma dll_push:
  assumes "dll nx pv h xs" and "x \<notin> set xs"
  shows "dll (nx(x := h)) ((case h of None \<Rightarrow> pv | Some y \<Rightarrow> pv(y := Some x))(x := None))
           (Some x) (x # xs)"
proof (cases xs)
  case Nil
  with assms show ?thesis by (auto simp: dll_def)
next
  case (Cons y ys)
  with assms have h: "h = Some y" by (simp add: dll_def)
  from assms(1) Cons have "dseg nx pv h None (y # ys) None" "y \<notin> set ys"
    by (simp_all add: dll_def)
  then have "dseg nx (pv(y := Some x)) h (Some x) (y # ys) None"
    by (rule dseg_set_back)
  with assms Cons h show ?thesis by (auto simp: dll_def)
qed

lemma dll_snoc:
  assumes "dll nx pv h xs" and "x \<notin> set xs"
  shows "dll ((case last_from None xs of None \<Rightarrow> nx | Some t \<Rightarrow> nx(t := Some x))(x := None))
           (pv(x := last_from None xs))
           (case last_from None xs of None \<Rightarrow> Some x | Some t \<Rightarrow> h) (xs @ [x])"
proof (cases "xs = []")
  case True
  with assms show ?thesis by (auto simp: dll_def)
next
  case False
  with assms have "dseg (nx(last xs := Some x)) pv h None xs (Some x)"
    by (intro dseg_set_last) (auto simp: dll_def)
  with assms False show ?thesis
    by (auto simp: dll_def dseg_append last_from_conv)
qed

section \<open>A family of lists with head pointers\<close>

text \<open>
  The store of objects is a state \<open>'s\<close>; \<open>nxt\<close> and \<open>prv\<close> read an object's two link fields,
  \<open>hd_ptr s i\<close> is the head pointer of list \<open>i\<close> (a hash bucket), and the three setters are the
  assignments of the code. The laws are those of independent memory cells.
\<close>

locale dlist_store =
  fixes nxt prv :: "'s \<Rightarrow> 'p \<Rightarrow> 'p option"
    and hd_ptr :: "'s \<Rightarrow> 'i \<Rightarrow> 'p option"
    and set_nxt set_prv :: "'p \<Rightarrow> 'p option \<Rightarrow> 's \<Rightarrow> 's"
    and set_hd :: "'i \<Rightarrow> 'p option \<Rightarrow> 's \<Rightarrow> 's"
  assumes nxt_set_nxt: "nxt (set_nxt p v s) = (nxt s)(p := v)"
    and nxt_set_prv: "nxt (set_prv p v s) = nxt s"
    and nxt_set_hd: "nxt (set_hd i v s) = nxt s"
    and prv_set_nxt: "prv (set_nxt p v s) = prv s"
    and prv_set_prv: "prv (set_prv p v s) = (prv s)(p := v)"
    and prv_set_hd: "prv (set_hd i v s) = prv s"
    and hd_set_nxt: "hd_ptr (set_nxt p v s) = hd_ptr s"
    and hd_set_prv: "hd_ptr (set_prv p v s) = hd_ptr s"
    and hd_set_hd: "hd_ptr (set_hd i v s) = (hd_ptr s)(i := v)"
begin

lemmas cell_simps = nxt_set_nxt nxt_set_prv nxt_set_hd prv_set_nxt prv_set_prv prv_set_hd
  hd_set_nxt hd_set_prv hd_set_hd

definition repr :: "'s \<Rightarrow> ('i \<Rightarrow> 'p list) \<Rightarrow> bool" where
  "repr s ch \<longleftrightarrow> (\<forall>i. dll (nxt s) (prv s) (hd_ptr s i) (ch i)) \<and>
     (\<forall>i j. i \<noteq> j \<longrightarrow> set (ch i) \<inter> set (ch j) = {})"

lemma repr_dll: "repr s ch \<Longrightarrow> dll (nxt s) (prv s) (hd_ptr s i) (ch i)"
  by (simp add: repr_def)

lemma repr_distinct: "repr s ch \<Longrightarrow> distinct (ch i)"
  by (blast dest: repr_dll dll_distinct)

lemma repr_hd: "repr s ch \<Longrightarrow> hd_ptr s i = hd_opt (ch i)"
  by (blast dest: repr_dll dll_head)

lemma repr_cong:
  "nxt s' = nxt s \<Longrightarrow> prv s' = prv s \<Longrightarrow> hd_ptr s' = hd_ptr s \<Longrightarrow> repr s' ch = repr s ch"
  by (simp add: repr_def)

lemma repr_changeI:
  assumes "repr s ch"
    and "dll (nxt s') (prv s') (hd_ptr s' i) xs" and "\<And>j. j \<noteq> i \<Longrightarrow> hd_ptr s' j = hd_ptr s j"
    and "\<And>p. p \<notin> set (ch i) \<union> set xs \<Longrightarrow> nxt s' p = nxt s p \<and> prv s' p = prv s p"
    and "\<And>j. j \<noteq> i \<Longrightarrow> set xs \<inter> set (ch j) = {}"
  shows "repr s' (ch(i := xs))"
  unfolding repr_def
proof (intro conjI allI impI)
  fix j
  show "dll (nxt s') (prv s') (hd_ptr s' j) ((ch(i := xs)) j)"
  proof (cases "j = i")
    case True
    with assms(2) show ?thesis by simp
  next
    case False
    with assms(1,5) have "p \<in> set (ch j) \<Longrightarrow> p \<notin> set (ch i) \<union> set xs" for p
      unfolding repr_def by blast
    with assms(4) have "dll (nxt s') (prv s') (hd_ptr s j) (ch j) = dll (nxt s) (prv s) (hd_ptr s j) (ch j)"
      by (intro dll_cong) auto
    with assms(1,3) False show ?thesis by (simp add: repr_def)
  qed
next
  fix j k :: 'i
  assume "j \<noteq> k"
  with assms(1,5) show "set ((ch(i := xs)) j) \<inter> set ((ch(i := xs)) k) = {}"
    by (auto simp: repr_def)
qed

text \<open>Insertion at the head, as \<open>*hash_head = x\<close> does it.\<close>

definition push :: "'i \<Rightarrow> 'p \<Rightarrow> 's \<Rightarrow> 's" where
  "push i x s =
    (let s1 = set_prv x None s;
         s2 = (case hd_ptr s i of None \<Rightarrow> s1 | Some y \<Rightarrow> set_prv y (Some x) s1)
     in set_hd i (Some x) (set_nxt x (hd_ptr s i) s2))"

lemma push_cells:
  assumes "hd_ptr s i \<noteq> Some x"
  shows "nxt (push i x s) = (nxt s)(x := hd_ptr s i)"
    and "prv (push i x s) =
           ((case hd_ptr s i of None \<Rightarrow> prv s | Some y \<Rightarrow> (prv s)(y := Some x))(x := None))"
    and "hd_ptr (push i x s) = (hd_ptr s)(i := Some x)"
  using assms
  by (auto simp: push_def Let_def cell_simps fun_upd_twist split: option.splits)

lemma repr_push:
  assumes "repr s ch" and new: "\<And>j. x \<notin> set (ch j)"
  shows "repr (push i x s) (ch(i := x # ch i))"
proof (rule repr_changeI [OF assms(1)])
  note d = repr_dll [OF assms(1), of i]
  have "hd_ptr s i \<noteq> Some x"
    using new [of i] d by (auto dest!: dll_Some)
  note c = push_cells [OF this]
  show "dll (nxt (push i x s)) (prv (push i x s)) (hd_ptr (push i x s) i) (x # ch i)"
    using dll_push [OF d new] by (simp add: c)
  fix p
  assume "p \<notin> set (ch i) \<union> set (x # ch i)"
  then show "nxt (push i x s) p = nxt s p \<and> prv (push i x s) p = prv s p"
    using repr_hd [OF assms(1), of i] by (auto simp: c hd_opt_eq_Some split: option.splits)
next
  fix j
  assume "j \<noteq> i"
  have "hd_ptr s i \<noteq> Some x"
    using new [of i] repr_dll [OF assms(1), of i] by (auto dest!: dll_Some)
  with \<open>j \<noteq> i\<close> show "hd_ptr (push i x s) j = hd_ptr s j" by (simp add: push_cells)
  show "set (x # ch i) \<inter> set (ch j) = {}"
    using assms \<open>j \<noteq> i\<close> by (auto simp: repr_def)
qed

text \<open>Removal from any place.\<close>

definition unlink :: "'i \<Rightarrow> 'p \<Rightarrow> 's \<Rightarrow> 's" where
  "unlink i x s =
    (let s1 = (case prv s x of Some p \<Rightarrow> set_nxt p (nxt s x) s | None \<Rightarrow> set_hd i (nxt s x) s)
     in case nxt s1 x of Some n \<Rightarrow> set_prv n (prv s1 x) s1 | None \<Rightarrow> s1)"

lemma unlink_cells:
  assumes "dll (nxt s) (prv s) (hd_ptr s i) xs" and "x \<in> set xs"
  shows "nxt (unlink i x s) = (case prv s x of None \<Rightarrow> nxt s | Some p \<Rightarrow> (nxt s)(p := nxt s x))"
    and "prv (unlink i x s) = (case nxt s x of None \<Rightarrow> prv s | Some n \<Rightarrow> (prv s)(n := prv s x))"
    and "hd_ptr (unlink i x s) =
           (hd_ptr s)(i := (case prv s x of None \<Rightarrow> nxt s x | Some p \<Rightarrow> hd_ptr s i))"
proof -
  obtain as bs where s: "xs = as @ x # bs" and d: "x \<notin> set as" "x \<notin> set bs"
    using assms by (blast elim: distinct_split dest: dll_distinct)
  have "prv s x \<noteq> Some x"
    using dll_at(2) [OF assms(1) [unfolded s]] d(1) last_in_set [of as]
    by (auto simp: last_from_conv split: if_splits)
  then show "nxt (unlink i x s) = (case prv s x of None \<Rightarrow> nxt s | Some p \<Rightarrow> (nxt s)(p := nxt s x))"
    and "prv (unlink i x s) = (case nxt s x of None \<Rightarrow> prv s | Some n \<Rightarrow> (prv s)(n := prv s x))"
    and "hd_ptr (unlink i x s) =
           (hd_ptr s)(i := (case prv s x of None \<Rightarrow> nxt s x | Some p \<Rightarrow> hd_ptr s i))"
    by (auto simp: unlink_def Let_def cell_simps split: option.splits)
qed

lemma dll_unlink:
  assumes "dll (nxt s) (prv s) (hd_ptr s i) xs" and "x \<in> set xs"
  shows "dll (nxt (unlink i x s)) (prv (unlink i x s)) (hd_ptr (unlink i x s) i) (remove1 x xs)"
proof -
  obtain as bs where s: "xs = as @ x # bs" and d: "x \<notin> set as"
    using assms by (blast elim: distinct_split dest: dll_distinct)
  show ?thesis
    using dll_join [OF assms(1) [unfolded s]] d
    by (simp add: s unlink_cells [OF assms] remove1_split)
qed

lemma nbrs_in_set:
  assumes "dll (nxt s) (prv s) (hd_ptr s i) xs" and "x \<in> set xs"
  shows "nxt s x = Some n \<Longrightarrow> n \<in> set xs" and "prv s x = Some p \<Longrightarrow> p \<in> set xs"
proof -
  obtain as bs where s: "xs = as @ x # bs"
    using assms by (blast elim: distinct_split dest: dll_distinct)
  show "nxt s x = Some n \<Longrightarrow> n \<in> set xs" and "prv s x = Some p \<Longrightarrow> p \<in> set xs"
    using dll_at [OF assms(1) [unfolded s]] last_in_set [of as]
    by (auto simp: s hd_opt_eq_Some last_from_conv split: if_splits)
qed

lemma nbrs_neq:
  assumes "dll (nxt s) (prv s) (hd_ptr s i) xs" and "x \<in> set xs"
  shows "nxt s x \<noteq> Some x" and "prv s x \<noteq> Some x"
proof -
  obtain as bs where s: "xs = as @ x # bs" and d: "x \<notin> set as" "x \<notin> set bs"
    using assms by (blast elim: distinct_split dest: dll_distinct)
  show "nxt s x \<noteq> Some x" and "prv s x \<noteq> Some x"
    using dll_at [OF assms(1) [unfolded s]] d last_in_set [of as]
    by (auto simp: hd_opt_eq_Some last_from_conv split: if_splits)
qed

lemma repr_unlink:
  assumes "repr s ch" and "x \<in> set (ch i)"
  shows "repr (unlink i x s) (ch(i := remove1 x (ch i)))"
proof (rule repr_changeI [OF assms(1)])
  note d = repr_dll [OF assms(1), of i]
  show "dll (nxt (unlink i x s)) (prv (unlink i x s)) (hd_ptr (unlink i x s) i) (remove1 x (ch i))"
    using d assms(2) by (rule dll_unlink)
  fix p
  assume "p \<notin> set (ch i) \<union> set (remove1 x (ch i))"
  then show "nxt (unlink i x s) p = nxt s p \<and> prv (unlink i x s) p = prv s p"
    using nbrs_in_set [OF d assms(2)] by (auto simp: unlink_cells [OF d assms(2)] split: option.splits)
next
  fix j
  assume "j \<noteq> i"
  then show "hd_ptr (unlink i x s) j = hd_ptr s j"
    by (simp add: unlink_cells [OF repr_dll [OF assms(1)] assms(2)])
  show "set (remove1 x (ch i)) \<inter> set (ch j) = {}"
    using assms(1) \<open>j \<noteq> i\<close> notin_set_remove1 [of _ "ch i" x] by (fastforce simp: repr_def)
qed

text \<open>Moving an object that is not in front to the head of its list.\<close>

definition to_front :: "'i \<Rightarrow> 'p \<Rightarrow> 'p \<Rightarrow> 'p \<Rightarrow> 's \<Rightarrow> 's" where
  "to_front i h p x s =
    (let s1 = (case nxt s x of Some n \<Rightarrow> set_prv n (prv s x) s | None \<Rightarrow> s);
         s2 = set_nxt p (nxt s1 x) s1;
         s3 = set_prv x None s2;
         s4 = set_nxt x (Some h) s3;
         s5 = set_prv h (Some x) s4
     in set_hd i (Some x) s5)"

lemma repr_to_front:
  assumes "repr s ch" and x: "x \<in> set (ch i)" and h: "hd_ptr s i = Some h" and ne: "x \<noteq> h"
  obtains p where "prv s x = Some p"
    and "repr (to_front i h p x s) (ch(i := x # remove1 x (ch i)))"
proof -
  note d = repr_dll [OF assms(1), of i]
  obtain as bs where s: "ch i = as @ x # bs" and das: "x \<notin> set as" and dbs: "x \<notin> set bs"
    using d x by (blast elim: distinct_split dest: dll_distinct)
  have "as \<noteq> []"
    using repr_hd [OF assms(1), of i] h ne by (auto simp: s)
  then obtain p where p: "prv s x = Some p" and pas: "p \<in> set as"
    using dll_at(2) [OF d [unfolded s]] by (auto simp: last_from_conv)
  have nx: "nxt s x \<noteq> Some x"
    using dll_at(1) [OF d [unfolded s]] dbs by (auto simp: hd_opt_eq_Some)
  let ?u = "unlink i x s"
  have u: "repr ?u (ch(i := remove1 x (ch i)))"
    using assms(1) x by (rule repr_unlink)
  have notin: "x \<notin> set ((ch(i := remove1 x (ch i))) j)" for j
    using assms(1) x repr_distinct [OF assms(1), of i] by (auto simp: repr_def)
  have hu: "hd_ptr ?u i = Some h" and hx: "hd_ptr ?u i \<noteq> Some x"
    using h ne by (simp_all add: unlink_cells [OF d x] p)
  have t: "repr (push i x ?u) (ch(i := x # remove1 x (ch i)))"
    using repr_push [OF u, of x i] notin by (simp add: fun_upd_twist)
  have px: "p \<noteq> x" using pas das by auto
  have "nxt (to_front i h p x s) = nxt (push i x ?u)"
    using px nx ne by (auto simp: to_front_def Let_def cell_simps push_cells [OF hx] hu
      unlink_cells [OF d x] p h fun_upd_twist split: option.splits)
  moreover have "prv (to_front i h p x s) = prv (push i x ?u)"
    using px nx ne by (auto simp: to_front_def Let_def cell_simps push_cells [OF hx] hu
      unlink_cells [OF d x] p h fun_upd_twist split: option.splits)
  moreover have "hd_ptr (to_front i h p x s) = hd_ptr (push i x ?u)"
    by (auto simp: to_front_def Let_def cell_simps push_cells [OF hx]
      unlink_cells [OF d x] p split: option.splits)
  ultimately have "repr (to_front i h p x s) (ch(i := x # remove1 x (ch i)))"
    using t repr_cong by blast
  with p show thesis by (rule that)
qed

end

section \<open>A list with a head and a tail pointer\<close>

locale dlist_tail_store = dlist_store nxt prv hd_ptr set_nxt set_prv set_hd
  for nxt prv :: "'s \<Rightarrow> 'p \<Rightarrow> 'p option"
    and hd_ptr :: "'s \<Rightarrow> unit \<Rightarrow> 'p option"
    and set_nxt set_prv :: "'p \<Rightarrow> 'p option \<Rightarrow> 's \<Rightarrow> 's"
    and set_hd :: "unit \<Rightarrow> 'p option \<Rightarrow> 's \<Rightarrow> 's" +
  fixes tl_ptr :: "'s \<Rightarrow> 'p option"
    and set_tl :: "'p option \<Rightarrow> 's \<Rightarrow> 's"
  assumes tl_set_nxt: "tl_ptr (set_nxt p v s) = tl_ptr s"
    and tl_set_prv: "tl_ptr (set_prv p v s) = tl_ptr s"
    and tl_set_hd: "tl_ptr (set_hd i v s) = tl_ptr s"
    and tl_set_tl: "tl_ptr (set_tl v s) = v"
    and nxt_set_tl: "nxt (set_tl v s) = nxt s"
    and prv_set_tl: "prv (set_tl v s) = prv s"
    and hd_set_tl: "hd_ptr (set_tl v s) = hd_ptr s"
begin

lemmas tail_simps = tl_set_nxt tl_set_prv tl_set_hd tl_set_tl nxt_set_tl prv_set_tl hd_set_tl

definition trepr :: "'s \<Rightarrow> 'p list \<Rightarrow> bool" where
  "trepr s xs \<longleftrightarrow> dll (nxt s) (prv s) (hd_ptr s ()) xs \<and> tl_ptr s = last_from None xs"

lemma trepr_unique: "trepr s xs \<Longrightarrow> trepr s ys \<Longrightarrow> xs = ys"
  by (auto simp: trepr_def intro: dll_unique)

lemma trepr_distinct: "trepr s xs \<Longrightarrow> distinct xs"
  by (auto simp: trepr_def dest: dll_distinct)

lemma trepr_hd: "trepr s xs \<Longrightarrow> hd_ptr s () = hd_opt xs"
  by (auto simp: trepr_def dest: dll_head)

lemma trepr_tl: "trepr s xs \<Longrightarrow> tl_ptr s = last_from None xs"
  by (simp add: trepr_def)

lemma trepr_cong:
  "nxt s' = nxt s \<Longrightarrow> prv s' = prv s \<Longrightarrow> hd_ptr s' = hd_ptr s \<Longrightarrow> tl_ptr s' = tl_ptr s \<Longrightarrow>
   trepr s' xs = trepr s xs"
  by (simp add: trepr_def)

text \<open>Cells of objects that are not on the list do not matter.\<close>

lemma trepr_upd:
  assumes "x \<notin> set xs"
  shows "trepr (set_nxt x v s) xs = trepr s xs" and "trepr (set_prv x v s) xs = trepr s xs"
  using assms by (simp_all add: trepr_def cell_simps tail_simps)

text \<open>Appending at the tail. The last argument says whether the code clears \<open>x\<close>'s next field.\<close>

definition enqueue :: "'p \<Rightarrow> 's \<Rightarrow> 's" where
  "enqueue x s =
    (let s1 = set_prv x (tl_ptr s) s;
         s2 = (case tl_ptr s of Some t \<Rightarrow> set_nxt t (Some x) s1 | None \<Rightarrow> set_hd () (Some x) s1)
     in set_tl (Some x) s2)"

lemma trepr_enqueue:
  assumes "trepr s xs" and x: "x \<notin> set xs" and nil: "nxt s x = None"
  shows "trepr (enqueue x s) (xs @ [x])"
proof -
  have d: "dll (nxt s) (prv s) (hd_ptr s ()) xs" and t: "tl_ptr s = last_from None xs"
    using assms(1) by (simp_all add: trepr_def)
  have upd: "f = f(x := None)" if "f x = None" for f :: "'p \<Rightarrow> 'p option"
    using that by auto
  have "last_from None xs \<noteq> Some x"
    using x last_in_set [of xs] by (auto simp: last_from_conv)
  then have "nxt (enqueue x s) =
      (case last_from None xs of None \<Rightarrow> nxt s | Some t \<Rightarrow> (nxt s)(t := Some x))(x := None)"
    using nil upd by (auto simp: enqueue_def Let_def cell_simps tail_simps t split: option.splits)
  moreover have "prv (enqueue x s) = (prv s)(x := last_from None xs)"
    by (simp add: enqueue_def Let_def cell_simps tail_simps t split: option.splits)
  moreover have "hd_ptr (enqueue x s) () = (case last_from None xs of None \<Rightarrow> Some x | Some t \<Rightarrow> hd_ptr s ())"
    by (simp add: enqueue_def Let_def cell_simps tail_simps t split: option.splits)
  moreover have "tl_ptr (enqueue x s) = Some x"
    by (simp add: enqueue_def Let_def tail_simps)
  ultimately show ?thesis
    using dll_snoc [OF d x] by (simp add: trepr_def)
qed

text \<open>The code may also clear the next field afterwards.\<close>

lemma trepr_enqueue_clear:
  assumes "trepr s xs" and x: "x \<notin> set xs"
  shows "trepr (set_nxt x None (enqueue x s)) (xs @ [x])"
proof -
  have "tl_ptr s \<noteq> Some x"
    using x trepr_tl [OF assms(1)] last_in_set [of xs] by (auto simp: last_from_conv)
  then have "nxt (set_nxt x None (enqueue x s)) = nxt (enqueue x (set_nxt x None s))"
    and "prv (set_nxt x None (enqueue x s)) = prv (enqueue x (set_nxt x None s))"
    and "hd_ptr (set_nxt x None (enqueue x s)) = hd_ptr (enqueue x (set_nxt x None s))"
    and "tl_ptr (set_nxt x None (enqueue x s)) = tl_ptr (enqueue x (set_nxt x None s))"
    by (auto simp: enqueue_def Let_def cell_simps tail_simps fun_upd_twist split: option.splits)
  moreover have "trepr (enqueue x (set_nxt x None s)) (xs @ [x])"
    using assms by (intro trepr_enqueue) (simp_all add: trepr_upd cell_simps)
  ultimately show ?thesis by (simp add: trepr_def)
qed

text \<open>Removal from any place of the list.\<close>

definition dequeue :: "'p \<Rightarrow> 's \<Rightarrow> 's" where
  "dequeue x s =
    (let s1 = (case prv s x of Some p \<Rightarrow> set_nxt p (nxt s x) s | None \<Rightarrow> set_hd () (nxt s x) s)
     in case nxt s1 x of Some n \<Rightarrow> set_prv n (prv s1 x) s1 | None \<Rightarrow> set_tl (prv s1 x) s1)"

lemma trepr_dequeue:
  assumes "trepr s xs" and x: "x \<in> set xs"
  shows "trepr (dequeue x s) (remove1 x xs)"
proof -
  have d: "dll (nxt s) (prv s) (hd_ptr s ()) xs" and t: "tl_ptr s = last_from None xs"
    using assms(1) by (simp_all add: trepr_def)
  obtain as bs where s: "xs = as @ x # bs" and das: "x \<notin> set as" and dbs: "x \<notin> set bs"
    using d x by (blast elim: distinct_split dest: dll_distinct)
  note nbr = dll_at [OF d [unfolded s]]
  have px: "prv s x \<noteq> Some x"
    using nbr(2) das last_in_set [of as] by (auto simp: last_from_conv split: if_splits)
  have "nxt (dequeue x s) = nxt (unlink () x s)" and "prv (dequeue x s) = prv (unlink () x s)"
    and "hd_ptr (dequeue x s) = hd_ptr (unlink () x s)"
    by (auto simp: dequeue_def unlink_def Let_def cell_simps tail_simps split: option.splits)
  moreover have "tl_ptr (dequeue x s) = last_from None (remove1 x xs)"
    using nbr px t das
    by (auto simp: s dequeue_def Let_def cell_simps tail_simps remove1_split last_from_conv
        hd_opt_eq_Some split: option.splits if_splits)
  ultimately show ?thesis
    using dll_unlink [OF d x] by (simp add: trepr_def)
qed

text \<open>Objects off the list keep their next field.\<close>

lemma nxt_dequeue:
  assumes "trepr s xs" and x: "x \<in> set xs" and "y \<notin> set xs"
  shows "nxt (dequeue x s) y = nxt s y"
proof -
  have "prv s x = Some p \<Longrightarrow> p \<in> set xs" for p
    using assms(1) nbrs_in_set(2) [of s "()" xs x p] x by (simp add: trepr_def)
  with assms(3) show ?thesis
    by (auto simp: dequeue_def Let_def cell_simps tail_simps split: option.splits)
qed

lemma nxt_enqueue:
  assumes "trepr s xs" and "y \<notin> set xs"
  shows "nxt (enqueue x s) y = nxt s y"
proof -
  have "tl_ptr s = Some t \<Longrightarrow> t \<in> set xs" for t
    using trepr_tl [OF assms(1)] last_in_set [of xs] by (auto simp: last_from_conv split: if_splits)
  with assms(2) show ?thesis
    by (auto simp: enqueue_def Let_def cell_simps tail_simps split: option.splits)
qed

end

end
