(* ===== verification/Sfe_Types.thy ===== *)
theory Sfe_Types
  imports Dll
begin

text \<open>
  Data of the shortcut forwarding engine (package/network/utils/shortcut-fe/src/sfe_ipv4.c and
  sfe_cm.h). Objects in kernel memory are numbered; a pointer that the code compares with NULL is an
  option. Link fields of the objects are kept in heaps of their own, one function per field, and
  the remaining fields of an object form one record. The four lists of the engine are
  interpretations of the list locales.
\<close>

section \<open>Kernel objects the engine refers to\<close>

type_synonym conn_ptr = nat
type_synonym cm_ptr = nat

text \<open>A \<open>struct net_device *\<close> is its address; \<open>netdev\<close> below gives the fields the engine reads.\<close>

type_synonym netdev = u64
type_synonym mac = "nat \<Rightarrow> u8"

datatype header_create = eth_header | other_header

record net_device =
  nd_name :: string
  nd_registered :: bool \<comment> \<open>\<open>reg_state == NETREG_REGISTERED\<close>\<close>
  nd_flags :: u32
  nd_header_ops :: "header_create option"
  nd_dev_addr :: mac

definition IFF_POINTOPOINT :: u32 where "IFF_POINTOPOINT = 0x10"

text \<open>Build configuration and the devices of the machine.\<close>

record sfe_env =
  big_endian :: bool
  config_xfrm :: bool
  netdev :: "netdev \<Rightarrow> net_device"

definition IPPROTO_ICMP :: u32 where "IPPROTO_ICMP = 1"
definition IPPROTO_TCP :: u32 where "IPPROTO_TCP = 6"
definition IPPROTO_UDP :: u32 where "IPPROTO_UDP = 17"

section \<open>Messages between the engine and its connection manager (sfe_cm.h)\<close>

text \<open>\<open>sfe_ip_addr_t\<close> is a union of one word and four; \<open>ip\<close> reads the first word.\<close>

record sfe_ip_addr =
  addr0 :: u32
  addr1 :: u32
  addr2 :: u32
  addr3 :: u32

abbreviation ip :: "sfe_ip_addr \<Rightarrow> u32" where "ip \<equiv> addr0"

definition v4_addr :: "u32 \<Rightarrow> sfe_ip_addr" where
  "v4_addr a = \<lparr>addr0 = a, addr1 = 0, addr2 = 0, addr3 = 0\<rparr>"

definition SFE_CREATE_FLAG_NO_SEQ_CHECK :: u32 where "SFE_CREATE_FLAG_NO_SEQ_CHECK = 1"
definition SFE_CREATE_FLAG_REMARK_PRIORITY :: u32 where "SFE_CREATE_FLAG_REMARK_PRIORITY = 2"
definition SFE_CREATE_FLAG_REMARK_DSCP :: u32 where "SFE_CREATE_FLAG_REMARK_DSCP = 4"

record sfe_connection_create =
  sic_protocol :: u32
  sic_src_dev :: netdev
  sic_dest_dev :: netdev
  sic_flags :: u32
  sic_src_mtu :: u32
  sic_dest_mtu :: u32
  sic_src_ip :: sfe_ip_addr
  sic_src_ip_xlate :: sfe_ip_addr
  sic_dest_ip :: sfe_ip_addr
  sic_dest_ip_xlate :: sfe_ip_addr
  sic_src_port :: u16
  sic_src_port_xlate :: u16
  sic_dest_port :: u16
  sic_dest_port_xlate :: u16
  sic_src_mac :: mac
  sic_src_mac_xlate :: mac
  sic_dest_mac :: mac
  sic_dest_mac_xlate :: mac
  sic_src_td_window_scale :: u8
  sic_src_td_max_window :: u32
  sic_src_td_end :: u32
  sic_src_td_max_end :: u32
  sic_dest_td_window_scale :: u8
  sic_dest_td_max_window :: u32
  sic_dest_td_end :: u32
  sic_dest_td_max_end :: u32
  sic_mark :: u32
  sic_original_accel :: u32
  sic_reply_accel :: u32
  sic_src_priority :: u32
  sic_dest_priority :: u32
  sic_src_dscp :: u32
  sic_dest_dscp :: u32

record sfe_connection_destroy =
  sid_protocol :: u32
  sid_src_ip :: sfe_ip_addr
  sid_dest_ip :: sfe_ip_addr
  sid_src_port :: u16
  sid_dest_port :: u16

datatype sfe_sync_reason =
  SFE_SYNC_REASON_STATS | SFE_SYNC_REASON_FLUSH | SFE_SYNC_REASON_DESTROY

record sfe_connection_sync =
  sis_src_dev :: netdev
  sis_dest_dev :: netdev
  sis_is_v6 :: bool
  sis_protocol :: u32
  sis_src_ip :: sfe_ip_addr
  sis_src_ip_xlate :: sfe_ip_addr
  sis_src_port :: u16
  sis_src_port_xlate :: u16
  sis_dest_ip :: sfe_ip_addr
  sis_dest_ip_xlate :: sfe_ip_addr
  sis_dest_port :: u16
  sis_dest_port_xlate :: u16
  sis_src_td_max_window :: u32
  sis_src_td_end :: u32
  sis_src_td_max_end :: u32
  sis_src_packet_count :: u64
  sis_src_byte_count :: u64
  sis_src_new_packet_count :: u32
  sis_src_new_byte_count :: u32
  sis_dest_td_max_window :: u32
  sis_dest_td_end :: u32
  sis_dest_td_max_end :: u32
  sis_dest_packet_count :: u64
  sis_dest_byte_count :: u64
  sis_dest_new_packet_count :: u32
  sis_dest_new_byte_count :: u32
  sis_reason :: sfe_sync_reason
  sis_delta_jiffies :: u64

record sfe_connection_mark =
  scm_protocol :: u32
  scm_src_ip :: sfe_ip_addr
  scm_dest_ip :: sfe_ip_addr
  scm_src_port :: u16
  scm_dest_port :: u16
  scm_mark :: u32

section \<open>Connection matches and connections\<close>

record sfe_ipv4_tcp_connection_match =
  win_scale :: u8
  max_win :: u32
  tcp_end :: u32
  max_end :: u32

definition FLAG_XLATE_SRC :: u32 where "FLAG_XLATE_SRC = 1"
definition FLAG_XLATE_DEST :: u32 where "FLAG_XLATE_DEST = 2"
definition FLAG_NO_SEQ_CHECK :: u32 where "FLAG_NO_SEQ_CHECK = 4"
definition FLAG_WRITE_FAST_ETH_HDR :: u32 where "FLAG_WRITE_FAST_ETH_HDR = 8"
definition FLAG_WRITE_L2_HDR :: u32 where "FLAG_WRITE_L2_HDR = 16"
definition FLAG_PRIORITY_REMARK :: u32 where "FLAG_PRIORITY_REMARK = 32"
definition FLAG_DSCP_REMARK :: u32 where "FLAG_DSCP_REMARK = 64"

lemmas flag_defs = FLAG_XLATE_SRC_def FLAG_XLATE_DEST_def FLAG_NO_SEQ_CHECK_def
  FLAG_WRITE_FAST_ETH_HDR_def FLAG_WRITE_L2_HDR_def FLAG_PRIORITY_REMARK_def FLAG_DSCP_REMARK_def

definition has_flag :: "u32 \<Rightarrow> u32 \<Rightarrow> bool" where
  "has_flag fl f \<longleftrightarrow> fl AND f \<noteq> 0"

record sfe_ipv4_connection_match =
  cm_connection :: conn_ptr
  cm_counter_match :: cm_ptr
  match_dev :: netdev
  match_protocol :: u8
  match_src_ip :: u32
  match_dest_ip :: u32
  match_src_port :: u16
  match_dest_port :: u16
  cm_flags :: u32
  flow_accel :: u32
  cm_tcp :: sfe_ipv4_tcp_connection_match
  rx_packet_count :: u32
  rx_byte_count :: u32
  xlate_src_ip :: u32
  xlate_src_port :: u16
  xlate_src_csum_adjustment :: u16
  xlate_src_partial_csum_adjustment :: u16
  xlate_dest_ip :: u32
  xlate_dest_port :: u16
  xlate_dest_csum_adjustment :: u16
  xlate_dest_partial_csum_adjustment :: u16
  cm_priority :: u32
  cm_dscp :: u32
  xmit_dev :: netdev
  xmit_dev_mtu :: u16
  xmit_dest_mac :: mac
  xmit_src_mac :: mac
  rx_packet_count64 :: u64
  rx_byte_count64 :: u64

record sfe_ipv4_connection =
  c_protocol :: u32
  c_src_ip :: u32
  c_src_ip_xlate :: u32
  c_dest_ip :: u32
  c_dest_ip_xlate :: u32
  c_src_port :: u16
  c_src_port_xlate :: u16
  c_dest_port :: u16
  c_dest_port_xlate :: u16
  original_match :: cm_ptr
  original_dev :: netdev
  reply_match :: cm_ptr
  reply_dev :: netdev
  last_sync_jiffies :: u64
  c_mark :: u32
  c_debug_read_seq :: u32

section \<open>Exception events\<close>

datatype sfe_ipv4_exception_events =
    UDP_HEADER_INCOMPLETE | UDP_NO_CONNECTION | UDP_IP_OPTIONS_OR_INITIAL_FRAGMENT
  | UDP_SMALL_TTL | UDP_NEEDS_FRAGMENTATION
  | TCP_HEADER_INCOMPLETE | TCP_NO_CONNECTION_SLOW_FLAGS | TCP_NO_CONNECTION_FAST_FLAGS
  | TCP_IP_OPTIONS_OR_INITIAL_FRAGMENT | TCP_SMALL_TTL | TCP_NEEDS_FRAGMENTATION | TCP_FLAGS
  | TCP_SEQ_EXCEEDS_RIGHT_EDGE | TCP_SMALL_DATA_OFFS | TCP_BAD_SACK | TCP_BIG_DATA_OFFS
  | TCP_SEQ_BEFORE_LEFT_EDGE | TCP_ACK_EXCEEDS_RIGHT_EDGE | TCP_ACK_BEFORE_LEFT_EDGE
  | ICMP_HEADER_INCOMPLETE | ICMP_UNHANDLED_TYPE | ICMP_IPV4_HEADER_INCOMPLETE
  | ICMP_IPV4_NON_V4 | ICMP_IPV4_IP_OPTIONS_INCOMPLETE | ICMP_IPV4_UDP_HEADER_INCOMPLETE
  | ICMP_IPV4_TCP_HEADER_INCOMPLETE | ICMP_IPV4_UNHANDLED_PROTOCOL | ICMP_NO_CONNECTION
  | ICMP_FLUSHED_CONNECTION
  | HEADER_INCOMPLETE | BAD_TOTAL_LENGTH | NON_V4 | NON_INITIAL_FRAGMENT | DATAGRAM_INCOMPLETE
  | IP_OPTIONS_INCOMPLETE | UNHANDLED_PROTOCOL | CLONED_SKB_UNSHARE_ERROR

section \<open>The engine\<close>

text \<open>Kernel memory: link fields, the other fields, which objects are allocated, device references.\<close>

record sfe_heap =
  match_next :: "cm_ptr \<Rightarrow> cm_ptr option"
  match_prev :: "cm_ptr \<Rightarrow> cm_ptr option"
  active_next :: "cm_ptr \<Rightarrow> cm_ptr option"
  active_prev :: "cm_ptr \<Rightarrow> cm_ptr option"
  match_active :: "cm_ptr \<Rightarrow> bool"
  cms :: "cm_ptr \<Rightarrow> sfe_ipv4_connection_match"
  conn_next :: "conn_ptr \<Rightarrow> conn_ptr option"
  conn_prev :: "conn_ptr \<Rightarrow> conn_ptr option"
  all_next :: "conn_ptr \<Rightarrow> conn_ptr option"
  all_prev :: "conn_ptr \<Rightarrow> conn_ptr option"
  conns :: "conn_ptr \<Rightarrow> sfe_ipv4_connection"
  cm_live :: "cm_ptr set"
  conn_live :: "conn_ptr set"
  dev_refcnt :: "netdev \<Rightarrow> int"

record sfe_ipv4 = sfe_heap +
  active_head :: "cm_ptr option"
  active_tail :: "cm_ptr option"
  all_connections_head :: "conn_ptr option"
  all_connections_tail :: "conn_ptr option"
  num_connections :: u32
  sync_rule_callback :: "nat option"
  conn_hash :: "u32 \<Rightarrow> conn_ptr option"
  conn_match_hash :: "u32 \<Rightarrow> cm_ptr option"
  connection_create_requests :: u32
  connection_create_collisions :: u32
  connection_destroy_requests :: u32
  connection_destroy_misses :: u32
  connection_match_hash_hits :: u32
  connection_match_hash_reorders :: u32
  connection_flushes :: u32
  packets_forwarded :: u32
  packets_not_forwarded :: u32
  exception_events :: "sfe_ipv4_exception_events \<Rightarrow> u32"
  connection_create_requests64 :: u64
  connection_create_collisions64 :: u64
  connection_destroy_requests64 :: u64
  connection_destroy_misses64 :: u64
  connection_match_hash_hits64 :: u64
  connection_match_hash_reorders64 :: u64
  connection_flushes64 :: u64
  packets_forwarded64 :: u64
  packets_not_forwarded64 :: u64
  exception_events64 :: "sfe_ipv4_exception_events \<Rightarrow> u64"
  debug_read_seq :: u32
  sync_calls :: "(nat \<times> sfe_connection_sync) list" \<comment> \<open>calls of the sync callback, oldest first\<close>

text \<open>\<open>si->exception_events[e]++; si->packets_not_forwarded++\<close>, the end of every rejected packet.\<close>

definition count_exception :: "sfe_ipv4_exception_events \<Rightarrow> sfe_ipv4 \<Rightarrow> sfe_ipv4" where
  "count_exception e s = s\<lparr>exception_events := (exception_events s)(e := exception_events s e + 1),
     packets_not_forwarded := packets_not_forwarded s + 1\<rparr>"

section \<open>Assignments to link fields and list heads\<close>

definition set_match_next :: "cm_ptr \<Rightarrow> cm_ptr option \<Rightarrow> sfe_ipv4 \<Rightarrow> sfe_ipv4" where
  "set_match_next p v s = s\<lparr>match_next := (match_next s)(p := v)\<rparr>"

definition set_match_prev :: "cm_ptr \<Rightarrow> cm_ptr option \<Rightarrow> sfe_ipv4 \<Rightarrow> sfe_ipv4" where
  "set_match_prev p v s = s\<lparr>match_prev := (match_prev s)(p := v)\<rparr>"

definition set_conn_match_hash :: "u32 \<Rightarrow> cm_ptr option \<Rightarrow> sfe_ipv4 \<Rightarrow> sfe_ipv4" where
  "set_conn_match_hash i v s = s\<lparr>conn_match_hash := (conn_match_hash s)(i := v)\<rparr>"

definition set_active_next :: "cm_ptr \<Rightarrow> cm_ptr option \<Rightarrow> sfe_ipv4 \<Rightarrow> sfe_ipv4" where
  "set_active_next p v s = s\<lparr>active_next := (active_next s)(p := v)\<rparr>"

definition set_active_prev :: "cm_ptr \<Rightarrow> cm_ptr option \<Rightarrow> sfe_ipv4 \<Rightarrow> sfe_ipv4" where
  "set_active_prev p v s = s\<lparr>active_prev := (active_prev s)(p := v)\<rparr>"

definition set_active_head :: "cm_ptr option \<Rightarrow> sfe_ipv4 \<Rightarrow> sfe_ipv4" where
  "set_active_head v s = s\<lparr>active_head := v\<rparr>"

definition set_active_tail :: "cm_ptr option \<Rightarrow> sfe_ipv4 \<Rightarrow> sfe_ipv4" where
  "set_active_tail v s = s\<lparr>active_tail := v\<rparr>"

definition set_conn_next :: "conn_ptr \<Rightarrow> conn_ptr option \<Rightarrow> sfe_ipv4 \<Rightarrow> sfe_ipv4" where
  "set_conn_next p v s = s\<lparr>conn_next := (conn_next s)(p := v)\<rparr>"

definition set_conn_prev :: "conn_ptr \<Rightarrow> conn_ptr option \<Rightarrow> sfe_ipv4 \<Rightarrow> sfe_ipv4" where
  "set_conn_prev p v s = s\<lparr>conn_prev := (conn_prev s)(p := v)\<rparr>"

definition set_conn_hash :: "u32 \<Rightarrow> conn_ptr option \<Rightarrow> sfe_ipv4 \<Rightarrow> sfe_ipv4" where
  "set_conn_hash i v s = s\<lparr>conn_hash := (conn_hash s)(i := v)\<rparr>"

definition set_all_next :: "conn_ptr \<Rightarrow> conn_ptr option \<Rightarrow> sfe_ipv4 \<Rightarrow> sfe_ipv4" where
  "set_all_next p v s = s\<lparr>all_next := (all_next s)(p := v)\<rparr>"

definition set_all_prev :: "conn_ptr \<Rightarrow> conn_ptr option \<Rightarrow> sfe_ipv4 \<Rightarrow> sfe_ipv4" where
  "set_all_prev p v s = s\<lparr>all_prev := (all_prev s)(p := v)\<rparr>"

definition set_all_head :: "conn_ptr option \<Rightarrow> sfe_ipv4 \<Rightarrow> sfe_ipv4" where
  "set_all_head v s = s\<lparr>all_connections_head := v\<rparr>"

definition set_all_tail :: "conn_ptr option \<Rightarrow> sfe_ipv4 \<Rightarrow> sfe_ipv4" where
  "set_all_tail v s = s\<lparr>all_connections_tail := v\<rparr>"

lemmas setter_defs = set_match_next_def set_match_prev_def set_conn_match_hash_def
  set_active_next_def set_active_prev_def set_active_head_def set_active_tail_def
  set_conn_next_def set_conn_prev_def set_conn_hash_def
  set_all_next_def set_all_prev_def set_all_head_def set_all_tail_def

section \<open>The four lists of the engine\<close>

interpretation mch: dlist_store match_next match_prev conn_match_hash
  set_match_next set_match_prev set_conn_match_hash
  by unfold_locales (simp_all add: setter_defs)

interpretation cch: dlist_store conn_next conn_prev conn_hash
  set_conn_next set_conn_prev set_conn_hash
  by unfold_locales (simp_all add: setter_defs)

interpretation act: dlist_tail_store active_next active_prev "\<lambda>s _. active_head s"
  set_active_next set_active_prev "\<lambda>_. set_active_head" active_tail set_active_tail
  by unfold_locales (simp_all add: setter_defs fun_eq_iff)

interpretation alls: dlist_tail_store all_next all_prev "\<lambda>s _. all_connections_head s"
  set_all_next set_all_prev "\<lambda>_. set_all_head" all_connections_tail set_all_tail
  by unfold_locales (simp_all add: setter_defs fun_eq_iff)

end
