(* ===== verification/Sfe_Table.thy ===== *)
theory Sfe_Table
  imports Sfe_Types
begin

text \<open>
  The tables of the engine: hash functions, look-up, insertion and removal of connections and of
  their two matches (sfe_ipv4.c, \<open>sfe_ipv4_get_connection_match_hash\<close> to
  \<open>sfe_ipv4_remove_sfe_ipv4_connection\<close>), statement by statement on the pointer structures. A
  chain walk that may not end and a dereference of NULL give None. The build has no
  CONFIG_NF_FLOW_COOKIE, so the flow cookie blocks are compiled out and have no model.
\<close>

section \<open>Byte order\<close>

definition bswap16 :: "u16 \<Rightarrow> u16" where
  "bswap16 x = push_bit 8 x OR drop_bit 8 x"

definition bswap32 :: "u32 \<Rightarrow> u32" where
  "bswap32 x = push_bit 24 x OR push_bit 8 (x AND 0xff00) OR (drop_bit 8 x AND 0xff00) OR drop_bit 24 x"

definition ntohs :: "sfe_env \<Rightarrow> u16 \<Rightarrow> u16" where
  "ntohs E x = (if big_endian E then x else bswap16 x)"

definition ntohl :: "sfe_env \<Rightarrow> u32 \<Rightarrow> u32" where
  "ntohl E x = (if big_endian E then x else bswap32 x)"

section \<open>Hash functions\<close>

definition SFE_IPV4_CONNECTION_HASH_SHIFT :: nat where "SFE_IPV4_CONNECTION_HASH_SHIFT = 12"
definition SFE_IPV4_CONNECTION_HASH_SIZE :: u32 where
  "SFE_IPV4_CONNECTION_HASH_SIZE = push_bit SFE_IPV4_CONNECTION_HASH_SHIFT 1"
definition SFE_IPV4_CONNECTION_HASH_MASK :: u32 where
  "SFE_IPV4_CONNECTION_HASH_MASK = SFE_IPV4_CONNECTION_HASH_SIZE - 1"

lemmas hash_consts = SFE_IPV4_CONNECTION_HASH_SHIFT_def SFE_IPV4_CONNECTION_HASH_SIZE_def
  SFE_IPV4_CONNECTION_HASH_MASK_def

definition sfe_ipv4_get_connection_match_hash ::
  "sfe_env \<Rightarrow> netdev \<Rightarrow> u8 \<Rightarrow> u32 \<Rightarrow> u16 \<Rightarrow> u32 \<Rightarrow> u16 \<Rightarrow> u32" where
  "sfe_ipv4_get_connection_match_hash E dev protocol src_ip src_port dest_ip dest_port =
     (let hash = (ucast dev :: u32) XOR ntohl E (src_ip XOR dest_ip) XOR ucast protocol
                 XOR ucast (ntohs E (src_port XOR dest_port))
      in (drop_bit SFE_IPV4_CONNECTION_HASH_SHIFT hash XOR hash) AND SFE_IPV4_CONNECTION_HASH_MASK)"

definition sfe_ipv4_get_connection_hash :: "sfe_env \<Rightarrow> u8 \<Rightarrow> u32 \<Rightarrow> u16 \<Rightarrow> u32 \<Rightarrow> u16 \<Rightarrow> u32" where
  "sfe_ipv4_get_connection_hash E protocol src_ip src_port dest_ip dest_port =
     (let hash = ntohl E (src_ip XOR dest_ip) XOR ucast protocol
                 XOR ucast (ntohs E (src_port XOR dest_port))
      in (drop_bit SFE_IPV4_CONNECTION_HASH_SHIFT hash XOR hash) AND SFE_IPV4_CONNECTION_HASH_MASK)"

text \<open>The hash of a match entry and of a connection, from the entry's own fields.\<close>

definition cm_hash :: "sfe_env \<Rightarrow> sfe_ipv4_connection_match \<Rightarrow> u32" where
  "cm_hash E m = sfe_ipv4_get_connection_match_hash E (match_dev m) (match_protocol m)
     (match_src_ip m) (match_src_port m) (match_dest_ip m) (match_dest_port m)"

definition c_hash :: "sfe_env \<Rightarrow> sfe_ipv4_connection \<Rightarrow> u32" where
  "c_hash E c = sfe_ipv4_get_connection_hash E (ucast (c_protocol c))
     (c_src_ip c) (c_src_port c) (c_dest_ip c) (c_dest_port c)"

section \<open>Look-up of a match\<close>

definition match_is :: "sfe_ipv4_connection_match \<Rightarrow> netdev \<Rightarrow> u8 \<Rightarrow> u32 \<Rightarrow> u16 \<Rightarrow> u32 \<Rightarrow> u16 \<Rightarrow> bool" where
  "match_is m dev protocol src_ip src_port dest_ip dest_port \<longleftrightarrow>
     match_src_port m = src_port \<and> match_dest_port m = dest_port \<and> match_src_ip m = src_ip \<and>
     match_dest_ip m = dest_ip \<and> match_protocol m = protocol \<and> match_dev m = dev"

text \<open>\<open>do cm = cm->next; while (cm && cm does not match)\<close>, entered with \<open>cm->next\<close>.\<close>

partial_function (option) match_chain_search ::
  "(cm_ptr \<Rightarrow> cm_ptr option) \<Rightarrow> (cm_ptr \<Rightarrow> bool) \<Rightarrow> cm_ptr option \<Rightarrow> cm_ptr option option" where
  "match_chain_search nx P cm =
     (case cm of None \<Rightarrow> Some None
      | Some p \<Rightarrow> if P p then Some (Some p) else match_chain_search nx P (nx p))"

declare match_chain_search.simps [code]

definition sfe_ipv4_find_sfe_ipv4_connection_match ::
  "sfe_env \<Rightarrow> netdev \<Rightarrow> u8 \<Rightarrow> u32 \<Rightarrow> u16 \<Rightarrow> u32 \<Rightarrow> u16 \<Rightarrow> sfe_ipv4 \<Rightarrow> (cm_ptr option \<times> sfe_ipv4) option" where
  "sfe_ipv4_find_sfe_ipv4_connection_match E dev protocol src_ip src_port dest_ip dest_port s =
     (let idx = sfe_ipv4_get_connection_match_hash E dev protocol src_ip src_port dest_ip dest_port;
          is = (\<lambda>p. match_is (cms s p) dev protocol src_ip src_port dest_ip dest_port)
      in case conn_match_hash s idx of
           None \<Rightarrow> Some (None, s)
         | Some head \<Rightarrow>
             if is head
             then Some (Some head, s\<lparr>connection_match_hash_hits := connection_match_hash_hits s + 1\<rparr>)
             else do {
               r \<leftarrow> match_chain_search (match_next s) is (match_next s head);
               (case r of
                  None \<Rightarrow> Some (None, s)
                | Some cm \<Rightarrow> do {
                    let s1 = (case match_next s cm of
                                Some n \<Rightarrow> set_match_prev n (match_prev s cm) s
                              | None \<Rightarrow> s);
                    p \<leftarrow> match_prev s1 cm;
                    let s2 = set_match_next p (match_next s1 cm) s1;
                    let s3 = set_match_prev cm None s2;
                    let s4 = set_match_next cm (Some head) s3;
                    let s5 = set_match_prev head (Some cm) s4;
                    let s6 = set_conn_match_hash idx (Some cm) s5;
                    Some (Some cm, s6\<lparr>connection_match_hash_reorders := connection_match_hash_reorders s6 + 1\<rparr>)
                  })
             })"

section \<open>Insertion and removal of a match\<close>

definition sfe_ipv4_insert_sfe_ipv4_connection_match :: "sfe_env \<Rightarrow> cm_ptr \<Rightarrow> sfe_ipv4 \<Rightarrow> sfe_ipv4" where
  "sfe_ipv4_insert_sfe_ipv4_connection_match E cm s =
     (let idx = cm_hash E (cms s cm);
          prev_head = conn_match_hash s idx;
          s1 = set_match_prev cm None s;
          s2 = (case prev_head of Some h \<Rightarrow> set_match_prev h (Some cm) s1 | None \<Rightarrow> s1);
          s3 = set_match_next cm prev_head s2
      in set_conn_match_hash idx (Some cm) s3)"

definition sfe_ipv4_remove_sfe_ipv4_connection_match :: "sfe_env \<Rightarrow> cm_ptr \<Rightarrow> sfe_ipv4 \<Rightarrow> sfe_ipv4" where
  "sfe_ipv4_remove_sfe_ipv4_connection_match E cm s =
     (let s1 = (case match_prev s cm of
                  Some p \<Rightarrow> set_match_next p (match_next s cm) s
                | None \<Rightarrow> set_conn_match_hash (cm_hash E (cms s cm)) (match_next s cm) s);
          s2 = (case match_next s1 cm of
                  Some n \<Rightarrow> set_match_prev n (match_prev s1 cm) s1
                | None \<Rightarrow> s1)
      in if match_active s2 cm then
           (let s3 = (case active_prev s2 cm of
                        Some p \<Rightarrow> set_active_next p (active_next s2 cm) s2
                      | None \<Rightarrow> set_active_head (active_next s2 cm) s2)
            in case active_next s3 cm of
                 Some n \<Rightarrow> set_active_prev n (active_prev s3 cm) s3
               | None \<Rightarrow> set_active_tail (active_prev s3 cm) s3)
         else s2)"

section \<open>Look-up, insertion and removal of a connection\<close>

definition conn_is :: "sfe_ipv4_connection \<Rightarrow> u32 \<Rightarrow> u32 \<Rightarrow> u16 \<Rightarrow> u32 \<Rightarrow> u16 \<Rightarrow> bool" where
  "conn_is c protocol src_ip src_port dest_ip dest_port \<longleftrightarrow>
     c_src_port c = src_port \<and> c_dest_port c = dest_port \<and> c_src_ip c = src_ip \<and>
     c_dest_ip c = dest_ip \<and> c_protocol c = protocol"

partial_function (option) conn_chain_search ::
  "(conn_ptr \<Rightarrow> conn_ptr option) \<Rightarrow> (conn_ptr \<Rightarrow> bool) \<Rightarrow> conn_ptr option \<Rightarrow> conn_ptr option option" where
  "conn_chain_search nx P c =
     (case c of None \<Rightarrow> Some None
      | Some p \<Rightarrow> if P p then Some (Some p) else conn_chain_search nx P (nx p))"

declare conn_chain_search.simps [code]

definition sfe_ipv4_find_sfe_ipv4_connection ::
  "sfe_env \<Rightarrow> u32 \<Rightarrow> u32 \<Rightarrow> u16 \<Rightarrow> u32 \<Rightarrow> u16 \<Rightarrow> sfe_ipv4 \<Rightarrow> conn_ptr option option" where
  "sfe_ipv4_find_sfe_ipv4_connection E protocol src_ip src_port dest_ip dest_port s =
     (let conn_idx = sfe_ipv4_get_connection_hash E (ucast protocol) src_ip src_port dest_ip dest_port;
          is = (\<lambda>p. conn_is (conns s p) protocol src_ip src_port dest_ip dest_port)
      in case conn_hash s conn_idx of
           None \<Rightarrow> Some None
         | Some c \<Rightarrow> if is c then Some (Some c)
                     else conn_chain_search (conn_next s) is (conn_next s c))"

definition sfe_ipv4_insert_sfe_ipv4_connection :: "sfe_env \<Rightarrow> conn_ptr \<Rightarrow> sfe_ipv4 \<Rightarrow> sfe_ipv4" where
  "sfe_ipv4_insert_sfe_ipv4_connection E c s =
     (let conn_idx = c_hash E (conns s c);
          prev_head = conn_hash s conn_idx;
          s1 = set_conn_prev c None s;
          s2 = (case prev_head of Some h \<Rightarrow> set_conn_prev h (Some c) s1 | None \<Rightarrow> s1);
          s3 = set_conn_next c prev_head s2;
          s4 = set_conn_hash conn_idx (Some c) s3;
          s5 = (case all_connections_tail s4 of
                  Some t \<Rightarrow> set_all_next t (Some c) (set_all_prev c (Some t) s4)
                | None \<Rightarrow> set_all_head (Some c) (set_all_prev c None s4));
          s6 = set_all_tail (Some c) s5;
          s7 = set_all_next c None s6;
          s8 = s7\<lparr>num_connections := num_connections s7 + 1\<rparr>;
          s9 = sfe_ipv4_insert_sfe_ipv4_connection_match E (original_match (conns s8 c)) s8
      in sfe_ipv4_insert_sfe_ipv4_connection_match E (reply_match (conns s9 c)) s9)"

definition sfe_ipv4_remove_sfe_ipv4_connection :: "sfe_env \<Rightarrow> conn_ptr \<Rightarrow> sfe_ipv4 \<Rightarrow> sfe_ipv4" where
  "sfe_ipv4_remove_sfe_ipv4_connection E c s =
     (let s1 = sfe_ipv4_remove_sfe_ipv4_connection_match E (reply_match (conns s c)) s;
          s2 = sfe_ipv4_remove_sfe_ipv4_connection_match E (original_match (conns s1 c)) s1;
          s3 = (case conn_prev s2 c of
                  Some p \<Rightarrow> set_conn_next p (conn_next s2 c) s2
                | None \<Rightarrow> set_conn_hash (c_hash E (conns s2 c)) (conn_next s2 c) s2);
          s4 = (case conn_next s3 c of
                  Some n \<Rightarrow> set_conn_prev n (conn_prev s3 c) s3
                | None \<Rightarrow> s3);
          s5 = (case all_prev s4 c of
                  Some p \<Rightarrow> set_all_next p (all_next s4 c) s4
                | None \<Rightarrow> set_all_head (all_next s4 c) s4);
          s6 = (case all_next s5 c of
                  Some n \<Rightarrow> set_all_prev n (all_prev s5 c) s5
                | None \<Rightarrow> set_all_tail (all_prev s5 c) s5)
      in s6\<lparr>num_connections := num_connections s6 - 1\<rparr>)"

end
