(* ===== verification/Sfe_Table_Inv.thy ===== *)
theory Sfe_Table_Inv
  imports Sfe_Table
begin

text \<open>
  What the tables of the engine represent. \<open>sfe_abs\<close> is the abstract content: the chains of both
  hash tables, the list of active matches and the list of all connections. \<open>table_inv\<close> is the
  invariant that relates it with the pointer structures; every operation of \<open>Sfe_Table\<close> is shown
  to refine an operation on the abstract content.
\<close>

section \<open>Abstract content and invariant\<close>

record sfe_abs =
  mchains :: "u32 \<Rightarrow> cm_ptr list"
  cchains :: "u32 \<Rightarrow> conn_ptr list"
  actives :: "cm_ptr list"
  connl :: "conn_ptr list"

definition lists_rep :: "sfe_ipv4 \<Rightarrow> sfe_abs \<Rightarrow> bool" where
  "lists_rep s A \<longleftrightarrow> mch.repr s (mchains A) \<and> cch.repr s (cchains A) \<and>
     act.trepr s (actives A) \<and> alls.trepr s (connl A)"

definition conn_matches :: "sfe_ipv4 \<Rightarrow> conn_ptr \<Rightarrow> cm_ptr set" where
  "conn_matches s c = {original_match (conns s c), reply_match (conns s c)}"

definition table_matches :: "sfe_ipv4 \<Rightarrow> conn_ptr list \<Rightarrow> cm_ptr set" where
  "table_matches s cs = (\<Union>c\<in>set cs. conn_matches s c)"

text \<open>The two matches of a connection point at it and at each other.\<close>

definition pair_ok :: "sfe_ipv4 \<Rightarrow> conn_ptr \<Rightarrow> bool" where
  "pair_ok s c \<longleftrightarrow>
     (let m = original_match (conns s c); r = reply_match (conns s c)
      in m \<noteq> r \<and> cm_connection (cms s m) = c \<and> cm_connection (cms s r) = c \<and>
         cm_counter_match (cms s m) = r \<and> cm_counter_match (cms s r) = m)"

text \<open>
  \<open>A\<close> is what the tables hold, \<open>D\<close> the connections that are allocated but in no table: removed and
  not yet flushed, or not yet inserted.
\<close>

definition table_inv :: "sfe_env \<Rightarrow> sfe_ipv4 \<Rightarrow> sfe_abs \<Rightarrow> conn_ptr list \<Rightarrow> bool" where
  "table_inv E s A D \<longleftrightarrow>
     lists_rep s A \<and>
     distinct (connl A @ D) \<and>
     (\<forall>c\<in>set (connl A @ D). pair_ok s c) \<and>
     conn_live s = set (connl A @ D) \<and>
     cm_live s = table_matches s (connl A @ D) \<and>
     (\<forall>i. set (mchains A i) = {p \<in> table_matches s (connl A). cm_hash E (cms s p) = i}) \<and>
     (\<forall>i. set (cchains A i) = {c \<in> set (connl A). c_hash E (conns s c) = i}) \<and>
     set (actives A) = {p \<in> table_matches s (connl A). match_active s p} \<and>
     (\<forall>p\<in>table_matches s (connl A). \<not> match_active s p \<longrightarrow> active_next s p = None) \<and>
     num_connections s = of_nat (length (connl A))"

lemma table_matches_Nil [simp]: "table_matches s [] = {}"
  by (simp add: table_matches_def)

lemma table_matches_Cons [simp]:
  "table_matches s (c # cs) = conn_matches s c \<union> table_matches s cs"
  by (simp add: table_matches_def)

lemma table_matches_append [simp]:
  "table_matches s (cs @ ds) = table_matches s cs \<union> table_matches s ds"
  by (simp add: table_matches_def)

lemma table_matches_cong: "conns s' = conns s \<Longrightarrow> table_matches s' cs = table_matches s cs"
  by (simp add: table_matches_def conn_matches_def)

text \<open>Matches of different connections are different.\<close>

lemma conn_matches_owner:
  "pair_ok s c \<Longrightarrow> p \<in> conn_matches s c \<Longrightarrow> cm_connection (cms s p) = c"
  by (auto simp: pair_ok_def conn_matches_def Let_def)

lemma conn_matches_disjoint:
  assumes "pair_ok s c" and "\<forall>d\<in>set cs. pair_ok s d" and "c \<notin> set cs"
  shows "conn_matches s c \<inter> table_matches s cs = {}"
  using assms by (auto simp: table_matches_def) (metis conn_matches_owner)

lemma table_matches_remove1:
  assumes "\<forall>d\<in>set cs. pair_ok s d" and "distinct cs" and "c \<in> set cs"
  shows "table_matches s (remove1 c cs) = table_matches s cs - conn_matches s c"
proof -
  obtain as bs where s: "cs = as @ c # bs" and n: "c \<notin> set as" "c \<notin> set bs"
    using assms(2,3) by (rule distinct_split)
  have "conn_matches s c \<inter> table_matches s (as @ bs) = {}"
    using assms(1) n by (intro conn_matches_disjoint) (auto simp: s)
  then show ?thesis using n by (auto simp: s remove1_split)
qed

section \<open>Chain walks\<close>

lemma match_chain_search_dseg:
  "dseg nx pv h b xs None \<Longrightarrow> match_chain_search nx P h = Some (List.find P xs)"
  by (induction xs arbitrary: h b) (simp_all add: match_chain_search.simps)

lemma conn_chain_search_dseg:
  "dseg nx pv h b xs None \<Longrightarrow> conn_chain_search nx P h = Some (List.find P xs)"
  by (induction xs arbitrary: h b) (simp_all add: conn_chain_search.simps)

section \<open>Removal of one match\<close>

lemma remove_match_conv:
  "sfe_ipv4_remove_sfe_ipv4_connection_match E p s =
     (let s2 = mch.unlink (cm_hash E (cms s p)) p s
      in if match_active s2 p then act.dequeue p s2 else s2)"
  by (simp add: sfe_ipv4_remove_sfe_ipv4_connection_match_def mch.unlink_def act.dequeue_def Let_def)

text \<open>Unlinking touches the cells of its own list only.\<close>

lemma mch_unlink_frame [simp]:
  "cms (mch.unlink i p s) = cms s" "conns (mch.unlink i p s) = conns s"
  "match_active (mch.unlink i p s) = match_active s"
  "active_next (mch.unlink i p s) = active_next s" "active_prev (mch.unlink i p s) = active_prev s"
  "active_head (mch.unlink i p s) = active_head s" "active_tail (mch.unlink i p s) = active_tail s"
  "conn_next (mch.unlink i p s) = conn_next s" "conn_prev (mch.unlink i p s) = conn_prev s"
  "conn_hash (mch.unlink i p s) = conn_hash s"
  "all_next (mch.unlink i p s) = all_next s" "all_prev (mch.unlink i p s) = all_prev s"
  "all_connections_head (mch.unlink i p s) = all_connections_head s"
  "all_connections_tail (mch.unlink i p s) = all_connections_tail s"
  "num_connections (mch.unlink i p s) = num_connections s"
  "cm_live (mch.unlink i p s) = cm_live s" "conn_live (mch.unlink i p s) = conn_live s"
  by (simp_all add: mch.unlink_def setter_defs Let_def split: option.split)

lemma act_dequeue_frame [simp]:
  "cms (act.dequeue p s) = cms s" "conns (act.dequeue p s) = conns s"
  "match_active (act.dequeue p s) = match_active s"
  "match_next (act.dequeue p s) = match_next s" "match_prev (act.dequeue p s) = match_prev s"
  "conn_match_hash (act.dequeue p s) = conn_match_hash s"
  "conn_next (act.dequeue p s) = conn_next s" "conn_prev (act.dequeue p s) = conn_prev s"
  "conn_hash (act.dequeue p s) = conn_hash s"
  "all_next (act.dequeue p s) = all_next s" "all_prev (act.dequeue p s) = all_prev s"
  "all_connections_head (act.dequeue p s) = all_connections_head s"
  "all_connections_tail (act.dequeue p s) = all_connections_tail s"
  "num_connections (act.dequeue p s) = num_connections s"
  "cm_live (act.dequeue p s) = cm_live s" "conn_live (act.dequeue p s) = conn_live s"
  by (simp_all add: act.dequeue_def setter_defs Let_def split: option.split)

lemma remove_match_frame [simp]:
  "cms (sfe_ipv4_remove_sfe_ipv4_connection_match E p s) = cms s"
  "conns (sfe_ipv4_remove_sfe_ipv4_connection_match E p s) = conns s"
  "match_active (sfe_ipv4_remove_sfe_ipv4_connection_match E p s) = match_active s"
  "num_connections (sfe_ipv4_remove_sfe_ipv4_connection_match E p s) = num_connections s"
  "cm_live (sfe_ipv4_remove_sfe_ipv4_connection_match E p s) = cm_live s"
  "conn_live (sfe_ipv4_remove_sfe_ipv4_connection_match E p s) = conn_live s"
  by (simp_all add: remove_match_conv Let_def)

lemma remove_match_lists:
  assumes L: "lists_rep s A" and i: "i = cm_hash E (cms s p)" and p: "p \<in> set (mchains A i)"
    and a: "match_active s p \<longleftrightarrow> p \<in> set (actives A)"
  shows "lists_rep (sfe_ipv4_remove_sfe_ipv4_connection_match E p s)
           (A\<lparr>mchains := (mchains A)(i := remove1 p (mchains A i)), actives := remove1 p (actives A)\<rparr>)"
proof -
  let ?u = "mch.unlink i p s" and ?t = "sfe_ipv4_remove_sfe_ipv4_connection_match E p s"
  have m: "mch.repr ?u ((mchains A)(i := remove1 p (mchains A i)))"
    using L p unfolding lists_rep_def by (blast intro: mch.repr_unlink)
  have t: "?t = (if p \<in> set (actives A) then act.dequeue p ?u else ?u)"
    by (simp add: remove_match_conv i Let_def flip: a)
  have au: "act.trepr ?u (actives A)"
    using L by (simp add: lists_rep_def act.trepr_def)
  have "act.trepr ?t (remove1 p (actives A))"
    using act.trepr_dequeue [OF au] au by (auto simp: t remove1_idem)
  moreover have "mch.repr ?t ((mchains A)(i := remove1 p (mchains A i)))"
    using m by (auto simp: t mch.repr_def)
  moreover have "cch.repr ?t (cchains A)" and "alls.trepr ?t (connl A)"
    using L by (auto simp: t lists_rep_def cch.repr_def alls.trepr_def)
  ultimately show ?thesis by (simp add: lists_rep_def)
qed

text \<open>Matches that are not active keep an empty link to the active list.\<close>

lemma remove_match_active_next:
  assumes "lists_rep s A" and a: "match_active s p \<longleftrightarrow> p \<in> set (actives A)" and "q \<notin> set (actives A)"
  shows "active_next (sfe_ipv4_remove_sfe_ipv4_connection_match E p s) q = active_next s q"
proof (cases "p \<in> set (actives A)")
  case True
  have "act.trepr (mch.unlink (cm_hash E (cms s p)) p s) (actives A)"
    using assms(1) by (simp add: lists_rep_def act.trepr_def)
  from act.nxt_dequeue [OF this True assms(3)] True a show ?thesis
    by (simp add: remove_match_conv Let_def)
next
  case False
  with a show ?thesis by (simp add: remove_match_conv Let_def)
qed

section \<open>Removal of a connection\<close>

definition abs_remove :: "sfe_env \<Rightarrow> sfe_ipv4 \<Rightarrow> conn_ptr \<Rightarrow> sfe_abs \<Rightarrow> sfe_abs" where
  "abs_remove E s c A =
     (let m = original_match (conns s c); r = reply_match (conns s c)
      in A\<lparr>mchains := (\<lambda>i. remove1 m (remove1 r (mchains A i))),
           cchains := (\<lambda>i. remove1 c (cchains A i)),
           actives := remove1 m (remove1 r (actives A)),
           connl := remove1 c (connl A)\<rparr>)"

lemma remove_conn_conv:
  "sfe_ipv4_remove_sfe_ipv4_connection E c s =
     (let s1 = sfe_ipv4_remove_sfe_ipv4_connection_match E (reply_match (conns s c)) s;
          s2 = sfe_ipv4_remove_sfe_ipv4_connection_match E (original_match (conns s c)) s1;
          s4 = cch.unlink (c_hash E (conns s c)) c s2;
          s6 = alls.dequeue c s4
      in s6\<lparr>num_connections := num_connections s6 - 1\<rparr>)"
  by (simp only: sfe_ipv4_remove_sfe_ipv4_connection_def cch.unlink_def alls.dequeue_def Let_def
      remove_match_frame)

lemma cch_unlink_frame [simp]:
  "cms (cch.unlink i p s) = cms s" "conns (cch.unlink i p s) = conns s"
  "match_active (cch.unlink i p s) = match_active s"
  "match_next (cch.unlink i p s) = match_next s" "match_prev (cch.unlink i p s) = match_prev s"
  "conn_match_hash (cch.unlink i p s) = conn_match_hash s"
  "active_next (cch.unlink i p s) = active_next s" "active_prev (cch.unlink i p s) = active_prev s"
  "active_head (cch.unlink i p s) = active_head s" "active_tail (cch.unlink i p s) = active_tail s"
  "all_next (cch.unlink i p s) = all_next s" "all_prev (cch.unlink i p s) = all_prev s"
  "all_connections_head (cch.unlink i p s) = all_connections_head s"
  "all_connections_tail (cch.unlink i p s) = all_connections_tail s"
  "num_connections (cch.unlink i p s) = num_connections s"
  "cm_live (cch.unlink i p s) = cm_live s" "conn_live (cch.unlink i p s) = conn_live s"
  by (simp_all add: cch.unlink_def setter_defs Let_def split: option.split)

lemma alls_dequeue_frame [simp]:
  "cms (alls.dequeue p s) = cms s" "conns (alls.dequeue p s) = conns s"
  "match_active (alls.dequeue p s) = match_active s"
  "match_next (alls.dequeue p s) = match_next s" "match_prev (alls.dequeue p s) = match_prev s"
  "conn_match_hash (alls.dequeue p s) = conn_match_hash s"
  "active_next (alls.dequeue p s) = active_next s" "active_prev (alls.dequeue p s) = active_prev s"
  "active_head (alls.dequeue p s) = active_head s" "active_tail (alls.dequeue p s) = active_tail s"
  "conn_next (alls.dequeue p s) = conn_next s" "conn_prev (alls.dequeue p s) = conn_prev s"
  "conn_hash (alls.dequeue p s) = conn_hash s"
  "num_connections (alls.dequeue p s) = num_connections s"
  "cm_live (alls.dequeue p s) = cm_live s" "conn_live (alls.dequeue p s) = conn_live s"
  by (simp_all add: alls.dequeue_def setter_defs Let_def split: option.split)

text \<open>The membership facts of the invariant, for one connection.\<close>

lemma table_inv_conn:
  assumes "table_inv E s A D" and "c \<in> set (connl A)"
  shows "pair_ok s c"
    and "p \<in> conn_matches s c \<Longrightarrow> p \<in> set (mchains A (cm_hash E (cms s p)))"
    and "p \<in> conn_matches s c \<Longrightarrow> p \<in> set (mchains A i) \<longleftrightarrow> i = cm_hash E (cms s p)"
    and "p \<in> conn_matches s c \<Longrightarrow> match_active s p \<longleftrightarrow> p \<in> set (actives A)"
    and "c \<in> set (cchains A i) \<longleftrightarrow> i = c_hash E (conns s c)"
  using assms by (auto simp: table_inv_def table_matches_def)

lemma abs_remove_chain:
  assumes I: "table_inv E s A D" and c: "c \<in> set (connl A)"
    and p: "p \<in> conn_matches s c" and i: "i = cm_hash E (cms s p)"
  shows "remove1 p (mchains A j) = ((mchains A)(i := remove1 p (mchains A i))) j"
  using table_inv_conn(3) [OF I c p, of j] i by (auto simp: remove1_idem)

theorem remove_connection_lists:
  assumes I: "table_inv E s A D" and c: "c \<in> set (connl A)"
  shows "lists_rep (sfe_ipv4_remove_sfe_ipv4_connection E c s) (abs_remove E s c A)"
proof -
  let ?m = "original_match (conns s c)" and ?r = "reply_match (conns s c)"
  let ?hm = "cm_hash E (cms s ?m)" and ?hr = "cm_hash E (cms s ?r)"
  let ?s1 = "sfe_ipv4_remove_sfe_ipv4_connection_match E ?r s"
  let ?s2 = "sfe_ipv4_remove_sfe_ipv4_connection_match E ?m ?s1"
  let ?A1 = "A\<lparr>mchains := (mchains A)(?hr := remove1 ?r (mchains A ?hr)), actives := remove1 ?r (actives A)\<rparr>"
  let ?A2 = "?A1\<lparr>mchains := (mchains ?A1)(?hm := remove1 ?m (mchains ?A1 ?hm)), actives := remove1 ?m (actives ?A1)\<rparr>"
  have mr: "?m \<in> conn_matches s c" "?r \<in> conn_matches s c" by (simp_all add: conn_matches_def)
  have ne: "?m \<noteq> ?r" using table_inv_conn(1) [OF I c] by (simp add: pair_ok_def Let_def)
  have L: "lists_rep s A" using I by (simp add: table_inv_def)
  have L1: "lists_rep ?s1 ?A1"
    using L table_inv_conn(2,4) [OF I c mr(2)] by (intro remove_match_lists) auto
  have L2: "lists_rep ?s2 ?A2"
  proof (rule remove_match_lists [OF L1])
    show "?m \<in> set (mchains ?A1 ?hm)"
      using table_inv_conn(2) [OF I c mr(1)] ne by (auto simp: in_set_remove1)
    show "match_active ?s1 ?m \<longleftrightarrow> ?m \<in> set (actives ?A1)"
      using table_inv_conn(4) [OF I c mr(1)] ne by (simp add: in_set_remove1)
  qed simp
  have chains: "mchains ?A2 = mchains (abs_remove E s c A)"
  proof
    fix j
    have "mchains (abs_remove E s c A) j = remove1 ?m (remove1 ?r (mchains A j))"
      by (simp add: abs_remove_def Let_def)
    moreover have "j \<noteq> ?hm \<Longrightarrow> ?m \<notin> set (remove1 ?r (mchains A j))"
      using table_inv_conn(3) [OF I c mr(1), of j] by (auto dest: notin_set_remove1)
    moreover have "j \<noteq> ?hr \<Longrightarrow> ?r \<notin> set (mchains A j)"
      using table_inv_conn(3) [OF I c mr(2), of j] by auto
    ultimately show "mchains ?A2 j = mchains (abs_remove E s c A) j"
      by (auto simp: remove1_idem)
  qed
  let ?s4 = "cch.unlink (c_hash E (conns s c)) c ?s2" and ?hc = "c_hash E (conns s c)"
  have cc: "cch.repr ?s4 ((cchains A)(?hc := remove1 c (cchains A ?hc)))"
  proof (rule cch.repr_unlink)
    show "cch.repr ?s2 (cchains A)" using L2 by (simp add: lists_rep_def)
    show "c \<in> set (cchains A ?hc)" using table_inv_conn(5) [OF I c] by simp
  qed
  have cchains: "(cchains A)(?hc := remove1 c (cchains A ?hc)) = cchains (abs_remove E s c A)"
    using table_inv_conn(5) [OF I c] by (auto simp: abs_remove_def Let_def fun_eq_iff remove1_idem)
  have al: "alls.trepr (alls.dequeue c ?s4) (remove1 c (connl A))"
  proof (rule alls.trepr_dequeue)
    show "alls.trepr ?s4 (connl A)" using L2 by (simp add: lists_rep_def alls.trepr_def)
  qed (rule c)
  have "mch.repr ?s2 (mchains ?A2)" and "act.trepr ?s2 (actives ?A2)"
    using L2 by (simp_all add: lists_rep_def)
  then show ?thesis
    using al cc unfolding chains cchains
    by (simp add: lists_rep_def remove_conn_conv Let_def mch.repr_def cch.repr_def act.trepr_def
        alls.trepr_def) (simp add: abs_remove_def Let_def)
qed

lemma remove_connection_frame [simp]:
  "cms (sfe_ipv4_remove_sfe_ipv4_connection E c s) = cms s"
  "conns (sfe_ipv4_remove_sfe_ipv4_connection E c s) = conns s"
  "match_active (sfe_ipv4_remove_sfe_ipv4_connection E c s) = match_active s"
  "num_connections (sfe_ipv4_remove_sfe_ipv4_connection E c s) = num_connections s - 1"
  "cm_live (sfe_ipv4_remove_sfe_ipv4_connection E c s) = cm_live s"
  "conn_live (sfe_ipv4_remove_sfe_ipv4_connection E c s) = conn_live s"
  by (simp_all add: remove_conn_conv Let_def)

lemma remove_connection_active_next:
  assumes I: "table_inv E s A D" and c: "c \<in> set (connl A)" and q: "q \<notin> set (actives A)"
  shows "active_next (sfe_ipv4_remove_sfe_ipv4_connection E c s) q = active_next s q"
proof -
  let ?m = "original_match (conns s c)" and ?r = "reply_match (conns s c)"
  let ?s1 = "sfe_ipv4_remove_sfe_ipv4_connection_match E ?r s"
  let ?A1 = "A\<lparr>mchains := (mchains A)(cm_hash E (cms s ?r) := remove1 ?r (mchains A (cm_hash E (cms s ?r)))),
    actives := remove1 ?r (actives A)\<rparr>"
  have mr: "?m \<in> conn_matches s c" "?r \<in> conn_matches s c" by (simp_all add: conn_matches_def)
  have ne: "?m \<noteq> ?r" using table_inv_conn(1) [OF I c] by (simp add: pair_ok_def Let_def)
  have L: "lists_rep s A" using I by (simp add: table_inv_def)
  have L1: "lists_rep ?s1 ?A1"
    using L table_inv_conn(2,4) [OF I c mr(2)] by (intro remove_match_lists) auto
  have "active_next (sfe_ipv4_remove_sfe_ipv4_connection_match E ?m ?s1) q = active_next ?s1 q"
    using table_inv_conn(4) [OF I c mr(1)] ne q
    by (intro remove_match_active_next [OF L1]) (auto simp: in_set_remove1 dest: notin_set_remove1)
  also have "active_next ?s1 q = active_next s q"
    using table_inv_conn(4) [OF I c mr(2)] q by (intro remove_match_active_next [OF L]) auto
  finally show ?thesis by (simp add: remove_conn_conv Let_def)
qed

lemma abs_remove_sets:
  assumes I: "table_inv E s A D" and c: "c \<in> set (connl A)"
  shows "set (mchains (abs_remove E s c A) i) = set (mchains A i) - conn_matches s c"
    and "set (cchains (abs_remove E s c A) i) = set (cchains A i) - {c}"
    and "set (actives (abs_remove E s c A)) = set (actives A) - conn_matches s c"
    and "connl (abs_remove E s c A) = remove1 c (connl A)"
proof -
  have "distinct (mchains A i)" and "distinct (cchains A i)" and "distinct (actives A)"
    using I by (auto simp: table_inv_def lists_rep_def
      dest: mch.repr_distinct cch.repr_distinct act.trepr_distinct)
  then show "set (mchains (abs_remove E s c A) i) = set (mchains A i) - conn_matches s c"
    and "set (cchains (abs_remove E s c A) i) = set (cchains A i) - {c}"
    and "set (actives (abs_remove E s c A)) = set (actives A) - conn_matches s c"
    and "connl (abs_remove E s c A) = remove1 c (connl A)"
    by (auto simp: abs_remove_def Let_def conn_matches_def)
qed

text \<open>Removal moves the connection from the tables to the detached ones.\<close>

theorem remove_connection_inv:
  assumes I: "table_inv E s A D" and c: "c \<in> set (connl A)"
  shows "table_inv E (sfe_ipv4_remove_sfe_ipv4_connection E c s) (abs_remove E s c A) (c # D)"
proof -
  let ?t = "sfe_ipv4_remove_sfe_ipv4_connection E c s" and ?B = "abs_remove E s c A"
  note sets = abs_remove_sets [OF I c]
  have d: "distinct (connl A)" "distinct D" "set (connl A) \<inter> set D = {}"
    and pair: "\<forall>d\<in>set (connl A). pair_ok s d" "\<forall>d\<in>set D. pair_ok s d"
    using I by (auto simp: table_inv_def)
  have tm: "table_matches ?t cs = table_matches s cs" for cs
    by (rule table_matches_cong) simp
  have rest: "table_matches s (remove1 c (connl A)) = table_matches s (connl A) - conn_matches s c"
    using pair(1) d(1) c by (rule table_matches_remove1)
  have sub: "conn_matches s c \<subseteq> table_matches s (connl A)"
    using c by (auto simp: table_matches_def)
  have po: "pair_ok ?t d = pair_ok s d" for d by (simp add: pair_ok_def)
  have len: "length (connl A) = Suc (length (remove1 c (connl A)))"
    using c by (simp add: length_remove1) (metis Suc_pred length_pos_if_in_set)
  have an: "active_next ?t q = None" if "q \<in> table_matches s (connl A)" "\<not> match_active s q" for q
    using that I remove_connection_active_next [OF I c, of q] by (auto simp: table_inv_def)
  show ?thesis
    unfolding table_inv_def tm po sets remove_connection_frame
  proof (intro conjI)
    show "lists_rep ?t ?B" using I c by (rule remove_connection_lists)
    show "distinct (remove1 c (connl A) @ c # D)"
      using d c by (auto dest: notin_set_remove1)
    show "\<forall>d\<in>set (remove1 c (connl A) @ c # D). pair_ok s d"
      using pair c by (auto dest: notin_set_remove1)
    show "conn_live s = set (remove1 c (connl A) @ c # D)"
      using I d(1) c by (auto simp: table_inv_def)
    show "cm_live s = table_matches s (remove1 c (connl A) @ c # D)"
      using I rest sub by (auto simp: table_inv_def)
    show "\<forall>i. set (mchains A i) - conn_matches s c =
        {p \<in> table_matches s (remove1 c (connl A)). cm_hash E (cms s p) = i}"
      using I rest by (auto simp: table_inv_def)
    show "\<forall>i. set (cchains A i) - {c} = {d \<in> set (remove1 c (connl A)). c_hash E (conns s d) = i}"
      using I d(1) by (auto simp: table_inv_def)
    show "set (actives A) - conn_matches s c =
        {p \<in> table_matches s (remove1 c (connl A)). match_active s p}"
      using I rest by (auto simp: table_inv_def)
    show "\<forall>p\<in>table_matches s (remove1 c (connl A)). \<not> match_active s p \<longrightarrow> active_next ?t p = None"
      using an rest by auto
    show "num_connections s - 1 = of_nat (length (remove1 c (connl A)))"
      using I len by (simp add: table_inv_def)
  qed
qed

section \<open>Insertion of a connection\<close>

lemma insert_match_conv:
  "sfe_ipv4_insert_sfe_ipv4_connection_match E p s = mch.push (cm_hash E (cms s p)) p s"
  by (simp only: sfe_ipv4_insert_sfe_ipv4_connection_match_def mch.push_def Let_def)

lemma insert_conn_conv:
  "sfe_ipv4_insert_sfe_ipv4_connection E c s =
     (let s4 = cch.push (c_hash E (conns s c)) c s;
          s7 = set_all_next c None (alls.enqueue c s4);
          s8 = s7\<lparr>num_connections := num_connections s7 + 1\<rparr>;
          s9 = sfe_ipv4_insert_sfe_ipv4_connection_match E (original_match (conns s8 c)) s8
      in sfe_ipv4_insert_sfe_ipv4_connection_match E (reply_match (conns s9 c)) s9)"
proof -
  have "alls.enqueue c t =
      set_all_tail (Some c) (case all_connections_tail t of
          Some u \<Rightarrow> set_all_next u (Some c) (set_all_prev c (Some u) t)
        | None \<Rightarrow> set_all_head (Some c) (set_all_prev c None t))" for t
    by (simp add: alls.enqueue_def Let_def split: option.split)
  then show ?thesis
    by (simp only: sfe_ipv4_insert_sfe_ipv4_connection_def cch.push_def Let_def)
qed

lemma mch_push_frame [simp]:
  "cms (mch.push i p s) = cms s" "conns (mch.push i p s) = conns s"
  "match_active (mch.push i p s) = match_active s"
  "active_next (mch.push i p s) = active_next s" "active_prev (mch.push i p s) = active_prev s"
  "active_head (mch.push i p s) = active_head s" "active_tail (mch.push i p s) = active_tail s"
  "conn_next (mch.push i p s) = conn_next s" "conn_prev (mch.push i p s) = conn_prev s"
  "conn_hash (mch.push i p s) = conn_hash s"
  "all_next (mch.push i p s) = all_next s" "all_prev (mch.push i p s) = all_prev s"
  "all_connections_head (mch.push i p s) = all_connections_head s"
  "all_connections_tail (mch.push i p s) = all_connections_tail s"
  "num_connections (mch.push i p s) = num_connections s"
  "cm_live (mch.push i p s) = cm_live s" "conn_live (mch.push i p s) = conn_live s"
  by (simp_all add: mch.push_def setter_defs Let_def split: option.split)

text \<open>Linking the connection into its chain and into the list of all connections.\<close>

definition link_conn :: "sfe_env \<Rightarrow> conn_ptr \<Rightarrow> sfe_ipv4 \<Rightarrow> sfe_ipv4" where
  "link_conn E c s =
     (let s7 = set_all_next c None (alls.enqueue c (cch.push (c_hash E (conns s c)) c s))
      in s7\<lparr>num_connections := num_connections s7 + 1\<rparr>)"

lemma link_conn_frame [simp]:
  "cms (link_conn E c s) = cms s" "conns (link_conn E c s) = conns s"
  "match_active (link_conn E c s) = match_active s"
  "match_next (link_conn E c s) = match_next s" "match_prev (link_conn E c s) = match_prev s"
  "conn_match_hash (link_conn E c s) = conn_match_hash s"
  "active_next (link_conn E c s) = active_next s" "active_prev (link_conn E c s) = active_prev s"
  "active_head (link_conn E c s) = active_head s" "active_tail (link_conn E c s) = active_tail s"
  "num_connections (link_conn E c s) = num_connections s + 1"
  "cm_live (link_conn E c s) = cm_live s" "conn_live (link_conn E c s) = conn_live s"
  by (simp_all add: link_conn_def cch.push_def alls.enqueue_def setter_defs Let_def split: option.split)

lemma insert_conn_conv':
  "sfe_ipv4_insert_sfe_ipv4_connection E c s =
     mch.push (cm_hash E (cms s (reply_match (conns s c)))) (reply_match (conns s c))
       (mch.push (cm_hash E (cms s (original_match (conns s c)))) (original_match (conns s c))
         (link_conn E c s))"
proof -
  have "sfe_ipv4_insert_sfe_ipv4_connection E c s =
     (let s9 = sfe_ipv4_insert_sfe_ipv4_connection_match E
                 (original_match (conns (link_conn E c s) c)) (link_conn E c s)
      in sfe_ipv4_insert_sfe_ipv4_connection_match E (reply_match (conns s9 c)) s9)"
    by (simp only: insert_conn_conv link_conn_def Let_def)
  then show ?thesis by (simp add: insert_match_conv Let_def)
qed

lemma insert_connection_frame [simp]:
  "cms (sfe_ipv4_insert_sfe_ipv4_connection E c s) = cms s"
  "conns (sfe_ipv4_insert_sfe_ipv4_connection E c s) = conns s"
  "match_active (sfe_ipv4_insert_sfe_ipv4_connection E c s) = match_active s"
  "active_next (sfe_ipv4_insert_sfe_ipv4_connection E c s) = active_next s"
  "num_connections (sfe_ipv4_insert_sfe_ipv4_connection E c s) = num_connections s + 1"
  "cm_live (sfe_ipv4_insert_sfe_ipv4_connection E c s) = cm_live s"
  "conn_live (sfe_ipv4_insert_sfe_ipv4_connection E c s) = conn_live s"
  by (simp_all add: insert_conn_conv')

definition abs_insert :: "sfe_env \<Rightarrow> sfe_ipv4 \<Rightarrow> conn_ptr \<Rightarrow> sfe_abs \<Rightarrow> sfe_abs" where
  "abs_insert E s c A =
     (let m = original_match (conns s c); r = reply_match (conns s c);
          hm = cm_hash E (cms s m); hr = cm_hash E (cms s r); hc = c_hash E (conns s c);
          mc = (mchains A)(hm := m # mchains A hm)
      in A\<lparr>mchains := mc(hr := r # mc hr),
           cchains := (cchains A)(hc := c # cchains A hc),
           connl := connl A @ [c]\<rparr>)"

lemma link_conn_lists:
  assumes L: "lists_rep s A" and new: "\<And>i. c \<notin> set (cchains A i)" "c \<notin> set (connl A)"
  shows "lists_rep (link_conn E c s)
    (A\<lparr>cchains := (cchains A)(c_hash E (conns s c) := c # cchains A (c_hash E (conns s c))),
       connl := connl A @ [c]\<rparr>)"
proof -
  let ?s4 = "cch.push (c_hash E (conns s c)) c s"
  have cc: "cch.repr ?s4 ((cchains A)(c_hash E (conns s c) := c # cchains A (c_hash E (conns s c))))"
    using L new(1) by (intro cch.repr_push) (simp_all add: lists_rep_def)
  have "alls.trepr ?s4 (connl A)"
    using L by (simp add: lists_rep_def alls.trepr_def cch.push_def setter_defs Let_def split: option.split)
  then have al: "alls.trepr (set_all_next c None (alls.enqueue c ?s4)) (connl A @ [c])"
    using new(2) by (rule alls.trepr_enqueue_clear)
  have "cch.repr (link_conn E c s) ((cchains A)(c_hash E (conns s c) := c # cchains A (c_hash E (conns s c))))"
    using cc cch.repr_cong [of "link_conn E c s" ?s4]
    by (simp add: link_conn_def alls.enqueue_def setter_defs Let_def split: option.split)
  moreover have "alls.trepr (link_conn E c s) (connl A @ [c])"
    using al by (simp add: alls.trepr_def link_conn_def Let_def)
  ultimately show ?thesis
    using L by (simp add: lists_rep_def mch.repr_def act.trepr_def)
qed

lemma mch_push_lists:
  assumes "lists_rep s A" and "\<And>i. p \<notin> set (mchains A i)"
  shows "lists_rep (mch.push i p s) (A\<lparr>mchains := (mchains A)(i := p # mchains A i)\<rparr>)"
  using assms mch.repr_push [of s "mchains A" p i]
  by (simp add: lists_rep_def cch.repr_def act.trepr_def alls.trepr_def)

lemma insert_connection_lists:
  assumes L: "lists_rep s A" and new: "\<And>i. c \<notin> set (cchains A i)" "c \<notin> set (connl A)"
    and m: "\<And>i. original_match (conns s c) \<notin> set (mchains A i)"
    and r: "\<And>i. reply_match (conns s c) \<notin> set (mchains A i)"
    and ne: "original_match (conns s c) \<noteq> reply_match (conns s c)"
  shows "lists_rep (sfe_ipv4_insert_sfe_ipv4_connection E c s) (abs_insert E s c A)"
proof -
  let ?m = "original_match (conns s c)" and ?r = "reply_match (conns s c)"
  let ?hm = "cm_hash E (cms s ?m)" and ?hr = "cm_hash E (cms s ?r)"
  let ?A1 = "A\<lparr>cchains := (cchains A)(c_hash E (conns s c) := c # cchains A (c_hash E (conns s c))),
       connl := connl A @ [c]\<rparr>"
  let ?A2 = "?A1\<lparr>mchains := (mchains ?A1)(?hm := ?m # mchains ?A1 ?hm)\<rparr>"
  have "lists_rep (mch.push ?hm ?m (link_conn E c s)) ?A2"
    by (rule mch_push_lists [OF link_conn_lists [OF L new]]) (use m in auto)
  then have "lists_rep (mch.push ?hr ?r (mch.push ?hm ?m (link_conn E c s)))
      (?A2\<lparr>mchains := (mchains ?A2)(?hr := ?r # mchains ?A2 ?hr)\<rparr>)"
    by (rule mch_push_lists) (use r ne in auto)
  moreover have "?A2\<lparr>mchains := (mchains ?A2)(?hr := ?r # mchains ?A2 ?hr)\<rparr> = abs_insert E s c A"
    by (simp add: abs_insert_def Let_def)
  ultimately show ?thesis by (simp only: insert_conn_conv')
qed

theorem insert_connection_inv:
  assumes I: "table_inv E s A (c # D)"
    and idle: "\<And>p. p \<in> conn_matches s c \<Longrightarrow> \<not> match_active s p \<and> active_next s p = None"
  shows "table_inv E (sfe_ipv4_insert_sfe_ipv4_connection E c s) (abs_insert E s c A) D"
proof -
  let ?t = "sfe_ipv4_insert_sfe_ipv4_connection E c s" and ?B = "abs_insert E s c A"
  let ?m = "original_match (conns s c)" and ?r = "reply_match (conns s c)"
  have pair: "pair_ok s c" "\<forall>d\<in>set (connl A). pair_ok s d"
    and new: "c \<notin> set (connl A)" and newc: "c \<notin> set (cchains A i)" for i
    using I by (auto simp: table_inv_def)
  have ne: "?m \<noteq> ?r" using pair(1) by (simp add: pair_ok_def Let_def)
  have dis: "conn_matches s c \<inter> table_matches s (connl A) = {}"
    using pair new by (rule conn_matches_disjoint)
  then have notin: "p \<in> conn_matches s c \<Longrightarrow> p \<notin> set (mchains A i)" for p i
    using I by (auto simp: table_inv_def)
  have L: "lists_rep ?t ?B"
    using I new newc ne notin [of ?m] notin [of ?r]
    by (intro insert_connection_lists) (auto simp: table_inv_def conn_matches_def)
  have tm: "table_matches ?t cs = table_matches s cs" for cs
    by (rule table_matches_cong) simp
  have po: "pair_ok ?t d = pair_ok s d" for d by (simp add: pair_ok_def)
  have B: "connl ?B = connl A @ [c]" "actives ?B = actives A"
    "set (mchains ?B i) = set (mchains A i) \<union> {p \<in> conn_matches s c. cm_hash E (cms s p) = i}"
    "set (cchains ?B i) = set (cchains A i) \<union> (if c_hash E (conns s c) = i then {c} else {})" for i
    by (auto simp: abs_insert_def Let_def conn_matches_def)
  show ?thesis
    unfolding table_inv_def tm po B insert_connection_frame
  proof (intro conjI)
    show "set (actives A) = {p \<in> table_matches s (connl A @ [c]). match_active s p}"
      using I idle by (auto simp: table_inv_def)
    show "\<forall>p\<in>table_matches s (connl A @ [c]). \<not> match_active s p \<longrightarrow> active_next s p = None"
      using I idle by (auto simp: table_inv_def)
  qed (use I L in \<open>auto simp: table_inv_def\<close>)
qed

end
