(* ===== verification/Sfe_Lookup.thy ===== *)
theory Sfe_Lookup
  imports Sfe_Table_Inv
begin

text \<open>
  Look-ups in the two hash tables. The contract of a look-up is the locale \<open>flow_table\<close>; the match
  table (whose look-up moves its hit to the front of the chain) and the connection table (whose
  look-up changes nothing) both interpret it.
\<close>

section \<open>Look-up refines the search of the abstract chain\<close>

lemma table_inv_chains:
  assumes "table_inv E s A D" and "lists_rep s' A'"
    and "cms s' = cms s" "conns s' = conns s" "match_active s' = match_active s"
    and "active_next s' = active_next s" "num_connections s' = num_connections s"
    and "cm_live s' = cm_live s" "conn_live s' = conn_live s"
    and "\<And>i. set (mchains A' i) = set (mchains A i)" "\<And>i. set (cchains A' i) = set (cchains A i)"
    and "actives A' = actives A" "connl A' = connl A"
  shows "table_inv E s' A' D"
proof -
  have "table_matches s' cs = table_matches s cs" for cs
    using assms(4) by (rule table_matches_cong)
  moreover have "pair_ok s' c = pair_ok s c" for c
    using assms(3,4) by (simp add: pair_ok_def)
  ultimately show ?thesis using assms by (simp add: table_inv_def)
qed

definition abs_to_front :: "u32 \<Rightarrow> cm_ptr option \<Rightarrow> sfe_abs \<Rightarrow> sfe_abs" where
  "abs_to_front i r A =
     (case r of None \<Rightarrow> A
      | Some p \<Rightarrow> A\<lparr>mchains := (mchains A)(i := p # remove1 p (mchains A i))\<rparr>)"

lemma set_abs_to_front:
  "distinct (mchains A i) \<Longrightarrow> (\<And>p. r = Some p \<Longrightarrow> p \<in> set (mchains A i)) \<Longrightarrow>
   set (mchains (abs_to_front i r A) j) = set (mchains A j)"
  by (auto simp: abs_to_front_def split: option.split)

lemma abs_to_front_simps [simp]:
  "cchains (abs_to_front i r A) = cchains A" "actives (abs_to_front i r A) = actives A"
  "connl (abs_to_front i r A) = connl A"
  by (simp_all add: abs_to_front_def split: option.split)

text \<open>What a look-up may change: the links of the chains and two counters.\<close>

definition same_but_chains :: "sfe_ipv4 \<Rightarrow> sfe_ipv4 \<Rightarrow> bool" where
  "same_but_chains s s' \<longleftrightarrow>
     s' = s\<lparr>match_next := match_next s', match_prev := match_prev s',
            conn_match_hash := conn_match_hash s',
            connection_match_hash_hits := connection_match_hash_hits s',
            connection_match_hash_reorders := connection_match_hash_reorders s'\<rparr>"

lemma same_but_chains_refl [simp]: "same_but_chains s s"
  by (simp add: same_but_chains_def)

lemma same_but_chainsD:
  assumes "same_but_chains s s'"
  shows "cms s' = cms s" "conns s' = conns s" "match_active s' = match_active s"
    "active_next s' = active_next s" "active_prev s' = active_prev s"
    "active_head s' = active_head s" "active_tail s' = active_tail s"
    "conn_next s' = conn_next s" "conn_prev s' = conn_prev s" "conn_hash s' = conn_hash s"
    "all_next s' = all_next s" "all_prev s' = all_prev s"
    "all_connections_head s' = all_connections_head s"
    "all_connections_tail s' = all_connections_tail s"
    "num_connections s' = num_connections s" "cm_live s' = cm_live s" "conn_live s' = conn_live s"
    "packets_forwarded s' = packets_forwarded s"
    "packets_not_forwarded s' = packets_not_forwarded s"
    "exception_events s' = exception_events s" "sync_calls s' = sync_calls s"
    "sync_rule_callback s' = sync_rule_callback s" "dev_refcnt s' = dev_refcnt s"
proof -
  obtain mn mp mh h r where "s' = s\<lparr>match_next := mn, match_prev := mp, conn_match_hash := mh,
      connection_match_hash_hits := h, connection_match_hash_reorders := r\<rparr>"
    using assms unfolding same_but_chains_def by blast
  then show "cms s' = cms s" "conns s' = conns s" "match_active s' = match_active s"
    "active_next s' = active_next s" "active_prev s' = active_prev s"
    "active_head s' = active_head s" "active_tail s' = active_tail s"
    "conn_next s' = conn_next s" "conn_prev s' = conn_prev s" "conn_hash s' = conn_hash s"
    "all_next s' = all_next s" "all_prev s' = all_prev s"
    "all_connections_head s' = all_connections_head s"
    "all_connections_tail s' = all_connections_tail s"
    "num_connections s' = num_connections s" "cm_live s' = cm_live s" "conn_live s' = conn_live s"
    "packets_forwarded s' = packets_forwarded s"
    "packets_not_forwarded s' = packets_not_forwarded s"
    "exception_events s' = exception_events s" "sync_calls s' = sync_calls s"
    "sync_rule_callback s' = sync_rule_callback s" "dev_refcnt s' = dev_refcnt s"
    by simp_all
qed

lemma to_front_state:
  assumes "match_next s x \<noteq> Some x" and "match_prev s x = Some p"
  shows "(let s1 = (case match_next s x of
                      Some n \<Rightarrow> set_match_prev n (match_prev s x) s
                    | None \<Rightarrow> s)
          in do { q \<leftarrow> match_prev s1 x;
                  let s2 = set_match_next q (match_next s1 x) s1;
                  let s3 = set_match_prev x None s2;
                  let s4 = set_match_next x (Some h) s3;
                  let s5 = set_match_prev h (Some x) s4;
                  let s6 = set_conn_match_hash i (Some x) s5;
                  Some (Some x, s6\<lparr>connection_match_hash_reorders := connection_match_hash_reorders s6 + 1\<rparr>) })
         = Some (Some x, (mch.to_front i h p x s)
             \<lparr>connection_match_hash_reorders := connection_match_hash_reorders s + 1\<rparr>)"
  using assms by (auto simp: mch.to_front_def Let_def setter_defs split: option.split)

lemma to_front_same_but_chains:
  "same_but_chains s ((mch.to_front i h p x s)\<lparr>connection_match_hash_reorders := r\<rparr>)"
  by (simp add: same_but_chains_def mch.to_front_def Let_def setter_defs split: option.split)

theorem find_match_refines:
  assumes I: "table_inv E s A D"
    and i: "i = sfe_ipv4_get_connection_match_hash E dev protocol src_ip src_port dest_ip dest_port"
    and P: "P = (\<lambda>p. match_is (cms s p) dev protocol src_ip src_port dest_ip dest_port)"
  obtains s' where
    "sfe_ipv4_find_sfe_ipv4_connection_match E dev protocol src_ip src_port dest_ip dest_port s =
       Some (List.find P (mchains A i), s')"
    and "table_inv E s' (abs_to_front i (List.find P (mchains A i)) A) D"
    and "same_but_chains s s'"
proof -
  let ?find = "sfe_ipv4_find_sfe_ipv4_connection_match E dev protocol src_ip src_port dest_ip dest_port s"
  let ?r = "List.find P (mchains A i)"
  have L: "lists_rep s A" using I by (simp add: table_inv_def)
  then have M: "mch.repr s (mchains A)" by (simp add: lists_rep_def)
  note hd = mch.repr_hd [OF M, of i] and dist = mch.repr_distinct [OF M, of i]
  have sets: "set (mchains (abs_to_front i ?r A) j) = set (mchains A j)" for j
    by (rule set_abs_to_front [OF dist]) (auto dest: find_in_set)
  have keep: "table_inv E s' (abs_to_front i ?r A) D"
    if "mch.repr s' (mchains (abs_to_front i ?r A))" and "same_but_chains s s'" for s'
  proof (rule table_inv_chains [OF I])
    show "lists_rep s' (abs_to_front i ?r A)"
      using that L same_but_chainsD [OF that(2)]
      by (simp add: lists_rep_def cch.repr_def act.trepr_def alls.trepr_def)
  qed (simp_all add: same_but_chainsD [OF that(2)] sets)
  show thesis
  proof (cases "mchains A i")
    case Nil
    then have "?find = Some (?r, s)"
      using hd by (simp add: sfe_ipv4_find_sfe_ipv4_connection_match_def Let_def flip: i)
    with I Nil show thesis by (intro that) (auto simp: abs_to_front_def)
  next
    case (Cons h rest)
    then have h: "conn_match_hash s i = Some h" using hd by simp
    show thesis
    proof (cases "P h")
      case True
      let ?s = "s\<lparr>connection_match_hash_hits := connection_match_hash_hits s + 1\<rparr>"
      have "?find = Some (?r, ?s)"
        using h Cons True
        by (simp add: sfe_ipv4_find_sfe_ipv4_connection_match_def Let_def P flip: i)
      moreover have "same_but_chains s ?s"
        by (simp add: same_but_chains_def)
      moreover have "abs_to_front i ?r A = A" using Cons True by (simp add: abs_to_front_def fun_upd_idem)
      then have "mch.repr ?s (mchains (abs_to_front i ?r A))" using M by (simp add: mch.repr_def)
      ultimately show thesis using keep by (intro that)
    next
      case False
      have "dseg (match_next s) (match_prev s) (match_next s h) (Some h) rest None"
        using mch.repr_dll [OF M, of i] Cons h by (simp add: dll_def)
      from match_chain_search_dseg [OF this]
      have srch: "match_chain_search (match_next s) P (match_next s h) = Some (List.find P rest)" .
      have r: "?r = List.find P rest" using Cons False by simp
      show thesis
      proof (cases ?r)
        case None
        then have "?find = Some (?r, s)"
          using h False srch r
          by (simp add: sfe_ipv4_find_sfe_ipv4_connection_match_def Let_def P flip: i)
        with I None show thesis by (intro that) (auto simp: abs_to_front_def)
      next
        case (Some x)
        then have x: "x \<in> set (mchains A i)" and ne: "x \<noteq> h"
          using find_in_set [of P "mchains A i" x] False by auto
        from M x h ne obtain p where p: "match_prev s x = Some p"
          and rep: "mch.repr (mch.to_front i h p x s) ((mchains A)(i := x # remove1 x (mchains A i)))"
          by (rule mch.repr_to_front)
        let ?s = "(mch.to_front i h p x s)
            \<lparr>connection_match_hash_reorders := connection_match_hash_reorders s + 1\<rparr>"
        have nx: "match_next s x \<noteq> Some x"
          using mch.nbrs_neq(1) [OF mch.repr_dll [OF M, of i] x] .
        have "?find = Some (?r, ?s)"
          using h False srch r Some to_front_state [OF nx p, of h i]
          by (simp add: sfe_ipv4_find_sfe_ipv4_connection_match_def Let_def P flip: i)
        moreover have "mch.repr ?s (mchains (abs_to_front i ?r A))"
          using rep Some by (simp add: abs_to_front_def mch.repr_def)
        ultimately show thesis using keep to_front_same_but_chains by (intro that) auto
      qed
    qed
  qed
qed

theorem find_conn_refines:
  assumes I: "table_inv E s A D"
    and i: "i = sfe_ipv4_get_connection_hash E (ucast protocol) src_ip src_port dest_ip dest_port"
  shows "sfe_ipv4_find_sfe_ipv4_connection E protocol src_ip src_port dest_ip dest_port s =
     Some (List.find (\<lambda>c. conn_is (conns s c) protocol src_ip src_port dest_ip dest_port) (cchains A i))"
proof -
  have M: "cch.repr s (cchains A)" using I by (simp add: table_inv_def lists_rep_def)
  note hd = cch.repr_hd [OF M, of i]
  show ?thesis
  proof (cases "cchains A i")
    case Nil
    with hd show ?thesis by (simp add: sfe_ipv4_find_sfe_ipv4_connection_def flip: i)
  next
    case (Cons h rest)
    then have h: "conn_hash s i = Some h" using hd by simp
    have "dseg (conn_next s) (conn_prev s) (conn_next s h) (Some h) rest None"
      using cch.repr_dll [OF M, of i] Cons h by (simp add: dll_def)
    from conn_chain_search_dseg [OF this] h Cons show ?thesis
      by (simp add: sfe_ipv4_find_sfe_ipv4_connection_def flip: i)
  qed
qed

section \<open>The contract of a look-up\<close>

locale flow_table =
  fixes inv :: "'s \<Rightarrow> bool"
    and elems :: "'s \<Rightarrow> 'p set"
    and key :: "'s \<Rightarrow> 'p \<Rightarrow> 'k"
    and find :: "'k \<Rightarrow> 's \<Rightarrow> ('p option \<times> 's) option"
  assumes find_total: "inv s \<Longrightarrow> find k s \<noteq> None"
    and find_sound: "inv s \<Longrightarrow> find k s = Some (Some p, s') \<Longrightarrow> p \<in> elems s \<and> key s p = k"
    and find_complete: "inv s \<Longrightarrow> find k s = Some (None, s') \<Longrightarrow> p \<in> elems s \<Longrightarrow> key s p \<noteq> k"
    and find_keeps: "inv s \<Longrightarrow> find k s = Some (r, s') \<Longrightarrow> inv s' \<and> elems s' = elems s \<and> key s' = key s"
begin

lemma find_hit_iff:
  assumes "inv s"
  shows "(\<exists>p s'. find k s = Some (Some p, s')) \<longleftrightarrow> k \<in> key s ` elems s"
proof
  assume "k \<in> key s ` elems s"
  then obtain p where "p \<in> elems s" "key s p = k" by auto
  moreover obtain r s' where "find k s = Some (r, s')"
    using find_total [OF assms, of k] by auto
  ultimately show "\<exists>p s'. find k s = Some (Some p, s')"
    using find_complete [OF assms] by (cases r) auto
qed (use find_sound [OF assms] in auto)

lemma find_of_key:
  assumes "inv s" and inj: "inj_on (key s) (elems s)" and p: "p \<in> elems s"
  obtains s' where "find (key s p) s = Some (Some p, s')"
proof -
  obtain q s' where q: "find (key s p) s = Some (Some q, s')"
    using find_hit_iff [OF assms(1), of "key s p"] p by auto
  with find_sound [OF assms(1)] inj p have "q = p" by (auto dest: inj_onD)
  with q show thesis by (auto intro: that)
qed

text \<open>A look-up does not disturb a later look-up of another key.\<close>

lemma find_after_find:
  assumes "inv s" and "inj_on (key s) (elems s)" and "find k s = Some (r, s')" and "p \<in> elems s"
  obtains s'' where "find (key s p) s' = Some (Some p, s'')"
proof -
  have k: "inv s'" "elems s' = elems s" "key s' = key s"
    using find_keeps [OF assms(1,3)] by auto
  with assms(2,4) show thesis
    using find_of_key [OF k(1), of p] that by (auto simp: k)
qed

end

section \<open>Both tables fulfil it\<close>

definition tabled_conns :: "sfe_ipv4 \<Rightarrow> conn_ptr set" where
  "tabled_conns s = {c. \<exists>xs. alls.trepr s xs \<and> c \<in> set xs}"

definition tabled_matches :: "sfe_ipv4 \<Rightarrow> cm_ptr set" where
  "tabled_matches s = (\<Union>c\<in>tabled_conns s. conn_matches s c)"

definition sfe_inv :: "sfe_env \<Rightarrow> sfe_ipv4 \<Rightarrow> bool" where
  "sfe_inv E s \<longleftrightarrow> (\<exists>A D. table_inv E s A D)"

lemma table_inv_tabled:
  assumes "table_inv E s A D"
  shows "tabled_conns s = set (connl A)" and "tabled_matches s = table_matches s (connl A)"
proof -
  have "alls.trepr s (connl A)" using assms by (simp add: table_inv_def lists_rep_def)
  then show "tabled_conns s = set (connl A)"
    by (auto simp: tabled_conns_def dest: alls.trepr_unique)
  then show "tabled_matches s = table_matches s (connl A)"
    by (simp add: tabled_matches_def table_matches_def)
qed

type_synonym match_key = "netdev \<times> u8 \<times> u32 \<times> u16 \<times> u32 \<times> u16"
type_synonym conn_key = "u32 \<times> u32 \<times> u16 \<times> u32 \<times> u16"

definition match_key :: "sfe_ipv4 \<Rightarrow> cm_ptr \<Rightarrow> match_key" where
  "match_key s p = (let m = cms s p in (match_dev m, match_protocol m, match_src_ip m,
     match_src_port m, match_dest_ip m, match_dest_port m))"

definition conn_key :: "sfe_ipv4 \<Rightarrow> conn_ptr \<Rightarrow> conn_key" where
  "conn_key s c = (let d = conns s c in (c_protocol d, c_src_ip d, c_src_port d, c_dest_ip d,
     c_dest_port d))"

definition find_match :: "sfe_env \<Rightarrow> match_key \<Rightarrow> sfe_ipv4 \<Rightarrow> (cm_ptr option \<times> sfe_ipv4) option" where
  "find_match E k s = (case k of (dev, protocol, src_ip, src_port, dest_ip, dest_port) \<Rightarrow>
     sfe_ipv4_find_sfe_ipv4_connection_match E dev protocol src_ip src_port dest_ip dest_port s)"

definition find_conn :: "sfe_env \<Rightarrow> conn_key \<Rightarrow> sfe_ipv4 \<Rightarrow> (conn_ptr option \<times> sfe_ipv4) option" where
  "find_conn E k s = (case k of (protocol, src_ip, src_port, dest_ip, dest_port) \<Rightarrow>
     map_option (\<lambda>r. (r, s)) (sfe_ipv4_find_sfe_ipv4_connection E protocol src_ip src_port dest_ip dest_port s))"

lemma match_is_key:
  "match_is (cms s p) dev pr si sp di dp \<longleftrightarrow> match_key s p = (dev, pr, si, sp, di, dp)"
  by (auto simp: match_is_def match_key_def Let_def)

lemma conn_is_key: "conn_is (conns s c) pr si sp di dp \<longleftrightarrow> conn_key s c = (pr, si, sp, di, dp)"
  by (auto simp: conn_is_def conn_key_def Let_def)

lemma find_None_notin: "List.find P xs = None \<Longrightarrow> x \<in> set xs \<Longrightarrow> \<not> P x"
  by (auto simp: find_None_iff)

lemma find_match_cases:
  assumes I: "table_inv E s A D"
  obtains r s' A' where "find_match E k s = Some (r, s')"
    and "table_inv E s' A' D" and "same_but_chains s s'" and "connl A' = connl A"
    and "\<And>p. r = Some p \<Longrightarrow> p \<in> tabled_matches s \<and> match_key s p = k"
    and "\<And>p. r = None \<Longrightarrow> p \<in> tabled_matches s \<Longrightarrow> match_key s p \<noteq> k"
proof -
  obtain dev pr si sp di dp where k: "k = (dev, pr, si, sp, di, dp)" by (cases k)
  define i where "i = sfe_ipv4_get_connection_match_hash E dev pr si sp di dp"
  define P where "P = (\<lambda>p. match_is (cms s p) dev pr si sp di dp)"
  obtain s' where f: "find_match E k s = Some (List.find P (mchains A i), s')"
    and I': "table_inv E s' (abs_to_front i (List.find P (mchains A i)) A) D"
    and same: "same_but_chains s s'"
    using find_match_refines [OF I i_def P_def] by (auto simp: find_match_def k)
  have P: "P p \<longleftrightarrow> match_key s p = k" for p by (simp add: P_def match_is_key k)
  have ch: "set (mchains A i) = {p \<in> tabled_matches s. cm_hash E (cms s p) = i}"
    using I by (simp add: table_inv_tabled [OF I] table_inv_def)
  have hash: "match_key s p = k \<Longrightarrow> cm_hash E (cms s p) = i" for p
    by (simp add: k match_key_def cm_hash_def i_def Let_def)
  show thesis
  proof (rule that [OF f I' same])
    fix p
    show "List.find P (mchains A i) = Some p \<Longrightarrow> p \<in> tabled_matches s \<and> match_key s p = k"
      using find_in_set [of P "mchains A i" p] ch P by auto
    show "List.find P (mchains A i) = None \<Longrightarrow> p \<in> tabled_matches s \<Longrightarrow> match_key s p \<noteq> k"
      using find_None_notin [of P "mchains A i" p] ch P hash by auto
  qed simp
qed

lemma find_conn_cases:
  assumes I: "table_inv E s A D"
  obtains r where "find_conn E k s = Some (r, s)"
    and "\<And>c. r = Some c \<Longrightarrow> c \<in> tabled_conns s \<and> conn_key s c = k"
    and "\<And>c. r = None \<Longrightarrow> c \<in> tabled_conns s \<Longrightarrow> conn_key s c \<noteq> k"
proof -
  obtain pr si sp di dp where k: "k = (pr, si, sp, di, dp)" by (cases k)
  define i where "i = sfe_ipv4_get_connection_hash E (ucast pr) si sp di dp"
  let ?P = "\<lambda>c. conn_is (conns s c) pr si sp di dp"
  have f: "find_conn E k s = Some (List.find ?P (cchains A i), s)"
    using find_conn_refines [OF I i_def] by (simp add: find_conn_def k)
  have ch: "set (cchains A i) = {c \<in> tabled_conns s. c_hash E (conns s c) = i}"
    using I by (simp add: table_inv_tabled [OF I] table_inv_def)
  have hash: "conn_key s c = k \<Longrightarrow> c_hash E (conns s c) = i" for c
    by (simp add: k conn_key_def c_hash_def i_def Let_def)
  show thesis
  proof (rule that [OF f])
    fix c
    show "List.find ?P (cchains A i) = Some c \<Longrightarrow> c \<in> tabled_conns s \<and> conn_key s c = k"
      using find_in_set [of ?P "cchains A i" c] ch by (auto simp: conn_is_key k)
    show "List.find ?P (cchains A i) = None \<Longrightarrow> c \<in> tabled_conns s \<Longrightarrow> conn_key s c \<noteq> k"
      using find_None_notin [of ?P "cchains A i" c] ch hash by (auto simp: conn_is_key k)
  qed
qed

lemma same_but_chains_key: "same_but_chains s s' \<Longrightarrow> match_key s' = match_key s"
  by (simp add: fun_eq_iff match_key_def same_but_chainsD)

interpretation mtab: flow_table "sfe_inv E" tabled_matches match_key "find_match E" for E
proof
  fix s k p s' r
  assume "sfe_inv E s"
  then obtain A D where I: "table_inv E s A D" by (auto simp: sfe_inv_def)
  obtain r0 s0 A' where f0: "find_match E k s = Some (r0, s0)"
    and I': "table_inv E s0 A' D" and same: "same_but_chains s s0" and c: "connl A' = connl A"
    and hit: "\<And>p. r0 = Some p \<Longrightarrow> p \<in> tabled_matches s \<and> match_key s p = k"
    and miss: "\<And>p. r0 = None \<Longrightarrow> p \<in> tabled_matches s \<Longrightarrow> match_key s p \<noteq> k"
    using find_match_cases [OF I, of k] by blast
  show "find_match E k s \<noteq> None" using f0 by simp
  show "find_match E k s = Some (Some p, s') \<Longrightarrow> p \<in> tabled_matches s \<and> match_key s p = k"
    using f0 hit by simp
  show "find_match E k s = Some (None, s') \<Longrightarrow> p \<in> tabled_matches s \<Longrightarrow> match_key s p \<noteq> k"
    using f0 miss by simp
  have "conns s0 = conns s" using same by (rule same_but_chainsD)
  then have "tabled_matches s0 = tabled_matches s"
    unfolding table_inv_tabled(2) [OF I'] table_inv_tabled(2) [OF I] c by (rule table_matches_cong)
  then show "find_match E k s = Some (r, s') \<Longrightarrow>
      sfe_inv E s' \<and> tabled_matches s' = tabled_matches s \<and> match_key s' = match_key s"
    using f0 I' same_but_chains_key [OF same] by (auto simp: sfe_inv_def)
qed

interpretation ctab: flow_table "sfe_inv E" tabled_conns conn_key "find_conn E" for E
proof
  fix s k p s' r
  assume V: "sfe_inv E s"
  then obtain A D where I: "table_inv E s A D" by (auto simp: sfe_inv_def)
  obtain r0 where f0: "find_conn E k s = Some (r0, s)"
    and hit: "\<And>p. r0 = Some p \<Longrightarrow> p \<in> tabled_conns s \<and> conn_key s p = k"
    and miss: "\<And>p. r0 = None \<Longrightarrow> p \<in> tabled_conns s \<Longrightarrow> conn_key s p \<noteq> k"
    using find_conn_cases [OF I, of k] by blast
  show "find_conn E k s \<noteq> None" using f0 by simp
  show "find_conn E k s = Some (Some p, s') \<Longrightarrow> p \<in> tabled_conns s \<and> conn_key s p = k"
    using f0 hit by simp
  show "find_conn E k s = Some (None, s') \<Longrightarrow> p \<in> tabled_conns s \<Longrightarrow> conn_key s p \<noteq> k"
    using f0 miss by simp
  show "find_conn E k s = Some (r, s') \<Longrightarrow>
      sfe_inv E s' \<and> tabled_conns s' = tabled_conns s \<and> conn_key s' = conn_key s"
    using f0 V by simp
qed

end
