(* ===== verification/Sfe_Sync.thy ===== *)
theory Sfe_Sync
  imports Sfe_Lookup
begin

text \<open>
  Statistics and synchronisation (sfe_ipv4.c): the summary counters, the message that reports a
  connection to the connection manager, the release of a removed connection, the registration of
  the callback, and the periodic walk over the active flows. The state of a message before it is
  filled in (an uninitialised stack object) and the time are arguments.
\<close>

section \<open>Changes of one object\<close>

definition upd_cm :: "cm_ptr \<Rightarrow> (sfe_ipv4_connection_match \<Rightarrow> sfe_ipv4_connection_match) \<Rightarrow>
  sfe_ipv4 \<Rightarrow> sfe_ipv4" where
  "upd_cm p f s = s\<lparr>cms := (cms s)(p := f (cms s p))\<rparr>"

definition upd_conn :: "conn_ptr \<Rightarrow> (sfe_ipv4_connection \<Rightarrow> sfe_ipv4_connection) \<Rightarrow>
  sfe_ipv4 \<Rightarrow> sfe_ipv4" where
  "upd_conn c f s = s\<lparr>conns := (conns s)(c := f (conns s c))\<rparr>"

section \<open>Summary statistics\<close>

definition sfe_ipv4_connection_match_update_summary_stats :: "cm_ptr \<Rightarrow> sfe_ipv4 \<Rightarrow> sfe_ipv4" where
  "sfe_ipv4_connection_match_update_summary_stats cm s =
     upd_cm cm (\<lambda>m. m\<lparr>rx_packet_count64 := rx_packet_count64 m + ucast (rx_packet_count m),
                      rx_packet_count := 0,
                      rx_byte_count64 := rx_byte_count64 m + ucast (rx_byte_count m),
                      rx_byte_count := 0\<rparr>) s"

definition sfe_ipv4_update_summary_stats :: "sfe_ipv4 \<Rightarrow> sfe_ipv4" where
  "sfe_ipv4_update_summary_stats s = s\<lparr>
     connection_create_requests64 := connection_create_requests64 s + ucast (connection_create_requests s),
     connection_create_requests := 0,
     connection_create_collisions64 := connection_create_collisions64 s + ucast (connection_create_collisions s),
     connection_create_collisions := 0,
     connection_destroy_requests64 := connection_destroy_requests64 s + ucast (connection_destroy_requests s),
     connection_destroy_requests := 0,
     connection_destroy_misses64 := connection_destroy_misses64 s + ucast (connection_destroy_misses s),
     connection_destroy_misses := 0,
     connection_match_hash_hits64 := connection_match_hash_hits64 s + ucast (connection_match_hash_hits s),
     connection_match_hash_hits := 0,
     connection_match_hash_reorders64 := connection_match_hash_reorders64 s + ucast (connection_match_hash_reorders s),
     connection_match_hash_reorders := 0,
     connection_flushes64 := connection_flushes64 s + ucast (connection_flushes s),
     connection_flushes := 0,
     packets_forwarded64 := packets_forwarded64 s + ucast (packets_forwarded s),
     packets_forwarded := 0,
     packets_not_forwarded64 := packets_not_forwarded64 s + ucast (packets_not_forwarded s),
     packets_not_forwarded := 0,
     exception_events64 := (\<lambda>e. exception_events64 s e + ucast (exception_events s e)),
     exception_events := (\<lambda>e. 0)\<rparr>"

section \<open>The synchronisation message\<close>

definition sfe_ipv4_gen_sync_sfe_ipv4_connection ::
  "conn_ptr \<Rightarrow> sfe_connection_sync \<Rightarrow> sfe_sync_reason \<Rightarrow> u64 \<Rightarrow> sfe_ipv4 \<Rightarrow>
   sfe_connection_sync \<times> sfe_ipv4" where
  "sfe_ipv4_gen_sync_sfe_ipv4_connection c sis reason now_jiffies s =
     (let d = conns s c;
          original_cm = original_match d;
          reply_cm = reply_match d;
          sis1 = sis\<lparr>sis_is_v6 := False, sis_protocol := c_protocol d,
            sis_src_ip := (sis_src_ip sis)\<lparr>addr0 := c_src_ip d\<rparr>,
            sis_src_ip_xlate := (sis_src_ip_xlate sis)\<lparr>addr0 := c_src_ip_xlate d\<rparr>,
            sis_dest_ip := (sis_dest_ip sis)\<lparr>addr0 := c_dest_ip d\<rparr>,
            sis_dest_ip_xlate := (sis_dest_ip_xlate sis)\<lparr>addr0 := c_dest_ip_xlate d\<rparr>,
            sis_src_port := c_src_port d, sis_src_port_xlate := c_src_port_xlate d,
            sis_dest_port := c_dest_port d, sis_dest_port_xlate := c_dest_port_xlate d,
            sis_src_td_max_window := max_win (cm_tcp (cms s original_cm)),
            sis_src_td_end := tcp_end (cm_tcp (cms s original_cm)),
            sis_src_td_max_end := max_end (cm_tcp (cms s original_cm)),
            sis_dest_td_max_window := max_win (cm_tcp (cms s reply_cm)),
            sis_dest_td_end := tcp_end (cm_tcp (cms s reply_cm)),
            sis_dest_td_max_end := max_end (cm_tcp (cms s reply_cm)),
            sis_src_new_packet_count := rx_packet_count (cms s original_cm),
            sis_src_new_byte_count := rx_byte_count (cms s original_cm),
            sis_dest_new_packet_count := rx_packet_count (cms s reply_cm),
            sis_dest_new_byte_count := rx_byte_count (cms s reply_cm)\<rparr>;
          s1 = sfe_ipv4_connection_match_update_summary_stats original_cm s;
          s2 = sfe_ipv4_connection_match_update_summary_stats reply_cm s1;
          sis2 = sis1\<lparr>sis_src_dev := match_dev (cms s2 original_cm),
            sis_src_packet_count := rx_packet_count64 (cms s2 original_cm),
            sis_src_byte_count := rx_byte_count64 (cms s2 original_cm),
            sis_dest_dev := match_dev (cms s2 reply_cm),
            sis_dest_packet_count := rx_packet_count64 (cms s2 reply_cm),
            sis_dest_byte_count := rx_byte_count64 (cms s2 reply_cm),
            sis_reason := reason,
            sis_delta_jiffies := now_jiffies - last_sync_jiffies (conns s2 c)\<rparr>
      in (sis2, upd_conn c (\<lambda>d. d\<lparr>last_sync_jiffies := now_jiffies\<rparr>) s2))"

text \<open>The callback itself belongs to the connection manager; a call of it is recorded.\<close>

definition call_sync_rule :: "nat \<Rightarrow> sfe_connection_sync \<Rightarrow> sfe_ipv4 \<Rightarrow> sfe_ipv4" where
  "call_sync_rule cb sis s = s\<lparr>sync_calls := sync_calls s @ [(cb, sis)]\<rparr>"

definition sfe_ipv4_register_sync_rule_callback :: "nat option \<Rightarrow> sfe_ipv4 \<Rightarrow> sfe_ipv4" where
  "sfe_ipv4_register_sync_rule_callback cb s = s\<lparr>sync_rule_callback := cb\<rparr>"

section \<open>Release of a removed connection\<close>

definition dev_hold :: "netdev \<Rightarrow> sfe_ipv4 \<Rightarrow> sfe_ipv4" where
  "dev_hold d s = s\<lparr>dev_refcnt := (dev_refcnt s)(d := dev_refcnt s d + 1)\<rparr>"

definition dev_put :: "netdev \<Rightarrow> sfe_ipv4 \<Rightarrow> sfe_ipv4" where
  "dev_put d s = s\<lparr>dev_refcnt := (dev_refcnt s)(d := dev_refcnt s d - 1)\<rparr>"

definition kfree_cm :: "cm_ptr \<Rightarrow> sfe_ipv4 \<Rightarrow> sfe_ipv4" where
  "kfree_cm p s = s\<lparr>cm_live := cm_live s - {p}\<rparr>"

definition kfree_conn :: "conn_ptr \<Rightarrow> sfe_ipv4 \<Rightarrow> sfe_ipv4" where
  "kfree_conn c s = s\<lparr>conn_live := conn_live s - {c}\<rparr>"

text \<open>The release reports the connection a last time, if somebody listens, and frees its objects.\<close>

definition flush_report ::
  "conn_ptr \<Rightarrow> sfe_sync_reason \<Rightarrow> sfe_connection_sync \<Rightarrow> u64 \<Rightarrow> sfe_ipv4 \<Rightarrow> sfe_ipv4" where
  "flush_report c reason sis now_jiffies s =
     (let s1 = s\<lparr>connection_flushes := connection_flushes s + 1\<rparr>
      in case sync_rule_callback s1 of
           None \<Rightarrow> s1
         | Some cb \<Rightarrow>
             (let (msg, t) = sfe_ipv4_gen_sync_sfe_ipv4_connection c sis reason now_jiffies s1
              in call_sync_rule cb msg t))"

definition sfe_ipv4_flush_sfe_ipv4_connection ::
  "conn_ptr \<Rightarrow> sfe_sync_reason \<Rightarrow> sfe_connection_sync \<Rightarrow> u64 \<Rightarrow> sfe_ipv4 \<Rightarrow> sfe_ipv4" where
  "sfe_ipv4_flush_sfe_ipv4_connection c reason sis now_jiffies s =
     (let s2 = flush_report c reason sis now_jiffies s;
          s3 = dev_put (original_dev (conns s2 c)) s2;
          s4 = dev_put (reply_dev (conns s3 c)) s3;
          s5 = kfree_cm (original_match (conns s4 c)) s4;
          s6 = kfree_cm (reply_match (conns s5 c)) s5
      in kfree_conn c s6)"

section \<open>Periodic synchronisation\<close>

text \<open>
  One turn of the loop over the active list: the flow at the head and its counterpart leave the
  list and the connection is reported. A NULL predecessor of the counterpart would be dereferenced.
\<close>

definition sfe_ipv4_periodic_sync_turn ::
  "cm_ptr \<Rightarrow> nat \<Rightarrow> sfe_connection_sync \<Rightarrow> u64 \<Rightarrow> sfe_ipv4 \<Rightarrow> sfe_ipv4 option" where
  "sfe_ipv4_periodic_sync_turn cm cb sis now_jiffies s = do {
     let counter_cm = cm_counter_match (cms s cm);
     s1 \<leftarrow> (if match_active s counter_cm then do {
               let t1 = s\<lparr>match_active := (match_active s)(counter_cm := False)\<rparr>;
               p \<leftarrow> active_prev t1 counter_cm;
               let t2 = set_active_next p (active_next t1 counter_cm) t1;
               let t3 = (case active_next t2 counter_cm of
                           Some n \<Rightarrow> set_active_prev n (active_prev t2 counter_cm) t2
                         | None \<Rightarrow> set_active_tail (active_prev t2 counter_cm) t2);
               let t4 = set_active_next counter_cm None t3;
               Some (set_active_prev counter_cm None t4)
             } else Some s);
     let s2 = s1\<lparr>match_active := (match_active s1)(cm := False)\<rparr>;
     let s3 = set_active_head (active_next s2 cm) s2;
     let s4 = (case active_next s3 cm of
                 Some n \<Rightarrow> set_active_prev n None s3
               | None \<Rightarrow> set_active_tail None s3);
     let s5 = set_active_next cm None s4;
     let (msg, s6) = sfe_ipv4_gen_sync_sfe_ipv4_connection (cm_connection (cms s5 cm)) sis
                       SFE_SYNC_REASON_STATS now_jiffies s5;
     Some (call_sync_rule cb msg s6)
   }"

fun sfe_ipv4_periodic_sync_loop ::
  "nat \<Rightarrow> nat \<Rightarrow> sfe_connection_sync \<Rightarrow> u64 \<Rightarrow> sfe_ipv4 \<Rightarrow> sfe_ipv4 option" where
  "sfe_ipv4_periodic_sync_loop 0 cb sis now s = Some s"
| "sfe_ipv4_periodic_sync_loop (Suc quota) cb sis now s =
     (case active_head s of
        None \<Rightarrow> Some s
      | Some cm \<Rightarrow> do {
          t \<leftarrow> sfe_ipv4_periodic_sync_turn cm cb sis now s;
          sfe_ipv4_periodic_sync_loop quota cb sis now t
        })"

definition sync_quota :: "sfe_ipv4 \<Rightarrow> nat" where
  "sync_quota s = unat ((num_connections s + 63) div 64)"

definition sfe_ipv4_periodic_sync :: "sfe_connection_sync \<Rightarrow> u64 \<Rightarrow> sfe_ipv4 \<Rightarrow> sfe_ipv4 option" where
  "sfe_ipv4_periodic_sync sis now s =
     (case sync_rule_callback s of
        None \<Rightarrow> Some s
      | Some cb \<Rightarrow>
          (let s1 = sfe_ipv4_update_summary_stats s
           in sfe_ipv4_periodic_sync_loop (sync_quota s1) cb sis now s1))"

end
