(* ===== verification/Sfe_Sync_Inv.thy ===== *)
theory Sfe_Sync_Inv
  imports Sfe_Sync
begin

text \<open>
  What synchronisation and release preserve: the tables, the active list, the totals of the
  counters and the balance of device references.
\<close>

section \<open>Operations that do not touch the tables\<close>

text \<open>
  \<open>cm_static\<close> and \<open>conn_static\<close> blank the fields of an object that packets, synchronisation and rule
  updates may change; the rest is fixed from creation to release.
\<close>

definition cm_static :: "sfe_ipv4_connection_match \<Rightarrow> sfe_ipv4_connection_match" where
  "cm_static m = m\<lparr>cm_flags := cm_flags m AND NOT FLAG_NO_SEQ_CHECK,
     cm_tcp := (cm_tcp m)\<lparr>max_win := 0, tcp_end := 0, max_end := 0\<rparr>,
     rx_packet_count := 0, rx_byte_count := 0, rx_packet_count64 := 0, rx_byte_count64 := 0\<rparr>"

definition conn_static :: "sfe_ipv4_connection \<Rightarrow> sfe_ipv4_connection" where
  "conn_static c = c\<lparr>last_sync_jiffies := 0, c_mark := 0, c_debug_read_seq := 0\<rparr>"

lemma cm_staticD:
  assumes "cm_static m' = cm_static m"
  shows "cm_connection m' = cm_connection m" "cm_counter_match m' = cm_counter_match m"
    "match_dev m' = match_dev m" "match_protocol m' = match_protocol m"
    "match_src_ip m' = match_src_ip m" "match_dest_ip m' = match_dest_ip m"
    "match_src_port m' = match_src_port m" "match_dest_port m' = match_dest_port m"
    "cm_flags m' AND NOT FLAG_NO_SEQ_CHECK = cm_flags m AND NOT FLAG_NO_SEQ_CHECK"
    "flow_accel m' = flow_accel m" "win_scale (cm_tcp m') = win_scale (cm_tcp m)"
    "xlate_src_ip m' = xlate_src_ip m" "xlate_src_port m' = xlate_src_port m"
    "xlate_dest_ip m' = xlate_dest_ip m" "xlate_dest_port m' = xlate_dest_port m"
    "xlate_src_csum_adjustment m' = xlate_src_csum_adjustment m"
    "xlate_src_partial_csum_adjustment m' = xlate_src_partial_csum_adjustment m"
    "xlate_dest_csum_adjustment m' = xlate_dest_csum_adjustment m"
    "xlate_dest_partial_csum_adjustment m' = xlate_dest_partial_csum_adjustment m"
    "xmit_dev m' = xmit_dev m" "xmit_dev_mtu m' = xmit_dev_mtu m"
proof -
  have *: "f (cm_static m') = f (cm_static m)" for f :: "sfe_ipv4_connection_match \<Rightarrow> 'a"
    using assms by simp
  show "cm_connection m' = cm_connection m" "cm_counter_match m' = cm_counter_match m"
    "match_dev m' = match_dev m" "match_protocol m' = match_protocol m"
    "match_src_ip m' = match_src_ip m" "match_dest_ip m' = match_dest_ip m"
    "match_src_port m' = match_src_port m" "match_dest_port m' = match_dest_port m"
    "cm_flags m' AND NOT FLAG_NO_SEQ_CHECK = cm_flags m AND NOT FLAG_NO_SEQ_CHECK"
    "flow_accel m' = flow_accel m" "win_scale (cm_tcp m') = win_scale (cm_tcp m)"
    "xlate_src_ip m' = xlate_src_ip m" "xlate_src_port m' = xlate_src_port m"
    "xlate_dest_ip m' = xlate_dest_ip m" "xlate_dest_port m' = xlate_dest_port m"
    "xlate_src_csum_adjustment m' = xlate_src_csum_adjustment m"
    "xlate_src_partial_csum_adjustment m' = xlate_src_partial_csum_adjustment m"
    "xlate_dest_csum_adjustment m' = xlate_dest_csum_adjustment m"
    "xlate_dest_partial_csum_adjustment m' = xlate_dest_partial_csum_adjustment m"
    "xmit_dev m' = xmit_dev m" "xmit_dev_mtu m' = xmit_dev_mtu m"
    using * [of cm_connection] * [of cm_counter_match] * [of match_dev] * [of match_protocol]
      * [of match_src_ip] * [of match_dest_ip] * [of match_src_port] * [of match_dest_port]
      * [of cm_flags] * [of flow_accel] * [of "win_scale \<circ> cm_tcp"] * [of xlate_src_ip] * [of xlate_src_port]
      * [of xlate_dest_ip] * [of xlate_dest_port] * [of xlate_src_csum_adjustment]
      * [of xlate_src_partial_csum_adjustment] * [of xlate_dest_csum_adjustment]
      * [of xlate_dest_partial_csum_adjustment] * [of xmit_dev] * [of xmit_dev_mtu]
    by (simp_all add: cm_static_def)
qed

lemma conn_staticD:
  assumes "conn_static c' = conn_static c"
  shows "c_protocol c' = c_protocol c" "c_src_ip c' = c_src_ip c" "c_src_port c' = c_src_port c"
    "c_dest_ip c' = c_dest_ip c" "c_dest_port c' = c_dest_port c"
    "c_src_ip_xlate c' = c_src_ip_xlate c" "c_src_port_xlate c' = c_src_port_xlate c"
    "c_dest_ip_xlate c' = c_dest_ip_xlate c" "c_dest_port_xlate c' = c_dest_port_xlate c"
    "original_match c' = original_match c" "reply_match c' = reply_match c"
    "original_dev c' = original_dev c" "reply_dev c' = reply_dev c"
proof -
  have *: "f (conn_static c') = f (conn_static c)" for f :: "sfe_ipv4_connection \<Rightarrow> 'a"
    using assms by simp
  show "c_protocol c' = c_protocol c" "c_src_ip c' = c_src_ip c" "c_src_port c' = c_src_port c"
    "c_dest_ip c' = c_dest_ip c" "c_dest_port c' = c_dest_port c"
    "c_src_ip_xlate c' = c_src_ip_xlate c" "c_src_port_xlate c' = c_src_port_xlate c"
    "c_dest_ip_xlate c' = c_dest_ip_xlate c" "c_dest_port_xlate c' = c_dest_port_xlate c"
    "original_match c' = original_match c" "reply_match c' = reply_match c"
    "original_dev c' = original_dev c" "reply_dev c' = reply_dev c"
    using * [of c_src_ip_xlate] * [of c_src_port_xlate] * [of c_dest_ip_xlate] * [of c_dest_port_xlate]
      * [of c_protocol] * [of c_src_ip] * [of c_src_port] * [of c_dest_ip] * [of c_dest_port]
      * [of original_match] * [of reply_match] * [of original_dev] * [of reply_dev]
    by (simp_all add: conn_static_def)
qed

definition same_table :: "sfe_ipv4 \<Rightarrow> sfe_ipv4 \<Rightarrow> bool" where
  "same_table s s' \<longleftrightarrow>
     match_next s' = match_next s \<and> match_prev s' = match_prev s \<and>
     conn_match_hash s' = conn_match_hash s \<and>
     active_next s' = active_next s \<and> active_prev s' = active_prev s \<and>
     active_head s' = active_head s \<and> active_tail s' = active_tail s \<and>
     match_active s' = match_active s \<and>
     conn_next s' = conn_next s \<and> conn_prev s' = conn_prev s \<and> conn_hash s' = conn_hash s \<and>
     all_next s' = all_next s \<and> all_prev s' = all_prev s \<and>
     all_connections_head s' = all_connections_head s \<and>
     all_connections_tail s' = all_connections_tail s \<and>
     num_connections s' = num_connections s \<and>
     cm_live s' = cm_live s \<and> conn_live s' = conn_live s \<and>
     cm_static \<circ> cms s' = cm_static \<circ> cms s \<and> conn_static \<circ> conns s' = conn_static \<circ> conns s"

lemma same_table_refl [simp]: "same_table s s"
  by (simp add: same_table_def)

lemma same_table_trans [trans]: "same_table s t \<Longrightarrow> same_table t u \<Longrightarrow> same_table s u"
  by (simp add: same_table_def)

lemma same_table_static:
  assumes "same_table s s'"
  shows "cm_static (cms s' p) = cm_static (cms s p)"
    and "conn_static (conns s' c) = conn_static (conns s c)"
proof -
  have m: "cm_static \<circ> cms s' = cm_static \<circ> cms s" and d: "conn_static \<circ> conns s' = conn_static \<circ> conns s"
    using assms by (simp_all add: same_table_def)
  show "cm_static (cms s' p) = cm_static (cms s p)" using fun_cong [OF m, of p] by simp
  show "conn_static (conns s' c) = conn_static (conns s c)" using fun_cong [OF d, of c] by simp
qed

lemma same_table_fields:
  assumes "same_table s s'"
  shows "cm_connection (cms s' p) = cm_connection (cms s p)"
    and "cm_counter_match (cms s' p) = cm_counter_match (cms s p)"
    and "match_key s' p = match_key s p"
    and "original_match (conns s' c) = original_match (conns s c)"
    and "reply_match (conns s' c) = reply_match (conns s c)"
    and "original_dev (conns s' c) = original_dev (conns s c)"
    and "reply_dev (conns s' c) = reply_dev (conns s c)"
    and "conn_key s' c = conn_key s c"
  using cm_staticD [OF same_table_static(1) [OF assms, of p]]
    conn_staticD [OF same_table_static(2) [OF assms, of c]]
  by (simp_all add: match_key_def conn_key_def Let_def)

lemma cm_hash_key: "cm_hash E (cms s p) = (case match_key s p of (d, pr, si, sp, di, dp) \<Rightarrow>
    sfe_ipv4_get_connection_match_hash E d pr si sp di dp)"
  by (simp add: cm_hash_def match_key_def Let_def)

lemma c_hash_key: "c_hash E (conns s c) = (case conn_key s c of (pr, si, sp, di, dp) \<Rightarrow>
    sfe_ipv4_get_connection_hash E (ucast pr) si sp di dp)"
  by (simp add: c_hash_def conn_key_def Let_def)

lemma same_table_hash:
  assumes "same_table s s'"
  shows "cm_hash E (cms s' p) = cm_hash E (cms s p)"
    and "c_hash E (conns s' c) = c_hash E (conns s c)"
  by (simp_all add: cm_hash_key c_hash_key same_table_fields [OF assms])

lemma same_table_matches:
  assumes "same_table s s'"
  shows "conn_matches s' c = conn_matches s c" and "table_matches s' cs = table_matches s cs"
    and "pair_ok s' c = pair_ok s c"
  by (simp_all add: conn_matches_def table_matches_def pair_ok_def same_table_fields [OF assms])

lemma same_table_lists: "same_table s s' \<Longrightarrow> lists_rep s' A = lists_rep s A"
  by (simp add: same_table_def lists_rep_def mch.repr_def cch.repr_def act.trepr_def alls.trepr_def)

theorem same_table_inv:
  assumes "table_inv E s A D" and "same_table s s'"
  shows "table_inv E s' A D"
proof -
  have "active_next s' = active_next s" "match_active s' = match_active s"
    "num_connections s' = num_connections s" "cm_live s' = cm_live s" "conn_live s' = conn_live s"
    using assms(2) by (simp_all add: same_table_def)
  with assms(1) show ?thesis
    unfolding table_inv_def same_table_matches [OF assms(2)] same_table_hash [OF assms(2)]
      same_table_lists [OF assms(2)]
    by simp
qed

lemma same_table_upd_cm:
  "cm_static (f (cms s p)) = cm_static (cms s p) \<Longrightarrow> same_table s (upd_cm p f s)"
  by (auto simp: same_table_def upd_cm_def fun_eq_iff)

lemma same_table_upd_conn:
  "conn_static (f (conns s c)) = conn_static (conns s c) \<Longrightarrow> same_table s (upd_conn c f s)"
  by (auto simp: same_table_def upd_conn_def fun_eq_iff)

lemma upd_frame [simp]:
  "sync_rule_callback (upd_cm p f s) = sync_rule_callback s" "sync_calls (upd_cm p f s) = sync_calls s"
  "dev_refcnt (upd_cm p f s) = dev_refcnt s" "conns (upd_cm p f s) = conns s"
  "sync_rule_callback (upd_conn c g s) = sync_rule_callback s"
  "sync_calls (upd_conn c g s) = sync_calls s"
  "dev_refcnt (upd_conn c g s) = dev_refcnt s" "cms (upd_conn c g s) = cms s"
  by (simp_all add: upd_cm_def upd_conn_def)

lemma same_table_stats: "same_table s (sfe_ipv4_connection_match_update_summary_stats p s)"
  unfolding sfe_ipv4_connection_match_update_summary_stats_def
  by (rule same_table_upd_cm) (simp add: cm_static_def)

lemma same_table_summary: "same_table s (sfe_ipv4_update_summary_stats s)"
  by (simp add: same_table_def sfe_ipv4_update_summary_stats_def)

lemma same_table_gen_sync:
  assumes "sfe_ipv4_gen_sync_sfe_ipv4_connection c sis reason now s = (msg, s')"
  shows "same_table s s'"
proof -
  let ?s1 = "sfe_ipv4_connection_match_update_summary_stats (original_match (conns s c)) s"
  let ?s2 = "sfe_ipv4_connection_match_update_summary_stats (reply_match (conns s c)) ?s1"
  have "same_table s ?s2" by (rule same_table_trans [OF same_table_stats same_table_stats])
  moreover have "same_table ?s2 (upd_conn c (\<lambda>d. d\<lparr>last_sync_jiffies := now\<rparr>) ?s2)"
    by (rule same_table_upd_conn) (simp add: conn_static_def)
  moreover have "s' = upd_conn c (\<lambda>d. d\<lparr>last_sync_jiffies := now\<rparr>) ?s2"
    using assms by (simp add: sfe_ipv4_gen_sync_sfe_ipv4_connection_def Let_def)
  ultimately show ?thesis using same_table_trans by blast
qed

lemma gen_sync_frame:
  assumes "sfe_ipv4_gen_sync_sfe_ipv4_connection c sis reason now s = (msg, s')"
  shows "sync_rule_callback s' = sync_rule_callback s" and "sync_calls s' = sync_calls s"
    and "dev_refcnt s' = dev_refcnt s"
  using assms
  by (auto simp: sfe_ipv4_gen_sync_sfe_ipv4_connection_def Let_def
      sfe_ipv4_connection_match_update_summary_stats_def)

lemma same_table_call: "same_table s (call_sync_rule cb msg s)"
  by (simp add: same_table_def call_sync_rule_def)

section \<open>Release\<close>

text \<open>The connections whose references to devices are still held.\<close>

definition dev_uses :: "sfe_ipv4 \<Rightarrow> conn_ptr list \<Rightarrow> netdev \<Rightarrow> nat" where
  "dev_uses s cs d = length (filter (\<lambda>c. original_dev (conns s c) = d) cs) +
     length (filter (\<lambda>c. reply_dev (conns s c) = d) cs)"

lemma dev_uses_simps [simp]:
  "dev_uses s [] d = 0"
  "dev_uses s (c # cs) d = (if original_dev (conns s c) = d then 1 else 0) +
     (if reply_dev (conns s c) = d then 1 else 0) + dev_uses s cs d"
  "dev_uses s (as @ bs) d = dev_uses s as d + dev_uses s bs d"
  by (simp_all add: dev_uses_def)

lemma dev_uses_same_table: "same_table s s' \<Longrightarrow> dev_uses s' cs d = dev_uses s cs d"
  by (simp add: dev_uses_def same_table_fields)

lemma dev_uses_remove1:
  assumes "c \<in> set cs"
  shows "dev_uses s cs d = dev_uses s (c # remove1 c cs) d"
proof -
  obtain as bs where "cs = as @ c # bs" and "c \<notin> set as"
    using split_list_first [OF assms] by blast
  then show ?thesis by (simp add: remove1_append)
qed

text \<open>\<open>refs_inv\<close>: the engine holds one reference per use on top of those held by others.\<close>

definition refs_inv :: "(netdev \<Rightarrow> int) \<Rightarrow> sfe_ipv4 \<Rightarrow> sfe_abs \<Rightarrow> conn_ptr list \<Rightarrow> bool" where
  "refs_inv base s A D \<longleftrightarrow> (\<forall>d. dev_refcnt s d = base d + int (dev_uses s (connl A @ D) d))"

lemma same_table_flush_report: "same_table s (flush_report c reason sis now s)"
proof -
  let ?s1 = "s\<lparr>connection_flushes := connection_flushes s + 1\<rparr>"
  obtain msg t where g: "sfe_ipv4_gen_sync_sfe_ipv4_connection c sis reason now ?s1 = (msg, t)"
    by (cases "sfe_ipv4_gen_sync_sfe_ipv4_connection c sis reason now ?s1")
  have "same_table s ?s1" by (simp add: same_table_def)
  moreover have "same_table ?s1 (call_sync_rule cb msg t)" for cb
    using same_table_gen_sync [OF g] same_table_call same_table_trans by blast
  ultimately show ?thesis
    unfolding flush_report_def Let_def g by (auto split: option.split intro: same_table_trans)
qed

lemma flush_report_refs: "dev_refcnt (flush_report c reason sis now s) = dev_refcnt s"
  by (auto simp: flush_report_def Let_def call_sync_rule_def split: option.split prod.split
      dest: gen_sync_frame(3))

lemma flush_conv:
  "sfe_ipv4_flush_sfe_ipv4_connection c reason sis now s =
     (let t = flush_report c reason sis now s; d = conns s c in
      kfree_conn c (kfree_cm (reply_match d) (kfree_cm (original_match d)
        (dev_put (reply_dev d) (dev_put (original_dev d) t)))))"
  by (simp add: sfe_ipv4_flush_sfe_ipv4_connection_def same_table_fields [OF same_table_flush_report]
      Let_def dev_put_def kfree_cm_def kfree_conn_def)

lemma flush_conns [simp]:
  "conns (sfe_ipv4_flush_sfe_ipv4_connection c reason sis now s) = conns (flush_report c reason sis now s)"
  by (simp add: flush_conv Let_def dev_put_def kfree_cm_def kfree_conn_def)

theorem flush_inv:
  assumes I: "table_inv E s A (c # D)"
  shows "table_inv E (sfe_ipv4_flush_sfe_ipv4_connection c reason sis now s) A D"
proof -
  let ?t = "flush_report c reason sis now s"
  let ?u = "sfe_ipv4_flush_sfe_ipv4_connection c reason sis now s"
  have J: "table_inv E ?t A (c # D)"
    using I same_table_flush_report by (rule same_table_inv)
  have live: "cm_live ?u = cm_live ?t - conn_matches ?t c" "conn_live ?u = conn_live ?t - {c}"
    by (auto simp: flush_conv Let_def dev_put_def kfree_cm_def kfree_conn_def conn_matches_def
        same_table_fields [OF same_table_flush_report])
  have fields: "cms ?u = cms ?t" "match_active ?u = match_active ?t" "active_next ?u = active_next ?t"
    "num_connections ?u = num_connections ?t"
    by (simp_all add: flush_conv Let_def dev_put_def kfree_cm_def kfree_conn_def)
  have lists: "lists_rep ?u A = lists_rep ?t A"
    by (simp add: flush_conv Let_def dev_put_def kfree_cm_def kfree_conn_def lists_rep_def
        mch.repr_def cch.repr_def act.trepr_def alls.trepr_def)
  have tm: "table_matches ?u cs = table_matches ?t cs" for cs by (rule table_matches_cong) simp
  have po: "pair_ok ?u d = pair_ok ?t d" for d by (simp add: pair_ok_def fields)
  have "conn_matches ?t c \<inter> table_matches ?t (connl A @ D) = {}"
    using J by (intro conn_matches_disjoint) (auto simp: table_inv_def)
  then show ?thesis
    using J unfolding table_inv_def lists tm po live fields flush_conns by auto
qed

lemma flush_refs:
  assumes "refs_inv base s A (c # D)"
  shows "refs_inv base (sfe_ipv4_flush_sfe_ipv4_connection c reason sis now s) A D"
proof -
  let ?t = "flush_report c reason sis now s"
  have u: "dev_uses ?t cs d = dev_uses s cs d" for cs d
    using same_table_flush_report by (rule dev_uses_same_table)
  have "dev_uses (sfe_ipv4_flush_sfe_ipv4_connection c reason sis now s) cs d = dev_uses s cs d" for cs d
    using u [of cs d] by (simp add: dev_uses_def)
  moreover have "dev_refcnt (sfe_ipv4_flush_sfe_ipv4_connection c reason sis now s) d =
      dev_refcnt s d - (if original_dev (conns s c) = d then 1 else 0)
        - (if reply_dev (conns s c) = d then 1 else 0)" for d
    by (simp add: flush_conv Let_def dev_put_def kfree_cm_def kfree_conn_def flush_report_refs)
  ultimately show ?thesis using assms by (simp add: refs_inv_def)
qed

section \<open>Counters\<close>

definition total_packets :: "sfe_ipv4_connection_match \<Rightarrow> u64" where
  "total_packets m = rx_packet_count64 m + ucast (rx_packet_count m)"

definition total_bytes :: "sfe_ipv4_connection_match \<Rightarrow> u64" where
  "total_bytes m = rx_byte_count64 m + ucast (rx_byte_count m)"

lemma gen_sync_totals:
  assumes "sfe_ipv4_gen_sync_sfe_ipv4_connection c sis reason now s = (msg, s')"
  shows "total_packets (cms s' p) = total_packets (cms s p)"
    and "total_bytes (cms s' p) = total_bytes (cms s p)"
  using assms
  by (auto simp: sfe_ipv4_gen_sync_sfe_ipv4_connection_def Let_def upd_cm_def total_packets_def
      total_bytes_def sfe_ipv4_connection_match_update_summary_stats_def)

lemma gen_sync_message:
  assumes "sfe_ipv4_gen_sync_sfe_ipv4_connection c sis reason now s = (msg, s')"
  defines "d \<equiv> conns s c"
  shows "sis_src_packet_count msg = total_packets (cms s (original_match d))"
    and "sis_src_byte_count msg = total_bytes (cms s (original_match d))"
    and "sis_dest_packet_count msg = total_packets (cms s (reply_match d))"
    and "sis_dest_byte_count msg = total_bytes (cms s (reply_match d))"
    and "sis_src_new_packet_count msg = rx_packet_count (cms s (original_match d))"
    and "sis_dest_new_packet_count msg = rx_packet_count (cms s (reply_match d))"
    and "sis_protocol msg = c_protocol d" and "ip (sis_src_ip msg) = c_src_ip d"
    and "ip (sis_dest_ip msg) = c_dest_ip d" and "sis_src_port msg = c_src_port d"
    and "sis_dest_port msg = c_dest_port d" and "sis_reason msg = reason"
  using assms
  by (auto simp: sfe_ipv4_gen_sync_sfe_ipv4_connection_def Let_def upd_cm_def total_packets_def
      total_bytes_def sfe_ipv4_connection_match_update_summary_stats_def)

section \<open>Leaving the active list\<close>

definition deactivate :: "cm_ptr \<Rightarrow> sfe_ipv4 \<Rightarrow> sfe_ipv4" where
  "deactivate p s =
     set_active_next p None (act.dequeue p (s\<lparr>match_active := (match_active s)(p := False)\<rparr>))"

lemma deactivate_frame [simp]:
  "cms (deactivate p s) = cms s" "conns (deactivate p s) = conns s"
  "match_active (deactivate p s) = (match_active s)(p := False)"
  "match_next (deactivate p s) = match_next s" "match_prev (deactivate p s) = match_prev s"
  "conn_match_hash (deactivate p s) = conn_match_hash s"
  "conn_next (deactivate p s) = conn_next s" "conn_prev (deactivate p s) = conn_prev s"
  "conn_hash (deactivate p s) = conn_hash s"
  "all_next (deactivate p s) = all_next s" "all_prev (deactivate p s) = all_prev s"
  "all_connections_head (deactivate p s) = all_connections_head s"
  "all_connections_tail (deactivate p s) = all_connections_tail s"
  "num_connections (deactivate p s) = num_connections s"
  "cm_live (deactivate p s) = cm_live s" "conn_live (deactivate p s) = conn_live s"
  "sync_calls (deactivate p s) = sync_calls s"
  "dev_refcnt (deactivate p s) = dev_refcnt s"
  "sync_rule_callback (deactivate p s) = sync_rule_callback s"
  by (simp_all add: deactivate_def act.dequeue_def setter_defs Let_def split: option.split)

definition abs_deactivate :: "cm_ptr \<Rightarrow> sfe_abs \<Rightarrow> sfe_abs" where
  "abs_deactivate p A = A\<lparr>actives := remove1 p (actives A)\<rparr>"

lemma deactivate_inv:
  assumes I: "table_inv E s A D" and p: "p \<in> set (actives A)"
  shows "table_inv E (deactivate p s) (abs_deactivate p A) D"
proof -
  let ?s1 = "s\<lparr>match_active := (match_active s)(p := False)\<rparr>"
  let ?t = "deactivate p s"
  have L: "lists_rep s A" using I by (simp add: table_inv_def)
  then have T: "act.trepr ?s1 (actives A)" by (simp add: lists_rep_def act.trepr_def)
  have dist: "distinct (actives A)" using T by (rule act.trepr_distinct)
  have "act.trepr ?t (remove1 p (actives A))"
    unfolding deactivate_def using act.trepr_dequeue [OF T p] dist
    by (subst act.trepr_upd(1)) auto
  with L have L': "lists_rep ?t (abs_deactivate p A)"
    by (simp add: lists_rep_def abs_deactivate_def mch.repr_def cch.repr_def alls.trepr_def)
  have an: "active_next ?t q = None" if "q \<in> table_matches s (connl A)" "\<not> match_active ?t q" for q
  proof (cases "q = p")
    case True
    then show ?thesis by (simp add: deactivate_def setter_defs)
  next
    case False
    with that I have "q \<notin> set (actives A)" "active_next s q = None"
      by (auto simp: table_inv_def)
    with act.nxt_dequeue [OF T p, of q] False show ?thesis
      by (simp add: deactivate_def setter_defs)
  qed
  have tm: "table_matches ?t cs = table_matches s cs" for cs by (rule table_matches_cong) simp
  have po: "pair_ok ?t d = pair_ok s d" for d by (simp add: pair_ok_def)
  have "set (remove1 p (actives A)) = {q \<in> table_matches s (connl A). match_active ?t q}"
    using I dist by (auto simp: table_inv_def)
  with L' an I show ?thesis
    unfolding table_inv_def tm po by (simp add: abs_deactivate_def)
qed

lemma clear_active_prev_inv:
  assumes I: "table_inv E s A D" and p: "p \<notin> set (actives A)"
  shows "table_inv E (set_active_prev p None s) A D"
proof -
  let ?t = "set_active_prev p None s"
  have "lists_rep s A" using I by (simp add: table_inv_def)
  then have "lists_rep ?t A"
    using act.trepr_upd(2) [OF p, of None s]
    by (simp add: lists_rep_def mch.repr_def cch.repr_def alls.trepr_def setter_defs)
  moreover have "table_matches ?t cs = table_matches s cs" for cs
    by (rule table_matches_cong) (simp add: setter_defs)
  moreover have "pair_ok ?t d = pair_ok s d" for d by (simp add: pair_ok_def setter_defs)
  ultimately show ?thesis using I by (simp add: table_inv_def setter_defs)
qed

section \<open>One turn of the periodic walk\<close>

text \<open>An active match and its counterpart belong to the same tabled connection.\<close>

lemma active_pair:
  assumes I: "table_inv E s A D" and p: "p \<in> set (actives A)"
  defines "k \<equiv> cm_counter_match (cms s p)"
  shows "k \<noteq> p" and "match_active s k \<longleftrightarrow> k \<in> set (actives A)"
    and "cm_connection (cms s p) \<in> set (connl A)"
    and "conn_matches s (cm_connection (cms s p)) = {p, k}"
proof -
  obtain c where c: "c \<in> set (connl A)" and pc: "p \<in> conn_matches s c"
    using I p by (auto simp: table_inv_def table_matches_def)
  have "pair_ok s c" using I c by (rule table_inv_conn)
  then have k: "k \<noteq> p" "conn_matches s c = {p, k}" and own: "cm_connection (cms s p) = c"
    using pc by (auto simp: pair_ok_def Let_def conn_matches_def k_def)
  then have kc: "k \<in> conn_matches s c" by simp
  show "k \<noteq> p" using k by simp
  show "match_active s k \<longleftrightarrow> k \<in> set (actives A)" using I c kc by (rule table_inv_conn)
  show "cm_connection (cms s p) \<in> set (connl A)" using own c by simp
  show "conn_matches s (cm_connection (cms s p)) = {p, k}" using own k by simp
qed

definition leave_pair :: "cm_ptr \<Rightarrow> sfe_ipv4 \<Rightarrow> sfe_ipv4" where
  "leave_pair cm s =
     (let k = cm_counter_match (cms s cm);
          s1 = (if match_active s k then set_active_prev k None (deactivate k s) else s)
      in deactivate cm s1)"

lemma leave_pair_frame [simp]:
  "cms (leave_pair p s) = cms s" "conns (leave_pair p s) = conns s"
  "sync_calls (leave_pair p s) = sync_calls s" "num_connections (leave_pair p s) = num_connections s"
  "dev_refcnt (leave_pair p s) = dev_refcnt s"
  "sync_rule_callback (leave_pair p s) = sync_rule_callback s"
  by (simp_all add: leave_pair_def Let_def setter_defs)

lemma leave_pair_inv:
  assumes I: "table_inv E s A D" and a: "actives A = cm # rest"
  shows "table_inv E (leave_pair cm s) (A\<lparr>actives := remove1 (cm_counter_match (cms s cm)) rest\<rparr>) D"
proof -
  let ?k = "cm_counter_match (cms s cm)"
  have cm: "cm \<in> set (actives A)" by (simp add: a)
  note pr = active_pair [OF I cm]
  have dist: "distinct (actives A)"
    using I by (auto simp: table_inv_def lists_rep_def dest: act.trepr_distinct)
  show ?thesis
  proof (cases "match_active s ?k")
    case True
    then have k: "?k \<in> set (actives A)" using pr(2) by simp
    have J: "table_inv E (set_active_prev ?k None (deactivate ?k s)) (abs_deactivate ?k A) D"
      by (rule clear_active_prev_inv [OF deactivate_inv [OF I k]])
        (use dist in \<open>simp add: abs_deactivate_def\<close>)
    have "cm \<in> set (actives (abs_deactivate ?k A))"
      using cm pr(1) by (simp add: abs_deactivate_def in_set_remove1)
    from deactivate_inv [OF J this] True a pr(1) show ?thesis
      by (simp add: leave_pair_def Let_def abs_deactivate_def)
  next
    case False
    then have "?k \<notin> set rest" using pr(2) a by auto
    with deactivate_inv [OF I cm] False a show ?thesis
      by (simp add: leave_pair_def Let_def abs_deactivate_def remove1_idem)
  qed
qed

lemma dequeue_head:
  assumes "active_prev s p = None"
  shows "act.dequeue p s =
    (let s3 = set_active_head (active_next s p) s
     in case active_next s3 p of Some n \<Rightarrow> set_active_prev n None s3 | None \<Rightarrow> set_active_tail None s3)"
  using assms by (simp add: act.dequeue_def Let_def setter_defs split: option.split)

lemma dequeue_not_head:
  assumes "active_prev s k = Some p"
  shows "act.dequeue k s =
    (let t2 = set_active_next p (active_next s k) s
     in case active_next t2 k of Some n \<Rightarrow> set_active_prev n (active_prev t2 k) t2
        | None \<Rightarrow> set_active_tail (active_prev t2 k) t2)"
  using assms by (simp add: act.dequeue_def Let_def)

lemma sync_turn_conv:
  assumes I: "table_inv E s A D" and a: "actives A = cm # rest"
  shows "sfe_ipv4_periodic_sync_turn cm cb sis now s =
    (let (msg, t) = sfe_ipv4_gen_sync_sfe_ipv4_connection (cm_connection (cms s cm)) sis
                      SFE_SYNC_REASON_STATS now (leave_pair cm s)
     in Some (call_sync_rule cb msg t))"
proof -
  let ?k = "cm_counter_match (cms s cm)"
  let ?s1 = "if match_active s ?k then set_active_prev ?k None (deactivate ?k s) else s"
  have cm: "cm \<in> set (actives A)" by (simp add: a)
  note pr = active_pair [OF I cm]
  have T: "act.trepr s (actives A)" using I by (simp add: table_inv_def lists_rep_def)
  have pk: "\<exists>p. active_prev s ?k = Some p" if "match_active s ?k"
  proof -
    have "?k \<in> set rest" using that pr a by auto
    then obtain as bs where "rest = as @ ?k # bs" by (auto simp: in_set_conv_decomp)
    then have "dll (active_next s) (active_prev s) (active_head s) ((cm # as) @ ?k # bs)"
      using T a by (simp add: act.trepr_def)
    from dll_at(2) [OF this] show ?thesis by (simp add: last_from_conv)
  qed
  have s1: "(if match_active s ?k then do {
               let t1 = s\<lparr>match_active := (match_active s)(?k := False)\<rparr>;
               p \<leftarrow> active_prev t1 ?k;
               let t2 = set_active_next p (active_next t1 ?k) t1;
               let t3 = (case active_next t2 ?k of
                           Some n \<Rightarrow> set_active_prev n (active_prev t2 ?k) t2
                         | None \<Rightarrow> set_active_tail (active_prev t2 ?k) t2);
               let t4 = set_active_next ?k None t3;
               Some (set_active_prev ?k None t4)
             } else Some s) = Some ?s1"
  proof (cases "match_active s ?k")
    case True
    let ?s0 = "s\<lparr>match_active := (match_active s)(?k := False)\<rparr>"
    from pk [OF True] obtain p where p: "active_prev ?s0 ?k = Some p" by auto
    show ?thesis
      unfolding deactivate_def dequeue_not_head [OF p]
      using True p by (simp add: Let_def setter_defs split: option.split)
  qed simp
  have "act.trepr ?s1 (actives (if match_active s ?k then abs_deactivate ?k A else A))"
  proof (cases "match_active s ?k")
    case True
    have "table_inv E ?s1 (abs_deactivate ?k A) D"
      unfolding if_P [OF True] using True pr(2) I T
      by (intro clear_active_prev_inv deactivate_inv)
        (auto simp: abs_deactivate_def dest: act.trepr_distinct)
    with True show ?thesis by (simp add: table_inv_def lists_rep_def)
  qed (use T in simp)
  then have "active_prev ?s1 cm = None"
    using a pr(1) by (auto simp: act.trepr_def dll_def abs_deactivate_def split: if_splits)
  then have pv: "active_prev (?s1\<lparr>match_active := (match_active ?s1)(cm := False)\<rparr>) cm = None"
    by simp
  have dq: "deactivate cm ?s1 =
     (let s2 = ?s1\<lparr>match_active := (match_active ?s1)(cm := False)\<rparr>;
          s3 = set_active_head (active_next s2 cm) s2;
          s4 = (case active_next s3 cm of Some n \<Rightarrow> set_active_prev n None s3
                | None \<Rightarrow> set_active_tail None s3)
      in set_active_next cm None s4)"
    unfolding deactivate_def [of cm] dequeue_head [OF pv] Let_def ..
  have lp: "leave_pair cm s = deactivate cm ?s1" by (simp add: leave_pair_def Let_def)
  have own: "cm_connection (cms (leave_pair cm s) cm) = cm_connection (cms s cm)" by simp
  show ?thesis
    unfolding sfe_ipv4_periodic_sync_turn_def
    by (simp only: Let_def s1 [unfolded Let_def] bind.bind_lunit dq [unfolded Let_def, symmetric]
        lp [symmetric] own split_def)
qed

end
