(* ===== verification/Sfe_Sync_Loop.thy ===== *)
theory Sfe_Sync_Loop
  imports Sfe_Sync_Inv
begin

text \<open>
  The periodic walk as a whole: it refines a walk over the abstract list of active flows, it never
  follows a NULL pointer, it reports each connection once, and 64 periods without traffic report
  every flow that was active.
\<close>

section \<open>The walk on the abstract list\<close>

fun sync_walk :: "('a \<Rightarrow> 'a) \<Rightarrow> nat \<Rightarrow> 'a list \<Rightarrow> 'a list \<times> 'a list" where
  "sync_walk co 0 xs = ([], xs)"
| "sync_walk co (Suc q) [] = ([], [])"
| "sync_walk co (Suc q) (x # xs) =
     (let (rs, ys) = sync_walk co q (remove1 (co x) xs) in (x # rs, ys))"

lemma sync_walk_Nil [simp]: "sync_walk co q [] = ([], [])"
  by (cases q) auto

lemma sync_walk_add:
  "sync_walk co (a + b) xs =
     (let (rs, ys) = sync_walk co a xs; (rs', zs) = sync_walk co b ys in (rs @ rs', zs))"
  by (induction co a xs rule: sync_walk.induct) (auto simp: Let_def split: prod.split)

lemma sync_walk_subset:
  "set (fst (sync_walk co q xs)) \<subseteq> set xs" "set (snd (sync_walk co q xs)) \<subseteq> set xs"
  by (induction co q xs rule: sync_walk.induct)
    (auto simp: Let_def split: prod.splits dest: set_mp [OF set_remove1_subset])

lemma sync_walk_distinct:
  "distinct xs \<Longrightarrow> distinct (fst (sync_walk co q xs)) \<and> distinct (snd (sync_walk co q xs))"
proof (induction co q xs rule: sync_walk.induct)
  case (3 co q x xs)
  then show ?case
    using sync_walk_subset(1) [of co q "remove1 (co x) xs"]
    by (auto simp: Let_def split: prod.splits dest: set_mp [OF set_remove1_subset])
qed auto

text \<open>
  When an owner has at most two elements on the list, an element and its counterpart, each turn
  deals with one owner, and no owner is reported twice.
\<close>

definition paired :: "('a \<Rightarrow> 'a) \<Rightarrow> ('a \<Rightarrow> 'c) \<Rightarrow> 'a list \<Rightarrow> bool" where
  "paired co ow xs \<longleftrightarrow> distinct xs \<and>
     (\<forall>x\<in>set xs. \<forall>y\<in>set xs. ow y = ow x \<longrightarrow> y = x \<or> y = co x)"

lemma paired_tail: "paired co ow (x # xs) \<Longrightarrow> paired co ow (remove1 k xs)"
  by (auto simp: paired_def dest: notin_set_remove1 set_mp [OF set_remove1_subset])

lemma paired_owner:
  assumes "paired co ow (x # xs)"
  shows "ow x \<notin> ow ` set (remove1 (co x) xs)"
  using assms by (auto simp: paired_def)

lemma sync_walk_owners:
  "paired co ow xs \<Longrightarrow>
     distinct (map ow (fst (sync_walk co q xs))) \<and>
     card (ow ` set (snd (sync_walk co q xs))) \<le> card (ow ` set xs) - q"
proof (induction co q xs rule: sync_walk.induct)
  case (3 co q x xs)
  obtain rs ys where w: "sync_walk co q (remove1 (co x) xs) = (rs, ys)" by fastforce
  note p = paired_tail [OF "3.prems", of "co x"] and o = paired_owner [OF "3.prems"]
  have "ow ` set rs \<subseteq> ow ` set (remove1 (co x) xs)"
    using sync_walk_subset(1) [of co q "remove1 (co x) xs"] w by auto
  then have "ow x \<notin> ow ` set rs" using o by blast
  have "Suc (card (ow ` set (remove1 (co x) xs))) = card (insert (ow x) (ow ` set (remove1 (co x) xs)))"
    using o by simp
  also have "\<dots> \<le> card (ow ` set (x # xs))"
    by (rule card_mono) (auto dest: set_mp [OF set_remove1_subset])
  finally have "Suc (card (ow ` set (remove1 (co x) xs))) \<le> card (ow ` set (x # xs))" .
  with "3.IH" [OF p] w \<open>ow x \<notin> ow ` set rs\<close> show ?case by simp linarith
qed auto

section \<open>The walk of the engine\<close>

text \<open>What stays the same while flows are reported.\<close>

definition only_synced :: "sfe_ipv4 \<Rightarrow> sfe_ipv4 \<Rightarrow> bool" where
  "only_synced s t \<longleftrightarrow>
     cm_static \<circ> cms t = cm_static \<circ> cms s \<and> conn_static \<circ> conns t = conn_static \<circ> conns s \<and>
     total_packets \<circ> cms t = total_packets \<circ> cms s \<and> total_bytes \<circ> cms t = total_bytes \<circ> cms s \<and>
     num_connections t = num_connections s \<and> sync_rule_callback t = sync_rule_callback s \<and>
     dev_refcnt t = dev_refcnt s"

lemma only_synced_refl [simp]: "only_synced s s"
  by (simp add: only_synced_def)

lemma only_synced_trans: "only_synced s t \<Longrightarrow> only_synced t u \<Longrightarrow> only_synced s u"
  by (simp add: only_synced_def)

lemma only_synced_fields:
  assumes "only_synced s t"
  shows "cm_connection (cms t p) = cm_connection (cms s p)"
    and "cm_counter_match (cms t p) = cm_counter_match (cms s p)"
    and "conn_key t c = conn_key s c"
proof -
  have m: "cm_static \<circ> cms t = cm_static \<circ> cms s" and d: "conn_static \<circ> conns t = conn_static \<circ> conns s"
    using assms by (simp_all add: only_synced_def)
  have mp: "cm_static (cms t p) = cm_static (cms s p)" using fun_cong [OF m, of p] by simp
  have dc: "conn_static (conns t c) = conn_static (conns s c)" using fun_cong [OF d, of c] by simp
  show "cm_connection (cms t p) = cm_connection (cms s p)"
    and "cm_counter_match (cms t p) = cm_counter_match (cms s p)"
    using cm_staticD [OF mp] by simp_all
  show "conn_key t c = conn_key s c"
    using conn_staticD [OF dc] by (simp add: conn_key_def Let_def)
qed

text \<open>The counterpart, the connection and the connection key of a match.\<close>

definition counter_of :: "sfe_ipv4 \<Rightarrow> cm_ptr \<Rightarrow> cm_ptr" where
  "counter_of s p = cm_counter_match (cms s p)"

definition owner_of :: "sfe_ipv4 \<Rightarrow> cm_ptr \<Rightarrow> conn_ptr" where
  "owner_of s p = cm_connection (cms s p)"

definition flow_key :: "sfe_ipv4 \<Rightarrow> cm_ptr \<Rightarrow> conn_key" where
  "flow_key s p = conn_key s (owner_of s p)"

lemma only_synced_flow:
  assumes "only_synced s t"
  shows "counter_of t = counter_of s" and "owner_of t = owner_of s" and "flow_key t = flow_key s"
  using only_synced_fields [OF assms]
  by (simp_all add: fun_eq_iff counter_of_def owner_of_def flow_key_def)

definition sis_key :: "sfe_connection_sync \<Rightarrow> conn_key" where
  "sis_key m = (sis_protocol m, ip (sis_src_ip m), sis_src_port m, ip (sis_dest_ip m), sis_dest_port m)"

lemma sync_turn:
  assumes I: "table_inv E s A D" and a: "actives A = cm # rest"
  obtains t m where "sfe_ipv4_periodic_sync_turn cm cb sis now s = Some t"
    and "table_inv E t (A\<lparr>actives := remove1 (counter_of s cm) rest\<rparr>) D"
    and "only_synced s t" and "sync_calls t = sync_calls s @ [(cb, m)]"
    and "sis_key m = flow_key s cm"
proof -
  let ?c = "cm_connection (cms s cm)"
  obtain m t where g: "sfe_ipv4_gen_sync_sfe_ipv4_connection ?c sis SFE_SYNC_REASON_STATS now
      (leave_pair cm s) = (m, t)" by fastforce
  let ?t = "call_sync_rule cb m t"
  note st = same_table_gen_sync [OF g]
  have "same_table (leave_pair cm s) ?t"
    using st same_table_call by (rule same_table_trans)
  then have inv: "table_inv E ?t (A\<lparr>actives := remove1 (counter_of s cm) rest\<rparr>) D"
    using same_table_inv [OF leave_pair_inv [OF I a]] by (simp add: counter_of_def)
  have "only_synced s ?t"
    using gen_sync_frame [OF g] gen_sync_totals [OF g] st
    by (simp add: only_synced_def call_sync_rule_def same_table_def fun_eq_iff)
  moreover have "sync_calls ?t = sync_calls s @ [(cb, m)]"
    using gen_sync_frame [OF g] by (simp add: call_sync_rule_def)
  moreover have "sis_key m = flow_key s cm"
    using gen_sync_message [OF g] by (simp add: sis_key_def flow_key_def owner_of_def conn_key_def Let_def)
  moreover have "sfe_ipv4_periodic_sync_turn cm cb sis now s = Some ?t"
    using sync_turn_conv [OF I a] g by simp
  ultimately show thesis using inv by (intro that)
qed

theorem sync_loop:
  assumes "table_inv E s A D"
  shows "\<exists>t ms. sfe_ipv4_periodic_sync_loop q cb sis now s = Some t \<and>
     table_inv E t (A\<lparr>actives := snd (sync_walk (counter_of s) q (actives A))\<rparr>) D \<and>
     only_synced s t \<and> sync_calls t = sync_calls s @ map (Pair cb) ms \<and>
     map sis_key ms =
       map (flow_key s) (fst (sync_walk (counter_of s) q (actives A)))"
  using assms
proof (induction q arbitrary: s A)
  case 0
  then show ?case by simp
next
  case (Suc q)
  have hd: "active_head s = hd_opt (actives A)"
    using Suc.prems by (auto simp: table_inv_def lists_rep_def dest: act.trepr_hd)
  show ?case
  proof (cases "actives A")
    case Nil
    then have A: "A\<lparr>actives := []\<rparr> = A" by simp
    show ?thesis
      unfolding Nil sync_walk_Nil fst_conv snd_conv A
      using Suc.prems hd Nil by (intro exI [of _ s] exI [of _ "[]"]) simp
  next
    case (Cons cm rest)
    let ?co = "counter_of s"
    let ?B = "A\<lparr>actives := remove1 (?co cm) rest\<rparr>"
    obtain t m where t: "sfe_ipv4_periodic_sync_turn cm cb sis now s = Some t"
      and J: "table_inv E t ?B D" and o: "only_synced s t"
      and c: "sync_calls t = sync_calls s @ [(cb, m)]"
      and k: "sis_key m = flow_key s cm"
      using sync_turn [OF Suc.prems Cons, of cb sis now] by blast
    note f = only_synced_flow [OF o]
    from Suc.IH [OF J] obtain u ms where u: "sfe_ipv4_periodic_sync_loop q cb sis now t = Some u"
      and "table_inv E u (?B\<lparr>actives := snd (sync_walk ?co q (actives ?B))\<rparr>) D"
      and "only_synced t u" and "sync_calls u = sync_calls t @ map (Pair cb) ms"
      and "map sis_key ms = map (flow_key s) (fst (sync_walk ?co q (actives ?B)))"
      unfolding f by blast
    moreover obtain rs ys where "sync_walk ?co q (remove1 (?co cm) rest) = (rs, ys)" by fastforce
    ultimately show ?thesis
      using t c k hd Cons only_synced_trans [OF o]
      by (intro exI [of _ u] exI [of _ "m # ms"]) simp
  qed
qed

lemma only_synced_summary: "only_synced s (sfe_ipv4_update_summary_stats s)"
  by (simp add: only_synced_def sfe_ipv4_update_summary_stats_def)

lemma sync_calls_summary [simp]: "sync_calls (sfe_ipv4_update_summary_stats s) = sync_calls s"
  "cms (sfe_ipv4_update_summary_stats s) = cms s" "conns (sfe_ipv4_update_summary_stats s) = conns s"
  "num_connections (sfe_ipv4_update_summary_stats s) = num_connections s"
  by (simp_all add: sfe_ipv4_update_summary_stats_def)

lemma flow_summary [simp]: "counter_of (sfe_ipv4_update_summary_stats s) = counter_of s"
  "flow_key (sfe_ipv4_update_summary_stats s) = flow_key s"
  using only_synced_flow [OF only_synced_summary] by simp_all

text \<open>A period of the timer.\<close>

lemma periodic_sync:
  assumes I: "table_inv E s A D" and cb: "sync_rule_callback s = Some cb"
  defines "w \<equiv> sync_walk (counter_of s) (sync_quota s) (actives A)"
  obtains t ms where "sfe_ipv4_periodic_sync sis now s = Some t"
    and "table_inv E t (A\<lparr>actives := snd w\<rparr>) D" and "only_synced s t"
    and "sync_calls t = sync_calls s @ map (Pair cb) ms"
    and "map sis_key ms = map (flow_key s) (fst w)"
proof -
  let ?s = "sfe_ipv4_update_summary_stats s"
  have J: "table_inv E ?s A D" using I same_table_summary by (rule same_table_inv)
  have q: "sync_quota ?s = sync_quota s" by (simp add: sync_quota_def)
  show thesis
    using sync_loop [OF J, of "sync_quota s" cb sis now] that only_synced_trans [OF only_synced_summary]
    by (fastforce simp: sfe_ipv4_periodic_sync_def cb q w_def Let_def)
qed

lemma active_paired:
  assumes I: "table_inv E s A D"
  shows "paired (counter_of s) (owner_of s) (actives A)"
    and "card (owner_of s ` set (actives A)) \<le> length (connl A)"
proof -
  have dist: "distinct (actives A)" "distinct (connl A)"
    using I by (auto simp: table_inv_def lists_rep_def dest: act.trepr_distinct)
  have sub: "owner_of s ` set (actives A) \<subseteq> set (connl A)"
    using active_pair(3) [OF I] by (auto simp: owner_of_def)
  then have "card (owner_of s ` set (actives A)) \<le> card (set (connl A))"
    by (intro card_mono) auto
  then show "card (owner_of s ` set (actives A)) \<le> length (connl A)"
    using dist(2) by (simp add: distinct_card)
  have "y = x \<or> y = counter_of s x"
    if "x \<in> set (actives A)" "y \<in> set (actives A)" "owner_of s y = owner_of s x" for x y
    using active_pair(4) [OF I that(1)] active_pair(4) [OF I that(2)] that(3)
    by (auto simp: owner_of_def counter_of_def)
  then show "paired (counter_of s) (owner_of s) (actives A)"
    using dist(1) by (auto simp: paired_def)
qed

text \<open>The quota is a 64th of the connections, rounded up; 64 periods go round once.\<close>

lemma sync_quota_round:
  assumes "num_connections s = of_nat n" and "n < 2 ^ 32 - 63"
  shows "n \<le> 64 * sync_quota s"
proof -
  have "unat (num_connections s + 63) = n + 63"
    using assms by (simp add: unat_of_nat unat_word_ariths take_bit_nat_eq_self)
  then show ?thesis by (simp add: sync_quota_def unat_div)
qed

fun sync_periods :: "nat \<Rightarrow> sfe_connection_sync \<Rightarrow> (nat \<Rightarrow> u64) \<Rightarrow> sfe_ipv4 \<Rightarrow> sfe_ipv4 option" where
  "sync_periods 0 sis now s = Some s"
| "sync_periods (Suc n) sis now s = do {
     t \<leftarrow> sync_periods n sis now s;
     sfe_ipv4_periodic_sync sis (now n) t
   }"

lemma periods:
  assumes I: "table_inv E s A D" and cb: "sync_rule_callback s = Some cb"
  shows "\<exists>t ms. sync_periods n sis now s = Some t \<and>
     table_inv E t (A\<lparr>actives := snd (sync_walk (counter_of s) (n * sync_quota s) (actives A))\<rparr>) D \<and>
     only_synced s t \<and> sync_calls t = sync_calls s @ map (Pair cb) ms \<and>
     map sis_key ms = map (flow_key s)
       (fst (sync_walk (counter_of s) (n * sync_quota s) (actives A)))"
proof (induction n)
  case 0
  then show ?case using I by simp
next
  case (Suc n)
  let ?co = "counter_of s" and ?k = "flow_key s"
  let ?w = "sync_walk ?co (n * sync_quota s) (actives A)"
  from Suc obtain t ms where t: "sync_periods n sis now s = Some t"
    and J: "table_inv E t (A\<lparr>actives := snd ?w\<rparr>) D" and o: "only_synced s t"
    and c: "sync_calls t = sync_calls s @ map (Pair cb) ms"
    and k: "map sis_key ms = map ?k (fst ?w)"
    by blast
  note f = only_synced_flow [OF o]
  have q: "sync_quota t = sync_quota s" and cb': "sync_rule_callback t = Some cb"
    using o cb by (simp_all add: sync_quota_def only_synced_def)
  let ?v = "sync_walk ?co (sync_quota s) (snd ?w)"
  obtain u ms' where u: "sfe_ipv4_periodic_sync sis (now n) t = Some u"
    and "table_inv E u (A\<lparr>actives := snd ?v\<rparr>) D" and o': "only_synced t u"
    and "sync_calls u = sync_calls t @ map (Pair cb) ms'"
    and "map sis_key ms' = map ?k (fst ?v)"
    using periodic_sync [OF J cb', of sis "now n"] unfolding f q by auto
  moreover have w: "sync_walk ?co (Suc n * sync_quota s) (actives A) = (fst ?w @ fst ?v, snd ?v)"
    by (simp add: add.commute [of "sync_quota s"] sync_walk_add Let_def split: prod.split)
  ultimately show ?case
    unfolding w fst_conv snd_conv using t k c only_synced_trans [OF o o']
    by (intro exI [of _ u] exI [of _ "ms @ ms'"]) (simp del: o_apply)
qed

end
