(* ===== verification/Sfe_Csum.thy ===== *)
theory Sfe_Csum
  imports Sfe_Types
begin

text \<open>
  Internet checksum arithmetic of the engine (sfe_ipv4.c): the folding of sums, the precomputed
  adjustments of \<open>sfe_ipv4_connection_match_compute_translations\<close> and their application to the
  checksum of a packet. All values are words in the byte order of the machine, as the code has
  them. The theorems are congruences modulo 65535, the arithmetic of ones' complement sums.
\<close>

section \<open>Folding\<close>

text \<open>\<open>(x & 0xffff) + (x >> 16)\<close>.\<close>

definition fold16 :: "u32 \<Rightarrow> u32" where
  "fold16 x = (x AND 0xffff) + drop_bit 16 x"

lemma unat_and_ffff [word_val]: "unat (x AND 0xffff :: u32) = unat x mod 65536"
proof -
  have "(65535 :: nat) = mask 16" by (simp add: mask_eq_exp_minus_1)
  then have "unat x AND 65535 = unat x mod 65536"
    by (simp only: take_bit_eq_mask [symmetric] take_bit_eq_mod) simp
  then show ?thesis by (simp add: unsigned_and_eq)
qed

lemma unat_drop_bit_16 [word_val]: "unat (drop_bit 16 x :: u32) = unat x div 65536"
  by (subst unat_drop_bit_eq) (simp add: drop_bit_eq_div)

lemma unat_add32: "unat a + unat b < 4294967296 \<Longrightarrow> unat (a + b :: u32) = unat a + unat b"
  by (simp add: unat_word_ariths)

lemma mod_65535_fold: "(n mod 65536 + n div 65536) mod 65535 = n mod (65535 :: nat)"
proof -
  have "n = (n mod 65536 + n div 65536) + 65535 * (n div 65536)"
    using div_mult_mod_eq [of n 65536] by linarith
  then show ?thesis by (metis mod_mult_self2)
qed

lemma unat_fold16 [word_val]: "unat (fold16 x) = unat x mod 65536 + unat x div 65536"
proof -
  have "unat x div 65536 < 65536" using unat_lt_pow32 [of x] by simp
  moreover have "unat x mod 65536 < 65536" by simp
  ultimately have "unat (x AND 0xffff) + unat (drop_bit 16 x) < 4294967296"
    by (simp only: word_val)
  then show ?thesis by (simp add: fold16_def unat_add32 word_val)
qed

lemma fold16_mod: "unat (fold16 x) mod 65535 = unat x mod 65535"
  by (simp only: unat_fold16 mod_65535_fold)

lemma fold16_zero: "unat (fold16 x) = 0 \<longleftrightarrow> unat x = 0"
  by (auto simp: unat_fold16 div_eq_0_iff)

text \<open>One fold is enough below \<open>0x1ffff\<close>, two are always enough.\<close>

lemma fold16_small: "unat x < 131071 \<Longrightarrow> unat (fold16 x) < 65536"
  unfolding unat_fold16 using div_mult_mod_eq [of "unat x" 65536] by linarith

lemma fold16_twice: "unat (fold16 (fold16 x)) < 65536"
proof (rule fold16_small)
  have "unat x div 65536 < 65536" using unat_lt_pow32 [of x] by simp
  moreover have "unat x mod 65536 < 65536" by simp
  ultimately show "unat (fold16 x) < 131071" unfolding unat_fold16 by linarith
qed

lemma unat_ucast_32_16: "unat x < 65536 \<Longrightarrow> unat (ucast (x :: u32) :: u16) = unat x"
  by (simp add: unsigned_ucast_eq take_bit_nat_eq_self)

definition csum_fold :: "u32 \<Rightarrow> u16" where
  "csum_fold x = ucast (fold16 (fold16 x))"

lemma csum_fold_mod: "unat (csum_fold x) mod 65535 = unat x mod 65535"
  by (simp add: csum_fold_def unat_ucast_32_16 fold16_twice fold16_mod)

lemma csum_fold_zero: "unat (csum_fold x) = 0 \<longleftrightarrow> unat x = 0"
  by (simp add: csum_fold_def unat_ucast_32_16 fold16_twice fold16_zero)

section \<open>Complements and halves\<close>

lemma unat_not16 [word_val]: "unat (NOT x :: u16) = 65535 - unat x"
proof -
  have "NOT x = - 1 - x" by (simp add: not_eq_complement)
  moreover have "x \<le> - 1" by simp
  ultimately show ?thesis
    by (simp add: unat_sub unsigned_minus_1_eq_mask mask_eq_exp_minus_1)
qed

lemma unat_not32 [word_val]: "unat (NOT x :: u32) = 4294967295 - unat x"
proof -
  have "NOT x = - 1 - x" by (simp add: not_eq_complement)
  moreover have "x \<le> - 1" by simp
  ultimately show ?thesis
    by (simp add: unat_sub unsigned_minus_1_eq_mask mask_eq_exp_minus_1)
qed

definition hi16 :: "u32 \<Rightarrow> u16" where "hi16 x = ucast (drop_bit 16 x)"
definition lo16 :: "u32 \<Rightarrow> u16" where "lo16 x = ucast (x AND 0xffff)"

lemma unat_hi16 [word_val]: "unat (hi16 x) = unat x div 65536"
  using unat_lt_pow32 [of x] by (simp only: hi16_def) (subst unat_ucast_32_16; simp add: word_val)

lemma unat_lo16 [word_val]: "unat (lo16 x) = unat x mod 65536"
  by (simp only: lo16_def) (subst unat_ucast_32_16; simp add: word_val)

lemma halves_mod: "(unat (hi16 x) + unat (lo16 x)) mod 65535 = unat x mod 65535"
  using mod_65535_fold [of "unat x"] by (simp only: word_val add.commute)

section \<open>Adjustments for one translated address and port\<close>

text \<open>
  \<open>adj\<close> of the code for the address \<open>ip\<close> and port \<open>port\<close> of the packets and their translations.
\<close>

definition csum_adjustment :: "u32 \<Rightarrow> u16 \<Rightarrow> u32 \<Rightarrow> u16 \<Rightarrow> u16" where
  "csum_adjustment match_ip match_port xlate_ip xlate_port =
     (let ip_hi = hi16 match_ip;
          ip_lo = lo16 match_ip;
          xlate_ip = NOT xlate_ip;
          xlate_ip_hi = hi16 xlate_ip;
          xlate_ip_lo = lo16 xlate_ip;
          xlate_port = NOT xlate_port;
          adj = (ucast ip_hi :: u32) + ucast ip_lo + ucast match_port
                + ucast xlate_ip_hi + ucast xlate_ip_lo + ucast xlate_port
      in csum_fold adj)"

definition partial_csum_adjustment :: "u32 \<Rightarrow> u32 \<Rightarrow> u16" where
  "partial_csum_adjustment match_ip xlate_ip =
     (let adj = NOT match_ip + xlate_ip;
          adj = (if adj < xlate_ip then adj + 1 else adj)
      in csum_fold adj)"

definition sfe_ipv4_connection_match_compute_translations ::
  "sfe_ipv4_connection_match \<Rightarrow> sfe_ipv4_connection_match" where
  "sfe_ipv4_connection_match_compute_translations cm =
     (let cm1 = (if has_flag (cm_flags cm) FLAG_XLATE_SRC
                 then cm\<lparr>xlate_src_csum_adjustment := csum_adjustment (match_src_ip cm)
                        (match_src_port cm) (xlate_src_ip cm) (xlate_src_port cm)\<rparr>
                 else cm);
          cm2 = (if has_flag (cm_flags cm1) FLAG_XLATE_DEST
                 then cm1\<lparr>xlate_dest_csum_adjustment := csum_adjustment (match_dest_ip cm1)
                        (match_dest_port cm1) (xlate_dest_ip cm1) (xlate_dest_port cm1)\<rparr>
                 else cm1);
          cm3 = (if has_flag (cm_flags cm2) FLAG_XLATE_SRC
                 then cm2\<lparr>xlate_src_partial_csum_adjustment :=
                        partial_csum_adjustment (match_src_ip cm2) (xlate_src_ip cm2)\<rparr>
                 else cm2)
      in if has_flag (cm_flags cm3) FLAG_XLATE_DEST
         then cm3\<lparr>xlate_dest_partial_csum_adjustment :=
                 partial_csum_adjustment (match_dest_ip cm3) (xlate_dest_ip cm3)\<rparr>
         else cm3)"

lemma sum6_16:
  fixes a b c d e f :: u16
  shows "unat ((ucast a :: u32) + ucast b + ucast c + ucast d + ucast e + ucast f) =
     unat a + unat b + unat c + unat d + unat e + unat f"
  using unat_lt_pow16 [of a] unat_lt_pow16 [of b] unat_lt_pow16 [of c]
    unat_lt_pow16 [of d] unat_lt_pow16 [of e] unat_lt_pow16 [of f]
  by (simp add: unat_add32 unat_ucast_16_32)

lemma mod_sum_eq:
  fixes a b c d e f :: nat
  assumes "a mod m = b mod m" and "c mod m = d mod m"
  shows "(a + c) mod m = (b + d) mod m"
  using assms by (metis mod_add_eq)

lemma mod_65535_mult: "(x + 65535 * k) mod 65535 = x mod (65535 :: nat)"
  by simp

text \<open>Adding the translated values to the adjustment gives the original ones.\<close>

lemma csum_adjustment_mod:
  "(unat (csum_adjustment mi mp xi xp) + unat xi + unat xp) mod 65535 = (unat mi + unat mp) mod 65535"
proof -
  let ?adj = "csum_adjustment mi mp xi xp"
  have "unat ?adj mod 65535 =
      (unat (hi16 mi) + unat (lo16 mi) + unat mp + unat (hi16 (NOT xi)) + unat (lo16 (NOT xi)) + unat (NOT xp)) mod 65535"
    by (simp only: csum_adjustment_def Let_def csum_fold_mod sum6_16)
  also have "\<dots> = ((unat (hi16 mi) + unat (lo16 mi)) + ((unat (hi16 (NOT xi)) + unat (lo16 (NOT xi)))
      + (unat mp + unat (NOT xp)))) mod 65535"
    by (simp add: ac_simps)
  also have "\<dots> = (unat mi + (unat (NOT xi) + (unat mp + unat (NOT xp)))) mod 65535"
    by (intro mod_sum_eq halves_mod refl)
  finally have "(unat ?adj + (unat xi + unat xp)) mod 65535 =
      (unat mi + (unat (NOT xi) + (unat mp + unat (NOT xp))) + (unat xi + unat xp)) mod 65535"
    by (intro mod_sum_eq refl)
  also have "unat mi + (unat (NOT xi) + (unat mp + unat (NOT xp))) + (unat xi + unat xp) =
      unat mi + unat mp + 65535 * 65538"
    using unat_lt_pow32 [of xi] unat_lt_pow16 [of xp] by (simp add: word_val)
  finally show ?thesis unfolding mod_65535_mult by (simp only: add.assoc)
qed

text \<open>The partial checksum holds the uncomplemented sum of the addresses.\<close>

lemma ones_add:
  fixes a b :: u32
  defines "s \<equiv> (if a + b < b then a + b + 1 else a + b)"
  shows "unat s mod 65535 = (unat a + unat b) mod 65535"
proof (cases "unat a + unat b < 4294967296")
  case True
  then have "unat (a + b) = unat a + unat b" by (rule unat_add32)
  moreover from this have "\<not> a + b < b" by (simp add: word_less_nat_alt)
  ultimately show ?thesis by (simp add: s_def)
next
  case False
  have lt: "unat a < 4294967296" "unat b < 4294967296" by (rule unat_lt_pow32)+
  with False have u: "unat (a + b) = unat a + unat b - 4294967296"
    by (simp add: unat_word_ariths mod_if)
  with False lt have "a + b < b" by (simp add: word_less_nat_alt)
  moreover have "unat (a + b + 1) = unat (a + b) + 1"
    using u lt by (subst unat_add32) simp_all
  ultimately have "unat s + 65535 * 65537 = unat a + unat b"
    using u False by (simp add: s_def)
  then show ?thesis by (metis mod_65535_mult)
qed

lemma partial_csum_adjustment_mod:
  "(unat (partial_csum_adjustment mi xi) + unat mi) mod 65535 = unat xi mod 65535"
proof -
  have "unat (partial_csum_adjustment mi xi) mod 65535 = (unat (NOT mi) + unat xi) mod 65535"
    by (simp only: partial_csum_adjustment_def Let_def csum_fold_mod ones_add)
  then have "(unat (partial_csum_adjustment mi xi) + unat mi) mod 65535 =
      (unat (NOT mi) + unat xi + unat mi) mod 65535"
    by (intro mod_sum_eq refl)
  also have "unat (NOT mi) + unat xi + unat mi = unat xi + 65535 * 65537"
    using unat_lt_pow32 [of mi] by (simp add: word_val)
  finally show ?thesis by (simp only: mod_65535_mult)
qed

section \<open>Applying an adjustment\<close>

text \<open>\<open>sum = csum + adjustment; sum = (sum & 0xffff) + (sum >> 16); check = (u16)sum\<close>.\<close>

definition apply_adjustment :: "u16 \<Rightarrow> u16 \<Rightarrow> u16" where
  "apply_adjustment csum adj =
     (let sum = (ucast csum :: u32) + ucast adj; sum = fold16 sum in ucast sum)"

lemma unat_sum2_16: "unat ((ucast (a :: u16) :: u32) + ucast (b :: u16)) = unat a + unat b"
  using unat_lt_pow16 [of a] unat_lt_pow16 [of b] by (simp add: unat_add32 unat_ucast_16_32)

text \<open>One fold suffices: the addition of two 16-bit values cannot wrap twice.\<close>

lemma unat_apply_adjustment:
  "unat (apply_adjustment c a) = unat (fold16 ((ucast c :: u32) + ucast a))"
proof -
  have "unat ((ucast c :: u32) + ucast a) < 131071"
    using unat_lt_pow16 [of c] unat_lt_pow16 [of a] by (simp only: unat_sum2_16)
  then show ?thesis by (simp add: apply_adjustment_def unat_ucast_32_16 fold16_small)
qed

lemma apply_adjustment_mod: "unat (apply_adjustment c a) mod 65535 = (unat c + unat a) mod 65535"
  by (simp only: unat_apply_adjustment fold16_mod unat_sum2_16)

lemma apply_adjustment_nonzero: "c \<noteq> 0 \<Longrightarrow> apply_adjustment c a \<noteq> 0"
proof
  assume "c \<noteq> 0" "apply_adjustment c a = 0"
  then have "unat (fold16 ((ucast c :: u32) + ucast a)) = 0"
    using unat_apply_adjustment [of c a] by simp
  then have "unat c = 0" by (simp only: fold16_zero unat_sum2_16)
  with \<open>c \<noteq> 0\<close> show False by (simp add: unat_eq_zero)
qed

theorem translated_csum_mod:
  "(unat (apply_adjustment c (csum_adjustment mi mp xi xp)) + unat xi + unat xp) mod 65535 =
   (unat c + unat mi + unat mp) mod 65535"
proof -
  have "(unat (apply_adjustment c (csum_adjustment mi mp xi xp)) + (unat xi + unat xp)) mod 65535 =
      (unat c + unat (csum_adjustment mi mp xi xp) + (unat xi + unat xp)) mod 65535"
    by (intro mod_sum_eq apply_adjustment_mod refl)
  also have "\<dots> = (unat c + (unat (csum_adjustment mi mp xi xp) + unat xi + unat xp)) mod 65535"
    by (simp add: ac_simps)
  also have "\<dots> = (unat c + (unat mi + unat mp)) mod 65535"
    by (intro mod_sum_eq csum_adjustment_mod refl)
  finally show ?thesis by (simp add: ac_simps)
qed

theorem translated_partial_csum_mod:
  "(unat (apply_adjustment c (partial_csum_adjustment mi xi)) + unat mi) mod 65535 =
   (unat c + unat xi) mod 65535"
proof -
  have "(unat (apply_adjustment c (partial_csum_adjustment mi xi)) + unat mi) mod 65535 =
      (unat c + unat (partial_csum_adjustment mi xi) + unat mi) mod 65535"
    by (intro mod_sum_eq apply_adjustment_mod refl)
  also have "\<dots> = (unat c + (unat (partial_csum_adjustment mi xi) + unat mi)) mod 65535"
    by (simp add: ac_simps)
  also have "\<dots> = (unat c + unat xi) mod 65535"
    by (intro mod_sum_eq partial_csum_adjustment_mod refl)
  finally show ?thesis .
qed

section \<open>Fields the translation leaves alone\<close>

lemma compute_translations_frame [frame_simps]:
  fixes cm
  defines "m \<equiv> sfe_ipv4_connection_match_compute_translations cm"
  shows "cm_connection m = cm_connection cm" "cm_counter_match m = cm_counter_match cm"
    "match_dev m = match_dev cm" "match_protocol m = match_protocol cm"
    "match_src_ip m = match_src_ip cm" "match_dest_ip m = match_dest_ip cm"
    "match_src_port m = match_src_port cm" "match_dest_port m = match_dest_port cm"
    "cm_flags m = cm_flags cm" "flow_accel m = flow_accel cm" "cm_tcp m = cm_tcp cm"
    "rx_packet_count m = rx_packet_count cm" "rx_byte_count m = rx_byte_count cm"
    "xlate_src_ip m = xlate_src_ip cm" "xlate_src_port m = xlate_src_port cm"
    "xlate_dest_ip m = xlate_dest_ip cm" "xlate_dest_port m = xlate_dest_port cm"
    "xmit_dev m = xmit_dev cm" "xmit_dev_mtu m = xmit_dev_mtu cm"
  by (simp_all add: m_def sfe_ipv4_connection_match_compute_translations_def Let_def)

lemma compute_translations_adjustments:
  fixes cm
  defines "m \<equiv> sfe_ipv4_connection_match_compute_translations cm"
  shows "has_flag (cm_flags cm) FLAG_XLATE_SRC \<Longrightarrow> xlate_src_csum_adjustment m =
      csum_adjustment (match_src_ip cm) (match_src_port cm) (xlate_src_ip cm) (xlate_src_port cm)"
    and "has_flag (cm_flags cm) FLAG_XLATE_SRC \<Longrightarrow> xlate_src_partial_csum_adjustment m =
      partial_csum_adjustment (match_src_ip cm) (xlate_src_ip cm)"
    and "has_flag (cm_flags cm) FLAG_XLATE_DEST \<Longrightarrow> xlate_dest_csum_adjustment m =
      csum_adjustment (match_dest_ip cm) (match_dest_port cm) (xlate_dest_ip cm) (xlate_dest_port cm)"
    and "has_flag (cm_flags cm) FLAG_XLATE_DEST \<Longrightarrow> xlate_dest_partial_csum_adjustment m =
      partial_csum_adjustment (match_dest_ip cm) (xlate_dest_ip cm)"
  by (simp_all add: m_def sfe_ipv4_connection_match_compute_translations_def Let_def)

end
