(* ===== verification/Sfe_Rule.thy ===== *)
theory Sfe_Rule
  imports Sfe_Sync Sfe_Csum
begin

text \<open>
  Rules (sfe_ipv4.c): creation, update, marking and destruction of a connection, as the connection
  manager calls them, and the destruction of all connections of a device. The results of the three
  allocations are arguments; a fresh object has arbitrary content, which is what the heap of the
  model holds at its address.
\<close>

section \<open>Update of the TCP state\<close>

definition raise_window :: "u32 \<Rightarrow> u32 \<Rightarrow> u32 \<Rightarrow> sfe_ipv4_tcp_connection_match \<Rightarrow>
  sfe_ipv4_tcp_connection_match" where
  "raise_window td_max_window td_end td_max_end t =
     (let t1 = (if max_win t < td_max_window then t\<lparr>max_win := td_max_window\<rparr> else t);
          t2 = (if sint (tcp_end t1 - td_end) < 0 then t1\<lparr>tcp_end := td_end\<rparr> else t1)
      in if sint (max_end t2 - td_max_end) < 0 then t2\<lparr>max_end := td_max_end\<rparr> else t2)"

definition sfe_ipv4_update_tcp_state :: "conn_ptr \<Rightarrow> sfe_connection_create \<Rightarrow> sfe_ipv4 \<Rightarrow> sfe_ipv4" where
  "sfe_ipv4_update_tcp_state c sic s =
     (let orig_cm = original_match (conns s c);
          repl_cm = reply_match (conns s c);
          s1 = upd_cm orig_cm (\<lambda>m. m\<lparr>cm_tcp := raise_window (sic_src_td_max_window sic)
                 (sic_src_td_end sic) (sic_src_td_max_end sic) (cm_tcp m)\<rparr>) s;
          s2 = upd_cm repl_cm (\<lambda>m. m\<lparr>cm_tcp := raise_window (sic_dest_td_max_window sic)
                 (sic_dest_td_end sic) (sic_dest_td_max_end sic) (cm_tcp m)\<rparr>) s1;
          s3 = upd_cm orig_cm (\<lambda>m. m\<lparr>cm_flags := cm_flags m AND NOT FLAG_NO_SEQ_CHECK\<rparr>) s2;
          s4 = upd_cm repl_cm (\<lambda>m. m\<lparr>cm_flags := cm_flags m AND NOT FLAG_NO_SEQ_CHECK\<rparr>) s3
      in if has_flag (sic_flags sic) SFE_CREATE_FLAG_NO_SEQ_CHECK then
           (let s5 = upd_cm orig_cm (\<lambda>m. m\<lparr>cm_flags := cm_flags m OR FLAG_NO_SEQ_CHECK\<rparr>) s4
            in upd_cm repl_cm (\<lambda>m. m\<lparr>cm_flags := cm_flags m OR FLAG_NO_SEQ_CHECK\<rparr>) s5)
         else s4)"

definition sfe_ipv4_update_protocol_state :: "conn_ptr \<Rightarrow> sfe_connection_create \<Rightarrow> sfe_ipv4 \<Rightarrow> sfe_ipv4" where
  "sfe_ipv4_update_protocol_state c sic s =
     (if sic_protocol sic = IPPROTO_TCP then sfe_ipv4_update_tcp_state c sic s else s)"

definition sfe_ipv4_update_rule :: "sfe_env \<Rightarrow> sfe_connection_create \<Rightarrow> sfe_ipv4 \<Rightarrow> sfe_ipv4 option" where
  "sfe_ipv4_update_rule E sic s = do {
     c \<leftarrow> sfe_ipv4_find_sfe_ipv4_connection E (sic_protocol sic) (ip (sic_src_ip sic)) (sic_src_port sic)
            (ip (sic_dest_ip sic)) (sic_dest_port sic) s;
     (case c of
        None \<Rightarrow> Some s
      | Some c \<Rightarrow> Some (sfe_ipv4_update_protocol_state c sic s))
   }"

section \<open>Marking\<close>

definition sfe_ipv4_mark_rule :: "sfe_env \<Rightarrow> sfe_connection_mark \<Rightarrow> sfe_ipv4 \<Rightarrow> sfe_ipv4 option" where
  "sfe_ipv4_mark_rule E mark s = do {
     c \<leftarrow> sfe_ipv4_find_sfe_ipv4_connection E (scm_protocol mark) (ip (scm_src_ip mark))
            (scm_src_port mark) (ip (scm_dest_ip mark)) (scm_dest_port mark) s;
     (case c of
        None \<Rightarrow> Some s
      | Some c \<Rightarrow> Some (upd_conn c (\<lambda>d. d\<lparr>c_mark := scm_mark mark\<rparr>) s))
   }"

section \<open>Creation\<close>

datatype create_result = CREATED | EINVAL | EADDRINUSE | ENOMEM

record allocation =
  al_conn :: "conn_ptr option"
  al_original :: "cm_ptr option"
  al_reply :: "cm_ptr option"

definition SFE_IPV4_DSCP_SHIFT :: nat where "SFE_IPV4_DSCP_SHIFT = 2"

text \<open>The flags a match gets from its transmit device.\<close>

definition l2_flags :: "net_device \<Rightarrow> u32" where
  "l2_flags dev =
     (if nd_flags dev AND IFF_POINTOPOINT = 0
      then FLAG_WRITE_L2_HDR OR
        (case nd_header_ops dev of
           Some h \<Rightarrow> if h = eth_header then FLAG_WRITE_FAST_ETH_HDR else 0
         | None \<Rightarrow> 0)
      else 0)"

definition remark_flags :: "sfe_connection_create \<Rightarrow> u32" where
  "remark_flags sic =
     (if has_flag (sic_flags sic) SFE_CREATE_FLAG_REMARK_PRIORITY then FLAG_PRIORITY_REMARK else 0) OR
     (if has_flag (sic_flags sic) SFE_CREATE_FLAG_REMARK_DSCP then FLAG_DSCP_REMARK else 0)"

definition dest_translated :: "sfe_connection_create \<Rightarrow> bool" where
  "dest_translated sic \<longleftrightarrow> ip (sic_dest_ip sic) \<noteq> ip (sic_dest_ip_xlate sic) \<or>
     sic_dest_port sic \<noteq> sic_dest_port_xlate sic"

definition src_translated :: "sfe_connection_create \<Rightarrow> bool" where
  "src_translated sic \<longleftrightarrow> ip (sic_src_ip sic) \<noteq> ip (sic_src_ip_xlate sic) \<or>
     sic_src_port sic \<noteq> sic_src_port_xlate sic"

definition seq_check_flag :: "sfe_connection_create \<Rightarrow> u32" where
  "seq_check_flag sic =
     (if sic_protocol sic = IPPROTO_TCP \<and> has_flag (sic_flags sic) SFE_CREATE_FLAG_NO_SEQ_CHECK
      then FLAG_NO_SEQ_CHECK else 0)"

text \<open>The match of the original direction, filled into the object \<open>m\<close>.\<close>

definition fill_original_cm :: "sfe_env \<Rightarrow> sfe_connection_create \<Rightarrow> conn_ptr \<Rightarrow> cm_ptr \<Rightarrow>
  sfe_ipv4_connection_match \<Rightarrow> sfe_ipv4_connection_match" where
  "fill_original_cm E sic c reply_cm m =
     (let dest_dev = sic_dest_dev sic;
          m1 = m\<lparr>match_dev := sic_src_dev sic, match_protocol := ucast (sic_protocol sic),
            match_src_ip := ip (sic_src_ip sic), match_src_port := sic_src_port sic,
            match_dest_ip := ip (sic_dest_ip sic), match_dest_port := sic_dest_port sic,
            xlate_src_ip := ip (sic_src_ip_xlate sic), xlate_src_port := sic_src_port_xlate sic,
            xlate_dest_ip := ip (sic_dest_ip_xlate sic), xlate_dest_port := sic_dest_port_xlate sic,
            rx_packet_count := 0, rx_packet_count64 := 0, rx_byte_count := 0, rx_byte_count64 := 0,
            xmit_dev := dest_dev, xmit_dev_mtu := ucast (sic_dest_mtu sic),
            xmit_src_mac := nd_dev_addr (netdev E dest_dev), xmit_dest_mac := sic_dest_mac_xlate sic,
            cm_connection := c, cm_counter_match := reply_cm\<rparr>;
          m2 = (if has_flag (sic_flags sic) SFE_CREATE_FLAG_REMARK_PRIORITY
                then m1\<lparr>cm_priority := sic_src_priority sic\<rparr> else m1);
          m3 = (if has_flag (sic_flags sic) SFE_CREATE_FLAG_REMARK_DSCP
                then m2\<lparr>cm_dscp := push_bit SFE_IPV4_DSCP_SHIFT (sic_src_dscp sic)\<rparr> else m2);
          m4 = (if config_xfrm E then m3\<lparr>flow_accel := sic_original_accel sic\<rparr> else m3);
          m5 = (if sic_protocol sic = IPPROTO_TCP
                then m4\<lparr>cm_tcp := \<lparr>win_scale = sic_src_td_window_scale sic,
                       max_win = (if sic_src_td_max_window sic \<noteq> 0 then sic_src_td_max_window sic else 1),
                       tcp_end = sic_src_td_end sic, max_end = sic_src_td_max_end sic\<rparr>\<rparr>
                else m4)
      in m5\<lparr>cm_flags := remark_flags sic OR l2_flags (netdev E dest_dev)
             OR (if dest_translated sic then FLAG_XLATE_DEST else 0)
             OR (if src_translated sic then FLAG_XLATE_SRC else 0)
             OR seq_check_flag sic\<rparr>)"

text \<open>The match of the reply direction.\<close>

definition fill_reply_cm :: "sfe_env \<Rightarrow> sfe_connection_create \<Rightarrow> conn_ptr \<Rightarrow> cm_ptr \<Rightarrow>
  sfe_ipv4_connection_match \<Rightarrow> sfe_ipv4_connection_match" where
  "fill_reply_cm E sic c original_cm m =
     (let src_dev = sic_src_dev sic;
          m1 = m\<lparr>match_dev := sic_dest_dev sic, match_protocol := ucast (sic_protocol sic),
            match_src_ip := ip (sic_dest_ip_xlate sic), match_src_port := sic_dest_port_xlate sic,
            match_dest_ip := ip (sic_src_ip_xlate sic), match_dest_port := sic_src_port_xlate sic,
            xlate_src_ip := ip (sic_dest_ip sic), xlate_src_port := sic_dest_port sic,
            xlate_dest_ip := ip (sic_src_ip sic), xlate_dest_port := sic_src_port sic,
            rx_packet_count := 0, rx_packet_count64 := 0, rx_byte_count := 0, rx_byte_count64 := 0,
            xmit_dev := src_dev, xmit_dev_mtu := ucast (sic_src_mtu sic),
            xmit_src_mac := nd_dev_addr (netdev E src_dev), xmit_dest_mac := sic_src_mac sic,
            cm_connection := c, cm_counter_match := original_cm\<rparr>;
          m2 = (if has_flag (sic_flags sic) SFE_CREATE_FLAG_REMARK_PRIORITY
                then m1\<lparr>cm_priority := sic_dest_priority sic\<rparr> else m1);
          m3 = (if has_flag (sic_flags sic) SFE_CREATE_FLAG_REMARK_DSCP
                then m2\<lparr>cm_dscp := push_bit SFE_IPV4_DSCP_SHIFT (sic_dest_dscp sic)\<rparr> else m2);
          m4 = (if config_xfrm E then m3\<lparr>flow_accel := sic_reply_accel sic\<rparr> else m3);
          m5 = (if sic_protocol sic = IPPROTO_TCP
                then m4\<lparr>cm_tcp := \<lparr>win_scale = sic_dest_td_window_scale sic,
                       max_win = (if sic_dest_td_max_window sic \<noteq> 0 then sic_dest_td_max_window sic else 1),
                       tcp_end = sic_dest_td_end sic, max_end = sic_dest_td_max_end sic\<rparr>\<rparr>
                else m4)
      in m5\<lparr>cm_flags := remark_flags sic OR l2_flags (netdev E src_dev)
             OR (if dest_translated sic then FLAG_XLATE_SRC else 0)
             OR (if src_translated sic then FLAG_XLATE_DEST else 0)
             OR seq_check_flag sic\<rparr>)"

definition fill_connection :: "sfe_connection_create \<Rightarrow> cm_ptr \<Rightarrow> cm_ptr \<Rightarrow> u64 \<Rightarrow>
  sfe_ipv4_connection \<Rightarrow> sfe_ipv4_connection" where
  "fill_connection sic original_cm reply_cm jiffies c =
     c\<lparr>c_protocol := sic_protocol sic,
       c_src_ip := ip (sic_src_ip sic), c_src_ip_xlate := ip (sic_src_ip_xlate sic),
       c_src_port := sic_src_port sic, c_src_port_xlate := sic_src_port_xlate sic,
       original_dev := sic_src_dev sic, original_match := original_cm,
       c_dest_ip := ip (sic_dest_ip sic), c_dest_ip_xlate := ip (sic_dest_ip_xlate sic),
       c_dest_port := sic_dest_port sic, c_dest_port_xlate := sic_dest_port_xlate sic,
       reply_dev := sic_dest_dev sic, reply_match := reply_cm,
       c_mark := sic_mark sic, c_debug_read_seq := 0, last_sync_jiffies := jiffies\<rparr>"

definition idle_match :: "cm_ptr \<Rightarrow> sfe_ipv4 \<Rightarrow> sfe_ipv4" where
  "idle_match p s =
     (let s1 = set_active_next p None s; s2 = set_active_prev p None s1
      in s2\<lparr>match_active := (match_active s2)(p := False)\<rparr>)"

text \<open>The second half of the creation, once the three objects are allocated.\<close>

definition prepare_rule :: "sfe_env \<Rightarrow> sfe_connection_create \<Rightarrow> conn_ptr \<Rightarrow> cm_ptr \<Rightarrow> cm_ptr \<Rightarrow> u64 \<Rightarrow>
  sfe_ipv4 \<Rightarrow> sfe_ipv4" where
  "prepare_rule E sic c original_cm reply_cm jiffies s =
     (let s1 = idle_match original_cm (upd_cm original_cm (fill_original_cm E sic c reply_cm) s);
          s2 = idle_match reply_cm (upd_cm reply_cm (fill_reply_cm E sic c original_cm) s1);
          s3 = upd_conn c (fill_connection sic original_cm reply_cm jiffies) s2;
          s4 = dev_hold (original_dev (conns s3 c)) s3;
          s5 = dev_hold (reply_dev (conns s4 c)) s4;
          s6 = upd_cm original_cm sfe_ipv4_connection_match_compute_translations s5
      in upd_cm reply_cm sfe_ipv4_connection_match_compute_translations s6)"

definition build_rule :: "sfe_env \<Rightarrow> sfe_connection_create \<Rightarrow> conn_ptr \<Rightarrow> cm_ptr \<Rightarrow> cm_ptr \<Rightarrow> u64 \<Rightarrow>
  sfe_ipv4 \<Rightarrow> sfe_ipv4" where
  "build_rule E sic c original_cm reply_cm jiffies s =
     sfe_ipv4_insert_sfe_ipv4_connection E c (prepare_rule E sic c original_cm reply_cm jiffies s)"

definition sfe_ipv4_create_rule ::
  "sfe_env \<Rightarrow> sfe_connection_create \<Rightarrow> allocation \<Rightarrow> u64 \<Rightarrow> sfe_ipv4 \<Rightarrow> (create_result \<times> sfe_ipv4) option" where
  "sfe_ipv4_create_rule E sic al jiffies s =
     (if \<not> nd_registered (netdev E (sic_dest_dev sic)) \<or> \<not> nd_registered (netdev E (sic_src_dev sic))
      then Some (EINVAL, s)
      else do {
        let s1 = s\<lparr>connection_create_requests := connection_create_requests s + 1\<rparr>;
        found \<leftarrow> sfe_ipv4_find_sfe_ipv4_connection E (sic_protocol sic) (ip (sic_src_ip sic))
                   (sic_src_port sic) (ip (sic_dest_ip sic)) (sic_dest_port sic) s1;
        (case found of
           Some c \<Rightarrow>
             (let s2 = s1\<lparr>connection_create_collisions := connection_create_collisions s1 + 1\<rparr>
              in Some (EADDRINUSE, sfe_ipv4_update_protocol_state c sic s2))
         | None \<Rightarrow>
             (case al_conn al of
                None \<Rightarrow> Some (ENOMEM, s1)
              | Some c \<Rightarrow>
                  (let s2 = s1\<lparr>conn_live := insert c (conn_live s1)\<rparr>
                   in case al_original al of
                        None \<Rightarrow> Some (ENOMEM, kfree_conn c s2)
                      | Some original_cm \<Rightarrow>
                          (let s3 = s2\<lparr>cm_live := insert original_cm (cm_live s2)\<rparr>
                           in case al_reply al of
                                None \<Rightarrow> Some (ENOMEM, kfree_conn c (kfree_cm original_cm s3))
                              | Some reply_cm \<Rightarrow>
                                  (let s4 = s3\<lparr>cm_live := insert reply_cm (cm_live s3)\<rparr>
                                   in Some (CREATED, build_rule E sic c original_cm reply_cm jiffies s4))))))
      })"

section \<open>Destruction\<close>

definition sfe_ipv4_destroy_rule ::
  "sfe_env \<Rightarrow> sfe_connection_destroy \<Rightarrow> sfe_connection_sync \<Rightarrow> u64 \<Rightarrow> sfe_ipv4 \<Rightarrow> sfe_ipv4 option" where
  "sfe_ipv4_destroy_rule E sid sis now s = do {
     let s1 = s\<lparr>connection_destroy_requests := connection_destroy_requests s + 1\<rparr>;
     found \<leftarrow> sfe_ipv4_find_sfe_ipv4_connection E (sid_protocol sid) (ip (sid_src_ip sid))
                (sid_src_port sid) (ip (sid_dest_ip sid)) (sid_dest_port sid) s1;
     (case found of
        None \<Rightarrow> Some (s1\<lparr>connection_destroy_misses := connection_destroy_misses s1 + 1\<rparr>)
      | Some c \<Rightarrow>
          (let s2 = sfe_ipv4_remove_sfe_ipv4_connection E c s1
           in Some (sfe_ipv4_flush_sfe_ipv4_connection c SFE_SYNC_REASON_DESTROY sis now s2)))
   }"

text \<open>The walk for a connection of the device; no device means every connection.\<close>

definition uses_dev :: "netdev option \<Rightarrow> sfe_ipv4_connection \<Rightarrow> bool" where
  "uses_dev dev c \<longleftrightarrow> (case dev of None \<Rightarrow> True | Some d \<Rightarrow> d = original_dev c \<or> d = reply_dev c)"

partial_function (option) find_conn_of_dev ::
  "netdev option \<Rightarrow> sfe_ipv4 \<Rightarrow> conn_ptr option \<Rightarrow> conn_ptr option option" where
  "find_conn_of_dev dev s c =
     (case c of
        None \<Rightarrow> Some None
      | Some p \<Rightarrow> if uses_dev dev (conns s p) then Some (Some p)
                  else find_conn_of_dev dev s (all_next s p))"

declare find_conn_of_dev.simps [code]

text \<open>The rounds of the loop; the time of each release is drawn from \<open>now\<close>.\<close>

partial_function (option) sfe_ipv4_destroy_all_rules_for_dev ::
  "sfe_env \<Rightarrow> netdev option \<Rightarrow> sfe_connection_sync \<Rightarrow> (nat \<Rightarrow> u64) \<Rightarrow> nat \<Rightarrow> sfe_ipv4 \<Rightarrow> sfe_ipv4 option" where
  "sfe_ipv4_destroy_all_rules_for_dev E dev sis now n s = do {
     c \<leftarrow> find_conn_of_dev dev s (all_connections_head s);
     (case c of
        None \<Rightarrow> Some s
      | Some c \<Rightarrow>
          sfe_ipv4_destroy_all_rules_for_dev E dev sis now (Suc n)
            (sfe_ipv4_flush_sfe_ipv4_connection c SFE_SYNC_REASON_DESTROY sis (now n)
              (sfe_ipv4_remove_sfe_ipv4_connection E c s)))
   }"

declare sfe_ipv4_destroy_all_rules_for_dev.simps [code]

end
