(* ===== verification/Sfe_Rule_Inv.thy ===== *)
theory Sfe_Rule_Inv
  imports Sfe_Sync_Loop Sfe_Rule
begin

text \<open>
  The invariant of the whole engine, \<open>engine_inv\<close>: the tables, the device references, the relation
  of each connection with its two matches (addresses, translations, checksum adjustments) and the
  uniqueness of connection keys. Creation, update, marking and destruction of rules preserve it.
\<close>

section \<open>The flows of one connection\<close>

text \<open>Source and destination of a packet after the translation of a match.\<close>

definition eff_src :: "sfe_ipv4_connection_match \<Rightarrow> u32 \<times> u16" where
  "eff_src m = (if has_flag (cm_flags m) FLAG_XLATE_SRC then (xlate_src_ip m, xlate_src_port m)
                else (match_src_ip m, match_src_port m))"

definition eff_dest :: "sfe_ipv4_connection_match \<Rightarrow> u32 \<times> u16" where
  "eff_dest m = (if has_flag (cm_flags m) FLAG_XLATE_DEST then (xlate_dest_ip m, xlate_dest_port m)
                 else (match_dest_ip m, match_dest_port m))"

definition adjusted :: "sfe_ipv4_connection_match \<Rightarrow> bool" where
  "adjusted m \<longleftrightarrow>
     (has_flag (cm_flags m) FLAG_XLATE_SRC \<longrightarrow>
        xlate_src_csum_adjustment m =
          csum_adjustment (match_src_ip m) (match_src_port m) (xlate_src_ip m) (xlate_src_port m) \<and>
        xlate_src_partial_csum_adjustment m = partial_csum_adjustment (match_src_ip m) (xlate_src_ip m)) \<and>
     (has_flag (cm_flags m) FLAG_XLATE_DEST \<longrightarrow>
        xlate_dest_csum_adjustment m =
          csum_adjustment (match_dest_ip m) (match_dest_port m) (xlate_dest_ip m) (xlate_dest_port m) \<and>
        xlate_dest_partial_csum_adjustment m = partial_csum_adjustment (match_dest_ip m) (xlate_dest_ip m))"

text \<open>What leaves in one direction comes back in the other.\<close>

definition mirror :: "sfe_ipv4_connection_match \<Rightarrow> sfe_ipv4_connection_match \<Rightarrow> bool" where
  "mirror m r \<longleftrightarrow>
     match_dev r = xmit_dev m \<and> match_protocol r = match_protocol m \<and>
     (match_src_ip r, match_src_port r) = eff_dest m \<and>
     (match_dest_ip r, match_dest_port r) = eff_src m"

text \<open>The translation of a connection: source and destination as seen after it.\<close>

definition conn_nat :: "sfe_ipv4_connection \<Rightarrow> (u32 \<times> u16) \<times> (u32 \<times> u16)" where
  "conn_nat c = ((c_src_ip_xlate c, c_src_port_xlate c), (c_dest_ip_xlate c, c_dest_port_xlate c))"

definition flow_ok :: "sfe_ipv4 \<Rightarrow> conn_ptr \<Rightarrow> bool" where
  "flow_ok s c \<longleftrightarrow>
     (let d = conns s c; m = cms s (original_match d); r = cms s (reply_match d)
      in adjusted m \<and> adjusted r \<and> mirror m r \<and> mirror r m \<and>
         match_dev m = original_dev d \<and> match_dev r = reply_dev d \<and>
         match_protocol m = ucast (c_protocol d) \<and>
         match_src_ip m = c_src_ip d \<and> match_src_port m = c_src_port d \<and>
         match_dest_ip m = c_dest_ip d \<and> match_dest_port m = c_dest_port d \<and>
         (eff_src m, eff_dest m) = conn_nat d)"

definition engine_inv :: "sfe_env \<Rightarrow> (netdev \<Rightarrow> int) \<Rightarrow> sfe_ipv4 \<Rightarrow> sfe_abs \<Rightarrow> conn_ptr list \<Rightarrow> bool" where
  "engine_inv E base s A D \<longleftrightarrow> table_inv E s A D \<and> refs_inv base s A D \<and>
     (\<forall>c\<in>set (connl A @ D). flow_ok s c) \<and> inj_on (conn_key s) (set (connl A))"

text \<open>The fixed part of the objects decides all of this.\<close>

lemma flag_of_masked:
  assumes "fl' AND NOT FLAG_NO_SEQ_CHECK = fl AND NOT FLAG_NO_SEQ_CHECK" and "f AND NOT FLAG_NO_SEQ_CHECK = f"
  shows "has_flag fl' f = has_flag fl f"
proof -
  have "fl' AND f = (fl' AND NOT FLAG_NO_SEQ_CHECK) AND f" for fl'
    using assms(2) by (metis and.assoc and.commute)
  then show ?thesis using assms(1) by (metis has_flag_def)
qed

lemma static_flags:
  assumes "cm_static m' = cm_static m"
  shows "has_flag (cm_flags m') FLAG_XLATE_SRC = has_flag (cm_flags m) FLAG_XLATE_SRC"
    and "has_flag (cm_flags m') FLAG_XLATE_DEST = has_flag (cm_flags m) FLAG_XLATE_DEST"
  by (rule flag_of_masked [OF cm_staticD(9) [OF assms]]; simp add: flag_defs)+

lemma static_flow:
  assumes "cm_static m' = cm_static m"
  shows "eff_src m' = eff_src m" and "eff_dest m' = eff_dest m" and "adjusted m' = adjusted m"
  by (simp_all add: eff_src_def eff_dest_def adjusted_def static_flags [OF assms] cm_staticD [OF assms])

lemma static_mirror:
  assumes "cm_static m' = cm_static m" and "cm_static r' = cm_static r"
  shows "mirror m' r' = mirror m r"
  by (simp add: mirror_def static_flow [OF assms(1)] cm_staticD [OF assms(1)] cm_staticD [OF assms(2)])

lemma static_flow_ok:
  assumes cm: "\<And>p. cm_static (cms s' p) = cm_static (cms s p)"
    and conn: "\<And>c. conn_static (conns s' c) = conn_static (conns s c)"
  shows "flow_ok s' c = flow_ok s c"
proof -
  note D = conn_staticD [OF conn, of c]
  note M = cm [of "original_match (conns s c)"] and R = cm [of "reply_match (conns s c)"]
  show ?thesis
    by (simp add: flow_ok_def Let_def conn_nat_def D static_flow [OF M] static_flow [OF R] static_mirror [OF M R]
        static_mirror [OF R M] cm_staticD [OF M] cm_staticD [OF R])
qed

lemma same_table_flow_ok:
  assumes "same_table s s'"
  shows "flow_ok s' c = flow_ok s c"
  by (rule static_flow_ok) (rule same_table_static [OF assms])+

lemma same_table_conn_key: "same_table s s' \<Longrightarrow> conn_key s' = conn_key s"
  by (simp add: fun_eq_iff same_table_fields)

theorem same_table_engine:
  assumes I: "engine_inv E base s A D" and S: "same_table s s'" and R: "dev_refcnt s' = dev_refcnt s"
  shows "engine_inv E base s' A D"
  using I same_table_inv [OF _ S, of E A D]
  by (simp add: engine_inv_def refs_inv_def R dev_uses_same_table [OF S] same_table_flow_ok [OF S]
      same_table_conn_key [OF S])

section \<open>Removal and release\<close>

lemma remove_match_rest [simp]:
  "dev_refcnt (sfe_ipv4_remove_sfe_ipv4_connection_match E p s) = dev_refcnt s"
  "sync_rule_callback (sfe_ipv4_remove_sfe_ipv4_connection_match E p s) = sync_rule_callback s"
  "sync_calls (sfe_ipv4_remove_sfe_ipv4_connection_match E p s) = sync_calls s"
  "exception_events (sfe_ipv4_remove_sfe_ipv4_connection_match E p s) = exception_events s"
  "packets_forwarded (sfe_ipv4_remove_sfe_ipv4_connection_match E p s) = packets_forwarded s"
  "packets_not_forwarded (sfe_ipv4_remove_sfe_ipv4_connection_match E p s) = packets_not_forwarded s"
  by (simp_all add: remove_match_conv mch.unlink_def act.dequeue_def setter_defs Let_def split: option.split)

lemma remove_connection_rest [simp]:
  "dev_refcnt (sfe_ipv4_remove_sfe_ipv4_connection E c s) = dev_refcnt s"
  "sync_rule_callback (sfe_ipv4_remove_sfe_ipv4_connection E c s) = sync_rule_callback s"
  "sync_calls (sfe_ipv4_remove_sfe_ipv4_connection E c s) = sync_calls s"
  "exception_events (sfe_ipv4_remove_sfe_ipv4_connection E c s) = exception_events s"
  "packets_forwarded (sfe_ipv4_remove_sfe_ipv4_connection E c s) = packets_forwarded s"
  "packets_not_forwarded (sfe_ipv4_remove_sfe_ipv4_connection E c s) = packets_not_forwarded s"
  by (simp_all add: remove_conn_conv cch.unlink_def alls.dequeue_def setter_defs Let_def split: option.split)

lemma abs_remove_connl [simp]: "connl (abs_remove E s c A) = remove1 c (connl A)"
  by (simp add: abs_remove_def Let_def)

lemma flow_ok_cong:
  "cms s' = cms s \<Longrightarrow> conns s' = conns s \<Longrightarrow> flow_ok s' c = flow_ok s c"
  by (simp add: flow_ok_def)

lemma conn_key_cong: "conns s' = conns s \<Longrightarrow> conn_key s' = conn_key s"
  by (simp add: fun_eq_iff conn_key_def)

lemma dev_uses_cong: "conns s' = conns s \<Longrightarrow> dev_uses s' cs d = dev_uses s cs d"
  by (simp add: dev_uses_def)

lemma dev_uses_agree:
  "(\<And>c. c \<in> set cs \<Longrightarrow> conns t c = conns s c) \<Longrightarrow> dev_uses t cs d = dev_uses s cs d"
  by (simp add: dev_uses_def cong: filter_cong)

theorem remove_engine:
  assumes I: "engine_inv E base s A D" and c: "c \<in> set (connl A)"
  shows "engine_inv E base (sfe_ipv4_remove_sfe_ipv4_connection E c s) (abs_remove E s c A) (c # D)"
proof -
  let ?t = "sfe_ipv4_remove_sfe_ipv4_connection E c s"
  have "table_inv E ?t (abs_remove E s c A) (c # D)"
    using I c by (intro remove_connection_inv) (simp add: engine_inv_def)
  moreover have "refs_inv base ?t (abs_remove E s c A) (c # D)"
    using I dev_uses_remove1 [OF c, of s] dev_uses_cong [of ?t s]
    by (simp add: engine_inv_def refs_inv_def)
  moreover have "flow_ok ?t d" if "d \<in> set (connl (abs_remove E s c A) @ c # D)" for d
    using I that c flow_ok_cong [of ?t s d] set_remove1_subset [of c "connl A"]
    by (auto simp: engine_inv_def)
  moreover have "inj_on (conn_key ?t) (set (connl (abs_remove E s c A)))"
    using I conn_key_cong [of ?t s]
    by (auto simp: engine_inv_def intro: inj_on_subset [OF _ set_remove1_subset])
  ultimately show ?thesis by (simp add: engine_inv_def)
qed

lemma flush_static:
  "cm_static (cms (sfe_ipv4_flush_sfe_ipv4_connection c reason sis now s) p) = cm_static (cms s p)"
  "conn_static (conns (sfe_ipv4_flush_sfe_ipv4_connection c reason sis now s) d) = conn_static (conns s d)"
  using same_table_static [OF same_table_flush_report, of c reason sis now s]
  by (simp_all add: flush_conv Let_def dev_put_def kfree_cm_def kfree_conn_def)

lemma flush_flow:
  fixes c reason sis now s
  defines "u \<equiv> sfe_ipv4_flush_sfe_ipv4_connection c reason sis now s"
  shows "flow_ok u d = flow_ok s d" and "conn_key u = conn_key s"
proof -
  let ?t = "flush_report c reason sis now s"
  have t: "same_table s ?t" by (rule same_table_flush_report)
  have "cms u = cms ?t" "conns u = conns ?t"
    by (simp_all add: u_def flush_conv Let_def dev_put_def kfree_cm_def kfree_conn_def)
  then show "flow_ok u d = flow_ok s d" and "conn_key u = conn_key s"
    using flow_ok_cong [of u ?t d] conn_key_cong [of u ?t] same_table_flow_ok [OF t]
      same_table_conn_key [OF t] by simp_all
qed

theorem flush_engine:
  assumes I: "engine_inv E base s A (c # D)"
  shows "engine_inv E base (sfe_ipv4_flush_sfe_ipv4_connection c reason sis now s) A D"
  using I flush_inv [of E s A c D] flush_refs [of base s A c D]
  by (simp add: engine_inv_def flush_flow)

section \<open>Creation\<close>

lemma prepare_rule_fields:
  fixes E sic c m r j s
  defines "t \<equiv> prepare_rule E sic c m r j s"
  assumes ne: "m \<noteq> r"
  shows "cms t = (cms s)
      (m := sfe_ipv4_connection_match_compute_translations (fill_original_cm E sic c r (cms s m)),
       r := sfe_ipv4_connection_match_compute_translations (fill_reply_cm E sic c m (cms s r)))"
    and "conns t = (conns s)(c := fill_connection sic m r j (conns s c))"
    and "match_active t = (match_active s)(m := False, r := False)"
    and "active_next t = (active_next s)(m := None, r := None)"
    and "active_prev t = (active_prev s)(m := None, r := None)"
    and "dev_refcnt t d = dev_refcnt s d + (if sic_src_dev sic = d then 1 else 0)
           + (if sic_dest_dev sic = d then 1 else 0)"
  using ne
  by (auto simp: t_def prepare_rule_def Let_def upd_cm_def upd_conn_def idle_match_def setter_defs
      dev_hold_def fill_connection_def fun_upd_twist)

lemma prepare_rule_frame [simp]:
  fixes E sic c m r j s
  defines "t \<equiv> prepare_rule E sic c m r j s"
  shows "match_next t = match_next s" "match_prev t = match_prev s"
    "conn_match_hash t = conn_match_hash s" "conn_next t = conn_next s" "conn_prev t = conn_prev s"
    "conn_hash t = conn_hash s" "all_next t = all_next s" "all_prev t = all_prev s"
    "all_connections_head t = all_connections_head s" "all_connections_tail t = all_connections_tail s"
    "active_head t = active_head s" "active_tail t = active_tail s"
    "num_connections t = num_connections s" "cm_live t = cm_live s" "conn_live t = conn_live s"
    "sync_calls t = sync_calls s" "sync_rule_callback t = sync_rule_callback s"
  by (simp_all add: t_def prepare_rule_def Let_def upd_cm_def upd_conn_def idle_match_def setter_defs
      dev_hold_def)

lemma fill_original_fields:
  fixes E sic c r g
  defines "M \<equiv> fill_original_cm E sic c r g"
  shows "cm_connection M = c" "cm_counter_match M = r" "match_dev M = sic_src_dev sic"
    "match_protocol M = ucast (sic_protocol sic)" "match_src_ip M = ip (sic_src_ip sic)"
    "match_src_port M = sic_src_port sic" "match_dest_ip M = ip (sic_dest_ip sic)"
    "match_dest_port M = sic_dest_port sic" "xlate_src_ip M = ip (sic_src_ip_xlate sic)"
    "xlate_src_port M = sic_src_port_xlate sic" "xlate_dest_ip M = ip (sic_dest_ip_xlate sic)"
    "xlate_dest_port M = sic_dest_port_xlate sic" "xmit_dev M = sic_dest_dev sic"
    "xmit_dev_mtu M = ucast (sic_dest_mtu sic)"
    "rx_packet_count M = 0" "rx_byte_count M = 0" "rx_packet_count64 M = 0" "rx_byte_count64 M = 0"
  by (simp_all add: M_def fill_original_cm_def Let_def)

lemma fill_reply_fields:
  fixes E sic c r g
  defines "M \<equiv> fill_reply_cm E sic c r g"
  shows "cm_connection M = c" "cm_counter_match M = r" "match_dev M = sic_dest_dev sic"
    "match_protocol M = ucast (sic_protocol sic)" "match_src_ip M = ip (sic_dest_ip_xlate sic)"
    "match_src_port M = sic_dest_port_xlate sic" "match_dest_ip M = ip (sic_src_ip_xlate sic)"
    "match_dest_port M = sic_src_port_xlate sic" "xlate_src_ip M = ip (sic_dest_ip sic)"
    "xlate_src_port M = sic_dest_port sic" "xlate_dest_ip M = ip (sic_src_ip sic)"
    "xlate_dest_port M = sic_src_port sic" "xmit_dev M = sic_src_dev sic"
    "xmit_dev_mtu M = ucast (sic_src_mtu sic)"
    "rx_packet_count M = 0" "rx_byte_count M = 0" "rx_packet_count64 M = 0" "rx_byte_count64 M = 0"
  by (simp_all add: M_def fill_reply_cm_def Let_def)

text \<open>Which translations a new match performs.\<close>

lemma has_flag_or: "has_flag (a OR b) f \<longleftrightarrow> has_flag a f \<or> has_flag b f"
  by (auto simp: has_flag_def bit.conj_disj_distrib2 or_eq_0_iff)

lemma has_flag_if: "has_flag (if b then x else y) f = (if b then has_flag x f else has_flag y f)"
  by simp

lemma has_flag_l2: "\<not> has_flag (l2_flags d) FLAG_XLATE_SRC" "\<not> has_flag (l2_flags d) FLAG_XLATE_DEST"
  "\<not> has_flag (l2_flags d) FLAG_DSCP_REMARK" "\<not> has_flag (l2_flags d) FLAG_NO_SEQ_CHECK"
  by (auto simp: l2_flags_def has_flag_def flag_defs split: option.split)

lemma fill_flags:
  "has_flag (cm_flags (fill_original_cm E sic c r g)) FLAG_XLATE_SRC \<longleftrightarrow> src_translated sic"
  "has_flag (cm_flags (fill_original_cm E sic c r g)) FLAG_XLATE_DEST \<longleftrightarrow> dest_translated sic"
  "has_flag (cm_flags (fill_reply_cm E sic c r g)) FLAG_XLATE_SRC \<longleftrightarrow> dest_translated sic"
  "has_flag (cm_flags (fill_reply_cm E sic c r g)) FLAG_XLATE_DEST \<longleftrightarrow> src_translated sic"
  by (simp_all add: fill_original_cm_def fill_reply_cm_def Let_def has_flag_or has_flag_l2
      remark_flags_def seq_check_flag_def) (simp_all add: has_flag_def flag_defs)

lemma new_flow_ok:
  assumes t: "t = prepare_rule E sic c m r j s" and ne: "m \<noteq> r"
  shows "flow_ok t c" and "pair_ok t c" and "conn_matches t c = {m, r}"
    and "original_dev (conns t c) = sic_src_dev sic" and "reply_dev (conns t c) = sic_dest_dev sic"
    and "conn_key t c = (sic_protocol sic, ip (sic_src_ip sic), sic_src_port sic,
           ip (sic_dest_ip sic), sic_dest_port sic)"
proof -
  note f = prepare_rule_fields [OF ne, of E sic c j s, folded t]
  let ?M = "sfe_ipv4_connection_match_compute_translations (fill_original_cm E sic c r (cms s m))"
  let ?R = "sfe_ipv4_connection_match_compute_translations (fill_reply_cm E sic c m (cms s r))"
  have C: "conns t c = fill_connection sic m r j (conns s c)" and M: "cms t m = ?M" and R: "cms t r = ?R"
    using ne by (simp_all add: f)
  have src: "eff_src ?M = (ip (sic_src_ip_xlate sic), sic_src_port_xlate sic)"
    and dst: "eff_dest ?M = (ip (sic_dest_ip_xlate sic), sic_dest_port_xlate sic)"
    and rsrc: "eff_src ?R = (ip (sic_dest_ip sic), sic_dest_port sic)"
    and rdst: "eff_dest ?R = (ip (sic_src_ip sic), sic_src_port sic)"
    by (auto simp: eff_src_def eff_dest_def frame_simps fill_flags fill_original_fields fill_reply_fields
        src_translated_def dest_translated_def)
  have adj: "adjusted ?M" "adjusted ?R"
    by (simp_all add: adjusted_def compute_translations_adjustments frame_simps)
  show "flow_ok t c"
    using src dst rsrc rdst adj
    by (simp add: flow_ok_def Let_def conn_nat_def C fill_connection_def M R mirror_def frame_simps
        fill_original_fields fill_reply_fields)
  show "pair_ok t c"
    using ne by (simp add: pair_ok_def Let_def C fill_connection_def M R frame_simps
        fill_original_fields fill_reply_fields)
  show "conn_matches t c = {m, r}" "original_dev (conns t c) = sic_src_dev sic"
    "reply_dev (conns t c) = sic_dest_dev sic"
    "conn_key t c = (sic_protocol sic, ip (sic_src_ip sic), sic_src_port sic,
           ip (sic_dest_ip sic), sic_dest_port sic)"
    by (simp_all add: conn_matches_def C fill_connection_def conn_key_def Let_def)
qed

text \<open>The old objects do not notice the new ones.\<close>

lemma prepare_engine:
  assumes I: "engine_inv E base s A D"
    and fresh: "c \<notin> conn_live s" "m \<notin> cm_live s" "r \<notin> cm_live s" "m \<noteq> r"
    and s0: "s0 = s\<lparr>conn_live := insert c (conn_live s), cm_live := insert r (insert m (cm_live s))\<rparr>"
    and t: "t = prepare_rule E sic c m r j s0"
  shows "engine_inv E base t A (c # D)"
proof -
  have T: "table_inv E s A D" and refs: "refs_inv base s A D"
    and flow: "\<forall>d\<in>set (connl A @ D). flow_ok s d" and inj: "inj_on (conn_key s) (set (connl A))"
    using I by (simp_all add: engine_inv_def)
  note f = prepare_rule_fields [OF fresh(4), of E sic c j s0, folded t]
  note n = new_flow_ok [OF t fresh(4)]
  have old_c: "d \<noteq> c" if "d \<in> set (connl A @ D)" for d
    using that T fresh(1) by (auto simp: table_inv_def)
  have old_m: "p \<noteq> m \<and> p \<noteq> r" if "p \<in> table_matches s (connl A @ D)" for p
    using that T fresh(2,3) by (auto simp: table_inv_def)
  have oc: "conns t d = conns s d" if "d \<in> set (connl A @ D)" for d
    using old_c [OF that] by (simp add: f s0)
  have om: "cms t p = cms s p" "match_active t p = match_active s p" "active_next t p = active_next s p"
    "active_prev t p = active_prev s p" if "p \<in> table_matches s (connl A @ D)" for p
    using old_m [OF that] by (simp_all add: f s0)
  have sub: "conn_matches s d \<subseteq> table_matches s (connl A @ D)" if "d \<in> set (connl A @ D)" for d
    using that by (auto simp: table_matches_def)
  have cm: "conn_matches t d = conn_matches s d" if "d \<in> set (connl A @ D)" for d
    using oc [OF that] by (simp add: conn_matches_def)
  have tm: "table_matches t cs = table_matches s cs" if "set cs \<subseteq> set (connl A @ D)" for cs
    using that cm by (auto simp: table_matches_def)
  have mr: "original_match (conns s d) \<in> table_matches s (connl A @ D)"
    "reply_match (conns s d) \<in> table_matches s (connl A @ D)" if "d \<in> set (connl A @ D)" for d
    using sub [OF that] by (auto simp: conn_matches_def)
  have po: "pair_ok t d" if "d \<in> set (connl A @ D)" for d
    using that T oc [OF that] om(1) [OF mr(1) [OF that]] om(1) [OF mr(2) [OF that]]
    by (auto simp: table_inv_def pair_ok_def Let_def)
  have fl: "flow_ok t d" if "d \<in> set (connl A @ D)" for d
    using that flow oc [OF that] om(1) [OF mr(1) [OF that]] om(1) [OF mr(2) [OF that]]
    by (simp add: flow_ok_def Let_def)
  have ck: "conn_key t d = conn_key s d" if "d \<in> set (connl A @ D)" for d
    using oc [OF that] by (simp add: conn_key_def)
  have L: "lists_rep s A" using T by (simp add: table_inv_def)
  have act: "p \<in> table_matches s (connl A @ D)" if "p \<in> set (actives A)" for p
    using that T by (auto simp: table_inv_def)
  have "act.trepr t (actives A)"
    using L om(3,4) [OF act] dll_cong [of "actives A" "active_next t" "active_next s" "active_prev t" "active_prev s"]
    by (simp add: lists_rep_def act.trepr_def t s0)
  then have L': "lists_rep t A"
    using L by (simp add: lists_rep_def mch.repr_def cch.repr_def alls.trepr_def t s0)
  have tmA: "table_matches t (connl A) = table_matches s (connl A)"
    and tmD: "table_matches t D = table_matches s D" by (auto intro!: tm)
  have inA: "p \<in> table_matches s (connl A @ D)" if "p \<in> table_matches s (connl A)" for p
    using that by simp
  have "table_inv E t A (c # D)"
    unfolding table_inv_def
  proof (intro conjI)
    show "lists_rep t A" by (rule L')
    show "distinct (connl A @ c # D)" using T old_c by (auto simp: table_inv_def)
    show "\<forall>d\<in>set (connl A @ c # D). pair_ok t d" using po n(2) by auto
    show "conn_live t = set (connl A @ c # D)" using T by (auto simp: table_inv_def t s0)
    show "cm_live t = table_matches t (connl A @ c # D)"
      using T n(3) tmA tmD by (auto simp: table_inv_def t s0)
    show "\<forall>i. set (mchains A i) = {p \<in> table_matches t (connl A). cm_hash E (cms t p) = i}"
      using T om(1) [OF inA] unfolding tmA by (auto simp: table_inv_def)
    show "\<forall>i. set (cchains A i) = {d \<in> set (connl A). c_hash E (conns t d) = i}"
      using T oc by (auto simp: table_inv_def)
    show "set (actives A) = {p \<in> table_matches t (connl A). match_active t p}"
      using T om(2) [OF inA] unfolding tmA by (auto simp: table_inv_def)
    show "\<forall>p\<in>table_matches t (connl A). \<not> match_active t p \<longrightarrow> active_next t p = None"
      using T om(2,3) [OF inA] unfolding tmA by (auto simp: table_inv_def)
    show "num_connections t = of_nat (length (connl A))" using T by (simp add: table_inv_def t s0)
  qed
  moreover have "refs_inv base t A (c # D)"
  proof -
    have "dev_uses t (connl A) d = dev_uses s (connl A) d" "dev_uses t D d = dev_uses s D d" for d
      using oc by (auto intro!: dev_uses_agree)
    then show ?thesis
      using refs by (simp add: refs_inv_def n f(6) s0)
  qed
  moreover have "inj_on (conn_key t) (set (connl A)) = inj_on (conn_key s) (set (connl A))"
    by (rule inj_on_cong) (simp add: ck)
  with inj have "inj_on (conn_key t) (set (connl A))" by simp
  ultimately show ?thesis using fl n(1) by (auto simp: engine_inv_def)
qed

lemma insert_connection_rest [simp]:
  "dev_refcnt (sfe_ipv4_insert_sfe_ipv4_connection E c s) = dev_refcnt s"
  "sync_calls (sfe_ipv4_insert_sfe_ipv4_connection E c s) = sync_calls s"
  "sync_rule_callback (sfe_ipv4_insert_sfe_ipv4_connection E c s) = sync_rule_callback s"
  by (simp_all add: insert_conn_conv' link_conn_def mch.push_def cch.push_def alls.enqueue_def
      setter_defs Let_def split: option.split)

lemma insert_engine:
  assumes I: "engine_inv E base s A (c # D)"
    and idle: "\<And>p. p \<in> conn_matches s c \<Longrightarrow> \<not> match_active s p \<and> active_next s p = None"
    and new: "conn_key s c \<notin> conn_key s ` set (connl A)"
  shows "engine_inv E base (sfe_ipv4_insert_sfe_ipv4_connection E c s) (abs_insert E s c A) D"
proof -
  let ?t = "sfe_ipv4_insert_sfe_ipv4_connection E c s"
  have cl: "connl (abs_insert E s c A) = connl A @ [c]" by (simp add: abs_insert_def Let_def)
  have "table_inv E ?t (abs_insert E s c A) D"
    using I idle by (intro insert_connection_inv) (simp_all add: engine_inv_def)
  moreover have "refs_inv base ?t (abs_insert E s c A) D"
    using I dev_uses_cong [of ?t s] by (simp add: engine_inv_def refs_inv_def cl)
  moreover have "\<forall>d\<in>set (connl (abs_insert E s c A) @ D). flow_ok ?t d"
    using I flow_ok_cong [of ?t s] by (auto simp: engine_inv_def cl)
  moreover have "inj_on (conn_key ?t) (set (connl (abs_insert E s c A)))"
    using I new conn_key_cong [of ?t s] by (auto simp: engine_inv_def cl)
  ultimately show ?thesis by (simp add: engine_inv_def)
qed

lemma build_engine:
  assumes I: "engine_inv E base s A D"
    and fresh: "c \<notin> conn_live s" "m \<notin> cm_live s" "r \<notin> cm_live s" "m \<noteq> r"
    and s0: "s0 = s\<lparr>conn_live := insert c (conn_live s), cm_live := insert r (insert m (cm_live s))\<rparr>"
    and t: "t = prepare_rule E sic c m r j s0"
    and new: "(sic_protocol sic, ip (sic_src_ip sic), sic_src_port sic,
           ip (sic_dest_ip sic), sic_dest_port sic) \<notin> conn_key s ` set (connl A)"
  shows "engine_inv E base (build_rule E sic c m r j s0) (abs_insert E t c A) D"
proof -
  note n = new_flow_ok [OF t fresh(4)]
  note f = prepare_rule_fields [OF fresh(4), of E sic c j s0, folded t]
  have J: "engine_inv E base t A (c # D)" by (rule prepare_engine [OF I fresh s0 t])
  have "d \<noteq> c" if "d \<in> set (connl A)" for d
    using that I fresh(1) by (auto simp: engine_inv_def table_inv_def)
  then have "conn_key t d = conn_key s d" if "d \<in> set (connl A)" for d
    using that by (simp add: conn_key_def f s0)
  then have "conn_key t ` set (connl A) = conn_key s ` set (connl A)" by (simp cong: image_cong)
  with new n(6) have "conn_key t c \<notin> conn_key t ` set (connl A)" by simp
  moreover have "\<not> match_active t p \<and> active_next t p = None" if "p \<in> conn_matches t c" for p
    using that by (auto simp: n(3) f)
  ultimately show ?thesis
    unfolding build_rule_def t [symmetric] by (intro insert_engine [OF J]) auto
qed

end
