(* ===== verification/Sfe_Rule_Ops.thy ===== *)
theory Sfe_Rule_Ops
  imports Sfe_Rule_Inv
begin

text \<open>
  The operations of the connection manager on rules: each returns on every state the engine can be
  in, keeps \<open>engine_inv\<close>, and changes the set of rules the way its name says.
\<close>

section \<open>Look-up from the raw arguments\<close>

lemma find_conn_raw:
  assumes I: "table_inv E s A D"
  obtains r where "sfe_ipv4_find_sfe_ipv4_connection E pr si sp di dp s = Some r"
    and "\<And>c. r = Some c \<Longrightarrow> c \<in> set (connl A) \<and> conn_key s c = (pr, si, sp, di, dp)"
    and "r = None \<Longrightarrow> (pr, si, sp, di, dp) \<notin> conn_key s ` set (connl A)"
proof -
  obtain r where f: "find_conn E (pr, si, sp, di, dp) s = Some (r, s)"
    and hit: "\<And>c. r = Some c \<Longrightarrow> c \<in> set (connl A) \<and> conn_key s c = (pr, si, sp, di, dp)"
    and miss: "\<And>c. r = None \<Longrightarrow> c \<in> set (connl A) \<Longrightarrow> conn_key s c \<noteq> (pr, si, sp, di, dp)"
    using find_conn_cases [OF I, of "(pr, si, sp, di, dp)"] unfolding table_inv_tabled [OF I] by blast
  show thesis
  proof (rule that)
    show "sfe_ipv4_find_sfe_ipv4_connection E pr si sp di dp s = Some r"
      using f by (simp add: find_conn_def)
    show "r = None \<Longrightarrow> (pr, si, sp, di, dp) \<notin> conn_key s ` set (connl A)"
      by (intro notI) (erule imageE, drule (1) miss, simp)
  qed (rule hit)
qed

lemma engine_table: "engine_inv E base s A D \<Longrightarrow> table_inv E s A D"
  by (simp add: engine_inv_def)

section \<open>Update and mark\<close>

lemma same_table_upd_tcp: "same_table s (upd_cm p (\<lambda>m. m\<lparr>cm_tcp := raise_window a b e (cm_tcp m)\<rparr>) s)"
  by (rule same_table_upd_cm) (simp add: cm_static_def raise_window_def Let_def)

lemma and_not_or_idem: "(a OR b) AND NOT b = a AND NOT (b :: u32)"
  by (rule bit_word_eqI) (auto simp: bit_simps)

lemma same_table_clear_seq: "same_table s (upd_cm p (\<lambda>m. m\<lparr>cm_flags := cm_flags m AND NOT FLAG_NO_SEQ_CHECK\<rparr>) s)"
  by (rule same_table_upd_cm) (simp add: cm_static_def)

lemma same_table_set_seq: "same_table s (upd_cm p (\<lambda>m. m\<lparr>cm_flags := cm_flags m OR FLAG_NO_SEQ_CHECK\<rparr>) s)"
  by (rule same_table_upd_cm) (simp add: cm_static_def and_not_or_idem)

lemma update_protocol_state_frame:
  "same_table s (sfe_ipv4_update_protocol_state c sic s)"
  "dev_refcnt (sfe_ipv4_update_protocol_state c sic s) = dev_refcnt s"
proof -
  let ?t = "sfe_ipv4_update_tcp_state c sic s"
  note peel = same_table_trans [OF _ same_table_upd_tcp] same_table_trans [OF _ same_table_clear_seq]
    same_table_trans [OF _ same_table_set_seq]
  have "same_table s ?t"
    by (cases "has_flag (sic_flags sic) SFE_CREATE_FLAG_NO_SEQ_CHECK")
      (simp only: sfe_ipv4_update_tcp_state_def Let_def if_True if_False, (rule peel)+, rule same_table_refl)+
  then show "same_table s (sfe_ipv4_update_protocol_state c sic s)"
    by (simp add: sfe_ipv4_update_protocol_state_def)
  show "dev_refcnt (sfe_ipv4_update_protocol_state c sic s) = dev_refcnt s"
    by (simp add: sfe_ipv4_update_protocol_state_def sfe_ipv4_update_tcp_state_def Let_def)
qed

lemma update_rule:
  assumes I: "engine_inv E base s A D"
  obtains s' where "sfe_ipv4_update_rule E sic s = Some s'" and "engine_inv E base s' A D"
    and "same_table s s'"
proof -
  obtain r where r: "sfe_ipv4_find_sfe_ipv4_connection E (sic_protocol sic) (ip (sic_src_ip sic))
      (sic_src_port sic) (ip (sic_dest_ip sic)) (sic_dest_port sic) s = Some r"
    by (rule find_conn_raw [OF engine_table [OF I]])
  have "engine_inv E base (sfe_ipv4_update_protocol_state c sic s) A D" for c
    using I update_protocol_state_frame by (rule same_table_engine)
  then show thesis
    using that I r update_protocol_state_frame(1) [of s]
    by (cases r) (auto simp: sfe_ipv4_update_rule_def)
qed

lemma mark_rule:
  assumes I: "engine_inv E base s A D"
  obtains s' where "sfe_ipv4_mark_rule E mark s = Some s'" and "engine_inv E base s' A D"
proof -
  obtain r where r: "sfe_ipv4_find_sfe_ipv4_connection E (scm_protocol mark) (ip (scm_src_ip mark))
      (scm_src_port mark) (ip (scm_dest_ip mark)) (scm_dest_port mark) s = Some r"
    by (rule find_conn_raw [OF engine_table [OF I]])
  have "same_table s (upd_conn c (\<lambda>d. d\<lparr>c_mark := scm_mark mark\<rparr>) s)" for c
    by (rule same_table_upd_conn) (simp add: conn_static_def)
  then have "engine_inv E base (upd_conn c (\<lambda>d. d\<lparr>c_mark := scm_mark mark\<rparr>) s) A D" for c
    using I by (intro same_table_engine [OF I]) simp_all
  then show thesis
    using that I r by (cases r) (auto simp: sfe_ipv4_mark_rule_def)
qed

section \<open>Creation\<close>

text \<open>\<open>kmalloc\<close> returns objects that are not in use.\<close>

definition alloc_fresh :: "allocation \<Rightarrow> sfe_ipv4 \<Rightarrow> bool" where
  "alloc_fresh al s \<longleftrightarrow>
     (case al_conn al of None \<Rightarrow> True | Some c \<Rightarrow> c \<notin> conn_live s) \<and>
     (case al_original al of None \<Rightarrow> True | Some m \<Rightarrow> m \<notin> cm_live s) \<and>
     (case al_reply al of None \<Rightarrow> True | Some r \<Rightarrow> r \<notin> cm_live s \<and> al_original al \<noteq> Some r)"

definition sic_key :: "sfe_connection_create \<Rightarrow> conn_key" where
  "sic_key sic = (sic_protocol sic, ip (sic_src_ip sic), sic_src_port sic,
     ip (sic_dest_ip sic), sic_dest_port sic)"

definition devs_registered :: "sfe_env \<Rightarrow> sfe_connection_create \<Rightarrow> bool" where
  "devs_registered E sic \<longleftrightarrow> nd_registered (netdev E (sic_dest_dev sic)) \<and> nd_registered (netdev E (sic_src_dev sic))"

text \<open>The outcome of a creation, from its arguments and the rules there are.\<close>

definition create_outcome :: "sfe_env \<Rightarrow> sfe_connection_create \<Rightarrow> allocation \<Rightarrow> conn_key set \<Rightarrow> create_result" where
  "create_outcome E sic al keys =
     (if \<not> devs_registered E sic then EINVAL
      else if sic_key sic \<in> keys then EADDRINUSE
      else if al_conn al = None \<or> al_original al = None \<or> al_reply al = None then ENOMEM
      else CREATED)"

lemma engine_counter:
  assumes "engine_inv E base s A D"
  shows "engine_inv E base (s\<lparr>connection_create_requests := v\<rparr>) A D"
    and "engine_inv E base (s\<lparr>connection_create_collisions := v\<rparr>) A D"
    and "engine_inv E base (s\<lparr>connection_destroy_requests := v\<rparr>) A D"
    and "engine_inv E base (s\<lparr>connection_destroy_misses := v\<rparr>) A D"
    and "engine_inv E base (s\<lparr>exception_events := w, packets_not_forwarded := v\<rparr>) A D"
    and "engine_inv E base (s\<lparr>packets_not_forwarded := v\<rparr>) A D"
    and "engine_inv E base (s\<lparr>packets_forwarded := v\<rparr>) A D"
  using assms by (auto intro!: same_table_engine [OF assms] simp: same_table_def)

lemma build_rule_key:
  assumes "m \<noteq> r"
  shows "conn_key (build_rule E sic c m r j s) c = sic_key sic"
  using new_flow_ok(6) [OF refl assms, of E sic c j s]
  by (simp add: build_rule_def sic_key_def conn_key_def)

lemma build_rule_key_old:
  assumes "m \<noteq> r" and "d \<noteq> c"
  shows "conn_key (build_rule E sic c m r j s) d = conn_key s d"
  using assms prepare_rule_fields(2) [OF assms(1), of E sic c j s]
  by (simp add: build_rule_def conn_key_def)

lemma create_rule:
  assumes I: "engine_inv E base s A D" and fresh: "alloc_fresh al s"
  obtains res s' A' where "sfe_ipv4_create_rule E sic al j s = Some (res, s')"
    and "engine_inv E base s' A' D"
    and "res = create_outcome E sic al (conn_key s ` set (connl A))"
    and "res \<noteq> CREATED \<Longrightarrow> A' = A \<and> conn_key s' = conn_key s"
    and "res = CREATED \<Longrightarrow> \<exists>c. al_conn al = Some c \<and> connl A' = connl A @ [c] \<and>
           conn_key s' c = sic_key sic \<and> (\<forall>d\<in>set (connl A). conn_key s' d = conn_key s d)"
proof (cases "devs_registered E sic")
  case False
  then have "sfe_ipv4_create_rule E sic al j s = Some (EINVAL, s)"
    by (auto simp: sfe_ipv4_create_rule_def devs_registered_def)
  with I False show thesis
    by (intro that [of EINVAL s A]) (auto simp: create_outcome_def)
next
  case True
  let ?s1 = "s\<lparr>connection_create_requests := connection_create_requests s + 1\<rparr>"
  have I1: "engine_inv E base ?s1 A D" using I by (rule engine_counter)
  have k1: "conn_key ?s1 = conn_key s" by (simp add: fun_eq_iff conn_key_def)
  have free: "X - {c} = X" if "c \<notin> X" for X and c :: nat using that by auto
  obtain f where f: "sfe_ipv4_find_sfe_ipv4_connection E (sic_protocol sic) (ip (sic_src_ip sic))
        (sic_src_port sic) (ip (sic_dest_ip sic)) (sic_dest_port sic) ?s1 = Some f"
    and hit: "\<And>c. f = Some c \<Longrightarrow> c \<in> set (connl A) \<and> conn_key s c = sic_key sic"
    and miss: "f = None \<Longrightarrow> sic_key sic \<notin> conn_key s ` set (connl A)"
    using find_conn_raw [OF engine_table [OF I1]] unfolding k1 sic_key_def by blast
  show thesis
  proof (cases f)
    case (Some c)
    let ?s2 = "?s1\<lparr>connection_create_collisions := connection_create_collisions ?s1 + 1\<rparr>"
    let ?t = "sfe_ipv4_update_protocol_state c sic ?s2"
    have "sfe_ipv4_create_rule E sic al j s = Some (EADDRINUSE, ?t)"
      using True f Some by (simp add: sfe_ipv4_create_rule_def devs_registered_def)
    moreover have "engine_inv E base ?t A D"
      using engine_counter(2) [OF I1] update_protocol_state_frame by (rule same_table_engine)
    moreover have "conn_key ?t = conn_key s"
      using same_table_conn_key [OF update_protocol_state_frame(1) [of ?s2 c sic]] k1
      by (simp add: fun_eq_iff conn_key_def)
    moreover have "sic_key sic \<in> conn_key s ` set (connl A)" using hit [OF Some] by force
    ultimately show thesis
      using True by (intro that [of EADDRINUSE ?t A]) (auto simp: create_outcome_def)
  next
    case None
    note new = miss [OF None]
    show thesis
    proof (cases "al_conn al = None \<or> al_original al = None \<or> al_reply al = None")
      case nomem: True
      have "sfe_ipv4_create_rule E sic al j s = Some (ENOMEM, ?s1)"
        using True f None nomem fresh
        by (auto simp: sfe_ipv4_create_rule_def devs_registered_def alloc_fresh_def kfree_conn_def
            kfree_cm_def free split: option.splits)
      with I1 k1 True new nomem show thesis
        by (intro that [of ENOMEM ?s1 A]) (auto simp: create_outcome_def)
    next
      case False
      then obtain c m r where al: "al_conn al = Some c" "al_original al = Some m" "al_reply al = Some r"
        by auto
      let ?s4 = "?s1\<lparr>conn_live := insert c (conn_live ?s1), cm_live := insert r (insert m (cm_live ?s1))\<rparr>"
      let ?t = "build_rule E sic c m r j ?s4"
      have fr: "c \<notin> conn_live ?s1" "m \<notin> cm_live ?s1" "r \<notin> cm_live ?s1" "m \<noteq> r"
        using fresh al by (auto simp: alloc_fresh_def)
      have "sfe_ipv4_create_rule E sic al j s = Some (CREATED, ?t)"
        using True f None al by (simp add: sfe_ipv4_create_rule_def devs_registered_def)
      moreover have "engine_inv E base ?t (abs_insert E (prepare_rule E sic c m r j ?s4) c A) D"
        using new k1 by (intro build_engine [OF I1 fr refl refl]) (simp add: sic_key_def)
      moreover have "connl (abs_insert E (prepare_rule E sic c m r j ?s4) c A) = connl A @ [c]"
        by (simp add: abs_insert_def Let_def)
      moreover have "conn_key ?t d = conn_key s d" if "d \<in> set (connl A)" for d
      proof -
        have "d \<noteq> c" using that fr(1) I1 by (auto simp: engine_inv_def table_inv_def)
        then show ?thesis using build_rule_key_old [OF fr(4)] by (simp add: conn_key_def)
      qed
      ultimately show thesis
        using True new False al build_rule_key [OF fr(4)]
        by (intro that [of CREATED ?t]) (auto simp: create_outcome_def)
    qed
  qed
qed

section \<open>Destruction of one rule\<close>

lemma remove_flush_engine:
  fixes reason sis now
  assumes I: "engine_inv E base s A D" and c: "c \<in> set (connl A)"
  defines "t \<equiv> sfe_ipv4_flush_sfe_ipv4_connection c reason sis now (sfe_ipv4_remove_sfe_ipv4_connection E c s)"
  shows "engine_inv E base t (abs_remove E s c A) D" and "conn_key t = conn_key s"
    and "conn_static (conns t d) = conn_static (conns s d)"
proof -
  let ?r = "sfe_ipv4_remove_sfe_ipv4_connection E c s"
  show "engine_inv E base t (abs_remove E s c A) D"
    unfolding t_def by (rule flush_engine [OF remove_engine [OF I c]])
  have "conn_key ?r = conn_key s" by (rule conn_key_cong) simp
  then show "conn_key t = conn_key s" by (simp add: t_def flush_flow(2))
  show "conn_static (conns t d) = conn_static (conns s d)"
    unfolding t_def flush_static(2) by simp
qed

definition sid_key :: "sfe_connection_destroy \<Rightarrow> conn_key" where
  "sid_key sid = (sid_protocol sid, ip (sid_src_ip sid), sid_src_port sid,
     ip (sid_dest_ip sid), sid_dest_port sid)"

lemma destroy_rule:
  assumes I: "engine_inv E base s A D"
  obtains s' A' where "sfe_ipv4_destroy_rule E sid sis now s = Some s'"
    and "engine_inv E base s' A' D"
    and "connl A' = filter (\<lambda>c. conn_key s c \<noteq> sid_key sid) (connl A)" and "conn_key s' = conn_key s"
    and "\<And>d. conn_static (conns s' d) = conn_static (conns s d)"
proof -
  let ?s1 = "s\<lparr>connection_destroy_requests := connection_destroy_requests s + 1\<rparr>"
  have I1: "engine_inv E base ?s1 A D" using I by (rule engine_counter)
  have k1: "conn_key ?s1 = conn_key s" by (simp add: fun_eq_iff conn_key_def)
  have inj: "inj_on (conn_key s) (set (connl A))" and dist: "distinct (connl A)"
    using I by (auto simp: engine_inv_def table_inv_def)
  obtain f where f: "sfe_ipv4_find_sfe_ipv4_connection E (sid_protocol sid) (ip (sid_src_ip sid))
        (sid_src_port sid) (ip (sid_dest_ip sid)) (sid_dest_port sid) ?s1 = Some f"
    and hit: "\<And>c. f = Some c \<Longrightarrow> c \<in> set (connl A) \<and> conn_key s c = sid_key sid"
    and miss: "f = None \<Longrightarrow> sid_key sid \<notin> conn_key s ` set (connl A)"
    using find_conn_raw [OF engine_table [OF I1]] unfolding k1 sid_key_def by blast
  show thesis
  proof (cases f)
    case None
    let ?t = "?s1\<lparr>connection_destroy_misses := connection_destroy_misses ?s1 + 1\<rparr>"
    have "sfe_ipv4_destroy_rule E sid sis now s = Some ?t"
      using f None by (simp add: sfe_ipv4_destroy_rule_def)
    moreover have "engine_inv E base ?t A D" using I1 by (rule engine_counter)
    moreover have "filter (\<lambda>c. conn_key s c \<noteq> sid_key sid) (connl A) = connl A"
      using miss [OF None] by (intro filter_True ballI notI) (metis image_eqI)
    moreover have "conn_key ?t = conn_key s" by (simp add: fun_eq_iff conn_key_def)
    ultimately show thesis by (intro that [of ?t A]) auto
  next
    case (Some c)
    note h = hit [OF Some]
    have c: "c \<in> set (connl A)" using h by simp
    have "sfe_ipv4_destroy_rule E sid sis now s = Some (sfe_ipv4_flush_sfe_ipv4_connection c
        SFE_SYNC_REASON_DESTROY sis now (sfe_ipv4_remove_sfe_ipv4_connection E c ?s1))"
      using f Some by (simp add: sfe_ipv4_destroy_rule_def)
    moreover have "remove1 c (connl A) = filter (\<lambda>d. d \<noteq> c) (connl A)"
      using dist by (simp add: distinct_remove1_removeAll removeAll_filter_not_eq) (metis)
    moreover have "\<dots> = filter (\<lambda>d. conn_key s d \<noteq> sid_key sid) (connl A)"
      using h inj by (intro filter_cong refl) (metis inj_onD)
    ultimately show thesis
      using remove_flush_engine(2,3) [OF I1 c, of SFE_SYNC_REASON_DESTROY sis now] k1
      by (intro that [OF _ remove_flush_engine(1) [OF I1 c]]) simp_all
  qed
qed

section \<open>Destruction of all rules of a device\<close>

lemma find_conn_of_dev_dseg:
  "dseg (all_next s) pv h b xs None \<Longrightarrow>
     find_conn_of_dev dev s h = Some (List.find (\<lambda>c. uses_dev dev (conns s c)) xs)"
  by (induction xs arbitrary: h b) (simp_all add: find_conn_of_dev.simps)

lemma find_conn_of_dev_table:
  assumes "table_inv E s A D"
  shows "find_conn_of_dev dev s (all_connections_head s) =
     Some (List.find (\<lambda>c. uses_dev dev (conns s c)) (connl A))"
proof -
  have "alls.trepr s (connl A)" using assms by (simp add: table_inv_def lists_rep_def)
  then have "dseg (all_next s) (all_prev s) (all_connections_head s) None (connl A) None"
    by (simp add: alls.trepr_def dll_def)
  then show ?thesis by (rule find_conn_of_dev_dseg)
qed

lemma uses_dev_static: "conn_static c' = conn_static c \<Longrightarrow> uses_dev dev c' = uses_dev dev c"
  using conn_staticD [of c' c] by (simp add: uses_dev_def cong: option.case_cong)

lemma length_remove1_less: "x \<in> set xs \<Longrightarrow> length (remove1 x xs) < length xs"
  by (induction xs) auto

lemma filter_remove1_False: "\<not> P x \<Longrightarrow> filter P (remove1 x xs) = filter P xs"
  by (induction xs) auto

theorem destroy_all_rules:
  assumes "engine_inv E base s A D"
  shows "\<exists>s' A'. sfe_ipv4_destroy_all_rules_for_dev E dev sis now n s = Some s' \<and>
     engine_inv E base s' A' D \<and>
     connl A' = filter (\<lambda>c. \<not> uses_dev dev (conns s c)) (connl A) \<and> conn_key s' = conn_key s \<and>
     (\<forall>d. conn_static (conns s' d) = conn_static (conns s d))"
  using assms
proof (induction "length (connl A)" arbitrary: s A n rule: less_induct)
  case less
  let ?P = "\<lambda>c. uses_dev dev (conns s c)"
  note I = less.prems
  note fd = find_conn_of_dev_table [OF engine_table [OF I], of dev]
  show ?case
  proof (cases "List.find ?P (connl A)")
    case None
    then have "sfe_ipv4_destroy_all_rules_for_dev E dev sis now n s = Some s"
      by (subst sfe_ipv4_destroy_all_rules_for_dev.simps) (simp add: fd)
    moreover have "filter (\<lambda>c. \<not> ?P c) (connl A) = connl A"
      using None by (simp add: filter_id_conv find_None_iff)
    ultimately show ?thesis using I by auto
  next
    case (Some c)
    then have c: "c \<in> set (connl A)" and P: "?P c" using find_in_set [OF Some] by auto
    let ?t = "sfe_ipv4_flush_sfe_ipv4_connection c SFE_SYNC_REASON_DESTROY sis (now n)
        (sfe_ipv4_remove_sfe_ipv4_connection E c s)"
    have step: "sfe_ipv4_destroy_all_rules_for_dev E dev sis now n s =
        sfe_ipv4_destroy_all_rules_for_dev E dev sis now (Suc n) ?t"
      by (subst sfe_ipv4_destroy_all_rules_for_dev.simps) (simp add: fd Some)
    note r = remove_flush_engine [OF I c, of SFE_SYNC_REASON_DESTROY sis "now n"]
    have "length (connl (abs_remove E s c A)) < length (connl A)"
      using length_remove1_less [OF c] by simp
    from less.hyps [OF this r(1), of "Suc n"] obtain s' A'
      where d: "sfe_ipv4_destroy_all_rules_for_dev E dev sis now (Suc n) ?t = Some s'"
        and e: "engine_inv E base s' A' D" and k: "conn_key s' = conn_key ?t"
        and A': "connl A' = filter (\<lambda>d. \<not> uses_dev dev (conns ?t d)) (connl (abs_remove E s c A))"
        and st: "\<forall>d. conn_static (conns s' d) = conn_static (conns ?t d)"
      by blast
    have "(\<lambda>d. \<not> uses_dev dev (conns ?t d)) = (\<lambda>d. \<not> ?P d)"
      using uses_dev_static [OF r(3)] by (simp only:)
    then have "connl A' = filter (\<lambda>d. \<not> ?P d) (connl A)"
      using A' P by (simp only: abs_remove_connl filter_remove1_False not_not)
    with step d e k r(2,3) st show ?thesis by (intro exI [of _ s'] exI [of _ A'] conjI) simp_all
  qed
qed

section \<open>Flows\<close>

text \<open>The flows the engine knows, as keys: the abstract state of the tables.\<close>

definition flow_keys :: "sfe_ipv4 \<Rightarrow> sfe_abs \<Rightarrow> conn_key set" where
  "flow_keys s A = conn_key s ` set (connl A)"

lemma flow_keys_remove:
  assumes I: "engine_inv E base s A D" and A': "connl A' = filter (\<lambda>c. conn_key s c \<noteq> k) (connl A)"
    and K: "conn_key s' = conn_key s"
  shows "flow_keys s' A' = flow_keys s A - {k}"
  by (auto simp: flow_keys_def A' K)

end
