(* ===== verification/Sfe_Init.thy ===== *)
theory Sfe_Init
  imports Sfe_Rule_Ops
begin

text \<open>
  Start and end of the module (sfe_ipv4.c, \<open>sfe_ipv4_init\<close> and \<open>sfe_ipv4_exit\<close>). The engine lives in
  static memory, which is zero before the module starts; the rest of kernel memory is arbitrary. The
  results of the kernel's registration functions are arguments, what is registered is a set.
\<close>

section \<open>The zeroed engine\<close>

definition engine_start :: "sfe_ipv4 \<Rightarrow> sfe_ipv4" where
  "engine_start mem = mem\<lparr>cm_live := {}, conn_live := {},
     active_head := None, active_tail := None, all_connections_head := None,
     all_connections_tail := None, num_connections := 0, sync_rule_callback := None,
     conn_hash := (\<lambda>_. None), conn_match_hash := (\<lambda>_. None),
     connection_create_requests := 0, connection_create_collisions := 0,
     connection_destroy_requests := 0, connection_destroy_misses := 0,
     connection_match_hash_hits := 0, connection_match_hash_reorders := 0,
     connection_flushes := 0, packets_forwarded := 0, packets_not_forwarded := 0,
     exception_events := (\<lambda>_. 0),
     connection_create_requests64 := 0, connection_create_collisions64 := 0,
     connection_destroy_requests64 := 0, connection_destroy_misses64 := 0,
     connection_match_hash_hits64 := 0, connection_match_hash_reorders64 := 0,
     connection_flushes64 := 0, packets_forwarded64 := 0, packets_not_forwarded64 := 0,
     exception_events64 := (\<lambda>_. 0), debug_read_seq := 0, sync_calls := []\<rparr>"

definition abs_start :: sfe_abs where
  "abs_start = \<lparr>mchains = (\<lambda>_. []), cchains = (\<lambda>_. []), actives = [], connl = []\<rparr>"

lemma engine_start_inv: "engine_inv E (dev_refcnt mem) (engine_start mem) abs_start []"
  by (simp add: engine_inv_def table_inv_def lists_rep_def mch.repr_def cch.repr_def act.trepr_def
      alls.trepr_def refs_inv_def engine_start_def abs_start_def)

section \<open>Registration\<close>

datatype resource = SysDir | DebugDevFile | CharDev | Timer

text \<open>
  \<open>sfe_ipv4_init\<close>: \<open>dir_ok\<close>, \<open>file_result\<close> and \<open>chrdev_result\<close> are what the kernel returns. The result
  is the return code, the major number of the debug device and what stays registered.
\<close>

definition sfe_ipv4_init :: "bool \<Rightarrow> int \<Rightarrow> int \<Rightarrow> int \<times> int \<times> resource set" where
  "sfe_ipv4_init dir_ok file_result chrdev_result =
     (let result = -1; held = {}
      in if \<not> dir_ok then (result, 0, held)
         else
           (let held = insert SysDir held; result = file_result
            in if result \<noteq> 0 then (result, 0, held - {SysDir})
               else
                 (let held = insert DebugDevFile held; result = chrdev_result
                  in if result < 0 then (result, 0, held - {DebugDevFile} - {SysDir})
                     else (0, result, insert Timer (insert CharDev held)))))"

definition sfe_ipv4_exit ::
  "sfe_env \<Rightarrow> sfe_connection_sync \<Rightarrow> (nat \<Rightarrow> u64) \<Rightarrow> resource set \<Rightarrow> sfe_ipv4 \<Rightarrow> (resource set \<times> sfe_ipv4) option" where
  "sfe_ipv4_exit E sis now held s = do {
     s \<leftarrow> sfe_ipv4_destroy_all_rules_for_dev E None sis now 0 s;
     Some (held - {Timer} - {CharDev} - {DebugDevFile} - {SysDir}, s)
   }"

lemma sfe_ipv4_init_held:
  "snd (snd (sfe_ipv4_init d f c)) =
     (if fst (sfe_ipv4_init d f c) = 0 then {SysDir, DebugDevFile, CharDev, Timer} else {})"
  by (auto simp: sfe_ipv4_init_def Let_def)

lemma resource_UNIV: "UNIV = {SysDir, DebugDevFile, CharDev, Timer}"
  using resource.exhaust by auto

section \<open>Nothing is left at the end\<close>

lemma exit_clean:
  assumes "engine_inv E base s A []"
  obtains s' where "sfe_ipv4_exit E sis now held s = Some ({}, s')" and "dev_refcnt s' = base"
    and "conn_live s' = {}" and "cm_live s' = {}" and "num_connections s' = 0"
proof -
  obtain s' A' where d: "sfe_ipv4_destroy_all_rules_for_dev E None sis now 0 s = Some s'"
    and I: "engine_inv E base s' A' []" and "connl A' = []"
    using destroy_all_rules [OF assms, of None sis now 0] by (auto simp: uses_dev_def)
  then have "dev_refcnt s' = base" "conn_live s' = {}" "cm_live s' = {}" "num_connections s' = 0"
    by (auto simp: engine_inv_def refs_inv_def table_inv_def fun_eq_iff)
  moreover have "held - {Timer} - {CharDev} - {DebugDevFile} - {SysDir} = {}"
    using resource_UNIV by blast
  ultimately show thesis using d by (intro that) (simp_all add: sfe_ipv4_exit_def)
qed

end
