(* ===== verification/Sfe_Skb.thy ===== *)
theory Sfe_Skb
  imports Sfe_Types
begin

text \<open>
  Packets. A \<open>struct sk_buff\<close> is the bytes from \<open>skb->data\<close> on, the number of bytes of the packet and
  how many of them are in the linear area; a read or write outside the linear area gives None, so
  that a handler that returns a value has stayed inside it. Multi-byte fields are read in the byte
  order of the machine, as the code reads them. The kernel functions that may move, copy or refuse
  a packet are the record \<open>kernel\<close>; what the code relies on is \<open>kernel_ok\<close>.
\<close>

section \<open>Buffers\<close>

record sk_buff =
  skb_len :: u32
  skb_headlen :: u32
  skb_bytes :: "nat \<Rightarrow> u8"
  skb_is_cloned :: bool
  skb_partial :: bool \<comment> \<open>\<open>ip_summed == CHECKSUM_PARTIAL\<close>\<close>
  skb_is_gso :: bool
  skb_dev :: netdev
  skb_priority :: u32
  skb_mark :: u32
  fast_forwarded :: bool

definition rd8 :: "sk_buff \<Rightarrow> nat \<Rightarrow> u8 option" where
  "rd8 skb i = (if i < unat (skb_headlen skb) then Some (skb_bytes skb i) else None)"

definition wr8 :: "sk_buff \<Rightarrow> nat \<Rightarrow> u8 \<Rightarrow> sk_buff option" where
  "wr8 skb i v = (if i < unat (skb_headlen skb)
     then Some (skb\<lparr>skb_bytes := (skb_bytes skb)(i := v)\<rparr>) else None)"

definition mk16 :: "u8 \<Rightarrow> u8 \<Rightarrow> u16" where
  "mk16 hi lo = push_bit 8 (ucast hi) OR ucast lo"

definition mk32 :: "u16 \<Rightarrow> u16 \<Rightarrow> u32" where
  "mk32 hi lo = push_bit 16 (ucast hi) OR ucast lo"

definition rd16 :: "sfe_env \<Rightarrow> sk_buff \<Rightarrow> nat \<Rightarrow> u16 option" where
  "rd16 E skb i = do {
     a \<leftarrow> rd8 skb i;
     b \<leftarrow> rd8 skb (i + 1);
     Some (if big_endian E then mk16 a b else mk16 b a)
   }"

definition rd32 :: "sfe_env \<Rightarrow> sk_buff \<Rightarrow> nat \<Rightarrow> u32 option" where
  "rd32 E skb i = do {
     a \<leftarrow> rd16 E skb i;
     b \<leftarrow> rd16 E skb (i + 2);
     Some (if big_endian E then mk32 a b else mk32 b a)
   }"

definition wr16 :: "sfe_env \<Rightarrow> sk_buff \<Rightarrow> nat \<Rightarrow> u16 \<Rightarrow> sk_buff option" where
  "wr16 E skb i v =
     (let hi = ucast (drop_bit 8 v); lo = ucast v
      in do {
        s1 \<leftarrow> wr8 skb i (if big_endian E then hi else lo);
        wr8 s1 (i + 1) (if big_endian E then lo else hi)
      })"

definition wr32 :: "sfe_env \<Rightarrow> sk_buff \<Rightarrow> nat \<Rightarrow> u32 \<Rightarrow> sk_buff option" where
  "wr32 E skb i v =
     (let hi = ucast (drop_bit 16 v); lo = ucast v
      in do {
        s1 \<leftarrow> wr16 E skb i (if big_endian E then hi else lo);
        wr16 E s1 (i + 2) (if big_endian E then lo else hi)
      })"

text \<open>\<open>__skb_push\<close> of an Ethernet header.\<close>

definition ETH_HLEN :: nat where "ETH_HLEN = 14"

definition push_eth :: "mac \<Rightarrow> mac \<Rightarrow> sk_buff \<Rightarrow> sk_buff" where
  "push_eth dest src skb = skb\<lparr>
     skb_len := skb_len skb + of_nat ETH_HLEN, skb_headlen := skb_headlen skb + of_nat ETH_HLEN,
     skb_bytes := (\<lambda>i. if i < 6 then dest i else if i < 12 then src (i - 6)
        else if i = 12 then 0x08 else if i = 13 then 0x00 else skb_bytes skb (i - ETH_HLEN))\<rparr>"

section \<open>Kernel services\<close>

definition ETH_P_IP :: u16 where "ETH_P_IP = 0x0800"
definition ETH_P_IPV6 :: u16 where "ETH_P_IPV6 = 0x86dd"

record kernel =
  pskb_may_pull :: "sk_buff \<Rightarrow> u32 \<Rightarrow> sk_buff option" \<comment> \<open>None: cannot be pulled\<close>
  skb_unshare :: "sk_buff \<Rightarrow> sk_buff option" \<comment> \<open>None: no memory, the packet is freed\<close>
  dev_hard_header :: "sk_buff \<Rightarrow> netdev \<Rightarrow> u16 \<Rightarrow> mac \<Rightarrow> mac \<Rightarrow> u32 \<Rightarrow> sk_buff"

text \<open>Pulling and copying keep the packet.\<close>

definition same_packet :: "sk_buff \<Rightarrow> sk_buff \<Rightarrow> bool" where
  "same_packet skb skb' \<longleftrightarrow> skb_len skb' = skb_len skb \<and>
     (\<forall>i < unat (skb_len skb). skb_bytes skb' i = skb_bytes skb i) \<and>
     skb_partial skb' = skb_partial skb \<and> skb_is_gso skb' = skb_is_gso skb \<and>
     skb_headlen skb \<le> skb_headlen skb' \<and> skb_headlen skb' \<le> skb_len skb'"

definition skb_ok :: "sk_buff \<Rightarrow> bool" where
  "skb_ok skb \<longleftrightarrow> skb_headlen skb \<le> skb_len skb"

definition kernel_ok :: "kernel \<Rightarrow> bool" where
  "kernel_ok K \<longleftrightarrow>
     (\<forall>skb n skb'. skb_ok skb \<longrightarrow> pskb_may_pull K skb n = Some skb' \<longrightarrow>
        same_packet skb skb' \<and> n \<le> skb_headlen skb') \<and>
     (\<forall>skb skb'. skb_ok skb \<longrightarrow> skb_unshare K skb = Some skb' \<longrightarrow> same_packet skb skb')"

section \<open>Reading what was written\<close>

lemma mk16_split: "mk16 (ucast (drop_bit 8 v)) (ucast v) = (v :: u16)"
  unfolding mk16_def by (rule bit_word_eqI) (auto simp: bit_simps)

lemma mk32_split: "mk32 (ucast (drop_bit 16 v)) (ucast v) = (v :: u32)"
  unfolding mk32_def by (rule bit_word_eqI) (auto simp: bit_simps)

lemma rd8_Some: "rd8 skb i = Some v \<longleftrightarrow> i < unat (skb_headlen skb) \<and> skb_bytes skb i = v"
  by (simp add: rd8_def)

lemma rd16_defined: "(\<exists>v. rd16 E skb i = Some v) \<longleftrightarrow> i + 1 < unat (skb_headlen skb)"
  by (auto simp: rd16_def rd8_def bind_eq_Some_conv)

lemma wr16_Some:
  "wr16 E skb i v = (if i + 1 < unat (skb_headlen skb)
     then Some (skb\<lparr>skb_bytes := (skb_bytes skb)
       (i := (if big_endian E then ucast (drop_bit 8 v) else ucast v),
        i + 1 := (if big_endian E then ucast v else ucast (drop_bit 8 v)))\<rparr>)
     else None)"
  by (auto simp: wr16_def wr8_def Let_def)

lemma rd16_wr16:
  assumes "wr16 E skb i v = Some skb'"
  shows "rd16 E skb' i = Some v"
  using assms by (auto simp: wr16_Some rd16_def rd8_def mk16_split split: if_splits)

lemma rd16_wr16_other:
  assumes "wr16 E skb i v = Some skb'" and "j + 1 < i \<or> i + 1 < j"
  shows "rd16 E skb' j = rd16 E skb j"
  using assms by (auto simp: wr16_Some rd16_def rd8_def split: if_splits)

section \<open>What a write leaves alone\<close>

text \<open>\<open>patched S skb skb'\<close>: only the bytes at the offsets in \<open>S\<close> may have changed.\<close>

definition patched :: "nat set \<Rightarrow> sk_buff \<Rightarrow> sk_buff \<Rightarrow> bool" where
  "patched S skb skb' \<longleftrightarrow> skb' = skb\<lparr>skb_bytes := skb_bytes skb'\<rparr> \<and>
     (\<forall>i. i \<notin> S \<longrightarrow> skb_bytes skb' i = skb_bytes skb i)"

lemma patched_refl [simp]: "patched S skb skb"
  by (simp add: patched_def)

lemma patched_trans:
  assumes "patched S skb skb1" and "patched T skb1 skb2"
  shows "patched (S \<union> T) skb skb2"
proof -
  have "skb2 = skb1\<lparr>skb_bytes := skb_bytes skb2\<rparr>" and "skb1 = skb\<lparr>skb_bytes := skb_bytes skb1\<rparr>"
    using assms by (simp_all add: patched_def)
  then have "skb2 = skb\<lparr>skb_bytes := skb_bytes skb2\<rparr>"
    by (metis sk_buff.surjective sk_buff.update_convs(3))
  with assms show ?thesis by (simp add: patched_def)
qed

lemma patched_mono: "patched S skb skb' \<Longrightarrow> S \<subseteq> T \<Longrightarrow> patched T skb skb'"
  by (auto simp: patched_def)

lemma patched_fields:
  assumes "patched S skb skb'"
  shows "skb_len skb' = skb_len skb" and "skb_headlen skb' = skb_headlen skb"
    and "skb_partial skb' = skb_partial skb" and "skb_is_gso skb' = skb_is_gso skb"
proof -
  have "skb' = skb\<lparr>skb_bytes := skb_bytes skb'\<rparr>" using assms by (simp add: patched_def)
  then show "skb_len skb' = skb_len skb" and "skb_headlen skb' = skb_headlen skb"
    and "skb_partial skb' = skb_partial skb" and "skb_is_gso skb' = skb_is_gso skb"
    by (metis sk_buff.select_convs sk_buff.surjective sk_buff.update_convs(3))+
qed

lemma patched_rd8: "patched S skb skb' \<Longrightarrow> i \<notin> S \<Longrightarrow> rd8 skb' i = rd8 skb i"
  by (simp add: rd8_def patched_fields) (simp add: patched_def)

lemma patched_rd16: "patched S skb skb' \<Longrightarrow> i \<notin> S \<Longrightarrow> i + 1 \<notin> S \<Longrightarrow> rd16 E skb' i = rd16 E skb i"
  by (simp add: rd16_def patched_rd8)

lemma patched_rd32:
  "patched S skb skb' \<Longrightarrow> {i, i + 1, i + 2, i + 3} \<inter> S = {} \<Longrightarrow> rd32 E skb' i = rd32 E skb i"
proof -
  assume p: "patched S skb skb'" and d: "{i, i + 1, i + 2, i + 3} \<inter> S = {}"
  have "rd16 E skb' i = rd16 E skb i" using d by (intro patched_rd16 [OF p]) auto
  moreover have "rd16 E skb' (i + 2) = rd16 E skb (i + 2)"
    using d by (intro patched_rd16 [OF p]) (auto simp: eval_nat_numeral)
  ultimately show ?thesis by (simp only: rd32_def)
qed

lemma wr8_patched: "wr8 skb i v = Some skb' \<Longrightarrow> patched {i} skb skb'"
  by (auto simp: wr8_def patched_def split: if_splits)

lemma wr16_patched: "wr16 E skb i v = Some skb' \<Longrightarrow> patched {i, i + 1} skb skb'"
  by (auto simp: wr16_Some patched_def split: if_splits)

lemma wr32_patched:
  assumes "wr32 E skb i v = Some skb'"
  shows "patched {i, i + 1, i + 2, i + 3} skb skb'"
proof -
  obtain s1 a b where "wr16 E skb i a = Some s1" and "wr16 E s1 (i + 2) b = Some skb'"
    using assms by (auto simp: wr32_def Let_def bind_eq_Some_conv)
  from patched_trans [OF wr16_patched [OF this(1)] wr16_patched [OF this(2)]]
  show ?thesis by (rule patched_mono) (auto simp: add.assoc)
qed

section \<open>Accesses inside the linear area succeed\<close>

lemma rd8_total: "i < unat (skb_headlen skb) \<Longrightarrow> \<exists>v. rd8 skb i = Some v"
  by (simp add: rd8_def)

lemma rd16_total: "i + 1 < unat (skb_headlen skb) \<Longrightarrow> \<exists>v. rd16 E skb i = Some v"
  by (simp add: rd16_defined)

lemma rd32_total: "i + 3 < unat (skb_headlen skb) \<Longrightarrow> \<exists>v. rd32 E skb i = Some v"
  by (auto simp: rd32_def rd16_def rd8_def)

lemma wr8_total: "i < unat (skb_headlen skb) \<Longrightarrow> \<exists>skb'. wr8 skb i v = Some skb'"
  by (simp add: wr8_def)

lemma wr16_total: "i + 1 < unat (skb_headlen skb) \<Longrightarrow> \<exists>skb'. wr16 E skb i v = Some skb'"
  by (simp add: wr16_Some)

lemma wr32_total:
  assumes "i + 3 < unat (skb_headlen skb)"
  shows "\<exists>skb'. wr32 E skb i v = Some skb'"
proof -
  let ?a = "if big_endian E then ucast (drop_bit 16 v) else ucast v :: u16"
  let ?b = "if big_endian E then ucast v else ucast (drop_bit 16 v) :: u16"
  obtain s1 where 1: "wr16 E skb i ?a = Some s1"
    using assms wr16_total [of i skb E ?a] by auto
  obtain s2 where 2: "wr16 E s1 (i + 2) ?b = Some s2"
    using assms patched_fields(2) [OF wr16_patched [OF 1]] wr16_total [of "i + 2" s1 E ?b] by auto
  from 1 2 show ?thesis by (auto simp: wr32_def Let_def)
qed

lemma rd8_wr8: "wr8 skb i v = Some skb' \<Longrightarrow> rd8 skb' i = Some v"
  by (auto simp: wr8_def rd8_def split: if_splits)

lemma rd32_wr32:
  assumes "wr32 E skb i v = Some skb'"
  shows "rd32 E skb' i = Some v"
proof -
  let ?a = "if big_endian E then ucast (drop_bit 16 v) else ucast v :: u16"
  let ?b = "if big_endian E then ucast v else ucast (drop_bit 16 v) :: u16"
  obtain s1 where 1: "wr16 E skb i ?a = Some s1" and 2: "wr16 E s1 (i + 2) ?b = Some skb'"
    using assms by (auto simp: wr32_def Let_def bind_eq_Some_conv)
  have "rd16 E skb' i = rd16 E s1 i"
    using patched_rd16 [OF wr16_patched [OF 2], of i] by simp
  then show ?thesis
    using rd16_wr16 [OF 1] rd16_wr16 [OF 2] by (auto simp: rd32_def mk32_split)
qed

lemma same_packetD:
  assumes "same_packet skb skb'"
  shows "skb_len skb' = skb_len skb"
    and "i < unat (skb_len skb) \<Longrightarrow> skb_bytes skb' i = skb_bytes skb i"
    and "skb_partial skb' = skb_partial skb" and "skb_is_gso skb' = skb_is_gso skb"
    and "skb_headlen skb \<le> skb_headlen skb'" and "skb_headlen skb' \<le> skb_len skb'"
  using assms unfolding same_packet_def by (elim conjE; blast)+

lemma same_packet_trans:
  assumes "same_packet a b" and "same_packet b c"
  shows "same_packet a c"
  unfolding same_packet_def
proof (intro conjI allI impI)
  note A = same_packetD [OF assms(1)] and B = same_packetD [OF assms(2)]
  show "skb_len c = skb_len a" by (simp only: A B)
  show "skb_partial c = skb_partial a" "skb_is_gso c = skb_is_gso a" by (simp_all only: A B)
  show "skb_headlen a \<le> skb_headlen c" using A(5) B(5) by (rule order_trans)
  show "skb_headlen c \<le> skb_len c" by (rule B(6))
  fix i
  assume "i < unat (skb_len a)"
  then show "skb_bytes c i = skb_bytes a i" by (simp only: A B)
qed

lemma kernel_pull:
  assumes "kernel_ok K" and "skb_ok skb" and "pskb_may_pull K skb n = Some skb'"
  shows "same_packet skb skb'" and "n \<le> skb_headlen skb'" and "skb_ok skb'"
proof -
  show p: "same_packet skb skb'" and "n \<le> skb_headlen skb'"
    using assms unfolding kernel_ok_def by blast+
  show "skb_ok skb'" using p unfolding same_packet_def skb_ok_def by (elim conjE)
qed

lemma kernel_unshare:
  assumes "kernel_ok K" and "skb_ok skb" and "skb_unshare K skb = Some skb'"
  shows "same_packet skb skb'" and "skb_ok skb'"
proof -
  show p: "same_packet skb skb'" using assms unfolding kernel_ok_def by blast
  show "skb_ok skb'" using p unfolding same_packet_def skb_ok_def by (elim conjE)
qed

lemma same_packet_headlen: "same_packet skb skb' \<Longrightarrow> unat (skb_headlen skb) \<le> unat (skb_headlen skb')"
  by (simp add: same_packet_def word_le_nat_alt)

text \<open>Reads of the packet that were possible before give the same value.\<close>

lemma same_packet_rd8:
  assumes "same_packet skb skb'" and "skb_ok skb" and "rd8 skb i = Some v"
  shows "rd8 skb' i = Some v"
proof -
  have i: "i < unat (skb_headlen skb)" and v: "skb_bytes skb i = v"
    using assms(3) by (simp_all add: rd8_Some)
  have le: "unat (skb_headlen skb) \<le> unat (skb_len skb)" using assms(2) by (simp add: skb_ok_def word_le_nat_alt)
  have "skb_bytes skb' i = v" using assms(1) i v le by (simp add: same_packet_def)
  moreover have "i < unat (skb_headlen skb')"
    using i same_packet_headlen [OF assms(1)] by simp
  ultimately show ?thesis by (simp add: rd8_Some)
qed

lemma same_packet_rd16:
  assumes "same_packet skb skb'" and "skb_ok skb" and "rd16 E skb i = Some v"
  shows "rd16 E skb' i = Some v"
proof -
  obtain a b where "rd8 skb i = Some a" "rd8 skb (i + 1) = Some b"
    and v: "v = (if big_endian E then mk16 a b else mk16 b a)"
    using assms(3) by (auto simp: rd16_def bind_eq_Some_conv)
  then show ?thesis
    using same_packet_rd8 [OF assms(1,2)] by (simp add: rd16_def)
qed

lemma same_packet_rd32:
  assumes "same_packet skb skb'" and "skb_ok skb" and "rd32 E skb i = Some v"
  shows "rd32 E skb' i = Some v"
proof -
  obtain a b where "rd16 E skb i = Some a" "rd16 E skb (i + 2) = Some b"
    and v: "v = (if big_endian E then mk32 a b else mk32 b a)"
    using assms(3) by (auto simp: rd32_def bind_eq_Some_conv)
  then show ?thesis
    using same_packet_rd16 [OF assms(1,2)] by (simp add: rd32_def)
qed

end
