(* ===== verification/Sfe_Tcp.thy ===== *)
theory Sfe_Tcp
  imports Sfe_Table Sfe_Skb
begin

text \<open>
  TCP (sfe_ipv4.c): the parser of the SACK option and the sequence number checks of
  \<open>sfe_ipv4_recv_tcp\<close> with the update of the tracked windows. \<open>th\<close> is the offset of the TCP header
  in the packet. A read outside the linear area of the packet is None.
\<close>

section \<open>Options\<close>

definition TCPOPT_EOL :: u8 where "TCPOPT_EOL = 0"
definition TCPOPT_NOP :: u8 where "TCPOPT_NOP = 1"
definition TCPOPT_SACK :: u8 where "TCPOPT_SACK = 5"
definition TCPOPT_TIMESTAMP :: u8 where "TCPOPT_TIMESTAMP = 8"
definition TCPOLEN_TIMESTAMP :: u8 where "TCPOLEN_TIMESTAMP = 10"
definition TCPOLEN_SACK_PERBLOCK :: u8 where "TCPOLEN_SACK_PERBLOCK = 8"

lemmas tcpopt_defs = TCPOPT_EOL_def TCPOPT_NOP_def TCPOPT_SACK_def TCPOPT_TIMESTAMP_def
  TCPOLEN_TIMESTAMP_def TCPOLEN_SACK_PERBLOCK_def

definition SIZEOF_TCP_HDR :: u32 where "SIZEOF_TCP_HDR = 20"
definition SIZEOF_IP_HDR :: u32 where "SIZEOF_IP_HDR = 20"
definition SIZEOF_UDP_HDR :: u32 where "SIZEOF_UDP_HDR = 8"
definition SIZEOF_ICMP_HDR :: u32 where "SIZEOF_ICMP_HDR = 8"

text \<open>The greatest right edge among the blocks of one SACK option at \<open>ptr\<close>.\<close>

partial_function (option) sack_blocks ::
  "sk_buff \<Rightarrow> nat \<Rightarrow> u8 \<Rightarrow> u8 \<Rightarrow> u32 \<Rightarrow> u32 option" where
  "sack_blocks skb ptr sz re sack =
     (if re < sz then do {
        b0 \<leftarrow> rd8 skb (ptr + unat re);
        b1 \<leftarrow> rd8 skb (ptr + unat re + 1);
        b2 \<leftarrow> rd8 skb (ptr + unat re + 2);
        b3 \<leftarrow> rd8 skb (ptr + unat re + 3);
        let sack_re = mk32 (mk16 b0 b1) (mk16 b2 b3);
        sack_blocks skb ptr sz (re + TCPOLEN_SACK_PERBLOCK) (if sack_re > sack then sack_re else sack)
      }
      else Some sack)"

declare sack_blocks.simps [code]

text \<open>The walk over the options from \<open>len\<close> on; the result is the verdict and the acknowledgement.\<close>

partial_function (option) sack_options ::
  "sk_buff \<Rightarrow> nat \<Rightarrow> u32 \<Rightarrow> u32 \<Rightarrow> u32 \<Rightarrow> (bool \<times> u32) option" where
  "sack_options skb th data_offs len ack =
     (if len < data_offs then do {
        let ptr = th + unat len;
        kind \<leftarrow> rd8 skb ptr;
        (if kind = TCPOPT_NOP then sack_options skb th data_offs (len + 1) ack
         else if kind = TCPOPT_SACK then do {
           sz \<leftarrow> rd8 skb (ptr + 1);
           (if sz < 2 + TCPOLEN_SACK_PERBLOCK \<or> (sz - 2) mod TCPOLEN_SACK_PERBLOCK \<noteq> 0 \<or>
               ucast sz > data_offs - len
            then Some (False, ack)
            else do {
              sack \<leftarrow> sack_blocks skb ptr sz 6 0;
              sack_options skb th data_offs (len + ucast sz) (if sack > ack then sack else ack)
            })
         }
         else if kind = TCPOPT_EOL then Some (True, ack)
         else do {
           sz \<leftarrow> rd8 skb (ptr + 1);
           (if sz < 2 then Some (False, ack)
            else sack_options skb th data_offs (len + ucast sz) ack)
         })
      }
      else Some (True, ack))"

declare sack_options.simps [code]

text \<open>The test for a header with nothing but a timestamp, evaluated from left to right.\<close>

definition only_timestamp :: "sk_buff \<Rightarrow> nat \<Rightarrow> u32 \<Rightarrow> bool option" where
  "only_timestamp skb ptr data_offs =
     (if data_offs = SIZEOF_TCP_HDR + ucast TCPOLEN_TIMESTAMP + 1 + 1 then do {
        b0 \<leftarrow> rd8 skb ptr;
        (if b0 \<noteq> TCPOPT_NOP then Some False else do {
           b1 \<leftarrow> rd8 skb (ptr + 1);
           (if b1 \<noteq> TCPOPT_NOP then Some False else do {
              b2 \<leftarrow> rd8 skb (ptr + 2);
              (if b2 \<noteq> TCPOPT_TIMESTAMP then Some False else do {
                 b3 \<leftarrow> rd8 skb (ptr + 3);
                 Some (b3 = TCPOLEN_TIMESTAMP)
               })
            })
         })
      }
      else Some False)"

definition sfe_ipv4_process_tcp_option_sack ::
  "sk_buff \<Rightarrow> nat \<Rightarrow> u32 \<Rightarrow> u32 \<Rightarrow> (bool \<times> u32) option" where
  "sfe_ipv4_process_tcp_option_sack skb th data_offs ack = do {
     ts \<leftarrow> only_timestamp skb (th + unat SIZEOF_TCP_HDR) data_offs;
     (if ts then Some (True, ack) else sack_options skb th data_offs SIZEOF_TCP_HDR ack)
   }"

section \<open>Sequence numbers\<close>

definition SFE_IPV4_TCP_MAX_ACK_WINDOW :: u32 where "SFE_IPV4_TCP_MAX_ACK_WINDOW = 65520"

text \<open>The window state after an accepted segment: our own direction and the counterpart's right edge.\<close>

record tcp_update =
  upd_own :: sfe_ipv4_tcp_connection_match
  upd_counter_max_end :: u32

text \<open>The comparisons of a segment with the edges of the windows; None means it lies inside.\<close>

definition tcp_edges ::
  "sfe_ipv4_tcp_connection_match \<Rightarrow> sfe_ipv4_tcp_connection_match \<Rightarrow> u32 \<Rightarrow> u32 \<Rightarrow>
   sfe_ipv4_exception_events option" where
  "tcp_edges own counter end_seq sack =
     (if sint (end_seq - (tcp_end own - max_win counter - 1)) < 0 then Some TCP_SEQ_BEFORE_LEFT_EDGE
      else if 0 < sint (sack - (tcp_end counter + 1)) then Some TCP_ACK_EXCEEDS_RIGHT_EDGE
      else if sint (sack - (tcp_end counter - max_win own - SFE_IPV4_TCP_MAX_ACK_WINDOW - 1)) < 0
      then Some TCP_ACK_BEFORE_LEFT_EDGE
      else None)"

definition tcp_advance ::
  "sfe_ipv4_tcp_connection_match \<Rightarrow> sfe_ipv4_tcp_connection_match \<Rightarrow> u32 \<Rightarrow> u32 \<Rightarrow> u32 \<Rightarrow> u16 \<Rightarrow> tcp_update" where
  "tcp_advance own counter end_seq sack ack window =
     (let scaled_win = push_bit (unat (win_scale own)) (ucast window) + (sack - ack);
          own1 = (if max_win own < scaled_win then own\<lparr>max_win := scaled_win\<rparr> else own);
          own2 = (if 0 \<le> sint (end_seq - tcp_end own1) then own1\<lparr>tcp_end := end_seq\<rparr> else own1);
          new_max_end = sack + scaled_win
      in \<lparr>upd_own = own2,
          upd_counter_max_end =
            (if 0 \<le> sint (new_max_end - max_end counter) then new_max_end else max_end counter)\<rparr>)"

definition tcp_seq_check ::
  "sfe_env \<Rightarrow> sk_buff \<Rightarrow> nat \<Rightarrow> u32 \<Rightarrow> sfe_ipv4_tcp_connection_match \<Rightarrow> sfe_ipv4_tcp_connection_match \<Rightarrow>
   (sfe_ipv4_exception_events + tcp_update) option" where
  "tcp_seq_check E skb th len own counter = do {
     raw_seq \<leftarrow> rd32 E skb (th + 4);
     let seq = ntohl E raw_seq;
     if 0 < sint (seq - (max_end own + 1)) then Some (Inl TCP_SEQ_EXCEEDS_RIGHT_EDGE)
     else do {
       doff \<leftarrow> rd8 skb (th + 12);
       let data_offs = push_bit 2 (ucast (drop_bit 4 doff));
       if data_offs < SIZEOF_TCP_HDR then Some (Inl TCP_SMALL_DATA_OFFS)
       else do {
         raw_ack \<leftarrow> rd32 E skb (th + 8);
         let ack = ntohl E raw_ack;
         (valid, sack) \<leftarrow> sfe_ipv4_process_tcp_option_sack skb th data_offs ack;
         if \<not> valid then Some (Inl TCP_BAD_SACK)
         else if len < data_offs + SIZEOF_IP_HDR then Some (Inl TCP_BIG_DATA_OFFS)
         else do {
           let end_seq = seq + len - (data_offs + SIZEOF_IP_HDR);
           case tcp_edges own counter end_seq sack of
             Some e \<Rightarrow> Some (Inl e)
           | None \<Rightarrow> do {
               raw_window \<leftarrow> rd16 E skb (th + 14);
               Some (Inr (tcp_advance own counter end_seq sack ack (ntohs E raw_window)))
             }
         }
       }
     }
   }"

end
