(* ===== verification/Sfe_Recv.thy ===== *)
theory Sfe_Recv
  imports Sfe_Sync Sfe_Csum Sfe_Tcp
begin

text \<open>
  The packet path (sfe_ipv4.c, \<open>sfe_ipv4_recv\<close> and the UDP, TCP and ICMP handlers). A handler gets the
  packet and the state of the engine and returns what becomes of the packet, the connection it took
  out of the tables and still has to release, and the new state. \<open>sfe_ipv4_recv\<close> performs the
  release, which the code does after dropping the lock. The IP header starts at offset 0 of the
  packet. A read or write outside the linear area of the packet, an endless walk or a NULL pointer
  is None.
\<close>

section \<open>Outcomes\<close>

text \<open>
  The function returns 1 for a forwarded packet and 0 otherwise; a packet of which the last reference
  was dropped is gone although 0 is returned.
\<close>

datatype recv_outcome = NotForwarded sk_buff | Forwarded sk_buff | SkbFreed

type_synonym recv_result = "recv_outcome \<times> conn_ptr option \<times> sfe_ipv4"

definition reject :: "sfe_ipv4_exception_events \<Rightarrow> sk_buff \<Rightarrow> sfe_ipv4 \<Rightarrow> recv_result" where
  "reject e skb s = (NotForwarded skb, None, count_exception e s)"

definition reject_flush :: "sfe_env \<Rightarrow> cm_ptr \<Rightarrow> sfe_ipv4_exception_events \<Rightarrow> sk_buff \<Rightarrow> sfe_ipv4 \<Rightarrow> recv_result" where
  "reject_flush E cm e skb s =
     (let c = cm_connection (cms s cm);
          s1 = sfe_ipv4_remove_sfe_ipv4_connection E c s
      in (NotForwarded skb, Some c, count_exception e s1))"

text \<open>Flows that may only be accelerated in the other direction.\<close>

definition not_accelerated :: "sfe_env \<Rightarrow> sfe_ipv4_connection_match \<Rightarrow> bool" where
  "not_accelerated E m \<longleftrightarrow> config_xfrm E \<and> flow_accel m = 0"

definition pass_slow :: "sk_buff \<Rightarrow> sfe_ipv4 \<Rightarrow> recv_result" where
  "pass_slow skb s = (NotForwarded skb, None, s\<lparr>packets_not_forwarded := packets_not_forwarded s + 1\<rparr>)"

section \<open>Rewriting the packet\<close>

definition SFE_IPV4_DSCP_MASK :: u8 where "SFE_IPV4_DSCP_MASK = 3"

definition remark_dscp :: "sfe_ipv4_connection_match \<Rightarrow> sk_buff \<Rightarrow> sk_buff option" where
  "remark_dscp m skb =
     (if has_flag (cm_flags m) FLAG_DSCP_REMARK then do {
        tos \<leftarrow> rd8 skb 1;
        wr8 skb 1 (ucast ((ucast (tos AND SFE_IPV4_DSCP_MASK) :: u32) OR cm_dscp m))
      }
      else Some skb)"

definition sfe_ipv4_gen_ip_csum :: "sfe_env \<Rightarrow> sk_buff \<Rightarrow> (sk_buff \<times> u16) option" where
  "sfe_ipv4_gen_ip_csum E skb = do {
     skb \<leftarrow> wr16 E skb 10 0;
     i0 \<leftarrow> rd16 E skb 0; i1 \<leftarrow> rd16 E skb 2; i2 \<leftarrow> rd16 E skb 4; i3 \<leftarrow> rd16 E skb 6;
     i4 \<leftarrow> rd16 E skb 8; i5 \<leftarrow> rd16 E skb 10; i6 \<leftarrow> rd16 E skb 12; i7 \<leftarrow> rd16 E skb 14;
     i8 \<leftarrow> rd16 E skb 16; i9 \<leftarrow> rd16 E skb 18;
     let sum = (ucast i0 :: u32) + ucast i1 + ucast i2 + ucast i3 + ucast i4
               + ucast i5 + ucast i6 + ucast i7 + ucast i8 + ucast i9;
     Some (skb, csum_fold sum XOR 0xffff)
   }"

definition udp_xlate_src :: "sfe_env \<Rightarrow> sfe_ipv4_connection_match \<Rightarrow> nat \<Rightarrow> sk_buff \<Rightarrow> sk_buff option" where
  "udp_xlate_src E m th skb =
     (if has_flag (cm_flags m) FLAG_XLATE_SRC then do {
        skb \<leftarrow> wr32 E skb 12 (xlate_src_ip m);
        skb \<leftarrow> wr16 E skb th (xlate_src_port m);
        udp_csum \<leftarrow> rd16 E skb (th + 6);
        (if udp_csum \<noteq> 0
         then wr16 E skb (th + 6) (apply_adjustment udp_csum
                (if skb_partial skb then xlate_src_partial_csum_adjustment m else xlate_src_csum_adjustment m))
         else Some skb)
      }
      else Some skb)"

definition udp_xlate_dest :: "sfe_env \<Rightarrow> sfe_ipv4_connection_match \<Rightarrow> nat \<Rightarrow> sk_buff \<Rightarrow> sk_buff option" where
  "udp_xlate_dest E m th skb =
     (if has_flag (cm_flags m) FLAG_XLATE_DEST then do {
        skb \<leftarrow> wr32 E skb 16 (xlate_dest_ip m);
        skb \<leftarrow> wr16 E skb (th + 2) (xlate_dest_port m);
        udp_csum \<leftarrow> rd16 E skb (th + 6);
        (if udp_csum \<noteq> 0
         then wr16 E skb (th + 6) (apply_adjustment udp_csum
                (if skb_partial skb then xlate_dest_partial_csum_adjustment m else xlate_dest_csum_adjustment m))
         else Some skb)
      }
      else Some skb)"

definition tcp_xlate_src :: "sfe_env \<Rightarrow> sfe_ipv4_connection_match \<Rightarrow> nat \<Rightarrow> sk_buff \<Rightarrow> sk_buff option" where
  "tcp_xlate_src E m th skb =
     (if has_flag (cm_flags m) FLAG_XLATE_SRC then do {
        skb \<leftarrow> wr32 E skb 12 (xlate_src_ip m);
        skb \<leftarrow> wr16 E skb th (xlate_src_port m);
        tcp_csum \<leftarrow> rd16 E skb (th + 16);
        wr16 E skb (th + 16) (apply_adjustment tcp_csum
          (if skb_partial skb then xlate_src_partial_csum_adjustment m else xlate_src_csum_adjustment m))
      }
      else Some skb)"

definition tcp_xlate_dest :: "sfe_env \<Rightarrow> sfe_ipv4_connection_match \<Rightarrow> nat \<Rightarrow> sk_buff \<Rightarrow> sk_buff option" where
  "tcp_xlate_dest E m th skb =
     (if has_flag (cm_flags m) FLAG_XLATE_DEST then do {
        skb \<leftarrow> wr32 E skb 16 (xlate_dest_ip m);
        skb \<leftarrow> wr16 E skb (th + 2) (xlate_dest_port m);
        tcp_csum \<leftarrow> rd16 E skb (th + 16);
        wr16 E skb (th + 16) (apply_adjustment tcp_csum
          (if skb_partial skb then xlate_dest_partial_csum_adjustment m else xlate_dest_csum_adjustment m))
      }
      else Some skb)"

text \<open>DSCP, TTL, addresses and ports, transport and header checksum, in the order of the code.\<close>

definition udp_rewrite :: "sfe_env \<Rightarrow> sfe_ipv4_connection_match \<Rightarrow> nat \<Rightarrow> u8 \<Rightarrow> sk_buff \<Rightarrow> sk_buff option" where
  "udp_rewrite E m th ttl skb = do {
     skb \<leftarrow> remark_dscp m skb;
     skb \<leftarrow> wr8 skb 8 (ttl - 1);
     skb \<leftarrow> udp_xlate_src E m th skb;
     skb \<leftarrow> udp_xlate_dest E m th skb;
     (skb, check) \<leftarrow> sfe_ipv4_gen_ip_csum E skb;
     wr16 E skb 10 check
   }"

definition tcp_rewrite :: "sfe_env \<Rightarrow> sfe_ipv4_connection_match \<Rightarrow> nat \<Rightarrow> u8 \<Rightarrow> sk_buff \<Rightarrow> sk_buff option" where
  "tcp_rewrite E m th ttl skb = do {
     skb \<leftarrow> remark_dscp m skb;
     skb \<leftarrow> wr8 skb 8 (ttl - 1);
     skb \<leftarrow> tcp_xlate_src E m th skb;
     skb \<leftarrow> tcp_xlate_dest E m th skb;
     (skb, check) \<leftarrow> sfe_ipv4_gen_ip_csum E skb;
     wr16 E skb 10 check
   }"

section \<open>Counting and sending\<close>

definition activate :: "cm_ptr \<Rightarrow> sfe_ipv4 \<Rightarrow> sfe_ipv4" where
  "activate cm s =
     (if match_active s cm then s
      else
        (let s1 = s\<lparr>match_active := (match_active s)(cm := True)\<rparr>;
             s2 = set_active_prev cm (active_tail s1) s1;
             s3 = (case active_tail s2 of
                     Some t \<Rightarrow> set_active_next t (Some cm) s2
                   | None \<Rightarrow> set_active_head (Some cm) s2)
         in set_active_tail (Some cm) s3))"

definition count_packet :: "cm_ptr \<Rightarrow> u32 \<Rightarrow> sfe_ipv4 \<Rightarrow> sfe_ipv4" where
  "count_packet cm len s = upd_cm cm (\<lambda>m. m\<lparr>rx_packet_count := rx_packet_count m + 1,
     rx_byte_count := rx_byte_count m + len\<rparr>) s"

text \<open>Device, link layer header, priority and mark of the outgoing packet.\<close>

definition write_l2_header :: "kernel \<Rightarrow> sfe_ipv4_connection_match \<Rightarrow> u32 \<Rightarrow> sk_buff \<Rightarrow> sk_buff" where
  "write_l2_header K m len skb =
     (if has_flag (cm_flags m) FLAG_WRITE_L2_HDR
      then if \<not> has_flag (cm_flags m) FLAG_WRITE_FAST_ETH_HDR
           then dev_hard_header K skb (xmit_dev m) ETH_P_IP (xmit_dest_mac m) (xmit_src_mac m) len
           else push_eth (xmit_dest_mac m) (xmit_src_mac m) skb
      else skb)"

definition address_packet ::
  "kernel \<Rightarrow> sfe_ipv4_connection_match \<Rightarrow> u32 \<Rightarrow> u32 \<Rightarrow> sk_buff \<Rightarrow> sk_buff" where
  "address_packet K m conn_mark len skb =
     (let skb1 = skb\<lparr>skb_dev := xmit_dev m\<rparr>;
          skb2 = write_l2_header K m len skb1;
          skb3 = (if has_flag (cm_flags m) FLAG_PRIORITY_REMARK then skb2\<lparr>skb_priority := cm_priority m\<rparr> else skb2);
          skb4 = skb3\<lparr>skb_mark := conn_mark\<rparr>
      in skb4\<lparr>fast_forwarded := True\<rparr>)"

definition udp_transmit :: "kernel \<Rightarrow> cm_ptr \<Rightarrow> u32 \<Rightarrow> sk_buff \<Rightarrow> sfe_ipv4 \<Rightarrow> recv_result" where
  "udp_transmit K cm len skb s =
     (let s1 = activate cm (count_packet cm len s);
          m = cms s1 cm;
          out = address_packet K m (c_mark (conns s1 (cm_connection m))) len skb
      in (Forwarded out, None, s1\<lparr>packets_forwarded := packets_forwarded s1 + 1\<rparr>))"

definition tcp_transmit :: "kernel \<Rightarrow> cm_ptr \<Rightarrow> u32 \<Rightarrow> sk_buff \<Rightarrow> sfe_ipv4 \<Rightarrow> recv_result" where
  "tcp_transmit K cm len skb s =
     (let s1 = activate cm (count_packet cm len s);
          m = cms s1 cm;
          out = address_packet K m (c_mark (conns s1 (cm_connection m))) len skb
      in (Forwarded out, None, s1\<lparr>packets_forwarded := packets_forwarded s1 + 1\<rparr>))"

text \<open>A shared packet is copied before it is written.\<close>

definition own_packet :: "kernel \<Rightarrow> sk_buff \<Rightarrow> sk_buff option" where
  "own_packet K skb = (if skb_is_cloned skb then skb_unshare K skb else Some skb)"

section \<open>UDP\<close>

definition udp_forward ::
  "sfe_env \<Rightarrow> kernel \<Rightarrow> cm_ptr \<Rightarrow> u32 \<Rightarrow> nat \<Rightarrow> u8 \<Rightarrow> sk_buff \<Rightarrow> sfe_ipv4 \<Rightarrow> recv_result option" where
  "udp_forward E K cm len th ttl skb s =
     (case own_packet K skb of
        None \<Rightarrow> Some (SkbFreed, None, count_exception CLONED_SKB_UNSHARE_ERROR s)
      | Some skb \<Rightarrow> do {
          skb \<leftarrow> udp_rewrite E (cms s cm) th ttl skb;
          Some (udp_transmit K cm len skb s)
        })"

definition sfe_ipv4_recv_udp ::
  "sfe_env \<Rightarrow> kernel \<Rightarrow> sk_buff \<Rightarrow> netdev \<Rightarrow> u32 \<Rightarrow> u32 \<Rightarrow> bool \<Rightarrow> sfe_ipv4 \<Rightarrow> recv_result option" where
  "sfe_ipv4_recv_udp E K skb dev len ihl flush_on_find s =
     (case pskb_may_pull K skb (SIZEOF_UDP_HDR + ihl) of
        None \<Rightarrow> Some (reject UDP_HEADER_INCOMPLETE skb s)
      | Some skb \<Rightarrow> do {
          src_ip \<leftarrow> rd32 E skb 12;
          dest_ip \<leftarrow> rd32 E skb 16;
          src_port \<leftarrow> rd16 E skb (unat ihl);
          dest_port \<leftarrow> rd16 E skb (unat ihl + 2);
          (found, s) \<leftarrow> sfe_ipv4_find_sfe_ipv4_connection_match E dev (ucast IPPROTO_UDP)
                          src_ip src_port dest_ip dest_port s;
          (case found of
             None \<Rightarrow> Some (reject UDP_NO_CONNECTION skb s)
           | Some cm \<Rightarrow>
               if flush_on_find then Some (reject_flush E cm UDP_IP_OPTIONS_OR_INITIAL_FRAGMENT skb s)
               else if not_accelerated E (cms s cm) then Some (pass_slow skb s)
               else do {
                 ttl \<leftarrow> rd8 skb 8;
                 (if ttl < 2 then Some (reject_flush E cm UDP_SMALL_TTL skb s)
                  else if ucast (xmit_dev_mtu (cms s cm)) < len
                  then Some (reject_flush E cm UDP_NEEDS_FRAGMENTATION skb s)
                  else udp_forward E K cm len (unat ihl) ttl skb s)
               })
        })"

section \<open>TCP\<close>

definition TCP_FLAG_ACK :: "sfe_env \<Rightarrow> u32" where "TCP_FLAG_ACK E = ntohl E 0x00100000"
definition TCP_FLAG_RST :: "sfe_env \<Rightarrow> u32" where "TCP_FLAG_RST E = ntohl E 0x00040000"
definition TCP_FLAG_SYN :: "sfe_env \<Rightarrow> u32" where "TCP_FLAG_SYN E = ntohl E 0x00020000"
definition TCP_FLAG_FIN :: "sfe_env \<Rightarrow> u32" where "TCP_FLAG_FIN E = ntohl E 0x00010000"

definition fast_flags :: "sfe_env \<Rightarrow> u32 \<Rightarrow> bool" where
  "fast_flags E flags \<longleftrightarrow>
     flags AND (TCP_FLAG_SYN E OR TCP_FLAG_RST E OR TCP_FLAG_FIN E OR TCP_FLAG_ACK E) = TCP_FLAG_ACK E"

definition tcp_forward ::
  "sfe_env \<Rightarrow> kernel \<Rightarrow> cm_ptr \<Rightarrow> u32 \<Rightarrow> nat \<Rightarrow> u8 \<Rightarrow> sk_buff \<Rightarrow> sfe_ipv4 \<Rightarrow> recv_result option" where
  "tcp_forward E K cm len th ttl skb s =
     (case own_packet K skb of
        None \<Rightarrow> Some (SkbFreed, None, count_exception CLONED_SKB_UNSHARE_ERROR s)
      | Some skb \<Rightarrow> do {
          skb \<leftarrow> tcp_rewrite E (cms s cm) th ttl skb;
          Some (tcp_transmit K cm len skb s)
        })"

text \<open>The sequence number checks and their effect on both matches.\<close>

definition tcp_track ::
  "sfe_env \<Rightarrow> cm_ptr \<Rightarrow> u32 \<Rightarrow> nat \<Rightarrow> sk_buff \<Rightarrow> sfe_ipv4 \<Rightarrow> (sfe_ipv4_exception_events + sfe_ipv4) option" where
  "tcp_track E cm len th skb s =
     (if has_flag (cm_flags (cms s cm)) FLAG_NO_SEQ_CHECK then Some (Inr s)
      else do {
        let counter_cm = cm_counter_match (cms s cm);
        r \<leftarrow> tcp_seq_check E skb th len (cm_tcp (cms s cm)) (cm_tcp (cms s counter_cm));
        (case r of
           Inl e \<Rightarrow> Some (Inl e)
         | Inr u \<Rightarrow>
             (let s1 = upd_cm cm (\<lambda>m. m\<lparr>cm_tcp := upd_own u\<rparr>) s
              in Some (Inr (upd_cm counter_cm
                   (\<lambda>m. m\<lparr>cm_tcp := (cm_tcp m)\<lparr>max_end := upd_counter_max_end u\<rparr>\<rparr>) s1))))
      })"

definition sfe_ipv4_recv_tcp ::
  "sfe_env \<Rightarrow> kernel \<Rightarrow> sk_buff \<Rightarrow> netdev \<Rightarrow> u32 \<Rightarrow> u32 \<Rightarrow> bool \<Rightarrow> sfe_ipv4 \<Rightarrow> recv_result option" where
  "sfe_ipv4_recv_tcp E K skb dev len ihl flush_on_find s =
     (case pskb_may_pull K skb (SIZEOF_TCP_HDR + ihl) of
        None \<Rightarrow> Some (reject TCP_HEADER_INCOMPLETE skb s)
      | Some skb \<Rightarrow> do {
          src_ip \<leftarrow> rd32 E skb 12;
          dest_ip \<leftarrow> rd32 E skb 16;
          src_port \<leftarrow> rd16 E skb (unat ihl);
          dest_port \<leftarrow> rd16 E skb (unat ihl + 2);
          flags \<leftarrow> rd32 E skb (unat ihl + 12);
          (found, s) \<leftarrow> sfe_ipv4_find_sfe_ipv4_connection_match E dev (ucast IPPROTO_TCP)
                          src_ip src_port dest_ip dest_port s;
          (case found of
             None \<Rightarrow>
               if fast_flags E flags then Some (reject TCP_NO_CONNECTION_FAST_FLAGS skb s)
               else Some (reject TCP_NO_CONNECTION_SLOW_FLAGS skb s)
           | Some cm \<Rightarrow>
               if flush_on_find then Some (reject_flush E cm TCP_IP_OPTIONS_OR_INITIAL_FRAGMENT skb s)
               else if not_accelerated E (cms s cm) then Some (pass_slow skb s)
               else do {
                 ttl \<leftarrow> rd8 skb 8;
                 (if ttl < 2 then Some (reject_flush E cm TCP_SMALL_TTL skb s)
                  else if ucast (xmit_dev_mtu (cms s cm)) < len \<and> \<not> skb_is_gso skb
                  then Some (reject_flush E cm TCP_NEEDS_FRAGMENTATION skb s)
                  else if \<not> fast_flags E flags then Some (reject_flush E cm TCP_FLAGS skb s)
                  else do {
                    r \<leftarrow> tcp_track E cm len (unat ihl) skb s;
                    (case r of
                       Inl e \<Rightarrow> Some (reject_flush E cm e skb s)
                     | Inr s \<Rightarrow> tcp_forward E K cm len (unat ihl) ttl skb s)
                  })
               })
        })"

section \<open>ICMP\<close>

definition ICMP_DEST_UNREACH :: u8 where "ICMP_DEST_UNREACH = 3"
definition ICMP_TIME_EXCEEDED :: u8 where "ICMP_TIME_EXCEEDED = 11"

text \<open>
  The transport header of the embedded packet, at \<open>trans_h\<close>: its ports. The first result is the event
  to count when the packet cannot be used.
\<close>

definition icmp_ports ::
  "sfe_env \<Rightarrow> kernel \<Rightarrow> sk_buff \<Rightarrow> u8 \<Rightarrow> u32 \<Rightarrow> nat \<Rightarrow>
   (sfe_ipv4_exception_events + (sk_buff \<times> u16 \<times> u16)) option" where
  "icmp_ports E K skb protocol pull_len trans_h =
     (if protocol = ucast IPPROTO_UDP then
        (case pskb_may_pull K skb (pull_len + 8) of
           None \<Rightarrow> Some (Inl ICMP_IPV4_UDP_HEADER_INCOMPLETE)
         | Some skb \<Rightarrow> do {
             src_port \<leftarrow> rd16 E skb trans_h;
             dest_port \<leftarrow> rd16 E skb (trans_h + 2);
             Some (Inr (skb, src_port, dest_port))
           })
      else if protocol = ucast IPPROTO_TCP then
        (case pskb_may_pull K skb (pull_len + 8) of
           None \<Rightarrow> Some (Inl ICMP_IPV4_TCP_HEADER_INCOMPLETE)
         | Some skb \<Rightarrow> do {
             src_port \<leftarrow> rd16 E skb trans_h;
             dest_port \<leftarrow> rd16 E skb (trans_h + 2);
             Some (Inr (skb, src_port, dest_port))
           })
      else Some (Inl ICMP_IPV4_UNHANDLED_PROTOCOL))"

text \<open>The look-up of the flow an error message is about, with source and destination exchanged.\<close>

definition icmp_flush ::
  "sfe_env \<Rightarrow> sk_buff \<Rightarrow> netdev \<Rightarrow> nat \<Rightarrow> u8 \<Rightarrow> u16 \<Rightarrow> u16 \<Rightarrow> sfe_ipv4 \<Rightarrow> recv_result option" where
  "icmp_flush E skb dev icmp_iph protocol src_port dest_port s = do {
     src_ip \<leftarrow> rd32 E skb (icmp_iph + 12);
     dest_ip \<leftarrow> rd32 E skb (icmp_iph + 16);
     (found, s) \<leftarrow> sfe_ipv4_find_sfe_ipv4_connection_match E dev protocol dest_ip dest_port src_ip src_port s;
     (case found of
        None \<Rightarrow> Some (reject ICMP_NO_CONNECTION skb s)
      | Some cm \<Rightarrow> Some (reject_flush E cm ICMP_FLUSHED_CONNECTION skb s))
   }"

definition sfe_ipv4_recv_icmp ::
  "sfe_env \<Rightarrow> kernel \<Rightarrow> sk_buff \<Rightarrow> netdev \<Rightarrow> u32 \<Rightarrow> sfe_ipv4 \<Rightarrow> recv_result option" where
  "sfe_ipv4_recv_icmp E K skb dev ihl s =
     (let pull_len = SIZEOF_ICMP_HDR + ihl
      in case pskb_may_pull K skb pull_len of
           None \<Rightarrow> Some (reject ICMP_HEADER_INCOMPLETE skb s)
         | Some skb \<Rightarrow> do {
             icmp_type \<leftarrow> rd8 skb (unat ihl);
             (if icmp_type \<noteq> ICMP_DEST_UNREACH \<and> icmp_type \<noteq> ICMP_TIME_EXCEEDED
              then Some (reject ICMP_UNHANDLED_TYPE skb s)
              else
                (let pull_len = pull_len + SIZEOF_IP_HDR; icmp_iph = unat ihl + 8
                 in case pskb_may_pull K skb pull_len of
                      None \<Rightarrow> Some (reject ICMP_IPV4_HEADER_INCOMPLETE skb s)
                    | Some skb \<Rightarrow> do {
                        b0 \<leftarrow> rd8 skb icmp_iph;
                        (if drop_bit 4 b0 \<noteq> 4 then Some (reject ICMP_IPV4_NON_V4 skb s)
                         else
                           (let icmp_ihl_words = (ucast (b0 AND 0xf) :: u32);
                                icmp_ihl = push_bit 2 icmp_ihl_words;
                                pull_len = pull_len + (icmp_ihl - SIZEOF_IP_HDR)
                            in case pskb_may_pull K skb pull_len of
                                 None \<Rightarrow> Some (reject ICMP_IPV4_IP_OPTIONS_INCOMPLETE skb s)
                               | Some skb \<Rightarrow> do {
                                   protocol \<leftarrow> rd8 skb (icmp_iph + 9);
                                   r \<leftarrow> icmp_ports E K skb protocol pull_len (icmp_iph + 4 * unat icmp_ihl_words);
                                   (case r of
                                      Inl e \<Rightarrow> Some (reject e skb s)
                                    | Inr (skb, src_port, dest_port) \<Rightarrow>
                                        icmp_flush E skb dev icmp_iph protocol src_port dest_port s)
                                 }))
                      }))
           })"

section \<open>Entry\<close>

definition IP_OFFSET :: u32 where "IP_OFFSET = 0x1fff"
definition IP_MF :: u32 where "IP_MF = 0x2000"

definition sfe_ipv4_recv_locked ::
  "sfe_env \<Rightarrow> kernel \<Rightarrow> netdev \<Rightarrow> sk_buff \<Rightarrow> sfe_ipv4 \<Rightarrow> recv_result option" where
  "sfe_ipv4_recv_locked E K dev skb s =
     (let len = skb_len skb
      in case pskb_may_pull K skb SIZEOF_IP_HDR of
           None \<Rightarrow> Some (reject HEADER_INCOMPLETE skb s)
         | Some skb \<Rightarrow> do {
             raw_tot_len \<leftarrow> rd16 E skb 2;
             let tot_len = (ucast (ntohs E raw_tot_len) :: u32);
             (if tot_len < SIZEOF_IP_HDR then Some (reject BAD_TOTAL_LENGTH skb s) else do {
             b0 \<leftarrow> rd8 skb 0;
             (if drop_bit 4 b0 \<noteq> 4 then Some (reject NON_V4 skb s)
              else if len < tot_len then Some (reject DATAGRAM_INCOMPLETE skb s) else do {
             raw_frag_off \<leftarrow> rd16 E skb 6;
             let frag_off = (ucast (ntohs E raw_frag_off) :: u32);
             (if frag_off AND IP_OFFSET \<noteq> 0 then Some (reject NON_INITIAL_FRAGMENT skb s) else do {
             let ihl = push_bit 2 (ucast (b0 AND 0xf) :: u32);
             let ip_options = (ihl \<noteq> SIZEOF_IP_HDR);
             (if ip_options \<and> len < ihl then Some (reject IP_OPTIONS_INCOMPLETE skb s) else do {
             let flush_on_find = (frag_off AND IP_MF \<noteq> 0 \<or> ip_options);
             protocol \<leftarrow> rd8 skb 9;
             (if ucast protocol = IPPROTO_UDP then sfe_ipv4_recv_udp E K skb dev len ihl flush_on_find s
              else if ucast protocol = IPPROTO_TCP then sfe_ipv4_recv_tcp E K skb dev len ihl flush_on_find s
              else if ucast protocol = IPPROTO_ICMP then sfe_ipv4_recv_icmp E K skb dev ihl s
              else Some (reject UNHANDLED_PROTOCOL skb s)) }) }) }) }) })"

text \<open>The whole of \<open>sfe_ipv4_recv\<close>: after the lock is dropped a removed connection is released.\<close>

definition flush_pending ::
  "conn_ptr option \<Rightarrow> sfe_connection_sync \<Rightarrow> u64 \<Rightarrow> sfe_ipv4 \<Rightarrow> sfe_ipv4" where
  "flush_pending c sis now s =
     (case c of
        None \<Rightarrow> s
      | Some c \<Rightarrow> sfe_ipv4_flush_sfe_ipv4_connection c SFE_SYNC_REASON_FLUSH sis now s)"

definition sfe_ipv4_recv ::
  "sfe_env \<Rightarrow> kernel \<Rightarrow> netdev \<Rightarrow> sk_buff \<Rightarrow> sfe_connection_sync \<Rightarrow> u64 \<Rightarrow> sfe_ipv4 \<Rightarrow>
   (recv_outcome \<times> sfe_ipv4) option" where
  "sfe_ipv4_recv E K dev skb sis now s = do {
     (out, c, s) \<leftarrow> sfe_ipv4_recv_locked E K dev skb s;
     Some (out, flush_pending c sis now s)
   }"

end
