(* ===== verification/Sfe_Demo.thy ===== *)
theory Sfe_Demo
  imports Sfe_Init Sfe_Recv
begin

text \<open>
  A small machine: two devices, a UDP flow from a private address that is translated to a public
  one, and the engine after the rule for it was created in an empty engine. The properties are applied
  to it to show that their hypotheses can hold together.
\<close>

section \<open>The machine and its memory\<close>

definition demo_dev :: net_device where
  "demo_dev = \<lparr>nd_name = ''eth0'', nd_registered = True, nd_flags = 0, nd_header_ops = Some eth_header,
     nd_dev_addr = (\<lambda>_. 2)\<rparr>"

definition demo_env :: sfe_env where
  "demo_env = \<lparr>big_endian = True, config_xfrm = False, netdev = (\<lambda>_. demo_dev)\<rparr>"

definition demo_tcp :: sfe_ipv4_tcp_connection_match where
  "demo_tcp = \<lparr>win_scale = 0, max_win = 0, tcp_end = 0, max_end = 0\<rparr>"

definition blank_cm :: sfe_ipv4_connection_match where
  "blank_cm = \<lparr>cm_connection = 0, cm_counter_match = 0, match_dev = 0, match_protocol = 0,
     match_src_ip = 0, match_dest_ip = 0, match_src_port = 0, match_dest_port = 0, cm_flags = 0,
     flow_accel = 0, cm_tcp = demo_tcp, rx_packet_count = 0, rx_byte_count = 0,
     xlate_src_ip = 0, xlate_src_port = 0, xlate_src_csum_adjustment = 0,
     xlate_src_partial_csum_adjustment = 0, xlate_dest_ip = 0, xlate_dest_port = 0,
     xlate_dest_csum_adjustment = 0, xlate_dest_partial_csum_adjustment = 0, cm_priority = 0,
     cm_dscp = 0, xmit_dev = 0, xmit_dev_mtu = 0, xmit_dest_mac = (\<lambda>_. 0), xmit_src_mac = (\<lambda>_. 0),
     rx_packet_count64 = 0, rx_byte_count64 = 0\<rparr>"

definition blank_conn :: sfe_ipv4_connection where
  "blank_conn = \<lparr>c_protocol = 0, c_src_ip = 0, c_src_ip_xlate = 0, c_dest_ip = 0,
     c_dest_ip_xlate = 0, c_src_port = 0, c_src_port_xlate = 0, c_dest_port = 0,
     c_dest_port_xlate = 0, original_match = 0, original_dev = 0, reply_match = 0, reply_dev = 0,
     last_sync_jiffies = 0, c_mark = 0, c_debug_read_seq = 0\<rparr>"

definition blank_mem :: sfe_ipv4 where
  "blank_mem = \<lparr>match_next = (\<lambda>_. None), match_prev = (\<lambda>_. None), active_next = (\<lambda>_. None),
     active_prev = (\<lambda>_. None), match_active = (\<lambda>_. False), cms = (\<lambda>_. blank_cm),
     conn_next = (\<lambda>_. None), conn_prev = (\<lambda>_. None), all_next = (\<lambda>_. None), all_prev = (\<lambda>_. None),
     conns = (\<lambda>_. blank_conn), cm_live = {}, conn_live = {}, dev_refcnt = (\<lambda>_. 0),
     active_head = None, active_tail = None, all_connections_head = None,
     all_connections_tail = None, num_connections = 0, sync_rule_callback = None,
     conn_hash = (\<lambda>_. None), conn_match_hash = (\<lambda>_. None), connection_create_requests = 0,
     connection_create_collisions = 0, connection_destroy_requests = 0,
     connection_destroy_misses = 0, connection_match_hash_hits = 0,
     connection_match_hash_reorders = 0, connection_flushes = 0, packets_forwarded = 0,
     packets_not_forwarded = 0, exception_events = (\<lambda>_. 0), connection_create_requests64 = 0,
     connection_create_collisions64 = 0, connection_destroy_requests64 = 0,
     connection_destroy_misses64 = 0, connection_match_hash_hits64 = 0,
     connection_match_hash_reorders64 = 0, connection_flushes64 = 0, packets_forwarded64 = 0,
     packets_not_forwarded64 = 0, exception_events64 = (\<lambda>_. 0), debug_read_seq = 0,
     sync_calls = []\<rparr>"

section \<open>The flow\<close>

definition zero_addr :: sfe_ip_addr where "zero_addr = v4_addr 0"

text \<open>10.0.0.2:4096 to 8.8.8.8:53, translated to 1.2.3.4:8192, from device 1 to device 2.\<close>

definition demo_sic :: sfe_connection_create where
  "demo_sic = \<lparr>sic_protocol = 17, sic_src_dev = 1, sic_dest_dev = 2, sic_flags = 0,
     sic_src_mtu = 1500, sic_dest_mtu = 1500, sic_src_ip = v4_addr 0x0a000002,
     sic_src_ip_xlate = v4_addr 0x01020304, sic_dest_ip = v4_addr 0x08080808,
     sic_dest_ip_xlate = v4_addr 0x08080808, sic_src_port = 4096, sic_src_port_xlate = 8192,
     sic_dest_port = 53, sic_dest_port_xlate = 53, sic_src_mac = (\<lambda>_. 4), sic_src_mac_xlate = (\<lambda>_. 2),
     sic_dest_mac = (\<lambda>_. 2), sic_dest_mac_xlate = (\<lambda>_. 6), sic_src_td_window_scale = 0,
     sic_src_td_max_window = 0, sic_src_td_end = 0, sic_src_td_max_end = 0,
     sic_dest_td_window_scale = 0, sic_dest_td_max_window = 0, sic_dest_td_end = 0,
     sic_dest_td_max_end = 0, sic_mark = 9, sic_original_accel = 1, sic_reply_accel = 1,
     sic_src_priority = 0, sic_dest_priority = 0, sic_src_dscp = 0, sic_dest_dscp = 0\<rparr>"

definition demo_sid :: sfe_connection_destroy where
  "demo_sid = \<lparr>sid_protocol = 17, sid_src_ip = v4_addr 0x0a000002, sid_dest_ip = v4_addr 0x08080808,
     sid_src_port = 4096, sid_dest_port = 53\<rparr>"

definition demo_alloc :: allocation where
  "demo_alloc = \<lparr>al_conn = Some 0, al_original = Some 0, al_reply = Some 1\<rparr>"

text \<open>An uninitialised message.\<close>

definition demo_sis :: sfe_connection_sync where
  "demo_sis = \<lparr>sis_src_dev = 0, sis_dest_dev = 0, sis_is_v6 = False, sis_protocol = 0,
     sis_src_ip = zero_addr, sis_src_ip_xlate = zero_addr, sis_src_port = 0, sis_src_port_xlate = 0,
     sis_dest_ip = zero_addr, sis_dest_ip_xlate = zero_addr, sis_dest_port = 0,
     sis_dest_port_xlate = 0, sis_src_td_max_window = 0, sis_src_td_end = 0,
     sis_src_td_max_end = 0, sis_src_packet_count = 0, sis_src_byte_count = 0,
     sis_src_new_packet_count = 0, sis_src_new_byte_count = 0, sis_dest_td_max_window = 0,
     sis_dest_td_end = 0, sis_dest_td_max_end = 0, sis_dest_packet_count = 0,
     sis_dest_byte_count = 0, sis_dest_new_packet_count = 0, sis_dest_new_byte_count = 0,
     sis_reason = SFE_SYNC_REASON_STATS, sis_delta_jiffies = 0\<rparr>"

section \<open>The engine with the flow\<close>

definition demo_start :: sfe_ipv4 where
  "demo_start = sfe_ipv4_register_sync_rule_callback (Some 7) (engine_start blank_mem)"

definition demo_state :: sfe_ipv4 where
  "demo_state = (case sfe_ipv4_create_rule demo_env demo_sic demo_alloc 100 demo_start of
     Some (res, s) \<Rightarrow> s | None \<Rightarrow> demo_start)"

definition no_refs :: "netdev \<Rightarrow> int" where "no_refs = (\<lambda>_. 0)"

lemma same_table_callback: "same_table s (sfe_ipv4_register_sync_rule_callback cb s)"
  by (simp add: same_table_def sfe_ipv4_register_sync_rule_callback_def)

lemma register_engine:
  assumes "engine_inv E base s A D"
  shows "engine_inv E base (sfe_ipv4_register_sync_rule_callback cb s) A D"
  by (rule same_table_engine [OF assms same_table_callback])
    (simp add: sfe_ipv4_register_sync_rule_callback_def)

lemma demo_start_inv: "engine_inv demo_env no_refs demo_start abs_start []"
proof -
  have "dev_refcnt blank_mem = no_refs" by (simp add: blank_mem_def no_refs_def)
  then show ?thesis using register_engine [OF engine_start_inv [of demo_env blank_mem]]
    by (simp add: demo_start_def)
qed

lemma demo_create:
  obtains A where "sfe_ipv4_create_rule demo_env demo_sic demo_alloc 100 demo_start = Some (CREATED, demo_state)"
    and "engine_inv demo_env no_refs demo_state A []" and "connl A = [0]"
    and "conn_key demo_state 0 = sic_key demo_sic"
proof -
  have fresh: "alloc_fresh demo_alloc demo_start"
    by (simp add: alloc_fresh_def demo_alloc_def demo_start_def engine_start_def
        sfe_ipv4_register_sync_rule_callback_def)
  obtain res s A where c: "sfe_ipv4_create_rule demo_env demo_sic demo_alloc 100 demo_start = Some (res, s)"
    and I: "engine_inv demo_env no_refs s A []"
    and r: "res = create_outcome demo_env demo_sic demo_alloc (conn_key demo_start ` set (connl abs_start))"
    and "res \<noteq> CREATED \<Longrightarrow> A = abs_start \<and> conn_key s = conn_key demo_start"
    and k: "res = CREATED \<Longrightarrow> \<exists>c. al_conn demo_alloc = Some c \<and> connl A = connl abs_start @ [c] \<and>
        conn_key s c = sic_key demo_sic \<and> (\<forall>d\<in>set (connl abs_start). conn_key s d = conn_key demo_start d)"
    by (rule create_rule [OF demo_start_inv fresh, where sic = demo_sic and j = 100]) (rule that)
  have "res = CREATED"
    unfolding r by (simp add: create_outcome_def devs_registered_def demo_env_def demo_dev_def demo_alloc_def
        abs_start_def)
  moreover have "demo_state = s" by (simp add: demo_state_def c)
  ultimately show thesis using that [of A] c I k by (auto simp: demo_alloc_def abs_start_def)
qed

lemma demo_inv:
  obtains A where "engine_inv demo_env no_refs demo_state A []" and "connl A = [0]"
    and "conn_key demo_state 0 = sic_key demo_sic"
  using demo_create by blast

section \<open>Packets\<close>

text \<open>A packet of the flow of the demonstration, as it arrives on device 1.\<close>

definition demo_bytes :: "u8 list" where
  "demo_bytes = [0x45, 0, 0, 32, 0, 0, 0, 0, 64, 17, 0x5e, 0xbd, 10, 0, 0, 2, 8, 8, 8, 8,
     16, 0, 0, 53, 0, 12, 0x12, 0x34, 1, 2, 3, 4]"

definition demo_skb :: sk_buff where
  "demo_skb = \<lparr>skb_len = 32, skb_headlen = 32,
     skb_bytes = (\<lambda>i. if i < 32 then demo_bytes ! i else 0), skb_is_cloned = False,
     skb_partial = False, skb_is_gso = False, skb_dev = 1, skb_priority = 0, skb_mark = 0,
     fast_forwarded = False\<rparr>"

text \<open>A kernel that pulls what is linear and copies a shared packet as it is.\<close>

definition demo_kernel :: kernel where
  "demo_kernel = \<lparr>pskb_may_pull = (\<lambda>skb n. if n \<le> skb_headlen skb then Some skb else None),
     skb_unshare = (\<lambda>skb. Some (skb\<lparr>skb_is_cloned := False\<rparr>)),
     dev_hard_header = (\<lambda>skb dev proto dest src n. skb)\<rparr>"

lemma demo_kernel_ok: "kernel_ok demo_kernel"
  by (auto simp: kernel_ok_def demo_kernel_def same_packet_def skb_ok_def split: if_splits)

end
