(* ===== verification/Sfe_Tcp_Props.thy ===== *)
theory Sfe_Tcp_Props
  imports Sfe_Tcp
begin

text \<open>
  The SACK parser reads the options it is given: on the encoding of a list of options it returns the
  greatest acknowledgement among them, the fast exit for a lone timestamp agrees with the loop, and
  one byte after the options is all it needs. The tracked windows only move forward.
\<close>

section \<open>Encoded options\<close>

datatype tcp_opt = Nop | Sack "(u32 \<times> u32) list" | Other u8 "u8 list"

definition be_bytes :: "u32 \<Rightarrow> u8 list" where
  "be_bytes v = [ucast (drop_bit 24 v), ucast (drop_bit 16 v), ucast (drop_bit 8 v), ucast v]"

fun opt_bytes :: "tcp_opt \<Rightarrow> u8 list" where
  "opt_bytes Nop = [TCPOPT_NOP]"
| "opt_bytes (Sack bs) =
     TCPOPT_SACK # of_nat (2 + 8 * length bs) # concat (map (\<lambda>(l, r). be_bytes l @ be_bytes r) bs)"
| "opt_bytes (Other k d) = k # of_nat (2 + length d) # d"

fun opt_wf :: "tcp_opt \<Rightarrow> bool" where
  "opt_wf Nop \<longleftrightarrow> True"
| "opt_wf (Sack bs) \<longleftrightarrow> bs \<noteq> []"
| "opt_wf (Other k d) \<longleftrightarrow> k \<notin> {TCPOPT_EOL, TCPOPT_NOP, TCPOPT_SACK}"

fun opt_ack :: "tcp_opt \<Rightarrow> u32 \<Rightarrow> u32" where
  "opt_ack (Sack bs) ack = fold max (map snd bs) ack"
| "opt_ack _ ack = ack"

fun bytes_at :: "sk_buff \<Rightarrow> nat \<Rightarrow> u8 list \<Rightarrow> bool" where
  "bytes_at skb i [] \<longleftrightarrow> i \<le> unat (skb_headlen skb)"
| "bytes_at skb i (x # xs) \<longleftrightarrow> rd8 skb i = Some x \<and> bytes_at skb (i + 1) xs"

lemma bytes_at_le: "bytes_at skb i xs \<Longrightarrow> i \<le> unat (skb_headlen skb)"
  by (cases xs) (simp_all add: rd8_Some)

lemma bytes_at_append: "bytes_at skb i (xs @ ys) \<longleftrightarrow> bytes_at skb i xs \<and> bytes_at skb (i + length xs) ys"
  by (induction xs arbitrary: i) (auto dest: bytes_at_le)

lemma length_be_bytes [simp]: "length (be_bytes v) = 4"
  by (simp add: be_bytes_def)

lemma length_sack_bytes [simp]:
  "length (concat (map (\<lambda>(l, r). be_bytes l @ be_bytes r) bs)) = 8 * length bs"
  by (induction bs) auto

lemma be_bytes_join:
  "mk32 (mk16 (ucast (drop_bit 24 v)) (ucast (drop_bit 16 v))) (mk16 (ucast (drop_bit 8 v)) (ucast v)) = v"
  unfolding mk32_def mk16_def
proof (rule bit_word_eqI, goal_cases)
  case (1 n)
  then consider "n < 8" | "8 \<le> n" "n < 16" | "16 \<le> n" "n < 24" | "24 \<le> n" "n < 32" by fastforce
  then show ?case by cases (auto simp: bit_simps dest!: le_Suc_ex)
qed

lemma rd_be_bytes:
  assumes "bytes_at skb i (be_bytes v)"
  obtains b0 b1 b2 b3 where "rd8 skb i = Some b0" and "rd8 skb (i + 1) = Some b1"
    and "rd8 skb (i + 2) = Some b2" and "rd8 skb (i + 3) = Some b3"
    and "mk32 (mk16 b0 b1) (mk16 b2 b3) = v"
proof -
  have "rd8 skb i = Some (ucast (drop_bit 24 v))" "rd8 skb (i + 1) = Some (ucast (drop_bit 16 v))"
    "rd8 skb (i + 2) = Some (ucast (drop_bit 8 v))" "rd8 skb (i + 3) = Some (ucast v)"
    using assms by (simp_all add: be_bytes_def add.assoc numeral_eq_Suc)
  then show thesis by (rule that) (rule be_bytes_join)
qed

section \<open>One SACK option\<close>

lemma unat_of_nat_u8: "n < 256 \<Longrightarrow> unat (of_nat n :: u8) = n"
  by (simp add: unat_of_nat take_bit_nat_eq_self)

lemma less_of_nat_u8: "m < 256 \<Longrightarrow> n < 256 \<Longrightarrow> (of_nat m :: u8) < of_nat n \<longleftrightarrow> m < n"
  by (simp add: word_less_nat_alt unat_of_nat_u8)

lemma unat_of_nat_u32: "n < 4294967296 \<Longrightarrow> unat (of_nat n :: u32) = n"
  by (simp add: unat_of_nat take_bit_nat_eq_self)

lemma sack_blocks_bytes:
  assumes "bytes_at skb (ptr + 2 + 8 * k) (concat (map (\<lambda>(l, r). be_bytes l @ be_bytes r) bs))"
    and "2 + 8 * (k + length bs) < 250"
  shows "sack_blocks skb ptr (of_nat (2 + 8 * (k + length bs))) (of_nat (6 + 8 * k)) sack =
     Some (fold max (map snd bs) sack)"
  using assms
proof (induction bs arbitrary: k sack)
  case Nil
  show ?case
    using Nil(2) by (subst sack_blocks.simps, subst less_of_nat_u8) simp_all
next
  case (Cons b bs)
  obtain l r where b: "b = (l, r)" by fastforce
  let ?sz = "of_nat (2 + 8 * (k + length (b # bs))) :: u8" and ?re = "of_nat (6 + 8 * k) :: u8"
  have re: "unat ?re = 6 + 8 * k" using Cons.prems(2) by (intro unat_of_nat_u8) simp
  have lt: "?re < ?sz" using Cons.prems(2) by (subst less_of_nat_u8) simp_all
  have rest: "bytes_at skb (ptr + 2 + 8 * Suc k) (concat (map (\<lambda>(l, r). be_bytes l @ be_bytes r) bs))"
    and at: "bytes_at skb (ptr + 6 + 8 * k) (be_bytes r)"
    using Cons.prems(1) by (simp_all add: b bytes_at_append algebra_simps)
  from at obtain b0 b1 b2 b3 where rd: "rd8 skb (ptr + unat ?re) = Some b0"
    "rd8 skb (ptr + unat ?re + 1) = Some b1" "rd8 skb (ptr + unat ?re + 2) = Some b2"
    "rd8 skb (ptr + unat ?re + 3) = Some b3" and r: "mk32 (mk16 b0 b1) (mk16 b2 b3) = r"
    unfolding re by (rule rd_be_bytes) (simp add: add.assoc)
  have step: "?re + TCPOLEN_SACK_PERBLOCK = of_nat (6 + 8 * Suc k)"
    by (simp add: TCPOLEN_SACK_PERBLOCK_def)
  have "sack_blocks skb ptr ?sz ?re sack =
      sack_blocks skb ptr ?sz (of_nat (6 + 8 * Suc k)) (if sack < r then r else sack)"
    by (subst sack_blocks.simps) (simp only: lt rd r step if_True bind.bind_lunit Let_def)
  also have "(if sack < r then r else sack) = max r sack" by (auto simp: max_def)
  also have "sack_blocks skb ptr ?sz (of_nat (6 + 8 * Suc k)) (max r sack) =
      Some (fold max (map snd bs) (max r sack))"
    using Cons.IH [OF rest, of "max r sack"] Cons.prems(2) by simp
  finally show ?case by (simp add: b)
qed

lemma fold_max_ge: "(x :: u32) \<le> fold max xs x"
  by (induction xs arbitrary: x) (auto intro: order_trans [OF max.cobounded2])

lemma fold_max_start: "fold max xs (x :: u32) = max x (fold max xs 0)"
proof (induction xs arbitrary: x)
  case (Cons y ys)
  show ?case
    using Cons [of "max y x"] Cons [of "max y 0"] by (simp add: ac_simps max.commute)
qed simp

section \<open>The loop over the options\<close>

lemma unat_size_mod8: "(of_nat (2 + 8 * n) - 2) mod TCPOLEN_SACK_PERBLOCK = (0 :: u8)"
  if "2 + 8 * n < 256"
proof -
  have "of_nat (2 + 8 * n) - 2 = (of_nat (8 * n) :: u8)" by simp
  then have "unat ((of_nat (2 + 8 * n) - 2) mod TCPOLEN_SACK_PERBLOCK :: u8) = 0"
    using that by (simp only: unat_mod unat_of_nat_u8) (simp add: TCPOLEN_SACK_PERBLOCK_def unat_of_nat_u8)
  then show ?thesis by (simp add: unat_eq_zero)
qed

theorem sack_options_encoded:
  assumes "bytes_at skb (th + unat len) (concat (map opt_bytes opts) @ rest)"
    and "\<forall>q\<in>set opts. opt_wf q"
    and "unat len + length (concat (map opt_bytes opts) @ rest) = unat data_offs"
    and "unat data_offs \<le> 60" and "rest = [] \<or> hd rest = TCPOPT_EOL"
  shows "sack_options skb th data_offs len ack = Some (True, fold opt_ack opts ack)"
  using assms
proof (induction opts arbitrary: len ack)
  case Nil
  show ?case
  proof (cases rest)
    case r: Nil
    then have "\<not> len < data_offs" using Nil by (simp add: word_less_nat_alt)
    then show ?thesis by (subst sack_options.simps) simp
  next
    case r: (Cons x xs)
    then have "len < data_offs" "rd8 skb (th + unat len) = Some TCPOPT_EOL"
      using Nil by (simp_all add: word_less_nat_alt)
    then show ?thesis
      by (subst sack_options.simps) (simp add: tcpopt_defs)
  qed
next
  case (Cons q opts)
  let ?tail = "concat (map opt_bytes opts) @ rest"
  have wf: "opt_wf q" and wfs: "\<forall>q\<in>set opts. opt_wf q" using Cons.prems(2) by auto
  have at: "bytes_at skb (th + unat len) (opt_bytes q)"
    and at': "bytes_at skb (th + unat len + length (opt_bytes q)) ?tail"
    using Cons.prems(1) by (simp_all add: bytes_at_append)
  have sum: "unat len + length (opt_bytes q) + length ?tail = unat data_offs"
    using Cons.prems(3) by simp
  have next_step: "sack_options skb th data_offs (len + n) a = Some (True, fold opt_ack opts a)"
    if "unat n = length (opt_bytes q)" for n a
  proof -
    have "unat (len + n) = unat len + length (opt_bytes q)"
      using that sum Cons.prems(4) by (simp add: unat_word_ariths)
    then show ?thesis
      using at' sum wfs Cons.prems(4,5) by (intro Cons.IH) (simp_all add: add.assoc)
  qed
  have lt: "len < data_offs"
    using sum by (cases q) (simp_all add: word_less_nat_alt)
  show ?case
  proof (cases q)
    case Nop
    then have "rd8 skb (th + unat len) = Some TCPOPT_NOP" using at by (simp)
    with lt next_step [of 1 ack] Nop show ?thesis
      by (subst sack_options.simps) simp
  next
    case (Sack bs)
    let ?sz = "of_nat (2 + 8 * length bs) :: u8"
    have len: "length (opt_bytes q) = 2 + 8 * length bs" by (simp add: Sack)
    have small: "2 + 8 * length bs \<le> 60" using sum Cons.prems(4) len by simp
    have sz: "unat ?sz = 2 + 8 * length bs" using small by (simp only: unat_of_nat_u8)
    have rd: "rd8 skb (th + unat len) = Some TCPOPT_SACK" "rd8 skb (th + unat len + 1) = Some ?sz"
      and blk: "bytes_at skb (th + unat len + 2) (concat (map (\<lambda>(l, r). be_bytes l @ be_bytes r) bs))"
      using at by (simp_all add: Sack add.assoc)
    have "0 < length bs" using wf Sack by simp
    then have g1: "\<not> ?sz < 2 + TCPOLEN_SACK_PERBLOCK"
      using sz by (simp add: word_less_nat_alt TCPOLEN_SACK_PERBLOCK_def)
    have g2: "(?sz - 2) mod TCPOLEN_SACK_PERBLOCK = 0" using small by (intro unat_size_mod8) simp
    have us: "unat (ucast ?sz :: u32) = 2 + 8 * length bs"
      using sz small by (simp add: unsigned_ucast_eq take_bit_nat_eq_self)
    have "unat (data_offs - len) = unat data_offs - unat len"
      using lt by (simp add: unat_sub word_less_nat_alt word_le_nat_alt)
    then have g3: "\<not> data_offs - len < ucast ?sz"
      using us sum len by (simp add: word_less_nat_alt)
    have blocks: "sack_blocks skb (th + unat len) ?sz 6 0 = Some (fold max (map snd bs) 0)"
      using sack_blocks_bytes [of skb "th + unat len" 0 bs 0] blk small by simp
    have "(if ack < fold max (map snd bs) 0 then fold max (map snd bs) 0 else ack) = fold max (map snd bs) ack"
      by (subst fold_max_start) (auto simp: max_def)
    with lt rd g1 g2 g3 blocks next_step [of "ucast ?sz"] us len Sack show ?thesis
      by (subst sack_options.simps) (simp add: tcpopt_defs)
  next
    case (Other k d)
    let ?sz = "of_nat (2 + length d) :: u8"
    have len: "length (opt_bytes q) = 2 + length d" by (simp add: Other)
    have small: "2 + length d \<le> 60" using sum Cons.prems(4) len by simp
    have sz: "unat ?sz = 2 + length d" using small by (simp only: unat_of_nat_u8)
    have rd: "rd8 skb (th + unat len) = Some k" "rd8 skb (th + unat len + 1) = Some ?sz"
      using at by (simp_all add: Other add.assoc)
    have g: "\<not> ?sz < 2" using sz by (simp add: word_less_nat_alt)
    have us: "unat (ucast ?sz :: u32) = 2 + length d"
      using sz small by (simp add: unsigned_ucast_eq take_bit_nat_eq_self)
    show ?thesis
      using lt rd g next_step [of "ucast ?sz"] us len wf Other
      by (subst sack_options.simps) simp
  qed
qed

section \<open>The fast exit\<close>

text \<open>A header with nothing but a timestamp: the loop over the options gives the same result.\<close>

lemma only_timestamp_loop:
  assumes "only_timestamp skb (th + 20) data_offs = Some True"
  shows "sack_options skb th data_offs 20 ack = Some (True, ack)"
proof -
  have d: "data_offs = 32" and r0: "rd8 skb (th + 20) = Some TCPOPT_NOP"
    and r1: "rd8 skb (21 + th) = Some TCPOPT_NOP" and r2: "rd8 skb (22 + th) = Some TCPOPT_TIMESTAMP"
    and r3: "rd8 skb (23 + th) = Some TCPOLEN_TIMESTAMP"
    using assms
    by (auto simp: only_timestamp_def bind_eq_Some_conv SIZEOF_TCP_HDR_def TCPOLEN_TIMESTAMP_def
        split: if_splits)
  note rd = r0 r1 [unfolded add.commute [of 21]] r2 [unfolded add.commute [of 22]]
    r3 [unfolded add.commute [of 23]]
  have "sack_options skb th data_offs 20 ack = sack_options skb th data_offs 21 ack"
    using rd(1) by (subst sack_options.simps) (simp add: d)
  also have "\<dots> = sack_options skb th data_offs 22 ack"
    using rd(2) by (subst sack_options.simps) (simp add: d)
  also have "\<dots> = sack_options skb th data_offs 32 ack"
    using rd(3) r3 by (subst sack_options.simps) (simp add: d tcpopt_defs)
  also have "\<dots> = Some (True, ack)"
    by (subst sack_options.simps) (simp add: d)
  finally show ?thesis .
qed

lemma process_sack_loop:
  assumes "sfe_ipv4_process_tcp_option_sack skb th data_offs ack = Some r"
  shows "sack_options skb th data_offs 20 ack = Some r"
  using assms only_timestamp_loop [of skb th data_offs ack]
  by (auto simp: sfe_ipv4_process_tcp_option_sack_def SIZEOF_TCP_HDR_def bind_eq_Some_conv split: if_splits)

section \<open>How far the parser reads\<close>

lemma rd8_in: "i < unat (skb_headlen skb) \<Longrightarrow> rd8 skb i = Some (skb_bytes skb i)"
  by (simp add: rd8_def)

lemma sack_blocks_total:
  assumes "ptr + 2 + 8 * (k + n) \<le> unat (skb_headlen skb)" and "2 + 8 * (k + n) < 250"
  shows "\<exists>v. sack_blocks skb ptr (of_nat (2 + 8 * (k + n))) (of_nat (6 + 8 * k)) sack = Some v"
  using assms
proof (induction n arbitrary: k sack)
  case 0
  then show ?case by (subst sack_blocks.simps, subst less_of_nat_u8) simp_all
next
  case (Suc n)
  let ?re = "of_nat (6 + 8 * k) :: u8"
  have re: "unat ?re = 6 + 8 * k" using Suc.prems(2) by (intro unat_of_nat_u8) simp
  have lt: "?re < of_nat (2 + 8 * (k + Suc n))" using Suc.prems(2) by (subst less_of_nat_u8) simp_all
  have step: "?re + TCPOLEN_SACK_PERBLOCK = of_nat (6 + 8 * Suc k)"
    by (simp add: TCPOLEN_SACK_PERBLOCK_def)
  have rd: "rd8 skb (ptr + unat ?re) = Some (skb_bytes skb (ptr + unat ?re))"
    "rd8 skb (ptr + unat ?re + 1) = Some (skb_bytes skb (ptr + unat ?re + 1))"
    "rd8 skb (ptr + unat ?re + 2) = Some (skb_bytes skb (ptr + unat ?re + 2))"
    "rd8 skb (ptr + unat ?re + 3) = Some (skb_bytes skb (ptr + unat ?re + 3))"
    using Suc.prems by (intro rd8_in; simp only: re; simp)+
  have "\<exists>v. sack_blocks skb ptr (of_nat (2 + 8 * (k + Suc n))) (of_nat (6 + 8 * Suc k)) a = Some v" for a
    using Suc.IH [of "Suc k" a] Suc.prems by simp
  then show ?case
    by (subst sack_blocks.simps) (simp only: lt rd step if_True bind.bind_lunit Let_def)
qed

lemma sack_size:
  assumes "\<not> sz < 2 + TCPOLEN_SACK_PERBLOCK" and "(sz - 2) mod TCPOLEN_SACK_PERBLOCK = 0"
  obtains n where "unat sz = 2 + 8 * n"
proof -
  have ge: "10 \<le> unat sz" using assms(1) by (simp add: word_less_nat_alt TCPOLEN_SACK_PERBLOCK_def)
  then have "unat (sz - 2) = unat sz - 2" by (simp add: unat_sub word_le_nat_alt)
  moreover have "unat (sz - 2) mod 8 = 0"
    using arg_cong [OF assms(2), of unat] by (simp add: unat_mod TCPOLEN_SACK_PERBLOCK_def)
  ultimately have "8 dvd unat sz - 2" by (simp add: dvd_eq_mod_eq_0)
  then obtain n where "unat sz - 2 = 8 * n" ..
  with ge show thesis by (intro that [of n]) simp
qed

text \<open>
  The parser reads the length byte of an option before it knows whether the header has one. Options are
  closed if the last one is not a kind byte that lacks its length.
\<close>

fun options_closed :: "u8 list \<Rightarrow> bool" where
  "options_closed [] \<longleftrightarrow> True"
| "options_closed (kind # xs) \<longleftrightarrow>
     (if kind = TCPOPT_NOP then options_closed xs
      else if kind = TCPOPT_EOL then True
      else (case xs of [] \<Rightarrow> False | sz # _ \<Rightarrow> sz < 2 \<or> options_closed (drop (unat sz - 1) xs)))"

text \<open>
  The parser stays in the linear area: the TCP header at \<open>th\<close>, \<open>n\<close> bytes long by its own account, has no
  options, or they are in the linear area, with one more byte or closed.
\<close>

definition options_readable :: "sk_buff \<Rightarrow> nat \<Rightarrow> nat \<Rightarrow> bool" where
  "options_readable skb th n \<longleftrightarrow> n \<le> 20 \<or> th + n < unat (skb_headlen skb) \<or>
     th + n = unat (skb_headlen skb) \<and> options_closed (map (skb_bytes skb) [th + 20..<th + n])"

lemma sack_options_readable:
  assumes "th + unat data_offs \<le> unat (skb_headlen skb)" and "unat data_offs \<le> 60"
    and "th + unat data_offs < unat (skb_headlen skb) \<or>
      options_closed (map (skb_bytes skb) [th + unat len..<th + unat data_offs])"
  shows "\<exists>r. sack_options skb th data_offs len ack = Some r"
  using assms(3)
proof (induction "unat data_offs - unat len" arbitrary: len ack rule: less_induct)
  case less
  show ?case
  proof (cases "len < data_offs")
    case False
    then have "sack_options skb th data_offs len ack = Some (True, ack)"
      by (subst sack_options.simps) simp
    then show ?thesis by blast
  next
    case lt: True
    then have l: "unat len < unat data_offs" by (simp add: word_less_nat_alt)
    let ?more = "th + unat data_offs < unat (skb_headlen skb)"
    let ?opts = "\<lambda>i. map (skb_bytes skb) [th + i..<th + unat data_offs]"
    have add: "unat (len + n) = unat len + unat n" if "unat n < 256" for n
      using l that assms(2) by (simp add: unat_word_ariths)
    have go: "\<exists>r. sack_options skb th data_offs (len + n) a = Some r"
      if "0 < unat n" "unat n < 256" "?more \<or> options_closed (?opts (unat len + unat n))" for n a
      using l that add [OF that(2)] by (intro less(1)) simp_all
    define kind where "kind = skb_bytes skb (th + unat len)"
    define sz where "sz = skb_bytes skb (th + unat len + 1)"
    have rdk: "rd8 skb (th + unat len) = Some kind" using l assms(1) by (simp add: rd8_def kind_def)
    have cons: "?opts (unat len) = kind # ?opts (unat len + 1)"
      using l by (simp add: upt_conv_Cons kind_def)
    have cons2: "?opts (unat len + 1) = sz # ?opts (unat len + 2)" if "unat len + 1 < unat data_offs"
      using that by (simp add: upt_conv_Cons sz_def)
    have drop: "drop i (?opts (unat len + 1)) = ?opts (unat len + 1 + i)" for i
      by (simp add: drop_map add.assoc)
    have nop: "?more \<or> options_closed (?opts (unat len + 1))" if "kind = TCPOPT_NOP"
      using less(2) that by (simp add: cons)
    have other: "rd8 skb (th + unat len + 1) = Some sz"
      "\<not> sz < 2 \<Longrightarrow> ?more \<or> options_closed (?opts (unat len + unat sz))"
      if "kind \<noteq> TCPOPT_NOP" "kind \<noteq> TCPOPT_EOL"
    proof -
      have len: "?more \<or> unat len + 1 < unat data_offs"
        using less(2) that by (cases "unat len + 1 < unat data_offs") (simp_all add: cons)
      then show "rd8 skb (th + unat len + 1) = Some sz" using l assms(1) by (auto simp: rd8_def sz_def)
      assume sz: "\<not> sz < 2"
      then have "unat len + 1 + (unat sz - 1) = unat len + unat sz" by (simp add: word_less_nat_alt)
      then show "?more \<or> options_closed (?opts (unat len + unat sz))"
        using less(2) len that sz drop [of "unat sz - 1"] cons2 by (auto simp: cons)
    qed
    have us: "unat (ucast sz :: u32) = unat sz" and s256: "unat sz < 256"
      using unsigned_less [of sz, where ?'a = nat] by (simp_all add: unsigned_ucast_eq take_bit_nat_eq_self)
    have dl: "unat (data_offs - len) = unat data_offs - unat len"
      using lt by (simp add: unat_sub word_less_nat_alt word_le_nat_alt)
    show ?thesis
    proof (cases "kind = TCPOPT_SACK")
      case k: True
      then have ko: "kind \<noteq> TCPOPT_NOP" "kind \<noteq> TCPOPT_EOL" by (simp_all add: tcpopt_defs)
      note rd = rdk other(1) [OF ko]
      show ?thesis
      proof (cases "sz < 2 + TCPOLEN_SACK_PERBLOCK \<or> (sz - 2) mod TCPOLEN_SACK_PERBLOCK \<noteq> 0 \<or>
          data_offs - len < ucast sz")
        case True
        with lt rd k show ?thesis by (subst sack_options.simps) (auto simp: tcpopt_defs)
      next
        case False
        then have "\<not> sz < 2 + TCPOLEN_SACK_PERBLOCK" "(sz - 2) mod TCPOLEN_SACK_PERBLOCK = 0"
          by blast+
        then obtain n where n: "unat sz = 2 + 8 * n" by (rule sack_size)
        have fit: "unat sz \<le> unat data_offs - unat len"
          using False us dl by (simp add: word_less_nat_alt)
        have "sz = of_nat (unat sz)" by simp
        then have "sz = of_nat (2 + 8 * n)" by (simp only: n)
        moreover have "th + unat len + 2 + 8 * (0 + n) \<le> unat (skb_headlen skb)" "2 + 8 * (0 + n) < 250"
          using fit l assms by (simp_all add: n)
        ultimately obtain v where v: "sack_blocks skb (th + unat len) sz 6 0 = Some v"
          using sack_blocks_total [of "th + unat len" 0 n skb 0] by auto
        have "0 < unat (ucast sz :: u32)" "unat (ucast sz :: u32) < 256" "\<not> sz < 2"
          using us s256 n False by (simp_all add: word_less_nat_alt TCPOLEN_SACK_PERBLOCK_def)
        from lt rd k False v go [OF this(1,2)] other(2) [OF ko this(3)] us show ?thesis
          by (subst sack_options.simps) (auto simp: tcpopt_defs)
      qed
    next
      case False
      have "\<exists>r. sack_options skb th data_offs (len + ucast sz) ack = Some r"
        if "kind \<noteq> TCPOPT_NOP" "kind \<noteq> TCPOPT_EOL" "\<not> sz < 2"
        using that us s256 other(2) [OF that] by (intro go) (simp_all add: word_less_nat_alt)
      moreover have "\<exists>r. sack_options skb th data_offs (len + 1) ack = Some r" if "kind = TCPOPT_NOP"
        using nop [OF that] by (intro go) simp_all
      ultimately show ?thesis
        using lt rdk other(1) False by (subst sack_options.simps) (auto simp: Let_def)
    qed
  qed
qed

theorem process_sack_readable:
  assumes "options_readable skb th (unat data_offs)" and "20 \<le> unat data_offs" and "unat data_offs \<le> 60"
  shows "\<exists>r. sfe_ipv4_process_tcp_option_sack skb th data_offs ack = Some r"
proof (cases "unat data_offs = 20")
  case True
  then have "data_offs = 20" by (simp add: word_unat_eq_iff)
  then have "sack_options skb th data_offs 20 ack = Some (True, ack)" "only_timestamp skb (th + 20) data_offs = Some False"
    by (subst sack_options.simps, simp_all add: only_timestamp_def SIZEOF_TCP_HDR_def TCPOLEN_TIMESTAMP_def)
  then show ?thesis by (intro exI [of _ "(True, ack)"]) (simp add: sfe_ipv4_process_tcp_option_sack_def SIZEOF_TCP_HDR_def)
next
  case False
  then have le: "th + unat data_offs \<le> unat (skb_headlen skb)" using assms(1,2) by (auto simp: options_readable_def)
  have "\<exists>ts. only_timestamp skb (th + 20) data_offs = Some ts"
    using le by (auto simp: only_timestamp_def rd8_def SIZEOF_TCP_HDR_def TCPOLEN_TIMESTAMP_def)
  moreover have "\<exists>r. sack_options skb th data_offs 20 ack = Some r"
    using assms False by (intro sack_options_readable [OF le assms(3)]) (auto simp: options_readable_def)
  ultimately show ?thesis by (auto simp: sfe_ipv4_process_tcp_option_sack_def SIZEOF_TCP_HDR_def)
qed

lemma options_readable_pulled:
  assumes "options_readable skb th n" and "unat (skb_headlen skb) \<le> unat (skb_headlen skb')"
    and "unat (skb_headlen skb) \<le> unat (skb_len skb)" and "same_packet skb skb'"
  shows "options_readable skb' th n"
proof -
  have "map (skb_bytes skb') [th + 20..<th + n] = map (skb_bytes skb) [th + 20..<th + n]"
    if "th + n = unat (skb_headlen skb)"
    using that assms(3) same_packetD(2) [OF assms(4)] by simp
  with assms(1,2) show ?thesis unfolding options_readable_def by (metis le_neq_implies_less less_le_trans)
qed

lemma process_sack_total:
  assumes "th + unat data_offs < unat (skb_headlen skb)" and "20 \<le> unat data_offs" and "unat data_offs \<le> 60"
  shows "\<exists>r. sfe_ipv4_process_tcp_option_sack skb th data_offs ack = Some r"
  using assms by (intro process_sack_readable) (simp_all add: options_readable_def)

section \<open>Windows move forward\<close>

lemma tcp_advance_forward:
  assumes "u = tcp_advance own counter end_seq sack ack window"
  shows "max_win own \<le> max_win (upd_own u)"
    and "0 \<le> sint (tcp_end (upd_own u) - tcp_end own)"
    and "0 \<le> sint (upd_counter_max_end u - max_end counter)"
    and "win_scale (upd_own u) = win_scale own"
    and "max_end (upd_own u) = max_end own"
  using assms by (auto simp: tcp_advance_def Let_def)

end
