(* ===== verification/Sfe_Recv_Inv.thy ===== *)
theory Sfe_Recv_Inv
  imports Sfe_Recv Sfe_Rule_Ops Sfe_Tcp_Props
begin

text \<open>
  Every handler of the packet path keeps the invariant of the engine. \<open>handles\<close> is the contract of a
  handler: if it returns, the connection it took out of the tables is pending and was one of the
  tables, no other connection came or went, and exactly one of the two packet counters went up by one.
\<close>

section \<open>The contract\<close>

definition pend_list :: "conn_ptr option \<Rightarrow> conn_ptr list" where
  "pend_list c = (case c of None \<Rightarrow> [] | Some c \<Rightarrow> [c])"

lemma pend_list_simps [simp]: "pend_list None = []" "pend_list (Some c) = [c]"
  by (simp_all add: pend_list_def)

text \<open>The counters and keys a handler has not changed yet.\<close>

definition quiet :: "sfe_ipv4 \<Rightarrow> sfe_abs \<Rightarrow> sfe_ipv4 \<Rightarrow> sfe_abs \<Rightarrow> bool" where
  "quiet s A t B \<longleftrightarrow> connl B = connl A \<and> conn_key t = conn_key s \<and> conns t = conns s \<and>
     packets_forwarded t = packets_forwarded s \<and> packets_not_forwarded t = packets_not_forwarded s \<and>
     sync_calls t = sync_calls s \<and> sync_rule_callback t = sync_rule_callback s"

lemma quiet_refl [simp]: "quiet s A s A"
  by (simp add: quiet_def)

lemma quiet_trans: "quiet s A t B \<Longrightarrow> quiet t B u C \<Longrightarrow> quiet s A u C"
  by (simp add: quiet_def)

fun counted :: "recv_outcome \<Rightarrow> conn_ptr option \<Rightarrow> sfe_ipv4 \<Rightarrow> sfe_ipv4 \<Rightarrow> bool" where
  "counted (Forwarded skb) c s t \<longleftrightarrow> c = None \<and> packets_forwarded t = packets_forwarded s + 1 \<and>
     packets_not_forwarded t = packets_not_forwarded s"
| "counted (NotForwarded skb) c s t \<longleftrightarrow> packets_forwarded t = packets_forwarded s \<and>
     packets_not_forwarded t = packets_not_forwarded s + 1"
| "counted SkbFreed c s t \<longleftrightarrow> packets_forwarded t = packets_forwarded s \<and>
     packets_not_forwarded t = packets_not_forwarded s + 1"

fun taken_out :: "conn_ptr option \<Rightarrow> sfe_abs \<Rightarrow> sfe_abs \<Rightarrow> bool" where
  "taken_out None A B \<longleftrightarrow> connl B = connl A"
| "taken_out (Some c) A B \<longleftrightarrow> c \<in> set (connl A) \<and> connl B = remove1 c (connl A)"

definition handled :: "sfe_env \<Rightarrow> (netdev \<Rightarrow> int) \<Rightarrow> sfe_ipv4 \<Rightarrow> sfe_abs \<Rightarrow> conn_ptr list \<Rightarrow>
  recv_result \<Rightarrow> bool" where
  "handled E base s A D x \<longleftrightarrow>
     (case x of (out, c, t) \<Rightarrow> \<exists>B. engine_inv E base t B (pend_list c @ D) \<and> taken_out c A B \<and>
        conn_key t = conn_key s \<and> conns t = conns s \<and> sync_calls t = sync_calls s \<and>
        sync_rule_callback t = sync_rule_callback s \<and> counted out c s t)"

definition handles :: "sfe_env \<Rightarrow> (netdev \<Rightarrow> int) \<Rightarrow> sfe_ipv4 \<Rightarrow> sfe_abs \<Rightarrow> conn_ptr list \<Rightarrow>
  recv_result option \<Rightarrow> bool" where
  "handles E base s A D r \<longleftrightarrow> (\<forall>x. r = Some x \<longrightarrow> handled E base s A D x)"

named_theorems handles \<open>contract of the parts of a handler\<close>

lemma handles_Some: "handled E base s A D x \<Longrightarrow> handles E base s A D (Some x)"
  by (simp add: handles_def)

lemma handles_bind: "(\<And>x. m = Some x \<Longrightarrow> handles E base s A D (f x)) \<Longrightarrow> handles E base s A D (m \<bind> f)"
  by (cases m) (simp_all add: handles_def)

lemma handles_if:
  "(b \<Longrightarrow> handles E base s A D x) \<Longrightarrow> (\<not> b \<Longrightarrow> handles E base s A D y) \<Longrightarrow>
   handles E base s A D (if b then x else y)"
  by simp

lemma handles_option:
  "(z = None \<Longrightarrow> handles E base s A D x) \<Longrightarrow> (\<And>v. z = Some v \<Longrightarrow> handles E base s A D (y v)) \<Longrightarrow>
   handles E base s A D (case z of None \<Rightarrow> x | Some v \<Rightarrow> y v)"
  by (cases z) simp_all

lemma handles_sum:
  "(\<And>e. z = Inl e \<Longrightarrow> handles E base s A D (x e)) \<Longrightarrow> (\<And>v. z = Inr v \<Longrightarrow> handles E base s A D (y v)) \<Longrightarrow>
   handles E base s A D (case z of Inl e \<Rightarrow> x e | Inr v \<Rightarrow> y v)"
  by (cases z) simp_all

lemmas handles_control = handles_bind handles_if handles_option handles_sum

section \<open>Ends of a handler\<close>

lemma reject_handled:
  assumes "engine_inv E base t B D" and "quiet s A t B"
  shows "handled E base s A D (reject e skb t)"
  using engine_counter(5) [OF assms(1)] assms(2)
  by (auto simp: handled_def reject_def count_exception_def quiet_def conn_key_def fun_eq_iff Let_def
      intro!: exI [of _ B])

lemma pass_slow_handled:
  assumes "engine_inv E base t B D" and "quiet s A t B"
  shows "handled E base s A D (pass_slow skb t)"
  using engine_counter(6) [OF assms(1)] assms(2)
  by (auto simp: handled_def pass_slow_def quiet_def conn_key_def fun_eq_iff Let_def intro!: exI [of _ B])

lemma freed_handled:
  assumes "engine_inv E base t B D" and "quiet s A t B"
  shows "handled E base s A D (SkbFreed, None, count_exception e t)"
  using engine_counter(5) [OF assms(1)] assms(2)
  by (auto simp: handled_def count_exception_def quiet_def conn_key_def fun_eq_iff Let_def
      intro!: exI [of _ B])

lemma match_owner:
  assumes "engine_inv E base t B D" and "p \<in> table_matches t (connl B)"
  shows "cm_connection (cms t p) \<in> set (connl B)"
    and "p \<in> conn_matches t (cm_connection (cms t p))"
proof -
  obtain c where c: "c \<in> set (connl B)" "p \<in> conn_matches t c"
    using assms(2) by (auto simp: table_matches_def)
  have "cm_connection (cms t p) = c"
    by (rule conn_matches_owner [OF table_inv_conn(1) [OF engine_table [OF assms(1)] c(1)] c(2)])
  with c show "cm_connection (cms t p) \<in> set (connl B)" "p \<in> conn_matches t (cm_connection (cms t p))"
    by simp_all
qed

lemma reject_flush_handled:
  assumes I: "engine_inv E base t B D" and q: "quiet s A t B" and p: "p \<in> table_matches t (connl B)"
  shows "handled E base s A D (reject_flush E p e skb t)"
proof -
  let ?c = "cm_connection (cms t p)"
  let ?u = "sfe_ipv4_remove_sfe_ipv4_connection E ?c t"
  have c: "?c \<in> set (connl B)" by (rule match_owner [OF I p])
  have "engine_inv E base (count_exception e ?u) (abs_remove E t ?c B) (?c # D)"
    unfolding count_exception_def by (rule engine_counter(5) [OF remove_engine [OF I c]])
  then show ?thesis using q c
    by (auto simp: handled_def reject_flush_def quiet_def count_exception_def conn_key_def fun_eq_iff Let_def
        intro!: exI [of _ "abs_remove E t ?c B"])
qed

lemmas handler_ends = reject_handled pass_slow_handled freed_handled reject_flush_handled

section \<open>Look-up\<close>

lemma find_engine:
  assumes I: "engine_inv E base s A D"
  obtains r t B where
    "sfe_ipv4_find_sfe_ipv4_connection_match E dev pr si sp di dp s = Some (r, t)"
    and "engine_inv E base t B D" and "quiet s A t B" and "cms t = cms s" and "conns t = conns s"
    and "\<And>p. r = Some p \<Longrightarrow> p \<in> table_matches t (connl B) \<and> match_key t p = (dev, pr, si, sp, di, dp)"
    and "r = None \<Longrightarrow> (dev, pr, si, sp, di, dp) \<notin> match_key s ` table_matches s (connl A)"
proof -
  note T = engine_table [OF I]
  let ?k = "(dev, pr, si, sp, di, dp)"
  obtain r t B where f: "find_match E ?k s = Some (r, t)"
    and J: "table_inv E t B D" and c: "same_but_chains s t" and B: "connl B = connl A"
    and hit: "\<And>p. r = Some p \<Longrightarrow> p \<in> tabled_matches s \<and> match_key s p = ?k"
    and miss: "\<And>p. r = None \<Longrightarrow> p \<in> tabled_matches s \<Longrightarrow> match_key s p \<noteq> ?k"
    by (rule find_match_cases [OF T, of ?k]) (rule that)
  note same = same_but_chainsD [OF c]
  have key: "conn_key t = conn_key s" by (rule conn_key_cong) (rule same)
  have "engine_inv E base t B D"
    using I J flow_ok_cong [OF same(1,2)] dev_uses_cong [OF same(2)]
    by (simp add: engine_inv_def refs_inv_def B same key)
  moreover have "quiet s A t B" by (simp add: quiet_def B same key)
  moreover have "table_matches t (connl B) = tabled_matches s"
    by (simp add: B table_inv_tabled [OF T]) (rule table_matches_cong, rule same)
  moreover have "match_key t = match_key s" by (rule same_but_chains_key [OF c])
  moreover have "?k \<notin> match_key s ` table_matches s (connl A)" if "r = None"
  proof
    assume "?k \<in> match_key s ` table_matches s (connl A)"
    then obtain p where "p \<in> table_matches s (connl A)" "match_key s p = ?k" by (metis imageE)
    with miss [OF that, of p] show False by (simp add: table_inv_tabled [OF T])
  qed
  ultimately show thesis
    using f hit same(1,2) by (intro that [of r t B]) (simp_all add: find_match_def)
qed

lemma handles_find:
  assumes I: "engine_inv E base s A D"
    and f: "\<And>r t B. engine_inv E base t B D \<Longrightarrow> quiet s A t B \<Longrightarrow>
      (\<And>p. r = Some p \<Longrightarrow> p \<in> table_matches t (connl B)) \<Longrightarrow> handles E base s A D (f (r, t))"
  shows "handles E base s A D
    (sfe_ipv4_find_sfe_ipv4_connection_match E dev pr si sp di dp s \<bind> f)"
proof (rule find_engine [OF I, of dev pr si sp di dp])
  fix r t B
  assume "sfe_ipv4_find_sfe_ipv4_connection_match E dev pr si sp di dp s = Some (r, t)"
    "engine_inv E base t B D" "quiet s A t B"
    "\<And>p. r = Some p \<Longrightarrow> p \<in> table_matches t (connl B) \<and> match_key t p = (dev, pr, si, sp, di, dp)"
  with f [of t B r] show ?thesis by simp
qed

section \<open>Counting and activating\<close>

lemma same_table_count: "same_table s (count_packet p len s)"
  unfolding count_packet_def by (rule same_table_upd_cm) (simp add: cm_static_def)

lemma activate_conv:
  "activate p s = (if match_active s p then s
     else act.enqueue p (s\<lparr>match_active := (match_active s)(p := True)\<rparr>))"
  by (simp add: activate_def act.enqueue_def Let_def setter_defs split: option.split)

lemma act_enqueue_frame [simp]:
  "cms (act.enqueue p s) = cms s" "conns (act.enqueue p s) = conns s"
  "match_active (act.enqueue p s) = match_active s"
  "match_next (act.enqueue p s) = match_next s" "match_prev (act.enqueue p s) = match_prev s"
  "conn_match_hash (act.enqueue p s) = conn_match_hash s"
  "conn_next (act.enqueue p s) = conn_next s" "conn_prev (act.enqueue p s) = conn_prev s"
  "conn_hash (act.enqueue p s) = conn_hash s"
  "all_next (act.enqueue p s) = all_next s" "all_prev (act.enqueue p s) = all_prev s"
  "all_connections_head (act.enqueue p s) = all_connections_head s"
  "all_connections_tail (act.enqueue p s) = all_connections_tail s"
  "num_connections (act.enqueue p s) = num_connections s"
  "cm_live (act.enqueue p s) = cm_live s" "conn_live (act.enqueue p s) = conn_live s"
  "sync_calls (act.enqueue p s) = sync_calls s" "dev_refcnt (act.enqueue p s) = dev_refcnt s"
  "sync_rule_callback (act.enqueue p s) = sync_rule_callback s"
  "packets_forwarded (act.enqueue p s) = packets_forwarded s"
  "packets_not_forwarded (act.enqueue p s) = packets_not_forwarded s"
  by (simp_all add: act.enqueue_def setter_defs Let_def split: option.split)

definition abs_activate :: "sfe_ipv4 \<Rightarrow> cm_ptr \<Rightarrow> sfe_abs \<Rightarrow> sfe_abs" where
  "abs_activate s p A = (if match_active s p then A else A\<lparr>actives := actives A @ [p]\<rparr>)"

lemma activate_inv:
  assumes I: "table_inv E s A D" and p: "p \<in> table_matches s (connl A)"
  shows "table_inv E (activate p s) (abs_activate s p A) D"
proof (cases "match_active s p")
  case False
  let ?s1 = "s\<lparr>match_active := (match_active s)(p := True)\<rparr>"
  let ?t = "act.enqueue p ?s1"
  have L: "lists_rep s A" using I by (simp add: table_inv_def)
  then have T: "act.trepr ?s1 (actives A)" by (simp add: lists_rep_def act.trepr_def)
  have new: "p \<notin> set (actives A)" and nil: "active_next ?s1 p = None"
    using I p False by (auto simp: table_inv_def)
  have "act.trepr ?t (actives A @ [p])" by (rule act.trepr_enqueue [OF T new nil])
  with L have L': "lists_rep ?t (A\<lparr>actives := actives A @ [p]\<rparr>)"
    by (simp add: lists_rep_def mch.repr_def cch.repr_def alls.trepr_def)
  have an: "active_next ?t q = None" if "q \<in> table_matches s (connl A)" "\<not> match_active ?t q" for q
  proof -
    from that I have "q \<notin> set (actives A)" "active_next s q = None"
      by (auto simp: table_inv_def split: if_splits)
    with act.nxt_enqueue [OF T, of q p] show ?thesis by simp
  qed
  have tm: "table_matches ?t cs = table_matches s cs" for cs by (rule table_matches_cong) simp
  have po: "pair_ok ?t d = pair_ok s d" for d by (simp add: pair_ok_def)
  have "set (actives A @ [p]) = {q \<in> table_matches s (connl A). match_active ?t q}"
    using I p by (auto simp: table_inv_def)
  with L' an I have "table_inv E ?t (A\<lparr>actives := actives A @ [p]\<rparr>) D"
    unfolding table_inv_def tm po by simp
  with False show ?thesis by (simp add: activate_conv abs_activate_def)
qed (use I in \<open>simp add: activate_conv abs_activate_def\<close>)

lemma activate_engine:
  assumes I: "engine_inv E base s A D" and p: "p \<in> table_matches s (connl A)"
  shows "engine_inv E base (activate p s) (abs_activate s p A) D"
    and "quiet s A (activate p s) (abs_activate s p A)"
proof -
  have f: "cms (activate p s) = cms s" "conns (activate p s) = conns s"
    "dev_refcnt (activate p s) = dev_refcnt s" "connl (abs_activate s p A) = connl A"
    by (simp_all add: activate_conv abs_activate_def)
  show "engine_inv E base (activate p s) (abs_activate s p A) D"
    using I activate_inv [OF engine_table [OF I] p] flow_ok_cong [OF f(1,2)] dev_uses_cong [OF f(2)]
      conn_key_cong [OF f(2)]
    by (simp add: engine_inv_def refs_inv_def f)
  show "quiet s A (activate p s) (abs_activate s p A)"
    using conn_key_cong [OF f(2)] by (simp add: quiet_def f) (simp add: activate_conv)
qed

lemma count_packet_engine:
  assumes I: "engine_inv E base s A D"
  shows "engine_inv E base (count_packet p len s) A D" and "quiet s A (count_packet p len s) A"
proof -
  show "engine_inv E base (count_packet p len s) A D"
    by (rule same_table_engine [OF I same_table_count]) (simp add: count_packet_def)
  have "conn_key (count_packet p len s) = conn_key s" by (rule same_table_conn_key [OF same_table_count])
  then show "quiet s A (count_packet p len s) A"
    by (simp add: quiet_def) (simp add: count_packet_def upd_cm_def)
qed

lemma transmit_conv: "udp_transmit = tcp_transmit"
  by (simp add: fun_eq_iff udp_transmit_def tcp_transmit_def)

lemma transmit_handled:
  assumes I: "engine_inv E base t B D" and q: "quiet s A t B" and p: "p \<in> table_matches t (connl B)"
  shows "handled E base s A D (tcp_transmit K p len skb t)"
proof -
  let ?t1 = "count_packet p len t"
  let ?u = "activate p ?t1" and ?C = "abs_activate ?t1 p B"
  note I1 = count_packet_engine [OF I, of p len]
  have p1: "p \<in> table_matches ?t1 (connl B)" using p same_table_matches(2) [OF same_table_count] by blast
  note I2 = activate_engine [OF I1(1) p1]
  have "quiet s A ?u ?C" by (rule quiet_trans [OF q quiet_trans [OF I1(2) I2(2)]])
  then show ?thesis using engine_counter(7) [OF I2(1), of "packets_forwarded ?u + 1"]
    by (auto simp: handled_def tcp_transmit_def quiet_def conn_key_def fun_eq_iff Let_def intro!: exI [of _ ?C])
qed

section \<open>The handlers\<close>

lemma forward_handles:
  assumes "engine_inv E base t B D" and "quiet s A t B" and "p \<in> table_matches t (connl B)"
  shows "handles E base s A D (udp_forward E K p len th ttl skb t)"
    and "handles E base s A D (tcp_forward E K p len th ttl skb t)"
  unfolding udp_forward_def tcp_forward_def transmit_conv
  by (intro handles_control handles_Some freed_handled [OF assms(1,2)] transmit_handled [OF assms])+

lemma seq_check_window:
  assumes "tcp_seq_check E skb th len own counter = Some (Inr u)"
  shows "win_scale (upd_own u) = win_scale own"
proof -
  obtain end_seq sack ack w where "u = tcp_advance own counter end_seq sack ack w"
    using assms by (auto simp: tcp_seq_check_def Let_def bind_eq_Some_conv split: if_splits option.splits)
  then show ?thesis by (rule tcp_advance_forward(4))
qed

lemma tcp_track_same:
  assumes "tcp_track E p len th skb t = Some (Inr u)"
  shows "same_table t u" and "dev_refcnt u = dev_refcnt t" and "quiet t B u B"
proof -
  let ?k = "cm_counter_match (cms t p)"
  have "same_table t u \<and> dev_refcnt u = dev_refcnt t \<and> quiet t B u B"
  proof (cases "has_flag (cm_flags (cms t p)) FLAG_NO_SEQ_CHECK")
    case True
    with assms show ?thesis by (simp add: tcp_track_def)
  next
    case False
    then obtain v where v: "tcp_seq_check E skb th len (cm_tcp (cms t p)) (cm_tcp (cms t ?k)) = Some (Inr v)"
      and u: "u = upd_cm ?k (\<lambda>m. m\<lparr>cm_tcp := (cm_tcp m)\<lparr>max_end := upd_counter_max_end v\<rparr>\<rparr>)
                (upd_cm p (\<lambda>m. m\<lparr>cm_tcp := upd_own v\<rparr>) t)"
    proof -
      obtain r where r: "tcp_seq_check E skb th len (cm_tcp (cms t p)) (cm_tcp (cms t ?k)) = Some r"
        using assms False by (auto simp: tcp_track_def Let_def bind_eq_Some_conv)
      show thesis
        using assms False r that by (cases r) (simp_all add: tcp_track_def Let_def)
    qed
    have "same_table t (upd_cm p (\<lambda>m. m\<lparr>cm_tcp := upd_own v\<rparr>) t)"
      using seq_check_window [OF v] by (intro same_table_upd_cm) (simp add: cm_static_def)
    also have "same_table \<dots> u"
      unfolding u by (rule same_table_upd_cm) (simp add: cm_static_def)
    finally have S: "same_table t u" .
    moreover have "dev_refcnt u = dev_refcnt t" by (simp add: u)
    moreover have "quiet t B u B"
      using same_table_conn_key [OF S] by (simp add: quiet_def) (simp add: u upd_cm_def)
    ultimately show ?thesis by blast
  qed
  then show "same_table t u" and "dev_refcnt u = dev_refcnt t" and "quiet t B u B" by simp_all
qed

lemma recv_udp_handles:
  assumes "engine_inv E base s A D"
  shows "handles E base s A D (sfe_ipv4_recv_udp E K skb dev len ihl flush s)"
proof -
  have q: "quiet s A s A" by simp
  show ?thesis
    unfolding sfe_ipv4_recv_udp_def Let_def
    by (intro handles_option handles_Some reject_handled [OF assms q] handles_bind handles_find [OF assms])
      (auto intro!: handles_control handles_Some handler_ends forward_handles(1) split: option.splits)
qed

lemma recv_tcp_handles:
  assumes "engine_inv E base s A D"
  shows "handles E base s A D (sfe_ipv4_recv_tcp E K skb dev len ihl flush s)"
proof -
  have q: "quiet s A s A" by simp
  have track: "handles E base s A D (case z of Inl e \<Rightarrow> Some (reject_flush E p e pkt t)
      | Inr u \<Rightarrow> tcp_forward E K p len th ttl pkt u)"
    if "engine_inv E base t B D" "quiet s A t B" "p \<in> table_matches t (connl B)"
      "tcp_track E p len th pkt t = Some z" for z t B p th ttl pkt
  proof (cases z)
    case (Inl e)
    then show ?thesis using that by (simp add: handles_Some reject_flush_handled)
  next
    case (Inr u)
    note f = tcp_track_same [OF that(4) [unfolded Inr]]
    have "engine_inv E base u B D" by (rule same_table_engine [OF that(1) f(1,2)])
    moreover have "p \<in> table_matches u (connl B)" using that(3) same_table_matches(2) [OF f(1)] by simp
    ultimately show ?thesis using forward_handles(2) [OF _ quiet_trans [OF that(2) f(3)]] Inr by simp
  qed
  show ?thesis
    unfolding sfe_ipv4_recv_tcp_def Let_def
    by (intro handles_option handles_Some reject_handled [OF assms q] handles_bind handles_find [OF assms])
      (auto intro!: handles_control(1,2) handles_Some handler_ends track split: option.splits)
qed

lemma icmp_flush_handles:
  assumes "engine_inv E base s A D"
  shows "handles E base s A D (icmp_flush E skb dev icmp_iph protocol src_port dest_port s)"
  unfolding icmp_flush_def
  by (intro handles_bind handles_find [OF assms])
    (auto intro!: handles_Some handler_ends split: option.splits)

lemma recv_icmp_handles:
  assumes "engine_inv E base s A D"
  shows "handles E base s A D (sfe_ipv4_recv_icmp E K skb dev ihl s)"
proof -
  have q: "quiet s A s A" by simp
  note r = handles_Some [OF reject_handled [OF assms q]]
  have tail: "handles E base s A D (case z of Inl e \<Rightarrow> Some (reject e skb s)
      | Inr (skb, src_port, dest_port) \<Rightarrow> icmp_flush E skb dev i protocol src_port dest_port s)"
    for z skb i protocol
    using r icmp_flush_handles [OF assms] by (auto split: sum.split)
  show ?thesis
    unfolding sfe_ipv4_recv_icmp_def Let_def
    by (intro handles_option handles_if handles_bind r tail)
qed

theorem recv_locked_handles:
  assumes "engine_inv E base s A D"
  shows "handles E base s A D (sfe_ipv4_recv_locked E K dev skb s)"
proof -
  have q: "quiet s A s A" by simp
  note r = handles_Some [OF reject_handled [OF assms q]]
  show ?thesis
    unfolding sfe_ipv4_recv_locked_def Let_def
    by (intro handles_option handles_if handles_bind r recv_udp_handles [OF assms]
        recv_tcp_handles [OF assms] recv_icmp_handles [OF assms])
qed

section \<open>The whole entry point\<close>

lemma flush_report_calls:
  "sync_calls (flush_report c reason sis now s) = sync_calls s @
     (case sync_rule_callback s of None \<Rightarrow> []
      | Some cb \<Rightarrow> [(cb, fst (sfe_ipv4_gen_sync_sfe_ipv4_connection c sis reason now
                    (s\<lparr>connection_flushes := connection_flushes s + 1\<rparr>)))])"
proof -
  obtain m t where "sfe_ipv4_gen_sync_sfe_ipv4_connection c sis reason now
      (s\<lparr>connection_flushes := connection_flushes s + 1\<rparr>) = (m, t)" by (cases rule: prod.exhaust)
  with gen_sync_frame(2) [OF this] show ?thesis
    by (simp add: flush_report_def call_sync_rule_def Let_def split: option.split)
qed

theorem recv_engine:
  assumes I: "engine_inv E base s A D" and r: "sfe_ipv4_recv E K dev skb sis now s = Some (out, t)"
  shows "\<exists>B. engine_inv E base t B D \<and> conn_key t = conn_key s \<and>
    (connl B = connl A \<or> (\<exists>c\<in>set (connl A). connl B = remove1 c (connl A)))"
proof -
  obtain c u where l: "sfe_ipv4_recv_locked E K dev skb s = Some (out, c, u)"
    and t: "t = flush_pending c sis now u"
    using r by (auto simp: sfe_ipv4_recv_def bind_eq_Some_conv)
  then obtain B where J: "engine_inv E base u B (pend_list c @ D)" and o: "taken_out c A B"
    and k: "conn_key u = conn_key s"
    using recv_locked_handles [OF I, of K dev skb] by (auto simp: handles_def handled_def)
  have "engine_inv E base t B D \<and> conn_key t = conn_key u"
    using J flush_engine [of E base u B] flush_flow(2)
    by (cases c) (simp_all add: t flush_pending_def)
  with o k show ?thesis by (cases c) auto
qed

end
