(* ===== verification/Sfe_Rewrite.thy ===== *)
theory Sfe_Rewrite
  imports Sfe_Recv Sfe_Rule_Inv
begin

text \<open>
  What the rewriting of a packet does: which bytes it may touch, the fields afterwards, a correct
  header checksum, and a transport checksum that is as right or wrong as it was before.
\<close>

section \<open>The header checksum\<close>

definition ip_word :: "sfe_env \<Rightarrow> sk_buff \<Rightarrow> nat \<Rightarrow> nat" where
  "ip_word E skb k = (case rd16 E skb (2 * k) of Some w \<Rightarrow> unat w | None \<Rightarrow> 0)"

text \<open>The sum over the twenty bytes of the header; it is right when it is a multiple of 65535.\<close>

definition ip_header_sum :: "sfe_env \<Rightarrow> sk_buff \<Rightarrow> nat" where
  "ip_header_sum E skb = (\<Sum>k<10. ip_word E skb k)"

lemma ip_header_sum_unfold:
  "ip_header_sum E skb = ip_word E skb 0 + ip_word E skb 1 + ip_word E skb 2 + ip_word E skb 3
     + ip_word E skb 4 + ip_word E skb 5 + ip_word E skb 6 + ip_word E skb 7 + ip_word E skb 8
     + ip_word E skb 9"
  by (simp add: ip_header_sum_def eval_nat_numeral)

lemma xor_ffff_not: "x XOR 0xffff = NOT (x :: u16)"
proof -
  have "(0xffff :: u16) = - 1" by simp
  then show ?thesis by (simp only: bit.xor_one_right)
qed

lemma sum10_16:
  fixes a b c d e f g h i j :: u16
  shows "unat ((ucast a :: u32) + ucast b + ucast c + ucast d + ucast e + ucast f + ucast g + ucast h
      + ucast i + ucast j) =
     unat a + unat b + unat c + unat d + unat e + unat f + unat g + unat h + unat i + unat j"
  using unat_lt_pow16 [of a] unat_lt_pow16 [of b] unat_lt_pow16 [of c] unat_lt_pow16 [of d]
    unat_lt_pow16 [of e] unat_lt_pow16 [of f] unat_lt_pow16 [of g] unat_lt_pow16 [of h]
    unat_lt_pow16 [of i] unat_lt_pow16 [of j]
  by (simp add: unat_add32 unat_ucast_16_32)

lemma csum_complement: "(n + unat (csum_fold s XOR 0xffff)) mod 65535 = 0" if "unat s = n"
proof -
  have "unat (csum_fold s) < 65536" by (rule unat_lt_pow16)
  then have "unat (csum_fold s XOR 0xffff) + unat (csum_fold s) = 65535"
    by (simp add: xor_ffff_not word_val)
  moreover have "(n + unat (csum_fold s XOR 0xffff)) mod 65535 =
      (unat (csum_fold s) + unat (csum_fold s XOR 0xffff)) mod 65535"
    using that by (intro mod_sum_eq) (simp_all add: csum_fold_mod)
  ultimately show ?thesis by (simp add: add.commute)
qed

lemma ip_word_Some: "rd16 E skb (2 * k) = Some w \<Longrightarrow> ip_word E skb k = unat w"
  by (simp add: ip_word_def)

lemma gen_ip_csum_total:
  assumes "20 \<le> unat (skb_headlen skb)"
  obtains s1 c s2 where "sfe_ipv4_gen_ip_csum E skb = Some (s1, c)" and "wr16 E s1 10 c = Some s2"
    and "patched {10, 11} skb s2" and "ip_header_sum E s2 mod 65535 = 0"
proof -
  obtain s1 where s1: "wr16 E skb 10 0 = Some s1"
    using assms wr16_total [of 10 skb E 0] by auto
  note p1 = wr16_patched [OF s1]
  have hl: "skb_headlen s1 = skb_headlen skb" using p1 by (rule patched_fields)
  have "\<exists>w. rd16 E s1 i = Some w" if "i \<le> 18" for i
    using assms that hl by (intro rd16_total) simp
  note ex = this
  obtain i0 where i0: "rd16 E s1 0 = Some i0" using ex [of 0] by auto
  obtain i1 where i1: "rd16 E s1 2 = Some i1" using ex [of 2] by auto
  obtain i2 where i2: "rd16 E s1 4 = Some i2" using ex [of 4] by auto
  obtain i3 where i3: "rd16 E s1 6 = Some i3" using ex [of 6] by auto
  obtain i4 where i4: "rd16 E s1 8 = Some i4" using ex [of 8] by auto
  obtain i6 where i6: "rd16 E s1 12 = Some i6" using ex [of 12] by auto
  obtain i7 where i7: "rd16 E s1 14 = Some i7" using ex [of 14] by auto
  obtain i8 where i8: "rd16 E s1 16 = Some i8" using ex [of 16] by auto
  obtain i9 where i9: "rd16 E s1 18 = Some i9" using ex [of 18] by auto
  note r = i0 i1 i2 i3 i4 i6 i7 i8 i9
  have r5: "rd16 E s1 10 = Some 0" using s1 by (rule rd16_wr16)
  define sm where "sm = (ucast i0 :: u32) + ucast i1 + ucast i2 + ucast i3 + ucast i4 + ucast (0 :: u16)
      + ucast i6 + ucast i7 + ucast i8 + ucast i9"
  define c where "c = csum_fold sm XOR 0xffff"
  have g: "sfe_ipv4_gen_ip_csum E skb = Some (s1, c)"
    by (simp add: sfe_ipv4_gen_ip_csum_def s1 r r5 c_def sm_def)
  obtain s2 where s2: "wr16 E s1 10 c = Some s2"
    using assms hl wr16_total [of 10 s1 E c] by auto
  note p2 = wr16_patched [OF s2]
  have keep: "rd16 E s2 i = rd16 E s1 i" if "i \<notin> {9, 10, 11}" for i
    using that by (intro patched_rd16 [OF p2]) auto
  have "ip_header_sum E s2 = unat i0 + unat i1 + unat i2 + unat i3 + unat i4 + unat c
      + unat i6 + unat i7 + unat i8 + unat i9"
    using rd16_wr16 [OF s2] by (simp add: ip_header_sum_unfold ip_word_def keep r)
  also have "\<dots> = unat sm + unat c" by (simp only: sm_def sum10_16) simp
  finally have "ip_header_sum E s2 mod 65535 = 0"
    using csum_complement [OF refl, of sm] by (simp only: c_def)
  moreover have "patched {10, 11} skb s2"
    using patched_trans [OF p1 p2] by simp
  ultimately show thesis using g s2 by (intro that)
qed

section \<open>Translation of one end\<close>

text \<open>Common form of the four translations: \<open>co\<close> is the place of the checksum in the transport header.\<close>

definition l4_check :: "bool \<Rightarrow> bool \<Rightarrow> u16 \<Rightarrow> u16 \<Rightarrow> u16 \<Rightarrow> u16" where
  "l4_check skip_zero partial ck padj adj =
     (if skip_zero \<and> ck = 0 then 0 else apply_adjustment ck (if partial then padj else adj))"

definition l4_xlate ::
  "sfe_env \<Rightarrow> bool \<Rightarrow> nat \<Rightarrow> nat \<Rightarrow> nat \<Rightarrow> u32 \<Rightarrow> u16 \<Rightarrow> u16 \<Rightarrow> u16 \<Rightarrow> sk_buff \<Rightarrow> sk_buff option" where
  "l4_xlate E skip_zero ao po co xip xport padj adj skb = do {
     skb \<leftarrow> wr32 E skb ao xip;
     skb \<leftarrow> wr16 E skb po xport;
     csum \<leftarrow> rd16 E skb co;
     (if skip_zero \<longrightarrow> csum \<noteq> 0
      then wr16 E skb co (apply_adjustment csum (if skb_partial skb then padj else adj))
      else Some skb)
   }"

lemma xlate_conv:
  "udp_xlate_src E m th skb =
     (if has_flag (cm_flags m) FLAG_XLATE_SRC
      then l4_xlate E True 12 th (th + 6) (xlate_src_ip m) (xlate_src_port m)
             (xlate_src_partial_csum_adjustment m) (xlate_src_csum_adjustment m) skb
      else Some skb)"
  "udp_xlate_dest E m th skb =
     (if has_flag (cm_flags m) FLAG_XLATE_DEST
      then l4_xlate E True 16 (th + 2) (th + 6) (xlate_dest_ip m) (xlate_dest_port m)
             (xlate_dest_partial_csum_adjustment m) (xlate_dest_csum_adjustment m) skb
      else Some skb)"
  "tcp_xlate_src E m th skb =
     (if has_flag (cm_flags m) FLAG_XLATE_SRC
      then l4_xlate E False 12 th (th + 16) (xlate_src_ip m) (xlate_src_port m)
             (xlate_src_partial_csum_adjustment m) (xlate_src_csum_adjustment m) skb
      else Some skb)"
  "tcp_xlate_dest E m th skb =
     (if has_flag (cm_flags m) FLAG_XLATE_DEST
      then l4_xlate E False 16 (th + 2) (th + 16) (xlate_dest_ip m) (xlate_dest_port m)
             (xlate_dest_partial_csum_adjustment m) (xlate_dest_csum_adjustment m) skb
      else Some skb)"
  by (simp_all add: udp_xlate_src_def udp_xlate_dest_def tcp_xlate_src_def tcp_xlate_dest_def
      l4_xlate_def)

lemma l4_xlate_spec:
  assumes len: "co + 1 < unat (skb_headlen skb)" and o: "ao + 3 < po" "po + 1 < co"
    and ck: "rd16 E skb co = Some ck"
  obtains skb' where "l4_xlate E sz ao po co xip xport padj adj skb = Some skb'"
    and "patched {ao, ao + 1, ao + 2, ao + 3, po, po + 1, co, co + 1} skb skb'"
    and "rd32 E skb' ao = Some xip" and "rd16 E skb' po = Some xport"
    and "rd16 E skb' co = Some (l4_check sz (skb_partial skb) ck padj adj)"
proof -
  obtain s1 where s1: "wr32 E skb ao xip = Some s1"
    using len o wr32_total [of ao skb E xip] by auto
  note p1 = wr32_patched [OF s1]
  obtain s2 where s2: "wr16 E s1 po xport = Some s2"
    using len o patched_fields(2) [OF p1] wr16_total [of po s1 E xport] by auto
  note p2 = wr16_patched [OF s2]
  note p12 = patched_trans [OF p1 p2]
  have ck2: "rd16 E s2 co = Some ck"
    using ck o patched_rd16 [OF p12, of co E] by auto
  let ?v = "apply_adjustment ck (if skb_partial s2 then padj else adj)"
  obtain s3 where s3: "wr16 E s2 co ?v = Some s3"
    using len patched_fields(2) [OF p12] wr16_total [of co s2 E ?v] by auto
  let ?s = "if sz \<longrightarrow> ck \<noteq> 0 then s3 else s2"
  have p3: "patched {co, co + 1} s2 ?s" using wr16_patched [OF s3] by simp
  have part: "skb_partial s2 = skb_partial skb" using p12 by (rule patched_fields)
  have "l4_xlate E sz ao po co xip xport padj adj skb = Some ?s"
    using s1 s2 ck2 s3 by (simp add: l4_xlate_def)
  moreover have "patched {ao, ao + 1, ao + 2, ao + 3, po, po + 1, co, co + 1} skb ?s"
    using patched_trans [OF p12 p3] by (rule patched_mono) auto
  moreover have "rd32 E ?s ao = Some xip"
  proof -
    have "rd32 E ?s ao = rd32 E s1 ao"
      using o by (intro patched_rd32 [OF patched_trans [OF p2 p3]]) auto
    then show ?thesis using rd32_wr32 [OF s1] by simp
  qed
  moreover have "rd16 E ?s po = Some xport"
  proof -
    have "rd16 E ?s po = rd16 E s2 po" using o by (intro patched_rd16 [OF p3]) auto
    then show ?thesis using rd16_wr16 [OF s2] by simp
  qed
  moreover have "rd16 E ?s co = Some (l4_check sz (skb_partial skb) ck padj adj)"
    using rd16_wr16 [OF s3] ck2 by (auto simp: l4_check_def part)
  ultimately show thesis by (rule that)
qed

section \<open>The transport checksum\<close>

text \<open>The checksum after both translations, and the addresses and ports.\<close>

definition rewritten_check :: "sfe_ipv4_connection_match \<Rightarrow> bool \<Rightarrow> bool \<Rightarrow> u16 \<Rightarrow> u16" where
  "rewritten_check m sz partial ck =
     (let c1 = (if has_flag (cm_flags m) FLAG_XLATE_SRC
                then l4_check sz partial ck (xlate_src_partial_csum_adjustment m) (xlate_src_csum_adjustment m)
                else ck)
      in if has_flag (cm_flags m) FLAG_XLATE_DEST
         then l4_check sz partial c1 (xlate_dest_partial_csum_adjustment m) (xlate_dest_csum_adjustment m)
         else c1)"

lemma eff_src_ip: "fst (eff_src m) = (if has_flag (cm_flags m) FLAG_XLATE_SRC then xlate_src_ip m else match_src_ip m)"
  and eff_src_port: "snd (eff_src m) = (if has_flag (cm_flags m) FLAG_XLATE_SRC then xlate_src_port m else match_src_port m)"
  and eff_dest_ip: "fst (eff_dest m) = (if has_flag (cm_flags m) FLAG_XLATE_DEST then xlate_dest_ip m else match_dest_ip m)"
  and eff_dest_port: "snd (eff_dest m) = (if has_flag (cm_flags m) FLAG_XLATE_DEST then xlate_dest_port m else match_dest_port m)"
  by (simp_all add: eff_src_def eff_dest_def)

text \<open>
  One end: the complement sum of checksum, address and port is unchanged; for a partial checksum the
  difference with the address is.
\<close>

lemma l4_check_end:
  assumes "ck \<noteq> 0 \<or> \<not> sz"
  shows "(unat (l4_check sz False ck padj (csum_adjustment mi mp xi xp)) + unat xi + unat xp) mod 65535 =
      (unat ck + unat mi + unat mp) mod 65535"
  using assms translated_csum_mod [of ck mi mp xi xp] by (auto simp: l4_check_def)

lemma l4_check_end_partial:
  assumes "ck \<noteq> 0 \<or> \<not> sz"
  shows "(unat (l4_check sz True ck (partial_csum_adjustment mi xi) adj) + unat mi) mod 65535 =
      (unat ck + unat xi) mod 65535"
  using assms translated_partial_csum_mod [of ck mi xi] by (auto simp: l4_check_def)

lemma l4_check_nonzero: "ck \<noteq> 0 \<Longrightarrow> l4_check sz partial ck padj adj \<noteq> 0"
  by (simp add: l4_check_def apply_adjustment_nonzero)

lemma rewritten_check_nonzero: "ck \<noteq> 0 \<Longrightarrow> rewritten_check m sz partial ck \<noteq> 0"
  by (simp add: rewritten_check_def Let_def l4_check_nonzero)

lemma rewritten_check_zero: "rewritten_check m True partial 0 = 0"
  by (simp add: rewritten_check_def Let_def l4_check_def)

theorem rewritten_check_mod:
  assumes adj: "adjusted m" and ck: "ck \<noteq> 0"
  shows "(unat (rewritten_check m sz False ck) + unat (fst (eff_src m)) + unat (snd (eff_src m))
      + unat (fst (eff_dest m)) + unat (snd (eff_dest m))) mod 65535 =
    (unat ck + unat (match_src_ip m) + unat (match_src_port m)
      + unat (match_dest_ip m) + unat (match_dest_port m)) mod 65535"
proof -
  define c1 where "c1 = (if has_flag (cm_flags m) FLAG_XLATE_SRC
      then l4_check sz False ck (xlate_src_partial_csum_adjustment m) (xlate_src_csum_adjustment m) else ck)"
  define c2 where "c2 = rewritten_check m sz False ck"
  have c1nz: "c1 \<noteq> 0" using ck by (simp add: c1_def l4_check_nonzero)
  have 1: "(unat c1 + unat (fst (eff_src m)) + unat (snd (eff_src m))) mod 65535 =
      (unat ck + unat (match_src_ip m) + unat (match_src_port m)) mod 65535"
    using adj ck l4_check_end [of ck sz] by (auto simp: c1_def eff_src_ip eff_src_port adjusted_def)
  have 2: "(unat c2 + unat (fst (eff_dest m)) + unat (snd (eff_dest m))) mod 65535 =
      (unat c1 + unat (match_dest_ip m) + unat (match_dest_port m)) mod 65535"
    using adj c1nz l4_check_end [of c1 sz]
    by (auto simp: c2_def rewritten_check_def Let_def c1_def [symmetric] eff_dest_ip eff_dest_port adjusted_def)
  have "(unat c2 + unat (fst (eff_src m)) + unat (snd (eff_src m))
      + unat (fst (eff_dest m)) + unat (snd (eff_dest m))) mod 65535 =
      ((unat c2 + unat (fst (eff_dest m)) + unat (snd (eff_dest m)))
        + (unat (fst (eff_src m)) + unat (snd (eff_src m)))) mod 65535"
    by (simp add: ac_simps)
  also have "\<dots> = ((unat c1 + unat (match_dest_ip m) + unat (match_dest_port m))
        + (unat (fst (eff_src m)) + unat (snd (eff_src m)))) mod 65535"
    by (intro mod_sum_eq 2 refl)
  also have "\<dots> = ((unat c1 + unat (fst (eff_src m)) + unat (snd (eff_src m)))
        + (unat (match_dest_ip m) + unat (match_dest_port m))) mod 65535"
    by (simp add: ac_simps)
  also have "\<dots> = ((unat ck + unat (match_src_ip m) + unat (match_src_port m))
        + (unat (match_dest_ip m) + unat (match_dest_port m))) mod 65535"
    by (intro mod_sum_eq 1 refl)
  finally show ?thesis by (simp add: c2_def ac_simps)
qed

theorem rewritten_partial_check_mod:
  assumes adj: "adjusted m" and ck: "ck \<noteq> 0"
  shows "(unat (rewritten_check m sz True ck) + unat (match_src_ip m) + unat (match_dest_ip m)) mod 65535 =
    (unat ck + unat (fst (eff_src m)) + unat (fst (eff_dest m))) mod 65535"
proof -
  define c1 where "c1 = (if has_flag (cm_flags m) FLAG_XLATE_SRC
      then l4_check sz True ck (xlate_src_partial_csum_adjustment m) (xlate_src_csum_adjustment m) else ck)"
  define c2 where "c2 = rewritten_check m sz True ck"
  have c1nz: "c1 \<noteq> 0" using ck by (simp add: c1_def l4_check_nonzero)
  have 1: "(unat c1 + unat (match_src_ip m)) mod 65535 = (unat ck + unat (fst (eff_src m))) mod 65535"
    using adj ck l4_check_end_partial [of ck sz] by (auto simp: c1_def eff_src_ip adjusted_def)
  have 2: "(unat c2 + unat (match_dest_ip m)) mod 65535 = (unat c1 + unat (fst (eff_dest m))) mod 65535"
    using adj c1nz l4_check_end_partial [of c1 sz]
    by (auto simp: c2_def rewritten_check_def Let_def c1_def [symmetric] eff_dest_ip adjusted_def)
  have "(unat c2 + unat (match_src_ip m) + unat (match_dest_ip m)) mod 65535 =
      ((unat c2 + unat (match_dest_ip m)) + unat (match_src_ip m)) mod 65535"
    by (simp add: ac_simps)
  also have "\<dots> = ((unat c1 + unat (fst (eff_dest m))) + unat (match_src_ip m)) mod 65535"
    by (intro mod_sum_eq 2 refl)
  also have "\<dots> = ((unat c1 + unat (match_src_ip m)) + unat (fst (eff_dest m))) mod 65535"
    by (simp add: ac_simps)
  also have "\<dots> = ((unat ck + unat (fst (eff_src m))) + unat (fst (eff_dest m))) mod 65535"
    by (intro mod_sum_eq 1 refl)
  finally show ?thesis by (simp add: c2_def)
qed

section \<open>The whole rewrite\<close>

definition l4_src where
  "l4_src E sz th co m skb =
     (if has_flag (cm_flags m) FLAG_XLATE_SRC
      then l4_xlate E sz 12 th co (xlate_src_ip m) (xlate_src_port m)
             (xlate_src_partial_csum_adjustment m) (xlate_src_csum_adjustment m) skb
      else Some skb)"

definition l4_dest where
  "l4_dest E sz th co m skb =
     (if has_flag (cm_flags m) FLAG_XLATE_DEST
      then l4_xlate E sz 16 (th + 2) co (xlate_dest_ip m) (xlate_dest_port m)
             (xlate_dest_partial_csum_adjustment m) (xlate_dest_csum_adjustment m) skb
      else Some skb)"

definition l4_rewrite where
  "l4_rewrite E sz co m th ttl skb = do {
     skb \<leftarrow> remark_dscp m skb;
     skb \<leftarrow> wr8 skb 8 (ttl - 1);
     skb \<leftarrow> l4_src E sz th co m skb;
     skb \<leftarrow> l4_dest E sz th co m skb;
     (skb, check) \<leftarrow> sfe_ipv4_gen_ip_csum E skb;
     wr16 E skb 10 check
   }"

lemma rewrite_conv:
  "udp_rewrite E m th ttl skb = l4_rewrite E True (th + 6) m th ttl skb"
  "tcp_rewrite E m th ttl skb = l4_rewrite E False (th + 16) m th ttl skb"
  by (simp_all add: udp_rewrite_def tcp_rewrite_def l4_rewrite_def l4_src_def l4_dest_def xlate_conv)

lemma l4_src_spec:
  assumes len: "co + 1 < unat (skb_headlen skb)" and o: "16 \<le> th" "th + 1 < co"
    and ck: "rd16 E skb co = Some ck"
    and key: "rd32 E skb 12 = Some (match_src_ip m)" "rd16 E skb th = Some (match_src_port m)"
  obtains skb' where "l4_src E sz th co m skb = Some skb'"
    and "patched {12, 13, 14, 15, th, th + 1, co, co + 1} skb skb'"
    and "rd32 E skb' 12 = Some (fst (eff_src m))" and "rd16 E skb' th = Some (snd (eff_src m))"
    and "rd16 E skb' co = Some (if has_flag (cm_flags m) FLAG_XLATE_SRC
           then l4_check sz (skb_partial skb) ck (xlate_src_partial_csum_adjustment m) (xlate_src_csum_adjustment m)
           else ck)"
proof (cases "has_flag (cm_flags m) FLAG_XLATE_SRC")
  case True
  have "12 + 3 < th" using o by simp
  then obtain skb' where "l4_xlate E sz 12 th co (xlate_src_ip m) (xlate_src_port m)
        (xlate_src_partial_csum_adjustment m) (xlate_src_csum_adjustment m) skb = Some skb'"
    and "patched {12, 12 + 1, 12 + 2, 12 + 3, th, th + 1, co, co + 1} skb skb'"
    and "rd32 E skb' 12 = Some (xlate_src_ip m)" and "rd16 E skb' th = Some (xlate_src_port m)"
    and "rd16 E skb' co = Some (l4_check sz (skb_partial skb) ck
           (xlate_src_partial_csum_adjustment m) (xlate_src_csum_adjustment m))"
    using l4_xlate_spec [OF len _ o(2) ck] by metis
  then show thesis using that [of skb'] True by (simp add: l4_src_def eff_src_def)
next
  case False
  then show thesis using that [of skb] ck key by (simp add: l4_src_def eff_src_def)
qed

lemma l4_dest_spec:
  assumes len: "co + 1 < unat (skb_headlen skb)" and o: "20 \<le> th" "th + 3 < co"
    and ck: "rd16 E skb co = Some ck"
    and key: "rd32 E skb 16 = Some (match_dest_ip m)" "rd16 E skb (th + 2) = Some (match_dest_port m)"
  obtains skb' where "l4_dest E sz th co m skb = Some skb'"
    and "patched {16, 17, 18, 19, th + 2, th + 3, co, co + 1} skb skb'"
    and "rd32 E skb' 16 = Some (fst (eff_dest m))" and "rd16 E skb' (th + 2) = Some (snd (eff_dest m))"
    and "rd16 E skb' co = Some (if has_flag (cm_flags m) FLAG_XLATE_DEST
           then l4_check sz (skb_partial skb) ck (xlate_dest_partial_csum_adjustment m) (xlate_dest_csum_adjustment m)
           else ck)"
proof (cases "has_flag (cm_flags m) FLAG_XLATE_DEST")
  case True
  have "16 + 3 < th + 2" and "th + 2 + 1 < co" using o by simp_all
  then obtain skb' where "l4_xlate E sz 16 (th + 2) co (xlate_dest_ip m) (xlate_dest_port m)
        (xlate_dest_partial_csum_adjustment m) (xlate_dest_csum_adjustment m) skb = Some skb'"
    and "patched {16, 16 + 1, 16 + 2, 16 + 3, th + 2, th + 2 + 1, co, co + 1} skb skb'"
    and "rd32 E skb' 16 = Some (xlate_dest_ip m)" and "rd16 E skb' (th + 2) = Some (xlate_dest_port m)"
    and "rd16 E skb' co = Some (l4_check sz (skb_partial skb) ck
           (xlate_dest_partial_csum_adjustment m) (xlate_dest_csum_adjustment m))"
    using l4_xlate_spec [OF len _ _ ck] by metis
  then show thesis using that [of skb'] True by (simp add: l4_dest_def eff_dest_def numeral_3_eq_3)
next
  case False
  then show thesis using that [of skb] ck key by (simp add: l4_dest_def eff_dest_def)
qed

text \<open>
  The TOS byte and the TTL are written before the addresses; nothing else of the first twelve bytes
  changes but the header checksum.
\<close>

lemma dscp_ttl_spec:
  assumes "8 < unat (skb_headlen skb)"
  obtains s1 s2 where "remark_dscp m skb = Some s1" and "wr8 s1 8 (ttl - 1) = Some s2"
    and "patched {1, 8} skb s2" and "rd8 s2 8 = Some (ttl - 1)"
proof -
  have "\<exists>s1. remark_dscp m skb = Some s1 \<and> patched {1} skb s1"
  proof (cases "has_flag (cm_flags m) FLAG_DSCP_REMARK")
    case True
    obtain tos where t: "rd8 skb 1 = Some tos" using rd8_total [of 1 skb] assms by auto
    obtain s1 where "wr8 skb 1 (ucast ((ucast (tos AND SFE_IPV4_DSCP_MASK) :: u32) OR cm_dscp m)) = Some s1"
      using wr8_total [of 1 skb] assms by force
    with t True wr8_patched [OF this] show ?thesis by (simp add: remark_dscp_def)
  qed (simp add: remark_dscp_def)
  then obtain s1 where s1: "remark_dscp m skb = Some s1" and p: "patched {1} skb s1" by blast
  obtain s2 where s2: "wr8 s1 8 (ttl - 1) = Some s2"
    using wr8_total [of 8 s1] assms patched_fields(2) [OF p] by auto
  show thesis
    using that [OF s1 s2 _ rd8_wr8 [OF s2]] patched_trans [OF p wr8_patched [OF s2]] by (simp add: insert_commute)
qed

theorem l4_rewrite_spec:
  assumes len: "co + 1 < unat (skb_headlen skb)" and o: "20 \<le> th" "th + 3 < co"
    and ck: "rd16 E skb co = Some ck"
    and src: "rd32 E skb 12 = Some (match_src_ip m)" "rd16 E skb th = Some (match_src_port m)"
    and dest: "rd32 E skb 16 = Some (match_dest_ip m)" "rd16 E skb (th + 2) = Some (match_dest_port m)"
  obtains skb' where "l4_rewrite E sz co m th ttl skb = Some skb'"
    and "patched ({1, 8, 10, 11} \<union> {12..<20} \<union> {th..<th + 4} \<union> {co, co + 1}) skb skb'"
    and "rd8 skb' 8 = Some (ttl - 1)" and "ip_header_sum E skb' mod 65535 = 0"
    and "rd32 E skb' 12 = Some (fst (eff_src m))" and "rd16 E skb' th = Some (snd (eff_src m))"
    and "rd32 E skb' 16 = Some (fst (eff_dest m))" and "rd16 E skb' (th + 2) = Some (snd (eff_dest m))"
    and "rd16 E skb' co = Some (rewritten_check m sz (skb_partial skb) ck)"
proof -
  have "8 < unat (skb_headlen skb)" using len o by linarith
  then obtain s1 s2 where s1: "remark_dscp m skb = Some s1" and s2: "wr8 s1 8 (ttl - 1) = Some s2"
    and p2: "patched {1, 8} skb s2" and t2: "rd8 s2 8 = Some (ttl - 1)"
    by (rule dscp_ttl_spec)
  note f2 = patched_fields [OF p2]
  have r2: "rd16 E s2 co = Some ck" "rd32 E s2 12 = Some (match_src_ip m)" "rd16 E s2 th = Some (match_src_port m)"
    "rd32 E s2 16 = Some (match_dest_ip m)" "rd16 E s2 (th + 2) = Some (match_dest_port m)"
    using ck src dest o patched_rd16 [OF p2, of co E] patched_rd16 [OF p2, of th E]
      patched_rd16 [OF p2, of "th + 2" E] patched_rd32 [OF p2, of 12 E] patched_rd32 [OF p2, of 16 E]
    by simp_all
  have o16: "16 \<le> th" "th + 1 < co" and len2: "co + 1 < unat (skb_headlen s2)" using o len f2 by simp_all
  let ?c3 = "if has_flag (cm_flags m) FLAG_XLATE_SRC
           then l4_check sz (skb_partial s2) ck (xlate_src_partial_csum_adjustment m) (xlate_src_csum_adjustment m)
           else ck"
  obtain s3 where s3: "l4_src E sz th co m s2 = Some s3"
    and p3: "patched {12, 13, 14, 15, th, th + 1, co, co + 1} s2 s3"
    and r3: "rd32 E s3 12 = Some (fst (eff_src m))" "rd16 E s3 th = Some (snd (eff_src m))"
    and c3: "rd16 E s3 co = Some ?c3"
    by (rule l4_src_spec [OF len2 o16 r2(1-3), of sz])
  note f3 = patched_fields [OF p3]
  have len3: "co + 1 < unat (skb_headlen s3)" using len2 f3 by simp
  have r3': "rd32 E s3 16 = Some (match_dest_ip m)" "rd16 E s3 (th + 2) = Some (match_dest_port m)"
    using r2 o patched_rd16 [OF p3, of "th + 2" E] patched_rd32 [OF p3, of 16 E] by simp_all
  obtain s4 where s4: "l4_dest E sz th co m s3 = Some s4"
    and p4: "patched {16, 17, 18, 19, th + 2, th + 3, co, co + 1} s3 s4"
    and r4: "rd32 E s4 16 = Some (fst (eff_dest m))" "rd16 E s4 (th + 2) = Some (snd (eff_dest m))"
    and d4: "rd16 E s4 co = Some (if has_flag (cm_flags m) FLAG_XLATE_DEST
           then l4_check sz (skb_partial s3) ?c3 (xlate_dest_partial_csum_adjustment m) (xlate_dest_csum_adjustment m)
           else ?c3)"
    by (rule l4_dest_spec [OF len3 o c3 r3', of sz])
  have c4: "rd16 E s4 co = Some (rewritten_check m sz (skb_partial skb) ck)"
    using d4 f2(3) f3(3) by (simp add: rewritten_check_def Let_def)
  have r4': "rd32 E s4 12 = Some (fst (eff_src m))" "rd16 E s4 th = Some (snd (eff_src m))"
    "rd8 s4 8 = Some (ttl - 1)"
    using r3 t2 o patched_rd16 [OF p4, of th E] patched_rd32 [OF p4, of 12 E] patched_rd8 [OF p4, of 8]
      patched_rd8 [OF p3, of 8] by simp_all
  have "20 \<le> unat (skb_headlen s4)" using len3 o patched_fields(2) [OF p4] by simp
  then obtain s5 c s6 where s5: "sfe_ipv4_gen_ip_csum E s4 = Some (s5, c)" and s6: "wr16 E s5 10 c = Some s6"
    and p6: "patched {10, 11} s4 s6" and z: "ip_header_sum E s6 mod 65535 = 0"
    by (rule gen_ip_csum_total)
  have w: "l4_rewrite E sz co m th ttl skb = Some s6"
    by (simp add: l4_rewrite_def s1 s2 s3 s4 s5 s6)
  have "patched ({1, 8} \<union> {12, 13, 14, 15, th, th + 1, co, co + 1}
      \<union> {16, 17, 18, 19, th + 2, th + 3, co, co + 1} \<union> {10, 11}) skb s6"
    by (intro patched_trans [OF patched_trans [OF patched_trans [OF p2 p3] p4] p6])
  then have p: "patched ({1, 8, 10, 11} \<union> {12..<20} \<union> {th..<th + 4} \<union> {co, co + 1}) skb s6"
    by (rule patched_mono) auto
  have "rd32 E s6 12 = Some (fst (eff_src m))" "rd16 E s6 th = Some (snd (eff_src m))"
    "rd32 E s6 16 = Some (fst (eff_dest m))" "rd16 E s6 (th + 2) = Some (snd (eff_dest m))"
    "rd8 s6 8 = Some (ttl - 1)" "rd16 E s6 co = Some (rewritten_check m sz (skb_partial skb) ck)"
    using r4 r4' c4 o patched_rd16 [OF p6, of th E] patched_rd16 [OF p6, of "th + 2" E]
      patched_rd16 [OF p6, of co E] patched_rd32 [OF p6, of 12 E] patched_rd32 [OF p6, of 16 E]
      patched_rd8 [OF p6, of 8] by simp_all
  then show thesis using w p z by (intro that [of s6])
qed

end
