(* ===== verification/Sfe_Recv_Safe.thy ===== *)
theory Sfe_Recv_Safe
  imports Sfe_Recv_Inv Sfe_Rewrite
begin

text \<open>
  The packet path returns: with an intact engine and kernel functions that keep packets, no handler
  reads or writes outside the linear area of the packet or follows a NULL link. For TCP this needs the
  options the header claims to be in the linear area and not to be cut off after a kind byte: the option
  parser does not check it (\<open>tcp_linear\<close>).
\<close>

section \<open>Running\<close>

definition runs :: "'a option \<Rightarrow> bool" where
  "runs r \<longleftrightarrow> (\<exists>x. r = Some x)"

lemma runs_Some [simp]: "runs (Some x)"
  by (simp add: runs_def)

lemma runs_bind: "runs m \<Longrightarrow> (\<And>x. m = Some x \<Longrightarrow> runs (f x)) \<Longrightarrow> runs (m \<bind> f)"
  by (auto simp: runs_def)

lemma runs_if: "(b \<Longrightarrow> runs x) \<Longrightarrow> (\<not> b \<Longrightarrow> runs y) \<Longrightarrow> runs (if b then x else y)"
  by simp

lemma runs_option:
  "(z = None \<Longrightarrow> runs x) \<Longrightarrow> (\<And>v. z = Some v \<Longrightarrow> runs (y v)) \<Longrightarrow>
   runs (case z of None \<Rightarrow> x | Some v \<Rightarrow> y v)"
  by (cases z) simp_all

lemma runs_sum:
  "(\<And>e. z = Inl e \<Longrightarrow> runs (x e)) \<Longrightarrow> (\<And>v. z = Inr v \<Longrightarrow> runs (y v)) \<Longrightarrow>
   runs (case z of Inl e \<Rightarrow> x e | Inr v \<Rightarrow> y v)"
  by (cases z) simp_all

lemmas runs_control = runs_bind runs_if runs_option

lemma runs_rd:
  "i < unat (skb_headlen skb) \<Longrightarrow> runs (rd8 skb i)"
  "i + 1 < unat (skb_headlen skb) \<Longrightarrow> runs (rd16 E skb i)"
  "i + 3 < unat (skb_headlen skb) \<Longrightarrow> runs (rd32 E skb i)"
  using rd8_total rd16_total rd32_total by (auto simp: runs_def)

section \<open>Rewriting\<close>

lemma l4_rewrite_runs:
  assumes len: "co + 1 < unat (skb_headlen skb)" and o: "20 \<le> th" "th + 3 < co"
  shows "runs (l4_rewrite E sz co m th ttl skb)"
proof -
  have "8 < unat (skb_headlen skb)" using len o by linarith
  then obtain s1 s2 where s1: "remark_dscp m skb = Some s1" and s2: "wr8 s1 8 (ttl - 1) = Some s2"
    and p2: "patched {1, 8} skb s2"
    by (rule dscp_ttl_spec)
  have step: "\<exists>t'. l4_xlate E sz ao po co xip xport padj adj t = Some t' \<and> skb_headlen t' = skb_headlen t"
    if "skb_headlen t = skb_headlen skb" "ao + 3 < po" "po + 1 < co" for t ao po xip xport padj adj
  proof -
    have l: "co + 1 < unat (skb_headlen t)" using that(1) len by simp
    then obtain ck where ck: "rd16 E t co = Some ck" using rd16_total by blast
    show ?thesis
    proof (rule l4_xlate_spec [OF l that(2,3) ck, of sz xip xport padj adj])
      fix t'
      assume "l4_xlate E sz ao po co xip xport padj adj t = Some t'"
        "patched {ao, ao + 1, ao + 2, ao + 3, po, po + 1, co, co + 1} t t'"
      then show ?thesis using patched_fields(2) by blast
    qed
  qed
  have h2: "skb_headlen s2 = skb_headlen skb" by (rule patched_fields [OF p2])
  have "\<exists>s3. l4_src E sz th co m s2 = Some s3 \<and> skb_headlen s3 = skb_headlen skb"
    using step [OF h2, of 12 th] o h2 by (auto simp: l4_src_def)
  then obtain s3 where s3: "l4_src E sz th co m s2 = Some s3" and h3: "skb_headlen s3 = skb_headlen skb"
    by blast
  have "\<exists>s4. l4_dest E sz th co m s3 = Some s4 \<and> skb_headlen s4 = skb_headlen skb"
    using step [OF h3, of 16 "th + 2"] o h3 by (auto simp: l4_dest_def)
  then obtain s4 where s4: "l4_dest E sz th co m s3 = Some s4" and h4: "skb_headlen s4 = skb_headlen skb"
    by blast
  have "20 \<le> unat (skb_headlen s4)" using len o h4 by simp
  then obtain s5 c s6 where s5: "sfe_ipv4_gen_ip_csum E s4 = Some (s5, c)" and s6: "wr16 E s5 10 c = Some s6"
    by (rule gen_ip_csum_total)
  have "l4_rewrite E sz co m th ttl skb = Some s6"
    by (simp add: l4_rewrite_def s1 s2 s3 s4 s5 s6)
  then show ?thesis by simp
qed

lemma rewrite_runs:
  "27 < unat (skb_headlen skb) \<Longrightarrow> runs (udp_rewrite E m 20 ttl skb)"
  "37 < unat (skb_headlen skb) \<Longrightarrow> runs (tcp_rewrite E m 20 ttl skb)"
  unfolding rewrite_conv by (rule l4_rewrite_runs; simp)+

lemma own_packet_headlen:
  assumes "kernel_ok K" and "skb_ok skb" and "own_packet K skb = Some skb'"
  shows "unat (skb_headlen skb) \<le> unat (skb_headlen skb')"
  using assms kernel_unshare(1) [of K skb skb'] same_packet_headlen
  by (auto simp: own_packet_def split: if_splits)

lemma forward_runs:
  assumes "kernel_ok K" and "skb_ok skb"
  shows "27 < unat (skb_headlen skb) \<Longrightarrow> runs (udp_forward E K p len 20 ttl skb s)"
    and "37 < unat (skb_headlen skb) \<Longrightarrow> runs (tcp_forward E K p len 20 ttl skb s)"
  unfolding udp_forward_def tcp_forward_def
  by (auto intro!: runs_option runs_bind rewrite_runs dest!: own_packet_headlen [OF assms])

section \<open>UDP\<close>

lemma find_runs:
  assumes "engine_inv E base s A D"
  shows "runs (sfe_ipv4_find_sfe_ipv4_connection_match E dev pr si sp di dp s)"
  by (rule find_engine [OF assms, of dev pr si sp di dp]) (simp add: runs_def)

lemma unat_small_add: "unat n \<le> 100 \<Longrightarrow> unat m \<le> 1000 \<Longrightarrow> unat (n + m :: u32) = unat n + unat m"
  by (rule unat_add32) simp

lemma pulled:
  assumes "kernel_ok K" and "skb_ok skb" and "pskb_may_pull K skb n = Some skb'"
  shows "unat n \<le> unat (skb_headlen skb')" and "unat (skb_headlen skb) \<le> unat (skb_headlen skb')"
    and "skb_ok skb'" and "same_packet skb skb'"
  using kernel_pull [OF assms] same_packet_headlen by (simp_all add: word_le_nat_alt)

lemma recv_udp_runs:
  assumes I: "engine_inv E base s A D" and K: "kernel_ok K" and ok: "skb_ok skb"
    and ihl: "unat ihl \<le> 60" "\<not> flush \<Longrightarrow> unat ihl = 20" and len: "20 \<le> unat (skb_headlen skb)"
  shows "runs (sfe_ipv4_recv_udp E K skb dev len ihl flush s)"
proof (cases "pskb_may_pull K skb (SIZEOF_UDP_HDR + ihl)")
  case (Some skb1)
  note P = pulled [OF K ok Some]
  have h: "8 + unat ihl \<le> unat (skb_headlen skb1)" "20 \<le> unat (skb_headlen skb1)"
    using P(1,2) ihl len by (simp_all add: SIZEOF_UDP_HDR_def unat_small_add)
  have f: "runs (udp_forward E K p len (unat ihl) ttl skb1 t)" if "\<not> flush" for p ttl t
    using forward_runs(1) [OF K P(3), of E p len ttl t] h ihl(2) [OF that] by simp
  show ?thesis
    unfolding sfe_ipv4_recv_udp_def Some option.case
    using h f by (auto intro!: runs_bind runs_rd find_runs [OF I] runs_option)
qed (simp add: sfe_ipv4_recv_udp_def)

section \<open>TCP\<close>

definition tcp_linear :: "sk_buff \<Rightarrow> bool" where
  "tcp_linear skb \<longleftrightarrow>
     (skb_bytes skb 9 = 6 \<longrightarrow> options_readable skb 20 (4 * unat (drop_bit 4 (skb_bytes skb 32))))"

lemma data_offs_value:
  fixes b :: u8
  shows "unat (push_bit 2 (ucast (drop_bit 4 b)) :: u32) = 4 * unat (drop_bit 4 b)"
    and "unat (drop_bit 4 b) \<le> 15"
proof -
  have b: "unat b < 256" using unsigned_less [of b] by simp
  have d: "unat (drop_bit 4 b) = unat b div 16" by (simp add: drop_bit_eq_div unat_div)
  then show "unat (drop_bit 4 b) \<le> 15" using b by linarith
  then have "4 * unat (drop_bit 4 b) < 4294967296" by simp
  then show "unat (push_bit 2 (ucast (drop_bit 4 b)) :: u32) = 4 * unat (drop_bit 4 b)"
    by (simp add: push_bit_eq_mult unat_word_ariths unsigned_ucast_eq take_bit_nat_eq_self)
qed

lemma seq_check_runs:
  assumes len: "40 \<le> unat (skb_headlen skb)"
    and opts: "options_readable skb 20 (4 * unat (drop_bit 4 (skb_bytes skb 32)))"
  shows "runs (tcp_seq_check E skb 20 len own counter)"
proof -
  let ?b = "skb_bytes skb 32"
  have doff: "rd8 skb (20 + 12) = Some ?b" using len by (simp add: rd8_def)
  have parse: "runs (sfe_ipv4_process_tcp_option_sack skb 20 (push_bit 2 (ucast (drop_bit 4 ?b))) ack)"
    if "\<not> push_bit 2 (ucast (drop_bit 4 ?b)) < SIZEOF_TCP_HDR" for ack
    using process_sack_readable [of skb 20 "push_bit 2 (ucast (drop_bit 4 ?b))" ack] that data_offs_value [of ?b] opts
    by (simp add: runs_def word_less_nat_alt SIZEOF_TCP_HDR_def)
  show ?thesis
    unfolding tcp_seq_check_def Let_def doff bind.simps
    using len by (auto intro!: runs_bind runs_rd parse split: option.split)
qed

lemma recv_tcp_runs:
  assumes I: "engine_inv E base s A D" and K: "kernel_ok K" and ok: "skb_ok skb"
    and ihl: "unat ihl \<le> 60" "\<not> flush \<Longrightarrow> unat ihl = 20" and len: "20 \<le> unat (skb_headlen skb)"
    and opts: "32 < unat (skb_len skb) \<Longrightarrow>
      options_readable skb 20 (4 * unat (drop_bit 4 (skb_bytes skb 32)))"
  shows "runs (sfe_ipv4_recv_tcp E K skb dev len ihl flush s)"
proof (cases "pskb_may_pull K skb (SIZEOF_TCP_HDR + ihl)")
  case (Some skb1)
  note P = pulled [OF K ok Some]
  have h: "20 + unat ihl \<le> unat (skb_headlen skb1)" "20 \<le> unat (skb_headlen skb1)"
    using P(1,2) ihl len by (simp_all add: SIZEOF_TCP_HDR_def unat_small_add)
  have f: "runs (tcp_forward E K p len (unat ihl) ttl skb1 t)" if "\<not> flush" for p ttl t
    using forward_runs(2) [OF K P(3), of E p len ttl t] h ihl(2) [OF that] by simp
  have track: "runs (tcp_track E p len (unat ihl) skb1 t)" if "\<not> flush" for p t
  proof -
    have i: "unat ihl = 20" by (rule ihl(2) [OF that])
    have l: "40 \<le> unat (skb_headlen skb1)" using h i by simp
    have "skb_headlen skb1 \<le> skb_len skb1" using P(3) by (simp add: skb_ok_def)
    then have len: "32 < unat (skb_len skb)"
      using l same_packetD(1) [OF P(4)] by (simp add: word_le_nat_alt)
    have "skb_bytes skb1 32 = skb_bytes skb 32" by (rule same_packetD(2) [OF P(4) len])
    moreover have ok': "unat (skb_headlen skb) \<le> unat (skb_len skb)" using ok by (simp add: skb_ok_def word_le_nat_alt)
    ultimately have "options_readable skb1 20 (4 * unat (drop_bit 4 (skb_bytes skb1 32)))"
      using options_readable_pulled [OF opts [OF len] P(2) ok' P(4)] by simp
    from seq_check_runs [OF l this] show ?thesis
      unfolding tcp_track_def Let_def i
      by (intro runs_if runs_bind runs_sum) simp_all
  qed
  show ?thesis
    unfolding sfe_ipv4_recv_tcp_def Some option.case
    using h f track by (auto intro!: runs_bind runs_rd find_runs [OF I] runs_option runs_sum)
qed (simp add: sfe_ipv4_recv_tcp_def)

section \<open>ICMP\<close>

lemma ihl_value:
  fixes b :: u8
  shows "unat (push_bit 2 (ucast (b AND 0xf)) :: u32) = 4 * unat (b AND 0xf)"
    and "unat (ucast (b AND 0xf) :: u32) = unat (b AND 0xf)" and "unat (b AND 0xf) \<le> 15"
proof -
  have "b AND 0xf \<le> 0xf" by (rule word_and_le1)
  then show w: "unat (b AND 0xf) \<le> 15" by (simp add: word_le_nat_alt)
  show u: "unat (ucast (b AND 0xf) :: u32) = unat (b AND 0xf)"
    using w by (simp add: unsigned_ucast_eq take_bit_nat_eq_self)
  show "unat (push_bit 2 (ucast (b AND 0xf)) :: u32) = 4 * unat (b AND 0xf)"
    using w u by (simp add: push_bit_eq_mult unat_word_ariths)
qed

lemma icmp_pull_len:
  fixes ihl :: u32 and b :: u8
  assumes "unat ihl \<le> 60"
  shows "unat (SIZEOF_ICMP_HDR + ihl) = 8 + unat ihl"
    and "unat (SIZEOF_ICMP_HDR + ihl + SIZEOF_IP_HDR) = 28 + unat ihl"
    and "unat (SIZEOF_ICMP_HDR + ihl + SIZEOF_IP_HDR + (push_bit 2 (ucast (b AND 0xf)) - SIZEOF_IP_HDR)) =
           8 + unat ihl + 4 * unat (b AND 0xf)"
proof -
  show a: "unat (SIZEOF_ICMP_HDR + ihl) = 8 + unat ihl"
    using assms by (simp add: SIZEOF_ICMP_HDR_def unat_small_add)
  show "unat (SIZEOF_ICMP_HDR + ihl + SIZEOF_IP_HDR) = 28 + unat ihl"
    using assms a by (simp add: unat_word_ariths SIZEOF_IP_HDR_def)
  have "SIZEOF_ICMP_HDR + ihl + SIZEOF_IP_HDR + (push_bit 2 (ucast (b AND 0xf)) - SIZEOF_IP_HDR)
      = SIZEOF_ICMP_HDR + ihl + push_bit 2 (ucast (b AND 0xf))" by simp
  moreover have "unat \<dots> = 8 + unat ihl + 4 * unat (b AND 0xf)"
    using assms a ihl_value [of b] by (simp add: unat_word_ariths)
  ultimately show "unat (SIZEOF_ICMP_HDR + ihl + SIZEOF_IP_HDR
      + (push_bit 2 (ucast (b AND 0xf)) - SIZEOF_IP_HDR)) = 8 + unat ihl + 4 * unat (b AND 0xf)"
    by (simp only:)
qed

lemma icmp_ports_runs:
  assumes K: "kernel_ok K" and ok: "skb_ok skb" and n: "unat n \<le> 200" and t: "t + 8 \<le> unat n + 8"
  shows "runs (icmp_ports E K skb protocol n t)"
    and "icmp_ports E K skb protocol n t = Some (Inr (skb', a, b)) \<Longrightarrow>
      skb_ok skb' \<and> unat (skb_headlen skb) \<le> unat (skb_headlen skb')"
proof -
  have h: "unat n + 8 \<le> unat (skb_headlen v)" if "pskb_may_pull K skb (n + 8) = Some v" for v
    using pulled(1) [OF K ok that] n by (simp add: unat_add32)
  show "runs (icmp_ports E K skb protocol n t)"
    unfolding icmp_ports_def using h t by (force intro!: runs_option runs_bind runs_rd)
  show "skb_ok skb' \<and> unat (skb_headlen skb) \<le> unat (skb_headlen skb')"
    if "icmp_ports E K skb protocol n t = Some (Inr (skb', a, b))"
    using that pulled(2,3) [OF K ok]
    by (auto simp: icmp_ports_def bind_eq_Some_conv split: if_splits option.splits)
qed

lemma recv_icmp_runs:
  assumes I: "engine_inv E base s A D" and K: "kernel_ok K" and ok: "skb_ok skb" and ihl: "unat ihl \<le> 60"
  shows "runs (sfe_ipv4_recv_icmp E K skb dev ihl s)"
proof -
  note n = icmp_pull_len [OF ihl]
  have flush: "runs (icmp_flush E pkt dev (unat ihl + 8) protocol sp dp s)"
    if "28 + unat ihl \<le> unat (skb_headlen pkt)" for pkt protocol sp dp
    unfolding icmp_flush_def using that by (auto intro!: runs_bind runs_rd find_runs [OF I] split: option.split)
  have ports: "runs (do {
      protocol \<leftarrow> rd8 pkt (unat ihl + 8 + 9);
      r \<leftarrow> icmp_ports E K pkt protocol
             (SIZEOF_ICMP_HDR + ihl + SIZEOF_IP_HDR + (push_bit 2 (ucast (b AND 0xf)) - SIZEOF_IP_HDR))
             (unat ihl + 8 + 4 * unat (ucast (b AND 0xf) :: u32));
      (case r of Inl e \<Rightarrow> Some (reject e pkt s)
       | Inr (skb, sp, dp) \<Rightarrow> icmp_flush E skb dev (unat ihl + 8) protocol sp dp s) })"
    if "skb_ok pkt" "28 + unat ihl \<le> unat (skb_headlen pkt)" for pkt and b :: u8
  proof -
    let ?n = "SIZEOF_ICMP_HDR + ihl + SIZEOF_IP_HDR + (push_bit 2 (ucast (b AND 0xf)) - SIZEOF_IP_HDR)"
    let ?t = "unat ihl + 8 + 4 * unat (ucast (b AND 0xf) :: u32)"
    have l: "unat ?n \<le> 200" "?t + 8 \<le> unat ?n + 8"
      using n(3) [of b] ihl_value(2,3) [of b] ihl by simp_all
    note ip = icmp_ports_runs [OF K that(1) l]
    have "runs (case r of Inl e \<Rightarrow> Some (reject e pkt s)
       | Inr (skb, sp, dp) \<Rightarrow> icmp_flush E skb dev (unat ihl + 8) protocol sp dp s)"
      if "icmp_ports E K pkt protocol ?n ?t = Some r" for protocol r
    proof (cases r)
      case (Inr v)
      obtain q sp dp where v: "v = (q, sp, dp)" by (cases v)
      have "28 + unat ihl \<le> unat (skb_headlen q)"
        using ip(2) that Inr v \<open>28 + unat ihl \<le> unat (skb_headlen pkt)\<close> by fastforce
      then show ?thesis using flush by (simp add: Inr v)
    qed simp
    then show ?thesis using ip(1) that(2) by (intro runs_bind runs_rd) simp_all
  qed
  show ?thesis
  proof (cases "pskb_may_pull K skb (SIZEOF_ICMP_HDR + ihl)")
    case s1: (Some skb1)
    note P1 = pulled [OF K ok s1]
    show ?thesis
    proof (cases "pskb_may_pull K skb1 (SIZEOF_ICMP_HDR + ihl + SIZEOF_IP_HDR)")
      case None
      then show ?thesis unfolding sfe_ipv4_recv_icmp_def Let_def s1 option.case
        using P1 n by (auto intro!: runs_bind runs_rd)
    next
      case s2: (Some skb2)
      note P2 = pulled [OF K P1(3) s2]
      have l2: "28 + unat ihl \<le> unat (skb_headlen skb2)" using P2(1) n(2) by simp
      have p3: "skb_ok skb3 \<and> 28 + unat ihl \<le> unat (skb_headlen skb3)"
        if "pskb_may_pull K skb2 m = Some skb3" for m skb3
        using pulled(2,3) [OF K P2(3) that] l2 by simp
      show ?thesis unfolding sfe_ipv4_recv_icmp_def Let_def s1 s2 option.case
        using P1 n l2 p3 by (auto intro!: runs_bind runs_rd runs_option ports)
    qed
  qed (simp add: sfe_ipv4_recv_icmp_def Let_def)
qed

section \<open>The entry point\<close>

text \<open>The protocol byte, compared as the numbers of the protocols.\<close>

lemma ucast8_round: "ucast (ucast (x :: u8) :: u32) = x"
  by (rule bit_word_eqI) (auto simp: bit_simps)

lemma ucast8_inj: "ucast (a :: u8) = (ucast b :: u32) \<longleftrightarrow> a = b"
  by (metis ucast8_round)

lemma protocol_bytes:
  fixes p :: u8
  shows "ucast p = IPPROTO_UDP \<longleftrightarrow> p = 17" and "ucast p = IPPROTO_TCP \<longleftrightarrow> p = 6" and "ucast p = IPPROTO_ICMP \<longleftrightarrow> p = 1"
  using ucast8_inj [of p 17] ucast8_inj [of p 6] ucast8_inj [of p 1]
  by (simp_all add: IPPROTO_UDP_def IPPROTO_TCP_def IPPROTO_ICMP_def)

theorem recv_locked_runs:
  assumes I: "engine_inv E base s A D" and K: "kernel_ok K" and ok: "skb_ok skb" and lin: "tcp_linear skb"
  shows "runs (sfe_ipv4_recv_locked E K dev skb s)"
proof (cases "pskb_may_pull K skb SIZEOF_IP_HDR")
  case (Some skb1)
  note P = pulled [OF K ok Some]
  have h: "20 \<le> unat (skb_headlen skb1)" using P(1) by (simp add: SIZEOF_IP_HDR_def)
  have len: "skb_len skb1 = skb_len skb" by (rule same_packetD [OF P(4)])
  have "skb_headlen skb1 \<le> skb_len skb1" using P(3) by (simp add: skb_ok_def)
  then have l: "20 \<le> unat (skb_len skb)" using h len by (simp add: word_le_nat_alt)
  have b9: "skb_bytes skb1 9 = skb_bytes skb 9" using l by (intro same_packetD(2) [OF P(4)]) simp
  have opts: "options_readable skb1 20 (4 * unat (drop_bit 4 (skb_bytes skb1 32)))"
    if "skb_bytes skb1 9 = 6" "32 < unat (skb_len skb1)"
  proof -
    have "skb_bytes skb1 32 = skb_bytes skb 32" using that(2) len by (intro same_packetD(2) [OF P(4)]) simp
    moreover have "unat (skb_headlen skb) \<le> unat (skb_len skb)" using ok by (simp add: skb_ok_def word_le_nat_alt)
    ultimately show ?thesis
      using lin that(1) b9 options_readable_pulled [OF _ P(2) _ P(4)] by (simp add: tcp_linear_def)
  qed
  have ihl: "unat (push_bit 2 (ucast (b AND 0xf)) :: u32) \<le> 60" for b :: u8
    using ihl_value(1,3) [of b] by simp
  have udp: "runs (sfe_ipv4_recv_udp E K skb1 dev n (push_bit 2 (ucast (b AND 0xf)))
      (mf \<or> push_bit 2 (ucast (b AND 0xf)) \<noteq> SIZEOF_IP_HDR) s)" for b :: u8 and n mf
    by (rule recv_udp_runs [OF I K P(3) ihl _ h]) (simp add: SIZEOF_IP_HDR_def)
  have tcp: "runs (sfe_ipv4_recv_tcp E K skb1 dev n (push_bit 2 (ucast (b AND 0xf)))
      (mf \<or> push_bit 2 (ucast (b AND 0xf)) \<noteq> SIZEOF_IP_HDR) s)"
    if "skb_bytes skb1 9 = 6" for b :: u8 and n mf
    by (rule recv_tcp_runs [OF I K P(3) ihl _ h opts [OF that]]) (simp_all add: SIZEOF_IP_HDR_def)
  have proto: "skb_bytes skb1 9 = 6" if "rd8 skb1 9 = Some protocol" "ucast protocol = IPPROTO_TCP" for protocol
    using that by (simp add: rd8_def protocol_bytes split: if_splits)
  show ?thesis
    unfolding sfe_ipv4_recv_locked_def Let_def Some option.case
    by (intro runs_bind runs_if runs_rd recv_icmp_runs [OF I K P(3) ihl] udp tcp)
      (use h proto in auto)
qed (simp add: sfe_ipv4_recv_locked_def Let_def)

text \<open>
  A packet of any other protocol is rejected before a flow is looked up; the rest of the engine does not
  see it.
\<close>

lemma other_protocol_rejected:
  assumes K: "kernel_ok K" and ok: "skb_ok skb" and p: "skb_bytes skb 9 \<notin> {1, 6, 17}"
    and r: "sfe_ipv4_recv E K dev skb sis now s = Some (out, t)"
  shows "\<exists>e pkt. out = NotForwarded pkt \<and> same_packet skb pkt \<and> t = count_exception e s"
proof -
  obtain c u where l: "sfe_ipv4_recv_locked E K dev skb s = Some (out, c, u)" and t: "t = flush_pending c sis now u"
    using r by (auto simp: sfe_ipv4_recv_def bind_eq_Some_conv)
  have "\<exists>e pkt. (out, c, u) = reject e pkt s \<and> same_packet skb pkt"
  proof (cases "pskb_may_pull K skb SIZEOF_IP_HDR")
    case None
    then have "(out, c, u) = reject HEADER_INCOMPLETE skb s" using l by (simp add: sfe_ipv4_recv_locked_def)
    moreover have "same_packet skb skb" using ok by (simp add: same_packet_def skb_ok_def)
    ultimately show ?thesis by blast
  next
    case (Some skb1)
    note P = pulled [OF K ok Some]
    have "20 \<le> unat (skb_headlen skb1)" using P(1) by (simp add: SIZEOF_IP_HDR_def)
    moreover have "skb_headlen skb1 \<le> skb_len skb1" using P(3) by (simp add: skb_ok_def)
    ultimately have "9 < unat (skb_len skb)" using same_packetD(1) [OF P(4)] by (simp add: word_le_nat_alt)
    then have "skb_bytes skb1 9 = skb_bytes skb 9" by (rule same_packetD(2) [OF P(4)])
    then have n: "rd8 skb1 9 = Some q \<Longrightarrow> q \<noteq> 1 \<and> q \<noteq> 6 \<and> q \<noteq> 17" for q using p by (auto simp: rd8_def split: if_splits)
    show ?thesis
    proof (rule ccontr)
      assume "\<not> ?thesis"
      then have "reject e skb1 s \<noteq> (out, c, u)" for e using P(4) by metis
      then show False using l unfolding sfe_ipv4_recv_locked_def Some Let_def option.case protocol_bytes
        by (auto simp: bind_eq_Some_conv dest: n split: if_splits)
    qed
  qed
  then show ?thesis by (auto simp: t reject_def flush_pending_def)
qed

theorem recv_runs:
  assumes "engine_inv E base s A D" and "kernel_ok K" and "skb_ok skb" and "tcp_linear skb"
  shows "\<exists>out t. sfe_ipv4_recv E K dev skb sis now s = Some (out, t)"
proof -
  obtain out c u where "sfe_ipv4_recv_locked E K dev skb s = Some (out, c, u)"
    using recv_locked_runs [OF assms, of dev] by (auto simp: runs_def)
  then show ?thesis by (simp add: sfe_ipv4_recv_def)
qed

end
