(* ===== verification/Sfe_Forward.thy ===== *)
theory Sfe_Forward
  imports Sfe_Recv_Safe
begin

text \<open>
  What is forwarded: a packet leaves the fast path only as the rewritten packet of a flow of the tables
  that it matches, addressed to the flow's next hop, and a reply to it is translated back to the
  addresses of the original.
\<close>

section \<open>Forwarded packets\<close>

text \<open>
  \<open>sent_as rewrite\<close>: the packet \<open>pkt\<close>, which arrived on \<open>dev\<close>, is of the flow of match \<open>p\<close> and leaves
  as \<open>out\<close>.
\<close>

definition sent_as ::
  "(sfe_ipv4_connection_match \<Rightarrow> nat \<Rightarrow> u8 \<Rightarrow> sk_buff \<Rightarrow> sk_buff option) \<Rightarrow> sfe_env \<Rightarrow> kernel \<Rightarrow> netdev \<Rightarrow> u8 \<Rightarrow>
   u32 \<Rightarrow> nat \<Rightarrow> sfe_ipv4 \<Rightarrow> cm_ptr \<Rightarrow> sk_buff \<Rightarrow> sk_buff \<Rightarrow> bool" where
  "sent_as rewrite E K dev proto len th s p pkt out \<longleftrightarrow>
     (\<exists>own pkt' ttl mark. let m = cms s p in
        match_dev m = dev \<and> match_protocol m = proto \<and>
        rd32 E pkt 12 = Some (match_src_ip m) \<and> rd32 E pkt 16 = Some (match_dest_ip m) \<and>
        rd16 E pkt th = Some (match_src_port m) \<and> rd16 E pkt (th + 2) = Some (match_dest_port m) \<and>
        rd8 pkt 8 = Some ttl \<and> 2 \<le> ttl \<and>
        own_packet K pkt = Some own \<and> rewrite m th ttl own = Some pkt' \<and>
        out = address_packet K m mark len pkt')"

lemma match_keyD:
  assumes "match_key s p = (dev, pr, si, sp, di, dp)"
  shows "match_dev (cms s p) = dev" "match_protocol (cms s p) = pr" "match_src_ip (cms s p) = si"
    "match_src_port (cms s p) = sp" "match_dest_ip (cms s p) = di" "match_dest_port (cms s p) = dp"
  using assms by (simp_all add: match_key_def Let_def)

lemma transmit_out:
  assumes "tcp_transmit K p len pkt s = (Forwarded out, c, t)"
  shows "c = None \<and> (\<exists>m mark. cm_static m = cm_static (cms s p) \<and> cm_flags m = cm_flags (cms s p) \<and>
    out = address_packet K (cms (activate p (count_packet p len s)) p) mark len pkt)"
  using assms by (auto simp: tcp_transmit_def Let_def)

lemma count_activate_cm:
  "cms (activate p (count_packet p len s)) p =
     (cms s p)\<lparr>rx_packet_count := rx_packet_count (cms s p) + 1, rx_byte_count := rx_byte_count (cms s p) + len\<rparr>"
  by (simp add: activate_conv) (simp add: count_packet_def upd_cm_def)

lemma address_packet_counts:
  "address_packet K (m\<lparr>rx_packet_count := a, rx_byte_count := b\<rparr>) mark len pkt = address_packet K m mark len pkt"
  by (simp add: address_packet_def write_l2_header_def Let_def)

lemma forward_out:
  shows "udp_forward E K p len th ttl pkt s = Some (Forwarded out, c, t) \<Longrightarrow>
      \<exists>own pkt' mark. own_packet K pkt = Some own \<and> udp_rewrite E (cms s p) th ttl own = Some pkt' \<and>
        out = address_packet K (cms s p) mark len pkt'"
    and "tcp_forward E K p len th ttl pkt s = Some (Forwarded out, c, t) \<Longrightarrow>
      \<exists>own pkt' mark. own_packet K pkt = Some own \<and> tcp_rewrite E (cms s p) th ttl own = Some pkt' \<and>
        out = address_packet K (cms s p) mark len pkt'"
  by (auto simp: udp_forward_def tcp_forward_def transmit_conv tcp_transmit_def Let_def bind_eq_Some_conv
      count_activate_cm address_packet_counts split: option.splits)

lemma rejects_not_forwarded [simp]:
  "reject e pkt s \<noteq> (Forwarded out, c, t)" "reject_flush E p e pkt s \<noteq> (Forwarded out, c, t)"
  "pass_slow pkt s \<noteq> (Forwarded out, c, t)"
  by (simp_all add: reject_def reject_flush_def pass_slow_def Let_def)

lemma udp_forwarded:
  assumes I: "engine_inv E base s A D"
    and r: "sfe_ipv4_recv_udp E K skb dev len ihl flush s = Some (Forwarded out, c, t)"
  shows "\<exists>pkt p. pskb_may_pull K skb (SIZEOF_UDP_HDR + ihl) = Some pkt \<and> p \<in> table_matches s (connl A) \<and>
    \<not> flush \<and> len \<le> ucast (xmit_dev_mtu (cms s p)) \<and>
    sent_as (udp_rewrite E) E K dev 17 len (unat ihl) s p pkt out"
proof -
  obtain pkt where pull: "pskb_may_pull K skb (SIZEOF_UDP_HDR + ihl) = Some pkt"
    using r by (auto simp: sfe_ipv4_recv_udp_def split: option.splits)
  obtain si di sp dp f u where rd: "rd32 E pkt 12 = Some si" "rd32 E pkt 16 = Some di"
      "rd16 E pkt (unat ihl) = Some sp" "rd16 E pkt (unat ihl + 2) = Some dp"
    and find: "sfe_ipv4_find_sfe_ipv4_connection_match E dev (ucast IPPROTO_UDP) si sp di dp s = Some (f, u)"
    and rest: "(case f of None \<Rightarrow> Some (reject UDP_NO_CONNECTION pkt u)
           | Some cm \<Rightarrow>
               if flush then Some (reject_flush E cm UDP_IP_OPTIONS_OR_INITIAL_FRAGMENT pkt u)
               else if not_accelerated E (cms u cm) then Some (pass_slow pkt u)
               else do {
                 ttl \<leftarrow> rd8 pkt 8;
                 (if ttl < 2 then Some (reject_flush E cm UDP_SMALL_TTL pkt u)
                  else if ucast (xmit_dev_mtu (cms u cm)) < len
                  then Some (reject_flush E cm UDP_NEEDS_FRAGMENTATION pkt u)
                  else udp_forward E K cm len (unat ihl) ttl pkt u)
               }) = Some (Forwarded out, c, t)"
    using r by (auto simp: sfe_ipv4_recv_udp_def pull bind_eq_Some_conv)
  show ?thesis
  proof (rule find_engine [OF I, of dev "ucast IPPROTO_UDP" si sp di dp])
    fix f' u' B
    assume find': "sfe_ipv4_find_sfe_ipv4_connection_match E dev (ucast IPPROTO_UDP) si sp di dp s = Some (f', u')"
      and B: "quiet s A u' B" and cm: "cms u' = cms s" and cn: "conns u' = conns s"
      and hit: "\<And>p. f' = Some p \<Longrightarrow> p \<in> table_matches u' (connl B) \<and>
        match_key u' p = (dev, ucast IPPROTO_UDP, si, sp, di, dp)"
    have u: "f' = f" "u' = u" using find find' by simp_all
    obtain p where f: "f = Some p" using rest by (cases f) simp_all
    have p: "p \<in> table_matches s (connl A)"
      using hit [of p] B table_matches_cong [OF cn] by (simp add: u f quiet_def)
    note key = match_keyD [OF conjunct2 [OF hit [of p, unfolded u, OF f]], unfolded cm [unfolded u]]
    obtain ttl where b: "\<not> flush" "\<not> ucast (xmit_dev_mtu (cms s p)) < len" "rd8 pkt 8 = Some ttl" "\<not> ttl < 2"
      and fwd: "udp_forward E K p len (unat ihl) ttl pkt u = Some (Forwarded out, c, t)"
      using rest cm [unfolded u]
      by (auto simp: f bind_eq_Some_conv split: if_splits)
    from forward_out(1) [OF fwd] show ?thesis
      using pull p b key rd cm [unfolded u]
      by (auto simp: sent_as_def Let_def IPPROTO_UDP_def not_less intro!: exI [of _ p])
  qed
qed

text \<open>The tracking of a TCP segment changes nothing the rewriting of the packet looks at.\<close>

lemma tcp_track_cm:
  assumes "tcp_track E p len th pkt s = Some (Inr u)"
  shows "\<exists>w. cms u p = (cms s p)\<lparr>cm_tcp := w\<rparr>"
proof (cases "has_flag (cm_flags (cms s p)) FLAG_NO_SEQ_CHECK")
  case True
  with assms have "cms u p = (cms s p)\<lparr>cm_tcp := cm_tcp (cms s p)\<rparr>" by (simp add: tcp_track_def)
  then show ?thesis by blast
next
  case False
  then obtain r where "tcp_seq_check E pkt th len (cm_tcp (cms s p)) (cm_tcp (cms s (cm_counter_match (cms s p)))) = Some r"
    using assms by (auto simp: tcp_track_def Let_def bind_eq_Some_conv)
  then show ?thesis using assms False
    by (cases r) (auto simp: tcp_track_def Let_def upd_cm_def)
qed

lemma rewrite_tcp_state:
  "tcp_rewrite E (m\<lparr>cm_tcp := w\<rparr>) = tcp_rewrite E m"
  "address_packet K (m\<lparr>cm_tcp := w\<rparr>) = address_packet K m"
  by (simp_all add: fun_eq_iff tcp_rewrite_def remark_dscp_def tcp_xlate_src_def tcp_xlate_dest_def
      address_packet_def write_l2_header_def Let_def cong: if_cong)

lemma tcp_forwarded:
  assumes I: "engine_inv E base s A D"
    and r: "sfe_ipv4_recv_tcp E K skb dev len ihl flush s = Some (Forwarded out, c, t)"
  shows "\<exists>pkt p flags. pskb_may_pull K skb (SIZEOF_TCP_HDR + ihl) = Some pkt \<and> p \<in> table_matches s (connl A) \<and>
    \<not> flush \<and> (len \<le> ucast (xmit_dev_mtu (cms s p)) \<or> skb_is_gso pkt) \<and>
    rd32 E pkt (unat ihl + 12) = Some flags \<and> fast_flags E flags \<and>
    sent_as (tcp_rewrite E) E K dev 6 len (unat ihl) s p pkt out"
proof -
  obtain pkt where pull: "pskb_may_pull K skb (SIZEOF_TCP_HDR + ihl) = Some pkt"
    using r by (auto simp: sfe_ipv4_recv_tcp_def split: option.splits)
  obtain si di sp dp flags f u where rd: "rd32 E pkt 12 = Some si" "rd32 E pkt 16 = Some di"
      "rd16 E pkt (unat ihl) = Some sp" "rd16 E pkt (unat ihl + 2) = Some dp"
      "rd32 E pkt (unat ihl + 12) = Some flags"
    and find: "sfe_ipv4_find_sfe_ipv4_connection_match E dev (ucast IPPROTO_TCP) si sp di dp s = Some (f, u)"
    and rest: "(case f of
             None \<Rightarrow>
               if fast_flags E flags then Some (reject TCP_NO_CONNECTION_FAST_FLAGS pkt u)
               else Some (reject TCP_NO_CONNECTION_SLOW_FLAGS pkt u)
           | Some cm \<Rightarrow>
               if flush then Some (reject_flush E cm TCP_IP_OPTIONS_OR_INITIAL_FRAGMENT pkt u)
               else if not_accelerated E (cms u cm) then Some (pass_slow pkt u)
               else do {
                 ttl \<leftarrow> rd8 pkt 8;
                 (if ttl < 2 then Some (reject_flush E cm TCP_SMALL_TTL pkt u)
                  else if ucast (xmit_dev_mtu (cms u cm)) < len \<and> \<not> skb_is_gso pkt
                  then Some (reject_flush E cm TCP_NEEDS_FRAGMENTATION pkt u)
                  else if \<not> fast_flags E flags then Some (reject_flush E cm TCP_FLAGS pkt u)
                  else do {
                    r \<leftarrow> tcp_track E cm len (unat ihl) pkt u;
                    (case r of
                       Inl e \<Rightarrow> Some (reject_flush E cm e pkt u)
                     | Inr s \<Rightarrow> tcp_forward E K cm len (unat ihl) ttl pkt s)
                  })
               }) = Some (Forwarded out, c, t)"
    using r by (auto simp: sfe_ipv4_recv_tcp_def pull bind_eq_Some_conv)
  show ?thesis
  proof (rule find_engine [OF I, of dev "ucast IPPROTO_TCP" si sp di dp])
    fix f' u' B
    assume find': "sfe_ipv4_find_sfe_ipv4_connection_match E dev (ucast IPPROTO_TCP) si sp di dp s = Some (f', u')"
      and B: "quiet s A u' B" and cm: "cms u' = cms s" and cn: "conns u' = conns s"
      and hit: "\<And>p. f' = Some p \<Longrightarrow> p \<in> table_matches u' (connl B) \<and>
        match_key u' p = (dev, ucast IPPROTO_TCP, si, sp, di, dp)"
    have u: "f' = f" "u' = u" using find find' by simp_all
    obtain p where f: "f = Some p" using rest by (cases f) (auto split: if_splits)
    have p: "p \<in> table_matches s (connl A)"
      using hit [of p] B table_matches_cong [OF cn] by (simp add: u f quiet_def)
    note key = match_keyD [OF conjunct2 [OF hit [of p, unfolded u, OF f]], unfolded cm [unfolded u]]
    obtain ttl q where b: "\<not> flush" "len \<le> ucast (xmit_dev_mtu (cms s p)) \<or> skb_is_gso pkt"
        "rd8 pkt 8 = Some ttl" "\<not> ttl < 2" "fast_flags E flags"
      and tr: "tcp_track E p len (unat ihl) pkt u = Some q"
      and go: "(case q of Inl e \<Rightarrow> Some (reject_flush E p e pkt u)
          | Inr s \<Rightarrow> tcp_forward E K p len (unat ihl) ttl pkt s) = Some (Forwarded out, c, t)"
      using rest cm [unfolded u]
      by (auto simp: f bind_eq_Some_conv not_less split: if_splits)
    obtain v where q: "q = Inr v" using go by (cases q) simp_all
    obtain w where w: "cms v p = (cms s p)\<lparr>cm_tcp := w\<rparr>"
      using tcp_track_cm [OF tr [unfolded q]] cm [unfolded u] by auto
    have fwd: "tcp_forward E K p len (unat ihl) ttl pkt v = Some (Forwarded out, c, t)"
      using go q by simp
    from forward_out(2) [OF fwd, unfolded w rewrite_tcp_state] show ?thesis
      using pull p b key rd
      by (auto simp: sent_as_def Let_def IPPROTO_TCP_def not_less intro!: exI [of _ p])
  qed
qed

section \<open>ICMP and other protocols are never forwarded\<close>

lemma icmp_not_forwarded: "sfe_ipv4_recv_icmp E K skb dev ihl s \<noteq> Some (Forwarded out, c, t)"
  by (auto simp: sfe_ipv4_recv_icmp_def Let_def icmp_flush_def
      bind_eq_Some_conv split: option.splits if_splits sum.splits)

lemma recv_forwarded:
  assumes I: "engine_inv E base s A D" and K: "kernel_ok K" and ok: "skb_ok skb"
    and r: "sfe_ipv4_recv E K dev skb sis now s = Some (Forwarded out, t)"
  shows "\<exists>pkt p (proto :: u8). same_packet skb pkt \<and> rd8 pkt 9 = Some proto \<and> p \<in> table_matches s (connl A) \<and>
    (skb_len skb \<le> ucast (xmit_dev_mtu (cms s p)) \<or> proto = 6 \<and> skb_is_gso skb) \<and>
    (proto = 17 \<and> 28 \<le> unat (skb_headlen pkt) \<and>
       sent_as (udp_rewrite E) E K dev 17 (skb_len skb) 20 s p pkt out \<or>
     proto = 6 \<and> 40 \<le> unat (skb_headlen pkt) \<and> (\<exists>flags. rd32 E pkt 32 = Some flags \<and> fast_flags E flags) \<and>
       sent_as (tcp_rewrite E) E K dev 6 (skb_len skb) 20 s p pkt out)"
proof -
  obtain c u where l: "sfe_ipv4_recv_locked E K dev skb s = Some (Forwarded out, c, u)"
    using r by (auto simp: sfe_ipv4_recv_def bind_eq_Some_conv)
  obtain skb1 where s1: "pskb_may_pull K skb SIZEOF_IP_HDR = Some skb1"
    using l by (auto simp: sfe_ipv4_recv_locked_def Let_def split: option.splits)
  note P1 = pulled [OF K ok s1]
  let ?Q = "\<exists>ihl flush. (\<not> flush \<longrightarrow> ihl = SIZEOF_IP_HDR) \<and>
    (rd8 skb1 9 = Some 17 \<and> sfe_ipv4_recv_udp E K skb1 dev (skb_len skb) ihl flush s = Some (Forwarded out, c, u) \<or>
     rd8 skb1 9 = Some 6 \<and> sfe_ipv4_recv_tcp E K skb1 dev (skb_len skb) ihl flush s = Some (Forwarded out, c, u))"
  have w1: ?Q if "rd8 skb1 9 = Some 17" "sfe_ipv4_recv_udp E K skb1 dev (skb_len skb) ihl fl s = Some (Forwarded out, c, u)"
    "\<not> fl \<Longrightarrow> ihl = SIZEOF_IP_HDR" for ihl fl using that by blast
  have w2: ?Q if "rd8 skb1 9 = Some 6" "sfe_ipv4_recv_tcp E K skb1 dev (skb_len skb) ihl fl s = Some (Forwarded out, c, u)"
    "\<not> fl \<Longrightarrow> ihl = SIZEOF_IP_HDR" for ihl fl using that by blast
  have ?Q
    using l unfolding sfe_ipv4_recv_locked_def s1 Let_def option.case protocol_bytes
    by (auto simp: bind_eq_Some_conv icmp_not_forwarded
        split: if_splits elim!: w1 w2)
  then obtain ihl flush where f: "\<not> flush \<Longrightarrow> ihl = SIZEOF_IP_HDR" and
    "rd8 skb1 9 = Some 17 \<and> sfe_ipv4_recv_udp E K skb1 dev (skb_len skb) ihl flush s = Some (Forwarded out, c, u) \<or>
     rd8 skb1 9 = Some 6 \<and> sfe_ipv4_recv_tcp E K skb1 dev (skb_len skb) ihl flush s = Some (Forwarded out, c, u)" by blast
  from this(2) show ?thesis
  proof (elim disjE conjE)
    assume b: "rd8 skb1 9 = Some 17" and
      "sfe_ipv4_recv_udp E K skb1 dev (skb_len skb) ihl flush s = Some (Forwarded out, c, u)"
    from udp_forwarded [OF I this(2)] obtain pkt p where
      q: "pskb_may_pull K skb1 (SIZEOF_UDP_HDR + ihl) = Some pkt" "p \<in> table_matches s (connl A)"
      "\<not> flush" "skb_len skb \<le> ucast (xmit_dev_mtu (cms s p))"
      "sent_as (udp_rewrite E) E K dev 17 (skb_len skb) (unat ihl) s p pkt out" by blast
    have "same_packet skb pkt" by (rule same_packet_trans [OF P1(4) pulled(4) [OF K P1(3) q(1)]])
    moreover note same_packet_rd8 [OF pulled(4) [OF K P1(3) q(1)] P1(3) b]
    moreover have "28 \<le> unat (skb_headlen pkt)"
      using pulled(1) [OF K P1(3) q(1)] f q(3) by (simp add: SIZEOF_IP_HDR_def SIZEOF_UDP_HDR_def)
    ultimately show ?thesis using q f
      by (intro exI [of _ pkt] exI [of _ p] exI [of _ 17]) (simp add: SIZEOF_IP_HDR_def)
  next
    assume b: "rd8 skb1 9 = Some 6" and
      "sfe_ipv4_recv_tcp E K skb1 dev (skb_len skb) ihl flush s = Some (Forwarded out, c, u)"
    from tcp_forwarded [OF I this(2)] obtain pkt p where
      q: "pskb_may_pull K skb1 (SIZEOF_TCP_HDR + ihl) = Some pkt" "p \<in> table_matches s (connl A)"
      "\<not> flush" "skb_len skb \<le> ucast (xmit_dev_mtu (cms s p)) \<or> skb_is_gso pkt"
      "sent_as (tcp_rewrite E) E K dev 6 (skb_len skb) (unat ihl) s p pkt out"
      and fl: "\<exists>flags. rd32 E pkt (unat ihl + 12) = Some flags \<and> fast_flags E flags" by blast
    have "same_packet skb pkt" by (rule same_packet_trans [OF P1(4) pulled(4) [OF K P1(3) q(1)]])
    moreover note same_packet_rd8 [OF pulled(4) [OF K P1(3) q(1)] P1(3) b]
    moreover have "40 \<le> unat (skb_headlen pkt)"
      using pulled(1) [OF K P1(3) q(1)] f q(3) by (simp add: SIZEOF_IP_HDR_def SIZEOF_TCP_HDR_def)
    ultimately show ?thesis using q f fl same_packetD(4) [of skb pkt]
      by (intro exI [of _ pkt] exI [of _ p] exI [of _ 6]) (simp add: SIZEOF_IP_HDR_def)
  qed
qed

section \<open>Replies\<close>

text \<open>The counterpart of a match receives the replies and translates them back.\<close>

lemma reply_translates:
  assumes I: "engine_inv E base s A D" and p: "p \<in> table_matches s (connl A)"
  defines "m \<equiv> cms s p" and "q \<equiv> cm_counter_match (cms s p)"
  shows "q \<in> table_matches s (connl A)" and "cm_counter_match (cms s q) = p"
    and "match_key s q = (xmit_dev m, match_protocol m, fst (eff_dest m), snd (eff_dest m),
           fst (eff_src m), snd (eff_src m))"
    and "xmit_dev (cms s q) = match_dev m"
    and "eff_src (cms s q) = (match_dest_ip m, match_dest_port m)"
    and "eff_dest (cms s q) = (match_src_ip m, match_src_port m)"
proof -
  let ?c = "cm_connection (cms s p)"
  note c = match_owner [OF I p]
  have po: "pair_ok s ?c" by (rule table_inv_conn(1) [OF engine_table [OF I] c(1)])
  have fl: "flow_ok s ?c" using I c(1) by (simp add: engine_inv_def)
  have pq: "p = original_match (conns s ?c) \<and> q = reply_match (conns s ?c) \<or>
      p = reply_match (conns s ?c) \<and> q = original_match (conns s ?c)"
    using po c(2) by (auto simp: pair_ok_def conn_matches_def q_def Let_def)
  then have "q \<in> conn_matches s ?c" by (auto simp: conn_matches_def)
  then show "q \<in> table_matches s (connl A)" using c(1) by (auto simp: table_matches_def)
  show "cm_counter_match (cms s q) = p" using po pq by (auto simp: pair_ok_def Let_def)
  have mir: "mirror m (cms s q)" "mirror (cms s q) m"
    using fl pq by (auto simp: flow_ok_def Let_def m_def)
  then show "match_key s q = (xmit_dev m, match_protocol m, fst (eff_dest m), snd (eff_dest m),
           fst (eff_src m), snd (eff_src m))"
    by (simp add: mirror_def match_key_def Let_def prod_eq_iff)
  show "xmit_dev (cms s q) = match_dev m" "eff_src (cms s q) = (match_dest_ip m, match_dest_port m)"
    "eff_dest (cms s q) = (match_src_ip m, match_src_port m)"
    using mir(2) by (simp_all add: mirror_def)
qed

end
