(* ===== verification/Sfe_Sync_Drain.thy ===== *)
theory Sfe_Sync_Drain
  imports Sfe_Sync_Loop Sfe_Rule_Inv
begin

text \<open>
  What the periodic synchronisation achieves: a period keeps the invariant of the engine and all packet
  and byte totals and reports no connection twice; 64 periods without traffic report every active
  connection and leave the active list empty.
\<close>

section \<open>The invariant\<close>

lemma only_synced_engine:
  assumes I: "engine_inv E base s A D" and o: "only_synced s t" and T: "table_inv E t A' D"
    and A': "connl A' = connl A"
  shows "engine_inv E base t A' D"
proof -
  have cm: "cm_static (cms t p) = cm_static (cms s p)" and cn: "conn_static (conns t c) = conn_static (conns s c)" for p c
    using o by (auto simp: only_synced_def fun_eq_iff)
  have "dev_uses t cs d = dev_uses s cs d" for cs d
    by (induction cs) (simp_all add: conn_staticD [OF cn])
  moreover have "dev_refcnt t = dev_refcnt s" using o by (simp add: only_synced_def)
  moreover have "conn_key t = conn_key s" by (simp add: fun_eq_iff only_synced_fields(3) [OF o])
  ultimately show ?thesis
    using I T static_flow_ok [OF cm cn] by (simp add: engine_inv_def refs_inv_def A')
qed

lemma only_synced_totals:
  assumes "only_synced s t"
  shows "total_packets (cms t p) = total_packets (cms s p)" and "total_bytes (cms t p) = total_bytes (cms s p)"
  using assms by (auto simp: only_synced_def fun_eq_iff)

section \<open>What the walk reports\<close>

lemma sync_walk_length: "length (fst (sync_walk co q xs)) \<le> q"
  by (induction co q xs rule: sync_walk.induct) (auto split: prod.splits)

lemma sync_walk_covers:
  assumes "\<And>x. x \<in> set xs \<Longrightarrow> ow (co x) = ow x"
  shows "ow ` set xs \<subseteq> ow ` set (fst (sync_walk co q xs)) \<union> ow ` set (snd (sync_walk co q xs))"
  using assms
proof (induction co q xs rule: sync_walk.induct)
  case (3 co q x xs)
  let ?w = "sync_walk co q (remove1 (co x) xs)"
  have ih: "ow ` set (remove1 (co x) xs) \<subseteq> ow ` set (fst ?w) \<union> ow ` set (snd ?w)"
    using 3 by (meson notin_set_remove1 set_remove1_subset set_subset_Cons subsetD)
  have "set xs \<subseteq> insert (co x) (set (remove1 (co x) xs))" by (induction xs) auto
  then have "ow ` set xs \<subseteq> insert (ow x) (ow ` set (remove1 (co x) xs))" using "3.prems" [of x] by auto
  with ih have "ow ` set xs \<subseteq> insert (ow x) (ow ` set (fst ?w) \<union> ow ` set (snd ?w))" by blast
  then show ?case by (simp add: split_beta Let_def)
qed auto

lemma owner_counter:
  assumes I: "table_inv E s A D" and p: "p \<in> set (actives A)"
  shows "owner_of s (counter_of s p) = owner_of s p" and "owner_of s p \<in> set (connl A)"
proof -
  note a = active_pair [OF I p]
  show "owner_of s p \<in> set (connl A)" using a(3) by (simp add: owner_of_def)
  have "counter_of s p \<in> conn_matches s (owner_of s p)" using a(4) by (simp add: owner_of_def counter_of_def)
  then show "owner_of s (counter_of s p) = owner_of s p"
    using conn_matches_owner [OF table_inv_conn(1) [OF I]] a(3) by (simp add: owner_of_def)
qed

lemma walk_keys:
  assumes I: "engine_inv E base s A D"
  defines "w q \<equiv> sync_walk (counter_of s) q (actives A)"
  shows "distinct (map (flow_key s) (fst (w q)))"
    and "set (map (flow_key s) (fst (w q))) \<subseteq> conn_key s ` set (connl A)"
proof -
  have T: "table_inv E s A D" and inj: "inj_on (conn_key s) (set (connl A))"
    using I by (simp_all add: engine_inv_def)
  have sub: "owner_of s ` set (fst (w q)) \<subseteq> set (connl A)"
    using owner_counter(2) [OF T] sync_walk_subset(1) [of "counter_of s" q "actives A"] by (auto simp: w_def)
  have "distinct (map (owner_of s) (fst (w q)))"
    using sync_walk_owners [OF active_paired(1) [OF T], of q] by (simp add: w_def)
  then have "distinct (map (conn_key s) (map (owner_of s) (fst (w q))))"
    using inj sub by (subst distinct_map) (auto intro: inj_on_subset)
  then show "distinct (map (flow_key s) (fst (w q)))" by (simp add: flow_key_def [abs_def] comp_def)
  show "set (map (flow_key s) (fst (w q))) \<subseteq> conn_key s ` set (connl A)"
    using sub by (auto simp: flow_key_def)
qed

section \<open>One period\<close>

lemma period_reports:
  assumes I: "engine_inv E base s A D" and cb: "sync_rule_callback s = Some cb"
  shows "\<exists>t A' ms. sfe_ipv4_periodic_sync sis now s = Some t \<and> engine_inv E base t A' D \<and>
    connl A' = connl A \<and> conn_key t = conn_key s \<and> only_synced s t \<and>
    sync_calls t = sync_calls s @ map (Pair cb) ms \<and>
    distinct (map sis_key ms) \<and> set (map sis_key ms) \<subseteq> conn_key s ` set (connl A) \<and>
    length ms \<le> sync_quota s"
proof -
  have T: "table_inv E s A D" using I by (simp add: engine_inv_def)
  let ?w = "sync_walk (counter_of s) (sync_quota s) (actives A)"
  obtain t ms where t: "sfe_ipv4_periodic_sync sis now s = Some t"
    and J: "table_inv E t (A\<lparr>actives := snd ?w\<rparr>) D" and o: "only_synced s t"
    and c: "sync_calls t = sync_calls s @ map (Pair cb) ms" and k: "map sis_key ms = map (flow_key s) (fst ?w)"
    by (rule periodic_sync [OF T cb, of sis now])
  have "engine_inv E base t (A\<lparr>actives := snd ?w\<rparr>) D" by (rule only_synced_engine [OF I o J]) simp
  moreover have "length ms \<le> sync_quota s"
    using arg_cong [OF k, of length] sync_walk_length [of "counter_of s" "sync_quota s" "actives A"] by simp
  moreover have "conn_key t = conn_key s" by (simp add: fun_eq_iff only_synced_fields(3) [OF o])
  ultimately show ?thesis
    using t o c walk_keys [OF I, of "sync_quota s"] unfolding k [symmetric]
    by (intro exI [of _ t] exI [of _ "A\<lparr>actives := snd ?w\<rparr>"] exI [of _ ms]) simp
qed

section \<open>Many periods\<close>

lemma periods_drain:
  assumes I: "engine_inv E base s A D" and cb: "sync_rule_callback s = Some cb"
    and n: "length (connl A) < 2 ^ 32 - 63"
  shows "\<exists>t A' ms. sync_periods 64 sis now s = Some t \<and> engine_inv E base t A' D \<and>
    connl A' = connl A \<and> actives A' = [] \<and> active_head t = None \<and>
    sync_calls t = sync_calls s @ map (Pair cb) ms \<and> distinct (map sis_key ms) \<and>
    set (map sis_key ms) = flow_key s ` set (actives A)"
proof -
  have T: "table_inv E s A D" using I by (simp add: engine_inv_def)
  let ?q = "64 * sync_quota s" and ?co = "counter_of s" and ?ow = "owner_of s"
  let ?w = "sync_walk ?co ?q (actives A)"
  obtain t ms where t: "sync_periods 64 sis now s = Some t"
    and J: "table_inv E t (A\<lparr>actives := snd ?w\<rparr>) D" and o: "only_synced s t"
    and c: "sync_calls t = sync_calls s @ map (Pair cb) ms" and k: "map sis_key ms = map (flow_key s) (fst ?w)"
    using periods [OF T cb, of 64 sis now] by blast
  have "num_connections s = of_nat (length (connl A))" using T by (simp add: table_inv_def)
  then have "length (connl A) \<le> ?q" using n by (rule sync_quota_round)
  then have "card (?ow ` set (actives A)) \<le> ?q" using active_paired(2) [OF T] by linarith
  then have "card (?ow ` set (snd ?w)) = 0"
    using sync_walk_owners [OF active_paired(1) [OF T], of ?q] by linarith
  then have e: "snd ?w = []" by simp
  have "?ow ` set (actives A) \<subseteq> ?ow ` set (fst ?w)"
    using sync_walk_covers [of "actives A" ?ow ?co ?q] owner_counter(1) [OF T] e by auto
  moreover have "?ow ` set (fst ?w) \<subseteq> ?ow ` set (actives A)"
    using sync_walk_subset(1) [of ?co ?q "actives A"] by auto
  ultimately have "?ow ` set (fst ?w) = ?ow ` set (actives A)" by blast
  then have "conn_key s ` ?ow ` set (fst ?w) = conn_key s ` ?ow ` set (actives A)" by (rule arg_cong)
  then have "set (map sis_key ms) = flow_key s ` set (actives A)"
    unfolding k by (simp add: image_image flow_key_def)
  moreover have "engine_inv E base t (A\<lparr>actives := []\<rparr>) D"
    by (rule only_synced_engine [OF I o J [unfolded e]]) simp
  moreover have "active_head t = None"
    using J e by (simp add: table_inv_def lists_rep_def act.trepr_def act.repr_def dll_def)
  ultimately show ?thesis
    using t c walk_keys(1) [OF I, of ?q] unfolding k [symmetric]
    by (intro exI [of _ t] exI [of _ "A\<lparr>actives := []\<rparr>"] exI [of _ ms]) simp
qed

end
