(* ===== verification/Sfe_Path.thy ===== *)
theory Sfe_Path
  imports Sfe_Demo Sfe_Forward Sfe_Recv_Safe Sfe_Sync_Drain
begin

text \<open>
  The packet path as a whole: what one call of \<open>sfe_ipv4_recv\<close> does to the engine, what it returns
  and what leaves the machine.
\<close>

section \<open>Reports of a packet\<close>

text \<open>The packet counters after a packet: forwarded packets and all others.\<close>

fun outcome_counted :: "recv_outcome \<Rightarrow> sfe_ipv4 \<Rightarrow> sfe_ipv4 \<Rightarrow> bool" where
  "outcome_counted (Forwarded pkt) s t \<longleftrightarrow> packets_forwarded t = packets_forwarded s + 1 \<and>
     packets_not_forwarded t = packets_not_forwarded s"
| "outcome_counted out s t \<longleftrightarrow> packets_forwarded t = packets_forwarded s \<and>
     packets_not_forwarded t = packets_not_forwarded s + 1"

lemma flush_flow_counters:
  "packets_forwarded (sfe_ipv4_flush_sfe_ipv4_connection c reason sis now s) = packets_forwarded s"
  "packets_not_forwarded (sfe_ipv4_flush_sfe_ipv4_connection c reason sis now s) = packets_not_forwarded s"
  by (simp_all add: flush_conv Let_def kfree_conn_def kfree_cm_def dev_put_def flush_report_def
      sfe_ipv4_gen_sync_sfe_ipv4_connection_def sfe_ipv4_connection_match_update_summary_stats_def
      call_sync_rule_def upd_cm_def upd_conn_def split: option.splits)

lemma flush_calls:
  "\<exists>m. sis_key m = conn_key s c \<and> sis_reason m = reason \<and>
    sync_calls (sfe_ipv4_flush_sfe_ipv4_connection c reason sis now s) = sync_calls s @
      (case sync_rule_callback s of None \<Rightarrow> [] | Some cb \<Rightarrow> [(cb, m)])"
proof -
  let ?s = "s\<lparr>connection_flushes := connection_flushes s + 1\<rparr>"
  obtain m u where g: "sfe_ipv4_gen_sync_sfe_ipv4_connection c sis reason now ?s = (m, u)" by fastforce
  have "sync_calls (sfe_ipv4_flush_sfe_ipv4_connection c reason sis now s) =
      sync_calls (flush_report c reason sis now s)"
    by (simp add: flush_conv Let_def kfree_conn_def kfree_cm_def dev_put_def)
  then have "sync_calls (sfe_ipv4_flush_sfe_ipv4_connection c reason sis now s) = sync_calls s @
      (case sync_rule_callback s of None \<Rightarrow> [] | Some cb \<Rightarrow> [(cb, m)])"
    by (simp add: flush_report_calls g split: option.split)
  moreover have "sis_key m = conn_key s c" "sis_reason m = reason"
    using gen_sync_message [OF g] by (simp_all add: sis_key_def conn_key_def Let_def)
  ultimately show ?thesis by blast
qed

text \<open>
  What a packet may do to the flows: nothing, or it takes one flow away, which is reported to
  whoever registered for it.
\<close>

definition gives_up :: "conn_key list \<Rightarrow> sfe_ipv4 \<Rightarrow> sfe_abs \<Rightarrow> sfe_ipv4 \<Rightarrow> sfe_abs \<Rightarrow> bool" where
  "gives_up ks s A t B \<longleftrightarrow> set ks \<subseteq> flow_keys s A \<and> flow_keys t B = flow_keys s A - set ks \<and>
     (\<exists>ms. map sis_key ms = ks \<and> (\<forall>m\<in>set ms. sis_reason m = SFE_SYNC_REASON_FLUSH) \<and>
        sync_calls t = sync_calls s @
          (case sync_rule_callback s of None \<Rightarrow> [] | Some cb \<Rightarrow> map (Pair cb) ms))"

lemma gives_up_one:
  assumes I: "engine_inv E base s A D" and c: "c \<in> set (connl A)" and B: "connl B = remove1 c (connl A)"
    and k: "conn_key t = conn_key s"
    and m: "sis_key m = conn_key s c" "sis_reason m = SFE_SYNC_REASON_FLUSH"
    and y: "sync_calls t = sync_calls s @ (case sync_rule_callback s of None \<Rightarrow> [] | Some cb \<Rightarrow> [(cb, m)])"
  shows "gives_up [conn_key s c] s A t B"
proof -
  have d: "distinct (connl A)" and inj: "inj_on (conn_key s) (set (connl A))"
    using I by (auto simp: engine_inv_def table_inv_def lists_rep_def)
  have "set (connl B) = set (connl A) - {c}" using B d by (simp add: set_remove1_eq)
  then have "flow_keys t B = flow_keys s A - {conn_key s c}"
    using inj_on_image_set_diff [OF inj, of "set (connl A)" "{c}"] c by (simp add: flow_keys_def k)
  moreover have "conn_key s c \<in> flow_keys s A" using c by (simp add: flow_keys_def)
  ultimately show ?thesis
    unfolding gives_up_def using m y
    by (intro conjI exI [of _ "[m]"]) (simp_all add: list.map(2) list.map(1) split: option.split)
qed

lemma recv_effect:
  assumes I: "engine_inv E base s A D" and r: "sfe_ipv4_recv E K dev skb sis now s = Some (out, t)"
  shows "\<exists>B ks. engine_inv E base t B D \<and> gives_up ks s A t B \<and> length ks \<le> 1 \<and>
    (\<forall>pkt. out = Forwarded pkt \<longrightarrow> ks = []) \<and> outcome_counted out s t"
proof -
  obtain c u where l: "sfe_ipv4_recv_locked E K dev skb s = Some (out, c, u)"
    and t: "t = flush_pending c sis now u"
    using r by (auto simp: sfe_ipv4_recv_def bind_eq_Some_conv)
  then obtain B where J: "engine_inv E base u B (pend_list c @ D)" and o: "taken_out c A B"
    and k: "conn_key u = conn_key s" and y: "sync_calls u = sync_calls s"
    and cb: "sync_rule_callback u = sync_rule_callback s" and n: "counted out c s u"
    using recv_locked_handles [OF I, of K dev skb] by (auto simp: handles_def handled_def)
  show ?thesis
  proof (cases c)
    case None
    have "gives_up [] s A t B"
      using o y by (auto simp: None t flush_pending_def gives_up_def flow_keys_def k split: option.splits)
    moreover have "outcome_counted out s t" using n by (cases out) (auto simp: None t flush_pending_def)
    ultimately show ?thesis using J
      by (intro exI [of _ B] exI [of _ "[]"]) (simp add: None t flush_pending_def)
  next
    case (Some d)
    have te: "t = sfe_ipv4_flush_sfe_ipv4_connection d SFE_SYNC_REASON_FLUSH sis now u"
      by (simp add: t Some flush_pending_def)
    have kt: "conn_key t = conn_key s" by (simp add: te k flush_flow)
    obtain m where m: "sis_key m = conn_key u d" "sis_reason m = SFE_SYNC_REASON_FLUSH"
      and ym: "sync_calls t = sync_calls u @ (case sync_rule_callback u of None \<Rightarrow> [] | Some cb \<Rightarrow> [(cb, m)])"
      using flush_calls [of u d SFE_SYNC_REASON_FLUSH sis now] te by blast
    have "gives_up [conn_key s d] s A t B"
      by (rule gives_up_one [OF I _ _ kt m(1) [unfolded k] m(2) ym [unfolded y cb]])
        (use o in \<open>simp_all add: Some\<close>)
    moreover have "engine_inv E base t B D" using J by (simp add: Some te flush_engine)
    moreover have "outcome_counted out s t" "\<forall>pkt. out \<noteq> Forwarded pkt"
      using n by (cases out; simp add: Some te flush_flow_counters)+
    ultimately show ?thesis by (intro exI [of _ B] exI [of _ "[conn_key s d]"]) simp
  qed
qed

section \<open>What is forwarded\<close>

text \<open>Source and destination of a packet without IP options.\<close>

definition ip_flow :: "sfe_env \<Rightarrow> sk_buff \<Rightarrow> ((u32 \<times> u16) \<times> (u32 \<times> u16)) option" where
  "ip_flow E pkt = do {
     si \<leftarrow> rd32 E pkt 12;
     sp \<leftarrow> rd16 E pkt 20;
     di \<leftarrow> rd32 E pkt 16;
     dp \<leftarrow> rd16 E pkt 22;
     Some ((si, sp), (di, dp))
   }"

text \<open>The sum a transport checksum has to balance: the checksum field, the addresses and the ports.\<close>

definition l4_sum :: "u16 \<Rightarrow> (u32 \<times> u16) \<times> (u32 \<times> u16) \<Rightarrow> nat" where
  "l4_sum ck f = unat ck + unat (fst (fst f)) + unat (snd (fst f)) + unat (fst (snd f)) + unat (snd (snd f))"

text \<open>
  \<open>pkt'\<close> is \<open>pkt\<close> with source and destination, TTL, TOS and the two checksums replaced as the match
  says; \<open>co\<close> is the offset of the transport checksum.
\<close>

definition translated ::
  "sfe_env \<Rightarrow> nat \<Rightarrow> sfe_ipv4_connection_match \<Rightarrow> sk_buff \<Rightarrow> sk_buff \<Rightarrow> bool" where
  "translated E co m pkt pkt' \<longleftrightarrow>
     (let f = ((match_src_ip m, match_src_port m), (match_dest_ip m, match_dest_port m));
          f' = (eff_src m, eff_dest m)
      in ip_flow E pkt = Some f \<and> ip_flow E pkt' = Some f' \<and>
         (\<exists>ttl. rd8 pkt 8 = Some ttl \<and> 2 \<le> ttl \<and> rd8 pkt' 8 = Some (ttl - 1)) \<and>
         ip_header_sum E pkt' mod 65535 = 0 \<and> skb_len pkt' = skb_len pkt \<and>
         (\<forall>i < unat (skb_len pkt). i \<notin> {1, 8} \<union> {10..<24} \<union> {co, co + 1} \<longrightarrow>
            skb_bytes pkt' i = skb_bytes pkt i) \<and>
         (\<forall>ck. rd16 E pkt co = Some ck \<longrightarrow> ck \<noteq> 0 \<longrightarrow> \<not> skb_partial pkt \<longrightarrow>
            (\<exists>ck'. rd16 E pkt' co = Some ck' \<and> ck' \<noteq> 0 \<and> l4_sum ck' f' mod 65535 = l4_sum ck f mod 65535)))"

lemma own_packet_same:
  assumes "kernel_ok K" and "skb_ok pkt" and "own_packet K pkt = Some own"
  shows "skb_ok own" and "skb_headlen pkt \<le> skb_headlen own" and "skb_len own = skb_len pkt"
    and "i < unat (skb_len pkt) \<Longrightarrow> skb_bytes own i = skb_bytes pkt i"
    and "skb_partial own = skb_partial pkt"
    and "rd16 E pkt j = Some v \<Longrightarrow> rd16 E own j = Some v"
    and "rd32 E pkt j = Some w \<Longrightarrow> rd32 E own j = Some w"
proof -
  have "own = pkt \<or> same_packet pkt own \<and> skb_ok own"
    using assms kernel_unshare [OF assms(1,2), of own] by (auto simp: own_packet_def split: if_splits)
  then show "skb_ok own" and "skb_headlen pkt \<le> skb_headlen own" and "skb_len own = skb_len pkt"
    and "i < unat (skb_len pkt) \<Longrightarrow> skb_bytes own i = skb_bytes pkt i"
    and "skb_partial own = skb_partial pkt"
    and "rd16 E pkt j = Some v \<Longrightarrow> rd16 E own j = Some v"
    and "rd32 E pkt j = Some w \<Longrightarrow> rd32 E own j = Some w"
    using assms(2) same_packetD [of pkt own] same_packet_rd16 [of pkt own] same_packet_rd32 [of pkt own]
    by (elim disjE conjE; simp)+
qed

lemma sent_as_translated:
  assumes K: "kernel_ok K" and ok: "skb_ok pkt" and len: "co + 1 < unat (skb_headlen pkt)" and co: "23 < co"
    and adj: "adjusted (cms s p)" and S: "sent_as (l4_rewrite E sz co) E K dev proto n 20 s p pkt out"
  shows "\<exists>pkt' mark. out = address_packet K (cms s p) mark n pkt' \<and> translated E co (cms s p) pkt pkt'"
proof -
  let ?m = "cms s p"
  from S obtain own pkt' ttl mark where
    key: "rd32 E pkt 12 = Some (match_src_ip ?m)" "rd32 E pkt 16 = Some (match_dest_ip ?m)"
      "rd16 E pkt 20 = Some (match_src_port ?m)" "rd16 E pkt 22 = Some (match_dest_port ?m)"
    and ttl: "rd8 pkt 8 = Some ttl" "2 \<le> ttl" and own: "own_packet K pkt = Some own"
    and rw: "l4_rewrite E sz co ?m 20 ttl own = Some pkt'" and out: "out = address_packet K ?m mark n pkt'"
    by (auto simp: sent_as_def Let_def)
  note O = own_packet_same [OF K ok own]
  obtain ck where ck: "rd16 E pkt co = Some ck" using rd16_total [OF len] by blast
  have len': "co + 1 < unat (skb_headlen own)" using len O(2) by (simp add: word_le_nat_alt)
  have o: "20 \<le> (20 :: nat)" "20 + 3 < co" and d: "rd16 E own (20 + 2) = Some (match_dest_port ?m)"
    using co O(6) [OF key(4)] by simp_all
  obtain q where q: "l4_rewrite E sz co ?m 20 ttl own = Some q"
    and pa: "patched ({1, 8, 10, 11} \<union> {12..<20} \<union> {20..<20 + 4} \<union> {co, co + 1}) own q"
    and f: "rd8 q 8 = Some (ttl - 1)" "ip_header_sum E q mod 65535 = 0"
      "rd32 E q 12 = Some (fst (eff_src ?m))" "rd16 E q 20 = Some (snd (eff_src ?m))"
      "rd32 E q 16 = Some (fst (eff_dest ?m))" "rd16 E q (20 + 2) = Some (snd (eff_dest ?m))"
      "rd16 E q co = Some (rewritten_check ?m sz (skb_partial own) ck)"
    by (rule l4_rewrite_spec [OF len' o O(6) [OF ck] O(7) [OF key(1)] O(6) [OF key(3)] O(7) [OF key(2)] d, of sz ttl])
  have qp: "q = pkt'" using q rw by simp
  have pa: "patched ({1, 8} \<union> {10..<24} \<union> {co, co + 1}) own pkt'"
    using pa unfolding qp by (rule patched_mono) auto
  have b: "skb_bytes pkt' i = skb_bytes pkt i" if "i < unat (skb_len pkt)"
    "i \<notin> {1, 8} \<union> {10..<24} \<union> {co, co + 1}" for i
    using pa O(4) [OF that(1)] that(2) unfolding patched_def by simp
  have "translated E co ?m pkt pkt'"
    unfolding translated_def Let_def
  proof (intro conjI allI impI)
    show "ip_flow E pkt = Some ((match_src_ip ?m, match_src_port ?m), (match_dest_ip ?m, match_dest_port ?m))"
      by (simp add: ip_flow_def key)
    show "ip_flow E pkt' = Some (eff_src ?m, eff_dest ?m)"
      using f(3-6) by (simp add: ip_flow_def qp)
    show "\<exists>ttl. rd8 pkt 8 = Some ttl \<and> 2 \<le> ttl \<and> rd8 pkt' 8 = Some (ttl - 1)"
      using ttl f(1) qp by blast
    show "ip_header_sum E pkt' mod 65535 = 0" using f(2) by (simp add: qp)
    show "skb_len pkt' = skb_len pkt" using patched_fields(1) [OF pa] O(3) by simp
    show "skb_bytes pkt' i = skb_bytes pkt i" if "i < unat (skb_len pkt)"
      "i \<notin> {1, 8} \<union> {10..<24} \<union> {co, co + 1}" for i
      using that by (rule b)
    fix ck1
    assume c1: "rd16 E pkt co = Some ck1" "ck1 \<noteq> 0" "\<not> skb_partial pkt"
    then have "rd16 E pkt' co = Some (rewritten_check ?m sz False ck1)" using f(7) ck O(5) qp by simp
    moreover have "rewritten_check ?m sz False ck1 \<noteq> 0" by (rule rewritten_check_nonzero [OF c1(2)])
    ultimately show "\<exists>ck'. rd16 E pkt' co = Some ck' \<and> ck' \<noteq> 0 \<and>
        l4_sum ck' (eff_src ?m, eff_dest ?m) mod 65535 =
        l4_sum ck1 ((match_src_ip ?m, match_src_port ?m), (match_dest_ip ?m, match_dest_port ?m)) mod 65535"
      using rewritten_check_mod [OF adj c1(2), of sz] by (simp add: l4_sum_def)
  qed
  with out show ?thesis by blast
qed

lemma table_adjusted:
  assumes I: "engine_inv E base s A D" and p: "p \<in> table_matches s (connl A)"
  shows "adjusted (cms s p)"
proof -
  note c = match_owner [OF I p]
  have "flow_ok s (cm_connection (cms s p))" using I c(1) by (simp add: engine_inv_def)
  with c(2) show ?thesis by (auto simp: flow_ok_def conn_matches_def Let_def)
qed

text \<open>The packets an interface may send without fragmenting: small ones and segmented TCP.\<close>

definition fits_device :: "sfe_ipv4_connection_match \<Rightarrow> sk_buff \<Rightarrow> bool" where
  "fits_device m skb \<longleftrightarrow> skb_len skb \<le> ucast (xmit_dev_mtu m) \<or> match_protocol m = 6 \<and> skb_is_gso skb"

lemma recv_translated:
  assumes I: "engine_inv E base s A D" and K: "kernel_ok K" and ok: "skb_ok skb"
    and r: "sfe_ipv4_recv E K dev skb sis now s = Some (Forwarded out, t)"
  shows "\<exists>p pkt pkt' mark. p \<in> table_matches s (connl A) \<and> same_packet skb pkt \<and>
    rd8 pkt 9 = Some (match_protocol (cms s p)) \<and> match_dev (cms s p) = dev \<and> fits_device (cms s p) skb \<and>
    out = address_packet K (cms s p) mark (skb_len skb) pkt' \<and>
    (match_protocol (cms s p) = 17 \<and> translated E 26 (cms s p) pkt pkt' \<or>
     match_protocol (cms s p) = 6 \<and> translated E 36 (cms s p) pkt pkt' \<and>
       (\<exists>flags. rd32 E pkt 32 = Some flags \<and> fast_flags E flags))"
proof -
  from recv_forwarded [OF I K ok r] obtain pkt p and proto :: u8 where
    sp: "same_packet skb pkt" and b9: "rd8 pkt 9 = Some proto" and p: "p \<in> table_matches s (connl A)"
    and mtu: "skb_len skb \<le> ucast (xmit_dev_mtu (cms s p)) \<or> proto = 6 \<and> skb_is_gso skb"
    and alt: "proto = 17 \<and> 28 \<le> unat (skb_headlen pkt) \<and>
       sent_as (udp_rewrite E) E K dev 17 (skb_len skb) 20 s p pkt out \<or>
     proto = 6 \<and> 40 \<le> unat (skb_headlen pkt) \<and> (\<exists>flags. rd32 E pkt 32 = Some flags \<and> fast_flags E flags) \<and>
       sent_as (tcp_rewrite E) E K dev 6 (skb_len skb) 20 s p pkt out" by blast
  have okp: "skb_ok pkt" unfolding skb_ok_def by (rule same_packetD(6) [OF sp])
  note T = sent_as_translated [OF K okp _ _ table_adjusted [OF I p]]
  have pr: "rd8 pkt 9 = Some (match_protocol (cms s p)) \<and> match_dev (cms s p) = dev \<and>
      match_protocol (cms s p) = (if proto = 17 then 17 else 6)"
    using alt b9 by (auto simp: sent_as_def Let_def)
  from alt show ?thesis
  proof (elim disjE conjE)
    assume a: "proto = 17" "28 \<le> unat (skb_headlen pkt)"
      "sent_as (udp_rewrite E) E K dev 17 (skb_len skb) 20 s p pkt out"
    then have S: "sent_as (l4_rewrite E True 26) E K dev 17 (skb_len skb) 20 s p pkt out"
      by (simp add: sent_as_def rewrite_conv)
    have l: "26 + 1 < unat (skb_headlen pkt)" "23 < (26 :: nat)" using a(2) by simp_all
    from T [OF l S] obtain pkt' mark where
      "out = address_packet K (cms s p) mark (skb_len skb) pkt'" "translated E 26 (cms s p) pkt pkt'" by blast
    with sp p pr mtu a(1) show ?thesis unfolding fits_device_def by auto
  next
    assume a: "proto = 6" "40 \<le> unat (skb_headlen pkt)" "\<exists>flags. rd32 E pkt 32 = Some flags \<and> fast_flags E flags"
      "sent_as (tcp_rewrite E) E K dev 6 (skb_len skb) 20 s p pkt out"
    then have S: "sent_as (l4_rewrite E False 36) E K dev 6 (skb_len skb) 20 s p pkt out"
      by (simp add: sent_as_def rewrite_conv)
    have l: "36 + 1 < unat (skb_headlen pkt)" "23 < (36 :: nat)" using a(2) by simp_all
    from T [OF l S] obtain pkt' mark where
      "out = address_packet K (cms s p) mark (skb_len skb) pkt'" "translated E 36 (cms s p) pkt pkt'" by blast
    with sp p pr mtu a(1,3) show ?thesis unfolding fits_device_def by auto
  qed
qed

section \<open>Properties\<close>

text \<open>An exception that is only counted costs no flow.\<close>

lemma counted_only:
  assumes I: "engine_inv E base s A D"
  shows "engine_inv E base (count_exception e s) A D" and "gives_up [] s A (count_exception e s) A"
    and "outcome_counted (NotForwarded pkt) s (count_exception e s)"
proof -
  show "engine_inv E base (count_exception e s) A D"
    using I by (rule same_table_engine) (simp_all add: count_exception_def same_table_def)
  show "gives_up [] s A (count_exception e s) A"
    by (simp add: gives_up_def flow_keys_def count_exception_def conn_key_def split: option.split)
qed (simp add: count_exception_def)

text \<open>The packet of the demonstration arrives and is forwarded.\<close>

fun is_forwarded :: "(recv_outcome \<times> sfe_ipv4) option \<Rightarrow> bool" where
  "is_forwarded (Some (Forwarded pkt, t)) = True"
| "is_forwarded r = False"

lemma demo_forwards: "is_forwarded (sfe_ipv4_recv demo_env demo_kernel 1 demo_skb demo_sis 5 demo_state)"
  by code_simp

lemma demo_skb_ok: "skb_ok demo_skb" "tcp_linear demo_skb"
  by (simp_all add: skb_ok_def tcp_linear_def demo_skb_def demo_bytes_def)

text \<open>The engine after that packet: the flow is active.\<close>

definition demo_busy :: sfe_ipv4 where
  "demo_busy = (case sfe_ipv4_recv demo_env demo_kernel 1 demo_skb demo_sis 5 demo_state of
     Some (out, t) \<Rightarrow> t | None \<Rightarrow> demo_state)"

lemma demo_busy_fields: "sync_rule_callback demo_busy = Some 7" "active_head demo_busy = Some 0"
  by code_simp+

lemma demo_busy:
  obtains B where "engine_inv demo_env no_refs demo_busy B []" and "length (connl B) \<le> 1"
    and "actives B \<noteq> []"
proof (rule demo_inv)
  fix A
  assume I: "engine_inv demo_env no_refs demo_state A []" and c: "connl A = [0]"
  obtain out t where r: "sfe_ipv4_recv demo_env demo_kernel 1 demo_skb demo_sis 5 demo_state = Some (Forwarded out, t)"
    using demo_forwards by (rule is_forwarded.elims(2)) blast
  then have t: "demo_busy = t" by (simp add: demo_busy_def)
  from recv_engine [OF I r] obtain B where J: "engine_inv demo_env no_refs t B []"
    and l: "connl B = connl A \<or> (\<exists>c\<in>set (connl A). connl B = remove1 c (connl A))" by blast
  have "active_head t = Some 0" using demo_busy_fields(2) t by simp
  then have "actives B \<noteq> []"
    using engine_table [OF J] by (auto simp: table_inv_def lists_rep_def act.trepr_def dll_def)
  with J l show thesis using that [of B] by (auto simp: c t)
qed

text \<open>
  C2: A packet whose TCP options, if it claims any, are in the linear area and are not cut off after a
  kind byte is handled: the receive function returns, and it follows no NULL link and reads and writes
  nothing outside the linear part of the packet. The engine stays consistent, exactly one of the two
  packet counters grows, a forwarded packet costs no flow, any other packet costs at most one flow of the
  engine, and that flow is reported as flushed. A packet that is neither UDP, TCP nor ICMP is handed back
  as it came, costs no flow and is counted as one exception. (On other packets the option parser
  can read behind the linear area, see the last lemma of this theory.)
\<close>

theorem every_packet_handled:
  assumes "engine_inv E base s A D" and "kernel_ok K" and "skb_ok skb" and "tcp_linear skb"
  shows "\<exists>out t B ks. sfe_ipv4_recv E K dev skb sis now s = Some (out, t) \<and> engine_inv E base t B D \<and>
    outcome_counted out s t \<and> gives_up ks s A t B \<and> length ks \<le> 1 \<and>
    (\<forall>pkt. out = Forwarded pkt \<longrightarrow> ks = []) \<and>
    (skb_bytes skb 9 \<notin> {1, 6, 17} \<longrightarrow>
      (\<exists>e pkt. out = NotForwarded pkt \<and> same_packet skb pkt \<and> t = count_exception e s) \<and> ks = [])"
proof -
  obtain out t where r: "sfe_ipv4_recv E K dev skb sis now s = Some (out, t)"
    using recv_runs [OF assms] by blast
  show ?thesis
  proof (cases "skb_bytes skb 9 \<in> {1, 6, 17}")
    case True
    then show ?thesis using r recv_effect [OF assms(1) r] by blast
  next
    case False
    obtain e pkt where o: "out = NotForwarded pkt" "same_packet skb pkt" "t = count_exception e s"
      using other_protocol_rejected [OF assms(2,3) False r] by blast
    show ?thesis
      using r counted_only(1,2) [OF assms(1), of e] counted_only(3) [OF assms(1), of pkt e] o
      by (intro exI [of _ out] exI [of _ t] exI [of _ A] exI [of _ "[]"]) auto
  qed
qed

theorem every_packet_handled_witness:
  "\<exists>A out t B ks. flow_keys demo_state A \<noteq> {} \<and>
    sfe_ipv4_recv demo_env demo_kernel 1 demo_skb demo_sis 5 demo_state = Some (out, t) \<and>
    engine_inv demo_env no_refs t B [] \<and>
    outcome_counted out demo_state t \<and> gives_up ks demo_state A t B \<and> length ks \<le> 1 \<and>
    (\<forall>pkt. out = Forwarded pkt \<longrightarrow> ks = []) \<and>
    (skb_bytes demo_skb 9 \<notin> {1, 6, 17} \<longrightarrow>
      (\<exists>e pkt. out = NotForwarded pkt \<and> same_packet demo_skb pkt \<and> t = count_exception e demo_state) \<and> ks = [])"
proof (rule demo_inv)
  fix A
  assume I: "engine_inv demo_env no_refs demo_state A []" and "connl A = [0]"
  then have "flow_keys demo_state A \<noteq> {}" by (simp add: flow_keys_def)
  with every_packet_handled [OF I demo_kernel_ok demo_skb_ok, of 1 demo_sis 5] show ?thesis by blast
qed

text \<open>
  C3: A packet leaves only if it belongs to a flow of the engine, by protocol, addresses and ports, arrived
  on the device of that flow, has a TTL of at least 2, fits the outgoing device (or is segmented TCP) and, for TCP, carries
  ACK without SYN, RST and FIN. What leaves is the packet with the translated source and
  destination, a TTL less by one, a valid header checksum, a transport checksum that covers the new
  addresses and ports as it covered the old ones, and every other byte except TOS unchanged.
\<close>

theorem forwarded_is_translated:
  assumes "engine_inv E base s A D" and "kernel_ok K" and "skb_ok skb"
    and "sfe_ipv4_recv E K dev skb sis now s = Some (Forwarded out, t)"
  shows "\<exists>p pkt pkt' mark. p \<in> table_matches s (connl A) \<and> same_packet skb pkt \<and>
    rd8 pkt 9 = Some (match_protocol (cms s p)) \<and> match_dev (cms s p) = dev \<and> fits_device (cms s p) skb \<and>
    out = address_packet K (cms s p) mark (skb_len skb) pkt' \<and>
    (match_protocol (cms s p) = 17 \<and> translated E 26 (cms s p) pkt pkt' \<or>
     match_protocol (cms s p) = 6 \<and> translated E 36 (cms s p) pkt pkt' \<and>
       (\<exists>flags. rd32 E pkt 32 = Some flags \<and> fast_flags E flags))"
  by (rule recv_translated [OF assms])

theorem forwarded_is_translated_witness:
  "\<exists>(A :: sfe_abs) out t. sfe_ipv4_recv demo_env demo_kernel 1 demo_skb demo_sis 5 demo_state =
      Some (Forwarded out, t) \<and> (\<exists>p pkt pkt' mark.
    p \<in> table_matches demo_state (connl A) \<and> same_packet demo_skb pkt \<and>
    rd8 pkt 9 = Some (match_protocol (cms demo_state p)) \<and> match_dev (cms demo_state p) = 1 \<and> fits_device (cms demo_state p) demo_skb \<and>
    out = address_packet demo_kernel (cms demo_state p) mark (skb_len demo_skb) pkt' \<and>
    (match_protocol (cms demo_state p) = 17 \<and> translated demo_env 26 (cms demo_state p) pkt pkt' \<or>
     match_protocol (cms demo_state p) = 6 \<and> translated demo_env 36 (cms demo_state p) pkt pkt' \<and>
       (\<exists>flags. rd32 demo_env pkt 32 = Some flags \<and> fast_flags demo_env flags)))"
proof (rule demo_inv)
  fix A
  assume I: "engine_inv demo_env no_refs demo_state A []"
  obtain out t where r: "sfe_ipv4_recv demo_env demo_kernel 1 demo_skb demo_sis 5 demo_state = Some (Forwarded out, t)"
    using demo_forwards by (rule is_forwarded.elims(2)) blast
  show ?thesis by (intro exI) (rule conjI [OF r forwarded_is_translated [OF I demo_kernel_ok demo_skb_ok(1) r]])
qed

text \<open>A TCP flow over the same devices and addresses, and a segment of it without data.\<close>

definition tcp_state :: sfe_ipv4 where
  "tcp_state = (case sfe_ipv4_create_rule demo_env (demo_sic\<lparr>sic_protocol := 6\<rparr>) demo_alloc 100 demo_start of
     Some (res, s) \<Rightarrow> s | None \<Rightarrow> demo_start)"

definition tcp_skb :: "u8 \<Rightarrow> sk_buff" where
  "tcp_skb offs = demo_skb\<lparr>skb_len := 40, skb_headlen := 40, skb_bytes := (\<lambda>i. if i < 40 then
     ([0x45, 0, 0, 40, 0, 0, 0, 0, 64, 6, 0, 0, 10, 0, 0, 2, 8, 8, 8, 8,
       16, 0, 0, 53, 0, 0, 0, 0, 0, 0, 0, 0, offs, 0x10, 0, 0, 0, 0, 0, 0] :: u8 list) ! i else 0)\<rparr>"

fun runs_off :: "'a option \<Rightarrow> bool" where
  "runs_off None = True"
| "runs_off (Some x) = False"

text \<open>
  A segment of 40 bytes whose data offset claims 60 bytes of TCP header makes the receive
  function read options behind the end of the packet: the option parser runs before the check that
  the header fits, and only the fixed header has been pulled. The same segment with the true offset
  is forwarded.
\<close>

theorem tcp_options_read_past_packet:
  "skb_ok (tcp_skb 0xf0) \<and> kernel_ok demo_kernel \<and>
   sfe_ipv4_recv demo_env demo_kernel 1 (tcp_skb 0xf0) demo_sis 5 tcp_state = None \<and>
   is_forwarded (sfe_ipv4_recv demo_env demo_kernel 1 (tcp_skb 0x50) demo_sis 5 tcp_state)"
proof (intro conjI)
  show "skb_ok (tcp_skb 0xf0)" by (simp add: skb_ok_def tcp_skb_def)
  show "kernel_ok demo_kernel" by (rule demo_kernel_ok)
  have "runs_off (sfe_ipv4_recv demo_env demo_kernel 1 (tcp_skb 0xf0) demo_sis 5 tcp_state)" by code_simp
  then show "sfe_ipv4_recv demo_env demo_kernel 1 (tcp_skb 0xf0) demo_sis 5 tcp_state = None"
    by (rule runs_off.elims(2))
  show "is_forwarded (sfe_ipv4_recv demo_env demo_kernel 1 (tcp_skb 0x50) demo_sis 5 tcp_state)" by code_simp
qed

end
