(* ===== verification/Sfe_Text.thy ===== *)
theory Sfe_Text
  imports Sfe_Types
begin

text \<open>
  Text output: the conversions of \<open>snprintf\<close> that the debug dump uses, with bounds on their length,
  and the exception events in the order and with the names of the code.
\<close>

section \<open>Numbers\<close>

definition digit :: "nat \<Rightarrow> char" where
  "digit n = (if n < 10 then char_of (48 + n) else char_of (87 + n))"

text \<open>\<open>%u\<close> and \<open>%llu\<close>.\<close>

fun dec :: "nat \<Rightarrow> string" where
  "dec n = (if n < 10 then [digit n] else dec (n div 10) @ [digit (n mod 10)])"

declare dec.simps [simp del]

text \<open>\<open>%08x\<close>.\<close>

definition hex8 :: "u32 \<Rightarrow> string" where
  "hex8 w = map (\<lambda>k. digit (unat w div 16 ^ k mod 16)) [7, 6, 5, 4, 3, 2, 1, 0]"

text \<open>\<open>%pI4\<close>: the four bytes of the address in the order they have in memory.\<close>

definition addr_bytes :: "sfe_env \<Rightarrow> u32 \<Rightarrow> nat list" where
  "addr_bytes E a =
     (let bs = map (\<lambda>k. unat a div 256 ^ k mod 256) [3, 2, 1, 0]
      in if big_endian E then bs else rev bs)"

definition ip4 :: "sfe_env \<Rightarrow> u32 \<Rightarrow> string" where
  "ip4 E a = (case map dec (addr_bytes E a) of
     [b0, b1, b2, b3] \<Rightarrow> b0 @ ''.'' @ b1 @ ''.'' @ b2 @ ''.'' @ b3 | _ \<Rightarrow> [])"

definition tab :: string where "tab = [CHR 0x09]"
definition newline :: string where "newline = [CHR 0x0A]"
definition quote :: string where "quote = [CHR 0x22]"

definition attr :: "string \<Rightarrow> string \<Rightarrow> string" where
  "attr name v = name @ ''='' @ quote @ v @ quote @ '' ''"

section \<open>Lengths\<close>

lemma length_dec: "0 < k \<Longrightarrow> n < 10 ^ k \<Longrightarrow> length (dec n) \<le> k"
proof (induction n arbitrary: k rule: dec.induct)
  case (1 n)
  show ?case
  proof (cases "n < 10")
    case True
    then show ?thesis using 1 by (simp add: dec.simps [of n])
  next
    case False
    obtain j where k: "k = Suc j" using "1.prems" by (cases k) auto
    then have j: "0 < j" using "1.prems" False by (cases j) auto
    have "n div 10 < 10 ^ j" using "1.prems" k by (simp add: div_less_iff_less_mult mult.commute)
    then have "length (dec (n div 10)) \<le> j" using 1(1) False j by blast
    then show ?thesis using False k by (simp add: dec.simps [of n])
  qed
qed

lemma length_dec16: "length (dec (unat (w :: u16))) \<le> 5"
proof (rule length_dec)
  have "unat w < 65536" using unsigned_less [of w] by simp
  then show "unat w < 10 ^ 5" by simp
qed simp

lemma length_dec32: "length (dec (unat (w :: u32))) \<le> 10"
proof (rule length_dec)
  have "unat w < 4294967296" using unsigned_less [of w] by simp
  then show "unat w < 10 ^ 10" by simp
qed simp

lemma length_dec64: "length (dec (unat (w :: u64))) \<le> 20"
proof (rule length_dec)
  have "unat w < 18446744073709551616" using unsigned_less [of w] by simp
  then show "unat w < 10 ^ 20" by simp
qed simp

lemma length_hex8: "length (hex8 w) = 8"
  by (simp add: hex8_def)

lemma length_ip4: "length (ip4 E a) \<le> 15"
proof -
  have "length (dec (n mod 256)) \<le> 3" for n
  proof (rule length_dec)
    have "n mod 256 < 256" by simp
    also have "\<dots> < (10 :: nat) ^ 3" by simp
    finally show "n mod 256 < 10 ^ 3" .
  qed simp
  note l = this [of "unat a"] this [of "unat a div 256"] this [of "unat a div 256 ^ 2"] this [of "unat a div 256 ^ 3"]
  show ?thesis using l by (simp add: ip4_def addr_bytes_def Let_def)
qed

lemma length_attr: "length (attr name v) = length name + length v + 4"
  by (simp add: attr_def quote_def)

section \<open>Numbers are read back\<close>

definition digit_value :: "char \<Rightarrow> nat" where
  "digit_value c = of_char c - 48"

definition undec :: "string \<Rightarrow> nat" where
  "undec = foldl (\<lambda>n c. 10 * n + digit_value c) 0"

lemma digit_value_digit: "n < 10 \<Longrightarrow> digit_value (digit n) = n"
  by (simp add: digit_value_def digit_def)

lemma undec_dec: "undec (dec n) = n"
proof (induction n rule: dec.induct)
  case (1 n)
  show ?case
  proof (cases "n < 10")
    case True
    then show ?thesis by (simp add: dec.simps [of n] undec_def digit_value_digit)
  next
    case False
    then have "undec (dec n) = 10 * undec (dec (n div 10)) + n mod 10"
      by (simp add: dec.simps [of n] undec_def digit_value_digit)
    then show ?thesis using 1 False by simp
  qed
qed

section \<open>Exception events\<close>

definition all_events :: "sfe_ipv4_exception_events list" where
  "all_events = [
     UDP_HEADER_INCOMPLETE, UDP_NO_CONNECTION, UDP_IP_OPTIONS_OR_INITIAL_FRAGMENT,
     UDP_SMALL_TTL, UDP_NEEDS_FRAGMENTATION, TCP_HEADER_INCOMPLETE,
     TCP_NO_CONNECTION_SLOW_FLAGS, TCP_NO_CONNECTION_FAST_FLAGS,
     TCP_IP_OPTIONS_OR_INITIAL_FRAGMENT, TCP_SMALL_TTL, TCP_NEEDS_FRAGMENTATION, TCP_FLAGS,
     TCP_SEQ_EXCEEDS_RIGHT_EDGE, TCP_SMALL_DATA_OFFS, TCP_BAD_SACK, TCP_BIG_DATA_OFFS,
     TCP_SEQ_BEFORE_LEFT_EDGE, TCP_ACK_EXCEEDS_RIGHT_EDGE, TCP_ACK_BEFORE_LEFT_EDGE,
     ICMP_HEADER_INCOMPLETE, ICMP_UNHANDLED_TYPE, ICMP_IPV4_HEADER_INCOMPLETE,
     ICMP_IPV4_NON_V4, ICMP_IPV4_IP_OPTIONS_INCOMPLETE, ICMP_IPV4_UDP_HEADER_INCOMPLETE,
     ICMP_IPV4_TCP_HEADER_INCOMPLETE, ICMP_IPV4_UNHANDLED_PROTOCOL, ICMP_NO_CONNECTION,
     ICMP_FLUSHED_CONNECTION, HEADER_INCOMPLETE, BAD_TOTAL_LENGTH, NON_V4,
     NON_INITIAL_FRAGMENT, DATAGRAM_INCOMPLETE, IP_OPTIONS_INCOMPLETE, UNHANDLED_PROTOCOL,
     CLONED_SKB_UNSHARE_ERROR]"

text \<open>The numbers of the enumeration.\<close>

fun event_index :: "sfe_ipv4_exception_events \<Rightarrow> nat" where
  "event_index UDP_HEADER_INCOMPLETE = 0"
| "event_index UDP_NO_CONNECTION = 1"
| "event_index UDP_IP_OPTIONS_OR_INITIAL_FRAGMENT = 2"
| "event_index UDP_SMALL_TTL = 3"
| "event_index UDP_NEEDS_FRAGMENTATION = 4"
| "event_index TCP_HEADER_INCOMPLETE = 5"
| "event_index TCP_NO_CONNECTION_SLOW_FLAGS = 6"
| "event_index TCP_NO_CONNECTION_FAST_FLAGS = 7"
| "event_index TCP_IP_OPTIONS_OR_INITIAL_FRAGMENT = 8"
| "event_index TCP_SMALL_TTL = 9"
| "event_index TCP_NEEDS_FRAGMENTATION = 10"
| "event_index TCP_FLAGS = 11"
| "event_index TCP_SEQ_EXCEEDS_RIGHT_EDGE = 12"
| "event_index TCP_SMALL_DATA_OFFS = 13"
| "event_index TCP_BAD_SACK = 14"
| "event_index TCP_BIG_DATA_OFFS = 15"
| "event_index TCP_SEQ_BEFORE_LEFT_EDGE = 16"
| "event_index TCP_ACK_EXCEEDS_RIGHT_EDGE = 17"
| "event_index TCP_ACK_BEFORE_LEFT_EDGE = 18"
| "event_index ICMP_HEADER_INCOMPLETE = 19"
| "event_index ICMP_UNHANDLED_TYPE = 20"
| "event_index ICMP_IPV4_HEADER_INCOMPLETE = 21"
| "event_index ICMP_IPV4_NON_V4 = 22"
| "event_index ICMP_IPV4_IP_OPTIONS_INCOMPLETE = 23"
| "event_index ICMP_IPV4_UDP_HEADER_INCOMPLETE = 24"
| "event_index ICMP_IPV4_TCP_HEADER_INCOMPLETE = 25"
| "event_index ICMP_IPV4_UNHANDLED_PROTOCOL = 26"
| "event_index ICMP_NO_CONNECTION = 27"
| "event_index ICMP_FLUSHED_CONNECTION = 28"
| "event_index HEADER_INCOMPLETE = 29"
| "event_index BAD_TOTAL_LENGTH = 30"
| "event_index NON_V4 = 31"
| "event_index NON_INITIAL_FRAGMENT = 32"
| "event_index DATAGRAM_INCOMPLETE = 33"
| "event_index IP_OPTIONS_INCOMPLETE = 34"
| "event_index UNHANDLED_PROTOCOL = 35"
| "event_index CLONED_SKB_UNSHARE_ERROR = 36"

text \<open>\<open>sfe_ipv4_exception_events_string\<close>.\<close>

fun event_string :: "sfe_ipv4_exception_events \<Rightarrow> string" where
  "event_string UDP_HEADER_INCOMPLETE = ''UDP_HEADER_INCOMPLETE''"
| "event_string UDP_NO_CONNECTION = ''UDP_NO_CONNECTION''"
| "event_string UDP_IP_OPTIONS_OR_INITIAL_FRAGMENT = ''UDP_IP_OPTIONS_OR_INITIAL_FRAGMENT''"
| "event_string UDP_SMALL_TTL = ''UDP_SMALL_TTL''"
| "event_string UDP_NEEDS_FRAGMENTATION = ''UDP_NEEDS_FRAGMENTATION''"
| "event_string TCP_HEADER_INCOMPLETE = ''TCP_HEADER_INCOMPLETE''"
| "event_string TCP_NO_CONNECTION_SLOW_FLAGS = ''TCP_NO_CONNECTION_SLOW_FLAGS''"
| "event_string TCP_NO_CONNECTION_FAST_FLAGS = ''TCP_NO_CONNECTION_FAST_FLAGS''"
| "event_string TCP_IP_OPTIONS_OR_INITIAL_FRAGMENT = ''TCP_IP_OPTIONS_OR_INITIAL_FRAGMENT''"
| "event_string TCP_SMALL_TTL = ''TCP_SMALL_TTL''"
| "event_string TCP_NEEDS_FRAGMENTATION = ''TCP_NEEDS_FRAGMENTATION''"
| "event_string TCP_FLAGS = ''TCP_FLAGS''"
| "event_string TCP_SEQ_EXCEEDS_RIGHT_EDGE = ''TCP_SEQ_EXCEEDS_RIGHT_EDGE''"
| "event_string TCP_SMALL_DATA_OFFS = ''TCP_SMALL_DATA_OFFS''"
| "event_string TCP_BAD_SACK = ''TCP_BAD_SACK''"
| "event_string TCP_BIG_DATA_OFFS = ''TCP_BIG_DATA_OFFS''"
| "event_string TCP_SEQ_BEFORE_LEFT_EDGE = ''TCP_SEQ_BEFORE_LEFT_EDGE''"
| "event_string TCP_ACK_EXCEEDS_RIGHT_EDGE = ''TCP_ACK_EXCEEDS_RIGHT_EDGE''"
| "event_string TCP_ACK_BEFORE_LEFT_EDGE = ''TCP_ACK_BEFORE_LEFT_EDGE''"
| "event_string ICMP_HEADER_INCOMPLETE = ''ICMP_HEADER_INCOMPLETE''"
| "event_string ICMP_UNHANDLED_TYPE = ''ICMP_UNHANDLED_TYPE''"
| "event_string ICMP_IPV4_HEADER_INCOMPLETE = ''ICMP_IPV4_HEADER_INCOMPLETE''"
| "event_string ICMP_IPV4_NON_V4 = ''ICMP_IPV4_NON_V4''"
| "event_string ICMP_IPV4_IP_OPTIONS_INCOMPLETE = ''ICMP_IPV4_IP_OPTIONS_INCOMPLETE''"
| "event_string ICMP_IPV4_UDP_HEADER_INCOMPLETE = ''ICMP_IPV4_UDP_HEADER_INCOMPLETE''"
| "event_string ICMP_IPV4_TCP_HEADER_INCOMPLETE = ''ICMP_IPV4_TCP_HEADER_INCOMPLETE''"
| "event_string ICMP_IPV4_UNHANDLED_PROTOCOL = ''ICMP_IPV4_UNHANDLED_PROTOCOL''"
| "event_string ICMP_NO_CONNECTION = ''ICMP_NO_CONNECTION''"
| "event_string ICMP_FLUSHED_CONNECTION = ''ICMP_FLUSHED_CONNECTION''"
| "event_string HEADER_INCOMPLETE = ''HEADER_INCOMPLETE''"
| "event_string BAD_TOTAL_LENGTH = ''BAD_TOTAL_LENGTH''"
| "event_string NON_V4 = ''NON_V4''"
| "event_string NON_INITIAL_FRAGMENT = ''NON_INITIAL_FRAGMENT''"
| "event_string DATAGRAM_INCOMPLETE = ''DATAGRAM_INCOMPLETE''"
| "event_string IP_OPTIONS_INCOMPLETE = ''IP_OPTIONS_INCOMPLETE''"
| "event_string UNHANDLED_PROTOCOL = ''UNHANDLED_PROTOCOL''"
| "event_string CLONED_SKB_UNSHARE_ERROR = ''CLONED_SKB_UNSHARE_ERROR''"

definition SFE_IPV4_EXCEPTION_EVENT_LAST :: nat where
  "SFE_IPV4_EXCEPTION_EVENT_LAST = 37"

lemma length_all_events: "length all_events = SFE_IPV4_EXCEPTION_EVENT_LAST"
  by (simp add: all_events_def SFE_IPV4_EXCEPTION_EVENT_LAST_def)

lemma event_index_less: "event_index e < SFE_IPV4_EXCEPTION_EVENT_LAST"
  by (cases e) (simp_all add: SFE_IPV4_EXCEPTION_EVENT_LAST_def)

lemma nth_event_index: "all_events ! event_index e = e"
  by (cases e) (simp_all add: all_events_def)

lemma event_index_inj: "event_index e = event_index f \<longleftrightarrow> e = f"
  using nth_event_index by metis

lemma set_all_events: "set all_events = UNIV"
  using nth_event_index event_index_less length_all_events by (metis UNIV_eq_I nth_mem)

lemma map_event_index: "map event_index all_events = [0..<37]"
  by (simp add: all_events_def upt_rec)

lemma distinct_all_events: "distinct all_events"
  using map_event_index by (metis distinct_map distinct_upt)

text \<open>The enumeration order as a linear order on the events.\<close>

instantiation sfe_ipv4_exception_events :: linorder
begin

definition less_eq_sfe_ipv4_exception_events :: "sfe_ipv4_exception_events \<Rightarrow> sfe_ipv4_exception_events \<Rightarrow> bool" where
  "less_eq_sfe_ipv4_exception_events e f \<longleftrightarrow> event_index e \<le> event_index f"

definition less_sfe_ipv4_exception_events :: "sfe_ipv4_exception_events \<Rightarrow> sfe_ipv4_exception_events \<Rightarrow> bool" where
  "less_sfe_ipv4_exception_events e f \<longleftrightarrow> event_index e < event_index f"

instance
  by standard (auto simp: less_eq_sfe_ipv4_exception_events_def less_sfe_ipv4_exception_events_def
      event_index_inj)

end

lemma sorted_all_events: "sorted all_events"
proof -
  have "sorted (map event_index all_events)" unfolding map_event_index by (rule sorted_upt)
  then show ?thesis by (simp add: sorted_wrt_map less_eq_sfe_ipv4_exception_events_def [abs_def])
qed

text \<open>The names are short.\<close>

lemma length_event_string: "length (event_string e) \<le> 34"
  by (cases e) simp_all

end
