(* ===== verification/Sfe_Debug.thy ===== *)
theory Sfe_Debug
  imports Sfe_Text Sfe_Sync
begin

text \<open>
  The debug character device (sfe_ipv4.c, \<open>sfe_ipv4_debug_dev_read\<close> and the functions it calls): a read
  writes the state of the engine as XML, one element per call of a writer, driven by a state machine
  that is kept with the open file. Whether the n-th \<open>copy_to_user\<close> of a read succeeds and the time
  of the n-th writer are arguments; a loop that does not end is None.
\<close>

section \<open>State\<close>

datatype sfe_ipv4_debug_xml_states =
    XML_STATE_START | XML_STATE_CONNECTIONS_START | XML_STATE_CONNECTIONS_CONNECTION
  | XML_STATE_CONNECTIONS_END | XML_STATE_EXCEPTIONS_START | XML_STATE_EXCEPTIONS_EXCEPTION
  | XML_STATE_EXCEPTIONS_END | XML_STATE_STATS | XML_STATE_END | XML_STATE_DONE

text \<open>\<open>ws->state++\<close>.\<close>

fun next_state :: "sfe_ipv4_debug_xml_states \<Rightarrow> sfe_ipv4_debug_xml_states" where
  "next_state XML_STATE_START = XML_STATE_CONNECTIONS_START"
| "next_state XML_STATE_CONNECTIONS_START = XML_STATE_CONNECTIONS_CONNECTION"
| "next_state XML_STATE_CONNECTIONS_CONNECTION = XML_STATE_CONNECTIONS_END"
| "next_state XML_STATE_CONNECTIONS_END = XML_STATE_EXCEPTIONS_START"
| "next_state XML_STATE_EXCEPTIONS_START = XML_STATE_EXCEPTIONS_EXCEPTION"
| "next_state XML_STATE_EXCEPTIONS_EXCEPTION = XML_STATE_EXCEPTIONS_END"
| "next_state XML_STATE_EXCEPTIONS_END = XML_STATE_STATS"
| "next_state XML_STATE_STATS = XML_STATE_END"
| "next_state XML_STATE_END = XML_STATE_DONE"
| "next_state XML_STATE_DONE = XML_STATE_DONE"

record sfe_ipv4_debug_xml_write_state =
  ws_state :: sfe_ipv4_debug_xml_states
  iter_exception :: nat

definition CHAR_DEV_MSG_SIZE :: nat where "CHAR_DEV_MSG_SIZE = 768"

text \<open>
  The variables of one read: the bytes still free in the user's buffer, the bytes produced, the
  buffer up to there, and the offsets at which \<open>copy_to_user\<close> wrote \<open>CHAR_DEV_MSG_SIZE\<close> bytes.
\<close>

record dump =
  rd_length :: u64
  total_read :: nat
  user_buf :: string
  copied_at :: "nat list"

type_synonym 's dump_of = "dump \<times> sfe_ipv4_debug_xml_write_state \<times> 's"
type_synonym dump_state = "sfe_ipv4 dump_of"

section \<open>Copying an element\<close>

definition emit :: "bool \<Rightarrow> string \<Rightarrow> dump \<Rightarrow> dump option" where
  "emit ok msg d =
     (if ok then Some (d\<lparr>rd_length := rd_length d - of_nat (length msg),
        total_read := total_read d + length msg,
        user_buf := take (total_read d) (user_buf d) @ msg,
        copied_at := copied_at d @ [total_read d]\<rparr>)
      else None)"

definition advance :: "sfe_ipv4_debug_xml_write_state \<Rightarrow> sfe_ipv4_debug_xml_write_state" where
  "advance ws = ws\<lparr>ws_state := next_state (ws_state ws)\<rparr>"

text \<open>The writers of a fixed element.\<close>

definition write_fixed :: "string \<Rightarrow> bool \<Rightarrow> 's dump_of \<Rightarrow> 's dump_of" where
  "write_fixed msg ok x =
     (case x of (d, ws, s) \<Rightarrow>
        (case emit ok msg d of None \<Rightarrow> (d, ws, s) | Some d \<Rightarrow> (d, advance ws, s)))"

definition msg_start :: string where "msg_start = ''<sfe_ipv4>'' @ newline"
definition msg_connections_start :: string where "msg_connections_start = tab @ ''<connections>'' @ newline"
definition msg_connections_end :: string where "msg_connections_end = tab @ ''</connections>'' @ newline"
definition msg_exceptions_start :: string where "msg_exceptions_start = tab @ ''<exceptions>'' @ newline"
definition msg_exceptions_end :: string where "msg_exceptions_end = tab @ ''</exceptions>'' @ newline"
definition msg_end :: string where "msg_end = ''</sfe_ipv4>'' @ newline"

definition sfe_ipv4_debug_dev_read_start :: "bool \<Rightarrow> dump_state \<Rightarrow> dump_state" where
  "sfe_ipv4_debug_dev_read_start ok x =
     (case x of (d, ws, s) \<Rightarrow> write_fixed msg_start ok (d, ws, s\<lparr>debug_read_seq := debug_read_seq s + 1\<rparr>))"

definition sfe_ipv4_debug_dev_read_connections_start :: "bool \<Rightarrow> dump_state \<Rightarrow> dump_state" where
  "sfe_ipv4_debug_dev_read_connections_start = write_fixed msg_connections_start"

definition sfe_ipv4_debug_dev_read_connections_end :: "bool \<Rightarrow> dump_state \<Rightarrow> dump_state" where
  "sfe_ipv4_debug_dev_read_connections_end = write_fixed msg_connections_end"

definition sfe_ipv4_debug_dev_read_exceptions_start :: "bool \<Rightarrow> dump_state \<Rightarrow> dump_state" where
  "sfe_ipv4_debug_dev_read_exceptions_start = write_fixed msg_exceptions_start"

definition sfe_ipv4_debug_dev_read_exceptions_end :: "bool \<Rightarrow> dump_state \<Rightarrow> dump_state" where
  "sfe_ipv4_debug_dev_read_exceptions_end = write_fixed msg_exceptions_end"

definition sfe_ipv4_debug_dev_read_end :: "bool \<Rightarrow> dump_state \<Rightarrow> dump_state" where
  "sfe_ipv4_debug_dev_read_end = write_fixed msg_end"

section \<open>Connections\<close>

text \<open>The first connection this dump has not shown yet.\<close>

partial_function (option) next_unread :: "sfe_ipv4 \<Rightarrow> conn_ptr option \<Rightarrow> conn_ptr option option" where
  "next_unread s c =
     (case c of
        None \<Rightarrow> Some None
      | Some p \<Rightarrow> if c_debug_read_seq (conns s p) < debug_read_seq s then Some (Some p)
                  else next_unread s (all_next s p))"

declare next_unread.simps [code]

definition msg_connection :: "sfe_env \<Rightarrow> sfe_ipv4 \<Rightarrow> conn_ptr \<Rightarrow> u64 \<Rightarrow> string" where
  "msg_connection E s c now =
     (let d = conns s c; m = cms s (original_match d); r = cms s (reply_match d)
      in tab @ tab @ ''<connection '' @
         attr ''protocol'' (dec (unat (c_protocol d))) @
         attr ''src_dev'' (nd_name (netdev E (original_dev d))) @
         attr ''src_ip'' (ip4 E (c_src_ip d)) @ attr ''src_ip_xlate'' (ip4 E (c_src_ip_xlate d)) @
         attr ''src_port'' (dec (unat (ntohs E (c_src_port d)))) @
         attr ''src_port_xlate'' (dec (unat (ntohs E (c_src_port_xlate d)))) @
         attr ''src_priority'' (dec (unat (cm_priority m))) @
         attr ''src_dscp'' (dec (unat (drop_bit 2 (cm_dscp m)))) @
         attr ''src_rx_pkts'' (dec (unat (rx_packet_count64 m))) @
         attr ''src_rx_bytes'' (dec (unat (rx_byte_count64 m))) @
         attr ''dest_dev'' (nd_name (netdev E (reply_dev d))) @
         attr ''dest_ip'' (ip4 E (c_dest_ip d)) @ attr ''dest_ip_xlate'' (ip4 E (c_dest_ip_xlate d)) @
         attr ''dest_port'' (dec (unat (ntohs E (c_dest_port d)))) @
         attr ''dest_port_xlate'' (dec (unat (ntohs E (c_dest_port_xlate d)))) @
         attr ''dest_priority'' (dec (unat (cm_priority r))) @
         attr ''dest_dscp'' (dec (unat (drop_bit 2 (cm_dscp r)))) @
         attr ''dest_rx_pkts'' (dec (unat (rx_packet_count64 r))) @
         attr ''dest_rx_bytes'' (dec (unat (rx_byte_count64 r))) @
         attr ''last_sync'' (dec (unat (now - last_sync_jiffies d))) @
         attr ''mark'' (hex8 (c_mark d)) @ ''/>'' @ newline)"

definition sfe_ipv4_debug_dev_read_connections_connection ::
  "sfe_env \<Rightarrow> bool \<Rightarrow> u64 \<Rightarrow> dump_state \<Rightarrow> dump_state option" where
  "sfe_ipv4_debug_dev_read_connections_connection E ok now x =
     (case x of (d, ws, s) \<Rightarrow> do {
        found \<leftarrow> next_unread s (all_connections_head s);
        (case found of
           None \<Rightarrow> Some (d, advance ws, s)
         | Some c \<Rightarrow>
             (let s1 = upd_conn c (\<lambda>q. q\<lparr>c_debug_read_seq := debug_read_seq s\<rparr>) s;
                  s2 = sfe_ipv4_connection_match_update_summary_stats (original_match (conns s1 c)) s1;
                  s3 = sfe_ipv4_connection_match_update_summary_stats (reply_match (conns s2 c)) s2
              in case emit ok (msg_connection E s3 c now) d of
                   None \<Rightarrow> Some (d, ws, s3)
                 | Some d \<Rightarrow> Some (d, ws, s3)))
      })"

section \<open>Exceptions and statistics\<close>

definition msg_exception :: "sfe_ipv4_exception_events \<Rightarrow> u64 \<Rightarrow> string" where
  "msg_exception e ct =
     tab @ tab @ ''<exception '' @ attr ''name'' (event_string e) @ attr ''count'' (dec (unat ct)) @ ''/>'' @ newline"

definition next_exception :: "sfe_ipv4_debug_xml_write_state \<Rightarrow> sfe_ipv4_debug_xml_write_state" where
  "next_exception ws =
     (let ws1 = ws\<lparr>iter_exception := iter_exception ws + 1\<rparr>
      in if SFE_IPV4_EXCEPTION_EVENT_LAST \<le> iter_exception ws1
         then advance (ws1\<lparr>iter_exception := 0\<rparr>) else ws1)"

definition sfe_ipv4_debug_dev_read_exceptions_exception :: "bool \<Rightarrow> dump_state \<Rightarrow> dump_state" where
  "sfe_ipv4_debug_dev_read_exceptions_exception ok x =
     (case x of (d, ws, s) \<Rightarrow>
        (let e = all_events ! iter_exception ws; ct = exception_events64 s e
         in if ct \<noteq> 0 then
              (case emit ok (msg_exception e ct) d of
                 None \<Rightarrow> (d, ws, s)
               | Some d \<Rightarrow> (d, next_exception ws, s))
            else (d, next_exception ws, s)))"

definition msg_stats :: "sfe_ipv4 \<Rightarrow> string" where
  "msg_stats s = tab @ ''<stats '' @
     attr ''num_connections'' (dec (unat (num_connections s))) @
     attr ''pkts_forwarded'' (dec (unat (packets_forwarded64 s))) @
     attr ''pkts_not_forwarded'' (dec (unat (packets_not_forwarded64 s))) @
     attr ''create_requests'' (dec (unat (connection_create_requests64 s))) @
     attr ''create_collisions'' (dec (unat (connection_create_collisions64 s))) @
     attr ''destroy_requests'' (dec (unat (connection_destroy_requests64 s))) @
     attr ''destroy_misses'' (dec (unat (connection_destroy_misses64 s))) @
     attr ''flushes'' (dec (unat (connection_flushes64 s))) @
     attr ''hash_hits'' (dec (unat (connection_match_hash_hits64 s))) @
     attr ''hash_reorders'' (dec (unat (connection_match_hash_reorders64 s))) @ ''/>'' @ newline"

definition sfe_ipv4_debug_dev_read_stats :: "bool \<Rightarrow> dump_state \<Rightarrow> dump_state" where
  "sfe_ipv4_debug_dev_read_stats ok x =
     (case x of (d, ws, s) \<Rightarrow>
        (let s1 = sfe_ipv4_update_summary_stats s in write_fixed (msg_stats s1) ok (d, ws, s1)))"

section \<open>The read loop\<close>

text \<open>\<open>sfe_ipv4_debug_xml_write_methods[ws->state]\<close>.\<close>

definition xml_write_method :: "sfe_env \<Rightarrow> bool \<Rightarrow> u64 \<Rightarrow> dump_state \<Rightarrow> dump_state option" where
  "xml_write_method E ok now x =
     (case ws_state (fst (snd x)) of
        XML_STATE_START \<Rightarrow> Some (sfe_ipv4_debug_dev_read_start ok x)
      | XML_STATE_CONNECTIONS_START \<Rightarrow> Some (sfe_ipv4_debug_dev_read_connections_start ok x)
      | XML_STATE_CONNECTIONS_CONNECTION \<Rightarrow> sfe_ipv4_debug_dev_read_connections_connection E ok now x
      | XML_STATE_CONNECTIONS_END \<Rightarrow> Some (sfe_ipv4_debug_dev_read_connections_end ok x)
      | XML_STATE_EXCEPTIONS_START \<Rightarrow> Some (sfe_ipv4_debug_dev_read_exceptions_start ok x)
      | XML_STATE_EXCEPTIONS_EXCEPTION \<Rightarrow> Some (sfe_ipv4_debug_dev_read_exceptions_exception ok x)
      | XML_STATE_EXCEPTIONS_END \<Rightarrow> Some (sfe_ipv4_debug_dev_read_exceptions_end ok x)
      | XML_STATE_STATS \<Rightarrow> Some (sfe_ipv4_debug_dev_read_stats ok x)
      | XML_STATE_END \<Rightarrow> Some (sfe_ipv4_debug_dev_read_end ok x)
      | XML_STATE_DONE \<Rightarrow> None)"

definition wants_more :: "'s dump_of \<Rightarrow> bool" where
  "wants_more x \<longleftrightarrow> ws_state (fst (snd x)) \<noteq> XML_STATE_DONE \<and> of_nat CHAR_DEV_MSG_SIZE < rd_length (fst x)"

partial_function (option) debug_dev_read_loop ::
  "sfe_env \<Rightarrow> (nat \<Rightarrow> bool) \<Rightarrow> (nat \<Rightarrow> u64) \<Rightarrow> nat \<Rightarrow> dump_state \<Rightarrow> dump_state option" where
  "debug_dev_read_loop E oks now n x =
     (if wants_more x then do {
        y \<leftarrow> xml_write_method E (oks n) (now n) x;
        debug_dev_read_loop E oks now (Suc n) y
      }
      else Some x)"

declare debug_dev_read_loop.simps [code]

definition sfe_ipv4_debug_dev_read ::
  "sfe_env \<Rightarrow> (nat \<Rightarrow> bool) \<Rightarrow> (nat \<Rightarrow> u64) \<Rightarrow> u64 \<Rightarrow> sfe_ipv4_debug_xml_write_state \<Rightarrow> sfe_ipv4 \<Rightarrow>
   dump_state option" where
  "sfe_ipv4_debug_dev_read E oks now len ws s =
     debug_dev_read_loop E oks now 0
       (\<lparr>rd_length = len, total_read = 0, user_buf = [], copied_at = []\<rparr>, ws, s)"

section \<open>The other file operations\<close>

definition sfe_ipv4_debug_dev_write :: "u64 \<Rightarrow> sfe_ipv4 \<Rightarrow> u64 \<times> sfe_ipv4" where
  "sfe_ipv4_debug_dev_write len s =
     (let s1 = sfe_ipv4_update_summary_stats s
      in (len, s1\<lparr>packets_forwarded64 := 0, packets_not_forwarded64 := 0,
            connection_create_requests64 := 0, connection_create_collisions64 := 0,
            connection_destroy_requests64 := 0, connection_destroy_misses64 := 0,
            connection_flushes64 := 0, connection_match_hash_hits64 := 0,
            connection_match_hash_reorders64 := 0\<rparr>))"

text \<open>
  \<open>private_data\<close> of the open file; the flag says whether the allocation succeeds. None as a result is
  \<open>-ENOMEM\<close>.
\<close>

definition sfe_ipv4_debug_dev_open ::
  "bool \<Rightarrow> sfe_ipv4_debug_xml_write_state option \<Rightarrow> sfe_ipv4_debug_xml_write_state option option" where
  "sfe_ipv4_debug_dev_open mem_ok ws =
     (case ws of
        Some w \<Rightarrow> Some (Some w)
      | None \<Rightarrow> if mem_ok then Some (Some \<lparr>ws_state = XML_STATE_START, iter_exception = 0\<rparr>) else None)"

definition sfe_ipv4_get_debug_dev :: "nat \<Rightarrow> string" where
  "sfe_ipv4_get_debug_dev num = dec num @ newline"

end
