(* ===== verification/Sfe_Debug_Props.thy ===== *)
theory Sfe_Debug_Props
  imports Sfe_Debug Sfe_Rule_Ops
begin

text \<open>
  The debug dump: every element fits into the message buffer, every copy stays in the user's buffer, the
  engine stays consistent, and when the copies succeed a read ends and has produced exactly the
  elements of a reference sequence that fit: each connection once, in the order of the table.
\<close>

section \<open>Elements fit\<close>

text \<open>Device names have at most 15 characters (\<open>IFNAMSIZ\<close>).\<close>

definition names_ok :: "sfe_env \<Rightarrow> bool" where
  "names_ok E \<longleftrightarrow> (\<forall>d. length (nd_name (netdev E d)) \<le> 15)"

lemmas fixed_msgs = msg_start_def msg_connections_start_def msg_connections_end_def
  msg_exceptions_start_def msg_exceptions_end_def msg_end_def

lemma fixed_fits:
  "length msg_start < 768" "length msg_connections_start < 768" "length msg_connections_end < 768"
  "length msg_exceptions_start < 768" "length msg_exceptions_end < 768" "length msg_end < 768"
  by (simp_all add: fixed_msgs tab_def newline_def)

lemma msg_exception_fits: "length (msg_exception e ct) < 768"
  using length_event_string [of e] length_dec64 [of ct]
  by (simp add: msg_exception_def length_attr tab_def newline_def)

lemma msg_stats_fits: "length (msg_stats s) < 768"
  using length_dec32 [of "num_connections s"] length_dec64 [of "packets_forwarded64 s"]
    length_dec64 [of "packets_not_forwarded64 s"] length_dec64 [of "connection_create_requests64 s"]
    length_dec64 [of "connection_create_collisions64 s"] length_dec64 [of "connection_destroy_requests64 s"]
    length_dec64 [of "connection_destroy_misses64 s"] length_dec64 [of "connection_flushes64 s"]
    length_dec64 [of "connection_match_hash_hits64 s"] length_dec64 [of "connection_match_hash_reorders64 s"]
  by (simp add: msg_stats_def length_attr tab_def newline_def)

lemma msg_connection_fits:
  assumes "names_ok E"
  shows "length (msg_connection E s c now) < 768"
proof -
  let ?d = "conns s c"
  let ?m = "cms s (original_match ?d)" and ?r = "cms s (reply_match ?d)"
  have n: "length (nd_name (netdev E (original_dev ?d))) \<le> 15" "length (nd_name (netdev E (reply_dev ?d))) \<le> 15"
    using assms by (simp_all add: names_ok_def)
  note l = length_dec32 [of "c_protocol ?d"] length_ip4 [of E "c_src_ip ?d"] length_ip4 [of E "c_src_ip_xlate ?d"]
    length_dec16 [of "ntohs E (c_src_port ?d)"] length_dec16 [of "ntohs E (c_src_port_xlate ?d)"]
    length_dec32 [of "cm_priority ?m"] length_dec32 [of "drop_bit 2 (cm_dscp ?m)"]
    length_dec64 [of "rx_packet_count64 ?m"] length_dec64 [of "rx_byte_count64 ?m"]
    length_ip4 [of E "c_dest_ip ?d"] length_ip4 [of E "c_dest_ip_xlate ?d"]
    length_dec16 [of "ntohs E (c_dest_port ?d)"] length_dec16 [of "ntohs E (c_dest_port_xlate ?d)"]
    length_dec32 [of "cm_priority ?r"] length_dec32 [of "drop_bit 2 (cm_dscp ?r)"]
    length_dec64 [of "rx_packet_count64 ?r"] length_dec64 [of "rx_byte_count64 ?r"]
    length_dec64 [of "now - last_sync_jiffies ?d"] length_hex8 [of "c_mark ?d"]
  show ?thesis using n l
    by (simp add: msg_connection_def Let_def length_attr tab_def newline_def)
qed

section \<open>The writers keep the engine\<close>

lemma next_unread_dseg:
  "dseg (all_next s) pv h b xs None \<Longrightarrow>
     next_unread s h = Some (List.find (\<lambda>c. c_debug_read_seq (conns s c) < debug_read_seq s) xs)"
  by (induction xs arbitrary: h b) (auto simp: next_unread.simps)

lemma next_unread_table:
  assumes "table_inv E s A D"
  shows "next_unread s (all_connections_head s) =
     Some (List.find (\<lambda>c. c_debug_read_seq (conns s c) < debug_read_seq s) (connl A))"
proof (rule next_unread_dseg)
  show "dseg (all_next s) (all_prev s) (all_connections_head s) None (connl A) None"
    using assms by (simp add: table_inv_def lists_rep_def alls.trepr_def dll_def)
qed

lemma same_table_seq: "same_table s (s\<lparr>debug_read_seq := v\<rparr>)"
  by (simp add: same_table_def)

lemma same_table_mark_read: "same_table s (upd_conn c (\<lambda>q. q\<lparr>c_debug_read_seq := v\<rparr>) s)"
  by (rule same_table_upd_conn) (simp add: conn_static_def)

definition mark_read :: "conn_ptr \<Rightarrow> sfe_ipv4 \<Rightarrow> sfe_ipv4" where
  "mark_read c s =
     (let s1 = upd_conn c (\<lambda>q. q\<lparr>c_debug_read_seq := debug_read_seq s\<rparr>) s;
          s2 = sfe_ipv4_connection_match_update_summary_stats (original_match (conns s1 c)) s1
      in sfe_ipv4_connection_match_update_summary_stats (reply_match (conns s2 c)) s2)"

lemma same_table_mark: "same_table s (mark_read c s)"
  unfolding mark_read_def Let_def
  by (rule same_table_trans [OF same_table_mark_read same_table_trans [OF same_table_stats same_table_stats]])

lemma mark_read_refs: "dev_refcnt (mark_read c s) = dev_refcnt s"
  by (simp add: mark_read_def Let_def sfe_ipv4_connection_match_update_summary_stats_def)

lemma mark_engine: "engine_inv E base s A D \<Longrightarrow> engine_inv E base (mark_read c s) A D"
  by (rule same_table_engine [OF _ same_table_mark mark_read_refs])

lemma read_connection_conv:
  assumes "table_inv E s A D"
  shows "sfe_ipv4_debug_dev_read_connections_connection E ok now (d, ws, s) =
     Some (case List.find (\<lambda>c. c_debug_read_seq (conns s c) < debug_read_seq s) (connl A) of
       None \<Rightarrow> (d, advance ws, s)
     | Some c \<Rightarrow> (case emit ok (msg_connection E (mark_read c s) c now) d of
                   None \<Rightarrow> (d, ws, mark_read c s) | Some d \<Rightarrow> (d, ws, mark_read c s)))"
  by (simp add: sfe_ipv4_debug_dev_read_connections_connection_def next_unread_table [OF assms]
      mark_read_def Let_def split: option.split)

section \<open>What an element shows does not depend on the elements before it\<close>

definition cm_shown :: "sfe_ipv4_connection_match \<Rightarrow> sfe_ipv4_connection_match" where
  "cm_shown m = m\<lparr>rx_packet_count64 := total_packets m, rx_packet_count := 0,
     rx_byte_count64 := total_bytes m, rx_byte_count := 0\<rparr>"

definition conn_shown :: "sfe_ipv4_connection \<Rightarrow> sfe_ipv4_connection" where
  "conn_shown c = c\<lparr>c_debug_read_seq := 0\<rparr>"

text \<open>The element of a connection, from a state in which it was not read yet.\<close>

definition shown :: "sfe_env \<Rightarrow> sfe_ipv4 \<Rightarrow> conn_ptr \<Rightarrow> u64 \<Rightarrow> string" where
  "shown E s c now = msg_connection E (s\<lparr>cms := cm_shown \<circ> cms s, conns := conn_shown \<circ> conns s\<rparr>) c now"

definition shows_same :: "sfe_ipv4 \<Rightarrow> sfe_ipv4 \<Rightarrow> bool" where
  "shows_same s t \<longleftrightarrow> cm_shown \<circ> cms t = cm_shown \<circ> cms s \<and> conn_shown \<circ> conns t = conn_shown \<circ> conns s"

lemma shows_same_shown: "shows_same s t \<Longrightarrow> shown E t c now = shown E s c now"
  by (simp add: shown_def shows_same_def msg_connection_def)

lemma cm_shown_idem [simp]: "cm_shown (cm_shown m) = cm_shown m"
  by (simp add: cm_shown_def total_packets_def total_bytes_def)

lemma mark_read_conns: "conns (mark_read c s) = (conns s)(c := (conns s c)\<lparr>c_debug_read_seq := debug_read_seq s\<rparr>)"
  by (simp add: mark_read_def Let_def upd_conn_def sfe_ipv4_connection_match_update_summary_stats_def upd_cm_def)

lemma stats_cm: "cms (sfe_ipv4_connection_match_update_summary_stats p s) = (cms s)(p := cm_shown (cms s p))"
  by (simp add: sfe_ipv4_connection_match_update_summary_stats_def upd_cm_def cm_shown_def total_packets_def
      total_bytes_def)

lemma mark_read_cms:
  "cms (mark_read c s) = (cms s)(original_match (conns s c) := cm_shown (cms s (original_match (conns s c))),
     reply_match (conns s c) := cm_shown (cms s (reply_match (conns s c))))"
  by (auto simp: mark_read_def Let_def stats_cm upd_conn_def fun_eq_iff)
    (simp_all add: sfe_ipv4_connection_match_update_summary_stats_def upd_cm_def)

lemma mark_read_shows: "shows_same s (mark_read c s)"
  by (auto simp: shows_same_def mark_read_cms mark_read_conns conn_shown_def)

lemma mark_read_msg: "msg_connection E (mark_read c s) c now = shown E s c now"
  by (simp add: msg_connection_def shown_def mark_read_cms mark_read_conns conn_shown_def Let_def)

lemma mark_read_rest [simp]:
  "debug_read_seq (mark_read c s) = debug_read_seq s"
  "exception_events64 (mark_read c s) = exception_events64 s"
  "msg_stats (sfe_ipv4_update_summary_stats (mark_read c s)) = msg_stats (sfe_ipv4_update_summary_stats s)"
  by (simp_all add: mark_read_def Let_def upd_conn_def sfe_ipv4_connection_match_update_summary_stats_def
      upd_cm_def sfe_ipv4_update_summary_stats_def msg_stats_def)

section \<open>The reference sequence\<close>

text \<open>
  One entry for each call of a writer: the element it writes, or None when it writes nothing. \<open>n\<close> is the
  number of the call.
\<close>

fun conn_items :: "sfe_env \<Rightarrow> (nat \<Rightarrow> u64) \<Rightarrow> nat \<Rightarrow> sfe_ipv4 \<Rightarrow> conn_ptr list \<Rightarrow> string option list" where
  "conn_items E now n s [] = [None]"
| "conn_items E now n s (c # cs) = Some (shown E s c (now n)) # conn_items E now (Suc n) s cs"

definition exception_items :: "sfe_ipv4 \<Rightarrow> nat \<Rightarrow> string option list" where
  "exception_items s i = map (\<lambda>e. if exception_events64 s e \<noteq> 0
     then Some (msg_exception e (exception_events64 s e)) else None) (drop i all_events)"

definition end_items :: "sfe_ipv4 \<Rightarrow> string option list" where
  "end_items s = [Some msg_exceptions_end, Some (msg_stats (sfe_ipv4_update_summary_stats s)), Some msg_end]"

definition tail_items :: "sfe_ipv4 \<Rightarrow> nat \<Rightarrow> string option list" where
  "tail_items s i = Some msg_connections_end # Some msg_exceptions_start # exception_items s i @ end_items s"

definition unread :: "sfe_ipv4 \<Rightarrow> sfe_abs \<Rightarrow> conn_ptr list" where
  "unread s A = filter (\<lambda>c. c_debug_read_seq (conns s c) < debug_read_seq s) (connl A)"

definition items ::
  "sfe_env \<Rightarrow> (nat \<Rightarrow> u64) \<Rightarrow> nat \<Rightarrow> sfe_ipv4_debug_xml_write_state \<Rightarrow> sfe_ipv4 \<Rightarrow> sfe_abs \<Rightarrow> string option list" where
  "items E now n ws s A = (let i = iter_exception ws in
     case ws_state ws of
       XML_STATE_START \<Rightarrow> Some msg_start # Some msg_connections_start #
         conn_items E now (n + 2) s (unread (s\<lparr>debug_read_seq := debug_read_seq s + 1\<rparr>) A) @ tail_items s i
     | XML_STATE_CONNECTIONS_START \<Rightarrow>
         Some msg_connections_start # conn_items E now (n + 1) s (unread s A) @ tail_items s i
     | XML_STATE_CONNECTIONS_CONNECTION \<Rightarrow> conn_items E now n s (unread s A) @ tail_items s i
     | XML_STATE_CONNECTIONS_END \<Rightarrow> tail_items s i
     | XML_STATE_EXCEPTIONS_START \<Rightarrow> Some msg_exceptions_start # exception_items s i @ end_items s
     | XML_STATE_EXCEPTIONS_EXCEPTION \<Rightarrow> exception_items s i @ end_items s
     | XML_STATE_EXCEPTIONS_END \<Rightarrow> end_items s
     | XML_STATE_STATS \<Rightarrow> [Some (msg_stats (sfe_ipv4_update_summary_stats s)), Some msg_end]
     | XML_STATE_END \<Rightarrow> [Some msg_end]
     | XML_STATE_DONE \<Rightarrow> [])"

lemma conn_items_same:
  assumes "shows_same s t"
  shows "conn_items E now n t cs = conn_items E now n s cs"
  by (induction cs arbitrary: n) (simp_all add: shows_same_shown [OF assms])

text \<open>The elements that fit in a buffer: an element is written while more than a message is free.\<close>

fun fitting :: "nat \<Rightarrow> string option list \<Rightarrow> string" where
  "fitting len [] = []"
| "fitting len (i # is) = (if 768 < len then
     (case i of None \<Rightarrow> fitting len is | Some m \<Rightarrow> m @ fitting (len - length m) is) else [])"

definition item_text :: "string option list \<Rightarrow> string" where
  "item_text is = concat (map (\<lambda>i. case i of None \<Rightarrow> [] | Some m \<Rightarrow> m) is)"

lemma fitting_prefix: "\<exists>rest. item_text is = fitting len is @ rest"
proof (induction "is" arbitrary: len)
  case (Cons i xs)
  obtain r1 where "item_text xs = fitting len xs @ r1" using Cons by blast
  moreover obtain r2 where "item_text xs = fitting (len - length (case i of None \<Rightarrow> [] | Some m \<Rightarrow> m)) xs @ r2"
    using Cons by blast
  ultimately show ?case by (cases i) (auto simp: item_text_def)
qed (simp add: item_text_def)

lemma fitting_all: "768 + length (item_text is) < len \<Longrightarrow> fitting len is = item_text is"
  by (induction len "is" rule: fitting.induct) (auto simp: item_text_def split: option.splits)

section \<open>One call of a writer\<close>

lemma find_filter: "List.find P xs = (case filter P xs of [] \<Rightarrow> None | x # _ \<Rightarrow> Some x)"
  by (induction xs) auto

lemma unread_mark:
  assumes "distinct (connl A)" and u: "unread s A = c # cs"
  shows "unread (mark_read c s) A = cs"
proof -
  have "unread (mark_read c s) A = filter (\<lambda>d. d \<noteq> c) (unread s A)"
    by (auto simp: unread_def mark_read_conns intro: filter_cong)
  moreover have "distinct (c # cs)" using assms(1) by (simp add: unread_def flip: u)
  ultimately show ?thesis by (auto simp: u intro: filter_True)
qed

definition after_item :: "string option \<Rightarrow> dump \<Rightarrow> dump" where
  "after_item i d = (case i of None \<Rightarrow> d
     | Some m \<Rightarrow> d\<lparr>rd_length := rd_length d - of_nat (length m), total_read := total_read d + length m,
         user_buf := take (total_read d) (user_buf d) @ m, copied_at := copied_at d @ [total_read d]\<rparr>)"

lemma after_item_None [simp]: "after_item None d = d"
  by (simp add: after_item_def)

lemma emit_after: "emit True m d = Some (after_item (Some m) d)"
  by (simp add: emit_def after_item_def)

definition step_ok where
  "step_ok E now n base A D i is x \<longleftrightarrow> (case x of (d, ws, s) \<Rightarrow> \<exists>ws1 s1.
     xml_write_method E True (now n) x = Some (after_item i d, ws1, s1) \<and>
     items E now (Suc n) ws1 s1 A = is \<and> engine_inv E base s1 A D \<and> iter_exception ws1 < 37 \<and>
     (\<forall>m. i = Some m \<longrightarrow> length m < 768))"

lemma exception_items_step:
  assumes "i < 37"
  shows "exception_items s i = (let e = all_events ! i; ct = exception_events64 s e
     in (if ct \<noteq> 0 then Some (msg_exception e ct) else None)) # exception_items s (Suc i)"
proof -
  have "i < length all_events" using assms length_all_events by (simp add: SFE_IPV4_EXCEPTION_EVENT_LAST_def)
  then have "drop i all_events = all_events ! i # drop (Suc i) all_events" by (rule Cons_nth_drop_Suc [symmetric])
  then show ?thesis by (simp add: exception_items_def Let_def)
qed

lemma exception_items_end: "exception_items s 37 = []"
  using length_all_events by (simp add: exception_items_def SFE_IPV4_EXCEPTION_EVENT_LAST_def)

lemma step_connection:
  assumes I: "engine_inv E base s A D" and N: "names_ok E" and i: "iter_exception ws < 37"
    and w: "ws_state ws = XML_STATE_CONNECTIONS_CONNECTION" and "it": "items E now n ws s A = i # is"
  shows "step_ok E now n base A D i is (d, ws, s)"
proof -
  have T: "table_inv E s A D" and dist: "distinct (connl A)"
    using I by (auto simp: engine_inv_def table_inv_def)
  show ?thesis
  proof (cases "unread s A")
    case Nil
    then have "List.find (\<lambda>c. c_debug_read_seq (conns s c) < debug_read_seq s) (connl A) = None"
      by (simp add: find_filter unread_def)
    then show ?thesis using "it" Nil w i I
      by (simp add: step_ok_def xml_write_method_def read_connection_conv [OF T] items_def advance_def Let_def)
  next
    case (Cons c cs)
    then have f: "List.find (\<lambda>c. c_debug_read_seq (conns s c) < debug_read_seq s) (connl A) = Some c"
      by (simp add: find_filter unread_def)
    have m: "msg_connection E (mark_read c s) c (now n) = shown E s c (now n)" by (rule mark_read_msg)
    have l: "length (shown E s c (now n)) < 768" using msg_connection_fits [OF N] by (metis m)
    have ci: "conn_items E now (Suc n) (mark_read c s) cs = conn_items E now (Suc n) s cs"
      by (rule conn_items_same [OF mark_read_shows])
    have ti: "tail_items (mark_read c s) k = tail_items s k" for k
      by (simp add: tail_items_def end_items_def exception_items_def)
    show ?thesis using "it" Cons w i l f unread_mark [OF dist Cons] mark_engine [OF I, of c]
      by (auto simp: step_ok_def xml_write_method_def read_connection_conv [OF T] m emit_after items_def ci ti)
  qed
qed

lemma step_items:
  assumes I: "engine_inv E base s A D" and N: "names_ok E" and i: "iter_exception ws < 37"
    and w: "ws_state ws \<noteq> XML_STATE_DONE"
  obtains j "is" where "items E now n ws s A = j # is" and "step_ok E now n base A D j is (d, ws, s)"
proof -
  have start: "engine_inv E base (s\<lparr>debug_read_seq := v\<rparr>) A D" for v
    by (rule same_table_engine [OF I same_table_seq]) simp
  have stats: "engine_inv E base (sfe_ipv4_update_summary_stats s) A D"
    by (rule same_table_engine [OF I same_table_summary]) (simp add: sfe_ipv4_update_summary_stats_def)
  have shw: "shows_same s (s\<lparr>debug_read_seq := v\<rparr>)" for v by (simp add: shows_same_def)
  note defs = step_ok_def xml_write_method_def items_def Let_def advance_def write_fixed_def emit_after
  have "\<exists>j is. items E now n ws s A = j # is \<and> step_ok E now n base A D j is (d, ws, s)"
  proof (cases "ws_state ws")
    case XML_STATE_START
    then show ?thesis using i start fixed_fits conn_items_same [OF shw]
      by (simp add: defs sfe_ipv4_debug_dev_read_start_def tail_items_def end_items_def exception_items_def
          msg_stats_def sfe_ipv4_update_summary_stats_def)
  next
    case XML_STATE_CONNECTIONS_START
    then show ?thesis using i I fixed_fits by (simp add: defs sfe_ipv4_debug_dev_read_connections_start_def)
  next
    case XML_STATE_CONNECTIONS_CONNECTION
    then have "\<exists>j is. items E now n ws s A = j # is"
      by (cases "unread s A") (simp_all add: items_def Let_def)
    then show ?thesis using step_connection [OF I N i XML_STATE_CONNECTIONS_CONNECTION] by blast
  next
    case XML_STATE_CONNECTIONS_END
    then show ?thesis using i I fixed_fits
      by (simp add: defs sfe_ipv4_debug_dev_read_connections_end_def tail_items_def)
  next
    case XML_STATE_EXCEPTIONS_START
    then show ?thesis using i I fixed_fits by (simp add: defs sfe_ipv4_debug_dev_read_exceptions_start_def)
  next
    case XML_STATE_EXCEPTIONS_EXCEPTION
    let ?e = "all_events ! iter_exception ws"
    have k: "exception_items s (Suc (iter_exception ws)) = []" if "36 \<le> iter_exception ws"
    proof -
      have "Suc (iter_exception ws) = 37" using i that by simp
      then show ?thesis using exception_items_end by simp
    qed
    show ?thesis
      using XML_STATE_EXCEPTIONS_EXCEPTION i I msg_exception_fits k
      by (simp add: defs sfe_ipv4_debug_dev_read_exceptions_exception_def exception_items_step [OF i]
          next_exception_def SFE_IPV4_EXCEPTION_EVENT_LAST_def)
  next
    case XML_STATE_EXCEPTIONS_END
    then show ?thesis using i I fixed_fits
      by (simp add: defs sfe_ipv4_debug_dev_read_exceptions_end_def end_items_def)
  next
    case XML_STATE_STATS
    then show ?thesis using i stats msg_stats_fits by (simp add: defs sfe_ipv4_debug_dev_read_stats_def)
  next
    case XML_STATE_END
    then show ?thesis using i I fixed_fits by (simp add: defs sfe_ipv4_debug_dev_read_end_def)
  qed (use w in simp)
  then show thesis using that by blast
qed

section \<open>A whole read\<close>

lemma items_nonempty:
  assumes "ws_state ws = XML_STATE_DONE"
  shows "items E now n ws s A = []"
  using assms by (simp add: items_def Let_def)

definition tidy :: "dump \<Rightarrow> bool" where
  "tidy d \<longleftrightarrow> length (user_buf d) = total_read d"

lemma after_item_tidy: "tidy d \<Longrightarrow> tidy (after_item i d)"
  by (cases i) (simp_all add: tidy_def after_item_def)

lemma after_item_length:
  assumes "768 < rd_length d" and "\<And>m. i = Some m \<Longrightarrow> length m < 768"
  shows "unat (rd_length (after_item i d)) =
     unat (rd_length d) - length (case i of None \<Rightarrow> [] | Some m \<Rightarrow> m)"
proof (cases i)
  case (Some m)
  have m: "length m < 768" using assms(2) Some by simp
  have l: "768 < unat (rd_length d)" using assms(1) by (simp add: word_less_nat_alt)
  have "unat (of_nat (length m) :: u64) = length m" using m by (simp add: unat_of_nat take_bit_nat_eq_self)
  moreover from this have "of_nat (length m) \<le> rd_length d" using l m by (simp add: word_le_nat_alt)
  ultimately show ?thesis using Some by (simp add: after_item_def unat_sub)
qed simp

theorem read_loop_items:
  assumes "engine_inv E base s A D" and N: "names_ok E" and "iter_exception ws < 37" and "tidy d"
    and "items E now n ws s A = is"
  shows "\<exists>d' ws' t. debug_dev_read_loop E (\<lambda>_. True) now n (d, ws, s) = Some (d', ws', t) \<and>
    engine_inv E base t A D \<and> tidy d' \<and>
    user_buf d' = user_buf d @ fitting (unat (rd_length d)) is \<and>
    (768 + length (item_text is) < unat (rd_length d) \<longrightarrow> ws_state ws' = XML_STATE_DONE)"
  using assms(1,3-5)
proof (induction "is" arbitrary: n d ws s)
  case Nil
  have "ws_state ws = XML_STATE_DONE"
  proof (rule ccontr)
    assume "ws_state ws \<noteq> XML_STATE_DONE"
    from step_items [OF Nil(1) N Nil(2) this, of now n d] Nil(4) show False by simp
  qed
  then show ?case using Nil by (simp add: debug_dev_read_loop.simps wants_more_def)
next
  case (Cons i xs)
  have more: "768 < rd_length d \<longleftrightarrow> 768 < unat (rd_length d)" by (simp add: word_less_nat_alt)
  show ?case
  proof (cases "768 < rd_length d")
    case False
    then show ?thesis using Cons.prems more
      by (simp add: debug_dev_read_loop.simps wants_more_def CHAR_DEV_MSG_SIZE_def)
  next
    case True
    have w: "ws_state ws \<noteq> XML_STATE_DONE"
      using Cons.prems(4) items_nonempty [of ws E now n s A] by auto
    from step_items [OF Cons.prems(1) N Cons.prems(2) w, of now n d] Cons.prems(4)
    have "step_ok E now n base A D i xs (d, ws, s)" by auto
    then obtain ws1 s1 where m: "xml_write_method E True (now n) (d, ws, s) = Some (after_item i d, ws1, s1)"
      and ih: "items E now (Suc n) ws1 s1 A = xs" "engine_inv E base s1 A D" "iter_exception ws1 < 37"
      and l: "\<And>m. i = Some m \<Longrightarrow> length m < 768"
      by (auto simp: step_ok_def)
    obtain d' ws' t where r: "debug_dev_read_loop E (\<lambda>_. True) now (Suc n) (after_item i d, ws1, s1) = Some (d', ws', t)"
      and q: "engine_inv E base t A D" "tidy d'"
        "user_buf d' = user_buf (after_item i d) @ fitting (unat (rd_length (after_item i d))) xs"
        "768 + length (item_text xs) < unat (rd_length (after_item i d)) \<longrightarrow> ws_state ws' = XML_STATE_DONE"
      using Cons.IH [OF ih(2,3) after_item_tidy [OF Cons.prems(3)] ih(1)] by blast
    have "debug_dev_read_loop E (\<lambda>_. True) now n (d, ws, s) = Some (d', ws', t)"
      using True w r m
      by (subst debug_dev_read_loop.simps) (simp add: wants_more_def CHAR_DEV_MSG_SIZE_def)
    moreover have "user_buf (after_item i d) = user_buf d @ (case i of None \<Rightarrow> [] | Some m \<Rightarrow> m)"
      using Cons.prems(3) by (cases i) (simp_all add: after_item_def tidy_def)
    then have "user_buf d' = user_buf d @ fitting (unat (rd_length d)) (i # xs)"
      using q(3) True more after_item_length [OF True, of i] l by (cases i) auto
    moreover have "768 + length (item_text (i # xs)) < unat (rd_length d) \<longrightarrow> ws_state ws' = XML_STATE_DONE"
      using q(4) after_item_length [OF True l] by (auto simp: item_text_def)
    ultimately show ?thesis using q(1,2) by blast
  qed
qed

section \<open>Copies stay in the user's buffer\<close>

definition in_buffer :: "nat \<Rightarrow> dump \<Rightarrow> bool" where
  "in_buffer len d \<longleftrightarrow> unat (rd_length d) + total_read d = len \<and> (\<forall>q\<in>set (copied_at d). q + 768 \<le> len)"

lemma after_item_buffer:
  assumes "in_buffer len d" and "768 < rd_length d" and "\<And>m. i = Some m \<Longrightarrow> length m < 768"
  shows "in_buffer len (after_item i d)"
proof -
  have "768 < unat (rd_length d)" using assms(2) by (simp add: word_less_nat_alt)
  then show ?thesis
    using assms(1) after_item_length [OF assms(2,3)] assms(3)
    by (cases i) (force simp: in_buffer_def after_item_def)+
qed

text \<open>Every writer, whether its copy succeeds or not, produces nothing or one element that fits.\<close>

lemma writer_dump:
  assumes I: "engine_inv E base s A D" and N: "names_ok E"
    and r: "xml_write_method E ok now (d, ws, s) = Some (d1, ws1, s1)"
  shows "(\<exists>i. d1 = after_item i d \<and> (\<forall>m. i = Some m \<longrightarrow> length m < 768)) \<and> engine_inv E base s1 A D"
proof -
  have T: "table_inv E s A D" using I by (simp add: engine_inv_def)
  have start: "engine_inv E base (s\<lparr>debug_read_seq := v\<rparr>) A D" for v
    by (rule same_table_engine [OF I same_table_seq]) simp
  have stats: "engine_inv E base (sfe_ipv4_update_summary_stats s) A D"
    by (rule same_table_engine [OF I same_table_summary]) (simp add: sfe_ipv4_update_summary_stats_def)
  have e: "\<exists>i. d1 = after_item i d \<and> (\<forall>m. i = Some m \<longrightarrow> length m < 768)"
    if "length msg < 768" "emit ok msg d = Some d1 \<or> d1 = d" for msg
  proof (cases "d1 = d")
    case True
    then show ?thesis by (intro exI [of _ None]) simp
  next
    case False
    with that show ?thesis
      by (intro exI [of _ "Some msg"]) (auto simp: emit_def after_item_def split: if_splits)
  qed
  have fixed: "(\<exists>i. d1 = after_item i d \<and> (\<forall>m. i = Some m \<longrightarrow> length m < 768)) \<and> s1 = s'"
    if "write_fixed msg ok (d, ws, s') = (d1, ws1, s1)" "length msg < 768" for msg s'
    using that e [OF that(2)] by (auto simp: write_fixed_def split: option.splits)
  note defs = xml_write_method_def sfe_ipv4_debug_dev_read_start_def sfe_ipv4_debug_dev_read_connections_start_def
    sfe_ipv4_debug_dev_read_connections_end_def sfe_ipv4_debug_dev_read_exceptions_start_def
    sfe_ipv4_debug_dev_read_exceptions_end_def sfe_ipv4_debug_dev_read_stats_def sfe_ipv4_debug_dev_read_end_def
  show ?thesis
  proof (cases "ws_state ws = XML_STATE_CONNECTIONS_CONNECTION \<or> ws_state ws = XML_STATE_EXCEPTIONS_EXCEPTION")
    case False
    then obtain msg s' where "write_fixed msg ok (d, ws, s') = (d1, ws1, s1)" "length msg < 768"
      and "engine_inv E base s' A D"
      using r fixed_fits msg_stats_fits I start stats by (cases "ws_state ws") (auto simp: defs Let_def)
    with fixed show ?thesis by blast
  next
    case True
    then show ?thesis
    proof
      assume w: "ws_state ws = XML_STATE_CONNECTIONS_CONNECTION"
      show ?thesis
      proof (cases "List.find (\<lambda>c. c_debug_read_seq (conns s c) < debug_read_seq s) (connl A)")
        case None
        with r w I show ?thesis
          by (auto simp: xml_write_method_def read_connection_conv [OF T] intro: exI [of _ None])
      next
        case (Some c)
        have "emit ok (msg_connection E (mark_read c s) c now) d = Some d1 \<or> d1 = d" "s1 = mark_read c s"
          using r w Some by (auto simp: xml_write_method_def read_connection_conv [OF T] split: option.splits)
        with e [OF msg_connection_fits [OF N]] mark_engine [OF I] show ?thesis by blast
      qed
    next
      assume "ws_state ws = XML_STATE_EXCEPTIONS_EXCEPTION"
      then have "s1 = s" and "d1 = d \<or> (\<exists>e ct. emit ok (msg_exception e ct) d = Some d1)"
        using r by (auto simp: xml_write_method_def sfe_ipv4_debug_dev_read_exceptions_exception_def Let_def
            split: if_splits option.splits)
      with e [OF msg_exception_fits] I show ?thesis by (auto intro: exI [of _ None])
    qed
  qed
qed

lemma read_loop_induct [consumes 1, case_names step]:
  assumes "debug_dev_read_loop E oks now n x = Some r"
    and "\<And>loop E oks now n x r. (\<And>E oks now n x r. loop E oks now n x = Some r \<Longrightarrow> P E oks now n x r) \<Longrightarrow>
      (if wants_more x then do {
         y \<leftarrow> xml_write_method E (oks n) (now n) x;
         loop E oks now (Suc n) y
       }
       else Some x) = Some r \<Longrightarrow> P E oks now n x r"
  shows "P E oks now n x r"
  by (rule debug_dev_read_loop.raw_induct [of P "((((E, oks), now), n), x)" r, unfolded prod.case,
      OF assms(2) assms(1)])

lemma read_loop_bounds:
  assumes "debug_dev_read_loop E oks now n x = Some r" and "x = (d, ws, s)"
    and "engine_inv E base s A D" and "names_ok E" and "in_buffer len d"
  shows "in_buffer len (fst r) \<and> engine_inv E base (snd (snd r)) A D"
proof -
  have "\<forall>d ws s. x = (d, ws, s) \<longrightarrow> engine_inv E base s A D \<longrightarrow> names_ok E \<longrightarrow> in_buffer len d \<longrightarrow>
      in_buffer len (fst r) \<and> engine_inv E base (snd (snd r)) A D"
    using assms(1)
  proof (induction rule: read_loop_induct)
    case (step loop E oks now n x r)
    show ?case
    proof (intro allI impI)
      fix d ws s
      assume x: "x = (d, ws, s)" and I: "engine_inv E base s A D" and N: "names_ok E" and b: "in_buffer len d"
      show "in_buffer len (fst r) \<and> engine_inv E base (snd (snd r)) A D"
      proof (cases "wants_more x")
        case True
        then have l: "768 < rd_length d" by (simp add: wants_more_def x CHAR_DEV_MSG_SIZE_def)
        obtain d1 ws1 s1 where m: "xml_write_method E (oks n) (now n) (d, ws, s) = Some (d1, ws1, s1)"
          and rec: "loop E oks now (Suc n) (d1, ws1, s1) = Some r"
          using step(2) True by (auto simp: x bind_eq_Some_conv)
        from writer_dump [OF I N m] obtain i where "d1 = after_item i d" "\<And>m. i = Some m \<Longrightarrow> length m < 768"
          and J: "engine_inv E base s1 A D" by blast
        then have "in_buffer len d1" using after_item_buffer [OF b l] by simp
        with step(1) [OF rec] J N show ?thesis by blast
      next
        case False
        then show ?thesis using step(2) b I by (auto simp: x)
      qed
    qed
  qed
  with assms(2-5) show ?thesis by blast
qed

section \<open>A copy that keeps failing\<close>

text \<open>
  The loop ignores the result of a writer: when the first element cannot be copied the read does not
  end, it repeats that element for ever.
\<close>

lemma read_loop_stuck:
  assumes "\<And>n. \<not> oks n" and "ws_state ws = XML_STATE_START" and "768 < rd_length d"
  shows "debug_dev_read_loop E oks now n (d, ws, s) = None"
proof (rule ccontr)
  assume "debug_dev_read_loop E oks now n (d, ws, s) \<noteq> None"
  then obtain r where "debug_dev_read_loop E oks now n (d, ws, s) = Some r" by blast
  then have "(\<forall>n. \<not> oks n) \<longrightarrow> (\<forall>d' ws' s'. (d, ws, s) = (d', ws', s') \<longrightarrow>
      ws_state ws' = XML_STATE_START \<longrightarrow> rd_length d' \<le> 768)"
  proof (induction rule: read_loop_induct)
    case (step loop E oks now n x r)
    show ?case
    proof (intro allI impI)
      fix d ws s
      assume no: "\<forall>n. \<not> oks n" and x: "x = (d, ws, s)" and w: "ws_state ws = XML_STATE_START"
      show "rd_length d \<le> 768"
      proof (rule ccontr)
        assume "\<not> rd_length d \<le> 768"
        then have "loop E oks now (Suc n) (d, ws, s\<lparr>debug_read_seq := debug_read_seq s + 1\<rparr>) = Some r"
          using step(2) no w
          by (simp add: x wants_more_def CHAR_DEV_MSG_SIZE_def xml_write_method_def
              sfe_ipv4_debug_dev_read_start_def write_fixed_def emit_def not_le)
        from step(1) [OF this] no w \<open>\<not> rd_length d \<le> 768\<close> show False by simp
      qed
    qed
  qed
  then show False using assms by (simp add: not_le [symmetric])
qed

end
