(* ===== verification/Sfe_Dump.thy ===== *)
theory Sfe_Dump
  imports Sfe_Debug_Props Sfe_Demo
begin

text \<open>
  What a reader of the debug device gets: the whole state in one read when the buffer is large
  enough, never more than the buffer, and nothing at all when copying fails for ever.
\<close>

section \<open>The document\<close>

definition dump_start :: sfe_ipv4_debug_xml_write_state where
  "dump_start = \<lparr>ws_state = XML_STATE_START, iter_exception = 0\<rparr>"

text \<open>
  The document for the connections \<open>cs\<close>: one element per connection, in order, one per exception
  that was ever counted, and the statistics. \<open>now\<close> gives the time at which an element is written.
\<close>

definition dump_text :: "sfe_env \<Rightarrow> (nat \<Rightarrow> u64) \<Rightarrow> sfe_ipv4 \<Rightarrow> conn_ptr list \<Rightarrow> string" where
  "dump_text E now s cs =
     msg_start @ msg_connections_start @
     concat (map (\<lambda>i. shown E s (cs ! i) (now (i + 2))) [0..<length cs]) @
     msg_connections_end @ msg_exceptions_start @
     concat (map (\<lambda>e. if exception_events64 s e \<noteq> 0 then msg_exception e (exception_events64 s e) else [])
       all_events) @
     msg_exceptions_end @ msg_stats (sfe_ipv4_update_summary_stats s) @ msg_end"

lemma conn_items_text:
  "item_text (conn_items E now n s cs) =
     concat (map (\<lambda>i. shown E s (cs ! i) (now (i + n))) [0..<length cs])"
proof (induction cs arbitrary: n)
  case Nil
  show ?case by (simp add: item_text_def)
next
  case (Cons c cs)
  have "[0..<length (c # cs)] = 0 # map Suc [0..<length cs]"
    by (simp add: map_Suc_upt upt_conv_Cons del: upt_Suc)
  then show ?case using Cons.IH [of "Suc n"] by (simp add: item_text_def o_def)
qed

lemma item_text_append [simp]: "item_text (xs @ ys) = item_text xs @ item_text ys"
  by (simp add: item_text_def)

lemma item_text_Cons [simp]:
  "item_text [] = []" "item_text (None # xs) = item_text xs" "item_text (Some m # xs) = m @ item_text xs"
  by (simp_all add: item_text_def)

lemma exception_items_text:
  "item_text (exception_items s 0) = concat (map (\<lambda>e. if exception_events64 s e \<noteq> 0
     then msg_exception e (exception_events64 s e) else []) all_events)"
  by (simp add: item_text_def exception_items_def o_def if_distrib cong: if_cong)

lemma start_items_text:
  assumes "\<forall>c\<in>set (connl A). c_debug_read_seq (conns s c) < debug_read_seq s + 1"
  shows "item_text (items E now 0 dump_start s A) = dump_text E now s (connl A)"
proof -
  have "unread (s\<lparr>debug_read_seq := debug_read_seq s + 1\<rparr>) A = connl A"
    using assms by (simp add: unread_def filter_True)
  then show ?thesis
    by (simp add: items_def dump_start_def Let_def tail_items_def end_items_def conn_items_text
        exception_items_text dump_text_def)
qed

section \<open>Properties\<close>

text \<open>
  C21: A read of a newly opened device with a large enough buffer ends and delivers the complete
  document: every connection of the engine exactly once, in the order of its list, with its
  totals, every exception that was counted, and the statistics. (The dump numbers of the connections
  are below the new one, which fails only when the number wraps around; interface names fit their
  kernel buffer.)
\<close>

theorem dump_complete:
  assumes "engine_inv E base s A D" and "names_ok E"
    and "\<forall>c\<in>set (connl A). c_debug_read_seq (conns s c) < debug_read_seq s + 1"
    and "768 + length (dump_text E now s (connl A)) < unat len"
  shows "\<exists>d ws t. sfe_ipv4_debug_dev_read E (\<lambda>_. True) now len dump_start s = Some (d, ws, t) \<and>
    ws_state ws = XML_STATE_DONE \<and> user_buf d = dump_text E now s (connl A) \<and>
    total_read d = length (dump_text E now s (connl A)) \<and> engine_inv E base t A D"
proof -
  let ?d = "\<lparr>rd_length = len, total_read = 0, user_buf = [], copied_at = []\<rparr>"
  have i: "iter_exception dump_start < 37" and t: "tidy ?d" by (simp_all add: dump_start_def tidy_def)
  note tx = start_items_text [OF assms(3), of E now]
  obtain d ws u where r: "debug_dev_read_loop E (\<lambda>_. True) now 0 (?d, dump_start, s) = Some (d, ws, u)"
    and I: "engine_inv E base u A D" and td: "tidy d"
    and b: "user_buf d = user_buf ?d @ fitting (unat (rd_length ?d)) (items E now 0 dump_start s A)"
    and w: "768 + length (item_text (items E now 0 dump_start s A)) < unat (rd_length ?d) \<longrightarrow>
      ws_state ws = XML_STATE_DONE"
    using read_loop_items [OF assms(1,2) i t refl, of now 0] by blast
  have "768 + length (item_text (items E now 0 dump_start s A)) < unat len" using assms(4) tx by simp
  with b w have "user_buf d = dump_text E now s (connl A)" "ws_state ws = XML_STATE_DONE"
    by (simp_all add: fitting_all tx)
  with r I td show ?thesis by (simp add: sfe_ipv4_debug_dev_read_def tidy_def)
qed

lemma demo_names: "names_ok demo_env"
  by (simp add: names_ok_def demo_env_def demo_dev_def)

lemma demo_dump:
  "\<forall>e\<in>set all_events. exception_events64 demo_state e = 0"
  "c_debug_read_seq (conns demo_state 0) < debug_read_seq demo_state + 1"
  by code_simp+

theorem dump_complete_witness:
  "\<exists>A d ws t. connl A = [0] \<and>
    sfe_ipv4_debug_dev_read demo_env (\<lambda>_. True) (\<lambda>_. 0) 10000 dump_start demo_state = Some (d, ws, t) \<and>
    ws_state ws = XML_STATE_DONE \<and> user_buf d = dump_text demo_env (\<lambda>_. 0) demo_state (connl A) \<and>
    total_read d = length (dump_text demo_env (\<lambda>_. 0) demo_state (connl A)) \<and>
    engine_inv demo_env no_refs t A []"
proof (rule demo_inv)
  fix A
  assume I: "engine_inv demo_env no_refs demo_state A []" and c: "connl A = [0]"
  have seq: "\<forall>c\<in>set (connl A). c_debug_read_seq (conns demo_state c) < debug_read_seq demo_state + 1"
    using demo_dump(2) by (simp add: c)
  have no: "concat (map (\<lambda>e. if exception_events64 demo_state e \<noteq> 0
      then msg_exception e (exception_events64 demo_state e) else []) all_events) = []"
    using demo_dump(1) by simp
  have "length (shown demo_env demo_state 0 0) < 768"
    unfolding shown_def by (rule msg_connection_fits [OF demo_names])
  then have "length (dump_text demo_env (\<lambda>_. 0) demo_state (connl A)) < 8 * 768"
    unfolding dump_text_def no
    using fixed_fits msg_stats_fits [of "sfe_ipv4_update_summary_stats demo_state"] by (simp add: c)
  then have len: "768 + length (dump_text demo_env (\<lambda>_. 0) demo_state (connl A)) < unat (10000 :: u64)" by simp
  from dump_complete [OF I demo_names seq len] c show ?thesis by blast
qed

text \<open>
  A read that returns has not written outside the buffer it was given, although every element is copied
  with the full size of the message buffer: all successful copies lay inside, and what is left of the
  buffer is counted correctly. (A read whose copies all fail does not return, see below.)
\<close>

theorem dump_stays_in_buffer:
  assumes "engine_inv E base s A D" and "names_ok E"
    and "sfe_ipv4_debug_dev_read E oks now len ws s = Some (d, ws', t)"
  shows "(\<forall>q\<in>set (copied_at d). q + CHAR_DEV_MSG_SIZE \<le> unat len) \<and>
    total_read d + unat (rd_length d) = unat len \<and> engine_inv E base t A D"
proof -
  have b: "in_buffer (unat len) \<lparr>rd_length = len, total_read = 0, user_buf = [], copied_at = []\<rparr>"
    by (simp add: in_buffer_def)
  from read_loop_bounds [OF assms(3) [unfolded sfe_ipv4_debug_dev_read_def] refl assms(1,2) b]
  show ?thesis by (auto simp: in_buffer_def CHAR_DEV_MSG_SIZE_def)
qed

fun read_ends :: "'a option \<Rightarrow> bool" where
  "read_ends (Some x) = True"
| "read_ends None = False"

theorem dump_stays_in_buffer_witness:
  "\<exists>d ws t. sfe_ipv4_debug_dev_read demo_env (\<lambda>_. True) (\<lambda>_. 0) 900 dump_start demo_start = Some (d, ws, t) \<and>
    (\<forall>q\<in>set (copied_at d). q + CHAR_DEV_MSG_SIZE \<le> unat (900 :: u64)) \<and>
    total_read d + unat (rd_length d) = unat (900 :: u64) \<and> engine_inv demo_env no_refs t abs_start []"
proof -
  have "read_ends (sfe_ipv4_debug_dev_read demo_env (\<lambda>_. True) (\<lambda>_. 0) 900 dump_start demo_start)"
    by code_simp
  then obtain d ws t where r:
    "sfe_ipv4_debug_dev_read demo_env (\<lambda>_. True) (\<lambda>_. 0) 900 dump_start demo_start = Some (d, ws, t)"
    by (rule read_ends.elims(2)) auto
  show ?thesis by (intro exI) (rule conjI [OF r dump_stays_in_buffer [OF demo_start_inv demo_names r]])
qed

text \<open>
  C35: When copying to the reader fails every time (its buffer is not writable), a read never returns: the
  loop ignores that a writer failed and writes the same element again and again.
\<close>

theorem dump_never_gives_up:
  assumes "\<forall>n. \<not> oks n" and "ws_state ws = XML_STATE_START" and "CHAR_DEV_MSG_SIZE < unat len"
  shows "sfe_ipv4_debug_dev_read E oks now len ws s = None"
proof -
  have "\<not> oks n" for n using assms(1) by blast
  moreover have "768 < len" using assms(3) by (simp add: CHAR_DEV_MSG_SIZE_def word_less_nat_alt)
  ultimately show ?thesis
    unfolding sfe_ipv4_debug_dev_read_def by (intro read_loop_stuck) (use assms(2) in simp_all)
qed

theorem dump_never_gives_up_witness:
  "sfe_ipv4_debug_dev_read demo_env (\<lambda>_. False) (\<lambda>_. 0) 4096 dump_start demo_state = None"
  by (rule dump_never_gives_up) (simp_all add: dump_start_def CHAR_DEV_MSG_SIZE_def)

end
