(* ===== verification/Sfe_System.thy ===== *)
theory Sfe_System
  imports Sfe_Path Sfe_Dump "HOL-Library.Multiset"
begin

text \<open>
  The engine as several processors run it. Every part of the code that holds \<open>si->lock\<close> is one step;
  between two steps of one processor any other may take its own. A connection that was removed
  under the lock waits, with the reason, until the processor that removed it releases it; the
  timer function releases the lock after every connection it reports. Steps carry an event, so that a
  run is a history of flows.
\<close>

section \<open>The locked parts\<close>

text \<open>\<open>sfe_ipv4_destroy_rule\<close> up to the unlock.\<close>

definition destroy_rule_locked ::
  "sfe_env \<Rightarrow> sfe_connection_destroy \<Rightarrow> sfe_ipv4 \<Rightarrow> (conn_ptr option \<times> sfe_ipv4) option" where
  "destroy_rule_locked E sid s = do {
     let s1 = s\<lparr>connection_destroy_requests := connection_destroy_requests s + 1\<rparr>;
     found \<leftarrow> sfe_ipv4_find_sfe_ipv4_connection E (sid_protocol sid) (ip (sid_src_ip sid))
                (sid_src_port sid) (ip (sid_dest_ip sid)) (sid_dest_port sid) s1;
     (case found of
        None \<Rightarrow> Some (None, s1\<lparr>connection_destroy_misses := connection_destroy_misses s1 + 1\<rparr>)
      | Some c \<Rightarrow> Some (Some c, sfe_ipv4_remove_sfe_ipv4_connection E c s1))
   }"

text \<open>One round of \<open>sfe_ipv4_destroy_all_rules_for_dev\<close>.\<close>

definition destroy_dev_locked ::
  "sfe_env \<Rightarrow> netdev option \<Rightarrow> sfe_ipv4 \<Rightarrow> (conn_ptr option \<times> sfe_ipv4) option" where
  "destroy_dev_locked E dev s = do {
     found \<leftarrow> find_conn_of_dev dev s (all_connections_head s);
     (case found of
        None \<Rightarrow> Some (None, s)
      | Some c \<Rightarrow> Some (Some c, sfe_ipv4_remove_sfe_ipv4_connection E c s))
   }"

text \<open>The operations are their locked part and the release of what it removed.\<close>

lemma destroy_rule_parts:
  "sfe_ipv4_destroy_rule E sid sis now s = (case destroy_rule_locked E sid s of
     None \<Rightarrow> None
   | Some (None, t) \<Rightarrow> Some t
   | Some (Some c, t) \<Rightarrow> Some (sfe_ipv4_flush_sfe_ipv4_connection c SFE_SYNC_REASON_DESTROY sis now t))"
  by (auto simp: sfe_ipv4_destroy_rule_def destroy_rule_locked_def Let_def split: option.splits Option.bind_splits)

lemma destroy_all_parts:
  "sfe_ipv4_destroy_all_rules_for_dev E dev sis now n s = (case destroy_dev_locked E dev s of
     None \<Rightarrow> None
   | Some (None, t) \<Rightarrow> Some t
   | Some (Some c, t) \<Rightarrow> sfe_ipv4_destroy_all_rules_for_dev E dev sis now (Suc n)
       (sfe_ipv4_flush_sfe_ipv4_connection c SFE_SYNC_REASON_DESTROY sis (now n) t))"
  by (subst sfe_ipv4_destroy_all_rules_for_dev.simps) (auto simp: destroy_dev_locked_def split: option.splits Option.bind_splits)

section \<open>Steps\<close>

record sfe_system =
  engine :: sfe_ipv4
  pending :: "(conn_ptr \<times> sfe_sync_reason) list" \<comment> \<open>removed, to be released\<close>
  syncing :: "(nat \<times> nat) option" \<comment> \<open>the timer function: turns left and the callback it read\<close>

datatype flow_event =
    Internal
  | Learn conn_key
  | Forget conn_key
  | Release conn_key "nat option" \<comment> \<open>with the callback that was told\<close>

definition forgotten :: "sfe_ipv4 \<Rightarrow> conn_ptr option \<Rightarrow> flow_event" where
  "forgotten s c = (case c of None \<Rightarrow> Internal | Some c \<Rightarrow> Forget (conn_key s c))"

definition waiting :: "sfe_sync_reason \<Rightarrow> conn_ptr option \<Rightarrow> (conn_ptr \<times> sfe_sync_reason) list" where
  "waiting reason c = map (\<lambda>c. (c, reason)) (pend_list c)"

inductive sys_step :: "sfe_env \<Rightarrow> kernel \<Rightarrow> sfe_system \<Rightarrow> flow_event \<Rightarrow> sfe_system \<Rightarrow> bool"
  for E K where
  st_packet: "sfe_ipv4_recv_locked E K dev skb (engine x) = Some (out, c, t) \<Longrightarrow>
    sys_step E K x (forgotten (engine x) c)
      (x\<lparr>engine := t, pending := waiting SFE_SYNC_REASON_FLUSH c @ pending x\<rparr>)"
| st_create: "alloc_fresh al (engine x) \<Longrightarrow> sfe_ipv4_create_rule E sic al now (engine x) = Some (res, t) \<Longrightarrow>
    sys_step E K x (if res = CREATED then Learn (sic_key sic) else Internal) (x\<lparr>engine := t\<rparr>)"
| st_destroy: "destroy_rule_locked E sid (engine x) = Some (c, t) \<Longrightarrow>
    sys_step E K x (forgotten (engine x) c)
      (x\<lparr>engine := t, pending := waiting SFE_SYNC_REASON_DESTROY c @ pending x\<rparr>)"
| st_destroy_dev: "destroy_dev_locked E dev (engine x) = Some (c, t) \<Longrightarrow>
    sys_step E K x (forgotten (engine x) c)
      (x\<lparr>engine := t, pending := waiting SFE_SYNC_REASON_DESTROY c @ pending x\<rparr>)"
| st_release: "(c, reason) \<in> set (pending x) \<Longrightarrow>
    sys_step E K x (Release (conn_key (engine x) c) (sync_rule_callback (engine x)))
      (x\<lparr>engine := sfe_ipv4_flush_sfe_ipv4_connection c reason sis now (engine x),
         pending := remove1 (c, reason) (pending x)\<rparr>)"
| st_update: "sfe_ipv4_update_rule E sic (engine x) = Some t \<Longrightarrow> sys_step E K x Internal (x\<lparr>engine := t\<rparr>)"
| st_mark: "sfe_ipv4_mark_rule E m (engine x) = Some t \<Longrightarrow> sys_step E K x Internal (x\<lparr>engine := t\<rparr>)"
| st_register: "sys_step E K x Internal (x\<lparr>engine := sfe_ipv4_register_sync_rule_callback cb (engine x)\<rparr>)"
| st_sync_start: "syncing x = None \<Longrightarrow> sync_rule_callback (engine x) = Some cb \<Longrightarrow>
    t = sfe_ipv4_update_summary_stats (engine x) \<Longrightarrow>
    sys_step E K x Internal (x\<lparr>engine := t, syncing := Some (sync_quota t, cb)\<rparr>)"
| st_sync_turn: "syncing x = Some (Suc q, cb) \<Longrightarrow> active_head (engine x) = Some cm \<Longrightarrow>
    sfe_ipv4_periodic_sync_turn cm cb sis now (engine x) = Some t \<Longrightarrow>
    sys_step E K x Internal (x\<lparr>engine := t, syncing := Some (q, cb)\<rparr>)"
| st_sync_end: "syncing x = Some (q, cb) \<Longrightarrow> q = 0 \<or> active_head (engine x) = None \<Longrightarrow>
    sys_step E K x Internal (x\<lparr>syncing := None\<rparr>)"
| st_dump: "names_ok E \<Longrightarrow> xml_write_method E ok now (d, ws, engine x) = Some (d', ws', t) \<Longrightarrow>
    sys_step E K x Internal (x\<lparr>engine := t\<rparr>)"
| st_clear_stats: "sfe_ipv4_debug_dev_write len (engine x) = (n, t) \<Longrightarrow>
    sys_step E K x Internal (x\<lparr>engine := t\<rparr>)"

inductive_cases learn_cases: "sys_step E K x (Learn k) y"
inductive_cases release_cases: "sys_step E K x (Release k cb) y"

text \<open>Histories.\<close>

inductive sys_run :: "sfe_env \<Rightarrow> kernel \<Rightarrow> sfe_system \<Rightarrow> flow_event list \<Rightarrow> sfe_system \<Rightarrow> bool"
  for E K x where
  start: "sys_run E K x [] x"
| step: "sys_run E K x es y \<Longrightarrow> sys_step E K y e z \<Longrightarrow> sys_run E K x (es @ [e]) z"

inductive_simps sys_run_Nil [simp]: "sys_run E K x [] y"

lemma run_one: "sys_step E K x e y \<Longrightarrow> sys_run E K x [e] y"
  using sys_run.step [OF sys_run.start] by fastforce

lemma run_append: "sys_run E K y fs z \<Longrightarrow> sys_run E K x es y \<Longrightarrow> sys_run E K x (es @ fs) z"
  by (induction rule: sys_run.induct) (auto dest: sys_run.step)

section \<open>The invariant\<close>

text \<open>
  The connections that wait are allocated, in no table, and no two processors wait for the same one.
\<close>

definition sys_inv :: "sfe_env \<Rightarrow> (netdev \<Rightarrow> int) \<Rightarrow> sfe_system \<Rightarrow> sfe_abs \<Rightarrow> bool" where
  "sys_inv E base x A \<longleftrightarrow> engine_inv E base (engine x) A (map fst (pending x)) \<and>
     SFE_SYNC_REASON_STATS \<notin> snd ` set (pending x)"

lemma mset_table_inv:
  assumes "mset D' = mset D"
  shows "table_inv E s A D' = table_inv E s A D"
proof -
  have "set (connl A @ D') = set (connl A @ D)" "distinct (connl A @ D') = distinct (connl A @ D)"
    using mset_eq_setD [OF assms] mset_eq_imp_distinct_iff [OF assms] by auto
  moreover have "table_matches s (connl A @ D') = table_matches s (connl A @ D)"
    using mset_eq_setD [OF assms] by (simp add: table_matches_def)
  ultimately show ?thesis by (simp only: table_inv_def)
qed

lemma mset_dev_uses:
  assumes "mset D' = mset D"
  shows "dev_uses s D' d = dev_uses s D d"
proof -
  have "size (filter_mset P (mset D')) = size (filter_mset P (mset D))" for P using assms by simp
  then have "length (filter P D') = length (filter P D)" for P
    by (metis mset_filter size_mset)
  then show ?thesis by (simp add: dev_uses_def)
qed

lemma mset_engine_inv:
  assumes "mset D' = mset D" and "engine_inv E base s A D"
  shows "engine_inv E base s A D'"
  using assms mset_table_inv [OF assms(1)] mset_dev_uses [OF assms(1)] mset_eq_setD [OF assms(1)]
  by (simp add: engine_inv_def refs_inv_def)

lemma release_front:
  assumes "engine_inv E base s A (map fst P)" and "(c, r) \<in> set P"
  shows "engine_inv E base s A (c # map fst (remove1 (c, r) P))"
proof (rule mset_engine_inv [OF _ assms(1)])
  have "mset P = add_mset (c, r) (mset (remove1 (c, r) P))" using assms(2) by simp
  from arg_cong [OF this, of "image_mset fst"]
  have "image_mset fst (mset P) = add_mset c (image_mset fst (mset (remove1 (c, r) P)))"
    by (simp only: image_mset_add_mset fst_conv)
  then show "mset (c # map fst (remove1 (c, r) P)) = mset (map fst P)" by simp
qed

section \<open>What a step does\<close>

text \<open>
  The contract of the locked parts that may take a connection away: the rest of the engine is as
  before and the keys of all connections stay.
\<close>

definition takes :: "sfe_env \<Rightarrow> (netdev \<Rightarrow> int) \<Rightarrow> sfe_ipv4 \<Rightarrow> sfe_abs \<Rightarrow> conn_ptr list \<Rightarrow>
  conn_ptr option \<Rightarrow> sfe_ipv4 \<Rightarrow> sfe_abs \<Rightarrow> bool" where
  "takes E base s A D c t B \<longleftrightarrow> engine_inv E base t B (pend_list c @ D) \<and> taken_out c A B \<and>
     conn_key t = conn_key s \<and> sync_calls t = sync_calls s \<and> sync_rule_callback t = sync_rule_callback s"

lemma recv_takes:
  assumes "engine_inv E base s A D" and "sfe_ipv4_recv_locked E K dev skb s = Some (out, c, t)"
  shows "\<exists>B. takes E base s A D c t B"
  using recv_locked_handles [OF assms(1), of K dev skb] assms(2)
  by (auto simp: handles_def handled_def takes_def)

lemma remove_takes:
  assumes "engine_inv E base s A D" and "c \<in> set (connl A)"
  shows "takes E base s A D (Some c) (sfe_ipv4_remove_sfe_ipv4_connection E c s) (abs_remove E s c A)"
  using remove_engine [OF assms] assms(2)
  by (simp add: takes_def fun_eq_iff conn_key_def)

lemma destroy_locked_takes:
  assumes I: "engine_inv E base s A D"
  shows "\<exists>c t B. destroy_rule_locked E sid s = Some (c, t) \<and> takes E base s A D c t B \<and>
    (case c of None \<Rightarrow> sid_key sid \<notin> flow_keys s A | Some c \<Rightarrow> conn_key s c = sid_key sid)"
proof -
  let ?s1 = "s\<lparr>connection_destroy_requests := connection_destroy_requests s + 1\<rparr>"
  have I1: "engine_inv E base ?s1 A D" using I by (rule engine_counter)
  have k1: "conn_key ?s1 = conn_key s" by (simp add: fun_eq_iff conn_key_def)
  obtain f where f: "sfe_ipv4_find_sfe_ipv4_connection E (sid_protocol sid) (ip (sid_src_ip sid))
        (sid_src_port sid) (ip (sid_dest_ip sid)) (sid_dest_port sid) ?s1 = Some f"
    and hit: "\<And>c. f = Some c \<Longrightarrow> c \<in> set (connl A) \<and> conn_key s c = sid_key sid"
    and miss: "f = None \<Longrightarrow> sid_key sid \<notin> conn_key s ` set (connl A)"
    using find_conn_raw [OF engine_table [OF I1]] unfolding k1 sid_key_def by blast
  show ?thesis
  proof (cases f)
    case None
    let ?t = "?s1\<lparr>connection_destroy_misses := connection_destroy_misses ?s1 + 1\<rparr>"
    have "takes E base s A D None ?t A"
      using engine_counter(4) [OF I1] by (simp add: takes_def fun_eq_iff conn_key_def)
    then show ?thesis using f None miss [OF None] by (auto simp: destroy_rule_locked_def flow_keys_def)
  next
    case (Some c)
    have "takes E base ?s1 A D (Some c) (sfe_ipv4_remove_sfe_ipv4_connection E c ?s1) (abs_remove E ?s1 c A)"
      using hit [OF Some] by (intro remove_takes [OF I1]) simp
    then have "takes E base s A D (Some c) (sfe_ipv4_remove_sfe_ipv4_connection E c ?s1) (abs_remove E ?s1 c A)"
      by (simp add: takes_def k1)
    then show ?thesis using f Some hit [OF Some] by (auto simp: destroy_rule_locked_def)
  qed
qed

lemma destroy_dev_locked_takes:
  assumes I: "engine_inv E base s A D"
  shows "\<exists>c t B. destroy_dev_locked E dev s = Some (c, t) \<and> takes E base s A D c t B \<and>
    (case c of None \<Rightarrow> \<forall>c\<in>set (connl A). \<not> uses_dev dev (conns s c)
     | Some c \<Rightarrow> uses_dev dev (conns s c))"
proof (cases "List.find (\<lambda>c. uses_dev dev (conns s c)) (connl A)")
  case None
  then have "takes E base s A D None s A" using I by (simp add: takes_def)
  moreover have "destroy_dev_locked E dev s = Some (None, s)"
    by (simp add: destroy_dev_locked_def find_conn_of_dev_table [OF engine_table [OF I]] None)
  ultimately show ?thesis using None by (auto simp: find_None_iff)
next
  case (Some c)
  note c = find_in_set [OF Some]
  have "takes E base s A D (Some c) (sfe_ipv4_remove_sfe_ipv4_connection E c s) (abs_remove E s c A)"
    using c by (intro remove_takes [OF I]) simp
  moreover have "destroy_dev_locked E dev s = Some (Some c, sfe_ipv4_remove_sfe_ipv4_connection E c s)"
    by (simp add: destroy_dev_locked_def find_conn_of_dev_table [OF engine_table [OF I]] Some)
  ultimately show ?thesis using c by auto
qed

text \<open>The last reports of flows, with the callback that got them.\<close>

definition last_reports :: "sfe_ipv4 \<Rightarrow> (nat \<times> conn_key) list" where
  "last_reports s = map (\<lambda>(cb, m). (cb, sis_key m))
     (filter (\<lambda>(cb, m). sis_reason m \<noteq> SFE_SYNC_REASON_STATS) (sync_calls s))"

lemma last_reports_calls: "sync_calls t = sync_calls s \<Longrightarrow> last_reports t = last_reports s"
  by (simp add: last_reports_def)

text \<open>Steps that touch neither the set of connections nor their keys and report no flow's end.\<close>

definition calm :: "sfe_env \<Rightarrow> (netdev \<Rightarrow> int) \<Rightarrow> sfe_ipv4 \<Rightarrow> sfe_abs \<Rightarrow> conn_ptr list \<Rightarrow> sfe_ipv4 \<Rightarrow> bool" where
  "calm E base s A D t \<longleftrightarrow> conn_key t = conn_key s \<and> last_reports t = last_reports s \<and>
     (\<exists>B. engine_inv E base t B D \<and> connl B = connl A)"

lemma calm_same_table:
  assumes "engine_inv E base s A D" and "same_table s t" and "dev_refcnt t = dev_refcnt s"
    and "sync_calls t = sync_calls s"
  shows "calm E base s A D t"
  using same_table_engine [OF assms(1-3)] same_table_conn_key [OF assms(2)] last_reports_calls [OF assms(4)]
  by (auto simp: calm_def)

lemma protocol_state_calls [simp]:
  "sync_calls (sfe_ipv4_update_protocol_state c sic s) = sync_calls s"
  by (simp add: sfe_ipv4_update_protocol_state_def sfe_ipv4_update_tcp_state_def Let_def)

lemma update_calm:
  assumes I: "engine_inv E base s A D" and u: "sfe_ipv4_update_rule E sic s = Some t"
  shows "calm E base s A D t"
proof (rule calm_same_table [OF I])
  obtain f where t: "t = s \<or> t = sfe_ipv4_update_protocol_state f sic s"
    using u by (auto simp: sfe_ipv4_update_rule_def split: option.splits Option.bind_splits)
  then show "same_table s t" "dev_refcnt t = dev_refcnt s" "sync_calls t = sync_calls s"
    using update_protocol_state_frame by auto
qed

lemma mark_calm:
  assumes I: "engine_inv E base s A D" and u: "sfe_ipv4_mark_rule E mark s = Some t"
  shows "calm E base s A D t"
proof (rule calm_same_table [OF I])
  have m: "same_table s (upd_conn c (\<lambda>d. d\<lparr>c_mark := scm_mark mark\<rparr>) s)" for c
    by (rule same_table_upd_conn) (simp add: conn_static_def)
  obtain c where t: "t = s \<or> t = upd_conn c (\<lambda>d. d\<lparr>c_mark := scm_mark mark\<rparr>) s"
    using u by (auto simp: sfe_ipv4_mark_rule_def split: option.splits Option.bind_splits)
  then show "same_table s t" "dev_refcnt t = dev_refcnt s" "sync_calls t = sync_calls s" using m by auto
qed

lemma register_calm:
  assumes "engine_inv E base s A D"
  shows "calm E base s A D (sfe_ipv4_register_sync_rule_callback cb s)"
  by (rule calm_same_table [OF assms same_table_callback])
    (simp_all add: sfe_ipv4_register_sync_rule_callback_def)

lemma summary_calm:
  assumes "engine_inv E base s A D"
  shows "calm E base s A D (sfe_ipv4_update_summary_stats s)"
  by (rule calm_same_table [OF assms same_table_summary]) (simp_all add: sfe_ipv4_update_summary_stats_def Let_def)

lemma clear_stats_calm:
  assumes I: "engine_inv E base s A D" and w: "sfe_ipv4_debug_dev_write len s = (n, t)"
  shows "calm E base s A D t"
proof (rule calm_same_table [OF I])
  have "same_table (sfe_ipv4_update_summary_stats s) t"
    using w by (auto simp: sfe_ipv4_debug_dev_write_def Let_def same_table_def)
  with same_table_summary show "same_table s t" by (rule same_table_trans)
  show "dev_refcnt t = dev_refcnt s" "sync_calls t = sync_calls s"
    using w by (auto simp: sfe_ipv4_debug_dev_write_def Let_def sfe_ipv4_update_summary_stats_def)
qed

lemma mark_read_calls: "sync_calls (mark_read c s) = sync_calls s"
  by (simp add: mark_read_def Let_def sfe_ipv4_connection_match_update_summary_stats_def)

lemma dump_calm:
  assumes I: "engine_inv E base s A D" and w: "xml_write_method E ok now (d, ws, s) = Some (d', ws', t)"
  shows "calm E base s A D t"
proof -
  have T: "table_inv E s A D" using I by (rule engine_table)
  have "t = s \<or> t = s\<lparr>debug_read_seq := debug_read_seq s + 1\<rparr> \<or> t = sfe_ipv4_update_summary_stats s \<or>
      (\<exists>c. t = mark_read c s)"
    using w
    by (auto simp: xml_write_method_def sfe_ipv4_debug_dev_read_start_def
        sfe_ipv4_debug_dev_read_connections_start_def sfe_ipv4_debug_dev_read_connections_end_def
        sfe_ipv4_debug_dev_read_exceptions_start_def sfe_ipv4_debug_dev_read_exceptions_end_def
        sfe_ipv4_debug_dev_read_end_def sfe_ipv4_debug_dev_read_stats_def write_fixed_def
        sfe_ipv4_debug_dev_read_exceptions_exception_def read_connection_conv [OF T] Let_def
        split: sfe_ipv4_debug_xml_states.splits option.splits if_splits)
  then show ?thesis
  proof (elim disjE exE)
    assume "t = s" then show ?thesis using calm_same_table [OF I same_table_refl] by simp
  next
    assume t: "t = s\<lparr>debug_read_seq := debug_read_seq s + 1\<rparr>"
    show ?thesis unfolding t by (rule calm_same_table [OF I same_table_seq]) simp_all
  next
    assume "t = sfe_ipv4_update_summary_stats s" then show ?thesis using summary_calm [OF I] by simp
  next
    fix c assume t: "t = mark_read c s"
    show ?thesis unfolding t
      by (rule calm_same_table [OF I same_table_mark mark_read_refs mark_read_calls])
  qed
qed

lemma turn_report:
  assumes T: "table_inv E s A D" and a: "actives A = cm # rest"
  shows "\<exists>t m. sfe_ipv4_periodic_sync_turn cm cb sis now s = Some t \<and>
    table_inv E t (A\<lparr>actives := remove1 (counter_of s cm) rest\<rparr>) D \<and> only_synced s t \<and>
    sync_calls t = sync_calls s @ [(cb, m)] \<and> sis_reason m = SFE_SYNC_REASON_STATS"
proof -
  obtain t m where t: "sfe_ipv4_periodic_sync_turn cm cb sis now s = Some t"
    and J: "table_inv E t (A\<lparr>actives := remove1 (counter_of s cm) rest\<rparr>) D" and o: "only_synced s t"
    and c: "sync_calls t = sync_calls s @ [(cb, m)]"
    by (rule sync_turn [OF assms, of cb sis now])
  obtain m' u where g: "sfe_ipv4_gen_sync_sfe_ipv4_connection (cm_connection (cms s cm)) sis
      SFE_SYNC_REASON_STATS now (leave_pair cm s) = (m', u)" by fastforce
  then have "t = call_sync_rule cb m' u" using t sync_turn_conv [OF assms, of cb sis now] by simp
  then have "m = m'" using c gen_sync_frame(2) [OF g] by (simp add: call_sync_rule_def)
  then have "sis_reason m = SFE_SYNC_REASON_STATS" using gen_sync_message(12) [OF g] by simp
  with t J o c show ?thesis by blast
qed

lemma turn_calm:
  assumes I: "engine_inv E base s A D" and h: "active_head s = Some cm"
  shows "\<exists>t. sfe_ipv4_periodic_sync_turn cm cb sis now s = Some t \<and> calm E base s A D t"
proof -
  have T: "table_inv E s A D" using I by (rule engine_table)
  obtain rest where a: "actives A = cm # rest"
    using T h by (cases "actives A") (auto simp: table_inv_def lists_rep_def act.trepr_def dll_def)
  obtain t m where t: "sfe_ipv4_periodic_sync_turn cm cb sis now s = Some t"
    and J: "table_inv E t (A\<lparr>actives := remove1 (counter_of s cm) rest\<rparr>) D"
    and o: "only_synced s t" and c: "sync_calls t = sync_calls s @ [(cb, m)]"
    and r: "sis_reason m = SFE_SYNC_REASON_STATS"
    using turn_report [OF T a, of cb sis now] by blast
  have "calm E base s A D t"
    using only_synced_engine [OF I o J] only_synced_fields(3) [OF o] c r
    by (auto simp: calm_def last_reports_def fun_eq_iff)
  with t show ?thesis by blast
qed

section \<open>Creation and release\<close>

lemma insert_connection_calls [simp]:
  "sync_calls (sfe_ipv4_insert_sfe_ipv4_connection E c s) = sync_calls s"
  by (simp add: insert_conn_conv' mch.push_def link_conn_def cch.push_def alls.enqueue_def setter_defs Let_def
      split: option.split)

lemma build_rule_calls: "sync_calls (build_rule E sic c m r j s) = sync_calls s"
  by (simp add: build_rule_def prepare_rule_def idle_match_def dev_hold_def setter_defs Let_def)

lemma create_frame:
  assumes fresh: "alloc_fresh al s" and r: "sfe_ipv4_create_rule E sic al j s = Some (res, t)"
  shows "sync_calls t = sync_calls s" and "d \<in> conn_live s \<Longrightarrow> conn_key t d = conn_key s d"
proof -
  have k: "conn_key (s\<lparr>connection_create_requests := v\<rparr>) d = conn_key s d"
    "conn_key (s\<lparr>connection_create_requests := v, connection_create_collisions := w\<rparr>) d = conn_key s d"
    "conn_key (s\<lparr>connection_create_requests := v, conn_live := X, cm_live := Y\<rparr>) d = conn_key s d"
    "conn_key (s\<lparr>connection_create_requests := v, conn_live := X\<rparr>) d = conn_key s d" for v w X Y
    by (simp_all add: conn_key_def)
  have u: "conn_key (sfe_ipv4_update_protocol_state c sic s') d = conn_key s' d" for c s'
    using same_table_conn_key [OF update_protocol_state_frame(1) [of s' c sic]] by simp
  have b: "conn_key (build_rule E sic c m r j s') d = conn_key s' d"
    if "d \<in> conn_live s" "c \<notin> conn_live s" "m \<noteq> r" for c m r s'
    using that by (intro build_rule_key_old) auto
  have "sync_calls t = sync_calls s \<and> (d \<in> conn_live s \<longrightarrow> conn_key t d = conn_key s d)"
    using r fresh
    by (auto simp: sfe_ipv4_create_rule_def Let_def build_rule_calls alloc_fresh_def kfree_conn_def kfree_cm_def
        k u b split: option.splits Option.bind_splits if_splits)
  then show "sync_calls t = sync_calls s" and "d \<in> conn_live s \<Longrightarrow> conn_key t d = conn_key s d" by simp_all
qed

lemma flush_last_report:
  assumes "reason \<noteq> SFE_SYNC_REASON_STATS"
  shows "last_reports (sfe_ipv4_flush_sfe_ipv4_connection c reason sis now s) = last_reports s @
    (case sync_rule_callback s of None \<Rightarrow> [] | Some cb \<Rightarrow> [(cb, conn_key s c)])"
proof -
  obtain m where "sis_key m = conn_key s c" "sis_reason m = reason"
    "sync_calls (sfe_ipv4_flush_sfe_ipv4_connection c reason sis now s) = sync_calls s @
      (case sync_rule_callback s of None \<Rightarrow> [] | Some cb \<Rightarrow> [(cb, m)])"
    using flush_calls by blast
  then show ?thesis using assms by (simp add: last_reports_def split: option.split)
qed

section \<open>The effect of a step on the flows\<close>

definition waiting_keys :: "sfe_system \<Rightarrow> conn_key list" where
  "waiting_keys x = map (conn_key (engine x) \<circ> fst) (pending x)"

fun effect :: "flow_event \<Rightarrow> conn_key set \<times> conn_key multiset \<times> (nat \<times> conn_key) list \<Rightarrow>
  conn_key set \<times> conn_key multiset \<times> (nat \<times> conn_key) list \<Rightarrow> bool" where
  "effect Internal a b \<longleftrightarrow> b = a"
| "effect (Learn k) (F, W, L) b \<longleftrightarrow> k \<notin> F \<and> b = (insert k F, W, L)"
| "effect (Forget k) (F, W, L) b \<longleftrightarrow> k \<in> F \<and> b = (F - {k}, add_mset k W, L)"
| "effect (Release k cb) (F, W, L) b \<longleftrightarrow> k \<in># W \<and>
     b = (F, W - {#k#}, L @ (case cb of None \<Rightarrow> [] | Some cb \<Rightarrow> [(cb, k)]))"

definition history :: "sfe_system \<Rightarrow> sfe_abs \<Rightarrow> conn_key set \<times> conn_key multiset \<times> (nat \<times> conn_key) list" where
  "history x A = (flow_keys (engine x) A, mset (waiting_keys x), last_reports (engine x))"

lemma takes_effect:
  assumes S: "sys_inv E base x A" and t: "takes E base (engine x) A (map fst (pending x)) c t B"
    and r: "reason \<noteq> SFE_SYNC_REASON_STATS"
  defines "y \<equiv> x\<lparr>engine := t, pending := waiting reason c @ pending x\<rparr>"
  shows "sys_inv E base y B \<and> effect (forgotten (engine x) c) (history x A) (history y B)"
proof (cases c)
  case None
  have "flow_keys t B = flow_keys (engine x) A" using t by (simp add: takes_def None flow_keys_def)
  then show ?thesis using S t last_reports_calls [of t "engine x"]
    by (simp add: y_def None takes_def sys_inv_def waiting_def forgotten_def history_def waiting_keys_def)
next
  case (Some d)
  have I: "engine_inv E base (engine x) A (map fst (pending x))" using S by (simp add: sys_inv_def)
  have k: "conn_key t = conn_key (engine x)" and d: "d \<in> set (connl A)" and B: "connl B = remove1 d (connl A)"
    using t by (simp_all add: takes_def Some)
  have dist: "distinct (connl A)" and inj: "inj_on (conn_key (engine x)) (set (connl A))"
    using I by (auto simp: engine_inv_def table_inv_def)
  have "flow_keys t B = flow_keys (engine x) A - {conn_key (engine x) d}"
    using inj_on_image_set_diff [OF inj, of "set (connl A)" "{d}"] d B dist
    by (simp add: flow_keys_def k set_remove1_eq)
  moreover have "conn_key (engine x) d \<in> flow_keys (engine x) A" using d by (simp add: flow_keys_def)
  ultimately show ?thesis using S t r last_reports_calls [of t "engine x"]
    by (auto simp: y_def Some takes_def sys_inv_def waiting_def forgotten_def history_def waiting_keys_def)
qed

lemma calm_effect:
  assumes S: "sys_inv E base x A" and c: "calm E base (engine x) A (map fst (pending x)) t"
  shows "\<exists>B. sys_inv E base (x\<lparr>engine := t\<rparr>) B \<and> effect Internal (history x A) (history (x\<lparr>engine := t\<rparr>) B)"
  using assms by (auto simp: calm_def sys_inv_def history_def waiting_keys_def flow_keys_def)

lemma sys_syncing [simp]:
  "sys_inv E base (x\<lparr>syncing := v\<rparr>) A = sys_inv E base x A" "history (x\<lparr>syncing := v\<rparr>) A = history x A"
  by (simp_all add: sys_inv_def history_def waiting_keys_def)

lemma create_effect:
  assumes S: "sys_inv E base x A" and fresh: "alloc_fresh al (engine x)"
    and r: "sfe_ipv4_create_rule E sic al now (engine x) = Some (res, t)"
  shows "\<exists>B. sys_inv E base (x\<lparr>engine := t\<rparr>) B \<and>
    effect (if res = CREATED then Learn (sic_key sic) else Internal) (history x A) (history (x\<lparr>engine := t\<rparr>) B)"
proof -
  let ?s = "engine x" and ?D = "map fst (pending x)"
  have I: "engine_inv E base ?s A ?D" using S by (simp add: sys_inv_def)
  obtain res' t' B where r': "sfe_ipv4_create_rule E sic al now ?s = Some (res', t')"
    and J: "engine_inv E base t' B ?D" and o: "res' = create_outcome E sic al (conn_key ?s ` set (connl A))"
    and no: "res' \<noteq> CREATED \<Longrightarrow> B = A \<and> conn_key t' = conn_key ?s"
    and yes: "res' = CREATED \<Longrightarrow> \<exists>c. al_conn al = Some c \<and> connl B = connl A @ [c] \<and>
      conn_key t' c = sic_key sic \<and> (\<forall>d\<in>set (connl A). conn_key t' d = conn_key ?s d)"
    by (rule create_rule [OF I fresh, where sic = sic and j = now]) (rule that)
  have e: "res' = res" "t' = t" using r r' by simp_all
  have live: "conn_live ?s = set (connl A @ ?D)" using I by (simp add: engine_inv_def table_inv_def)
  have "conn_key t d = conn_key ?s d" if "d \<in> set ?D" for d
    using create_frame(2) [OF fresh r] that live by auto
  then have w: "waiting_keys (x\<lparr>engine := t\<rparr>) = waiting_keys x" by (simp add: waiting_keys_def)
  have "flow_keys t B = (if res = CREATED then insert (sic_key sic) (flow_keys ?s A) else flow_keys ?s A)"
    using no yes by (auto simp: flow_keys_def e)
  moreover have "res = CREATED \<Longrightarrow> sic_key sic \<notin> flow_keys ?s A"
    using o by (auto simp: create_outcome_def flow_keys_def e split: if_splits)
  ultimately show ?thesis
    using J S w last_reports_calls [OF create_frame(1) [OF fresh r]]
    by (intro exI [of _ B]) (simp add: sys_inv_def history_def e)
qed

lemma release_effect:
  fixes sis now
  assumes S: "sys_inv E base x A" and p: "(c, reason) \<in> set (pending x)"
  defines "y \<equiv> x\<lparr>engine := sfe_ipv4_flush_sfe_ipv4_connection c reason sis now (engine x),
         pending := remove1 (c, reason) (pending x)\<rparr>"
  shows "sys_inv E base y A \<and>
    effect (Release (conn_key (engine x) c) (sync_rule_callback (engine x))) (history x A) (history y A)"
proof -
  have "engine_inv E base (engine x) A (c # map fst (remove1 (c, reason) (pending x)))"
    using S p by (intro release_front) (simp_all add: sys_inv_def)
  then have J: "engine_inv E base (engine y) A (map fst (pending y))"
    unfolding y_def using flush_engine by simp
  have r: "reason \<noteq> SFE_SYNC_REASON_STATS" using S p by (force simp: sys_inv_def)
  have k: "conn_key (engine y) = conn_key (engine x)" by (simp add: y_def flush_flow)
  have "mset (pending x) = add_mset (c, reason) (mset (pending y))" using p by (simp add: y_def)
  from arg_cong [OF this, of "image_mset (conn_key (engine x) \<circ> fst)"]
  have "mset (waiting_keys x) = add_mset (conn_key (engine x) c) (mset (waiting_keys y))"
    by (simp add: waiting_keys_def k)
  moreover have "SFE_SYNC_REASON_STATS \<notin> snd ` set (pending y)"
    using S set_remove1_subset [of "(c, reason)" "pending x"] by (auto simp: sys_inv_def y_def)
  moreover have "flow_keys (engine y) A = flow_keys (engine x) A" by (simp add: flow_keys_def k)
  ultimately show ?thesis
    using J flush_last_report [OF r] by (simp add: sys_inv_def history_def) (simp add: y_def)
qed

theorem step_effect:
  assumes "sys_step E K x e y" and S: "sys_inv E base x A"
  shows "\<exists>B. sys_inv E base y B \<and> effect e (history x A) (history y B)"
proof -
  have I: "engine_inv E base (engine x) A (map fst (pending x))" using S by (simp add: sys_inv_def)
  note C = calm_effect [OF S]
  from assms(1) show ?thesis
  proof cases
    case (st_packet dev skb out c t)
    then show ?thesis using recv_takes [OF I] takes_effect [OF S] by blast
  next
    case (st_create al sic now res t)
    then show ?thesis using create_effect [OF S] by blast
  next
    case (st_destroy sid c t)
    then show ?thesis using destroy_locked_takes [OF I, of sid] takes_effect [OF S] by force
  next
    case (st_destroy_dev dev c t)
    then show ?thesis using destroy_dev_locked_takes [OF I, of dev] takes_effect [OF S] by force
  next
    case (st_release c reason sis now)
    then show ?thesis using release_effect [OF S] by blast
  next
    case (st_update sic t)
    then show ?thesis using C [OF update_calm [OF I]] by blast
  next
    case (st_mark m t)
    then show ?thesis using C [OF mark_calm [OF I]] by blast
  next
    case (st_register cb)
    then show ?thesis using C [OF register_calm [OF I]] by blast
  next
    case (st_sync_start cb t)
    then show ?thesis using C [OF summary_calm [OF I]] by simp
  next
    case (st_sync_turn q cb cm sis now t)
    then show ?thesis using turn_calm [OF I, of cm cb sis now] C [of t] by auto
  next
    case (st_sync_end q cb)
    then show ?thesis using S by auto
  next
    case (st_dump ok now d ws d' ws' t)
    then show ?thesis using C [OF dump_calm [OF I]] by blast
  next
    case (st_clear_stats len n t)
    then show ?thesis using C [OF clear_stats_calm [OF I]] by blast
  qed
qed

section \<open>Histories\<close>

text \<open>What a history says: the flows that are left, the keys removed, released and reported.\<close>

fun flow_after :: "flow_event \<Rightarrow> conn_key set \<Rightarrow> conn_key set" where
  "flow_after (Learn k) F = insert k F"
| "flow_after (Forget k) F = F - {k}"
| "flow_after e F = F"

fun forgets :: "flow_event \<Rightarrow> conn_key list" where
  "forgets (Forget k) = [k]"
| "forgets e = []"

fun releases :: "flow_event \<Rightarrow> (conn_key \<times> nat option) list" where
  "releases (Release k cb) = [(k, cb)]"
| "releases e = []"

definition told :: "(conn_key \<times> nat option) list \<Rightarrow> (nat \<times> conn_key) list" where
  "told rs = concat (map (\<lambda>(k, cb). case cb of None \<Rightarrow> [] | Some cb \<Rightarrow> [(cb, k)]) rs)"

lemma told_simps [simp]:
  "told [] = []" "told ((k, cb) # xs) = (case cb of None \<Rightarrow> [] | Some cb \<Rightarrow> [(cb, k)]) @ told xs"
  "told (xs @ ys) = told xs @ told ys"
  by (simp_all add: told_def)

text \<open>Start and end of a history agree with its events.\<close>

definition accounts :: "flow_event list \<Rightarrow> sfe_system \<Rightarrow> sfe_abs \<Rightarrow> sfe_system \<Rightarrow> sfe_abs \<Rightarrow> bool" where
  "accounts es x A y B \<longleftrightarrow>
     flow_keys (engine y) B = fold flow_after es (flow_keys (engine x) A) \<and>
     mset (waiting_keys y) + mset (map fst (concat (map releases es))) =
       mset (waiting_keys x) + mset (concat (map forgets es)) \<and>
     last_reports (engine y) = last_reports (engine x) @ told (concat (map releases es))"

lemma effect_accounts:
  assumes "accounts es x A y B" and "effect e (history y B) (history z C)"
  shows "accounts (es @ [e]) x A z C"
proof (cases e)
  case (Release k cb)
  then have "k \<in># mset (waiting_keys y)" using assms(2) by (simp add: history_def)
  then obtain W where "mset (waiting_keys y) = add_mset k W" by (metis multi_member_split)
  then show ?thesis using assms Release by (simp add: accounts_def history_def)
qed (use assms in \<open>auto simp: accounts_def history_def\<close>)

theorem run_accounts:
  assumes "sys_run E K x es y" and "sys_inv E base x A"
  shows "\<exists>B. sys_inv E base y B \<and> accounts es x A y B"
  using assms(1)
proof induction
  case start
  then show ?case using assms(2) by (auto simp: accounts_def)
next
  case (step es y e z)
  then obtain B where B: "sys_inv E base y B" "accounts es x A y B" by blast
  from step_effect [OF step.hyps(2) B(1)] effect_accounts [OF B(2)] show ?case by blast
qed

section \<open>Nothing gets stuck\<close>

lemma kernel_operations_run:
  assumes S: "sys_inv E base x A"
  shows "kernel_ok K \<Longrightarrow> skb_ok skb \<Longrightarrow> tcp_linear skb \<Longrightarrow>
      runs (sfe_ipv4_recv_locked E K dev skb (engine x))"
    and "alloc_fresh al (engine x) \<Longrightarrow> runs (sfe_ipv4_create_rule E sic al now (engine x))"
    and "runs (destroy_rule_locked E sid (engine x))" and "runs (destroy_dev_locked E d (engine x))"
    and "runs (sfe_ipv4_update_rule E sic (engine x))" and "runs (sfe_ipv4_mark_rule E m (engine x))"
    and "active_head (engine x) = Some cm \<Longrightarrow>
      runs (sfe_ipv4_periodic_sync_turn cm cb sis now (engine x))"
proof -
  have I: "engine_inv E base (engine x) A (map fst (pending x))" using S by (simp add: sys_inv_def)
  show "kernel_ok K \<Longrightarrow> skb_ok skb \<Longrightarrow> tcp_linear skb \<Longrightarrow>
      runs (sfe_ipv4_recv_locked E K dev skb (engine x))" by (rule recv_locked_runs [OF I])
  show "alloc_fresh al (engine x) \<Longrightarrow> runs (sfe_ipv4_create_rule E sic al now (engine x))"
    by (rule create_rule [OF I, of al sic now]) (simp_all add: runs_def)
  show "runs (destroy_rule_locked E sid (engine x))"
    using destroy_locked_takes [OF I, of sid] by (auto simp: runs_def)
  show "runs (destroy_dev_locked E d (engine x))"
    using destroy_dev_locked_takes [OF I, of d] by (auto simp: runs_def)
  show "runs (sfe_ipv4_update_rule E sic (engine x))"
    by (rule update_rule [OF I, of sic]) (simp add: runs_def)
  show "runs (sfe_ipv4_mark_rule E m (engine x))"
    by (rule mark_rule [OF I, of m]) (simp add: runs_def)
  show "active_head (engine x) = Some cm \<Longrightarrow> runs (sfe_ipv4_periodic_sync_turn cm cb sis now (engine x))"
    using turn_calm [OF I, of cm cb sis now] by (auto simp: runs_def)
qed

section \<open>Draining\<close>

fun removal :: "flow_event \<Rightarrow> bool" where
  "removal (Forget k) = True"
| "removal (Release k cb) = True"
| "removal e = False"

text \<open>From every consistent state the engine can be emptied by rounds of destruction and releases.\<close>

definition drained :: "(netdev \<Rightarrow> int) \<Rightarrow> sfe_system \<Rightarrow> bool" where
  "drained base y \<longleftrightarrow> pending y = [] \<and> conn_live (engine y) = {} \<and> cm_live (engine y) = {} \<and>
     num_connections (engine y) = 0 \<and> dev_refcnt (engine y) = base"

lemma drained_empty:
  assumes "sys_inv E base y B" and "connl B = []" and "pending y = []"
  shows "drained base y"
  using assms by (simp add: drained_def sys_inv_def engine_inv_def table_inv_def refs_inv_def fun_eq_iff)

lemma drain_run:
  assumes "sys_inv E base x A"
  shows "\<exists>es y. sys_run E K x es y \<and> drained base y \<and>
    (\<forall>e\<in>set es. removal e)"
  using assms
proof (induction "2 * length (connl A) + length (pending x)" arbitrary: x A rule: less_induct)
  case less
  note S = less.prems
  have go: ?case if s: "sys_step E K x e z" "sys_inv E base z B" "removal e"
    "2 * length (connl B) + length (pending z) < 2 * length (connl A) + length (pending x)" for e z B
  proof -
    obtain es y where "sys_run E K z es y" "drained base y" "\<forall>e\<in>set es. removal e"
      using less.hyps [OF s(4,2)] by blast
    with run_append [OF this(1) run_one [OF s(1)]] s(3) show ?thesis
      by (intro exI [of _ "[e] @ es"] exI [of _ y]) auto
  qed
  show ?case
  proof (cases "pending x")
    case (Cons p P)
    obtain c reason where p: "p = (c, reason)" by force
    have m: "(c, reason) \<in> set (pending x)" by (simp add: Cons p)
    show ?thesis
      by (rule go [OF sys_step.st_release [OF m, of E K undefined undefined] release_effect [OF S m, THEN conjunct1]])
        (simp_all add: Cons p)
  next
    case Nil
    have I: "engine_inv E base (engine x) A (map fst (pending x))" using S by (simp add: sys_inv_def)
    obtain c t B where d: "destroy_dev_locked E None (engine x) = Some (c, t)"
      and t: "takes E base (engine x) A (map fst (pending x)) c t B"
      and u: "case c of None \<Rightarrow> \<forall>c\<in>set (connl A). \<not> uses_dev None (conns (engine x) c)
        | Some c \<Rightarrow> uses_dev None (conns (engine x) c)"
      using destroy_dev_locked_takes [OF I, of None] by blast
    show ?thesis
    proof (cases c)
      case None
      then have "connl A = []" using u by (auto simp: uses_dev_def)
      then have "drained base x" by (rule drained_empty [OF S _ Nil])
      then show ?thesis by (intro exI [of _ "[]"] exI [of _ x]) simp
    next
      case (Some d)
      have l: "length (connl B) < length (connl A)"
        using t length_remove1_less [of d "connl A"] by (simp add: takes_def Some)
      show ?thesis
        by (rule go [OF sys_step.st_destroy_dev [OF d] takes_effect [OF S t, THEN conjunct1]])
          (use l in \<open>simp_all add: Some forgotten_def waiting_def\<close>)
    qed
  qed
qed

section \<open>Operations as histories\<close>

lemma takes_run:
  assumes "sys_step E K x e (x\<lparr>engine := t, pending := waiting reason c @ pending x\<rparr>)"
  shows "\<exists>es. sys_run E K x es (x\<lparr>engine := (case c of None \<Rightarrow> t
    | Some c \<Rightarrow> sfe_ipv4_flush_sfe_ipv4_connection c reason sis now t)\<rparr>)"
proof (cases c)
  case None
  then show ?thesis using run_one [OF assms] by (intro exI [of _ "[e]"]) (simp add: waiting_def)
next
  case (Some d)
  let ?y = "x\<lparr>engine := t, pending := waiting reason c @ pending x\<rparr>"
  have "(d, reason) \<in> set (pending ?y)" by (simp add: Some waiting_def)
  note R = sys_step.st_release [OF this, of E K sis now]
  have "?y\<lparr>engine := sfe_ipv4_flush_sfe_ipv4_connection d reason sis now (engine ?y),
         pending := remove1 (d, reason) (pending ?y)\<rparr> =
      x\<lparr>engine := sfe_ipv4_flush_sfe_ipv4_connection d reason sis now t\<rparr>"
    by (simp add: Some waiting_def)
  with sys_run.step [OF run_one [OF assms] R] show ?thesis unfolding Some option.case by metis
qed

theorem recv_is_run:
  assumes "sfe_ipv4_recv E K dev skb sis now (engine x) = Some (out, t)"
  shows "\<exists>es. sys_run E K x es (x\<lparr>engine := t\<rparr>)"
proof -
  obtain c u where l: "sfe_ipv4_recv_locked E K dev skb (engine x) = Some (out, c, u)"
    and t: "t = flush_pending c sis now u"
    using assms by (auto simp: sfe_ipv4_recv_def bind_eq_Some_conv)
  from takes_run [OF sys_step.st_packet [OF l]]
  show ?thesis by (simp add: t flush_pending_def)
qed

theorem destroy_is_run:
  assumes "sfe_ipv4_destroy_rule E sid sis now (engine x) = Some t"
  shows "\<exists>es. sys_run E K x es (x\<lparr>engine := t\<rparr>)"
proof -
  obtain c u where l: "destroy_rule_locked E sid (engine x) = Some (c, u)"
    and t: "t = (case c of None \<Rightarrow> u | Some c \<Rightarrow> sfe_ipv4_flush_sfe_ipv4_connection c SFE_SYNC_REASON_DESTROY sis now u)"
    using assms by (auto simp: destroy_rule_parts split: option.splits)
  from takes_run [OF sys_step.st_destroy [OF l]] show ?thesis by (simp add: t)
qed

lemma sync_loop_is_run:
  assumes "syncing x = Some (q, cb)" and "sfe_ipv4_periodic_sync_loop q cb sis now (engine x) = Some t"
  shows "\<exists>es. sys_run E K x es (x\<lparr>engine := t, syncing := None\<rparr>)"
  using assms
proof (induction q arbitrary: x)
  case 0
  then show ?case using run_one [OF sys_step.st_sync_end [of x 0 cb E K]] by auto
next
  case (Suc q)
  show ?case
  proof (cases "active_head (engine x)")
    case None
    then show ?thesis using Suc.prems run_one [OF sys_step.st_sync_end [of x "Suc q" cb E K]] by auto
  next
    case (Some cm)
    then obtain u where u: "sfe_ipv4_periodic_sync_turn cm cb sis now (engine x) = Some u"
      and l: "sfe_ipv4_periodic_sync_loop q cb sis now u = Some t"
      using Suc.prems(2) by (auto simp: bind_eq_Some_conv)
    let ?y = "x\<lparr>engine := u, syncing := Some (q, cb)\<rparr>"
    have s: "sys_step E K x Internal ?y" by (rule sys_step.st_sync_turn [OF Suc.prems(1) Some u])
    obtain es where "sys_run E K ?y es (?y\<lparr>engine := t, syncing := None\<rparr>)"
      using Suc.IH [of ?y] l by auto
    from run_append [OF this run_one [OF s]] show ?thesis by auto
  qed
qed

theorem periodic_sync_is_run:
  assumes "syncing x = None" and "sfe_ipv4_periodic_sync sis now (engine x) = Some t"
  shows "\<exists>es. sys_run E K x es (x\<lparr>engine := t\<rparr>)"
proof (cases "sync_rule_callback (engine x)")
  case None
  then show ?thesis using assms by (intro exI [of _ "[]"]) (auto simp: sfe_ipv4_periodic_sync_def intro: sys_run.start)
next
  case (Some cb)
  let ?u = "sfe_ipv4_update_summary_stats (engine x)"
  let ?y = "x\<lparr>engine := ?u, syncing := Some (sync_quota ?u, cb)\<rparr>"
  have l: "sfe_ipv4_periodic_sync_loop (sync_quota ?u) cb sis now (engine ?y) = Some t"
    using assms(2) Some by (simp add: sfe_ipv4_periodic_sync_def Let_def)
  obtain es where "sys_run E K ?y es (?y\<lparr>engine := t, syncing := None\<rparr>)"
    using sync_loop_is_run [OF _ l, of E K] by auto
  moreover have "?y\<lparr>engine := t, syncing := None\<rparr> = x\<lparr>engine := t\<rparr>" using assms(1) by simp
  ultimately show ?thesis
    using run_append [OF _ run_one [OF sys_step.st_sync_start [OF assms(1) Some refl, of E K]]] by auto
qed

section \<open>Properties\<close>

definition demo_mark :: sfe_connection_mark where
  "demo_mark = \<lparr>scm_protocol = 17, scm_src_ip = v4_addr 0x0a000002, scm_dest_ip = v4_addr 0x08080808,
     scm_src_port = 4096, scm_dest_port = 53, scm_mark = 1\<rparr>"

definition sys_start :: "sfe_ipv4 \<Rightarrow> sfe_system" where
  "sys_start mem = \<lparr>engine = engine_start mem, pending = [], syncing = None\<rparr>"

lemma sys_start_inv: "sys_inv E (dev_refcnt mem) (sys_start mem) abs_start"
  using engine_start_inv by (simp add: sys_inv_def sys_start_def)

lemma reachable:
  assumes "sys_run E K (sys_start mem) es y"
  obtains B where "sys_inv E (dev_refcnt mem) y B" and "accounts es (sys_start mem) abs_start y B"
  using run_accounts [OF assms sys_start_inv] by blast

text \<open>A flow is learned in the demonstration.\<close>

definition demo_sys :: sfe_system where
  "demo_sys = \<lparr>engine = demo_state, pending = [], syncing = None\<rparr>"

lemma demo_run: "sys_run demo_env demo_kernel (sys_start blank_mem) [Internal, Learn (sic_key demo_sic)] demo_sys"
proof -
  let ?x = "sys_start blank_mem"
  let ?y = "?x\<lparr>engine := sfe_ipv4_register_sync_rule_callback (Some 7) (engine ?x)\<rparr>"
  have e: "engine ?y = demo_start" by (simp add: sys_start_def demo_start_def)
  have fresh: "alloc_fresh demo_alloc demo_start"
    by (simp add: alloc_fresh_def demo_alloc_def demo_start_def engine_start_def
        sfe_ipv4_register_sync_rule_callback_def)
  have c: "sfe_ipv4_create_rule demo_env demo_sic demo_alloc 100 demo_start = Some (CREATED, demo_state)"
    by (rule demo_create)
  have "sys_step demo_env demo_kernel ?y (if CREATED = CREATED then Learn (sic_key demo_sic) else Internal)
      (?y\<lparr>engine := demo_state\<rparr>)"
    by (rule sys_step.st_create [of demo_alloc _ _ _ 100]) (simp_all only: e fresh c)
  then have "sys_step demo_env demo_kernel ?y (Learn (sic_key demo_sic)) demo_sys"
    by (simp add: demo_sys_def sys_start_def)
  from sys_run.step [OF run_one [OF sys_step.st_register] this] show ?thesis by simp
qed

text \<open>
  C8: However the processors interleave, after any history from the loading of the module on the
  engine is consistent: its flows are exactly those the history says were learned and not forgotten
  since; every removed flow either waits for its release, once, or was released, once; and the
  callback heard of the end of exactly those flows that were released while it was registered.
\<close>

theorem every_interleaving_accounts:
  assumes "sys_run E K (sys_start mem) es y"
  shows "\<exists>B. engine_inv E (dev_refcnt mem) (engine y) B (map fst (pending y)) \<and>
    flow_keys (engine y) B = fold flow_after es {} \<and>
    mset (waiting_keys y) + mset (map fst (concat (map releases es))) = mset (concat (map forgets es)) \<and>
    last_reports (engine y) = told (concat (map releases es))"
proof (rule reachable [OF assms])
  fix B
  assume "sys_inv E (dev_refcnt mem) y B" and "accounts es (sys_start mem) abs_start y B"
  then show ?thesis
    by (intro exI [of _ B]) (simp add: sys_inv_def accounts_def sys_start_def flow_keys_def abs_start_def
        waiting_keys_def last_reports_def engine_start_def)
qed

theorem every_interleaving_accounts_witness:
  "\<exists>es B. Learn (sic_key demo_sic) \<in> set es \<and> engine_inv demo_env (dev_refcnt blank_mem) (engine demo_sys) B (map fst (pending demo_sys)) \<and>
    flow_keys (engine demo_sys) B = fold flow_after es {} \<and>
    mset (waiting_keys demo_sys) + mset (map fst (concat (map releases es))) = mset (concat (map forgets es)) \<and>
    last_reports (engine demo_sys) = told (concat (map releases es))"
  by (intro exI [of _ "[Internal, Learn (sic_key demo_sic)]"])
    (use every_interleaving_accounts [OF demo_run] in simp)

text \<open>
  In no reachable state an operation gets stuck on a NULL link or in a circle: the packet handler (for a
  packet whose TCP options are in the linear area), creation, destruction (by rule and by device), update,
  marking and the turns of the timer function all return.
\<close>

theorem no_operation_gets_stuck:
  assumes "sys_run E K (sys_start mem) es y" and "kernel_ok K" and "skb_ok skb" and "tcp_linear skb"
    and "alloc_fresh al (engine y)"
  shows "runs (sfe_ipv4_recv_locked E K dev skb (engine y)) \<and>
    runs (sfe_ipv4_create_rule E sic al now (engine y)) \<and>
    runs (destroy_rule_locked E sid (engine y)) \<and> runs (destroy_dev_locked E d (engine y)) \<and>
    runs (sfe_ipv4_update_rule E sic (engine y)) \<and> runs (sfe_ipv4_mark_rule E m (engine y)) \<and>
    (case active_head (engine y) of None \<Rightarrow> True
     | Some cm \<Rightarrow> runs (sfe_ipv4_periodic_sync_turn cm cb sis now (engine y)))"
proof (rule reachable [OF assms(1)])
  fix B
  assume "sys_inv E (dev_refcnt mem) y B"
  from kernel_operations_run [OF this] show ?thesis
    using assms(2-5) by (simp split: option.split)
qed

theorem no_operation_gets_stuck_witness:
  "runs (sfe_ipv4_recv_locked demo_env demo_kernel 1 demo_skb (engine demo_sys)) \<and>
    runs (sfe_ipv4_create_rule demo_env demo_sic \<lparr>al_conn = Some 5, al_original = None, al_reply = None\<rparr> 3 (engine demo_sys)) \<and>
    runs (destroy_rule_locked demo_env demo_sid (engine demo_sys)) \<and> runs (destroy_dev_locked demo_env (Some 1) (engine demo_sys)) \<and>
    runs (sfe_ipv4_update_rule demo_env demo_sic (engine demo_sys)) \<and>
    runs (sfe_ipv4_mark_rule demo_env demo_mark (engine demo_sys)) \<and>
    (case active_head (engine demo_sys) of None \<Rightarrow> True
     | Some cm \<Rightarrow> runs (sfe_ipv4_periodic_sync_turn cm 7 demo_sis 3 (engine demo_sys)))"
proof (rule no_operation_gets_stuck [OF demo_run demo_kernel_ok demo_skb_ok])
  show "alloc_fresh \<lparr>al_conn = Some 5, al_original = None, al_reply = None\<rparr> (engine demo_sys)"
  proof (rule demo_inv)
    fix A
    assume "engine_inv demo_env no_refs demo_state A []" and "connl A = [0]"
    then show ?thesis by (simp add: alloc_fresh_def demo_sys_def engine_inv_def table_inv_def)
  qed
qed

text \<open>
  C37: From every reachable state the engine can be emptied: rounds of destruction and releases lead to a
  state without connections, with every object freed and every device reference returned.
\<close>

theorem every_state_drains:
  assumes "sys_run E K (sys_start mem) es y"
  shows "\<exists>fs z. sys_run E K y fs z \<and> drained (dev_refcnt mem) z \<and> (\<forall>e\<in>set fs. removal e)"
  by (rule reachable [OF assms]) (rule drain_run)

theorem every_state_drains_witness:
  "\<exists>fs z. sys_run demo_env demo_kernel demo_sys fs z \<and> drained (dev_refcnt blank_mem) z \<and> (\<forall>e\<in>set fs. removal e)"
  by (rule every_state_drains [OF demo_run])

end
