(* ===== verification/Sfe_Cm.thy ===== *)
theory Sfe_Cm
  imports Sfe_Text Sfe_Rule Sfe_Recv
begin

text \<open>
  The connection manager (sfe_cm.c): it watches packets that leave the machine and connection
  tracking, turns tracked connections into rules of the engine, and feeds the reports of the engine
  back into connection tracking. Routing, neighbour tables, connection tracking and bridges are
  kernel services, arguments of the definitions; the references the manager takes on their objects
  are counted. The IPv6 engine is a record of its operations: the stubs of sfe_cm.h here, the
  engine of sfe_ipv6.c in \<open>Sfe6_System\<close>. Version: kernel 4.19 and later.
\<close>

section \<open>Exceptions\<close>

datatype sfe_cm_exception =
    CM_PACKET_BROADCAST | CM_PACKET_MULTICAST | CM_NO_IIF | CM_NO_CT | CM_CT_NO_TRACK
  | CM_CT_NO_CONFIRM | CM_CT_IS_ALG | CM_IS_IPV4_MCAST | CM_IS_IPV6_MCAST | CM_TCP_NOT_ASSURED
  | CM_TCP_NOT_ESTABLISHED | CM_UNKNOW_PROTOCOL | CM_NO_SRC_DEV | CM_NO_SRC_XLATE_DEV
  | CM_NO_DEST_DEV | CM_NO_DEST_XLATE_DEV | CM_NO_BRIDGE | CM_LOCAL_OUT

definition cm_all_exceptions :: "sfe_cm_exception list" where
  "cm_all_exceptions = [CM_PACKET_BROADCAST, CM_PACKET_MULTICAST, CM_NO_IIF, CM_NO_CT, CM_CT_NO_TRACK,
     CM_CT_NO_CONFIRM, CM_CT_IS_ALG, CM_IS_IPV4_MCAST, CM_IS_IPV6_MCAST, CM_TCP_NOT_ASSURED,
     CM_TCP_NOT_ESTABLISHED, CM_UNKNOW_PROTOCOL, CM_NO_SRC_DEV, CM_NO_SRC_XLATE_DEV,
     CM_NO_DEST_DEV, CM_NO_DEST_XLATE_DEV, CM_NO_BRIDGE, CM_LOCAL_OUT]"

fun sfe_cm_exception_events_string :: "sfe_cm_exception \<Rightarrow> string" where
  "sfe_cm_exception_events_string CM_PACKET_BROADCAST = ''PACKET_BROADCAST''"
| "sfe_cm_exception_events_string CM_PACKET_MULTICAST = ''PACKET_MULTICAST''"
| "sfe_cm_exception_events_string CM_NO_IIF = ''NO_IIF''"
| "sfe_cm_exception_events_string CM_NO_CT = ''NO_CT''"
| "sfe_cm_exception_events_string CM_CT_NO_TRACK = ''CT_NO_TRACK''"
| "sfe_cm_exception_events_string CM_CT_NO_CONFIRM = ''CT_NO_CONFIRM''"
| "sfe_cm_exception_events_string CM_CT_IS_ALG = ''CT_IS_ALG''"
| "sfe_cm_exception_events_string CM_IS_IPV4_MCAST = ''IS_IPV4_MCAST''"
| "sfe_cm_exception_events_string CM_IS_IPV6_MCAST = ''IS_IPV6_MCAST''"
| "sfe_cm_exception_events_string CM_TCP_NOT_ASSURED = ''TCP_NOT_ASSURED''"
| "sfe_cm_exception_events_string CM_TCP_NOT_ESTABLISHED = ''TCP_NOT_ESTABLISHED''"
| "sfe_cm_exception_events_string CM_UNKNOW_PROTOCOL = ''UNKNOW_PROTOCOL''"
| "sfe_cm_exception_events_string CM_NO_SRC_DEV = ''NO_SRC_DEV''"
| "sfe_cm_exception_events_string CM_NO_SRC_XLATE_DEV = ''NO_SRC_XLATE_DEV''"
| "sfe_cm_exception_events_string CM_NO_DEST_DEV = ''NO_DEST_DEV''"
| "sfe_cm_exception_events_string CM_NO_DEST_XLATE_DEV = ''NO_DEST_XLATE_DEV''"
| "sfe_cm_exception_events_string CM_NO_BRIDGE = ''NO_BRIDGE''"
| "sfe_cm_exception_events_string CM_LOCAL_OUT = ''LOCAL_OUT''"

section \<open>Connection tracking\<close>

record nf_tuple =
  tup_src_ip :: sfe_ip_addr
  tup_src_port :: u16
  tup_dst_ip :: sfe_ip_addr
  tup_dst_port :: u16
  tup_protonum :: u8
  tup_l3num :: u16

record tcp_seen =
  td_scale :: u8
  td_maxwin :: u32
  td_end :: u32
  td_maxend :: u32
  be_liberal :: bool

record nf_acct =
  orig_packets :: u64
  orig_bytes :: u64
  reply_packets :: u64
  reply_bytes :: u64

record nf_conn =
  ct_orig :: nf_tuple
  ct_reply :: nf_tuple
  ct_confirmed :: bool
  ct_has_helper :: bool
  ct_acct :: "nf_acct option"
  ct_seen0 :: tcp_seen
  ct_seen1 :: tcp_seen
  ct_established :: bool \<comment> \<open>\<open>proto.tcp.state == TCP_CONNTRACK_ESTABLISHED\<close>\<close>
  ct_assured :: bool
  ct_seen_reply :: bool
  ct_fixed_timeout :: bool
  ct_timeout :: u32

type_synonym ct_ptr = nat
type_synonym dst_ptr = nat
type_synonym neigh_ptr = nat

datatype ip_ct_dir = IP_CT_DIR_ORIGINAL | IP_CT_DIR_REPLY

definition AF_INET :: u16 where "AF_INET = 2"
definition AF_INET6 :: u16 where "AF_INET6 = 10"

section \<open>State and environment\<close>

text \<open>The IPv6 engine; its device references are in the table all engines share.\<close>

record 'v sfe_ipv6_ops =
  ipv6_recv :: "netdev \<Rightarrow> sk_buff \<Rightarrow> (netdev \<Rightarrow> int) \<times> 'v \<Rightarrow> (recv_outcome \<times> ((netdev \<Rightarrow> int) \<times> 'v)) option"
  ipv6_create_rule :: "sfe_connection_create \<Rightarrow> (netdev \<Rightarrow> int) \<times> 'v \<Rightarrow> (netdev \<Rightarrow> int) \<times> 'v"
  ipv6_destroy_rule :: "sfe_connection_destroy \<Rightarrow> (netdev \<Rightarrow> int) \<times> 'v \<Rightarrow> (netdev \<Rightarrow> int) \<times> 'v"
  ipv6_destroy_all :: "netdev option \<Rightarrow> (netdev \<Rightarrow> int) \<times> 'v \<Rightarrow> (netdev \<Rightarrow> int) \<times> 'v"
  ipv6_register_callback :: "nat option \<Rightarrow> 'v \<Rightarrow> 'v"

text \<open>The stubs of sfe_cm.h for a build without IPv6.\<close>

definition ipv6_stubs :: "unit sfe_ipv6_ops" where
  "ipv6_stubs = \<lparr>ipv6_recv = (\<lambda>dev skb v. Some (NotForwarded skb, v)),
     ipv6_create_rule = (\<lambda>sic v. v), ipv6_destroy_rule = (\<lambda>sid v. v),
     ipv6_destroy_all = (\<lambda>dev v. v), ipv6_register_callback = (\<lambda>cb v. v)\<rparr>"

record 'v sfe_cm =
  cm_v4 :: sfe_ipv4
  cm_v6 :: 'v
  cm_exceptions :: "sfe_cm_exception \<Rightarrow> u32"
  cts :: "ct_ptr \<Rightarrow> nf_conn"
  ct_refs :: "ct_ptr \<Rightarrow> int"
  neigh_refs :: "neigh_ptr \<Rightarrow> int"
  dst_refs :: "dst_ptr \<Rightarrow> int"

record cm_kernel =
  dev_by_index :: "u32 \<Rightarrow> netdev option"
  dev_mtu :: "netdev \<Rightarrow> u32"
  dev_is_bridge_port :: "netdev \<Rightarrow> bool"
  dev_master :: "netdev \<Rightarrow> netdev option"
  dev_addr_len :: "netdev \<Rightarrow> nat"
  dev_inet :: "netdev \<Rightarrow> bool option" \<comment> \<open>has IP processing, and then whether it has an address\<close>
  dev_inet6 :: "netdev \<Rightarrow> bool option"
  ip_route_output :: "u32 \<Rightarrow> dst_ptr option"
  rt6_lookup :: "sfe_ip_addr \<Rightarrow> dst_ptr option"
  dst_neigh_lookup :: "dst_ptr \<Rightarrow> sfe_ip_addr \<Rightarrow> neigh_ptr option"
  neigh_valid :: "neigh_ptr \<Rightarrow> bool"
  neigh_dev :: "neigh_ptr \<Rightarrow> netdev option"
  neigh_ha :: "neigh_ptr \<Rightarrow> mac"
  tcp_no_window_check :: bool
  nf_conntrack_find_get :: "nf_tuple \<Rightarrow> ct_ptr option"
  udp_timeout_replied :: "ct_ptr \<Rightarrow> u32"

datatype pkt_type = PACKET_HOST | PACKET_BROADCAST | PACKET_MULTICAST | PACKET_OTHER

text \<open>What the hook reads of a packet that is about to leave.\<close>

record cm_packet =
  pkt_kind :: pkt_type
  pkt_xfrm :: bool \<comment> \<open>\<open>skb_dst(skb)->xfrm\<close>\<close>
  pkt_has_sk :: bool
  pkt_iif :: u32
  pkt_ct :: "ct_ptr option"
  pkt_untracked :: bool
  pkt_dir :: ip_ct_dir
  pkt_dsfield :: u8
  pkt_secpath :: bool
  pkt_prio :: u32
  pkt_dst :: dst_ptr

section \<open>Counters and references\<close>

definition sfe_cm_incr_exceptions :: "sfe_cm_exception \<Rightarrow> 'v sfe_cm \<Rightarrow> 'v sfe_cm" where
  "sfe_cm_incr_exceptions e s = s\<lparr>cm_exceptions := (cm_exceptions s)(e := cm_exceptions s e + 1)\<rparr>"

definition cm_dev_hold :: "netdev \<Rightarrow> 'v sfe_cm \<Rightarrow> 'v sfe_cm" where
  "cm_dev_hold d s = s\<lparr>cm_v4 := dev_hold d (cm_v4 s)\<rparr>"

definition cm_dev_put :: "netdev \<Rightarrow> 'v sfe_cm \<Rightarrow> 'v sfe_cm" where
  "cm_dev_put d s = s\<lparr>cm_v4 := dev_put d (cm_v4 s)\<rparr>"

definition neigh_hold :: "neigh_ptr \<Rightarrow> 'v sfe_cm \<Rightarrow> 'v sfe_cm" where
  "neigh_hold n s = s\<lparr>neigh_refs := (neigh_refs s)(n := neigh_refs s n + 1)\<rparr>"

definition neigh_release :: "neigh_ptr \<Rightarrow> 'v sfe_cm \<Rightarrow> 'v sfe_cm" where
  "neigh_release n s = s\<lparr>neigh_refs := (neigh_refs s)(n := neigh_refs s n - 1)\<rparr>"

definition dst_hold :: "dst_ptr \<Rightarrow> 'v sfe_cm \<Rightarrow> 'v sfe_cm" where
  "dst_hold d s = s\<lparr>dst_refs := (dst_refs s)(d := dst_refs s d + 1)\<rparr>"

definition dst_release :: "dst_ptr \<Rightarrow> 'v sfe_cm \<Rightarrow> 'v sfe_cm" where
  "dst_release d s = s\<lparr>dst_refs := (dst_refs s)(d := dst_refs s d - 1)\<rparr>"

section \<open>Neighbours\<close>

text \<open>
  \<open>memcpy\<close> of \<open>addr_len\<close> bytes into an array of \<open>ETH_ALEN\<close>: None when the copy leaves the array.
\<close>

definition ETH_ALEN :: nat where "ETH_ALEN = 6"

definition copy_mac :: "nat \<Rightarrow> mac \<Rightarrow> mac \<Rightarrow> mac option" where
  "copy_mac n src old = (if n \<le> ETH_ALEN then Some (\<lambda>i. if i < n then src i else old i) else None)"

text \<open>
  \<open>skb_dst\<close> is the route of the packet when one is given. The result is the device, which is held,
  and the hardware address.
\<close>

definition sfe_cm_find_dev_and_mac_addr ::
  "cm_kernel \<Rightarrow> dst_ptr option \<Rightarrow> sfe_ip_addr \<Rightarrow> mac \<Rightarrow> bool \<Rightarrow> 'v sfe_cm \<Rightarrow>
   ((netdev \<times> mac) option \<times> 'v sfe_cm) option" where
  "sfe_cm_find_dev_and_mac_addr K skb_dst addr old is_v4 s =
     (let route = (case skb_dst of
                     Some d \<Rightarrow> Some (d, s)
                   | None \<Rightarrow> (case if is_v4 then ip_route_output K (ip addr) else rt6_lookup K addr of
                                None \<Rightarrow> None
                              | Some d \<Rightarrow> Some (d, dst_hold d s)));
          release = (\<lambda>d s. if skb_dst = None then dst_release d s else s)
      in case route of
           None \<Rightarrow> Some (None, s)
         | Some (d, s) \<Rightarrow>
             (case dst_neigh_lookup K d addr of
                None \<Rightarrow> Some (None, release d s)
              | Some n \<Rightarrow>
                  (let s1 = neigh_hold n s
                   in if \<not> neigh_valid K n then Some (None, release d (neigh_release n s1))
                      else case neigh_dev K n of
                             None \<Rightarrow> Some (None, release d (neigh_release n s1))
                           | Some mac_dev \<Rightarrow>
                               (case copy_mac (dev_addr_len K mac_dev) (neigh_ha K n) old of
                                  None \<Rightarrow> None
                                | Some mac \<Rightarrow>
                                    Some (Some (mac_dev, mac),
                                      release d (neigh_release n (cm_dev_hold mac_dev s1)))))))"

section \<open>Packets that are about to leave\<close>

text \<open>
  Each part of the hook either gives up, counting an exception or not, or goes on. First the checks
  whether the packet belongs to a tracked, forwarded connection.
\<close>

type_synonym 'a verdict = "sfe_cm_exception option + 'a"

definition seen_packets :: "ip_ct_dir \<Rightarrow> nf_acct \<Rightarrow> u64" where
  "seen_packets dir a = (case dir of IP_CT_DIR_ORIGINAL \<Rightarrow> orig_packets a | IP_CT_DIR_REPLY \<Rightarrow> reply_packets a)"

text \<open>Only every 256th packet of a connection that stays on the slow path is looked at.\<close>

definition reject_quickly :: "ip_ct_dir \<Rightarrow> nf_conn \<Rightarrow> bool" where
  "reject_quickly dir ct = (case ct_acct ct of
     None \<Rightarrow> False
   | Some a \<Rightarrow> let packets = seen_packets dir a in 0xff < sint packets \<and> packets AND 0xff \<noteq> 0)"

definition cm_admit :: "sfe_env \<Rightarrow> cm_kernel \<Rightarrow> cm_packet \<Rightarrow> (ct_ptr \<Rightarrow> nf_conn) \<Rightarrow> nf_conn verdict" where
  "cm_admit E K p ctab =
     (if pkt_kind p = PACKET_BROADCAST then Inl (Some CM_PACKET_BROADCAST)
      else if pkt_kind p = PACKET_MULTICAST then Inl (Some CM_PACKET_MULTICAST)
      else if config_xfrm E \<and> pkt_xfrm p then Inl None
      else if pkt_has_sk p then Inl (Some CM_LOCAL_OUT)
      else if dev_by_index K (pkt_iif p) = None then Inl (Some CM_NO_IIF)
      else case pkt_ct p of
             None \<Rightarrow> Inl (Some CM_NO_CT)
           | Some c \<Rightarrow>
               (let ct = ctab c
                in if pkt_untracked p then Inl (Some CM_CT_NO_TRACK)
                   else if \<not> ct_confirmed ct then Inl (Some CM_CT_NO_CONFIRM)
                   else if ct_has_helper ct then Inl (Some CM_CT_IS_ALG)
                   else if reject_quickly (pkt_dir p) ct then Inl None
                   else Inr ct))"

text \<open>Addresses and DSCP. The message starts as what happens to be on the stack.\<close>

definition ipv4_is_multicast :: "sfe_env \<Rightarrow> u32 \<Rightarrow> bool" where
  "ipv4_is_multicast E a \<longleftrightarrow> a AND ntohl E 0xf0000000 = ntohl E 0xe0000000"

definition ipv6_addr_is_multicast :: "sfe_env \<Rightarrow> sfe_ip_addr \<Rightarrow> bool" where
  "ipv6_addr_is_multicast E a \<longleftrightarrow> addr0 a AND ntohl E 0xff000000 = ntohl E 0xff000000"

definition XT_DSCP_SHIFT :: nat where "XT_DSCP_SHIFT = 2"

definition describe_dscp :: "cm_packet \<Rightarrow> sfe_connection_create \<Rightarrow> sfe_connection_create" where
  "describe_dscp p sic =
     (let dscp = (ucast (drop_bit XT_DSCP_SHIFT (pkt_dsfield p)) :: u32)
      in if dscp \<noteq> 0 then sic\<lparr>sic_dest_dscp := dscp, sic_src_dscp := dscp,
             sic_flags := sic_flags sic OR SFE_CREATE_FLAG_REMARK_DSCP\<rparr>
         else sic)"

definition describe_addresses ::
  "sfe_env \<Rightarrow> bool \<Rightarrow> cm_packet \<Rightarrow> nf_conn \<Rightarrow> sfe_connection_create \<Rightarrow> sfe_connection_create verdict" where
  "describe_addresses E is_v4 p ct junk =
     (let orig_tuple = ct_orig ct; reply_tuple = ct_reply ct;
          sic0 = junk\<lparr>sic_protocol := ucast (tup_protonum orig_tuple), sic_flags := 0\<rparr>
      in if is_v4 then
           (let sic1 = sic0\<lparr>sic_src_ip := (sic_src_ip sic0)\<lparr>addr0 := ip (tup_src_ip orig_tuple)\<rparr>,
                        sic_dest_ip := (sic_dest_ip sic0)\<lparr>addr0 := ip (tup_dst_ip orig_tuple)\<rparr>\<rparr>
            in if ipv4_is_multicast E (ip (sic_src_ip sic1)) \<or> ipv4_is_multicast E (ip (sic_dest_ip sic1))
               then Inl (Some CM_IS_IPV4_MCAST)
               else
                 (let sic2 = sic1\<lparr>
                        sic_src_ip_xlate := (sic_src_ip_xlate sic1)\<lparr>addr0 := ip (tup_dst_ip reply_tuple)\<rparr>,
                        sic_dest_ip_xlate := (sic_dest_ip_xlate sic1)\<lparr>addr0 := ip (tup_src_ip reply_tuple)\<rparr>\<rparr>
                  in Inr (describe_dscp p sic2)))
         else
           (let sic1 = sic0\<lparr>sic_src_ip := tup_src_ip orig_tuple, sic_dest_ip := tup_dst_ip orig_tuple\<rparr>
            in if ipv6_addr_is_multicast E (sic_src_ip sic1) \<or> ipv6_addr_is_multicast E (sic_dest_ip sic1)
               then Inl (Some CM_IS_IPV6_MCAST)
               else
                 (let sic2 = sic1\<lparr>sic_src_ip_xlate := tup_dst_ip reply_tuple,
                        sic_dest_ip_xlate := tup_src_ip reply_tuple\<rparr>
                  in Inr (describe_dscp p sic2))))"

text \<open>Ports, and for TCP the windows and the state of the connection.\<close>

definition describe_ports :: "nf_conn \<Rightarrow> sfe_connection_create \<Rightarrow> sfe_connection_create" where
  "describe_ports ct sic = sic\<lparr>sic_src_port := tup_src_port (ct_orig ct),
     sic_dest_port := tup_dst_port (ct_orig ct),
     sic_src_port_xlate := tup_dst_port (ct_reply ct),
     sic_dest_port_xlate := tup_src_port (ct_reply ct)\<rparr>"

definition describe_windows :: "cm_kernel \<Rightarrow> nf_conn \<Rightarrow> sfe_connection_create \<Rightarrow> sfe_connection_create" where
  "describe_windows K ct sic =
     (let sic1 = sic\<lparr>sic_src_td_window_scale := td_scale (ct_seen0 ct),
            sic_src_td_max_window := td_maxwin (ct_seen0 ct), sic_src_td_end := td_end (ct_seen0 ct),
            sic_src_td_max_end := td_maxend (ct_seen0 ct),
            sic_dest_td_window_scale := td_scale (ct_seen1 ct),
            sic_dest_td_max_window := td_maxwin (ct_seen1 ct), sic_dest_td_end := td_end (ct_seen1 ct),
            sic_dest_td_max_end := td_maxend (ct_seen1 ct)\<rparr>
      in if tcp_no_window_check K \<or> be_liberal (ct_seen0 ct) \<or> be_liberal (ct_seen1 ct)
         then sic1\<lparr>sic_flags := sic_flags sic1 OR SFE_CREATE_FLAG_NO_SEQ_CHECK\<rparr> else sic1)"

definition describe_transport ::
  "sfe_env \<Rightarrow> cm_kernel \<Rightarrow> nf_conn \<Rightarrow> sfe_connection_create \<Rightarrow> sfe_connection_create verdict" where
  "describe_transport E K ct sic =
     (if sic_protocol sic = IPPROTO_TCP then
        (let sic1 = describe_windows K ct (describe_ports ct sic)
         in if \<not> ct_assured ct then Inl (Some CM_TCP_NOT_ASSURED)
            else if \<not> ct_established ct then Inl (Some CM_TCP_NOT_ESTABLISHED)
            else if ntohs E (sic_dest_port sic1) = 4500 \<or> ntohs E (sic_dest_port sic1) = 500 then Inl None
            else Inr sic1)
      else if sic_protocol sic = IPPROTO_UDP then Inr (describe_ports ct sic)
      else Inl (Some CM_UNKNOW_PROTOCOL))"

text \<open>The directions that may be accelerated, and the priority.\<close>

definition describe_accel ::
  "sfe_env \<Rightarrow> cm_packet \<Rightarrow> sfe_connection_create \<Rightarrow> sfe_connection_create verdict" where
  "describe_accel E p sic =
     (if config_xfrm E then
        (let sic1 = sic\<lparr>sic_original_accel := 1, sic_reply_accel := 1\<rparr>
         in if pkt_secpath p then
              (if sic_protocol sic1 = IPPROTO_TCP \<and> \<not> has_flag (sic_flags sic1) SFE_CREATE_FLAG_NO_SEQ_CHECK
               then Inl None
               else if pkt_dir p = IP_CT_DIR_ORIGINAL then Inr (sic1\<lparr>sic_reply_accel := 0\<rparr>)
               else Inr (sic1\<lparr>sic_original_accel := 0\<rparr>))
            else Inr sic1)
      else Inr sic)"

definition describe_priority :: "cm_packet \<Rightarrow> sfe_connection_create \<Rightarrow> sfe_connection_create" where
  "describe_priority p sic =
     (if pkt_prio p \<noteq> 0 then sic\<lparr>sic_dest_priority := pkt_prio p, sic_src_priority := pkt_prio p,
        sic_flags := sic_flags sic OR SFE_CREATE_FLAG_REMARK_PRIORITY\<rparr>
      else sic)"

text \<open>All of these in the order of the code.\<close>

definition cm_describe ::
  "sfe_env \<Rightarrow> cm_kernel \<Rightarrow> bool \<Rightarrow> cm_packet \<Rightarrow> (ct_ptr \<Rightarrow> nf_conn) \<Rightarrow> sfe_connection_create \<Rightarrow>
   sfe_connection_create verdict" where
  "cm_describe E K is_v4 p ctab junk =
     (case cm_admit E K p ctab of
        Inl e \<Rightarrow> Inl e
      | Inr ct \<Rightarrow>
          (case describe_addresses E is_v4 p ct junk of
             Inl e \<Rightarrow> Inl e
           | Inr sic1 \<Rightarrow>
               (case describe_transport E K ct sic1 of
                  Inl e \<Rightarrow> Inl e
                | Inr sic2 \<Rightarrow>
                    (case describe_accel E p sic2 of
                       Inl e \<Rightarrow> Inl e
                     | Inr sic3 \<Rightarrow> Inr (describe_priority p sic3)))))"

section \<open>Devices and the new rule\<close>

text \<open>The bridge a port belongs to, which is then held; a port without a bridge is an error.\<close>

definition bridge_of :: "cm_kernel \<Rightarrow> netdev \<Rightarrow> 'v sfe_cm \<Rightarrow> (netdev option \<times> 'v sfe_cm) option" where
  "bridge_of K dev s =
     (if dev_is_bridge_port K dev then
        (case dev_master K dev of
           None \<Rightarrow> None
         | Some br \<Rightarrow> Some (Some br, cm_dev_hold br s))
      else Some (None, s))"

definition put_bridge :: "netdev option \<Rightarrow> 'v sfe_cm \<Rightarrow> 'v sfe_cm" where
  "put_bridge br s = (case br of None \<Rightarrow> s | Some br \<Rightarrow> cm_dev_put br s)"

definition cm_create_rule ::
  "sfe_env \<Rightarrow> 'v sfe_ipv6_ops \<Rightarrow> bool \<Rightarrow> allocation \<Rightarrow> u64 \<Rightarrow> sfe_connection_create \<Rightarrow> 'v sfe_cm \<Rightarrow>
   'v sfe_cm option" where
  "cm_create_rule E V is_v4 al jiffies sic s =
     (if is_v4 then do {
        (res, t) \<leftarrow> sfe_ipv4_create_rule E sic al jiffies (cm_v4 s);
        Some (s\<lparr>cm_v4 := t\<rparr>)
      }
      else
        (let (refs, v) = ipv6_create_rule V sic (dev_refcnt (cm_v4 s), cm_v6 s)
         in Some (s\<lparr>cm_v4 := (cm_v4 s)\<lparr>dev_refcnt := refs\<rparr>, cm_v6 := v\<rparr>)))"

text \<open>From the last look-up on: bridges, the rule, and the release of all references.\<close>

definition cm_install_between ::
  "sfe_env \<Rightarrow> cm_kernel \<Rightarrow> 'v sfe_ipv6_ops \<Rightarrow> bool \<Rightarrow> allocation \<Rightarrow> u64 \<Rightarrow> netdev \<Rightarrow> netdev \<Rightarrow>
   sfe_connection_create \<Rightarrow> 'v sfe_cm \<Rightarrow> 'v sfe_cm option" where
  "cm_install_between E K V is_v4 al jiffies src_dev_tmp dest_dev_tmp sic s =
     (let done1 = cm_dev_put src_dev_tmp;
          done2 = done1 \<circ> cm_dev_put dest_dev_tmp
      in case bridge_of K src_dev_tmp s of
           None \<Rightarrow> Some (done2 (sfe_cm_incr_exceptions CM_NO_BRIDGE s))
         | Some (src_br_dev, s1) \<Rightarrow>
             (let done3 = done2 \<circ> put_bridge src_br_dev
              in case bridge_of K dest_dev_tmp s1 of
                   None \<Rightarrow> Some (done3 (sfe_cm_incr_exceptions CM_NO_BRIDGE s1))
                 | Some (dest_br_dev, s2) \<Rightarrow>
                     (let src_dev = (case src_br_dev of None \<Rightarrow> src_dev_tmp | Some br \<Rightarrow> br);
                          dest_dev = (case dest_br_dev of None \<Rightarrow> dest_dev_tmp | Some br \<Rightarrow> br);
                          sic1 = sic\<lparr>sic_src_dev := src_dev, sic_dest_dev := dest_dev,
                            sic_src_mtu := dev_mtu K src_dev, sic_dest_mtu := dev_mtu K dest_dev\<rparr>
                      in do {
                        s3 \<leftarrow> cm_create_rule E V is_v4 al jiffies sic1 s2;
                        Some (done3 (put_bridge dest_br_dev s3))
                      })))"

definition cm_install ::
  "sfe_env \<Rightarrow> cm_kernel \<Rightarrow> 'v sfe_ipv6_ops \<Rightarrow> bool \<Rightarrow> allocation \<Rightarrow> u64 \<Rightarrow> cm_packet \<Rightarrow>
   sfe_connection_create \<Rightarrow> 'v sfe_cm \<Rightarrow> 'v sfe_cm option" where
  "cm_install E K V is_v4 al jiffies p sic s = do {
     (r1, s) \<leftarrow> sfe_cm_find_dev_and_mac_addr K None (sic_src_ip sic) (sic_src_mac sic) is_v4 s;
     (case r1 of
        None \<Rightarrow> Some (sfe_cm_incr_exceptions CM_NO_SRC_DEV s)
      | Some (src_dev_tmp, mac) \<Rightarrow> do {
          let sic = sic\<lparr>sic_src_mac := mac\<rparr>;
          let done1 = cm_dev_put src_dev_tmp;
          (r2, s) \<leftarrow> sfe_cm_find_dev_and_mac_addr K None (sic_src_ip_xlate sic) (sic_src_mac_xlate sic) is_v4 s;
          (case r2 of
             None \<Rightarrow> Some (done1 (sfe_cm_incr_exceptions CM_NO_SRC_XLATE_DEV s))
           | Some (dev, mac) \<Rightarrow> do {
               let sic = sic\<lparr>sic_src_mac_xlate := mac\<rparr>;
               let s = cm_dev_put dev s;
               let tmp_skb = (if is_v4 then None else Some (pkt_dst p));
               (r3, s) \<leftarrow> sfe_cm_find_dev_and_mac_addr K tmp_skb (sic_dest_ip sic) (sic_dest_mac sic) is_v4 s;
               (case r3 of
                  None \<Rightarrow> Some (done1 (sfe_cm_incr_exceptions CM_NO_DEST_DEV s))
                | Some (dev, mac) \<Rightarrow> do {
                    let sic = sic\<lparr>sic_dest_mac := mac\<rparr>;
                    let s = cm_dev_put dev s;
                    (r4, s) \<leftarrow> sfe_cm_find_dev_and_mac_addr K (Some (pkt_dst p)) (sic_dest_ip_xlate sic)
                                (sic_dest_mac_xlate sic) is_v4 s;
                    (case r4 of
                       None \<Rightarrow> Some (done1 (sfe_cm_incr_exceptions CM_NO_DEST_XLATE_DEV s))
                     | Some (dest_dev_tmp, mac) \<Rightarrow>
                         cm_install_between E K V is_v4 al jiffies src_dev_tmp dest_dev_tmp
                           (sic\<lparr>sic_dest_mac_xlate := mac\<rparr>) s)
                  })
             })
        })
   }"

text \<open>The hook. The verdict for the packet is always NF_ACCEPT.\<close>

definition sfe_cm_post_routing ::
  "sfe_env \<Rightarrow> cm_kernel \<Rightarrow> 'v sfe_ipv6_ops \<Rightarrow> bool \<Rightarrow> allocation \<Rightarrow> u64 \<Rightarrow> sfe_connection_create \<Rightarrow>
   cm_packet \<Rightarrow> 'v sfe_cm \<Rightarrow> 'v sfe_cm option" where
  "sfe_cm_post_routing E K V is_v4 al jiffies junk p s =
     (case cm_describe E K is_v4 p (cts s) junk of
        Inl None \<Rightarrow> Some s
      | Inl (Some e) \<Rightarrow> Some (sfe_cm_incr_exceptions e s)
      | Inr sic \<Rightarrow> cm_install E K V is_v4 al jiffies p sic s)"

section \<open>Packets that arrive\<close>

text \<open>The receive hook of the network stack; \<open>proto\<close> is \<open>skb->protocol\<close>.\<close>

definition sfe_cm_recv ::
  "sfe_env \<Rightarrow> kernel \<Rightarrow> cm_kernel \<Rightarrow> 'v sfe_ipv6_ops \<Rightarrow> u16 \<Rightarrow> sk_buff \<Rightarrow> sfe_connection_sync \<Rightarrow> u64 \<Rightarrow>
   'v sfe_cm \<Rightarrow> (recv_outcome \<times> 'v sfe_cm) option" where
  "sfe_cm_recv E N K V proto skb sis now s =
     (let dev = skb_dev skb
      in if ntohs E proto = ETH_P_IP then
           (case dev_inet K dev of
              Some True \<Rightarrow> do {
                (out, t) \<leftarrow> sfe_ipv4_recv E N dev skb sis now (cm_v4 s);
                Some (out, s\<lparr>cm_v4 := t\<rparr>)
              }
            | _ \<Rightarrow> Some (NotForwarded skb, s))
         else if ntohs E proto = ETH_P_IPV6 then
           (case dev_inet6 K dev of
              Some True \<Rightarrow> do {
                (out, (refs, v)) \<leftarrow> ipv6_recv V dev skb (dev_refcnt (cm_v4 s), cm_v6 s);
                Some (out, s\<lparr>cm_v4 := (cm_v4 s)\<lparr>dev_refcnt := refs\<rparr>, cm_v6 := v\<rparr>)
              }
            | _ \<Rightarrow> Some (NotForwarded skb, s))
         else Some (NotForwarded skb, s))"

section \<open>Connections that end\<close>

text \<open>What a destroy event of connection tracking asks the engine to forget.\<close>

definition sid_of_tuple :: "sfe_connection_destroy \<Rightarrow> nf_tuple \<Rightarrow> sfe_connection_destroy option" where
  "sid_of_tuple junk orig_tuple =
     (let sid1 = junk\<lparr>sid_protocol := ucast (tup_protonum orig_tuple)\<rparr>
      in if sid_protocol sid1 = IPPROTO_TCP \<or> sid_protocol sid1 = IPPROTO_UDP
         then Some (sid1\<lparr>sid_src_port := tup_src_port orig_tuple, sid_dest_port := tup_dst_port orig_tuple\<rparr>)
         else None)"

definition sfe_cm_conntrack_event ::
  "sfe_env \<Rightarrow> 'v sfe_ipv6_ops \<Rightarrow> sfe_connection_destroy \<Rightarrow> sfe_connection_sync \<Rightarrow> u64 \<Rightarrow> bool \<Rightarrow> ct_ptr option \<Rightarrow>
   'v sfe_cm \<Rightarrow> 'v sfe_cm option" where
  "sfe_cm_conntrack_event E V junk sis now is_destroy ct s =
     (case ct of
        None \<Rightarrow> Some s
      | Some c \<Rightarrow>
          (if \<not> is_destroy then Some s
           else
             (let orig_tuple = ct_orig (cts s c)
              in case sid_of_tuple junk orig_tuple of
                   None \<Rightarrow> Some s
                 | Some sid \<Rightarrow>
                     (if tup_l3num orig_tuple = AF_INET then do {
                        let sid = sid\<lparr>sid_src_ip := (sid_src_ip sid)\<lparr>addr0 := ip (tup_src_ip orig_tuple)\<rparr>,
                          sid_dest_ip := (sid_dest_ip sid)\<lparr>addr0 := ip (tup_dst_ip orig_tuple)\<rparr>\<rparr>;
                        t \<leftarrow> sfe_ipv4_destroy_rule E sid sis now (cm_v4 s);
                        Some (s\<lparr>cm_v4 := t\<rparr>)
                      }
                      else if tup_l3num orig_tuple = AF_INET6 then
                        (let sid = sid\<lparr>sid_src_ip := tup_src_ip orig_tuple, sid_dest_ip := tup_dst_ip orig_tuple\<rparr>;
                             (refs, v) = ipv6_destroy_rule V sid (dev_refcnt (cm_v4 s), cm_v6 s)
                         in Some (s\<lparr>cm_v4 := (cm_v4 s)\<lparr>dev_refcnt := refs\<rparr>, cm_v6 := v\<rparr>))
                      else Some s))))"

section \<open>Reports of the engine\<close>

text \<open>The tuple a report is about.\<close>

definition zero_ip_addr :: sfe_ip_addr where
  "zero_ip_addr = \<lparr>addr0 = 0, addr1 = 0, addr2 = 0, addr3 = 0\<rparr>"

definition sync_tuple :: "sfe_connection_sync \<Rightarrow> nf_tuple" where
  "sync_tuple sis =
     \<lparr>tup_src_ip = (if sis_is_v6 sis then sis_src_ip sis else zero_ip_addr\<lparr>addr0 := ip (sis_src_ip sis)\<rparr>),
      tup_src_port = sis_src_port sis,
      tup_dst_ip = (if sis_is_v6 sis then sis_dest_ip sis else zero_ip_addr\<lparr>addr0 := ip (sis_dest_ip sis)\<rparr>),
      tup_dst_port = sis_dest_port sis, tup_protonum = ucast (sis_protocol sis),
      tup_l3num = (if sis_is_v6 sis then AF_INET6 else AF_INET)\<rparr>"

definition sync_timeout :: "sfe_connection_sync \<Rightarrow> nf_conn \<Rightarrow> nf_conn" where
  "sync_timeout sis ct = (if ct_fixed_timeout ct then ct
     else ct\<lparr>ct_timeout := ucast (ucast (ct_timeout ct) + sis_delta_jiffies sis)\<rparr>)"

definition sync_acct :: "sfe_connection_sync \<Rightarrow> nf_conn \<Rightarrow> nf_conn" where
  "sync_acct sis ct = (case ct_acct ct of
     None \<Rightarrow> ct
   | Some a \<Rightarrow> ct\<lparr>ct_acct := Some
       \<lparr>orig_packets = orig_packets a + ucast (sis_src_new_packet_count sis),
        orig_bytes = orig_bytes a + ucast (sis_src_new_byte_count sis),
        reply_packets = reply_packets a + ucast (sis_dest_new_packet_count sis),
        reply_bytes = reply_bytes a + ucast (sis_dest_new_byte_count sis)\<rparr>\<rparr>)"

definition sync_seen :: "u32 \<Rightarrow> u32 \<Rightarrow> u32 \<Rightarrow> tcp_seen \<Rightarrow> tcp_seen" where
  "sync_seen max_window end_seq max_end_seq w =
     (let w1 = (if td_maxwin w < max_window then w\<lparr>td_maxwin := max_window\<rparr> else w);
          w2 = (if sint (td_end w1 - end_seq) < 0 then w1\<lparr>td_end := end_seq\<rparr> else w1)
      in if sint (td_maxend w2 - max_end_seq) < 0 then w2\<lparr>td_maxend := max_end_seq\<rparr> else w2)"

definition sync_tcp :: "sfe_connection_sync \<Rightarrow> nf_conn \<Rightarrow> nf_conn" where
  "sync_tcp sis ct = ct\<lparr>
     ct_seen0 := sync_seen (sis_src_td_max_window sis) (sis_src_td_end sis) (sis_src_td_max_end sis) (ct_seen0 ct),
     ct_seen1 := sync_seen (sis_dest_td_max_window sis) (sis_dest_td_end sis) (sis_dest_td_max_end sis) (ct_seen1 ct)\<rparr>"

text \<open>A UDP flow that has seen replies becomes a stream with the longer timeout.\<close>

definition sync_udp :: "cm_kernel \<Rightarrow> u64 \<Rightarrow> ct_ptr \<Rightarrow> nf_conn \<Rightarrow> nf_conn" where
  "sync_udp K jiffies c ct = (case ct_acct ct of
     None \<Rightarrow> ct
   | Some a \<Rightarrow>
       (if \<not> ct_assured ct \<and> reply_packets a \<noteq> 0 then
          ct\<lparr>ct_seen_reply := True, ct_assured := True,
             ct_timeout := ucast (jiffies + ucast (udp_timeout_replied K c))\<rparr>
        else ct))"

definition sync_conn ::
  "cm_kernel \<Rightarrow> u64 \<Rightarrow> sfe_connection_sync \<Rightarrow> ct_ptr \<Rightarrow> nf_conn \<Rightarrow> nf_conn" where
  "sync_conn K jiffies sis c ct =
     (let ct1 = sync_acct sis (sync_timeout sis ct)
      in if sis_protocol sis = IPPROTO_TCP then sync_tcp sis ct1
         else if sis_protocol sis = IPPROTO_UDP then sync_udp K jiffies c ct1
         else ct1)"

definition nf_ct_get_ref :: "ct_ptr \<Rightarrow> 'v sfe_cm \<Rightarrow> 'v sfe_cm" where
  "nf_ct_get_ref c s = s\<lparr>ct_refs := (ct_refs s)(c := ct_refs s c + 1)\<rparr>"

definition nf_ct_put :: "ct_ptr \<Rightarrow> 'v sfe_cm \<Rightarrow> 'v sfe_cm" where
  "nf_ct_put c s = s\<lparr>ct_refs := (ct_refs s)(c := ct_refs s c - 1)\<rparr>"

definition sfe_cm_sync_rule ::
  "cm_kernel \<Rightarrow> u64 \<Rightarrow> sfe_connection_sync \<Rightarrow> 'v sfe_cm \<Rightarrow> 'v sfe_cm" where
  "sfe_cm_sync_rule K jiffies sis s =
     (case nf_conntrack_find_get K (sync_tuple sis) of
        None \<Rightarrow> s
      | Some c \<Rightarrow>
          (let s1 = nf_ct_get_ref c s;
               s2 = s1\<lparr>cts := (cts s1)(c := sync_conn K jiffies sis c (cts s1 c))\<rparr>
           in nf_ct_put c s2))"

section \<open>Devices that go down\<close>

definition NETDEV_DOWN :: u32 where "NETDEV_DOWN = 2"

definition cm_destroy_v6 :: "'v sfe_ipv6_ops \<Rightarrow> netdev option \<Rightarrow> 'v sfe_cm \<Rightarrow> 'v sfe_cm" where
  "cm_destroy_v6 V dev s =
     (let (refs, v) = ipv6_destroy_all V dev (dev_refcnt (cm_v4 s), cm_v6 s)
      in s\<lparr>cm_v4 := (cm_v4 s)\<lparr>dev_refcnt := refs\<rparr>, cm_v6 := v\<rparr>)"

definition cm_destroy_v4 ::
  "sfe_env \<Rightarrow> netdev option \<Rightarrow> sfe_connection_sync \<Rightarrow> (nat \<Rightarrow> u64) \<Rightarrow> 'v sfe_cm \<Rightarrow> 'v sfe_cm option" where
  "cm_destroy_v4 E dev sis now s = do {
     t \<leftarrow> sfe_ipv4_destroy_all_rules_for_dev E dev sis now 0 (cm_v4 s);
     Some (s\<lparr>cm_v4 := t\<rparr>)
   }"

text \<open>The device is NULL when the notification has none.\<close>

definition sfe_cm_device_event ::
  "sfe_env \<Rightarrow> 'v sfe_ipv6_ops \<Rightarrow> sfe_connection_sync \<Rightarrow> (nat \<Rightarrow> u64) \<Rightarrow> u32 \<Rightarrow> netdev option \<Rightarrow> 'v sfe_cm \<Rightarrow>
   'v sfe_cm option" where
  "sfe_cm_device_event E V sis now event dev s =
     (case dev of
        None \<Rightarrow> Some s
      | Some d \<Rightarrow>
          (if event = NETDEV_DOWN then do {
             s \<leftarrow> cm_destroy_v4 E (Some d) sis now s;
             Some (cm_destroy_v6 V (Some d) s)
           }
           else Some s))"

definition sfe_cm_inet_event ::
  "sfe_env \<Rightarrow> sfe_connection_sync \<Rightarrow> (nat \<Rightarrow> u64) \<Rightarrow> u32 \<Rightarrow> netdev option \<Rightarrow> 'v sfe_cm \<Rightarrow> 'v sfe_cm option" where
  "sfe_cm_inet_event E sis now event dev s =
     (case dev of
        None \<Rightarrow> Some s
      | Some d \<Rightarrow> (if event = NETDEV_DOWN then cm_destroy_v4 E (Some d) sis now s else Some s))"

definition sfe_cm_inet6_event ::
  "'v sfe_ipv6_ops \<Rightarrow> u32 \<Rightarrow> netdev option \<Rightarrow> 'v sfe_cm \<Rightarrow> 'v sfe_cm" where
  "sfe_cm_inet6_event V event dev s =
     (case dev of
        None \<Rightarrow> s
      | Some d \<Rightarrow> (if event = NETDEV_DOWN then cm_destroy_v6 V (Some d) s else s))"

section \<open>The counters in sysfs\<close>

definition PAGE_SIZE :: nat where "PAGE_SIZE = 4096"

text \<open>\<open>%d\<close> of an unsigned counter.\<close>

definition sdec :: "u32 \<Rightarrow> string" where
  "sdec w = (if sint w < 0 then ''-'' @ dec (nat (- sint w)) else dec (nat (sint w)))"

definition exception_line :: "(sfe_cm_exception \<Rightarrow> u32) \<Rightarrow> sfe_cm_exception \<Rightarrow> string" where
  "exception_line cnt e =
     (if cnt e \<noteq> 0 then sfe_cm_exception_events_string e @ '' = '' @ sdec (cnt e) @ newline else [])"

text \<open>
  \<open>snprintf(buf + len, PAGE_SIZE - len, ...)\<close>: the text is cut to the space, one byte of which is for
  the end of the string, and the length that would have been needed is added. The result is the
  buffer up to the length and the length.
\<close>

fun exceptions_loop ::
  "(sfe_cm_exception \<Rightarrow> u32) \<Rightarrow> sfe_cm_exception list \<Rightarrow> string \<times> nat \<Rightarrow> string \<times> nat" where
  "exceptions_loop cnt [] x = x"
| "exceptions_loop cnt (e # es) (buf, len) =
     (let line = exception_line cnt e
      in exceptions_loop cnt es (buf @ take (PAGE_SIZE - len - 1) line, len + length line))"

definition sfe_cm_get_exceptions :: "'v sfe_cm \<Rightarrow> string \<times> nat" where
  "sfe_cm_get_exceptions s = exceptions_loop (cm_exceptions s) cm_all_exceptions ([], 0)"

section \<open>Start and end of the module\<close>

datatype cm_resource =
  CmDir | CmExceptionsFile | DevNotifier | InetNotifier | Inet6Notifier | PostRoutingHooks
  | ConntrackNotifier | ReceiveHook

record cm_config =
  conntrack_events :: bool \<comment> \<open>\<open>CONFIG_NF_CONNTRACK_EVENTS\<close>\<close>
  conntrack_chain_events :: bool \<comment> \<open>\<open>CONFIG_NF_CONNTRACK_CHAIN_EVENTS\<close>\<close>

definition cm_register_callbacks :: "'v sfe_ipv6_ops \<Rightarrow> nat option \<Rightarrow> 'v sfe_cm \<Rightarrow> 'v sfe_cm" where
  "cm_register_callbacks V cb s =
     s\<lparr>cm_v4 := sfe_ipv4_register_sync_rule_callback cb (cm_v4 s),
       cm_v6 := ipv6_register_callback V cb (cm_v6 s)\<rparr>"

text \<open>
  The labels at which the initialisation gives up, and what each of them still releases.
\<close>

definition init_exit2 :: "cm_resource set \<Rightarrow> cm_resource set" where
  "init_exit2 held = held - {CmDir, CmExceptionsFile}"

definition init_exit3 :: "cm_resource set \<Rightarrow> cm_resource set" where
  "init_exit3 held = init_exit2 (held - {Inet6Notifier} - {InetNotifier} - {DevNotifier})"

definition init_exit4 :: "cm_config \<Rightarrow> cm_resource set \<Rightarrow> cm_resource set" where
  "init_exit4 C held = init_exit3 (if conntrack_chain_events C then held - {PostRoutingHooks} else held)"

definition sfe_cm_init ::
  "cm_config \<Rightarrow> 'v sfe_ipv6_ops \<Rightarrow> nat \<Rightarrow> bool \<Rightarrow> int \<Rightarrow> int \<Rightarrow> int \<Rightarrow> 'v sfe_cm \<Rightarrow>
   int \<times> cm_resource set \<times> 'v sfe_cm" where
  "sfe_cm_init C V sync_rule dir_ok file_result hook_result ct_result s =
     (if \<not> dir_ok then (-1, {}, s)
      else if file_result \<noteq> 0 then (file_result, init_exit2 {CmDir}, s)
      else
        (let held = {CmDir, CmExceptionsFile, DevNotifier, InetNotifier, Inet6Notifier}
         in if hook_result < 0 then (hook_result, init_exit3 held, s)
            else
              (let held = insert PostRoutingHooks held
               in if conntrack_events C \<and> ct_result < 0 then (ct_result, init_exit4 C held, s)
                  else
                    (let held = (if conntrack_events C then insert ConntrackNotifier held else held)
                     in (0, insert ReceiveHook held, cm_register_callbacks V (Some sync_rule) s)))))"

text \<open>
  The end of the module in two parts: until all connections are destroyed, and the rest; other
  processors may still run the hooks between them.
\<close>

definition cm_exit_quiesce ::
  "sfe_env \<Rightarrow> 'v sfe_ipv6_ops \<Rightarrow> sfe_connection_sync \<Rightarrow> (nat \<Rightarrow> u64) \<Rightarrow> cm_resource set \<times> 'v sfe_cm \<Rightarrow>
   (cm_resource set \<times> 'v sfe_cm) option" where
  "cm_exit_quiesce E V sis now x = do {
     let held = fst x - {ReceiveHook};
     s \<leftarrow> cm_destroy_v4 E None sis now (cm_register_callbacks V None (snd x));
     Some (held, cm_destroy_v6 V None s)
   }"

definition cm_exit_unregister :: "cm_config \<Rightarrow> cm_resource set \<Rightarrow> cm_resource set" where
  "cm_exit_unregister C held =
     (let held = (if conntrack_events C then held - {ConntrackNotifier} else held)
      in held - {PostRoutingHooks} - {Inet6Notifier} - {InetNotifier} - {DevNotifier}
           - {CmDir, CmExceptionsFile})"

definition sfe_cm_exit ::
  "cm_config \<Rightarrow> sfe_env \<Rightarrow> 'v sfe_ipv6_ops \<Rightarrow> sfe_connection_sync \<Rightarrow> (nat \<Rightarrow> u64) \<Rightarrow>
   cm_resource set \<times> 'v sfe_cm \<Rightarrow> (cm_resource set \<times> 'v sfe_cm) option" where
  "sfe_cm_exit C E V sis now x = do {
     (held, s) \<leftarrow> cm_exit_quiesce E V sis now x;
     Some (cm_exit_unregister C held, s)
   }"

end
