(* ===== verification/Sfe_Flow_Map.thy ===== *)
theory Sfe_Flow_Map
  imports Sfe_Path
begin

text \<open>
  The abstract specification of the IPv4 engine: a finite map from the key of a flow to its
  translation and its two devices. Every operation of the engine is an update of this map, and every
  packet that is forwarded is translated by an entry of it, in one of the two directions.
\<close>

section \<open>The abstraction\<close>

type_synonym endpoint = "u32 \<times> u16"
type_synonym flow_info = "(endpoint \<times> endpoint) \<times> (netdev \<times> netdev)"

definition conn_info :: "sfe_ipv4_connection \<Rightarrow> flow_info" where
  "conn_info c = (conn_nat c, (original_dev c, reply_dev c))"

definition flow_map :: "sfe_ipv4 \<Rightarrow> sfe_abs \<Rightarrow> conn_key \<Rightarrow> flow_info option" where
  "flow_map s A = map_of (map (\<lambda>c. (conn_key s c, conn_info (conns s c))) (connl A))"

lemma dom_flow_map: "dom (flow_map s A) = flow_keys s A"
  by (auto simp: flow_map_def flow_keys_def dom_map_of_conv_image_fst image_image)

lemma flow_map_iff:
  assumes "engine_inv E base s A D"
  shows "flow_map s A k = Some i \<longleftrightarrow> (\<exists>c\<in>set (connl A). conn_key s c = k \<and> conn_info (conns s c) = i)"
proof -
  have "inj_on (conn_key s) (set (connl A))" "distinct (connl A)"
    using assms by (auto simp: engine_inv_def table_inv_def)
  then have "distinct (map fst (map (\<lambda>c. (conn_key s c, conn_info (conns s c))) (connl A)))"
    by (simp add: distinct_map comp_def)
  then show ?thesis unfolding flow_map_def map_of_eq_Some_iff by auto
qed

lemma flow_mapI:
  assumes "engine_inv E base s A D"
    and "\<And>k i. M k = Some i \<longleftrightarrow> (\<exists>c\<in>set (connl A). conn_key s c = k \<and> conn_info (conns s c) = i)"
  shows "flow_map s A = M"
proof
  fix k
  have "flow_map s A k = Some i \<longleftrightarrow> M k = Some i" for i
    using flow_map_iff [OF assms(1)] assms(2) by simp
  then show "flow_map s A k = M k" by (metis not_Some_eq)
qed

lemma static_info:
  assumes "conn_static c' = conn_static c"
  shows "conn_info c' = conn_info c"
  by (simp add: conn_info_def conn_nat_def conn_staticD [OF assms])

lemma flow_map_same:
  assumes "connl B = connl A" and "conn_key t = conn_key s" and "\<And>d. conn_info (conns t d) = conn_info (conns s d)"
  shows "flow_map t B = flow_map s A"
  by (simp add: flow_map_def assms)

lemma flow_map_filter:
  assumes I: "engine_inv E base s A D" and J: "engine_inv E base t B D'"
    and B: "set (connl B) = {c \<in> set (connl A). P (conn_key s c) (conn_info (conns s c))}"
    and K: "conn_key t = conn_key s" and N: "\<And>d. conn_info (conns t d) = conn_info (conns s d)"
  shows "flow_map t B = (\<lambda>k. case flow_map s A k of None \<Rightarrow> None | Some i \<Rightarrow> if P k i then Some i else None)"
proof (rule flow_mapI [OF J])
  fix k i
  have "(case flow_map s A k of None \<Rightarrow> None | Some i \<Rightarrow> if P k i then Some i else None) = Some i \<longleftrightarrow>
      flow_map s A k = Some i \<and> P k i"
    by (auto split: option.split)
  also have "\<dots> \<longleftrightarrow> (\<exists>c\<in>set (connl B). conn_key s c = k \<and> conn_info (conns s c) = i)"
    unfolding flow_map_iff [OF I] B by auto
  finally show "(case flow_map s A k of None \<Rightarrow> None | Some i \<Rightarrow> if P k i then Some i else None) = Some i \<longleftrightarrow>
      (\<exists>c\<in>set (connl B). conn_key t c = k \<and> conn_info (conns t c) = i)"
    by (simp add: K N)
qed

section \<open>Operations on rules\<close>

definition sic_nat :: "sfe_connection_create \<Rightarrow> endpoint \<times> endpoint" where
  "sic_nat sic = ((ip (sic_src_ip_xlate sic), sic_src_port_xlate sic),
     (ip (sic_dest_ip_xlate sic), sic_dest_port_xlate sic))"

definition sic_info :: "sfe_connection_create \<Rightarrow> flow_info" where
  "sic_info sic = (sic_nat sic, (sic_src_dev sic, sic_dest_dev sic))"

definition flow_create ::
  "sfe_env \<Rightarrow> sfe_connection_create \<Rightarrow> allocation \<Rightarrow> (conn_key \<Rightarrow> flow_info option) \<Rightarrow> conn_key \<Rightarrow> flow_info option" where
  "flow_create E sic al M =
     (if create_outcome E sic al (dom M) = CREATED then M(sic_key sic \<mapsto> sic_info sic) else M)"

lemma build_rule_conns:
  assumes "m \<noteq> r"
  shows "conns (build_rule E sic c m r j s) = (conns s)(c := fill_connection sic m r j (conns s c))"
  using assms by (simp add: build_rule_def prepare_rule_fields)

lemma create_conns:
  assumes c: "sfe_ipv4_create_rule E sic al j s = Some (res, t)" and fresh: "alloc_fresh al s"
  shows "res = CREATED \<Longrightarrow> \<exists>c m r. al_conn al = Some c \<and>
      conns t = (conns s)(c := fill_connection sic m r j (conns s c))"
    and "res \<noteq> CREATED \<Longrightarrow> conn_info (conns t d) = conn_info (conns s d)"
proof -
  have ne: "al_original al = Some m \<Longrightarrow> al_reply al = Some r \<Longrightarrow> m \<noteq> r" for m r
    using fresh by (auto simp: alloc_fresh_def)
  show "\<exists>c m r. al_conn al = Some c \<and> conns t = (conns s)(c := fill_connection sic m r j (conns s c))"
    if made: "res = CREATED"
  proof -
    obtain c m r u where al: "al_conn al = Some c" "al_original al = Some m" "al_reply al = Some r"
      and t: "t = build_rule E sic c m r j u" and u: "conns u = conns s"
      using c made by (auto simp: sfe_ipv4_create_rule_def Let_def split: if_splits option.splits bind_splits)
    show ?thesis
      by (intro exI [of _ c] exI [of _ m] exI [of _ r]) (simp add: al t u build_rule_conns ne [OF al(2,3)])
  qed
  have upd: "conn_info (conns (sfe_ipv4_update_protocol_state c sic u) d) = conn_info (conns u d)" for c u
    by (rule static_info, rule same_table_static(2) [OF update_protocol_state_frame(1)])
  show "conn_info (conns t d) = conn_info (conns s d)" if "res \<noteq> CREATED"
    using c that
    by (auto simp: sfe_ipv4_create_rule_def Let_def upd kfree_conn_def kfree_cm_def
        split: if_splits option.splits bind_splits)
qed

theorem create_flow_map:
  assumes I: "engine_inv E base s A D" and fresh: "alloc_fresh al s"
  obtains t B where
    "sfe_ipv4_create_rule E sic al j s = Some (create_outcome E sic al (dom (flow_map s A)), t)"
    and "engine_inv E base t B D" and "flow_map t B = flow_create E sic al (flow_map s A)"
proof (rule create_rule [OF I fresh, where sic = sic and j = j])
  fix res t B
  assume c: "sfe_ipv4_create_rule E sic al j s = Some (res, t)" and J: "engine_inv E base t B D"
    and res: "res = create_outcome E sic al (conn_key s ` set (connl A))"
    and no: "res \<noteq> CREATED \<Longrightarrow> B = A \<and> conn_key t = conn_key s"
    and yes: "res = CREATED \<Longrightarrow> \<exists>c. al_conn al = Some c \<and> connl B = connl A @ [c] \<and>
           conn_key t c = sic_key sic \<and> (\<forall>d\<in>set (connl A). conn_key t d = conn_key s d)"
  have res': "res = create_outcome E sic al (dom (flow_map s A))"
    by (simp add: res dom_flow_map flow_keys_def)
  have "flow_map t B = flow_create E sic al (flow_map s A)"
  proof (cases "res = CREATED")
    case False
    then have "flow_map t B = flow_map s A"
      using no create_conns(2) [OF c fresh] by (intro flow_map_same) auto
    with False show ?thesis by (simp add: flow_create_def flip: res')
  next
    case True
    from yes [OF True] obtain d where d: "al_conn al = Some d" "connl B = connl A @ [d]" "conn_key t d = sic_key sic"
      and old: "\<forall>e\<in>set (connl A). conn_key t e = conn_key s e" by blast
    from create_conns(1) [OF c fresh True] d(1) obtain m r
      where cn: "conns t = (conns s)(d := fill_connection sic m r j (conns s d))" by auto
    have info: "conn_info (conns t d) = sic_info sic"
      by (simp add: cn conn_info_def conn_nat_def sic_info_def sic_nat_def fill_connection_def)
    have notin: "d \<notin> set (connl A)"
      using fresh d(1) I by (auto simp: alloc_fresh_def engine_inv_def table_inv_def)
    have keep: "conn_info (conns t e) = conn_info (conns s e)" if "e \<in> set (connl A)" for e
      using that notin by (auto simp: cn)
    have new: "\<forall>c\<in>set (connl A). conn_key s c \<noteq> sic_key sic"
      using True [unfolded res create_outcome_def] by (force split: if_splits)
    have "flow_map t B = (flow_map s A)(sic_key sic \<mapsto> sic_info sic)"
    proof (rule flow_mapI [OF J])
      fix k i
      show "((flow_map s A)(sic_key sic \<mapsto> sic_info sic)) k = Some i \<longleftrightarrow>
          (\<exists>c\<in>set (connl B). conn_key t c = k \<and> conn_info (conns t c) = i)"
      proof (cases "k = sic_key sic")
        case True
        then show ?thesis using d old info new by auto
      next
        case False
        then show ?thesis using d old keep flow_map_iff [OF I, of k i] by auto
      qed
    qed
    with True show ?thesis by (simp add: flow_create_def flip: res')
  qed
  with c J res' show thesis by (intro that) simp_all
qed

theorem destroy_flow_map:
  assumes I: "engine_inv E base s A D"
  obtains t B where "sfe_ipv4_destroy_rule E sid sis now s = Some t" and "engine_inv E base t B D"
    and "flow_map t B = (flow_map s A)(sid_key sid := None)"
proof (rule destroy_rule [OF I, where sid = sid and sis = sis and now = now])
  fix t B
  assume r: "sfe_ipv4_destroy_rule E sid sis now s = Some t" "engine_inv E base t B D"
    and B: "connl B = filter (\<lambda>c. conn_key s c \<noteq> sid_key sid) (connl A)" and K: "conn_key t = conn_key s"
    and st: "\<And>d. conn_static (conns t d) = conn_static (conns s d)"
  have "flow_map t B = (\<lambda>k. case flow_map s A k of None \<Rightarrow> None | Some i \<Rightarrow> if k \<noteq> sid_key sid then Some i else None)"
    by (rule flow_map_filter [OF I r(2) _ K static_info [OF st]]) (auto simp: B)
  also have "\<dots> = (flow_map s A)(sid_key sid := None)" by (auto split: option.split)
  finally show thesis using r by (intro that)
qed

text \<open>The flows that do not use a device; no device stands for every device.\<close>

definition without_dev :: "netdev option \<Rightarrow> (conn_key \<Rightarrow> flow_info option) \<Rightarrow> conn_key \<Rightarrow> flow_info option" where
  "without_dev dev M k = (case M k of
     None \<Rightarrow> None
   | Some (tr, (a, b)) \<Rightarrow> if dev = None \<or> dev = Some a \<or> dev = Some b then None else Some (tr, (a, b)))"

lemma without_dev_None [simp]: "without_dev None M = Map.empty"
  by (simp add: without_dev_def fun_eq_iff split: option.split prod.split)

lemma uses_dev_info: "uses_dev dev c \<longleftrightarrow> dev = None \<or> dev = Some (fst (snd (conn_info c))) \<or> dev = Some (snd (snd (conn_info c)))"
  by (cases dev) (auto simp: uses_dev_def conn_info_def)

theorem destroy_all_flow_map:
  assumes I: "engine_inv E base s A D"
  obtains t B where "sfe_ipv4_destroy_all_rules_for_dev E dev sis now n s = Some t"
    and "engine_inv E base t B D" and "flow_map t B = without_dev dev (flow_map s A)"
proof -
  obtain t B where r: "sfe_ipv4_destroy_all_rules_for_dev E dev sis now n s = Some t" "engine_inv E base t B D"
    and B: "connl B = filter (\<lambda>c. \<not> uses_dev dev (conns s c)) (connl A)" and K: "conn_key t = conn_key s"
    and st: "\<forall>d. conn_static (conns t d) = conn_static (conns s d)"
    using destroy_all_rules [OF I] by blast
  let ?P = "\<lambda>i :: flow_info. \<not> (dev = None \<or> dev = Some (fst (snd i)) \<or> dev = Some (snd (snd i)))"
  have "flow_map t B = (\<lambda>k. case flow_map s A k of None \<Rightarrow> None | Some i \<Rightarrow> if ?P i then Some i else None)"
    by (rule flow_map_filter [OF I r(2) _ K static_info [OF spec [OF st]]]) (auto simp: B uses_dev_info)
  also have "\<dots> = without_dev dev (flow_map s A)"
    by (auto simp: without_dev_def fun_eq_iff split: option.split)
  finally show thesis using r by (intro that)
qed

section \<open>Packets\<close>

text \<open>A packet takes at most one flow away.\<close>

theorem recv_flow_map:
  assumes I: "engine_inv E base s A D" and r: "sfe_ipv4_recv E K dev skb sis now s = Some (out, t)"
  shows "\<exists>B gone. engine_inv E base t B D \<and> flow_map t B = (flow_map s A) |` (- set_option gone) \<and>
    (\<forall>pkt. out = Forwarded pkt \<longrightarrow> gone = None)"
proof -
  obtain c u where l: "sfe_ipv4_recv_locked E K dev skb s = Some (out, c, u)"
    and t: "t = flush_pending c sis now u"
    using r by (auto simp: sfe_ipv4_recv_def bind_eq_Some_conv)
  then obtain B where J: "engine_inv E base u B (pend_list c @ D)" and o: "taken_out c A B"
    and k: "conn_key u = conn_key s" and cn: "conns u = conns s" and n: "counted out c s u"
    using recv_locked_handles [OF I, of K dev skb] by (auto simp: handles_def handled_def)
  show ?thesis
  proof (cases c)
    case None
    have "flow_map t B = flow_map s A"
      using o k cn by (intro flow_map_same) (auto simp: None t flush_pending_def)
    then show ?thesis using J by (intro exI [of _ B] exI [of _ None]) (simp add: None t flush_pending_def restrict_map_def)
  next
    case (Some d)
    have te: "t = sfe_ipv4_flush_sfe_ipv4_connection d SFE_SYNC_REASON_FLUSH sis now u"
      by (simp add: t Some flush_pending_def)
    have J': "engine_inv E base t B D" using J by (simp add: Some te flush_engine)
    have K: "conn_key t = conn_key s" by (simp add: te k flush_flow)
    have N: "conn_info (conns t e) = conn_info (conns s e)" for e
      by (rule static_info) (simp only: te flush_static(2) cn)
    have d: "d \<in> set (connl A)" "connl B = remove1 d (connl A)" using o by (simp_all add: Some)
    have inj: "inj_on (conn_key s) (set (connl A))" "distinct (connl A)"
      using I by (auto simp: engine_inv_def table_inv_def)
    have "set (connl B) = {c \<in> set (connl A). conn_key s c \<noteq> conn_key s d}"
      using d inj by (auto simp: set_remove1_eq inj_on_def)
    from flow_map_filter [OF I J' this K N]
    have "flow_map t B = (flow_map s A) |` (- set_option (Some (conn_key s d)))"
      by (auto simp: restrict_map_def fun_eq_iff split: option.split)
    then show ?thesis using J' n by (intro exI [of _ B] exI [of _ "Some (conn_key s d)"]) (auto simp: Some)
  qed
qed

text \<open>The specification of the fast path: which packet leaves as what, and where.\<close>

definition fast_path ::
  "(conn_key \<Rightarrow> flow_info option) \<Rightarrow> netdev \<Rightarrow> u8 \<Rightarrow> endpoint \<times> endpoint \<Rightarrow> endpoint \<times> endpoint \<Rightarrow> netdev \<Rightarrow> bool" where
  "fast_path M dev proto flow flow' out_dev \<longleftrightarrow>
     (\<exists>pr si sp di dp src dest a b. M (pr, si, sp, di, dp) = Some ((src, dest), (a, b)) \<and> ucast pr = proto \<and>
        (dev = a \<and> flow = ((si, sp), (di, dp)) \<and> flow' = (src, dest) \<and> out_dev = b \<or>
         dev = b \<and> flow = (dest, src) \<and> flow' = ((di, dp), (si, sp)) \<and> out_dev = a))"

lemma fast_pathI:
  assumes "M (pr, si, sp, di, dp) = Some ((src, dest), (a, b))" and "ucast pr = proto"
    and "dev = a \<and> flow = ((si, sp), (di, dp)) \<and> flow' = (src, dest) \<and> out_dev = b \<or>
         dev = b \<and> flow = (dest, src) \<and> flow' = ((di, dp), (si, sp)) \<and> out_dev = a"
  shows "fast_path M dev proto flow flow' out_dev"
  unfolding fast_path_def using assms by blast

lemma match_fast_path:
  assumes I: "engine_inv E base s A D" and p: "p \<in> table_matches s (connl A)"
  shows "fast_path (flow_map s A) (match_dev (cms s p)) (match_protocol (cms s p))
    ((match_src_ip (cms s p), match_src_port (cms s p)), (match_dest_ip (cms s p), match_dest_port (cms s p)))
    (eff_src (cms s p), eff_dest (cms s p)) (xmit_dev (cms s p))"
proof -
  let ?c = "cm_connection (cms s p)"
  let ?d = "conns s ?c"
  note c = match_owner [OF I p]
  have fl: "flow_ok s ?c" using I c(1) by (simp add: engine_inv_def)
  have "flow_map s A (conn_key s ?c) = Some (conn_info ?d)" using c(1) flow_map_iff [OF I] by blast
  then have M: "flow_map s A (c_protocol ?d, c_src_ip ?d, c_src_port ?d, c_dest_ip ?d, c_dest_port ?d) =
      Some (((c_src_ip_xlate ?d, c_src_port_xlate ?d), (c_dest_ip_xlate ?d, c_dest_port_xlate ?d)),
        (original_dev ?d, reply_dev ?d))"
    by (simp add: conn_key_def Let_def conn_info_def conn_nat_def)
  from c(2) have "p = original_match ?d \<or> p = reply_match ?d" by (auto simp: conn_matches_def)
  then show ?thesis
    using fl by (intro fast_pathI [where M = "flow_map s A", OF M]) (auto simp: flow_ok_def Let_def conn_nat_def mirror_def)
qed

theorem forwarded_fast_path:
  assumes I: "engine_inv E base s A D" and K: "kernel_ok K" and ok: "skb_ok skb"
    and r: "sfe_ipv4_recv E K dev skb sis now s = Some (Forwarded out, t)"
  shows "\<exists>pkt pkt' m mark proto flow flow'. same_packet skb pkt \<and> rd8 pkt 9 = Some proto \<and> ip_flow E pkt = Some flow \<and>
    ip_flow E pkt' = Some flow' \<and> out = address_packet K m mark (skb_len skb) pkt' \<and> proto \<in> {6, 17} \<and>
    fast_path (flow_map s A) dev proto flow flow' (xmit_dev m)"
proof -
  obtain p pkt pkt' mark where p: "p \<in> table_matches s (connl A)" "same_packet skb pkt" "match_dev (cms s p) = dev"
    "rd8 pkt 9 = Some (match_protocol (cms s p))"
    and o: "out = address_packet K (cms s p) mark (skb_len skb) pkt'"
    and tr: "match_protocol (cms s p) = 17 \<and> translated E 26 (cms s p) pkt pkt' \<or>
       match_protocol (cms s p) = 6 \<and> translated E 36 (cms s p) pkt pkt'"
    using recv_translated [OF I K ok r] by blast
  have "ip_flow E pkt = Some ((match_src_ip (cms s p), match_src_port (cms s p)),
      (match_dest_ip (cms s p), match_dest_port (cms s p)))"
    and "ip_flow E pkt' = Some (eff_src (cms s p), eff_dest (cms s p))"
    and "match_protocol (cms s p) \<in> {6, 17}"
    using tr by (auto simp: translated_def Let_def)
  with match_fast_path [OF I p(1)] p o show ?thesis by blast
qed

section \<open>Reports\<close>

text \<open>The timer function leaves the flows as they are.\<close>

lemma only_synced_info:
  assumes "only_synced s t"
  shows "conn_info (conns t c) = conn_info (conns s c)"
proof -
  have "conn_static \<circ> conns t = conn_static \<circ> conns s" using assms by (simp add: only_synced_def)
  then have "conn_static (conns t c) = conn_static (conns s c)" by (metis comp_apply)
  then show ?thesis by (rule static_info)
qed

theorem sync_flow_map:
  assumes I: "engine_inv E base s A D" and cb: "sync_rule_callback s = Some cb"
  obtains t B ms where "sfe_ipv4_periodic_sync sis now s = Some t" and "engine_inv E base t B D"
    and "flow_map t B = flow_map s A" and "sync_calls t = sync_calls s @ map (Pair cb) ms"
    and "distinct (map sis_key ms)" and "set (map sis_key ms) \<subseteq> dom (flow_map s A)"
proof -
  obtain t B ms where r: "sfe_ipv4_periodic_sync sis now s = Some t" "engine_inv E base t B D"
    and B: "connl B = connl A" "conn_key t = conn_key s" "only_synced s t"
    and m: "sync_calls t = sync_calls s @ map (Pair cb) ms" "distinct (map sis_key ms)"
      "set (map sis_key ms) \<subseteq> conn_key s ` set (connl A)"
    using period_reports [OF I cb, of sis now] by blast
  have "flow_map t B = flow_map s A" by (rule flow_map_same [OF B(1,2) only_synced_info [OF B(3)]])
  with r m show thesis by (intro that) (simp_all add: dom_flow_map flow_keys_def)
qed

lemma same_table_flow_map:
  assumes "same_table s t"
  shows "flow_map t A = flow_map s A"
  by (rule flow_map_same [OF refl same_table_conn_key [OF assms] static_info [OF same_table_static(2) [OF assms]]])

section \<open>A new rule\<close>

text \<open>A look-up that has a match to find answers by an entry of the map.\<close>

lemma lookup_fast_path:
  assumes I: "engine_inv E base s A D" and k: "(dev, pr, si, sp, di, dp) \<in> match_key s ` table_matches s (connl A)"
  obtains p t where "sfe_ipv4_find_sfe_ipv4_connection_match E dev pr si sp di dp s = Some (Some p, t)"
    and "fast_path (flow_map s A) dev pr ((si, sp), (di, dp)) (eff_src (cms t p), eff_dest (cms t p)) (xmit_dev (cms t p))"
proof (rule find_engine [OF I, of dev pr si sp di dp])
  fix r t B
  assume f: "sfe_ipv4_find_sfe_ipv4_connection_match E dev pr si sp di dp s = Some (r, t)"
    and J: "engine_inv E base t B D" and q: "quiet s A t B" and c: "cms t = cms s" "conns t = conns s"
    and hit: "\<And>p. r = Some p \<Longrightarrow> p \<in> table_matches t (connl B) \<and> match_key t p = (dev, pr, si, sp, di, dp)"
    and miss: "r = None \<Longrightarrow> (dev, pr, si, sp, di, dp) \<notin> match_key s ` table_matches s (connl A)"
  obtain p where r: "r = Some p" using miss k by blast
  have m: "p \<in> table_matches t (connl B)" "match_key t p = (dev, pr, si, sp, di, dp)" using hit r by blast+
  have "flow_map t B = flow_map s A" using q c by (intro flow_map_same) (simp_all add: quiet_def)
  with match_fast_path [OF J m(1)] m(2) f r show thesis by (intro that) (auto simp: match_key_def Let_def)
qed

text \<open>The keys of the two matches of an entry of the map.\<close>

definition forward_key :: "sfe_connection_create \<Rightarrow> match_key" where
  "forward_key sic = (sic_src_dev sic, ucast (sic_protocol sic), ip (sic_src_ip sic), sic_src_port sic,
     ip (sic_dest_ip sic), sic_dest_port sic)"

definition return_key :: "sfe_connection_create \<Rightarrow> match_key" where
  "return_key sic = (sic_dest_dev sic, ucast (sic_protocol sic), ip (sic_dest_ip_xlate sic), sic_dest_port_xlate sic,
     ip (sic_src_ip_xlate sic), sic_src_port_xlate sic)"

lemma entry_keys:
  assumes I: "engine_inv E base s A D" and e: "flow_map s A (sic_key sic) = Some (sic_info sic)"
  shows "forward_key sic \<in> match_key s ` table_matches s (connl A)"
    and "return_key sic \<in> match_key s ` table_matches s (connl A)"
proof -
  obtain c where c: "c \<in> set (connl A)" "conn_key s c = sic_key sic" "conn_info (conns s c) = sic_info sic"
    using e flow_map_iff [OF I] by blast
  have fl: "flow_ok s c" using I c(1) by (simp add: engine_inv_def)
  have m: "original_match (conns s c) \<in> table_matches s (connl A)" "reply_match (conns s c) \<in> table_matches s (connl A)"
    using c(1) by (auto simp: table_matches_def conn_matches_def)
  let ?d = "conns s c"
  have k: "c_protocol ?d = sic_protocol sic" "c_src_ip ?d = ip (sic_src_ip sic)" "c_src_port ?d = sic_src_port sic"
    "c_dest_ip ?d = ip (sic_dest_ip sic)" "c_dest_port ?d = sic_dest_port sic"
    using c(2) by (simp_all add: conn_key_def sic_key_def Let_def)
  have n: "conn_nat ?d = sic_nat sic" "original_dev ?d = sic_src_dev sic" "reply_dev ?d = sic_dest_dev sic"
    using c(3) by (simp_all add: conn_info_def sic_info_def)
  have "match_key s (original_match ?d) = forward_key sic"
    using fl k n(2) by (simp add: flow_ok_def Let_def match_key_def forward_key_def)
  moreover have "match_key s (reply_match ?d) = return_key sic"
  proof -
    have x: "match_dev (cms s (reply_match ?d)) = reply_dev ?d" "mirror (cms s (original_match ?d)) (cms s (reply_match ?d))"
      "match_protocol (cms s (original_match ?d)) = ucast (c_protocol ?d)"
      "(eff_src (cms s (original_match ?d)), eff_dest (cms s (original_match ?d))) = conn_nat ?d"
      using fl unfolding flow_ok_def Let_def by blast+
    have e: "eff_src (cms s (original_match ?d)) = (ip (sic_src_ip_xlate sic), sic_src_port_xlate sic)"
      "eff_dest (cms s (original_match ?d)) = (ip (sic_dest_ip_xlate sic), sic_dest_port_xlate sic)"
      using x(4) by (simp_all add: n(1) sic_nat_def)
    from x(2) [unfolded mirror_def e] show ?thesis
      by (simp add: match_key_def Let_def return_key_def x(1,3) k(1) n(3))
  qed
  ultimately show "forward_key sic \<in> match_key s ` table_matches s (connl A)"
    "return_key sic \<in> match_key s ` table_matches s (connl A)" using m by (metis imageI)+
qed

text \<open>The flows that neither direction of a new rule has in common with the map.\<close>

definition claims :: "(conn_key \<Rightarrow> flow_info option) \<Rightarrow> match_key \<Rightarrow> bool" where
  "claims M k \<longleftrightarrow> (case k of (dev, pr, si, sp, di, dp) \<Rightarrow>
     \<exists>flow' out_dev. fast_path M dev pr ((si, sp), (di, dp)) flow' out_dev)"

lemma new_entry_path:
  assumes "fast_path (M(sic_key sic \<mapsto> sic_info sic)) dev pr ((si, sp), (di, dp)) flow' out_dev"
    and "\<not> claims M (dev, pr, si, sp, di, dp)"
  shows "(dev, pr, si, sp, di, dp) = forward_key sic \<and> flow' = sic_nat sic \<and> out_dev = sic_dest_dev sic \<or>
    (dev, pr, si, sp, di, dp) = return_key sic \<and> out_dev = sic_src_dev sic \<and>
      flow' = ((ip (sic_dest_ip sic), sic_dest_port sic), (ip (sic_src_ip sic), sic_src_port sic))"
proof -
  obtain kp ki ks kd kt src dest a b where e: "(M(sic_key sic \<mapsto> sic_info sic)) (kp, ki, ks, kd, kt) = Some ((src, dest), (a, b))"
    "ucast kp = pr" and d: "dev = a \<and> ((si, sp), (di, dp)) = ((ki, ks), (kd, kt)) \<and> flow' = (src, dest) \<and> out_dev = b \<or>
         dev = b \<and> ((si, sp), (di, dp)) = (dest, src) \<and> flow' = ((kd, kt), (ki, ks)) \<and> out_dev = a"
    using assms(1) unfolding fast_path_def by blast
  show ?thesis
  proof (cases "(kp, ki, ks, kd, kt) = sic_key sic")
    case True
    then show ?thesis using e d
      by (auto simp: sic_key_def sic_info_def sic_nat_def forward_key_def return_key_def)
  next
    case False
    then have "fast_path M dev pr ((si, sp), (di, dp)) flow' out_dev" using e d by (intro fast_pathI) simp_all
    then show ?thesis using assms(2) unfolding claims_def prod.case by blast
  qed
qed

text \<open>
  C20: A rule that was created translates both ways. If no flow of the engine claims the packets of
  either direction, the look-up of a packet of the original direction finds a match that gives it the
  translated source and destination and sends it to the destination device, and the look-up of a packet
  of the reply direction, keyed by the translated endpoints on the destination device, finds a match that
  gives it back the original endpoints and sends it to the source device.
\<close>

theorem created_rule_translates:
  assumes "engine_inv E base s A D" and "alloc_fresh al s"
    and "sfe_ipv4_create_rule E sic al j s = Some (CREATED, t)"
    and "forward_key sic \<noteq> return_key sic" and "\<not> claims (flow_map s A) (forward_key sic)"
    and "\<not> claims (flow_map s A) (return_key sic)"
  shows "\<exists>p u q v.
    sfe_ipv4_find_sfe_ipv4_connection_match E (sic_src_dev sic) (ucast (sic_protocol sic)) (ip (sic_src_ip sic))
      (sic_src_port sic) (ip (sic_dest_ip sic)) (sic_dest_port sic) t = Some (Some p, u) \<and>
    eff_src (cms u p) = (ip (sic_src_ip_xlate sic), sic_src_port_xlate sic) \<and>
    eff_dest (cms u p) = (ip (sic_dest_ip_xlate sic), sic_dest_port_xlate sic) \<and> xmit_dev (cms u p) = sic_dest_dev sic \<and>
    sfe_ipv4_find_sfe_ipv4_connection_match E (sic_dest_dev sic) (ucast (sic_protocol sic)) (ip (sic_dest_ip_xlate sic))
      (sic_dest_port_xlate sic) (ip (sic_src_ip_xlate sic)) (sic_src_port_xlate sic) t = Some (Some q, v) \<and>
    eff_src (cms v q) = (ip (sic_dest_ip sic), sic_dest_port sic) \<and>
    eff_dest (cms v q) = (ip (sic_src_ip sic), sic_src_port sic) \<and> xmit_dev (cms v q) = sic_src_dev sic"
proof (rule create_flow_map [OF assms(1,2), where sic = sic and j = j])
  fix t' B
  assume c: "sfe_ipv4_create_rule E sic al j s = Some (create_outcome E sic al (dom (flow_map s A)), t')"
    and J: "engine_inv E base t' B D" and M: "flow_map t' B = flow_create E sic al (flow_map s A)"
  have t: "t' = t" "flow_map t B = (flow_map s A)(sic_key sic \<mapsto> sic_info sic)"
    using c M assms(3) by (simp_all add: flow_create_def)
  have J: "engine_inv E base t B D" using J t(1) by simp
  note k = entry_keys [OF J, of sic, unfolded t(2), OF fun_upd_same]
  obtain p u where p: "sfe_ipv4_find_sfe_ipv4_connection_match E (sic_src_dev sic) (ucast (sic_protocol sic)) (ip (sic_src_ip sic))
      (sic_src_port sic) (ip (sic_dest_ip sic)) (sic_dest_port sic) t = Some (Some p, u)"
    and fp: "fast_path (flow_map t B) (sic_src_dev sic) (ucast (sic_protocol sic))
      ((ip (sic_src_ip sic), sic_src_port sic), (ip (sic_dest_ip sic), sic_dest_port sic)) (eff_src (cms u p), eff_dest (cms u p)) (xmit_dev (cms u p))"
    using lookup_fast_path [OF J k(1) [unfolded forward_key_def]] by blast
  obtain q v where q: "sfe_ipv4_find_sfe_ipv4_connection_match E (sic_dest_dev sic) (ucast (sic_protocol sic)) (ip (sic_dest_ip_xlate sic))
      (sic_dest_port_xlate sic) (ip (sic_src_ip_xlate sic)) (sic_src_port_xlate sic) t = Some (Some q, v)"
    and fq: "fast_path (flow_map t B) (sic_dest_dev sic) (ucast (sic_protocol sic))
      ((ip (sic_dest_ip_xlate sic), sic_dest_port_xlate sic), (ip (sic_src_ip_xlate sic), sic_src_port_xlate sic)) (eff_src (cms v q), eff_dest (cms v q)) (xmit_dev (cms v q))"
    using lookup_fast_path [OF J k(2) [unfolded return_key_def]] by blast
  show ?thesis
    using new_entry_path [OF fp [unfolded t(2)] assms(5) [unfolded forward_key_def]]
      new_entry_path [OF fq [unfolded t(2)] assms(6) [unfolded return_key_def]] assms(4)
    by (intro exI [of _ p] exI [of _ u] exI [of _ q] exI [of _ v])
      (simp add: p q sic_nat_def flip: forward_key_def return_key_def)
qed

theorem created_rule_translates_witness:
  "\<exists>p u q v. sfe_ipv4_find_sfe_ipv4_connection_match demo_env 1 17 0x0a000002 4096 0x08080808 53 demo_state = Some (Some p, u) \<and>
    eff_src (cms u p) = (0x01020304, 8192) \<and> eff_dest (cms u p) = (0x08080808, 53) \<and> xmit_dev (cms u p) = 2 \<and>
    sfe_ipv4_find_sfe_ipv4_connection_match demo_env 2 17 0x08080808 53 0x01020304 8192 demo_state = Some (Some q, v) \<and>
    eff_src (cms v q) = (0x08080808, 53) \<and> eff_dest (cms v q) = (0x0a000002, 4096) \<and> xmit_dev (cms v q) = 1"
proof (rule demo_create)
  assume c: "sfe_ipv4_create_rule demo_env demo_sic demo_alloc 100 demo_start = Some (CREATED, demo_state)"
  have fresh: "alloc_fresh demo_alloc demo_start"
    by (simp add: alloc_fresh_def demo_alloc_def demo_start_def engine_start_def sfe_ipv4_register_sync_rule_callback_def)
  have "\<not> claims (flow_map demo_start abs_start) k" for k
    by (simp add: claims_def fast_path_def flow_map_def abs_start_def split: prod.split)
  moreover have "forward_key demo_sic \<noteq> return_key demo_sic" by (simp add: forward_key_def return_key_def demo_sic_def)
  ultimately show ?thesis
    using created_rule_translates [OF demo_start_inv fresh c] by (simp add: demo_sic_def v4_addr_def)
qed

end
