(* ===== verification/Sfe_Cm_Engines.thy ===== *)
theory Sfe_Cm_Engines
  imports Sfe_Cm Sfe_Flow_Map
begin

text \<open>
  What the connection manager relies on in its two engines: each keeps a set of known flows and holds
  references to devices; a rule adds at most its own flow, and what is destroyed is gone. For IPv4
  this is proved of the engine modelled here, for IPv6 it is the locale \<open>ipv6_engine\<close>, which the
  stubs of sfe_cm.h satisfy. \<open>cm_rep\<close> is the abstraction of the manager: the flows of both engines.
\<close>

section \<open>References to devices\<close>

lemma engine_refs:
  assumes I: "engine_inv E base s A D" and T: "same_table s s'"
    and R: "\<And>d. dev_refcnt s' d = dev_refcnt s d + extra d"
  shows "engine_inv E (\<lambda>d. base d + extra d) s' A D"
proof -
  have "refs_inv (\<lambda>d. base d + extra d) s' A D"
    using I by (simp add: engine_inv_def refs_inv_def R dev_uses_same_table [OF T])
  moreover have "\<forall>c\<in>set (connl A @ D). flow_ok s' c"
    using I same_table_flow_ok [OF T] by (auto simp: engine_inv_def)
  ultimately show ?thesis
    using I same_table_inv [OF _ T] by (simp add: engine_inv_def same_table_conn_key [OF T])
qed

lemma engine_hold:
  assumes "engine_inv E base s A D"
  shows "engine_inv E (base(d := base d + 1)) (dev_hold d s) A D"
proof -
  have "base(d := base d + 1) = (\<lambda>x. base x + (if x = d then 1 else 0))" by auto
  then show ?thesis
    using engine_refs [OF assms, of "dev_hold d s" "\<lambda>x. if x = d then 1 else 0"]
    by (simp add: same_table_def dev_hold_def)
qed

lemma engine_put:
  assumes "engine_inv E base s A D"
  shows "engine_inv E (base(d := base d - 1)) (dev_put d s) A D"
proof -
  have "base(d := base d - 1) = (\<lambda>x. base x + (if x = d then - 1 else 0))" by auto
  then show ?thesis
    using engine_refs [OF assms, of "dev_put d s" "\<lambda>x. if x = d then - 1 else 0"]
    by (simp add: same_table_def dev_put_def)
qed

lemma conn_key_refs [simp]: "conn_key (dev_hold d s) = conn_key s" "conn_key (dev_put d s) = conn_key s"
  by (rule conn_key_cong, simp add: dev_hold_def dev_put_def)+

lemma flow_map_refs [simp]:
  "flow_map (dev_hold d s) A = flow_map s A" "flow_map (dev_put d s) A = flow_map s A"
  by (rule same_table_flow_map, simp add: same_table_def dev_hold_def dev_put_def)+

lemma hold_put [simp]: "cm_dev_put d (cm_dev_hold d s) = s"
  by (simp add: cm_dev_put_def cm_dev_hold_def dev_put_def dev_hold_def)

lemma neigh_hold_release [simp]: "neigh_release n (neigh_hold n s) = s"
  by (cases s) (simp add: neigh_release_def neigh_hold_def)

lemma dst_hold_release [simp]: "dst_release n (dst_hold n s) = s"
  by (cases s) (simp add: dst_release_def dst_hold_def)

lemma refs_commute:
  "neigh_release n (cm_dev_hold d s) = cm_dev_hold d (neigh_release n s)"
  "dst_release r (cm_dev_hold d s) = cm_dev_hold d (dst_release r s)"
  "dst_release r (neigh_release n s) = neigh_release n (dst_release r s)"
  "cm_dev_put d (sfe_cm_incr_exceptions e s) = sfe_cm_incr_exceptions e (cm_dev_put d s)"
  by (simp_all add: neigh_release_def cm_dev_hold_def dst_release_def cm_dev_put_def sfe_cm_incr_exceptions_def)

section \<open>The interface of an engine for IPv6\<close>

text \<open>
  \<open>v6_inv own v F\<close>: the engine is consistent, holds the references \<open>own\<close> to devices and knows the
  flows \<open>F\<close>.
\<close>

locale ipv6_engine =
  fixes V :: "'v sfe_ipv6_ops"
    and v6_inv :: "(netdev \<Rightarrow> int) \<Rightarrow> 'v \<Rightarrow> 'k set \<Rightarrow> bool"
  assumes v6_recv: "v6_inv own v F \<Longrightarrow> ipv6_recv V in_dev skb (\<lambda>d. base d + own d, v) = Some (out, x) \<Longrightarrow>
      \<exists>own' v' F'. v6_inv own' v' F' \<and> F' \<subseteq> F \<and> x = (\<lambda>d. base d + own' d, v')"
    and v6_create: "v6_inv own v F \<Longrightarrow> \<exists>own' v' F'. v6_inv own' v' F' \<and> F \<subseteq> F' \<and>
      ipv6_create_rule V sic (\<lambda>d. base d + own d, v) = (\<lambda>d. base d + own' d, v')"
    and v6_destroy: "v6_inv own v F \<Longrightarrow> \<exists>own' v' F'. v6_inv own' v' F' \<and> F' \<subseteq> F \<and>
      ipv6_destroy_rule V sid (\<lambda>d. base d + own d, v) = (\<lambda>d. base d + own' d, v')"
    and v6_destroy_all: "v6_inv own v F \<Longrightarrow> \<exists>own' v' F'. v6_inv own' v' F' \<and> F' \<subseteq> F \<and>
      (dev = None \<longrightarrow> F' = {} \<and> own' = (\<lambda>_. 0)) \<and>
      ipv6_destroy_all V dev (\<lambda>d. base d + own d, v) = (\<lambda>d. base d + own' d, v')"
    and v6_register: "v6_inv own v F \<Longrightarrow> v6_inv own (ipv6_register_callback V cb v) F"

definition no_ipv6 :: "(netdev \<Rightarrow> int) \<Rightarrow> unit \<Rightarrow> conn_key set \<Rightarrow> bool" where
  "no_ipv6 own v F \<longleftrightarrow> own = (\<lambda>_. 0) \<and> F = {}"

interpretation stub6: ipv6_engine ipv6_stubs no_ipv6
  by unfold_locales (auto simp: ipv6_stubs_def no_ipv6_def)

section \<open>The manager\<close>

text \<open>
  \<open>cm_rep\<close>: both engines are consistent, know the flows \<open>G\<close> (a map, for IPv4) and \<open>F\<close>, and every device reference
  above \<open>base\<close> belongs to one of them. \<open>D\<close> are the connections on their way out.
\<close>

definition cm_rep ::
  "sfe_env \<Rightarrow> ((netdev \<Rightarrow> int) \<Rightarrow> 'v \<Rightarrow> 'k set \<Rightarrow> bool) \<Rightarrow> (netdev \<Rightarrow> int) \<Rightarrow> conn_ptr list \<Rightarrow>
   'v sfe_cm \<Rightarrow> (conn_key \<Rightarrow> flow_info option) \<Rightarrow> 'k set \<Rightarrow> bool" where
  "cm_rep E v6_inv base D s G F \<longleftrightarrow> (\<exists>A own. engine_inv E (\<lambda>d. base d + own d) (cm_v4 s) A D \<and>
     flow_map (cm_v4 s) A = G \<and> v6_inv own (cm_v6 s) F)"

lemma refs_of_base:
  assumes "engine_inv E base s A D"
  shows "dev_refcnt s = (\<lambda>d. base d + int (dev_uses s (connl A @ D) d))"
  using assms by (auto simp: engine_inv_def refs_inv_def)

lemma engine_rebase:
  assumes I: "engine_inv E base s A D" and r: "\<And>d. base' d + int (dev_uses s (connl A @ D) d) = r d"
  shows "engine_inv E base' (s\<lparr>dev_refcnt := r\<rparr>) A D"
proof -
  have "dev_refcnt s d = base d + int (dev_uses s (connl A @ D) d)" for d
    using refs_of_base [OF I] by meson
  then have "engine_inv E (\<lambda>d. base d + (base' d - base d)) (s\<lparr>dev_refcnt := r\<rparr>) A D"
    using r [symmetric] by (intro engine_refs [OF I]) (simp_all add: same_table_def)
  then show ?thesis by simp
qed

text \<open>An operation of the other engine works on the shared references and on its own state.\<close>

definition v6_apply :: "((netdev \<Rightarrow> int) \<times> 'v \<Rightarrow> (netdev \<Rightarrow> int) \<times> 'v) \<Rightarrow> 'v sfe_cm \<Rightarrow> 'v sfe_cm" where
  "v6_apply f s = (let (refs, v) = f (dev_refcnt (cm_v4 s), cm_v6 s)
     in s\<lparr>cm_v4 := (cm_v4 s)\<lparr>dev_refcnt := refs\<rparr>, cm_v6 := v\<rparr>)"

lemma v6_apply_rep:
  assumes R: "cm_rep E v6_inv base D s G F"
    and law: "\<And>base own. v6_inv own (cm_v6 s) F \<Longrightarrow> \<exists>own' v' F'. v6_inv own' v' F' \<and> Q own' F' \<and>
      f (\<lambda>d. base d + own d, cm_v6 s) = (\<lambda>d. base d + own' d, v')"
  obtains F' own' where "cm_rep E v6_inv base D (v6_apply f s) G F'" and "Q own' F'"
proof -
  obtain A own where I: "engine_inv E (\<lambda>d. base d + own d) (cm_v4 s) A D" and G: "flow_map (cm_v4 s) A = G"
    and v: "v6_inv own (cm_v6 s) F" using R by (auto simp: cm_rep_def)
  let ?u = "\<lambda>d. int (dev_uses (cm_v4 s) (connl A @ D) d)"
  have refs: "dev_refcnt (cm_v4 s) = (\<lambda>d. (base d + ?u d) + own d)"
    by (rule ext) (simp only: refs_of_base [OF I] ac_simps)
  obtain own' v' F' where v': "v6_inv own' v' F'" and Q: "Q own' F'"
    and f: "f (\<lambda>d. (base d + ?u d) + own d, cm_v6 s) = (\<lambda>d. (base d + ?u d) + own' d, v')"
    using law [OF v, of "\<lambda>d. base d + ?u d"] by blast
  have "engine_inv E (\<lambda>d. base d + own' d)
      ((cm_v4 s)\<lparr>dev_refcnt := \<lambda>d. (base d + ?u d) + own' d\<rparr>) A D"
    by (rule engine_rebase [OF I]) simp
  moreover have "flow_map ((cm_v4 s)\<lparr>dev_refcnt := \<lambda>d. (base d + ?u d) + own' d\<rparr>) A = G"
    unfolding G [symmetric] by (rule flow_map_same) (simp_all add: conn_key_def fun_eq_iff)
  moreover have "v6_apply f s = s\<lparr>cm_v4 := (cm_v4 s)\<lparr>dev_refcnt := \<lambda>d. (base d + ?u d) + own' d\<rparr>, cm_v6 := v'\<rparr>"
    unfolding v6_apply_def refs f by simp
  ultimately have "cm_rep E v6_inv base D (v6_apply f s) G F'"
    unfolding cm_rep_def using v' by (intro exI [of _ A] exI [of _ own']) simp
  then show thesis using Q by (rule that)
qed

lemma v6_apply_frame [simp]:
  "neigh_refs (v6_apply f s) = neigh_refs s" "dst_refs (v6_apply f s) = dst_refs s"
  "cts (v6_apply f s) = cts s" "ct_refs (v6_apply f s) = ct_refs s"
  "cm_exceptions (v6_apply f s) = cm_exceptions s"
  by (simp_all add: v6_apply_def split: prod.split)

lemma v6_ops_conv:
  "cm_create_rule E V False al j sic s = Some (v6_apply (ipv6_create_rule V sic) s)"
  "cm_destroy_v6 V dev s = v6_apply (ipv6_destroy_all V dev) s"
  by (simp_all add: cm_create_rule_def cm_destroy_v6_def v6_apply_def split: prod.split)

section \<open>References of the manager itself\<close>

lemma cm_rep_hold:
  assumes "cm_rep E v6_inv base D s G F"
  shows "cm_rep E v6_inv (base(d := base d + 1)) D (cm_dev_hold d s) G F"
proof -
  obtain A own where I: "engine_inv E (\<lambda>x. base x + own x) (cm_v4 s) A D" and G: "flow_map (cm_v4 s) A = G"
    and v: "v6_inv own (cm_v6 s) F" using assms by (auto simp: cm_rep_def)
  have "(\<lambda>x. (base(d := base d + 1)) x + own x) = (\<lambda>x. base x + own x)(d := (base d + own d) + 1)" by auto
  then show ?thesis using engine_hold [OF I, of d] G v
    by (auto simp: cm_rep_def cm_dev_hold_def intro!: exI [of _ A] exI [of _ own])
qed

lemma cm_rep_put:
  assumes "cm_rep E v6_inv base D s G F"
  shows "cm_rep E v6_inv (base(d := base d - 1)) D (cm_dev_put d s) G F"
proof -
  obtain A own where I: "engine_inv E (\<lambda>x. base x + own x) (cm_v4 s) A D" and G: "flow_map (cm_v4 s) A = G"
    and v: "v6_inv own (cm_v6 s) F" using assms by (auto simp: cm_rep_def)
  have "(\<lambda>x. (base(d := base d - 1)) x + own x) = (\<lambda>x. base x + own x)(d := (base d + own d) - 1)" by auto
  then show ?thesis using engine_put [OF I, of d] G v
    by (auto simp: cm_rep_def cm_dev_put_def intro!: exI [of _ A] exI [of _ own])
qed

lemma cm_rep_incr [simp]:
  "cm_rep E v6_inv base D (sfe_cm_incr_exceptions e s) G F = cm_rep E v6_inv base D s G F"
  by (simp add: cm_rep_def sfe_cm_incr_exceptions_def)

lemma refs_frame [simp]:
  "cm_v6 (cm_dev_hold d s) = cm_v6 s" "cm_v6 (cm_dev_put d s) = cm_v6 s"
  "neigh_refs (cm_dev_hold d s) = neigh_refs s" "neigh_refs (cm_dev_put d s) = neigh_refs s"
  "dst_refs (cm_dev_hold d s) = dst_refs s" "dst_refs (cm_dev_put d s) = dst_refs s"
  "cts (cm_dev_hold d s) = cts s" "cts (cm_dev_put d s) = cts s"
  "ct_refs (cm_dev_hold d s) = ct_refs s" "ct_refs (cm_dev_put d s) = ct_refs s"
  "cm_exceptions (cm_dev_hold d s) = cm_exceptions s" "cm_exceptions (cm_dev_put d s) = cm_exceptions s"
  "conns (cm_v4 (cm_dev_hold d s)) = conns (cm_v4 s)" "conns (cm_v4 (cm_dev_put d s)) = conns (cm_v4 s)"
  "conn_key (cm_v4 (cm_dev_hold d s)) = conn_key (cm_v4 s)" "conn_key (cm_v4 (cm_dev_put d s)) = conn_key (cm_v4 s)"
  "alloc_fresh al (cm_v4 (cm_dev_hold d s)) = alloc_fresh al (cm_v4 s)"
  by (simp_all add: cm_dev_hold_def cm_dev_put_def alloc_fresh_def) (simp_all add: dev_hold_def dev_put_def split: option.split)

end
