(* ===== verification/Sfe_Cm_Post.thy ===== *)
theory Sfe_Cm_Post
  imports Sfe_Cm_Engines
begin

text \<open>
  The post routing hook of the connection manager: which packets make it install a rule, for which
  flow and between which devices, and that it returns all references it takes on the way.
\<close>

section \<open>Which packets qualify\<close>

definition tuple_key :: "nf_tuple \<Rightarrow> conn_key" where
  "tuple_key t = (ucast (tup_protonum t), ip (tup_src_ip t), tup_src_port t, ip (tup_dst_ip t), tup_dst_port t)"

text \<open>Addresses and ports seen from the reply direction, that is after translation.\<close>

definition tuple_nat :: "nf_tuple \<Rightarrow> (u32 \<times> u16) \<times> (u32 \<times> u16)" where
  "tuple_nat reply = ((ip (tup_dst_ip reply), tup_dst_port reply), (ip (tup_src_ip reply), tup_src_port reply))"

definition multicast :: "sfe_env \<Rightarrow> bool \<Rightarrow> sfe_ip_addr \<Rightarrow> bool" where
  "multicast E is_v4 a = (if is_v4 then ipv4_is_multicast E (ip a) else ipv6_addr_is_multicast E a)"

definition lenient :: "cm_kernel \<Rightarrow> nf_conn \<Rightarrow> bool" where
  "lenient K ct \<longleftrightarrow> tcp_no_window_check K \<or> be_liberal (ct_seen0 ct) \<or> be_liberal (ct_seen1 ct)"

text \<open>The packet is forwarded and its connection is one the connection tracking has settled.\<close>

definition eligible_packet :: "sfe_env \<Rightarrow> cm_kernel \<Rightarrow> cm_packet \<Rightarrow> nf_conn \<Rightarrow> bool" where
  "eligible_packet E K p ct \<longleftrightarrow> pkt_kind p \<noteq> PACKET_BROADCAST \<and> pkt_kind p \<noteq> PACKET_MULTICAST \<and>
     \<not> (config_xfrm E \<and> pkt_xfrm p) \<and> \<not> pkt_has_sk p \<and> dev_by_index K (pkt_iif p) \<noteq> None \<and>
     \<not> pkt_untracked p \<and> ct_confirmed ct \<and> \<not> ct_has_helper ct \<and> \<not> reject_quickly (pkt_dir p) ct"

definition eligible_flow :: "sfe_env \<Rightarrow> cm_kernel \<Rightarrow> bool \<Rightarrow> cm_packet \<Rightarrow> nf_conn \<Rightarrow> bool" where
  "eligible_flow E K is_v4 p ct \<longleftrightarrow>
     \<not> multicast E is_v4 (tup_src_ip (ct_orig ct)) \<and> \<not> multicast E is_v4 (tup_dst_ip (ct_orig ct)) \<and>
     (ucast (tup_protonum (ct_orig ct)) = IPPROTO_TCP \<and> ct_assured ct \<and> ct_established ct \<and>
        ntohs E (tup_dst_port (ct_orig ct)) \<notin> {500, 4500} \<and>
        (config_xfrm E \<and> pkt_secpath p \<longrightarrow> lenient K ct) \<or>
      ucast (tup_protonum (ct_orig ct)) = IPPROTO_UDP)"

lemmas describe_defs = cm_admit_def describe_addresses_def describe_dscp_def describe_transport_def
  describe_windows_def describe_ports_def describe_accel_def describe_priority_def Let_def

lemma no_seq_check_flag:
  "has_flag SFE_CREATE_FLAG_NO_SEQ_CHECK SFE_CREATE_FLAG_NO_SEQ_CHECK"
  "has_flag (a OR SFE_CREATE_FLAG_NO_SEQ_CHECK) SFE_CREATE_FLAG_NO_SEQ_CHECK"
  "\<not> has_flag SFE_CREATE_FLAG_REMARK_DSCP SFE_CREATE_FLAG_NO_SEQ_CHECK"
  "\<not> has_flag 0 SFE_CREATE_FLAG_NO_SEQ_CHECK"
  by (simp_all add: has_flag_or)
    (simp_all add: has_flag_def SFE_CREATE_FLAG_NO_SEQ_CHECK_def SFE_CREATE_FLAG_REMARK_DSCP_def)

lemma admit_eligible:
  "(\<exists>ct. cm_admit E K p ctab = Inr ct) \<longleftrightarrow> (\<exists>c. pkt_ct p = Some c \<and> eligible_packet E K p (ctab c))"
  "cm_admit E K p ctab = Inr ct \<Longrightarrow> \<exists>c. pkt_ct p = Some c \<and> ct = ctab c"
  by (auto simp: cm_admit_def eligible_packet_def Let_def split: option.splits if_splits)

text \<open>What the steps say of the flow, whatever the message held before.\<close>

definition flow_part :: "sfe_connection_create \<Rightarrow> u32 \<times> (sfe_ip_addr \<times> sfe_ip_addr) \<times> (sfe_ip_addr \<times> sfe_ip_addr)" where
  "flow_part sic = (sic_protocol sic, (sic_src_ip sic, sic_dest_ip sic), (sic_src_ip_xlate sic, sic_dest_ip_xlate sic))"

lemma addresses_eligible:
  "describe_addresses E v4 p ct junk = Inr sic \<Longrightarrow>
     \<not> multicast E v4 (tup_src_ip (ct_orig ct)) \<and> \<not> multicast E v4 (tup_dst_ip (ct_orig ct)) \<and>
     sic_protocol sic = ucast (tup_protonum (ct_orig ct)) \<and>
     ip (sic_src_ip sic) = ip (tup_src_ip (ct_orig ct)) \<and> ip (sic_dest_ip sic) = ip (tup_dst_ip (ct_orig ct)) \<and>
     ip (sic_src_ip_xlate sic) = ip (tup_dst_ip (ct_reply ct)) \<and> ip (sic_dest_ip_xlate sic) = ip (tup_src_ip (ct_reply ct)) \<and>
     \<not> has_flag (sic_flags sic) SFE_CREATE_FLAG_NO_SEQ_CHECK"
  "describe_addresses E v4 p ct junk = Inl e \<Longrightarrow>
     multicast E v4 (tup_src_ip (ct_orig ct)) \<or> multicast E v4 (tup_dst_ip (ct_orig ct))"
  by (auto simp: describe_addresses_def describe_dscp_def multicast_def Let_def has_flag_or no_seq_check_flag
      split: if_splits)

lemma transport_eligible:
  assumes "\<not> has_flag (sic_flags sic) SFE_CREATE_FLAG_NO_SEQ_CHECK"
    and "sic_protocol sic = ucast (tup_protonum (ct_orig ct))"
  shows "describe_transport E K ct sic = Inr sic' \<Longrightarrow>
       flow_part sic' = flow_part sic \<and>
       (sic_src_port sic', sic_dest_port sic') = (tup_src_port (ct_orig ct), tup_dst_port (ct_orig ct)) \<and>
       (sic_src_port_xlate sic', sic_dest_port_xlate sic') = (tup_dst_port (ct_reply ct), tup_src_port (ct_reply ct)) \<and>
       (sic_protocol sic = IPPROTO_TCP \<and> ct_assured ct \<and> ct_established ct \<and>
          ntohs E (tup_dst_port (ct_orig ct)) \<notin> {500, 4500} \<and>
          has_flag (sic_flags sic') SFE_CREATE_FLAG_NO_SEQ_CHECK = lenient K ct \<or>
        sic_protocol sic = IPPROTO_UDP)"
    and "describe_transport E K ct sic = Inl e \<Longrightarrow>
       sic_protocol sic \<noteq> IPPROTO_UDP \<and>
       \<not> (sic_protocol sic = IPPROTO_TCP \<and> ct_assured ct \<and> ct_established ct \<and>
          ntohs E (tup_dst_port (ct_orig ct)) \<notin> {500, 4500})"
  using assms
  by (auto simp: describe_transport_def describe_windows_def describe_ports_def lenient_def flow_part_def
      Let_def no_seq_check_flag IPPROTO_TCP_def IPPROTO_UDP_def split: if_splits)

lemma accel_eligible:
  "describe_accel E p sic = Inr sic' \<Longrightarrow> flow_part sic' = flow_part sic \<and> sic_nat sic' = sic_nat sic \<and>
     sic_key sic' = sic_key sic \<and>
     (config_xfrm E \<and> pkt_secpath p \<and> sic_protocol sic = IPPROTO_TCP \<longrightarrow>
        has_flag (sic_flags sic) SFE_CREATE_FLAG_NO_SEQ_CHECK)"
  "describe_accel E p sic = Inl e \<Longrightarrow>
     config_xfrm E \<and> pkt_secpath p \<and> sic_protocol sic = IPPROTO_TCP \<and>
       \<not> has_flag (sic_flags sic) SFE_CREATE_FLAG_NO_SEQ_CHECK"
  by (auto simp: describe_accel_def flow_part_def sic_nat_def sic_key_def Let_def split: if_splits)

lemma priority_flow:
  "flow_part (describe_priority p sic) = flow_part sic" "sic_nat (describe_priority p sic) = sic_nat sic"
  "sic_key (describe_priority p sic) = sic_key sic"
  by (simp_all add: describe_priority_def flow_part_def sic_nat_def sic_key_def)

text \<open>The description succeeds exactly for eligible packets, and names the flow of connection tracking.\<close>

lemma describe_Inr:
  assumes "cm_describe E K v4 p ctab junk = Inr sic"
  obtains c where "pkt_ct p = Some c" and "eligible_packet E K p (ctab c)" and "eligible_flow E K v4 p (ctab c)"
    and "sic_key sic = tuple_key (ct_orig (ctab c))" and "sic_nat sic = tuple_nat (ct_reply (ctab c))"
proof -
  obtain ct sic1 sic2 sic3 where a: "cm_admit E K p ctab = Inr ct"
    and d: "describe_addresses E v4 p ct junk = Inr sic1" and t: "describe_transport E K ct sic1 = Inr sic2"
    and x: "describe_accel E p sic2 = Inr sic3" and sic: "sic = describe_priority p sic3"
    using assms by (auto simp: cm_describe_def split: sum.splits)
  obtain c where c: "pkt_ct p = Some c" "ct = ctab c" "eligible_packet E K p (ctab c)"
    using admit_eligible(2) [OF a] admit_eligible(1) [of E K p ctab] a by auto
  note A = addresses_eligible(1) [OF d]
  have T: "flow_part sic2 = flow_part sic1 \<and>
       (sic_src_port sic2, sic_dest_port sic2) = (tup_src_port (ct_orig ct), tup_dst_port (ct_orig ct)) \<and>
       (sic_src_port_xlate sic2, sic_dest_port_xlate sic2) = (tup_dst_port (ct_reply ct), tup_src_port (ct_reply ct)) \<and>
       (sic_protocol sic1 = IPPROTO_TCP \<and> ct_assured ct \<and> ct_established ct \<and>
          ntohs E (tup_dst_port (ct_orig ct)) \<notin> {500, 4500} \<and>
          has_flag (sic_flags sic2) SFE_CREATE_FLAG_NO_SEQ_CHECK = lenient K ct \<or>
        sic_protocol sic1 = IPPROTO_UDP)"
    by (rule transport_eligible(1) [OF _ _ t]) (use A in simp_all)
  note X = accel_eligible(1) [OF x]
  have "eligible_flow E K v4 p ct"
    using A T X by (auto simp: eligible_flow_def flow_part_def)
  moreover have "sic_key sic = tuple_key (ct_orig ct)" "sic_nat sic = tuple_nat (ct_reply ct)"
    using A T X by (simp_all add: sic priority_flow)
      (simp_all add: sic_key_def sic_nat_def tuple_key_def tuple_nat_def flow_part_def)
  ultimately show thesis using that c by simp
qed

lemma describe_Inl:
  assumes "cm_describe E K v4 p ctab junk = Inl e" and "pkt_ct p = Some c"
  shows "\<not> (eligible_packet E K p (ctab c) \<and> eligible_flow E K v4 p (ctab c))"
proof (cases "cm_admit E K p ctab")
  case (Inl e')
  then have "\<not> (\<exists>ct. cm_admit E K p ctab = Inr ct)" by simp
  then show ?thesis using assms(2) admit_eligible(1) [of E K p ctab] by auto
next
  case a: (Inr ct)
  then have ct: "ct = ctab c" using admit_eligible(2) [OF a] assms(2) by simp
  show ?thesis
  proof (cases "describe_addresses E v4 p ct junk")
    case (Inl e')
    then show ?thesis using addresses_eligible(2) [OF Inl] by (auto simp: eligible_flow_def ct)
  next
    case d: (Inr sic1)
    note A = addresses_eligible(1) [OF d]
    show ?thesis
    proof (cases "describe_transport E K ct sic1")
      case (Inl e')
      then show ?thesis using transport_eligible(2) [OF _ _ Inl] A by (auto simp: eligible_flow_def ct)
    next
      case t: (Inr sic2)
      have "describe_accel E p sic2 = Inl e"
        using assms(1) by (auto simp: cm_describe_def a d t split: sum.splits)
      then show ?thesis
        using accel_eligible(2) [of E p sic2 e] transport_eligible(1) [OF _ _ t] A
        by (auto simp: eligible_flow_def ct flow_part_def IPPROTO_TCP_def IPPROTO_UDP_def)
    qed
  qed
qed

section \<open>The devices of a flow\<close>

text \<open>Hardware addresses fit, and the kernel reads only the first word of an IPv4 address.\<close>

definition cm_kernel_ok :: "cm_kernel \<Rightarrow> bool" where
  "cm_kernel_ok K \<longleftrightarrow> (\<forall>d. dev_addr_len K d \<le> ETH_ALEN) \<and>
     (\<forall>d a b. ip a = ip b \<longrightarrow> dst_neigh_lookup K d a = dst_neigh_lookup K d b)"

definition neighbour :: "cm_kernel \<Rightarrow> dst_ptr option \<Rightarrow> sfe_ip_addr \<Rightarrow> bool \<Rightarrow> (netdev \<times> neigh_ptr) option" where
  "neighbour K route a is_v4 = do {
     d \<leftarrow> (case route of Some d \<Rightarrow> Some d
          | None \<Rightarrow> if is_v4 then ip_route_output K (ip a) else rt6_lookup K a);
     n \<leftarrow> dst_neigh_lookup K d a;
     dev \<leftarrow> (if neigh_valid K n then neigh_dev K n else None);
     Some (dev, n)
   }"

text \<open>The look-up finds the neighbour, keeps a reference on its device only and copies the address.\<close>

lemma find_dev_conv:
  assumes fit: "\<forall>d. dev_addr_len K d \<le> ETH_ALEN"
  shows "sfe_cm_find_dev_and_mac_addr K route a old is_v4 s =
     (case neighbour K route a is_v4 of
        None \<Rightarrow> Some (None, s)
      | Some (d, n) \<Rightarrow> Some (Some (d, \<lambda>i. if i < dev_addr_len K d then neigh_ha K n i else old i), cm_dev_hold d s))"
proof -
  have copy: "copy_mac (dev_addr_len K d) src old = Some (\<lambda>i. if i < dev_addr_len K d then src i else old i)" for d src
    using fit by (simp add: copy_mac_def)
  show ?thesis
    by (cases route)
      (auto simp: sfe_cm_find_dev_and_mac_addr_def neighbour_def copy refs_commute Let_def
        split: option.split)
qed

definition bridged :: "cm_kernel \<Rightarrow> netdev \<Rightarrow> netdev option" where
  "bridged K d = (if dev_is_bridge_port K d then dev_master K d else Some d)"

text \<open>The devices a rule is installed between: each address must have a neighbour.\<close>

definition resolve :: "cm_kernel \<Rightarrow> bool \<Rightarrow> cm_packet \<Rightarrow> sfe_ip_addr \<times> sfe_ip_addr \<Rightarrow> sfe_ip_addr \<times> sfe_ip_addr \<Rightarrow>
    (netdev \<times> netdev) option" where
  "resolve K is_v4 p ends xlated = do {
     (src_dev, _) \<leftarrow> neighbour K None (fst ends) is_v4;
     _ \<leftarrow> neighbour K None (fst xlated) is_v4;
     _ \<leftarrow> neighbour K (if is_v4 then None else Some (pkt_dst p)) (snd ends) is_v4;
     (dest_dev, _) \<leftarrow> neighbour K (Some (pkt_dst p)) (snd xlated) is_v4;
     src \<leftarrow> bridged K src_dev;
     dest \<leftarrow> bridged K dest_dev;
     Some (src, dest)
   }"

lemma bridge_of_conv:
  "bridge_of K d s = (case bridged K d of None \<Rightarrow> None
     | Some b \<Rightarrow> if dev_is_bridge_port K d then Some (Some b, cm_dev_hold b s) else Some (None, s))"
  by (auto simp: bridge_of_def bridged_def split: option.split)

lemma put_bridge_simps [simp]: "put_bridge None s = s" "put_bridge (Some b) s = cm_dev_put b s"
  by (simp_all add: put_bridge_def)

text \<open>
  The installation either counts an exception, or brackets the creation of the rule with references
  on the devices on the way.
\<close>

definition rule_for :: "cm_kernel \<Rightarrow> sfe_connection_create \<Rightarrow> netdev \<times> netdev \<Rightarrow> sfe_connection_create \<Rightarrow> bool" where
  "rule_for K sic devs sic' \<longleftrightarrow> sic_key sic' = sic_key sic \<and> sic_nat sic' = sic_nat sic \<and>
     sic_src_dev sic' = fst devs \<and> sic_dest_dev sic' = snd devs \<and>
     sic_src_mtu sic' = dev_mtu K (fst devs) \<and> sic_dest_mtu sic' = dev_mtu K (snd devs)"

definition installs ::
  "sfe_env \<Rightarrow> cm_kernel \<Rightarrow> 'v sfe_ipv6_ops \<Rightarrow> bool \<Rightarrow> allocation \<Rightarrow> u64 \<Rightarrow> sfe_connection_create \<Rightarrow>
   (netdev \<times> netdev) option \<Rightarrow> 'v sfe_cm \<Rightarrow> 'v sfe_cm option \<Rightarrow> bool" where
  "installs E K V is_v4 al j sic found s r \<longleftrightarrow>
     (case found of
        None \<Rightarrow> \<exists>e. r = Some (sfe_cm_incr_exceptions e s)
      | Some devs \<Rightarrow> \<exists>sic' ds. rule_for K sic devs sic' \<and>
          r = map_option (fold cm_dev_put ds) (cm_create_rule E V is_v4 al j sic' (fold cm_dev_hold (rev ds) s)))"

lemma not_bridged: "\<not> dev_is_bridge_port K d \<Longrightarrow> bridged K d = Some d"
  by (simp add: bridged_def)

lemma installsI:
  assumes "rule_for K sic devs sic'"
    and "r = map_option (fold cm_dev_put ds) (cm_create_rule E V is_v4 al j sic' (fold cm_dev_hold (rev ds) s))"
  shows "installs E K V is_v4 al j sic (Some devs) s r"
  unfolding installs_def using assms by auto

lemma install_between_conv:
  "installs E K V is_v4 al j sic (do { src \<leftarrow> bridged K d1; dest \<leftarrow> bridged K d4; Some (src, dest) }) s
     (cm_install_between E K V is_v4 al j d1 d4 sic (cm_dev_hold d4 (cm_dev_hold d1 s)))"
proof (cases "bridged K d1 = None \<or> bridged K d4 = None")
  case True
  then show ?thesis
    by (auto simp: installs_def cm_install_between_def bridge_of_conv Let_def refs_commute
        intro: exI [of _ CM_NO_BRIDGE] split: option.splits)
next
  case False
  then obtain a b where a: "bridged K d1 = Some a" and b: "bridged K d4 = Some b" by auto
  let ?sic = "sic\<lparr>sic_src_dev := a, sic_dest_dev := b, sic_src_mtu := dev_mtu K a, sic_dest_mtu := dev_mtu K b\<rparr>"
  let ?br = "\<lambda>d b. if dev_is_bridge_port K d then [b] else []"
  have "rule_for K sic (a, b) ?sic" by (simp add: rule_for_def sic_key_def sic_nat_def)
  moreover have "cm_install_between E K V is_v4 al j d1 d4 sic (cm_dev_hold d4 (cm_dev_hold d1 s)) =
      map_option (fold cm_dev_put (?br d4 b @ ?br d1 a @ [d4, d1]))
        (cm_create_rule E V is_v4 al j ?sic (fold cm_dev_hold (rev (?br d4 b @ ?br d1 a @ [d4, d1])) s))"
    using a b not_bridged [of K d1] not_bridged [of K d4]
    by (simp add: cm_install_between_def bridge_of_conv Let_def map_conv_bind_option comp_def)
  ultimately have "installs E K V is_v4 al j sic (Some (a, b)) s
      (cm_install_between E K V is_v4 al j d1 d4 sic (cm_dev_hold d4 (cm_dev_hold d1 s)))"
    by (rule installsI)
  then show ?thesis by (simp add: a b)
qed

lemma install_conv:
  assumes fit: "\<forall>d. dev_addr_len K d \<le> ETH_ALEN"
  shows "installs E K V is_v4 al j sic
    (resolve K is_v4 p (sic_src_ip sic, sic_dest_ip sic) (sic_src_ip_xlate sic, sic_dest_ip_xlate sic)) s
    (cm_install E K V is_v4 al j p sic s)"
proof -
  note conv = find_dev_conv [OF fit]
  have none: "installs E K V is_v4 al j sic None s (Some (sfe_cm_incr_exceptions e s))" for e
    by (auto simp: installs_def)
  have upd: "installs E K V is_v4 al j sic f s r"
    if "installs E K V is_v4 al j (sic\<lparr>sic_src_mac := m1, sic_src_mac_xlate := m2, sic_dest_mac := m3,
          sic_dest_mac_xlate := m4\<rparr>) f s r" for m1 m2 m3 m4 f r
  proof -
    have "rule_for K (sic\<lparr>sic_src_mac := m1, sic_src_mac_xlate := m2, sic_dest_mac := m3,
        sic_dest_mac_xlate := m4\<rparr>) = rule_for K sic"
      by (intro ext) (simp add: rule_for_def sic_key_def sic_nat_def)
    then show ?thesis using that by (auto simp: installs_def split: option.splits)
  qed
  note defs = cm_install_def resolve_def conv none refs_commute Let_def
  consider "neighbour K None (sic_src_ip sic) is_v4 = None"
    | d n where "neighbour K None (sic_src_ip sic) is_v4 = Some (d, n)"
      "neighbour K None (sic_src_ip_xlate sic) is_v4 = None"
    | d n d' n' where "neighbour K None (sic_src_ip sic) is_v4 = Some (d, n)"
      "neighbour K None (sic_src_ip_xlate sic) is_v4 = Some (d', n')"
      "neighbour K (if is_v4 then None else Some (pkt_dst p)) (sic_dest_ip sic) is_v4 = None"
    | d n d' n' e m where "neighbour K None (sic_src_ip sic) is_v4 = Some (d, n)"
      "neighbour K None (sic_src_ip_xlate sic) is_v4 = Some (d', n')"
      "neighbour K (if is_v4 then None else Some (pkt_dst p)) (sic_dest_ip sic) is_v4 = Some (e, m)"
      "neighbour K (Some (pkt_dst p)) (sic_dest_ip_xlate sic) is_v4 = None"
    | d n d' n' e m e' m' where "neighbour K None (sic_src_ip sic) is_v4 = Some (d, n)"
      "neighbour K None (sic_src_ip_xlate sic) is_v4 = Some (d', n')"
      "neighbour K (if is_v4 then None else Some (pkt_dst p)) (sic_dest_ip sic) is_v4 = Some (e, m)"
      "neighbour K (Some (pkt_dst p)) (sic_dest_ip_xlate sic) is_v4 = Some (e', m')"
    by (metis not_Some_eq surj_pair)
  then show ?thesis
  proof cases
    case 5
    have "installs E K V is_v4 al j sic (do { src \<leftarrow> bridged K d; dest \<leftarrow> bridged K e'; Some (src, dest) }) s
        (cm_install_between E K V is_v4 al j d e' (sic\<lparr>sic_src_mac := m1, sic_src_mac_xlate := m2,
          sic_dest_mac := m3, sic_dest_mac_xlate := m4\<rparr>) (cm_dev_hold e' (cm_dev_hold d s)))" for m1 m2 m3 m4
      by (rule upd [OF install_between_conv])
    then show ?thesis using 5 by (simp add: defs)
  qed (simp_all add: defs)
qed

section \<open>The hook as a whole\<close>

lemma rep_holds:
  "cm_rep E v6_inv base D s G F \<Longrightarrow>
     cm_rep E v6_inv (\<lambda>d. base d + int (count_list ds d)) D (fold cm_dev_hold ds s) G F"
proof (induction ds arbitrary: base s)
  case (Cons x ds)
  have "(\<lambda>d. base d + int (count_list (x # ds) d)) = (\<lambda>d. (base(x := base x + 1)) d + int (count_list ds d))"
    by auto
  with Cons.IH [OF cm_rep_hold [OF Cons.prems, of x]] show ?case by simp
qed simp

lemma rep_puts:
  "cm_rep E v6_inv (\<lambda>d. base d + int (count_list ds d)) D s G F \<Longrightarrow>
     cm_rep E v6_inv base D (fold cm_dev_put ds s) G F"
proof (induction ds arbitrary: s)
  case (Cons x ds)
  have "(\<lambda>d. base d + int (count_list (x # ds) d))(x := base x + int (count_list (x # ds) x) - 1) =
      (\<lambda>d. base d + int (count_list ds d))" by auto
  with cm_rep_put [OF Cons.prems, of x] Cons.IH show ?case by simp
qed simp

lemma fold_refs_frame [simp]:
  "neigh_refs (fold cm_dev_hold ds s) = neigh_refs s" "neigh_refs (fold cm_dev_put ds s) = neigh_refs s"
  "dst_refs (fold cm_dev_hold ds s) = dst_refs s" "dst_refs (fold cm_dev_put ds s) = dst_refs s"
  "cts (fold cm_dev_hold ds s) = cts s" "cts (fold cm_dev_put ds s) = cts s"
  "ct_refs (fold cm_dev_hold ds s) = ct_refs s" "ct_refs (fold cm_dev_put ds s) = ct_refs s"
  "conns (cm_v4 (fold cm_dev_put ds s)) = conns (cm_v4 s)"
  "alloc_fresh al (cm_v4 (fold cm_dev_hold ds s)) = alloc_fresh al (cm_v4 s)"
  by (induction ds arbitrary: s) simp_all

text \<open>What the hook leaves of the state of the connection tracking and the routing.\<close>

definition same_refs :: "'v sfe_cm \<Rightarrow> 'v sfe_cm \<Rightarrow> bool" where
  "same_refs s t \<longleftrightarrow> neigh_refs t = neigh_refs s \<and> dst_refs t = dst_refs s \<and> cts t = cts s \<and> ct_refs t = ct_refs s"

lemma create_v4_rep:
  assumes R: "cm_rep E v6_inv base D s G F" and fresh: "alloc_fresh al (cm_v4 s)"
  obtains t where "cm_create_rule E V True al j sic s = Some t" and "same_refs s t"
    and "cm_rep E v6_inv base D t (flow_create E sic al G) F"
proof -
  obtain A own where I: "engine_inv E (\<lambda>d. base d + own d) (cm_v4 s) A D" and G: "flow_map (cm_v4 s) A = G"
    and v: "v6_inv own (cm_v6 s) F" using R by (auto simp: cm_rep_def)
  obtain u B where c: "sfe_ipv4_create_rule E sic al j (cm_v4 s) = Some (create_outcome E sic al (dom (flow_map (cm_v4 s) A)), u)"
    and B: "engine_inv E (\<lambda>d. base d + own d) u B D" and G': "flow_map u B = flow_create E sic al (flow_map (cm_v4 s) A)"
    by (rule create_flow_map [OF I fresh, where sic = sic and j = j])
  have "cm_create_rule E V True al j sic s = Some (s\<lparr>cm_v4 := u\<rparr>)"
    by (simp add: cm_create_rule_def c)
  moreover have "same_refs s (s\<lparr>cm_v4 := u\<rparr>)" by (simp add: same_refs_def)
  moreover have "cm_rep E v6_inv base D (s\<lparr>cm_v4 := u\<rparr>) (flow_create E sic al G) F"
    using B G' v unfolding cm_rep_def G by (intro exI [of _ B] exI [of _ own]) simp
  ultimately show thesis by (rule that)
qed

lemma flow_create_mono: "M \<subseteq>\<^sub>m flow_create E sic al M"
  by (auto simp: flow_create_def create_outcome_def map_le_def split: if_splits)

context ipv6_engine begin

lemma create_v6_rep:
  assumes "cm_rep E v6_inv base D s G F"
  obtains t F' where "cm_create_rule E V False al j sic s = Some t" and "cm_rep E v6_inv base D t G F'"
    and "F \<subseteq> F'" and "same_refs s t"
proof -
  obtain F' own' where "cm_rep E v6_inv base D (v6_apply (ipv6_create_rule V sic) s) G F'" and "F \<subseteq> F'"
    by (rule v6_apply_rep [OF assms, where f = "ipv6_create_rule V sic" and Q = "\<lambda>_ F'. F \<subseteq> F'"])
      (use v6_create in blast)+
  then show thesis by (intro that [of "v6_apply (ipv6_create_rule V sic) s" F'])
    (simp_all add: v6_ops_conv same_refs_def)
qed

text \<open>Whatever the packet, the hook ends and keeps only the references of the rules it installs.\<close>

theorem post_routing_rep:
  assumes R: "cm_rep E v6_inv base D s G F" and fit: "\<forall>d. dev_addr_len K d \<le> ETH_ALEN"
    and fresh: "is_v4 \<Longrightarrow> alloc_fresh al (cm_v4 s)"
  obtains t G' F' where "sfe_cm_post_routing E K V is_v4 al j junk p s = Some t"
    and "cm_rep E v6_inv base D t G' F'" and "same_refs s t" and "G \<subseteq>\<^sub>m G'" and "F \<subseteq> F'"
proof (cases "cm_describe E K is_v4 p (cts s) junk")
  case (Inl e)
  then show thesis using that [of _ G F] R
    by (cases e) (auto simp: sfe_cm_post_routing_def same_refs_def sfe_cm_incr_exceptions_def cm_rep_def)
next
  case (Inr sic)
  have run: "sfe_cm_post_routing E K V is_v4 al j junk p s = cm_install E K V is_v4 al j p sic s"
    by (simp add: sfe_cm_post_routing_def Inr)
  note inst = install_conv [OF fit, of E V is_v4 al j sic p s]
  show thesis
  proof (cases "resolve K is_v4 p (sic_src_ip sic, sic_dest_ip sic) (sic_src_ip_xlate sic, sic_dest_ip_xlate sic)")
    case None
    then obtain e where "cm_install E K V is_v4 al j p sic s = Some (sfe_cm_incr_exceptions e s)"
      using inst by (auto simp: installs_def)
    then show thesis using that [of _ G F] R run
      by (simp add: same_refs_def) (simp add: sfe_cm_incr_exceptions_def)
  next
    case (Some devs)
    then obtain sic' ds where i: "cm_install E K V is_v4 al j p sic s =
        map_option (fold cm_dev_put ds) (cm_create_rule E V is_v4 al j sic' (fold cm_dev_hold (rev ds) s))"
      using inst by (auto simp: installs_def)
    have R': "cm_rep E v6_inv (\<lambda>d. base d + int (count_list ds d)) D (fold cm_dev_hold (rev ds) s) G F"
      using rep_holds [OF R, of "rev ds"] by simp
    obtain u G' F' where u: "cm_create_rule E V is_v4 al j sic' (fold cm_dev_hold (rev ds) s) = Some u"
      and rep: "cm_rep E v6_inv (\<lambda>d. base d + int (count_list ds d)) D u G' F'"
      and sub: "G \<subseteq>\<^sub>m G'" "F \<subseteq> F'" and sr: "same_refs (fold cm_dev_hold (rev ds) s) u"
    proof (cases is_v4)
      case True
      show ?thesis
        by (rule create_v4_rep [OF R', where al = al and j = j and sic = sic' and V = V])
          (use fresh True that [where G' = "flow_create E sic' al G"] flow_create_mono in auto)
    next
      case False
      show ?thesis
        by (rule create_v6_rep [OF R', where al = al and j = j and sic = sic'])
          (use False that in auto)
    qed
    have "sfe_cm_post_routing E K V is_v4 al j junk p s = Some (fold cm_dev_put ds u)"
      by (simp add: run i u)
    moreover have "same_refs s (fold cm_dev_put ds u)" using sr by (simp add: same_refs_def)
    ultimately show thesis using that rep_puts [OF rep] sub by blast
  qed
qed

end

section \<open>The flows the hook adds\<close>

text \<open>The flow that a packet lets the engine learn, as the kernel's tables describe it.\<close>

definition flow_devices :: "cm_kernel \<Rightarrow> cm_packet \<Rightarrow> nf_conn \<Rightarrow> (netdev \<times> netdev) option" where
  "flow_devices K p ct = resolve K True p (tup_src_ip (ct_orig ct), tup_dst_ip (ct_orig ct))
     (tup_dst_ip (ct_reply ct), tup_src_ip (ct_reply ct))"

definition accelerated ::
  "sfe_env \<Rightarrow> cm_kernel \<Rightarrow> cm_packet \<Rightarrow> allocation \<Rightarrow> (ct_ptr \<Rightarrow> nf_conn) \<Rightarrow> (nf_conn \<times> (netdev \<times> netdev)) option" where
  "accelerated E K p al ctab = do {
     c \<leftarrow> pkt_ct p;
     devs \<leftarrow> flow_devices K p (ctab c);
     (if eligible_packet E K p (ctab c) \<and> eligible_flow E K True p (ctab c) \<and>
         nd_registered (netdev E (fst devs)) \<and> nd_registered (netdev E (snd devs)) \<and>
         al_conn al \<noteq> None \<and> al_original al \<noteq> None \<and> al_reply al \<noteq> None
      then Some (ctab c, devs) else None)
   }"

text \<open>The flow is keyed by the original tuple and translated as the reply tuple says.\<close>

definition learn ::
  "(nf_conn \<times> (netdev \<times> netdev)) option \<Rightarrow> (conn_key \<Rightarrow> flow_info option) \<Rightarrow> conn_key \<Rightarrow> flow_info option" where
  "learn new M = (case new of
     None \<Rightarrow> M
   | Some (ct, devs) \<Rightarrow> if M (tuple_key (ct_orig ct)) \<noteq> None then M
       else M(tuple_key (ct_orig ct) \<mapsto> (tuple_nat (ct_reply ct), devs)))"

lemma neighbour_ip:
  assumes "cm_kernel_ok K" and "ip a = ip b"
  shows "neighbour K r a True = neighbour K r b True"
proof -
  have "dst_neigh_lookup K d a = dst_neigh_lookup K d b" for d
    using assms unfolding cm_kernel_ok_def by blast
  then show ?thesis by (cases r) (simp_all add: neighbour_def assms(2))
qed

lemma resolve_flow:
  assumes K: "cm_kernel_ok K" and key: "sic_key sic = tuple_key (ct_orig ct)"
    and nat: "sic_nat sic = tuple_nat (ct_reply ct)"
  shows "resolve K True p (sic_src_ip sic, sic_dest_ip sic) (sic_src_ip_xlate sic, sic_dest_ip_xlate sic)
    = flow_devices K p ct"
proof -
  have "ip (sic_src_ip sic) = ip (tup_src_ip (ct_orig ct))" "ip (sic_dest_ip sic) = ip (tup_dst_ip (ct_orig ct))"
    "ip (sic_src_ip_xlate sic) = ip (tup_dst_ip (ct_reply ct))" "ip (sic_dest_ip_xlate sic) = ip (tup_src_ip (ct_reply ct))"
    using key nat by (simp_all add: sic_key_def sic_nat_def tuple_key_def tuple_nat_def)
  note eqs = this [THEN neighbour_ip [OF K]]
  show ?thesis unfolding resolve_def flow_devices_def fst_conv snd_conv eqs ..
qed

lemma rep_sandwich:
  assumes R: "cm_rep E v6_inv base D s G F" and fresh: "alloc_fresh al (cm_v4 s)"
  obtains u where "map_option (fold cm_dev_put ds)
      (cm_create_rule E V True al j sic (fold cm_dev_hold (rev ds) s)) = Some u" and "same_refs s u"
    and "cm_rep E v6_inv base D u (flow_create E sic al G) F"
proof -
  have R': "cm_rep E v6_inv (\<lambda>d. base d + int (count_list ds d)) D (fold cm_dev_hold (rev ds) s) G F"
    using rep_holds [OF R, of "rev ds"] by simp
  have fresh': "alloc_fresh al (cm_v4 (fold cm_dev_hold (rev ds) s))" using fresh by simp
  obtain t where c: "cm_create_rule E V True al j sic (fold cm_dev_hold (rev ds) s) = Some t"
    and sr: "same_refs (fold cm_dev_hold (rev ds) s) t"
    and rep: "cm_rep E v6_inv (\<lambda>d. base d + int (count_list ds d)) D t (flow_create E sic al G) F"
    by (rule create_v4_rep [OF R' fresh', where V = V and j = j and sic = sic]) (rule that)
  show thesis
    by (rule that [OF _ _ rep_puts [OF rep]]) (use c sr in \<open>simp_all add: same_refs_def\<close>)
qed

lemma flow_create_learn:
  assumes "rule_for K sic devs sic'" and "sic_key sic = tuple_key (ct_orig ct)"
    and "sic_nat sic = tuple_nat (ct_reply ct)"
  shows "flow_create E sic' al M = learn (if nd_registered (netdev E (fst devs)) \<and> nd_registered (netdev E (snd devs)) \<and>
      al_conn al \<noteq> None \<and> al_original al \<noteq> None \<and> al_reply al \<noteq> None then Some (ct, devs) else None) M"
proof -
  have "sic_key sic' = tuple_key (ct_orig ct)" "sic_info sic' = (tuple_nat (ct_reply ct), devs)"
    "sic_src_dev sic' = fst devs" "sic_dest_dev sic' = snd devs"
    using assms by (simp_all add: rule_for_def sic_info_def)
  then show ?thesis
    by (auto simp: flow_create_def learn_def create_outcome_def devs_registered_def dom_def)
qed

theorem post_routing_flows:
  assumes R: "cm_rep E v6_inv base D s G F" and K: "cm_kernel_ok K" and fresh: "alloc_fresh al (cm_v4 s)"
  obtains t where "sfe_cm_post_routing E K V True al j junk p s = Some t" and "same_refs s t"
    and "cm_rep E v6_inv base D t (learn (accelerated E K p al (cts s)) G) F"
proof -
  note found = that
  have fit: "\<forall>d. dev_addr_len K d \<le> ETH_ALEN" using K unfolding cm_kernel_ok_def by blast
  have idle: thesis if "sfe_cm_post_routing E K V True al j junk p s = Some t" and "t = s \<or> t = sfe_cm_incr_exceptions e s"
    and "accelerated E K p al (cts s) = None" for t e
  proof -
    have "same_refs s t" using that(2) by (auto simp: same_refs_def sfe_cm_incr_exceptions_def)
    moreover have "cm_rep E v6_inv base D t (learn (accelerated E K p al (cts s)) G) F"
      using R that(2,3) by (auto simp: learn_def)
    ultimately show thesis by (rule found [OF that(1)])
  qed
  show thesis
  proof (cases "cm_describe E K True p (cts s) junk")
    case (Inl e)
    have "accelerated E K p al (cts s) = None"
      using describe_Inl [OF Inl] by (auto simp: accelerated_def split: bind_splits)
    then show thesis
      by (intro idle [of "case e of None \<Rightarrow> s | Some e \<Rightarrow> sfe_cm_incr_exceptions e s" "the e"])
        (simp_all add: sfe_cm_post_routing_def Inl split: option.split)
  next
    case (Inr sic)
    then obtain c where c: "pkt_ct p = Some c" "eligible_packet E K p (cts s c)" "eligible_flow E K True p (cts s c)"
      and key: "sic_key sic = tuple_key (ct_orig (cts s c))" and tr: "sic_nat sic = tuple_nat (ct_reply (cts s c))"
      by (rule describe_Inr)
    have run: "sfe_cm_post_routing E K V True al j junk p s = cm_install E K V True al j p sic s"
      by (simp add: sfe_cm_post_routing_def Inr)
    note inst = install_conv [OF fit, of E V True al j sic p s, unfolded resolve_flow [OF K key tr]]
    show thesis
    proof (cases "flow_devices K p (cts s c)")
      case None
      then obtain e where "cm_install E K V True al j p sic s = Some (sfe_cm_incr_exceptions e s)"
        using inst by (auto simp: installs_def)
      with None c run show thesis
        by (intro idle [of "sfe_cm_incr_exceptions e s" e]) (simp_all add: accelerated_def)
    next
      case (Some devs)
      then obtain sic' ds where rf: "rule_for K sic devs sic'" and i: "cm_install E K V True al j p sic s =
          map_option (fold cm_dev_put ds) (cm_create_rule E V True al j sic' (fold cm_dev_hold (rev ds) s))"
        using inst by (auto simp: installs_def)
      have acc: "accelerated E K p al (cts s) = (if nd_registered (netdev E (fst devs)) \<and> nd_registered (netdev E (snd devs)) \<and>
             al_conn al \<noteq> None \<and> al_original al \<noteq> None \<and> al_reply al \<noteq> None then Some (cts s c, devs) else None)"
        using c Some by (simp add: accelerated_def)
      obtain u where u: "map_option (fold cm_dev_put ds)
            (cm_create_rule E V True al j sic' (fold cm_dev_hold (rev ds) s)) = Some u" "same_refs s u"
        and rep: "cm_rep E v6_inv base D u (flow_create E sic' al G) F"
        by (rule rep_sandwich [OF R fresh, where V = V and j = j and sic = sic' and ds = ds]) (rule that)
      show thesis
        using u rep run i by (intro that [of u]) (simp_all add: acc flow_create_learn [OF rf key tr])
    qed
  qed
qed

end
