(* ===== verification/Sfe_Cm_Events.thy ===== *)
theory Sfe_Cm_Events
  imports Sfe_Cm_Post
begin

text \<open>
  What the other entry points of the connection manager do to the flows: arriving packets, the end
  of tracked connections, devices that go down, and reports of the engine.
\<close>

section \<open>Connections that end\<close>

definition forget ::
  "nf_tuple \<Rightarrow> (conn_key \<Rightarrow> flow_info option) \<Rightarrow> conn_key \<Rightarrow> flow_info option" where
  "forget t M =
     (if (ucast (tup_protonum t) = IPPROTO_TCP \<or> ucast (tup_protonum t) = IPPROTO_UDP) \<and> tup_l3num t = AF_INET
      then M(tuple_key t := None) else M)"

definition ended :: "bool \<Rightarrow> ct_ptr option \<Rightarrow> (ct_ptr \<Rightarrow> nf_conn) \<Rightarrow> nf_tuple option" where
  "ended is_destroy ct ctab = (if is_destroy then map_option (\<lambda>c. ct_orig (ctab c)) ct else None)"

definition forget_ended ::
  "nf_tuple option \<Rightarrow> (conn_key \<Rightarrow> flow_info option) \<Rightarrow> conn_key \<Rightarrow> flow_info option" where
  "forget_ended t M = (case t of None \<Rightarrow> M | Some t \<Rightarrow> forget t M)"

lemma destroy_v4_rep:
  assumes R: "cm_rep E v6_inv base D s M F"
  obtains t where "sfe_ipv4_destroy_rule E sid sis now (cm_v4 s) = Some t"
    and "cm_rep E v6_inv base D (s\<lparr>cm_v4 := t\<rparr>) (M(sid_key sid := None)) F"
proof -
  obtain A own where I: "engine_inv E (\<lambda>d. base d + own d) (cm_v4 s) A D" and M: "flow_map (cm_v4 s) A = M"
    and v: "v6_inv own (cm_v6 s) F" using R by (auto simp: cm_rep_def)
  obtain t B where t: "sfe_ipv4_destroy_rule E sid sis now (cm_v4 s) = Some t"
    and B: "engine_inv E (\<lambda>d. base d + own d) t B D" "flow_map t B = (flow_map (cm_v4 s) A)(sid_key sid := None)"
    by (rule destroy_flow_map [OF I, where sid = sid and sis = sis and now = now])
  have "cm_rep E v6_inv base D (s\<lparr>cm_v4 := t\<rparr>) (M(sid_key sid := None)) F"
    using B v unfolding cm_rep_def by (intro exI [of _ B] exI [of _ own]) (simp add: M)
  with t show thesis by (rule that)
qed

lemma destroy_all_v4_rep:
  assumes R: "cm_rep E v6_inv base D s M F"
  obtains t where "cm_destroy_v4 E dev sis now s = Some t" and "same_refs s t" and "cm_v6 t = cm_v6 s"
    and "cm_rep E v6_inv base D t (without_dev dev M) F"
proof -
  obtain A own where I: "engine_inv E (\<lambda>d. base d + own d) (cm_v4 s) A D" and M: "flow_map (cm_v4 s) A = M"
    and v: "v6_inv own (cm_v6 s) F" using R by (auto simp: cm_rep_def)
  obtain t B where t: "sfe_ipv4_destroy_all_rules_for_dev E dev sis now 0 (cm_v4 s) = Some t"
    and B: "engine_inv E (\<lambda>d. base d + own d) t B D" "flow_map t B = without_dev dev (flow_map (cm_v4 s) A)"
    by (rule destroy_all_flow_map [OF I, where dev = dev and sis = sis and now = now and n = 0])
  have "cm_rep E v6_inv base D (s\<lparr>cm_v4 := t\<rparr>) (without_dev dev M) F"
    using B v unfolding cm_rep_def by (intro exI [of _ B] exI [of _ own]) (simp add: M)
  moreover have "cm_destroy_v4 E dev sis now s = Some (s\<lparr>cm_v4 := t\<rparr>)" by (simp add: cm_destroy_v4_def t)
  ultimately show thesis by (intro that) (simp_all add: same_refs_def)
qed

lemma same_refs_refl [simp]: "same_refs s s"
  by (simp add: same_refs_def)

lemma same_refs_trans: "same_refs s t \<Longrightarrow> same_refs t u \<Longrightarrow> same_refs s u"
  by (simp add: same_refs_def)

lemma same_refs_v6 [simp]: "same_refs s (v6_apply f s)"
  by (simp add: same_refs_def)

context ipv6_engine begin

lemma destroy_v6_rep:
  assumes R: "cm_rep E v6_inv base D s M F"
  obtains F' where "cm_rep E v6_inv base D (cm_destroy_v6 V dev s) M F'" and "F' \<subseteq> F" and "dev = None \<Longrightarrow> F' = {}"
proof -
  let ?Q = "\<lambda>F'. F' \<subseteq> F \<and> (dev = None \<longrightarrow> F' = {})"
  have law: "\<exists>own' v' F'. v6_inv own' v' F' \<and> ?Q F' \<and>
      ipv6_destroy_all V dev (\<lambda>d. base d + own d, cm_v6 s) = (\<lambda>d. base d + own' d, v')"
    if v: "v6_inv own (cm_v6 s) F" for base own
  proof -
    obtain own' v' F' where "v6_inv own' v' F'" "F' \<subseteq> F" "dev = None \<longrightarrow> F' = {} \<and> own' = (\<lambda>_. 0)"
      "ipv6_destroy_all V dev (\<lambda>d. base d + own d, cm_v6 s) = (\<lambda>d. base d + own' d, v')"
      using v6_destroy_all [OF v, of dev base] by blast
    then show ?thesis by (intro exI [of _ own'] exI [of _ v'] exI [of _ F']) simp
  qed
  obtain F' own' where "cm_rep E v6_inv base D (v6_apply (ipv6_destroy_all V dev) s) M F'" and "?Q F'"
    by (rule v6_apply_rep [OF R, where f = "ipv6_destroy_all V dev" and Q = "\<lambda>_. ?Q"]) (rule law | rule that)+
  then show thesis by (intro that [of F']) (simp_all add: v6_ops_conv)
qed

theorem conntrack_event_rep:
  assumes R: "cm_rep E v6_inv base D s M F"
  obtains t F' where "sfe_cm_conntrack_event E V junk sis now is_destroy ct s = Some t" and "same_refs s t"
    and "cm_rep E v6_inv base D t (forget_ended (ended is_destroy ct (cts s)) M) F'" and "F' \<subseteq> F"
proof (cases "ended is_destroy ct (cts s)")
  case None
  then have "sfe_cm_conntrack_event E V junk sis now is_destroy ct s = Some s"
    by (auto simp: ended_def sfe_cm_conntrack_event_def split: option.splits if_splits)
  with R None show thesis by (intro that [of s F]) (simp_all add: forget_ended_def)
next
  case (Some o')
  then obtain c where d: "is_destroy" "ct = Some c" and o': "o' = ct_orig (cts s c)"
    by (auto simp: ended_def split: if_splits)
  show thesis
  proof (cases "sid_of_tuple junk o'")
    case None
    then have "forget o' M = M" by (auto simp: forget_def sid_of_tuple_def Let_def split: if_splits)
    moreover have "sfe_cm_conntrack_event E V junk sis now is_destroy ct s = Some s"
      using d None by (simp add: sfe_cm_conntrack_event_def Let_def o')
    ultimately show thesis using that [of s F] R Some by (simp add: forget_ended_def)
  next
    case sid: (Some sid)
    let ?sid4 = "sid\<lparr>sid_src_ip := (sid_src_ip sid)\<lparr>addr0 := ip (tup_src_ip o')\<rparr>,
      sid_dest_ip := (sid_dest_ip sid)\<lparr>addr0 := ip (tup_dst_ip o')\<rparr>\<rparr>"
    have key: "sid_key ?sid4 = tuple_key o'"
      and pr: "ucast (tup_protonum o') = IPPROTO_TCP \<or> ucast (tup_protonum o') = IPPROTO_UDP"
      using sid by (auto simp: sid_of_tuple_def sid_key_def tuple_key_def Let_def split: if_splits)
    consider (v4) "tup_l3num o' = AF_INET" | (v6) "tup_l3num o' = AF_INET6" | (other) "tup_l3num o' \<noteq> AF_INET" "tup_l3num o' \<noteq> AF_INET6"
      by blast
    then show thesis
    proof cases
      case v4
      obtain t where t: "sfe_ipv4_destroy_rule E ?sid4 sis now (cm_v4 s) = Some t"
        and rep: "cm_rep E v6_inv base D (s\<lparr>cm_v4 := t\<rparr>) (M(sid_key ?sid4 := None)) F"
        by (rule destroy_v4_rep [OF R])
      have "sfe_cm_conntrack_event E V junk sis now is_destroy ct s = Some (s\<lparr>cm_v4 := t\<rparr>)"
        using d sid v4 t by (simp add: sfe_cm_conntrack_event_def Let_def o')
      moreover have "forget o' M = M(sid_key ?sid4 := None)" using pr v4 key by (simp add: forget_def)
      ultimately show thesis using that [of "s\<lparr>cm_v4 := t\<rparr>" F] rep Some by (simp add: forget_ended_def same_refs_def)
    next
      case v6
      let ?sid6 = "sid\<lparr>sid_src_ip := tup_src_ip o', sid_dest_ip := tup_dst_ip o'\<rparr>"
      obtain F' own' where rep: "cm_rep E v6_inv base D (v6_apply (ipv6_destroy_rule V ?sid6) s) M F'" and sub: "F' \<subseteq> F"
        by (rule v6_apply_rep [OF R, where f = "ipv6_destroy_rule V ?sid6" and Q = "\<lambda>_ F'. F' \<subseteq> F"])
          (use v6_destroy in blast)+
      have ne: "AF_INET6 \<noteq> AF_INET" by (simp add: AF_INET_def AF_INET6_def)
      have "sfe_cm_conntrack_event E V junk sis now is_destroy ct s = Some (v6_apply (ipv6_destroy_rule V ?sid6) s)"
        using d sid v6 ne by (simp add: sfe_cm_conntrack_event_def v6_apply_def Let_def o' split: prod.split)
      moreover have "forget o' M = M" using v6 ne by (simp add: forget_def)
      ultimately show thesis using that [OF _ _ _ sub] rep Some by (simp add: forget_ended_def)
    next
      case other
      have "sfe_cm_conntrack_event E V junk sis now is_destroy ct s = Some s"
        using d sid other by (simp add: sfe_cm_conntrack_event_def Let_def o')
      moreover have "forget o' M = M" using other by (simp add: forget_def)
      ultimately show thesis using that [of s F] R Some by (simp add: forget_ended_def)
    qed
  qed
qed

section \<open>Devices, addresses and the end of the module\<close>

theorem device_event_rep:
  assumes R: "cm_rep E v6_inv base D s M F"
  obtains t F' where "sfe_cm_device_event E V sis now event dev s = Some t" and "same_refs s t" and "F' \<subseteq> F"
    and "cm_rep E v6_inv base D t (if event = NETDEV_DOWN \<and> dev \<noteq> None then without_dev dev M else M) F'"
proof (cases "event = NETDEV_DOWN \<and> dev \<noteq> None")
  case True
  then obtain d where d: "dev = Some d" by auto
  obtain t where t: "cm_destroy_v4 E (Some d) sis now s = Some t" "same_refs s t"
    and rep: "cm_rep E v6_inv base D t (without_dev (Some d) M) F"
    by (rule destroy_all_v4_rep [OF R, where dev = "Some d" and sis = sis and now = now])
  obtain F' where "cm_rep E v6_inv base D (cm_destroy_v6 V (Some d) t) (without_dev (Some d) M) F'" "F' \<subseteq> F"
    by (rule destroy_v6_rep [OF rep, where dev = "Some d"])
  then show thesis using that [of "cm_destroy_v6 V (Some d) t" F'] t True d
    by (simp add: sfe_cm_device_event_def v6_ops_conv same_refs_trans [OF _ same_refs_v6])
next
  case False
  then have "sfe_cm_device_event E V sis now event dev s = Some s"
    by (auto simp: sfe_cm_device_event_def split: option.split)
  then show thesis using that [of s F] R False by auto
qed

theorem inet_event_rep:
  assumes R: "cm_rep E v6_inv base D s M F"
  obtains t where "sfe_cm_inet_event E sis now event dev s = Some t" and "same_refs s t"
    and "cm_rep E v6_inv base D t (if event = NETDEV_DOWN \<and> dev \<noteq> None then without_dev dev M else M) F"
proof (cases "event = NETDEV_DOWN \<and> dev \<noteq> None")
  case True
  then obtain d where d: "dev = Some d" by auto
  obtain t where "cm_destroy_v4 E (Some d) sis now s = Some t" "same_refs s t"
    "cm_rep E v6_inv base D t (without_dev (Some d) M) F"
    by (rule destroy_all_v4_rep [OF R, where dev = "Some d" and sis = sis and now = now])
  then show thesis using that [of t] True d by (simp add: sfe_cm_inet_event_def)
next
  case False
  then have "sfe_cm_inet_event E sis now event dev s = Some s"
    by (auto simp: sfe_cm_inet_event_def split: option.split)
  then show thesis using that [of s] R False by auto
qed

theorem inet6_event_rep:
  assumes R: "cm_rep E v6_inv base D s M F"
  obtains F' where "cm_rep E v6_inv base D (sfe_cm_inet6_event V event dev s) M F'" and "F' \<subseteq> F"
    and "same_refs s (sfe_cm_inet6_event V event dev s)"
proof (cases "event = NETDEV_DOWN \<and> dev \<noteq> None")
  case True
  then obtain d where d: "dev = Some d" by auto
  obtain F' where "cm_rep E v6_inv base D (cm_destroy_v6 V (Some d) s) M F'" "F' \<subseteq> F"
    by (rule destroy_v6_rep [OF R, where dev = "Some d"])
  then show thesis using that [of F'] True d by (simp add: sfe_cm_inet6_event_def v6_ops_conv)
next
  case False
  then have "sfe_cm_inet6_event V event dev s = s"
    by (auto simp: sfe_cm_inet6_event_def split: option.split)
  then show thesis using that [of F] R by simp
qed

theorem quiesce_rep:
  assumes R: "cm_rep E v6_inv base D s M F"
  obtains t where "cm_exit_quiesce E V sis now (held, s) = Some (held - {ReceiveHook}, t)"
    and "cm_rep E v6_inv base D t Map.empty {}" and "same_refs s t"
proof -
  let ?s = "cm_register_callbacks V None s"
  obtain A own where I: "engine_inv E (\<lambda>d. base d + own d) (cm_v4 s) A D" and M: "flow_map (cm_v4 s) A = M"
    and v: "v6_inv own (cm_v6 s) F" using R by (auto simp: cm_rep_def)
  have "flow_map (sfe_ipv4_register_sync_rule_callback None (cm_v4 s)) A = M"
    unfolding M [symmetric] by (rule same_table_flow_map [OF same_table_callback])
  then have R': "cm_rep E v6_inv base D ?s M F"
    using register_engine [OF I] v6_register [OF v] unfolding cm_rep_def cm_register_callbacks_def
    by (intro exI [of _ A] exI [of _ own]) simp
  obtain t where t: "cm_destroy_v4 E None sis now ?s = Some t" "same_refs ?s t"
    and rep: "cm_rep E v6_inv base D t (without_dev None M) F"
    by (rule destroy_all_v4_rep [OF R', where dev = None and sis = sis and now = now])
  obtain F' where r: "cm_rep E v6_inv base D (cm_destroy_v6 V None t) (without_dev None M) F'" and F': "F' = {}"
    by (rule destroy_v6_rep [OF rep, where dev = None]) blast
  have "same_refs s ?s" by (simp add: same_refs_def cm_register_callbacks_def)
  then have "same_refs s (cm_destroy_v6 V None t)"
    using t(2) by (simp add: v6_ops_conv same_refs_def)
  then show thesis using r t(1) F'
    by (intro that [of "cm_destroy_v6 V None t"]) (simp_all add: cm_exit_quiesce_def)
qed

end

section \<open>Packets that arrive\<close>

theorem recv_v4_rep:
  assumes R: "cm_rep E v6_inv base D s M F" and proto: "ntohs E proto = ETH_P_IP"
    and r: "sfe_cm_recv E N K V proto skb sis now s = Some (out, t)"
  shows "\<exists>gone. cm_rep E v6_inv base D t (M |` (- set_option gone)) F \<and> same_refs s t \<and>
    (\<forall>pkt. out = Forwarded pkt \<longrightarrow> gone = None)"
proof (cases "dev_inet K (skb_dev skb) = Some True")
  case True
  then obtain u where u: "sfe_ipv4_recv E N (skb_dev skb) skb sis now (cm_v4 s) = Some (out, u)"
    and t: "t = s\<lparr>cm_v4 := u\<rparr>"
    using r proto by (auto simp: sfe_cm_recv_def Let_def bind_eq_Some_conv)
  obtain A own where I: "engine_inv E (\<lambda>d. base d + own d) (cm_v4 s) A D" and M: "flow_map (cm_v4 s) A = M"
    and v: "v6_inv own (cm_v6 s) F" using R by (auto simp: cm_rep_def)
  from recv_flow_map [OF I u] obtain B gone where B: "engine_inv E (\<lambda>d. base d + own d) u B D"
    "flow_map u B = M |` (- set_option gone)" "\<forall>pkt. out = Forwarded pkt \<longrightarrow> gone = None"
    unfolding M by blast
  have "cm_rep E v6_inv base D t (M |` (- set_option gone)) F"
    using B v unfolding cm_rep_def t by (intro exI [of _ B] exI [of _ own]) simp
  with B(3) show ?thesis by (intro exI [of _ gone]) (simp add: t same_refs_def)
next
  case False
  then have "t = s \<and> out = NotForwarded skb"
    using r proto by (auto simp: sfe_cm_recv_def Let_def split: option.splits bool.splits)
  then show ?thesis using R by (intro exI [of _ None]) (simp add: restrict_map_def)
qed

context ipv6_engine begin

text \<open>Of either family: a packet adds no flow, and may end one.\<close>

theorem recv_rep:
  assumes R: "cm_rep E v6_inv base D s M F" and r: "sfe_cm_recv E N K V proto skb sis now s = Some (out, t)"
  shows "\<exists>M' F'. cm_rep E v6_inv base D t M' F' \<and> M' \<subseteq>\<^sub>m M \<and> F' \<subseteq> F \<and> same_refs s t"
proof (cases "ntohs E proto = ETH_P_IP")
  case True
  from recv_v4_rep [OF R True r] obtain gone
    where "cm_rep E v6_inv base D t (M |` (- set_option gone)) F" "same_refs s t" by blast
  moreover have "M |` (- set_option gone) \<subseteq>\<^sub>m M" by (auto simp: map_le_def restrict_map_def split: if_splits)
  ultimately show ?thesis by blast
next
  case False
  show ?thesis
  proof (cases "ntohs E proto = ETH_P_IPV6 \<and> dev_inet6 K (skb_dev skb) = Some True")
    case True
    let ?f = "\<lambda>x. case ipv6_recv V (skb_dev skb) skb x of None \<Rightarrow> x | Some (out, y) \<Rightarrow> y"
    have t: "t = v6_apply ?f s"
      using r True False by (auto simp: sfe_cm_recv_def Let_def bind_eq_Some_conv v6_apply_def)
    obtain x where x: "ipv6_recv V (skb_dev skb) skb (dev_refcnt (cm_v4 s), cm_v6 s) = Some (out, x)"
      using r True False by (auto simp: sfe_cm_recv_def Let_def bind_eq_Some_conv)
    have law: "\<exists>own' v' F'. v6_inv own' v' F' \<and> F' \<subseteq> F \<and> ?f (\<lambda>d. b d + own d, cm_v6 s) = (\<lambda>d. b d + own' d, v')"
      if "v6_inv own (cm_v6 s) F" for b own
    proof (cases "ipv6_recv V (skb_dev skb) skb (\<lambda>d. b d + own d, cm_v6 s)")
      case None
      then show ?thesis using that by (intro exI [of _ own] exI [of _ "cm_v6 s"] exI [of _ F]) simp
    next
      case (Some z)
      obtain o' y where z: "z = (o', y)" by (cases z)
      from v6_recv [OF that Some [unfolded z]] show ?thesis by (auto simp: Some z)
    qed
    obtain F' own' where "cm_rep E v6_inv base D (v6_apply ?f s) M F'" and "F' \<subseteq> F"
      by (rule v6_apply_rep [OF R, where f = ?f and Q = "\<lambda>_ F'. F' \<subseteq> F"]) (rule law | rule that)+
    then show ?thesis using t by (intro exI [of _ M] exI [of _ F']) simp
  next
    case False
    then have "t = s"
      using r \<open>ntohs E proto \<noteq> ETH_P_IP\<close> by (auto simp: sfe_cm_recv_def Let_def split: option.splits bool.splits if_splits)
    then show ?thesis using R by (intro exI [of _ M] exI [of _ F]) simp
  qed
qed

end

end
