(* ===== verification/Sfe_Cm_Account.thy ===== *)
theory Sfe_Cm_Account
  imports Sfe_Cm_Events
begin

text \<open>
  Accounting across the two components: the engine counts the packets of the fast path in its
  matches and reports them; the connection manager adds each report to the connection tracking. What
  leaves the one arrives in the other.
\<close>

section \<open>The counters\<close>

datatype counter = OrigPackets | OrigBytes | ReplyPackets | ReplyBytes

fun unsynced :: "counter \<Rightarrow> sfe_ipv4 \<Rightarrow> conn_ptr \<Rightarrow> u64" where
  "unsynced OrigPackets s c = ucast (rx_packet_count (cms s (original_match (conns s c))))"
| "unsynced OrigBytes s c = ucast (rx_byte_count (cms s (original_match (conns s c))))"
| "unsynced ReplyPackets s c = ucast (rx_packet_count (cms s (reply_match (conns s c))))"
| "unsynced ReplyBytes s c = ucast (rx_byte_count (cms s (reply_match (conns s c))))"

fun reported :: "counter \<Rightarrow> sfe_connection_sync \<Rightarrow> u64" where
  "reported OrigPackets m = ucast (sis_src_new_packet_count m)"
| "reported OrigBytes m = ucast (sis_src_new_byte_count m)"
| "reported ReplyPackets m = ucast (sis_dest_new_packet_count m)"
| "reported ReplyBytes m = ucast (sis_dest_new_byte_count m)"

fun accounted :: "counter \<Rightarrow> nf_acct \<Rightarrow> u64" where
  "accounted OrigPackets a = orig_packets a"
| "accounted OrigBytes a = orig_bytes a"
| "accounted ReplyPackets a = reply_packets a"
| "accounted ReplyBytes a = reply_bytes a"

section \<open>Reports take the counts out of the engine\<close>

lemma gen_sync_takes:
  assumes g: "sfe_ipv4_gen_sync_sfe_ipv4_connection c sis reason now s = (m, t)"
    and ne: "original_match (conns s c) \<noteq> reply_match (conns s c)"
  shows "reported x m = unsynced x s c" and "unsynced x t c = 0" and "\<not> sis_is_v6 m"
    and "p \<notin> conn_matches s c \<Longrightarrow> cms t p = cms s p"
    and "original_match (conns t d) = original_match (conns s d)"
    and "reply_match (conns t d) = reply_match (conns s d)"
proof -
  show "original_match (conns t d) = original_match (conns s d)"
    and "reply_match (conns t d) = reply_match (conns s d)" for d
    using g by (auto simp: sfe_ipv4_gen_sync_sfe_ipv4_connection_def Let_def upd_conn_def
        sfe_ipv4_connection_match_update_summary_stats_def upd_cm_def)
  show "reported x m = unsynced x s c" "\<not> sis_is_v6 m"
    using g by (cases x; auto simp: sfe_ipv4_gen_sync_sfe_ipv4_connection_def Let_def)+
  show "unsynced x t c = 0" "p \<notin> conn_matches s c \<Longrightarrow> cms t p = cms s p"
    using g ne by (cases x; auto simp: sfe_ipv4_gen_sync_sfe_ipv4_connection_def Let_def conn_matches_def
        sfe_ipv4_connection_match_update_summary_stats_def upd_cm_def upd_conn_def)+
qed

text \<open>
  \<open>settled\<close>: for each connection of the list, what the reports say and what is left to report are
  together what there was to report.
\<close>

definition reported_for :: "counter \<Rightarrow> conn_key \<Rightarrow> sfe_connection_sync list \<Rightarrow> u64" where
  "reported_for x k ms = sum_list (map (\<lambda>m. if sis_key m = k then reported x m else 0) ms)"

lemma reported_for_simps [simp]:
  "reported_for x k [] = 0"
  "reported_for x k (m # ms) = (if sis_key m = k then reported x m else 0) + reported_for x k ms"
  by (simp_all add: reported_for_def)

definition settled :: "sfe_ipv4 \<Rightarrow> conn_ptr list \<Rightarrow> sfe_ipv4 \<Rightarrow> sfe_connection_sync list \<Rightarrow> bool" where
  "settled s cs t ms \<longleftrightarrow> (\<forall>m\<in>set ms. \<not> sis_is_v6 m) \<and>
     (\<forall>d\<in>set cs. \<forall>x. unsynced x t d + reported_for x (conn_key s d) ms = unsynced x s d)"

lemma settled_refl [simp]: "settled s cs s []"
  by (simp add: settled_def)

lemma settled_Cons:
  assumes "settled s cs t [m]" and "settled t cs u ms" and "conn_key t = conn_key s"
  shows "settled s cs u (m # ms)"
  unfolding settled_def
proof (intro conjI ballI allI)
  show "\<not> sis_is_v6 n" if "n \<in> set (m # ms)" for n using that assms(1,2) by (auto simp: settled_def)
  fix d x assume d: "d \<in> set cs"
  have "unsynced x t d + reported_for x (conn_key s d) [m] = unsynced x s d"
    "unsynced x u d + reported_for x (conn_key s d) ms = unsynced x t d"
    using assms d unfolding settled_def by (simp_all del: reported_for_simps)
  then show "unsynced x u d + reported_for x (conn_key s d) (m # ms) = unsynced x s d"
    by (auto simp: ac_simps split: if_splits)
qed

text \<open>One turn takes the counts of one connection and leaves all others.\<close>

lemma turn_settled:
  assumes I: "engine_inv E base s A D" and a: "actives A = cm # rest"
    and t: "sfe_ipv4_periodic_sync_turn cm cb sis now s = Some t"
  shows "\<exists>m. sync_calls t = sync_calls s @ [(cb, m)] \<and> sis_key m \<in> conn_key s ` set (connl A) \<and>
    settled s (connl A) t [m] \<and>
    (\<forall>d\<in>set (connl A). \<forall>x. unsynced x t d = (if d = cm_connection (cms s cm) then 0 else unsynced x s d))"
proof -
  note T = engine_table [OF I]
  let ?c = "cm_connection (cms s cm)"
  obtain m u where g: "sfe_ipv4_gen_sync_sfe_ipv4_connection ?c sis SFE_SYNC_REASON_STATS now
      (leave_pair cm s) = (m, u)" by fastforce
  have t': "t = call_sync_rule cb m u" using t sync_turn_conv [OF T a] g by simp
  have "cm \<in> table_matches s (connl A)" using T a by (auto simp: table_inv_def)
  then have c: "?c \<in> set (connl A)" by (rule match_owner [OF I])
  have ne: "original_match (conns s ?c) \<noteq> reply_match (conns s ?c)"
    using table_inv_conn(1) [OF T c] by (auto simp: pair_ok_def Let_def)
  note G = gen_sync_takes [OF g, unfolded leave_pair_frame, OF ne]
  have cm: "conn_matches (leave_pair cm s) d = conn_matches s d" for d by (simp add: conn_matches_def)
  have uns: "unsynced x (leave_pair cm s) d = unsynced x s d" for x d by (cases x) simp_all
  have ut: "unsynced x t d = unsynced x u d" for x d by (cases x) (simp_all add: t' call_sync_rule_def)
  have key: "sis_key m = conn_key s ?c"
    using gen_sync_message [OF g] by (simp add: sis_key_def conn_key_def Let_def)
  have other: "unsynced x u d = unsynced x s d" if d: "d \<in> set (connl A)" "d \<noteq> ?c" for d x
  proof -
    have "conn_matches s d \<inter> conn_matches s ?c = {}"
      using conn_matches_disjoint [of s d "[?c]"] table_inv_conn(1) [OF T d(1)] table_inv_conn(1) [OF T c] d(2) by simp
    then have "cms u p = cms s p" if "p \<in> conn_matches s d" for p
      using G(4) [of p] that by (auto simp: cm)
    then show ?thesis using G(5,6) by (cases x) (simp_all add: conn_matches_def)
  qed
  have eff: "unsynced x t d = (if d = ?c then 0 else unsynced x s d)" if "d \<in> set (connl A)" for d x
    using other [OF that] G(2) by (simp add: ut)
  have "unsynced x t d + reported_for x (conn_key s d) [m] = unsynced x s d" if d: "d \<in> set (connl A)" for d x
  proof -
    have "conn_key s d \<noteq> conn_key s ?c" if "d \<noteq> ?c" using I d c that by (auto simp: engine_inv_def inj_on_def)
    then show ?thesis using eff [OF d] G(1) uns by (auto simp: key)
  qed
  then have "settled s (connl A) t [m]" using G(3) by (simp add: settled_def)
  moreover have "sync_calls t = sync_calls s @ [(cb, m)]"
    using gen_sync_frame [OF g] by (simp add: t' call_sync_rule_def)
  ultimately show ?thesis using key c eff by (intro exI [of _ m]) simp
qed

lemma take_remove1: "x \<in> set (take n xs) \<Longrightarrow> x \<noteq> k \<Longrightarrow> x \<in> set (take n (remove1 k xs))"
proof (induction xs arbitrary: n)
  case (Cons y ys)
  then obtain n' where n: "n = Suc n'" by (cases n) auto
  have "x \<in> set (take n' ys) \<Longrightarrow> x \<in> set (take (Suc n') ys)" using set_take_subset_set_take [of n' "Suc n'" ys] by auto
  then show ?case using Cons.prems Cons.IH [of n'] by (auto simp: n)
qed simp

text \<open>
  A walk over \<open>q\<close> entries: every report belongs to a flow, the reports and what is left add up, and the
  connections of the first \<open>q\<close> active matches have nothing left to report.
\<close>

definition swept :: "sfe_ipv4 \<Rightarrow> sfe_abs \<Rightarrow> nat \<Rightarrow> sfe_ipv4 \<Rightarrow> bool" where
  "swept s A q t \<longleftrightarrow> (\<forall>x. \<forall>d\<in>set (connl A). unsynced x t d = unsynced x s d \<or> unsynced x t d = 0) \<and>
     (\<forall>x. \<forall>p\<in>set (take q (actives A)). unsynced x t (cm_connection (cms s p)) = 0)"

lemma swept_turn:
  assumes T: "table_inv E s A D" and a: "actives A = cm # rest" and o: "only_synced s u"
    and eff: "\<And>d x. d \<in> set (connl A) \<Longrightarrow> unsynced x u d = (if d = cm_connection (cms s cm) then 0 else unsynced x s d)"
    and w: "swept u (A\<lparr>actives := remove1 (counter_of s cm) rest\<rparr>) q t"
  shows "swept s A (Suc q) t"
proof -
  let ?c = "cm_connection (cms s cm)" and ?k = "counter_of s cm"
  have own: "cm_connection (cms u p) = cm_connection (cms s p)" for p by (rule only_synced_fields(1) [OF o])
  have A: "?c \<in> set (connl A)" "conn_matches s ?c = {cm, ?k}"
    using active_pair(3,4) [OF T, of cm] a by (simp_all add: counter_of_def)
  have "?k \<in> conn_matches s ?c" using A(2) by simp
  then have ck: "cm_connection (cms s ?k) = ?c"
    using table_inv_conn(1) [OF T A(1)] by (auto simp: pair_ok_def Let_def conn_matches_def)
  have keep: "unsynced x t d = unsynced x u d \<or> unsynced x t d = 0" if "d \<in> set (connl A)" for d x
    using w that by (simp add: swept_def)
  have c0: "unsynced x t ?c = 0" for x using keep [OF A(1), of x] eff [OF A(1)] by auto
  have "unsynced x t (cm_connection (cms s p)) = 0" if "p \<in> set (take (Suc q) (actives A))" for p x
  proof (cases "p = cm \<or> p = ?k")
    case True
    then show ?thesis using c0 ck by auto
  next
    case False
    then have "p \<in> set (take q (remove1 ?k rest))" using that a by (auto intro: take_remove1)
    then show ?thesis using w own by (simp add: swept_def)
  qed
  moreover have "unsynced x t d = unsynced x s d \<or> unsynced x t d = 0" if "d \<in> set (connl A)" for d x
    using keep [OF that, of x] eff [OF that, of x] by (auto split: if_splits)
  ultimately show ?thesis by (simp add: swept_def)
qed

lemma loop_settled:
  assumes "engine_inv E base s A D" and "sfe_ipv4_periodic_sync_loop q cb sis now s = Some t"
  shows "\<exists>ms. sync_calls t = sync_calls s @ map (Pair cb) ms \<and>
    set (map sis_key ms) \<subseteq> conn_key s ` set (connl A) \<and> settled s (connl A) t ms \<and> swept s A q t"
  using assms
proof (induction q arbitrary: s A)
  case 0
  then show ?case by (intro exI [of _ "[]"]) (simp add: swept_def)
next
  case (Suc q)
  have hd: "active_head s = hd_opt (actives A)"
    using engine_table [OF Suc.prems(1)] by (auto simp: table_inv_def lists_rep_def dest: act.trepr_hd)
  show ?case
  proof (cases "actives A")
    case Nil
    then show ?thesis using Suc.prems(2) hd by (intro exI [of _ "[]"]) (simp add: swept_def)
  next
    case (Cons cm rest)
    note T = engine_table [OF Suc.prems(1)]
    let ?B = "A\<lparr>actives := remove1 (counter_of s cm) rest\<rparr>"
    obtain u m where u: "sfe_ipv4_periodic_sync_turn cm cb sis now s = Some u" and J: "table_inv E u ?B D"
      and o: "only_synced s u"
      using sync_turn [OF T Cons, of cb sis now] by blast
    have B: "engine_inv E base u ?B D" by (rule only_synced_engine [OF Suc.prems(1) o J]) simp
    have rest: "sfe_ipv4_periodic_sync_loop q cb sis now u = Some t"
      using Suc.prems(2) hd Cons u by simp
    from turn_settled [OF Suc.prems(1) Cons u] obtain m
      where m: "sync_calls u = sync_calls s @ [(cb, m)]" "sis_key m \<in> conn_key s ` set (connl A)"
        "settled s (connl A) u [m]"
      and eff: "\<And>d x. d \<in> set (connl A) \<Longrightarrow> unsynced x u d = (if d = cm_connection (cms s cm) then 0 else unsynced x s d)"
      by blast
    have k: "conn_key u = conn_key s" using only_synced_fields(3) [OF o] by auto
    from Suc.IH [OF B rest] obtain ms where "sync_calls t = sync_calls u @ map (Pair cb) ms"
      "set (map sis_key ms) \<subseteq> conn_key s ` set (connl A)" "settled u (connl A) t ms" and w: "swept u ?B q t"
      by (auto simp: k)
    then show ?thesis using m settled_Cons [OF m(3) _ k] swept_turn [OF T Cons o eff w]
      by (intro exI [of _ "m # ms"]) auto
  qed
qed

theorem periodic_sync_settled:
  assumes I: "engine_inv E base s A D" and t: "sfe_ipv4_periodic_sync sis now s = Some t"
  shows "\<exists>B ms. engine_inv E base t B D \<and> flow_map t B = flow_map s A \<and> connl B = connl A \<and> conn_key t = conn_key s \<and>
    map snd (drop (length (sync_calls s)) (sync_calls t)) = ms \<and>
    set (map sis_key ms) \<subseteq> dom (flow_map s A) \<and> settled s (connl A) t ms \<and>
    (sync_rule_callback s \<noteq> None \<longrightarrow> swept s A (sync_quota s) t)"
proof (cases "sync_rule_callback s")
  case None
  then have "t = s" using t by (simp add: sfe_ipv4_periodic_sync_def)
  then show ?thesis using I None by (intro exI [of _ A] exI [of _ "[]"]) simp
next
  case (Some cb)
  let ?s = "sfe_ipv4_update_summary_stats s"
  have o: "only_synced s ?s" by (rule only_synced_summary)
  have ST: "same_table s ?s" by (rule same_table_summary)
  have J: "engine_inv E base ?s A D"
    by (rule same_table_engine [OF I ST]) (use o in \<open>simp add: only_synced_def\<close>)
  obtain u B where u: "sfe_ipv4_periodic_sync sis now s = Some u" "engine_inv E base u B D"
    "connl B = connl A" "conn_key u = conn_key s" "only_synced s u"
    using period_reports [OF I Some, of sis now] by blast
  have tu: "u = t" using t u(1) by simp
  have q: "sync_quota ?s = sync_quota s" by (simp add: sync_quota_def)
  have "sfe_ipv4_periodic_sync_loop (sync_quota ?s) cb sis now ?s = Some t"
    using t Some by (simp add: sfe_ipv4_periodic_sync_def Let_def)
  from loop_settled [OF J this] obtain ms where ms: "sync_calls t = sync_calls s @ map (Pair cb) ms"
    and sub: "set (map sis_key ms) \<subseteq> conn_key ?s ` set (connl A)" and st: "settled ?s (connl A) t ms"
    and sw: "swept ?s A (sync_quota s) t" by (auto simp: q)
  have k: "conn_key ?s = conn_key s" by (rule same_table_conn_key [OF ST])
  have un: "unsynced x ?s d = unsynced x s d" for x d by (cases x) simp_all
  have "settled s (connl A) t ms" using st by (simp add: settled_def k un)
  moreover have "swept s A (sync_quota s) t" using sw by (simp add: swept_def un)
  moreover have "flow_map t B = flow_map s A"
    using u(3-5) only_synced_info by (intro flow_map_same) (auto simp: tu)
  moreover have "map snd (drop (length (sync_calls s)) (sync_calls t)) = ms" by (simp add: ms comp_def)
  ultimately show ?thesis using u(2-4) sub k
    by (intro exI [of _ B] exI [of _ ms]) (simp add: tu dom_flow_map flow_keys_def)
qed

text \<open>The share of one period, a 64th of the connections and at least one, is due to be reported.\<close>

definition due_now :: "sfe_ipv4 \<Rightarrow> sfe_abs \<Rightarrow> conn_ptr \<Rightarrow> bool" where
  "due_now s A d \<longleftrightarrow> sync_rule_callback s \<noteq> None \<and> length (connl A) < 2 ^ 32 - 63 \<and>
     (\<exists>i < length (actives A). 64 * i < length (connl A) \<and> cm_connection (cms s (actives A ! i)) = d)"

lemma due_swept:
  assumes I: "engine_inv E base s A D" and d: "due_now s A d" and w: "sync_rule_callback s \<noteq> None \<longrightarrow> swept s A (sync_quota s) t"
  shows "unsynced x t d = 0"
proof -
  obtain i where i: "i < length (actives A)" "64 * i < length (connl A)" "cm_connection (cms s (actives A ! i)) = d"
    using d by (auto simp: due_now_def)
  have "num_connections s = of_nat (length (connl A))" using engine_table [OF I] by (simp add: table_inv_def)
  then have "length (connl A) \<le> 64 * sync_quota s" using d by (intro sync_quota_round) (auto simp: due_now_def)
  then have "i < sync_quota s" using i(2) by linarith
  then have "actives A ! i \<in> set (take (sync_quota s) (actives A))"
    using i(1) by (auto simp: in_set_conv_nth intro!: exI [of _ i])
  moreover have "swept s A (sync_quota s) t" using w d by (simp add: due_now_def)
  ultimately show ?thesis using i(3) by (auto simp: swept_def)
qed

section \<open>Reports put the counts into the connection tracking\<close>

definition key_tuple :: "conn_key \<Rightarrow> nf_tuple" where
  "key_tuple k = (case k of (pr, si, sp, di, dp) \<Rightarrow>
     \<lparr>tup_src_ip = v4_addr si, tup_src_port = sp, tup_dst_ip = v4_addr di, tup_dst_port = dp,
      tup_protonum = ucast pr, tup_l3num = AF_INET\<rparr>)"

lemma sync_tuple_v4: "\<not> sis_is_v6 m \<Longrightarrow> sync_tuple m = key_tuple (sis_key m)"
  by (simp add: sync_tuple_def key_tuple_def sis_key_def v4_addr_def zero_ip_addr_def)

definition cm_deliver :: "cm_kernel \<Rightarrow> u64 \<Rightarrow> sfe_connection_sync list \<Rightarrow> 'v sfe_cm \<Rightarrow> 'v sfe_cm" where
  "cm_deliver K jiffies ms s = fold (sfe_cm_sync_rule K jiffies) ms s"

lemma cm_deliver_simps [simp]:
  "cm_deliver K j [] s = s"
  "cm_deliver K j (m # ms) s = cm_deliver K j ms (sfe_cm_sync_rule K j m s)"
  by (simp_all add: cm_deliver_def)

text \<open>What a report leaves alone: engines, references, and the tuples of each entry.\<close>

lemma sync_rule_frame [simp]:
  "cm_v4 (sfe_cm_sync_rule K j m s) = cm_v4 s" "cm_v6 (sfe_cm_sync_rule K j m s) = cm_v6 s"
  "neigh_refs (sfe_cm_sync_rule K j m s) = neigh_refs s" "dst_refs (sfe_cm_sync_rule K j m s) = dst_refs s"
  "ct_refs (sfe_cm_sync_rule K j m s) = ct_refs s" "cm_exceptions (sfe_cm_sync_rule K j m s) = cm_exceptions s"
  by (simp_all add: sfe_cm_sync_rule_def nf_ct_get_ref_def nf_ct_put_def Let_def split: option.split)

lemma sync_rule_cts:
  "cts (sfe_cm_sync_rule K j m s) c =
     (if nf_conntrack_find_get K (sync_tuple m) = Some c then sync_conn K j m c (cts s c) else cts s c)"
  by (simp add: sfe_cm_sync_rule_def nf_ct_get_ref_def nf_ct_put_def Let_def split: option.split)

lemma deliver_frame [simp]:
  "cm_v4 (cm_deliver K j ms s) = cm_v4 s" "cm_v6 (cm_deliver K j ms s) = cm_v6 s"
  "neigh_refs (cm_deliver K j ms s) = neigh_refs s" "dst_refs (cm_deliver K j ms s) = dst_refs s"
  "ct_refs (cm_deliver K j ms s) = ct_refs s" "cm_exceptions (cm_deliver K j ms s) = cm_exceptions s"
  by (induction ms arbitrary: s) simp_all

lemma deliver_cts: "s\<lparr>cts := cts (cm_deliver K j ms s)\<rparr> = cm_deliver K j ms s"
  by (rule sfe_cm.equality) simp_all

lemma sync_conn_acct:
  "ct_acct (sync_conn K j m c ct) = map_option (\<lambda>a.
     \<lparr>orig_packets = orig_packets a + ucast (sis_src_new_packet_count m),
      orig_bytes = orig_bytes a + ucast (sis_src_new_byte_count m),
      reply_packets = reply_packets a + ucast (sis_dest_new_packet_count m),
      reply_bytes = reply_bytes a + ucast (sis_dest_new_byte_count m)\<rparr>) (ct_acct ct)"
  by (simp add: sync_conn_def sync_tcp_def sync_udp_def sync_acct_def sync_timeout_def Let_def split: option.split)

lemma deliver_acct:
  assumes "ct_acct (cts s c) = Some a"
  shows "\<exists>a'. ct_acct (cts (cm_deliver K j ms s) c) = Some a' \<and> (\<forall>x. accounted x a' = accounted x a +
    sum_list (map (\<lambda>m. if nf_conntrack_find_get K (sync_tuple m) = Some c then reported x m else 0) ms))"
  using assms
proof (induction ms arbitrary: s a)
  case (Cons m ms)
  let ?s = "sfe_cm_sync_rule K j m s"
  let ?hit = "nf_conntrack_find_get K (sync_tuple m) = Some c"
  obtain b where b: "ct_acct (cts ?s c) = Some b"
    and acc: "\<And>x. accounted x b = accounted x a + (if ?hit then reported x m else 0)"
  proof (cases ?hit)
    case True
    let ?b = "\<lparr>orig_packets = orig_packets a + ucast (sis_src_new_packet_count m),
      orig_bytes = orig_bytes a + ucast (sis_src_new_byte_count m),
      reply_packets = reply_packets a + ucast (sis_dest_new_packet_count m),
      reply_bytes = reply_bytes a + ucast (sis_dest_new_byte_count m)\<rparr>"
    have "accounted x ?b = accounted x a + reported x m" for x by (cases x) simp_all
    then show thesis using that [of ?b] True Cons.prems by (simp add: sync_rule_cts sync_conn_acct)
  next
    case False
    then show thesis using that [of a] Cons.prems by (simp add: sync_rule_cts)
  qed
  from Cons.IH [OF b] obtain a' where "ct_acct (cts (cm_deliver K j ms ?s) c) = Some a'"
    and "\<And>x. accounted x a' = accounted x b +
      sum_list (map (\<lambda>m. if nf_conntrack_find_get K (sync_tuple m) = Some c then reported x m else 0) ms)" by blast
  then show ?case using acc by (intro exI [of _ a']) (simp add: ac_simps)
qed simp

section \<open>One period\<close>

text \<open>A run of the timer function with the reports it makes to the connection manager.\<close>

definition cm_tick ::
  "cm_kernel \<Rightarrow> sfe_connection_sync \<Rightarrow> u64 \<Rightarrow> u64 \<Rightarrow> 'v sfe_cm \<Rightarrow> 'v sfe_cm option" where
  "cm_tick K sis now jiffies s = do {
     t \<leftarrow> sfe_ipv4_periodic_sync sis now (cm_v4 s);
     let ms = map snd (drop (length (sync_calls (cm_v4 s))) (sync_calls t));
     Some (cm_deliver K jiffies ms (s\<lparr>cm_v4 := t\<rparr>))
   }"

lemma periodic_sync_ends:
  assumes "engine_inv E base s A D"
  shows "\<exists>t. sfe_ipv4_periodic_sync sis now s = Some t"
proof (cases "sync_rule_callback s")
  case None
  then show ?thesis by (simp add: sfe_ipv4_periodic_sync_def)
next
  case (Some cb)
  then show ?thesis using period_reports [OF assms Some] by blast
qed

theorem tick_rep:
  assumes R: "cm_rep E v6_inv base D s M F"
  obtains t where "cm_tick K sis now j s = Some t" and "cm_rep E v6_inv base D t M F"
    and "neigh_refs t = neigh_refs s" and "dst_refs t = dst_refs s" and "ct_refs t = ct_refs s"
proof -
  obtain A own where I: "engine_inv E (\<lambda>d. base d + own d) (cm_v4 s) A D" and M: "flow_map (cm_v4 s) A = M"
    and v: "v6_inv own (cm_v6 s) F" using R by (auto simp: cm_rep_def)
  obtain u where u: "sfe_ipv4_periodic_sync sis now (cm_v4 s) = Some u" using periodic_sync_ends [OF I] by blast
  from periodic_sync_settled [OF I u] obtain B where B: "engine_inv E (\<lambda>d. base d + own d) u B D" "flow_map u B = M"
    using M by blast
  let ?t = "cm_deliver K j (map snd (drop (length (sync_calls (cm_v4 s))) (sync_calls u))) (s\<lparr>cm_v4 := u\<rparr>)"
  have "cm_rep E v6_inv base D ?t M F"
    using B v unfolding cm_rep_def by (intro exI [of _ B] exI [of _ own]) simp
  then show thesis by (intro that [of ?t]) (simp_all add: cm_tick_def u)
qed

theorem tick_accounts:
  assumes I: "engine_inv E base (cm_v4 s) A D" and d: "d \<in> set (connl A)"
    and ct: "nf_conntrack_find_get K (key_tuple (conn_key (cm_v4 s) d)) = Some c"
    and only: "\<And>k. k \<in> dom (flow_map (cm_v4 s) A) \<Longrightarrow> nf_conntrack_find_get K (key_tuple k) = Some c \<Longrightarrow>
      k = conn_key (cm_v4 s) d"
    and acct: "ct_acct (cts s c) = Some a"
  shows "\<exists>t a'. cm_tick K sis now j s = Some t \<and> ct_acct (cts t c) = Some a' \<and>
    (\<forall>x. accounted x a' + unsynced x (cm_v4 t) d = accounted x a + unsynced x (cm_v4 s) d) \<and>
    (due_now (cm_v4 s) A d \<longrightarrow> (\<forall>x. unsynced x (cm_v4 t) d = 0))"
proof -
  obtain u where u: "sfe_ipv4_periodic_sync sis now (cm_v4 s) = Some u" using periodic_sync_ends [OF I] by blast
  from periodic_sync_settled [OF I u] obtain B ms
    where ms: "map snd (drop (length (sync_calls (cm_v4 s))) (sync_calls u)) = ms"
    and keys: "set (map sis_key ms) \<subseteq> dom (flow_map (cm_v4 s) A)" and st: "settled (cm_v4 s) (connl A) u ms"
    and sw: "sync_rule_callback (cm_v4 s) \<noteq> None \<longrightarrow> swept (cm_v4 s) A (sync_quota (cm_v4 s)) u" by blast
  let ?t = "cm_deliver K j ms (s\<lparr>cm_v4 := u\<rparr>)"
  have t: "cm_tick K sis now j s = Some ?t" by (simp add: cm_tick_def u ms)
  have "ct_acct (cts (s\<lparr>cm_v4 := u\<rparr>) c) = Some a" using acct by simp
  from deliver_acct [OF this, of K j ms] obtain a' where a': "ct_acct (cts ?t c) = Some a'"
    and acc: "\<And>x. accounted x a' = accounted x a +
      sum_list (map (\<lambda>m. if nf_conntrack_find_get K (sync_tuple m) = Some c then reported x m else 0) ms)" by blast
  have hit: "nf_conntrack_find_get K (sync_tuple m) = Some c \<longleftrightarrow> sis_key m = conn_key (cm_v4 s) d"
    if m: "m \<in> set ms" for m
  proof -
    have "sync_tuple m = key_tuple (sis_key m)" using st m by (intro sync_tuple_v4) (auto simp: settled_def)
    moreover have "sis_key m \<in> dom (flow_map (cm_v4 s) A)" using keys m by auto
    ultimately show ?thesis using only ct by metis
  qed
  have "sum_list (map (\<lambda>m. if nf_conntrack_find_get K (sync_tuple m) = Some c then reported x m else 0) ms) =
      reported_for x (conn_key (cm_v4 s) d) ms" for x
    unfolding reported_for_def by (intro arg_cong [where f = sum_list] map_cong refl if_cong hit)
  moreover have "unsynced x u d + reported_for x (conn_key (cm_v4 s) d) ms = unsynced x (cm_v4 s) d" for x
    using st d by (simp add: settled_def)
  ultimately have "accounted x a' + unsynced x (cm_v4 ?t) d = accounted x a + unsynced x (cm_v4 s) d" for x
    using acc [of x] by (simp add: ac_simps)
  moreover have "due_now (cm_v4 s) A d \<Longrightarrow> unsynced x (cm_v4 ?t) d = 0" for x
    using due_swept [OF I _ sw] by simp
  ultimately show ?thesis using t a' by blast
qed

end
