(* ===== verification/Sfe_Cm_System.thy ===== *)
theory Sfe_Cm_System
  imports Sfe_Cm_Account
begin

text \<open>
  The program as a whole: the connection manager drives the engine, the kernel drives the connection
  manager. The steps of the model are the entry points of sfe_cm.c; the specification is a NAT table,
  a map from flows to translations, with one rule per kind of event. Every run of the model is a run of
  the table, and so every packet of the fast path is translated as the connection tracking decided
  for a connection that qualified.
\<close>

section \<open>The specification\<close>

datatype cm_event =
    Leaves "(nf_conn \<times> (netdev \<times> netdev)) option"
  | Arrives sk_buff recv_outcome
  | Ends "nf_tuple option"
  | GoesDown "netdev option"
  | Quiet

text \<open>The packet \<open>out\<close> is the packet \<open>skb\<close>, translated by the table.\<close>

definition sent_by_table ::
  "sfe_env \<Rightarrow> kernel \<Rightarrow> (conn_key \<Rightarrow> flow_info option) \<Rightarrow> sk_buff \<Rightarrow> sk_buff \<Rightarrow> bool" where
  "sent_by_table E N M skb out \<longleftrightarrow>
     (\<exists>pkt pkt' m mark proto flow flow'. same_packet skb pkt \<and> rd8 pkt 9 = Some proto \<and> ip_flow E pkt = Some flow \<and>
        ip_flow E pkt' = Some flow' \<and> out = address_packet N m mark (skb_len skb) pkt' \<and> proto \<in> {6, 17} \<and>
        fast_path M (skb_dev skb) proto flow flow' (xmit_dev m))"

inductive nat_step ::
  "sfe_env \<Rightarrow> kernel \<Rightarrow> (conn_key \<Rightarrow> flow_info option) \<Rightarrow> cm_event \<Rightarrow> (conn_key \<Rightarrow> flow_info option) \<Rightarrow> bool"
  for E N where
  nat_learn: "nat_step E N M (Leaves new) (learn new M)"
| nat_forward: "sent_by_table E N M skb out \<Longrightarrow> nat_step E N M (Arrives skb (Forwarded out)) M"
| nat_slow: "\<forall>pkt. out \<noteq> Forwarded pkt \<Longrightarrow> nat_step E N M (Arrives skb out) M"
| nat_give_up: "\<forall>pkt. out \<noteq> Forwarded pkt \<Longrightarrow> nat_step E N M (Arrives skb out) (M(k := None))"
| nat_end: "nat_step E N M (Ends t) (forget_ended t M)"
| nat_down: "nat_step E N M (GoesDown dev) (if dev = None then M else without_dev dev M)"
| nat_quiet: "nat_step E N M Quiet M"

inductive nat_run ::
  "sfe_env \<Rightarrow> kernel \<Rightarrow> (conn_key \<Rightarrow> flow_info option) \<Rightarrow> cm_event list \<Rightarrow> (conn_key \<Rightarrow> flow_info option) \<Rightarrow> bool"
  for E N M where
  nat_none: "nat_run E N M [] M"
| nat_more: "nat_run E N M es M' \<Longrightarrow> nat_step E N M' e M'' \<Longrightarrow> nat_run E N M (es @ [e]) M''"

section \<open>The model\<close>

text \<open>
  Each entry point with arbitrary arguments; \<open>NETDEV_DOWN\<close> is the only event that reaches a device.
  The connection tracking may change its entries at any time.
\<close>

inductive cm_step :: "sfe_env \<Rightarrow> kernel \<Rightarrow> cm_kernel \<Rightarrow> unit sfe_cm \<Rightarrow> cm_event \<Rightarrow> unit sfe_cm \<Rightarrow> bool"
  for E N K where
  cm_leaves: "sfe_cm_post_routing E K ipv6_stubs True al j junk p s = Some t \<Longrightarrow> alloc_fresh al (cm_v4 s) \<Longrightarrow>
    cm_step E N K s (Leaves (accelerated E K p al (cts s))) t"
| cm_arrives: "sfe_cm_recv E N K ipv6_stubs proto skb sis now s = Some (out, t) \<Longrightarrow> ntohs E proto = ETH_P_IP \<Longrightarrow>
    skb_ok skb \<Longrightarrow> cm_step E N K s (Arrives skb out) t"
| cm_ends: "sfe_cm_conntrack_event E ipv6_stubs sid sis now is_destroy ct s = Some t \<Longrightarrow>
    cm_step E N K s (Ends (ended is_destroy ct (cts s))) t"
| cm_device: "sfe_cm_device_event E ipv6_stubs sis nows event dev s = Some t \<Longrightarrow>
    cm_step E N K s (GoesDown (if event = NETDEV_DOWN then dev else None)) t"
| cm_inet: "sfe_cm_inet_event E sis nows event dev s = Some t \<Longrightarrow>
    cm_step E N K s (GoesDown (if event = NETDEV_DOWN then dev else None)) t"
| cm_inet6: "cm_step E N K s Quiet (sfe_cm_inet6_event ipv6_stubs event dev s)"
| cm_tick: "cm_tick K sis now j s = Some t \<Longrightarrow> cm_step E N K s Quiet t"
| cm_conntrack: "cm_step E N K s Quiet (s\<lparr>cts := f\<rparr>)"

text \<open>
  Reports made in the middle of another step, when a connection is flushed, are recorded there; that the
  callback has added them to the connection tracking is a step of its own.
\<close>

lemma delivery_is_a_step: "cm_step E N K s Quiet (cm_deliver K j ms s)"
  using cm_conntrack [of E N K s "cts (cm_deliver K j ms s)"] by (simp only: deliver_cts)

inductive cm_run :: "sfe_env \<Rightarrow> kernel \<Rightarrow> cm_kernel \<Rightarrow> unit sfe_cm \<Rightarrow> cm_event list \<Rightarrow> unit sfe_cm \<Rightarrow> bool"
  for E N K s where
  cm_none: "cm_run E N K s [] s"
| cm_more: "cm_run E N K s es t \<Longrightarrow> cm_step E N K t e u \<Longrightarrow> cm_run E N K s (es @ [e]) u"

section \<open>Simulation\<close>

lemma down_event:
  "nat_step E N M (GoesDown (if b then dev else None)) (if b \<and> dev \<noteq> None then without_dev dev M else M)"
  using nat_down [of E N M "if b then dev else None"] by (auto split: if_splits)

text \<open>Each step of the model is a step of the table.\<close>

lemma step_simulates:
  assumes "cm_step E N K s e t" and R: "cm_rep E no_ipv6 base D s M F" and K: "cm_kernel_ok K" and N: "kernel_ok N"
  shows "\<exists>M'. nat_step E N M e M' \<and> cm_rep E no_ipv6 base D t M' F"
  using assms(1)
proof cases
  case (cm_leaves al j junk p)
  obtain u where "sfe_cm_post_routing E K ipv6_stubs True al j junk p s = Some u"
    "cm_rep E no_ipv6 base D u (learn (accelerated E K p al (cts s)) M) F"
    by (rule post_routing_flows [OF R K cm_leaves(3)])
  with cm_leaves show ?thesis by (auto intro: nat_learn)
next
  case (cm_arrives proto skb sis now out)
  from recv_v4_rep [OF R cm_arrives(3,2)] obtain gone
    where r: "cm_rep E no_ipv6 base D t (M |` (- set_option gone)) F" and g: "\<forall>pkt. out = Forwarded pkt \<longrightarrow> gone = None" by blast
  show ?thesis
  proof (cases "\<exists>pkt. out = Forwarded pkt")
    case True
    then obtain pkt where out: "out = Forwarded pkt" by blast
    then have dev: "dev_inet K (skb_dev skb) = Some True"
      using cm_arrives(2,3) by (auto simp: sfe_cm_recv_def Let_def split: option.splits bool.splits)
    then obtain u where u: "sfe_ipv4_recv E N (skb_dev skb) skb sis now (cm_v4 s) = Some (Forwarded pkt, u)"
      using cm_arrives(2,3) out by (auto simp: sfe_cm_recv_def Let_def bind_eq_Some_conv)
    obtain A own where I: "engine_inv E (\<lambda>d. base d + own d) (cm_v4 s) A D" and M: "flow_map (cm_v4 s) A = M"
      using R by (auto simp: cm_rep_def)
    have "sent_by_table E N M skb pkt"
      using forwarded_fast_path [OF I N cm_arrives(4) u] unfolding sent_by_table_def M by blast
    then have "nat_step E N M e M" unfolding cm_arrives(1) out by (rule nat_forward)
    moreover have "M |` (- set_option gone) = M" using g out by (simp add: restrict_map_def)
    ultimately show ?thesis using r by auto
  next
    case False
    then have n: "\<forall>pkt. out \<noteq> Forwarded pkt" by blast
    show ?thesis
    proof (cases gone)
      case None
      then have "M |` (- set_option gone) = M" by (simp add: restrict_map_def)
      then show ?thesis using r n unfolding cm_arrives(1) by (auto intro: nat_slow)
    next
      case (Some k)
      then have "M |` (- set_option gone) = M(k := None)" by (auto simp: restrict_map_def fun_eq_iff)
      then show ?thesis using r n unfolding cm_arrives(1) by (auto intro: nat_give_up)
    qed
  qed
next
  case (cm_ends sid sis now is_destroy ct)
  obtain u F' where "sfe_cm_conntrack_event E ipv6_stubs sid sis now is_destroy ct s = Some u"
    "cm_rep E no_ipv6 base D u (forget_ended (ended is_destroy ct (cts s)) M) F'" "F' \<subseteq> F"
    by (rule stub6.conntrack_event_rep [OF R])
  with cm_ends R show ?thesis by (auto simp: cm_rep_def no_ipv6_def intro: nat_end)
next
  case (cm_device sis nows event dev)
  obtain u F' where u: "sfe_cm_device_event E ipv6_stubs sis nows event dev s = Some u" "F' \<subseteq> F"
    "cm_rep E no_ipv6 base D u (if event = NETDEV_DOWN \<and> dev \<noteq> None then without_dev dev M else M) F'"
    by (rule stub6.device_event_rep [OF R])
  have "F' = F" using u(2) R by (auto simp: cm_rep_def no_ipv6_def)
  have "t = u" using u(1) cm_device(2) by simp
  moreover have "nat_step E N M e (if event = NETDEV_DOWN \<and> dev \<noteq> None then without_dev dev M else M)"
    unfolding cm_device(1) by (rule down_event)
  ultimately show ?thesis using u(3) \<open>F' = F\<close> by blast
next
  case (cm_inet sis nows event dev)
  obtain u where u: "sfe_cm_inet_event E sis nows event dev s = Some u"
    "cm_rep E no_ipv6 base D u (if event = NETDEV_DOWN \<and> dev \<noteq> None then without_dev dev M else M) F"
    by (rule stub6.inet_event_rep [OF R])
  have "t = u" using u(1) cm_inet(2) by simp
  moreover have "nat_step E N M e (if event = NETDEV_DOWN \<and> dev \<noteq> None then without_dev dev M else M)"
    unfolding cm_inet(1) by (rule down_event)
  ultimately show ?thesis using u(2) by blast
next
  case (cm_inet6 event dev)
  obtain F' where "cm_rep E no_ipv6 base D (sfe_cm_inet6_event ipv6_stubs event dev s) M F'" "F' \<subseteq> F"
    by (rule stub6.inet6_event_rep [OF R])
  moreover have "F = {}" using R by (auto simp: cm_rep_def no_ipv6_def)
  ultimately show ?thesis using cm_inet6 by (auto intro: nat_quiet)
next
  case (cm_tick sis now j)
  obtain u where "cm_tick K sis now j s = Some u" "cm_rep E no_ipv6 base D u M F"
    by (rule tick_rep [OF R, where K = K and sis = sis and now = now and j = j])
  with cm_tick show ?thesis by (auto intro: nat_quiet)
next
  case (cm_conntrack f)
  with R show ?thesis by (auto simp: cm_rep_def intro: nat_quiet)
qed

lemma run_simulates:
  assumes "cm_run E N K s es t" and R: "cm_rep E no_ipv6 base D s M F" and K: "cm_kernel_ok K" and N: "kernel_ok N"
  shows "\<exists>M'. nat_run E N M es M' \<and> cm_rep E no_ipv6 base D t M' F"
  using assms(1)
proof induction
  case cm_none
  then show ?case using R by (blast intro: nat_none)
next
  case (cm_more es t e u)
  then obtain M' where M': "nat_run E N M es M'" "cm_rep E no_ipv6 base D t M' F" by blast
  from step_simulates [OF cm_more.hyps(2) M'(2) K N] obtain M'' where
    "nat_step E N M' e M''" "cm_rep E no_ipv6 base D u M'' F" by blast
  with M'(1) show ?case by (blast intro: nat_more)
qed

text \<open>No step of the model gets stuck: each entry point returns in every state of a run.\<close>

lemma entry_points_return:
  assumes R: "cm_rep E no_ipv6 base D s M F" and K: "cm_kernel_ok K" and N: "kernel_ok N"
  shows "alloc_fresh al (cm_v4 s) \<Longrightarrow> \<exists>t. sfe_cm_post_routing E K ipv6_stubs True al j junk p s = Some t"
    and "skb_ok skb \<Longrightarrow> tcp_linear skb \<Longrightarrow> \<exists>r. sfe_cm_recv E N K ipv6_stubs proto skb sis now s = Some r"
    and "\<exists>t. sfe_cm_conntrack_event E ipv6_stubs sid sis now is_destroy ct s = Some t"
    and "\<exists>t. sfe_cm_device_event E ipv6_stubs sis nows event dev s = Some t"
    and "\<exists>t. sfe_cm_inet_event E sis nows event dev s = Some t"
    and "\<exists>t. cm_tick K sis now j s = Some t"
proof -
  obtain A own where I: "engine_inv E (\<lambda>d. base d + own d) (cm_v4 s) A D" using R by (auto simp: cm_rep_def)
  show "\<exists>t. sfe_cm_post_routing E K ipv6_stubs True al j junk p s = Some t" if "alloc_fresh al (cm_v4 s)"
    by (rule post_routing_flows [OF R K that]) blast
  show "\<exists>r. sfe_cm_recv E N K ipv6_stubs proto skb sis now s = Some r" if "skb_ok skb" "tcp_linear skb"
    using recv_runs [OF I N that, of "skb_dev skb" sis now]
    by (auto simp: sfe_cm_recv_def Let_def ipv6_stubs_def runs_def split: option.split bool.split)
  show "\<exists>t. sfe_cm_conntrack_event E ipv6_stubs sid sis now is_destroy ct s = Some t"
    by (rule stub6.conntrack_event_rep [OF R]) blast
  show "\<exists>t. sfe_cm_device_event E ipv6_stubs sis nows event dev s = Some t"
    by (rule stub6.device_event_rep [OF R]) blast
  show "\<exists>t. sfe_cm_inet_event E sis nows event dev s = Some t"
    by (rule stub6.inet_event_rep [OF R]) blast
  show "\<exists>t. cm_tick K sis now j s = Some t"
    by (rule tick_rep [OF R]) blast
qed

section \<open>Where the entries of the table come from\<close>

definition learnt_in :: "cm_event list \<Rightarrow> conn_key \<Rightarrow> flow_info \<Rightarrow> bool" where
  "learnt_in es k i \<longleftrightarrow> (\<exists>ct devs. Leaves (Some (ct, devs)) \<in> set es \<and>
     k = tuple_key (ct_orig ct) \<and> i = (tuple_nat (ct_reply ct), devs))"

lemma nat_step_learnt:
  assumes "nat_step E N M e M'" and "M' k = Some i"
  shows "M k = Some i \<or> learnt_in [e] k i"
  using assms
proof cases
  case (nat_learn new)
  with assms(2) show ?thesis by (auto simp: learn_def learnt_in_def split: option.splits if_splits)
next
  case (nat_end t)
  with assms(2) show ?thesis by (auto simp: forget_ended_def forget_def split: option.splits if_splits)
next
  case (nat_down dev)
  with assms(2) show ?thesis by (auto simp: without_dev_def split: option.splits if_splits)
qed (auto split: if_splits)

lemma nat_run_learnt:
  assumes "nat_run E N M es M'" and empty: "M = Map.empty"
  shows "M' k = Some i \<Longrightarrow> learnt_in es k i"
  using assms(1)
proof (induction arbitrary: k i)
  case nat_none
  then show ?case by (simp add: empty)
next
  case (nat_more es M' e M'')
  have mono: "learnt_in fs k i \<Longrightarrow> set fs \<subseteq> set (es @ [e]) \<Longrightarrow> learnt_in (es @ [e]) k i" for fs
    unfolding learnt_in_def by blast
  from nat_step_learnt [OF nat_more.hyps(2) nat_more.prems] show ?case
  proof
    assume "M' k = Some i"
    then have "learnt_in es k i" by (rule nat_more.IH)
    then show ?thesis by (rule mono) auto
  next
    assume "learnt_in [e] k i"
    then show ?thesis by (rule mono) simp
  qed
qed

text \<open>A forwarded packet of a run is sent by the table as it was at that time.\<close>

lemma nat_run_forwarded:
  assumes "nat_run E N M es M'" and "Arrives skb (Forwarded out) \<in> set es" and "M = Map.empty"
  shows "\<exists>fs T. nat_run E N Map.empty fs T \<and> set fs \<subseteq> set es \<and> sent_by_table E N T skb out"
  using assms
proof induction
  case (nat_more es M' e M'')
  show ?case
  proof (cases "Arrives skb (Forwarded out) \<in> set es")
    case True
    from nat_more.IH [OF this nat_more.prems(2)] obtain fs T where
      "nat_run E N Map.empty fs T" "set fs \<subseteq> set es" "sent_by_table E N T skb out" by blast
    moreover have "set es \<subseteq> set (es @ [e])" by auto
    ultimately show ?thesis by blast
  next
    case False
    then have "e = Arrives skb (Forwarded out)" using nat_more.prems(1) by simp
    then have "sent_by_table E N M' skb out" using nat_more.hyps(2) by (auto elim: nat_step.cases)
    moreover have "nat_run E N Map.empty es M'" using nat_more.hyps(1) nat_more.prems(2) by simp
    moreover have "set es \<subseteq> set (es @ [e])" by auto
    ultimately show ?thesis by blast
  qed
qed simp

end
