(* ===== verification/Sfe_Cm_Props.thy ===== *)
theory Sfe_Cm_Props
  imports Sfe_Cm_System
begin

text \<open>
  The properties of the connection manager and of the whole program, and a small machine on which
  they are applied: the flow of \<open>Sfe_Demo\<close>, as the connection tracking of that machine sees it.
\<close>

section \<open>A machine with connection tracking\<close>

definition demo_orig :: nf_tuple where
  "demo_orig = \<lparr>tup_src_ip = v4_addr 0x0a000002, tup_src_port = 4096, tup_dst_ip = v4_addr 0x08080808,
     tup_dst_port = 53, tup_protonum = 17, tup_l3num = 2\<rparr>"

definition demo_reply :: nf_tuple where
  "demo_reply = \<lparr>tup_src_ip = v4_addr 0x08080808, tup_src_port = 53, tup_dst_ip = v4_addr 0x01020304,
     tup_dst_port = 8192, tup_protonum = 17, tup_l3num = 2\<rparr>"

definition demo_seen :: tcp_seen where
  "demo_seen = \<lparr>td_scale = 0, td_maxwin = 0, td_end = 0, td_maxend = 0, be_liberal = False\<rparr>"

definition demo_ct :: nf_conn where
  "demo_ct = \<lparr>ct_orig = demo_orig, ct_reply = demo_reply, ct_confirmed = True, ct_has_helper = False,
     ct_acct = Some \<lparr>orig_packets = 3, orig_bytes = 300, reply_packets = 2, reply_bytes = 200\<rparr>,
     ct_seen0 = demo_seen, ct_seen1 = demo_seen, ct_established = False, ct_assured = False,
     ct_seen_reply = True, ct_fixed_timeout = False, ct_timeout = 500\<rparr>"

text \<open>Address 10.0.0.2 and the public address are reached through device 1, the rest through device 2.\<close>

definition demo_cmk :: cm_kernel where
  "demo_cmk = \<lparr>dev_by_index = (\<lambda>_. Some 1), dev_mtu = (\<lambda>_. 1500), dev_is_bridge_port = (\<lambda>_. False),
     dev_master = (\<lambda>_. None), dev_addr_len = (\<lambda>_. 6), dev_inet = (\<lambda>_. Some True), dev_inet6 = (\<lambda>_. None),
     ip_route_output = (\<lambda>_. Some 0), rt6_lookup = (\<lambda>_. None),
     dst_neigh_lookup = (\<lambda>_ a. Some (if ip a = 0x08080808 then 2 else 1)), neigh_valid = (\<lambda>_. True),
     neigh_dev = (\<lambda>n. Some (if n = 2 then 2 else 1)), neigh_ha = (\<lambda>_ _. 4), tcp_no_window_check = False,
     nf_conntrack_find_get = (\<lambda>t. if t = demo_orig then Some 0 else None), udp_timeout_replied = (\<lambda>_. 180)\<rparr>"

definition demo_pkt :: cm_packet where
  "demo_pkt = \<lparr>pkt_kind = PACKET_HOST, pkt_xfrm = False, pkt_has_sk = False, pkt_iif = 1, pkt_ct = Some 0,
     pkt_untracked = False, pkt_dir = IP_CT_DIR_ORIGINAL, pkt_dsfield = 0, pkt_secpath = False, pkt_prio = 0,
     pkt_dst = 0\<rparr>"

definition cm_start :: "nat \<Rightarrow> unit sfe_cm \<Rightarrow> unit sfe_cm" where
  "cm_start cb mem = cm_register_callbacks ipv6_stubs (Some cb) (mem\<lparr>cm_v4 := engine_start (cm_v4 mem)\<rparr>)"

definition demo_cm_mem :: "unit sfe_cm" where
  "demo_cm_mem = \<lparr>cm_v4 = blank_mem, cm_v6 = (), cm_exceptions = (\<lambda>_. 0), cts = (\<lambda>_. demo_ct), ct_refs = (\<lambda>_. 0),
     neigh_refs = (\<lambda>_. 0), dst_refs = (\<lambda>_. 0)\<rparr>"

lemma cm_start_rep: "cm_rep E no_ipv6 (dev_refcnt (cm_v4 mem)) [] (cm_start cb mem) Map.empty {}"
proof -
  have "engine_inv E (dev_refcnt (cm_v4 mem)) (sfe_ipv4_register_sync_rule_callback (Some cb) (engine_start (cm_v4 mem))) abs_start []"
    by (rule register_engine [OF engine_start_inv])
  then show ?thesis
    unfolding cm_rep_def cm_start_def cm_register_callbacks_def
    by (intro exI [of _ abs_start] exI [of _ "\<lambda>_. 0"])
      (simp add: no_ipv6_def flow_map_def abs_start_def ipv6_stubs_def)
qed

abbreviation demo_cm :: "unit sfe_cm" where "demo_cm \<equiv> cm_start 7 demo_cm_mem"

lemma demo_cm_v4: "cm_v4 demo_cm = demo_start"
  by (simp add: cm_start_def demo_cm_mem_def demo_start_def cm_register_callbacks_def)

lemma demo_cts: "cts demo_cm = (\<lambda>_. demo_ct)"
  by (simp add: cm_start_def demo_cm_mem_def cm_register_callbacks_def)

lemma demo_rep: "cm_rep demo_env no_ipv6 no_refs [] demo_cm Map.empty {}"
  using cm_start_rep [of demo_env demo_cm_mem 7] by (simp add: demo_cm_mem_def blank_mem_def no_refs_def)

lemma demo_cmk_ok: "cm_kernel_ok demo_cmk"
  by (simp add: cm_kernel_ok_def demo_cmk_def ETH_ALEN_def)

lemma demo_fresh: "alloc_fresh demo_alloc (cm_v4 demo_cm)"
  by (simp add: demo_cm_v4 alloc_fresh_def demo_alloc_def demo_start_def engine_start_def
      sfe_ipv4_register_sync_rule_callback_def)

lemma demo_accelerated: "accelerated demo_env demo_cmk demo_pkt demo_alloc (\<lambda>_. demo_ct) = Some (demo_ct, (1, 2))"
  by (simp add: accelerated_def demo_pkt_def flow_devices_def resolve_def neighbour_def demo_cmk_def bridged_def
      demo_ct_def demo_orig_def demo_reply_def v4_addr_def eligible_packet_def eligible_flow_def
      reject_quickly_def seen_packets_def multicast_def ipv4_is_multicast_def demo_env_def demo_dev_def
      demo_alloc_def ntohl_def IPPROTO_UDP_def)

section \<open>The hook\<close>

text \<open>
  C7: The post routing hook adds a flow to the engine exactly when the packet is forwarded and belongs
  to a settled, unicast TCP or UDP connection without a helper whose four addresses all have a
  neighbour, on registered devices. The new flow has the key of the original tuple, the translation of
  the reply tuple and the bridges instead of their ports. All references on routes, neighbours and
  devices are returned, except those of the new flow.
\<close>

theorem post_routing_learns:
  assumes "cm_rep E v6_inv base D s M F" and "cm_kernel_ok K" and "alloc_fresh al (cm_v4 s)"
  shows "\<exists>t. sfe_cm_post_routing E K V True al j junk p s = Some t \<and> same_refs s t \<and>
    cm_rep E v6_inv base D t (learn (accelerated E K p al (cts s)) M) F"
  by (rule post_routing_flows [OF assms]) blast

theorem post_routing_learns_witness:
  "\<exists>t. sfe_cm_post_routing demo_env demo_cmk ipv6_stubs True demo_alloc 100 demo_sic demo_pkt demo_cm = Some t \<and>
    same_refs demo_cm t \<and>
    cm_rep demo_env no_ipv6 no_refs [] t [tuple_key demo_orig \<mapsto> (tuple_nat demo_reply, (1, 2))] {}"
  using post_routing_learns [OF demo_rep demo_cmk_ok demo_fresh, of ipv6_stubs 100 demo_sic demo_pkt]
  by (simp add: demo_cts demo_accelerated learn_def) (simp add: demo_ct_def)

text \<open>
  C10: What a connection brings in, its end takes out: after the hook has learned the flow of a
  connection, the destroy event of that connection leaves the engine with the flows, and all device
  references, it had before.
\<close>

theorem flow_ends_with_connection:
  assumes R: "cm_rep E no_ipv6 base D s M F" and K: "cm_kernel_ok K" and fresh: "alloc_fresh al (cm_v4 s)"
    and ct: "accelerated E K p al (cts s) = Some (cts s c, devs)" and l3: "tup_l3num (ct_orig (cts s c)) = AF_INET"
    and new: "M (tuple_key (ct_orig (cts s c))) = None"
  shows "\<exists>t u. sfe_cm_post_routing E K ipv6_stubs True al j junk p s = Some t \<and>
    cm_rep E no_ipv6 base D t (M(tuple_key (ct_orig (cts s c)) \<mapsto> (tuple_nat (ct_reply (cts s c)), devs))) F \<and>
    sfe_cm_conntrack_event E ipv6_stubs sid sis now True (Some c) t = Some u \<and>
    cm_rep E no_ipv6 base D u M F \<and> same_refs s u"
proof -
  let ?o = "ct_orig (cts s c)"
  let ?M = "M(tuple_key ?o \<mapsto> (tuple_nat (ct_reply (cts s c)), devs))"
  obtain t where t: "sfe_cm_post_routing E K ipv6_stubs True al j junk p s = Some t" "same_refs s t"
    and rep: "cm_rep E no_ipv6 base D t (learn (accelerated E K p al (cts s)) M) F"
    by (rule post_routing_flows [OF R K fresh])
  have rep: "cm_rep E no_ipv6 base D t ?M F" using rep new by (simp add: ct learn_def)
  obtain u F' where u: "sfe_cm_conntrack_event E ipv6_stubs sid sis now True (Some c) t = Some u" "same_refs t u"
    and rep': "cm_rep E no_ipv6 base D u (forget_ended (ended True (Some c) (cts t)) ?M) F'" and F': "F' \<subseteq> F"
    by (rule stub6.conntrack_event_rep [OF rep])
  have pr: "ucast (tup_protonum ?o) = IPPROTO_TCP \<or> ucast (tup_protonum ?o) = IPPROTO_UDP"
    using ct by (auto simp: accelerated_def eligible_flow_def split: bind_splits if_splits)
  have "forget_ended (ended True (Some c) (cts t)) ?M = M"
    using t(2) pr l3 new by (auto simp: same_refs_def ended_def forget_ended_def forget_def)
  moreover have "F' = F" using F' R by (auto simp: cm_rep_def no_ipv6_def)
  ultimately have "cm_rep E no_ipv6 base D u M F" using rep' by simp
  then show ?thesis using t u rep same_refs_trans by blast
qed

theorem flow_ends_with_connection_witness:
  "\<exists>t u. sfe_cm_post_routing demo_env demo_cmk ipv6_stubs True demo_alloc 100 demo_sic demo_pkt demo_cm = Some t \<and>
    cm_rep demo_env no_ipv6 no_refs [] t [tuple_key demo_orig \<mapsto> (tuple_nat demo_reply, (1, 2))] {} \<and>
    sfe_cm_conntrack_event demo_env ipv6_stubs demo_sid demo_sis 9 True (Some 0) t = Some u \<and>
    cm_rep demo_env no_ipv6 no_refs [] u Map.empty {} \<and> same_refs demo_cm u"
proof -
  have a: "accelerated demo_env demo_cmk demo_pkt demo_alloc (cts demo_cm) = Some (cts demo_cm 0, (1, 2))"
    by (simp only: demo_cts demo_accelerated)
  have l: "tup_l3num (ct_orig (cts demo_cm 0)) = AF_INET"
    by (simp add: demo_cts demo_ct_def demo_orig_def AF_INET_def)
  have d: "ct_orig (cts demo_cm 0) = demo_orig" "ct_reply (cts demo_cm 0) = demo_reply"
    by (simp_all add: demo_cts demo_ct_def)
  show ?thesis
    using flow_ends_with_connection [OF demo_rep demo_cmk_ok demo_fresh a l, of 100 demo_sic demo_sid demo_sis 9]
    by (simp add: d)
qed

section \<open>The whole program\<close>

text \<open>
  C1: Every history of the program is a history of a NAT table: an outgoing packet of a connection
  that qualifies enters one flow, an arriving packet is forwarded only as an entry of the table says
  or at most makes one entry vanish, the end of a connection and a device that goes down remove
  exactly their entries, and all other events leave the table alone.
\<close>

theorem program_refines_nat_table:
  assumes "cm_run E N K (cm_start cb mem) es t" and "cm_kernel_ok K" and "kernel_ok N"
  shows "\<exists>M. nat_run E N Map.empty es M \<and> cm_rep E no_ipv6 (dev_refcnt (cm_v4 mem)) [] t M {}"
  by (rule run_simulates [OF assms(1) cm_start_rep assms(2,3)])

text \<open>The program after one packet of the demonstration has left.\<close>

definition demo_learned :: "unit sfe_cm" where
  "demo_learned = (case sfe_cm_post_routing demo_env demo_cmk ipv6_stubs True demo_alloc 100 demo_sic demo_pkt demo_cm of
     Some t \<Rightarrow> t | None \<Rightarrow> demo_cm)"

lemma demo_learned:
  "cm_run demo_env demo_kernel demo_cmk demo_cm [Leaves (Some (demo_ct, (1, 2)))] demo_learned"
  "cm_rep demo_env no_ipv6 no_refs [] demo_learned [tuple_key demo_orig \<mapsto> (tuple_nat demo_reply, (1, 2))] {}"
  "cts demo_learned = (\<lambda>_. demo_ct)"
proof -
  obtain t where t: "sfe_cm_post_routing demo_env demo_cmk ipv6_stubs True demo_alloc 100 demo_sic demo_pkt demo_cm = Some t"
    and f: "same_refs demo_cm t" and r: "cm_rep demo_env no_ipv6 no_refs [] t (learn (accelerated demo_env demo_cmk demo_pkt demo_alloc (cts demo_cm)) Map.empty) {}"
    by (rule post_routing_flows [OF demo_rep demo_cmk_ok demo_fresh])
  have d: "demo_learned = t" by (simp add: demo_learned_def t)
  have "cm_run demo_env demo_kernel demo_cmk demo_cm ([] @ [Leaves (accelerated demo_env demo_cmk demo_pkt demo_alloc (cts demo_cm))]) t"
    by (rule cm_more [OF cm_none cm_leaves [OF t demo_fresh]])
  then show "cm_run demo_env demo_kernel demo_cmk demo_cm [Leaves (Some (demo_ct, (1, 2)))] demo_learned"
    by (simp add: demo_cts demo_accelerated d)
  show "cts demo_learned = (\<lambda>_. demo_ct)" using f by (simp add: d same_refs_def demo_cts)
  show "cm_rep demo_env no_ipv6 no_refs [] demo_learned [tuple_key demo_orig \<mapsto> (tuple_nat demo_reply, (1, 2))] {}"
    using r by (simp add: demo_cts demo_accelerated learn_def d) (simp add: demo_ct_def)
qed

theorem program_refines_nat_table_witness:
  "\<exists>M. cm_run demo_env demo_kernel demo_cmk demo_cm [Leaves (Some (demo_ct, (1, 2)))] demo_learned \<and>
    nat_run demo_env demo_kernel Map.empty [Leaves (Some (demo_ct, (1, 2)))] M \<and>
    cm_rep demo_env no_ipv6 (dev_refcnt (cm_v4 demo_cm_mem)) [] demo_learned M {}"
  using program_refines_nat_table [OF demo_learned(1) demo_cmk_ok demo_kernel_ok] demo_learned(1) by blast

end
