(* ===== verification/Sfe_Cm_Runs.thy ===== *)
theory Sfe_Cm_Runs
  imports Sfe_Cm_Props
begin

text \<open>
  Properties of all runs of the program: where the flows of the table and the packets of the fast
  path come from, that no entry point gets stuck, and that no count is lost on its way to the
  connection tracking.
\<close>

section \<open>What a run has learnt\<close>

definition learnable :: "sfe_env \<Rightarrow> cm_kernel \<Rightarrow> nf_conn \<Rightarrow> netdev \<times> netdev \<Rightarrow> bool" where
  "learnable E K ct devs \<longleftrightarrow> (\<exists>p. eligible_packet E K p ct \<and> eligible_flow E K True p ct \<and>
     flow_devices K p ct = Some devs) \<and> nd_registered (netdev E (fst devs)) \<and> nd_registered (netdev E (snd devs))"

lemma accelerated_learnable: "accelerated E K p al ctab = Some (ct, devs) \<Longrightarrow> learnable E K ct devs"
  by (auto simp: accelerated_def learnable_def split: bind_splits if_splits)

lemma run_learnable:
  assumes "cm_run E N K s es t" and "Leaves (Some (ct, devs)) \<in> set es"
  shows "learnable E K ct devs"
  using assms
proof induction
  case (cm_more es t e u)
  then show ?case by (auto elim!: cm_step.cases intro: accelerated_learnable [OF sym])
qed simp

text \<open>A packet sent by the table is sent by one of its entries.\<close>

lemma sent_by_one_entry:
  assumes "sent_by_table E N M skb out"
  shows "\<exists>k i. M k = Some i \<and> sent_by_table E N [k \<mapsto> i] skb out"
proof -
  obtain pkt pkt' m mark proto flow flow' where o: "same_packet skb pkt" "rd8 pkt 9 = Some proto" "ip_flow E pkt = Some flow"
    "ip_flow E pkt' = Some flow'" "out = address_packet N m mark (skb_len skb) pkt'" "proto \<in> {6, 17}"
    and f: "fast_path M (skb_dev skb) proto flow flow' (xmit_dev m)"
    using assms unfolding sent_by_table_def by blast
  obtain k i where k: "M k = Some i" "fast_path [k \<mapsto> i] (skb_dev skb) proto flow flow' (xmit_dev m)"
    using f unfolding fast_path_def by fastforce
  then have "sent_by_table E N [k \<mapsto> i] skb out" using o unfolding sent_by_table_def by blast
  with k show ?thesis by blast
qed

lemma restrict_map_UNIV: "M |` UNIV = M"
  by (simp add: restrict_map_def)

text \<open>What every flow of the engine is like.\<close>

definition wellformed_flow :: "sfe_env \<Rightarrow> conn_key \<Rightarrow> bool" where
  "wellformed_flow E k = (case k of (pr, si, sp, di, dp) \<Rightarrow>
     pr \<in> {IPPROTO_TCP, IPPROTO_UDP} \<and> \<not> ipv4_is_multicast E si \<and> \<not> ipv4_is_multicast E di \<and>
     (pr = IPPROTO_TCP \<longrightarrow> ntohs E dp \<notin> {500, 4500}))"

definition wellformed_flows :: "sfe_env \<Rightarrow> (conn_key \<Rightarrow> flow_info option) \<Rightarrow> bool" where
  "wellformed_flows E M \<longleftrightarrow> (\<forall>k\<in>dom M. wellformed_flow E k)"

lemma learnable_wellformed:
  "learnable E K ct devs \<Longrightarrow> wellformed_flow E (tuple_key (ct_orig ct))"
  by (auto simp: learnable_def wellformed_flow_def eligible_flow_def tuple_key_def multicast_def IPPROTO_TCP_def
      IPPROTO_UDP_def split: prod.split)

section \<open>A packet on the fast path\<close>

text \<open>The message of the hook for that packet, and the engine after the rule was created.\<close>

definition demo_message :: sfe_connection_create where
  "demo_message = (case cm_describe demo_env demo_cmk True demo_pkt (\<lambda>_. demo_ct) demo_sic of
     Inr sic \<Rightarrow> sic | Inl e \<Rightarrow> demo_sic)"

lemma demo_described: "cm_describe demo_env demo_cmk True demo_pkt (\<lambda>_. demo_ct) demo_sic = Inr demo_message"
proof -
  have "\<not> isl (cm_describe demo_env demo_cmk True demo_pkt (\<lambda>_. demo_ct) demo_sic)" by code_simp
  then show ?thesis by (auto simp: demo_message_def split: sum.splits)
qed

lemma demo_message_ips:
  "ip (sic_src_ip demo_message) = 0x0a000002" "ip (sic_src_ip_xlate demo_message) = 0x01020304"
  "ip (sic_dest_ip demo_message) = 0x08080808" "ip (sic_dest_ip_xlate demo_message) = 0x08080808"
  by code_simp+

text \<open>All neighbours have the address 4:4:4:4:4:4.\<close>

definition demo_mac :: "(nat \<Rightarrow> u8) \<Rightarrow> nat \<Rightarrow> u8" where "demo_mac old i = (if i < 6 then 4 else old i)"

definition demo_rule :: sfe_connection_create where
  "demo_rule = demo_message\<lparr>sic_src_mac := demo_mac (sic_src_mac demo_message),
     sic_src_mac_xlate := demo_mac (sic_src_mac_xlate demo_message), sic_dest_mac := demo_mac (sic_dest_mac demo_message),
     sic_dest_mac_xlate := demo_mac (sic_dest_mac_xlate demo_message),
     sic_src_dev := 1, sic_dest_dev := 2, sic_src_mtu := 1500, sic_dest_mtu := 1500\<rparr>"

lemma demo_kernel_answers:
  "neighbour demo_cmk r a v = (if v \<or> r \<noteq> None then Some (if ip a = 0x08080808 then (2, 2) else (1, 1)) else None)"
  "dev_is_bridge_port demo_cmk d = False" "dev_mtu demo_cmk d = 1500" "dev_inet demo_cmk d = Some True"
  "(\<lambda>i. if i < dev_addr_len demo_cmk d then neigh_ha demo_cmk n i else old i) = demo_mac old"
  by (auto simp: neighbour_def demo_cmk_def demo_mac_def fun_eq_iff split: option.split)

definition demo_flow :: sfe_ipv4 where
  "demo_flow = (case sfe_ipv4_create_rule demo_env demo_rule demo_alloc 100 (dev_hold 2 (dev_hold 1 demo_start)) of
     Some (res, t) \<Rightarrow> dev_put 1 (dev_put 2 t) | None \<Rightarrow> demo_start)"

lemma demo_learned_v4: "cm_v4 demo_learned = demo_flow"
proof -
  have fit: "\<forall>d. dev_addr_len demo_cmk d \<le> ETH_ALEN" using demo_cmk_ok by (simp add: cm_kernel_ok_def)
  show ?thesis
    by (simp add: demo_learned_def sfe_cm_post_routing_def demo_cts demo_described cm_install_def
      find_dev_conv [OF fit] demo_kernel_answers demo_message_ips Let_def refs_commute cm_install_between_def
      bridge_of_def cm_create_rule_def demo_rule_def [symmetric])
     (auto simp: demo_flow_def cm_dev_hold_def cm_dev_put_def demo_cm_v4 split: option.split)
qed

fun forwarded_live :: "(recv_outcome \<times> sfe_ipv4) option \<Rightarrow> bool" where
  "forwarded_live (Some (Forwarded pkt, t)) \<longleftrightarrow> active_head t \<noteq> None \<and> sync_rule_callback t \<noteq> None \<and>
     0 \<in> conn_live t \<and> unsynced OrigPackets t 0 = 1"
| "forwarded_live r = False"

lemma demo_flow_forwards: "forwarded_live (sfe_ipv4_recv demo_env demo_kernel 1 demo_skb demo_sis 5 demo_flow)"
  by code_simp

text \<open>The packet of the demonstration is forwarded after the hook has seen one of its flow.\<close>

lemma demo_fast_run:
  obtains out t where "cm_run demo_env demo_kernel demo_cmk demo_cm
      [Leaves (Some (demo_ct, (1, 2))), Arrives demo_skb (Forwarded out)] t"
    and "cm_rep demo_env no_ipv6 no_refs [] t [tuple_key demo_orig \<mapsto> (tuple_nat demo_reply, (1, 2))] {}"
    and "cts t = (\<lambda>_. demo_ct)" and "active_head (cm_v4 t) \<noteq> None" and "sync_rule_callback (cm_v4 t) \<noteq> None"
    and "0 \<in> conn_live (cm_v4 t)" and "unsynced OrigPackets (cm_v4 t) 0 = 1"
proof -
  obtain out u where u: "sfe_ipv4_recv demo_env demo_kernel 1 demo_skb demo_sis 5 demo_flow = Some (Forwarded out, u)"
    and l: "active_head u \<noteq> None" "sync_rule_callback u \<noteq> None" "0 \<in> conn_live u" "unsynced OrigPackets u 0 = 1"
    using demo_flow_forwards by (rule forwarded_live.elims(2)) blast
  let ?t = "demo_learned\<lparr>cm_v4 := u\<rparr>"
  have proto: "ntohs demo_env 0x0800 = ETH_P_IP" by (simp add: ntohs_def demo_env_def ETH_P_IP_def)
  have "skb_dev demo_skb = 1" by (simp add: demo_skb_def)
  with u have r: "sfe_cm_recv demo_env demo_kernel demo_cmk ipv6_stubs 0x0800 demo_skb demo_sis 5 demo_learned =
      Some (Forwarded out, ?t)"
    by (simp add: sfe_cm_recv_def proto demo_kernel_answers demo_learned_v4)
  have "cm_run demo_env demo_kernel demo_cmk demo_cm
      ([Leaves (Some (demo_ct, (1, 2)))] @ [Arrives demo_skb (Forwarded out)]) ?t"
    by (rule cm_more [OF demo_learned(1) cm_arrives [OF r proto demo_skb_ok(1)]])
  moreover have "cm_rep demo_env no_ipv6 no_refs [] ?t [tuple_key demo_orig \<mapsto> (tuple_nat demo_reply, (1, 2))] {}"
    using recv_v4_rep [OF demo_learned(2) proto r] by (auto simp: restrict_map_UNIV)
  ultimately show thesis by (intro that [of out ?t]) (simp_all add: demo_learned(3) l del: unsynced.simps)
qed

section \<open>The properties\<close>

text \<open>
  C4: The fast path does what the connection tracking decided: every packet the program ever forwards
  is forwarded as the one translation of a connection for which a packet went through the post routing
  hook before, which was confirmed, free of helpers, unicast and, for TCP, assured and established,
  and whose devices are registered.
\<close>

theorem fast_path_follows_conntrack:
  assumes run: "cm_run E N K (cm_start cb mem) es t" and K: "cm_kernel_ok K" and N: "kernel_ok N"
    and fwd: "Arrives skb (Forwarded out) \<in> set es"
  shows "\<exists>ct devs. Leaves (Some (ct, devs)) \<in> set es \<and> learnable E K ct devs \<and>
    sent_by_table E N [tuple_key (ct_orig ct) \<mapsto> (tuple_nat (ct_reply ct), devs)] skb out"
proof -
  obtain M where "nat_run E N Map.empty es M"
    using run_simulates [OF run cm_start_rep K N] by blast
  from nat_run_forwarded [OF this fwd refl] obtain fs T
    where fs: "nat_run E N Map.empty fs T" "set fs \<subseteq> set es" and T: "sent_by_table E N T skb out" by blast
  from sent_by_one_entry [OF T] obtain k i where k: "T k = Some i" "sent_by_table E N [k \<mapsto> i] skb out" by blast
  from nat_run_learnt [OF fs(1) refl k(1)] k(2) fs(2) show ?thesis
    using run_learnable [OF run] unfolding learnt_in_def by blast
qed

theorem fast_path_follows_conntrack_witness:
  "\<exists>es t out ct devs. cm_run demo_env demo_kernel demo_cmk demo_cm es t \<and> Arrives demo_skb (Forwarded out) \<in> set es \<and>
    Leaves (Some (ct, devs)) \<in> set es \<and> learnable demo_env demo_cmk ct devs \<and>
    sent_by_table demo_env demo_kernel [tuple_key (ct_orig ct) \<mapsto> (tuple_nat (ct_reply ct), devs)] demo_skb out"
proof (rule demo_fast_run)
  fix out t
  let ?es = "[Leaves (Some (demo_ct, (1, 2))), Arrives demo_skb (Forwarded out)]"
  assume r: "cm_run demo_env demo_kernel demo_cmk demo_cm ?es t"
  have "Arrives demo_skb (Forwarded out) \<in> set ?es" by simp
  from fast_path_follows_conntrack [OF r demo_cmk_ok demo_kernel_ok this] r this show ?thesis by blast
qed

text \<open>
  In every state the program can reach, each flow of the engine is a TCP or UDP flow, neither of its
  original addresses is multicast (class D), and a TCP flow does not go to a port of IPsec.
\<close>

theorem known_flows_wellformed:
  assumes run: "cm_run E N K (cm_start cb mem) es t" and K: "cm_kernel_ok K" and N: "kernel_ok N"
  shows "\<exists>M. cm_rep E no_ipv6 (dev_refcnt (cm_v4 mem)) [] t M {} \<and> wellformed_flows E M"
proof -
  obtain M where M: "nat_run E N Map.empty es M" "cm_rep E no_ipv6 (dev_refcnt (cm_v4 mem)) [] t M {}"
    using run_simulates [OF run cm_start_rep K N] by blast
  have "wellformed_flow E k" if "M k = Some i" for k i
    using nat_run_learnt [OF M(1) refl that] run_learnable [OF run] learnable_wellformed
    unfolding learnt_in_def by blast
  then show ?thesis using M(2) unfolding wellformed_flows_def by blast
qed

theorem known_flows_wellformed_witness:
  "\<exists>t M. cm_run demo_env demo_kernel demo_cmk demo_cm [Leaves (Some (demo_ct, (1, 2)))] t \<and>
    cm_rep demo_env no_ipv6 (dev_refcnt (cm_v4 demo_cm_mem)) [] t M {} \<and> wellformed_flows demo_env M"
  using known_flows_wellformed [OF demo_learned(1) demo_cmk_ok demo_kernel_ok] demo_learned(1) by blast

text \<open>
  In every state the program can reach, each of its entry points returns: no loop runs for ever and no
  NULL link is followed. The hypotheses are real restrictions: no device has hardware addresses longer than
  six bytes (the copy of the address is not bounded by the code), and a TCP packet has the options it claims
  in the linear area.
\<close>

theorem every_entry_point_returns:
  assumes run: "cm_run E N K (cm_start cb mem) es t" and K: "cm_kernel_ok K" and N: "kernel_ok N"
    and fresh: "alloc_fresh al (cm_v4 t)" and skb: "skb_ok skb" "tcp_linear skb"
  shows "sfe_cm_post_routing E K ipv6_stubs True al j junk p t \<noteq> None \<and>
    sfe_cm_recv E N K ipv6_stubs proto skb sis now t \<noteq> None \<and>
    sfe_cm_conntrack_event E ipv6_stubs sid sis now is_destroy ct t \<noteq> None \<and>
    sfe_cm_device_event E ipv6_stubs sis nows event dev t \<noteq> None \<and>
    sfe_cm_inet_event E sis nows event dev t \<noteq> None \<and>
    cm_tick K sis now j t \<noteq> None \<and>
    cm_exit_quiesce E ipv6_stubs sis nows (held, t) \<noteq> None"
proof -
  obtain M where R: "cm_rep E no_ipv6 (dev_refcnt (cm_v4 mem)) [] t M {}"
    using run_simulates [OF run cm_start_rep K N] by blast
  have "cm_exit_quiesce E ipv6_stubs sis nows (held, t) \<noteq> None"
    by (rule stub6.quiesce_rep [OF R, of sis nows held]) simp
  then show ?thesis
    using entry_points_return(1) [OF R K N fresh] entry_points_return(2) [OF R K N skb]
      entry_points_return(3-6) [OF R K N] by simp
qed

theorem every_entry_point_returns_witness:
  "sfe_cm_post_routing demo_env demo_cmk ipv6_stubs True
     \<lparr>al_conn = Some 5, al_original = Some 6, al_reply = Some 7\<rparr> 200 demo_sic demo_pkt demo_learned \<noteq> None \<and>
   sfe_cm_recv demo_env demo_kernel demo_cmk ipv6_stubs 0x0800 demo_skb demo_sis 5 demo_learned \<noteq> None \<and>
   sfe_cm_conntrack_event demo_env ipv6_stubs demo_sid demo_sis 5 True (Some 0) demo_learned \<noteq> None \<and>
   sfe_cm_device_event demo_env ipv6_stubs demo_sis (\<lambda>_. 5) NETDEV_DOWN (Some 2) demo_learned \<noteq> None \<and>
   sfe_cm_inet_event demo_env demo_sis (\<lambda>_. 5) NETDEV_DOWN (Some 2) demo_learned \<noteq> None \<and>
   cm_tick demo_cmk demo_sis 5 200 demo_learned \<noteq> None \<and>
   cm_exit_quiesce demo_env ipv6_stubs demo_sis (\<lambda>_. 5) ({}, demo_learned) \<noteq> None"
proof -
  have "alloc_fresh \<lparr>al_conn = Some 5, al_original = Some 6, al_reply = Some 7\<rparr> (cm_v4 demo_learned)"
    unfolding demo_learned_v4 by code_simp
  from every_entry_point_returns [OF demo_learned(1) demo_cmk_ok demo_kernel_ok this demo_skb_ok] show ?thesis by blast
qed

text \<open>
  C9: One run of the timer function moves counts from the fast path to the connection tracking, and counts
  none of them twice or not at all. For a flow that is the only one of its connection and each of the
  four counters (packets and bytes of either direction), the sum of what the engine has gathered since
  the last report and what the connection tracking has accounted is the same before and after; and
  if a callback is registered and the flow is among the first of the active list, up to a 64th of the
  connections rounded up, nothing of it is left in the engine, so all that was gathered is accounted.
\<close>

theorem report_conserves_counts:
  assumes "engine_inv E base (cm_v4 s) A D" and "d \<in> set (connl A)"
    and "nf_conntrack_find_get K (key_tuple (conn_key (cm_v4 s) d)) = Some c"
    and "\<And>k. k \<in> dom (flow_map (cm_v4 s) A) \<Longrightarrow> nf_conntrack_find_get K (key_tuple k) = Some c \<Longrightarrow>
      k = conn_key (cm_v4 s) d"
    and "ct_acct (cts s c) = Some a"
  shows "\<exists>t a'. cm_tick K sis now j s = Some t \<and> ct_acct (cts t c) = Some a' \<and>
    (\<forall>x. accounted x a' + unsynced x (cm_v4 t) d = accounted x a + unsynced x (cm_v4 s) d) \<and>
    (due_now (cm_v4 s) A d \<longrightarrow> (\<forall>x. unsynced x (cm_v4 t) d = 0))"
  by (rule tick_accounts [OF assms])

theorem report_conserves_counts_witness:
  "\<exists>(s :: unit sfe_cm) t a. cm_tick demo_cmk demo_sis 9 300 s = Some t \<and> ct_acct (cts t 0) = Some a \<and>
    unsynced OrigPackets (cm_v4 s) 0 = 1 \<and> orig_packets a = 4"
proof (rule demo_fast_run)
  fix out s
  assume R: "cm_rep demo_env no_ipv6 no_refs [] s [tuple_key demo_orig \<mapsto> (tuple_nat demo_reply, (1, 2))] {}"
    and c: "cts s = (\<lambda>_. demo_ct)" and act: "active_head (cm_v4 s) \<noteq> None" "sync_rule_callback (cm_v4 s) \<noteq> None"
    and live: "0 \<in> conn_live (cm_v4 s)" and one: "unsynced OrigPackets (cm_v4 s) 0 = 1"
  let ?a = "\<lparr>orig_packets = 3, orig_bytes = 300, reply_packets = 2, reply_bytes = 200\<rparr>"
  obtain A own where I: "engine_inv demo_env (\<lambda>d. no_refs d + own d) (cm_v4 s) A []"
    and M: "flow_map (cm_v4 s) A = [tuple_key demo_orig \<mapsto> (tuple_nat demo_reply, (1, 2))]"
    using R by (auto simp: cm_rep_def)
  note T = engine_table [OF I]
  have d: "0 \<in> set (connl A)" using live T by (simp add: table_inv_def)
  have keys: "conn_key (cm_v4 s) e = tuple_key demo_orig" if "e \<in> set (connl A)" for e
  proof -
    have "conn_key (cm_v4 s) e \<in> dom (flow_map (cm_v4 s) A)" using that by (simp add: dom_flow_map flow_keys_def)
    then show ?thesis by (simp add: M)
  qed
  have alone: "e = 0" if "e \<in> set (connl A)" for e
    using I keys [OF that] keys [OF d] that d by (auto simp: engine_inv_def inj_on_def)
  note k = keys [OF d]
  have find: "nf_conntrack_find_get demo_cmk (key_tuple (conn_key (cm_v4 s) 0)) = Some 0"
    by (simp add: k key_tuple_def tuple_key_def demo_orig_def v4_addr_def demo_cmk_def AF_INET_def)
  have only: "k' = conn_key (cm_v4 s) 0" if "k' \<in> dom (flow_map (cm_v4 s) A)" for k'
    using that by (simp add: M k)
  have acct: "ct_acct (cts s 0) = Some ?a" by (simp add: c demo_ct_def)
  have "hd_opt (actives A) \<noteq> None" using T act(1) by (auto simp: table_inv_def lists_rep_def dest: act.trepr_hd)
  then have ne: "actives A \<noteq> []" by (auto simp: hd_opt_def)
  then have "cm_connection (cms (cm_v4 s) (actives A ! 0)) = 0" using active_pair(3) [OF T, of "actives A ! 0"] alone by simp
  moreover have "length (connl A) = 1"
  proof -
    have "set (connl A) = {0}" "distinct (connl A)" using d alone T by (auto simp: table_inv_def)
    then show ?thesis using distinct_card [of "connl A"] by simp
  qed
  ultimately have due: "due_now (cm_v4 s) A 0" using ne act(2) by (auto simp: due_now_def)
  obtain t a' where t: "cm_tick demo_cmk demo_sis 9 300 s = Some t" "ct_acct (cts t 0) = Some a'"
    and sum: "\<And>x. accounted x a' + unsynced x (cm_v4 t) 0 = accounted x ?a + unsynced x (cm_v4 s) 0"
    and zero: "\<And>x. unsynced x (cm_v4 t) 0 = 0"
    using report_conserves_counts [OF I d find only acct, of demo_sis 9 300] due by blast
  have "orig_packets a' = 4" using sum [of OrigPackets] zero [of OrigPackets] one by (simp del: unsynced.simps)
  with t one show ?thesis by blast
qed

end
