(* ===== verification/Sfe_Cm_Life.thy ===== *)
theory Sfe_Cm_Life
  imports Sfe_Cm_Runs
begin

text \<open>
  The life of the module: what the start registers and what its error paths leave behind, what the
  end of the module frees after any run, the race between the two halves of the end, and the counters
  in sysfs.
\<close>

section \<open>Start\<close>

definition registered :: "cm_config \<Rightarrow> cm_resource set" where
  "registered C = {CmDir, CmExceptionsFile, DevNotifier, InetNotifier, Inet6Notifier, PostRoutingHooks, ReceiveHook} \<union>
     (if conntrack_events C then {ConntrackNotifier} else {})"

lemma manager_init_cases:
  "sfe_cm_init C V cb dir_ok file_result hook_result ct_result s =
     (if \<not> dir_ok then (-1, {}, s)
      else if file_result \<noteq> 0 then (file_result, {}, s)
      else if hook_result < 0 then (hook_result, {}, s)
      else if conntrack_events C \<and> ct_result < 0
      then (ct_result, if conntrack_chain_events C then {} else {PostRoutingHooks}, s)
      else (0, registered C, cm_register_callbacks V (Some cb) s))"
  by (auto simp: sfe_cm_init_def init_exit2_def init_exit3_def init_exit4_def registered_def Let_def)

text \<open>
  The start of the module either succeeds, with everything registered, or returns an error and touches no
  engine. On an error everything is unregistered again, with one
  exception: without CONFIG_NF_CONNTRACK_CHAIN_EVENTS the post routing hooks stay registered when the
  conntrack notifier cannot be registered.
\<close>

theorem manager_init_errors:
  "case sfe_cm_init C V cb dir_ok file_result hook_result ct_result s of (result, held, t) \<Rightarrow>
     (result = 0) = (dir_ok \<and> file_result = 0 \<and> 0 \<le> hook_result \<and> (if conntrack_events C then 0 \<le> ct_result else True)) \<and>
     held = (if result = 0 then registered C
       else if dir_ok \<and> file_result = 0 \<and> 0 \<le> hook_result \<and> \<not> conntrack_chain_events C then {PostRoutingHooks}
       else {}) \<and>
     t = (if result = 0 then cm_register_callbacks V (Some cb) s else s)"
  by (auto simp: manager_init_cases)

section \<open>End\<close>

lemma step_refs:
  assumes "cm_step E N K s e t" and R: "cm_rep E no_ipv6 base D s M F" and K: "cm_kernel_ok K"
  shows "neigh_refs t = neigh_refs s \<and> dst_refs t = dst_refs s \<and> ct_refs t = ct_refs s"
  using assms(1)
proof cases
  case (cm_leaves al j junk p)
  obtain u where "sfe_cm_post_routing E K ipv6_stubs True al j junk p s = Some u" "same_refs s u"
    by (rule post_routing_flows [OF R K cm_leaves(3)])
  with cm_leaves show ?thesis by (simp add: same_refs_def)
next
  case (cm_arrives proto skb sis now out)
  from recv_v4_rep [OF R cm_arrives(3,2)] show ?thesis by (auto simp: same_refs_def)
next
  case (cm_ends sid sis now is_destroy ct)
  obtain u where "sfe_cm_conntrack_event E ipv6_stubs sid sis now is_destroy ct s = Some u" "same_refs s u"
    by (rule stub6.conntrack_event_rep [OF R])
  with cm_ends show ?thesis by (simp add: same_refs_def)
next
  case (cm_device sis nows event dev)
  obtain u where "sfe_cm_device_event E ipv6_stubs sis nows event dev s = Some u" "same_refs s u"
    by (rule stub6.device_event_rep [OF R])
  with cm_device show ?thesis by (simp add: same_refs_def)
next
  case (cm_inet sis nows event dev)
  obtain u where "sfe_cm_inet_event E sis nows event dev s = Some u" "same_refs s u"
    by (rule stub6.inet_event_rep [OF R])
  with cm_inet show ?thesis by (simp add: same_refs_def)
next
  case (cm_inet6 event dev)
  have "same_refs s (sfe_cm_inet6_event ipv6_stubs event dev s)"
    by (rule stub6.inet6_event_rep [OF R])
  with cm_inet6 show ?thesis by (simp add: same_refs_def)
next
  case (cm_tick sis now j)
  obtain u where "cm_tick K sis now j s = Some u" "neigh_refs u = neigh_refs s" "dst_refs u = dst_refs s"
    "ct_refs u = ct_refs s" by (rule tick_rep [OF R])
  with cm_tick show ?thesis by simp
next
  case (cm_conntrack f)
  then show ?thesis by simp
qed

lemma run_refs:
  assumes "cm_run E N K s es t" and R: "cm_rep E no_ipv6 base D s M F" and K: "cm_kernel_ok K" and N: "kernel_ok N"
  shows "neigh_refs t = neigh_refs s \<and> dst_refs t = dst_refs s \<and> ct_refs t = ct_refs s"
  using assms(1)
proof induction
  case (cm_more es t e u)
  obtain M' where "cm_rep E no_ipv6 base D t M' F" using run_simulates [OF cm_more.hyps(1) R K N] by blast
  from step_refs [OF cm_more.hyps(2) this K] cm_more.IH show ?case by simp
qed simp

text \<open>An engine without flows holds no reference.\<close>

lemma empty_engine:
  assumes I: "engine_inv E base s A []" and m: "flow_map s A = Map.empty"
  shows "dev_refcnt s = base" and "conn_live s = {}" and "cm_live s = {}"
proof -
  have c: "connl A = []" using m by (auto simp: flow_map_def fun_eq_iff map_of_eq_None_iff)
  show "dev_refcnt s = base" using refs_of_base [OF I] by (simp add: c dev_uses_def)
  show "conn_live s = {}" "cm_live s = {}" using I c by (auto simp: engine_inv_def refs_inv_def table_inv_def)
qed

lemma no_flows_no_refs:
  assumes R: "cm_rep E no_ipv6 base [] s Map.empty F"
  shows "dev_refcnt (cm_v4 s) = base" and "conn_live (cm_v4 s) = {}" and "cm_live (cm_v4 s) = {}"
  using R empty_engine by (auto simp: cm_rep_def no_ipv6_def)

text \<open>
  C12: From its start over any run to its end the module leaves nothing behind: the end returns, every
  hook and notifier is unregistered, the engine is empty with all its objects freed, and the references on devices,
  neighbours, routes and connection tracking entries are what they were before the start.
\<close>

theorem module_leaves_nothing:
  assumes init: "sfe_cm_init C ipv6_stubs cb dir_ok file_result hook_result ct_result
      (mem\<lparr>cm_v4 := engine_start (cm_v4 mem)\<rparr>) = (0, held, s)"
    and run: "cm_run E N K s es t" and K: "cm_kernel_ok K" and N: "kernel_ok N"
  shows "\<exists>u. sfe_cm_exit C E ipv6_stubs sis now (held, t) = Some ({}, u) \<and>
    cm_rep E no_ipv6 (dev_refcnt (cm_v4 mem)) [] u Map.empty {} \<and>
    conn_live (cm_v4 u) = {} \<and> cm_live (cm_v4 u) = {} \<and> dev_refcnt (cm_v4 u) = dev_refcnt (cm_v4 mem) \<and>
    neigh_refs u = neigh_refs mem \<and> dst_refs u = dst_refs mem \<and> ct_refs u = ct_refs mem"
proof -
  have held: "held = registered C" and s: "s = cm_start cb mem"
    using init by (auto simp: manager_init_cases cm_start_def split: if_splits)
  have run: "cm_run E N K (cm_start cb mem) es t" using run by (simp add: s)
  obtain M where R: "cm_rep E no_ipv6 (dev_refcnt (cm_v4 mem)) [] t M {}"
    using run_simulates [OF run cm_start_rep K N] by blast
  obtain u where u: "cm_exit_quiesce E ipv6_stubs sis now (held, t) = Some (held - {ReceiveHook}, u)"
    and e: "cm_rep E no_ipv6 (dev_refcnt (cm_v4 mem)) [] u Map.empty {}" and f: "same_refs t u"
    by (rule stub6.quiesce_rep [OF R])
  have "cm_exit_unregister C (held - {ReceiveHook}) = {}"
    by (auto simp: held registered_def cm_exit_unregister_def Let_def)
  with u have "sfe_cm_exit C E ipv6_stubs sis now (held, t) = Some ({}, u)" by (simp add: sfe_cm_exit_def)
  moreover have "neigh_refs u = neigh_refs mem \<and> dst_refs u = dst_refs mem \<and> ct_refs u = ct_refs mem"
    using run_refs [OF run cm_start_rep K N] f
    by (simp add: same_refs_def cm_start_def cm_register_callbacks_def)
  ultimately show ?thesis using e no_flows_no_refs [OF e] by blast
qed

theorem module_leaves_nothing_witness:
  "\<exists>held s t u. sfe_cm_init \<lparr>conntrack_events = True, conntrack_chain_events = True\<rparr> ipv6_stubs 7 True 0 0 0
       (demo_cm_mem\<lparr>cm_v4 := engine_start (cm_v4 demo_cm_mem)\<rparr>) = (0, held, s) \<and>
     cm_run demo_env demo_kernel demo_cmk s [Leaves (Some (demo_ct, (1, 2)))] t \<and>
     sfe_cm_exit \<lparr>conntrack_events = True, conntrack_chain_events = True\<rparr> demo_env ipv6_stubs demo_sis (\<lambda>_. 9) (held, t) =
       Some ({}, u) \<and> dev_refcnt (cm_v4 u) = dev_refcnt (cm_v4 demo_cm_mem)"
proof -
  let ?C = "\<lparr>conntrack_events = True, conntrack_chain_events = True\<rparr>"
  have i: "sfe_cm_init ?C ipv6_stubs 7 True 0 0 0 (demo_cm_mem\<lparr>cm_v4 := engine_start (cm_v4 demo_cm_mem)\<rparr>) =
      (0, registered ?C, demo_cm)"
    by (simp add: manager_init_cases cm_start_def)
  show ?thesis
    using module_leaves_nothing [OF i demo_learned(1) demo_cmk_ok demo_kernel_ok, of demo_sis "\<lambda>_. 9"]
      i demo_learned(1) by blast
qed

text \<open>
  C39: The end of the module destroys all flows while the post routing hooks are still registered. A
  packet that passes the hooks of another processor in between leaves its flow in the engine, which
  keeps a reference on its devices that no notifier will ever release.
\<close>

theorem unload_race_leaves_flow:
  "\<exists>t u. cm_exit_quiesce demo_env ipv6_stubs demo_sis (\<lambda>_. 9)
       (registered \<lparr>conntrack_events = True, conntrack_chain_events = True\<rparr>, demo_learned) =
     Some (registered \<lparr>conntrack_events = True, conntrack_chain_events = True\<rparr> - {ReceiveHook}, t) \<and>
     sfe_cm_post_routing demo_env demo_cmk ipv6_stubs True demo_alloc 100 demo_sic demo_pkt t = Some u \<and>
     cm_exit_unregister \<lparr>conntrack_events = True, conntrack_chain_events = True\<rparr>
       (registered \<lparr>conntrack_events = True, conntrack_chain_events = True\<rparr> - {ReceiveHook}) = {} \<and>
     cm_rep demo_env no_ipv6 no_refs [] u [tuple_key demo_orig \<mapsto> (tuple_nat demo_reply, (1, 2))] {}"
proof -
  let ?C = "\<lparr>conntrack_events = True, conntrack_chain_events = True\<rparr>"
  obtain t where t: "cm_exit_quiesce demo_env ipv6_stubs demo_sis (\<lambda>_. 9) (registered ?C, demo_learned) =
      Some (registered ?C - {ReceiveHook}, t)"
    and e: "cm_rep demo_env no_ipv6 no_refs [] t Map.empty {}" and f: "same_refs demo_learned t"
    by (rule stub6.quiesce_rep [OF demo_learned(2)])
  have fresh: "alloc_fresh demo_alloc (cm_v4 t)"
    using no_flows_no_refs [OF e] by (simp add: alloc_fresh_def demo_alloc_def)
  have c: "cts t = (\<lambda>_. demo_ct)" using f demo_learned(3) by (simp add: same_refs_def)
  obtain u where u: "sfe_cm_post_routing demo_env demo_cmk ipv6_stubs True demo_alloc 100 demo_sic demo_pkt t = Some u"
    and r: "cm_rep demo_env no_ipv6 no_refs [] u (learn (accelerated demo_env demo_cmk demo_pkt demo_alloc (cts t)) Map.empty) {}"
    by (rule post_routing_flows [OF e demo_cmk_ok fresh])
  have "cm_rep demo_env no_ipv6 no_refs [] u [tuple_key demo_orig \<mapsto> (tuple_nat demo_reply, (1, 2))] {}"
    using r by (simp add: c demo_accelerated learn_def) (simp add: demo_ct_def)
  moreover have "cm_exit_unregister ?C (registered ?C - {ReceiveHook}) = {}"
    by (auto simp: registered_def cm_exit_unregister_def Let_def)
  ultimately show ?thesis using t u by blast
qed

section \<open>The counters in sysfs\<close>

lemma length_sdec: "length (sdec w) \<le> 11"
proof -
  have "length (dec n) \<le> 10" if "n \<le> 2147483648" for n by (rule length_dec) (use that in simp_all)
  moreover have "nat (sint w) \<le> 2147483648" "nat (- sint w) \<le> 2147483648"
    using sint_greater_eq [of w] sint_less [of w] by simp_all
  ultimately have "length (dec (nat (sint w))) \<le> 10" "length (dec (nat (- sint w))) \<le> 10" by blast+
  then show ?thesis by (simp add: sdec_def)
qed

lemma length_exception_line: "length (exception_line cnt e) \<le> 40"
proof -
  have "length (sfe_cm_exception_events_string e) \<le> 24" by (cases e) simp_all
  then show ?thesis using length_sdec [of "cnt e"] by (simp add: exception_line_def newline_def)
qed

lemma exceptions_loop_conv:
  "length buf + 40 * length es < PAGE_SIZE \<Longrightarrow>
     exceptions_loop cnt es (buf, length buf) =
       (buf @ concat (map (exception_line cnt) es), length (buf @ concat (map (exception_line cnt) es)))"
proof (induction es arbitrary: buf)
  case (Cons e es)
  let ?line = "exception_line cnt e"
  have l: "length ?line \<le> 40" by (rule length_exception_line)
  with Cons.prems have "take (PAGE_SIZE - length buf - 1) ?line = ?line" by simp
  moreover have "length (buf @ ?line) + 40 * length es < PAGE_SIZE" using Cons.prems l by simp
  note Cons.IH [OF this]
  ultimately show ?case by (simp add: Let_def add.assoc)
qed simp

text \<open>
  C40: The text of the counters is complete and fits: every counter that is not zero has its line, in the
  order of the table, no line is cut, and the length, the end of the string included, is within the page.
\<close>

theorem sysfs_counters_complete:
  "sfe_cm_get_exceptions s =
     (let text = concat (map (exception_line (cm_exceptions s)) cm_all_exceptions) in (text, length text)) \<and>
   snd (sfe_cm_get_exceptions s) < PAGE_SIZE \<and> set cm_all_exceptions = UNIV \<and> distinct cm_all_exceptions"
proof -
  let ?text = "concat (map (exception_line (cm_exceptions s)) cm_all_exceptions)"
  have n: "length cm_all_exceptions = 18" by (simp add: cm_all_exceptions_def)
  then have "length ([] :: string) + 40 * length cm_all_exceptions < PAGE_SIZE" by (simp add: PAGE_SIZE_def)
  from exceptions_loop_conv [OF this, of "cm_exceptions s"]
  have eq: "sfe_cm_get_exceptions s = (?text, length ?text)"
    by (simp only: sfe_cm_get_exceptions_def append_Nil list.size)
  have "length (concat (map (exception_line cnt) es)) \<le> 40 * length es" for cnt es
  proof (induction es)
    case (Cons e es)
    then show ?case using length_exception_line [of cnt e] by simp
  qed simp
  from this [of "cm_exceptions s" cm_all_exceptions] have "snd (sfe_cm_get_exceptions s) < PAGE_SIZE"
    unfolding eq snd_conv n by (simp add: PAGE_SIZE_def)
  moreover have "e \<in> set cm_all_exceptions" for e by (cases e) (simp_all add: cm_all_exceptions_def)
  then have "set cm_all_exceptions = UNIV" by blast
  moreover have "distinct cm_all_exceptions" by (simp add: cm_all_exceptions_def)
  ultimately show ?thesis by (simp only: eq Let_def)
qed

end
