(* ===== verification/Sfe6_Types.thy ===== *)
theory Sfe6_Types
  imports Sfe_Table Sfe_Skb
begin

text \<open>
  Data of the IPv6 engine (package/network/utils/shortcut-fe/src/sfe_ipv6.c). The structure is that of the
  IPv4 engine, with addresses of four words. What both engines share is taken from \<open>Sfe_Types\<close>: devices,
  the messages of sfe_cm.h, the flags of a match, which have the same values, and the TCP window record.
  Names that clash with those of the IPv4 engine end in 6.
\<close>

section \<open>Addresses\<close>

text \<open>\<open>struct sfe_ipv6_addr\<close>, the member \<open>ip6\<close> of the union \<open>sfe_ip_addr_t\<close>.\<close>

type_synonym sfe_ipv6_addr = sfe_ip_addr

abbreviation (input) ip6 :: "sfe_ip_addr \<Rightarrow> sfe_ipv6_addr" where "ip6 a \<equiv> a"

definition sfe_ipv6_addr_equal :: "sfe_ipv6_addr \<Rightarrow> sfe_ipv6_addr \<Rightarrow> bool" where
  "sfe_ipv6_addr_equal a b \<longleftrightarrow> addr0 a = addr0 b \<and> addr1 a = addr1 b \<and> addr2 a = addr2 b \<and> addr3 a = addr3 b"

lemma sfe_ipv6_addr_equal_iff [simp]: "sfe_ipv6_addr_equal a b \<longleftrightarrow> a = b"
  by (auto simp: sfe_ipv6_addr_equal_def intro: sfe_ip_addr.equality)

definition IPPROTO_ICMPV6 :: u32 where "IPPROTO_ICMPV6 = 58"

section \<open>Connection matches and connections\<close>

record sfe_ipv6_connection_match =
  cm_connection6 :: conn_ptr
  cm_counter_match6 :: cm_ptr
  match_dev6 :: netdev
  match_protocol6 :: u8
  match_src_ip6 :: sfe_ipv6_addr
  match_dest_ip6 :: sfe_ipv6_addr
  match_src_port6 :: u16
  match_dest_port6 :: u16
  cm_flags6 :: u32
  flow_accel6 :: u32
  cm_tcp6 :: sfe_ipv4_tcp_connection_match
  rx_packet_count6 :: u32
  rx_byte_count6 :: u32
  xlate_src_ip6 :: sfe_ipv6_addr
  xlate_src_port6 :: u16
  xlate_src_csum_adjustment6 :: u16
  xlate_dest_ip6 :: sfe_ipv6_addr
  xlate_dest_port6 :: u16
  xlate_dest_csum_adjustment6 :: u16
  cm_priority6 :: u32
  cm_dscp6 :: u32
  xmit_dev6 :: netdev
  xmit_dev_mtu6 :: u16
  xmit_dest_mac6 :: mac
  xmit_src_mac6 :: mac
  rx_packet_count64_6 :: u64
  rx_byte_count64_6 :: u64

record sfe_ipv6_connection =
  c_protocol6 :: u32
  c_src_ip6 :: sfe_ipv6_addr
  c_src_ip_xlate6 :: sfe_ipv6_addr
  c_dest_ip6 :: sfe_ipv6_addr
  c_dest_ip_xlate6 :: sfe_ipv6_addr
  c_src_port6 :: u16
  c_src_port_xlate6 :: u16
  c_dest_port6 :: u16
  c_dest_port_xlate6 :: u16
  original_match6 :: cm_ptr
  original_dev6 :: netdev
  reply_match6 :: cm_ptr
  reply_dev6 :: netdev
  last_sync_jiffies6 :: u64
  c_mark6 :: u32
  c_debug_read_seq6 :: u32

section \<open>Exception events\<close>

datatype sfe_ipv6_exception_events =
    V6_UDP_HEADER_INCOMPLETE | V6_UDP_NO_CONNECTION | V6_UDP_IP_OPTIONS_OR_INITIAL_FRAGMENT
  | V6_UDP_SMALL_TTL | V6_UDP_NEEDS_FRAGMENTATION
  | V6_TCP_HEADER_INCOMPLETE | V6_TCP_NO_CONNECTION_SLOW_FLAGS | V6_TCP_NO_CONNECTION_FAST_FLAGS
  | V6_TCP_IP_OPTIONS_OR_INITIAL_FRAGMENT | V6_TCP_SMALL_TTL | V6_TCP_NEEDS_FRAGMENTATION | V6_TCP_FLAGS
  | V6_TCP_SEQ_EXCEEDS_RIGHT_EDGE | V6_TCP_SMALL_DATA_OFFS | V6_TCP_BAD_SACK | V6_TCP_BIG_DATA_OFFS
  | V6_TCP_SEQ_BEFORE_LEFT_EDGE | V6_TCP_ACK_EXCEEDS_RIGHT_EDGE | V6_TCP_ACK_BEFORE_LEFT_EDGE
  | V6_ICMP_HEADER_INCOMPLETE | V6_ICMP_UNHANDLED_TYPE | V6_ICMP_IPV6_HEADER_INCOMPLETE
  | V6_ICMP_IPV6_NON_V6 | V6_ICMP_IPV6_IP_OPTIONS_INCOMPLETE | V6_ICMP_IPV6_UDP_HEADER_INCOMPLETE
  | V6_ICMP_IPV6_TCP_HEADER_INCOMPLETE | V6_ICMP_IPV6_UNHANDLED_PROTOCOL | V6_ICMP_NO_CONNECTION
  | V6_ICMP_FLUSHED_CONNECTION
  | V6_HEADER_INCOMPLETE | V6_BAD_TOTAL_LENGTH | V6_NON_V6 | V6_NON_INITIAL_FRAGMENT | V6_DATAGRAM_INCOMPLETE
  | V6_IP_OPTIONS_INCOMPLETE | V6_UNHANDLED_PROTOCOL | V6_FLOW_COOKIE_ADD_FAIL | V6_CLONED_SKB_UNSHARE_ERROR

section \<open>The engine\<close>

text \<open>Kernel memory: link fields, the other fields, which objects are allocated, device references.\<close>

record sfe_heap6 =
  match_next6 :: "cm_ptr \<Rightarrow> cm_ptr option"
  match_prev6 :: "cm_ptr \<Rightarrow> cm_ptr option"
  active_next6 :: "cm_ptr \<Rightarrow> cm_ptr option"
  active_prev6 :: "cm_ptr \<Rightarrow> cm_ptr option"
  match_active6 :: "cm_ptr \<Rightarrow> bool"
  cms6 :: "cm_ptr \<Rightarrow> sfe_ipv6_connection_match"
  conn_next6 :: "conn_ptr \<Rightarrow> conn_ptr option"
  conn_prev6 :: "conn_ptr \<Rightarrow> conn_ptr option"
  all_next6 :: "conn_ptr \<Rightarrow> conn_ptr option"
  all_prev6 :: "conn_ptr \<Rightarrow> conn_ptr option"
  conns6 :: "conn_ptr \<Rightarrow> sfe_ipv6_connection"
  cm_live6 :: "cm_ptr set"
  conn_live6 :: "conn_ptr set"
  dev_refcnt6 :: "netdev \<Rightarrow> int"

record sfe_ipv6 = sfe_heap6 +
  active_head6 :: "cm_ptr option"
  active_tail6 :: "cm_ptr option"
  all_connections_head6 :: "conn_ptr option"
  all_connections_tail6 :: "conn_ptr option"
  num_connections6 :: u32
  sync_rule_callback6 :: "nat option"
  conn_hash6 :: "u32 \<Rightarrow> conn_ptr option"
  conn_match_hash6 :: "u32 \<Rightarrow> cm_ptr option"
  connection_create_requests6 :: u32
  connection_create_collisions6 :: u32
  connection_destroy_requests6 :: u32
  connection_destroy_misses6 :: u32
  connection_match_hash_hits6 :: u32
  connection_match_hash_reorders6 :: u32
  connection_flushes6 :: u32
  packets_forwarded6 :: u32
  packets_not_forwarded6 :: u32
  exception_events6 :: "sfe_ipv6_exception_events \<Rightarrow> u32"
  connection_create_requests64_6 :: u64
  connection_create_collisions64_6 :: u64
  connection_destroy_requests64_6 :: u64
  connection_destroy_misses64_6 :: u64
  connection_match_hash_hits64_6 :: u64
  connection_match_hash_reorders64_6 :: u64
  connection_flushes64_6 :: u64
  packets_forwarded64_6 :: u64
  packets_not_forwarded64_6 :: u64
  exception_events64_6 :: "sfe_ipv6_exception_events \<Rightarrow> u64"
  debug_read_seq6 :: u32
  sync_calls6 :: "(nat \<times> sfe_connection_sync) list" \<comment> \<open>calls of the sync callback, oldest first\<close>

text \<open>\<open>si->exception_events6[e]++; si->packets_not_forwarded6++\<close>, the end of every rejected packet.\<close>

definition count_exception6 :: "sfe_ipv6_exception_events \<Rightarrow> sfe_ipv6 \<Rightarrow> sfe_ipv6" where
  "count_exception6 e s = s\<lparr>exception_events6 := (exception_events6 s)(e := exception_events6 s e + 1),
     packets_not_forwarded6 := packets_not_forwarded6 s + 1\<rparr>"

section \<open>Assignments to link fields and list heads\<close>

definition set_match_next6 :: "cm_ptr \<Rightarrow> cm_ptr option \<Rightarrow> sfe_ipv6 \<Rightarrow> sfe_ipv6" where
  "set_match_next6 p v s = s\<lparr>match_next6 := (match_next6 s)(p := v)\<rparr>"

definition set_match_prev6 :: "cm_ptr \<Rightarrow> cm_ptr option \<Rightarrow> sfe_ipv6 \<Rightarrow> sfe_ipv6" where
  "set_match_prev6 p v s = s\<lparr>match_prev6 := (match_prev6 s)(p := v)\<rparr>"

definition set_conn_match_hash6 :: "u32 \<Rightarrow> cm_ptr option \<Rightarrow> sfe_ipv6 \<Rightarrow> sfe_ipv6" where
  "set_conn_match_hash6 i v s = s\<lparr>conn_match_hash6 := (conn_match_hash6 s)(i := v)\<rparr>"

definition set_active_next6 :: "cm_ptr \<Rightarrow> cm_ptr option \<Rightarrow> sfe_ipv6 \<Rightarrow> sfe_ipv6" where
  "set_active_next6 p v s = s\<lparr>active_next6 := (active_next6 s)(p := v)\<rparr>"

definition set_active_prev6 :: "cm_ptr \<Rightarrow> cm_ptr option \<Rightarrow> sfe_ipv6 \<Rightarrow> sfe_ipv6" where
  "set_active_prev6 p v s = s\<lparr>active_prev6 := (active_prev6 s)(p := v)\<rparr>"

definition set_active_head6 :: "cm_ptr option \<Rightarrow> sfe_ipv6 \<Rightarrow> sfe_ipv6" where
  "set_active_head6 v s = s\<lparr>active_head6 := v\<rparr>"

definition set_active_tail6 :: "cm_ptr option \<Rightarrow> sfe_ipv6 \<Rightarrow> sfe_ipv6" where
  "set_active_tail6 v s = s\<lparr>active_tail6 := v\<rparr>"

definition set_conn_next6 :: "conn_ptr \<Rightarrow> conn_ptr option \<Rightarrow> sfe_ipv6 \<Rightarrow> sfe_ipv6" where
  "set_conn_next6 p v s = s\<lparr>conn_next6 := (conn_next6 s)(p := v)\<rparr>"

definition set_conn_prev6 :: "conn_ptr \<Rightarrow> conn_ptr option \<Rightarrow> sfe_ipv6 \<Rightarrow> sfe_ipv6" where
  "set_conn_prev6 p v s = s\<lparr>conn_prev6 := (conn_prev6 s)(p := v)\<rparr>"

definition set_conn_hash6 :: "u32 \<Rightarrow> conn_ptr option \<Rightarrow> sfe_ipv6 \<Rightarrow> sfe_ipv6" where
  "set_conn_hash6 i v s = s\<lparr>conn_hash6 := (conn_hash6 s)(i := v)\<rparr>"

definition set_all_next6 :: "conn_ptr \<Rightarrow> conn_ptr option \<Rightarrow> sfe_ipv6 \<Rightarrow> sfe_ipv6" where
  "set_all_next6 p v s = s\<lparr>all_next6 := (all_next6 s)(p := v)\<rparr>"

definition set_all_prev6 :: "conn_ptr \<Rightarrow> conn_ptr option \<Rightarrow> sfe_ipv6 \<Rightarrow> sfe_ipv6" where
  "set_all_prev6 p v s = s\<lparr>all_prev6 := (all_prev6 s)(p := v)\<rparr>"

definition set_all_head6 :: "conn_ptr option \<Rightarrow> sfe_ipv6 \<Rightarrow> sfe_ipv6" where
  "set_all_head6 v s = s\<lparr>all_connections_head6 := v\<rparr>"

definition set_all_tail6 :: "conn_ptr option \<Rightarrow> sfe_ipv6 \<Rightarrow> sfe_ipv6" where
  "set_all_tail6 v s = s\<lparr>all_connections_tail6 := v\<rparr>"

lemmas setter_defs6 = set_match_next6_def set_match_prev6_def set_conn_match_hash6_def
  set_active_next6_def set_active_prev6_def set_active_head6_def set_active_tail6_def
  set_conn_next6_def set_conn_prev6_def set_conn_hash6_def
  set_all_next6_def set_all_prev6_def set_all_head6_def set_all_tail6_def

section \<open>The four lists of the engine\<close>

interpretation mch6: dlist_store match_next6 match_prev6 conn_match_hash6
  set_match_next6 set_match_prev6 set_conn_match_hash6
  by unfold_locales (simp_all add: setter_defs6)

interpretation cch6: dlist_store conn_next6 conn_prev6 conn_hash6
  set_conn_next6 set_conn_prev6 set_conn_hash6
  by unfold_locales (simp_all add: setter_defs6)

interpretation act6: dlist_tail_store active_next6 active_prev6 "\<lambda>s _. active_head6 s"
  set_active_next6 set_active_prev6 "\<lambda>_. set_active_head6" active_tail6 set_active_tail6
  by unfold_locales (simp_all add: setter_defs6 fun_eq_iff)

interpretation alls6: dlist_tail_store all_next6 all_prev6 "\<lambda>s _. all_connections_head6 s"
  set_all_next6 set_all_prev6 "\<lambda>_. set_all_head6" all_connections_tail6 set_all_tail6
  by unfold_locales (simp_all add: setter_defs6 fun_eq_iff)

end
