(* ===== verification/Sfe6_Table.thy ===== *)
theory Sfe6_Table
  imports Sfe6_Types
begin

text \<open>
  The tables of the engine: hash functions, look-up, insertion and removal of connections and of
  their two matches (sfe_ipv6.c, \<open>sfe_ipv6_get_connection_match_hash\<close> to
  \<open>sfe_ipv6_remove_connection\<close>), statement by statement on the pointer structures. A
  chain walk that may not end and a dereference of NULL give None. The build has no
  CONFIG_NF_FLOW_COOKIE, so the flow cookie blocks are compiled out and have no model.
\<close>

section \<open>Hash functions\<close>

definition SFE_IPV6_CONNECTION_HASH_SHIFT :: nat where "SFE_IPV6_CONNECTION_HASH_SHIFT = 12"
definition SFE_IPV6_CONNECTION_HASH_SIZE :: u32 where
  "SFE_IPV6_CONNECTION_HASH_SIZE = push_bit SFE_IPV6_CONNECTION_HASH_SHIFT 1"
definition SFE_IPV6_CONNECTION_HASH_MASK :: u32 where
  "SFE_IPV6_CONNECTION_HASH_MASK = SFE_IPV6_CONNECTION_HASH_SIZE - 1"

lemmas hash_consts6 = SFE_IPV6_CONNECTION_HASH_SHIFT_def SFE_IPV6_CONNECTION_HASH_SIZE_def
  SFE_IPV6_CONNECTION_HASH_MASK_def

text \<open>The exclusive or of the words of both addresses, \<open>for (idx = 0; idx < 4; idx++)\<close>.\<close>

definition addr_words :: "sfe_ipv6_addr \<Rightarrow> u32 list" where
  "addr_words a = [addr0 a, addr1 a, addr2 a, addr3 a]"

definition xor_addrs :: "sfe_ipv6_addr \<Rightarrow> sfe_ipv6_addr \<Rightarrow> u32" where
  "xor_addrs src_ip dest_ip =
     fold (\<lambda>(a, b) hash. hash XOR (a XOR b)) (zip (addr_words src_ip) (addr_words dest_ip)) 0"

definition sfe_ipv6_get_connection_match_hash ::
  "sfe_env \<Rightarrow> netdev \<Rightarrow> u8 \<Rightarrow> sfe_ipv6_addr \<Rightarrow> u16 \<Rightarrow> sfe_ipv6_addr \<Rightarrow> u16 \<Rightarrow> u32" where
  "sfe_ipv6_get_connection_match_hash E dev protocol src_ip src_port dest_ip dest_port =
     (let hash = (ucast dev :: u32) XOR xor_addrs src_ip dest_ip XOR ucast protocol
                 XOR ucast (ntohs E (src_port XOR dest_port))
      in (drop_bit SFE_IPV6_CONNECTION_HASH_SHIFT hash XOR hash) AND SFE_IPV6_CONNECTION_HASH_MASK)"

definition sfe_ipv6_get_connection_hash ::
  "sfe_env \<Rightarrow> u8 \<Rightarrow> sfe_ipv6_addr \<Rightarrow> u16 \<Rightarrow> sfe_ipv6_addr \<Rightarrow> u16 \<Rightarrow> u32" where
  "sfe_ipv6_get_connection_hash E protocol src_ip src_port dest_ip dest_port =
     (let hash = xor_addrs src_ip dest_ip XOR ucast protocol XOR ucast (ntohs E (src_port XOR dest_port))
      in (drop_bit SFE_IPV6_CONNECTION_HASH_SHIFT hash XOR hash) AND SFE_IPV6_CONNECTION_HASH_MASK)"

text \<open>The hash of a match entry and of a connection, from the entry's own fields.\<close>

definition cm_hash6 :: "sfe_env \<Rightarrow> sfe_ipv6_connection_match \<Rightarrow> u32" where
  "cm_hash6 E m = sfe_ipv6_get_connection_match_hash E (match_dev6 m) (match_protocol6 m)
     (match_src_ip6 m) (match_src_port6 m) (match_dest_ip6 m) (match_dest_port6 m)"

definition c_hash6 :: "sfe_env \<Rightarrow> sfe_ipv6_connection \<Rightarrow> u32" where
  "c_hash6 E c = sfe_ipv6_get_connection_hash E (ucast (c_protocol6 c))
     (c_src_ip6 c) (c_src_port6 c) (c_dest_ip6 c) (c_dest_port6 c)"

section \<open>Look-up of a match\<close>

definition match_is6 ::
  "sfe_ipv6_connection_match \<Rightarrow> netdev \<Rightarrow> u8 \<Rightarrow> sfe_ipv6_addr \<Rightarrow> u16 \<Rightarrow> sfe_ipv6_addr \<Rightarrow> u16 \<Rightarrow> bool" where
  "match_is6 m dev protocol src_ip src_port dest_ip dest_port \<longleftrightarrow>
     match_src_port6 m = src_port \<and> match_dest_port6 m = dest_port \<and> sfe_ipv6_addr_equal (match_src_ip6 m) src_ip \<and>
     sfe_ipv6_addr_equal (match_dest_ip6 m) dest_ip \<and> match_protocol6 m = protocol \<and> match_dev6 m = dev"

text \<open>\<open>do cm = cm->next; while (cm && cm does not match)\<close>, entered with \<open>cm->next\<close>.\<close>

partial_function (option) match_chain_search6 ::
  "(cm_ptr \<Rightarrow> cm_ptr option) \<Rightarrow> (cm_ptr \<Rightarrow> bool) \<Rightarrow> cm_ptr option \<Rightarrow> cm_ptr option option" where
  "match_chain_search6 nx P cm =
     (case cm of None \<Rightarrow> Some None
      | Some p \<Rightarrow> if P p then Some (Some p) else match_chain_search6 nx P (nx p))"

declare match_chain_search6.simps [code]

definition sfe_ipv6_find_connection_match ::
  "sfe_env \<Rightarrow> netdev \<Rightarrow> u8 \<Rightarrow> sfe_ipv6_addr \<Rightarrow> u16 \<Rightarrow> sfe_ipv6_addr \<Rightarrow> u16 \<Rightarrow> sfe_ipv6 \<Rightarrow> (cm_ptr option \<times> sfe_ipv6) option" where
  "sfe_ipv6_find_connection_match E dev protocol src_ip src_port dest_ip dest_port s =
     (let idx = sfe_ipv6_get_connection_match_hash E dev protocol src_ip src_port dest_ip dest_port;
          is = (\<lambda>p. match_is6 (cms6 s p) dev protocol src_ip src_port dest_ip dest_port)
      in case conn_match_hash6 s idx of
           None \<Rightarrow> Some (None, s)
         | Some head \<Rightarrow>
             if is head
             then Some (Some head, s\<lparr>connection_match_hash_hits6 := connection_match_hash_hits6 s + 1\<rparr>)
             else do {
               r \<leftarrow> match_chain_search6 (match_next6 s) is (match_next6 s head);
               (case r of
                  None \<Rightarrow> Some (None, s)
                | Some cm \<Rightarrow> do {
                    let s1 = (case match_next6 s cm of
                                Some n \<Rightarrow> set_match_prev6 n (match_prev6 s cm) s
                              | None \<Rightarrow> s);
                    p \<leftarrow> match_prev6 s1 cm;
                    let s2 = set_match_next6 p (match_next6 s1 cm) s1;
                    let s3 = set_match_prev6 cm None s2;
                    let s4 = set_match_next6 cm (Some head) s3;
                    let s5 = set_match_prev6 head (Some cm) s4;
                    let s6 = set_conn_match_hash6 idx (Some cm) s5;
                    Some (Some cm, s6\<lparr>connection_match_hash_reorders6 := connection_match_hash_reorders6 s6 + 1\<rparr>)
                  })
             })"

section \<open>Insertion and removal of a match\<close>

definition sfe_ipv6_insert_connection_match :: "sfe_env \<Rightarrow> cm_ptr \<Rightarrow> sfe_ipv6 \<Rightarrow> sfe_ipv6" where
  "sfe_ipv6_insert_connection_match E cm s =
     (let idx = cm_hash6 E (cms6 s cm);
          prev_head = conn_match_hash6 s idx;
          s1 = set_match_prev6 cm None s;
          s2 = (case prev_head of Some h \<Rightarrow> set_match_prev6 h (Some cm) s1 | None \<Rightarrow> s1);
          s3 = set_match_next6 cm prev_head s2
      in set_conn_match_hash6 idx (Some cm) s3)"

definition sfe_ipv6_remove_connection_match :: "sfe_env \<Rightarrow> cm_ptr \<Rightarrow> sfe_ipv6 \<Rightarrow> sfe_ipv6" where
  "sfe_ipv6_remove_connection_match E cm s =
     (let s1 = (case match_prev6 s cm of
                  Some p \<Rightarrow> set_match_next6 p (match_next6 s cm) s
                | None \<Rightarrow> set_conn_match_hash6 (cm_hash6 E (cms6 s cm)) (match_next6 s cm) s);
          s2 = (case match_next6 s1 cm of
                  Some n \<Rightarrow> set_match_prev6 n (match_prev6 s1 cm) s1
                | None \<Rightarrow> s1)
      in if match_active6 s2 cm then
           (let s3 = (case active_prev6 s2 cm of
                        Some p \<Rightarrow> set_active_next6 p (active_next6 s2 cm) s2
                      | None \<Rightarrow> set_active_head6 (active_next6 s2 cm) s2)
            in case active_next6 s3 cm of
                 Some n \<Rightarrow> set_active_prev6 n (active_prev6 s3 cm) s3
               | None \<Rightarrow> set_active_tail6 (active_prev6 s3 cm) s3)
         else s2)"

section \<open>Look-up, insertion and removal of a connection\<close>

definition conn_is6 ::
  "sfe_ipv6_connection \<Rightarrow> u32 \<Rightarrow> sfe_ipv6_addr \<Rightarrow> u16 \<Rightarrow> sfe_ipv6_addr \<Rightarrow> u16 \<Rightarrow> bool" where
  "conn_is6 c protocol src_ip src_port dest_ip dest_port \<longleftrightarrow>
     c_src_port6 c = src_port \<and> c_dest_port6 c = dest_port \<and> sfe_ipv6_addr_equal (c_src_ip6 c) src_ip \<and>
     sfe_ipv6_addr_equal (c_dest_ip6 c) dest_ip \<and> c_protocol6 c = protocol"

partial_function (option) conn_chain_search6 ::
  "(conn_ptr \<Rightarrow> conn_ptr option) \<Rightarrow> (conn_ptr \<Rightarrow> bool) \<Rightarrow> conn_ptr option \<Rightarrow> conn_ptr option option" where
  "conn_chain_search6 nx P c =
     (case c of None \<Rightarrow> Some None
      | Some p \<Rightarrow> if P p then Some (Some p) else conn_chain_search6 nx P (nx p))"

declare conn_chain_search6.simps [code]

definition sfe_ipv6_find_connection ::
  "sfe_env \<Rightarrow> u32 \<Rightarrow> sfe_ipv6_addr \<Rightarrow> u16 \<Rightarrow> sfe_ipv6_addr \<Rightarrow> u16 \<Rightarrow> sfe_ipv6 \<Rightarrow> conn_ptr option option" where
  "sfe_ipv6_find_connection E protocol src_ip src_port dest_ip dest_port s =
     (let conn_idx = sfe_ipv6_get_connection_hash E (ucast protocol) src_ip src_port dest_ip dest_port;
          is = (\<lambda>p. conn_is6 (conns6 s p) protocol src_ip src_port dest_ip dest_port)
      in case conn_hash6 s conn_idx of
           None \<Rightarrow> Some None
         | Some c \<Rightarrow> if is c then Some (Some c)
                     else conn_chain_search6 (conn_next6 s) is (conn_next6 s c))"

definition sfe_ipv6_insert_connection :: "sfe_env \<Rightarrow> conn_ptr \<Rightarrow> sfe_ipv6 \<Rightarrow> sfe_ipv6" where
  "sfe_ipv6_insert_connection E c s =
     (let conn_idx = c_hash6 E (conns6 s c);
          prev_head = conn_hash6 s conn_idx;
          s1 = set_conn_prev6 c None s;
          s2 = (case prev_head of Some h \<Rightarrow> set_conn_prev6 h (Some c) s1 | None \<Rightarrow> s1);
          s3 = set_conn_next6 c prev_head s2;
          s4 = set_conn_hash6 conn_idx (Some c) s3;
          s5 = (case all_connections_tail6 s4 of
                  Some t \<Rightarrow> set_all_next6 t (Some c) (set_all_prev6 c (Some t) s4)
                | None \<Rightarrow> set_all_head6 (Some c) (set_all_prev6 c None s4));
          s6 = set_all_tail6 (Some c) s5;
          s7 = set_all_next6 c None s6;
          s8 = s7\<lparr>num_connections6 := num_connections6 s7 + 1\<rparr>;
          s9 = sfe_ipv6_insert_connection_match E (original_match6 (conns6 s8 c)) s8
      in sfe_ipv6_insert_connection_match E (reply_match6 (conns6 s9 c)) s9)"

definition sfe_ipv6_remove_connection :: "sfe_env \<Rightarrow> conn_ptr \<Rightarrow> sfe_ipv6 \<Rightarrow> sfe_ipv6" where
  "sfe_ipv6_remove_connection E c s =
     (let s1 = sfe_ipv6_remove_connection_match E (reply_match6 (conns6 s c)) s;
          s2 = sfe_ipv6_remove_connection_match E (original_match6 (conns6 s1 c)) s1;
          s3 = (case conn_prev6 s2 c of
                  Some p \<Rightarrow> set_conn_next6 p (conn_next6 s2 c) s2
                | None \<Rightarrow> set_conn_hash6 (c_hash6 E (conns6 s2 c)) (conn_next6 s2 c) s2);
          s4 = (case conn_next6 s3 c of
                  Some n \<Rightarrow> set_conn_prev6 n (conn_prev6 s3 c) s3
                | None \<Rightarrow> s3);
          s5 = (case all_prev6 s4 c of
                  Some p \<Rightarrow> set_all_next6 p (all_next6 s4 c) s4
                | None \<Rightarrow> set_all_head6 (all_next6 s4 c) s4);
          s6 = (case all_next6 s5 c of
                  Some n \<Rightarrow> set_all_prev6 n (all_prev6 s5 c) s5
                | None \<Rightarrow> set_all_tail6 (all_prev6 s5 c) s5)
      in s6\<lparr>num_connections6 := num_connections6 s6 - 1\<rparr>)"

end
