(* ===== verification/Sfe6_Text.thy ===== *)
theory Sfe6_Text
  imports Sfe6_Table Sfe_Text
begin

text \<open>
  Text output of the IPv6 engine: addresses as \<open>snprintf\<close> prints them, and the exception events in the
  order and with the names of the code. The other conversions are those of \<open>Sfe_Text\<close>.
\<close>

section \<open>Addresses\<close>

text \<open>\<open>%pI6\<close>: the sixteen bytes of the address in the order they have in memory, two in a group.\<close>

definition hex2 :: "nat \<Rightarrow> string" where
  "hex2 n = [digit (n div 16), digit (n mod 16)]"

fun byte_pairs :: "string list \<Rightarrow> string" where
  "byte_pairs (a # b # c # r) = a @ b @ '':'' @ byte_pairs (c # r)"
| "byte_pairs r = concat r"

definition ip6_text :: "sfe_env \<Rightarrow> sfe_ipv6_addr \<Rightarrow> string" where
  "ip6_text E a = byte_pairs (map hex2 (concat (map (addr_bytes E) (addr_words a))))"

lemma length_ip6_text: "length (ip6_text E a) = 39"
  by (simp add: ip6_text_def addr_words_def addr_bytes_def hex2_def Let_def)

section \<open>Exception events\<close>

definition all_events6 :: "sfe_ipv6_exception_events list" where
  "all_events6 = [
     V6_UDP_HEADER_INCOMPLETE, V6_UDP_NO_CONNECTION, V6_UDP_IP_OPTIONS_OR_INITIAL_FRAGMENT,
     V6_UDP_SMALL_TTL, V6_UDP_NEEDS_FRAGMENTATION, V6_TCP_HEADER_INCOMPLETE,
     V6_TCP_NO_CONNECTION_SLOW_FLAGS, V6_TCP_NO_CONNECTION_FAST_FLAGS,
     V6_TCP_IP_OPTIONS_OR_INITIAL_FRAGMENT, V6_TCP_SMALL_TTL, V6_TCP_NEEDS_FRAGMENTATION, V6_TCP_FLAGS,
     V6_TCP_SEQ_EXCEEDS_RIGHT_EDGE, V6_TCP_SMALL_DATA_OFFS, V6_TCP_BAD_SACK, V6_TCP_BIG_DATA_OFFS,
     V6_TCP_SEQ_BEFORE_LEFT_EDGE, V6_TCP_ACK_EXCEEDS_RIGHT_EDGE, V6_TCP_ACK_BEFORE_LEFT_EDGE,
     V6_ICMP_HEADER_INCOMPLETE, V6_ICMP_UNHANDLED_TYPE, V6_ICMP_IPV6_HEADER_INCOMPLETE,
     V6_ICMP_IPV6_NON_V6, V6_ICMP_IPV6_IP_OPTIONS_INCOMPLETE, V6_ICMP_IPV6_UDP_HEADER_INCOMPLETE,
     V6_ICMP_IPV6_TCP_HEADER_INCOMPLETE, V6_ICMP_IPV6_UNHANDLED_PROTOCOL, V6_ICMP_NO_CONNECTION,
     V6_ICMP_FLUSHED_CONNECTION, V6_HEADER_INCOMPLETE, V6_BAD_TOTAL_LENGTH, V6_NON_V6,
     V6_NON_INITIAL_FRAGMENT, V6_DATAGRAM_INCOMPLETE, V6_IP_OPTIONS_INCOMPLETE, V6_UNHANDLED_PROTOCOL,
     V6_FLOW_COOKIE_ADD_FAIL, V6_CLONED_SKB_UNSHARE_ERROR]"

text \<open>The numbers of the enumeration.\<close>

fun event_index6 :: "sfe_ipv6_exception_events \<Rightarrow> nat" where
  "event_index6 V6_UDP_HEADER_INCOMPLETE = 0"
| "event_index6 V6_UDP_NO_CONNECTION = 1"
| "event_index6 V6_UDP_IP_OPTIONS_OR_INITIAL_FRAGMENT = 2"
| "event_index6 V6_UDP_SMALL_TTL = 3"
| "event_index6 V6_UDP_NEEDS_FRAGMENTATION = 4"
| "event_index6 V6_TCP_HEADER_INCOMPLETE = 5"
| "event_index6 V6_TCP_NO_CONNECTION_SLOW_FLAGS = 6"
| "event_index6 V6_TCP_NO_CONNECTION_FAST_FLAGS = 7"
| "event_index6 V6_TCP_IP_OPTIONS_OR_INITIAL_FRAGMENT = 8"
| "event_index6 V6_TCP_SMALL_TTL = 9"
| "event_index6 V6_TCP_NEEDS_FRAGMENTATION = 10"
| "event_index6 V6_TCP_FLAGS = 11"
| "event_index6 V6_TCP_SEQ_EXCEEDS_RIGHT_EDGE = 12"
| "event_index6 V6_TCP_SMALL_DATA_OFFS = 13"
| "event_index6 V6_TCP_BAD_SACK = 14"
| "event_index6 V6_TCP_BIG_DATA_OFFS = 15"
| "event_index6 V6_TCP_SEQ_BEFORE_LEFT_EDGE = 16"
| "event_index6 V6_TCP_ACK_EXCEEDS_RIGHT_EDGE = 17"
| "event_index6 V6_TCP_ACK_BEFORE_LEFT_EDGE = 18"
| "event_index6 V6_ICMP_HEADER_INCOMPLETE = 19"
| "event_index6 V6_ICMP_UNHANDLED_TYPE = 20"
| "event_index6 V6_ICMP_IPV6_HEADER_INCOMPLETE = 21"
| "event_index6 V6_ICMP_IPV6_NON_V6 = 22"
| "event_index6 V6_ICMP_IPV6_IP_OPTIONS_INCOMPLETE = 23"
| "event_index6 V6_ICMP_IPV6_UDP_HEADER_INCOMPLETE = 24"
| "event_index6 V6_ICMP_IPV6_TCP_HEADER_INCOMPLETE = 25"
| "event_index6 V6_ICMP_IPV6_UNHANDLED_PROTOCOL = 26"
| "event_index6 V6_ICMP_NO_CONNECTION = 27"
| "event_index6 V6_ICMP_FLUSHED_CONNECTION = 28"
| "event_index6 V6_HEADER_INCOMPLETE = 29"
| "event_index6 V6_BAD_TOTAL_LENGTH = 30"
| "event_index6 V6_NON_V6 = 31"
| "event_index6 V6_NON_INITIAL_FRAGMENT = 32"
| "event_index6 V6_DATAGRAM_INCOMPLETE = 33"
| "event_index6 V6_IP_OPTIONS_INCOMPLETE = 34"
| "event_index6 V6_UNHANDLED_PROTOCOL = 35"
| "event_index6 V6_FLOW_COOKIE_ADD_FAIL = 36"
| "event_index6 V6_CLONED_SKB_UNSHARE_ERROR = 37"

text \<open>\<open>sfe_ipv6_exception_events_string\<close>.\<close>

fun event_string6 :: "sfe_ipv6_exception_events \<Rightarrow> string" where
  "event_string6 V6_UDP_HEADER_INCOMPLETE = ''UDP_HEADER_INCOMPLETE''"
| "event_string6 V6_UDP_NO_CONNECTION = ''UDP_NO_CONNECTION''"
| "event_string6 V6_UDP_IP_OPTIONS_OR_INITIAL_FRAGMENT = ''UDP_IP_OPTIONS_OR_INITIAL_FRAGMENT''"
| "event_string6 V6_UDP_SMALL_TTL = ''UDP_SMALL_TTL''"
| "event_string6 V6_UDP_NEEDS_FRAGMENTATION = ''UDP_NEEDS_FRAGMENTATION''"
| "event_string6 V6_TCP_HEADER_INCOMPLETE = ''TCP_HEADER_INCOMPLETE''"
| "event_string6 V6_TCP_NO_CONNECTION_SLOW_FLAGS = ''TCP_NO_CONNECTION_SLOW_FLAGS''"
| "event_string6 V6_TCP_NO_CONNECTION_FAST_FLAGS = ''TCP_NO_CONNECTION_FAST_FLAGS''"
| "event_string6 V6_TCP_IP_OPTIONS_OR_INITIAL_FRAGMENT = ''TCP_IP_OPTIONS_OR_INITIAL_FRAGMENT''"
| "event_string6 V6_TCP_SMALL_TTL = ''TCP_SMALL_TTL''"
| "event_string6 V6_TCP_NEEDS_FRAGMENTATION = ''TCP_NEEDS_FRAGMENTATION''"
| "event_string6 V6_TCP_FLAGS = ''TCP_FLAGS''"
| "event_string6 V6_TCP_SEQ_EXCEEDS_RIGHT_EDGE = ''TCP_SEQ_EXCEEDS_RIGHT_EDGE''"
| "event_string6 V6_TCP_SMALL_DATA_OFFS = ''TCP_SMALL_DATA_OFFS''"
| "event_string6 V6_TCP_BAD_SACK = ''TCP_BAD_SACK''"
| "event_string6 V6_TCP_BIG_DATA_OFFS = ''TCP_BIG_DATA_OFFS''"
| "event_string6 V6_TCP_SEQ_BEFORE_LEFT_EDGE = ''TCP_SEQ_BEFORE_LEFT_EDGE''"
| "event_string6 V6_TCP_ACK_EXCEEDS_RIGHT_EDGE = ''TCP_ACK_EXCEEDS_RIGHT_EDGE''"
| "event_string6 V6_TCP_ACK_BEFORE_LEFT_EDGE = ''TCP_ACK_BEFORE_LEFT_EDGE''"
| "event_string6 V6_ICMP_HEADER_INCOMPLETE = ''ICMP_HEADER_INCOMPLETE''"
| "event_string6 V6_ICMP_UNHANDLED_TYPE = ''ICMP_UNHANDLED_TYPE''"
| "event_string6 V6_ICMP_IPV6_HEADER_INCOMPLETE = ''ICMP_IPV6_HEADER_INCOMPLETE''"
| "event_string6 V6_ICMP_IPV6_NON_V6 = ''ICMP_IPV6_NON_V6''"
| "event_string6 V6_ICMP_IPV6_IP_OPTIONS_INCOMPLETE = ''ICMP_IPV6_IP_OPTIONS_INCOMPLETE''"
| "event_string6 V6_ICMP_IPV6_UDP_HEADER_INCOMPLETE = ''ICMP_IPV6_UDP_HEADER_INCOMPLETE''"
| "event_string6 V6_ICMP_IPV6_TCP_HEADER_INCOMPLETE = ''ICMP_IPV6_TCP_HEADER_INCOMPLETE''"
| "event_string6 V6_ICMP_IPV6_UNHANDLED_PROTOCOL = ''ICMP_IPV6_UNHANDLED_PROTOCOL''"
| "event_string6 V6_ICMP_NO_CONNECTION = ''ICMP_NO_CONNECTION''"
| "event_string6 V6_ICMP_FLUSHED_CONNECTION = ''ICMP_FLUSHED_CONNECTION''"
| "event_string6 V6_HEADER_INCOMPLETE = ''HEADER_INCOMPLETE''"
| "event_string6 V6_BAD_TOTAL_LENGTH = ''BAD_TOTAL_LENGTH''"
| "event_string6 V6_NON_V6 = ''NON_V6''"
| "event_string6 V6_NON_INITIAL_FRAGMENT = ''NON_INITIAL_FRAGMENT''"
| "event_string6 V6_DATAGRAM_INCOMPLETE = ''DATAGRAM_INCOMPLETE''"
| "event_string6 V6_IP_OPTIONS_INCOMPLETE = ''IP_OPTIONS_INCOMPLETE''"
| "event_string6 V6_UNHANDLED_PROTOCOL = ''UNHANDLED_PROTOCOL''"
| "event_string6 V6_FLOW_COOKIE_ADD_FAIL = ''FLOW_COOKIE_ADD_FAIL''"
| "event_string6 V6_CLONED_SKB_UNSHARE_ERROR = ''CLONED_SKB_UNSHARE_ERROR''"

definition SFE_IPV6_EXCEPTION_EVENT_LAST :: nat where
  "SFE_IPV6_EXCEPTION_EVENT_LAST = 38"

lemma length_all_events6: "length all_events6 = SFE_IPV6_EXCEPTION_EVENT_LAST"
  by (simp add: all_events6_def SFE_IPV6_EXCEPTION_EVENT_LAST_def)

lemma event_index_less6: "event_index6 e < SFE_IPV6_EXCEPTION_EVENT_LAST"
  by (cases e) (simp_all add: SFE_IPV6_EXCEPTION_EVENT_LAST_def)

lemma nth_event_index6: "all_events6 ! event_index6 e = e"
  by (cases e) (simp_all add: all_events6_def)

lemma event_index_inj6: "event_index6 e = event_index6 f \<longleftrightarrow> e = f"
  using nth_event_index6 by metis

lemma set_all_events6: "set all_events6 = UNIV"
  using nth_event_index6 event_index_less6 length_all_events6 by (metis UNIV_eq_I nth_mem)

lemma map_event_index6: "map event_index6 all_events6 = [0..<38]"
  by (simp add: all_events6_def upt_rec)

lemma distinct_all_events6: "distinct all_events6"
  using map_event_index6 by (metis distinct_map distinct_upt)

text \<open>The enumeration order as a linear order on the events.\<close>

instantiation sfe_ipv6_exception_events :: linorder
begin

definition less_eq_sfe_ipv6_exception_events :: "sfe_ipv6_exception_events \<Rightarrow> sfe_ipv6_exception_events \<Rightarrow> bool" where
  "less_eq_sfe_ipv6_exception_events e f \<longleftrightarrow> event_index6 e \<le> event_index6 f"

definition less_sfe_ipv6_exception_events :: "sfe_ipv6_exception_events \<Rightarrow> sfe_ipv6_exception_events \<Rightarrow> bool" where
  "less_sfe_ipv6_exception_events e f \<longleftrightarrow> event_index6 e < event_index6 f"

instance
  by standard (auto simp: less_eq_sfe_ipv6_exception_events_def less_sfe_ipv6_exception_events_def
      event_index_inj6)

end

lemma sorted_all_events6: "sorted all_events6"
proof -
  have "sorted (map event_index6 all_events6)" unfolding map_event_index6 by (rule sorted_upt)
  then show ?thesis by (simp add: sorted_wrt_map less_eq_sfe_ipv6_exception_events_def [abs_def])
qed

text \<open>The names are short.\<close>

lemma length_event_string6: "length (event_string6 e) \<le> 34"
  by (cases e) simp_all

end
