(* ===== verification/Sfe6_Table_Inv.thy ===== *)
theory Sfe6_Table_Inv
  imports Sfe6_Table
begin

text \<open>
  What the tables of the engine represent. \<open>sfe_abs6\<close> is the abstract content: the chains of both
  hash tables, the list of active matches and the list of all connections. \<open>table_inv6\<close> is the
  invariant that relates it with the pointer structures; every operation of \<open>Sfe6_Table\<close> is shown
  to refine an operation on the abstract content.
\<close>

section \<open>Abstract content and invariant\<close>

record sfe_abs6 =
  mchains6 :: "u32 \<Rightarrow> cm_ptr list"
  cchains6 :: "u32 \<Rightarrow> conn_ptr list"
  actives6 :: "cm_ptr list"
  connl6 :: "conn_ptr list"

definition lists_rep6 :: "sfe_ipv6 \<Rightarrow> sfe_abs6 \<Rightarrow> bool" where
  "lists_rep6 s A \<longleftrightarrow> mch6.repr s (mchains6 A) \<and> cch6.repr s (cchains6 A) \<and>
     act6.trepr s (actives6 A) \<and> alls6.trepr s (connl6 A)"

definition conn_matches6 :: "sfe_ipv6 \<Rightarrow> conn_ptr \<Rightarrow> cm_ptr set" where
  "conn_matches6 s c = {original_match6 (conns6 s c), reply_match6 (conns6 s c)}"

definition table_matches6 :: "sfe_ipv6 \<Rightarrow> conn_ptr list \<Rightarrow> cm_ptr set" where
  "table_matches6 s cs = (\<Union>c\<in>set cs. conn_matches6 s c)"

text \<open>The two matches of a connection point at it and at each other.\<close>

definition pair_ok6 :: "sfe_ipv6 \<Rightarrow> conn_ptr \<Rightarrow> bool" where
  "pair_ok6 s c \<longleftrightarrow>
     (let m = original_match6 (conns6 s c); r = reply_match6 (conns6 s c)
      in m \<noteq> r \<and> cm_connection6 (cms6 s m) = c \<and> cm_connection6 (cms6 s r) = c \<and>
         cm_counter_match6 (cms6 s m) = r \<and> cm_counter_match6 (cms6 s r) = m)"

text \<open>
  \<open>A\<close> is what the tables hold, \<open>D\<close> the connections that are allocated but in no table: removed and
  not yet flushed, or not yet inserted.
\<close>

definition table_inv6 :: "sfe_env \<Rightarrow> sfe_ipv6 \<Rightarrow> sfe_abs6 \<Rightarrow> conn_ptr list \<Rightarrow> bool" where
  "table_inv6 E s A D \<longleftrightarrow>
     lists_rep6 s A \<and>
     distinct (connl6 A @ D) \<and>
     (\<forall>c\<in>set (connl6 A @ D). pair_ok6 s c) \<and>
     conn_live6 s = set (connl6 A @ D) \<and>
     cm_live6 s = table_matches6 s (connl6 A @ D) \<and>
     (\<forall>i. set (mchains6 A i) = {p \<in> table_matches6 s (connl6 A). cm_hash6 E (cms6 s p) = i}) \<and>
     (\<forall>i. set (cchains6 A i) = {c \<in> set (connl6 A). c_hash6 E (conns6 s c) = i}) \<and>
     set (actives6 A) = {p \<in> table_matches6 s (connl6 A). match_active6 s p} \<and>
     (\<forall>p\<in>table_matches6 s (connl6 A). \<not> match_active6 s p \<longrightarrow> active_next6 s p = None) \<and>
     num_connections6 s = of_nat (length (connl6 A))"

lemma table_matches_Nil6 [simp]: "table_matches6 s [] = {}"
  by (simp add: table_matches6_def)

lemma table_matches_Cons6 [simp]:
  "table_matches6 s (c # cs) = conn_matches6 s c \<union> table_matches6 s cs"
  by (simp add: table_matches6_def)

lemma table_matches_append6 [simp]:
  "table_matches6 s (cs @ ds) = table_matches6 s cs \<union> table_matches6 s ds"
  by (simp add: table_matches6_def)

lemma table_matches_cong6: "conns6 s' = conns6 s \<Longrightarrow> table_matches6 s' cs = table_matches6 s cs"
  by (simp add: table_matches6_def conn_matches6_def)

text \<open>Matches of different connections are different.\<close>

lemma conn_matches_owner6:
  "pair_ok6 s c \<Longrightarrow> p \<in> conn_matches6 s c \<Longrightarrow> cm_connection6 (cms6 s p) = c"
  by (auto simp: pair_ok6_def conn_matches6_def Let_def)

lemma conn_matches_disjoint6:
  assumes "pair_ok6 s c" and "\<forall>d\<in>set cs. pair_ok6 s d" and "c \<notin> set cs"
  shows "conn_matches6 s c \<inter> table_matches6 s cs = {}"
  using assms by (auto simp: table_matches6_def) (metis conn_matches_owner6)

lemma table_matches_remove1_6:
  assumes "\<forall>d\<in>set cs. pair_ok6 s d" and "distinct cs" and "c \<in> set cs"
  shows "table_matches6 s (remove1 c cs) = table_matches6 s cs - conn_matches6 s c"
proof -
  obtain as bs where s: "cs = as @ c # bs" and n: "c \<notin> set as" "c \<notin> set bs"
    using assms(2,3) by (rule distinct_split)
  have "conn_matches6 s c \<inter> table_matches6 s (as @ bs) = {}"
    using assms(1) n by (intro conn_matches_disjoint6) (auto simp: s)
  then show ?thesis using n by (auto simp: s remove1_split)
qed

section \<open>Chain walks\<close>

lemma match_chain_search_dseg6:
  "dseg nx pv h b xs None \<Longrightarrow> match_chain_search6 nx P h = Some (List.find P xs)"
  by (induction xs arbitrary: h b) (simp_all add: match_chain_search6.simps)

lemma conn_chain_search_dseg6:
  "dseg nx pv h b xs None \<Longrightarrow> conn_chain_search6 nx P h = Some (List.find P xs)"
  by (induction xs arbitrary: h b) (simp_all add: conn_chain_search6.simps)

section \<open>Removal of one match\<close>

lemma remove_match_conv6:
  "sfe_ipv6_remove_connection_match E p s =
     (let s2 = mch6.unlink (cm_hash6 E (cms6 s p)) p s
      in if match_active6 s2 p then act6.dequeue p s2 else s2)"
  by (simp add: sfe_ipv6_remove_connection_match_def mch6.unlink_def act6.dequeue_def Let_def)

text \<open>Unlinking touches the cells of its own list only.\<close>

lemma mch_unlink_frame6 [simp]:
  "cms6 (mch6.unlink i p s) = cms6 s" "conns6 (mch6.unlink i p s) = conns6 s"
  "match_active6 (mch6.unlink i p s) = match_active6 s"
  "active_next6 (mch6.unlink i p s) = active_next6 s" "active_prev6 (mch6.unlink i p s) = active_prev6 s"
  "active_head6 (mch6.unlink i p s) = active_head6 s" "active_tail6 (mch6.unlink i p s) = active_tail6 s"
  "conn_next6 (mch6.unlink i p s) = conn_next6 s" "conn_prev6 (mch6.unlink i p s) = conn_prev6 s"
  "conn_hash6 (mch6.unlink i p s) = conn_hash6 s"
  "all_next6 (mch6.unlink i p s) = all_next6 s" "all_prev6 (mch6.unlink i p s) = all_prev6 s"
  "all_connections_head6 (mch6.unlink i p s) = all_connections_head6 s"
  "all_connections_tail6 (mch6.unlink i p s) = all_connections_tail6 s"
  "num_connections6 (mch6.unlink i p s) = num_connections6 s"
  "cm_live6 (mch6.unlink i p s) = cm_live6 s" "conn_live6 (mch6.unlink i p s) = conn_live6 s"
  by (simp_all add: mch6.unlink_def setter_defs6 Let_def split: option.split)

lemma act_dequeue_frame6 [simp]:
  "cms6 (act6.dequeue p s) = cms6 s" "conns6 (act6.dequeue p s) = conns6 s"
  "match_active6 (act6.dequeue p s) = match_active6 s"
  "match_next6 (act6.dequeue p s) = match_next6 s" "match_prev6 (act6.dequeue p s) = match_prev6 s"
  "conn_match_hash6 (act6.dequeue p s) = conn_match_hash6 s"
  "conn_next6 (act6.dequeue p s) = conn_next6 s" "conn_prev6 (act6.dequeue p s) = conn_prev6 s"
  "conn_hash6 (act6.dequeue p s) = conn_hash6 s"
  "all_next6 (act6.dequeue p s) = all_next6 s" "all_prev6 (act6.dequeue p s) = all_prev6 s"
  "all_connections_head6 (act6.dequeue p s) = all_connections_head6 s"
  "all_connections_tail6 (act6.dequeue p s) = all_connections_tail6 s"
  "num_connections6 (act6.dequeue p s) = num_connections6 s"
  "cm_live6 (act6.dequeue p s) = cm_live6 s" "conn_live6 (act6.dequeue p s) = conn_live6 s"
  by (simp_all add: act6.dequeue_def setter_defs6 Let_def split: option.split)

lemma remove_match_frame6 [simp]:
  "cms6 (sfe_ipv6_remove_connection_match E p s) = cms6 s"
  "conns6 (sfe_ipv6_remove_connection_match E p s) = conns6 s"
  "match_active6 (sfe_ipv6_remove_connection_match E p s) = match_active6 s"
  "num_connections6 (sfe_ipv6_remove_connection_match E p s) = num_connections6 s"
  "cm_live6 (sfe_ipv6_remove_connection_match E p s) = cm_live6 s"
  "conn_live6 (sfe_ipv6_remove_connection_match E p s) = conn_live6 s"
  by (simp_all add: remove_match_conv6 Let_def)

lemma remove_match_lists6:
  assumes L: "lists_rep6 s A" and i: "i = cm_hash6 E (cms6 s p)" and p: "p \<in> set (mchains6 A i)"
    and a: "match_active6 s p \<longleftrightarrow> p \<in> set (actives6 A)"
  shows "lists_rep6 (sfe_ipv6_remove_connection_match E p s)
           (A\<lparr>mchains6 := (mchains6 A)(i := remove1 p (mchains6 A i)), actives6 := remove1 p (actives6 A)\<rparr>)"
proof -
  let ?u = "mch6.unlink i p s" and ?t = "sfe_ipv6_remove_connection_match E p s"
  have m: "mch6.repr ?u ((mchains6 A)(i := remove1 p (mchains6 A i)))"
    using L p unfolding lists_rep6_def by (blast intro: mch6.repr_unlink)
  have t: "?t = (if p \<in> set (actives6 A) then act6.dequeue p ?u else ?u)"
    by (simp add: remove_match_conv6 i Let_def flip: a)
  have au: "act6.trepr ?u (actives6 A)"
    using L by (simp add: lists_rep6_def act6.trepr_def)
  have "act6.trepr ?t (remove1 p (actives6 A))"
    using act6.trepr_dequeue [OF au] au by (auto simp: t remove1_idem)
  moreover have "mch6.repr ?t ((mchains6 A)(i := remove1 p (mchains6 A i)))"
    using m by (auto simp: t mch6.repr_def)
  moreover have "cch6.repr ?t (cchains6 A)" and "alls6.trepr ?t (connl6 A)"
    using L by (auto simp: t lists_rep6_def cch6.repr_def alls6.trepr_def)
  ultimately show ?thesis by (simp add: lists_rep6_def)
qed

text \<open>Matches that are not active keep an empty link to the active list.\<close>

lemma remove_match_active_next6:
  assumes "lists_rep6 s A" and a: "match_active6 s p \<longleftrightarrow> p \<in> set (actives6 A)" and "q \<notin> set (actives6 A)"
  shows "active_next6 (sfe_ipv6_remove_connection_match E p s) q = active_next6 s q"
proof (cases "p \<in> set (actives6 A)")
  case True
  have "act6.trepr (mch6.unlink (cm_hash6 E (cms6 s p)) p s) (actives6 A)"
    using assms(1) by (simp add: lists_rep6_def act6.trepr_def)
  from act6.nxt_dequeue [OF this True assms(3)] True a show ?thesis
    by (simp add: remove_match_conv6 Let_def)
next
  case False
  with a show ?thesis by (simp add: remove_match_conv6 Let_def)
qed

section \<open>Removal of a connection\<close>

definition abs_remove6 :: "sfe_env \<Rightarrow> sfe_ipv6 \<Rightarrow> conn_ptr \<Rightarrow> sfe_abs6 \<Rightarrow> sfe_abs6" where
  "abs_remove6 E s c A =
     (let m = original_match6 (conns6 s c); r = reply_match6 (conns6 s c)
      in A\<lparr>mchains6 := (\<lambda>i. remove1 m (remove1 r (mchains6 A i))),
           cchains6 := (\<lambda>i. remove1 c (cchains6 A i)),
           actives6 := remove1 m (remove1 r (actives6 A)),
           connl6 := remove1 c (connl6 A)\<rparr>)"

lemma remove_conn_conv6:
  "sfe_ipv6_remove_connection E c s =
     (let s1 = sfe_ipv6_remove_connection_match E (reply_match6 (conns6 s c)) s;
          s2 = sfe_ipv6_remove_connection_match E (original_match6 (conns6 s c)) s1;
          s4 = cch6.unlink (c_hash6 E (conns6 s c)) c s2;
          s6 = alls6.dequeue c s4
      in s6\<lparr>num_connections6 := num_connections6 s6 - 1\<rparr>)"
  by (simp only: sfe_ipv6_remove_connection_def cch6.unlink_def alls6.dequeue_def Let_def
      remove_match_frame6)

lemma cch_unlink_frame6 [simp]:
  "cms6 (cch6.unlink i p s) = cms6 s" "conns6 (cch6.unlink i p s) = conns6 s"
  "match_active6 (cch6.unlink i p s) = match_active6 s"
  "match_next6 (cch6.unlink i p s) = match_next6 s" "match_prev6 (cch6.unlink i p s) = match_prev6 s"
  "conn_match_hash6 (cch6.unlink i p s) = conn_match_hash6 s"
  "active_next6 (cch6.unlink i p s) = active_next6 s" "active_prev6 (cch6.unlink i p s) = active_prev6 s"
  "active_head6 (cch6.unlink i p s) = active_head6 s" "active_tail6 (cch6.unlink i p s) = active_tail6 s"
  "all_next6 (cch6.unlink i p s) = all_next6 s" "all_prev6 (cch6.unlink i p s) = all_prev6 s"
  "all_connections_head6 (cch6.unlink i p s) = all_connections_head6 s"
  "all_connections_tail6 (cch6.unlink i p s) = all_connections_tail6 s"
  "num_connections6 (cch6.unlink i p s) = num_connections6 s"
  "cm_live6 (cch6.unlink i p s) = cm_live6 s" "conn_live6 (cch6.unlink i p s) = conn_live6 s"
  by (simp_all add: cch6.unlink_def setter_defs6 Let_def split: option.split)

lemma alls_dequeue_frame6 [simp]:
  "cms6 (alls6.dequeue p s) = cms6 s" "conns6 (alls6.dequeue p s) = conns6 s"
  "match_active6 (alls6.dequeue p s) = match_active6 s"
  "match_next6 (alls6.dequeue p s) = match_next6 s" "match_prev6 (alls6.dequeue p s) = match_prev6 s"
  "conn_match_hash6 (alls6.dequeue p s) = conn_match_hash6 s"
  "active_next6 (alls6.dequeue p s) = active_next6 s" "active_prev6 (alls6.dequeue p s) = active_prev6 s"
  "active_head6 (alls6.dequeue p s) = active_head6 s" "active_tail6 (alls6.dequeue p s) = active_tail6 s"
  "conn_next6 (alls6.dequeue p s) = conn_next6 s" "conn_prev6 (alls6.dequeue p s) = conn_prev6 s"
  "conn_hash6 (alls6.dequeue p s) = conn_hash6 s"
  "num_connections6 (alls6.dequeue p s) = num_connections6 s"
  "cm_live6 (alls6.dequeue p s) = cm_live6 s" "conn_live6 (alls6.dequeue p s) = conn_live6 s"
  by (simp_all add: alls6.dequeue_def setter_defs6 Let_def split: option.split)

text \<open>The membership facts of the invariant, for one connection.\<close>

lemma table_inv_conn6:
  assumes "table_inv6 E s A D" and "c \<in> set (connl6 A)"
  shows "pair_ok6 s c"
    and "p \<in> conn_matches6 s c \<Longrightarrow> p \<in> set (mchains6 A (cm_hash6 E (cms6 s p)))"
    and "p \<in> conn_matches6 s c \<Longrightarrow> p \<in> set (mchains6 A i) \<longleftrightarrow> i = cm_hash6 E (cms6 s p)"
    and "p \<in> conn_matches6 s c \<Longrightarrow> match_active6 s p \<longleftrightarrow> p \<in> set (actives6 A)"
    and "c \<in> set (cchains6 A i) \<longleftrightarrow> i = c_hash6 E (conns6 s c)"
  using assms by (auto simp: table_inv6_def table_matches6_def)

lemma abs_remove_chain6:
  assumes I: "table_inv6 E s A D" and c: "c \<in> set (connl6 A)"
    and p: "p \<in> conn_matches6 s c" and i: "i = cm_hash6 E (cms6 s p)"
  shows "remove1 p (mchains6 A j) = ((mchains6 A)(i := remove1 p (mchains6 A i))) j"
  using table_inv_conn6(3) [OF I c p, of j] i by (auto simp: remove1_idem)

theorem remove_connection_lists6:
  assumes I: "table_inv6 E s A D" and c: "c \<in> set (connl6 A)"
  shows "lists_rep6 (sfe_ipv6_remove_connection E c s) (abs_remove6 E s c A)"
proof -
  let ?m = "original_match6 (conns6 s c)" and ?r = "reply_match6 (conns6 s c)"
  let ?hm = "cm_hash6 E (cms6 s ?m)" and ?hr = "cm_hash6 E (cms6 s ?r)"
  let ?s1 = "sfe_ipv6_remove_connection_match E ?r s"
  let ?s2 = "sfe_ipv6_remove_connection_match E ?m ?s1"
  let ?A1 = "A\<lparr>mchains6 := (mchains6 A)(?hr := remove1 ?r (mchains6 A ?hr)), actives6 := remove1 ?r (actives6 A)\<rparr>"
  let ?A2 = "?A1\<lparr>mchains6 := (mchains6 ?A1)(?hm := remove1 ?m (mchains6 ?A1 ?hm)), actives6 := remove1 ?m (actives6 ?A1)\<rparr>"
  have mr: "?m \<in> conn_matches6 s c" "?r \<in> conn_matches6 s c" by (simp_all add: conn_matches6_def)
  have ne: "?m \<noteq> ?r" using table_inv_conn6(1) [OF I c] by (simp add: pair_ok6_def Let_def)
  have L: "lists_rep6 s A" using I by (simp add: table_inv6_def)
  have L1: "lists_rep6 ?s1 ?A1"
    using L table_inv_conn6(2,4) [OF I c mr(2)] by (intro remove_match_lists6) auto
  have L2: "lists_rep6 ?s2 ?A2"
  proof (rule remove_match_lists6 [OF L1])
    show "?m \<in> set (mchains6 ?A1 ?hm)"
      using table_inv_conn6(2) [OF I c mr(1)] ne by (auto simp: in_set_remove1)
    show "match_active6 ?s1 ?m \<longleftrightarrow> ?m \<in> set (actives6 ?A1)"
      using table_inv_conn6(4) [OF I c mr(1)] ne by (simp add: in_set_remove1)
  qed simp
  have chains: "mchains6 ?A2 = mchains6 (abs_remove6 E s c A)"
  proof
    fix j
    have "mchains6 (abs_remove6 E s c A) j = remove1 ?m (remove1 ?r (mchains6 A j))"
      by (simp add: abs_remove6_def Let_def)
    moreover have "j \<noteq> ?hm \<Longrightarrow> ?m \<notin> set (remove1 ?r (mchains6 A j))"
      using table_inv_conn6(3) [OF I c mr(1), of j] by (auto dest: notin_set_remove1)
    moreover have "j \<noteq> ?hr \<Longrightarrow> ?r \<notin> set (mchains6 A j)"
      using table_inv_conn6(3) [OF I c mr(2), of j] by auto
    ultimately show "mchains6 ?A2 j = mchains6 (abs_remove6 E s c A) j"
      by (auto simp: remove1_idem)
  qed
  let ?s4 = "cch6.unlink (c_hash6 E (conns6 s c)) c ?s2" and ?hc = "c_hash6 E (conns6 s c)"
  have cc: "cch6.repr ?s4 ((cchains6 A)(?hc := remove1 c (cchains6 A ?hc)))"
  proof (rule cch6.repr_unlink)
    show "cch6.repr ?s2 (cchains6 A)" using L2 by (simp add: lists_rep6_def)
    show "c \<in> set (cchains6 A ?hc)" using table_inv_conn6(5) [OF I c] by simp
  qed
  have cchains6: "(cchains6 A)(?hc := remove1 c (cchains6 A ?hc)) = cchains6 (abs_remove6 E s c A)"
    using table_inv_conn6(5) [OF I c] by (auto simp: abs_remove6_def Let_def fun_eq_iff remove1_idem)
  have al: "alls6.trepr (alls6.dequeue c ?s4) (remove1 c (connl6 A))"
  proof (rule alls6.trepr_dequeue)
    show "alls6.trepr ?s4 (connl6 A)" using L2 by (simp add: lists_rep6_def alls6.trepr_def)
  qed (rule c)
  have "mch6.repr ?s2 (mchains6 ?A2)" and "act6.trepr ?s2 (actives6 ?A2)"
    using L2 by (simp_all add: lists_rep6_def)
  then show ?thesis
    using al cc unfolding chains cchains6
    by (simp add: lists_rep6_def remove_conn_conv6 Let_def mch6.repr_def cch6.repr_def act6.trepr_def
        alls6.trepr_def) (simp add: abs_remove6_def Let_def)
qed

lemma remove_connection_frame6 [simp]:
  "cms6 (sfe_ipv6_remove_connection E c s) = cms6 s"
  "conns6 (sfe_ipv6_remove_connection E c s) = conns6 s"
  "match_active6 (sfe_ipv6_remove_connection E c s) = match_active6 s"
  "num_connections6 (sfe_ipv6_remove_connection E c s) = num_connections6 s - 1"
  "cm_live6 (sfe_ipv6_remove_connection E c s) = cm_live6 s"
  "conn_live6 (sfe_ipv6_remove_connection E c s) = conn_live6 s"
  by (simp_all add: remove_conn_conv6 Let_def)

lemma remove_connection_active_next6:
  assumes I: "table_inv6 E s A D" and c: "c \<in> set (connl6 A)" and q: "q \<notin> set (actives6 A)"
  shows "active_next6 (sfe_ipv6_remove_connection E c s) q = active_next6 s q"
proof -
  let ?m = "original_match6 (conns6 s c)" and ?r = "reply_match6 (conns6 s c)"
  let ?s1 = "sfe_ipv6_remove_connection_match E ?r s"
  let ?A1 = "A\<lparr>mchains6 := (mchains6 A)(cm_hash6 E (cms6 s ?r) := remove1 ?r (mchains6 A (cm_hash6 E (cms6 s ?r)))),
    actives6 := remove1 ?r (actives6 A)\<rparr>"
  have mr: "?m \<in> conn_matches6 s c" "?r \<in> conn_matches6 s c" by (simp_all add: conn_matches6_def)
  have ne: "?m \<noteq> ?r" using table_inv_conn6(1) [OF I c] by (simp add: pair_ok6_def Let_def)
  have L: "lists_rep6 s A" using I by (simp add: table_inv6_def)
  have L1: "lists_rep6 ?s1 ?A1"
    using L table_inv_conn6(2,4) [OF I c mr(2)] by (intro remove_match_lists6) auto
  have "active_next6 (sfe_ipv6_remove_connection_match E ?m ?s1) q = active_next6 ?s1 q"
    using table_inv_conn6(4) [OF I c mr(1)] ne q
    by (intro remove_match_active_next6 [OF L1]) (auto simp: in_set_remove1 dest: notin_set_remove1)
  also have "active_next6 ?s1 q = active_next6 s q"
    using table_inv_conn6(4) [OF I c mr(2)] q by (intro remove_match_active_next6 [OF L]) auto
  finally show ?thesis by (simp add: remove_conn_conv6 Let_def)
qed

lemma abs_remove_sets6:
  assumes I: "table_inv6 E s A D" and c: "c \<in> set (connl6 A)"
  shows "set (mchains6 (abs_remove6 E s c A) i) = set (mchains6 A i) - conn_matches6 s c"
    and "set (cchains6 (abs_remove6 E s c A) i) = set (cchains6 A i) - {c}"
    and "set (actives6 (abs_remove6 E s c A)) = set (actives6 A) - conn_matches6 s c"
    and "connl6 (abs_remove6 E s c A) = remove1 c (connl6 A)"
proof -
  have "distinct (mchains6 A i)" and "distinct (cchains6 A i)" and "distinct (actives6 A)"
    using I by (auto simp: table_inv6_def lists_rep6_def
      dest: mch6.repr_distinct cch6.repr_distinct act6.trepr_distinct)
  then show "set (mchains6 (abs_remove6 E s c A) i) = set (mchains6 A i) - conn_matches6 s c"
    and "set (cchains6 (abs_remove6 E s c A) i) = set (cchains6 A i) - {c}"
    and "set (actives6 (abs_remove6 E s c A)) = set (actives6 A) - conn_matches6 s c"
    and "connl6 (abs_remove6 E s c A) = remove1 c (connl6 A)"
    by (auto simp: abs_remove6_def Let_def conn_matches6_def)
qed

text \<open>Removal moves the connection from the tables to the detached ones.\<close>

theorem remove_connection_inv6:
  assumes I: "table_inv6 E s A D" and c: "c \<in> set (connl6 A)"
  shows "table_inv6 E (sfe_ipv6_remove_connection E c s) (abs_remove6 E s c A) (c # D)"
proof -
  let ?t = "sfe_ipv6_remove_connection E c s" and ?B = "abs_remove6 E s c A"
  note sets = abs_remove_sets6 [OF I c]
  have d: "distinct (connl6 A)" "distinct D" "set (connl6 A) \<inter> set D = {}"
    and pair: "\<forall>d\<in>set (connl6 A). pair_ok6 s d" "\<forall>d\<in>set D. pair_ok6 s d"
    using I by (auto simp: table_inv6_def)
  have tm: "table_matches6 ?t cs = table_matches6 s cs" for cs
    by (rule table_matches_cong6) simp
  have rest: "table_matches6 s (remove1 c (connl6 A)) = table_matches6 s (connl6 A) - conn_matches6 s c"
    using pair(1) d(1) c by (rule table_matches_remove1_6)
  have sub: "conn_matches6 s c \<subseteq> table_matches6 s (connl6 A)"
    using c by (auto simp: table_matches6_def)
  have po: "pair_ok6 ?t d = pair_ok6 s d" for d by (simp add: pair_ok6_def)
  have len: "length (connl6 A) = Suc (length (remove1 c (connl6 A)))"
    using c by (simp add: length_remove1) (metis Suc_pred length_pos_if_in_set)
  have an: "active_next6 ?t q = None" if "q \<in> table_matches6 s (connl6 A)" "\<not> match_active6 s q" for q
    using that I remove_connection_active_next6 [OF I c, of q] by (auto simp: table_inv6_def)
  show ?thesis
    unfolding table_inv6_def tm po sets remove_connection_frame6
  proof (intro conjI)
    show "lists_rep6 ?t ?B" using I c by (rule remove_connection_lists6)
    show "distinct (remove1 c (connl6 A) @ c # D)"
      using d c by (auto dest: notin_set_remove1)
    show "\<forall>d\<in>set (remove1 c (connl6 A) @ c # D). pair_ok6 s d"
      using pair c by (auto dest: notin_set_remove1)
    show "conn_live6 s = set (remove1 c (connl6 A) @ c # D)"
      using I d(1) c by (auto simp: table_inv6_def)
    show "cm_live6 s = table_matches6 s (remove1 c (connl6 A) @ c # D)"
      using I rest sub by (auto simp: table_inv6_def)
    show "\<forall>i. set (mchains6 A i) - conn_matches6 s c =
        {p \<in> table_matches6 s (remove1 c (connl6 A)). cm_hash6 E (cms6 s p) = i}"
      using I rest by (auto simp: table_inv6_def)
    show "\<forall>i. set (cchains6 A i) - {c} = {d \<in> set (remove1 c (connl6 A)). c_hash6 E (conns6 s d) = i}"
      using I d(1) by (auto simp: table_inv6_def)
    show "set (actives6 A) - conn_matches6 s c =
        {p \<in> table_matches6 s (remove1 c (connl6 A)). match_active6 s p}"
      using I rest by (auto simp: table_inv6_def)
    show "\<forall>p\<in>table_matches6 s (remove1 c (connl6 A)). \<not> match_active6 s p \<longrightarrow> active_next6 ?t p = None"
      using an rest by auto
    show "num_connections6 s - 1 = of_nat (length (remove1 c (connl6 A)))"
      using I len by (simp add: table_inv6_def)
  qed
qed

section \<open>Insertion of a connection\<close>

lemma insert_match_conv6:
  "sfe_ipv6_insert_connection_match E p s = mch6.push (cm_hash6 E (cms6 s p)) p s"
  by (simp only: sfe_ipv6_insert_connection_match_def mch6.push_def Let_def)

lemma insert_conn_conv6:
  "sfe_ipv6_insert_connection E c s =
     (let s4 = cch6.push (c_hash6 E (conns6 s c)) c s;
          s7 = set_all_next6 c None (alls6.enqueue c s4);
          s8 = s7\<lparr>num_connections6 := num_connections6 s7 + 1\<rparr>;
          s9 = sfe_ipv6_insert_connection_match E (original_match6 (conns6 s8 c)) s8
      in sfe_ipv6_insert_connection_match E (reply_match6 (conns6 s9 c)) s9)"
proof -
  have "alls6.enqueue c t =
      set_all_tail6 (Some c) (case all_connections_tail6 t of
          Some u \<Rightarrow> set_all_next6 u (Some c) (set_all_prev6 c (Some u) t)
        | None \<Rightarrow> set_all_head6 (Some c) (set_all_prev6 c None t))" for t
    by (simp add: alls6.enqueue_def Let_def split: option.split)
  then show ?thesis
    by (simp only: sfe_ipv6_insert_connection_def cch6.push_def Let_def)
qed

lemma mch_push_frame6 [simp]:
  "cms6 (mch6.push i p s) = cms6 s" "conns6 (mch6.push i p s) = conns6 s"
  "match_active6 (mch6.push i p s) = match_active6 s"
  "active_next6 (mch6.push i p s) = active_next6 s" "active_prev6 (mch6.push i p s) = active_prev6 s"
  "active_head6 (mch6.push i p s) = active_head6 s" "active_tail6 (mch6.push i p s) = active_tail6 s"
  "conn_next6 (mch6.push i p s) = conn_next6 s" "conn_prev6 (mch6.push i p s) = conn_prev6 s"
  "conn_hash6 (mch6.push i p s) = conn_hash6 s"
  "all_next6 (mch6.push i p s) = all_next6 s" "all_prev6 (mch6.push i p s) = all_prev6 s"
  "all_connections_head6 (mch6.push i p s) = all_connections_head6 s"
  "all_connections_tail6 (mch6.push i p s) = all_connections_tail6 s"
  "num_connections6 (mch6.push i p s) = num_connections6 s"
  "cm_live6 (mch6.push i p s) = cm_live6 s" "conn_live6 (mch6.push i p s) = conn_live6 s"
  by (simp_all add: mch6.push_def setter_defs6 Let_def split: option.split)

text \<open>Linking the connection into its chain and into the list of all connections.\<close>

definition link_conn6 :: "sfe_env \<Rightarrow> conn_ptr \<Rightarrow> sfe_ipv6 \<Rightarrow> sfe_ipv6" where
  "link_conn6 E c s =
     (let s7 = set_all_next6 c None (alls6.enqueue c (cch6.push (c_hash6 E (conns6 s c)) c s))
      in s7\<lparr>num_connections6 := num_connections6 s7 + 1\<rparr>)"

lemma link_conn_frame6 [simp]:
  "cms6 (link_conn6 E c s) = cms6 s" "conns6 (link_conn6 E c s) = conns6 s"
  "match_active6 (link_conn6 E c s) = match_active6 s"
  "match_next6 (link_conn6 E c s) = match_next6 s" "match_prev6 (link_conn6 E c s) = match_prev6 s"
  "conn_match_hash6 (link_conn6 E c s) = conn_match_hash6 s"
  "active_next6 (link_conn6 E c s) = active_next6 s" "active_prev6 (link_conn6 E c s) = active_prev6 s"
  "active_head6 (link_conn6 E c s) = active_head6 s" "active_tail6 (link_conn6 E c s) = active_tail6 s"
  "num_connections6 (link_conn6 E c s) = num_connections6 s + 1"
  "cm_live6 (link_conn6 E c s) = cm_live6 s" "conn_live6 (link_conn6 E c s) = conn_live6 s"
  by (simp_all add: link_conn6_def cch6.push_def alls6.enqueue_def setter_defs6 Let_def split: option.split)

lemma insert_conn_conv'6:
  "sfe_ipv6_insert_connection E c s =
     mch6.push (cm_hash6 E (cms6 s (reply_match6 (conns6 s c)))) (reply_match6 (conns6 s c))
       (mch6.push (cm_hash6 E (cms6 s (original_match6 (conns6 s c)))) (original_match6 (conns6 s c))
         (link_conn6 E c s))"
proof -
  have "sfe_ipv6_insert_connection E c s =
     (let s9 = sfe_ipv6_insert_connection_match E
                 (original_match6 (conns6 (link_conn6 E c s) c)) (link_conn6 E c s)
      in sfe_ipv6_insert_connection_match E (reply_match6 (conns6 s9 c)) s9)"
    by (simp only: insert_conn_conv6 link_conn6_def Let_def)
  then show ?thesis by (simp add: insert_match_conv6 Let_def)
qed

lemma insert_connection_frame6 [simp]:
  "cms6 (sfe_ipv6_insert_connection E c s) = cms6 s"
  "conns6 (sfe_ipv6_insert_connection E c s) = conns6 s"
  "match_active6 (sfe_ipv6_insert_connection E c s) = match_active6 s"
  "active_next6 (sfe_ipv6_insert_connection E c s) = active_next6 s"
  "num_connections6 (sfe_ipv6_insert_connection E c s) = num_connections6 s + 1"
  "cm_live6 (sfe_ipv6_insert_connection E c s) = cm_live6 s"
  "conn_live6 (sfe_ipv6_insert_connection E c s) = conn_live6 s"
  by (simp_all add: insert_conn_conv'6)

definition abs_insert6 :: "sfe_env \<Rightarrow> sfe_ipv6 \<Rightarrow> conn_ptr \<Rightarrow> sfe_abs6 \<Rightarrow> sfe_abs6" where
  "abs_insert6 E s c A =
     (let m = original_match6 (conns6 s c); r = reply_match6 (conns6 s c);
          hm = cm_hash6 E (cms6 s m); hr = cm_hash6 E (cms6 s r); hc = c_hash6 E (conns6 s c);
          mc = (mchains6 A)(hm := m # mchains6 A hm)
      in A\<lparr>mchains6 := mc(hr := r # mc hr),
           cchains6 := (cchains6 A)(hc := c # cchains6 A hc),
           connl6 := connl6 A @ [c]\<rparr>)"

lemma link_conn_lists6:
  assumes L: "lists_rep6 s A" and new: "\<And>i. c \<notin> set (cchains6 A i)" "c \<notin> set (connl6 A)"
  shows "lists_rep6 (link_conn6 E c s)
    (A\<lparr>cchains6 := (cchains6 A)(c_hash6 E (conns6 s c) := c # cchains6 A (c_hash6 E (conns6 s c))),
       connl6 := connl6 A @ [c]\<rparr>)"
proof -
  let ?s4 = "cch6.push (c_hash6 E (conns6 s c)) c s"
  have cc: "cch6.repr ?s4 ((cchains6 A)(c_hash6 E (conns6 s c) := c # cchains6 A (c_hash6 E (conns6 s c))))"
    using L new(1) by (intro cch6.repr_push) (simp_all add: lists_rep6_def)
  have "alls6.trepr ?s4 (connl6 A)"
    using L by (simp add: lists_rep6_def alls6.trepr_def cch6.push_def setter_defs6 Let_def split: option.split)
  then have al: "alls6.trepr (set_all_next6 c None (alls6.enqueue c ?s4)) (connl6 A @ [c])"
    using new(2) by (rule alls6.trepr_enqueue_clear)
  have "cch6.repr (link_conn6 E c s) ((cchains6 A)(c_hash6 E (conns6 s c) := c # cchains6 A (c_hash6 E (conns6 s c))))"
    using cc cch6.repr_cong [of "link_conn6 E c s" ?s4]
    by (simp add: link_conn6_def alls6.enqueue_def setter_defs6 Let_def split: option.split)
  moreover have "alls6.trepr (link_conn6 E c s) (connl6 A @ [c])"
    using al by (simp add: alls6.trepr_def link_conn6_def Let_def)
  ultimately show ?thesis
    using L by (simp add: lists_rep6_def mch6.repr_def act6.trepr_def)
qed

lemma mch_push_lists6:
  assumes "lists_rep6 s A" and "\<And>i. p \<notin> set (mchains6 A i)"
  shows "lists_rep6 (mch6.push i p s) (A\<lparr>mchains6 := (mchains6 A)(i := p # mchains6 A i)\<rparr>)"
  using assms mch6.repr_push [of s "mchains6 A" p i]
  by (simp add: lists_rep6_def cch6.repr_def act6.trepr_def alls6.trepr_def)

lemma insert_connection_lists6:
  assumes L: "lists_rep6 s A" and new: "\<And>i. c \<notin> set (cchains6 A i)" "c \<notin> set (connl6 A)"
    and m: "\<And>i. original_match6 (conns6 s c) \<notin> set (mchains6 A i)"
    and r: "\<And>i. reply_match6 (conns6 s c) \<notin> set (mchains6 A i)"
    and ne: "original_match6 (conns6 s c) \<noteq> reply_match6 (conns6 s c)"
  shows "lists_rep6 (sfe_ipv6_insert_connection E c s) (abs_insert6 E s c A)"
proof -
  let ?m = "original_match6 (conns6 s c)" and ?r = "reply_match6 (conns6 s c)"
  let ?hm = "cm_hash6 E (cms6 s ?m)" and ?hr = "cm_hash6 E (cms6 s ?r)"
  let ?A1 = "A\<lparr>cchains6 := (cchains6 A)(c_hash6 E (conns6 s c) := c # cchains6 A (c_hash6 E (conns6 s c))),
       connl6 := connl6 A @ [c]\<rparr>"
  let ?A2 = "?A1\<lparr>mchains6 := (mchains6 ?A1)(?hm := ?m # mchains6 ?A1 ?hm)\<rparr>"
  have "lists_rep6 (mch6.push ?hm ?m (link_conn6 E c s)) ?A2"
    by (rule mch_push_lists6 [OF link_conn_lists6 [OF L new]]) (use m in auto)
  then have "lists_rep6 (mch6.push ?hr ?r (mch6.push ?hm ?m (link_conn6 E c s)))
      (?A2\<lparr>mchains6 := (mchains6 ?A2)(?hr := ?r # mchains6 ?A2 ?hr)\<rparr>)"
    by (rule mch_push_lists6) (use r ne in auto)
  moreover have "?A2\<lparr>mchains6 := (mchains6 ?A2)(?hr := ?r # mchains6 ?A2 ?hr)\<rparr> = abs_insert6 E s c A"
    by (simp add: abs_insert6_def Let_def)
  ultimately show ?thesis by (simp only: insert_conn_conv'6)
qed

theorem insert_connection_inv6:
  assumes I: "table_inv6 E s A (c # D)"
    and idle: "\<And>p. p \<in> conn_matches6 s c \<Longrightarrow> \<not> match_active6 s p \<and> active_next6 s p = None"
  shows "table_inv6 E (sfe_ipv6_insert_connection E c s) (abs_insert6 E s c A) D"
proof -
  let ?t = "sfe_ipv6_insert_connection E c s" and ?B = "abs_insert6 E s c A"
  let ?m = "original_match6 (conns6 s c)" and ?r = "reply_match6 (conns6 s c)"
  have pair: "pair_ok6 s c" "\<forall>d\<in>set (connl6 A). pair_ok6 s d"
    and new: "c \<notin> set (connl6 A)" and newc: "c \<notin> set (cchains6 A i)" for i
    using I by (auto simp: table_inv6_def)
  have ne: "?m \<noteq> ?r" using pair(1) by (simp add: pair_ok6_def Let_def)
  have dis: "conn_matches6 s c \<inter> table_matches6 s (connl6 A) = {}"
    using pair new by (rule conn_matches_disjoint6)
  then have notin: "p \<in> conn_matches6 s c \<Longrightarrow> p \<notin> set (mchains6 A i)" for p i
    using I by (auto simp: table_inv6_def)
  have L: "lists_rep6 ?t ?B"
    using I new newc ne notin [of ?m] notin [of ?r]
    by (intro insert_connection_lists6) (auto simp: table_inv6_def conn_matches6_def)
  have tm: "table_matches6 ?t cs = table_matches6 s cs" for cs
    by (rule table_matches_cong6) simp
  have po: "pair_ok6 ?t d = pair_ok6 s d" for d by (simp add: pair_ok6_def)
  have B: "connl6 ?B = connl6 A @ [c]" "actives6 ?B = actives6 A"
    "set (mchains6 ?B i) = set (mchains6 A i) \<union> {p \<in> conn_matches6 s c. cm_hash6 E (cms6 s p) = i}"
    "set (cchains6 ?B i) = set (cchains6 A i) \<union> (if c_hash6 E (conns6 s c) = i then {c} else {})" for i
    by (auto simp: abs_insert6_def Let_def conn_matches6_def)
  show ?thesis
    unfolding table_inv6_def tm po B insert_connection_frame6
  proof (intro conjI)
    show "set (actives6 A) = {p \<in> table_matches6 s (connl6 A @ [c]). match_active6 s p}"
      using I idle by (auto simp: table_inv6_def)
    show "\<forall>p\<in>table_matches6 s (connl6 A @ [c]). \<not> match_active6 s p \<longrightarrow> active_next6 s p = None"
      using I idle by (auto simp: table_inv6_def)
  qed (use I L in \<open>auto simp: table_inv6_def\<close>)
qed

end
