(* ===== verification/Sfe6_Lookup.thy ===== *)
theory Sfe6_Lookup
  imports Sfe6_Table_Inv Sfe_Lookup
begin

text \<open>
  Look-ups in the two hash tables of the IPv6 engine. The contract of a look-up is the locale
  \<open>flow_table\<close> of \<open>Sfe_Lookup\<close>; the match table (whose look-up moves its hit to the front of the chain)
  and the connection table (whose look-up changes nothing) both interpret it.
\<close>

section \<open>Look-up refines the search of the abstract chain\<close>

lemma table_inv_chains6:
  assumes "table_inv6 E s A D" and "lists_rep6 s' A'"
    and "cms6 s' = cms6 s" "conns6 s' = conns6 s" "match_active6 s' = match_active6 s"
    and "active_next6 s' = active_next6 s" "num_connections6 s' = num_connections6 s"
    and "cm_live6 s' = cm_live6 s" "conn_live6 s' = conn_live6 s"
    and "\<And>i. set (mchains6 A' i) = set (mchains6 A i)" "\<And>i. set (cchains6 A' i) = set (cchains6 A i)"
    and "actives6 A' = actives6 A" "connl6 A' = connl6 A"
  shows "table_inv6 E s' A' D"
proof -
  have "table_matches6 s' cs = table_matches6 s cs" for cs
    using assms(4) by (rule table_matches_cong6)
  moreover have "pair_ok6 s' c = pair_ok6 s c" for c
    using assms(3,4) by (simp add: pair_ok6_def)
  ultimately show ?thesis using assms by (simp add: table_inv6_def)
qed

definition abs_to_front6 :: "u32 \<Rightarrow> cm_ptr option \<Rightarrow> sfe_abs6 \<Rightarrow> sfe_abs6" where
  "abs_to_front6 i r A =
     (case r of None \<Rightarrow> A
      | Some p \<Rightarrow> A\<lparr>mchains6 := (mchains6 A)(i := p # remove1 p (mchains6 A i))\<rparr>)"

lemma set_abs_to_front6:
  "distinct (mchains6 A i) \<Longrightarrow> (\<And>p. r = Some p \<Longrightarrow> p \<in> set (mchains6 A i)) \<Longrightarrow>
   set (mchains6 (abs_to_front6 i r A) j) = set (mchains6 A j)"
  by (auto simp: abs_to_front6_def split: option.split)

lemma abs_to_front_simps6 [simp]:
  "cchains6 (abs_to_front6 i r A) = cchains6 A" "actives6 (abs_to_front6 i r A) = actives6 A"
  "connl6 (abs_to_front6 i r A) = connl6 A"
  by (simp_all add: abs_to_front6_def split: option.split)

text \<open>What a look-up may change: the links of the chains and two counters.\<close>

definition same_but_chains6 :: "sfe_ipv6 \<Rightarrow> sfe_ipv6 \<Rightarrow> bool" where
  "same_but_chains6 s s' \<longleftrightarrow>
     s' = s\<lparr>match_next6 := match_next6 s', match_prev6 := match_prev6 s',
            conn_match_hash6 := conn_match_hash6 s',
            connection_match_hash_hits6 := connection_match_hash_hits6 s',
            connection_match_hash_reorders6 := connection_match_hash_reorders6 s'\<rparr>"

lemma same_but_chains_refl6 [simp]: "same_but_chains6 s s"
  by (simp add: same_but_chains6_def)

lemma same_but_chainsD6:
  assumes "same_but_chains6 s s'"
  shows "cms6 s' = cms6 s" "conns6 s' = conns6 s" "match_active6 s' = match_active6 s"
    "active_next6 s' = active_next6 s" "active_prev6 s' = active_prev6 s"
    "active_head6 s' = active_head6 s" "active_tail6 s' = active_tail6 s"
    "conn_next6 s' = conn_next6 s" "conn_prev6 s' = conn_prev6 s" "conn_hash6 s' = conn_hash6 s"
    "all_next6 s' = all_next6 s" "all_prev6 s' = all_prev6 s"
    "all_connections_head6 s' = all_connections_head6 s"
    "all_connections_tail6 s' = all_connections_tail6 s"
    "num_connections6 s' = num_connections6 s" "cm_live6 s' = cm_live6 s" "conn_live6 s' = conn_live6 s"
    "packets_forwarded6 s' = packets_forwarded6 s"
    "packets_not_forwarded6 s' = packets_not_forwarded6 s"
    "exception_events6 s' = exception_events6 s" "sync_calls6 s' = sync_calls6 s"
    "sync_rule_callback6 s' = sync_rule_callback6 s" "dev_refcnt6 s' = dev_refcnt6 s"
proof -
  obtain mn mp mh h r where "s' = s\<lparr>match_next6 := mn, match_prev6 := mp, conn_match_hash6 := mh,
      connection_match_hash_hits6 := h, connection_match_hash_reorders6 := r\<rparr>"
    using assms unfolding same_but_chains6_def by blast
  then show "cms6 s' = cms6 s" "conns6 s' = conns6 s" "match_active6 s' = match_active6 s"
    "active_next6 s' = active_next6 s" "active_prev6 s' = active_prev6 s"
    "active_head6 s' = active_head6 s" "active_tail6 s' = active_tail6 s"
    "conn_next6 s' = conn_next6 s" "conn_prev6 s' = conn_prev6 s" "conn_hash6 s' = conn_hash6 s"
    "all_next6 s' = all_next6 s" "all_prev6 s' = all_prev6 s"
    "all_connections_head6 s' = all_connections_head6 s"
    "all_connections_tail6 s' = all_connections_tail6 s"
    "num_connections6 s' = num_connections6 s" "cm_live6 s' = cm_live6 s" "conn_live6 s' = conn_live6 s"
    "packets_forwarded6 s' = packets_forwarded6 s"
    "packets_not_forwarded6 s' = packets_not_forwarded6 s"
    "exception_events6 s' = exception_events6 s" "sync_calls6 s' = sync_calls6 s"
    "sync_rule_callback6 s' = sync_rule_callback6 s" "dev_refcnt6 s' = dev_refcnt6 s"
    by simp_all
qed

lemma to_front_state6:
  assumes "match_next6 s x \<noteq> Some x" and "match_prev6 s x = Some p"
  shows "(let s1 = (case match_next6 s x of
                      Some n \<Rightarrow> set_match_prev6 n (match_prev6 s x) s
                    | None \<Rightarrow> s)
          in do { q \<leftarrow> match_prev6 s1 x;
                  let s2 = set_match_next6 q (match_next6 s1 x) s1;
                  let s3 = set_match_prev6 x None s2;
                  let s4 = set_match_next6 x (Some h) s3;
                  let s5 = set_match_prev6 h (Some x) s4;
                  let s6 = set_conn_match_hash6 i (Some x) s5;
                  Some (Some x, s6\<lparr>connection_match_hash_reorders6 := connection_match_hash_reorders6 s6 + 1\<rparr>) })
         = Some (Some x, (mch6.to_front i h p x s)
             \<lparr>connection_match_hash_reorders6 := connection_match_hash_reorders6 s + 1\<rparr>)"
  using assms by (auto simp: mch6.to_front_def Let_def setter_defs6 split: option.split)

lemma to_front_same_but_chains6:
  "same_but_chains6 s ((mch6.to_front i h p x s)\<lparr>connection_match_hash_reorders6 := r\<rparr>)"
  by (simp add: same_but_chains6_def mch6.to_front_def Let_def setter_defs6 split: option.split)

theorem find_match_refines6:
  assumes I: "table_inv6 E s A D"
    and i: "i = sfe_ipv6_get_connection_match_hash E dev protocol src_ip src_port dest_ip dest_port"
    and P: "P = (\<lambda>p. match_is6 (cms6 s p) dev protocol src_ip src_port dest_ip dest_port)"
  obtains s' where
    "sfe_ipv6_find_connection_match E dev protocol src_ip src_port dest_ip dest_port s =
       Some (List.find P (mchains6 A i), s')"
    and "table_inv6 E s' (abs_to_front6 i (List.find P (mchains6 A i)) A) D"
    and "same_but_chains6 s s'"
proof -
  let ?find = "sfe_ipv6_find_connection_match E dev protocol src_ip src_port dest_ip dest_port s"
  let ?r = "List.find P (mchains6 A i)"
  have L: "lists_rep6 s A" using I by (simp add: table_inv6_def)
  then have M: "mch6.repr s (mchains6 A)" by (simp add: lists_rep6_def)
  note hd = mch6.repr_hd [OF M, of i] and dist = mch6.repr_distinct [OF M, of i]
  have sets: "set (mchains6 (abs_to_front6 i ?r A) j) = set (mchains6 A j)" for j
    by (rule set_abs_to_front6 [OF dist]) (auto dest: find_in_set)
  have keep: "table_inv6 E s' (abs_to_front6 i ?r A) D"
    if "mch6.repr s' (mchains6 (abs_to_front6 i ?r A))" and "same_but_chains6 s s'" for s'
  proof (rule table_inv_chains6 [OF I])
    show "lists_rep6 s' (abs_to_front6 i ?r A)"
      using that L same_but_chainsD6 [OF that(2)]
      by (simp add: lists_rep6_def cch6.repr_def act6.trepr_def alls6.trepr_def)
  qed (simp_all add: same_but_chainsD6 [OF that(2)] sets)
  show thesis
  proof (cases "mchains6 A i")
    case Nil
    then have "?find = Some (?r, s)"
      using hd by (simp add: sfe_ipv6_find_connection_match_def Let_def flip: i)
    with I Nil show thesis by (intro that) (auto simp: abs_to_front6_def)
  next
    case (Cons h rest)
    then have h: "conn_match_hash6 s i = Some h" using hd by simp
    show thesis
    proof (cases "P h")
      case True
      let ?s = "s\<lparr>connection_match_hash_hits6 := connection_match_hash_hits6 s + 1\<rparr>"
      have "?find = Some (?r, ?s)"
        using h Cons True
        by (simp add: sfe_ipv6_find_connection_match_def Let_def P flip: i)
      moreover have "same_but_chains6 s ?s"
        by (simp add: same_but_chains6_def)
      moreover have "abs_to_front6 i ?r A = A" using Cons True by (simp add: abs_to_front6_def fun_upd_idem)
      then have "mch6.repr ?s (mchains6 (abs_to_front6 i ?r A))" using M by (simp add: mch6.repr_def)
      ultimately show thesis using keep by (intro that)
    next
      case False
      have "dseg (match_next6 s) (match_prev6 s) (match_next6 s h) (Some h) rest None"
        using mch6.repr_dll [OF M, of i] Cons h by (simp add: dll_def)
      from match_chain_search_dseg6 [OF this]
      have srch: "match_chain_search6 (match_next6 s) P (match_next6 s h) = Some (List.find P rest)" .
      have r: "?r = List.find P rest" using Cons False by simp
      show thesis
      proof (cases ?r)
        case None
        then have "?find = Some (?r, s)"
          using h False srch r
          by (simp add: sfe_ipv6_find_connection_match_def Let_def P flip: i)
        with I None show thesis by (intro that) (auto simp: abs_to_front6_def)
      next
        case (Some x)
        then have x: "x \<in> set (mchains6 A i)" and ne: "x \<noteq> h"
          using find_in_set [of P "mchains6 A i" x] False by auto
        from M x h ne obtain p where p: "match_prev6 s x = Some p"
          and rep: "mch6.repr (mch6.to_front i h p x s) ((mchains6 A)(i := x # remove1 x (mchains6 A i)))"
          by (rule mch6.repr_to_front)
        let ?s = "(mch6.to_front i h p x s)
            \<lparr>connection_match_hash_reorders6 := connection_match_hash_reorders6 s + 1\<rparr>"
        have nx: "match_next6 s x \<noteq> Some x"
          using mch6.nbrs_neq(1) [OF mch6.repr_dll [OF M, of i] x] .
        have "?find = Some (?r, ?s)"
          using h False srch r Some to_front_state6 [OF nx p, of h i]
          by (simp add: sfe_ipv6_find_connection_match_def Let_def P flip: i)
        moreover have "mch6.repr ?s (mchains6 (abs_to_front6 i ?r A))"
          using rep Some by (simp add: abs_to_front6_def mch6.repr_def)
        ultimately show thesis using keep to_front_same_but_chains6 by (intro that) auto
      qed
    qed
  qed
qed

theorem find_conn_refines6:
  assumes I: "table_inv6 E s A D"
    and i: "i = sfe_ipv6_get_connection_hash E (ucast protocol) src_ip src_port dest_ip dest_port"
  shows "sfe_ipv6_find_connection E protocol src_ip src_port dest_ip dest_port s =
     Some (List.find (\<lambda>c. conn_is6 (conns6 s c) protocol src_ip src_port dest_ip dest_port) (cchains6 A i))"
proof -
  have M: "cch6.repr s (cchains6 A)" using I by (simp add: table_inv6_def lists_rep6_def)
  note hd = cch6.repr_hd [OF M, of i]
  show ?thesis
  proof (cases "cchains6 A i")
    case Nil
    with hd show ?thesis by (simp add: sfe_ipv6_find_connection_def flip: i)
  next
    case (Cons h rest)
    then have h: "conn_hash6 s i = Some h" using hd by simp
    have "dseg (conn_next6 s) (conn_prev6 s) (conn_next6 s h) (Some h) rest None"
      using cch6.repr_dll [OF M, of i] Cons h by (simp add: dll_def)
    from conn_chain_search_dseg6 [OF this] h Cons show ?thesis
      by (simp add: sfe_ipv6_find_connection_def flip: i)
  qed
qed

section \<open>Both tables fulfil the contract of a look-up\<close>

definition tabled_conns6 :: "sfe_ipv6 \<Rightarrow> conn_ptr set" where
  "tabled_conns6 s = {c. \<exists>xs. alls6.trepr s xs \<and> c \<in> set xs}"

definition tabled_matches6 :: "sfe_ipv6 \<Rightarrow> cm_ptr set" where
  "tabled_matches6 s = (\<Union>c\<in>tabled_conns6 s. conn_matches6 s c)"

definition sfe_inv6 :: "sfe_env \<Rightarrow> sfe_ipv6 \<Rightarrow> bool" where
  "sfe_inv6 E s \<longleftrightarrow> (\<exists>A D. table_inv6 E s A D)"

lemma table_inv_tabled6:
  assumes "table_inv6 E s A D"
  shows "tabled_conns6 s = set (connl6 A)" and "tabled_matches6 s = table_matches6 s (connl6 A)"
proof -
  have "alls6.trepr s (connl6 A)" using assms by (simp add: table_inv6_def lists_rep6_def)
  then show "tabled_conns6 s = set (connl6 A)"
    by (auto simp: tabled_conns6_def dest: alls6.trepr_unique)
  then show "tabled_matches6 s = table_matches6 s (connl6 A)"
    by (simp add: tabled_matches6_def table_matches6_def)
qed

type_synonym match_key6 = "netdev \<times> u8 \<times> sfe_ipv6_addr \<times> u16 \<times> sfe_ipv6_addr \<times> u16"
type_synonym conn_key6 = "u32 \<times> sfe_ipv6_addr \<times> u16 \<times> sfe_ipv6_addr \<times> u16"

definition match_key6 :: "sfe_ipv6 \<Rightarrow> cm_ptr \<Rightarrow> match_key6" where
  "match_key6 s p = (let m = cms6 s p in (match_dev6 m, match_protocol6 m, match_src_ip6 m,
     match_src_port6 m, match_dest_ip6 m, match_dest_port6 m))"

definition conn_key6 :: "sfe_ipv6 \<Rightarrow> conn_ptr \<Rightarrow> conn_key6" where
  "conn_key6 s c = (let d = conns6 s c in (c_protocol6 d, c_src_ip6 d, c_src_port6 d, c_dest_ip6 d,
     c_dest_port6 d))"

definition find_match6 :: "sfe_env \<Rightarrow> match_key6 \<Rightarrow> sfe_ipv6 \<Rightarrow> (cm_ptr option \<times> sfe_ipv6) option" where
  "find_match6 E k s = (case k of (dev, protocol, src_ip, src_port, dest_ip, dest_port) \<Rightarrow>
     sfe_ipv6_find_connection_match E dev protocol src_ip src_port dest_ip dest_port s)"

definition find_conn6 :: "sfe_env \<Rightarrow> conn_key6 \<Rightarrow> sfe_ipv6 \<Rightarrow> (conn_ptr option \<times> sfe_ipv6) option" where
  "find_conn6 E k s = (case k of (protocol, src_ip, src_port, dest_ip, dest_port) \<Rightarrow>
     map_option (\<lambda>r. (r, s)) (sfe_ipv6_find_connection E protocol src_ip src_port dest_ip dest_port s))"

lemma match_is_key6:
  "match_is6 (cms6 s p) dev pr si sp di dp \<longleftrightarrow> match_key6 s p = (dev, pr, si, sp, di, dp)"
  by (auto simp: match_is6_def match_key6_def Let_def)

lemma conn_is_key6: "conn_is6 (conns6 s c) pr si sp di dp \<longleftrightarrow> conn_key6 s c = (pr, si, sp, di, dp)"
  by (auto simp: conn_is6_def conn_key6_def Let_def)

lemma find_None_notin6: "List.find P xs = None \<Longrightarrow> x \<in> set xs \<Longrightarrow> \<not> P x"
  by (auto simp: find_None_iff)

lemma find_match_cases6:
  assumes I: "table_inv6 E s A D"
  obtains r s' A' where "find_match6 E k s = Some (r, s')"
    and "table_inv6 E s' A' D" and "same_but_chains6 s s'" and "connl6 A' = connl6 A"
    and "\<And>p. r = Some p \<Longrightarrow> p \<in> tabled_matches6 s \<and> match_key6 s p = k"
    and "\<And>p. r = None \<Longrightarrow> p \<in> tabled_matches6 s \<Longrightarrow> match_key6 s p \<noteq> k"
proof -
  obtain dev pr si sp di dp where k: "k = (dev, pr, si, sp, di, dp)" by (cases k)
  define i where "i = sfe_ipv6_get_connection_match_hash E dev pr si sp di dp"
  define P where "P = (\<lambda>p. match_is6 (cms6 s p) dev pr si sp di dp)"
  obtain s' where f: "find_match6 E k s = Some (List.find P (mchains6 A i), s')"
    and I': "table_inv6 E s' (abs_to_front6 i (List.find P (mchains6 A i)) A) D"
    and same: "same_but_chains6 s s'"
    using find_match_refines6 [OF I i_def P_def] by (auto simp: find_match6_def k)
  have P: "P p \<longleftrightarrow> match_key6 s p = k" for p by (simp add: P_def match_is_key6 k)
  have ch: "set (mchains6 A i) = {p \<in> tabled_matches6 s. cm_hash6 E (cms6 s p) = i}"
    using I by (simp add: table_inv_tabled6 [OF I] table_inv6_def)
  have hash: "match_key6 s p = k \<Longrightarrow> cm_hash6 E (cms6 s p) = i" for p
    by (simp add: k match_key6_def cm_hash6_def i_def Let_def)
  show thesis
  proof (rule that [OF f I' same])
    fix p
    show "List.find P (mchains6 A i) = Some p \<Longrightarrow> p \<in> tabled_matches6 s \<and> match_key6 s p = k"
      using find_in_set [of P "mchains6 A i" p] ch P by auto
    show "List.find P (mchains6 A i) = None \<Longrightarrow> p \<in> tabled_matches6 s \<Longrightarrow> match_key6 s p \<noteq> k"
      using find_None_notin6 [of P "mchains6 A i" p] ch P hash by auto
  qed simp
qed

lemma find_conn_cases6:
  assumes I: "table_inv6 E s A D"
  obtains r where "find_conn6 E k s = Some (r, s)"
    and "\<And>c. r = Some c \<Longrightarrow> c \<in> tabled_conns6 s \<and> conn_key6 s c = k"
    and "\<And>c. r = None \<Longrightarrow> c \<in> tabled_conns6 s \<Longrightarrow> conn_key6 s c \<noteq> k"
proof -
  obtain pr si sp di dp where k: "k = (pr, si, sp, di, dp)" by (cases k)
  define i where "i = sfe_ipv6_get_connection_hash E (ucast pr) si sp di dp"
  let ?P = "\<lambda>c. conn_is6 (conns6 s c) pr si sp di dp"
  have f: "find_conn6 E k s = Some (List.find ?P (cchains6 A i), s)"
    using find_conn_refines6 [OF I i_def] by (simp add: find_conn6_def k)
  have ch: "set (cchains6 A i) = {c \<in> tabled_conns6 s. c_hash6 E (conns6 s c) = i}"
    using I by (simp add: table_inv_tabled6 [OF I] table_inv6_def)
  have hash: "conn_key6 s c = k \<Longrightarrow> c_hash6 E (conns6 s c) = i" for c
    by (simp add: k conn_key6_def c_hash6_def i_def Let_def)
  show thesis
  proof (rule that [OF f])
    fix c
    show "List.find ?P (cchains6 A i) = Some c \<Longrightarrow> c \<in> tabled_conns6 s \<and> conn_key6 s c = k"
      using find_in_set [of ?P "cchains6 A i" c] ch by (auto simp: conn_is_key6 k)
    show "List.find ?P (cchains6 A i) = None \<Longrightarrow> c \<in> tabled_conns6 s \<Longrightarrow> conn_key6 s c \<noteq> k"
      using find_None_notin6 [of ?P "cchains6 A i" c] ch hash by (auto simp: conn_is_key6 k)
  qed
qed

lemma same_but_chains_key6: "same_but_chains6 s s' \<Longrightarrow> match_key6 s' = match_key6 s"
  by (simp add: fun_eq_iff match_key6_def same_but_chainsD6)

interpretation mtab6: flow_table "sfe_inv6 E" tabled_matches6 match_key6 "find_match6 E" for E
proof
  fix s k p s' r
  assume "sfe_inv6 E s"
  then obtain A D where I: "table_inv6 E s A D" by (auto simp: sfe_inv6_def)
  obtain r0 s0 A' where f0: "find_match6 E k s = Some (r0, s0)"
    and I': "table_inv6 E s0 A' D" and same: "same_but_chains6 s s0" and c: "connl6 A' = connl6 A"
    and hit: "\<And>p. r0 = Some p \<Longrightarrow> p \<in> tabled_matches6 s \<and> match_key6 s p = k"
    and miss: "\<And>p. r0 = None \<Longrightarrow> p \<in> tabled_matches6 s \<Longrightarrow> match_key6 s p \<noteq> k"
    using find_match_cases6 [OF I, of k] by blast
  show "find_match6 E k s \<noteq> None" using f0 by simp
  show "find_match6 E k s = Some (Some p, s') \<Longrightarrow> p \<in> tabled_matches6 s \<and> match_key6 s p = k"
    using f0 hit by simp
  show "find_match6 E k s = Some (None, s') \<Longrightarrow> p \<in> tabled_matches6 s \<Longrightarrow> match_key6 s p \<noteq> k"
    using f0 miss by simp
  have "conns6 s0 = conns6 s" using same by (rule same_but_chainsD6)
  then have "tabled_matches6 s0 = tabled_matches6 s"
    unfolding table_inv_tabled6(2) [OF I'] table_inv_tabled6(2) [OF I] c by (rule table_matches_cong6)
  then show "find_match6 E k s = Some (r, s') \<Longrightarrow>
      sfe_inv6 E s' \<and> tabled_matches6 s' = tabled_matches6 s \<and> match_key6 s' = match_key6 s"
    using f0 I' same_but_chains_key6 [OF same] by (auto simp: sfe_inv6_def)
qed

interpretation ctab6: flow_table "sfe_inv6 E" tabled_conns6 conn_key6 "find_conn6 E" for E
proof
  fix s k p s' r
  assume V: "sfe_inv6 E s"
  then obtain A D where I: "table_inv6 E s A D" by (auto simp: sfe_inv6_def)
  obtain r0 where f0: "find_conn6 E k s = Some (r0, s)"
    and hit: "\<And>p. r0 = Some p \<Longrightarrow> p \<in> tabled_conns6 s \<and> conn_key6 s p = k"
    and miss: "\<And>p. r0 = None \<Longrightarrow> p \<in> tabled_conns6 s \<Longrightarrow> conn_key6 s p \<noteq> k"
    using find_conn_cases6 [OF I, of k] by blast
  show "find_conn6 E k s \<noteq> None" using f0 by simp
  show "find_conn6 E k s = Some (Some p, s') \<Longrightarrow> p \<in> tabled_conns6 s \<and> conn_key6 s p = k"
    using f0 hit by simp
  show "find_conn6 E k s = Some (None, s') \<Longrightarrow> p \<in> tabled_conns6 s \<Longrightarrow> conn_key6 s p \<noteq> k"
    using f0 miss by simp
  show "find_conn6 E k s = Some (r, s') \<Longrightarrow>
      sfe_inv6 E s' \<and> tabled_conns6 s' = tabled_conns6 s \<and> conn_key6 s' = conn_key6 s"
    using f0 V by simp
qed

end
