(* ===== verification/Sfe6_Sync.thy ===== *)
theory Sfe6_Sync
  imports Sfe6_Lookup
begin

text \<open>
  Statistics and synchronisation (sfe_ipv6.c): the summary counters, the message that reports a
  connection to the connection manager, the release of a removed connection, the registration of
  the callback, and the periodic walk over the active flows. The state of a message before it is
  filled in (an uninitialised stack object) and the time are arguments.
\<close>

section \<open>Changes of one object\<close>

definition upd_cm6 :: "cm_ptr \<Rightarrow> (sfe_ipv6_connection_match \<Rightarrow> sfe_ipv6_connection_match) \<Rightarrow>
  sfe_ipv6 \<Rightarrow> sfe_ipv6" where
  "upd_cm6 p f s = s\<lparr>cms6 := (cms6 s)(p := f (cms6 s p))\<rparr>"

definition upd_conn6 :: "conn_ptr \<Rightarrow> (sfe_ipv6_connection \<Rightarrow> sfe_ipv6_connection) \<Rightarrow>
  sfe_ipv6 \<Rightarrow> sfe_ipv6" where
  "upd_conn6 c f s = s\<lparr>conns6 := (conns6 s)(c := f (conns6 s c))\<rparr>"

section \<open>Summary statistics\<close>

definition sfe_ipv6_connection_match_update_summary_stats :: "cm_ptr \<Rightarrow> sfe_ipv6 \<Rightarrow> sfe_ipv6" where
  "sfe_ipv6_connection_match_update_summary_stats cm s =
     upd_cm6 cm (\<lambda>m. m\<lparr>rx_packet_count64_6 := rx_packet_count64_6 m + ucast (rx_packet_count6 m),
                      rx_packet_count6 := 0,
                      rx_byte_count64_6 := rx_byte_count64_6 m + ucast (rx_byte_count6 m),
                      rx_byte_count6 := 0\<rparr>) s"

definition sfe_ipv6_update_summary_stats :: "sfe_ipv6 \<Rightarrow> sfe_ipv6" where
  "sfe_ipv6_update_summary_stats s = s\<lparr>
     connection_create_requests64_6 := connection_create_requests64_6 s + ucast (connection_create_requests6 s),
     connection_create_requests6 := 0,
     connection_create_collisions64_6 := connection_create_collisions64_6 s + ucast (connection_create_collisions6 s),
     connection_create_collisions6 := 0,
     connection_destroy_requests64_6 := connection_destroy_requests64_6 s + ucast (connection_destroy_requests6 s),
     connection_destroy_requests6 := 0,
     connection_destroy_misses64_6 := connection_destroy_misses64_6 s + ucast (connection_destroy_misses6 s),
     connection_destroy_misses6 := 0,
     connection_match_hash_hits64_6 := connection_match_hash_hits64_6 s + ucast (connection_match_hash_hits6 s),
     connection_match_hash_hits6 := 0,
     connection_match_hash_reorders64_6 := connection_match_hash_reorders64_6 s + ucast (connection_match_hash_reorders6 s),
     connection_match_hash_reorders6 := 0,
     connection_flushes64_6 := connection_flushes64_6 s + ucast (connection_flushes6 s),
     connection_flushes6 := 0,
     packets_forwarded64_6 := packets_forwarded64_6 s + ucast (packets_forwarded6 s),
     packets_forwarded6 := 0,
     packets_not_forwarded64_6 := packets_not_forwarded64_6 s + ucast (packets_not_forwarded6 s),
     packets_not_forwarded6 := 0,
     exception_events64_6 := (\<lambda>e. exception_events64_6 s e + ucast (exception_events6 s e)),
     exception_events6 := (\<lambda>e. 0)\<rparr>"

section \<open>The synchronisation message\<close>

definition sfe_ipv6_gen_sync_connection ::
  "conn_ptr \<Rightarrow> sfe_connection_sync \<Rightarrow> sfe_sync_reason \<Rightarrow> u64 \<Rightarrow> sfe_ipv6 \<Rightarrow>
   sfe_connection_sync \<times> sfe_ipv6" where
  "sfe_ipv6_gen_sync_connection c sis reason now_jiffies s =
     (let d = conns6 s c;
          original_cm = original_match6 d;
          reply_cm = reply_match6 d;
          sis1 = sis\<lparr>sis_is_v6 := True, sis_protocol := c_protocol6 d,
            sis_src_ip := c_src_ip6 d,
            sis_src_ip_xlate := c_src_ip_xlate6 d,
            sis_dest_ip := c_dest_ip6 d,
            sis_dest_ip_xlate := c_dest_ip_xlate6 d,
            sis_src_port := c_src_port6 d, sis_src_port_xlate := c_src_port_xlate6 d,
            sis_dest_port := c_dest_port6 d, sis_dest_port_xlate := c_dest_port_xlate6 d,
            sis_src_td_max_window := max_win (cm_tcp6 (cms6 s original_cm)),
            sis_src_td_end := tcp_end (cm_tcp6 (cms6 s original_cm)),
            sis_src_td_max_end := max_end (cm_tcp6 (cms6 s original_cm)),
            sis_dest_td_max_window := max_win (cm_tcp6 (cms6 s reply_cm)),
            sis_dest_td_end := tcp_end (cm_tcp6 (cms6 s reply_cm)),
            sis_dest_td_max_end := max_end (cm_tcp6 (cms6 s reply_cm)),
            sis_src_new_packet_count := rx_packet_count6 (cms6 s original_cm),
            sis_src_new_byte_count := rx_byte_count6 (cms6 s original_cm),
            sis_dest_new_packet_count := rx_packet_count6 (cms6 s reply_cm),
            sis_dest_new_byte_count := rx_byte_count6 (cms6 s reply_cm)\<rparr>;
          s1 = sfe_ipv6_connection_match_update_summary_stats original_cm s;
          s2 = sfe_ipv6_connection_match_update_summary_stats reply_cm s1;
          sis2 = sis1\<lparr>sis_src_dev := match_dev6 (cms6 s2 original_cm),
            sis_src_packet_count := rx_packet_count64_6 (cms6 s2 original_cm),
            sis_src_byte_count := rx_byte_count64_6 (cms6 s2 original_cm),
            sis_dest_dev := match_dev6 (cms6 s2 reply_cm),
            sis_dest_packet_count := rx_packet_count64_6 (cms6 s2 reply_cm),
            sis_dest_byte_count := rx_byte_count64_6 (cms6 s2 reply_cm),
            sis_reason := reason,
            sis_delta_jiffies := now_jiffies - last_sync_jiffies6 (conns6 s2 c)\<rparr>
      in (sis2, upd_conn6 c (\<lambda>d. d\<lparr>last_sync_jiffies6 := now_jiffies\<rparr>) s2))"

text \<open>The callback itself belongs to the connection manager; a call of it is recorded.\<close>

definition call_sync_rule6 :: "nat \<Rightarrow> sfe_connection_sync \<Rightarrow> sfe_ipv6 \<Rightarrow> sfe_ipv6" where
  "call_sync_rule6 cb sis s = s\<lparr>sync_calls6 := sync_calls6 s @ [(cb, sis)]\<rparr>"

definition sfe_ipv6_register_sync_rule_callback :: "nat option \<Rightarrow> sfe_ipv6 \<Rightarrow> sfe_ipv6" where
  "sfe_ipv6_register_sync_rule_callback cb s = s\<lparr>sync_rule_callback6 := cb\<rparr>"

section \<open>Release of a removed connection\<close>

definition dev_hold6 :: "netdev \<Rightarrow> sfe_ipv6 \<Rightarrow> sfe_ipv6" where
  "dev_hold6 d s = s\<lparr>dev_refcnt6 := (dev_refcnt6 s)(d := dev_refcnt6 s d + 1)\<rparr>"

definition dev_put6 :: "netdev \<Rightarrow> sfe_ipv6 \<Rightarrow> sfe_ipv6" where
  "dev_put6 d s = s\<lparr>dev_refcnt6 := (dev_refcnt6 s)(d := dev_refcnt6 s d - 1)\<rparr>"

definition kfree_cm6 :: "cm_ptr \<Rightarrow> sfe_ipv6 \<Rightarrow> sfe_ipv6" where
  "kfree_cm6 p s = s\<lparr>cm_live6 := cm_live6 s - {p}\<rparr>"

definition kfree_conn6 :: "conn_ptr \<Rightarrow> sfe_ipv6 \<Rightarrow> sfe_ipv6" where
  "kfree_conn6 c s = s\<lparr>conn_live6 := conn_live6 s - {c}\<rparr>"

text \<open>The release reports the connection a last time, if somebody listens, and frees its objects.\<close>

definition flush_report6 ::
  "conn_ptr \<Rightarrow> sfe_sync_reason \<Rightarrow> sfe_connection_sync \<Rightarrow> u64 \<Rightarrow> sfe_ipv6 \<Rightarrow> sfe_ipv6" where
  "flush_report6 c reason sis now_jiffies s =
     (let s1 = s\<lparr>connection_flushes6 := connection_flushes6 s + 1\<rparr>
      in case sync_rule_callback6 s1 of
           None \<Rightarrow> s1
         | Some cb \<Rightarrow>
             (let (msg, t) = sfe_ipv6_gen_sync_connection c sis reason now_jiffies s1
              in call_sync_rule6 cb msg t))"

definition sfe_ipv6_flush_connection ::
  "conn_ptr \<Rightarrow> sfe_sync_reason \<Rightarrow> sfe_connection_sync \<Rightarrow> u64 \<Rightarrow> sfe_ipv6 \<Rightarrow> sfe_ipv6" where
  "sfe_ipv6_flush_connection c reason sis now_jiffies s =
     (let s2 = flush_report6 c reason sis now_jiffies s;
          s3 = dev_put6 (original_dev6 (conns6 s2 c)) s2;
          s4 = dev_put6 (reply_dev6 (conns6 s3 c)) s3;
          s5 = kfree_cm6 (original_match6 (conns6 s4 c)) s4;
          s6 = kfree_cm6 (reply_match6 (conns6 s5 c)) s5
      in kfree_conn6 c s6)"

section \<open>Periodic synchronisation\<close>

text \<open>
  One turn of the loop over the active list: the flow at the head and its counterpart leave the
  list and the connection is reported. A NULL predecessor of the counterpart would be dereferenced.
\<close>

definition sfe_ipv6_periodic_sync_turn ::
  "cm_ptr \<Rightarrow> nat \<Rightarrow> sfe_connection_sync \<Rightarrow> u64 \<Rightarrow> sfe_ipv6 \<Rightarrow> sfe_ipv6 option" where
  "sfe_ipv6_periodic_sync_turn cm cb sis now_jiffies s = do {
     let counter_cm = cm_counter_match6 (cms6 s cm);
     s1 \<leftarrow> (if match_active6 s counter_cm then do {
               let t1 = s\<lparr>match_active6 := (match_active6 s)(counter_cm := False)\<rparr>;
               p \<leftarrow> active_prev6 t1 counter_cm;
               let t2 = set_active_next6 p (active_next6 t1 counter_cm) t1;
               let t3 = (case active_next6 t2 counter_cm of
                           Some n \<Rightarrow> set_active_prev6 n (active_prev6 t2 counter_cm) t2
                         | None \<Rightarrow> set_active_tail6 (active_prev6 t2 counter_cm) t2);
               let t4 = set_active_next6 counter_cm None t3;
               Some (set_active_prev6 counter_cm None t4)
             } else Some s);
     let s2 = s1\<lparr>match_active6 := (match_active6 s1)(cm := False)\<rparr>;
     let s3 = set_active_head6 (active_next6 s2 cm) s2;
     let s4 = (case active_next6 s3 cm of
                 Some n \<Rightarrow> set_active_prev6 n None s3
               | None \<Rightarrow> set_active_tail6 None s3);
     let s5 = set_active_next6 cm None s4;
     let (msg, s6) = sfe_ipv6_gen_sync_connection (cm_connection6 (cms6 s5 cm)) sis
                       SFE_SYNC_REASON_STATS now_jiffies s5;
     Some (call_sync_rule6 cb msg s6)
   }"

fun sfe_ipv6_periodic_sync_loop ::
  "nat \<Rightarrow> nat \<Rightarrow> sfe_connection_sync \<Rightarrow> u64 \<Rightarrow> sfe_ipv6 \<Rightarrow> sfe_ipv6 option" where
  "sfe_ipv6_periodic_sync_loop 0 cb sis now s = Some s"
| "sfe_ipv6_periodic_sync_loop (Suc quota) cb sis now s =
     (case active_head6 s of
        None \<Rightarrow> Some s
      | Some cm \<Rightarrow> do {
          t \<leftarrow> sfe_ipv6_periodic_sync_turn cm cb sis now s;
          sfe_ipv6_periodic_sync_loop quota cb sis now t
        })"

definition sync_quota6 :: "sfe_ipv6 \<Rightarrow> nat" where
  "sync_quota6 s = unat ((num_connections6 s + 63) div 64)"

definition sfe_ipv6_periodic_sync :: "sfe_connection_sync \<Rightarrow> u64 \<Rightarrow> sfe_ipv6 \<Rightarrow> sfe_ipv6 option" where
  "sfe_ipv6_periodic_sync sis now s =
     (case sync_rule_callback6 s of
        None \<Rightarrow> Some s
      | Some cb \<Rightarrow>
          (let s1 = sfe_ipv6_update_summary_stats s
           in sfe_ipv6_periodic_sync_loop (sync_quota6 s1) cb sis now s1))"

end
