(* ===== verification/Sfe6_Debug.thy ===== *)
theory Sfe6_Debug
  imports Sfe6_Text Sfe6_Sync Sfe_Debug
begin

text \<open>
  The debug character device (sfe_ipv6.c, \<open>sfe_ipv6_debug_dev_read\<close> and the functions it calls): a read
  writes the state of the engine as XML, one element per call of a writer, driven by a state machine
  that is kept with the open file. The states, the variables of a read and the copying are those of
  \<open>Sfe_Debug\<close>, which the code has a second time. Whether the n-th \<open>copy_to_user\<close> of a read succeeds and the time
  of the n-th writer are arguments; a loop that does not end is None.
\<close>

type_synonym dump_state6 = "sfe_ipv6 dump_of"

section \<open>Fixed elements\<close>

definition msg_start6 :: string where "msg_start6 = ''<sfe_ipv6>'' @ newline"
definition msg_end6 :: string where "msg_end6 = ''</sfe_ipv6>'' @ newline"

definition sfe_ipv6_debug_dev_read_start :: "bool \<Rightarrow> dump_state6 \<Rightarrow> dump_state6" where
  "sfe_ipv6_debug_dev_read_start ok x =
     (case x of (d, ws, s) \<Rightarrow> write_fixed msg_start6 ok (d, ws, s\<lparr>debug_read_seq6 := debug_read_seq6 s + 1\<rparr>))"

definition sfe_ipv6_debug_dev_read_connections_start :: "bool \<Rightarrow> dump_state6 \<Rightarrow> dump_state6" where
  "sfe_ipv6_debug_dev_read_connections_start = write_fixed msg_connections_start"

definition sfe_ipv6_debug_dev_read_connections_end :: "bool \<Rightarrow> dump_state6 \<Rightarrow> dump_state6" where
  "sfe_ipv6_debug_dev_read_connections_end = write_fixed msg_connections_end"

definition sfe_ipv6_debug_dev_read_exceptions_start :: "bool \<Rightarrow> dump_state6 \<Rightarrow> dump_state6" where
  "sfe_ipv6_debug_dev_read_exceptions_start = write_fixed msg_exceptions_start"

definition sfe_ipv6_debug_dev_read_exceptions_end :: "bool \<Rightarrow> dump_state6 \<Rightarrow> dump_state6" where
  "sfe_ipv6_debug_dev_read_exceptions_end = write_fixed msg_exceptions_end"

definition sfe_ipv6_debug_dev_read_end :: "bool \<Rightarrow> dump_state6 \<Rightarrow> dump_state6" where
  "sfe_ipv6_debug_dev_read_end = write_fixed msg_end6"

section \<open>Connections\<close>

text \<open>The first connection this dump has not shown yet.\<close>

partial_function (option) next_unread6 :: "sfe_ipv6 \<Rightarrow> conn_ptr option \<Rightarrow> conn_ptr option option" where
  "next_unread6 s c =
     (case c of
        None \<Rightarrow> Some None
      | Some p \<Rightarrow> if c_debug_read_seq6 (conns6 s p) < debug_read_seq6 s then Some (Some p)
                  else next_unread6 s (all_next6 s p))"

declare next_unread6.simps [code]

definition msg_connection6 :: "sfe_env \<Rightarrow> sfe_ipv6 \<Rightarrow> conn_ptr \<Rightarrow> u64 \<Rightarrow> string" where
  "msg_connection6 E s c now =
     (let d = conns6 s c; m = cms6 s (original_match6 d); r = cms6 s (reply_match6 d)
      in tab @ tab @ ''<connection '' @
         attr ''protocol'' (dec (unat (c_protocol6 d))) @
         attr ''src_dev'' (nd_name (netdev E (original_dev6 d))) @
         attr ''src_ip'' (ip6_text E (c_src_ip6 d)) @ attr ''src_ip_xlate'' (ip6_text E (c_src_ip_xlate6 d)) @
         attr ''src_port'' (dec (unat (ntohs E (c_src_port6 d)))) @
         attr ''src_port_xlate'' (dec (unat (ntohs E (c_src_port_xlate6 d)))) @
         attr ''src_priority'' (dec (unat (cm_priority6 m))) @
         attr ''src_dscp'' (dec (unat (drop_bit 2 (cm_dscp6 m)))) @
         attr ''src_rx_pkts'' (dec (unat (rx_packet_count64_6 m))) @
         attr ''src_rx_bytes'' (dec (unat (rx_byte_count64_6 m))) @
         attr ''dest_dev'' (nd_name (netdev E (reply_dev6 d))) @
         attr ''dest_ip'' (ip6_text E (c_dest_ip6 d)) @ attr ''dest_ip_xlate'' (ip6_text E (c_dest_ip_xlate6 d)) @
         attr ''dest_port'' (dec (unat (ntohs E (c_dest_port6 d)))) @
         attr ''dest_port_xlate'' (dec (unat (ntohs E (c_dest_port_xlate6 d)))) @
         attr ''dest_priority'' (dec (unat (cm_priority6 r))) @
         attr ''dest_dscp'' (dec (unat (drop_bit 2 (cm_dscp6 r)))) @
         attr ''dest_rx_pkts'' (dec (unat (rx_packet_count64_6 r))) @
         attr ''dest_rx_bytes'' (dec (unat (rx_byte_count64_6 r))) @
         attr ''last_sync'' (dec (unat (now - last_sync_jiffies6 d))) @
         attr ''mark'' (hex8 (c_mark6 d)) @ ''/>'' @ newline)"

definition sfe_ipv6_debug_dev_read_connections_connection ::
  "sfe_env \<Rightarrow> bool \<Rightarrow> u64 \<Rightarrow> dump_state6 \<Rightarrow> dump_state6 option" where
  "sfe_ipv6_debug_dev_read_connections_connection E ok now x =
     (case x of (d, ws, s) \<Rightarrow> do {
        found \<leftarrow> next_unread6 s (all_connections_head6 s);
        (case found of
           None \<Rightarrow> Some (d, advance ws, s)
         | Some c \<Rightarrow>
             (let s1 = upd_conn6 c (\<lambda>q. q\<lparr>c_debug_read_seq6 := debug_read_seq6 s\<rparr>) s;
                  s2 = sfe_ipv6_connection_match_update_summary_stats (original_match6 (conns6 s1 c)) s1;
                  s3 = sfe_ipv6_connection_match_update_summary_stats (reply_match6 (conns6 s2 c)) s2
              in case emit ok (msg_connection6 E s3 c now) d of
                   None \<Rightarrow> Some (d, ws, s3)
                 | Some d \<Rightarrow> Some (d, ws, s3)))
      })"

section \<open>Exceptions and statistics\<close>

definition msg_exception6 :: "sfe_ipv6_exception_events \<Rightarrow> u64 \<Rightarrow> string" where
  "msg_exception6 e ct =
     tab @ tab @ ''<exception '' @ attr ''name'' (event_string6 e) @ attr ''count'' (dec (unat ct)) @ ''/>'' @ newline"

definition next_exception6 :: "sfe_ipv4_debug_xml_write_state \<Rightarrow> sfe_ipv4_debug_xml_write_state" where
  "next_exception6 ws =
     (let ws1 = ws\<lparr>iter_exception := iter_exception ws + 1\<rparr>
      in if SFE_IPV6_EXCEPTION_EVENT_LAST \<le> iter_exception ws1
         then advance (ws1\<lparr>iter_exception := 0\<rparr>) else ws1)"

definition sfe_ipv6_debug_dev_read_exceptions_exception :: "bool \<Rightarrow> dump_state6 \<Rightarrow> dump_state6" where
  "sfe_ipv6_debug_dev_read_exceptions_exception ok x =
     (case x of (d, ws, s) \<Rightarrow>
        (let e = all_events6 ! iter_exception ws; ct = exception_events64_6 s e
         in if ct \<noteq> 0 then
              (case emit ok (msg_exception6 e ct) d of
                 None \<Rightarrow> (d, ws, s)
               | Some d \<Rightarrow> (d, next_exception6 ws, s))
            else (d, next_exception6 ws, s)))"

definition msg_stats6 :: "sfe_ipv6 \<Rightarrow> string" where
  "msg_stats6 s = tab @ ''<stats '' @
     attr ''num_connections'' (dec (unat (num_connections6 s))) @
     attr ''pkts_forwarded'' (dec (unat (packets_forwarded64_6 s))) @
     attr ''pkts_not_forwarded'' (dec (unat (packets_not_forwarded64_6 s))) @
     attr ''create_requests'' (dec (unat (connection_create_requests64_6 s))) @
     attr ''create_collisions'' (dec (unat (connection_create_collisions64_6 s))) @
     attr ''destroy_requests'' (dec (unat (connection_destroy_requests64_6 s))) @
     attr ''destroy_misses'' (dec (unat (connection_destroy_misses64_6 s))) @
     attr ''flushes'' (dec (unat (connection_flushes64_6 s))) @
     attr ''hash_hits'' (dec (unat (connection_match_hash_hits64_6 s))) @
     attr ''hash_reorders'' (dec (unat (connection_match_hash_reorders64_6 s))) @ ''/>'' @ newline"

definition sfe_ipv6_debug_dev_read_stats :: "bool \<Rightarrow> dump_state6 \<Rightarrow> dump_state6" where
  "sfe_ipv6_debug_dev_read_stats ok x =
     (case x of (d, ws, s) \<Rightarrow>
        (let s1 = sfe_ipv6_update_summary_stats s in write_fixed (msg_stats6 s1) ok (d, ws, s1)))"

section \<open>The read loop\<close>

text \<open>\<open>sfe_ipv6_debug_xml_write_methods[ws->state]\<close>.\<close>

definition xml_write_method6 :: "sfe_env \<Rightarrow> bool \<Rightarrow> u64 \<Rightarrow> dump_state6 \<Rightarrow> dump_state6 option" where
  "xml_write_method6 E ok now x =
     (case ws_state (fst (snd x)) of
        XML_STATE_START \<Rightarrow> Some (sfe_ipv6_debug_dev_read_start ok x)
      | XML_STATE_CONNECTIONS_START \<Rightarrow> Some (sfe_ipv6_debug_dev_read_connections_start ok x)
      | XML_STATE_CONNECTIONS_CONNECTION \<Rightarrow> sfe_ipv6_debug_dev_read_connections_connection E ok now x
      | XML_STATE_CONNECTIONS_END \<Rightarrow> Some (sfe_ipv6_debug_dev_read_connections_end ok x)
      | XML_STATE_EXCEPTIONS_START \<Rightarrow> Some (sfe_ipv6_debug_dev_read_exceptions_start ok x)
      | XML_STATE_EXCEPTIONS_EXCEPTION \<Rightarrow> Some (sfe_ipv6_debug_dev_read_exceptions_exception ok x)
      | XML_STATE_EXCEPTIONS_END \<Rightarrow> Some (sfe_ipv6_debug_dev_read_exceptions_end ok x)
      | XML_STATE_STATS \<Rightarrow> Some (sfe_ipv6_debug_dev_read_stats ok x)
      | XML_STATE_END \<Rightarrow> Some (sfe_ipv6_debug_dev_read_end ok x)
      | XML_STATE_DONE \<Rightarrow> None)"

partial_function (option) debug_dev_read_loop6 ::
  "sfe_env \<Rightarrow> (nat \<Rightarrow> bool) \<Rightarrow> (nat \<Rightarrow> u64) \<Rightarrow> nat \<Rightarrow> dump_state6 \<Rightarrow> dump_state6 option" where
  "debug_dev_read_loop6 E oks now n x =
     (if wants_more x then do {
        y \<leftarrow> xml_write_method6 E (oks n) (now n) x;
        debug_dev_read_loop6 E oks now (Suc n) y
      }
      else Some x)"

declare debug_dev_read_loop6.simps [code]

definition sfe_ipv6_debug_dev_read ::
  "sfe_env \<Rightarrow> (nat \<Rightarrow> bool) \<Rightarrow> (nat \<Rightarrow> u64) \<Rightarrow> u64 \<Rightarrow> sfe_ipv4_debug_xml_write_state \<Rightarrow> sfe_ipv6 \<Rightarrow>
   dump_state6 option" where
  "sfe_ipv6_debug_dev_read E oks now len ws s =
     debug_dev_read_loop6 E oks now 0
       (\<lparr>rd_length = len, total_read = 0, user_buf = [], copied_at = []\<rparr>, ws, s)"

section \<open>The other file operations\<close>

definition sfe_ipv6_debug_dev_write :: "u64 \<Rightarrow> sfe_ipv6 \<Rightarrow> u64 \<times> sfe_ipv6" where
  "sfe_ipv6_debug_dev_write len s =
     (let s1 = sfe_ipv6_update_summary_stats s
      in (len, s1\<lparr>packets_forwarded64_6 := 0, packets_not_forwarded64_6 := 0,
            connection_create_requests64_6 := 0, connection_create_collisions64_6 := 0,
            connection_destroy_requests64_6 := 0, connection_destroy_misses64_6 := 0,
            connection_flushes64_6 := 0, connection_match_hash_hits64_6 := 0,
            connection_match_hash_reorders64_6 := 0\<rparr>))"

text \<open>
  \<open>private_data\<close> of the open file; the flag says whether the allocation succeeds. None as a result is
  \<open>-ENOMEM\<close>.
\<close>

definition sfe_ipv6_debug_dev_open ::
  "bool \<Rightarrow> sfe_ipv4_debug_xml_write_state option \<Rightarrow> sfe_ipv4_debug_xml_write_state option option" where
  "sfe_ipv6_debug_dev_open mem_ok ws =
     (case ws of
        Some w \<Rightarrow> Some (Some w)
      | None \<Rightarrow> if mem_ok then Some (Some \<lparr>ws_state = XML_STATE_START, iter_exception = 0\<rparr>) else None)"

definition sfe_ipv6_get_debug_dev :: "nat \<Rightarrow> string" where
  "sfe_ipv6_get_debug_dev num = dec num @ newline"

end
