(* ===== verification/Sfe6_Sync_Inv.thy ===== *)
theory Sfe6_Sync_Inv
  imports Sfe6_Sync
begin

text \<open>
  What synchronisation and release preserve: the tables, the active list, the totals of the
  counters and the balance of device references.
\<close>

section \<open>Operations that do not touch the tables\<close>

text \<open>
  \<open>cm_static6\<close> and \<open>conn_static6\<close> blank the fields of an object that packets, synchronisation and rule
  updates may change; the rest is fixed from creation to release.
\<close>

definition cm_static6 :: "sfe_ipv6_connection_match \<Rightarrow> sfe_ipv6_connection_match" where
  "cm_static6 m = m\<lparr>cm_flags6 := cm_flags6 m AND NOT FLAG_NO_SEQ_CHECK,
     cm_tcp6 := (cm_tcp6 m)\<lparr>max_win := 0, tcp_end := 0, max_end := 0\<rparr>,
     rx_packet_count6 := 0, rx_byte_count6 := 0, rx_packet_count64_6 := 0, rx_byte_count64_6 := 0\<rparr>"

definition conn_static6 :: "sfe_ipv6_connection \<Rightarrow> sfe_ipv6_connection" where
  "conn_static6 c = c\<lparr>last_sync_jiffies6 := 0, c_mark6 := 0, c_debug_read_seq6 := 0\<rparr>"

lemma cm_staticD6:
  assumes "cm_static6 m' = cm_static6 m"
  shows "cm_connection6 m' = cm_connection6 m" "cm_counter_match6 m' = cm_counter_match6 m"
    "match_dev6 m' = match_dev6 m" "match_protocol6 m' = match_protocol6 m"
    "match_src_ip6 m' = match_src_ip6 m" "match_dest_ip6 m' = match_dest_ip6 m"
    "match_src_port6 m' = match_src_port6 m" "match_dest_port6 m' = match_dest_port6 m"
    "cm_flags6 m' AND NOT FLAG_NO_SEQ_CHECK = cm_flags6 m AND NOT FLAG_NO_SEQ_CHECK"
    "flow_accel6 m' = flow_accel6 m" "win_scale (cm_tcp6 m') = win_scale (cm_tcp6 m)"
    "xlate_src_ip6 m' = xlate_src_ip6 m" "xlate_src_port6 m' = xlate_src_port6 m"
    "xlate_dest_ip6 m' = xlate_dest_ip6 m" "xlate_dest_port6 m' = xlate_dest_port6 m"
    "xlate_src_csum_adjustment6 m' = xlate_src_csum_adjustment6 m"
    "xlate_dest_csum_adjustment6 m' = xlate_dest_csum_adjustment6 m"
    "xmit_dev6 m' = xmit_dev6 m" "xmit_dev_mtu6 m' = xmit_dev_mtu6 m"
proof -
  have *: "f (cm_static6 m') = f (cm_static6 m)" for f :: "sfe_ipv6_connection_match \<Rightarrow> 'a"
    using assms by simp
  show "cm_connection6 m' = cm_connection6 m" "cm_counter_match6 m' = cm_counter_match6 m"
    "match_dev6 m' = match_dev6 m" "match_protocol6 m' = match_protocol6 m"
    "match_src_ip6 m' = match_src_ip6 m" "match_dest_ip6 m' = match_dest_ip6 m"
    "match_src_port6 m' = match_src_port6 m" "match_dest_port6 m' = match_dest_port6 m"
    "cm_flags6 m' AND NOT FLAG_NO_SEQ_CHECK = cm_flags6 m AND NOT FLAG_NO_SEQ_CHECK"
    "flow_accel6 m' = flow_accel6 m" "win_scale (cm_tcp6 m') = win_scale (cm_tcp6 m)"
    "xlate_src_ip6 m' = xlate_src_ip6 m" "xlate_src_port6 m' = xlate_src_port6 m"
    "xlate_dest_ip6 m' = xlate_dest_ip6 m" "xlate_dest_port6 m' = xlate_dest_port6 m"
    "xlate_src_csum_adjustment6 m' = xlate_src_csum_adjustment6 m"
    "xlate_dest_csum_adjustment6 m' = xlate_dest_csum_adjustment6 m"
    "xmit_dev6 m' = xmit_dev6 m" "xmit_dev_mtu6 m' = xmit_dev_mtu6 m"
    using * [of cm_connection6] * [of cm_counter_match6] * [of match_dev6] * [of match_protocol6]
      * [of match_src_ip6] * [of match_dest_ip6] * [of match_src_port6] * [of match_dest_port6]
      * [of cm_flags6] * [of flow_accel6] * [of "win_scale \<circ> cm_tcp6"] * [of xlate_src_ip6] * [of xlate_src_port6]
      * [of xlate_dest_ip6] * [of xlate_dest_port6] * [of xlate_src_csum_adjustment6]
      * [of xlate_dest_csum_adjustment6] * [of xmit_dev6] * [of xmit_dev_mtu6]
    by (simp_all add: cm_static6_def)
qed

lemma conn_staticD6:
  assumes "conn_static6 c' = conn_static6 c"
  shows "c_protocol6 c' = c_protocol6 c" "c_src_ip6 c' = c_src_ip6 c" "c_src_port6 c' = c_src_port6 c"
    "c_dest_ip6 c' = c_dest_ip6 c" "c_dest_port6 c' = c_dest_port6 c"
    "c_src_ip_xlate6 c' = c_src_ip_xlate6 c" "c_src_port_xlate6 c' = c_src_port_xlate6 c"
    "c_dest_ip_xlate6 c' = c_dest_ip_xlate6 c" "c_dest_port_xlate6 c' = c_dest_port_xlate6 c"
    "original_match6 c' = original_match6 c" "reply_match6 c' = reply_match6 c"
    "original_dev6 c' = original_dev6 c" "reply_dev6 c' = reply_dev6 c"
proof -
  have *: "f (conn_static6 c') = f (conn_static6 c)" for f :: "sfe_ipv6_connection \<Rightarrow> 'a"
    using assms by simp
  show "c_protocol6 c' = c_protocol6 c" "c_src_ip6 c' = c_src_ip6 c" "c_src_port6 c' = c_src_port6 c"
    "c_dest_ip6 c' = c_dest_ip6 c" "c_dest_port6 c' = c_dest_port6 c"
    "c_src_ip_xlate6 c' = c_src_ip_xlate6 c" "c_src_port_xlate6 c' = c_src_port_xlate6 c"
    "c_dest_ip_xlate6 c' = c_dest_ip_xlate6 c" "c_dest_port_xlate6 c' = c_dest_port_xlate6 c"
    "original_match6 c' = original_match6 c" "reply_match6 c' = reply_match6 c"
    "original_dev6 c' = original_dev6 c" "reply_dev6 c' = reply_dev6 c"
    using * [of c_src_ip_xlate6] * [of c_src_port_xlate6] * [of c_dest_ip_xlate6] * [of c_dest_port_xlate6]
      * [of c_protocol6] * [of c_src_ip6] * [of c_src_port6] * [of c_dest_ip6] * [of c_dest_port6]
      * [of original_match6] * [of reply_match6] * [of original_dev6] * [of reply_dev6]
    by (simp_all add: conn_static6_def)
qed

definition same_table6 :: "sfe_ipv6 \<Rightarrow> sfe_ipv6 \<Rightarrow> bool" where
  "same_table6 s s' \<longleftrightarrow>
     match_next6 s' = match_next6 s \<and> match_prev6 s' = match_prev6 s \<and>
     conn_match_hash6 s' = conn_match_hash6 s \<and>
     active_next6 s' = active_next6 s \<and> active_prev6 s' = active_prev6 s \<and>
     active_head6 s' = active_head6 s \<and> active_tail6 s' = active_tail6 s \<and>
     match_active6 s' = match_active6 s \<and>
     conn_next6 s' = conn_next6 s \<and> conn_prev6 s' = conn_prev6 s \<and> conn_hash6 s' = conn_hash6 s \<and>
     all_next6 s' = all_next6 s \<and> all_prev6 s' = all_prev6 s \<and>
     all_connections_head6 s' = all_connections_head6 s \<and>
     all_connections_tail6 s' = all_connections_tail6 s \<and>
     num_connections6 s' = num_connections6 s \<and>
     cm_live6 s' = cm_live6 s \<and> conn_live6 s' = conn_live6 s \<and>
     cm_static6 \<circ> cms6 s' = cm_static6 \<circ> cms6 s \<and> conn_static6 \<circ> conns6 s' = conn_static6 \<circ> conns6 s"

lemma same_table_refl6 [simp]: "same_table6 s s"
  by (simp add: same_table6_def)

lemma same_table_trans6 [trans]: "same_table6 s t \<Longrightarrow> same_table6 t u \<Longrightarrow> same_table6 s u"
  by (simp add: same_table6_def)

lemma same_table_static6:
  assumes "same_table6 s s'"
  shows "cm_static6 (cms6 s' p) = cm_static6 (cms6 s p)"
    and "conn_static6 (conns6 s' c) = conn_static6 (conns6 s c)"
proof -
  have m: "cm_static6 \<circ> cms6 s' = cm_static6 \<circ> cms6 s" and d: "conn_static6 \<circ> conns6 s' = conn_static6 \<circ> conns6 s"
    using assms by (simp_all add: same_table6_def)
  show "cm_static6 (cms6 s' p) = cm_static6 (cms6 s p)" using fun_cong [OF m, of p] by simp
  show "conn_static6 (conns6 s' c) = conn_static6 (conns6 s c)" using fun_cong [OF d, of c] by simp
qed

lemma same_table_fields6:
  assumes "same_table6 s s'"
  shows "cm_connection6 (cms6 s' p) = cm_connection6 (cms6 s p)"
    and "cm_counter_match6 (cms6 s' p) = cm_counter_match6 (cms6 s p)"
    and "match_key6 s' p = match_key6 s p"
    and "original_match6 (conns6 s' c) = original_match6 (conns6 s c)"
    and "reply_match6 (conns6 s' c) = reply_match6 (conns6 s c)"
    and "original_dev6 (conns6 s' c) = original_dev6 (conns6 s c)"
    and "reply_dev6 (conns6 s' c) = reply_dev6 (conns6 s c)"
    and "conn_key6 s' c = conn_key6 s c"
  using cm_staticD6 [OF same_table_static6(1) [OF assms, of p]]
    conn_staticD6 [OF same_table_static6(2) [OF assms, of c]]
  by (simp_all add: match_key6_def conn_key6_def Let_def)

lemma cm_hash_key6: "cm_hash6 E (cms6 s p) = (case match_key6 s p of (d, pr, si, sp, di, dp) \<Rightarrow>
    sfe_ipv6_get_connection_match_hash E d pr si sp di dp)"
  by (simp add: cm_hash6_def match_key6_def Let_def)

lemma c_hash_key6: "c_hash6 E (conns6 s c) = (case conn_key6 s c of (pr, si, sp, di, dp) \<Rightarrow>
    sfe_ipv6_get_connection_hash E (ucast pr) si sp di dp)"
  by (simp add: c_hash6_def conn_key6_def Let_def)

lemma same_table_hash6:
  assumes "same_table6 s s'"
  shows "cm_hash6 E (cms6 s' p) = cm_hash6 E (cms6 s p)"
    and "c_hash6 E (conns6 s' c) = c_hash6 E (conns6 s c)"
  by (simp_all add: cm_hash_key6 c_hash_key6 same_table_fields6 [OF assms])

lemma same_table_matches6:
  assumes "same_table6 s s'"
  shows "conn_matches6 s' c = conn_matches6 s c" and "table_matches6 s' cs = table_matches6 s cs"
    and "pair_ok6 s' c = pair_ok6 s c"
  by (simp_all add: conn_matches6_def table_matches6_def pair_ok6_def same_table_fields6 [OF assms])

lemma same_table_lists6: "same_table6 s s' \<Longrightarrow> lists_rep6 s' A = lists_rep6 s A"
  by (simp add: same_table6_def lists_rep6_def mch6.repr_def cch6.repr_def act6.trepr_def alls6.trepr_def)

theorem same_table_inv6:
  assumes "table_inv6 E s A D" and "same_table6 s s'"
  shows "table_inv6 E s' A D"
proof -
  have "active_next6 s' = active_next6 s" "match_active6 s' = match_active6 s"
    "num_connections6 s' = num_connections6 s" "cm_live6 s' = cm_live6 s" "conn_live6 s' = conn_live6 s"
    using assms(2) by (simp_all add: same_table6_def)
  with assms(1) show ?thesis
    unfolding table_inv6_def same_table_matches6 [OF assms(2)] same_table_hash6 [OF assms(2)]
      same_table_lists6 [OF assms(2)]
    by simp
qed

lemma same_table_upd_cm6:
  "cm_static6 (f (cms6 s p)) = cm_static6 (cms6 s p) \<Longrightarrow> same_table6 s (upd_cm6 p f s)"
  by (auto simp: same_table6_def upd_cm6_def fun_eq_iff)

lemma same_table_upd_conn6:
  "conn_static6 (f (conns6 s c)) = conn_static6 (conns6 s c) \<Longrightarrow> same_table6 s (upd_conn6 c f s)"
  by (auto simp: same_table6_def upd_conn6_def fun_eq_iff)

lemma upd_frame6 [simp]:
  "sync_rule_callback6 (upd_cm6 p f s) = sync_rule_callback6 s" "sync_calls6 (upd_cm6 p f s) = sync_calls6 s"
  "dev_refcnt6 (upd_cm6 p f s) = dev_refcnt6 s" "conns6 (upd_cm6 p f s) = conns6 s"
  "sync_rule_callback6 (upd_conn6 c g s) = sync_rule_callback6 s"
  "sync_calls6 (upd_conn6 c g s) = sync_calls6 s"
  "dev_refcnt6 (upd_conn6 c g s) = dev_refcnt6 s" "cms6 (upd_conn6 c g s) = cms6 s"
  by (simp_all add: upd_cm6_def upd_conn6_def)

lemma same_table_stats6: "same_table6 s (sfe_ipv6_connection_match_update_summary_stats p s)"
  unfolding sfe_ipv6_connection_match_update_summary_stats_def
  by (rule same_table_upd_cm6) (simp add: cm_static6_def)

lemma same_table_summary6: "same_table6 s (sfe_ipv6_update_summary_stats s)"
  by (simp add: same_table6_def sfe_ipv6_update_summary_stats_def)

lemma same_table_gen_sync6:
  assumes "sfe_ipv6_gen_sync_connection c sis reason now s = (msg, s')"
  shows "same_table6 s s'"
proof -
  let ?s1 = "sfe_ipv6_connection_match_update_summary_stats (original_match6 (conns6 s c)) s"
  let ?s2 = "sfe_ipv6_connection_match_update_summary_stats (reply_match6 (conns6 s c)) ?s1"
  have "same_table6 s ?s2" by (rule same_table_trans6 [OF same_table_stats6 same_table_stats6])
  moreover have "same_table6 ?s2 (upd_conn6 c (\<lambda>d. d\<lparr>last_sync_jiffies6 := now\<rparr>) ?s2)"
    by (rule same_table_upd_conn6) (simp add: conn_static6_def)
  moreover have "s' = upd_conn6 c (\<lambda>d. d\<lparr>last_sync_jiffies6 := now\<rparr>) ?s2"
    using assms by (simp add: sfe_ipv6_gen_sync_connection_def Let_def)
  ultimately show ?thesis using same_table_trans6 by blast
qed

lemma gen_sync_frame6:
  assumes "sfe_ipv6_gen_sync_connection c sis reason now s = (msg, s')"
  shows "sync_rule_callback6 s' = sync_rule_callback6 s" and "sync_calls6 s' = sync_calls6 s"
    and "dev_refcnt6 s' = dev_refcnt6 s"
  using assms
  by (auto simp: sfe_ipv6_gen_sync_connection_def Let_def
      sfe_ipv6_connection_match_update_summary_stats_def)

lemma same_table_call6: "same_table6 s (call_sync_rule6 cb msg s)"
  by (simp add: same_table6_def call_sync_rule6_def)

section \<open>Release\<close>

text \<open>The connections whose references to devices are still held.\<close>

definition dev_uses6 :: "sfe_ipv6 \<Rightarrow> conn_ptr list \<Rightarrow> netdev \<Rightarrow> nat" where
  "dev_uses6 s cs d = length (filter (\<lambda>c. original_dev6 (conns6 s c) = d) cs) +
     length (filter (\<lambda>c. reply_dev6 (conns6 s c) = d) cs)"

lemma dev_uses_simps6 [simp]:
  "dev_uses6 s [] d = 0"
  "dev_uses6 s (c # cs) d = (if original_dev6 (conns6 s c) = d then 1 else 0) +
     (if reply_dev6 (conns6 s c) = d then 1 else 0) + dev_uses6 s cs d"
  "dev_uses6 s (as @ bs) d = dev_uses6 s as d + dev_uses6 s bs d"
  by (simp_all add: dev_uses6_def)

lemma dev_uses_same_table6: "same_table6 s s' \<Longrightarrow> dev_uses6 s' cs d = dev_uses6 s cs d"
  by (simp add: dev_uses6_def same_table_fields6)

lemma dev_uses_remove1_6:
  assumes "c \<in> set cs"
  shows "dev_uses6 s cs d = dev_uses6 s (c # remove1 c cs) d"
proof -
  obtain as bs where "cs = as @ c # bs" and "c \<notin> set as"
    using split_list_first [OF assms] by blast
  then show ?thesis by (simp add: remove1_append)
qed

text \<open>\<open>refs_inv6\<close>: the engine holds one reference per use on top of those held by others.\<close>

definition refs_inv6 :: "(netdev \<Rightarrow> int) \<Rightarrow> sfe_ipv6 \<Rightarrow> sfe_abs6 \<Rightarrow> conn_ptr list \<Rightarrow> bool" where
  "refs_inv6 base s A D \<longleftrightarrow> (\<forall>d. dev_refcnt6 s d = base d + int (dev_uses6 s (connl6 A @ D) d))"

lemma same_table_flush_report6: "same_table6 s (flush_report6 c reason sis now s)"
proof -
  let ?s1 = "s\<lparr>connection_flushes6 := connection_flushes6 s + 1\<rparr>"
  obtain msg t where g: "sfe_ipv6_gen_sync_connection c sis reason now ?s1 = (msg, t)"
    by (cases "sfe_ipv6_gen_sync_connection c sis reason now ?s1")
  have "same_table6 s ?s1" by (simp add: same_table6_def)
  moreover have "same_table6 ?s1 (call_sync_rule6 cb msg t)" for cb
    using same_table_gen_sync6 [OF g] same_table_call6 same_table_trans6 by blast
  ultimately show ?thesis
    unfolding flush_report6_def Let_def g by (auto split: option.split intro: same_table_trans6)
qed

lemma flush_report_refs6: "dev_refcnt6 (flush_report6 c reason sis now s) = dev_refcnt6 s"
  by (auto simp: flush_report6_def Let_def call_sync_rule6_def split: option.split prod.split
      dest: gen_sync_frame6(3))

lemma flush_conv6:
  "sfe_ipv6_flush_connection c reason sis now s =
     (let t = flush_report6 c reason sis now s; d = conns6 s c in
      kfree_conn6 c (kfree_cm6 (reply_match6 d) (kfree_cm6 (original_match6 d)
        (dev_put6 (reply_dev6 d) (dev_put6 (original_dev6 d) t)))))"
  by (simp add: sfe_ipv6_flush_connection_def same_table_fields6 [OF same_table_flush_report6]
      Let_def dev_put6_def kfree_cm6_def kfree_conn6_def)

lemma flush_conns6 [simp]:
  "conns6 (sfe_ipv6_flush_connection c reason sis now s) = conns6 (flush_report6 c reason sis now s)"
  by (simp add: flush_conv6 Let_def dev_put6_def kfree_cm6_def kfree_conn6_def)

theorem flush_inv6:
  assumes I: "table_inv6 E s A (c # D)"
  shows "table_inv6 E (sfe_ipv6_flush_connection c reason sis now s) A D"
proof -
  let ?t = "flush_report6 c reason sis now s"
  let ?u = "sfe_ipv6_flush_connection c reason sis now s"
  have J: "table_inv6 E ?t A (c # D)"
    using I same_table_flush_report6 by (rule same_table_inv6)
  have live: "cm_live6 ?u = cm_live6 ?t - conn_matches6 ?t c" "conn_live6 ?u = conn_live6 ?t - {c}"
    by (auto simp: flush_conv6 Let_def dev_put6_def kfree_cm6_def kfree_conn6_def conn_matches6_def
        same_table_fields6 [OF same_table_flush_report6])
  have fields: "cms6 ?u = cms6 ?t" "match_active6 ?u = match_active6 ?t" "active_next6 ?u = active_next6 ?t"
    "num_connections6 ?u = num_connections6 ?t"
    by (simp_all add: flush_conv6 Let_def dev_put6_def kfree_cm6_def kfree_conn6_def)
  have lists: "lists_rep6 ?u A = lists_rep6 ?t A"
    by (simp add: flush_conv6 Let_def dev_put6_def kfree_cm6_def kfree_conn6_def lists_rep6_def
        mch6.repr_def cch6.repr_def act6.trepr_def alls6.trepr_def)
  have tm: "table_matches6 ?u cs = table_matches6 ?t cs" for cs by (rule table_matches_cong6) simp
  have po: "pair_ok6 ?u d = pair_ok6 ?t d" for d by (simp add: pair_ok6_def fields)
  have "conn_matches6 ?t c \<inter> table_matches6 ?t (connl6 A @ D) = {}"
    using J by (intro conn_matches_disjoint6) (auto simp: table_inv6_def)
  then show ?thesis
    using J unfolding table_inv6_def lists tm po live fields flush_conns6 by auto
qed

lemma flush_refs6:
  assumes "refs_inv6 base s A (c # D)"
  shows "refs_inv6 base (sfe_ipv6_flush_connection c reason sis now s) A D"
proof -
  let ?t = "flush_report6 c reason sis now s"
  have u: "dev_uses6 ?t cs d = dev_uses6 s cs d" for cs d
    using same_table_flush_report6 by (rule dev_uses_same_table6)
  have "dev_uses6 (sfe_ipv6_flush_connection c reason sis now s) cs d = dev_uses6 s cs d" for cs d
    using u [of cs d] by (simp add: dev_uses6_def)
  moreover have "dev_refcnt6 (sfe_ipv6_flush_connection c reason sis now s) d =
      dev_refcnt6 s d - (if original_dev6 (conns6 s c) = d then 1 else 0)
        - (if reply_dev6 (conns6 s c) = d then 1 else 0)" for d
    by (simp add: flush_conv6 Let_def dev_put6_def kfree_cm6_def kfree_conn6_def flush_report_refs6)
  ultimately show ?thesis using assms by (simp add: refs_inv6_def)
qed

section \<open>Counters\<close>

definition total_packets6 :: "sfe_ipv6_connection_match \<Rightarrow> u64" where
  "total_packets6 m = rx_packet_count64_6 m + ucast (rx_packet_count6 m)"

definition total_bytes6 :: "sfe_ipv6_connection_match \<Rightarrow> u64" where
  "total_bytes6 m = rx_byte_count64_6 m + ucast (rx_byte_count6 m)"

lemma gen_sync_totals6:
  assumes "sfe_ipv6_gen_sync_connection c sis reason now s = (msg, s')"
  shows "total_packets6 (cms6 s' p) = total_packets6 (cms6 s p)"
    and "total_bytes6 (cms6 s' p) = total_bytes6 (cms6 s p)"
  using assms
  by (auto simp: sfe_ipv6_gen_sync_connection_def Let_def upd_cm6_def total_packets6_def
      total_bytes6_def sfe_ipv6_connection_match_update_summary_stats_def)

lemma gen_sync_message6:
  assumes "sfe_ipv6_gen_sync_connection c sis reason now s = (msg, s')"
  defines "d \<equiv> conns6 s c"
  shows "sis_src_packet_count msg = total_packets6 (cms6 s (original_match6 d))"
    and "sis_src_byte_count msg = total_bytes6 (cms6 s (original_match6 d))"
    and "sis_dest_packet_count msg = total_packets6 (cms6 s (reply_match6 d))"
    and "sis_dest_byte_count msg = total_bytes6 (cms6 s (reply_match6 d))"
    and "sis_src_new_packet_count msg = rx_packet_count6 (cms6 s (original_match6 d))"
    and "sis_dest_new_packet_count msg = rx_packet_count6 (cms6 s (reply_match6 d))"
    and "sis_protocol msg = c_protocol6 d" and "ip6 (sis_src_ip msg) = c_src_ip6 d"
    and "ip6 (sis_dest_ip msg) = c_dest_ip6 d" and "sis_src_port msg = c_src_port6 d"
    and "sis_dest_port msg = c_dest_port6 d" and "sis_reason msg = reason"
  using assms
  by (auto simp: sfe_ipv6_gen_sync_connection_def Let_def upd_cm6_def total_packets6_def
      total_bytes6_def sfe_ipv6_connection_match_update_summary_stats_def)

section \<open>Leaving the active list\<close>

definition deactivate6 :: "cm_ptr \<Rightarrow> sfe_ipv6 \<Rightarrow> sfe_ipv6" where
  "deactivate6 p s =
     set_active_next6 p None (act6.dequeue p (s\<lparr>match_active6 := (match_active6 s)(p := False)\<rparr>))"

lemma deactivate_frame6 [simp]:
  "cms6 (deactivate6 p s) = cms6 s" "conns6 (deactivate6 p s) = conns6 s"
  "match_active6 (deactivate6 p s) = (match_active6 s)(p := False)"
  "match_next6 (deactivate6 p s) = match_next6 s" "match_prev6 (deactivate6 p s) = match_prev6 s"
  "conn_match_hash6 (deactivate6 p s) = conn_match_hash6 s"
  "conn_next6 (deactivate6 p s) = conn_next6 s" "conn_prev6 (deactivate6 p s) = conn_prev6 s"
  "conn_hash6 (deactivate6 p s) = conn_hash6 s"
  "all_next6 (deactivate6 p s) = all_next6 s" "all_prev6 (deactivate6 p s) = all_prev6 s"
  "all_connections_head6 (deactivate6 p s) = all_connections_head6 s"
  "all_connections_tail6 (deactivate6 p s) = all_connections_tail6 s"
  "num_connections6 (deactivate6 p s) = num_connections6 s"
  "cm_live6 (deactivate6 p s) = cm_live6 s" "conn_live6 (deactivate6 p s) = conn_live6 s"
  "sync_calls6 (deactivate6 p s) = sync_calls6 s"
  "dev_refcnt6 (deactivate6 p s) = dev_refcnt6 s"
  "sync_rule_callback6 (deactivate6 p s) = sync_rule_callback6 s"
  by (simp_all add: deactivate6_def act6.dequeue_def setter_defs6 Let_def split: option.split)

definition abs_deactivate6 :: "cm_ptr \<Rightarrow> sfe_abs6 \<Rightarrow> sfe_abs6" where
  "abs_deactivate6 p A = A\<lparr>actives6 := remove1 p (actives6 A)\<rparr>"

lemma deactivate_inv6:
  assumes I: "table_inv6 E s A D" and p: "p \<in> set (actives6 A)"
  shows "table_inv6 E (deactivate6 p s) (abs_deactivate6 p A) D"
proof -
  let ?s1 = "s\<lparr>match_active6 := (match_active6 s)(p := False)\<rparr>"
  let ?t = "deactivate6 p s"
  have L: "lists_rep6 s A" using I by (simp add: table_inv6_def)
  then have T: "act6.trepr ?s1 (actives6 A)" by (simp add: lists_rep6_def act6.trepr_def)
  have dist: "distinct (actives6 A)" using T by (rule act6.trepr_distinct)
  have "act6.trepr ?t (remove1 p (actives6 A))"
    unfolding deactivate6_def using act6.trepr_dequeue [OF T p] dist
    by (subst act6.trepr_upd(1)) auto
  with L have L': "lists_rep6 ?t (abs_deactivate6 p A)"
    by (simp add: lists_rep6_def abs_deactivate6_def mch6.repr_def cch6.repr_def alls6.trepr_def)
  have an: "active_next6 ?t q = None" if "q \<in> table_matches6 s (connl6 A)" "\<not> match_active6 ?t q" for q
  proof (cases "q = p")
    case True
    then show ?thesis by (simp add: deactivate6_def setter_defs6)
  next
    case False
    with that I have "q \<notin> set (actives6 A)" "active_next6 s q = None"
      by (auto simp: table_inv6_def)
    with act6.nxt_dequeue [OF T p, of q] False show ?thesis
      by (simp add: deactivate6_def setter_defs6)
  qed
  have tm: "table_matches6 ?t cs = table_matches6 s cs" for cs by (rule table_matches_cong6) simp
  have po: "pair_ok6 ?t d = pair_ok6 s d" for d by (simp add: pair_ok6_def)
  have "set (remove1 p (actives6 A)) = {q \<in> table_matches6 s (connl6 A). match_active6 ?t q}"
    using I dist by (auto simp: table_inv6_def)
  with L' an I show ?thesis
    unfolding table_inv6_def tm po by (simp add: abs_deactivate6_def)
qed

lemma clear_active_prev_inv6:
  assumes I: "table_inv6 E s A D" and p: "p \<notin> set (actives6 A)"
  shows "table_inv6 E (set_active_prev6 p None s) A D"
proof -
  let ?t = "set_active_prev6 p None s"
  have "lists_rep6 s A" using I by (simp add: table_inv6_def)
  then have "lists_rep6 ?t A"
    using act6.trepr_upd(2) [OF p, of None s]
    by (simp add: lists_rep6_def mch6.repr_def cch6.repr_def alls6.trepr_def setter_defs6)
  moreover have "table_matches6 ?t cs = table_matches6 s cs" for cs
    by (rule table_matches_cong6) (simp add: setter_defs6)
  moreover have "pair_ok6 ?t d = pair_ok6 s d" for d by (simp add: pair_ok6_def setter_defs6)
  ultimately show ?thesis using I by (simp add: table_inv6_def setter_defs6)
qed

section \<open>One turn of the periodic walk\<close>

text \<open>An active match and its counterpart belong to the same tabled connection.\<close>

lemma active_pair6:
  assumes I: "table_inv6 E s A D" and p: "p \<in> set (actives6 A)"
  defines "k \<equiv> cm_counter_match6 (cms6 s p)"
  shows "k \<noteq> p" and "match_active6 s k \<longleftrightarrow> k \<in> set (actives6 A)"
    and "cm_connection6 (cms6 s p) \<in> set (connl6 A)"
    and "conn_matches6 s (cm_connection6 (cms6 s p)) = {p, k}"
proof -
  obtain c where c: "c \<in> set (connl6 A)" and pc: "p \<in> conn_matches6 s c"
    using I p by (auto simp: table_inv6_def table_matches6_def)
  have "pair_ok6 s c" using I c by (rule table_inv_conn6)
  then have k: "k \<noteq> p" "conn_matches6 s c = {p, k}" and own: "cm_connection6 (cms6 s p) = c"
    using pc by (auto simp: pair_ok6_def Let_def conn_matches6_def k_def)
  then have kc: "k \<in> conn_matches6 s c" by simp
  show "k \<noteq> p" using k by simp
  show "match_active6 s k \<longleftrightarrow> k \<in> set (actives6 A)" using I c kc by (rule table_inv_conn6)
  show "cm_connection6 (cms6 s p) \<in> set (connl6 A)" using own c by simp
  show "conn_matches6 s (cm_connection6 (cms6 s p)) = {p, k}" using own k by simp
qed

definition leave_pair6 :: "cm_ptr \<Rightarrow> sfe_ipv6 \<Rightarrow> sfe_ipv6" where
  "leave_pair6 cm s =
     (let k = cm_counter_match6 (cms6 s cm);
          s1 = (if match_active6 s k then set_active_prev6 k None (deactivate6 k s) else s)
      in deactivate6 cm s1)"

lemma leave_pair_frame6 [simp]:
  "cms6 (leave_pair6 p s) = cms6 s" "conns6 (leave_pair6 p s) = conns6 s"
  "sync_calls6 (leave_pair6 p s) = sync_calls6 s" "num_connections6 (leave_pair6 p s) = num_connections6 s"
  "dev_refcnt6 (leave_pair6 p s) = dev_refcnt6 s"
  "sync_rule_callback6 (leave_pair6 p s) = sync_rule_callback6 s"
  by (simp_all add: leave_pair6_def Let_def setter_defs6)

lemma leave_pair_inv6:
  assumes I: "table_inv6 E s A D" and a: "actives6 A = cm # rest"
  shows "table_inv6 E (leave_pair6 cm s) (A\<lparr>actives6 := remove1 (cm_counter_match6 (cms6 s cm)) rest\<rparr>) D"
proof -
  let ?k = "cm_counter_match6 (cms6 s cm)"
  have cm: "cm \<in> set (actives6 A)" by (simp add: a)
  note pr = active_pair6 [OF I cm]
  have dist: "distinct (actives6 A)"
    using I by (auto simp: table_inv6_def lists_rep6_def dest: act6.trepr_distinct)
  show ?thesis
  proof (cases "match_active6 s ?k")
    case True
    then have k: "?k \<in> set (actives6 A)" using pr(2) by simp
    have J: "table_inv6 E (set_active_prev6 ?k None (deactivate6 ?k s)) (abs_deactivate6 ?k A) D"
      by (rule clear_active_prev_inv6 [OF deactivate_inv6 [OF I k]])
        (use dist in \<open>simp add: abs_deactivate6_def\<close>)
    have "cm \<in> set (actives6 (abs_deactivate6 ?k A))"
      using cm pr(1) by (simp add: abs_deactivate6_def in_set_remove1)
    from deactivate_inv6 [OF J this] True a pr(1) show ?thesis
      by (simp add: leave_pair6_def Let_def abs_deactivate6_def)
  next
    case False
    then have "?k \<notin> set rest" using pr(2) a by auto
    with deactivate_inv6 [OF I cm] False a show ?thesis
      by (simp add: leave_pair6_def Let_def abs_deactivate6_def remove1_idem)
  qed
qed

lemma dequeue_head6:
  assumes "active_prev6 s p = None"
  shows "act6.dequeue p s =
    (let s3 = set_active_head6 (active_next6 s p) s
     in case active_next6 s3 p of Some n \<Rightarrow> set_active_prev6 n None s3 | None \<Rightarrow> set_active_tail6 None s3)"
  using assms by (simp add: act6.dequeue_def Let_def setter_defs6 split: option.split)

lemma dequeue_not_head6:
  assumes "active_prev6 s k = Some p"
  shows "act6.dequeue k s =
    (let t2 = set_active_next6 p (active_next6 s k) s
     in case active_next6 t2 k of Some n \<Rightarrow> set_active_prev6 n (active_prev6 t2 k) t2
        | None \<Rightarrow> set_active_tail6 (active_prev6 t2 k) t2)"
  using assms by (simp add: act6.dequeue_def Let_def)

lemma sync_turn_conv6:
  assumes I: "table_inv6 E s A D" and a: "actives6 A = cm # rest"
  shows "sfe_ipv6_periodic_sync_turn cm cb sis now s =
    (let (msg, t) = sfe_ipv6_gen_sync_connection (cm_connection6 (cms6 s cm)) sis
                      SFE_SYNC_REASON_STATS now (leave_pair6 cm s)
     in Some (call_sync_rule6 cb msg t))"
proof -
  let ?k = "cm_counter_match6 (cms6 s cm)"
  let ?s1 = "if match_active6 s ?k then set_active_prev6 ?k None (deactivate6 ?k s) else s"
  have cm: "cm \<in> set (actives6 A)" by (simp add: a)
  note pr = active_pair6 [OF I cm]
  have T: "act6.trepr s (actives6 A)" using I by (simp add: table_inv6_def lists_rep6_def)
  have pk: "\<exists>p. active_prev6 s ?k = Some p" if "match_active6 s ?k"
  proof -
    have "?k \<in> set rest" using that pr a by auto
    then obtain as bs where "rest = as @ ?k # bs" by (auto simp: in_set_conv_decomp)
    then have "dll (active_next6 s) (active_prev6 s) (active_head6 s) ((cm # as) @ ?k # bs)"
      using T a by (simp add: act6.trepr_def)
    from dll_at(2) [OF this] show ?thesis by (simp add: last_from_conv)
  qed
  have s1: "(if match_active6 s ?k then do {
               let t1 = s\<lparr>match_active6 := (match_active6 s)(?k := False)\<rparr>;
               p \<leftarrow> active_prev6 t1 ?k;
               let t2 = set_active_next6 p (active_next6 t1 ?k) t1;
               let t3 = (case active_next6 t2 ?k of
                           Some n \<Rightarrow> set_active_prev6 n (active_prev6 t2 ?k) t2
                         | None \<Rightarrow> set_active_tail6 (active_prev6 t2 ?k) t2);
               let t4 = set_active_next6 ?k None t3;
               Some (set_active_prev6 ?k None t4)
             } else Some s) = Some ?s1"
  proof (cases "match_active6 s ?k")
    case True
    let ?s0 = "s\<lparr>match_active6 := (match_active6 s)(?k := False)\<rparr>"
    from pk [OF True] obtain p where p: "active_prev6 ?s0 ?k = Some p" by auto
    show ?thesis
      unfolding deactivate6_def dequeue_not_head6 [OF p]
      using True p by (simp add: Let_def setter_defs6 split: option.split)
  qed simp
  have "act6.trepr ?s1 (actives6 (if match_active6 s ?k then abs_deactivate6 ?k A else A))"
  proof (cases "match_active6 s ?k")
    case True
    have "table_inv6 E ?s1 (abs_deactivate6 ?k A) D"
      unfolding if_P [OF True] using True pr(2) I T
      by (intro clear_active_prev_inv6 deactivate_inv6)
        (auto simp: abs_deactivate6_def dest: act6.trepr_distinct)
    with True show ?thesis by (simp add: table_inv6_def lists_rep6_def)
  qed (use T in simp)
  then have "active_prev6 ?s1 cm = None"
    using a pr(1) by (auto simp: act6.trepr_def dll_def abs_deactivate6_def split: if_splits)
  then have pv: "active_prev6 (?s1\<lparr>match_active6 := (match_active6 ?s1)(cm := False)\<rparr>) cm = None"
    by simp
  have dq: "deactivate6 cm ?s1 =
     (let s2 = ?s1\<lparr>match_active6 := (match_active6 ?s1)(cm := False)\<rparr>;
          s3 = set_active_head6 (active_next6 s2 cm) s2;
          s4 = (case active_next6 s3 cm of Some n \<Rightarrow> set_active_prev6 n None s3
                | None \<Rightarrow> set_active_tail6 None s3)
      in set_active_next6 cm None s4)"
    unfolding deactivate6_def [of cm] dequeue_head6 [OF pv] Let_def ..
  have lp: "leave_pair6 cm s = deactivate6 cm ?s1" by (simp add: leave_pair6_def Let_def)
  have own: "cm_connection6 (cms6 (leave_pair6 cm s) cm) = cm_connection6 (cms6 s cm)" by simp
  show ?thesis
    unfolding sfe_ipv6_periodic_sync_turn_def
    by (simp only: Let_def s1 [unfolded Let_def] bind.bind_lunit dq [unfolded Let_def, symmetric]
        lp [symmetric] own split_def)
qed

end
