(* ===== verification/Sfe6_Sync_Loop.thy ===== *)
theory Sfe6_Sync_Loop
  imports Sfe6_Sync_Inv Sfe_Sync_Loop
begin

text \<open>
  The periodic walk of the IPv6 engine: it refines the walk \<open>sync_walk\<close> over the abstract list of active
  flows, never follows a NULL pointer, and reports the flows it takes off the list.
\<close>

section \<open>The walk of the engine\<close>

text \<open>What stays the same while flows are reported.\<close>

definition only_synced6 :: "sfe_ipv6 \<Rightarrow> sfe_ipv6 \<Rightarrow> bool" where
  "only_synced6 s t \<longleftrightarrow>
     cm_static6 \<circ> cms6 t = cm_static6 \<circ> cms6 s \<and> conn_static6 \<circ> conns6 t = conn_static6 \<circ> conns6 s \<and>
     total_packets6 \<circ> cms6 t = total_packets6 \<circ> cms6 s \<and> total_bytes6 \<circ> cms6 t = total_bytes6 \<circ> cms6 s \<and>
     num_connections6 t = num_connections6 s \<and> sync_rule_callback6 t = sync_rule_callback6 s \<and>
     dev_refcnt6 t = dev_refcnt6 s"

lemma only_synced_refl6 [simp]: "only_synced6 s s"
  by (simp add: only_synced6_def)

lemma only_synced_trans6: "only_synced6 s t \<Longrightarrow> only_synced6 t u \<Longrightarrow> only_synced6 s u"
  by (simp add: only_synced6_def)

lemma only_synced_fields6:
  assumes "only_synced6 s t"
  shows "cm_connection6 (cms6 t p) = cm_connection6 (cms6 s p)"
    and "cm_counter_match6 (cms6 t p) = cm_counter_match6 (cms6 s p)"
    and "conn_key6 t c = conn_key6 s c"
proof -
  have m: "cm_static6 \<circ> cms6 t = cm_static6 \<circ> cms6 s" and d: "conn_static6 \<circ> conns6 t = conn_static6 \<circ> conns6 s"
    using assms by (simp_all add: only_synced6_def)
  have mp: "cm_static6 (cms6 t p) = cm_static6 (cms6 s p)" using fun_cong [OF m, of p] by simp
  have dc: "conn_static6 (conns6 t c) = conn_static6 (conns6 s c)" using fun_cong [OF d, of c] by simp
  show "cm_connection6 (cms6 t p) = cm_connection6 (cms6 s p)"
    and "cm_counter_match6 (cms6 t p) = cm_counter_match6 (cms6 s p)"
    using cm_staticD6 [OF mp] by simp_all
  show "conn_key6 t c = conn_key6 s c"
    using conn_staticD6 [OF dc] by (simp add: conn_key6_def Let_def)
qed

text \<open>The counterpart, the connection and the connection key of a match.\<close>

definition counter_of6 :: "sfe_ipv6 \<Rightarrow> cm_ptr \<Rightarrow> cm_ptr" where
  "counter_of6 s p = cm_counter_match6 (cms6 s p)"

definition owner_of6 :: "sfe_ipv6 \<Rightarrow> cm_ptr \<Rightarrow> conn_ptr" where
  "owner_of6 s p = cm_connection6 (cms6 s p)"

definition flow_key6 :: "sfe_ipv6 \<Rightarrow> cm_ptr \<Rightarrow> conn_key6" where
  "flow_key6 s p = conn_key6 s (owner_of6 s p)"

lemma only_synced_flow6:
  assumes "only_synced6 s t"
  shows "counter_of6 t = counter_of6 s" and "owner_of6 t = owner_of6 s" and "flow_key6 t = flow_key6 s"
  using only_synced_fields6 [OF assms]
  by (simp_all add: fun_eq_iff counter_of6_def owner_of6_def flow_key6_def)

definition sis_key6 :: "sfe_connection_sync \<Rightarrow> conn_key6" where
  "sis_key6 m = (sis_protocol m, ip6 (sis_src_ip m), sis_src_port m, ip6 (sis_dest_ip m), sis_dest_port m)"

lemma sync_turn6:
  assumes I: "table_inv6 E s A D" and a: "actives6 A = cm # rest"
  obtains t m where "sfe_ipv6_periodic_sync_turn cm cb sis now s = Some t"
    and "table_inv6 E t (A\<lparr>actives6 := remove1 (counter_of6 s cm) rest\<rparr>) D"
    and "only_synced6 s t" and "sync_calls6 t = sync_calls6 s @ [(cb, m)]"
    and "sis_key6 m = flow_key6 s cm"
proof -
  let ?c = "cm_connection6 (cms6 s cm)"
  obtain m t where g: "sfe_ipv6_gen_sync_connection ?c sis SFE_SYNC_REASON_STATS now
      (leave_pair6 cm s) = (m, t)" by fastforce
  let ?t = "call_sync_rule6 cb m t"
  note st = same_table_gen_sync6 [OF g]
  have "same_table6 (leave_pair6 cm s) ?t"
    using st same_table_call6 by (rule same_table_trans6)
  then have inv: "table_inv6 E ?t (A\<lparr>actives6 := remove1 (counter_of6 s cm) rest\<rparr>) D"
    using same_table_inv6 [OF leave_pair_inv6 [OF I a]] by (simp add: counter_of6_def)
  have "only_synced6 s ?t"
    using gen_sync_frame6 [OF g] gen_sync_totals6 [OF g] st
    by (simp add: only_synced6_def call_sync_rule6_def same_table6_def fun_eq_iff)
  moreover have "sync_calls6 ?t = sync_calls6 s @ [(cb, m)]"
    using gen_sync_frame6 [OF g] by (simp add: call_sync_rule6_def)
  moreover have "sis_key6 m = flow_key6 s cm"
    using gen_sync_message6 [OF g] by (simp add: sis_key6_def flow_key6_def owner_of6_def conn_key6_def Let_def)
  moreover have "sfe_ipv6_periodic_sync_turn cm cb sis now s = Some ?t"
    using sync_turn_conv6 [OF I a] g by simp
  ultimately show thesis using inv by (intro that)
qed

theorem sync_loop6:
  assumes "table_inv6 E s A D"
  shows "\<exists>t ms. sfe_ipv6_periodic_sync_loop q cb sis now s = Some t \<and>
     table_inv6 E t (A\<lparr>actives6 := snd (sync_walk (counter_of6 s) q (actives6 A))\<rparr>) D \<and>
     only_synced6 s t \<and> sync_calls6 t = sync_calls6 s @ map (Pair cb) ms \<and>
     map sis_key6 ms =
       map (flow_key6 s) (fst (sync_walk (counter_of6 s) q (actives6 A)))"
  using assms
proof (induction q arbitrary: s A)
  case 0
  then show ?case by simp
next
  case (Suc q)
  have hd: "active_head6 s = hd_opt (actives6 A)"
    using Suc.prems by (auto simp: table_inv6_def lists_rep6_def dest: act6.trepr_hd)
  show ?case
  proof (cases "actives6 A")
    case Nil
    then have A: "A\<lparr>actives6 := []\<rparr> = A" by simp
    show ?thesis
      unfolding Nil sync_walk_Nil fst_conv snd_conv A
      using Suc.prems hd Nil by (intro exI [of _ s] exI [of _ "[]"]) simp
  next
    case (Cons cm rest)
    let ?co = "counter_of6 s"
    let ?B = "A\<lparr>actives6 := remove1 (?co cm) rest\<rparr>"
    obtain t m where t: "sfe_ipv6_periodic_sync_turn cm cb sis now s = Some t"
      and J: "table_inv6 E t ?B D" and o: "only_synced6 s t"
      and c: "sync_calls6 t = sync_calls6 s @ [(cb, m)]"
      and k: "sis_key6 m = flow_key6 s cm"
      using sync_turn6 [OF Suc.prems Cons, of cb sis now] by blast
    note f = only_synced_flow6 [OF o]
    from Suc.IH [OF J] obtain u ms where u: "sfe_ipv6_periodic_sync_loop q cb sis now t = Some u"
      and "table_inv6 E u (?B\<lparr>actives6 := snd (sync_walk ?co q (actives6 ?B))\<rparr>) D"
      and "only_synced6 t u" and "sync_calls6 u = sync_calls6 t @ map (Pair cb) ms"
      and "map sis_key6 ms = map (flow_key6 s) (fst (sync_walk ?co q (actives6 ?B)))"
      unfolding f by blast
    moreover obtain rs ys where "sync_walk ?co q (remove1 (?co cm) rest) = (rs, ys)" by fastforce
    ultimately show ?thesis
      using t c k hd Cons only_synced_trans6 [OF o]
      by (intro exI [of _ u] exI [of _ "m # ms"]) simp
  qed
qed

lemma only_synced_summary6: "only_synced6 s (sfe_ipv6_update_summary_stats s)"
  by (simp add: only_synced6_def sfe_ipv6_update_summary_stats_def)

lemma sync_calls_summary6 [simp]: "sync_calls6 (sfe_ipv6_update_summary_stats s) = sync_calls6 s"
  "cms6 (sfe_ipv6_update_summary_stats s) = cms6 s" "conns6 (sfe_ipv6_update_summary_stats s) = conns6 s"
  "num_connections6 (sfe_ipv6_update_summary_stats s) = num_connections6 s"
  by (simp_all add: sfe_ipv6_update_summary_stats_def)

lemma flow_summary6 [simp]: "counter_of6 (sfe_ipv6_update_summary_stats s) = counter_of6 s"
  "flow_key6 (sfe_ipv6_update_summary_stats s) = flow_key6 s"
  using only_synced_flow6 [OF only_synced_summary6] by simp_all

text \<open>A period of the timer.\<close>

lemma periodic_sync6:
  assumes I: "table_inv6 E s A D" and cb: "sync_rule_callback6 s = Some cb"
  defines "w \<equiv> sync_walk (counter_of6 s) (sync_quota6 s) (actives6 A)"
  obtains t ms where "sfe_ipv6_periodic_sync sis now s = Some t"
    and "table_inv6 E t (A\<lparr>actives6 := snd w\<rparr>) D" and "only_synced6 s t"
    and "sync_calls6 t = sync_calls6 s @ map (Pair cb) ms"
    and "map sis_key6 ms = map (flow_key6 s) (fst w)"
proof -
  let ?s = "sfe_ipv6_update_summary_stats s"
  have J: "table_inv6 E ?s A D" using I same_table_summary6 by (rule same_table_inv6)
  have q: "sync_quota6 ?s = sync_quota6 s" by (simp add: sync_quota6_def)
  show thesis
    using sync_loop6 [OF J, of "sync_quota6 s" cb sis now] that only_synced_trans6 [OF only_synced_summary6]
    by (fastforce simp: sfe_ipv6_periodic_sync_def cb q w_def Let_def)
qed

text \<open>Also without a callback the period ends, and it changes nothing the tables depend on.\<close>

lemma periodic_sync_ends6:
  assumes I: "table_inv6 E s A D"
  obtains t A' where "sfe_ipv6_periodic_sync sis now s = Some t" and "table_inv6 E t A' D"
    and "connl6 A' = connl6 A" and "only_synced6 s t"
proof (cases "sync_rule_callback6 s")
  case None
  then show thesis using that [of s A] I by (simp add: sfe_ipv6_periodic_sync_def)
next
  case (Some cb)
  show thesis
  proof (rule periodic_sync6 [OF I Some, of sis now])
    fix t ms
    let ?A = "A\<lparr>actives6 := snd (sync_walk (counter_of6 s) (sync_quota6 s) (actives6 A))\<rparr>"
    assume "sfe_ipv6_periodic_sync sis now s = Some t" "table_inv6 E t ?A D" "only_synced6 s t"
    then show thesis by (intro that [of t ?A]) simp_all
  qed
qed

end
