(* ===== verification/Sfe6_Csum.thy ===== *)
theory Sfe6_Csum
  imports Sfe6_Table Sfe_Csum
begin

text \<open>
  The checksum adjustments of the IPv6 engine (sfe_ipv6.c,
  \<open>sfe_ipv6_connection_match_compute_translations\<close>): nine words of memory, the address, the two ports
  in one word and the complement of the translated address, are added with the carry of each
  addition added to the next. The result is the same, modulo 65535, as the sum of all halves.
\<close>

section \<open>Sums with carry\<close>

text \<open>\<open>adj += carry; adj += w; carry = (w > adj)\<close>.\<close>

definition carry_step :: "u32 \<Rightarrow> u32 \<times> u32 \<Rightarrow> u32 \<times> u32" where
  "carry_step w x =
     (let (adj, carry) = x; adj = adj + carry; adj = adj + w
      in (adj, if w > adj then 1 else 0))"

definition sum_words :: "u32 list \<Rightarrow> u16" where
  "sum_words ws = (let (adj, carry) = fold carry_step ws (0, 0) in csum_fold (adj + carry))"

text \<open>
  The state of the sum: adding the carry cannot overflow, so none is lost, and a carry is worth 1
  because \<open>2 ^ 32\<close> is 1 modulo 65535.
\<close>

definition carried :: "u32 \<times> u32 \<Rightarrow> nat \<Rightarrow> bool" where
  "carried x n \<longleftrightarrow> snd x \<in> {0, 1} \<and> unat (fst x) + unat (snd x) < 4294967296 \<and>
     (unat (fst x) + unat (snd x)) mod 65535 = n mod 65535"

lemma unat_add32_wrap:
  fixes a b :: u32
  assumes "4294967296 \<le> unat a + unat b"
  shows "unat (a + b) = unat a + unat b - 4294967296"
  using assms unat_lt_pow32 [of a] unat_lt_pow32 [of b] by (simp add: unat_word_ariths mod_if)

lemma carry_step_carried:
  assumes "carried x n"
  shows "carried (carry_step w x) (n + unat w)"
proof (cases x)
  case (Pair adj carry)
  let ?a = "adj + carry"
  have a: "unat ?a = unat adj + unat carry" and n: "unat ?a mod 65535 = n mod 65535"
    using assms by (auto simp: carried_def Pair unat_add32)
  have lt: "unat ?a < 4294967296" "unat w < 4294967296" by (rule unat_lt_pow32)+
  have goal: "(unat ?a + unat w) mod 65535 = (n + unat w) mod 65535" by (rule mod_sum_eq [OF n refl])
  show ?thesis
  proof (cases "unat ?a + unat w < 4294967296")
    case True
    then have s: "unat (?a + w) = unat ?a + unat w" by (rule unat_add32)
    then have "\<not> ?a + w < w" by (simp add: word_less_nat_alt)
    then have "carry_step w x = (?a + w, 0)" by (simp add: carry_step_def Pair Let_def)
    then show ?thesis using s True goal by (simp only: carried_def fst_conv snd_conv unat_0 add_0_right) simp
  next
    case False
    then have s: "unat (?a + w) = unat ?a + unat w - 4294967296" by (intro unat_add32_wrap) simp
    with False lt have "unat (?a + w) < unat w" by linarith
    then have "?a + w < w" by (simp only: word_less_nat_alt)
    then have c: "carry_step w x = (?a + w, 1)" by (simp add: carry_step_def Pair Let_def)
    have "unat (?a + w) + 1 + 65535 * 65537 = unat ?a + unat w" using s False by linarith
    then have "(unat (?a + w) + 1) mod 65535 = (unat ?a + unat w) mod 65535" by (metis mod_65535_mult)
    moreover have "unat (?a + w) + 1 < 4294967296" using s lt False by linarith
    ultimately show ?thesis using goal by (simp only: c carried_def fst_conv snd_conv unsigned_1) simp
  qed
qed

lemma fold_carried: "carried x n \<Longrightarrow> carried (fold carry_step ws x) (n + sum_list (map unat ws))"
proof (induction ws arbitrary: x n)
  case (Cons w ws)
  from Cons.IH [OF carry_step_carried [OF Cons.prems]] show ?case by (simp add: add.assoc)
qed simp

theorem sum_words_mod: "unat (sum_words ws) mod 65535 = sum_list (map unat ws) mod 65535"
proof (cases "fold carry_step ws (0, 0)")
  case (Pair adj carry)
  have "carried (fold carry_step ws (0, 0)) (0 + sum_list (map unat ws))"
    by (rule fold_carried) (simp add: carried_def)
  then show ?thesis by (simp add: sum_words_def Pair csum_fold_mod carried_def unat_add32)
qed

section \<open>The adjustment of one direction\<close>

text \<open>Two ports as one word of memory.\<close>

definition two_ports :: "sfe_env \<Rightarrow> u16 \<Rightarrow> u16 \<Rightarrow> u32" where
  "two_ports E a b = (if big_endian E then mk32 a b else mk32 b a)"

definition csum_adjustment6 :: "sfe_env \<Rightarrow> sfe_ipv6_addr \<Rightarrow> u16 \<Rightarrow> sfe_ipv6_addr \<Rightarrow> u16 \<Rightarrow> u16" where
  "csum_adjustment6 E match_ip match_port xlate_ip xlate_port =
     sum_words (addr_words match_ip @ [two_ports E match_port (NOT xlate_port)] @ map (\<lambda>w. NOT w) (addr_words xlate_ip))"

definition sfe_ipv6_connection_match_compute_translations ::
  "sfe_env \<Rightarrow> sfe_ipv6_connection_match \<Rightarrow> sfe_ipv6_connection_match" where
  "sfe_ipv6_connection_match_compute_translations E cm =
     (let cm1 = (if has_flag (cm_flags6 cm) FLAG_XLATE_SRC
                 then cm\<lparr>xlate_src_csum_adjustment6 := csum_adjustment6 E (match_src_ip6 cm)
                        (match_src_port6 cm) (xlate_src_ip6 cm) (xlate_src_port6 cm)\<rparr>
                 else cm)
      in if has_flag (cm_flags6 cm1) FLAG_XLATE_DEST
         then cm1\<lparr>xlate_dest_csum_adjustment6 := csum_adjustment6 E (match_dest_ip6 cm1)
                (match_dest_port6 cm1) (xlate_dest_ip6 cm1) (xlate_dest_port6 cm1)\<rparr>
         else cm1)"

definition addr_sum :: "sfe_ipv6_addr \<Rightarrow> nat" where
  "addr_sum a = sum_list (map unat (addr_words a))"

lemma mk32_halves: "hi16 (mk32 hi lo) = hi" "lo16 (mk32 hi lo) = lo"
proof -
  have m: "(0xffff :: u32) = mask 16" by (simp add: mask_eq_exp_minus_1)
  show "hi16 (mk32 hi lo) = hi"
    unfolding hi16_def mk32_def by (rule bit_word_eqI) (auto simp: bit_simps dest: bit_imp_le_length)
  show "lo16 (mk32 hi lo) = lo"
    unfolding lo16_def mk32_def m by (rule bit_word_eqI) (auto simp: bit_simps dest: bit_imp_le_length)
qed

lemma unat_mk32: "unat (mk32 hi lo) = unat hi * 65536 + unat lo"
  using div_mult_mod_eq [of "unat (mk32 hi lo)" 65536] by (simp add: mk32_halves flip: unat_hi16 unat_lo16)

lemma two_ports_mod: "unat (two_ports E a b) mod 65535 = (unat a + unat b) mod 65535"
proof -
  have "x * 65536 + y = (x + y) + 65535 * x" for x y :: nat by simp
  then have "(x * 65536 + y) mod 65535 = (x + y) mod 65535" for x y :: nat by (metis mod_65535_mult)
  then show ?thesis by (simp add: two_ports_def unat_mk32 add.commute)
qed

lemma unat_not_words: "sum_list (map unat (map (\<lambda>w. NOT w) (ws :: u32 list))) + sum_list (map unat ws) = length ws * 4294967295"
proof (induction ws)
  case (Cons w ws)
  then show ?case using unat_lt_pow32 [of w] by (simp add: word_val)
qed simp

theorem csum_adjustment6_mod:
  "(unat (csum_adjustment6 E mi mp xi xp) + addr_sum xi + unat xp) mod 65535 = (addr_sum mi + unat mp) mod 65535"
proof -
  let ?adj = "csum_adjustment6 E mi mp xi xp"
  let ?nx = "sum_list (map unat (map (\<lambda>w. NOT w) (addr_words xi)))"
  have "unat ?adj mod 65535 = (addr_sum mi + (unat (two_ports E mp (NOT xp)) + ?nx)) mod 65535"
    by (simp only: csum_adjustment6_def sum_words_mod addr_sum_def map_append sum_list_append list.map sum_list.Cons sum_list.Nil add_0_right)
  also have "\<dots> = (addr_sum mi + ((unat mp + unat (NOT xp)) + ?nx)) mod 65535"
    by (intro mod_sum_eq two_ports_mod refl)
  finally have "(unat ?adj + (addr_sum xi + unat xp)) mod 65535 =
      (addr_sum mi + ((unat mp + unat (NOT xp)) + ?nx) + (addr_sum xi + unat xp)) mod 65535"
    by (intro mod_sum_eq refl)
  also have "addr_sum mi + ((unat mp + unat (NOT xp)) + ?nx) + (addr_sum xi + unat xp) =
      (addr_sum mi + unat mp) + 65535 * 262149"
  proof -
    have "?nx + addr_sum xi = 4 * 4294967295"
      using unat_not_words [of "addr_words xi"] by (simp only: addr_sum_def) (simp add: addr_words_def)
    moreover have "unat (NOT xp) + unat xp = 65535" using unat_lt_pow16 [of xp] by (simp add: word_val)
    ultimately show ?thesis by linarith
  qed
  finally show ?thesis unfolding mod_65535_mult by (simp only: add.assoc)
qed

theorem translated_csum6_mod:
  "(unat (apply_adjustment c (csum_adjustment6 E mi mp xi xp)) + addr_sum xi + unat xp) mod 65535 =
   (unat c + addr_sum mi + unat mp) mod 65535"
proof -
  have "(unat (apply_adjustment c (csum_adjustment6 E mi mp xi xp)) + (addr_sum xi + unat xp)) mod 65535 =
      (unat c + unat (csum_adjustment6 E mi mp xi xp) + (addr_sum xi + unat xp)) mod 65535"
    by (intro mod_sum_eq apply_adjustment_mod refl)
  also have "\<dots> = (unat c + (unat (csum_adjustment6 E mi mp xi xp) + addr_sum xi + unat xp)) mod 65535"
    by (simp add: ac_simps)
  also have "\<dots> = (unat c + (addr_sum mi + unat mp)) mod 65535"
    by (intro mod_sum_eq csum_adjustment6_mod refl)
  finally show ?thesis by (simp add: ac_simps)
qed

section \<open>Fields the translation leaves alone\<close>

lemma compute_translations_frame6 [frame_simps]:
  fixes E cm
  defines "m \<equiv> sfe_ipv6_connection_match_compute_translations E cm"
  shows "cm_connection6 m = cm_connection6 cm" "cm_counter_match6 m = cm_counter_match6 cm"
    "match_dev6 m = match_dev6 cm" "match_protocol6 m = match_protocol6 cm"
    "match_src_ip6 m = match_src_ip6 cm" "match_dest_ip6 m = match_dest_ip6 cm"
    "match_src_port6 m = match_src_port6 cm" "match_dest_port6 m = match_dest_port6 cm"
    "cm_flags6 m = cm_flags6 cm" "flow_accel6 m = flow_accel6 cm" "cm_tcp6 m = cm_tcp6 cm"
    "rx_packet_count6 m = rx_packet_count6 cm" "rx_byte_count6 m = rx_byte_count6 cm"
    "xlate_src_ip6 m = xlate_src_ip6 cm" "xlate_src_port6 m = xlate_src_port6 cm"
    "xlate_dest_ip6 m = xlate_dest_ip6 cm" "xlate_dest_port6 m = xlate_dest_port6 cm"
    "xmit_dev6 m = xmit_dev6 cm" "xmit_dev_mtu6 m = xmit_dev_mtu6 cm"
  by (simp_all add: m_def sfe_ipv6_connection_match_compute_translations_def Let_def)

lemma compute_translations_adjustments6:
  fixes E cm
  defines "m \<equiv> sfe_ipv6_connection_match_compute_translations E cm"
  shows "has_flag (cm_flags6 cm) FLAG_XLATE_SRC \<Longrightarrow> xlate_src_csum_adjustment6 m =
      csum_adjustment6 E (match_src_ip6 cm) (match_src_port6 cm) (xlate_src_ip6 cm) (xlate_src_port6 cm)"
    and "has_flag (cm_flags6 cm) FLAG_XLATE_DEST \<Longrightarrow> xlate_dest_csum_adjustment6 m =
      csum_adjustment6 E (match_dest_ip6 cm) (match_dest_port6 cm) (xlate_dest_ip6 cm) (xlate_dest_port6 cm)"
  by (simp_all add: m_def sfe_ipv6_connection_match_compute_translations_def Let_def)

end
