(* ===== verification/Sfe6_Rule.thy ===== *)
theory Sfe6_Rule
  imports Sfe6_Sync Sfe6_Csum Sfe_Rule
begin

text \<open>
  Rules (sfe_ipv6.c): creation, update, marking and destruction of a connection, as the connection
  manager calls them, and the destruction of all connections of a device. The results of the three
  allocations are arguments; a fresh object has arbitrary content, which is what the heap of the
  model holds at its address.
\<close>

section \<open>Update of the TCP state\<close>

definition sfe_ipv6_update_tcp_state :: "conn_ptr \<Rightarrow> sfe_connection_create \<Rightarrow> sfe_ipv6 \<Rightarrow> sfe_ipv6" where
  "sfe_ipv6_update_tcp_state c sic s =
     (let orig_cm = original_match6 (conns6 s c);
          repl_cm = reply_match6 (conns6 s c);
          s1 = upd_cm6 orig_cm (\<lambda>m. m\<lparr>cm_tcp6 := raise_window (sic_src_td_max_window sic)
                 (sic_src_td_end sic) (sic_src_td_max_end sic) (cm_tcp6 m)\<rparr>) s;
          s2 = upd_cm6 repl_cm (\<lambda>m. m\<lparr>cm_tcp6 := raise_window (sic_dest_td_max_window sic)
                 (sic_dest_td_end sic) (sic_dest_td_max_end sic) (cm_tcp6 m)\<rparr>) s1;
          s3 = upd_cm6 orig_cm (\<lambda>m. m\<lparr>cm_flags6 := cm_flags6 m AND NOT FLAG_NO_SEQ_CHECK\<rparr>) s2;
          s4 = upd_cm6 repl_cm (\<lambda>m. m\<lparr>cm_flags6 := cm_flags6 m AND NOT FLAG_NO_SEQ_CHECK\<rparr>) s3
      in if has_flag (sic_flags sic) SFE_CREATE_FLAG_NO_SEQ_CHECK then
           (let s5 = upd_cm6 orig_cm (\<lambda>m. m\<lparr>cm_flags6 := cm_flags6 m OR FLAG_NO_SEQ_CHECK\<rparr>) s4
            in upd_cm6 repl_cm (\<lambda>m. m\<lparr>cm_flags6 := cm_flags6 m OR FLAG_NO_SEQ_CHECK\<rparr>) s5)
         else s4)"

definition sfe_ipv6_update_protocol_state :: "conn_ptr \<Rightarrow> sfe_connection_create \<Rightarrow> sfe_ipv6 \<Rightarrow> sfe_ipv6" where
  "sfe_ipv6_update_protocol_state c sic s =
     (if sic_protocol sic = IPPROTO_TCP then sfe_ipv6_update_tcp_state c sic s else s)"

definition sfe_ipv6_update_rule :: "sfe_env \<Rightarrow> sfe_connection_create \<Rightarrow> sfe_ipv6 \<Rightarrow> sfe_ipv6 option" where
  "sfe_ipv6_update_rule E sic s = do {
     c \<leftarrow> sfe_ipv6_find_connection E (sic_protocol sic) (ip6 (sic_src_ip sic)) (sic_src_port sic)
            (ip6 (sic_dest_ip sic)) (sic_dest_port sic) s;
     (case c of
        None \<Rightarrow> Some s
      | Some c \<Rightarrow> Some (sfe_ipv6_update_protocol_state c sic s))
   }"

section \<open>Marking\<close>

definition sfe_ipv6_mark_rule :: "sfe_env \<Rightarrow> sfe_connection_mark \<Rightarrow> sfe_ipv6 \<Rightarrow> sfe_ipv6 option" where
  "sfe_ipv6_mark_rule E mark s = do {
     c \<leftarrow> sfe_ipv6_find_connection E (scm_protocol mark) (ip6 (scm_src_ip mark))
            (scm_src_port mark) (ip6 (scm_dest_ip mark)) (scm_dest_port mark) s;
     (case c of
        None \<Rightarrow> Some s
      | Some c \<Rightarrow> Some (upd_conn6 c (\<lambda>d. d\<lparr>c_mark6 := scm_mark mark\<rparr>) s))
   }"

section \<open>Creation\<close>

definition SFE_IPV6_DSCP_SHIFT :: nat where "SFE_IPV6_DSCP_SHIFT = 2"

definition dest_translated6 :: "sfe_connection_create \<Rightarrow> bool" where
  "dest_translated6 sic \<longleftrightarrow> \<not> sfe_ipv6_addr_equal (ip6 (sic_dest_ip sic)) (ip6 (sic_dest_ip_xlate sic)) \<or>
     sic_dest_port sic \<noteq> sic_dest_port_xlate sic"

definition src_translated6 :: "sfe_connection_create \<Rightarrow> bool" where
  "src_translated6 sic \<longleftrightarrow> \<not> sfe_ipv6_addr_equal (ip6 (sic_src_ip sic)) (ip6 (sic_src_ip_xlate sic)) \<or>
     sic_src_port sic \<noteq> sic_src_port_xlate sic"

text \<open>The match of the original direction, filled into the object \<open>m\<close>.\<close>

definition fill_original_cm6 :: "sfe_env \<Rightarrow> sfe_connection_create \<Rightarrow> conn_ptr \<Rightarrow> cm_ptr \<Rightarrow>
  sfe_ipv6_connection_match \<Rightarrow> sfe_ipv6_connection_match" where
  "fill_original_cm6 E sic c reply_cm m =
     (let dest_dev = sic_dest_dev sic;
          m1 = m\<lparr>match_dev6 := sic_src_dev sic, match_protocol6 := ucast (sic_protocol sic),
            match_src_ip6 := ip6 (sic_src_ip sic), match_src_port6 := sic_src_port sic,
            match_dest_ip6 := ip6 (sic_dest_ip sic), match_dest_port6 := sic_dest_port sic,
            xlate_src_ip6 := ip6 (sic_src_ip_xlate sic), xlate_src_port6 := sic_src_port_xlate sic,
            xlate_dest_ip6 := ip6 (sic_dest_ip_xlate sic), xlate_dest_port6 := sic_dest_port_xlate sic,
            rx_packet_count6 := 0, rx_packet_count64_6 := 0, rx_byte_count6 := 0, rx_byte_count64_6 := 0,
            xmit_dev6 := dest_dev, xmit_dev_mtu6 := ucast (sic_dest_mtu sic),
            xmit_src_mac6 := nd_dev_addr (netdev E dest_dev), xmit_dest_mac6 := sic_dest_mac_xlate sic,
            cm_connection6 := c, cm_counter_match6 := reply_cm\<rparr>;
          m2 = (if has_flag (sic_flags sic) SFE_CREATE_FLAG_REMARK_PRIORITY
                then m1\<lparr>cm_priority6 := sic_src_priority sic\<rparr> else m1);
          m3 = (if has_flag (sic_flags sic) SFE_CREATE_FLAG_REMARK_DSCP
                then m2\<lparr>cm_dscp6 := push_bit SFE_IPV6_DSCP_SHIFT (sic_src_dscp sic)\<rparr> else m2);
          m4 = (if config_xfrm E then m3\<lparr>flow_accel6 := sic_original_accel sic\<rparr> else m3);
          m5 = (if sic_protocol sic = IPPROTO_TCP
                then m4\<lparr>cm_tcp6 := \<lparr>win_scale = sic_src_td_window_scale sic,
                       max_win = (if sic_src_td_max_window sic \<noteq> 0 then sic_src_td_max_window sic else 1),
                       tcp_end = sic_src_td_end sic, max_end = sic_src_td_max_end sic\<rparr>\<rparr>
                else m4)
      in m5\<lparr>cm_flags6 := remark_flags sic OR l2_flags (netdev E dest_dev)
             OR (if dest_translated6 sic then FLAG_XLATE_DEST else 0)
             OR (if src_translated6 sic then FLAG_XLATE_SRC else 0)
             OR seq_check_flag sic\<rparr>)"

text \<open>The match of the reply direction.\<close>

definition fill_reply_cm6 :: "sfe_env \<Rightarrow> sfe_connection_create \<Rightarrow> conn_ptr \<Rightarrow> cm_ptr \<Rightarrow>
  sfe_ipv6_connection_match \<Rightarrow> sfe_ipv6_connection_match" where
  "fill_reply_cm6 E sic c original_cm m =
     (let src_dev = sic_src_dev sic;
          m1 = m\<lparr>match_dev6 := sic_dest_dev sic, match_protocol6 := ucast (sic_protocol sic),
            match_src_ip6 := ip6 (sic_dest_ip_xlate sic), match_src_port6 := sic_dest_port_xlate sic,
            match_dest_ip6 := ip6 (sic_src_ip_xlate sic), match_dest_port6 := sic_src_port_xlate sic,
            xlate_src_ip6 := ip6 (sic_dest_ip sic), xlate_src_port6 := sic_dest_port sic,
            xlate_dest_ip6 := ip6 (sic_src_ip sic), xlate_dest_port6 := sic_src_port sic,
            rx_packet_count6 := 0, rx_packet_count64_6 := 0, rx_byte_count6 := 0, rx_byte_count64_6 := 0,
            xmit_dev6 := src_dev, xmit_dev_mtu6 := ucast (sic_src_mtu sic),
            xmit_src_mac6 := nd_dev_addr (netdev E src_dev), xmit_dest_mac6 := sic_src_mac sic,
            cm_connection6 := c, cm_counter_match6 := original_cm\<rparr>;
          m2 = (if has_flag (sic_flags sic) SFE_CREATE_FLAG_REMARK_PRIORITY
                then m1\<lparr>cm_priority6 := sic_dest_priority sic\<rparr> else m1);
          m3 = (if has_flag (sic_flags sic) SFE_CREATE_FLAG_REMARK_DSCP
                then m2\<lparr>cm_dscp6 := push_bit SFE_IPV6_DSCP_SHIFT (sic_dest_dscp sic)\<rparr> else m2);
          m4 = (if config_xfrm E then m3\<lparr>flow_accel6 := sic_reply_accel sic\<rparr> else m3);
          m5 = (if sic_protocol sic = IPPROTO_TCP
                then m4\<lparr>cm_tcp6 := \<lparr>win_scale = sic_dest_td_window_scale sic,
                       max_win = (if sic_dest_td_max_window sic \<noteq> 0 then sic_dest_td_max_window sic else 1),
                       tcp_end = sic_dest_td_end sic, max_end = sic_dest_td_max_end sic\<rparr>\<rparr>
                else m4)
      in m5\<lparr>cm_flags6 := remark_flags sic OR l2_flags (netdev E src_dev)
             OR (if dest_translated6 sic then FLAG_XLATE_SRC else 0)
             OR (if src_translated6 sic then FLAG_XLATE_DEST else 0)
             OR seq_check_flag sic\<rparr>)"

definition fill_connection6 :: "sfe_connection_create \<Rightarrow> cm_ptr \<Rightarrow> cm_ptr \<Rightarrow> u64 \<Rightarrow>
  sfe_ipv6_connection \<Rightarrow> sfe_ipv6_connection" where
  "fill_connection6 sic original_cm reply_cm jiffies c =
     c\<lparr>c_protocol6 := sic_protocol sic,
       c_src_ip6 := ip6 (sic_src_ip sic), c_src_ip_xlate6 := ip6 (sic_src_ip_xlate sic),
       c_src_port6 := sic_src_port sic, c_src_port_xlate6 := sic_src_port_xlate sic,
       original_dev6 := sic_src_dev sic, original_match6 := original_cm,
       c_dest_ip6 := ip6 (sic_dest_ip sic), c_dest_ip_xlate6 := ip6 (sic_dest_ip_xlate sic),
       c_dest_port6 := sic_dest_port sic, c_dest_port_xlate6 := sic_dest_port_xlate sic,
       reply_dev6 := sic_dest_dev sic, reply_match6 := reply_cm,
       c_mark6 := sic_mark sic, c_debug_read_seq6 := 0, last_sync_jiffies6 := jiffies\<rparr>"

definition idle_match6 :: "cm_ptr \<Rightarrow> sfe_ipv6 \<Rightarrow> sfe_ipv6" where
  "idle_match6 p s =
     (let s1 = set_active_next6 p None s; s2 = set_active_prev6 p None s1
      in s2\<lparr>match_active6 := (match_active6 s2)(p := False)\<rparr>)"

text \<open>The second half of the creation, once the three objects are allocated.\<close>

definition prepare_rule6 :: "sfe_env \<Rightarrow> sfe_connection_create \<Rightarrow> conn_ptr \<Rightarrow> cm_ptr \<Rightarrow> cm_ptr \<Rightarrow> u64 \<Rightarrow>
  sfe_ipv6 \<Rightarrow> sfe_ipv6" where
  "prepare_rule6 E sic c original_cm reply_cm jiffies s =
     (let s1 = idle_match6 original_cm (upd_cm6 original_cm (fill_original_cm6 E sic c reply_cm) s);
          s2 = idle_match6 reply_cm (upd_cm6 reply_cm (fill_reply_cm6 E sic c original_cm) s1);
          s3 = upd_conn6 c (fill_connection6 sic original_cm reply_cm jiffies) s2;
          s4 = dev_hold6 (original_dev6 (conns6 s3 c)) s3;
          s5 = dev_hold6 (reply_dev6 (conns6 s4 c)) s4;
          s6 = upd_cm6 original_cm (sfe_ipv6_connection_match_compute_translations E) s5
      in upd_cm6 reply_cm (sfe_ipv6_connection_match_compute_translations E) s6)"

definition build_rule6 :: "sfe_env \<Rightarrow> sfe_connection_create \<Rightarrow> conn_ptr \<Rightarrow> cm_ptr \<Rightarrow> cm_ptr \<Rightarrow> u64 \<Rightarrow>
  sfe_ipv6 \<Rightarrow> sfe_ipv6" where
  "build_rule6 E sic c original_cm reply_cm jiffies s =
     sfe_ipv6_insert_connection E c (prepare_rule6 E sic c original_cm reply_cm jiffies s)"

definition sfe_ipv6_create_rule ::
  "sfe_env \<Rightarrow> sfe_connection_create \<Rightarrow> allocation \<Rightarrow> u64 \<Rightarrow> sfe_ipv6 \<Rightarrow> (create_result \<times> sfe_ipv6) option" where
  "sfe_ipv6_create_rule E sic al jiffies s =
     (if \<not> nd_registered (netdev E (sic_dest_dev sic)) \<or> \<not> nd_registered (netdev E (sic_src_dev sic))
      then Some (EINVAL, s)
      else do {
        let s1 = s\<lparr>connection_create_requests6 := connection_create_requests6 s + 1\<rparr>;
        found \<leftarrow> sfe_ipv6_find_connection E (sic_protocol sic) (ip6 (sic_src_ip sic))
                   (sic_src_port sic) (ip6 (sic_dest_ip sic)) (sic_dest_port sic) s1;
        (case found of
           Some c \<Rightarrow>
             (let s2 = s1\<lparr>connection_create_collisions6 := connection_create_collisions6 s1 + 1\<rparr>
              in Some (EADDRINUSE, sfe_ipv6_update_protocol_state c sic s2))
         | None \<Rightarrow>
             (case al_conn al of
                None \<Rightarrow> Some (ENOMEM, s1)
              | Some c \<Rightarrow>
                  (let s2 = s1\<lparr>conn_live6 := insert c (conn_live6 s1)\<rparr>
                   in case al_original al of
                        None \<Rightarrow> Some (ENOMEM, kfree_conn6 c s2)
                      | Some original_cm \<Rightarrow>
                          (let s3 = s2\<lparr>cm_live6 := insert original_cm (cm_live6 s2)\<rparr>
                           in case al_reply al of
                                None \<Rightarrow> Some (ENOMEM, kfree_conn6 c (kfree_cm6 original_cm s3))
                              | Some reply_cm \<Rightarrow>
                                  (let s4 = s3\<lparr>cm_live6 := insert reply_cm (cm_live6 s3)\<rparr>
                                   in Some (CREATED, build_rule6 E sic c original_cm reply_cm jiffies s4))))))
      })"

section \<open>Destruction\<close>

definition sfe_ipv6_destroy_rule ::
  "sfe_env \<Rightarrow> sfe_connection_destroy \<Rightarrow> sfe_connection_sync \<Rightarrow> u64 \<Rightarrow> sfe_ipv6 \<Rightarrow> sfe_ipv6 option" where
  "sfe_ipv6_destroy_rule E sid sis now s = do {
     let s1 = s\<lparr>connection_destroy_requests6 := connection_destroy_requests6 s + 1\<rparr>;
     found \<leftarrow> sfe_ipv6_find_connection E (sid_protocol sid) (ip6 (sid_src_ip sid))
                (sid_src_port sid) (ip6 (sid_dest_ip sid)) (sid_dest_port sid) s1;
     (case found of
        None \<Rightarrow> Some (s1\<lparr>connection_destroy_misses6 := connection_destroy_misses6 s1 + 1\<rparr>)
      | Some c \<Rightarrow>
          (let s2 = sfe_ipv6_remove_connection E c s1
           in Some (sfe_ipv6_flush_connection c SFE_SYNC_REASON_DESTROY sis now s2)))
   }"

text \<open>The walk for a connection of the device; no device means every connection.\<close>

definition uses_dev6 :: "netdev option \<Rightarrow> sfe_ipv6_connection \<Rightarrow> bool" where
  "uses_dev6 dev c \<longleftrightarrow> (case dev of None \<Rightarrow> True | Some d \<Rightarrow> d = original_dev6 c \<or> d = reply_dev6 c)"

partial_function (option) find_conn_of_dev6 ::
  "netdev option \<Rightarrow> sfe_ipv6 \<Rightarrow> conn_ptr option \<Rightarrow> conn_ptr option option" where
  "find_conn_of_dev6 dev s c =
     (case c of
        None \<Rightarrow> Some None
      | Some p \<Rightarrow> if uses_dev6 dev (conns6 s p) then Some (Some p)
                  else find_conn_of_dev6 dev s (all_next6 s p))"

declare find_conn_of_dev6.simps [code]

text \<open>The rounds of the loop; the time of each release is drawn from \<open>now\<close>.\<close>

partial_function (option) sfe_ipv6_destroy_all_rules_for_dev ::
  "sfe_env \<Rightarrow> netdev option \<Rightarrow> sfe_connection_sync \<Rightarrow> (nat \<Rightarrow> u64) \<Rightarrow> nat \<Rightarrow> sfe_ipv6 \<Rightarrow> sfe_ipv6 option" where
  "sfe_ipv6_destroy_all_rules_for_dev E dev sis now n s = do {
     c \<leftarrow> find_conn_of_dev6 dev s (all_connections_head6 s);
     (case c of
        None \<Rightarrow> Some s
      | Some c \<Rightarrow>
          sfe_ipv6_destroy_all_rules_for_dev E dev sis now (Suc n)
            (sfe_ipv6_flush_connection c SFE_SYNC_REASON_DESTROY sis (now n)
              (sfe_ipv6_remove_connection E c s)))
   }"

declare sfe_ipv6_destroy_all_rules_for_dev.simps [code]

end
