(* ===== verification/Sfe6_Rule_Inv.thy ===== *)
theory Sfe6_Rule_Inv
  imports Sfe6_Sync_Loop Sfe6_Rule Sfe_Rule_Inv
begin

text \<open>
  The invariant of the whole engine, \<open>engine_inv6\<close>: the tables, the device references, the relation
  of each connection with its two matches (addresses, translations, checksum adjustments) and the
  uniqueness of connection keys. Creation, update, marking and destruction of rules preserve it.
\<close>

section \<open>The flows of one connection\<close>

text \<open>Source and destination of a packet after the translation of a match.\<close>

definition eff_src6 :: "sfe_ipv6_connection_match \<Rightarrow> sfe_ipv6_addr \<times> u16" where
  "eff_src6 m = (if has_flag (cm_flags6 m) FLAG_XLATE_SRC then (xlate_src_ip6 m, xlate_src_port6 m)
                else (match_src_ip6 m, match_src_port6 m))"

definition eff_dest6 :: "sfe_ipv6_connection_match \<Rightarrow> sfe_ipv6_addr \<times> u16" where
  "eff_dest6 m = (if has_flag (cm_flags6 m) FLAG_XLATE_DEST then (xlate_dest_ip6 m, xlate_dest_port6 m)
                 else (match_dest_ip6 m, match_dest_port6 m))"

definition adjusted6 :: "sfe_env \<Rightarrow> sfe_ipv6_connection_match \<Rightarrow> bool" where
  "adjusted6 E m \<longleftrightarrow>
     (has_flag (cm_flags6 m) FLAG_XLATE_SRC \<longrightarrow>
        xlate_src_csum_adjustment6 m =
          csum_adjustment6 E (match_src_ip6 m) (match_src_port6 m) (xlate_src_ip6 m) (xlate_src_port6 m)) \<and>
     (has_flag (cm_flags6 m) FLAG_XLATE_DEST \<longrightarrow>
        xlate_dest_csum_adjustment6 m =
          csum_adjustment6 E (match_dest_ip6 m) (match_dest_port6 m) (xlate_dest_ip6 m) (xlate_dest_port6 m))"

text \<open>What leaves in one direction comes back in the other.\<close>

definition mirror6 :: "sfe_ipv6_connection_match \<Rightarrow> sfe_ipv6_connection_match \<Rightarrow> bool" where
  "mirror6 m r \<longleftrightarrow>
     match_dev6 r = xmit_dev6 m \<and> match_protocol6 r = match_protocol6 m \<and>
     (match_src_ip6 r, match_src_port6 r) = eff_dest6 m \<and>
     (match_dest_ip6 r, match_dest_port6 r) = eff_src6 m"

text \<open>The translation of a connection: source and destination as seen after it.\<close>

definition conn_nat6 :: "sfe_ipv6_connection \<Rightarrow> (sfe_ipv6_addr \<times> u16) \<times> (sfe_ipv6_addr \<times> u16)" where
  "conn_nat6 c = ((c_src_ip_xlate6 c, c_src_port_xlate6 c), (c_dest_ip_xlate6 c, c_dest_port_xlate6 c))"

definition flow_ok6 :: "sfe_env \<Rightarrow> sfe_ipv6 \<Rightarrow> conn_ptr \<Rightarrow> bool" where
  "flow_ok6 E s c \<longleftrightarrow>
     (let d = conns6 s c; m = cms6 s (original_match6 d); r = cms6 s (reply_match6 d)
      in adjusted6 E m \<and> adjusted6 E r \<and> mirror6 m r \<and> mirror6 r m \<and>
         match_dev6 m = original_dev6 d \<and> match_dev6 r = reply_dev6 d \<and>
         match_protocol6 m = ucast (c_protocol6 d) \<and>
         match_src_ip6 m = c_src_ip6 d \<and> match_src_port6 m = c_src_port6 d \<and>
         match_dest_ip6 m = c_dest_ip6 d \<and> match_dest_port6 m = c_dest_port6 d \<and>
         (eff_src6 m, eff_dest6 m) = conn_nat6 d)"

definition engine_inv6 :: "sfe_env \<Rightarrow> (netdev \<Rightarrow> int) \<Rightarrow> sfe_ipv6 \<Rightarrow> sfe_abs6 \<Rightarrow> conn_ptr list \<Rightarrow> bool" where
  "engine_inv6 E base s A D \<longleftrightarrow> table_inv6 E s A D \<and> refs_inv6 base s A D \<and>
     (\<forall>c\<in>set (connl6 A @ D). flow_ok6 E s c) \<and> inj_on (conn_key6 s) (set (connl6 A))"

text \<open>The fixed part of the objects decides all of this.\<close>

lemma static_flags6:
  assumes "cm_static6 m' = cm_static6 m"
  shows "has_flag (cm_flags6 m') FLAG_XLATE_SRC = has_flag (cm_flags6 m) FLAG_XLATE_SRC"
    and "has_flag (cm_flags6 m') FLAG_XLATE_DEST = has_flag (cm_flags6 m) FLAG_XLATE_DEST"
  by (rule flag_of_masked [OF cm_staticD6(9) [OF assms]]; simp add: flag_defs)+

lemma static_flow6:
  assumes "cm_static6 m' = cm_static6 m"
  shows "eff_src6 m' = eff_src6 m" and "eff_dest6 m' = eff_dest6 m" and "adjusted6 E m' = adjusted6 E m"
  by (simp_all add: eff_src6_def eff_dest6_def adjusted6_def static_flags6 [OF assms] cm_staticD6 [OF assms])

lemma static_mirror6:
  assumes "cm_static6 m' = cm_static6 m" and "cm_static6 r' = cm_static6 r"
  shows "mirror6 m' r' = mirror6 m r"
  by (simp add: mirror6_def static_flow6 [OF assms(1)] cm_staticD6 [OF assms(1)] cm_staticD6 [OF assms(2)])

lemma static_flow_ok6:
  assumes cm: "\<And>p. cm_static6 (cms6 s' p) = cm_static6 (cms6 s p)"
    and conn: "\<And>c. conn_static6 (conns6 s' c) = conn_static6 (conns6 s c)"
  shows "flow_ok6 E s' c = flow_ok6 E s c"
proof -
  note D = conn_staticD6 [OF conn, of c]
  note M = cm [of "original_match6 (conns6 s c)"] and R = cm [of "reply_match6 (conns6 s c)"]
  show ?thesis
    by (simp add: flow_ok6_def Let_def conn_nat6_def D static_flow6 [OF M] static_flow6 [OF R] static_mirror6 [OF M R]
        static_mirror6 [OF R M] cm_staticD6 [OF M] cm_staticD6 [OF R])
qed

lemma same_table_flow_ok6:
  assumes "same_table6 s s'"
  shows "flow_ok6 E s' c = flow_ok6 E s c"
  by (rule static_flow_ok6) (rule same_table_static6 [OF assms])+

lemma same_table_conn_key6: "same_table6 s s' \<Longrightarrow> conn_key6 s' = conn_key6 s"
  by (simp add: fun_eq_iff same_table_fields6)

theorem same_table_engine6:
  assumes I: "engine_inv6 E base s A D" and S: "same_table6 s s'" and R: "dev_refcnt6 s' = dev_refcnt6 s"
  shows "engine_inv6 E base s' A D"
  using I same_table_inv6 [OF _ S, of E A D]
  by (simp add: engine_inv6_def refs_inv6_def R dev_uses_same_table6 [OF S] same_table_flow_ok6 [OF S]
      same_table_conn_key6 [OF S])

section \<open>Removal and release\<close>

lemma remove_match_rest6 [simp]:
  "dev_refcnt6 (sfe_ipv6_remove_connection_match E p s) = dev_refcnt6 s"
  "sync_rule_callback6 (sfe_ipv6_remove_connection_match E p s) = sync_rule_callback6 s"
  "sync_calls6 (sfe_ipv6_remove_connection_match E p s) = sync_calls6 s"
  "exception_events6 (sfe_ipv6_remove_connection_match E p s) = exception_events6 s"
  "packets_forwarded6 (sfe_ipv6_remove_connection_match E p s) = packets_forwarded6 s"
  "packets_not_forwarded6 (sfe_ipv6_remove_connection_match E p s) = packets_not_forwarded6 s"
  by (simp_all add: remove_match_conv6 mch6.unlink_def act6.dequeue_def setter_defs6 Let_def split: option.split)

lemma remove_connection_rest6 [simp]:
  "dev_refcnt6 (sfe_ipv6_remove_connection E c s) = dev_refcnt6 s"
  "sync_rule_callback6 (sfe_ipv6_remove_connection E c s) = sync_rule_callback6 s"
  "sync_calls6 (sfe_ipv6_remove_connection E c s) = sync_calls6 s"
  "exception_events6 (sfe_ipv6_remove_connection E c s) = exception_events6 s"
  "packets_forwarded6 (sfe_ipv6_remove_connection E c s) = packets_forwarded6 s"
  "packets_not_forwarded6 (sfe_ipv6_remove_connection E c s) = packets_not_forwarded6 s"
  by (simp_all add: remove_conn_conv6 cch6.unlink_def alls6.dequeue_def setter_defs6 Let_def split: option.split)

lemma abs_remove_connl6 [simp]: "connl6 (abs_remove6 E s c A) = remove1 c (connl6 A)"
  by (simp add: abs_remove6_def Let_def)

lemma flow_ok_cong6:
  "cms6 s' = cms6 s \<Longrightarrow> conns6 s' = conns6 s \<Longrightarrow> flow_ok6 E s' c = flow_ok6 E s c"
  by (simp add: flow_ok6_def)

lemma conn_key_cong6: "conns6 s' = conns6 s \<Longrightarrow> conn_key6 s' = conn_key6 s"
  by (simp add: fun_eq_iff conn_key6_def)

lemma dev_uses_cong6: "conns6 s' = conns6 s \<Longrightarrow> dev_uses6 s' cs d = dev_uses6 s cs d"
  by (simp add: dev_uses6_def)

lemma dev_uses_agree6:
  "(\<And>c. c \<in> set cs \<Longrightarrow> conns6 t c = conns6 s c) \<Longrightarrow> dev_uses6 t cs d = dev_uses6 s cs d"
  by (simp add: dev_uses6_def cong: filter_cong)

theorem remove_engine6:
  assumes I: "engine_inv6 E base s A D" and c: "c \<in> set (connl6 A)"
  shows "engine_inv6 E base (sfe_ipv6_remove_connection E c s) (abs_remove6 E s c A) (c # D)"
proof -
  let ?t = "sfe_ipv6_remove_connection E c s"
  have "table_inv6 E ?t (abs_remove6 E s c A) (c # D)"
    using I c by (intro remove_connection_inv6) (simp add: engine_inv6_def)
  moreover have "refs_inv6 base ?t (abs_remove6 E s c A) (c # D)"
    using I dev_uses_remove1_6 [OF c, of s] dev_uses_cong6 [of ?t s]
    by (simp add: engine_inv6_def refs_inv6_def)
  moreover have "flow_ok6 E ?t d" if "d \<in> set (connl6 (abs_remove6 E s c A) @ c # D)" for d
    using I that c flow_ok_cong6 [of ?t s E d] set_remove1_subset [of c "connl6 A"]
    by (auto simp: engine_inv6_def)
  moreover have "inj_on (conn_key6 ?t) (set (connl6 (abs_remove6 E s c A)))"
    using I conn_key_cong6 [of ?t s]
    by (auto simp: engine_inv6_def intro: inj_on_subset [OF _ set_remove1_subset])
  ultimately show ?thesis by (simp add: engine_inv6_def)
qed

lemma flush_static6:
  "cm_static6 (cms6 (sfe_ipv6_flush_connection c reason sis now s) p) = cm_static6 (cms6 s p)"
  "conn_static6 (conns6 (sfe_ipv6_flush_connection c reason sis now s) d) = conn_static6 (conns6 s d)"
  using same_table_static6 [OF same_table_flush_report6, of c reason sis now s]
  by (simp_all add: flush_conv6 Let_def dev_put6_def kfree_cm6_def kfree_conn6_def)

lemma flush_flow6:
  fixes E c reason sis now s
  defines "u \<equiv> sfe_ipv6_flush_connection c reason sis now s"
  shows "flow_ok6 E u d = flow_ok6 E s d" and "conn_key6 u = conn_key6 s"
proof -
  let ?t = "flush_report6 c reason sis now s"
  have t: "same_table6 s ?t" by (rule same_table_flush_report6)
  have "cms6 u = cms6 ?t" "conns6 u = conns6 ?t"
    by (simp_all add: u_def flush_conv6 Let_def dev_put6_def kfree_cm6_def kfree_conn6_def)
  then show "flow_ok6 E u d = flow_ok6 E s d" and "conn_key6 u = conn_key6 s"
    using flow_ok_cong6 [of u ?t E d] conn_key_cong6 [of u ?t] same_table_flow_ok6 [OF t]
      same_table_conn_key6 [OF t] by simp_all
qed

theorem flush_engine6:
  assumes I: "engine_inv6 E base s A (c # D)"
  shows "engine_inv6 E base (sfe_ipv6_flush_connection c reason sis now s) A D"
  using I flush_inv6 [of E s A c D] flush_refs6 [of base s A c D]
  by (simp add: engine_inv6_def flush_flow6)

section \<open>Creation\<close>

lemma prepare_rule_fields6:
  fixes E sic c m r j s
  defines "t \<equiv> prepare_rule6 E sic c m r j s"
  assumes ne: "m \<noteq> r"
  shows "cms6 t = (cms6 s)
      (m := sfe_ipv6_connection_match_compute_translations E (fill_original_cm6 E sic c r (cms6 s m)),
       r := sfe_ipv6_connection_match_compute_translations E (fill_reply_cm6 E sic c m (cms6 s r)))"
    and "conns6 t = (conns6 s)(c := fill_connection6 sic m r j (conns6 s c))"
    and "match_active6 t = (match_active6 s)(m := False, r := False)"
    and "active_next6 t = (active_next6 s)(m := None, r := None)"
    and "active_prev6 t = (active_prev6 s)(m := None, r := None)"
    and "dev_refcnt6 t d = dev_refcnt6 s d + (if sic_src_dev sic = d then 1 else 0)
           + (if sic_dest_dev sic = d then 1 else 0)"
  using ne
  by (auto simp: t_def prepare_rule6_def Let_def upd_cm6_def upd_conn6_def idle_match6_def setter_defs6
      dev_hold6_def fill_connection6_def fun_upd_twist)

lemma prepare_rule_frame6 [simp]:
  fixes E sic c m r j s
  defines "t \<equiv> prepare_rule6 E sic c m r j s"
  shows "match_next6 t = match_next6 s" "match_prev6 t = match_prev6 s"
    "conn_match_hash6 t = conn_match_hash6 s" "conn_next6 t = conn_next6 s" "conn_prev6 t = conn_prev6 s"
    "conn_hash6 t = conn_hash6 s" "all_next6 t = all_next6 s" "all_prev6 t = all_prev6 s"
    "all_connections_head6 t = all_connections_head6 s" "all_connections_tail6 t = all_connections_tail6 s"
    "active_head6 t = active_head6 s" "active_tail6 t = active_tail6 s"
    "num_connections6 t = num_connections6 s" "cm_live6 t = cm_live6 s" "conn_live6 t = conn_live6 s"
    "sync_calls6 t = sync_calls6 s" "sync_rule_callback6 t = sync_rule_callback6 s"
  by (simp_all add: t_def prepare_rule6_def Let_def upd_cm6_def upd_conn6_def idle_match6_def setter_defs6
      dev_hold6_def)

lemma fill_original_fields6:
  fixes E sic c r g
  defines "M \<equiv> fill_original_cm6 E sic c r g"
  shows "cm_connection6 M = c" "cm_counter_match6 M = r" "match_dev6 M = sic_src_dev sic"
    "match_protocol6 M = ucast (sic_protocol sic)" "match_src_ip6 M = ip6 (sic_src_ip sic)"
    "match_src_port6 M = sic_src_port sic" "match_dest_ip6 M = ip6 (sic_dest_ip sic)"
    "match_dest_port6 M = sic_dest_port sic" "xlate_src_ip6 M = ip6 (sic_src_ip_xlate sic)"
    "xlate_src_port6 M = sic_src_port_xlate sic" "xlate_dest_ip6 M = ip6 (sic_dest_ip_xlate sic)"
    "xlate_dest_port6 M = sic_dest_port_xlate sic" "xmit_dev6 M = sic_dest_dev sic"
    "xmit_dev_mtu6 M = ucast (sic_dest_mtu sic)"
    "rx_packet_count6 M = 0" "rx_byte_count6 M = 0" "rx_packet_count64_6 M = 0" "rx_byte_count64_6 M = 0"
  by (simp_all add: M_def fill_original_cm6_def Let_def)

lemma fill_reply_fields6:
  fixes E sic c r g
  defines "M \<equiv> fill_reply_cm6 E sic c r g"
  shows "cm_connection6 M = c" "cm_counter_match6 M = r" "match_dev6 M = sic_dest_dev sic"
    "match_protocol6 M = ucast (sic_protocol sic)" "match_src_ip6 M = ip6 (sic_dest_ip_xlate sic)"
    "match_src_port6 M = sic_dest_port_xlate sic" "match_dest_ip6 M = ip6 (sic_src_ip_xlate sic)"
    "match_dest_port6 M = sic_src_port_xlate sic" "xlate_src_ip6 M = ip6 (sic_dest_ip sic)"
    "xlate_src_port6 M = sic_dest_port sic" "xlate_dest_ip6 M = ip6 (sic_src_ip sic)"
    "xlate_dest_port6 M = sic_src_port sic" "xmit_dev6 M = sic_src_dev sic"
    "xmit_dev_mtu6 M = ucast (sic_src_mtu sic)"
    "rx_packet_count6 M = 0" "rx_byte_count6 M = 0" "rx_packet_count64_6 M = 0" "rx_byte_count64_6 M = 0"
  by (simp_all add: M_def fill_reply_cm6_def Let_def)

text \<open>Which translations a new match performs.\<close>

lemma has_flag_or6: "has_flag (a OR b) f \<longleftrightarrow> has_flag a f \<or> has_flag b f"
  by (auto simp: has_flag_def bit.conj_disj_distrib2 or_eq_0_iff)

lemma has_flag_if6: "has_flag (if b then x else y) f = (if b then has_flag x f else has_flag y f)"
  by simp

lemma has_flag_l2_6: "\<not> has_flag (l2_flags d) FLAG_XLATE_SRC" "\<not> has_flag (l2_flags d) FLAG_XLATE_DEST"
  "\<not> has_flag (l2_flags d) FLAG_DSCP_REMARK" "\<not> has_flag (l2_flags d) FLAG_NO_SEQ_CHECK"
  by (auto simp: l2_flags_def has_flag_def flag_defs split: option.split)

lemma fill_flags6:
  "has_flag (cm_flags6 (fill_original_cm6 E sic c r g)) FLAG_XLATE_SRC \<longleftrightarrow> src_translated6 sic"
  "has_flag (cm_flags6 (fill_original_cm6 E sic c r g)) FLAG_XLATE_DEST \<longleftrightarrow> dest_translated6 sic"
  "has_flag (cm_flags6 (fill_reply_cm6 E sic c r g)) FLAG_XLATE_SRC \<longleftrightarrow> dest_translated6 sic"
  "has_flag (cm_flags6 (fill_reply_cm6 E sic c r g)) FLAG_XLATE_DEST \<longleftrightarrow> src_translated6 sic"
  by (simp_all add: fill_original_cm6_def fill_reply_cm6_def Let_def has_flag_or6 has_flag_l2_6
      remark_flags_def seq_check_flag_def) (simp_all add: has_flag_def flag_defs)

lemma new_flow_ok6:
  assumes t: "t = prepare_rule6 E sic c m r j s" and ne: "m \<noteq> r"
  shows "flow_ok6 E t c" and "pair_ok6 t c" and "conn_matches6 t c = {m, r}"
    and "original_dev6 (conns6 t c) = sic_src_dev sic" and "reply_dev6 (conns6 t c) = sic_dest_dev sic"
    and "conn_key6 t c = (sic_protocol sic, ip6 (sic_src_ip sic), sic_src_port sic,
           ip6 (sic_dest_ip sic), sic_dest_port sic)"
proof -
  note f = prepare_rule_fields6 [OF ne, of E sic c j s, folded t]
  let ?M = "sfe_ipv6_connection_match_compute_translations E (fill_original_cm6 E sic c r (cms6 s m))"
  let ?R = "sfe_ipv6_connection_match_compute_translations E (fill_reply_cm6 E sic c m (cms6 s r))"
  have C: "conns6 t c = fill_connection6 sic m r j (conns6 s c)" and M: "cms6 t m = ?M" and R: "cms6 t r = ?R"
    using ne by (simp_all add: f)
  have src: "eff_src6 ?M = (ip6 (sic_src_ip_xlate sic), sic_src_port_xlate sic)"
    and dst: "eff_dest6 ?M = (ip6 (sic_dest_ip_xlate sic), sic_dest_port_xlate sic)"
    and rsrc: "eff_src6 ?R = (ip6 (sic_dest_ip sic), sic_dest_port sic)"
    and rdst: "eff_dest6 ?R = (ip6 (sic_src_ip sic), sic_src_port sic)"
    by (auto simp: eff_src6_def eff_dest6_def frame_simps fill_flags6 fill_original_fields6 fill_reply_fields6
        src_translated6_def dest_translated6_def)
  have adj: "adjusted6 E ?M" "adjusted6 E ?R"
    by (simp_all add: adjusted6_def compute_translations_adjustments6 frame_simps)
  show "flow_ok6 E t c"
    using src dst rsrc rdst adj
    by (simp add: flow_ok6_def Let_def conn_nat6_def C fill_connection6_def M R mirror6_def frame_simps
        fill_original_fields6 fill_reply_fields6)
  show "pair_ok6 t c"
    using ne by (simp add: pair_ok6_def Let_def C fill_connection6_def M R frame_simps
        fill_original_fields6 fill_reply_fields6)
  show "conn_matches6 t c = {m, r}" "original_dev6 (conns6 t c) = sic_src_dev sic"
    "reply_dev6 (conns6 t c) = sic_dest_dev sic"
    "conn_key6 t c = (sic_protocol sic, ip6 (sic_src_ip sic), sic_src_port sic,
           ip6 (sic_dest_ip sic), sic_dest_port sic)"
    by (simp_all add: conn_matches6_def C fill_connection6_def conn_key6_def Let_def)
qed

text \<open>The old objects do not notice the new ones.\<close>

lemma prepare_engine6:
  assumes I: "engine_inv6 E base s A D"
    and fresh: "c \<notin> conn_live6 s" "m \<notin> cm_live6 s" "r \<notin> cm_live6 s" "m \<noteq> r"
    and s0: "s0 = s\<lparr>conn_live6 := insert c (conn_live6 s), cm_live6 := insert r (insert m (cm_live6 s))\<rparr>"
    and t: "t = prepare_rule6 E sic c m r j s0"
  shows "engine_inv6 E base t A (c # D)"
proof -
  have T: "table_inv6 E s A D" and refs: "refs_inv6 base s A D"
    and flow: "\<forall>d\<in>set (connl6 A @ D). flow_ok6 E s d" and inj: "inj_on (conn_key6 s) (set (connl6 A))"
    using I by (simp_all add: engine_inv6_def)
  note f = prepare_rule_fields6 [OF fresh(4), of E sic c j s0, folded t]
  note n = new_flow_ok6 [OF t fresh(4)]
  have old_c: "d \<noteq> c" if "d \<in> set (connl6 A @ D)" for d
    using that T fresh(1) by (auto simp: table_inv6_def)
  have old_m: "p \<noteq> m \<and> p \<noteq> r" if "p \<in> table_matches6 s (connl6 A @ D)" for p
    using that T fresh(2,3) by (auto simp: table_inv6_def)
  have oc: "conns6 t d = conns6 s d" if "d \<in> set (connl6 A @ D)" for d
    using old_c [OF that] by (simp add: f s0)
  have om: "cms6 t p = cms6 s p" "match_active6 t p = match_active6 s p" "active_next6 t p = active_next6 s p"
    "active_prev6 t p = active_prev6 s p" if "p \<in> table_matches6 s (connl6 A @ D)" for p
    using old_m [OF that] by (simp_all add: f s0)
  have sub: "conn_matches6 s d \<subseteq> table_matches6 s (connl6 A @ D)" if "d \<in> set (connl6 A @ D)" for d
    using that by (auto simp: table_matches6_def)
  have cm: "conn_matches6 t d = conn_matches6 s d" if "d \<in> set (connl6 A @ D)" for d
    using oc [OF that] by (simp add: conn_matches6_def)
  have tm: "table_matches6 t cs = table_matches6 s cs" if "set cs \<subseteq> set (connl6 A @ D)" for cs
    using that cm by (auto simp: table_matches6_def)
  have mr: "original_match6 (conns6 s d) \<in> table_matches6 s (connl6 A @ D)"
    "reply_match6 (conns6 s d) \<in> table_matches6 s (connl6 A @ D)" if "d \<in> set (connl6 A @ D)" for d
    using sub [OF that] by (auto simp: conn_matches6_def)
  have po: "pair_ok6 t d" if "d \<in> set (connl6 A @ D)" for d
    using that T oc [OF that] om(1) [OF mr(1) [OF that]] om(1) [OF mr(2) [OF that]]
    by (auto simp: table_inv6_def pair_ok6_def Let_def)
  have fl: "flow_ok6 E t d" if "d \<in> set (connl6 A @ D)" for d
    using that flow oc [OF that] om(1) [OF mr(1) [OF that]] om(1) [OF mr(2) [OF that]]
    by (simp add: flow_ok6_def Let_def)
  have ck: "conn_key6 t d = conn_key6 s d" if "d \<in> set (connl6 A @ D)" for d
    using oc [OF that] by (simp add: conn_key6_def)
  have L: "lists_rep6 s A" using T by (simp add: table_inv6_def)
  have act6: "p \<in> table_matches6 s (connl6 A @ D)" if "p \<in> set (actives6 A)" for p
    using that T by (auto simp: table_inv6_def)
  have "act6.trepr t (actives6 A)"
    using L om(3,4) [OF act6] dll_cong [of "actives6 A" "active_next6 t" "active_next6 s" "active_prev6 t" "active_prev6 s"]
    by (simp add: lists_rep6_def act6.trepr_def t s0)
  then have L': "lists_rep6 t A"
    using L by (simp add: lists_rep6_def mch6.repr_def cch6.repr_def alls6.trepr_def t s0)
  have tmA: "table_matches6 t (connl6 A) = table_matches6 s (connl6 A)"
    and tmD: "table_matches6 t D = table_matches6 s D" by (auto intro!: tm)
  have inA: "p \<in> table_matches6 s (connl6 A @ D)" if "p \<in> table_matches6 s (connl6 A)" for p
    using that by simp
  have "table_inv6 E t A (c # D)"
    unfolding table_inv6_def
  proof (intro conjI)
    show "lists_rep6 t A" by (rule L')
    show "distinct (connl6 A @ c # D)" using T old_c by (auto simp: table_inv6_def)
    show "\<forall>d\<in>set (connl6 A @ c # D). pair_ok6 t d" using po n(2) by auto
    show "conn_live6 t = set (connl6 A @ c # D)" using T by (auto simp: table_inv6_def t s0)
    show "cm_live6 t = table_matches6 t (connl6 A @ c # D)"
      using T n(3) tmA tmD by (auto simp: table_inv6_def t s0)
    show "\<forall>i. set (mchains6 A i) = {p \<in> table_matches6 t (connl6 A). cm_hash6 E (cms6 t p) = i}"
      using T om(1) [OF inA] unfolding tmA by (auto simp: table_inv6_def)
    show "\<forall>i. set (cchains6 A i) = {d \<in> set (connl6 A). c_hash6 E (conns6 t d) = i}"
      using T oc by (auto simp: table_inv6_def)
    show "set (actives6 A) = {p \<in> table_matches6 t (connl6 A). match_active6 t p}"
      using T om(2) [OF inA] unfolding tmA by (auto simp: table_inv6_def)
    show "\<forall>p\<in>table_matches6 t (connl6 A). \<not> match_active6 t p \<longrightarrow> active_next6 t p = None"
      using T om(2,3) [OF inA] unfolding tmA by (auto simp: table_inv6_def)
    show "num_connections6 t = of_nat (length (connl6 A))" using T by (simp add: table_inv6_def t s0)
  qed
  moreover have "refs_inv6 base t A (c # D)"
  proof -
    have "dev_uses6 t (connl6 A) d = dev_uses6 s (connl6 A) d" "dev_uses6 t D d = dev_uses6 s D d" for d
      using oc by (auto intro!: dev_uses_agree6)
    then show ?thesis
      using refs by (simp add: refs_inv6_def n f(6) s0)
  qed
  moreover have "inj_on (conn_key6 t) (set (connl6 A)) = inj_on (conn_key6 s) (set (connl6 A))"
    by (rule inj_on_cong) (simp add: ck)
  with inj have "inj_on (conn_key6 t) (set (connl6 A))" by simp
  ultimately show ?thesis using fl n(1) by (auto simp: engine_inv6_def)
qed

lemma insert_connection_rest6 [simp]:
  "dev_refcnt6 (sfe_ipv6_insert_connection E c s) = dev_refcnt6 s"
  "sync_calls6 (sfe_ipv6_insert_connection E c s) = sync_calls6 s"
  "sync_rule_callback6 (sfe_ipv6_insert_connection E c s) = sync_rule_callback6 s"
  by (simp_all add: insert_conn_conv'6 link_conn6_def mch6.push_def cch6.push_def alls6.enqueue_def
      setter_defs6 Let_def split: option.split)

lemma insert_engine6:
  assumes I: "engine_inv6 E base s A (c # D)"
    and idle: "\<And>p. p \<in> conn_matches6 s c \<Longrightarrow> \<not> match_active6 s p \<and> active_next6 s p = None"
    and new: "conn_key6 s c \<notin> conn_key6 s ` set (connl6 A)"
  shows "engine_inv6 E base (sfe_ipv6_insert_connection E c s) (abs_insert6 E s c A) D"
proof -
  let ?t = "sfe_ipv6_insert_connection E c s"
  have cl: "connl6 (abs_insert6 E s c A) = connl6 A @ [c]" by (simp add: abs_insert6_def Let_def)
  have "table_inv6 E ?t (abs_insert6 E s c A) D"
    using I idle by (intro insert_connection_inv6) (simp_all add: engine_inv6_def)
  moreover have "refs_inv6 base ?t (abs_insert6 E s c A) D"
    using I dev_uses_cong6 [of ?t s] by (simp add: engine_inv6_def refs_inv6_def cl)
  moreover have "\<forall>d\<in>set (connl6 (abs_insert6 E s c A) @ D). flow_ok6 E ?t d"
    using I flow_ok_cong6 [of ?t s] by (auto simp: engine_inv6_def cl)
  moreover have "inj_on (conn_key6 ?t) (set (connl6 (abs_insert6 E s c A)))"
    using I new conn_key_cong6 [of ?t s] by (auto simp: engine_inv6_def cl)
  ultimately show ?thesis by (simp add: engine_inv6_def)
qed

lemma build_engine6:
  assumes I: "engine_inv6 E base s A D"
    and fresh: "c \<notin> conn_live6 s" "m \<notin> cm_live6 s" "r \<notin> cm_live6 s" "m \<noteq> r"
    and s0: "s0 = s\<lparr>conn_live6 := insert c (conn_live6 s), cm_live6 := insert r (insert m (cm_live6 s))\<rparr>"
    and t: "t = prepare_rule6 E sic c m r j s0"
    and new: "(sic_protocol sic, ip6 (sic_src_ip sic), sic_src_port sic,
           ip6 (sic_dest_ip sic), sic_dest_port sic) \<notin> conn_key6 s ` set (connl6 A)"
  shows "engine_inv6 E base (build_rule6 E sic c m r j s0) (abs_insert6 E t c A) D"
proof -
  note n = new_flow_ok6 [OF t fresh(4)]
  note f = prepare_rule_fields6 [OF fresh(4), of E sic c j s0, folded t]
  have J: "engine_inv6 E base t A (c # D)" by (rule prepare_engine6 [OF I fresh s0 t])
  have "d \<noteq> c" if "d \<in> set (connl6 A)" for d
    using that I fresh(1) by (auto simp: engine_inv6_def table_inv6_def)
  then have "conn_key6 t d = conn_key6 s d" if "d \<in> set (connl6 A)" for d
    using that by (simp add: conn_key6_def f s0)
  then have "conn_key6 t ` set (connl6 A) = conn_key6 s ` set (connl6 A)" by (simp cong: image_cong)
  with new n(6) have "conn_key6 t c \<notin> conn_key6 t ` set (connl6 A)" by simp
  moreover have "\<not> match_active6 t p \<and> active_next6 t p = None" if "p \<in> conn_matches6 t c" for p
    using that by (auto simp: n(3) f)
  ultimately show ?thesis
    unfolding build_rule6_def t [symmetric] by (intro insert_engine6 [OF J]) auto
qed

end
