(* ===== verification/Sfe6_Rule_Ops.thy ===== *)
theory Sfe6_Rule_Ops
  imports Sfe6_Rule_Inv Sfe_Rule_Ops
begin

text \<open>
  The operations of the connection manager on rules: each returns on every state the engine can be
  in, keeps \<open>engine_inv6\<close>, and changes the set of rules the way its name says.
\<close>

section \<open>Look-up from the raw arguments\<close>

lemma find_conn_raw6:
  assumes I: "table_inv6 E s A D"
  obtains r where "sfe_ipv6_find_connection E pr si sp di dp s = Some r"
    and "\<And>c. r = Some c \<Longrightarrow> c \<in> set (connl6 A) \<and> conn_key6 s c = (pr, si, sp, di, dp)"
    and "r = None \<Longrightarrow> (pr, si, sp, di, dp) \<notin> conn_key6 s ` set (connl6 A)"
proof -
  obtain r where f: "find_conn6 E (pr, si, sp, di, dp) s = Some (r, s)"
    and hit: "\<And>c. r = Some c \<Longrightarrow> c \<in> set (connl6 A) \<and> conn_key6 s c = (pr, si, sp, di, dp)"
    and miss: "\<And>c. r = None \<Longrightarrow> c \<in> set (connl6 A) \<Longrightarrow> conn_key6 s c \<noteq> (pr, si, sp, di, dp)"
    using find_conn_cases6 [OF I, of "(pr, si, sp, di, dp)"] unfolding table_inv_tabled6 [OF I] by blast
  show thesis
  proof (rule that)
    show "sfe_ipv6_find_connection E pr si sp di dp s = Some r"
      using f by (simp add: find_conn6_def)
    show "r = None \<Longrightarrow> (pr, si, sp, di, dp) \<notin> conn_key6 s ` set (connl6 A)"
      by (intro notI) (erule imageE, drule (1) miss, simp)
  qed (rule hit)
qed

lemma engine_table6: "engine_inv6 E base s A D \<Longrightarrow> table_inv6 E s A D"
  by (simp add: engine_inv6_def)

section \<open>Update and mark\<close>

lemma same_table_upd_tcp6: "same_table6 s (upd_cm6 p (\<lambda>m. m\<lparr>cm_tcp6 := raise_window a b e (cm_tcp6 m)\<rparr>) s)"
  by (rule same_table_upd_cm6) (simp add: cm_static6_def raise_window_def Let_def)

lemma same_table_clear_seq6: "same_table6 s (upd_cm6 p (\<lambda>m. m\<lparr>cm_flags6 := cm_flags6 m AND NOT FLAG_NO_SEQ_CHECK\<rparr>) s)"
  by (rule same_table_upd_cm6) (simp add: cm_static6_def)

lemma same_table_set_seq6: "same_table6 s (upd_cm6 p (\<lambda>m. m\<lparr>cm_flags6 := cm_flags6 m OR FLAG_NO_SEQ_CHECK\<rparr>) s)"
  by (rule same_table_upd_cm6) (simp add: cm_static6_def and_not_or_idem)

lemma update_protocol_state_frame6:
  "same_table6 s (sfe_ipv6_update_protocol_state c sic s)"
  "dev_refcnt6 (sfe_ipv6_update_protocol_state c sic s) = dev_refcnt6 s"
proof -
  let ?t = "sfe_ipv6_update_tcp_state c sic s"
  note peel = same_table_trans6 [OF _ same_table_upd_tcp6] same_table_trans6 [OF _ same_table_clear_seq6]
    same_table_trans6 [OF _ same_table_set_seq6]
  have "same_table6 s ?t"
    by (cases "has_flag (sic_flags sic) SFE_CREATE_FLAG_NO_SEQ_CHECK")
      (simp only: sfe_ipv6_update_tcp_state_def Let_def if_True if_False, (rule peel)+, rule same_table_refl6)+
  then show "same_table6 s (sfe_ipv6_update_protocol_state c sic s)"
    by (simp add: sfe_ipv6_update_protocol_state_def)
  show "dev_refcnt6 (sfe_ipv6_update_protocol_state c sic s) = dev_refcnt6 s"
    by (simp add: sfe_ipv6_update_protocol_state_def sfe_ipv6_update_tcp_state_def Let_def)
qed

lemma update_rule6:
  assumes I: "engine_inv6 E base s A D"
  obtains s' where "sfe_ipv6_update_rule E sic s = Some s'" and "engine_inv6 E base s' A D"
    and "same_table6 s s'"
proof -
  obtain r where r: "sfe_ipv6_find_connection E (sic_protocol sic) (ip6 (sic_src_ip sic))
      (sic_src_port sic) (ip6 (sic_dest_ip sic)) (sic_dest_port sic) s = Some r"
    by (rule find_conn_raw6 [OF engine_table6 [OF I]])
  have "engine_inv6 E base (sfe_ipv6_update_protocol_state c sic s) A D" for c
    using I update_protocol_state_frame6 by (rule same_table_engine6)
  then show thesis
    using that I r update_protocol_state_frame6(1) [of s]
    by (cases r) (auto simp: sfe_ipv6_update_rule_def)
qed

lemma mark_rule6:
  assumes I: "engine_inv6 E base s A D"
  obtains s' where "sfe_ipv6_mark_rule E mark s = Some s'" and "engine_inv6 E base s' A D"
proof -
  obtain r where r: "sfe_ipv6_find_connection E (scm_protocol mark) (ip6 (scm_src_ip mark))
      (scm_src_port mark) (ip6 (scm_dest_ip mark)) (scm_dest_port mark) s = Some r"
    by (rule find_conn_raw6 [OF engine_table6 [OF I]])
  have "same_table6 s (upd_conn6 c (\<lambda>d. d\<lparr>c_mark6 := scm_mark mark\<rparr>) s)" for c
    by (rule same_table_upd_conn6) (simp add: conn_static6_def)
  then have "engine_inv6 E base (upd_conn6 c (\<lambda>d. d\<lparr>c_mark6 := scm_mark mark\<rparr>) s) A D" for c
    using I by (intro same_table_engine6 [OF I]) simp_all
  then show thesis
    using that I r by (cases r) (auto simp: sfe_ipv6_mark_rule_def)
qed

section \<open>Creation\<close>

text \<open>\<open>kmalloc\<close> returns objects that are not in use.\<close>

definition alloc_fresh6 :: "allocation \<Rightarrow> sfe_ipv6 \<Rightarrow> bool" where
  "alloc_fresh6 al s \<longleftrightarrow>
     (case al_conn al of None \<Rightarrow> True | Some c \<Rightarrow> c \<notin> conn_live6 s) \<and>
     (case al_original al of None \<Rightarrow> True | Some m \<Rightarrow> m \<notin> cm_live6 s) \<and>
     (case al_reply al of None \<Rightarrow> True | Some r \<Rightarrow> r \<notin> cm_live6 s \<and> al_original al \<noteq> Some r)"

definition sic_key6 :: "sfe_connection_create \<Rightarrow> conn_key6" where
  "sic_key6 sic = (sic_protocol sic, ip6 (sic_src_ip sic), sic_src_port sic,
     ip6 (sic_dest_ip sic), sic_dest_port sic)"

definition devs_registered6 :: "sfe_env \<Rightarrow> sfe_connection_create \<Rightarrow> bool" where
  "devs_registered6 E sic \<longleftrightarrow> nd_registered (netdev E (sic_dest_dev sic)) \<and> nd_registered (netdev E (sic_src_dev sic))"

text \<open>The outcome of a creation, from its arguments and the rules there are.\<close>

definition create_outcome6 :: "sfe_env \<Rightarrow> sfe_connection_create \<Rightarrow> allocation \<Rightarrow> conn_key6 set \<Rightarrow> create_result" where
  "create_outcome6 E sic al keys =
     (if \<not> devs_registered6 E sic then EINVAL
      else if sic_key6 sic \<in> keys then EADDRINUSE
      else if al_conn al = None \<or> al_original al = None \<or> al_reply al = None then ENOMEM
      else CREATED)"

lemma engine_counter6:
  assumes "engine_inv6 E base s A D"
  shows "engine_inv6 E base (s\<lparr>connection_create_requests6 := v\<rparr>) A D"
    and "engine_inv6 E base (s\<lparr>connection_create_collisions6 := v\<rparr>) A D"
    and "engine_inv6 E base (s\<lparr>connection_destroy_requests6 := v\<rparr>) A D"
    and "engine_inv6 E base (s\<lparr>connection_destroy_misses6 := v\<rparr>) A D"
    and "engine_inv6 E base (s\<lparr>exception_events6 := w, packets_not_forwarded6 := v\<rparr>) A D"
    and "engine_inv6 E base (s\<lparr>packets_not_forwarded6 := v\<rparr>) A D"
    and "engine_inv6 E base (s\<lparr>packets_forwarded6 := v\<rparr>) A D"
  using assms by (auto intro!: same_table_engine6 [OF assms] simp: same_table6_def)

lemma build_rule_key6:
  assumes "m \<noteq> r"
  shows "conn_key6 (build_rule6 E sic c m r j s) c = sic_key6 sic"
  using new_flow_ok6(6) [OF refl assms, of E sic c j s]
  by (simp add: build_rule6_def sic_key6_def conn_key6_def)

lemma build_rule_key_old6:
  assumes "m \<noteq> r" and "d \<noteq> c"
  shows "conn_key6 (build_rule6 E sic c m r j s) d = conn_key6 s d"
  using assms prepare_rule_fields6(2) [OF assms(1), of E sic c j s]
  by (simp add: build_rule6_def conn_key6_def)

lemma create_rule6:
  assumes I: "engine_inv6 E base s A D" and fresh: "alloc_fresh6 al s"
  obtains res s' A' where "sfe_ipv6_create_rule E sic al j s = Some (res, s')"
    and "engine_inv6 E base s' A' D"
    and "res = create_outcome6 E sic al (conn_key6 s ` set (connl6 A))"
    and "res \<noteq> CREATED \<Longrightarrow> A' = A \<and> conn_key6 s' = conn_key6 s"
    and "res = CREATED \<Longrightarrow> \<exists>c. al_conn al = Some c \<and> connl6 A' = connl6 A @ [c] \<and>
           conn_key6 s' c = sic_key6 sic \<and> (\<forall>d\<in>set (connl6 A). conn_key6 s' d = conn_key6 s d)"
proof (cases "devs_registered6 E sic")
  case False
  then have "sfe_ipv6_create_rule E sic al j s = Some (EINVAL, s)"
    by (auto simp: sfe_ipv6_create_rule_def devs_registered6_def)
  with I False show thesis
    by (intro that [of EINVAL s A]) (auto simp: create_outcome6_def)
next
  case True
  let ?s1 = "s\<lparr>connection_create_requests6 := connection_create_requests6 s + 1\<rparr>"
  have I1: "engine_inv6 E base ?s1 A D" using I by (rule engine_counter6)
  have k1: "conn_key6 ?s1 = conn_key6 s" by (simp add: fun_eq_iff conn_key6_def)
  have free: "X - {c} = X" if "c \<notin> X" for X and c :: nat using that by auto
  obtain f where f: "sfe_ipv6_find_connection E (sic_protocol sic) (ip6 (sic_src_ip sic))
        (sic_src_port sic) (ip6 (sic_dest_ip sic)) (sic_dest_port sic) ?s1 = Some f"
    and hit: "\<And>c. f = Some c \<Longrightarrow> c \<in> set (connl6 A) \<and> conn_key6 s c = sic_key6 sic"
    and miss: "f = None \<Longrightarrow> sic_key6 sic \<notin> conn_key6 s ` set (connl6 A)"
    using find_conn_raw6 [OF engine_table6 [OF I1]] unfolding k1 sic_key6_def by blast
  show thesis
  proof (cases f)
    case (Some c)
    let ?s2 = "?s1\<lparr>connection_create_collisions6 := connection_create_collisions6 ?s1 + 1\<rparr>"
    let ?t = "sfe_ipv6_update_protocol_state c sic ?s2"
    have "sfe_ipv6_create_rule E sic al j s = Some (EADDRINUSE, ?t)"
      using True f Some by (simp add: sfe_ipv6_create_rule_def devs_registered6_def)
    moreover have "engine_inv6 E base ?t A D"
      using engine_counter6(2) [OF I1] update_protocol_state_frame6 by (rule same_table_engine6)
    moreover have "conn_key6 ?t = conn_key6 s"
      using same_table_conn_key6 [OF update_protocol_state_frame6(1) [of ?s2 c sic]] k1
      by (simp add: fun_eq_iff conn_key6_def)
    moreover have "sic_key6 sic \<in> conn_key6 s ` set (connl6 A)" using hit [OF Some] by force
    ultimately show thesis
      using True by (intro that [of EADDRINUSE ?t A]) (auto simp: create_outcome6_def)
  next
    case None
    note new = miss [OF None]
    show thesis
    proof (cases "al_conn al = None \<or> al_original al = None \<or> al_reply al = None")
      case nomem: True
      have "sfe_ipv6_create_rule E sic al j s = Some (ENOMEM, ?s1)"
        using True f None nomem fresh
        by (auto simp: sfe_ipv6_create_rule_def devs_registered6_def alloc_fresh6_def kfree_conn6_def
            kfree_cm6_def free split: option.splits)
      with I1 k1 True new nomem show thesis
        by (intro that [of ENOMEM ?s1 A]) (auto simp: create_outcome6_def)
    next
      case False
      then obtain c m r where al: "al_conn al = Some c" "al_original al = Some m" "al_reply al = Some r"
        by auto
      let ?s4 = "?s1\<lparr>conn_live6 := insert c (conn_live6 ?s1), cm_live6 := insert r (insert m (cm_live6 ?s1))\<rparr>"
      let ?t = "build_rule6 E sic c m r j ?s4"
      have fr: "c \<notin> conn_live6 ?s1" "m \<notin> cm_live6 ?s1" "r \<notin> cm_live6 ?s1" "m \<noteq> r"
        using fresh al by (auto simp: alloc_fresh6_def)
      have "sfe_ipv6_create_rule E sic al j s = Some (CREATED, ?t)"
        using True f None al by (simp add: sfe_ipv6_create_rule_def devs_registered6_def)
      moreover have "engine_inv6 E base ?t (abs_insert6 E (prepare_rule6 E sic c m r j ?s4) c A) D"
        using new k1 by (intro build_engine6 [OF I1 fr refl refl]) (simp add: sic_key6_def)
      moreover have "connl6 (abs_insert6 E (prepare_rule6 E sic c m r j ?s4) c A) = connl6 A @ [c]"
        by (simp add: abs_insert6_def Let_def)
      moreover have "conn_key6 ?t d = conn_key6 s d" if "d \<in> set (connl6 A)" for d
      proof -
        have "d \<noteq> c" using that fr(1) I1 by (auto simp: engine_inv6_def table_inv6_def)
        then show ?thesis using build_rule_key_old6 [OF fr(4)] by (simp add: conn_key6_def)
      qed
      ultimately show thesis
        using True new False al build_rule_key6 [OF fr(4)]
        by (intro that [of CREATED ?t]) (auto simp: create_outcome6_def)
    qed
  qed
qed

section \<open>Destruction of one rule\<close>

lemma remove_flush_engine6:
  fixes reason sis now
  assumes I: "engine_inv6 E base s A D" and c: "c \<in> set (connl6 A)"
  defines "t \<equiv> sfe_ipv6_flush_connection c reason sis now (sfe_ipv6_remove_connection E c s)"
  shows "engine_inv6 E base t (abs_remove6 E s c A) D" and "conn_key6 t = conn_key6 s"
    and "conn_static6 (conns6 t d) = conn_static6 (conns6 s d)"
proof -
  let ?r = "sfe_ipv6_remove_connection E c s"
  show "engine_inv6 E base t (abs_remove6 E s c A) D"
    unfolding t_def by (rule flush_engine6 [OF remove_engine6 [OF I c]])
  have "conn_key6 ?r = conn_key6 s" by (rule conn_key_cong6) simp
  then show "conn_key6 t = conn_key6 s" by (simp add: t_def flush_flow6(2))
  show "conn_static6 (conns6 t d) = conn_static6 (conns6 s d)"
    unfolding t_def flush_static6(2) by simp
qed

definition sid_key6 :: "sfe_connection_destroy \<Rightarrow> conn_key6" where
  "sid_key6 sid = (sid_protocol sid, ip6 (sid_src_ip sid), sid_src_port sid,
     ip6 (sid_dest_ip sid), sid_dest_port sid)"

lemma destroy_rule6:
  assumes I: "engine_inv6 E base s A D"
  obtains s' A' where "sfe_ipv6_destroy_rule E sid sis now s = Some s'"
    and "engine_inv6 E base s' A' D"
    and "connl6 A' = filter (\<lambda>c. conn_key6 s c \<noteq> sid_key6 sid) (connl6 A)" and "conn_key6 s' = conn_key6 s"
    and "\<And>d. conn_static6 (conns6 s' d) = conn_static6 (conns6 s d)"
proof -
  let ?s1 = "s\<lparr>connection_destroy_requests6 := connection_destroy_requests6 s + 1\<rparr>"
  have I1: "engine_inv6 E base ?s1 A D" using I by (rule engine_counter6)
  have k1: "conn_key6 ?s1 = conn_key6 s" by (simp add: fun_eq_iff conn_key6_def)
  have inj: "inj_on (conn_key6 s) (set (connl6 A))" and dist: "distinct (connl6 A)"
    using I by (auto simp: engine_inv6_def table_inv6_def)
  obtain f where f: "sfe_ipv6_find_connection E (sid_protocol sid) (ip6 (sid_src_ip sid))
        (sid_src_port sid) (ip6 (sid_dest_ip sid)) (sid_dest_port sid) ?s1 = Some f"
    and hit: "\<And>c. f = Some c \<Longrightarrow> c \<in> set (connl6 A) \<and> conn_key6 s c = sid_key6 sid"
    and miss: "f = None \<Longrightarrow> sid_key6 sid \<notin> conn_key6 s ` set (connl6 A)"
    using find_conn_raw6 [OF engine_table6 [OF I1]] unfolding k1 sid_key6_def by blast
  show thesis
  proof (cases f)
    case None
    let ?t = "?s1\<lparr>connection_destroy_misses6 := connection_destroy_misses6 ?s1 + 1\<rparr>"
    have "sfe_ipv6_destroy_rule E sid sis now s = Some ?t"
      using f None by (simp add: sfe_ipv6_destroy_rule_def)
    moreover have "engine_inv6 E base ?t A D" using I1 by (rule engine_counter6)
    moreover have "filter (\<lambda>c. conn_key6 s c \<noteq> sid_key6 sid) (connl6 A) = connl6 A"
      using miss [OF None] by (intro filter_True ballI notI) (metis image_eqI)
    moreover have "conn_key6 ?t = conn_key6 s" by (simp add: fun_eq_iff conn_key6_def)
    ultimately show thesis by (intro that [of ?t A]) auto
  next
    case (Some c)
    note h = hit [OF Some]
    have c: "c \<in> set (connl6 A)" using h by simp
    have "sfe_ipv6_destroy_rule E sid sis now s = Some (sfe_ipv6_flush_connection c
        SFE_SYNC_REASON_DESTROY sis now (sfe_ipv6_remove_connection E c ?s1))"
      using f Some by (simp add: sfe_ipv6_destroy_rule_def)
    moreover have "remove1 c (connl6 A) = filter (\<lambda>d. d \<noteq> c) (connl6 A)"
      using dist by (simp add: distinct_remove1_removeAll removeAll_filter_not_eq) (metis)
    moreover have "\<dots> = filter (\<lambda>d. conn_key6 s d \<noteq> sid_key6 sid) (connl6 A)"
      using h inj by (intro filter_cong refl) (metis inj_onD)
    ultimately show thesis
      using remove_flush_engine6(2,3) [OF I1 c, of SFE_SYNC_REASON_DESTROY sis now] k1
      by (intro that [OF _ remove_flush_engine6(1) [OF I1 c]]) simp_all
  qed
qed

section \<open>Destruction of all rules of a device\<close>

lemma find_conn_of_dev_dseg6:
  "dseg (all_next6 s) pv h b xs None \<Longrightarrow>
     find_conn_of_dev6 dev s h = Some (List.find (\<lambda>c. uses_dev6 dev (conns6 s c)) xs)"
  by (induction xs arbitrary: h b) (simp_all add: find_conn_of_dev6.simps)

lemma find_conn_of_dev_table6:
  assumes "table_inv6 E s A D"
  shows "find_conn_of_dev6 dev s (all_connections_head6 s) =
     Some (List.find (\<lambda>c. uses_dev6 dev (conns6 s c)) (connl6 A))"
proof -
  have "alls6.trepr s (connl6 A)" using assms by (simp add: table_inv6_def lists_rep6_def)
  then have "dseg (all_next6 s) (all_prev6 s) (all_connections_head6 s) None (connl6 A) None"
    by (simp add: alls6.trepr_def dll_def)
  then show ?thesis by (rule find_conn_of_dev_dseg6)
qed

lemma uses_dev_static6: "conn_static6 c' = conn_static6 c \<Longrightarrow> uses_dev6 dev c' = uses_dev6 dev c"
  using conn_staticD6 [of c' c] by (simp add: uses_dev6_def cong: option.case_cong)

theorem destroy_all_rules6:
  assumes "engine_inv6 E base s A D"
  shows "\<exists>s' A'. sfe_ipv6_destroy_all_rules_for_dev E dev sis now n s = Some s' \<and>
     engine_inv6 E base s' A' D \<and>
     connl6 A' = filter (\<lambda>c. \<not> uses_dev6 dev (conns6 s c)) (connl6 A) \<and> conn_key6 s' = conn_key6 s \<and>
     (\<forall>d. conn_static6 (conns6 s' d) = conn_static6 (conns6 s d))"
  using assms
proof (induction "length (connl6 A)" arbitrary: s A n rule: less_induct)
  case less
  let ?P = "\<lambda>c. uses_dev6 dev (conns6 s c)"
  note I = less.prems
  note fd = find_conn_of_dev_table6 [OF engine_table6 [OF I], of dev]
  show ?case
  proof (cases "List.find ?P (connl6 A)")
    case None
    then have "sfe_ipv6_destroy_all_rules_for_dev E dev sis now n s = Some s"
      by (subst sfe_ipv6_destroy_all_rules_for_dev.simps) (simp add: fd)
    moreover have "filter (\<lambda>c. \<not> ?P c) (connl6 A) = connl6 A"
      using None by (simp add: filter_id_conv find_None_iff)
    ultimately show ?thesis using I by auto
  next
    case (Some c)
    then have c: "c \<in> set (connl6 A)" and P: "?P c" using find_in_set [OF Some] by auto
    let ?t = "sfe_ipv6_flush_connection c SFE_SYNC_REASON_DESTROY sis (now n)
        (sfe_ipv6_remove_connection E c s)"
    have step: "sfe_ipv6_destroy_all_rules_for_dev E dev sis now n s =
        sfe_ipv6_destroy_all_rules_for_dev E dev sis now (Suc n) ?t"
      by (subst sfe_ipv6_destroy_all_rules_for_dev.simps) (simp add: fd Some)
    note r = remove_flush_engine6 [OF I c, of SFE_SYNC_REASON_DESTROY sis "now n"]
    have "length (connl6 (abs_remove6 E s c A)) < length (connl6 A)"
      using length_remove1_less [OF c] by simp
    from less.hyps [OF this r(1), of "Suc n"] obtain s' A'
      where d: "sfe_ipv6_destroy_all_rules_for_dev E dev sis now (Suc n) ?t = Some s'"
        and e: "engine_inv6 E base s' A' D" and k: "conn_key6 s' = conn_key6 ?t"
        and A': "connl6 A' = filter (\<lambda>d. \<not> uses_dev6 dev (conns6 ?t d)) (connl6 (abs_remove6 E s c A))"
        and st: "\<forall>d. conn_static6 (conns6 s' d) = conn_static6 (conns6 ?t d)"
      by blast
    have "(\<lambda>d. \<not> uses_dev6 dev (conns6 ?t d)) = (\<lambda>d. \<not> ?P d)"
      using uses_dev_static6 [OF r(3)] by (simp only:)
    then have "connl6 A' = filter (\<lambda>d. \<not> ?P d) (connl6 A)"
      using A' P by (simp only: abs_remove_connl6 filter_remove1_False not_not)
    with step d e k r(2,3) st show ?thesis by (intro exI [of _ s'] exI [of _ A'] conjI) simp_all
  qed
qed

section \<open>Flows\<close>

text \<open>The flows the engine knows, as keys: the abstract state of the tables.\<close>

definition flow_keys6 :: "sfe_ipv6 \<Rightarrow> sfe_abs6 \<Rightarrow> conn_key6 set" where
  "flow_keys6 s A = conn_key6 s ` set (connl6 A)"

lemma flow_keys_remove6:
  assumes I: "engine_inv6 E base s A D" and A': "connl6 A' = filter (\<lambda>c. conn_key6 s c \<noteq> k) (connl6 A)"
    and K: "conn_key6 s' = conn_key6 s"
  shows "flow_keys6 s' A' = flow_keys6 s A - {k}"
  by (auto simp: flow_keys6_def A' K)

end
