(* ===== verification/Sfe6_Debug_Props.thy ===== *)
theory Sfe6_Debug_Props
  imports Sfe6_Debug Sfe6_Rule_Ops Sfe_Debug_Props
begin

text \<open>
  The debug dump of the IPv6 engine: every element fits into the message buffer, every copy stays in the user's buffer, the
  engine stays consistent, and when the copies succeed a read ends and has produced exactly the
  elements of a reference sequence that fit: each connection once, in the order of the table.
\<close>

section \<open>Elements fit\<close>

lemmas fixed_msgs6 = msg_start6_def msg_connections_start_def msg_connections_end_def
  msg_exceptions_start_def msg_exceptions_end_def msg_end6_def

lemma fixed_fits6:
  "length msg_start6 < 768" "length msg_connections_start < 768" "length msg_connections_end < 768"
  "length msg_exceptions_start < 768" "length msg_exceptions_end < 768" "length msg_end6 < 768"
  by (simp_all add: fixed_msgs6 tab_def newline_def)

lemma msg_exception_fits6: "length (msg_exception6 e ct) < 768"
  using length_event_string6 [of e] length_dec64 [of ct]
  by (simp add: msg_exception6_def length_attr tab_def newline_def)

lemma msg_stats_fits6: "length (msg_stats6 s) < 768"
  using length_dec32 [of "num_connections6 s"] length_dec64 [of "packets_forwarded64_6 s"]
    length_dec64 [of "packets_not_forwarded64_6 s"] length_dec64 [of "connection_create_requests64_6 s"]
    length_dec64 [of "connection_create_collisions64_6 s"] length_dec64 [of "connection_destroy_requests64_6 s"]
    length_dec64 [of "connection_destroy_misses64_6 s"] length_dec64 [of "connection_flushes64_6 s"]
    length_dec64 [of "connection_match_hash_hits64_6 s"] length_dec64 [of "connection_match_hash_reorders64_6 s"]
  by (simp add: msg_stats6_def length_attr tab_def newline_def)

lemma msg_connection_fits6:
  assumes "names_ok E"
  shows "length (msg_connection6 E s c now) < 768"
proof -
  let ?d = "conns6 s c"
  let ?m = "cms6 s (original_match6 ?d)" and ?r = "cms6 s (reply_match6 ?d)"
  have n: "length (nd_name (netdev E (original_dev6 ?d))) \<le> 15" "length (nd_name (netdev E (reply_dev6 ?d))) \<le> 15"
    using assms by (simp_all add: names_ok_def)
  note l = length_dec32 [of "c_protocol6 ?d"] length_ip6_text [of E "c_src_ip6 ?d"] length_ip6_text [of E "c_src_ip_xlate6 ?d"]
    length_dec16 [of "ntohs E (c_src_port6 ?d)"] length_dec16 [of "ntohs E (c_src_port_xlate6 ?d)"]
    length_dec32 [of "cm_priority6 ?m"] length_dec32 [of "drop_bit 2 (cm_dscp6 ?m)"]
    length_dec64 [of "rx_packet_count64_6 ?m"] length_dec64 [of "rx_byte_count64_6 ?m"]
    length_ip6_text [of E "c_dest_ip6 ?d"] length_ip6_text [of E "c_dest_ip_xlate6 ?d"]
    length_dec16 [of "ntohs E (c_dest_port6 ?d)"] length_dec16 [of "ntohs E (c_dest_port_xlate6 ?d)"]
    length_dec32 [of "cm_priority6 ?r"] length_dec32 [of "drop_bit 2 (cm_dscp6 ?r)"]
    length_dec64 [of "rx_packet_count64_6 ?r"] length_dec64 [of "rx_byte_count64_6 ?r"]
    length_dec64 [of "now - last_sync_jiffies6 ?d"] length_hex8 [of "c_mark6 ?d"]
  show ?thesis using n l
    by (simp add: msg_connection6_def Let_def length_attr tab_def newline_def)
qed

section \<open>The writers keep the engine\<close>

lemma next_unread_dseg6:
  "dseg (all_next6 s) pv h b xs None \<Longrightarrow>
     next_unread6 s h = Some (List.find (\<lambda>c. c_debug_read_seq6 (conns6 s c) < debug_read_seq6 s) xs)"
  by (induction xs arbitrary: h b) (auto simp: next_unread6.simps)

lemma next_unread_table6:
  assumes "table_inv6 E s A D"
  shows "next_unread6 s (all_connections_head6 s) =
     Some (List.find (\<lambda>c. c_debug_read_seq6 (conns6 s c) < debug_read_seq6 s) (connl6 A))"
proof (rule next_unread_dseg6)
  show "dseg (all_next6 s) (all_prev6 s) (all_connections_head6 s) None (connl6 A) None"
    using assms by (simp add: table_inv6_def lists_rep6_def alls6.trepr_def dll_def)
qed

lemma same_table_seq6: "same_table6 s (s\<lparr>debug_read_seq6 := v\<rparr>)"
  by (simp add: same_table6_def)

lemma same_table_mark_read6: "same_table6 s (upd_conn6 c (\<lambda>q. q\<lparr>c_debug_read_seq6 := v\<rparr>) s)"
  by (rule same_table_upd_conn6) (simp add: conn_static6_def)

definition mark_read6 :: "conn_ptr \<Rightarrow> sfe_ipv6 \<Rightarrow> sfe_ipv6" where
  "mark_read6 c s =
     (let s1 = upd_conn6 c (\<lambda>q. q\<lparr>c_debug_read_seq6 := debug_read_seq6 s\<rparr>) s;
          s2 = sfe_ipv6_connection_match_update_summary_stats (original_match6 (conns6 s1 c)) s1
      in sfe_ipv6_connection_match_update_summary_stats (reply_match6 (conns6 s2 c)) s2)"

lemma same_table_mark6: "same_table6 s (mark_read6 c s)"
  unfolding mark_read6_def Let_def
  by (rule same_table_trans6 [OF same_table_mark_read6 same_table_trans6 [OF same_table_stats6 same_table_stats6]])

lemma mark_read_refs6: "dev_refcnt6 (mark_read6 c s) = dev_refcnt6 s"
  by (simp add: mark_read6_def Let_def sfe_ipv6_connection_match_update_summary_stats_def)

lemma mark_engine6: "engine_inv6 E base s A D \<Longrightarrow> engine_inv6 E base (mark_read6 c s) A D"
  by (rule same_table_engine6 [OF _ same_table_mark6 mark_read_refs6])

lemma read_connection_conv6:
  assumes "table_inv6 E s A D"
  shows "sfe_ipv6_debug_dev_read_connections_connection E ok now (d, ws, s) =
     Some (case List.find (\<lambda>c. c_debug_read_seq6 (conns6 s c) < debug_read_seq6 s) (connl6 A) of
       None \<Rightarrow> (d, advance ws, s)
     | Some c \<Rightarrow> (case emit ok (msg_connection6 E (mark_read6 c s) c now) d of
                   None \<Rightarrow> (d, ws, mark_read6 c s) | Some d \<Rightarrow> (d, ws, mark_read6 c s)))"
  by (simp add: sfe_ipv6_debug_dev_read_connections_connection_def next_unread_table6 [OF assms]
      mark_read6_def Let_def split: option.split)

section \<open>What an element shows does not depend on the elements before it\<close>

definition cm_shown6 :: "sfe_ipv6_connection_match \<Rightarrow> sfe_ipv6_connection_match" where
  "cm_shown6 m = m\<lparr>rx_packet_count64_6 := total_packets6 m, rx_packet_count6 := 0,
     rx_byte_count64_6 := total_bytes6 m, rx_byte_count6 := 0\<rparr>"

definition conn_shown6 :: "sfe_ipv6_connection \<Rightarrow> sfe_ipv6_connection" where
  "conn_shown6 c = c\<lparr>c_debug_read_seq6 := 0\<rparr>"

text \<open>The element of a connection, from a state in which it was not read yet.\<close>

definition shown6 :: "sfe_env \<Rightarrow> sfe_ipv6 \<Rightarrow> conn_ptr \<Rightarrow> u64 \<Rightarrow> string" where
  "shown6 E s c now = msg_connection6 E (s\<lparr>cms6 := cm_shown6 \<circ> cms6 s, conns6 := conn_shown6 \<circ> conns6 s\<rparr>) c now"

definition shows_same6 :: "sfe_ipv6 \<Rightarrow> sfe_ipv6 \<Rightarrow> bool" where
  "shows_same6 s t \<longleftrightarrow> cm_shown6 \<circ> cms6 t = cm_shown6 \<circ> cms6 s \<and> conn_shown6 \<circ> conns6 t = conn_shown6 \<circ> conns6 s"

lemma shows_same_shown6: "shows_same6 s t \<Longrightarrow> shown6 E t c now = shown6 E s c now"
  by (simp add: shown6_def shows_same6_def msg_connection6_def)

lemma cm_shown_idem6 [simp]: "cm_shown6 (cm_shown6 m) = cm_shown6 m"
  by (simp add: cm_shown6_def total_packets6_def total_bytes6_def)

lemma mark_read_conns6: "conns6 (mark_read6 c s) = (conns6 s)(c := (conns6 s c)\<lparr>c_debug_read_seq6 := debug_read_seq6 s\<rparr>)"
  by (simp add: mark_read6_def Let_def upd_conn6_def sfe_ipv6_connection_match_update_summary_stats_def upd_cm6_def)

lemma stats_cm6: "cms6 (sfe_ipv6_connection_match_update_summary_stats p s) = (cms6 s)(p := cm_shown6 (cms6 s p))"
  by (simp add: sfe_ipv6_connection_match_update_summary_stats_def upd_cm6_def cm_shown6_def total_packets6_def
      total_bytes6_def)

lemma mark_read_cms6:
  "cms6 (mark_read6 c s) = (cms6 s)(original_match6 (conns6 s c) := cm_shown6 (cms6 s (original_match6 (conns6 s c))),
     reply_match6 (conns6 s c) := cm_shown6 (cms6 s (reply_match6 (conns6 s c))))"
  by (auto simp: mark_read6_def Let_def stats_cm6 upd_conn6_def fun_eq_iff)
    (simp_all add: sfe_ipv6_connection_match_update_summary_stats_def upd_cm6_def)

lemma mark_read_shows6: "shows_same6 s (mark_read6 c s)"
  by (auto simp: shows_same6_def mark_read_cms6 mark_read_conns6 conn_shown6_def)

lemma mark_read_msg6: "msg_connection6 E (mark_read6 c s) c now = shown6 E s c now"
  by (simp add: msg_connection6_def shown6_def mark_read_cms6 mark_read_conns6 conn_shown6_def Let_def)

lemma mark_read_rest6 [simp]:
  "debug_read_seq6 (mark_read6 c s) = debug_read_seq6 s"
  "exception_events64_6 (mark_read6 c s) = exception_events64_6 s"
  "msg_stats6 (sfe_ipv6_update_summary_stats (mark_read6 c s)) = msg_stats6 (sfe_ipv6_update_summary_stats s)"
  by (simp_all add: mark_read6_def Let_def upd_conn6_def sfe_ipv6_connection_match_update_summary_stats_def
      upd_cm6_def sfe_ipv6_update_summary_stats_def msg_stats6_def)

section \<open>The reference sequence\<close>

text \<open>
  One entry for each call of a writer: the element it writes, or None when it writes nothing. \<open>n\<close> is the
  number of the call.
\<close>

fun conn_items6 :: "sfe_env \<Rightarrow> (nat \<Rightarrow> u64) \<Rightarrow> nat \<Rightarrow> sfe_ipv6 \<Rightarrow> conn_ptr list \<Rightarrow> string option list" where
  "conn_items6 E now n s [] = [None]"
| "conn_items6 E now n s (c # cs) = Some (shown6 E s c (now n)) # conn_items6 E now (Suc n) s cs"

definition exception_items6 :: "sfe_ipv6 \<Rightarrow> nat \<Rightarrow> string option list" where
  "exception_items6 s i = map (\<lambda>e. if exception_events64_6 s e \<noteq> 0
     then Some (msg_exception6 e (exception_events64_6 s e)) else None) (drop i all_events6)"

definition end_items6 :: "sfe_ipv6 \<Rightarrow> string option list" where
  "end_items6 s = [Some msg_exceptions_end, Some (msg_stats6 (sfe_ipv6_update_summary_stats s)), Some msg_end6]"

definition tail_items6 :: "sfe_ipv6 \<Rightarrow> nat \<Rightarrow> string option list" where
  "tail_items6 s i = Some msg_connections_end # Some msg_exceptions_start # exception_items6 s i @ end_items6 s"

definition unread6 :: "sfe_ipv6 \<Rightarrow> sfe_abs6 \<Rightarrow> conn_ptr list" where
  "unread6 s A = filter (\<lambda>c. c_debug_read_seq6 (conns6 s c) < debug_read_seq6 s) (connl6 A)"

definition items6 ::
  "sfe_env \<Rightarrow> (nat \<Rightarrow> u64) \<Rightarrow> nat \<Rightarrow> sfe_ipv4_debug_xml_write_state \<Rightarrow> sfe_ipv6 \<Rightarrow> sfe_abs6 \<Rightarrow> string option list" where
  "items6 E now n ws s A = (let i = iter_exception ws in
     case ws_state ws of
       XML_STATE_START \<Rightarrow> Some msg_start6 # Some msg_connections_start #
         conn_items6 E now (n + 2) s (unread6 (s\<lparr>debug_read_seq6 := debug_read_seq6 s + 1\<rparr>) A) @ tail_items6 s i
     | XML_STATE_CONNECTIONS_START \<Rightarrow>
         Some msg_connections_start # conn_items6 E now (n + 1) s (unread6 s A) @ tail_items6 s i
     | XML_STATE_CONNECTIONS_CONNECTION \<Rightarrow> conn_items6 E now n s (unread6 s A) @ tail_items6 s i
     | XML_STATE_CONNECTIONS_END \<Rightarrow> tail_items6 s i
     | XML_STATE_EXCEPTIONS_START \<Rightarrow> Some msg_exceptions_start # exception_items6 s i @ end_items6 s
     | XML_STATE_EXCEPTIONS_EXCEPTION \<Rightarrow> exception_items6 s i @ end_items6 s
     | XML_STATE_EXCEPTIONS_END \<Rightarrow> end_items6 s
     | XML_STATE_STATS \<Rightarrow> [Some (msg_stats6 (sfe_ipv6_update_summary_stats s)), Some msg_end6]
     | XML_STATE_END \<Rightarrow> [Some msg_end6]
     | XML_STATE_DONE \<Rightarrow> [])"

lemma conn_items_same6:
  assumes "shows_same6 s t"
  shows "conn_items6 E now n t cs = conn_items6 E now n s cs"
  by (induction cs arbitrary: n) (simp_all add: shows_same_shown6 [OF assms])

section \<open>One call of a writer\<close>

lemma unread_mark6:
  assumes "distinct (connl6 A)" and u: "unread6 s A = c # cs"
  shows "unread6 (mark_read6 c s) A = cs"
proof -
  have "unread6 (mark_read6 c s) A = filter (\<lambda>d. d \<noteq> c) (unread6 s A)"
    by (auto simp: unread6_def mark_read_conns6 intro: filter_cong)
  moreover have "distinct (c # cs)" using assms(1) by (simp add: unread6_def flip: u)
  ultimately show ?thesis by (auto simp: u intro: filter_True)
qed

definition step_ok6 where
  "step_ok6 E now n base A D i is x \<longleftrightarrow> (case x of (d, ws, s) \<Rightarrow> \<exists>ws1 s1.
     xml_write_method6 E True (now n) x = Some (after_item i d, ws1, s1) \<and>
     items6 E now (Suc n) ws1 s1 A = is \<and> engine_inv6 E base s1 A D \<and> iter_exception ws1 < 38 \<and>
     (\<forall>m. i = Some m \<longrightarrow> length m < 768))"

lemma exception_items_step6:
  assumes "i < 38"
  shows "exception_items6 s i = (let e = all_events6 ! i; ct = exception_events64_6 s e
     in (if ct \<noteq> 0 then Some (msg_exception6 e ct) else None)) # exception_items6 s (Suc i)"
proof -
  have "i < length all_events6" using assms length_all_events6 by (simp add: SFE_IPV6_EXCEPTION_EVENT_LAST_def)
  then have "drop i all_events6 = all_events6 ! i # drop (Suc i) all_events6" by (rule Cons_nth_drop_Suc [symmetric])
  then show ?thesis by (simp add: exception_items6_def Let_def)
qed

lemma exception_items_end6: "exception_items6 s 38 = []"
  using length_all_events6 by (simp add: exception_items6_def SFE_IPV6_EXCEPTION_EVENT_LAST_def)

lemma step_connection6:
  assumes I: "engine_inv6 E base s A D" and N: "names_ok E" and i: "iter_exception ws < 38"
    and w: "ws_state ws = XML_STATE_CONNECTIONS_CONNECTION" and "it": "items6 E now n ws s A = i # is"
  shows "step_ok6 E now n base A D i is (d, ws, s)"
proof -
  have T: "table_inv6 E s A D" and dist: "distinct (connl6 A)"
    using I by (auto simp: engine_inv6_def table_inv6_def)
  show ?thesis
  proof (cases "unread6 s A")
    case Nil
    then have "List.find (\<lambda>c. c_debug_read_seq6 (conns6 s c) < debug_read_seq6 s) (connl6 A) = None"
      by (simp add: find_filter unread6_def)
    then show ?thesis using "it" Nil w i I
      by (simp add: step_ok6_def xml_write_method6_def read_connection_conv6 [OF T] items6_def advance_def Let_def)
  next
    case (Cons c cs)
    then have f: "List.find (\<lambda>c. c_debug_read_seq6 (conns6 s c) < debug_read_seq6 s) (connl6 A) = Some c"
      by (simp add: find_filter unread6_def)
    have m: "msg_connection6 E (mark_read6 c s) c (now n) = shown6 E s c (now n)" by (rule mark_read_msg6)
    have l: "length (shown6 E s c (now n)) < 768" using msg_connection_fits6 [OF N] by (metis m)
    have ci: "conn_items6 E now (Suc n) (mark_read6 c s) cs = conn_items6 E now (Suc n) s cs"
      by (rule conn_items_same6 [OF mark_read_shows6])
    have ti: "tail_items6 (mark_read6 c s) k = tail_items6 s k" for k
      by (simp add: tail_items6_def end_items6_def exception_items6_def)
    show ?thesis using "it" Cons w i l f unread_mark6 [OF dist Cons] mark_engine6 [OF I, of c]
      by (auto simp: step_ok6_def xml_write_method6_def read_connection_conv6 [OF T] m emit_after items6_def ci ti)
  qed
qed

lemma step_items6:
  assumes I: "engine_inv6 E base s A D" and N: "names_ok E" and i: "iter_exception ws < 38"
    and w: "ws_state ws \<noteq> XML_STATE_DONE"
  obtains j "is" where "items6 E now n ws s A = j # is" and "step_ok6 E now n base A D j is (d, ws, s)"
proof -
  have start: "engine_inv6 E base (s\<lparr>debug_read_seq6 := v\<rparr>) A D" for v
    by (rule same_table_engine6 [OF I same_table_seq6]) simp
  have stats: "engine_inv6 E base (sfe_ipv6_update_summary_stats s) A D"
    by (rule same_table_engine6 [OF I same_table_summary6]) (simp add: sfe_ipv6_update_summary_stats_def)
  have shw: "shows_same6 s (s\<lparr>debug_read_seq6 := v\<rparr>)" for v by (simp add: shows_same6_def)
  note defs = step_ok6_def xml_write_method6_def items6_def Let_def advance_def write_fixed_def emit_after
  have "\<exists>j is. items6 E now n ws s A = j # is \<and> step_ok6 E now n base A D j is (d, ws, s)"
  proof (cases "ws_state ws")
    case XML_STATE_START
    then show ?thesis using i start fixed_fits6 conn_items_same6 [OF shw]
      by (simp add: defs sfe_ipv6_debug_dev_read_start_def tail_items6_def end_items6_def exception_items6_def
          msg_stats6_def sfe_ipv6_update_summary_stats_def)
  next
    case XML_STATE_CONNECTIONS_START
    then show ?thesis using i I fixed_fits6 by (simp add: defs sfe_ipv6_debug_dev_read_connections_start_def)
  next
    case XML_STATE_CONNECTIONS_CONNECTION
    then have "\<exists>j is. items6 E now n ws s A = j # is"
      by (cases "unread6 s A") (simp_all add: items6_def Let_def)
    then show ?thesis using step_connection6 [OF I N i XML_STATE_CONNECTIONS_CONNECTION] by blast
  next
    case XML_STATE_CONNECTIONS_END
    then show ?thesis using i I fixed_fits6
      by (simp add: defs sfe_ipv6_debug_dev_read_connections_end_def tail_items6_def)
  next
    case XML_STATE_EXCEPTIONS_START
    then show ?thesis using i I fixed_fits6 by (simp add: defs sfe_ipv6_debug_dev_read_exceptions_start_def)
  next
    case XML_STATE_EXCEPTIONS_EXCEPTION
    let ?e = "all_events6 ! iter_exception ws"
    have k: "exception_items6 s (Suc (iter_exception ws)) = []" if "37 \<le> iter_exception ws"
    proof -
      have "Suc (iter_exception ws) = 38" using i that by simp
      then show ?thesis using exception_items_end6 by simp
    qed
    show ?thesis
      using XML_STATE_EXCEPTIONS_EXCEPTION i I msg_exception_fits6 k
      by (simp add: defs sfe_ipv6_debug_dev_read_exceptions_exception_def exception_items_step6 [OF i]
          next_exception6_def SFE_IPV6_EXCEPTION_EVENT_LAST_def)
  next
    case XML_STATE_EXCEPTIONS_END
    then show ?thesis using i I fixed_fits6
      by (simp add: defs sfe_ipv6_debug_dev_read_exceptions_end_def end_items6_def)
  next
    case XML_STATE_STATS
    then show ?thesis using i stats msg_stats_fits6 by (simp add: defs sfe_ipv6_debug_dev_read_stats_def)
  next
    case XML_STATE_END
    then show ?thesis using i I fixed_fits6 by (simp add: defs sfe_ipv6_debug_dev_read_end_def)
  qed (use w in simp)
  then show thesis using that by blast
qed

section \<open>A whole read\<close>

lemma items_nonempty6:
  assumes "ws_state ws = XML_STATE_DONE"
  shows "items6 E now n ws s A = []"
  using assms by (simp add: items6_def Let_def)

theorem read_loop_items6:
  assumes "engine_inv6 E base s A D" and N: "names_ok E" and "iter_exception ws < 38" and "tidy d"
    and "items6 E now n ws s A = is"
  shows "\<exists>d' ws' t. debug_dev_read_loop6 E (\<lambda>_. True) now n (d, ws, s) = Some (d', ws', t) \<and>
    engine_inv6 E base t A D \<and> tidy d' \<and>
    user_buf d' = user_buf d @ fitting (unat (rd_length d)) is \<and>
    (768 + length (item_text is) < unat (rd_length d) \<longrightarrow> ws_state ws' = XML_STATE_DONE)"
  using assms(1,3-5)
proof (induction "is" arbitrary: n d ws s)
  case Nil
  have "ws_state ws = XML_STATE_DONE"
  proof (rule ccontr)
    assume "ws_state ws \<noteq> XML_STATE_DONE"
    from step_items6 [OF Nil(1) N Nil(2) this, of now n d] Nil(4) show False by simp
  qed
  then show ?case using Nil by (simp add: debug_dev_read_loop6.simps wants_more_def)
next
  case (Cons i xs)
  have more: "768 < rd_length d \<longleftrightarrow> 768 < unat (rd_length d)" by (simp add: word_less_nat_alt)
  show ?case
  proof (cases "768 < rd_length d")
    case False
    then show ?thesis using Cons.prems more
      by (simp add: debug_dev_read_loop6.simps wants_more_def CHAR_DEV_MSG_SIZE_def)
  next
    case True
    have w: "ws_state ws \<noteq> XML_STATE_DONE"
      using Cons.prems(4) items_nonempty6 [of ws E now n s A] by auto
    from step_items6 [OF Cons.prems(1) N Cons.prems(2) w, of now n d] Cons.prems(4)
    have "step_ok6 E now n base A D i xs (d, ws, s)" by auto
    then obtain ws1 s1 where m: "xml_write_method6 E True (now n) (d, ws, s) = Some (after_item i d, ws1, s1)"
      and ih: "items6 E now (Suc n) ws1 s1 A = xs" "engine_inv6 E base s1 A D" "iter_exception ws1 < 38"
      and l: "\<And>m. i = Some m \<Longrightarrow> length m < 768"
      by (auto simp: step_ok6_def)
    obtain d' ws' t where r: "debug_dev_read_loop6 E (\<lambda>_. True) now (Suc n) (after_item i d, ws1, s1) = Some (d', ws', t)"
      and q: "engine_inv6 E base t A D" "tidy d'"
        "user_buf d' = user_buf (after_item i d) @ fitting (unat (rd_length (after_item i d))) xs"
        "768 + length (item_text xs) < unat (rd_length (after_item i d)) \<longrightarrow> ws_state ws' = XML_STATE_DONE"
      using Cons.IH [OF ih(2,3) after_item_tidy [OF Cons.prems(3)] ih(1)] by blast
    have "debug_dev_read_loop6 E (\<lambda>_. True) now n (d, ws, s) = Some (d', ws', t)"
      using True w r m
      by (subst debug_dev_read_loop6.simps) (simp add: wants_more_def CHAR_DEV_MSG_SIZE_def)
    moreover have "user_buf (after_item i d) = user_buf d @ (case i of None \<Rightarrow> [] | Some m \<Rightarrow> m)"
      using Cons.prems(3) by (cases i) (simp_all add: after_item_def tidy_def)
    then have "user_buf d' = user_buf d @ fitting (unat (rd_length d)) (i # xs)"
      using q(3) True more after_item_length [OF True, of i] l by (cases i) auto
    moreover have "768 + length (item_text (i # xs)) < unat (rd_length d) \<longrightarrow> ws_state ws' = XML_STATE_DONE"
      using q(4) after_item_length [OF True l] by (auto simp: item_text_def)
    ultimately show ?thesis using q(1,2) by blast
  qed
qed

section \<open>Copies stay in the user's buffer\<close>

text \<open>Every writer, whether its copy succeeds or not, produces nothing or one element that fits.\<close>

lemma writer_dump6:
  assumes I: "engine_inv6 E base s A D" and N: "names_ok E"
    and r: "xml_write_method6 E ok now (d, ws, s) = Some (d1, ws1, s1)"
  shows "(\<exists>i. d1 = after_item i d \<and> (\<forall>m. i = Some m \<longrightarrow> length m < 768)) \<and> engine_inv6 E base s1 A D"
proof -
  have T: "table_inv6 E s A D" using I by (simp add: engine_inv6_def)
  have start: "engine_inv6 E base (s\<lparr>debug_read_seq6 := v\<rparr>) A D" for v
    by (rule same_table_engine6 [OF I same_table_seq6]) simp
  have stats: "engine_inv6 E base (sfe_ipv6_update_summary_stats s) A D"
    by (rule same_table_engine6 [OF I same_table_summary6]) (simp add: sfe_ipv6_update_summary_stats_def)
  have e: "\<exists>i. d1 = after_item i d \<and> (\<forall>m. i = Some m \<longrightarrow> length m < 768)"
    if "length msg < 768" "emit ok msg d = Some d1 \<or> d1 = d" for msg
  proof (cases "d1 = d")
    case True
    then show ?thesis by (intro exI [of _ None]) simp
  next
    case False
    with that show ?thesis
      by (intro exI [of _ "Some msg"]) (auto simp: emit_def after_item_def split: if_splits)
  qed
  have fixed: "(\<exists>i. d1 = after_item i d \<and> (\<forall>m. i = Some m \<longrightarrow> length m < 768)) \<and> s1 = s'"
    if "write_fixed msg ok (d, ws, s') = (d1, ws1, s1)" "length msg < 768" for msg s'
    using that e [OF that(2)] by (auto simp: write_fixed_def split: option.splits)
  note defs = xml_write_method6_def sfe_ipv6_debug_dev_read_start_def sfe_ipv6_debug_dev_read_connections_start_def
    sfe_ipv6_debug_dev_read_connections_end_def sfe_ipv6_debug_dev_read_exceptions_start_def
    sfe_ipv6_debug_dev_read_exceptions_end_def sfe_ipv6_debug_dev_read_stats_def sfe_ipv6_debug_dev_read_end_def
  show ?thesis
  proof (cases "ws_state ws = XML_STATE_CONNECTIONS_CONNECTION \<or> ws_state ws = XML_STATE_EXCEPTIONS_EXCEPTION")
    case False
    then obtain msg s' where "write_fixed msg ok (d, ws, s') = (d1, ws1, s1)" "length msg < 768"
      and "engine_inv6 E base s' A D"
      using r fixed_fits6 msg_stats_fits6 I start stats by (cases "ws_state ws") (auto simp: defs Let_def)
    with fixed show ?thesis by blast
  next
    case True
    then show ?thesis
    proof
      assume w: "ws_state ws = XML_STATE_CONNECTIONS_CONNECTION"
      show ?thesis
      proof (cases "List.find (\<lambda>c. c_debug_read_seq6 (conns6 s c) < debug_read_seq6 s) (connl6 A)")
        case None
        with r w I show ?thesis
          by (auto simp: xml_write_method6_def read_connection_conv6 [OF T] intro: exI [of _ None])
      next
        case (Some c)
        have "emit ok (msg_connection6 E (mark_read6 c s) c now) d = Some d1 \<or> d1 = d" "s1 = mark_read6 c s"
          using r w Some by (auto simp: xml_write_method6_def read_connection_conv6 [OF T] split: option.splits)
        with e [OF msg_connection_fits6 [OF N]] mark_engine6 [OF I] show ?thesis by blast
      qed
    next
      assume "ws_state ws = XML_STATE_EXCEPTIONS_EXCEPTION"
      then have "s1 = s" and "d1 = d \<or> (\<exists>e ct. emit ok (msg_exception6 e ct) d = Some d1)"
        using r by (auto simp: xml_write_method6_def sfe_ipv6_debug_dev_read_exceptions_exception_def Let_def
            split: if_splits option.splits)
      with e [OF msg_exception_fits6] I show ?thesis by (auto intro: exI [of _ None])
    qed
  qed
qed

lemma read_loop_induct6 [consumes 1, case_names step]:
  assumes "debug_dev_read_loop6 E oks now n x = Some r"
    and "\<And>loop E oks now n x r. (\<And>E oks now n x r. loop E oks now n x = Some r \<Longrightarrow> P E oks now n x r) \<Longrightarrow>
      (if wants_more x then do {
         y \<leftarrow> xml_write_method6 E (oks n) (now n) x;
         loop E oks now (Suc n) y
       }
       else Some x) = Some r \<Longrightarrow> P E oks now n x r"
  shows "P E oks now n x r"
  by (rule debug_dev_read_loop6.raw_induct [of P "((((E, oks), now), n), x)" r, unfolded prod.case,
      OF assms(2) assms(1)])

lemma read_loop_bounds6:
  assumes "debug_dev_read_loop6 E oks now n x = Some r" and "x = (d, ws, s)"
    and "engine_inv6 E base s A D" and "names_ok E" and "in_buffer len d"
  shows "in_buffer len (fst r) \<and> engine_inv6 E base (snd (snd r)) A D"
proof -
  have "\<forall>d ws s. x = (d, ws, s) \<longrightarrow> engine_inv6 E base s A D \<longrightarrow> names_ok E \<longrightarrow> in_buffer len d \<longrightarrow>
      in_buffer len (fst r) \<and> engine_inv6 E base (snd (snd r)) A D"
    using assms(1)
  proof (induction rule: read_loop_induct6)
    case (step loop E oks now n x r)
    show ?case
    proof (intro allI impI)
      fix d ws s
      assume x: "x = (d, ws, s)" and I: "engine_inv6 E base s A D" and N: "names_ok E" and b: "in_buffer len d"
      show "in_buffer len (fst r) \<and> engine_inv6 E base (snd (snd r)) A D"
      proof (cases "wants_more x")
        case True
        then have l: "768 < rd_length d" by (simp add: wants_more_def x CHAR_DEV_MSG_SIZE_def)
        obtain d1 ws1 s1 where m: "xml_write_method6 E (oks n) (now n) (d, ws, s) = Some (d1, ws1, s1)"
          and rec: "loop E oks now (Suc n) (d1, ws1, s1) = Some r"
          using step(2) True by (auto simp: x bind_eq_Some_conv)
        from writer_dump6 [OF I N m] obtain i where "d1 = after_item i d" "\<And>m. i = Some m \<Longrightarrow> length m < 768"
          and J: "engine_inv6 E base s1 A D" by blast
        then have "in_buffer len d1" using after_item_buffer [OF b l] by simp
        with step(1) [OF rec] J N show ?thesis by blast
      next
        case False
        then show ?thesis using step(2) b I by (auto simp: x)
      qed
    qed
  qed
  with assms(2-5) show ?thesis by blast
qed

section \<open>A copy that keeps failing\<close>

text \<open>
  The loop ignores the result of a writer: when the first element cannot be copied the read does not
  end, it repeats that element for ever.
\<close>

lemma read_loop_stuck6:
  assumes "\<And>n. \<not> oks n" and "ws_state ws = XML_STATE_START" and "768 < rd_length d"
  shows "debug_dev_read_loop6 E oks now n (d, ws, s) = None"
proof (rule ccontr)
  assume "debug_dev_read_loop6 E oks now n (d, ws, s) \<noteq> None"
  then obtain r where "debug_dev_read_loop6 E oks now n (d, ws, s) = Some r" by blast
  then have "(\<forall>n. \<not> oks n) \<longrightarrow> (\<forall>d' ws' s'. (d, ws, s) = (d', ws', s') \<longrightarrow>
      ws_state ws' = XML_STATE_START \<longrightarrow> rd_length d' \<le> 768)"
  proof (induction rule: read_loop_induct6)
    case (step loop E oks now n x r)
    show ?case
    proof (intro allI impI)
      fix d ws s
      assume no: "\<forall>n. \<not> oks n" and x: "x = (d, ws, s)" and w: "ws_state ws = XML_STATE_START"
      show "rd_length d \<le> 768"
      proof (rule ccontr)
        assume "\<not> rd_length d \<le> 768"
        then have "loop E oks now (Suc n) (d, ws, s\<lparr>debug_read_seq6 := debug_read_seq6 s + 1\<rparr>) = Some r"
          using step(2) no w
          by (simp add: x wants_more_def CHAR_DEV_MSG_SIZE_def xml_write_method6_def
              sfe_ipv6_debug_dev_read_start_def write_fixed_def emit_def not_le)
        from step(1) [OF this] no w \<open>\<not> rd_length d \<le> 768\<close> show False by simp
      qed
    qed
  qed
  then show False using assms by (simp add: not_le [symmetric])
qed

end
