(* ===== verification/Sfe6_Init.thy ===== *)
theory Sfe6_Init
  imports Sfe6_Rule_Ops Sfe_Init
begin

text \<open>
  Start and end of the module (sfe_ipv6.c, \<open>sfe_ipv6_init\<close> and \<open>sfe_ipv6_exit\<close>). The engine lives in
  static memory, which is zero before the module starts; the rest of kernel memory is arbitrary. The
  results of the kernel's registration functions are arguments, what is registered is a set.
\<close>

section \<open>The zeroed engine\<close>

definition engine_start6 :: "sfe_ipv6 \<Rightarrow> sfe_ipv6" where
  "engine_start6 mem = mem\<lparr>cm_live6 := {}, conn_live6 := {},
     active_head6 := None, active_tail6 := None, all_connections_head6 := None,
     all_connections_tail6 := None, num_connections6 := 0, sync_rule_callback6 := None,
     conn_hash6 := (\<lambda>_. None), conn_match_hash6 := (\<lambda>_. None),
     connection_create_requests6 := 0, connection_create_collisions6 := 0,
     connection_destroy_requests6 := 0, connection_destroy_misses6 := 0,
     connection_match_hash_hits6 := 0, connection_match_hash_reorders6 := 0,
     connection_flushes6 := 0, packets_forwarded6 := 0, packets_not_forwarded6 := 0,
     exception_events6 := (\<lambda>_. 0),
     connection_create_requests64_6 := 0, connection_create_collisions64_6 := 0,
     connection_destroy_requests64_6 := 0, connection_destroy_misses64_6 := 0,
     connection_match_hash_hits64_6 := 0, connection_match_hash_reorders64_6 := 0,
     connection_flushes64_6 := 0, packets_forwarded64_6 := 0, packets_not_forwarded64_6 := 0,
     exception_events64_6 := (\<lambda>_. 0), debug_read_seq6 := 0, sync_calls6 := []\<rparr>"

definition abs_start6 :: sfe_abs6 where
  "abs_start6 = \<lparr>mchains6 = (\<lambda>_. []), cchains6 = (\<lambda>_. []), actives6 = [], connl6 = []\<rparr>"

lemma engine_start_inv6: "engine_inv6 E (dev_refcnt6 mem) (engine_start6 mem) abs_start6 []"
  by (simp add: engine_inv6_def table_inv6_def lists_rep6_def mch6.repr_def cch6.repr_def act6.trepr_def
      alls6.trepr_def refs_inv6_def engine_start6_def abs_start6_def)

section \<open>Registration\<close>

text \<open>
  \<open>sfe_ipv6_init\<close>: \<open>dir_ok\<close>, \<open>file_result\<close> and \<open>chrdev_result\<close> are what the kernel returns. The result
  is the return code, the major number of the debug device and what stays registered.
\<close>

definition sfe_ipv6_init :: "bool \<Rightarrow> int \<Rightarrow> int \<Rightarrow> int \<times> int \<times> resource set" where
  "sfe_ipv6_init dir_ok file_result chrdev_result =
     (let result = -1; held = {}
      in if \<not> dir_ok then (result, 0, held)
         else
           (let held = insert SysDir held; result = file_result
            in if result \<noteq> 0 then (result, 0, held - {SysDir})
               else
                 (let held = insert DebugDevFile held; result = chrdev_result
                  in if result < 0 then (result, 0, held - {DebugDevFile} - {SysDir})
                     else (0, result, insert Timer (insert CharDev held)))))"

definition sfe_ipv6_exit ::
  "sfe_env \<Rightarrow> sfe_connection_sync \<Rightarrow> (nat \<Rightarrow> u64) \<Rightarrow> resource set \<Rightarrow> sfe_ipv6 \<Rightarrow> (resource set \<times> sfe_ipv6) option" where
  "sfe_ipv6_exit E sis now held s = do {
     s \<leftarrow> sfe_ipv6_destroy_all_rules_for_dev E None sis now 0 s;
     Some (held - {Timer} - {CharDev} - {DebugDevFile} - {SysDir}, s)
   }"

lemma sfe_ipv6_init_held:
  "snd (snd (sfe_ipv6_init d f c)) =
     (if fst (sfe_ipv6_init d f c) = 0 then {SysDir, DebugDevFile, CharDev, Timer} else {})"
  by (auto simp: sfe_ipv6_init_def Let_def)

section \<open>Nothing is left at the end\<close>

lemma exit_clean6:
  assumes "engine_inv6 E base s A []"
  obtains s' where "sfe_ipv6_exit E sis now held s = Some ({}, s')" and "dev_refcnt6 s' = base"
    and "conn_live6 s' = {}" and "cm_live6 s' = {}" and "num_connections6 s' = 0"
proof -
  obtain s' A' where d: "sfe_ipv6_destroy_all_rules_for_dev E None sis now 0 s = Some s'"
    and I: "engine_inv6 E base s' A' []" and "connl6 A' = []"
    using destroy_all_rules6 [OF assms, of None sis now 0] by (auto simp: uses_dev6_def)
  then have "dev_refcnt6 s' = base" "conn_live6 s' = {}" "cm_live6 s' = {}" "num_connections6 s' = 0"
    by (auto simp: engine_inv6_def refs_inv6_def table_inv6_def fun_eq_iff)
  moreover have "held - {Timer} - {CharDev} - {DebugDevFile} - {SysDir} = {}"
    using resource_UNIV by blast
  ultimately show thesis using d by (intro that) (simp_all add: sfe_ipv6_exit_def)
qed

end
