(* ===== verification/Sfe6_Tcp.thy ===== *)
theory Sfe6_Tcp
  imports Sfe6_Table Sfe_Tcp
begin

text \<open>
  TCP (sfe_ipv6.c): the parser of the SACK option and the sequence number checks of
  \<open>sfe_ipv6_recv_tcp\<close> with the update of the tracked windows. \<open>th\<close> is the offset of the TCP header
  in the packet. A read outside the linear area of the packet is None.
\<close>

section \<open>Options\<close>

definition SIZEOF_IPV6_HDR :: u32 where "SIZEOF_IPV6_HDR = 40"

text \<open>
  The parser of the options is the same code in both engines; the loops \<open>sack_blocks\<close> and \<open>sack_options\<close> and
  the test \<open>only_timestamp\<close> are those of \<open>Sfe_Tcp\<close>.
\<close>

definition sfe_ipv6_process_tcp_option_sack ::
  "sk_buff \<Rightarrow> nat \<Rightarrow> u32 \<Rightarrow> u32 \<Rightarrow> (bool \<times> u32) option" where
  "sfe_ipv6_process_tcp_option_sack skb th data_offs ack = do {
     ts \<leftarrow> only_timestamp skb (th + unat SIZEOF_TCP_HDR) data_offs;
     (if ts then Some (True, ack) else sack_options skb th data_offs SIZEOF_TCP_HDR ack)
   }"

section \<open>Sequence numbers\<close>

definition SFE_IPV6_TCP_MAX_ACK_WINDOW :: u32 where "SFE_IPV6_TCP_MAX_ACK_WINDOW = 65520"

text \<open>The comparisons of a segment with the edges of the windows; None means it lies inside.\<close>

definition tcp_edges6 ::
  "sfe_ipv4_tcp_connection_match \<Rightarrow> sfe_ipv4_tcp_connection_match \<Rightarrow> u32 \<Rightarrow> u32 \<Rightarrow>
   sfe_ipv6_exception_events option" where
  "tcp_edges6 own counter end_seq sack =
     (if sint (end_seq - (tcp_end own - max_win counter - 1)) < 0 then Some V6_TCP_SEQ_BEFORE_LEFT_EDGE
      else if 0 < sint (sack - (tcp_end counter + 1)) then Some V6_TCP_ACK_EXCEEDS_RIGHT_EDGE
      else if sint (sack - (tcp_end counter - max_win own - SFE_IPV6_TCP_MAX_ACK_WINDOW - 1)) < 0
      then Some V6_TCP_ACK_BEFORE_LEFT_EDGE
      else None)"

definition tcp_seq_check6 ::
  "sfe_env \<Rightarrow> sk_buff \<Rightarrow> nat \<Rightarrow> u32 \<Rightarrow> sfe_ipv4_tcp_connection_match \<Rightarrow> sfe_ipv4_tcp_connection_match \<Rightarrow>
   (sfe_ipv6_exception_events + tcp_update) option" where
  "tcp_seq_check6 E skb th len own counter = do {
     raw_seq \<leftarrow> rd32 E skb (th + 4);
     let seq = ntohl E raw_seq;
     if 0 < sint (seq - (max_end own + 1)) then Some (Inl V6_TCP_SEQ_EXCEEDS_RIGHT_EDGE)
     else do {
       doff \<leftarrow> rd8 skb (th + 12);
       let data_offs = push_bit 2 (ucast (drop_bit 4 doff));
       if data_offs < SIZEOF_TCP_HDR then Some (Inl V6_TCP_SMALL_DATA_OFFS)
       else do {
         raw_ack \<leftarrow> rd32 E skb (th + 8);
         let ack = ntohl E raw_ack;
         (valid, sack) \<leftarrow> sfe_ipv6_process_tcp_option_sack skb th data_offs ack;
         if \<not> valid then Some (Inl V6_TCP_BAD_SACK)
         else if len < data_offs + SIZEOF_IPV6_HDR then Some (Inl V6_TCP_BIG_DATA_OFFS)
         else do {
           let end_seq = seq + len - (data_offs + SIZEOF_IPV6_HDR);
           case tcp_edges6 own counter end_seq sack of
             Some e \<Rightarrow> Some (Inl e)
           | None \<Rightarrow> do {
               raw_window \<leftarrow> rd16 E skb (th + 14);
               Some (Inr (tcp_advance own counter end_seq sack ack (ntohs E raw_window)))
             }
         }
       }
     }
   }"

end
