(* ===== verification/Sfe6_Recv.thy ===== *)
theory Sfe6_Recv
  imports Sfe6_Sync Sfe6_Csum Sfe6_Tcp Sfe_Recv
begin

text \<open>
  The packet path (sfe_ipv6.c, \<open>sfe_ipv6_recv\<close> and the UDP, TCP and ICMP handlers). A handler gets the
  packet and the state of the engine and returns what becomes of the packet, the connection it took
  out of the tables and still has to release, and the new state. \<open>sfe_ipv6_recv\<close> performs the
  release, which the code does after dropping the lock. The IPv6 header starts at offset 0 of the
  packet. A read or write outside the linear area of the packet, an endless walk or a NULL pointer
  is None.
\<close>

section \<open>Outcomes\<close>

type_synonym recv_result6 = "recv_outcome \<times> conn_ptr option \<times> sfe_ipv6"

definition reject6 :: "sfe_ipv6_exception_events \<Rightarrow> sk_buff \<Rightarrow> sfe_ipv6 \<Rightarrow> recv_result6" where
  "reject6 e skb s = (NotForwarded skb, None, count_exception6 e s)"

definition reject_flush6 :: "sfe_env \<Rightarrow> cm_ptr \<Rightarrow> sfe_ipv6_exception_events \<Rightarrow> sk_buff \<Rightarrow> sfe_ipv6 \<Rightarrow> recv_result6" where
  "reject_flush6 E cm e skb s =
     (let c = cm_connection6 (cms6 s cm);
          s1 = sfe_ipv6_remove_connection E c s
      in (NotForwarded skb, Some c, count_exception6 e s1))"

text \<open>Flows that may only be accelerated in the other direction.\<close>

definition not_accelerated6 :: "sfe_env \<Rightarrow> sfe_ipv6_connection_match \<Rightarrow> bool" where
  "not_accelerated6 E m \<longleftrightarrow> config_xfrm E \<and> flow_accel6 m = 0"

definition pass_slow6 :: "sk_buff \<Rightarrow> sfe_ipv6 \<Rightarrow> recv_result6" where
  "pass_slow6 skb s = (NotForwarded skb, None, s\<lparr>packets_not_forwarded6 := packets_not_forwarded6 s + 1\<rparr>)"

section \<open>Rewriting the packet\<close>

text \<open>The 16 bytes of an address in the packet, as four words.\<close>

definition rd_addr :: "sfe_env \<Rightarrow> sk_buff \<Rightarrow> nat \<Rightarrow> sfe_ipv6_addr option" where
  "rd_addr E skb i = do {
     a0 \<leftarrow> rd32 E skb i;
     a1 \<leftarrow> rd32 E skb (i + 4);
     a2 \<leftarrow> rd32 E skb (i + 8);
     a3 \<leftarrow> rd32 E skb (i + 12);
     Some \<lparr>addr0 = a0, addr1 = a1, addr2 = a2, addr3 = a3\<rparr>
   }"

definition wr_addr :: "sfe_env \<Rightarrow> sk_buff \<Rightarrow> nat \<Rightarrow> sfe_ipv6_addr \<Rightarrow> sk_buff option" where
  "wr_addr E skb i a = do {
     skb \<leftarrow> wr32 E skb i (addr0 a);
     skb \<leftarrow> wr32 E skb (i + 4) (addr1 a);
     skb \<leftarrow> wr32 E skb (i + 8) (addr2 a);
     wr32 E skb (i + 12) (addr3 a)
   }"

definition SFE_IPV6_DSCP_MASK :: u16 where "SFE_IPV6_DSCP_MASK = 0xf03f"

text \<open>\<open>htons\<close> is \<open>ntohs\<close>; the traffic class lies in bits 4 to 11 of the first 16 bits.\<close>

definition sfe_ipv6_change_dsfield :: "sfe_env \<Rightarrow> sk_buff \<Rightarrow> u8 \<Rightarrow> sk_buff option" where
  "sfe_ipv6_change_dsfield E skb dscp = do {
     p \<leftarrow> rd16 E skb 0;
     wr16 E skb 0 ((p AND ntohs E SFE_IPV6_DSCP_MASK) OR ntohs E (push_bit 4 (ucast dscp)))
   }"

definition remark_dscp6 :: "sfe_env \<Rightarrow> sfe_ipv6_connection_match \<Rightarrow> sk_buff \<Rightarrow> sk_buff option" where
  "remark_dscp6 E m skb =
     (if has_flag (cm_flags6 m) FLAG_DSCP_REMARK
      then sfe_ipv6_change_dsfield E skb (ucast (cm_dscp6 m)) else Some skb)"

definition udp_xlate_src6 :: "sfe_env \<Rightarrow> sfe_ipv6_connection_match \<Rightarrow> nat \<Rightarrow> sk_buff \<Rightarrow> sk_buff option" where
  "udp_xlate_src6 E m th skb =
     (if has_flag (cm_flags6 m) FLAG_XLATE_SRC then do {
        skb \<leftarrow> wr_addr E skb 8 (xlate_src_ip6 m);
        skb \<leftarrow> wr16 E skb th (xlate_src_port6 m);
        udp_csum \<leftarrow> rd16 E skb (th + 6);
        (if udp_csum \<noteq> 0
         then wr16 E skb (th + 6) (apply_adjustment udp_csum (xlate_src_csum_adjustment6 m))
         else Some skb)
      }
      else Some skb)"

definition udp_xlate_dest6 :: "sfe_env \<Rightarrow> sfe_ipv6_connection_match \<Rightarrow> nat \<Rightarrow> sk_buff \<Rightarrow> sk_buff option" where
  "udp_xlate_dest6 E m th skb =
     (if has_flag (cm_flags6 m) FLAG_XLATE_DEST then do {
        skb \<leftarrow> wr_addr E skb 24 (xlate_dest_ip6 m);
        skb \<leftarrow> wr16 E skb (th + 2) (xlate_dest_port6 m);
        udp_csum \<leftarrow> rd16 E skb (th + 6);
        (if udp_csum \<noteq> 0
         then wr16 E skb (th + 6) (apply_adjustment udp_csum (xlate_dest_csum_adjustment6 m))
         else Some skb)
      }
      else Some skb)"

definition tcp_xlate_src6 :: "sfe_env \<Rightarrow> sfe_ipv6_connection_match \<Rightarrow> nat \<Rightarrow> sk_buff \<Rightarrow> sk_buff option" where
  "tcp_xlate_src6 E m th skb =
     (if has_flag (cm_flags6 m) FLAG_XLATE_SRC then do {
        skb \<leftarrow> wr_addr E skb 8 (xlate_src_ip6 m);
        skb \<leftarrow> wr16 E skb th (xlate_src_port6 m);
        tcp_csum \<leftarrow> rd16 E skb (th + 16);
        wr16 E skb (th + 16) (apply_adjustment tcp_csum (xlate_src_csum_adjustment6 m))
      }
      else Some skb)"

definition tcp_xlate_dest6 :: "sfe_env \<Rightarrow> sfe_ipv6_connection_match \<Rightarrow> nat \<Rightarrow> sk_buff \<Rightarrow> sk_buff option" where
  "tcp_xlate_dest6 E m th skb =
     (if has_flag (cm_flags6 m) FLAG_XLATE_DEST then do {
        skb \<leftarrow> wr_addr E skb 24 (xlate_dest_ip6 m);
        skb \<leftarrow> wr16 E skb (th + 2) (xlate_dest_port6 m);
        tcp_csum \<leftarrow> rd16 E skb (th + 16);
        wr16 E skb (th + 16) (apply_adjustment tcp_csum (xlate_dest_csum_adjustment6 m))
      }
      else Some skb)"

text \<open>DSCP, hop limit, addresses, ports and transport checksum, in the order of the code.\<close>

definition udp_rewrite6 :: "sfe_env \<Rightarrow> sfe_ipv6_connection_match \<Rightarrow> nat \<Rightarrow> sk_buff \<Rightarrow> sk_buff option" where
  "udp_rewrite6 E m th skb = do {
     skb \<leftarrow> remark_dscp6 E m skb;
     hop_limit \<leftarrow> rd8 skb 7;
     skb \<leftarrow> wr8 skb 7 (hop_limit - 1);
     skb \<leftarrow> udp_xlate_src6 E m th skb;
     udp_xlate_dest6 E m th skb
   }"

definition tcp_rewrite6 :: "sfe_env \<Rightarrow> sfe_ipv6_connection_match \<Rightarrow> nat \<Rightarrow> sk_buff \<Rightarrow> sk_buff option" where
  "tcp_rewrite6 E m th skb = do {
     skb \<leftarrow> remark_dscp6 E m skb;
     hop_limit \<leftarrow> rd8 skb 7;
     skb \<leftarrow> wr8 skb 7 (hop_limit - 1);
     skb \<leftarrow> tcp_xlate_src6 E m th skb;
     tcp_xlate_dest6 E m th skb
   }"

section \<open>Counting and sending\<close>

definition activate6 :: "cm_ptr \<Rightarrow> sfe_ipv6 \<Rightarrow> sfe_ipv6" where
  "activate6 cm s =
     (if match_active6 s cm then s
      else
        (let s1 = s\<lparr>match_active6 := (match_active6 s)(cm := True)\<rparr>;
             s2 = set_active_prev6 cm (active_tail6 s1) s1;
             s3 = (case active_tail6 s2 of
                     Some t \<Rightarrow> set_active_next6 t (Some cm) s2
                   | None \<Rightarrow> set_active_head6 (Some cm) s2)
         in set_active_tail6 (Some cm) s3))"

definition count_packet6 :: "cm_ptr \<Rightarrow> u32 \<Rightarrow> sfe_ipv6 \<Rightarrow> sfe_ipv6" where
  "count_packet6 cm len s = upd_cm6 cm (\<lambda>m. m\<lparr>rx_packet_count6 := rx_packet_count6 m + 1,
     rx_byte_count6 := rx_byte_count6 m + len\<rparr>) s"

text \<open>\<open>__skb_push\<close> of an Ethernet header with the type of IPv6.\<close>

definition push_eth6 :: "mac \<Rightarrow> mac \<Rightarrow> sk_buff \<Rightarrow> sk_buff" where
  "push_eth6 dest src skb = skb\<lparr>
     skb_len := skb_len skb + of_nat ETH_HLEN, skb_headlen := skb_headlen skb + of_nat ETH_HLEN,
     skb_bytes := (\<lambda>i. if i < 6 then dest i else if i < 12 then src (i - 6)
        else if i = 12 then 0x86 else if i = 13 then 0xdd else skb_bytes skb (i - ETH_HLEN))\<rparr>"

text \<open>Device, link layer header, priority and mark of the outgoing packet.\<close>

definition write_l2_header6 :: "kernel \<Rightarrow> sfe_ipv6_connection_match \<Rightarrow> u32 \<Rightarrow> sk_buff \<Rightarrow> sk_buff" where
  "write_l2_header6 K m len skb =
     (if has_flag (cm_flags6 m) FLAG_WRITE_L2_HDR
      then if \<not> has_flag (cm_flags6 m) FLAG_WRITE_FAST_ETH_HDR
           then dev_hard_header K skb (xmit_dev6 m) ETH_P_IPV6 (xmit_dest_mac6 m) (xmit_src_mac6 m) len
           else push_eth6 (xmit_dest_mac6 m) (xmit_src_mac6 m) skb
      else skb)"

definition address_packet6 ::
  "kernel \<Rightarrow> sfe_ipv6_connection_match \<Rightarrow> u32 \<Rightarrow> u32 \<Rightarrow> sk_buff \<Rightarrow> sk_buff" where
  "address_packet6 K m conn_mark len skb =
     (let skb1 = skb\<lparr>skb_dev := xmit_dev6 m\<rparr>;
          skb2 = write_l2_header6 K m len skb1;
          skb3 = (if has_flag (cm_flags6 m) FLAG_PRIORITY_REMARK then skb2\<lparr>skb_priority := cm_priority6 m\<rparr> else skb2);
          skb4 = skb3\<lparr>skb_mark := conn_mark\<rparr>
      in skb4\<lparr>fast_forwarded := True\<rparr>)"

definition udp_transmit6 :: "kernel \<Rightarrow> cm_ptr \<Rightarrow> u32 \<Rightarrow> sk_buff \<Rightarrow> sfe_ipv6 \<Rightarrow> recv_result6" where
  "udp_transmit6 K cm len skb s =
     (let s1 = activate6 cm (count_packet6 cm len s);
          m = cms6 s1 cm;
          out = address_packet6 K m (c_mark6 (conns6 s1 (cm_connection6 m))) len skb
      in (Forwarded out, None, s1\<lparr>packets_forwarded6 := packets_forwarded6 s1 + 1\<rparr>))"

definition tcp_transmit6 :: "kernel \<Rightarrow> cm_ptr \<Rightarrow> u32 \<Rightarrow> sk_buff \<Rightarrow> sfe_ipv6 \<Rightarrow> recv_result6" where
  "tcp_transmit6 K cm len skb s =
     (let s1 = activate6 cm (count_packet6 cm len s);
          m = cms6 s1 cm;
          out = address_packet6 K m (c_mark6 (conns6 s1 (cm_connection6 m))) len skb
      in (Forwarded out, None, s1\<lparr>packets_forwarded6 := packets_forwarded6 s1 + 1\<rparr>))"

section \<open>UDP\<close>

definition udp_forward6 ::
  "sfe_env \<Rightarrow> kernel \<Rightarrow> cm_ptr \<Rightarrow> u32 \<Rightarrow> nat \<Rightarrow> sk_buff \<Rightarrow> sfe_ipv6 \<Rightarrow> recv_result6 option" where
  "udp_forward6 E K cm len th skb s =
     (case own_packet K skb of
        None \<Rightarrow> Some (SkbFreed, None, count_exception6 V6_CLONED_SKB_UNSHARE_ERROR s)
      | Some skb \<Rightarrow> do {
          skb \<leftarrow> udp_rewrite6 E (cms6 s cm) th skb;
          Some (udp_transmit6 K cm len skb s)
        })"

definition sfe_ipv6_recv_udp ::
  "sfe_env \<Rightarrow> kernel \<Rightarrow> sk_buff \<Rightarrow> netdev \<Rightarrow> u32 \<Rightarrow> u32 \<Rightarrow> bool \<Rightarrow> sfe_ipv6 \<Rightarrow> recv_result6 option" where
  "sfe_ipv6_recv_udp E K skb dev len ihl flush_on_find s =
     (case pskb_may_pull K skb (SIZEOF_UDP_HDR + ihl) of
        None \<Rightarrow> Some (reject6 V6_UDP_HEADER_INCOMPLETE skb s)
      | Some skb \<Rightarrow> do {
          src_ip \<leftarrow> rd_addr E skb 8;
          dest_ip \<leftarrow> rd_addr E skb 24;
          src_port \<leftarrow> rd16 E skb (unat ihl);
          dest_port \<leftarrow> rd16 E skb (unat ihl + 2);
          (found, s) \<leftarrow> sfe_ipv6_find_connection_match E dev (ucast IPPROTO_UDP)
                          src_ip src_port dest_ip dest_port s;
          (case found of
             None \<Rightarrow> Some (reject6 V6_UDP_NO_CONNECTION skb s)
           | Some cm \<Rightarrow>
               if flush_on_find then Some (reject_flush6 E cm V6_UDP_IP_OPTIONS_OR_INITIAL_FRAGMENT skb s)
               else if not_accelerated6 E (cms6 s cm) then Some (pass_slow6 skb s)
               else do {
                 hop_limit \<leftarrow> rd8 skb 7;
                 (if hop_limit < 2 then Some (reject_flush6 E cm V6_UDP_SMALL_TTL skb s)
                  else if ucast (xmit_dev_mtu6 (cms6 s cm)) < len
                  then Some (reject_flush6 E cm V6_UDP_NEEDS_FRAGMENTATION skb s)
                  else udp_forward6 E K cm len (unat ihl) skb s)
               })
        })"

section \<open>TCP\<close>

definition tcp_forward6 ::
  "sfe_env \<Rightarrow> kernel \<Rightarrow> cm_ptr \<Rightarrow> u32 \<Rightarrow> nat \<Rightarrow> sk_buff \<Rightarrow> sfe_ipv6 \<Rightarrow> recv_result6 option" where
  "tcp_forward6 E K cm len th skb s =
     (case own_packet K skb of
        None \<Rightarrow> Some (SkbFreed, None, count_exception6 V6_CLONED_SKB_UNSHARE_ERROR s)
      | Some skb \<Rightarrow> do {
          skb \<leftarrow> tcp_rewrite6 E (cms6 s cm) th skb;
          Some (tcp_transmit6 K cm len skb s)
        })"

text \<open>The sequence number checks and their effect on both matches.\<close>

definition tcp_track6 ::
  "sfe_env \<Rightarrow> cm_ptr \<Rightarrow> u32 \<Rightarrow> nat \<Rightarrow> sk_buff \<Rightarrow> sfe_ipv6 \<Rightarrow> (sfe_ipv6_exception_events + sfe_ipv6) option" where
  "tcp_track6 E cm len th skb s =
     (if has_flag (cm_flags6 (cms6 s cm)) FLAG_NO_SEQ_CHECK then Some (Inr s)
      else do {
        let counter_cm = cm_counter_match6 (cms6 s cm);
        r \<leftarrow> tcp_seq_check6 E skb th len (cm_tcp6 (cms6 s cm)) (cm_tcp6 (cms6 s counter_cm));
        (case r of
           Inl e \<Rightarrow> Some (Inl e)
         | Inr u \<Rightarrow>
             (let s1 = upd_cm6 cm (\<lambda>m. m\<lparr>cm_tcp6 := upd_own u\<rparr>) s
              in Some (Inr (upd_cm6 counter_cm
                   (\<lambda>m. m\<lparr>cm_tcp6 := (cm_tcp6 m)\<lparr>max_end := upd_counter_max_end u\<rparr>\<rparr>) s1))))
      })"

definition sfe_ipv6_recv_tcp ::
  "sfe_env \<Rightarrow> kernel \<Rightarrow> sk_buff \<Rightarrow> netdev \<Rightarrow> u32 \<Rightarrow> u32 \<Rightarrow> bool \<Rightarrow> sfe_ipv6 \<Rightarrow> recv_result6 option" where
  "sfe_ipv6_recv_tcp E K skb dev len ihl flush_on_find s =
     (case pskb_may_pull K skb (SIZEOF_TCP_HDR + ihl) of
        None \<Rightarrow> Some (reject6 V6_TCP_HEADER_INCOMPLETE skb s)
      | Some skb \<Rightarrow> do {
          src_ip \<leftarrow> rd_addr E skb 8;
          dest_ip \<leftarrow> rd_addr E skb 24;
          src_port \<leftarrow> rd16 E skb (unat ihl);
          dest_port \<leftarrow> rd16 E skb (unat ihl + 2);
          flags \<leftarrow> rd32 E skb (unat ihl + 12);
          (found, s) \<leftarrow> sfe_ipv6_find_connection_match E dev (ucast IPPROTO_TCP)
                          src_ip src_port dest_ip dest_port s;
          (case found of
             None \<Rightarrow>
               if fast_flags E flags then Some (reject6 V6_TCP_NO_CONNECTION_FAST_FLAGS skb s)
               else Some (reject6 V6_TCP_NO_CONNECTION_SLOW_FLAGS skb s)
           | Some cm \<Rightarrow>
               if flush_on_find then Some (reject_flush6 E cm V6_TCP_IP_OPTIONS_OR_INITIAL_FRAGMENT skb s)
               else if not_accelerated6 E (cms6 s cm) then Some (pass_slow6 skb s)
               else do {
                 hop_limit \<leftarrow> rd8 skb 7;
                 (if hop_limit < 2 then Some (reject_flush6 E cm V6_TCP_SMALL_TTL skb s)
                  else if ucast (xmit_dev_mtu6 (cms6 s cm)) < len \<and> \<not> skb_is_gso skb
                  then Some (reject_flush6 E cm V6_TCP_NEEDS_FRAGMENTATION skb s)
                  else if \<not> fast_flags E flags then Some (reject_flush6 E cm V6_TCP_FLAGS skb s)
                  else do {
                    r \<leftarrow> tcp_track6 E cm len (unat ihl) skb s;
                    (case r of
                       Inl e \<Rightarrow> Some (reject_flush6 E cm e skb s)
                     | Inr s \<Rightarrow> tcp_forward6 E K cm len (unat ihl) skb s)
                  })
               })
        })"

section \<open>Extension headers\<close>

definition SFE_IPV6_EXT_HDR_HOP :: u8 where "SFE_IPV6_EXT_HDR_HOP = 0"
definition SFE_IPV6_EXT_HDR_ROUTING :: u8 where "SFE_IPV6_EXT_HDR_ROUTING = 43"
definition SFE_IPV6_EXT_HDR_FRAG :: u8 where "SFE_IPV6_EXT_HDR_FRAG = 44"
definition SFE_IPV6_EXT_HDR_AH :: u8 where "SFE_IPV6_EXT_HDR_AH = 51"
definition SFE_IPV6_EXT_HDR_DST :: u8 where "SFE_IPV6_EXT_HDR_DST = 60"
definition SFE_IPV6_EXT_HDR_MH :: u8 where "SFE_IPV6_EXT_HDR_MH = 135"
definition SFE_IPV6_FRAG_OFFSET :: u32 where "SFE_IPV6_FRAG_OFFSET = 0xfff8"
definition SIZEOF_IPV6_EXT_HDR :: u32 where "SIZEOF_IPV6_EXT_HDR = 8"

lemmas ext_hdr_defs = SFE_IPV6_EXT_HDR_HOP_def SFE_IPV6_EXT_HDR_ROUTING_def SFE_IPV6_EXT_HDR_FRAG_def
  SFE_IPV6_EXT_HDR_AH_def SFE_IPV6_EXT_HDR_DST_def SFE_IPV6_EXT_HDR_MH_def

definition sfe_ipv6_is_ext_hdr :: "u8 \<Rightarrow> bool" where
  "sfe_ipv6_is_ext_hdr hdr \<longleftrightarrow> hdr = SFE_IPV6_EXT_HDR_HOP \<or> hdr = SFE_IPV6_EXT_HDR_ROUTING \<or>
     hdr = SFE_IPV6_EXT_HDR_FRAG \<or> hdr = SFE_IPV6_EXT_HDR_AH \<or> hdr = SFE_IPV6_EXT_HDR_DST \<or>
     hdr = SFE_IPV6_EXT_HDR_MH"

definition non_initial_fragment :: "sfe_env \<Rightarrow> sk_buff \<Rightarrow> u32 \<Rightarrow> u8 \<Rightarrow> bool option" where
  "non_initial_fragment E skb ihl next_hdr =
     (if next_hdr = SFE_IPV6_EXT_HDR_FRAG then do {
        raw_frag_off \<leftarrow> rd16 E skb (unat ihl + 2);
        Some ((ucast (ntohs E raw_frag_off) :: u32) AND SFE_IPV6_FRAG_OFFSET \<noteq> 0)
      }
      else Some False)"

text \<open>
  The walk over the extension headers at \<open>ihl\<close>: either an event to count, or the offset and type of the
  transport header and whether a header was skipped. The type of the next header is read after the
  next pull, from the place the pointer had before it.
\<close>

partial_function (option) ext_headers ::
  "sfe_env \<Rightarrow> kernel \<Rightarrow> sk_buff \<Rightarrow> u32 \<Rightarrow> u8 \<Rightarrow> bool \<Rightarrow>
   (sk_buff \<times> (sfe_ipv6_exception_events + (u32 \<times> u8 \<times> bool))) option" where
  "ext_headers E K skb ihl next_hdr skipped =
     (if \<not> sfe_ipv6_is_ext_hdr next_hdr then Some (skb, Inr (ihl, next_hdr, skipped))
      else do {
        later \<leftarrow> non_initial_fragment E skb ihl next_hdr;
        (if later then Some (skb, Inl V6_NON_INITIAL_FRAGMENT)
         else do {
           hdr_len \<leftarrow> rd8 skb (unat ihl + 1);
           let ext_hdr_len = push_bit 3 (ucast hdr_len) + SIZEOF_IPV6_EXT_HDR;
           (case pskb_may_pull K skb (ihl + ext_hdr_len + SIZEOF_IPV6_EXT_HDR) of
              None \<Rightarrow> Some (skb, Inl V6_HEADER_INCOMPLETE)
            | Some skb \<Rightarrow> do {
                next_hdr \<leftarrow> rd8 skb (unat ihl);
                ext_headers E K skb (ihl + ext_hdr_len) next_hdr True
              })
         })
      })"

declare ext_headers.simps [code]

section \<open>ICMP\<close>

definition ICMPV6_DEST_UNREACH :: u8 where "ICMPV6_DEST_UNREACH = 1"
definition ICMPV6_TIME_EXCEED :: u8 where "ICMPV6_TIME_EXCEED = 3"
definition SIZEOF_ICMP6_HDR :: u32 where "SIZEOF_ICMP6_HDR = 8"

text \<open>
  The look-up of the flow an error message is about, with source and destination exchanged. The
  protocol is the next header field of the embedded IPv6 header.
\<close>

definition icmp_flush6 ::
  "sfe_env \<Rightarrow> sk_buff \<Rightarrow> netdev \<Rightarrow> nat \<Rightarrow> u16 \<Rightarrow> u16 \<Rightarrow> sfe_ipv6 \<Rightarrow> recv_result6 option" where
  "icmp_flush6 E skb dev icmp_iph src_port dest_port s = do {
     src_ip \<leftarrow> rd_addr E skb (icmp_iph + 8);
     dest_ip \<leftarrow> rd_addr E skb (icmp_iph + 24);
     protocol \<leftarrow> rd8 skb (icmp_iph + 6);
     (found, s) \<leftarrow> sfe_ipv6_find_connection_match E dev protocol dest_ip dest_port src_ip src_port s;
     (case found of
        None \<Rightarrow> Some (reject6 V6_ICMP_NO_CONNECTION skb s)
      | Some cm \<Rightarrow> Some (reject_flush6 E cm V6_ICMP_FLUSHED_CONNECTION skb s))
   }"

definition sfe_ipv6_recv_icmp ::
  "sfe_env \<Rightarrow> kernel \<Rightarrow> sk_buff \<Rightarrow> netdev \<Rightarrow> u32 \<Rightarrow> sfe_ipv6 \<Rightarrow> recv_result6 option" where
  "sfe_ipv6_recv_icmp E K skb dev ihl s =
     (case pskb_may_pull K skb (ihl + SIZEOF_ICMP6_HDR) of
        None \<Rightarrow> Some (reject6 V6_ICMP_HEADER_INCOMPLETE skb s)
      | Some skb \<Rightarrow> do {
          icmp6_type \<leftarrow> rd8 skb (unat ihl);
          (if icmp6_type \<noteq> ICMPV6_DEST_UNREACH \<and> icmp6_type \<noteq> ICMPV6_TIME_EXCEED
           then Some (reject6 V6_ICMP_UNHANDLED_TYPE skb s)
           else
             (let ihl = ihl + SIZEOF_ICMP6_HDR
              in case pskb_may_pull K skb (ihl + SIZEOF_IPV6_HDR + SIZEOF_IPV6_EXT_HDR) of
                   None \<Rightarrow> Some (reject6 V6_ICMP_IPV6_HEADER_INCOMPLETE skb s)
                 | Some skb \<Rightarrow> do {
                     let icmp_iph = unat ihl;
                     b0 \<leftarrow> rd8 skb icmp_iph;
                     (if drop_bit 4 b0 \<noteq> 6 then Some (reject6 V6_ICMP_IPV6_NON_V6 skb s)
                      else do {
                        next_hdr \<leftarrow> rd8 skb (icmp_iph + 6);
                        (skb, r) \<leftarrow> ext_headers E K skb (ihl + SIZEOF_IPV6_HDR) next_hdr False;
                        (case r of
                           Inl e \<Rightarrow> Some (reject6 e skb s)
                         | Inr (ihl, next_hdr, _) \<Rightarrow>
                             if next_hdr = ucast IPPROTO_UDP \<or> next_hdr = ucast IPPROTO_TCP then do {
                               src_port \<leftarrow> rd16 E skb (unat ihl);
                               dest_port \<leftarrow> rd16 E skb (unat ihl + 2);
                               icmp_flush6 E skb dev icmp_iph src_port dest_port s
                             }
                             else Some (reject6 V6_ICMP_IPV6_UNHANDLED_PROTOCOL skb s))
                      })
                   }))
        })"

section \<open>Entry\<close>

definition sfe_ipv6_recv_locked ::
  "sfe_env \<Rightarrow> kernel \<Rightarrow> netdev \<Rightarrow> sk_buff \<Rightarrow> sfe_ipv6 \<Rightarrow> recv_result6 option" where
  "sfe_ipv6_recv_locked E K dev skb s =
     (let len = skb_len skb; ihl = SIZEOF_IPV6_HDR
      in case pskb_may_pull K skb (ihl + SIZEOF_IPV6_EXT_HDR) of
           None \<Rightarrow> Some (reject6 V6_HEADER_INCOMPLETE skb s)
         | Some skb \<Rightarrow> do {
             b0 \<leftarrow> rd8 skb 0;
             (if drop_bit 4 b0 \<noteq> 6 then Some (reject6 V6_NON_V6 skb s) else do {
             raw_payload_len \<leftarrow> rd16 E skb 4;
             let payload_len = (ucast (ntohs E raw_payload_len) :: u32);
             (if len - ihl < payload_len then Some (reject6 V6_DATAGRAM_INCOMPLETE skb s) else do {
             next_hdr \<leftarrow> rd8 skb 6;
             (skb, r) \<leftarrow> ext_headers E K skb ihl next_hdr False;
             (case r of
                Inl e \<Rightarrow> Some (reject6 e skb s)
              | Inr (ihl, next_hdr, flush_on_find) \<Rightarrow>
                  if ucast next_hdr = IPPROTO_UDP then sfe_ipv6_recv_udp E K skb dev len ihl flush_on_find s
                  else if ucast next_hdr = IPPROTO_TCP then sfe_ipv6_recv_tcp E K skb dev len ihl flush_on_find s
                  else if ucast next_hdr = IPPROTO_ICMPV6 then sfe_ipv6_recv_icmp E K skb dev ihl s
                  else Some (reject6 V6_UNHANDLED_PROTOCOL skb s)) }) }) })"

text \<open>The whole of \<open>sfe_ipv6_recv\<close>: after the lock is dropped a removed connection is released.\<close>

definition flush_pending6 ::
  "conn_ptr option \<Rightarrow> sfe_connection_sync \<Rightarrow> u64 \<Rightarrow> sfe_ipv6 \<Rightarrow> sfe_ipv6" where
  "flush_pending6 c sis now s =
     (case c of
        None \<Rightarrow> s
      | Some c \<Rightarrow> sfe_ipv6_flush_connection c SFE_SYNC_REASON_FLUSH sis now s)"

definition sfe_ipv6_recv ::
  "sfe_env \<Rightarrow> kernel \<Rightarrow> netdev \<Rightarrow> sk_buff \<Rightarrow> sfe_connection_sync \<Rightarrow> u64 \<Rightarrow> sfe_ipv6 \<Rightarrow>
   (recv_outcome \<times> sfe_ipv6) option" where
  "sfe_ipv6_recv E K dev skb sis now s = do {
     (out, c, s) \<leftarrow> sfe_ipv6_recv_locked E K dev skb s;
     Some (out, flush_pending6 c sis now s)
   }"

end
