(* ===== verification/Sfe6_Demo.thy ===== *)
theory Sfe6_Demo
  imports Sfe_Demo Sfe6_Init Sfe6_Recv
begin

text \<open>
  A UDP flow of the IPv6 engine on the machine of \<open>Sfe_Demo\<close>: the engine after the rule for it was
  created in an empty engine, and a packet of it.
\<close>

section \<open>Memory\<close>

definition blank_cm6 :: sfe_ipv6_connection_match where
  "blank_cm6 = \<lparr>cm_connection6 = 0, cm_counter_match6 = 0, match_dev6 = 0, match_protocol6 = 0,
     match_src_ip6 = zero_addr, match_dest_ip6 = zero_addr, match_src_port6 = 0, match_dest_port6 = 0, cm_flags6 = 0,
     flow_accel6 = 0, cm_tcp6 = demo_tcp, rx_packet_count6 = 0, rx_byte_count6 = 0,
     xlate_src_ip6 = zero_addr, xlate_src_port6 = 0, xlate_src_csum_adjustment6 = 0, xlate_dest_ip6 = zero_addr, xlate_dest_port6 = 0,
     xlate_dest_csum_adjustment6 = 0, cm_priority6 = 0,
     cm_dscp6 = 0, xmit_dev6 = 0, xmit_dev_mtu6 = 0, xmit_dest_mac6 = (\<lambda>_. 0), xmit_src_mac6 = (\<lambda>_. 0),
     rx_packet_count64_6 = 0, rx_byte_count64_6 = 0\<rparr>"

definition blank_conn6 :: sfe_ipv6_connection where
  "blank_conn6 = \<lparr>c_protocol6 = 0, c_src_ip6 = zero_addr, c_src_ip_xlate6 = zero_addr, c_dest_ip6 = zero_addr,
     c_dest_ip_xlate6 = zero_addr, c_src_port6 = 0, c_src_port_xlate6 = 0, c_dest_port6 = 0,
     c_dest_port_xlate6 = 0, original_match6 = 0, original_dev6 = 0, reply_match6 = 0, reply_dev6 = 0,
     last_sync_jiffies6 = 0, c_mark6 = 0, c_debug_read_seq6 = 0\<rparr>"

definition blank_mem6 :: sfe_ipv6 where
  "blank_mem6 = \<lparr>match_next6 = (\<lambda>_. None), match_prev6 = (\<lambda>_. None), active_next6 = (\<lambda>_. None),
     active_prev6 = (\<lambda>_. None), match_active6 = (\<lambda>_. False), cms6 = (\<lambda>_. blank_cm6),
     conn_next6 = (\<lambda>_. None), conn_prev6 = (\<lambda>_. None), all_next6 = (\<lambda>_. None), all_prev6 = (\<lambda>_. None),
     conns6 = (\<lambda>_. blank_conn6), cm_live6 = {}, conn_live6 = {}, dev_refcnt6 = (\<lambda>_. 0),
     active_head6 = None, active_tail6 = None, all_connections_head6 = None,
     all_connections_tail6 = None, num_connections6 = 0, sync_rule_callback6 = None,
     conn_hash6 = (\<lambda>_. None), conn_match_hash6 = (\<lambda>_. None), connection_create_requests6 = 0,
     connection_create_collisions6 = 0, connection_destroy_requests6 = 0,
     connection_destroy_misses6 = 0, connection_match_hash_hits6 = 0,
     connection_match_hash_reorders6 = 0, connection_flushes6 = 0, packets_forwarded6 = 0,
     packets_not_forwarded6 = 0, exception_events6 = (\<lambda>_. 0), connection_create_requests64_6 = 0,
     connection_create_collisions64_6 = 0, connection_destroy_requests64_6 = 0,
     connection_destroy_misses64_6 = 0, connection_match_hash_hits64_6 = 0,
     connection_match_hash_reorders64_6 = 0, connection_flushes64_6 = 0, packets_forwarded64_6 = 0,
     packets_not_forwarded64_6 = 0, exception_events64_6 = (\<lambda>_. 0), debug_read_seq6 = 0,
     sync_calls6 = []\<rparr>"

section \<open>The flow\<close>

definition v6_addr :: "u32 \<Rightarrow> sfe_ipv6_addr" where
  "v6_addr n = \<lparr>addr0 = 0x20010db8, addr1 = 0, addr2 = 0, addr3 = n\<rparr>"

text \<open>[2001:db8::2]:4096 to [2001:db8::53]:53, translated to [2001:db8::1]:8192, from device 1 to device 2.\<close>

definition demo_sic6 :: sfe_connection_create where
  "demo_sic6 = demo_sic\<lparr>sic_src_ip := v6_addr 2, sic_src_ip_xlate := v6_addr 1,
     sic_dest_ip := v6_addr 0x53, sic_dest_ip_xlate := v6_addr 0x53\<rparr>"

section \<open>The engine with the flow\<close>

definition demo_start6 :: sfe_ipv6 where
  "demo_start6 = sfe_ipv6_register_sync_rule_callback (Some 7) (engine_start6 blank_mem6)"

definition demo_state6 :: sfe_ipv6 where
  "demo_state6 = (case sfe_ipv6_create_rule demo_env demo_sic6 demo_alloc 100 demo_start6 of
     Some (res, s) \<Rightarrow> s | None \<Rightarrow> demo_start6)"

lemma same_table_callback6: "same_table6 s (sfe_ipv6_register_sync_rule_callback cb s)"
  by (simp add: same_table6_def sfe_ipv6_register_sync_rule_callback_def)

lemma register_engine6:
  assumes "engine_inv6 E base s A D"
  shows "engine_inv6 E base (sfe_ipv6_register_sync_rule_callback cb s) A D"
  by (rule same_table_engine6 [OF assms same_table_callback6])
    (simp add: sfe_ipv6_register_sync_rule_callback_def)

lemma demo_start_inv6: "engine_inv6 demo_env no_refs demo_start6 abs_start6 []"
proof -
  have "dev_refcnt6 blank_mem6 = no_refs" by (simp add: blank_mem6_def no_refs_def)
  then show ?thesis using register_engine6 [OF engine_start_inv6 [of demo_env blank_mem6]]
    by (simp add: demo_start6_def)
qed

lemma demo_create6:
  obtains A where "sfe_ipv6_create_rule demo_env demo_sic6 demo_alloc 100 demo_start6 = Some (CREATED, demo_state6)"
    and "engine_inv6 demo_env no_refs demo_state6 A []" and "connl6 A = [0]"
    and "conn_key6 demo_state6 0 = sic_key6 demo_sic6"
proof -
  have fresh: "alloc_fresh6 demo_alloc demo_start6"
    by (simp add: alloc_fresh6_def demo_alloc_def demo_start6_def engine_start6_def
        sfe_ipv6_register_sync_rule_callback_def)
  obtain res s A where c: "sfe_ipv6_create_rule demo_env demo_sic6 demo_alloc 100 demo_start6 = Some (res, s)"
    and I: "engine_inv6 demo_env no_refs s A []"
    and r: "res = create_outcome6 demo_env demo_sic6 demo_alloc (conn_key6 demo_start6 ` set (connl6 abs_start6))"
    and "res \<noteq> CREATED \<Longrightarrow> A = abs_start6 \<and> conn_key6 s = conn_key6 demo_start6"
    and k: "res = CREATED \<Longrightarrow> \<exists>c. al_conn demo_alloc = Some c \<and> connl6 A = connl6 abs_start6 @ [c] \<and>
        conn_key6 s c = sic_key6 demo_sic6 \<and> (\<forall>d\<in>set (connl6 abs_start6). conn_key6 s d = conn_key6 demo_start6 d)"
    by (rule create_rule6 [OF demo_start_inv6 fresh, where sic = demo_sic6 and j = 100]) (rule that)
  have "res = CREATED"
    unfolding r by (simp add: create_outcome6_def devs_registered6_def demo_env_def demo_dev_def demo_alloc_def
        abs_start6_def)
  moreover have "demo_state6 = s" by (simp add: demo_state6_def c)
  ultimately show thesis using that [of A] c I k by (auto simp: demo_alloc_def abs_start6_def)
qed

lemma demo_inv6:
  obtains A where "engine_inv6 demo_env no_refs demo_state6 A []" and "connl6 A = [0]"
    and "conn_key6 demo_state6 0 = sic_key6 demo_sic6"
  using demo_create6 by blast

section \<open>A packet\<close>

definition demo_bytes6 :: "u8 list" where
  "demo_bytes6 = [0x60, 0, 0, 0, 0, 12, 17, 64] @
     [0x20, 1, 0x0d, 0xb8, 0, 0, 0, 0, 0, 0, 0, 0, 0, 0, 0, 2] @
     [0x20, 1, 0x0d, 0xb8, 0, 0, 0, 0, 0, 0, 0, 0, 0, 0, 0, 0x53] @
     [16, 0, 0, 53, 0, 12, 0x12, 0x34, 1, 2, 3, 4]"

definition demo_skb6 :: sk_buff where
  "demo_skb6 = demo_skb\<lparr>skb_len := 52, skb_headlen := 52,
     skb_bytes := (\<lambda>i. if i < 52 then demo_bytes6 ! i else 0)\<rparr>"

end
