(* ===== verification/Sfe6_Dump.thy ===== *)
theory Sfe6_Dump
  imports Sfe6_Debug_Props Sfe6_Demo Sfe_Dump
begin

text \<open>
  What a reader of the debug device of the IPv6 engine gets: the whole state in one read when the buffer is large
  enough, never more than the buffer, and nothing at all when copying fails for ever.
\<close>

section \<open>The document\<close>

text \<open>
  The document for the connections \<open>cs\<close>: one element per connection, in order, one per exception
  that was ever counted, and the statistics. \<open>now\<close> gives the time at which an element is written.
\<close>

definition dump_text6 :: "sfe_env \<Rightarrow> (nat \<Rightarrow> u64) \<Rightarrow> sfe_ipv6 \<Rightarrow> conn_ptr list \<Rightarrow> string" where
  "dump_text6 E now s cs =
     msg_start6 @ msg_connections_start @
     concat (map (\<lambda>i. shown6 E s (cs ! i) (now (i + 2))) [0..<length cs]) @
     msg_connections_end @ msg_exceptions_start @
     concat (map (\<lambda>e. if exception_events64_6 s e \<noteq> 0 then msg_exception6 e (exception_events64_6 s e) else [])
       all_events6) @
     msg_exceptions_end @ msg_stats6 (sfe_ipv6_update_summary_stats s) @ msg_end6"

lemma conn_items_text6:
  "item_text (conn_items6 E now n s cs) =
     concat (map (\<lambda>i. shown6 E s (cs ! i) (now (i + n))) [0..<length cs])"
proof (induction cs arbitrary: n)
  case Nil
  show ?case by (simp add: item_text_def)
next
  case (Cons c cs)
  have "[0..<length (c # cs)] = 0 # map Suc [0..<length cs]"
    by (simp add: map_Suc_upt upt_conv_Cons del: upt_Suc)
  then show ?case using Cons.IH [of "Suc n"] by (simp add: item_text_def o_def)
qed

lemma item_text_append6 [simp]: "item_text (xs @ ys) = item_text xs @ item_text ys"
  by (simp add: item_text_def)

lemma item_text_Cons6 [simp]:
  "item_text [] = []" "item_text (None # xs) = item_text xs" "item_text (Some m # xs) = m @ item_text xs"
  by (simp_all add: item_text_def)

lemma exception_items_text6:
  "item_text (exception_items6 s 0) = concat (map (\<lambda>e. if exception_events64_6 s e \<noteq> 0
     then msg_exception6 e (exception_events64_6 s e) else []) all_events6)"
  by (simp add: item_text_def exception_items6_def o_def if_distrib cong: if_cong)

lemma start_items_text6:
  assumes "\<forall>c\<in>set (connl6 A). c_debug_read_seq6 (conns6 s c) < debug_read_seq6 s + 1"
  shows "item_text (items6 E now 0 dump_start s A) = dump_text6 E now s (connl6 A)"
proof -
  have "unread6 (s\<lparr>debug_read_seq6 := debug_read_seq6 s + 1\<rparr>) A = connl6 A"
    using assms by (simp add: unread6_def filter_True)
  then show ?thesis
    by (simp add: items6_def dump_start_def Let_def tail_items6_def end_items6_def conn_items_text6
        exception_items_text6 dump_text6_def)
qed

section \<open>Properties\<close>

text \<open>
  C27: A read of the newly opened IPv6 device with a large enough buffer ends and delivers the complete
  document: every connection of the engine exactly once, in the order of its list, with its
  totals, every exception that was counted, and the statistics. (The dump numbers of the connections
  are below the new one, which fails only when the number wraps around; interface names fit their
  kernel buffer.)
\<close>

theorem dump_complete6:
  assumes "engine_inv6 E base s A D" and "names_ok E"
    and "\<forall>c\<in>set (connl6 A). c_debug_read_seq6 (conns6 s c) < debug_read_seq6 s + 1"
    and "768 + length (dump_text6 E now s (connl6 A)) < unat len"
  shows "\<exists>d ws t. sfe_ipv6_debug_dev_read E (\<lambda>_. True) now len dump_start s = Some (d, ws, t) \<and>
    ws_state ws = XML_STATE_DONE \<and> user_buf d = dump_text6 E now s (connl6 A) \<and>
    total_read d = length (dump_text6 E now s (connl6 A)) \<and> engine_inv6 E base t A D"
proof -
  let ?d = "\<lparr>rd_length = len, total_read = 0, user_buf = [], copied_at = []\<rparr>"
  have i: "iter_exception dump_start < 38" and t: "tidy ?d" by (simp_all add: dump_start_def tidy_def)
  note tx = start_items_text6 [OF assms(3), of E now]
  obtain d ws u where r: "debug_dev_read_loop6 E (\<lambda>_. True) now 0 (?d, dump_start, s) = Some (d, ws, u)"
    and I: "engine_inv6 E base u A D" and td: "tidy d"
    and b: "user_buf d = user_buf ?d @ fitting (unat (rd_length ?d)) (items6 E now 0 dump_start s A)"
    and w: "768 + length (item_text (items6 E now 0 dump_start s A)) < unat (rd_length ?d) \<longrightarrow>
      ws_state ws = XML_STATE_DONE"
    using read_loop_items6 [OF assms(1,2) i t refl, of now 0] by blast
  have "768 + length (item_text (items6 E now 0 dump_start s A)) < unat len" using assms(4) tx by simp
  with b w have "user_buf d = dump_text6 E now s (connl6 A)" "ws_state ws = XML_STATE_DONE"
    by (simp_all add: fitting_all tx)
  with r I td show ?thesis by (simp add: sfe_ipv6_debug_dev_read_def tidy_def)
qed

lemma demo_dump6:
  "\<forall>e\<in>set all_events6. exception_events64_6 demo_state6 e = 0"
  "c_debug_read_seq6 (conns6 demo_state6 0) < debug_read_seq6 demo_state6 + 1"
  by code_simp+

theorem dump_complete6_witness:
  "\<exists>A d ws t. connl6 A = [0] \<and>
    sfe_ipv6_debug_dev_read demo_env (\<lambda>_. True) (\<lambda>_. 0) 10000 dump_start demo_state6 = Some (d, ws, t) \<and>
    ws_state ws = XML_STATE_DONE \<and> user_buf d = dump_text6 demo_env (\<lambda>_. 0) demo_state6 (connl6 A) \<and>
    total_read d = length (dump_text6 demo_env (\<lambda>_. 0) demo_state6 (connl6 A)) \<and>
    engine_inv6 demo_env no_refs t A []"
proof (rule demo_inv6)
  fix A
  assume I: "engine_inv6 demo_env no_refs demo_state6 A []" and c: "connl6 A = [0]"
  have seq: "\<forall>c\<in>set (connl6 A). c_debug_read_seq6 (conns6 demo_state6 c) < debug_read_seq6 demo_state6 + 1"
    using demo_dump6(2) by (simp add: c)
  have no: "concat (map (\<lambda>e. if exception_events64_6 demo_state6 e \<noteq> 0
      then msg_exception6 e (exception_events64_6 demo_state6 e) else []) all_events6) = []"
    using demo_dump6(1) by simp
  have "length (shown6 demo_env demo_state6 0 0) < 768"
    unfolding shown6_def by (rule msg_connection_fits6 [OF demo_names])
  then have "length (dump_text6 demo_env (\<lambda>_. 0) demo_state6 (connl6 A)) < 8 * 768"
    unfolding dump_text6_def no
    using fixed_fits6 msg_stats_fits6 [of "sfe_ipv6_update_summary_stats demo_state6"] by (simp add: c)
  then have len: "768 + length (dump_text6 demo_env (\<lambda>_. 0) demo_state6 (connl6 A)) < unat (10000 :: u64)" by simp
  from dump_complete6 [OF I demo_names seq len] c show ?thesis by blast
qed

text \<open>
  A read never writes outside the buffer it was given, although every element is copied with the
  full size of the message buffer: whatever copies fail and however small the buffer is, if the read
  returns, then all copies lay inside, and what is left of the buffer is counted correctly.
\<close>

theorem dump_stays_in_buffer6:
  assumes "engine_inv6 E base s A D" and "names_ok E"
    and "sfe_ipv6_debug_dev_read E oks now len ws s = Some (d, ws', t)"
  shows "(\<forall>q\<in>set (copied_at d). q + CHAR_DEV_MSG_SIZE \<le> unat len) \<and>
    total_read d + unat (rd_length d) = unat len \<and> engine_inv6 E base t A D"
proof -
  have b: "in_buffer (unat len) \<lparr>rd_length = len, total_read = 0, user_buf = [], copied_at = []\<rparr>"
    by (simp add: in_buffer_def)
  from read_loop_bounds6 [OF assms(3) [unfolded sfe_ipv6_debug_dev_read_def] refl assms(1,2) b]
  show ?thesis by (auto simp: in_buffer_def CHAR_DEV_MSG_SIZE_def)
qed

theorem dump_stays_in_buffer6_witness:
  "\<exists>d ws t. sfe_ipv6_debug_dev_read demo_env (\<lambda>_. True) (\<lambda>_. 0) 900 dump_start demo_start6 = Some (d, ws, t) \<and>
    (\<forall>q\<in>set (copied_at d). q + CHAR_DEV_MSG_SIZE \<le> unat (900 :: u64)) \<and>
    total_read d + unat (rd_length d) = unat (900 :: u64) \<and> engine_inv6 demo_env no_refs t abs_start6 []"
proof -
  have "read_ends (sfe_ipv6_debug_dev_read demo_env (\<lambda>_. True) (\<lambda>_. 0) 900 dump_start demo_start6)"
    by code_simp
  then obtain d ws t where r:
    "sfe_ipv6_debug_dev_read demo_env (\<lambda>_. True) (\<lambda>_. 0) 900 dump_start demo_start6 = Some (d, ws, t)"
    by (rule read_ends.elims(2)) auto
  show ?thesis by (intro exI) (rule conjI [OF r dump_stays_in_buffer6 [OF demo_start_inv6 demo_names r]])
qed

text \<open>
  When copying to the reader fails every time (its buffer is not writable), a read never returns: the
  loop ignores that a writer failed and writes the same element again and again.
\<close>

theorem dump_never_gives_up6:
  assumes "\<forall>n. \<not> oks n" and "ws_state ws = XML_STATE_START" and "CHAR_DEV_MSG_SIZE < unat len"
  shows "sfe_ipv6_debug_dev_read E oks now len ws s = None"
proof -
  have "\<not> oks n" for n using assms(1) by blast
  moreover have "768 < len" using assms(3) by (simp add: CHAR_DEV_MSG_SIZE_def word_less_nat_alt)
  ultimately show ?thesis
    unfolding sfe_ipv6_debug_dev_read_def by (intro read_loop_stuck6) (use assms(2) in simp_all)
qed

theorem dump_never_gives_up6_witness:
  "sfe_ipv6_debug_dev_read demo_env (\<lambda>_. False) (\<lambda>_. 0) 4096 dump_start demo_state6 = None"
  by (rule dump_never_gives_up6) (simp_all add: dump_start_def CHAR_DEV_MSG_SIZE_def)

end
