(* ===== verification/Sfe6_Recv_Inv.thy ===== *)
theory Sfe6_Recv_Inv
  imports Sfe6_Recv Sfe6_Rule_Ops Sfe_Recv_Inv
begin

text \<open>
  Every handler of the packet path keeps the invariant of the engine. \<open>handles6\<close> is the contract of a
  handler: if it returns, the connection it took out of the tables is pending and was one of the
  tables, no other connection came or went, and exactly one of the two packet counters went up by one.
\<close>

section \<open>The contract\<close>

text \<open>The counters and keys a handler has not changed yet.\<close>

definition quiet6 :: "sfe_ipv6 \<Rightarrow> sfe_abs6 \<Rightarrow> sfe_ipv6 \<Rightarrow> sfe_abs6 \<Rightarrow> bool" where
  "quiet6 s A t B \<longleftrightarrow> connl6 B = connl6 A \<and> conn_key6 t = conn_key6 s \<and> conns6 t = conns6 s \<and>
     packets_forwarded6 t = packets_forwarded6 s \<and> packets_not_forwarded6 t = packets_not_forwarded6 s \<and>
     sync_calls6 t = sync_calls6 s \<and> sync_rule_callback6 t = sync_rule_callback6 s"

lemma quiet_refl6 [simp]: "quiet6 s A s A"
  by (simp add: quiet6_def)

lemma quiet_trans6: "quiet6 s A t B \<Longrightarrow> quiet6 t B u C \<Longrightarrow> quiet6 s A u C"
  by (simp add: quiet6_def)

fun counted6 :: "recv_outcome \<Rightarrow> conn_ptr option \<Rightarrow> sfe_ipv6 \<Rightarrow> sfe_ipv6 \<Rightarrow> bool" where
  "counted6 (Forwarded skb) c s t \<longleftrightarrow> c = None \<and> packets_forwarded6 t = packets_forwarded6 s + 1 \<and>
     packets_not_forwarded6 t = packets_not_forwarded6 s"
| "counted6 (NotForwarded skb) c s t \<longleftrightarrow> packets_forwarded6 t = packets_forwarded6 s \<and>
     packets_not_forwarded6 t = packets_not_forwarded6 s + 1"
| "counted6 SkbFreed c s t \<longleftrightarrow> packets_forwarded6 t = packets_forwarded6 s \<and>
     packets_not_forwarded6 t = packets_not_forwarded6 s + 1"

fun taken_out6 :: "conn_ptr option \<Rightarrow> sfe_abs6 \<Rightarrow> sfe_abs6 \<Rightarrow> bool" where
  "taken_out6 None A B \<longleftrightarrow> connl6 B = connl6 A"
| "taken_out6 (Some c) A B \<longleftrightarrow> c \<in> set (connl6 A) \<and> connl6 B = remove1 c (connl6 A)"

definition handled6 :: "sfe_env \<Rightarrow> (netdev \<Rightarrow> int) \<Rightarrow> sfe_ipv6 \<Rightarrow> sfe_abs6 \<Rightarrow> conn_ptr list \<Rightarrow>
  recv_result6 \<Rightarrow> bool" where
  "handled6 E base s A D x \<longleftrightarrow>
     (case x of (out, c, t) \<Rightarrow> \<exists>B. engine_inv6 E base t B (pend_list c @ D) \<and> taken_out6 c A B \<and>
        conn_key6 t = conn_key6 s \<and> conns6 t = conns6 s \<and> sync_calls6 t = sync_calls6 s \<and>
        sync_rule_callback6 t = sync_rule_callback6 s \<and> counted6 out c s t)"

definition handles6 :: "sfe_env \<Rightarrow> (netdev \<Rightarrow> int) \<Rightarrow> sfe_ipv6 \<Rightarrow> sfe_abs6 \<Rightarrow> conn_ptr list \<Rightarrow>
  recv_result6 option \<Rightarrow> bool" where
  "handles6 E base s A D r \<longleftrightarrow> (\<forall>x. r = Some x \<longrightarrow> handled6 E base s A D x)"

named_theorems handles6 \<open>contract of the parts of a handler\<close>

lemma handles_Some6: "handled6 E base s A D x \<Longrightarrow> handles6 E base s A D (Some x)"
  by (simp add: handles6_def)

lemma handles_bind6: "(\<And>x. m = Some x \<Longrightarrow> handles6 E base s A D (f x)) \<Longrightarrow> handles6 E base s A D (m \<bind> f)"
  by (cases m) (simp_all add: handles6_def)

lemma handles_if6:
  "(b \<Longrightarrow> handles6 E base s A D x) \<Longrightarrow> (\<not> b \<Longrightarrow> handles6 E base s A D y) \<Longrightarrow>
   handles6 E base s A D (if b then x else y)"
  by simp

lemma handles_option6:
  "(z = None \<Longrightarrow> handles6 E base s A D x) \<Longrightarrow> (\<And>v. z = Some v \<Longrightarrow> handles6 E base s A D (y v)) \<Longrightarrow>
   handles6 E base s A D (case z of None \<Rightarrow> x | Some v \<Rightarrow> y v)"
  by (cases z) simp_all

lemma handles_sum6:
  "(\<And>e. z = Inl e \<Longrightarrow> handles6 E base s A D (x e)) \<Longrightarrow> (\<And>v. z = Inr v \<Longrightarrow> handles6 E base s A D (y v)) \<Longrightarrow>
   handles6 E base s A D (case z of Inl e \<Rightarrow> x e | Inr v \<Rightarrow> y v)"
  by (cases z) simp_all

lemmas handles_control6 = handles_bind6 handles_if6 handles_option6 handles_sum6

section \<open>Ends of a handler\<close>

lemma reject_handled6:
  assumes "engine_inv6 E base t B D" and "quiet6 s A t B"
  shows "handled6 E base s A D (reject6 e skb t)"
  using engine_counter6(5) [OF assms(1)] assms(2)
  by (auto simp: handled6_def reject6_def count_exception6_def quiet6_def conn_key6_def fun_eq_iff Let_def
      intro!: exI [of _ B])

lemma pass_slow_handled6:
  assumes "engine_inv6 E base t B D" and "quiet6 s A t B"
  shows "handled6 E base s A D (pass_slow6 skb t)"
  using engine_counter6(6) [OF assms(1)] assms(2)
  by (auto simp: handled6_def pass_slow6_def quiet6_def conn_key6_def fun_eq_iff Let_def intro!: exI [of _ B])

lemma freed_handled6:
  assumes "engine_inv6 E base t B D" and "quiet6 s A t B"
  shows "handled6 E base s A D (SkbFreed, None, count_exception6 e t)"
  using engine_counter6(5) [OF assms(1)] assms(2)
  by (auto simp: handled6_def count_exception6_def quiet6_def conn_key6_def fun_eq_iff Let_def
      intro!: exI [of _ B])

lemma match_owner6:
  assumes "engine_inv6 E base t B D" and "p \<in> table_matches6 t (connl6 B)"
  shows "cm_connection6 (cms6 t p) \<in> set (connl6 B)"
    and "p \<in> conn_matches6 t (cm_connection6 (cms6 t p))"
proof -
  obtain c where c: "c \<in> set (connl6 B)" "p \<in> conn_matches6 t c"
    using assms(2) by (auto simp: table_matches6_def)
  have "cm_connection6 (cms6 t p) = c"
    by (rule conn_matches_owner6 [OF table_inv_conn6(1) [OF engine_table6 [OF assms(1)] c(1)] c(2)])
  with c show "cm_connection6 (cms6 t p) \<in> set (connl6 B)" "p \<in> conn_matches6 t (cm_connection6 (cms6 t p))"
    by simp_all
qed

lemma reject_flush_handled6:
  assumes I: "engine_inv6 E base t B D" and q: "quiet6 s A t B" and p: "p \<in> table_matches6 t (connl6 B)"
  shows "handled6 E base s A D (reject_flush6 E p e skb t)"
proof -
  let ?c = "cm_connection6 (cms6 t p)"
  let ?u = "sfe_ipv6_remove_connection E ?c t"
  have c: "?c \<in> set (connl6 B)" by (rule match_owner6 [OF I p])
  have "engine_inv6 E base (count_exception6 e ?u) (abs_remove6 E t ?c B) (?c # D)"
    unfolding count_exception6_def by (rule engine_counter6(5) [OF remove_engine6 [OF I c]])
  then show ?thesis using q c
    by (auto simp: handled6_def reject_flush6_def quiet6_def count_exception6_def conn_key6_def fun_eq_iff Let_def
        intro!: exI [of _ "abs_remove6 E t ?c B"])
qed

lemmas handler_ends6 = reject_handled6 pass_slow_handled6 freed_handled6 reject_flush_handled6

section \<open>Look-up\<close>

lemma find_engine6:
  assumes I: "engine_inv6 E base s A D"
  obtains r t B where
    "sfe_ipv6_find_connection_match E dev pr si sp di dp s = Some (r, t)"
    and "engine_inv6 E base t B D" and "quiet6 s A t B" and "cms6 t = cms6 s" and "conns6 t = conns6 s"
    and "\<And>p. r = Some p \<Longrightarrow> p \<in> table_matches6 t (connl6 B) \<and> match_key6 t p = (dev, pr, si, sp, di, dp)"
    and "r = None \<Longrightarrow> (dev, pr, si, sp, di, dp) \<notin> match_key6 s ` table_matches6 s (connl6 A)"
proof -
  note T = engine_table6 [OF I]
  let ?k = "(dev, pr, si, sp, di, dp)"
  obtain r t B where f: "find_match6 E ?k s = Some (r, t)"
    and J: "table_inv6 E t B D" and c: "same_but_chains6 s t" and B: "connl6 B = connl6 A"
    and hit: "\<And>p. r = Some p \<Longrightarrow> p \<in> tabled_matches6 s \<and> match_key6 s p = ?k"
    and miss: "\<And>p. r = None \<Longrightarrow> p \<in> tabled_matches6 s \<Longrightarrow> match_key6 s p \<noteq> ?k"
    by (rule find_match_cases6 [OF T, of ?k]) (rule that)
  note same = same_but_chainsD6 [OF c]
  have key: "conn_key6 t = conn_key6 s" by (rule conn_key_cong6) (rule same)
  have "engine_inv6 E base t B D"
    using I J flow_ok_cong6 [OF same(1,2), of E] dev_uses_cong6 [OF same(2)]
    by (simp add: engine_inv6_def refs_inv6_def B same key)
  moreover have "quiet6 s A t B" by (simp add: quiet6_def B same key)
  moreover have "table_matches6 t (connl6 B) = tabled_matches6 s"
    by (simp add: B table_inv_tabled6 [OF T]) (rule table_matches_cong6, rule same)
  moreover have "match_key6 t = match_key6 s" by (rule same_but_chains_key6 [OF c])
  moreover have "?k \<notin> match_key6 s ` table_matches6 s (connl6 A)" if "r = None"
  proof
    assume "?k \<in> match_key6 s ` table_matches6 s (connl6 A)"
    then obtain p where "p \<in> table_matches6 s (connl6 A)" "match_key6 s p = ?k" by (metis imageE)
    with miss [OF that, of p] show False by (simp add: table_inv_tabled6 [OF T])
  qed
  ultimately show thesis
    using f hit same(1,2) by (intro that [of r t B]) (simp_all add: find_match6_def)
qed

lemma handles_find6:
  assumes I: "engine_inv6 E base s A D"
    and f: "\<And>r t B. engine_inv6 E base t B D \<Longrightarrow> quiet6 s A t B \<Longrightarrow>
      (\<And>p. r = Some p \<Longrightarrow> p \<in> table_matches6 t (connl6 B)) \<Longrightarrow> handles6 E base s A D (f (r, t))"
  shows "handles6 E base s A D
    (sfe_ipv6_find_connection_match E dev pr si sp di dp s \<bind> f)"
proof (rule find_engine6 [OF I, of dev pr si sp di dp])
  fix r t B
  assume "sfe_ipv6_find_connection_match E dev pr si sp di dp s = Some (r, t)"
    "engine_inv6 E base t B D" "quiet6 s A t B"
    "\<And>p. r = Some p \<Longrightarrow> p \<in> table_matches6 t (connl6 B) \<and> match_key6 t p = (dev, pr, si, sp, di, dp)"
  with f [of t B r] show ?thesis by simp
qed

section \<open>Counting and activating\<close>

lemma same_table_count6: "same_table6 s (count_packet6 p len s)"
  unfolding count_packet6_def by (rule same_table_upd_cm6) (simp add: cm_static6_def)

lemma activate_conv6:
  "activate6 p s = (if match_active6 s p then s
     else act6.enqueue p (s\<lparr>match_active6 := (match_active6 s)(p := True)\<rparr>))"
  by (simp add: activate6_def act6.enqueue_def Let_def setter_defs6 split: option.split)

lemma act_enqueue_frame6 [simp]:
  "cms6 (act6.enqueue p s) = cms6 s" "conns6 (act6.enqueue p s) = conns6 s"
  "match_active6 (act6.enqueue p s) = match_active6 s"
  "match_next6 (act6.enqueue p s) = match_next6 s" "match_prev6 (act6.enqueue p s) = match_prev6 s"
  "conn_match_hash6 (act6.enqueue p s) = conn_match_hash6 s"
  "conn_next6 (act6.enqueue p s) = conn_next6 s" "conn_prev6 (act6.enqueue p s) = conn_prev6 s"
  "conn_hash6 (act6.enqueue p s) = conn_hash6 s"
  "all_next6 (act6.enqueue p s) = all_next6 s" "all_prev6 (act6.enqueue p s) = all_prev6 s"
  "all_connections_head6 (act6.enqueue p s) = all_connections_head6 s"
  "all_connections_tail6 (act6.enqueue p s) = all_connections_tail6 s"
  "num_connections6 (act6.enqueue p s) = num_connections6 s"
  "cm_live6 (act6.enqueue p s) = cm_live6 s" "conn_live6 (act6.enqueue p s) = conn_live6 s"
  "sync_calls6 (act6.enqueue p s) = sync_calls6 s" "dev_refcnt6 (act6.enqueue p s) = dev_refcnt6 s"
  "sync_rule_callback6 (act6.enqueue p s) = sync_rule_callback6 s"
  "packets_forwarded6 (act6.enqueue p s) = packets_forwarded6 s"
  "packets_not_forwarded6 (act6.enqueue p s) = packets_not_forwarded6 s"
  by (simp_all add: act6.enqueue_def setter_defs6 Let_def split: option.split)

definition abs_activate6 :: "sfe_ipv6 \<Rightarrow> cm_ptr \<Rightarrow> sfe_abs6 \<Rightarrow> sfe_abs6" where
  "abs_activate6 s p A = (if match_active6 s p then A else A\<lparr>actives6 := actives6 A @ [p]\<rparr>)"

lemma activate_inv6:
  assumes I: "table_inv6 E s A D" and p: "p \<in> table_matches6 s (connl6 A)"
  shows "table_inv6 E (activate6 p s) (abs_activate6 s p A) D"
proof (cases "match_active6 s p")
  case False
  let ?s1 = "s\<lparr>match_active6 := (match_active6 s)(p := True)\<rparr>"
  let ?t = "act6.enqueue p ?s1"
  have L: "lists_rep6 s A" using I by (simp add: table_inv6_def)
  then have T: "act6.trepr ?s1 (actives6 A)" by (simp add: lists_rep6_def act6.trepr_def)
  have new: "p \<notin> set (actives6 A)" and nil: "active_next6 ?s1 p = None"
    using I p False by (auto simp: table_inv6_def)
  have "act6.trepr ?t (actives6 A @ [p])" by (rule act6.trepr_enqueue [OF T new nil])
  with L have L': "lists_rep6 ?t (A\<lparr>actives6 := actives6 A @ [p]\<rparr>)"
    by (simp add: lists_rep6_def mch6.repr_def cch6.repr_def alls6.trepr_def)
  have an: "active_next6 ?t q = None" if "q \<in> table_matches6 s (connl6 A)" "\<not> match_active6 ?t q" for q
  proof -
    from that I have "q \<notin> set (actives6 A)" "active_next6 s q = None"
      by (auto simp: table_inv6_def split: if_splits)
    with act6.nxt_enqueue [OF T, of q p] show ?thesis by simp
  qed
  have tm: "table_matches6 ?t cs = table_matches6 s cs" for cs by (rule table_matches_cong6) simp
  have po: "pair_ok6 ?t d = pair_ok6 s d" for d by (simp add: pair_ok6_def)
  have "set (actives6 A @ [p]) = {q \<in> table_matches6 s (connl6 A). match_active6 ?t q}"
    using I p by (auto simp: table_inv6_def)
  with L' an I have "table_inv6 E ?t (A\<lparr>actives6 := actives6 A @ [p]\<rparr>) D"
    unfolding table_inv6_def tm po by simp
  with False show ?thesis by (simp add: activate_conv6 abs_activate6_def)
qed (use I in \<open>simp add: activate_conv6 abs_activate6_def\<close>)

lemma activate_engine6:
  assumes I: "engine_inv6 E base s A D" and p: "p \<in> table_matches6 s (connl6 A)"
  shows "engine_inv6 E base (activate6 p s) (abs_activate6 s p A) D"
    and "quiet6 s A (activate6 p s) (abs_activate6 s p A)"
proof -
  have f: "cms6 (activate6 p s) = cms6 s" "conns6 (activate6 p s) = conns6 s"
    "dev_refcnt6 (activate6 p s) = dev_refcnt6 s" "connl6 (abs_activate6 s p A) = connl6 A"
    by (simp_all add: activate_conv6 abs_activate6_def)
  show "engine_inv6 E base (activate6 p s) (abs_activate6 s p A) D"
    using I activate_inv6 [OF engine_table6 [OF I] p] flow_ok_cong6 [OF f(1,2)] dev_uses_cong6 [OF f(2)]
      conn_key_cong6 [OF f(2)]
    by (simp add: engine_inv6_def refs_inv6_def f)
  show "quiet6 s A (activate6 p s) (abs_activate6 s p A)"
    using conn_key_cong6 [OF f(2)] by (simp add: quiet6_def f) (simp add: activate_conv6)
qed

lemma count_packet_engine6:
  assumes I: "engine_inv6 E base s A D"
  shows "engine_inv6 E base (count_packet6 p len s) A D" and "quiet6 s A (count_packet6 p len s) A"
proof -
  show "engine_inv6 E base (count_packet6 p len s) A D"
    by (rule same_table_engine6 [OF I same_table_count6]) (simp add: count_packet6_def)
  have "conn_key6 (count_packet6 p len s) = conn_key6 s" by (rule same_table_conn_key6 [OF same_table_count6])
  then show "quiet6 s A (count_packet6 p len s) A"
    by (simp add: quiet6_def) (simp add: count_packet6_def upd_cm6_def)
qed

lemma transmit_conv6: "udp_transmit6 = tcp_transmit6"
  by (simp add: fun_eq_iff udp_transmit6_def tcp_transmit6_def)

lemma transmit_handled6:
  assumes I: "engine_inv6 E base t B D" and q: "quiet6 s A t B" and p: "p \<in> table_matches6 t (connl6 B)"
  shows "handled6 E base s A D (tcp_transmit6 K p len skb t)"
proof -
  let ?t1 = "count_packet6 p len t"
  let ?u = "activate6 p ?t1" and ?C = "abs_activate6 ?t1 p B"
  note I1 = count_packet_engine6 [OF I, of p len]
  have p1: "p \<in> table_matches6 ?t1 (connl6 B)" using p same_table_matches6(2) [OF same_table_count6] by blast
  note I2 = activate_engine6 [OF I1(1) p1]
  have "quiet6 s A ?u ?C" by (rule quiet_trans6 [OF q quiet_trans6 [OF I1(2) I2(2)]])
  then show ?thesis using engine_counter6(7) [OF I2(1), of "packets_forwarded6 ?u + 1"]
    by (auto simp: handled6_def tcp_transmit6_def quiet6_def conn_key6_def fun_eq_iff Let_def intro!: exI [of _ ?C])
qed

section \<open>The handlers\<close>

lemma forward_handles6:
  assumes "engine_inv6 E base t B D" and "quiet6 s A t B" and "p \<in> table_matches6 t (connl6 B)"
  shows "handles6 E base s A D (udp_forward6 E K p len th skb t)"
    and "handles6 E base s A D (tcp_forward6 E K p len th skb t)"
  unfolding udp_forward6_def tcp_forward6_def transmit_conv6
  by (intro handles_control6 handles_Some6 freed_handled6 [OF assms(1,2)] transmit_handled6 [OF assms])+

lemma seq_check_window6:
  assumes "tcp_seq_check6 E skb th len own counter = Some (Inr u)"
  shows "win_scale (upd_own u) = win_scale own"
proof -
  obtain end_seq sack ack w where "u = tcp_advance own counter end_seq sack ack w"
    using assms by (auto simp: tcp_seq_check6_def Let_def bind_eq_Some_conv split: if_splits option.splits)
  then show ?thesis by (rule tcp_advance_forward(4))
qed

lemma tcp_track_same6:
  assumes "tcp_track6 E p len th skb t = Some (Inr u)"
  shows "same_table6 t u" and "dev_refcnt6 u = dev_refcnt6 t" and "quiet6 t B u B"
proof -
  let ?k = "cm_counter_match6 (cms6 t p)"
  have "same_table6 t u \<and> dev_refcnt6 u = dev_refcnt6 t \<and> quiet6 t B u B"
  proof (cases "has_flag (cm_flags6 (cms6 t p)) FLAG_NO_SEQ_CHECK")
    case True
    with assms show ?thesis by (simp add: tcp_track6_def)
  next
    case False
    then obtain v where v: "tcp_seq_check6 E skb th len (cm_tcp6 (cms6 t p)) (cm_tcp6 (cms6 t ?k)) = Some (Inr v)"
      and u: "u = upd_cm6 ?k (\<lambda>m. m\<lparr>cm_tcp6 := (cm_tcp6 m)\<lparr>max_end := upd_counter_max_end v\<rparr>\<rparr>)
                (upd_cm6 p (\<lambda>m. m\<lparr>cm_tcp6 := upd_own v\<rparr>) t)"
    proof -
      obtain r where r: "tcp_seq_check6 E skb th len (cm_tcp6 (cms6 t p)) (cm_tcp6 (cms6 t ?k)) = Some r"
        using assms False by (auto simp: tcp_track6_def Let_def bind_eq_Some_conv)
      show thesis
        using assms False r that by (cases r) (simp_all add: tcp_track6_def Let_def)
    qed
    have "same_table6 t (upd_cm6 p (\<lambda>m. m\<lparr>cm_tcp6 := upd_own v\<rparr>) t)"
      using seq_check_window6 [OF v] by (intro same_table_upd_cm6) (simp add: cm_static6_def)
    also have "same_table6 \<dots> u"
      unfolding u by (rule same_table_upd_cm6) (simp add: cm_static6_def)
    finally have S: "same_table6 t u" .
    moreover have "dev_refcnt6 u = dev_refcnt6 t" by (simp add: u)
    moreover have "quiet6 t B u B"
      using same_table_conn_key6 [OF S] by (simp add: quiet6_def) (simp add: u upd_cm6_def)
    ultimately show ?thesis by blast
  qed
  then show "same_table6 t u" and "dev_refcnt6 u = dev_refcnt6 t" and "quiet6 t B u B" by simp_all
qed

lemma recv_udp_handles6:
  assumes "engine_inv6 E base s A D"
  shows "handles6 E base s A D (sfe_ipv6_recv_udp E K skb dev len ihl flush s)"
proof -
  have q: "quiet6 s A s A" by simp
  show ?thesis
    unfolding sfe_ipv6_recv_udp_def Let_def
    by (intro handles_option6 handles_Some6 reject_handled6 [OF assms q] handles_bind6 handles_find6 [OF assms])
      (auto intro!: handles_control6 handles_Some6 handler_ends6 forward_handles6(1) split: option.splits)
qed

lemma recv_tcp_handles6:
  assumes "engine_inv6 E base s A D"
  shows "handles6 E base s A D (sfe_ipv6_recv_tcp E K skb dev len ihl flush s)"
proof -
  have q: "quiet6 s A s A" by simp
  have track: "handles6 E base s A D (case z of Inl e \<Rightarrow> Some (reject_flush6 E p e pkt t)
      | Inr u \<Rightarrow> tcp_forward6 E K p len th pkt u)"
    if "engine_inv6 E base t B D" "quiet6 s A t B" "p \<in> table_matches6 t (connl6 B)"
      "tcp_track6 E p len th pkt t = Some z" for z t B p th pkt
  proof (cases z)
    case (Inl e)
    then show ?thesis using that by (simp add: handles_Some6 reject_flush_handled6)
  next
    case (Inr u)
    note f = tcp_track_same6 [OF that(4) [unfolded Inr]]
    have "engine_inv6 E base u B D" by (rule same_table_engine6 [OF that(1) f(1,2)])
    moreover have "p \<in> table_matches6 u (connl6 B)" using that(3) same_table_matches6(2) [OF f(1)] by simp
    ultimately show ?thesis using forward_handles6(2) [OF _ quiet_trans6 [OF that(2) f(3)]] Inr by simp
  qed
  show ?thesis
    unfolding sfe_ipv6_recv_tcp_def Let_def
    by (intro handles_option6 handles_Some6 reject_handled6 [OF assms q] handles_bind6 handles_find6 [OF assms])
      (auto intro!: handles_control6(1,2) handles_Some6 handler_ends6 track split: option.splits)
qed

lemma icmp_flush_handles6:
  assumes "engine_inv6 E base s A D"
  shows "handles6 E base s A D (icmp_flush6 E skb dev icmp_iph src_port dest_port s)"
  unfolding icmp_flush6_def
  by (intro handles_bind6 handles_find6 [OF assms])
    (auto intro!: handles_Some6 handler_ends6 split: option.splits)

lemma recv_icmp_handles6:
  assumes "engine_inv6 E base s A D"
  shows "handles6 E base s A D (sfe_ipv6_recv_icmp E K skb dev ihl s)"
proof -
  have q: "quiet6 s A s A" by simp
  note r = handles_Some6 [OF reject_handled6 [OF assms q]]
  show ?thesis
    unfolding sfe_ipv6_recv_icmp_def Let_def
    by (intro handles_option6 handles_if6 handles_bind6 r)
      (auto intro!: handles_control6 r icmp_flush_handles6 [OF assms])
qed

theorem recv_locked_handles6:
  assumes "engine_inv6 E base s A D"
  shows "handles6 E base s A D (sfe_ipv6_recv_locked E K dev skb s)"
proof -
  have q: "quiet6 s A s A" by simp
  note r = handles_Some6 [OF reject_handled6 [OF assms q]]
  show ?thesis
    unfolding sfe_ipv6_recv_locked_def Let_def
    by (intro handles_option6 handles_if6 handles_bind6 r)
      (auto intro!: handles_control6 r recv_udp_handles6 [OF assms] recv_tcp_handles6 [OF assms]
        recv_icmp_handles6 [OF assms])
qed

section \<open>The whole entry point\<close>

lemma flush_report_calls6:
  "sync_calls6 (flush_report6 c reason sis now s) = sync_calls6 s @
     (case sync_rule_callback6 s of None \<Rightarrow> []
      | Some cb \<Rightarrow> [(cb, fst (sfe_ipv6_gen_sync_connection c sis reason now
                    (s\<lparr>connection_flushes6 := connection_flushes6 s + 1\<rparr>)))])"
proof -
  obtain m t where "sfe_ipv6_gen_sync_connection c sis reason now
      (s\<lparr>connection_flushes6 := connection_flushes6 s + 1\<rparr>) = (m, t)" by (cases rule: prod.exhaust)
  with gen_sync_frame6(2) [OF this] show ?thesis
    by (simp add: flush_report6_def call_sync_rule6_def Let_def split: option.split)
qed

theorem recv_engine6:
  assumes I: "engine_inv6 E base s A D" and r: "sfe_ipv6_recv E K dev skb sis now s = Some (out, t)"
  shows "\<exists>B. engine_inv6 E base t B D \<and> conn_key6 t = conn_key6 s \<and>
    (connl6 B = connl6 A \<or> (\<exists>c\<in>set (connl6 A). connl6 B = remove1 c (connl6 A)))"
proof -
  obtain c u where l: "sfe_ipv6_recv_locked E K dev skb s = Some (out, c, u)"
    and t: "t = flush_pending6 c sis now u"
    using r by (auto simp: sfe_ipv6_recv_def bind_eq_Some_conv)
  then obtain B where J: "engine_inv6 E base u B (pend_list c @ D)" and o: "taken_out6 c A B"
    and k: "conn_key6 u = conn_key6 s"
    using recv_locked_handles6 [OF I, of K dev skb] by (auto simp: handles6_def handled6_def)
  have "engine_inv6 E base t B D \<and> conn_key6 t = conn_key6 u"
    using J flush_engine6 [of E base u B] flush_flow6(2)
    by (cases c) (simp_all add: t flush_pending6_def)
  with o k show ?thesis by (cases c) auto
qed

end
