(* ===== verification/Sfe6_Rewrite.thy ===== *)
theory Sfe6_Rewrite
  imports Sfe6_Recv Sfe6_Rule_Inv Sfe_Rewrite
begin

text \<open>
  What the rewriting of an IPv6 packet does: which bytes it may touch, the fields afterwards, and the
  sum the receiver checks, over the addresses and the transport segment, which stays what it was
  modulo 65535. One form, \<open>l4_rewrite6\<close>, covers UDP and TCP.
\<close>

section \<open>Addresses in the packet\<close>

lemma rd_addr_defined: "i + 15 < unat (skb_headlen skb) \<Longrightarrow> \<exists>a. rd_addr E skb i = Some a"
  using rd32_total [of i skb E] rd32_total [of "i + 4" skb E] rd32_total [of "i + 8" skb E]
    rd32_total [of "i + 12" skb E]
  by (auto simp: rd_addr_def)

lemma patched_rd_addr:
  assumes "patched S skb skb'" and "{i..<i + 16} \<inter> S = {}"
  shows "rd_addr E skb' i = rd_addr E skb i"
proof -
  have "rd32 E skb' (i + d) = rd32 E skb (i + d)" if "d \<le> 12" for d
  proof (rule patched_rd32 [OF assms(1)])
    have "{i + d, i + d + 1, i + d + 2, i + d + 3} \<subseteq> {i..<i + 16}" using that by auto
    with assms(2) show "{i + d, i + d + 1, i + d + 2, i + d + 3} \<inter> S = {}" by blast
  qed
  from this [of 0] this [of 4] this [of 8] this [of 12] show ?thesis by (simp add: rd_addr_def)
qed

lemma wr_addr_spec:
  assumes "i + 15 < unat (skb_headlen skb)"
  obtains skb' where "wr_addr E skb i a = Some skb'" and "patched {i..<i + 16} skb skb'"
    and "rd_addr E skb' i = Some a"
proof -
  obtain s1 where w1: "wr32 E skb i (addr0 a) = Some s1" using wr32_total assms by force
  note p1 = wr32_patched [OF w1]
  obtain s2 where w2: "wr32 E s1 (i + 4) (addr1 a) = Some s2"
    using wr32_total [of "i + 4" s1] assms patched_fields(2) [OF p1] by force
  note p2 = wr32_patched [OF w2]
  obtain s3 where w3: "wr32 E s2 (i + 8) (addr2 a) = Some s3"
    using wr32_total [of "i + 8" s2] assms patched_fields(2) [OF p1] patched_fields(2) [OF p2] by force
  note p3 = wr32_patched [OF w3]
  obtain s4 where w4: "wr32 E s3 (i + 12) (addr3 a) = Some s4"
    using wr32_total [of "i + 12" s3] assms patched_fields(2) [OF p1] patched_fields(2) [OF p2]
      patched_fields(2) [OF p3] by force
  note p4 = wr32_patched [OF w4]
  note q3 = patched_trans [OF p3 p4] and q2 = patched_trans [OF p2 patched_trans [OF p3 p4]]
  have w: "wr_addr E skb i a = Some s4" by (simp add: wr_addr_def w1 w2 w3 w4)
  have p: "patched {i..<i + 16} skb s4"
    using patched_trans [OF p1 q2] by (rule patched_mono) auto
  have "rd32 E s4 i = Some (addr0 a)" "rd32 E s4 (i + 4) = Some (addr1 a)"
    "rd32 E s4 (i + 8) = Some (addr2 a)" "rd32 E s4 (i + 12) = Some (addr3 a)"
    using rd32_wr32 [OF w1] rd32_wr32 [OF w2] rd32_wr32 [OF w3] rd32_wr32 [OF w4]
      patched_rd32 [OF q2, of i E] patched_rd32 [OF q3, of "i + 4" E] patched_rd32 [OF p4, of "i + 8" E]
    by simp_all
  then have "rd_addr E s4 i = Some a" by (simp add: rd_addr_def)
  with w p show thesis by (rule that)
qed

section \<open>One end\<close>

text \<open>Common form of the four translations: \<open>ao\<close>, \<open>po\<close> and \<open>co\<close> are the places of address, port and checksum.\<close>

definition l4_check6 :: "bool \<Rightarrow> u16 \<Rightarrow> u16 \<Rightarrow> u16" where
  "l4_check6 skip_zero ck adj = (if skip_zero \<and> ck = 0 then 0 else apply_adjustment ck adj)"

definition l4_end6 ::
  "sfe_env \<Rightarrow> bool \<Rightarrow> nat \<Rightarrow> nat \<Rightarrow> nat \<Rightarrow> bool \<Rightarrow> sfe_ipv6_addr \<Rightarrow> u16 \<Rightarrow> u16 \<Rightarrow> sk_buff \<Rightarrow> sk_buff option" where
  "l4_end6 E skip_zero ao po co xlate xip xport adj skb =
     (if xlate then do {
        skb \<leftarrow> wr_addr E skb ao xip;
        skb \<leftarrow> wr16 E skb po xport;
        csum \<leftarrow> rd16 E skb co;
        (if skip_zero \<longrightarrow> csum \<noteq> 0 then wr16 E skb co (apply_adjustment csum adj) else Some skb)
      }
      else Some skb)"

definition l4_rewrite6 where
  "l4_rewrite6 E sz co m th skb = do {
     skb \<leftarrow> remark_dscp6 E m skb;
     hop_limit \<leftarrow> rd8 skb 7;
     skb \<leftarrow> wr8 skb 7 (hop_limit - 1);
     skb \<leftarrow> l4_end6 E sz 8 th co (has_flag (cm_flags6 m) FLAG_XLATE_SRC) (xlate_src_ip6 m) (xlate_src_port6 m)
              (xlate_src_csum_adjustment6 m) skb;
     l4_end6 E sz 24 (th + 2) co (has_flag (cm_flags6 m) FLAG_XLATE_DEST) (xlate_dest_ip6 m) (xlate_dest_port6 m)
       (xlate_dest_csum_adjustment6 m) skb
   }"

lemma rewrite_conv6:
  "udp_rewrite6 E m th skb = l4_rewrite6 E True (th + 6) m th skb"
  "tcp_rewrite6 E m th skb = l4_rewrite6 E False (th + 16) m th skb"
  by (simp_all add: udp_rewrite6_def tcp_rewrite6_def l4_rewrite6_def l4_end6_def
      udp_xlate_src6_def udp_xlate_dest6_def tcp_xlate_src6_def tcp_xlate_dest6_def cong: if_cong)

lemma l4_end6_spec:
  assumes len: "co + 1 < unat (skb_headlen skb)" and o: "ao + 15 < po" "po + 1 < co"
    and ck: "rd16 E skb co = Some ck"
    and key: "rd_addr E skb ao = Some mip" "rd16 E skb po = Some mport"
  obtains skb' where "l4_end6 E sz ao po co x xip xport adj skb = Some skb'"
    and "patched ({ao..<ao + 16} \<union> {po, po + 1, co, co + 1}) skb skb'"
    and "rd_addr E skb' ao = Some (if x then xip else mip)"
    and "rd16 E skb' po = Some (if x then xport else mport)"
    and "rd16 E skb' co = Some (if x then l4_check6 sz ck adj else ck)"
proof (cases x)
  case True
  have "ao + 15 < unat (skb_headlen skb)" using len o by simp
  then obtain s1 where s1: "wr_addr E skb ao xip = Some s1" and p1: "patched {ao..<ao + 16} skb s1"
    and a1: "rd_addr E s1 ao = Some xip" by (rule wr_addr_spec)
  obtain s2 where s2: "wr16 E s1 po xport = Some s2"
    using len o patched_fields(2) [OF p1] wr16_total [of po s1 E xport] by auto
  note p2 = wr16_patched [OF s2]
  note p12 = patched_trans [OF p1 p2]
  have ck2: "rd16 E s2 co = Some ck" using ck o patched_rd16 [OF p12, of co E] by auto
  let ?v = "apply_adjustment ck adj"
  obtain s3 where s3: "wr16 E s2 co ?v = Some s3"
    using len patched_fields(2) [OF p12] wr16_total [of co s2 E ?v] by auto
  let ?s = "if sz \<longrightarrow> ck \<noteq> 0 then s3 else s2"
  have p3: "patched {co, co + 1} s2 ?s" using wr16_patched [OF s3] by simp
  have "l4_end6 E sz ao po co x xip xport adj skb = Some ?s"
    using s1 s2 ck2 s3 True by (simp add: l4_end6_def)
  moreover have "patched ({ao..<ao + 16} \<union> {po, po + 1, co, co + 1}) skb ?s"
    using patched_trans [OF p12 p3] by (rule patched_mono) auto
  moreover have "rd_addr E ?s ao = Some (if x then xip else mip)"
  proof -
    have "rd_addr E ?s ao = rd_addr E s1 ao"
      using o by (intro patched_rd_addr [OF patched_trans [OF p2 p3]]) auto
    then show ?thesis using a1 True by simp
  qed
  moreover have "rd16 E ?s po = Some (if x then xport else mport)"
  proof -
    have "rd16 E ?s po = rd16 E s2 po" using o by (intro patched_rd16 [OF p3]) auto
    then show ?thesis using rd16_wr16 [OF s2] True by simp
  qed
  moreover have "rd16 E ?s co = Some (if x then l4_check6 sz ck adj else ck)"
    using rd16_wr16 [OF s3] ck2 True by (auto simp: l4_check6_def)
  ultimately show thesis by (rule that)
next
  case False
  then show thesis using that [of skb] ck key by (simp add: l4_end6_def)
qed

lemma dscp_hop_spec:
  assumes len: "7 < unat (skb_headlen skb)"
  obtains s1 h s2 where "remark_dscp6 E m skb = Some s1" and "rd8 skb 7 = Some h"
    and "rd8 s1 7 = Some h" and "wr8 s1 7 (h - 1) = Some s2"
    and "patched {0, 1, 7} skb s2" and "rd8 s2 7 = Some (h - 1)"
proof -
  have "\<exists>s1. remark_dscp6 E m skb = Some s1 \<and> patched {0, 1} skb s1"
  proof (cases "has_flag (cm_flags6 m) FLAG_DSCP_REMARK")
    case True
    obtain p where p: "rd16 E skb 0 = Some p" using rd16_total [of 0 skb E] len by auto
    let ?v = "(p AND ntohs E SFE_IPV6_DSCP_MASK) OR ntohs E (push_bit 4 (ucast (ucast (cm_dscp6 m) :: u8)))"
    obtain s1 where "wr16 E skb 0 ?v = Some s1" using wr16_total [of 0 skb E ?v] len by auto
    with p True wr16_patched [OF this] show ?thesis
      by (simp add: remark_dscp6_def sfe_ipv6_change_dsfield_def)
  qed (simp add: remark_dscp6_def)
  then obtain s1 where s1: "remark_dscp6 E m skb = Some s1" and p: "patched {0, 1} skb s1" by blast
  obtain h where h: "rd8 skb 7 = Some h" using rd8_total [OF len] by blast
  have h1: "rd8 s1 7 = Some h" using patched_rd8 [OF p, of 7] h by simp
  obtain s2 where s2: "wr8 s1 7 (h - 1) = Some s2"
    using wr8_total [of 7 s1] len patched_fields(2) [OF p] by auto
  show thesis
    using that [OF s1 h h1 s2 _ rd8_wr8 [OF s2]] patched_trans [OF p wr8_patched [OF s2]] by (simp add: insert_commute)
qed

section \<open>The whole rewrite\<close>

definition rewritten_check6 :: "sfe_ipv6_connection_match \<Rightarrow> bool \<Rightarrow> u16 \<Rightarrow> u16" where
  "rewritten_check6 m sz ck =
     (let c1 = (if has_flag (cm_flags6 m) FLAG_XLATE_SRC then l4_check6 sz ck (xlate_src_csum_adjustment6 m) else ck)
      in if has_flag (cm_flags6 m) FLAG_XLATE_DEST then l4_check6 sz c1 (xlate_dest_csum_adjustment6 m) else c1)"

theorem l4_rewrite6_spec:
  assumes len: "co + 1 < unat (skb_headlen skb)" and o: "40 \<le> th" "th + 3 < co"
    and ck: "rd16 E skb co = Some ck"
    and src: "rd_addr E skb 8 = Some (match_src_ip6 m)" "rd16 E skb th = Some (match_src_port6 m)"
    and dest: "rd_addr E skb 24 = Some (match_dest_ip6 m)" "rd16 E skb (th + 2) = Some (match_dest_port6 m)"
    and hop: "rd8 skb 7 = Some h"
  obtains skb' where "l4_rewrite6 E sz co m th skb = Some skb'"
    and "patched ({0, 1, 7} \<union> {8..<40} \<union> {th..<th + 4} \<union> {co, co + 1}) skb skb'"
    and "rd8 skb' 7 = Some (h - 1)"
    and "rd_addr E skb' 8 = Some (fst (eff_src6 m))" and "rd16 E skb' th = Some (snd (eff_src6 m))"
    and "rd_addr E skb' 24 = Some (fst (eff_dest6 m))" and "rd16 E skb' (th + 2) = Some (snd (eff_dest6 m))"
    and "rd16 E skb' co = Some (rewritten_check6 m sz ck)"
proof -
  have "7 < unat (skb_headlen skb)" using len o by linarith
  then obtain s1 s2 where s1: "remark_dscp6 E m skb = Some s1" and h1: "rd8 s1 7 = Some h"
    and s2: "wr8 s1 7 (h - 1) = Some s2" and p2: "patched {0, 1, 7} skb s2" and h2: "rd8 s2 7 = Some (h - 1)"
    using hop by (elim dscp_hop_spec [of skb E m]) simp
  note f2 = patched_fields [OF p2]
  have r2: "rd16 E s2 co = Some ck" "rd_addr E s2 8 = Some (match_src_ip6 m)" "rd16 E s2 th = Some (match_src_port6 m)"
    "rd_addr E s2 24 = Some (match_dest_ip6 m)" "rd16 E s2 (th + 2) = Some (match_dest_port6 m)"
    using ck src dest o patched_rd16 [OF p2, of co E] patched_rd16 [OF p2, of th E]
      patched_rd16 [OF p2, of "th + 2" E] patched_rd_addr [OF p2, of 8 E] patched_rd_addr [OF p2, of 24 E]
    by simp_all
  let ?x = "has_flag (cm_flags6 m) FLAG_XLATE_SRC" and ?y = "has_flag (cm_flags6 m) FLAG_XLATE_DEST"
  let ?c3 = "if ?x then l4_check6 sz ck (xlate_src_csum_adjustment6 m) else ck"
  have o2: "8 + 15 < th" "th + 1 < co" "co + 1 < unat (skb_headlen s2)" using o len f2 by simp_all
  obtain s3 where s3: "l4_end6 E sz 8 th co ?x (xlate_src_ip6 m) (xlate_src_port6 m)
        (xlate_src_csum_adjustment6 m) s2 = Some s3"
    and p3: "patched ({8..<8 + 16} \<union> {th, th + 1, co, co + 1}) s2 s3"
    and r3: "rd_addr E s3 8 = Some (if ?x then xlate_src_ip6 m else match_src_ip6 m)"
      "rd16 E s3 th = Some (if ?x then xlate_src_port6 m else match_src_port6 m)"
    and c3: "rd16 E s3 co = Some ?c3"
    by (rule l4_end6_spec [OF o2(3,1,2) r2(1-3)])
  note f3 = patched_fields [OF p3]
  have o3: "24 + 15 < th + 2" "th + 2 + 1 < co" "co + 1 < unat (skb_headlen s3)" using o o2 f3 by simp_all
  have r3': "rd_addr E s3 24 = Some (match_dest_ip6 m)" "rd16 E s3 (th + 2) = Some (match_dest_port6 m)"
    using r2 o patched_rd16 [OF p3, of "th + 2" E] patched_rd_addr [OF p3, of 24 E] by simp_all
  obtain s4 where s4: "l4_end6 E sz 24 (th + 2) co ?y (xlate_dest_ip6 m) (xlate_dest_port6 m)
        (xlate_dest_csum_adjustment6 m) s3 = Some s4"
    and p4: "patched ({24..<24 + 16} \<union> {th + 2, th + 2 + 1, co, co + 1}) s3 s4"
    and r4: "rd_addr E s4 24 = Some (if ?y then xlate_dest_ip6 m else match_dest_ip6 m)"
      "rd16 E s4 (th + 2) = Some (if ?y then xlate_dest_port6 m else match_dest_port6 m)"
    and c4: "rd16 E s4 co = Some (if ?y then l4_check6 sz ?c3 (xlate_dest_csum_adjustment6 m) else ?c3)"
    by (rule l4_end6_spec [OF o3(3,1,2) c3 r3'])
  have r4': "rd_addr E s4 8 = rd_addr E s3 8" "rd16 E s4 th = rd16 E s3 th"
    "rd8 s4 7 = Some (h - 1)"
    using h2 o patched_rd16 [OF p4, of th E] patched_rd_addr [OF p4, of 8 E] patched_rd8 [OF p4, of 7]
      patched_rd8 [OF p3, of 7] by simp_all
  have w: "l4_rewrite6 E sz co m th skb = Some s4" by (simp add: l4_rewrite6_def s1 h1 s2 s3 s4 del: add_2_eq_Suc')
  have p: "patched ({0, 1, 7} \<union> {8..<40} \<union> {th..<th + 4} \<union> {co, co + 1}) skb s4"
    using patched_trans [OF patched_trans [OF p2 p3] p4] by (rule patched_mono) auto
  show thesis
    using r3 r4 c4 r4' by (intro that [OF w p]) (simp_all add: eff_src6_def eff_dest6_def rewritten_check6_def Let_def)
qed

section \<open>The sum the receiver checks\<close>

text \<open>
  For a segment of \<open>n\<close> 16-bit words right after the IPv6 header: the sum over both addresses, ports,
  checksum and the rest of the segment. The other terms of the pseudo header do not change.
\<close>

definition l4_sum6 :: "sfe_env \<Rightarrow> nat \<Rightarrow> sk_buff \<Rightarrow> nat" where
  "l4_sum6 E n skb = (\<Sum>k\<in>{4..<20 + n}. ip_word E skb k)"

lemma l4_check6_end:
  assumes "ck \<noteq> 0 \<or> \<not> sz"
  shows "(unat (l4_check6 sz ck (csum_adjustment6 E mi mp xi xp)) + addr_sum xi + unat xp) mod 65535 =
      (unat ck + addr_sum mi + unat mp) mod 65535"
  using assms translated_csum6_mod [of ck E mi mp xi xp] by (auto simp: l4_check6_def)

lemma l4_check6_nonzero: "ck \<noteq> 0 \<Longrightarrow> l4_check6 sz ck adj \<noteq> 0"
  by (simp add: l4_check6_def apply_adjustment_nonzero)

lemma rewritten_check6_zero: "rewritten_check6 m True ck = 0 \<longleftrightarrow> ck = 0"
proof -
  have "l4_check6 True c adj = 0 \<longleftrightarrow> c = 0" for c adj
    using l4_check6_nonzero [of c True adj] by (auto simp: l4_check6_def)
  then show ?thesis by (simp add: rewritten_check6_def Let_def)
qed

text \<open>The part of the sum that one end contributes, besides the checksum.\<close>

definition end_sum :: "sfe_ipv6_addr \<times> u16 \<Rightarrow> nat" where
  "end_sum e = addr_sum (fst e) + unat (snd e)"

theorem rewritten_check6_mod:
  assumes adj: "adjusted6 E m" and ck: "ck \<noteq> 0 \<or> \<not> sz"
  shows "(unat (rewritten_check6 m sz ck) + end_sum (eff_src6 m) + end_sum (eff_dest6 m)) mod 65535 =
    (unat ck + end_sum (match_src_ip6 m, match_src_port6 m) + end_sum (match_dest_ip6 m, match_dest_port6 m)) mod 65535"
proof -
  let ?S = "end_sum (match_src_ip6 m, match_src_port6 m)" and ?T = "end_sum (match_dest_ip6 m, match_dest_port6 m)"
  let ?S' = "end_sum (eff_src6 m)" and ?T' = "end_sum (eff_dest6 m)"
  define c1 where "c1 = (if has_flag (cm_flags6 m) FLAG_XLATE_SRC
      then l4_check6 sz ck (xlate_src_csum_adjustment6 m) else ck)"
  define c2 where "c2 = rewritten_check6 m sz ck"
  have c1nz: "c1 \<noteq> 0 \<or> \<not> sz" using ck by (auto simp: c1_def l4_check6_nonzero)
  have 1: "(unat c1 + ?S') mod 65535 = (unat ck + ?S) mod 65535"
    using adj l4_check6_end [OF ck] by (auto simp: c1_def eff_src6_def adjusted6_def end_sum_def add.assoc)
  have 2: "(unat c2 + ?T') mod 65535 = (unat c1 + ?T) mod 65535"
    using adj l4_check6_end [OF c1nz]
    by (auto simp: c2_def rewritten_check6_def Let_def c1_def [symmetric] eff_dest6_def adjusted6_def end_sum_def add.assoc)
  have "(unat c2 + ?S' + ?T') mod 65535 = ((unat c2 + ?T') + ?S') mod 65535" by (simp add: ac_simps)
  also have "\<dots> = ((unat c1 + ?T) + ?S') mod 65535" by (intro mod_sum_eq 2 refl)
  also have "\<dots> = ((unat c1 + ?S') + ?T) mod 65535" by (simp add: ac_simps)
  also have "\<dots> = ((unat ck + ?S) + ?T) mod 65535" by (intro mod_sum_eq 1 refl)
  finally show ?thesis by (simp only: c2_def)
qed

lemma rd32_words:
  assumes "rd32 E skb (2 * k) = Some w"
  shows "unat w mod 65535 = (ip_word E skb k + ip_word E skb (k + 1)) mod 65535"
proof -
  obtain a b where "rd16 E skb (2 * k) = Some a" "rd16 E skb (2 * k + 2) = Some b" and w: "w = two_ports E a b"
    using assms by (auto simp: rd32_def bind_eq_Some_conv two_ports_def)
  then have "ip_word E skb k = unat a" "ip_word E skb (k + 1) = unat b" by (simp_all add: ip_word_def)
  then show ?thesis by (simp add: w two_ports_mod)
qed

lemma rd_addr_words:
  assumes "rd_addr E skb (2 * k) = Some a"
  shows "addr_sum a mod 65535 = (\<Sum>j\<in>{k..<k + 8}. ip_word E skb j) mod 65535"
proof -
  have r: "rd32 E skb (2 * k) = Some (addr0 a)" "rd32 E skb (2 * (k + 2)) = Some (addr1 a)"
    "rd32 E skb (2 * (k + 4)) = Some (addr2 a)" "rd32 E skb (2 * (k + 6)) = Some (addr3 a)"
    using assms by (auto simp: rd_addr_def bind_eq_Some_conv simp del: add_2_eq_Suc')
  have "addr_sum a = unat (addr0 a) + unat (addr1 a) + unat (addr2 a) + unat (addr3 a)"
    by (simp add: addr_sum_def addr_words_def)
  also have "\<dots> mod 65535 = ((ip_word E skb k + ip_word E skb (k + 1))
      + (ip_word E skb (k + 2) + ip_word E skb (k + 2 + 1))
      + (ip_word E skb (k + 4) + ip_word E skb (k + 4 + 1))
      + (ip_word E skb (k + 6) + ip_word E skb (k + 6 + 1))) mod 65535"
    by (intro mod_sum_eq rd32_words r)
  also have "\<dots> = (\<Sum>j\<in>{k, k + 1, k + 2, k + 3, k + 4, k + 5, k + 6, k + 7}. ip_word E skb j) mod 65535"
    by (simp add: add.assoc numeral_3_eq_3 add.commute [of k])
  also have "{k, k + 1, k + 2, k + 3, k + 4, k + 5, k + 6, k + 7} = {k..<k + 8}"
    unfolding set_eq_iff insert_iff empty_iff atLeastLessThan_iff by presburger
  finally show ?thesis .
qed

lemma ip_word_patched:
  assumes "patched S skb skb'" and "2 * k \<notin> S" and "2 * k + 1 \<notin> S"
  shows "ip_word E skb' k = ip_word E skb k"
  by (simp only: ip_word_def patched_rd16 [OF assms])

text \<open>The sum as its two ends, the checksum at word \<open>c\<close>, and the rest.\<close>

lemma l4_sum6_split:
  assumes c: "22 \<le> c" "c < 20 + n"
    and a: "rd_addr E skb 8 = Some sa" "rd_addr E skb 24 = Some da"
    and p: "rd16 E skb 40 = Some sp" "rd16 E skb 42 = Some dp" and ck: "rd16 E skb (2 * c) = Some ck"
  shows "l4_sum6 E n skb mod 65535 =
    (unat ck + end_sum (sa, sp) + end_sum (da, dp) + (\<Sum>k\<in>{22..<20 + n} - {c}. ip_word E skb k)) mod 65535"
proof -
  let ?w = "ip_word E skb" and ?R = "\<Sum>k\<in>{22..<20 + n} - {c}. ip_word E skb k"
  have u: "{4..<20 + n} = {4..<12} \<union> ({12..<20} \<union> ({20, 21} \<union> {22..<20 + n}))" using c by auto
  have "l4_sum6 E n skb = sum ?w {4..<12} + (sum ?w {12..<20} + (sum ?w {20, 21} + sum ?w {22..<20 + n}))"
    unfolding l4_sum6_def u by (subst sum.union_disjoint; auto)+
  also have "sum ?w {20, 21} = unat sp + unat dp" using p by (simp add: ip_word_def)
  also have "sum ?w {22..<20 + n} = unat ck + ?R"
    using c ck by (subst sum.remove [of _ c]) (auto simp: ip_word_def)
  finally have "l4_sum6 E n skb mod 65535 =
      (sum ?w {4..<12} + (sum ?w {12..<20} + (unat sp + unat dp + (unat ck + ?R)))) mod 65535" by simp
  also have "\<dots> = (addr_sum sa + (addr_sum da + (unat sp + unat dp + (unat ck + ?R)))) mod 65535"
    using rd_addr_words [of E skb 4 sa] rd_addr_words [of E skb 12 da] a
    by (intro mod_sum_eq refl) simp_all
  finally show ?thesis by (simp add: end_sum_def ac_simps)
qed

theorem l4_sum6_kept:
  assumes c: "22 \<le> c" "c < 20 + n" and adj: "adjusted6 E m" and nz: "ck \<noteq> 0 \<or> \<not> sz"
    and a: "rd_addr E skb 8 = Some (match_src_ip6 m)" "rd_addr E skb 24 = Some (match_dest_ip6 m)"
    and p: "rd16 E skb 40 = Some (match_src_port6 m)" "rd16 E skb 42 = Some (match_dest_port6 m)"
    and ck: "rd16 E skb (2 * c) = Some ck"
    and a': "rd_addr E skb' 8 = Some (fst (eff_src6 m))" "rd_addr E skb' 24 = Some (fst (eff_dest6 m))"
    and p': "rd16 E skb' 40 = Some (snd (eff_src6 m))" "rd16 E skb' 42 = Some (snd (eff_dest6 m))"
    and ck': "rd16 E skb' (2 * c) = Some (rewritten_check6 m sz ck)"
    and same: "patched ({0, 1, 7} \<union> {8..<44} \<union> {2 * c, 2 * c + 1}) skb skb'"
  shows "l4_sum6 E n skb' mod 65535 = l4_sum6 E n skb mod 65535"
proof -
  have "(\<Sum>k\<in>{22..<20 + n} - {c}. ip_word E skb' k) = (\<Sum>k\<in>{22..<20 + n} - {c}. ip_word E skb k)"
    by (intro sum.cong refl ip_word_patched [OF same];
        simp only: Diff_iff Un_iff insert_iff empty_iff atLeastLessThan_iff; presburger)
  then have "l4_sum6 E n skb' mod 65535 = (unat (rewritten_check6 m sz ck) + end_sum (eff_src6 m) + end_sum (eff_dest6 m)
      + (\<Sum>k\<in>{22..<20 + n} - {c}. ip_word E skb k)) mod 65535"
    using l4_sum6_split [OF c a' p' ck'] by simp
  also have "\<dots> = (unat ck + end_sum (match_src_ip6 m, match_src_port6 m) + end_sum (match_dest_ip6 m, match_dest_port6 m)
      + (\<Sum>k\<in>{22..<20 + n} - {c}. ip_word E skb k)) mod 65535"
    by (intro mod_sum_eq rewritten_check6_mod [OF adj nz] refl)
  also have "\<dots> = l4_sum6 E n skb mod 65535" by (rule l4_sum6_split [OF c a p ck, symmetric])
  finally show ?thesis .
qed

end
