(* ===== verification/Sfe6_Recv_Safe.thy ===== *)
theory Sfe6_Recv_Safe
  imports Sfe6_Recv_Inv Sfe6_Rewrite Sfe_Recv_Safe
begin

text \<open>
  The packet path of the IPv6 engine returns. The walk over the extension headers ends because each one
  is at least eight bytes long and must be followed by eight bytes of the packet; a packet below
  \<open>2 ^ 31\<close> bytes keeps its offsets from wrapping around. For TCP the options must be in the linear area, as
  in the IPv4 engine (\<open>tcp_linear6\<close>).
\<close>

definition bounded :: "sk_buff \<Rightarrow> bool" where
  "bounded skb \<longleftrightarrow> unat (skb_len skb) < 2147483648"

lemma bounded_headlen:
  assumes "skb_ok skb" and "bounded skb"
  shows "unat (skb_headlen skb) < 2147483648"
  using assms by (simp add: skb_ok_def bounded_def word_le_nat_alt)

lemma bounded_same: "same_packet skb skb' \<Longrightarrow> bounded skb \<Longrightarrow> bounded skb'"
  by (simp add: bounded_def same_packetD(1))

section \<open>Extension headers\<close>

text \<open>Where the walk may stand: eight bytes of the packet follow.\<close>

definition at_header :: "sk_buff \<Rightarrow> u32 \<Rightarrow> bool" where
  "at_header skb ihl \<longleftrightarrow> unat ihl + 8 \<le> unat (skb_headlen skb)"

lemma ext_hdr_len_value:
  fixes b :: u8
  shows "unat (push_bit 3 (ucast b) + SIZEOF_IPV6_EXT_HDR) = 8 * unat b + 8" and "unat b < 256"
proof -
  show b: "unat b < 256" using unsigned_less [of b] by simp
  have u: "unat (ucast b :: u32) = unat b" using b by (simp add: unsigned_ucast_eq take_bit_nat_eq_self)
  then show "unat (push_bit 3 (ucast b) + SIZEOF_IPV6_EXT_HDR) = 8 * unat b + 8"
    using b by (simp add: SIZEOF_IPV6_EXT_HDR_def push_bit_eq_mult unat_word_ariths)
qed

text \<open>A header that was skipped moves the walk forward by at least eight bytes, without wrap-around.\<close>

lemma ext_hdr_step:
  assumes K: "kernel_ok K" and ok: "skb_ok skb" and b: "bounded skb" and at: "at_header skb ihl"
    and p: "pskb_may_pull K skb (ihl + (push_bit 3 (ucast (v :: u8)) + SIZEOF_IPV6_EXT_HDR) + SIZEOF_IPV6_EXT_HDR) = Some skb'"
  shows "at_header skb' (ihl + (push_bit 3 (ucast v) + SIZEOF_IPV6_EXT_HDR))"
    and "unat ihl + 8 \<le> unat (ihl + (push_bit 3 (ucast v) + SIZEOF_IPV6_EXT_HDR))"
proof -
  let ?e = "push_bit 3 (ucast v) + SIZEOF_IPV6_EXT_HDR :: u32"
  note e = ext_hdr_len_value [of v]
  have i: "unat ihl < 2147483648" using at bounded_headlen [OF ok b] by (simp add: at_header_def)
  then have s: "unat (ihl + ?e) = unat ihl + unat ?e" using e by (intro unat_add32) simp
  have e8: "unat SIZEOF_IPV6_EXT_HDR = 8" by (simp add: SIZEOF_IPV6_EXT_HDR_def)
  have "unat (ihl + ?e + SIZEOF_IPV6_EXT_HDR) = unat (ihl + ?e) + unat SIZEOF_IPV6_EXT_HDR"
    using i e s e8 by (intro unat_add32) linarith
  then show "at_header skb' (ihl + ?e)" using pulled(1) [OF K ok p] e8 by (simp only: at_header_def)
  show "unat ihl + 8 \<le> unat (ihl + ?e)" using s e by simp
qed

theorem ext_headers_end:
  assumes "kernel_ok K" and "skb_ok skb" and "bounded skb" and "at_header skb ihl"
  shows "\<exists>skb' r. ext_headers E K skb ihl next_hdr skipped = Some (skb', r) \<and> same_packet skb skb' \<and> skb_ok skb' \<and>
    (\<forall>ihl' n k. r = Inr (ihl', n, k) \<longrightarrow> at_header skb' ihl' \<and> \<not> sfe_ipv6_is_ext_hdr n \<and>
       (k \<or> ihl' = ihl \<and> n = next_hdr \<and> k = skipped))"
  using assms
proof (induction "2147483648 - unat ihl" arbitrary: skb ihl next_hdr skipped rule: less_induct)
  case less
  have refl: "same_packet skb skb" using less.prems(2) by (simp add: same_packet_def skb_ok_def)
  show ?case
  proof (cases "sfe_ipv6_is_ext_hdr next_hdr")
    case False
    then show ?thesis using less.prems refl by (simp add: ext_headers.simps)
  next
    case ext: True
    have h: "unat ihl + 8 \<le> unat (skb_headlen skb)" using less.prems(4) by (simp add: at_header_def)
    obtain later where later: "non_initial_fragment E skb ihl next_hdr = Some later"
      using h rd16_total [of "unat ihl + 2" skb E]
      by (cases "next_hdr = SFE_IPV6_EXT_HDR_FRAG")
        (auto simp: non_initial_fragment_def simp del: add_2_eq_Suc')
    show ?thesis
    proof (cases later)
      case True
      then show ?thesis using less.prems refl ext later
        by (intro exI [of _ skb] exI [of _ "Inl V6_NON_INITIAL_FRAGMENT"]) (simp add: ext_headers.simps)
    next
      case False
      obtain v where v: "rd8 skb (unat ihl + 1) = Some v" using h rd8_total [of "unat ihl + 1" skb] by auto
      let ?e = "push_bit 3 (ucast v) + SIZEOF_IPV6_EXT_HDR :: u32"
      show ?thesis
      proof (cases "pskb_may_pull K skb (ihl + ?e + SIZEOF_IPV6_EXT_HDR)")
        case None
        then show ?thesis using less.prems refl ext later False v
          by (intro exI [of _ skb] exI [of _ "Inl V6_HEADER_INCOMPLETE"]) (simp add: ext_headers.simps Let_def)
      next
        case (Some skb1)
        note P = pulled [OF less.prems(1,2) Some]
        note st = ext_hdr_step [OF less.prems(1-4) Some]
        obtain n where n: "rd8 skb1 (unat ihl) = Some n" using h P(2) rd8_total [of "unat ihl" skb1] by auto
        have lt: "2147483648 - unat (ihl + ?e) < 2147483648 - unat ihl"
          using st(2) h bounded_headlen [OF less.prems(2,3)] by linarith
        have step: "ext_headers E K skb ihl next_hdr skipped = ext_headers E K skb1 (ihl + ?e) n True"
          using ext later False v Some n by (subst ext_headers.simps) (simp add: Let_def)
        obtain skb' r where e: "ext_headers E K skb1 (ihl + ?e) n True = Some (skb', r)"
          and sp: "same_packet skb1 skb'" "skb_ok skb'"
          and g: "\<forall>ihl' n k. r = Inr (ihl', n, k) \<longrightarrow> at_header skb' ihl' \<and> \<not> sfe_ipv6_is_ext_hdr n \<and> k"
          using less.hyps [OF lt less.prems(1) P(3) bounded_same [OF P(4) less.prems(3)] st(1), of n True] by blast
        have "ext_headers E K skb ihl next_hdr skipped = Some (skb', r)" by (simp only: step e)
        moreover have "same_packet skb skb'" by (rule same_packet_trans [OF P(4) sp(1)])
        ultimately show ?thesis using sp(2) g by blast
      qed
    qed
  qed
qed

section \<open>Rewriting\<close>

lemma l4_rewrite6_runs:
  assumes len: "co + 1 < unat (skb_headlen skb)" and o: "40 \<le> th" "th + 3 < co"
  shows "runs (l4_rewrite6 E sz co m th skb)"
proof -
  obtain ck sip sp dip dp h where r: "rd16 E skb co = Some ck" "rd_addr E skb 8 = Some sip"
      "rd16 E skb th = Some sp" "rd_addr E skb 24 = Some dip" "rd16 E skb (th + 2) = Some dp" "rd8 skb 7 = Some h"
    using len o rd16_total [of co skb E] rd16_total [of th skb E] rd16_total [of "th + 2" skb E]
      rd_addr_defined [of 8 skb E] rd_addr_defined [of 24 skb E] rd8_total [of 7 skb] by auto
  let ?m = "m\<lparr>match_src_ip6 := sip, match_src_port6 := sp, match_dest_ip6 := dip, match_dest_port6 := dp\<rparr>"
  have "l4_rewrite6 E sz co ?m th skb = l4_rewrite6 E sz co m th skb"
    by (simp add: l4_rewrite6_def remark_dscp6_def cong: if_cong)
  moreover obtain skb' where "l4_rewrite6 E sz co ?m th skb = Some skb'"
    by (rule l4_rewrite6_spec [OF len o, of E ck ?m h sz]) (use r in simp_all)
  ultimately have "l4_rewrite6 E sz co m th skb = Some skb'" by simp
  then show ?thesis by (simp only: runs_Some)
qed

lemma forward_runs6:
  assumes "kernel_ok K" and "skb_ok skb"
  shows "48 \<le> unat (skb_headlen skb) \<Longrightarrow> runs (udp_forward6 E K p len 40 skb s)"
    and "60 \<le> unat (skb_headlen skb) \<Longrightarrow> runs (tcp_forward6 E K p len 40 skb s)"
  unfolding udp_forward6_def tcp_forward6_def rewrite_conv6
  by (auto intro!: runs_option runs_bind l4_rewrite6_runs dest!: own_packet_headlen [OF assms])

section \<open>UDP\<close>

lemma runs_rd_addr: "i + 15 < unat (skb_headlen skb) \<Longrightarrow> runs (rd_addr E skb i)"
  using rd_addr_defined by (auto simp: runs_def)

lemma find_runs6:
  assumes "engine_inv6 E base s A D"
  shows "runs (sfe_ipv6_find_connection_match E dev pr si sp di dp s)"
  by (rule find_engine6 [OF assms, of dev pr si sp di dp]) (simp add: runs_def)

lemma pull_value:
  assumes "unat ihl < 2147483648" and "unat n \<le> 100"
  shows "unat (n + ihl :: u32) = unat n + unat ihl" and "unat (ihl + n) = unat ihl + unat n"
  using assms by (auto intro!: unat_add32)

lemma recv_udp_runs6:
  assumes I: "engine_inv6 E base s A D" and K: "kernel_ok K" and ok: "skb_ok skb" and b: "bounded skb"
    and at: "at_header skb ihl" and ihl: "\<not> flush \<Longrightarrow> ihl = 40" and len: "40 \<le> unat (skb_headlen skb)"
  shows "runs (sfe_ipv6_recv_udp E K skb dev len ihl flush s)"
proof (cases "pskb_may_pull K skb (SIZEOF_UDP_HDR + ihl)")
  case (Some skb1)
  note P = pulled [OF K ok Some]
  have "unat ihl < 2147483648" using at bounded_headlen [OF ok b] by (simp add: at_header_def)
  then have h: "8 + unat ihl \<le> unat (skb_headlen skb1)" "40 \<le> unat (skb_headlen skb1)"
    using P(1,2) len by (simp_all add: SIZEOF_UDP_HDR_def pull_value)
  have f: "runs (udp_forward6 E K p len (unat ihl) skb1 t)" if "\<not> flush" for p t
    using forward_runs6(1) [OF K P(3), of E p len t] h ihl [OF that] by simp
  show ?thesis
    unfolding sfe_ipv6_recv_udp_def Some option.case
    using h f by (auto intro!: runs_bind runs_rd runs_rd_addr find_runs6 [OF I] runs_option)
qed (simp add: sfe_ipv6_recv_udp_def)

section \<open>TCP\<close>

definition tcp_linear6 :: "sk_buff \<Rightarrow> bool" where
  "tcp_linear6 skb \<longleftrightarrow>
     (skb_bytes skb 6 = 6 \<longrightarrow> options_readable skb 40 (4 * unat (drop_bit 4 (skb_bytes skb 52))))"

lemma process_sack6: "sfe_ipv6_process_tcp_option_sack = sfe_ipv4_process_tcp_option_sack"
  by (simp add: fun_eq_iff sfe_ipv6_process_tcp_option_sack_def sfe_ipv4_process_tcp_option_sack_def)

lemma seq_check_runs6:
  assumes len: "60 \<le> unat (skb_headlen skb)"
    and opts: "options_readable skb 40 (4 * unat (drop_bit 4 (skb_bytes skb 52)))"
  shows "runs (tcp_seq_check6 E skb 40 len own counter)"
proof -
  let ?b = "skb_bytes skb 52"
  have doff: "rd8 skb (40 + 12) = Some ?b" using len by (simp add: rd8_def)
  have parse: "runs (sfe_ipv4_process_tcp_option_sack skb 40 (push_bit 2 (ucast (drop_bit 4 ?b))) ack)"
    if "\<not> push_bit 2 (ucast (drop_bit 4 ?b)) < SIZEOF_TCP_HDR" for ack
    using process_sack_readable [of skb 40 "push_bit 2 (ucast (drop_bit 4 ?b))" ack] that data_offs_value [of ?b] opts
    by (simp add: runs_def word_less_nat_alt SIZEOF_TCP_HDR_def)
  show ?thesis
    unfolding tcp_seq_check6_def process_sack6 Let_def doff bind.simps
    using len by (auto intro!: runs_bind runs_rd parse split: option.split)
qed

lemma recv_tcp_runs6:
  assumes I: "engine_inv6 E base s A D" and K: "kernel_ok K" and ok: "skb_ok skb" and b: "bounded skb"
    and at: "at_header skb ihl" and ihl: "\<not> flush \<Longrightarrow> ihl = 40" and len: "40 \<le> unat (skb_headlen skb)"
    and opts: "\<not> flush \<Longrightarrow> 52 < unat (skb_len skb) \<Longrightarrow>
      options_readable skb 40 (4 * unat (drop_bit 4 (skb_bytes skb 52)))"
  shows "runs (sfe_ipv6_recv_tcp E K skb dev len ihl flush s)"
proof (cases "pskb_may_pull K skb (SIZEOF_TCP_HDR + ihl)")
  case (Some skb1)
  note P = pulled [OF K ok Some]
  have "unat ihl < 2147483648" using at bounded_headlen [OF ok b] by (simp add: at_header_def)
  then have h: "20 + unat ihl \<le> unat (skb_headlen skb1)" "40 \<le> unat (skb_headlen skb1)"
    using P(1,2) len by (simp_all add: SIZEOF_TCP_HDR_def pull_value)
  have f: "runs (tcp_forward6 E K p len (unat ihl) skb1 t)" if "\<not> flush" for p t
    using forward_runs6(2) [OF K P(3), of E p len t] h ihl [OF that] by simp
  have track: "runs (tcp_track6 E p len (unat ihl) skb1 t)" if "\<not> flush" for p t
  proof -
    have i: "unat ihl = 40" using ihl [OF that] by simp
    have l: "60 \<le> unat (skb_headlen skb1)" using h i by simp
    have "skb_headlen skb1 \<le> skb_len skb1" using P(3) by (simp add: skb_ok_def)
    then have len: "52 < unat (skb_len skb)"
      using l same_packetD(1) [OF P(4)] by (simp add: word_le_nat_alt)
    have "skb_bytes skb1 52 = skb_bytes skb 52" by (rule same_packetD(2) [OF P(4) len])
    moreover have ok': "unat (skb_headlen skb) \<le> unat (skb_len skb)" using ok by (simp add: skb_ok_def word_le_nat_alt)
    ultimately have "options_readable skb1 40 (4 * unat (drop_bit 4 (skb_bytes skb1 52)))"
      using options_readable_pulled [OF opts [OF that len] P(2) ok' P(4)] by simp
    from seq_check_runs6 [OF l this] show ?thesis
      unfolding tcp_track6_def Let_def i
      by (intro runs_if runs_bind runs_sum) simp_all
  qed
  show ?thesis
    unfolding sfe_ipv6_recv_tcp_def Some option.case
    using h f track by (auto intro!: runs_bind runs_rd runs_rd_addr find_runs6 [OF I] runs_option runs_sum)
qed (simp add: sfe_ipv6_recv_tcp_def)

section \<open>ICMP\<close>

lemma icmp_flush_runs6:
  assumes "engine_inv6 E base s A D" and "i + 39 < unat (skb_headlen skb)"
  shows "runs (icmp_flush6 E skb dev i sp dp s)"
  unfolding icmp_flush6_def
  using assms(2) by (auto intro!: runs_bind runs_rd runs_rd_addr find_runs6 [OF assms(1)] split: option.split)

text \<open>The rest of the handler of an error message, from the embedded IPv6 header at \<open>i\<close> on.\<close>

lemma icmp_embedded_runs6:
  assumes I: "engine_inv6 E base s A D" and K: "kernel_ok K" and ok: "skb_ok skb" and b: "bounded skb"
    and at: "at_header skb ihl" and i: "i + 39 < unat (skb_headlen skb)"
  shows "runs (do {
      (skb, r) \<leftarrow> ext_headers E K skb ihl next_hdr False;
      (case r of
         Inl e \<Rightarrow> Some (reject6 e skb s)
       | Inr (ihl, next_hdr, _) \<Rightarrow>
           if next_hdr = ucast IPPROTO_UDP \<or> next_hdr = ucast IPPROTO_TCP then do {
             src_port \<leftarrow> rd16 E skb (unat ihl);
             dest_port \<leftarrow> rd16 E skb (unat ihl + 2);
             icmp_flush6 E skb dev i src_port dest_port s
           }
           else Some (reject6 V6_ICMP_IPV6_UNHANDLED_PROTOCOL skb s))
    })"
proof -
  obtain skb' r where e: "ext_headers E K skb ihl next_hdr False = Some (skb', r)" and sp: "same_packet skb skb'"
    and h: "\<And>ihl' n k. r = Inr (ihl', n, k) \<Longrightarrow> at_header skb' ihl'"
    using ext_headers_end [OF K ok b at, of E next_hdr False] by blast
  have i': "i + 39 < unat (skb_headlen skb')" using i same_packet_headlen [OF sp] by simp
  show ?thesis
  proof (cases r)
    case (Inl x)
    then show ?thesis by (simp add: e)
  next
    case (Inr v)
    obtain ihl' n k where v: "v = (ihl', n, k)" by (cases v)
    have "unat ihl' + 8 \<le> unat (skb_headlen skb')" using h Inr v by (simp add: at_header_def)
    then show ?thesis using icmp_flush_runs6 [OF I i']
      by (auto simp: e Inr v intro!: runs_bind runs_rd)
  qed
qed

lemma recv_icmp_runs6:
  assumes I: "engine_inv6 E base s A D" and K: "kernel_ok K" and ok: "skb_ok skb" and b: "bounded skb"
    and at: "at_header skb ihl"
  shows "runs (sfe_ipv6_recv_icmp E K skb dev ihl s)"
proof (cases "pskb_may_pull K skb (ihl + SIZEOF_ICMP6_HDR)")
  case s1: (Some skb1)
  note P1 = pulled [OF K ok s1]
  have i: "unat ihl < 2147483648" using at bounded_headlen [OF ok b] by (simp add: at_header_def)
  then have n: "unat (ihl + SIZEOF_ICMP6_HDR) = unat ihl + 8"
    and n2: "unat (ihl + SIZEOF_ICMP6_HDR + SIZEOF_IPV6_HDR) = unat ihl + 48"
    and n3: "unat (ihl + SIZEOF_ICMP6_HDR + SIZEOF_IPV6_HDR + SIZEOF_IPV6_EXT_HDR) = unat ihl + 56"
    by (simp_all add: SIZEOF_ICMP6_HDR_def SIZEOF_IPV6_HDR_def SIZEOF_IPV6_EXT_HDR_def unat_word_ariths)
  show ?thesis
  proof (cases "pskb_may_pull K skb1 (ihl + SIZEOF_ICMP6_HDR + SIZEOF_IPV6_HDR + SIZEOF_IPV6_EXT_HDR)")
    case None
    then show ?thesis unfolding sfe_ipv6_recv_icmp_def Let_def s1 option.case
      using P1 n by (auto intro!: runs_bind runs_rd)
  next
    case s2: (Some skb2)
    note P2 = pulled [OF K P1(3) s2]
    have b2: "bounded skb2" by (rule bounded_same [OF P2(4) bounded_same [OF P1(4) b]])
    have l: "unat ihl + 56 \<le> unat (skb_headlen skb2)" using P2(1) n3 by simp
    have at2: "at_header skb2 (ihl + SIZEOF_ICMP6_HDR + SIZEOF_IPV6_HDR)" using l n2 by (simp add: at_header_def)
    have i2: "unat (ihl + SIZEOF_ICMP6_HDR) + 39 < unat (skb_headlen skb2)" using l n by simp
    have r: "runs (rd8 skb1 (unat ihl))" "runs (rd8 skb2 (unat (ihl + SIZEOF_ICMP6_HDR)))"
      "runs (rd8 skb2 (unat (ihl + SIZEOF_ICMP6_HDR) + 6))"
      using P1(1) n l by (auto intro!: runs_rd)
    show ?thesis unfolding sfe_ipv6_recv_icmp_def Let_def s1 s2 option.case
      by (intro runs_bind runs_if r icmp_embedded_runs6 [OF I K P2(3) b2 at2 i2]) simp_all
  qed
qed (simp add: sfe_ipv6_recv_icmp_def Let_def)

section \<open>The entry point\<close>

theorem recv_locked_runs6:
  assumes I: "engine_inv6 E base s A D" and K: "kernel_ok K" and ok: "skb_ok skb" and b: "bounded skb"
    and lin: "tcp_linear6 skb"
  shows "runs (sfe_ipv6_recv_locked E K dev skb s)"
proof (cases "pskb_may_pull K skb (SIZEOF_IPV6_HDR + SIZEOF_IPV6_EXT_HDR)")
  case (Some skb1)
  note P = pulled [OF K ok Some]
  have h: "48 \<le> unat (skb_headlen skb1)" using P(1) by (simp add: SIZEOF_IPV6_HDR_def SIZEOF_IPV6_EXT_HDR_def)
  have len: "skb_len skb1 = skb_len skb" by (rule same_packetD [OF P(4)])
  have "skb_headlen skb1 \<le> skb_len skb1" using P(3) by (simp add: skb_ok_def)
  then have l: "48 \<le> unat (skb_len skb)" using h len by (simp add: word_le_nat_alt)
  have b6: "rd8 skb1 6 = Some (skb_bytes skb 6)"
    using same_packetD(2) [OF P(4), of 6] l h by (simp add: rd8_def)
  have at: "at_header skb1 SIZEOF_IPV6_HDR" using h by (simp add: at_header_def SIZEOF_IPV6_HDR_def)
  obtain skb2 r where e: "ext_headers E K skb1 SIZEOF_IPV6_HDR (skb_bytes skb 6) False = Some (skb2, r)"
    and S: "same_packet skb1 skb2" "skb_ok skb2"
    and g: "\<And>ihl n k. r = Inr (ihl, n, k) \<Longrightarrow> at_header skb2 ihl \<and>
      (k \<or> ihl = SIZEOF_IPV6_HDR \<and> n = skb_bytes skb 6 \<and> \<not> k)"
    using ext_headers_end [OF K P(3) bounded_same [OF P(4) b] at, of E "skb_bytes skb 6" False] by auto
  have b2: "bounded skb2" by (rule bounded_same [OF S(1) bounded_same [OF P(4) b]])
  have h2: "40 \<le> unat (skb_headlen skb2)" using same_packet_headlen [OF S(1)] h by simp
  have opts: "options_readable skb2 40 (4 * unat (drop_bit 4 (skb_bytes skb2 52)))"
    if "skb_bytes skb 6 = 6" "52 < unat (skb_len skb2)"
  proof -
    have "skb_bytes skb2 52 = skb_bytes skb 52"
      using that(2) same_packetD(1) [OF S(1)] len by (intro same_packetD(2) [OF same_packet_trans [OF P(4) S(1)]]) simp
    moreover have "unat (skb_headlen skb) \<le> unat (skb_len skb)" using ok by (simp add: skb_ok_def word_le_nat_alt)
    moreover have "unat (skb_headlen skb) \<le> unat (skb_headlen skb2)" using P(2) same_packet_headlen [OF S(1)] by simp
    ultimately show ?thesis
      using lin that(1) options_readable_pulled [OF _ _ _ same_packet_trans [OF P(4) S(1)]] by (simp add: tcp_linear6_def)
  qed
  have proto: "n = 6" if "ucast n = IPPROTO_TCP" for n :: u8 using that by (simp add: protocol_bytes)
  have rest: "runs (case r of
                Inl e \<Rightarrow> Some (reject6 e skb2 s)
              | Inr (ihl, next_hdr, flush_on_find) \<Rightarrow>
                  if ucast next_hdr = IPPROTO_UDP then sfe_ipv6_recv_udp E K skb2 dev len ihl flush_on_find s
                  else if ucast next_hdr = IPPROTO_TCP then sfe_ipv6_recv_tcp E K skb2 dev len ihl flush_on_find s
                  else if ucast next_hdr = IPPROTO_ICMPV6 then sfe_ipv6_recv_icmp E K skb2 dev ihl s
                  else Some (reject6 V6_UNHANDLED_PROTOCOL skb2 s))" for len
  proof (cases r)
    case (Inr v)
    obtain ihl n k where v: "v = (ihl, n, k)" by (cases v)
    have at2: "at_header skb2 ihl" and nk: "\<not> k \<Longrightarrow> ihl = 40" "\<not> k \<Longrightarrow> n = skb_bytes skb 6"
      using g [of ihl n k] Inr v by (auto simp: SIZEOF_IPV6_HDR_def)
    have tcp: "runs (sfe_ipv6_recv_tcp E K skb2 dev len ihl k s)" if "ucast n = IPPROTO_TCP"
      using nk(2) proto [OF that] opts by (intro recv_tcp_runs6 [OF I K S(2) b2 at2 nk(1) h2]) simp_all
    show ?thesis
      using recv_udp_runs6 [OF I K S(2) b2 at2 nk(1) h2] tcp recv_icmp_runs6 [OF I K S(2) b2 at2]
      by (simp add: Inr v)
  qed simp
  show ?thesis
    unfolding sfe_ipv6_recv_locked_def Let_def Some option.case
    by (intro runs_bind runs_if runs_rd) (use h b6 e rest in auto)
qed (simp add: sfe_ipv6_recv_locked_def Let_def)

text \<open>
  A packet whose next header is neither an extension header nor one of the three protocols is rejected
  before a flow is looked up.
\<close>

lemma protocol_byte_icmpv6: "ucast (p :: u8) = IPPROTO_ICMPV6 \<longleftrightarrow> p = 58"
  using ucast8_inj [of p 58] by (simp add: IPPROTO_ICMPV6_def)

lemma other_protocol_rejected6:
  assumes K: "kernel_ok K" and ok: "skb_ok skb" and b: "bounded skb" and p: "skb_bytes skb 6 \<notin> {6, 17, 58}"
    and x: "\<not> sfe_ipv6_is_ext_hdr (skb_bytes skb 6)"
    and r: "sfe_ipv6_recv E K dev skb sis now s = Some (out, t)"
  shows "\<exists>e pkt. out = NotForwarded pkt \<and> same_packet skb pkt \<and> t = count_exception6 e s"
proof -
  obtain c u where l: "sfe_ipv6_recv_locked E K dev skb s = Some (out, c, u)" and t: "t = flush_pending6 c sis now u"
    using r by (auto simp: sfe_ipv6_recv_def bind_eq_Some_conv)
  have "\<exists>e pkt. (out, c, u) = reject6 e pkt s \<and> same_packet skb pkt"
  proof (cases "pskb_may_pull K skb (SIZEOF_IPV6_HDR + SIZEOF_IPV6_EXT_HDR)")
    case None
    then have "(out, c, u) = reject6 V6_HEADER_INCOMPLETE skb s" using l by (simp add: sfe_ipv6_recv_locked_def Let_def)
    moreover have "same_packet skb skb" using ok by (simp add: same_packet_def skb_ok_def)
    ultimately show ?thesis by blast
  next
    case (Some skb1)
    note P = pulled [OF K ok Some]
    have "48 \<le> unat (skb_headlen skb1)" using P(1) by (simp add: SIZEOF_IPV6_HDR_def SIZEOF_IPV6_EXT_HDR_def)
    moreover have "skb_headlen skb1 \<le> skb_len skb1" using P(3) by (simp add: skb_ok_def)
    ultimately have "6 < unat (skb_len skb)" using same_packetD(1) [OF P(4)] by (simp add: word_le_nat_alt)
    then have "skb_bytes skb1 6 = skb_bytes skb 6" by (rule same_packetD(2) [OF P(4)])
    then have n: "rd8 skb1 6 = Some q \<Longrightarrow> q = skb_bytes skb 6" for q by (auto simp: rd8_def split: if_splits)
    have e: "ext_headers E K skb1 i (skb_bytes skb 6) k = Some (skb1, Inr (i, skb_bytes skb 6, k))" for i k
      using x by (subst ext_headers.simps) simp
    show ?thesis
    proof (rule ccontr)
      assume "\<not> ?thesis"
      then have "reject6 e skb1 s \<noteq> (out, c, u)" for e using P(4) by metis
      then show False using l p e
        unfolding sfe_ipv6_recv_locked_def Some Let_def option.case protocol_bytes protocol_byte_icmpv6
        by (auto simp: bind_eq_Some_conv dest!: n split: if_splits)
    qed
  qed
  then show ?thesis by (auto simp: t reject6_def flush_pending6_def)
qed

theorem recv_runs6:
  assumes "engine_inv6 E base s A D" and "kernel_ok K" and "skb_ok skb" and "bounded skb" and "tcp_linear6 skb"
  shows "\<exists>out t. sfe_ipv6_recv E K dev skb sis now s = Some (out, t)"
proof -
  obtain out c u where "sfe_ipv6_recv_locked E K dev skb s = Some (out, c, u)"
    using recv_locked_runs6 [OF assms, of dev] by (auto simp: runs_def)
  then show ?thesis by (simp add: sfe_ipv6_recv_def)
qed

end
