(* ===== verification/Sfe6_Forward.thy ===== *)
theory Sfe6_Forward
  imports Sfe6_Recv_Safe
begin

text \<open>
  What is forwarded: a packet leaves the fast path only as the rewritten packet of a flow of the tables
  that it matches, addressed to the flow's next hop, and a reply to it is translated back to the
  addresses of the original.
\<close>

section \<open>Forwarded packets\<close>

text \<open>
  \<open>sent_as6 rewrite\<close>: the packet \<open>pkt\<close>, which arrived on \<open>dev\<close>, is of the flow of match \<open>p\<close> and leaves
  as \<open>out\<close>.
\<close>

definition sent_as6 ::
  "(sfe_ipv6_connection_match \<Rightarrow> nat \<Rightarrow> sk_buff \<Rightarrow> sk_buff option) \<Rightarrow> kernel \<Rightarrow> sfe_env \<Rightarrow> netdev \<Rightarrow> u8 \<Rightarrow>
   u32 \<Rightarrow> nat \<Rightarrow> sfe_ipv6 \<Rightarrow> cm_ptr \<Rightarrow> sk_buff \<Rightarrow> sk_buff \<Rightarrow> bool" where
  "sent_as6 rewrite K E dev proto len th s p pkt out \<longleftrightarrow>
     (\<exists>own pkt' h mark. let m = cms6 s p in
        match_dev6 m = dev \<and> match_protocol6 m = proto \<and>
        rd_addr E pkt 8 = Some (match_src_ip6 m) \<and> rd_addr E pkt 24 = Some (match_dest_ip6 m) \<and>
        rd16 E pkt th = Some (match_src_port6 m) \<and> rd16 E pkt (th + 2) = Some (match_dest_port6 m) \<and>
        rd8 pkt 7 = Some h \<and> 2 \<le> h \<and>
        own_packet K pkt = Some own \<and> rewrite m th own = Some pkt' \<and>
        out = address_packet6 K m mark len pkt')"

lemma match_keyD6:
  assumes "match_key6 s p = (dev, pr, si, sp, di, dp)"
  shows "match_dev6 (cms6 s p) = dev" "match_protocol6 (cms6 s p) = pr" "match_src_ip6 (cms6 s p) = si"
    "match_src_port6 (cms6 s p) = sp" "match_dest_ip6 (cms6 s p) = di" "match_dest_port6 (cms6 s p) = dp"
  using assms by (simp_all add: match_key6_def Let_def)

lemma transmit_out6:
  assumes "tcp_transmit6 K p len pkt s = (Forwarded out, c, t)"
  shows "c = None \<and> (\<exists>m mark. cm_static6 m = cm_static6 (cms6 s p) \<and> cm_flags6 m = cm_flags6 (cms6 s p) \<and>
    out = address_packet6 K (cms6 (activate6 p (count_packet6 p len s)) p) mark len pkt)"
  using assms by (auto simp: tcp_transmit6_def Let_def)

lemma count_activate_cm6:
  "cms6 (activate6 p (count_packet6 p len s)) p =
     (cms6 s p)\<lparr>rx_packet_count6 := rx_packet_count6 (cms6 s p) + 1, rx_byte_count6 := rx_byte_count6 (cms6 s p) + len\<rparr>"
  by (simp add: activate_conv6) (simp add: count_packet6_def upd_cm6_def)

lemma address_packet_counts6:
  "address_packet6 K (m\<lparr>rx_packet_count6 := a, rx_byte_count6 := b\<rparr>) mark len pkt = address_packet6 K m mark len pkt"
  by (simp add: address_packet6_def write_l2_header6_def Let_def)

lemma forward_out6:
  shows "udp_forward6 E K p len th pkt s = Some (Forwarded out, c, t) \<Longrightarrow>
      \<exists>own pkt' mark. own_packet K pkt = Some own \<and> udp_rewrite6 E (cms6 s p) th own = Some pkt' \<and>
        out = address_packet6 K (cms6 s p) mark len pkt'"
    and "tcp_forward6 E K p len th pkt s = Some (Forwarded out, c, t) \<Longrightarrow>
      \<exists>own pkt' mark. own_packet K pkt = Some own \<and> tcp_rewrite6 E (cms6 s p) th own = Some pkt' \<and>
        out = address_packet6 K (cms6 s p) mark len pkt'"
  by (auto simp: udp_forward6_def tcp_forward6_def transmit_conv6 tcp_transmit6_def Let_def bind_eq_Some_conv
      count_activate_cm6 address_packet_counts6 split: option.splits)

lemma rejects_not_forwarded6 [simp]:
  "reject6 e pkt s \<noteq> (Forwarded out, c, t)" "reject_flush6 E p e pkt s \<noteq> (Forwarded out, c, t)"
  "pass_slow6 pkt s \<noteq> (Forwarded out, c, t)"
  by (simp_all add: reject6_def reject_flush6_def pass_slow6_def Let_def)

lemma udp_forwarded6:
  assumes I: "engine_inv6 E base s A D"
    and r: "sfe_ipv6_recv_udp E K skb dev len ihl flush s = Some (Forwarded out, c, t)"
  shows "\<exists>pkt p. pskb_may_pull K skb (SIZEOF_UDP_HDR + ihl) = Some pkt \<and> p \<in> table_matches6 s (connl6 A) \<and>
    \<not> flush \<and> len \<le> ucast (xmit_dev_mtu6 (cms6 s p)) \<and>
    sent_as6 (udp_rewrite6 E) K E dev 17 len (unat ihl) s p pkt out"
proof -
  obtain pkt where pull: "pskb_may_pull K skb (SIZEOF_UDP_HDR + ihl) = Some pkt"
    using r by (auto simp: sfe_ipv6_recv_udp_def split: option.splits)
  obtain si di sp dp f u where rd: "rd_addr E pkt 8 = Some si" "rd_addr E pkt 24 = Some di"
      "rd16 E pkt (unat ihl) = Some sp" "rd16 E pkt (unat ihl + 2) = Some dp"
    and find: "sfe_ipv6_find_connection_match E dev (ucast IPPROTO_UDP) si sp di dp s = Some (f, u)"
    and rest: "(case f of None \<Rightarrow> Some (reject6 V6_UDP_NO_CONNECTION pkt u)
           | Some cm \<Rightarrow>
               if flush then Some (reject_flush6 E cm V6_UDP_IP_OPTIONS_OR_INITIAL_FRAGMENT pkt u)
               else if not_accelerated6 E (cms6 u cm) then Some (pass_slow6 pkt u)
               else do {
                 hop_limit \<leftarrow> rd8 pkt 7;
                 (if hop_limit < 2 then Some (reject_flush6 E cm V6_UDP_SMALL_TTL pkt u)
                  else if ucast (xmit_dev_mtu6 (cms6 u cm)) < len
                  then Some (reject_flush6 E cm V6_UDP_NEEDS_FRAGMENTATION pkt u)
                  else udp_forward6 E K cm len (unat ihl) pkt u)
               }) = Some (Forwarded out, c, t)"
    using r by (auto simp: sfe_ipv6_recv_udp_def pull bind_eq_Some_conv)
  show ?thesis
  proof (rule find_engine6 [OF I, of dev "ucast IPPROTO_UDP" si sp di dp])
    fix f' u' B
    assume find': "sfe_ipv6_find_connection_match E dev (ucast IPPROTO_UDP) si sp di dp s = Some (f', u')"
      and B: "quiet6 s A u' B" and cm: "cms6 u' = cms6 s" and cn: "conns6 u' = conns6 s"
      and hit: "\<And>p. f' = Some p \<Longrightarrow> p \<in> table_matches6 u' (connl6 B) \<and>
        match_key6 u' p = (dev, ucast IPPROTO_UDP, si, sp, di, dp)"
    have u: "f' = f" "u' = u" using find find' by simp_all
    obtain p where f: "f = Some p" using rest by (cases f) simp_all
    have p: "p \<in> table_matches6 s (connl6 A)"
      using hit [of p] B table_matches_cong6 [OF cn] by (simp add: u f quiet6_def)
    note key = match_keyD6 [OF conjunct2 [OF hit [of p, unfolded u, OF f]], unfolded cm [unfolded u]]
    obtain ttl where b: "\<not> flush" "\<not> ucast (xmit_dev_mtu6 (cms6 s p)) < len" "rd8 pkt 7 = Some ttl" "\<not> ttl < 2"
      and fwd: "udp_forward6 E K p len (unat ihl) pkt u = Some (Forwarded out, c, t)"
      using rest cm [unfolded u]
      by (auto simp: f bind_eq_Some_conv split: if_splits)
    from forward_out6(1) [OF fwd] show ?thesis
      using pull p b key rd cm [unfolded u]
      by (auto simp: sent_as6_def Let_def IPPROTO_UDP_def not_less intro!: exI [of _ p])
  qed
qed

text \<open>The tracking of a TCP segment changes nothing the rewriting of the packet looks at.\<close>

lemma tcp_track_cm6:
  assumes "tcp_track6 E p len th pkt s = Some (Inr u)"
  shows "\<exists>w. cms6 u p = (cms6 s p)\<lparr>cm_tcp6 := w\<rparr>"
proof (cases "has_flag (cm_flags6 (cms6 s p)) FLAG_NO_SEQ_CHECK")
  case True
  with assms have "cms6 u p = (cms6 s p)\<lparr>cm_tcp6 := cm_tcp6 (cms6 s p)\<rparr>" by (simp add: tcp_track6_def)
  then show ?thesis by blast
next
  case False
  then obtain r where "tcp_seq_check6 E pkt th len (cm_tcp6 (cms6 s p)) (cm_tcp6 (cms6 s (cm_counter_match6 (cms6 s p)))) = Some r"
    using assms by (auto simp: tcp_track6_def Let_def bind_eq_Some_conv)
  then show ?thesis using assms False
    by (cases r) (auto simp: tcp_track6_def Let_def upd_cm6_def)
qed

lemma rewrite_tcp_state6:
  "tcp_rewrite6 E (m\<lparr>cm_tcp6 := w\<rparr>) = tcp_rewrite6 E m"
  "address_packet6 K (m\<lparr>cm_tcp6 := w\<rparr>) = address_packet6 K m"
  by (simp_all add: fun_eq_iff tcp_rewrite6_def remark_dscp6_def tcp_xlate_src6_def tcp_xlate_dest6_def
      address_packet6_def write_l2_header6_def Let_def cong: if_cong)

lemma tcp_forwarded6:
  assumes I: "engine_inv6 E base s A D"
    and r: "sfe_ipv6_recv_tcp E K skb dev len ihl flush s = Some (Forwarded out, c, t)"
  shows "\<exists>pkt p flags. pskb_may_pull K skb (SIZEOF_TCP_HDR + ihl) = Some pkt \<and> p \<in> table_matches6 s (connl6 A) \<and>
    \<not> flush \<and> (len \<le> ucast (xmit_dev_mtu6 (cms6 s p)) \<or> skb_is_gso pkt) \<and>
    rd32 E pkt (unat ihl + 12) = Some flags \<and> fast_flags E flags \<and>
    sent_as6 (tcp_rewrite6 E) K E dev 6 len (unat ihl) s p pkt out"
proof -
  obtain pkt where pull: "pskb_may_pull K skb (SIZEOF_TCP_HDR + ihl) = Some pkt"
    using r by (auto simp: sfe_ipv6_recv_tcp_def split: option.splits)
  obtain si di sp dp flags f u where rd: "rd_addr E pkt 8 = Some si" "rd_addr E pkt 24 = Some di"
      "rd16 E pkt (unat ihl) = Some sp" "rd16 E pkt (unat ihl + 2) = Some dp"
      "rd32 E pkt (unat ihl + 12) = Some flags"
    and find: "sfe_ipv6_find_connection_match E dev (ucast IPPROTO_TCP) si sp di dp s = Some (f, u)"
    and rest: "(case f of
             None \<Rightarrow>
               if fast_flags E flags then Some (reject6 V6_TCP_NO_CONNECTION_FAST_FLAGS pkt u)
               else Some (reject6 V6_TCP_NO_CONNECTION_SLOW_FLAGS pkt u)
           | Some cm \<Rightarrow>
               if flush then Some (reject_flush6 E cm V6_TCP_IP_OPTIONS_OR_INITIAL_FRAGMENT pkt u)
               else if not_accelerated6 E (cms6 u cm) then Some (pass_slow6 pkt u)
               else do {
                 hop_limit \<leftarrow> rd8 pkt 7;
                 (if hop_limit < 2 then Some (reject_flush6 E cm V6_TCP_SMALL_TTL pkt u)
                  else if ucast (xmit_dev_mtu6 (cms6 u cm)) < len \<and> \<not> skb_is_gso pkt
                  then Some (reject_flush6 E cm V6_TCP_NEEDS_FRAGMENTATION pkt u)
                  else if \<not> fast_flags E flags then Some (reject_flush6 E cm V6_TCP_FLAGS pkt u)
                  else do {
                    r \<leftarrow> tcp_track6 E cm len (unat ihl) pkt u;
                    (case r of
                       Inl e \<Rightarrow> Some (reject_flush6 E cm e pkt u)
                     | Inr s \<Rightarrow> tcp_forward6 E K cm len (unat ihl) pkt s)
                  })
               }) = Some (Forwarded out, c, t)"
    using r by (auto simp: sfe_ipv6_recv_tcp_def pull bind_eq_Some_conv)
  show ?thesis
  proof (rule find_engine6 [OF I, of dev "ucast IPPROTO_TCP" si sp di dp])
    fix f' u' B
    assume find': "sfe_ipv6_find_connection_match E dev (ucast IPPROTO_TCP) si sp di dp s = Some (f', u')"
      and B: "quiet6 s A u' B" and cm: "cms6 u' = cms6 s" and cn: "conns6 u' = conns6 s"
      and hit: "\<And>p. f' = Some p \<Longrightarrow> p \<in> table_matches6 u' (connl6 B) \<and>
        match_key6 u' p = (dev, ucast IPPROTO_TCP, si, sp, di, dp)"
    have u: "f' = f" "u' = u" using find find' by simp_all
    obtain p where f: "f = Some p" using rest by (cases f) (auto split: if_splits)
    have p: "p \<in> table_matches6 s (connl6 A)"
      using hit [of p] B table_matches_cong6 [OF cn] by (simp add: u f quiet6_def)
    note key = match_keyD6 [OF conjunct2 [OF hit [of p, unfolded u, OF f]], unfolded cm [unfolded u]]
    obtain ttl q where b: "\<not> flush" "len \<le> ucast (xmit_dev_mtu6 (cms6 s p)) \<or> skb_is_gso pkt"
        "rd8 pkt 7 = Some ttl" "\<not> ttl < 2" "fast_flags E flags"
      and tr: "tcp_track6 E p len (unat ihl) pkt u = Some q"
      and go: "(case q of Inl e \<Rightarrow> Some (reject_flush6 E p e pkt u)
          | Inr s \<Rightarrow> tcp_forward6 E K p len (unat ihl) pkt s) = Some (Forwarded out, c, t)"
      using rest cm [unfolded u]
      by (auto simp: f bind_eq_Some_conv not_less split: if_splits)
    obtain v where q: "q = Inr v" using go by (cases q) simp_all
    obtain w where w: "cms6 v p = (cms6 s p)\<lparr>cm_tcp6 := w\<rparr>"
      using tcp_track_cm6 [OF tr [unfolded q]] cm [unfolded u] by auto
    have fwd: "tcp_forward6 E K p len (unat ihl) pkt v = Some (Forwarded out, c, t)"
      using go q by simp
    from forward_out6(2) [OF fwd, unfolded w rewrite_tcp_state6] show ?thesis
      using pull p b key rd
      by (auto simp: sent_as6_def Let_def IPPROTO_TCP_def not_less intro!: exI [of _ p])
  qed
qed

section \<open>ICMP and other protocols are never forwarded\<close>

lemma icmp_not_forwarded6: "sfe_ipv6_recv_icmp E K skb dev ihl s \<noteq> Some (Forwarded out, c, t)"
  by (auto simp: sfe_ipv6_recv_icmp_def Let_def icmp_flush6_def
      bind_eq_Some_conv split: option.splits if_splits sum.splits)

lemma locked_forwarded6:
  assumes K: "kernel_ok K" and ok: "skb_ok skb" and b: "bounded skb"
    and l: "sfe_ipv6_recv_locked E K dev skb s = Some (Forwarded out, c, u)"
  obtains skb2 ihl flush where "same_packet skb skb2" and "skb_ok skb2" and "flush \<or> ihl = 40"
    and "(flush \<or> rd8 skb2 6 = Some 17) \<and> sfe_ipv6_recv_udp E K skb2 dev (skb_len skb) ihl flush s = Some (Forwarded out, c, u) \<or>
     (flush \<or> rd8 skb2 6 = Some 6) \<and> sfe_ipv6_recv_tcp E K skb2 dev (skb_len skb) ihl flush s = Some (Forwarded out, c, u)"
proof -
  obtain skb1 where s1: "pskb_may_pull K skb (SIZEOF_IPV6_HDR + SIZEOF_IPV6_EXT_HDR) = Some skb1"
    using l by (auto simp: sfe_ipv6_recv_locked_def Let_def split: option.splits)
  note P = pulled [OF K ok s1]
  have h: "48 \<le> unat (skb_headlen skb1)" using P(1) by (simp add: SIZEOF_IPV6_HDR_def SIZEOF_IPV6_EXT_HDR_def)
  then have at: "at_header skb1 SIZEOF_IPV6_HDR" by (simp add: at_header_def SIZEOF_IPV6_HDR_def)
  obtain nh skb2 r where nh: "rd8 skb1 6 = Some nh" and e: "ext_headers E K skb1 SIZEOF_IPV6_HDR nh False = Some (skb2, r)"
    and go: "(case r of
                Inl e \<Rightarrow> Some (reject6 e skb2 s)
              | Inr (ihl, next_hdr, flush_on_find) \<Rightarrow>
                  if ucast next_hdr = IPPROTO_UDP then sfe_ipv6_recv_udp E K skb2 dev (skb_len skb) ihl flush_on_find s
                  else if ucast next_hdr = IPPROTO_TCP then sfe_ipv6_recv_tcp E K skb2 dev (skb_len skb) ihl flush_on_find s
                  else if ucast next_hdr = IPPROTO_ICMPV6 then sfe_ipv6_recv_icmp E K skb2 dev ihl s
                  else Some (reject6 V6_UNHANDLED_PROTOCOL skb2 s)) = Some (Forwarded out, c, u)"
    using l unfolding sfe_ipv6_recv_locked_def s1 Let_def option.case
    by (auto simp: bind_eq_Some_conv split: if_splits)
  have S: "same_packet skb1 skb2" "skb_ok skb2"
    and g: "\<And>ihl n k. r = Inr (ihl, n, k) \<Longrightarrow> k \<or> ihl = SIZEOF_IPV6_HDR \<and> n = nh"
    using ext_headers_end [OF K P(3) bounded_same [OF P(4) b] at, of E nh False] e by auto
  obtain ihl n k where r: "r = Inr (ihl, n, k)" using go by (cases r) auto
  show thesis
  proof (rule that)
    show "same_packet skb skb2" by (rule same_packet_trans [OF P(4) S(1)])
    show "k \<or> ihl = 40" using g [OF r] by (auto simp: SIZEOF_IPV6_HDR_def)
    show "(k \<or> rd8 skb2 6 = Some 17) \<and> sfe_ipv6_recv_udp E K skb2 dev (skb_len skb) ihl k s = Some (Forwarded out, c, u) \<or>
      (k \<or> rd8 skb2 6 = Some 6) \<and> sfe_ipv6_recv_tcp E K skb2 dev (skb_len skb) ihl k s = Some (Forwarded out, c, u)"
      using go g [OF r] same_packet_rd8 [OF S(1) P(3) nh] by (auto simp: r icmp_not_forwarded6 protocol_bytes split: if_splits)
  qed (rule S(2))
qed

lemma recv_forwarded6:
  assumes I: "engine_inv6 E base s A D" and K: "kernel_ok K" and ok: "skb_ok skb" and b: "bounded skb"
    and r: "sfe_ipv6_recv E K dev skb sis now s = Some (Forwarded out, t)"
  shows "\<exists>pkt p (proto :: u8). same_packet skb pkt \<and> rd8 pkt 6 = Some proto \<and> skb_ok pkt \<and> p \<in> table_matches6 s (connl6 A) \<and>
    (skb_len skb \<le> ucast (xmit_dev_mtu6 (cms6 s p)) \<or> proto = 6 \<and> skb_is_gso skb) \<and>
    (proto = 17 \<and> 48 \<le> unat (skb_headlen pkt) \<and>
       sent_as6 (udp_rewrite6 E) K E dev 17 (skb_len skb) 40 s p pkt out \<or>
     proto = 6 \<and> 60 \<le> unat (skb_headlen pkt) \<and> (\<exists>flags. rd32 E pkt 52 = Some flags \<and> fast_flags E flags) \<and>
       sent_as6 (tcp_rewrite6 E) K E dev 6 (skb_len skb) 40 s p pkt out)"
proof -
  obtain c u where l: "sfe_ipv6_recv_locked E K dev skb s = Some (Forwarded out, c, u)"
    using r by (auto simp: sfe_ipv6_recv_def bind_eq_Some_conv)
  obtain skb2 ihl flush where S: "same_packet skb skb2" "skb_ok skb2" and f: "flush \<or> ihl = 40"
    and "(flush \<or> rd8 skb2 6 = Some 17) \<and> sfe_ipv6_recv_udp E K skb2 dev (skb_len skb) ihl flush s = Some (Forwarded out, c, u) \<or>
     (flush \<or> rd8 skb2 6 = Some 6) \<and> sfe_ipv6_recv_tcp E K skb2 dev (skb_len skb) ihl flush s = Some (Forwarded out, c, u)"
    by (rule locked_forwarded6 [OF K ok b l])
  from this(4) show ?thesis
  proof (elim disjE [of "_ \<and> _"] conjE)
    assume b: "flush \<or> rd8 skb2 6 = Some 17" and
      "sfe_ipv6_recv_udp E K skb2 dev (skb_len skb) ihl flush s = Some (Forwarded out, c, u)"
    from udp_forwarded6 [OF I this(2)] obtain pkt p where
      q: "pskb_may_pull K skb2 (SIZEOF_UDP_HDR + ihl) = Some pkt" "p \<in> table_matches6 s (connl6 A)"
      "\<not> flush" "skb_len skb \<le> ucast (xmit_dev_mtu6 (cms6 s p))"
      "sent_as6 (udp_rewrite6 E) K E dev 17 (skb_len skb) (unat ihl) s p pkt out" by blast
    note P = pulled [OF K S(2) q(1)]
    have "same_packet skb pkt" by (rule same_packet_trans [OF S(1) P(4)])
    moreover have "rd8 pkt 6 = Some 17" using b q(3) by (intro same_packet_rd8 [OF P(4) S(2)]) simp
    moreover have "48 \<le> unat (skb_headlen pkt)" using P(1) f q(3) by (simp add: SIZEOF_UDP_HDR_def)
    ultimately show ?thesis using q f P(3)
      by (intro exI [of _ pkt] exI [of _ p] exI [of _ 17]) simp
  next
    assume b: "flush \<or> rd8 skb2 6 = Some 6" and
      "sfe_ipv6_recv_tcp E K skb2 dev (skb_len skb) ihl flush s = Some (Forwarded out, c, u)"
    from tcp_forwarded6 [OF I this(2)] obtain pkt p where
      q: "pskb_may_pull K skb2 (SIZEOF_TCP_HDR + ihl) = Some pkt" "p \<in> table_matches6 s (connl6 A)"
      "\<not> flush" "skb_len skb \<le> ucast (xmit_dev_mtu6 (cms6 s p)) \<or> skb_is_gso pkt"
      "sent_as6 (tcp_rewrite6 E) K E dev 6 (skb_len skb) (unat ihl) s p pkt out"
      and fl: "\<exists>flags. rd32 E pkt (unat ihl + 12) = Some flags \<and> fast_flags E flags" by blast
    note P = pulled [OF K S(2) q(1)]
    have sp: "same_packet skb pkt" by (rule same_packet_trans [OF S(1) P(4)])
    moreover have "rd8 pkt 6 = Some 6" using b q(3) by (intro same_packet_rd8 [OF P(4) S(2)]) simp
    moreover have "60 \<le> unat (skb_headlen pkt)" using P(1) f q(3) by (simp add: SIZEOF_TCP_HDR_def)
    ultimately show ?thesis using q f fl P(3) same_packetD(4) [OF sp]
      by (intro exI [of _ pkt] exI [of _ p] exI [of _ 6]) simp
  qed
qed

section \<open>Replies\<close>

text \<open>The counterpart of a match receives the replies and translates them back.\<close>

lemma reply_translates6:
  assumes I: "engine_inv6 E base s A D" and p: "p \<in> table_matches6 s (connl6 A)"
  defines "m \<equiv> cms6 s p" and "q \<equiv> cm_counter_match6 (cms6 s p)"
  shows "q \<in> table_matches6 s (connl6 A)" and "cm_counter_match6 (cms6 s q) = p"
    and "match_key6 s q = (xmit_dev6 m, match_protocol6 m, fst (eff_dest6 m), snd (eff_dest6 m),
           fst (eff_src6 m), snd (eff_src6 m))"
    and "xmit_dev6 (cms6 s q) = match_dev6 m"
    and "eff_src6 (cms6 s q) = (match_dest_ip6 m, match_dest_port6 m)"
    and "eff_dest6 (cms6 s q) = (match_src_ip6 m, match_src_port6 m)"
proof -
  let ?c = "cm_connection6 (cms6 s p)"
  note c = match_owner6 [OF I p]
  have po: "pair_ok6 s ?c" by (rule table_inv_conn6(1) [OF engine_table6 [OF I] c(1)])
  have fl: "flow_ok6 E s ?c" using I c(1) by (simp add: engine_inv6_def)
  have pq: "p = original_match6 (conns6 s ?c) \<and> q = reply_match6 (conns6 s ?c) \<or>
      p = reply_match6 (conns6 s ?c) \<and> q = original_match6 (conns6 s ?c)"
    using po c(2) by (auto simp: pair_ok6_def conn_matches6_def q_def Let_def)
  then have "q \<in> conn_matches6 s ?c" by (auto simp: conn_matches6_def)
  then show "q \<in> table_matches6 s (connl6 A)" using c(1) by (auto simp: table_matches6_def)
  show "cm_counter_match6 (cms6 s q) = p" using po pq by (auto simp: pair_ok6_def Let_def)
  have mir: "mirror6 m (cms6 s q)" "mirror6 (cms6 s q) m"
    using fl pq by (auto simp: flow_ok6_def Let_def m_def)
  then show "match_key6 s q = (xmit_dev6 m, match_protocol6 m, fst (eff_dest6 m), snd (eff_dest6 m),
           fst (eff_src6 m), snd (eff_src6 m))"
    by (simp add: mirror6_def match_key6_def Let_def prod_eq_iff)
  show "xmit_dev6 (cms6 s q) = match_dev6 m" "eff_src6 (cms6 s q) = (match_dest_ip6 m, match_dest_port6 m)"
    "eff_dest6 (cms6 s q) = (match_src_ip6 m, match_src_port6 m)"
    using mir(2) by (simp_all add: mirror6_def)
qed

end
