(* ===== verification/Sfe6_Path.thy ===== *)
theory Sfe6_Path
  imports Sfe6_Demo Sfe6_Forward Sfe_Path
begin

text \<open>
  The packet path of the IPv6 engine as a whole: what one call of \<open>sfe_ipv6_recv\<close> does to the engine, what
  it returns and what leaves the machine.
\<close>

section \<open>Reports of a packet\<close>

text \<open>The packet counters after a packet: forwarded packets and all others.\<close>

fun outcome_counted6 :: "recv_outcome \<Rightarrow> sfe_ipv6 \<Rightarrow> sfe_ipv6 \<Rightarrow> bool" where
  "outcome_counted6 (Forwarded pkt) s t \<longleftrightarrow> packets_forwarded6 t = packets_forwarded6 s + 1 \<and>
     packets_not_forwarded6 t = packets_not_forwarded6 s"
| "outcome_counted6 out s t \<longleftrightarrow> packets_forwarded6 t = packets_forwarded6 s \<and>
     packets_not_forwarded6 t = packets_not_forwarded6 s + 1"

lemma flush_flow_counters6:
  "packets_forwarded6 (sfe_ipv6_flush_connection c reason sis now s) = packets_forwarded6 s"
  "packets_not_forwarded6 (sfe_ipv6_flush_connection c reason sis now s) = packets_not_forwarded6 s"
  by (simp_all add: flush_conv6 Let_def kfree_conn6_def kfree_cm6_def dev_put6_def flush_report6_def
      sfe_ipv6_gen_sync_connection_def sfe_ipv6_connection_match_update_summary_stats_def
      call_sync_rule6_def upd_cm6_def upd_conn6_def split: option.splits)

lemma flush_calls6:
  "\<exists>m. sis_key6 m = conn_key6 s c \<and> sis_reason m = reason \<and>
    sync_calls6 (sfe_ipv6_flush_connection c reason sis now s) = sync_calls6 s @
      (case sync_rule_callback6 s of None \<Rightarrow> [] | Some cb \<Rightarrow> [(cb, m)])"
proof -
  let ?s = "s\<lparr>connection_flushes6 := connection_flushes6 s + 1\<rparr>"
  obtain m u where g: "sfe_ipv6_gen_sync_connection c sis reason now ?s = (m, u)" by fastforce
  have "sync_calls6 (sfe_ipv6_flush_connection c reason sis now s) =
      sync_calls6 (flush_report6 c reason sis now s)"
    by (simp add: flush_conv6 Let_def kfree_conn6_def kfree_cm6_def dev_put6_def)
  then have "sync_calls6 (sfe_ipv6_flush_connection c reason sis now s) = sync_calls6 s @
      (case sync_rule_callback6 s of None \<Rightarrow> [] | Some cb \<Rightarrow> [(cb, m)])"
    by (simp add: flush_report_calls6 g split: option.split)
  moreover have "sis_key6 m = conn_key6 s c" "sis_reason m = reason"
    using gen_sync_message6 [OF g] by (simp_all add: sis_key6_def conn_key6_def Let_def)
  ultimately show ?thesis by blast
qed

text \<open>
  What a packet may do to the flows: nothing, or it takes one flow away, which is reported to
  whoever registered for it.
\<close>

definition gives_up6 :: "conn_key6 list \<Rightarrow> sfe_ipv6 \<Rightarrow> sfe_abs6 \<Rightarrow> sfe_ipv6 \<Rightarrow> sfe_abs6 \<Rightarrow> bool" where
  "gives_up6 ks s A t B \<longleftrightarrow> set ks \<subseteq> flow_keys6 s A \<and> flow_keys6 t B = flow_keys6 s A - set ks \<and>
     (\<exists>ms. map sis_key6 ms = ks \<and> (\<forall>m\<in>set ms. sis_reason m = SFE_SYNC_REASON_FLUSH) \<and>
        sync_calls6 t = sync_calls6 s @
          (case sync_rule_callback6 s of None \<Rightarrow> [] | Some cb \<Rightarrow> map (Pair cb) ms))"

lemma gives_up_one6:
  assumes I: "engine_inv6 E base s A D" and c: "c \<in> set (connl6 A)" and B: "connl6 B = remove1 c (connl6 A)"
    and k: "conn_key6 t = conn_key6 s"
    and m: "sis_key6 m = conn_key6 s c" "sis_reason m = SFE_SYNC_REASON_FLUSH"
    and y: "sync_calls6 t = sync_calls6 s @ (case sync_rule_callback6 s of None \<Rightarrow> [] | Some cb \<Rightarrow> [(cb, m)])"
  shows "gives_up6 [conn_key6 s c] s A t B"
proof -
  have d: "distinct (connl6 A)" and inj: "inj_on (conn_key6 s) (set (connl6 A))"
    using I by (auto simp: engine_inv6_def table_inv6_def lists_rep6_def)
  have "set (connl6 B) = set (connl6 A) - {c}" using B d by (simp add: set_remove1_eq)
  then have "flow_keys6 t B = flow_keys6 s A - {conn_key6 s c}"
    using inj_on_image_set_diff [OF inj, of "set (connl6 A)" "{c}"] c by (simp add: flow_keys6_def k)
  moreover have "conn_key6 s c \<in> flow_keys6 s A" using c by (simp add: flow_keys6_def)
  ultimately show ?thesis
    unfolding gives_up6_def using m y
    by (intro conjI exI [of _ "[m]"]) (simp_all add: list.map(2) list.map(1) split: option.split)
qed

lemma recv_effect6:
  assumes I: "engine_inv6 E base s A D" and r: "sfe_ipv6_recv E K dev skb sis now s = Some (out, t)"
  shows "\<exists>B ks. engine_inv6 E base t B D \<and> gives_up6 ks s A t B \<and> length ks \<le> 1 \<and>
    (\<forall>pkt. out = Forwarded pkt \<longrightarrow> ks = []) \<and> outcome_counted6 out s t"
proof -
  obtain c u where l: "sfe_ipv6_recv_locked E K dev skb s = Some (out, c, u)"
    and t: "t = flush_pending6 c sis now u"
    using r by (auto simp: sfe_ipv6_recv_def bind_eq_Some_conv)
  then obtain B where J: "engine_inv6 E base u B (pend_list c @ D)" and o: "taken_out6 c A B"
    and k: "conn_key6 u = conn_key6 s" and y: "sync_calls6 u = sync_calls6 s"
    and cb: "sync_rule_callback6 u = sync_rule_callback6 s" and n: "counted6 out c s u"
    using recv_locked_handles6 [OF I, of K dev skb] by (auto simp: handles6_def handled6_def)
  show ?thesis
  proof (cases c)
    case None
    have "gives_up6 [] s A t B"
      using o y by (auto simp: None t flush_pending6_def gives_up6_def flow_keys6_def k split: option.splits)
    moreover have "outcome_counted6 out s t" using n by (cases out) (auto simp: None t flush_pending6_def)
    ultimately show ?thesis using J
      by (intro exI [of _ B] exI [of _ "[]"]) (simp add: None t flush_pending6_def)
  next
    case (Some d)
    have te: "t = sfe_ipv6_flush_connection d SFE_SYNC_REASON_FLUSH sis now u"
      by (simp add: t Some flush_pending6_def)
    have kt: "conn_key6 t = conn_key6 s" by (simp add: te k flush_flow6)
    obtain m where m: "sis_key6 m = conn_key6 u d" "sis_reason m = SFE_SYNC_REASON_FLUSH"
      and ym: "sync_calls6 t = sync_calls6 u @ (case sync_rule_callback6 u of None \<Rightarrow> [] | Some cb \<Rightarrow> [(cb, m)])"
      using flush_calls6 [of u d SFE_SYNC_REASON_FLUSH sis now] te by blast
    have "gives_up6 [conn_key6 s d] s A t B"
      by (rule gives_up_one6 [OF I _ _ kt m(1) [unfolded k] m(2) ym [unfolded y cb]])
        (use o in \<open>simp_all add: Some\<close>)
    moreover have "engine_inv6 E base t B D" using J by (simp add: Some te flush_engine6)
    moreover have "outcome_counted6 out s t" "\<forall>pkt. out \<noteq> Forwarded pkt"
      using n by (cases out; simp add: Some te flush_flow_counters6)+
    ultimately show ?thesis by (intro exI [of _ B] exI [of _ "[conn_key6 s d]"]) simp
  qed
qed

section \<open>What is forwarded\<close>

text \<open>Source and destination of a packet without extension headers.\<close>

definition ip6_flow :: "sfe_env \<Rightarrow> sk_buff \<Rightarrow> ((sfe_ipv6_addr \<times> u16) \<times> (sfe_ipv6_addr \<times> u16)) option" where
  "ip6_flow E pkt = do {
     si \<leftarrow> rd_addr E pkt 8;
     sp \<leftarrow> rd16 E pkt 40;
     di \<leftarrow> rd_addr E pkt 24;
     dp \<leftarrow> rd16 E pkt 42;
     Some ((si, sp), (di, dp))
   }"

text \<open>
  \<open>pkt'\<close> is \<open>pkt\<close> with source and destination, hop limit, traffic class and transport checksum replaced as the
  match says; \<open>co\<close> is the offset of the checksum. The sum a receiver checks is the same, over any
  number of words of the segment that has the checksum and is linear.
\<close>

definition translated6 ::
  "sfe_env \<Rightarrow> nat \<Rightarrow> sfe_ipv6_connection_match \<Rightarrow> sk_buff \<Rightarrow> sk_buff \<Rightarrow> bool" where
  "translated6 E co m pkt pkt' \<longleftrightarrow>
     ip6_flow E pkt = Some ((match_src_ip6 m, match_src_port6 m), (match_dest_ip6 m, match_dest_port6 m)) \<and>
     ip6_flow E pkt' = Some (eff_src6 m, eff_dest6 m) \<and>
     (\<exists>h. rd8 pkt 7 = Some h \<and> 2 \<le> h \<and> rd8 pkt' 7 = Some (h - 1)) \<and> skb_len pkt' = skb_len pkt \<and>
     (\<forall>i < unat (skb_len pkt). i \<notin> {0, 1, 7} \<union> {8..<44} \<union> {co, co + 1} \<longrightarrow>
        skb_bytes pkt' i = skb_bytes pkt i) \<and>
     (\<forall>ck n. rd16 E pkt co = Some ck \<longrightarrow> ck \<noteq> 0 \<longrightarrow> co + 1 < 40 + 2 * n \<longrightarrow> 40 + 2 * n \<le> unat (skb_headlen pkt) \<longrightarrow>
        (\<exists>ck'. rd16 E pkt' co = Some ck' \<and> ck' \<noteq> 0) \<and> l4_sum6 E n pkt' mod 65535 = l4_sum6 E n pkt mod 65535)"

lemma own_rd_addr:
  assumes "kernel_ok K" and "skb_ok pkt" and "own_packet K pkt = Some own" and "rd_addr E pkt i = Some a"
  shows "rd_addr E own i = Some a"
  using assms(4) own_packet_same(7) [OF assms(1-3), of E] by (auto simp: rd_addr_def bind_eq_Some_conv)

lemma own_ip_word:
  assumes "kernel_ok K" and "skb_ok pkt" and "own_packet K pkt = Some own" and "2 * k + 1 < unat (skb_headlen pkt)"
  shows "ip_word E own k = ip_word E pkt k"
proof -
  obtain w where w: "rd16 E pkt (2 * k) = Some w" using rd16_total [OF assms(4)] by blast
  show ?thesis using w own_packet_same(6) [OF assms(1-3) w] by (simp add: ip_word_def)
qed

lemma sent_as_translated6:
  assumes K: "kernel_ok K" and ok: "skb_ok pkt" and len: "2 * c + 1 < unat (skb_headlen pkt)" and c: "22 \<le> c"
    and adj: "adjusted6 E (cms6 s p)" and S: "sent_as6 (l4_rewrite6 E sz (2 * c)) K E dev proto n 40 s p pkt out"
  shows "\<exists>pkt' mark. out = address_packet6 K (cms6 s p) mark n pkt' \<and> translated6 E (2 * c) (cms6 s p) pkt pkt'"
proof -
  let ?m = "cms6 s p" and ?co = "2 * c"
  from S obtain own pkt' h mark where
    key: "rd_addr E pkt 8 = Some (match_src_ip6 ?m)" "rd_addr E pkt 24 = Some (match_dest_ip6 ?m)"
      "rd16 E pkt 40 = Some (match_src_port6 ?m)" "rd16 E pkt 42 = Some (match_dest_port6 ?m)"
    and h: "rd8 pkt 7 = Some h" "2 \<le> h" and own: "own_packet K pkt = Some own"
    and rw: "l4_rewrite6 E sz ?co ?m 40 own = Some pkt'" and out: "out = address_packet6 K ?m mark n pkt'"
    by (auto simp: sent_as6_def Let_def)
  note O = own_packet_same [OF K ok own] and OA = own_rd_addr [OF K ok own]
  obtain ck where ck: "rd16 E pkt ?co = Some ck" using rd16_total [OF len] by blast
  have len': "?co + 1 < unat (skb_headlen own)" using len O(2) by (simp add: word_le_nat_alt)
  have o: "40 \<le> (40 :: nat)" "40 + 3 < ?co" and d: "rd16 E own (40 + 2) = Some (match_dest_port6 ?m)"
    using c O(6) [OF key(4)] by simp_all
  have "unat (skb_headlen pkt) \<le> unat (skb_len pkt)" using ok by (simp add: skb_ok_def word_le_nat_alt)
  then have h': "rd8 own 7 = Some h" using h(1) O(4) [of 7] len' c by (auto simp: rd8_def split: if_splits)
  obtain q where q: "l4_rewrite6 E sz ?co ?m 40 own = Some q"
    and pa: "patched ({0, 1, 7} \<union> {8..<40} \<union> {40..<40 + 4} \<union> {?co, ?co + 1}) own q"
    and f: "rd8 q 7 = Some (h - 1)" "rd_addr E q 8 = Some (fst (eff_src6 ?m))" "rd16 E q 40 = Some (snd (eff_src6 ?m))"
      "rd_addr E q 24 = Some (fst (eff_dest6 ?m))" "rd16 E q (40 + 2) = Some (snd (eff_dest6 ?m))"
      "rd16 E q ?co = Some (rewritten_check6 ?m sz ck)"
    by (rule l4_rewrite6_spec [OF len' o O(6) [OF ck] OA [OF key(1)] O(6) [OF key(3)] OA [OF key(2)] d h', of sz])
  have qp: "q = pkt'" using q rw by simp
  have pa: "patched ({0, 1, 7} \<union> {8..<44} \<union> {?co, ?co + 1}) own pkt'"
    using pa unfolding qp by (rule patched_mono) auto
  have "translated6 E ?co ?m pkt pkt'"
    unfolding translated6_def
  proof (intro conjI allI impI)
    show "ip6_flow E pkt = Some ((match_src_ip6 ?m, match_src_port6 ?m), (match_dest_ip6 ?m, match_dest_port6 ?m))"
      by (simp add: ip6_flow_def key)
    show "ip6_flow E pkt' = Some (eff_src6 ?m, eff_dest6 ?m)" using f(2-5) by (simp add: ip6_flow_def qp)
    show "\<exists>h. rd8 pkt 7 = Some h \<and> 2 \<le> h \<and> rd8 pkt' 7 = Some (h - 1)" using h f(1) qp by blast
    show "skb_len pkt' = skb_len pkt" using patched_fields(1) [OF pa] O(3) by simp
    show "skb_bytes pkt' i = skb_bytes pkt i" if "i < unat (skb_len pkt)"
      "i \<notin> {0, 1, 7} \<union> {8..<44} \<union> {?co, ?co + 1}" for i
      using pa O(4) [OF that(1)] that(2) unfolding patched_def by simp
    fix ck1 k
    assume c1: "rd16 E pkt ?co = Some ck1" "ck1 \<noteq> 0" and k: "?co + 1 < 40 + 2 * k" "40 + 2 * k \<le> unat (skb_headlen pkt)"
    then have nz: "ck \<noteq> 0 \<or> \<not> sz" and e: "ck1 = ck" using ck by simp_all
    show "\<exists>ck'. rd16 E pkt' ?co = Some ck' \<and> ck' \<noteq> 0"
      using f(6) c1(2) qp e by (simp add: rewritten_check6_def Let_def l4_check6_nonzero)
    have c20: "c < 20 + k" using k(1) by simp
    have "l4_sum6 E k pkt' mod 65535 = l4_sum6 E k own mod 65535"
      by (rule l4_sum6_kept [OF c c20 adj nz OA [OF key(1)] OA [OF key(2)] O(6) [OF key(3)] O(6) [OF key(4)] O(6) [OF ck]
            _ _ _ _ _ pa]) (use f qp in simp_all)
    also have "l4_sum6 E k own = l4_sum6 E k pkt"
      unfolding l4_sum6_def by (intro sum.cong refl own_ip_word [OF K ok own]) (use k(2) in simp)
    finally show "l4_sum6 E k pkt' mod 65535 = l4_sum6 E k pkt mod 65535" .
  qed
  with out show ?thesis by blast
qed

lemma table_adjusted6:
  assumes I: "engine_inv6 E base s A D" and p: "p \<in> table_matches6 s (connl6 A)"
  shows "adjusted6 E (cms6 s p)"
proof -
  note c = match_owner6 [OF I p]
  have "flow_ok6 E s (cm_connection6 (cms6 s p))" using I c(1) by (simp add: engine_inv6_def)
  with c(2) show ?thesis by (auto simp: flow_ok6_def conn_matches6_def Let_def)
qed

definition fits_device6 :: "sfe_ipv6_connection_match \<Rightarrow> sk_buff \<Rightarrow> bool" where
  "fits_device6 m skb \<longleftrightarrow> skb_len skb \<le> ucast (xmit_dev_mtu6 m) \<or> match_protocol6 m = 6 \<and> skb_is_gso skb"

lemma recv_translated6:
  assumes I: "engine_inv6 E base s A D" and K: "kernel_ok K" and ok: "skb_ok skb" and b: "bounded skb"
    and r: "sfe_ipv6_recv E K dev skb sis now s = Some (Forwarded out, t)"
  shows "\<exists>p pkt pkt' mark. p \<in> table_matches6 s (connl6 A) \<and> same_packet skb pkt \<and>
    rd8 pkt 6 = Some (match_protocol6 (cms6 s p)) \<and> match_dev6 (cms6 s p) = dev \<and> fits_device6 (cms6 s p) skb \<and>
    out = address_packet6 K (cms6 s p) mark (skb_len skb) pkt' \<and>
    (match_protocol6 (cms6 s p) = 17 \<and> translated6 E 46 (cms6 s p) pkt pkt' \<or>
     match_protocol6 (cms6 s p) = 6 \<and> translated6 E 56 (cms6 s p) pkt pkt' \<and>
       (\<exists>flags. rd32 E pkt 52 = Some flags \<and> fast_flags E flags))"
proof -
  from recv_forwarded6 [OF I K ok b r] obtain pkt p and proto :: u8 where
    sp: "same_packet skb pkt" and h: "rd8 pkt 6 = Some proto" and okp: "skb_ok pkt" and p: "p \<in> table_matches6 s (connl6 A)"
    and mtu: "skb_len skb \<le> ucast (xmit_dev_mtu6 (cms6 s p)) \<or> proto = 6 \<and> skb_is_gso skb"
    and alt: "proto = 17 \<and> 48 \<le> unat (skb_headlen pkt) \<and>
       sent_as6 (udp_rewrite6 E) K E dev 17 (skb_len skb) 40 s p pkt out \<or>
     proto = 6 \<and> 60 \<le> unat (skb_headlen pkt) \<and> (\<exists>flags. rd32 E pkt 52 = Some flags \<and> fast_flags E flags) \<and>
       sent_as6 (tcp_rewrite6 E) K E dev 6 (skb_len skb) 40 s p pkt out" by blast
  note T = sent_as_translated6 [OF K okp _ _ table_adjusted6 [OF I p]]
  have pr: "match_dev6 (cms6 s p) = dev \<and> match_protocol6 (cms6 s p) = (if proto = 17 then 17 else 6)"
    using alt by (auto simp: sent_as6_def Let_def)
  from alt show ?thesis
  proof (elim disjE conjE)
    assume a: "proto = 17" "48 \<le> unat (skb_headlen pkt)"
      "sent_as6 (udp_rewrite6 E) K E dev 17 (skb_len skb) 40 s p pkt out"
    then have S: "sent_as6 (l4_rewrite6 E True (2 * 23)) K E dev 17 (skb_len skb) 40 s p pkt out"
      by (simp add: sent_as6_def rewrite_conv6)
    have l: "2 * 23 + 1 < unat (skb_headlen pkt)" "22 \<le> (23 :: nat)" using a(2) by simp_all
    from T [OF l S] obtain pkt' mark where
      "out = address_packet6 K (cms6 s p) mark (skb_len skb) pkt'" "translated6 E 46 (cms6 s p) pkt pkt'" by auto
    with sp h p pr mtu a(1) show ?thesis
      by (intro exI [of _ p] exI [of _ pkt] exI [of _ pkt'] exI [of _ mark]) (auto simp: fits_device6_def)
  next
    assume a: "proto = 6" "60 \<le> unat (skb_headlen pkt)" "\<exists>flags. rd32 E pkt 52 = Some flags \<and> fast_flags E flags"
      "sent_as6 (tcp_rewrite6 E) K E dev 6 (skb_len skb) 40 s p pkt out"
    then have S: "sent_as6 (l4_rewrite6 E False (2 * 28)) K E dev 6 (skb_len skb) 40 s p pkt out"
      by (simp add: sent_as6_def rewrite_conv6)
    have l: "2 * 28 + 1 < unat (skb_headlen pkt)" "22 \<le> (28 :: nat)" using a(2) by simp_all
    from T [OF l S] obtain pkt' mark where
      "out = address_packet6 K (cms6 s p) mark (skb_len skb) pkt'" "translated6 E 56 (cms6 s p) pkt pkt'" by auto
    with sp h p pr mtu a(1,3) show ?thesis
      by (intro exI [of _ p] exI [of _ pkt] exI [of _ pkt'] exI [of _ mark]) (auto simp: fits_device6_def)
  qed
qed

end
