(* ===== verification/Sfe6_System.thy ===== *)
theory Sfe6_System
  imports Sfe6_Recv_Safe Sfe6_Init Sfe_Cm_Life
begin

text \<open>
  The IPv6 engine behind the connection manager. \<open>engine6_ops\<close> is the record of operations the manager
  calls, with the code's engine behind it; it keeps the contract \<open>ipv6_engine\<close>, so what is proved of the
  manager over that contract holds for both engines together. The device references are in the table
  of the IPv4 engine's state, which both engines share.
\<close>

section \<open>Reports and invariant\<close>

lemma only_synced_engine6:
  assumes I: "engine_inv6 E base s A D" and o: "only_synced6 s t" and T: "table_inv6 E t A' D"
    and A': "connl6 A' = connl6 A"
  shows "engine_inv6 E base t A' D"
proof -
  have cm: "cm_static6 (cms6 t p) = cm_static6 (cms6 s p)" and cn: "conn_static6 (conns6 t c) = conn_static6 (conns6 s c)" for p c
    using o by (auto simp: only_synced6_def fun_eq_iff)
  have "dev_uses6 t cs d = dev_uses6 s cs d" for cs d
    by (induction cs) (simp_all add: conn_staticD6 [OF cn])
  moreover have "dev_refcnt6 t = dev_refcnt6 s" using o by (simp add: only_synced6_def)
  moreover have "conn_key6 t = conn_key6 s" by (simp add: fun_eq_iff only_synced_fields6(3) [OF o])
  ultimately show ?thesis
    using I T static_flow_ok6 [OF cm cn] by (simp add: engine_inv6_def refs_inv6_def A')
qed

lemma periodic_sync_engine6:
  assumes I: "engine_inv6 E base s A D"
  obtains t B where "sfe_ipv6_periodic_sync sis now s = Some t" and "engine_inv6 E base t B D"
    and "flow_keys6 t B = flow_keys6 s A" and "dev_refcnt6 t = dev_refcnt6 s"
proof (rule periodic_sync_ends6 [OF engine_table6 [OF I], of sis now])
  fix t B
  assume t: "sfe_ipv6_periodic_sync sis now s = Some t" and T: "table_inv6 E t B D"
    and B: "connl6 B = connl6 A" and o: "only_synced6 s t"
  have "flow_keys6 t B = flow_keys6 s A"
    by (simp add: flow_keys6_def B only_synced_fields6(3) [OF o])
  moreover have "dev_refcnt6 t = dev_refcnt6 s" using o by (simp add: only_synced6_def)
  ultimately show thesis using that t only_synced_engine6 [OF I o T B] by blast
qed

section \<open>References\<close>

lemma refs_of_base6:
  assumes "engine_inv6 E base s A D"
  shows "dev_refcnt6 s = (\<lambda>d. base d + int (dev_uses6 s (connl6 A @ D) d))"
  using assms by (auto simp: engine_inv6_def refs_inv6_def)

text \<open>The table of references may be exchanged for another with the same share of this engine.\<close>

lemma engine_rebase6:
  assumes I: "engine_inv6 E base s A D" and r: "\<And>d. r d = base' d + int (dev_uses6 s (connl6 A @ D) d)"
  shows "engine_inv6 E base' (s\<lparr>dev_refcnt6 := r\<rparr>) A D"
proof -
  let ?t = "s\<lparr>dev_refcnt6 := r\<rparr>"
  have S: "same_table6 s ?t" by (simp add: same_table6_def)
  have "table_inv6 E ?t A D" by (rule same_table_inv6 [OF engine_table6 [OF I] S])
  moreover have "flow_ok6 E ?t c = flow_ok6 E s c" for c by (rule flow_ok_cong6) simp_all
  moreover have "conn_key6 ?t = conn_key6 s" by (rule conn_key_cong6) simp
  moreover have "dev_uses6 ?t cs d = dev_uses6 s cs d" for cs d by (rule dev_uses_cong6) simp
  ultimately show ?thesis using I r by (simp add: engine_inv6_def refs_inv6_def)
qed

section \<open>The operations the manager calls\<close>

text \<open>
  \<open>alloc\<close> says which objects \<open>kmalloc\<close> returns in a state; objects in use are never returned, an
  allocation that would is taken to fail.
\<close>

definition kmalloc6 :: "(sfe_ipv6 \<Rightarrow> allocation) \<Rightarrow> sfe_ipv6 \<Rightarrow> allocation" where
  "kmalloc6 alloc v = (if alloc_fresh6 (alloc v) v then alloc v
     else \<lparr>al_conn = None, al_original = None, al_reply = None\<rparr>)"

lemma kmalloc6_fresh: "alloc_fresh6 (kmalloc6 alloc v) v"
  by (simp add: kmalloc6_def) (simp add: alloc_fresh6_def)

text \<open>
  An operation of the engine on the shared table of references. The manager's record has total
  operations; in a consistent state none of them is None (\<open>create_rule6\<close>, \<open>destroy_rule6\<close>,
  \<open>destroy_all_rules6\<close>), so the first case stands for states that are never reached.
\<close>

definition on_refs6 ::
  "(sfe_ipv6 \<Rightarrow> sfe_ipv6 option) \<Rightarrow> (netdev \<Rightarrow> int) \<times> sfe_ipv6 \<Rightarrow> (netdev \<Rightarrow> int) \<times> sfe_ipv6" where
  "on_refs6 f x = (case f ((snd x)\<lparr>dev_refcnt6 := fst x\<rparr>) of
     None \<Rightarrow> x
   | Some t \<Rightarrow> (dev_refcnt6 t, t))"

definition engine6_ops ::
  "sfe_env \<Rightarrow> kernel \<Rightarrow> (sfe_ipv6 \<Rightarrow> allocation) \<Rightarrow> u64 \<Rightarrow> sfe_connection_sync \<Rightarrow> (nat \<Rightarrow> u64) \<Rightarrow>
   sfe_ipv6 sfe_ipv6_ops" where
  "engine6_ops E N alloc jiffies sis now =
     \<lparr>ipv6_recv = (\<lambda>dev skb x. do {
        (out, t) \<leftarrow> sfe_ipv6_recv E N dev skb sis (now 0) ((snd x)\<lparr>dev_refcnt6 := fst x\<rparr>);
        Some (out, (dev_refcnt6 t, t))
      }),
      ipv6_create_rule = (\<lambda>sic. on_refs6 (\<lambda>v. map_option snd (sfe_ipv6_create_rule E sic (kmalloc6 alloc v) jiffies v))),
      ipv6_destroy_rule = (\<lambda>sid. on_refs6 (sfe_ipv6_destroy_rule E sid sis (now 0))),
      ipv6_destroy_all = (\<lambda>dev. on_refs6 (sfe_ipv6_destroy_all_rules_for_dev E dev sis now 0)),
      ipv6_register_callback = sfe_ipv6_register_sync_rule_callback\<rparr>"

definition engine6_rep :: "sfe_env \<Rightarrow> (netdev \<Rightarrow> int) \<Rightarrow> sfe_ipv6 \<Rightarrow> conn_key6 set \<Rightarrow> bool" where
  "engine6_rep E own v F \<longleftrightarrow> (\<exists>A. engine_inv6 E (\<lambda>_. 0) (v\<lparr>dev_refcnt6 := own\<rparr>) A [] \<and> flow_keys6 v A = F)"

lemma engine6_repI:
  assumes "engine_inv6 E base t A []" and "flow_keys6 t A = F"
  shows "\<exists>own. engine6_rep E own t F \<and> dev_refcnt6 t = (\<lambda>d. base d + own d) \<and>
    own = (\<lambda>d. int (dev_uses6 t (connl6 A @ []) d))"
proof -
  let ?own = "\<lambda>d. int (dev_uses6 t (connl6 A @ []) d)"
  have "engine_inv6 E (\<lambda>_. 0) (t\<lparr>dev_refcnt6 := ?own\<rparr>) A []" by (rule engine_rebase6 [OF assms(1)]) simp
  then show ?thesis using assms(2) refs_of_base6 [OF assms(1)] by (auto simp: engine6_rep_def)
qed

lemma engine6_repE:
  assumes "engine6_rep E own v F"
  obtains A where "engine_inv6 E base (v\<lparr>dev_refcnt6 := \<lambda>d. base d + own d\<rparr>) A []"
    and "flow_keys6 (v\<lparr>dev_refcnt6 := \<lambda>d. base d + own d\<rparr>) A = F"
proof -
  obtain A where I: "engine_inv6 E (\<lambda>_. 0) (v\<lparr>dev_refcnt6 := own\<rparr>) A []" and F: "flow_keys6 v A = F"
    using assms by (auto simp: engine6_rep_def)
  have "own d = int (dev_uses6 (v\<lparr>dev_refcnt6 := own\<rparr>) (connl6 A @ []) d)" for d
    using refs_of_base6 [OF I] by (simp add: fun_eq_iff)
  then have "engine_inv6 E base (v\<lparr>dev_refcnt6 := own\<rparr>\<lparr>dev_refcnt6 := \<lambda>d. base d + own d\<rparr>) A []"
    by (intro engine_rebase6 [OF I]) simp
  moreover have "flow_keys6 (v\<lparr>dev_refcnt6 := \<lambda>d. base d + own d\<rparr>) A = F"
    using F by (simp add: flow_keys6_def conn_key6_def fun_eq_iff)
  ultimately show thesis using that by simp
qed

lemma engine6_received:
  assumes R: "engine6_rep E own v F"
    and r: "ipv6_recv (engine6_ops E N alloc j sis now) dev skb (\<lambda>d. base d + own d, v) = Some (out, x)"
  shows "\<exists>own' v' F'. engine6_rep E own' v' F' \<and> F' \<subseteq> F \<and> x = (\<lambda>d. base d + own' d, v')"
proof -
  let ?v = "v\<lparr>dev_refcnt6 := \<lambda>d. base d + own d\<rparr>"
  obtain A where I: "engine_inv6 E base ?v A []" and F: "flow_keys6 ?v A = F" by (rule engine6_repE [OF R])
  obtain t where t: "sfe_ipv6_recv E N dev skb sis (now 0) ?v = Some (out, t)" and x: "x = (dev_refcnt6 t, t)"
    using r by (auto simp: engine6_ops_def bind_eq_Some_conv)
  from recv_engine6 [OF I t] obtain B where J: "engine_inv6 E base t B []" and k: "conn_key6 t = conn_key6 ?v"
    and B: "connl6 B = connl6 A \<or> (\<exists>c\<in>set (connl6 A). connl6 B = remove1 c (connl6 A))" by blast
  have "set (connl6 B) \<subseteq> set (connl6 A)" using B set_remove1_subset by fastforce
  then have "flow_keys6 t B \<subseteq> F" using F k by (auto simp: flow_keys6_def)
  with engine6_repI [OF J refl] x show ?thesis by auto
qed

lemma engine6_created:
  assumes R: "engine6_rep E own v F"
  shows "\<exists>own' v' F'. engine6_rep E own' v' F' \<and> F \<subseteq> F' \<and>
    ipv6_create_rule (engine6_ops E N alloc j sis now) sic (\<lambda>d. base d + own d, v) = (\<lambda>d. base d + own' d, v')"
proof -
  let ?v = "v\<lparr>dev_refcnt6 := \<lambda>d. base d + own d\<rparr>"
  obtain A where I: "engine_inv6 E base ?v A []" and F: "flow_keys6 ?v A = F" by (rule engine6_repE [OF R])
  show ?thesis
  proof (rule create_rule6 [OF I kmalloc6_fresh [of alloc], where sic = sic and j = j])
    fix res t B
    assume c: "sfe_ipv6_create_rule E sic (kmalloc6 alloc ?v) j ?v = Some (res, t)" and J: "engine_inv6 E base t B []"
      and no: "res \<noteq> CREATED \<Longrightarrow> B = A \<and> conn_key6 t = conn_key6 ?v"
      and yes: "res = CREATED \<Longrightarrow> \<exists>c. al_conn (kmalloc6 alloc ?v) = Some c \<and> connl6 B = connl6 A @ [c] \<and>
           conn_key6 t c = sic_key6 sic \<and> (\<forall>d\<in>set (connl6 A). conn_key6 t d = conn_key6 ?v d)"
    have "flow_keys6 ?v A \<subseteq> flow_keys6 t B"
    proof (cases "res = CREATED")
      case True
      then show ?thesis using yes by (force simp: flow_keys6_def)
    qed (use no in \<open>simp add: flow_keys6_def\<close>)
    with engine6_repI [OF J refl] F c show ?thesis
      by (auto simp: engine6_ops_def on_refs6_def)
  qed
qed

lemma engine6_destroyed:
  assumes R: "engine6_rep E own v F"
  shows "\<exists>own' v' F'. engine6_rep E own' v' F' \<and> F' \<subseteq> F \<and>
    ipv6_destroy_rule (engine6_ops E N alloc j sis now) sid (\<lambda>d. base d + own d, v) = (\<lambda>d. base d + own' d, v')"
proof -
  let ?v = "v\<lparr>dev_refcnt6 := \<lambda>d. base d + own d\<rparr>"
  obtain A where I: "engine_inv6 E base ?v A []" and F: "flow_keys6 ?v A = F" by (rule engine6_repE [OF R])
  obtain t B where d: "sfe_ipv6_destroy_rule E sid sis (now 0) ?v = Some t" and J: "engine_inv6 E base t B []"
    and B: "connl6 B = filter (\<lambda>c. conn_key6 ?v c \<noteq> sid_key6 sid) (connl6 A)" and k: "conn_key6 t = conn_key6 ?v"
    by (rule destroy_rule6 [OF I, where sid = sid and sis = sis and now = "now 0"])
  have "flow_keys6 t B \<subseteq> F" using flow_keys_remove6 [OF I B k] F by auto
  with engine6_repI [OF J refl] d show ?thesis by (auto simp: engine6_ops_def on_refs6_def)
qed

lemma engine6_destroyed_all:
  assumes R: "engine6_rep E own v F"
  shows "\<exists>own' v' F'. engine6_rep E own' v' F' \<and> F' \<subseteq> F \<and> (dev = None \<longrightarrow> F' = {} \<and> own' = (\<lambda>_. 0)) \<and>
    ipv6_destroy_all (engine6_ops E N alloc j sis now) dev (\<lambda>d. base d + own d, v) = (\<lambda>d. base d + own' d, v')"
proof -
  let ?v = "v\<lparr>dev_refcnt6 := \<lambda>d. base d + own d\<rparr>"
  obtain A where I: "engine_inv6 E base ?v A []" and F: "flow_keys6 ?v A = F" by (rule engine6_repE [OF R])
  obtain t B where d: "sfe_ipv6_destroy_all_rules_for_dev E dev sis now 0 ?v = Some t" and J: "engine_inv6 E base t B []"
    and B: "connl6 B = filter (\<lambda>c. \<not> uses_dev6 dev (conns6 ?v c)) (connl6 A)" and k: "conn_key6 t = conn_key6 ?v"
    using destroy_all_rules6 [OF I, of dev sis now 0] by blast
  have sub: "flow_keys6 t B \<subseteq> F" using F B k by (auto simp: flow_keys6_def)
  have none: "connl6 B = []" if "dev = None" using B that by (simp add: uses_dev6_def)
  obtain own' where "engine6_rep E own' t (flow_keys6 t B)" "dev_refcnt6 t = (\<lambda>d. base d + own' d)"
    "own' = (\<lambda>d. int (dev_uses6 t (connl6 B @ []) d))" using engine6_repI [OF J refl] by blast
  then show ?thesis using d sub none
    by (intro exI [of _ own'] exI [of _ t] exI [of _ "flow_keys6 t B"])
      (auto simp: engine6_ops_def on_refs6_def flow_keys6_def)
qed

lemma engine6_registered:
  assumes "engine6_rep E own v F"
  shows "engine6_rep E own (sfe_ipv6_register_sync_rule_callback cb v) F"
proof -
  obtain A where I: "engine_inv6 E (\<lambda>_. 0) (v\<lparr>dev_refcnt6 := own\<rparr>) A []" and F: "flow_keys6 v A = F"
    using assms by (auto simp: engine6_rep_def)
  have "engine_inv6 E (\<lambda>_. 0) ((v\<lparr>sync_rule_callback6 := cb\<rparr>)\<lparr>dev_refcnt6 := own\<rparr>) A []"
    by (rule same_table_engine6 [OF I]) (simp_all add: same_table6_def)
  then show ?thesis using F
    by (auto simp: engine6_rep_def sfe_ipv6_register_sync_rule_callback_def flow_keys6_def conn_key6_def fun_eq_iff)
qed

interpretation v6: ipv6_engine "engine6_ops E N alloc jf sisf nowf" "engine6_rep E"
  for E N alloc jf sisf nowf
proof unfold_locales
  show "engine6_rep E own (ipv6_register_callback (engine6_ops E N alloc jf sisf nowf) cb v) F"
    if "engine6_rep E own v F" for own v F cb
    using engine6_registered [OF that] by (simp add: engine6_ops_def)
qed (rule engine6_received engine6_created engine6_destroyed engine6_destroyed_all; assumption)+

end
