(* ===== verification/Sfe6_Dual.thy ===== *)
theory Sfe6_Dual
  imports Sfe6_System
begin

text \<open>
  The manager with both engines: the steps are the entry points of sfe_cm.c and the two timers, with the
  IPv6 engine of \<open>Sfe6_System\<close> behind the IPv6 calls. Over any run both engines stay consistent, no entry
  point gets stuck, and the end of the module frees everything both of them hold.
\<close>

section \<open>Steps\<close>

text \<open>A run of the IPv6 timer function with the reports it makes to the connection manager.\<close>

definition cm_tick6 ::
  "cm_kernel \<Rightarrow> sfe_connection_sync \<Rightarrow> u64 \<Rightarrow> u64 \<Rightarrow> sfe_ipv6 sfe_cm \<Rightarrow> sfe_ipv6 sfe_cm option" where
  "cm_tick6 K sis now jiffies s = do {
     t \<leftarrow> sfe_ipv6_periodic_sync sis now ((cm_v6 s)\<lparr>dev_refcnt6 := dev_refcnt (cm_v4 s)\<rparr>);
     let ms = map snd (drop (length (sync_calls6 (cm_v6 s))) (sync_calls6 t));
     Some (cm_deliver K jiffies ms (s\<lparr>cm_v6 := t\<rparr>))
   }"

inductive dual_step :: "sfe_env \<Rightarrow> kernel \<Rightarrow> cm_kernel \<Rightarrow> sfe_ipv6 sfe_cm \<Rightarrow> sfe_ipv6 sfe_cm \<Rightarrow> bool"
  for E N K where
  dual_leaves: "sfe_cm_post_routing E K (engine6_ops E N alloc j sis nows) is_v4 al j junk p s = Some t \<Longrightarrow>
    (is_v4 \<longrightarrow> alloc_fresh al (cm_v4 s)) \<Longrightarrow> dual_step E N K s t"
| dual_arrives: "sfe_cm_recv E N K (engine6_ops E N alloc j sis nows) proto skb sis now s = Some (out, t) \<Longrightarrow>
    dual_step E N K s t"
| dual_ends: "sfe_cm_conntrack_event E (engine6_ops E N alloc j sis nows) sid sis now is_destroy ct s = Some t \<Longrightarrow>
    dual_step E N K s t"
| dual_device: "sfe_cm_device_event E (engine6_ops E N alloc j sis nows) sis nows event dev s = Some t \<Longrightarrow>
    dual_step E N K s t"
| dual_inet: "sfe_cm_inet_event E sis nows event dev s = Some t \<Longrightarrow> dual_step E N K s t"
| dual_inet6: "dual_step E N K s (sfe_cm_inet6_event (engine6_ops E N alloc j sis nows) event dev s)"
| dual_tick: "cm_tick K sis now j s = Some t \<Longrightarrow> dual_step E N K s t"
| dual_tick6: "cm_tick6 K sis now j s = Some t \<Longrightarrow> dual_step E N K s t"
| dual_conntrack: "dual_step E N K s (s\<lparr>cts := f\<rparr>)"

text \<open>The reports of a flush reach the connection tracking as a step of their own.\<close>

lemma dual_delivery_is_a_step: "dual_step E N K s (cm_deliver K j ms s)"
  using dual_conntrack [of E N K s "cts (cm_deliver K j ms s)"] by (simp only: deliver_cts)

inductive dual_run :: "sfe_env \<Rightarrow> kernel \<Rightarrow> cm_kernel \<Rightarrow> sfe_ipv6 sfe_cm \<Rightarrow> sfe_ipv6 sfe_cm \<Rightarrow> bool"
  for E N K s where
  dual_none: "dual_run E N K s s"
| dual_more: "dual_run E N K s t \<Longrightarrow> dual_step E N K t u \<Longrightarrow> dual_run E N K s u"

section \<open>The invariant\<close>

text \<open>Both engines are consistent and share the references above \<open>base\<close>.\<close>

definition dual_inv :: "sfe_env \<Rightarrow> (netdev \<Rightarrow> int) \<Rightarrow> sfe_ipv6 sfe_cm \<Rightarrow> bool" where
  "dual_inv E base s \<longleftrightarrow> (\<exists>M F. cm_rep E (engine6_rep E) base [] s M F)"

definition kept_refs :: "'v sfe_cm \<Rightarrow> 'v sfe_cm \<Rightarrow> bool" where
  "kept_refs s t \<longleftrightarrow> neigh_refs t = neigh_refs s \<and> dst_refs t = dst_refs s \<and> ct_refs t = ct_refs s"

lemma same_kept_refs: "same_refs s t \<Longrightarrow> kept_refs s t"
  by (simp add: same_refs_def kept_refs_def)

lemma tick6_rep:
  assumes R: "cm_rep E (engine6_rep E) base D s M F"
  obtains t where "cm_tick6 K sis now j s = Some t" and "cm_rep E (engine6_rep E) base D t M F"
    and "kept_refs s t"
proof -
  obtain A own where I: "engine_inv E (\<lambda>d. base d + own d) (cm_v4 s) A D" and M: "flow_map (cm_v4 s) A = M"
    and v: "engine6_rep E own (cm_v6 s) F" using R by (auto simp: cm_rep_def)
  let ?r = "\<lambda>d. base d + int (dev_uses (cm_v4 s) (connl A @ D) d)"
  let ?v = "(cm_v6 s)\<lparr>dev_refcnt6 := dev_refcnt (cm_v4 s)\<rparr>"
  have r: "dev_refcnt (cm_v4 s) = (\<lambda>d. ?r d + own d)" by (rule ext) (simp only: refs_of_base [OF I] ac_simps)
  obtain B where J: "engine_inv6 E ?r ?v B []" and F: "flow_keys6 ?v B = F"
    unfolding r by (rule engine6_repE [OF v])
  obtain u C where u: "sfe_ipv6_periodic_sync sis now ?v = Some u" and L: "engine_inv6 E ?r u C []"
    and k: "flow_keys6 u C = F" and d: "dev_refcnt6 u = dev_refcnt6 ?v"
    by (rule periodic_sync_engine6 [OF J, unfolded F, of sis now]) (rule that)
  obtain own' where ru: "engine6_rep E own' u F" and o: "dev_refcnt6 u = (\<lambda>d. ?r d + own' d)"
    using engine6_repI [OF L k] by blast
  have "own' = own" using d o r by (auto simp: fun_eq_iff)
  let ?t = "cm_deliver K j (map snd (drop (length (sync_calls6 (cm_v6 s))) (sync_calls6 u))) (s\<lparr>cm_v6 := u\<rparr>)"
  have "cm_rep E (engine6_rep E) base D ?t M F"
    using I M ru \<open>own' = own\<close> unfolding cm_rep_def by (intro exI [of _ A] exI [of _ own]) simp
  then show thesis by (intro that [of ?t]) (simp_all add: cm_tick6_def u kept_refs_def)
qed

theorem dual_step_inv:
  assumes "dual_step E N K s t" and I: "dual_inv E base s" and fit: "\<forall>d. dev_addr_len K d \<le> ETH_ALEN"
  shows "dual_inv E base t \<and> kept_refs s t"
proof -
  obtain M F where R: "cm_rep E (engine6_rep E) base [] s M F" using I by (auto simp: dual_inv_def)
  have end_rep: ?thesis if "cm_rep E (engine6_rep E) base [] t M' F'" "same_refs s t" for M' F'
    using that same_kept_refs by (auto simp: dual_inv_def)
  show ?thesis
    using assms(1)
  proof cases
    case (dual_leaves alloc j sis nows is_v4 al junk p)
    have fresh: "alloc_fresh al (cm_v4 s)" if is_v4 using dual_leaves(2) that by simp
    obtain u M' F' where "sfe_cm_post_routing E K (engine6_ops E N alloc j sis nows) is_v4 al j junk p s = Some u"
      "cm_rep E (engine6_rep E) base [] u M' F'" "same_refs s u"
      by (rule v6.post_routing_rep [OF R fit fresh, where ?is_v4.0 = is_v4]) (assumption | rule that)+
    with dual_leaves(1) end_rep show ?thesis by simp
  next
    case (dual_arrives alloc j sis nows proto skb now out)
    from v6.recv_rep [OF R dual_arrives] end_rep show ?thesis by blast
  next
    case (dual_ends alloc j sis nows sid now is_destroy ct)
    obtain u F' where "sfe_cm_conntrack_event E (engine6_ops E N alloc j sis nows) sid sis now is_destroy ct s = Some u"
      "same_refs s u" "cm_rep E (engine6_rep E) base [] u (forget_ended (ended is_destroy ct (cts s)) M) F'"
      by (rule v6.conntrack_event_rep [OF R])
    with dual_ends end_rep show ?thesis by simp
  next
    case (dual_device alloc j sis nows event dev)
    obtain u F' where "sfe_cm_device_event E (engine6_ops E N alloc j sis nows) sis nows event dev s = Some u"
      "same_refs s u"
      "cm_rep E (engine6_rep E) base [] u (if event = NETDEV_DOWN \<and> dev \<noteq> None then without_dev dev M else M) F'"
      by (rule v6.device_event_rep [OF R])
    with dual_device end_rep show ?thesis by simp
  next
    case (dual_inet sis nows event dev)
    obtain u where "sfe_cm_inet_event E sis nows event dev s = Some u" "same_refs s u"
      "cm_rep E (engine6_rep E) base [] u (if event = NETDEV_DOWN \<and> dev \<noteq> None then without_dev dev M else M) F"
      by (rule v6.inet_event_rep [OF R])
    with dual_inet end_rep show ?thesis by simp
  next
    case (dual_inet6 alloc j sis nows event dev)
    obtain F' where "cm_rep E (engine6_rep E) base [] (sfe_cm_inet6_event (engine6_ops E N alloc j sis nows) event dev s) M F'"
      "same_refs s (sfe_cm_inet6_event (engine6_ops E N alloc j sis nows) event dev s)"
      by (rule v6.inet6_event_rep [OF R])
    with dual_inet6 end_rep show ?thesis by simp
  next
    case (dual_tick sis now j)
    obtain u where "cm_tick K sis now j s = Some u" "cm_rep E (engine6_rep E) base [] u M F"
      "neigh_refs u = neigh_refs s" "dst_refs u = dst_refs s" "ct_refs u = ct_refs s"
      by (rule tick_rep [OF R])
    with dual_tick show ?thesis by (auto simp: dual_inv_def kept_refs_def)
  next
    case (dual_tick6 sis now j)
    obtain u where "cm_tick6 K sis now j s = Some u" "cm_rep E (engine6_rep E) base [] u M F" "kept_refs s u"
      by (rule tick6_rep [OF R])
    with dual_tick6 show ?thesis by (auto simp: dual_inv_def)
  next
    case (dual_conntrack f)
    then show ?thesis using R by (auto simp: dual_inv_def cm_rep_def kept_refs_def)
  qed
qed

lemma dual_run_inv:
  assumes "dual_run E N K s t" and "dual_inv E base s" and "\<forall>d. dev_addr_len K d \<le> ETH_ALEN"
  shows "dual_inv E base t \<and> kept_refs s t"
  using assms(1)
proof induction
  case dual_none
  then show ?case using assms(2) by (simp add: kept_refs_def)
next
  case (dual_more t u)
  have "kept_refs s t" using dual_more.IH by (rule conjunct2)
  then show ?case
    using dual_step_inv [OF dual_more.hyps(2) conjunct1 [OF dual_more.IH] assms(3)] by (simp add: kept_refs_def)
qed

section \<open>Start and end\<close>

text \<open>Both modules have started; their state is zero, the rest of the memory is arbitrary.\<close>

definition dual_start :: "sfe_ipv6 sfe_cm \<Rightarrow> sfe_ipv6 sfe_cm" where
  "dual_start mem = mem\<lparr>cm_v4 := engine_start (cm_v4 mem), cm_v6 := engine_start6 (cm_v6 mem)\<rparr>"

lemma dual_start_inv:
  "dual_inv E (dev_refcnt (cm_v4 mem)) (cm_register_callbacks (engine6_ops E N alloc j sis nows) (Some cb) (dual_start mem))"
proof -
  let ?v = "engine_start6 (cm_v6 mem)"
  have I: "engine_inv E (dev_refcnt (cm_v4 mem)) (sfe_ipv4_register_sync_rule_callback (Some cb) (engine_start (cm_v4 mem))) abs_start []"
    by (rule register_engine [OF engine_start_inv])
  have J: "engine_inv6 E (\<lambda>_. 0) (?v\<lparr>dev_refcnt6 := \<lambda>_. 0\<rparr>) abs_start6 []"
    by (rule engine_rebase6 [OF engine_start_inv6]) (simp add: abs_start6_def)
  then have "engine6_rep E (\<lambda>_. 0) ?v {}"
    unfolding engine6_rep_def by (intro exI [of _ abs_start6]) (simp add: flow_keys6_def abs_start6_def)
  then have "engine6_rep E (\<lambda>_. 0) (sfe_ipv6_register_sync_rule_callback (Some cb) ?v) {}"
    by (rule engine6_registered)
  with I show ?thesis
    unfolding dual_inv_def cm_rep_def cm_register_callbacks_def dual_start_def
    by (intro exI [of _ "flow_map (sfe_ipv4_register_sync_rule_callback (Some cb) (engine_start (cm_v4 mem))) abs_start"]
        exI [of _ "{}"] exI [of _ abs_start] exI [of _ "\<lambda>_. 0"]) (simp add: engine6_ops_def)
qed

lemma no_flows_no_refs6:
  assumes "engine6_rep E own v {}"
  shows "own = (\<lambda>_. 0)" and "conn_live6 v = {}" and "cm_live6 v = {}"
proof -
  obtain A where I: "engine_inv6 E (\<lambda>_. 0) (v\<lparr>dev_refcnt6 := own\<rparr>) A []" and "flow_keys6 v A = {}"
    using assms by (auto simp: engine6_rep_def)
  then have c: "connl6 A = []" by (simp add: flow_keys6_def)
  show "own = (\<lambda>_. 0)" using refs_of_base6 [OF I] by (simp add: c)
  show "conn_live6 v = {}" "cm_live6 v = {}"
    using I c by (auto simp: engine_inv6_def refs_inv6_def table_inv6_def)
qed

lemma dual_empty:
  assumes R: "cm_rep E (engine6_rep E) base [] s Map.empty {}"
  shows "dev_refcnt (cm_v4 s) = base" and "conn_live (cm_v4 s) = {}" and "cm_live (cm_v4 s) = {}"
    and "conn_live6 (cm_v6 s) = {}" and "cm_live6 (cm_v6 s) = {}"
proof -
  obtain A own where I: "engine_inv E (\<lambda>d. base d + own d) (cm_v4 s) A []" and m: "flow_map (cm_v4 s) A = Map.empty"
    and v: "engine6_rep E own (cm_v6 s) {}" using R by (auto simp: cm_rep_def)
  note n = no_flows_no_refs6 [OF v]
  have J: "engine_inv E base (cm_v4 s) A []" using I n(1) by simp
  show "dev_refcnt (cm_v4 s) = base" "conn_live (cm_v4 s) = {}" "cm_live (cm_v4 s) = {}"
    by (rule empty_engine [OF J m])+
  show "conn_live6 (cm_v6 s) = {}" "cm_live6 (cm_v6 s) = {}" by (rule n)+
qed

section \<open>Progress\<close>

lemma dual_recv_returns:
  assumes R: "dual_inv E base s" and N: "kernel_ok N" and ok: "skb_ok skb" "bounded skb" "tcp_linear skb" "tcp_linear6 skb"
  shows "\<exists>r. sfe_cm_recv E N K (engine6_ops E N alloc j sis' nows) proto skb sis now s = Some r"
proof -
  obtain M F A own where I: "engine_inv E (\<lambda>d. base d + own d) (cm_v4 s) A []"
    and v: "engine6_rep E own (cm_v6 s) F"
    using R by (auto simp: dual_inv_def cm_rep_def)
  have r: "dev_refcnt (cm_v4 s) = (\<lambda>d. (base d + int (dev_uses (cm_v4 s) (connl A @ []) d)) + own d)"
    by (rule ext) (simp only: refs_of_base [OF I] ac_simps)
  obtain B where J: "engine_inv6 E (\<lambda>d. base d + int (dev_uses (cm_v4 s) (connl A @ []) d))
      ((cm_v6 s)\<lparr>dev_refcnt6 := dev_refcnt (cm_v4 s)\<rparr>) B []"
    unfolding r by (rule engine6_repE [OF v])
  obtain out t where "sfe_ipv6_recv E N (skb_dev skb) skb sis' (nows 0)
      ((cm_v6 s)\<lparr>dev_refcnt6 := dev_refcnt (cm_v4 s)\<rparr>) = Some (out, t)"
    using recv_runs6 [OF J N ok(1,2,4)] by blast
  moreover obtain out' t' where "sfe_ipv4_recv E N (skb_dev skb) skb sis now (cm_v4 s) = Some (out', t')"
    using recv_runs [OF I N ok(1,3)] by blast
  ultimately show ?thesis
    by (auto simp: sfe_cm_recv_def Let_def engine6_ops_def split: option.split bool.split)
qed

theorem dual_progress:
  assumes I: "dual_inv E base s" and fit: "\<forall>d. dev_addr_len K d \<le> ETH_ALEN" and N: "kernel_ok N"
  shows "(is_v4 \<longrightarrow> alloc_fresh al (cm_v4 s)) \<Longrightarrow>
      \<exists>t. sfe_cm_post_routing E K (engine6_ops E N alloc j sis nows) is_v4 al j junk p s = Some t"
    and "skb_ok skb \<Longrightarrow> bounded skb \<Longrightarrow> tcp_linear skb \<Longrightarrow> tcp_linear6 skb \<Longrightarrow>
      \<exists>r. sfe_cm_recv E N K (engine6_ops E N alloc j sis nows) proto skb sis now s = Some r"
    and "\<exists>t. sfe_cm_conntrack_event E (engine6_ops E N alloc j sis nows) sid sis now is_destroy ct s = Some t"
    and "\<exists>t. sfe_cm_device_event E (engine6_ops E N alloc j sis nows) sis nows event dev s = Some t"
    and "\<exists>t. cm_tick K sis now j s = Some t" and "\<exists>t. cm_tick6 K sis now j s = Some t"
proof -
  obtain M F where R: "cm_rep E (engine6_rep E) base [] s M F" using I by (auto simp: dual_inv_def)
  show "\<exists>t. sfe_cm_post_routing E K (engine6_ops E N alloc j sis nows) is_v4 al j junk p s = Some t"
    if "is_v4 \<longrightarrow> alloc_fresh al (cm_v4 s)"
    by (rule v6.post_routing_rep [OF R fit mp [OF that]]) blast+
  show "\<exists>r. sfe_cm_recv E N K (engine6_ops E N alloc j sis nows) proto skb sis now s = Some r"
    if "skb_ok skb" "bounded skb" "tcp_linear skb" "tcp_linear6 skb"
    by (rule dual_recv_returns [OF I N that])
  show "\<exists>t. sfe_cm_conntrack_event E (engine6_ops E N alloc j sis nows) sid sis now is_destroy ct s = Some t"
    by (rule v6.conntrack_event_rep [OF R]) blast
  show "\<exists>t. sfe_cm_device_event E (engine6_ops E N alloc j sis nows) sis nows event dev s = Some t"
    by (rule v6.device_event_rep [OF R]) blast
  show "\<exists>t. cm_tick K sis now j s = Some t" by (rule tick_rep [OF R]) blast
  show "\<exists>t. cm_tick6 K sis now j s = Some t" by (rule tick6_rep [OF R]) blast
qed

end
