(* ===== verification/Sfe6_Props.thy ===== *)
theory Sfe6_Props
  imports Sfe6_Path Sfe6_Dual
begin

text \<open>
  The properties of the IPv6 engine and of the manager with both engines: every packet is handled, what
  is forwarded is translated, the walk over extension headers ends, and a run of the whole module leaves
  nothing behind.
\<close>

section \<open>Packets\<close>

text \<open>An exception that is only counted costs no flow.\<close>

lemma counted_only6:
  assumes I: "engine_inv6 E base s A D"
  shows "engine_inv6 E base (count_exception6 e s) A D" and "gives_up6 [] s A (count_exception6 e s) A"
    and "outcome_counted6 (NotForwarded pkt) s (count_exception6 e s)"
proof -
  show "engine_inv6 E base (count_exception6 e s) A D"
    using I by (rule same_table_engine6) (simp_all add: count_exception6_def same_table6_def)
  show "gives_up6 [] s A (count_exception6 e s) A"
    by (simp add: gives_up6_def flow_keys6_def count_exception6_def conn_key6_def split: option.split)
qed (simp add: count_exception6_def)

text \<open>
  C15: An IPv6 packet shorter than 2 GB (so that the offset of the extension headers does not wrap around)
  whose TCP options, if it claims any, are in the linear area and are not cut off after a kind byte is
  handled: the receive function returns, and it follows no NULL link and reads and writes nothing outside
  the linear part of the packet. The engine stays consistent, exactly one of the two packet counters
  grows, a forwarded packet costs no flow, any other packet costs at most one flow of the engine, and that
  flow is reported as flushed. A packet whose next header is neither an extension header nor UDP, TCP or
  ICMPv6 is handed back as it came, costs no flow and is counted as one exception.
\<close>

theorem ipv6_every_packet_handled:
  assumes "engine_inv6 E base s A D" and "kernel_ok K" and "skb_ok skb" and "bounded skb" and "tcp_linear6 skb"
  shows "\<exists>out t B ks. sfe_ipv6_recv E K dev skb sis now s = Some (out, t) \<and> engine_inv6 E base t B D \<and>
    outcome_counted6 out s t \<and> gives_up6 ks s A t B \<and> length ks \<le> 1 \<and>
    (\<forall>pkt. out = Forwarded pkt \<longrightarrow> ks = []) \<and>
    (skb_bytes skb 6 \<notin> {6, 17, 58} \<and> \<not> sfe_ipv6_is_ext_hdr (skb_bytes skb 6) \<longrightarrow>
      (\<exists>e pkt. out = NotForwarded pkt \<and> same_packet skb pkt \<and> t = count_exception6 e s) \<and> ks = [])"
proof -
  obtain out t where r: "sfe_ipv6_recv E K dev skb sis now s = Some (out, t)"
    using recv_runs6 [OF assms] by blast
  show ?thesis
  proof (cases "skb_bytes skb 6 \<in> {6, 17, 58} \<or> sfe_ipv6_is_ext_hdr (skb_bytes skb 6)")
    case True
    then show ?thesis using r recv_effect6 [OF assms(1) r] by blast
  next
    case False
    then obtain e pkt where o: "out = NotForwarded pkt" "same_packet skb pkt" "t = count_exception6 e s"
      using other_protocol_rejected6 [OF assms(2-4) _ _ r] by blast
    show ?thesis
      using r counted_only6(1,2) [OF assms(1), of e] counted_only6(3) [OF assms(1), of pkt e] o
      by (intro exI [of _ out] exI [of _ t] exI [of _ A] exI [of _ "[]"]) auto
  qed
qed

lemma demo_skb6_ok: "skb_ok demo_skb6" "bounded demo_skb6" "tcp_linear6 demo_skb6"
  by (simp_all add: skb_ok_def bounded_def tcp_linear6_def demo_skb6_def demo_bytes6_def)

theorem ipv6_every_packet_handled_witness:
  "\<exists>A out t B ks. flow_keys6 demo_state6 A \<noteq> {} \<and>
    sfe_ipv6_recv demo_env demo_kernel 1 demo_skb6 demo_sis 5 demo_state6 = Some (out, t) \<and>
    engine_inv6 demo_env no_refs t B [] \<and>
    outcome_counted6 out demo_state6 t \<and> gives_up6 ks demo_state6 A t B \<and> length ks \<le> 1 \<and>
    (\<forall>pkt. out = Forwarded pkt \<longrightarrow> ks = []) \<and>
    (skb_bytes demo_skb6 6 \<notin> {6, 17, 58} \<and> \<not> sfe_ipv6_is_ext_hdr (skb_bytes demo_skb6 6) \<longrightarrow>
      (\<exists>e pkt. out = NotForwarded pkt \<and> same_packet demo_skb6 pkt \<and> t = count_exception6 e demo_state6) \<and> ks = [])"
proof (rule demo_inv6)
  fix A
  assume I: "engine_inv6 demo_env no_refs demo_state6 A []" and "connl6 A = [0]"
  then have "flow_keys6 demo_state6 A \<noteq> {}" by (simp add: flow_keys6_def)
  with ipv6_every_packet_handled [OF I demo_kernel_ok demo_skb6_ok, of 1 demo_sis 5] show ?thesis by blast
qed

text \<open>
  C14: An IPv6 packet leaves only if it has no extension headers (its next header is UDP or TCP, the
  protocol of the flow), belongs to a flow of the engine by protocol, addresses and ports, arrived on the
  device of that flow, has a hop limit of at least 2, fits the outgoing device (or is segmented
  TCP) and, for TCP, carries ACK without SYN, RST and FIN. What leaves is the packet with the translated
  source and destination, a hop limit less by one, a transport checksum that covers the new addresses
  and ports as it covered the old ones, and every other byte except the traffic class unchanged.
\<close>

theorem ipv6_forwarded_is_translated:
  assumes "engine_inv6 E base s A D" and "kernel_ok K" and "skb_ok skb" and "bounded skb"
    and "sfe_ipv6_recv E K dev skb sis now s = Some (Forwarded out, t)"
  shows "\<exists>p pkt pkt' mark. p \<in> table_matches6 s (connl6 A) \<and> same_packet skb pkt \<and>
    rd8 pkt 6 = Some (match_protocol6 (cms6 s p)) \<and> match_dev6 (cms6 s p) = dev \<and> fits_device6 (cms6 s p) skb \<and>
    out = address_packet6 K (cms6 s p) mark (skb_len skb) pkt' \<and>
    (match_protocol6 (cms6 s p) = 17 \<and> translated6 E 46 (cms6 s p) pkt pkt' \<or>
     match_protocol6 (cms6 s p) = 6 \<and> translated6 E 56 (cms6 s p) pkt pkt' \<and>
       (\<exists>flags. rd32 E pkt 52 = Some flags \<and> fast_flags E flags))"
  by (rule recv_translated6 [OF assms])

fun is_forwarded6 :: "(recv_outcome \<times> sfe_ipv6) option \<Rightarrow> bool" where
  "is_forwarded6 (Some (Forwarded pkt, t)) = True"
| "is_forwarded6 r = False"

lemma demo_forwards6: "is_forwarded6 (sfe_ipv6_recv demo_env demo_kernel 1 demo_skb6 demo_sis 5 demo_state6)"
  by code_simp

theorem ipv6_forwarded_is_translated_witness:
  "\<exists>(A :: sfe_abs6) out t. sfe_ipv6_recv demo_env demo_kernel 1 demo_skb6 demo_sis 5 demo_state6 =
      Some (Forwarded out, t) \<and> (\<exists>p pkt pkt' mark.
    p \<in> table_matches6 demo_state6 (connl6 A) \<and> same_packet demo_skb6 pkt \<and>
    rd8 pkt 6 = Some (match_protocol6 (cms6 demo_state6 p)) \<and> match_dev6 (cms6 demo_state6 p) = 1 \<and> fits_device6 (cms6 demo_state6 p) demo_skb6 \<and>
    out = address_packet6 demo_kernel (cms6 demo_state6 p) mark (skb_len demo_skb6) pkt' \<and>
    (match_protocol6 (cms6 demo_state6 p) = 17 \<and> translated6 demo_env 46 (cms6 demo_state6 p) pkt pkt' \<or>
     match_protocol6 (cms6 demo_state6 p) = 6 \<and> translated6 demo_env 56 (cms6 demo_state6 p) pkt pkt' \<and>
       (\<exists>flags. rd32 demo_env pkt 52 = Some flags \<and> fast_flags demo_env flags)))"
proof (rule demo_inv6)
  fix A
  assume I: "engine_inv6 demo_env no_refs demo_state6 A []"
  obtain out t where r: "sfe_ipv6_recv demo_env demo_kernel 1 demo_skb6 demo_sis 5 demo_state6 = Some (Forwarded out, t)"
    using demo_forwards6 by (rule is_forwarded6.elims(2)) blast
  show ?thesis
    by (intro exI) (rule conjI [OF r ipv6_forwarded_is_translated [OF I demo_kernel_ok demo_skb6_ok(1,2) r]])
qed

section \<open>Extension headers\<close>

text \<open>
  C16: The walk over the extension headers ends for every packet shorter than 2 GB, whatever lengths its
  headers claim: it rejects the packet, or it stops at a header that is none of the extension headers,
  with eight bytes of the packet behind it, and has noted whether it skipped any.
\<close>

theorem ipv6_ext_headers_end:
  assumes "kernel_ok K" and "skb_ok skb" and "bounded skb" and "at_header skb ihl"
  shows "\<exists>skb' r. ext_headers E K skb ihl next_hdr skipped = Some (skb', r) \<and> same_packet skb skb' \<and> skb_ok skb' \<and>
    (\<forall>ihl' n k. r = Inr (ihl', n, k) \<longrightarrow> at_header skb' ihl' \<and> \<not> sfe_ipv6_is_ext_hdr n \<and>
       (k \<or> ihl' = ihl \<and> n = next_hdr \<and> k = skipped))"
  by (rule ext_headers_end [OF assms])

text \<open>The packet of the demonstration behind a hop-by-hop header of eight bytes.\<close>

definition hop_skb6 :: sk_buff where
  "hop_skb6 = demo_skb6\<lparr>skb_len := 60, skb_headlen := 60,
     skb_bytes := (\<lambda>i. if i < 60 then (take 40 demo_bytes6 @ [17, 0, 1, 4, 0, 0, 0, 0] @ drop 40 demo_bytes6) ! i else 0)\<rparr>"

theorem ipv6_ext_headers_end_witness:
  "sfe_ipv6_is_ext_hdr 0 \<and> (\<exists>skb' r. ext_headers demo_env demo_kernel hop_skb6 40 0 False = Some (skb', r) \<and>
    same_packet hop_skb6 skb' \<and> skb_ok skb' \<and>
    (\<forall>ihl' n k. r = Inr (ihl', n, k) \<longrightarrow> at_header skb' ihl' \<and> \<not> sfe_ipv6_is_ext_hdr n \<and>
       (k \<or> ihl' = 40 \<and> n = 0 \<and> k = False)))"
proof
  have "skb_ok hop_skb6" "bounded hop_skb6" "at_header hop_skb6 40"
    by (simp_all add: hop_skb6_def skb_ok_def bounded_def at_header_def)
  then show "\<exists>skb' r. ext_headers demo_env demo_kernel hop_skb6 40 0 False = Some (skb', r) \<and>
    same_packet hop_skb6 skb' \<and> skb_ok skb' \<and>
    (\<forall>ihl' n k. r = Inr (ihl', n, k) \<longrightarrow> at_header skb' ihl' \<and> \<not> sfe_ipv6_is_ext_hdr n \<and>
       (k \<or> ihl' = 40 \<and> n = 0 \<and> k = False))"
    by (rule ipv6_ext_headers_end [OF demo_kernel_ok])
  show "sfe_ipv6_is_ext_hdr 0" by code_simp
qed

section \<open>The whole module\<close>

text \<open>
  C13: From its start over any run of its entry points and of both timers to its end, the module with both
  engines leaves nothing behind: the end returns, every hook and notifier is unregistered, both
  engines are empty with all their objects freed, and the references on devices (which both
  engines hold), neighbours, routes and connection tracking entries are what they were before the
  start. (Addresses of devices are at most six bytes long.)
\<close>

theorem dual_module_leaves_nothing:
  assumes init: "sfe_cm_init C (engine6_ops E N alloc j sis6 nows) cb dir_ok file_result hook_result ct_result
      (dual_start mem) = (0, held, s)"
    and run: "dual_run E N K s t" and fit: "\<forall>d. dev_addr_len K d \<le> ETH_ALEN"
  shows "\<exists>u. sfe_cm_exit C E (engine6_ops E N alloc j sis6 nows) sis now (held, t) = Some ({}, u) \<and>
    dual_inv E (dev_refcnt (cm_v4 mem)) u \<and>
    conn_live (cm_v4 u) = {} \<and> cm_live (cm_v4 u) = {} \<and> conn_live6 (cm_v6 u) = {} \<and> cm_live6 (cm_v6 u) = {} \<and>
    dev_refcnt (cm_v4 u) = dev_refcnt (cm_v4 mem) \<and>
    neigh_refs u = neigh_refs mem \<and> dst_refs u = dst_refs mem \<and> ct_refs u = ct_refs mem"
proof -
  let ?V = "engine6_ops E N alloc j sis6 nows"
  have held: "held = registered C" and s: "s = cm_register_callbacks ?V (Some cb) (dual_start mem)"
    using init by (auto simp: manager_init_cases split: if_splits)
  have J: "dual_inv E (dev_refcnt (cm_v4 mem)) s" unfolding s by (rule dual_start_inv)
  have I: "dual_inv E (dev_refcnt (cm_v4 mem)) t" and k: "kept_refs s t"
    using dual_run_inv [OF run J fit] by blast+
  obtain M F where R: "cm_rep E (engine6_rep E) (dev_refcnt (cm_v4 mem)) [] t M F" using I by (auto simp: dual_inv_def)
  obtain u where u: "cm_exit_quiesce E ?V sis now (held, t) = Some (held - {ReceiveHook}, u)"
    and e: "cm_rep E (engine6_rep E) (dev_refcnt (cm_v4 mem)) [] u Map.empty {}" and f: "same_refs t u"
    by (rule v6.quiesce_rep [OF R])
  have "cm_exit_unregister C (held - {ReceiveHook}) = {}"
    by (auto simp: held registered_def cm_exit_unregister_def Let_def)
  with u have "sfe_cm_exit C E ?V sis now (held, t) = Some ({}, u)" by (simp add: sfe_cm_exit_def)
  moreover have "neigh_refs u = neigh_refs mem \<and> dst_refs u = dst_refs mem \<and> ct_refs u = ct_refs mem"
    using k f by (simp add: same_refs_def kept_refs_def s dual_start_def cm_register_callbacks_def)
  moreover have "dual_inv E (dev_refcnt (cm_v4 mem)) u" using e by (auto simp: dual_inv_def)
  ultimately show ?thesis using dual_empty [OF e] by blast
qed

text \<open>An IPv6 connection of the same machine, and the kernel's answers for it.\<close>

definition demo_orig6 :: nf_tuple where
  "demo_orig6 = demo_orig\<lparr>tup_l3num := AF_INET6, tup_src_ip := v6_addr 2, tup_dst_ip := v6_addr 0x53\<rparr>"

definition demo_reply6 :: nf_tuple where
  "demo_reply6 = demo_reply\<lparr>tup_l3num := AF_INET6, tup_src_ip := v6_addr 0x53, tup_dst_ip := v6_addr 1\<rparr>"

definition demo_cmk6 :: cm_kernel where
  "demo_cmk6 = demo_cmk\<lparr>rt6_lookup := (\<lambda>_. Some 0), dev_inet6 := (\<lambda>_. Some True),
     dst_neigh_lookup := (\<lambda>_ a. Some (if addr3 a = 0x53 then 2 else 1))\<rparr>"

definition demo_mem6 :: "sfe_ipv6 sfe_cm" where
  "demo_mem6 = \<lparr>cm_v4 = blank_mem, cm_v6 = blank_mem6, cm_exceptions = (\<lambda>_. 0),
     cts = (\<lambda>_. demo_ct\<lparr>ct_orig := demo_orig6, ct_reply := demo_reply6\<rparr>), ct_refs = (\<lambda>_. 0),
     neigh_refs = (\<lambda>_. 0), dst_refs = (\<lambda>_. 0)\<rparr>"

abbreviation demo_ops6 :: "sfe_ipv6 sfe_ipv6_ops" where
  "demo_ops6 \<equiv> engine6_ops demo_env demo_kernel (\<lambda>_. demo_alloc) 100 demo_sis (\<lambda>_. 9)"

definition demo_dual :: "sfe_ipv6 sfe_cm" where
  "demo_dual = cm_register_callbacks demo_ops6 (Some 7) (dual_start demo_mem6)"

text \<open>The message of the hook for the first packet of the connection, and the rule it leads to.\<close>

definition demo_message6 :: sfe_connection_create where
  "demo_message6 = (case cm_describe demo_env demo_cmk6 False demo_pkt (cts demo_mem6) demo_sic of
     Inr sic \<Rightarrow> sic | Inl e \<Rightarrow> demo_sic)"

lemma demo_described6: "cm_describe demo_env demo_cmk6 False demo_pkt (cts demo_mem6) demo_sic = Inr demo_message6"
proof -
  have "\<not> isl (cm_describe demo_env demo_cmk6 False demo_pkt (cts demo_mem6) demo_sic)" by code_simp
  then show ?thesis by (auto simp: demo_message6_def split: sum.splits)
qed

lemma demo_message6_ips:
  "addr3 (sic_src_ip demo_message6) = 2" "addr3 (sic_src_ip_xlate demo_message6) = 1"
  "addr3 (sic_dest_ip demo_message6) = 0x53" "addr3 (sic_dest_ip_xlate demo_message6) = 0x53"
  by code_simp+

definition demo_rule6 :: sfe_connection_create where
  "demo_rule6 = demo_message6\<lparr>sic_src_mac := demo_mac (sic_src_mac demo_message6),
     sic_src_mac_xlate := demo_mac (sic_src_mac_xlate demo_message6), sic_dest_mac := demo_mac (sic_dest_mac demo_message6),
     sic_dest_mac_xlate := demo_mac (sic_dest_mac_xlate demo_message6),
     sic_src_dev := 1, sic_dest_dev := 2, sic_src_mtu := 1500, sic_dest_mtu := 1500\<rparr>"

lemma demo_kernel_answers6:
  "neighbour demo_cmk6 r a False = Some (if addr3 a = 0x53 then (2, 2) else (1, 1))"
  "dev_is_bridge_port demo_cmk6 d = False" "dev_mtu demo_cmk6 d = 1500"
  "(\<lambda>i. if i < dev_addr_len demo_cmk6 d then neigh_ha demo_cmk6 n i else old i) = demo_mac old"
  by (auto simp: neighbour_def demo_cmk6_def demo_cmk_def demo_mac_def fun_eq_iff split: option.split)

lemma demo_cmk6_fit: "\<forall>d. dev_addr_len demo_cmk6 d \<le> ETH_ALEN"
  by (simp add: demo_cmk6_def demo_cmk_def ETH_ALEN_def)

lemma demo_dual_cts: "cts demo_dual = cts demo_mem6"
  by (simp add: demo_dual_def dual_start_def cm_register_callbacks_def)

lemma demo_learns6:
  "\<exists>t. sfe_cm_post_routing demo_env demo_cmk6 demo_ops6 False demo_alloc 100 demo_sic demo_pkt demo_dual = Some t \<and>
    cm_v6 t = snd (ipv6_create_rule demo_ops6 demo_rule6
      (dev_refcnt (cm_v4 (cm_dev_hold 2 (cm_dev_hold 1 demo_dual))), cm_v6 demo_dual))"
  by (simp add: sfe_cm_post_routing_def demo_dual_cts demo_described6 cm_install_def
      find_dev_conv [OF demo_cmk6_fit] demo_kernel_answers6 demo_message6_ips Let_def refs_commute cm_install_between_def
      bridge_of_def cm_create_rule_def demo_rule6_def [symmetric] split_beta)

lemma demo_live6:
  "0 \<in> conn_live6 (snd (ipv6_create_rule demo_ops6 demo_rule6
      (dev_refcnt (cm_v4 (cm_dev_hold 2 (cm_dev_hold 1 demo_dual))), cm_v6 demo_dual)))"
  by code_simp

theorem dual_module_leaves_nothing_witness:
  "\<exists>held s t u. sfe_cm_init \<lparr>conntrack_events = True, conntrack_chain_events = True\<rparr> demo_ops6 7 True 0 0 0
       (dual_start demo_mem6) = (0, held, s) \<and>
     dual_run demo_env demo_kernel demo_cmk6 s t \<and> conn_live6 (cm_v6 t) \<noteq> {} \<and>
     sfe_cm_exit \<lparr>conntrack_events = True, conntrack_chain_events = True\<rparr> demo_env demo_ops6 demo_sis (\<lambda>_. 9) (held, t) =
       Some ({}, u) \<and> conn_live6 (cm_v6 u) = {} \<and> dev_refcnt (cm_v4 u) = dev_refcnt (cm_v4 demo_mem6)"
proof -
  let ?C = "\<lparr>conntrack_events = True, conntrack_chain_events = True\<rparr>"
  have i: "sfe_cm_init ?C demo_ops6 7 True 0 0 0 (dual_start demo_mem6) = (0, registered ?C, demo_dual)"
    by (simp add: manager_init_cases demo_dual_def)
  obtain t where p: "sfe_cm_post_routing demo_env demo_cmk6 demo_ops6 False demo_alloc 100 demo_sic demo_pkt demo_dual = Some t"
    and n: "conn_live6 (cm_v6 t) \<noteq> {}" using demo_learns6 demo_live6 by force
  have r: "dual_run demo_env demo_kernel demo_cmk6 demo_dual t"
    by (rule dual_more [OF dual_none dual_leaves [OF p]]) simp
  show ?thesis
    using dual_module_leaves_nothing [OF i r demo_cmk6_fit, of demo_sis "\<lambda>_. 9"] i r n by blast
qed

end
