(* ===== verification/Fc_Table.thy ===== *)
theory Fc_Table
  imports Sfe6_System
begin

text \<open>
  The fast classifier (package/network/utils/fast-classifier/src/fast-classifier.c) is the other program
  that feeds the two engines. It watches connections before it makes rules of them: each connection is an
  entry of a hash table, and becomes a rule when it has had enough packets or when user space asks for
  it over netlink. This theory has its data and its table. A bucket is the list of its entries, first
  the one added last (linux/hashtable.h); how many bits of a key choose the bucket is the argument
  \<open>H\<close>, the kernel's \<open>hash_min\<close>.
\<close>

unbundle bit_operations_syntax

section \<open>Data\<close>

datatype fast_classifier_exception =
    FC_PACKET_BROADCAST | FC_PACKET_MULTICAST | FC_NO_IIF | FC_NO_CT | FC_CT_NO_TRACK | FC_CT_NO_CONFIRM
  | FC_CT_IS_ALG | FC_IS_IPV4_MCAST | FC_IS_IPV6_MCAST | FC_TCP_NOT_ASSURED | FC_TCP_NOT_ESTABLISHED
  | FC_UNKNOW_PROTOCOL | FC_NO_SRC_DEV | FC_NO_SRC_XLATE_DEV | FC_NO_DEST_DEV | FC_NO_DEST_XLATE_DEV
  | FC_NO_BRIDGE | FC_LOCAL_OUT | FC_WAIT_FOR_ACCELERATION | FC_UPDATE_PROTOCOL_FAIL | FC_CT_DESTROY_MISS

type_synonym fc_ptr = nat
type_synonym i32 = "32 word"

text \<open>
  \<open>struct sfe_connection\<close>. The message it points to is allocated and freed together with it and is
  part of it here.
\<close>

record sfe_connection =
  fc_sic :: sfe_connection_create
  fc_ct :: ct_ptr
  hits :: i32
  offload_permit :: bool
  offloaded :: bool
  fc_is_v4 :: bool
  fc_smac :: mac
  fc_dmac :: mac

text \<open>What is told to user space about a connection.\<close>

record fast_classifier_tuple =
  fct_ethertype :: u16
  fct_proto :: u8
  fct_src_saddr :: sfe_ip_addr
  fct_dst_saddr :: sfe_ip_addr
  fct_sport :: u16
  fct_dport :: u16
  fct_smac :: mac
  fct_dmac :: mac

datatype fc_command = FAST_CLASSIFIER_C_OFFLOADED | FAST_CLASSIFIER_C_DONE

text \<open>
  The state: \<open>fc_m\<close> is the kernel and both engines, in the record the connection manager has for them
  (its own counters are not used), then the table with the entries in kernel memory, and the
  variables of the module. \<open>fc_sent\<close> are the calls of
  \<open>fast_classifier_send_genl_msg\<close>, oldest first.
\<close>

record fast_classifier =
  fc_m :: "sfe_ipv6 sfe_cm"
  fc_conns :: "fc_ptr \<Rightarrow> sfe_connection"
  fc_live :: "fc_ptr set"
  fc_conn_ht :: "u32 \<Rightarrow> fc_ptr list"
  sfe_connections_size :: i32
  fc_exceptions :: "fast_classifier_exception \<Rightarrow> u32"
  offload_at_pkts :: i32
  skip_to_bridge_ingress :: bool
  offload_msgs :: u32
  offload_no_match_msgs :: u32
  offloaded_msgs :: u32
  done_msgs :: u32
  offloaded_fail_msgs :: u32
  done_fail_msgs :: u32
  fc_sent :: "(fc_command \<times> fast_classifier_tuple) list"
  br_stats :: "(netdev \<times> u64 \<times> u64) list"

definition fast_classifier_incr_exceptions :: "fast_classifier_exception \<Rightarrow> fast_classifier \<Rightarrow> fast_classifier" where
  "fast_classifier_incr_exceptions e s = s\<lparr>fc_exceptions := (fc_exceptions s)(e := fc_exceptions s e + 1)\<rparr>"

definition upd_fc :: "fc_ptr \<Rightarrow> (sfe_connection \<Rightarrow> sfe_connection) \<Rightarrow> fast_classifier \<Rightarrow> fast_classifier" where
  "upd_fc p f s = s\<lparr>fc_conns := (fc_conns s)(p := f (fc_conns s p))\<rparr>"

section \<open>The table\<close>

definition sfe_addr_equal :: "sfe_ip_addr \<Rightarrow> sfe_ip_addr \<Rightarrow> bool \<Rightarrow> bool" where
  "sfe_addr_equal a b is_v4 \<longleftrightarrow> (if is_v4 then ip a = ip b else sfe_ipv6_addr_equal (ip6 a) (ip6 b))"

definition fc_conn_hash :: "sfe_ip_addr \<Rightarrow> sfe_ip_addr \<Rightarrow> u16 \<Rightarrow> u16 \<Rightarrow> bool \<Rightarrow> u32" where
  "fc_conn_hash saddr daddr sport dport is_v4 =
     (let hash = (if is_v4 then ip saddr XOR ip daddr else xor_addrs (ip6 saddr) (ip6 daddr))
      in hash XOR (ucast sport OR push_bit 16 (ucast dport)))"

definition fc_is ::
  "sfe_connection \<Rightarrow> sfe_ip_addr \<Rightarrow> sfe_ip_addr \<Rightarrow> u16 \<Rightarrow> u16 \<Rightarrow> u8 \<Rightarrow> bool \<Rightarrow> bool" where
  "fc_is conn saddr daddr sport dport proto is_v4 \<longleftrightarrow> fc_is_v4 conn = is_v4 \<and>
     (let p_sic = fc_sic conn in sic_protocol p_sic = ucast proto \<and> sic_src_port p_sic = sport \<and>
        sic_dest_port p_sic = dport \<and> sfe_addr_equal (sic_src_ip p_sic) saddr is_v4 \<and>
        sfe_addr_equal (sic_dest_ip p_sic) daddr is_v4)"

definition fast_classifier_find_conn ::
  "(u32 \<Rightarrow> u32) \<Rightarrow> sfe_ip_addr \<Rightarrow> sfe_ip_addr \<Rightarrow> u16 \<Rightarrow> u16 \<Rightarrow> u8 \<Rightarrow> bool \<Rightarrow> fast_classifier \<Rightarrow> fc_ptr option" where
  "fast_classifier_find_conn H saddr daddr sport dport proto is_v4 s =
     (let key = fc_conn_hash saddr daddr sport dport is_v4
      in List.find (\<lambda>p. fc_is (fc_conns s p) saddr daddr sport dport proto is_v4) (fc_conn_ht s (H key)))"

text \<open>
  The look-up for a request of user space, which names the translated destination. The bucket is that
  of the tuple it names, first as given and then with source and destination exchanged.
\<close>

definition fc_is_sb ::
  "sfe_connection \<Rightarrow> sfe_ip_addr \<Rightarrow> sfe_ip_addr \<Rightarrow> u16 \<Rightarrow> u16 \<Rightarrow> u8 \<Rightarrow> bool \<Rightarrow> bool" where
  "fc_is_sb conn saddr daddr sport dport proto is_v4 \<longleftrightarrow> fc_is_v4 conn = is_v4 \<and>
     (let p_sic = fc_sic conn in sic_protocol p_sic = ucast proto \<and> sic_src_port p_sic = sport \<and>
        sic_dest_port_xlate p_sic = dport \<and> sfe_addr_equal (sic_src_ip p_sic) saddr is_v4 \<and>
        sfe_addr_equal (sic_dest_ip_xlate p_sic) daddr is_v4)"

definition fast_classifier_sb_find_conn ::
  "(u32 \<Rightarrow> u32) \<Rightarrow> sfe_ip_addr \<Rightarrow> sfe_ip_addr \<Rightarrow> u16 \<Rightarrow> u16 \<Rightarrow> u8 \<Rightarrow> bool \<Rightarrow> fast_classifier \<Rightarrow> fc_ptr option" where
  "fast_classifier_sb_find_conn H saddr daddr sport dport proto is_v4 s =
     (let key = fc_conn_hash saddr daddr sport dport is_v4
      in case List.find (\<lambda>p. fc_is_sb (fc_conns s p) saddr daddr sport dport proto is_v4) (fc_conn_ht s (H key)) of
           Some p \<Rightarrow> Some p
         | None \<Rightarrow>
             (let key = fc_conn_hash daddr saddr dport sport is_v4
              in List.find (\<lambda>p. fc_is_sb (fc_conns s p) daddr saddr dport sport proto is_v4) (fc_conn_ht s (H key))))"

text \<open>\<open>hash_add\<close> and \<open>hash_del\<close>.\<close>

definition fc_hash_add :: "u32 \<Rightarrow> fc_ptr \<Rightarrow> fast_classifier \<Rightarrow> fast_classifier" where
  "fc_hash_add i p s = s\<lparr>fc_conn_ht := (fc_conn_ht s)(i := p # fc_conn_ht s i)\<rparr>"

definition fc_hash_del :: "fc_ptr \<Rightarrow> fast_classifier \<Rightarrow> fast_classifier" where
  "fc_hash_del p s = s\<lparr>fc_conn_ht := (\<lambda>i. remove1 p (fc_conn_ht s i))\<rparr>"

text \<open>The result says whether the entry was added; there may be one for the connection already.\<close>

definition fast_classifier_add_conn ::
  "(u32 \<Rightarrow> u32) \<Rightarrow> fc_ptr \<Rightarrow> fast_classifier \<Rightarrow> bool \<times> fast_classifier" where
  "fast_classifier_add_conn H conn s =
     (let sic = fc_sic (fc_conns s conn); is_v4 = fc_is_v4 (fc_conns s conn)
      in case fast_classifier_find_conn H (sic_src_ip sic) (sic_dest_ip sic) (sic_src_port sic)
                (sic_dest_port sic) (ucast (sic_protocol sic)) is_v4 s of
           Some _ \<Rightarrow> (False, s)
         | None \<Rightarrow>
             (let key = fc_conn_hash (sic_src_ip sic) (sic_dest_ip sic) (sic_src_port sic) (sic_dest_port sic) is_v4;
                  s1 = fc_hash_add (H key) conn s
              in (True, s1\<lparr>sfe_connections_size := sfe_connections_size s1 + 1\<rparr>)))"

text \<open>Taking an entry out of the table and freeing it.\<close>

definition fc_remove_conn :: "fc_ptr \<Rightarrow> fast_classifier \<Rightarrow> fast_classifier" where
  "fc_remove_conn conn s =
     (let s1 = fc_hash_del conn s;
          s2 = s1\<lparr>sfe_connections_size := sfe_connections_size s1 - 1\<rparr>
      in s2\<lparr>fc_live := fc_live s2 - {conn}\<rparr>)"

section \<open>What the table represents\<close>

text \<open>The key of a connection; of an IPv4 address only the first word counts.\<close>

datatype fc_key =
    Fc4 u8 "u32 \<times> u16" "u32 \<times> u16"
  | Fc6 u8 "sfe_ip_addr \<times> u16" "sfe_ip_addr \<times> u16"

definition tuple_fc_key :: "bool \<Rightarrow> u8 \<Rightarrow> sfe_ip_addr \<Rightarrow> u16 \<Rightarrow> sfe_ip_addr \<Rightarrow> u16 \<Rightarrow> fc_key" where
  "tuple_fc_key is_v4 proto saddr sport daddr dport =
     (if is_v4 then Fc4 proto (ip saddr, sport) (ip daddr, dport)
      else Fc6 proto (ip6 saddr, sport) (ip6 daddr, dport))"

definition sic_fc_key :: "bool \<Rightarrow> sfe_connection_create \<Rightarrow> fc_key" where
  "sic_fc_key is_v4 sic = tuple_fc_key is_v4 (ucast (sic_protocol sic)) (sic_src_ip sic) (sic_src_port sic)
     (sic_dest_ip sic) (sic_dest_port sic)"

definition conn_fc_key :: "sfe_connection \<Rightarrow> fc_key" where
  "conn_fc_key c = sic_fc_key (fc_is_v4 c) (fc_sic c)"

definition conn_fc_hash :: "sfe_connection \<Rightarrow> u32" where
  "conn_fc_hash c = fc_conn_hash (sic_src_ip (fc_sic c)) (sic_dest_ip (fc_sic c)) (sic_src_port (fc_sic c))
     (sic_dest_port (fc_sic c)) (fc_is_v4 c)"

definition fc_protocol :: "u32 \<Rightarrow> bool" where
  "fc_protocol proto \<longleftrightarrow> proto = IPPROTO_TCP \<or> proto = IPPROTO_UDP"

text \<open>
  \<open>fc_listed H s L\<close>: the buckets hold exactly the entries \<open>L\<close>, each once and in the bucket of its key, and
  no two entries have the same key. Between operations these are the entries in memory.
\<close>

definition fc_listed :: "(u32 \<Rightarrow> u32) \<Rightarrow> fast_classifier \<Rightarrow> fc_ptr set \<Rightarrow> bool" where
  "fc_listed H s L \<longleftrightarrow>
     (\<forall>i. distinct (fc_conn_ht s i) \<and> set (fc_conn_ht s i) = {p \<in> L. H (conn_fc_hash (fc_conns s p)) = i}) \<and>
     inj_on (\<lambda>p. conn_fc_key (fc_conns s p)) L \<and>
     (\<forall>p\<in>L. fc_protocol (sic_protocol (fc_sic (fc_conns s p))))"

definition fc_table_inv :: "(u32 \<Rightarrow> u32) \<Rightarrow> fast_classifier \<Rightarrow> bool" where
  "fc_table_inv H s \<longleftrightarrow> finite (fc_live s) \<and> fc_listed H s (fc_live s) \<and>
     sfe_connections_size s = of_nat (card (fc_live s))"

lemma addr_equal_iff: "sfe_addr_equal a b v \<longleftrightarrow> (if v then ip a = ip b else a = b)"
  by (simp add: sfe_addr_equal_def)

lemma fc_protocol_ucast:
  assumes "fc_protocol w"
  shows "w = ucast (proto :: u8) \<longleftrightarrow> ucast w = proto"
proof -
  have "ucast (ucast w :: u8) = w" using assms by (auto simp: fc_protocol_def IPPROTO_TCP_def IPPROTO_UDP_def)
  moreover have "(ucast (ucast proto :: u32) :: u8) = proto"
    by (rule bit_word_eqI) (auto simp: bit_simps)
  ultimately show ?thesis by metis
qed

lemma fc_is_iff:
  assumes "fc_protocol (sic_protocol (fc_sic c))"
  shows "fc_is c saddr daddr sport dport proto v \<longleftrightarrow> conn_fc_key c = tuple_fc_key v proto saddr sport daddr dport"
  using fc_protocol_ucast [OF assms, of proto]
  by (cases "fc_is_v4 c"; cases v)
    (auto simp: fc_is_def conn_fc_key_def sic_fc_key_def tuple_fc_key_def addr_equal_iff Let_def)

lemma key_hash:
  assumes "conn_fc_key c = tuple_fc_key v proto saddr sport daddr dport"
  shows "conn_fc_hash c = fc_conn_hash saddr daddr sport dport v"
  using assms
  by (cases "fc_is_v4 c"; cases v)
    (simp_all add: conn_fc_hash_def fc_conn_hash_def conn_fc_key_def sic_fc_key_def tuple_fc_key_def)

lemma find_SomeD: "List.find P xs = Some x \<Longrightarrow> x \<in> set xs \<and> P x"
  by (auto simp: find_Some_iff)

lemma find_unique:
  assumes "x \<in> set xs" and "P x" and "\<And>y. y \<in> set xs \<Longrightarrow> P y \<Longrightarrow> y = x"
  shows "List.find P xs = Some x"
proof (cases "List.find P xs")
  case None
  then show ?thesis using assms(1,2) by (auto simp: find_None_iff)
next
  case (Some y)
  then show ?thesis using find_SomeD [OF Some] assms(3) by simp
qed

theorem find_conn_iff:
  assumes I: "fc_listed H s L"
  shows "fast_classifier_find_conn H saddr daddr sport dport proto v s = Some p \<longleftrightarrow>
    p \<in> L \<and> conn_fc_key (fc_conns s p) = tuple_fc_key v proto saddr sport daddr dport"
proof -
  let ?k = "tuple_fc_key v proto saddr sport daddr dport"
  let ?P = "\<lambda>p. fc_is (fc_conns s p) saddr daddr sport dport proto v"
  let ?b = "fc_conn_ht s (H (fc_conn_hash saddr daddr sport dport v))"
  have b: "set ?b = {p \<in> L. H (conn_fc_hash (fc_conns s p)) = H (fc_conn_hash saddr daddr sport dport v)}"
    and inj: "inj_on (\<lambda>p. conn_fc_key (fc_conns s p)) L"
    and pr: "\<And>p. p \<in> L \<Longrightarrow> ?P p \<longleftrightarrow> conn_fc_key (fc_conns s p) = ?k"
    using I by (simp_all add: fc_listed_def fc_is_iff)
  have f: "fast_classifier_find_conn H saddr daddr sport dport proto v s = List.find ?P ?b"
    by (simp add: fast_classifier_find_conn_def)
  show ?thesis
  proof
    assume "fast_classifier_find_conn H saddr daddr sport dport proto v s = Some p"
    then have "p \<in> set ?b \<and> ?P p" unfolding f by (rule find_SomeD)
    then have "p \<in> L" "?P p" unfolding b by blast+
    then show "p \<in> L \<and> conn_fc_key (fc_conns s p) = ?k" using pr by blast
  next
    assume p: "p \<in> L \<and> conn_fc_key (fc_conns s p) = ?k"
    then have "p \<in> set ?b" using key_hash [of "fc_conns s p"] unfolding b by simp
    moreover have "q = p" if "q \<in> set ?b" "?P q" for q
      using that p inj pr unfolding b by (auto simp: inj_on_def)
    ultimately show "fast_classifier_find_conn H saddr daddr sport dport proto v s = Some p"
      unfolding f using p pr [of p] by (intro find_unique) blast+
  qed
qed

lemma find_conn_none:
  assumes "fc_listed H s L"
  shows "fast_classifier_find_conn H saddr daddr sport dport proto v s = None \<longleftrightarrow>
    tuple_fc_key v proto saddr sport daddr dport \<notin> (\<lambda>p. conn_fc_key (fc_conns s p)) ` L"
  using find_conn_iff [OF assms, of saddr daddr sport dport proto v]
  by (metis (no_types, lifting) image_iff not_Some_eq)

text \<open>The table keeps the contract of a look-up.\<close>

definition fc_find_key :: "(u32 \<Rightarrow> u32) \<Rightarrow> fc_key \<Rightarrow> fast_classifier \<Rightarrow> (fc_ptr option \<times> fast_classifier) option" where
  "fc_find_key H k s = Some (case k of
       Fc4 proto (saddr, sport) (daddr, dport) \<Rightarrow>
         fast_classifier_find_conn H (v4_addr saddr) (v4_addr daddr) sport dport proto True s
     | Fc6 proto (saddr, sport) (daddr, dport) \<Rightarrow>
         fast_classifier_find_conn H saddr daddr sport dport proto False s, s)"

lemma find_key_iff:
  assumes "fc_listed H s L"
  shows "fc_find_key H k s = Some (Some p, s') \<longleftrightarrow> s' = s \<and> p \<in> L \<and> conn_fc_key (fc_conns s p) = k"
proof (cases "s' = s")
  case True
  then show ?thesis
    by (cases k) (auto simp: fc_find_key_def find_conn_iff [OF assms] tuple_fc_key_def v4_addr_def)
qed (simp add: fc_find_key_def)

interpretation fctab: flow_table "fc_table_inv H" fc_live "\<lambda>s p. conn_fc_key (fc_conns s p)" "fc_find_key H" for H
proof
  fix s k p s' r
  assume "fc_table_inv H s"
  then have L: "fc_listed H s (fc_live s)" by (simp add: fc_table_inv_def)
  show "fc_find_key H k s \<noteq> None" by (simp add: fc_find_key_def)
  show "fc_find_key H k s = Some (Some p, s') \<Longrightarrow> p \<in> fc_live s \<and> conn_fc_key (fc_conns s p) = k"
    by (simp add: find_key_iff [OF L])
  show "conn_fc_key (fc_conns s p) \<noteq> k" if "fc_find_key H k s = Some (None, s')" "p \<in> fc_live s"
    using that find_key_iff [OF L, of k p s] by auto
  show "fc_table_inv H s' \<and> fc_live s' = fc_live s \<and>
      (\<lambda>p. conn_fc_key (fc_conns s' p)) = (\<lambda>p. conn_fc_key (fc_conns s p))"
    if "fc_find_key H k s = Some (r, s')"
    using that \<open>fc_table_inv H s\<close> by (simp add: fc_find_key_def)
qed

section \<open>Changes of the table\<close>

lemma listed_cong:
  assumes "fc_conn_ht s' = fc_conn_ht s" and "\<And>p. p \<in> L \<Longrightarrow> fc_is_v4 (fc_conns s' p) = fc_is_v4 (fc_conns s p) \<and>
    conn_fc_key (fc_conns s' p) = conn_fc_key (fc_conns s p) \<and>
    conn_fc_hash (fc_conns s' p) = conn_fc_hash (fc_conns s p) \<and>
    sic_protocol (fc_sic (fc_conns s' p)) = sic_protocol (fc_sic (fc_conns s p))"
  shows "fc_listed H s' L = fc_listed H s L"
proof -
  have "inj_on (\<lambda>p. conn_fc_key (fc_conns s' p)) L = inj_on (\<lambda>p. conn_fc_key (fc_conns s p)) L"
    using assms(2) by (intro inj_on_cong) simp
  moreover have "{p \<in> L. H (conn_fc_hash (fc_conns s' p)) = i} = {p \<in> L. H (conn_fc_hash (fc_conns s p)) = i}" for i
    using assms(2) by auto
  ultimately show ?thesis using assms by (simp add: fc_listed_def)
qed

lemma add_conn_listed:
  assumes L: "fc_listed H s L" and p: "p \<notin> L" and pr: "fc_protocol (sic_protocol (fc_sic (fc_conns s p)))"
    and new: "conn_fc_key (fc_conns s p) \<notin> (\<lambda>p. conn_fc_key (fc_conns s p)) ` L"
  shows "fast_classifier_add_conn H p s = (True, (fc_hash_add (H (conn_fc_hash (fc_conns s p))) p s)
      \<lparr>sfe_connections_size := sfe_connections_size s + 1\<rparr>)"
    and "fc_listed H ((fc_hash_add (H (conn_fc_hash (fc_conns s p))) p s)
      \<lparr>sfe_connections_size := sfe_connections_size s + 1\<rparr>) (insert p L)"
proof -
  let ?c = "fc_conns s p"
  have "fast_classifier_find_conn H (sic_src_ip (fc_sic ?c)) (sic_dest_ip (fc_sic ?c)) (sic_src_port (fc_sic ?c))
      (sic_dest_port (fc_sic ?c)) (ucast (sic_protocol (fc_sic ?c))) (fc_is_v4 ?c) s = None"
    using new by (simp add: find_conn_none [OF L] conn_fc_key_def sic_fc_key_def)
  then show "fast_classifier_add_conn H p s = (True, (fc_hash_add (H (conn_fc_hash (fc_conns s p))) p s)
      \<lparr>sfe_connections_size := sfe_connections_size s + 1\<rparr>)"
    by (simp add: fast_classifier_add_conn_def conn_fc_hash_def fc_hash_add_def Let_def)
  have "p \<notin> set (fc_conn_ht s i)" for i using L p by (auto simp: fc_listed_def)
  then show "fc_listed H ((fc_hash_add (H (conn_fc_hash (fc_conns s p))) p s)
      \<lparr>sfe_connections_size := sfe_connections_size s + 1\<rparr>) (insert p L)"
    using L p pr new by (auto simp: fc_listed_def fc_hash_add_def)
qed

lemma add_conn_dup:
  assumes L: "fc_listed H s L" and dup: "conn_fc_key (fc_conns s p) \<in> (\<lambda>p. conn_fc_key (fc_conns s p)) ` L"
  shows "fast_classifier_add_conn H p s = (False, s)"
proof -
  let ?c = "fc_conns s p"
  obtain q where "fast_classifier_find_conn H (sic_src_ip (fc_sic ?c)) (sic_dest_ip (fc_sic ?c)) (sic_src_port (fc_sic ?c))
      (sic_dest_port (fc_sic ?c)) (ucast (sic_protocol (fc_sic ?c))) (fc_is_v4 ?c) s = Some q"
    using dup find_conn_none [OF L] by (fastforce simp: conn_fc_key_def sic_fc_key_def)
  then show ?thesis by (simp add: fast_classifier_add_conn_def Let_def)
qed

lemma remove_conn_inv:
  assumes I: "fc_table_inv H s" and p: "p \<in> fc_live s"
  shows "fc_table_inv H (fc_remove_conn p s)" and "fc_live (fc_remove_conn p s) = fc_live s - {p}"
proof -
  have L: "fc_listed H s (fc_live s)" and f: "finite (fc_live s)"
    and n: "sfe_connections_size s = of_nat (card (fc_live s))"
    using I by (simp_all add: fc_table_inv_def)
  show l: "fc_live (fc_remove_conn p s) = fc_live s - {p}" by (simp add: fc_remove_conn_def Let_def fc_hash_del_def)
  have "fc_listed H (fc_remove_conn p s) (fc_live s - {p})"
    using L by (auto simp: fc_listed_def fc_remove_conn_def Let_def fc_hash_del_def intro: inj_on_diff)
  moreover have "sfe_connections_size (fc_remove_conn p s) = of_nat (card (fc_live s - {p}))"
  proof -
    have "card (fc_live s) = Suc (card (fc_live s - {p}))" by (rule card_Suc_Diff1 [OF f p, symmetric])
    then show ?thesis by (simp add: fc_remove_conn_def Let_def fc_hash_del_def n)
  qed
  ultimately show "fc_table_inv H (fc_remove_conn p s)" using f by (simp add: fc_table_inv_def l)
qed

end
