(* ===== verification/Fc.thy ===== *)
theory Fc
  imports Fc_Table
begin

text \<open>
  The operations of the fast classifier: packets that arrive and that leave, the end of tracked
  connections, reports of the engines, devices that go down, and requests of user space. A hook runs with
  the lock of the table for its first part only; the first part says what is left to do (\<open>fc_todo\<close>). An
  access to an entry that has been freed is None.
\<close>

unbundle bit_operations_syntax

section \<open>The engines\<close>

text \<open>An operation of the IPv6 engine, on the references both engines share.\<close>

definition fc_v6 :: "(sfe_ipv6 \<Rightarrow> ('r \<times> sfe_ipv6) option) \<Rightarrow> fast_classifier \<Rightarrow> ('r \<times> fast_classifier) option" where
  "fc_v6 f s = do {
     let m = fc_m s;
     (r, t) \<leftarrow> f ((cm_v6 m)\<lparr>dev_refcnt6 := dev_refcnt (cm_v4 m)\<rparr>);
     Some (r, s\<lparr>fc_m := m\<lparr>cm_v4 := (cm_v4 m)\<lparr>dev_refcnt := dev_refcnt6 t\<rparr>, cm_v6 := t\<rparr>\<rparr>)
   }"

definition fc_v4 :: "(sfe_ipv4 \<Rightarrow> ('r \<times> sfe_ipv4) option) \<Rightarrow> fast_classifier \<Rightarrow> ('r \<times> fast_classifier) option" where
  "fc_v4 f s = do {
     (r, t) \<leftarrow> f (cm_v4 (fc_m s));
     Some (r, s\<lparr>fc_m := (fc_m s)\<lparr>cm_v4 := t\<rparr>\<rparr>)
   }"

definition no_result :: "('s \<Rightarrow> 's option) \<Rightarrow> 's \<Rightarrow> (unit \<times> 's) option" where
  "no_result f s = map_option (Pair ()) (f s)"

definition on_cm :: "(sfe_ipv6 sfe_cm \<Rightarrow> sfe_ipv6 sfe_cm) \<Rightarrow> fast_classifier \<Rightarrow> fast_classifier" where
  "on_cm f s = s\<lparr>fc_m := f (fc_m s)\<rparr>"

text \<open>The calls the classifier makes, to the engine of the family.\<close>

definition fc_create_rule ::
  "sfe_env \<Rightarrow> bool \<Rightarrow> sfe_connection_create \<Rightarrow> allocation \<Rightarrow> u64 \<Rightarrow> fast_classifier \<Rightarrow>
   (create_result \<times> fast_classifier) option" where
  "fc_create_rule E is_v4 sic al jiffies s =
     (if is_v4 then fc_v4 (sfe_ipv4_create_rule E sic al jiffies) s
      else fc_v6 (sfe_ipv6_create_rule E sic al jiffies) s)"

definition fc_update_rule ::
  "sfe_env \<Rightarrow> bool \<Rightarrow> sfe_connection_create \<Rightarrow> fast_classifier \<Rightarrow> fast_classifier option" where
  "fc_update_rule E is_v4 sic s =
     map_option snd (if is_v4 then fc_v4 (no_result (sfe_ipv4_update_rule E sic)) s
                     else fc_v6 (no_result (sfe_ipv6_update_rule E sic)) s)"

definition fc_mark_rule ::
  "sfe_env \<Rightarrow> bool \<Rightarrow> sfe_connection_mark \<Rightarrow> fast_classifier \<Rightarrow> fast_classifier option" where
  "fc_mark_rule E is_v4 mark s =
     map_option snd (if is_v4 then fc_v4 (no_result (sfe_ipv4_mark_rule E mark)) s
                     else fc_v6 (no_result (sfe_ipv6_mark_rule E mark)) s)"

definition fc_destroy_rule ::
  "sfe_env \<Rightarrow> bool \<Rightarrow> sfe_connection_destroy \<Rightarrow> sfe_connection_sync \<Rightarrow> u64 \<Rightarrow> fast_classifier \<Rightarrow>
   fast_classifier option" where
  "fc_destroy_rule E is_v4 sid sis now s =
     map_option snd (if is_v4 then fc_v4 (no_result (sfe_ipv4_destroy_rule E sid sis now)) s
                     else fc_v6 (no_result (sfe_ipv6_destroy_rule E sid sis now)) s)"

definition fc_destroy_all ::
  "sfe_env \<Rightarrow> bool \<Rightarrow> netdev option \<Rightarrow> sfe_connection_sync \<Rightarrow> (nat \<Rightarrow> u64) \<Rightarrow> fast_classifier \<Rightarrow>
   fast_classifier option" where
  "fc_destroy_all E is_v4 dev sis now s =
     map_option snd (if is_v4 then fc_v4 (no_result (sfe_ipv4_destroy_all_rules_for_dev E dev sis now 0)) s
                     else fc_v6 (no_result (sfe_ipv6_destroy_all_rules_for_dev E dev sis now 0)) s)"

section \<open>Packets that arrive\<close>

text \<open>
  With \<open>skip_to_bridge_ingress\<close> a packet from a port of a bridge is taken as if it came from the
  bridge, which is held meanwhile.
\<close>

definition fc_recv_from ::
  "sfe_env \<Rightarrow> kernel \<Rightarrow> cm_kernel \<Rightarrow> u16 \<Rightarrow> netdev \<Rightarrow> sk_buff \<Rightarrow> sfe_connection_sync \<Rightarrow> u64 \<Rightarrow> fast_classifier \<Rightarrow>
   (recv_outcome \<times> fast_classifier) option" where
  "fc_recv_from E N K proto dev skb sis now s =
     (if ntohs E proto = ETH_P_IP then
        (if dev_inet K dev = Some True then fc_v4 (sfe_ipv4_recv E N dev skb sis now) s
         else Some (NotForwarded skb, s))
      else if ntohs E proto = ETH_P_IPV6 then
        (if dev_inet6 K dev = Some True then fc_v6 (sfe_ipv6_recv E N dev skb sis now) s
         else Some (NotForwarded skb, s))
      else Some (NotForwarded skb, s))"

definition fast_classifier_recv ::
  "sfe_env \<Rightarrow> kernel \<Rightarrow> cm_kernel \<Rightarrow> u16 \<Rightarrow> sk_buff \<Rightarrow> sfe_connection_sync \<Rightarrow> u64 \<Rightarrow> fast_classifier \<Rightarrow>
   (recv_outcome \<times> fast_classifier) option" where
  "fast_classifier_recv E N K proto skb sis now s =
     (let dev = skb_dev skb
      in if skip_to_bridge_ingress s \<and> dev_is_bridge_port K dev then
           (case dev_master K dev of
              None \<Rightarrow> Some (NotForwarded skb, s)
            | Some master_dev \<Rightarrow> do {
                (out, s) \<leftarrow> fc_recv_from E N K proto master_dev skb sis now (on_cm (cm_dev_hold master_dev) s);
                Some (out, on_cm (cm_dev_put master_dev) s)
              })
         else fc_recv_from E N K proto dev skb sis now s)"

section \<open>What user space is told\<close>

text \<open>
  The addresses of a message are unions of which an IPv4 address fills the first word; the rest, like the
  message before it is filled in, is what happens to be on the stack.
\<close>

definition fc_tuple ::
  "bool \<Rightarrow> fast_classifier_tuple \<Rightarrow> sfe_connection_create \<Rightarrow> sfe_connection \<Rightarrow> fast_classifier_tuple" where
  "fc_tuple is_v4 junk sic conn =
     (let m = (if is_v4 then junk\<lparr>fct_ethertype := AF_INET,
                 fct_src_saddr := (fct_src_saddr junk)\<lparr>addr0 := ip (sic_src_ip sic)\<rparr>,
                 fct_dst_saddr := (fct_dst_saddr junk)\<lparr>addr0 := ip (sic_dest_ip_xlate sic)\<rparr>\<rparr>
               else junk\<lparr>fct_ethertype := AF_INET6, fct_src_saddr := ip6 (sic_src_ip sic),
                 fct_dst_saddr := ip6 (sic_dest_ip_xlate sic)\<rparr>)
      in m\<lparr>fct_proto := ucast (sic_protocol sic), fct_sport := sic_src_port sic,
           fct_dport := sic_dest_port_xlate sic, fct_smac := fc_smac conn, fct_dmac := fc_dmac conn\<rparr>)"

text \<open>
  \<open>nl\<close> is what netlink does: None when no message can be built, else the result of
  \<open>genlmsg_multicast\<close>. \<open>fc_sent\<close> records the call.
\<close>

definition fast_classifier_send_genl_msg ::
  "int option \<Rightarrow> fc_command \<Rightarrow> fast_classifier_tuple \<Rightarrow> fast_classifier \<Rightarrow> fast_classifier" where
  "fast_classifier_send_genl_msg nl msg fc_msg s =
     (let s1 = s\<lparr>fc_sent := fc_sent s @ [(msg, fc_msg)]\<rparr>
      in case nl of
           None \<Rightarrow> s1
         | Some rc \<Rightarrow>
             (case msg of
                FAST_CLASSIFIER_C_OFFLOADED \<Rightarrow>
                  (if rc = 0 then s1\<lparr>offloaded_msgs := offloaded_msgs s1 + 1\<rparr>
                   else s1\<lparr>offloaded_fail_msgs := offloaded_fail_msgs s1 + 1\<rparr>)
              | FAST_CLASSIFIER_C_DONE \<Rightarrow>
                  (if rc = 0 then s1\<lparr>done_msgs := done_msgs s1 + 1\<rparr>
                   else s1\<lparr>done_fail_msgs := done_fail_msgs s1 + 1\<rparr>)))"

section \<open>Packets that leave\<close>

type_synonym 'a fc_verdict = "fast_classifier_exception option + 'a"

text \<open>The checks whether the packet belongs to a tracked, forwarded connection (kernel 4.12 and later).\<close>

definition fc_admit :: "cm_kernel \<Rightarrow> cm_packet \<Rightarrow> (ct_ptr \<Rightarrow> nf_conn) \<Rightarrow> ct_ptr fc_verdict" where
  "fc_admit K p ctab =
     (if pkt_kind p = PACKET_BROADCAST then Inl (Some FC_PACKET_BROADCAST)
      else if pkt_kind p = PACKET_MULTICAST then Inl (Some FC_PACKET_MULTICAST)
      else if dev_by_index K (pkt_iif p) = None then Inl (Some FC_NO_IIF)
      else case pkt_ct p of
             None \<Rightarrow> Inl (Some FC_NO_CT)
           | Some c \<Rightarrow>
               (if \<not> ct_confirmed (ctab c) then Inl (Some FC_CT_NO_CONFIRM)
                else if ct_has_helper (ctab c) then Inl (Some FC_CT_IS_ALG)
                else Inr c))"

text \<open>The message starts as zero.\<close>

definition zero_sic :: sfe_connection_create where
  "zero_sic = \<lparr>sic_protocol = 0, sic_src_dev = 0, sic_dest_dev = 0, sic_flags = 0, sic_src_mtu = 0,
     sic_dest_mtu = 0, sic_src_ip = zero_ip_addr, sic_src_ip_xlate = zero_ip_addr, sic_dest_ip = zero_ip_addr,
     sic_dest_ip_xlate = zero_ip_addr, sic_src_port = 0, sic_src_port_xlate = 0, sic_dest_port = 0,
     sic_dest_port_xlate = 0, sic_src_mac = (\<lambda>_. 0), sic_src_mac_xlate = (\<lambda>_. 0), sic_dest_mac = (\<lambda>_. 0),
     sic_dest_mac_xlate = (\<lambda>_. 0), sic_src_td_window_scale = 0, sic_src_td_max_window = 0, sic_src_td_end = 0,
     sic_src_td_max_end = 0, sic_dest_td_window_scale = 0, sic_dest_td_max_window = 0, sic_dest_td_end = 0,
     sic_dest_td_max_end = 0, sic_mark = 0, sic_original_accel = 0, sic_reply_accel = 0, sic_src_priority = 0,
     sic_dest_priority = 0, sic_src_dscp = 0, sic_dest_dscp = 0\<rparr>"

definition fc_describe_addresses ::
  "sfe_env \<Rightarrow> bool \<Rightarrow> cm_packet \<Rightarrow> nf_conn \<Rightarrow> sfe_connection_create fc_verdict" where
  "fc_describe_addresses E is_v4 p ct =
     (let orig_tuple = ct_orig ct; reply_tuple = ct_reply ct;
          sic0 = zero_sic\<lparr>sic_protocol := ucast (tup_protonum orig_tuple), sic_flags := 0\<rparr>
      in if is_v4 then
           (let sic1 = sic0\<lparr>sic_src_ip := (sic_src_ip sic0)\<lparr>addr0 := ip (tup_src_ip orig_tuple)\<rparr>,
                        sic_dest_ip := (sic_dest_ip sic0)\<lparr>addr0 := ip (tup_dst_ip orig_tuple)\<rparr>\<rparr>
            in if ipv4_is_multicast E (ip (sic_src_ip sic1)) \<or> ipv4_is_multicast E (ip (sic_dest_ip sic1))
               then Inl (Some FC_IS_IPV4_MCAST)
               else
                 (let sic2 = sic1\<lparr>
                        sic_src_ip_xlate := (sic_src_ip_xlate sic1)\<lparr>addr0 := ip (tup_dst_ip reply_tuple)\<rparr>,
                        sic_dest_ip_xlate := (sic_dest_ip_xlate sic1)\<lparr>addr0 := ip (tup_src_ip reply_tuple)\<rparr>\<rparr>
                  in Inr (describe_dscp p sic2)))
         else
           (let sic1 = sic0\<lparr>sic_src_ip := tup_src_ip orig_tuple, sic_dest_ip := tup_dst_ip orig_tuple\<rparr>
            in if ipv6_addr_is_multicast E (sic_src_ip sic1) \<or> ipv6_addr_is_multicast E (sic_dest_ip sic1)
               then Inl (Some FC_IS_IPV6_MCAST)
               else
                 (let sic2 = sic1\<lparr>sic_src_ip_xlate := tup_dst_ip reply_tuple,
                        sic_dest_ip_xlate := tup_src_ip reply_tuple\<rparr>
                  in Inr (describe_dscp p sic2))))"

definition fc_describe_transport ::
  "sfe_env \<Rightarrow> nf_conn \<Rightarrow> sfe_connection_create \<Rightarrow> sfe_connection_create fc_verdict" where
  "fc_describe_transport E ct sic =
     (if sic_protocol sic = IPPROTO_TCP then
        (let sic1 = describe_ports ct sic
         in if \<not> ct_assured ct then Inl (Some FC_TCP_NOT_ASSURED) else Inr sic1)
      else if sic_protocol sic = IPPROTO_UDP then
        (let sic1 = describe_ports ct sic
         in if ntohs E (sic_dest_port sic1) = 4500 \<or> ntohs E (sic_dest_port sic1) = 500 then Inl None else Inr sic1)
      else Inl (Some FC_UNKNOW_PROTOCOL))"

definition fc_describe ::
  "sfe_env \<Rightarrow> cm_kernel \<Rightarrow> bool \<Rightarrow> cm_packet \<Rightarrow> (ct_ptr \<Rightarrow> nf_conn) \<Rightarrow> (ct_ptr \<times> sfe_connection_create) fc_verdict" where
  "fc_describe E K is_v4 p ctab =
     (case fc_admit K p ctab of
        Inl e \<Rightarrow> Inl e
      | Inr c \<Rightarrow>
          (case fc_describe_addresses E is_v4 p (ctab c) of
             Inl e \<Rightarrow> Inl e
           | Inr sic1 \<Rightarrow>
               (case fc_describe_transport E (ctab c) sic1 of
                  Inl e \<Rightarrow> Inl e
                | Inr sic2 \<Rightarrow>
                    (let sic3 = (if config_xfrm E then sic2\<lparr>sic_original_accel := 1, sic_reply_accel := 1\<rparr> else sic2)
                     in Inr (c, describe_priority p sic3)))))"

text \<open>The windows of an entry are brought up to date, also when the answer is no.\<close>

definition fast_classifier_update_protocol ::
  "cm_kernel \<Rightarrow> fc_ptr \<Rightarrow> nf_conn \<Rightarrow> fast_classifier \<Rightarrow> bool \<times> fast_classifier" where
  "fast_classifier_update_protocol K conn ct s =
     (let proto = sic_protocol (fc_sic (fc_conns s conn))
      in if proto = IPPROTO_TCP then
           (let s1 = upd_fc conn (\<lambda>c. c\<lparr>fc_sic := describe_windows K ct (fc_sic c)\<rparr>) s
            in if \<not> ct_established ct then (False, fast_classifier_incr_exceptions FC_TCP_NOT_ESTABLISHED s1)
               else (True, s1))
         else if proto = IPPROTO_UDP then (True, s)
         else (False, fast_classifier_incr_exceptions FC_UNKNOW_PROTOCOL s))"

text \<open>The part of the hook that holds the lock of the table, and what it leaves to do.\<close>

datatype fc_todo = FcStop | FcOffload fc_ptr | FcRefresh fc_ptr | FcLearn

definition fc_locked ::
  "(u32 \<Rightarrow> u32) \<Rightarrow> cm_kernel \<Rightarrow> bool \<Rightarrow> sfe_connection_create \<Rightarrow> fast_classifier \<Rightarrow> fc_todo \<times> fast_classifier" where
  "fc_locked H K is_v4 sic s =
     (case fast_classifier_find_conn H (sic_src_ip sic) (sic_dest_ip sic) (sic_src_port sic) (sic_dest_port sic)
             (ucast (sic_protocol sic)) is_v4 s of
        None \<Rightarrow> (FcLearn, s)
      | Some conn \<Rightarrow>
          (let s1 = upd_fc conn (\<lambda>c. c\<lparr>hits := hits c + 1\<rparr>) s; c = fc_conns s1 conn
           in if \<not> offloaded c \<and> (offload_permit c \<or> sint (offload_at_pkts s1) \<le> sint (hits c)) then
                (case fast_classifier_update_protocol K conn (cts (fc_m s1) (fc_ct c)) s1 of
                   (False, s2) \<Rightarrow> (FcStop, fast_classifier_incr_exceptions FC_UPDATE_PROTOCOL_FAIL s2)
                 | (True, s2) \<Rightarrow> (FcOffload conn, s2))
              else (FcRefresh conn, s1)))"

text \<open>Without the lock: the entry becomes a rule, or its rule is updated.\<close>

definition fc_offload ::
  "sfe_env \<Rightarrow> bool \<Rightarrow> allocation \<Rightarrow> u64 \<Rightarrow> int option \<Rightarrow> fast_classifier_tuple \<Rightarrow> sfe_connection_create \<Rightarrow> fc_ptr \<Rightarrow>
   fast_classifier \<Rightarrow> fast_classifier option" where
  "fc_offload E is_v4 al jiffies nl junk sic conn s =
     (if conn \<notin> fc_live s then None
      else do {
        (ret, s) \<leftarrow> fc_create_rule E is_v4 (fc_sic (fc_conns s conn)) al jiffies s;
        Some (if ret = CREATED \<or> ret = EADDRINUSE then
                upd_fc conn (\<lambda>c. c\<lparr>offloaded := True\<rparr>)
                  (fast_classifier_send_genl_msg nl FAST_CLASSIFIER_C_OFFLOADED
                    (fc_tuple is_v4 junk sic (fc_conns s conn)) s)
              else s)
      })"

definition fc_refresh :: "sfe_env \<Rightarrow> bool \<Rightarrow> fc_ptr \<Rightarrow> fast_classifier \<Rightarrow> fast_classifier option" where
  "fc_refresh E is_v4 conn s =
     (if conn \<notin> fc_live s then None
      else do {
        s \<leftarrow> (if offloaded (fc_conns s conn) then fc_update_rule E is_v4 (fc_sic (fc_conns s conn)) s else Some s);
        Some (fast_classifier_incr_exceptions FC_WAIT_FOR_ACCELERATION s)
      })"

text \<open>A new entry; \<open>kmalloc\<close> gives the object of the connection or not, and the one of its message or not.\<close>

record fc_allocation =
  fc_al_conn :: "fc_ptr option"
  fc_al_sic :: bool

definition fc_new_conn :: "bool \<Rightarrow> ct_ptr \<Rightarrow> sfe_connection_create \<Rightarrow> sfe_connection" where
  "fc_new_conn is_v4 ct sic = \<lparr>fc_sic = sic, fc_ct = ct, hits = 0, offload_permit = False, offloaded = False,
     fc_is_v4 = is_v4, fc_smac = sic_src_mac sic, fc_dmac = sic_dest_mac_xlate sic\<rparr>"

definition fc_learn_conn ::
  "(u32 \<Rightarrow> u32) \<Rightarrow> bool \<Rightarrow> fc_allocation \<Rightarrow> ct_ptr \<Rightarrow> sfe_connection_create \<Rightarrow> fast_classifier \<Rightarrow> fast_classifier" where
  "fc_learn_conn H is_v4 al ct sic s =
     (case fc_al_conn al of
        None \<Rightarrow> s
      | Some conn \<Rightarrow>
          (if \<not> fc_al_sic al then s
           else
             (let s1 = s\<lparr>fc_conns := (fc_conns s)(conn := fc_new_conn is_v4 ct sic), fc_live := insert conn (fc_live s)\<rparr>
              in case fast_classifier_add_conn H conn s1 of
                   (True, s2) \<Rightarrow> s2
                 | (False, s2) \<Rightarrow> s2\<lparr>fc_live := fc_live s2 - {conn}\<rparr>)))"

text \<open>\<open>fast_classifier_find_dev_and_mac_addr\<close> is, statement for statement, the function of sfe_cm.c.\<close>

definition fast_classifier_find_dev_and_mac_addr ::
  "cm_kernel \<Rightarrow> dst_ptr option \<Rightarrow> sfe_ip_addr \<Rightarrow> mac \<Rightarrow> bool \<Rightarrow> fast_classifier \<Rightarrow>
   ((netdev \<times> mac) option \<times> fast_classifier) option" where
  "fast_classifier_find_dev_and_mac_addr K skb_dst addr old is_v4 s = do {
     (r, m) \<leftarrow> sfe_cm_find_dev_and_mac_addr K skb_dst addr old is_v4 (fc_m s);
     Some (r, s\<lparr>fc_m := m\<rparr>)
   }"

text \<open>From the last look-up on: the bridges, the entry, and the release of all references.\<close>

definition fc_learn_between ::
  "(u32 \<Rightarrow> u32) \<Rightarrow> cm_kernel \<Rightarrow> bool \<Rightarrow> fc_allocation \<Rightarrow> ct_ptr \<Rightarrow> u32 \<Rightarrow> netdev \<Rightarrow> netdev \<Rightarrow> sfe_connection_create \<Rightarrow>
   fast_classifier \<Rightarrow> fast_classifier" where
  "fc_learn_between H K is_v4 al ct mark src_dev_tmp dest_dev_tmp sic s =
     (let done1 = on_cm (cm_dev_put src_dev_tmp);
          done2 = done1 \<circ> on_cm (cm_dev_put dest_dev_tmp)
      in case bridge_of K src_dev_tmp (fc_m s) of
           None \<Rightarrow> done2 (fast_classifier_incr_exceptions FC_NO_BRIDGE s)
         | Some (src_br_dev, m1) \<Rightarrow>
             (let s1 = s\<lparr>fc_m := m1\<rparr>; done3 = done2 \<circ> on_cm (put_bridge src_br_dev)
              in case bridge_of K dest_dev_tmp (fc_m s1) of
                   None \<Rightarrow> done3 (fast_classifier_incr_exceptions FC_NO_BRIDGE s1)
                 | Some (dest_br_dev, m2) \<Rightarrow>
                     (let s2 = s1\<lparr>fc_m := m2\<rparr>;
                          src_dev = (case src_br_dev of None \<Rightarrow> src_dev_tmp | Some br \<Rightarrow> br);
                          dest_dev = (case dest_br_dev of None \<Rightarrow> dest_dev_tmp | Some br \<Rightarrow> br);
                          sic1 = sic\<lparr>sic_src_dev := src_dev, sic_dest_dev := dest_dev,
                            sic_src_mtu := dev_mtu K src_dev, sic_dest_mtu := dev_mtu K dest_dev, sic_mark := mark\<rparr>
                      in done3 (on_cm (put_bridge dest_br_dev) (fc_learn_conn H is_v4 al ct sic1 s2)))))"

definition fc_learn ::
  "(u32 \<Rightarrow> u32) \<Rightarrow> cm_kernel \<Rightarrow> bool \<Rightarrow> fc_allocation \<Rightarrow> ct_ptr \<Rightarrow> u32 \<Rightarrow> cm_packet \<Rightarrow> sfe_connection_create \<Rightarrow>
   fast_classifier \<Rightarrow> fast_classifier option" where
  "fc_learn H K is_v4 al ct mark p sic s = do {
     (r1, s) \<leftarrow> fast_classifier_find_dev_and_mac_addr K None (sic_src_ip sic) (sic_src_mac sic) is_v4 s;
     (case r1 of
        None \<Rightarrow> Some (fast_classifier_incr_exceptions FC_NO_SRC_DEV s)
      | Some (src_dev_tmp, mac) \<Rightarrow> do {
          let sic = sic\<lparr>sic_src_mac := mac\<rparr>;
          let done1 = on_cm (cm_dev_put src_dev_tmp);
          (r2, s) \<leftarrow> fast_classifier_find_dev_and_mac_addr K None (sic_src_ip_xlate sic) (sic_src_mac_xlate sic) is_v4 s;
          (case r2 of
             None \<Rightarrow> Some (done1 (fast_classifier_incr_exceptions FC_NO_SRC_XLATE_DEV s))
           | Some (dev, mac) \<Rightarrow> do {
               let sic = sic\<lparr>sic_src_mac_xlate := mac\<rparr>;
               let s = on_cm (cm_dev_put dev) s;
               let tmp_skb = (if is_v4 then None else Some (pkt_dst p));
               (r3, s) \<leftarrow> fast_classifier_find_dev_and_mac_addr K tmp_skb (sic_dest_ip sic) (sic_dest_mac sic) is_v4 s;
               (case r3 of
                  None \<Rightarrow> Some (done1 (fast_classifier_incr_exceptions FC_NO_DEST_DEV s))
                | Some (dev, mac) \<Rightarrow> do {
                    let sic = sic\<lparr>sic_dest_mac := mac\<rparr>;
                    let s = on_cm (cm_dev_put dev) s;
                    (r4, s) \<leftarrow> fast_classifier_find_dev_and_mac_addr K (Some (pkt_dst p)) (sic_dest_ip_xlate sic)
                                (sic_dest_mac_xlate sic) is_v4 s;
                    (case r4 of
                       None \<Rightarrow> Some (done1 (fast_classifier_incr_exceptions FC_NO_DEST_XLATE_DEV s))
                     | Some (dest_dev_tmp, mac) \<Rightarrow>
                         Some (fc_learn_between H K is_v4 al ct mark src_dev_tmp dest_dev_tmp
                           (sic\<lparr>sic_dest_mac_xlate := mac\<rparr>) s))
                  })
             })
        })
   }"

text \<open>What the hook does once it has released the lock, and the hook as a whole.\<close>

record fc_hook =
  hk_is_v4 :: bool
  hk_packet :: cm_packet
  hk_mark :: u32
  hk_rule_alloc :: allocation
  hk_conn_alloc :: fc_allocation
  hk_jiffies :: u64
  hk_netlink :: "int option"
  hk_junk :: fast_classifier_tuple

definition fc_unlocked ::
  "sfe_env \<Rightarrow> (u32 \<Rightarrow> u32) \<Rightarrow> cm_kernel \<Rightarrow> fc_hook \<Rightarrow> ct_ptr \<Rightarrow> sfe_connection_create \<Rightarrow> fc_todo \<Rightarrow> fast_classifier \<Rightarrow>
   fast_classifier option" where
  "fc_unlocked E H K h ct sic todo s =
     (case todo of
        FcStop \<Rightarrow> Some s
      | FcOffload conn \<Rightarrow> fc_offload E (hk_is_v4 h) (hk_rule_alloc h) (hk_jiffies h) (hk_netlink h) (hk_junk h) sic conn s
      | FcRefresh conn \<Rightarrow> fc_refresh E (hk_is_v4 h) conn s
      | FcLearn \<Rightarrow> fc_learn H K (hk_is_v4 h) (hk_conn_alloc h) ct (hk_mark h) (hk_packet h) sic s)"

definition fast_classifier_post_routing ::
  "sfe_env \<Rightarrow> (u32 \<Rightarrow> u32) \<Rightarrow> cm_kernel \<Rightarrow> fc_hook \<Rightarrow> fast_classifier \<Rightarrow> fast_classifier option" where
  "fast_classifier_post_routing E H K h s =
     (case fc_describe E K (hk_is_v4 h) (hk_packet h) (cts (fc_m s)) of
        Inl None \<Rightarrow> Some s
      | Inl (Some e) \<Rightarrow> Some (fast_classifier_incr_exceptions e s)
      | Inr (ct, sic) \<Rightarrow>
          (let (todo, s1) = fc_locked H K (hk_is_v4 h) sic s
           in fc_unlocked E H K h ct sic todo s1))"

section \<open>Marks and the end of connections\<close>

definition fast_classifier_update_mark ::
  "(u32 \<Rightarrow> u32) \<Rightarrow> sfe_connection_mark \<Rightarrow> bool \<Rightarrow> fast_classifier \<Rightarrow> fast_classifier" where
  "fast_classifier_update_mark H mark is_v4 s =
     (case fast_classifier_find_conn H (scm_src_ip mark) (scm_dest_ip mark) (scm_src_port mark) (scm_dest_port mark)
             (ucast (scm_protocol mark)) is_v4 s of
        None \<Rightarrow> s
      | Some conn \<Rightarrow> upd_fc conn (\<lambda>c. c\<lparr>fc_sic := (fc_sic c)\<lparr>sic_mark := scm_mark mark\<rparr>\<rparr>) s)"

text \<open>The connection an event is about; the message starts as what happens to be on the stack.\<close>

definition fc_sid :: "sfe_connection_destroy \<Rightarrow> nf_tuple \<Rightarrow> (bool \<times> sfe_connection_destroy) option" where
  "fc_sid junk orig_tuple =
     (let sid0 = junk\<lparr>sid_protocol := ucast (tup_protonum orig_tuple)\<rparr>;
          ports = (\<lambda>sid. if sid_protocol sid = IPPROTO_TCP \<or> sid_protocol sid = IPPROTO_UDP
            then Some (sid\<lparr>sid_src_port := tup_src_port orig_tuple, sid_dest_port := tup_dst_port orig_tuple\<rparr>)
            else None)
      in if tup_l3num orig_tuple = AF_INET then
           map_option (Pair True) (ports (sid0\<lparr>
             sid_src_ip := (sid_src_ip sid0)\<lparr>addr0 := ip (tup_src_ip orig_tuple)\<rparr>,
             sid_dest_ip := (sid_dest_ip sid0)\<lparr>addr0 := ip (tup_dst_ip orig_tuple)\<rparr>\<rparr>))
         else if tup_l3num orig_tuple = AF_INET6 then
           map_option (Pair False) (ports (sid0\<lparr>sid_src_ip := tup_src_ip orig_tuple, sid_dest_ip := tup_dst_ip orig_tuple\<rparr>))
         else None)"

text \<open>The events reported, and the mark of the connection (\<open>ct->mark\<close>).\<close>

record fc_event =
  ev_mark :: bool
  ev_destroy :: bool
  ev_ct_mark :: u32
  ev_junk :: sfe_connection_destroy
  ev_msg :: fast_classifier_tuple
  ev_netlink :: "int option"

definition fc_mark_event ::
  "sfe_env \<Rightarrow> (u32 \<Rightarrow> u32) \<Rightarrow> bool \<Rightarrow> sfe_connection_destroy \<Rightarrow> u32 \<Rightarrow> fast_classifier \<Rightarrow> fast_classifier option" where
  "fc_mark_event E H is_v4 sid ct_mark s = do {
     let mark = \<lparr>scm_protocol = sid_protocol sid, scm_src_ip = sid_src_ip sid, scm_dest_ip = sid_dest_ip sid,
       scm_src_port = sid_src_port sid, scm_dest_port = sid_dest_port sid, scm_mark = ct_mark\<rparr>;
     s \<leftarrow> fc_mark_rule E is_v4 mark s;
     Some (fast_classifier_update_mark H mark is_v4 s)
   }"

definition fc_forget ::
  "(u32 \<Rightarrow> u32) \<Rightarrow> bool \<Rightarrow> sfe_connection_destroy \<Rightarrow> fast_classifier_tuple \<Rightarrow> fast_classifier \<Rightarrow>
   fast_classifier_tuple option \<times> fast_classifier" where
  "fc_forget H is_v4 sid junk s =
     (case fast_classifier_find_conn H (sid_src_ip sid) (sid_dest_ip sid) (sid_src_port sid) (sid_dest_port sid)
             (ucast (sid_protocol sid)) is_v4 s of
        None \<Rightarrow> (None, fast_classifier_incr_exceptions FC_CT_DESTROY_MISS s)
      | Some conn \<Rightarrow>
          (let c = fc_conns s conn
           in (if offloaded c then Some (fc_tuple is_v4 junk (fc_sic c) c) else None, fc_remove_conn conn s)))"

definition fast_classifier_conntrack_event ::
  "sfe_env \<Rightarrow> (u32 \<Rightarrow> u32) \<Rightarrow> sfe_connection_sync \<Rightarrow> u64 \<Rightarrow> fc_event \<Rightarrow> ct_ptr option \<Rightarrow> fast_classifier \<Rightarrow>
   fast_classifier option" where
  "fast_classifier_conntrack_event E H sis now ev ct s =
     (case ct of
        None \<Rightarrow> Some s
      | Some c \<Rightarrow>
          (case fc_sid (ev_junk ev) (ct_orig (cts (fc_m s) c)) of
             None \<Rightarrow> Some s
           | Some (is_v4, sid) \<Rightarrow> do {
               s \<leftarrow> (if ev_mark ev \<and> ev_ct_mark ev \<noteq> 0 then fc_mark_event E H is_v4 sid (ev_ct_mark ev) s else Some s);
               if \<not> ev_destroy ev then Some s
               else do {
                 let (msg, s) = fc_forget H is_v4 sid (ev_msg ev) s;
                 s \<leftarrow> fc_destroy_rule E is_v4 sid sis now s;
                 Some (case msg of
                         None \<Rightarrow> s
                       | Some fc_msg \<Rightarrow> fast_classifier_send_genl_msg (ev_netlink ev) FAST_CLASSIFIER_C_DONE fc_msg s)
               }
             }))"

section \<open>Requests of user space\<close>

definition fast_classifier_offload_genl_msg ::
  "(u32 \<Rightarrow> u32) \<Rightarrow> fast_classifier_tuple \<Rightarrow> fast_classifier \<Rightarrow> fast_classifier" where
  "fast_classifier_offload_genl_msg H fc_msg s =
     (case fast_classifier_sb_find_conn H (fct_src_saddr fc_msg) (fct_dst_saddr fc_msg) (fct_sport fc_msg)
             (fct_dport fc_msg) (fct_proto fc_msg) (fct_ethertype fc_msg = AF_INET) s of
        None \<Rightarrow> s\<lparr>offload_no_match_msgs := offload_no_match_msgs s + 1\<rparr>
      | Some conn \<Rightarrow>
          (let s1 = upd_fc conn (\<lambda>c. c\<lparr>offload_permit := True\<rparr>) s
           in s1\<lparr>offload_msgs := offload_msgs s1 + 1\<rparr>))"

text \<open>
  The settings in sysfs. \<open>ret\<close> is the result of \<open>kstrtol\<close> and \<open>new\<close> what its target holds then, which
  is the number only if \<open>ret\<close> is 0. The result is the number of bytes taken or \<open>- EINVAL\<close>.
\<close>

definition errno_EINVAL :: int where "errno_EINVAL = 22"

definition fc_not_int :: "int \<Rightarrow> 64 word \<Rightarrow> bool" where
  "fc_not_int ret new \<longleftrightarrow> ret = - errno_EINVAL \<or> scast (ucast new :: i32) \<noteq> new"

definition fast_classifier_set_offload_at_pkts ::
  "int \<Rightarrow> 64 word \<Rightarrow> nat \<Rightarrow> fast_classifier \<Rightarrow> int \<times> fast_classifier" where
  "fast_classifier_set_offload_at_pkts ret new count s =
     (if fc_not_int ret new then (- errno_EINVAL, s) else (int count, s\<lparr>offload_at_pkts := ucast new\<rparr>))"

definition fast_classifier_set_skip_bridge_ingress ::
  "int \<Rightarrow> 64 word \<Rightarrow> nat \<Rightarrow> fast_classifier \<Rightarrow> int \<times> fast_classifier" where
  "fast_classifier_set_skip_bridge_ingress ret new count s =
     (if fc_not_int ret new then (- errno_EINVAL, s) else (int count, s\<lparr>skip_to_bridge_ingress := new \<noteq> 0\<rparr>))"

section \<open>Reports of the engines\<close>

text \<open>
  The statistics of a bridge; device 0 stands for NULL. A device is tested with \<open>&& IFF_EBRIDGE\<close>, a constant that is not zero, so
  every device qualifies.
\<close>

definition br_dev_update_stats :: "netdev \<Rightarrow> u32 \<Rightarrow> u32 \<Rightarrow> fast_classifier \<Rightarrow> fast_classifier" where
  "br_dev_update_stats dev packets bytes s =
     (if dev \<noteq> 0 \<and> (packets \<noteq> 0 \<or> bytes \<noteq> 0) then s\<lparr>br_stats := br_stats s @ [(dev, ucast packets, ucast bytes)]\<rparr>
      else s)"

definition fc_sync_conn :: "sfe_connection_sync \<Rightarrow> nf_conn \<Rightarrow> nf_conn" where
  "fc_sync_conn sis ct =
     (let ct1 = sync_acct sis (sync_timeout sis ct)
      in if sis_protocol sis = IPPROTO_TCP then sync_tcp sis ct1 else ct1)"

definition fast_classifier_sync_rule ::
  "cm_kernel \<Rightarrow> sfe_connection_sync \<Rightarrow> fast_classifier \<Rightarrow> fast_classifier" where
  "fast_classifier_sync_rule K sis s =
     (let s1 = (if skip_to_bridge_ingress s then
                  br_dev_update_stats (sis_dest_dev sis) (sis_dest_new_packet_count sis) (sis_dest_new_byte_count sis)
                    (br_dev_update_stats (sis_src_dev sis) (sis_src_new_packet_count sis) (sis_src_new_byte_count sis) s)
                else s)
      in case nf_conntrack_find_get K (sync_tuple sis) of
           None \<Rightarrow> s1
         | Some c \<Rightarrow>
             (let s2 = on_cm (nf_ct_get_ref c) s1;
                  s3 = on_cm (\<lambda>m. m\<lparr>cts := (cts m)(c := fc_sync_conn sis (cts m c))\<rparr>) s2
              in on_cm (nf_ct_put c) s3))"

text \<open>The reports both engines have made since the state \<open>s\<close>, delivered in order.\<close>

definition fc_report :: "cm_kernel \<Rightarrow> fast_classifier \<Rightarrow> fast_classifier \<Rightarrow> fast_classifier" where
  "fc_report K s t =
     (let ms4 = map snd (drop (length (sync_calls (cm_v4 (fc_m s)))) (sync_calls (cm_v4 (fc_m t))));
          ms6 = map snd (drop (length (sync_calls6 (cm_v6 (fc_m s)))) (sync_calls6 (cm_v6 (fc_m t))))
      in fold (fast_classifier_sync_rule K) (ms4 @ ms6) t)"

section \<open>Devices that go down\<close>

definition fast_classifier_device_event ::
  "sfe_env \<Rightarrow> sfe_connection_sync \<Rightarrow> (nat \<Rightarrow> u64) \<Rightarrow> u32 \<Rightarrow> netdev option \<Rightarrow> fast_classifier \<Rightarrow> fast_classifier option" where
  "fast_classifier_device_event E sis now event dev s =
     (if dev \<noteq> None \<and> event = NETDEV_DOWN then do {
        s \<leftarrow> fc_destroy_all E True dev sis now s;
        fc_destroy_all E False dev sis now s
      }
      else Some s)"

definition fast_classifier_inet_event ::
  "sfe_env \<Rightarrow> sfe_connection_sync \<Rightarrow> (nat \<Rightarrow> u64) \<Rightarrow> u32 \<Rightarrow> netdev option \<Rightarrow> fast_classifier \<Rightarrow> fast_classifier option" where
  "fast_classifier_inet_event E sis now event dev s =
     (if dev \<noteq> None \<and> event = NETDEV_DOWN then fc_destroy_all E True dev sis now s else Some s)"

definition fast_classifier_inet6_event ::
  "sfe_env \<Rightarrow> sfe_connection_sync \<Rightarrow> (nat \<Rightarrow> u64) \<Rightarrow> u32 \<Rightarrow> netdev option \<Rightarrow> fast_classifier \<Rightarrow> fast_classifier option" where
  "fast_classifier_inet6_event E sis now event dev s =
     (if dev \<noteq> None \<and> event = NETDEV_DOWN then fc_destroy_all E False dev sis now s else Some s)"

end
