(* ===== verification/Fc_Inv.thy ===== *)
theory Fc_Inv
  imports Fc Sfe6_Dual
begin

text \<open>
  What every operation of the fast classifier keeps: the table lists each entry once under its own key,
  the number of announcements to user space matches the entries that are offloaded, both engines are
  consistent, and every reference taken on the way is given back.
\<close>

section \<open>Operations of the engines\<close>

text \<open>Operations that succeed and leave the engine consistent, whoever else holds references.\<close>

definition safe4 :: "sfe_env \<Rightarrow> (sfe_ipv4 \<Rightarrow> ('r \<times> sfe_ipv4) option) \<Rightarrow> sfe_ipv4 \<Rightarrow> bool" where
  "safe4 E f s \<longleftrightarrow> (\<forall>base A. engine_inv E base s A [] \<longrightarrow> (\<exists>r t B. f s = Some (r, t) \<and> engine_inv E base t B []))"

definition safe6 :: "sfe_env \<Rightarrow> (sfe_ipv6 \<Rightarrow> ('r \<times> sfe_ipv6) option) \<Rightarrow> sfe_ipv6 \<Rightarrow> bool" where
  "safe6 E f s \<longleftrightarrow> (\<forall>base A r. engine_inv6 E base (s\<lparr>dev_refcnt6 := r\<rparr>) A [] \<longrightarrow>
     (\<exists>x t B. f (s\<lparr>dev_refcnt6 := r\<rparr>) = Some (x, t) \<and> engine_inv6 E base t B []))"

lemma safe4I:
  "(\<And>base A. engine_inv E base s A [] \<Longrightarrow> \<exists>r t B. f s = Some (r, t) \<and> engine_inv E base t B []) \<Longrightarrow> safe4 E f s"
  by (simp add: safe4_def)

lemma safe6I:
  "(\<And>base A r. engine_inv6 E base (s\<lparr>dev_refcnt6 := r\<rparr>) A [] \<Longrightarrow>
     \<exists>x t B. f (s\<lparr>dev_refcnt6 := r\<rparr>) = Some (x, t) \<and> engine_inv6 E base t B []) \<Longrightarrow> safe6 E f s"
  by (simp add: safe6_def)

lemma safe4_no_result:
  "(\<And>base A. engine_inv E base s A [] \<Longrightarrow> \<exists>t B. f s = Some t \<and> engine_inv E base t B []) \<Longrightarrow> safe4 E (no_result f) s"
  by (rule safe4I) (force simp: no_result_def)

lemma safe6_no_result:
  "(\<And>base A r. engine_inv6 E base (s\<lparr>dev_refcnt6 := r\<rparr>) A [] \<Longrightarrow>
     \<exists>t B. f (s\<lparr>dev_refcnt6 := r\<rparr>) = Some t \<and> engine_inv6 E base t B []) \<Longrightarrow> safe6 E (no_result f) s"
  by (rule safe6I) (force simp: no_result_def)

lemma create_safe4:
  assumes "alloc_fresh al s"
  shows "safe4 E (sfe_ipv4_create_rule E sic al j) s"
  by (rule safe4I, erule create_rule [OF _ assms, where sic = sic and j = j]) blast

lemma create_safe6:
  assumes "alloc_fresh6 al s"
  shows "safe6 E (sfe_ipv6_create_rule E sic al j) s"
proof (rule safe6I)
  fix base A r
  assume I: "engine_inv6 E base (s\<lparr>dev_refcnt6 := r\<rparr>) A []"
  have "alloc_fresh6 al (s\<lparr>dev_refcnt6 := r\<rparr>)" using assms by (auto simp: alloc_fresh6_def split: option.splits)
  then show "\<exists>x t B. sfe_ipv6_create_rule E sic al j (s\<lparr>dev_refcnt6 := r\<rparr>) = Some (x, t) \<and> engine_inv6 E base t B []"
    by (rule create_rule6 [OF I, where sic = sic and j = j]) blast
qed

lemma rule_ops_safe4:
  "safe4 E (no_result (sfe_ipv4_update_rule E sic)) s" "safe4 E (no_result (sfe_ipv4_mark_rule E mark)) s"
  "safe4 E (no_result (sfe_ipv4_destroy_rule E sid sis now)) s"
  "safe4 E (no_result (sfe_ipv4_destroy_all_rules_for_dev E dev sis nows 0)) s"
proof -
  show "safe4 E (no_result (sfe_ipv4_update_rule E sic)) s"
    by (rule safe4_no_result, erule update_rule [where sic = sic]) blast
  show "safe4 E (no_result (sfe_ipv4_mark_rule E mark)) s"
    by (rule safe4_no_result, erule mark_rule [where mark = mark]) blast
  show "safe4 E (no_result (sfe_ipv4_destroy_rule E sid sis now)) s"
    by (rule safe4_no_result, erule destroy_rule [where sid = sid and sis = sis and now = now]) blast
  show "safe4 E (no_result (sfe_ipv4_destroy_all_rules_for_dev E dev sis nows 0)) s"
    by (rule safe4_no_result, drule destroy_all_rules [where dev = dev and sis = sis and now = nows and n = 0]) blast
qed

lemma rule_ops_safe6:
  "safe6 E (no_result (sfe_ipv6_update_rule E sic)) s" "safe6 E (no_result (sfe_ipv6_mark_rule E mark)) s"
  "safe6 E (no_result (sfe_ipv6_destroy_rule E sid sis now)) s"
  "safe6 E (no_result (sfe_ipv6_destroy_all_rules_for_dev E dev sis nows 0)) s"
proof -
  show "safe6 E (no_result (sfe_ipv6_update_rule E sic)) s"
    by (rule safe6_no_result, erule update_rule6 [where sic = sic]) blast
  show "safe6 E (no_result (sfe_ipv6_mark_rule E mark)) s"
    by (rule safe6_no_result, erule mark_rule6 [where mark = mark]) blast
  show "safe6 E (no_result (sfe_ipv6_destroy_rule E sid sis now)) s"
    by (rule safe6_no_result, erule destroy_rule6 [where sid = sid and sis = sis and now = now]) blast
  show "safe6 E (no_result (sfe_ipv6_destroy_all_rules_for_dev E dev sis nows 0)) s"
    by (rule safe6_no_result, drule destroy_all_rules6 [where dev = dev and sis = sis and now = nows and n = 0]) blast
qed

lemma recv_safe4:
  assumes "kernel_ok N" and "skb_ok skb" and "tcp_linear skb"
  shows "safe4 E (sfe_ipv4_recv E N dev skb sis now) s"
proof (rule safe4I)
  fix base A
  assume I: "engine_inv E base s A []"
  obtain out t where r: "sfe_ipv4_recv E N dev skb sis now s = Some (out, t)" using recv_runs [OF I assms] by blast
  with recv_engine [OF I r]
  show "\<exists>r t B. sfe_ipv4_recv E N dev skb sis now s = Some (r, t) \<and> engine_inv E base t B []" by blast
qed

lemma recv_safe6:
  assumes "kernel_ok N" and "skb_ok skb" and "bounded skb" and "tcp_linear6 skb"
  shows "safe6 E (sfe_ipv6_recv E N dev skb sis now) s"
proof (rule safe6I)
  fix base A r
  assume I: "engine_inv6 E base (s\<lparr>dev_refcnt6 := r\<rparr>) A []"
  obtain out t where r: "sfe_ipv6_recv E N dev skb sis now (s\<lparr>dev_refcnt6 := r\<rparr>) = Some (out, t)"
    using recv_runs6 [OF I assms] by blast
  with recv_engine6 [OF I r]
  show "\<exists>x t B. sfe_ipv6_recv E N dev skb sis now (s\<lparr>dev_refcnt6 := r\<rparr>) = Some (x, t) \<and> engine_inv6 E base t B []" by blast
qed

text \<open>Each engine as seen from the whole: what it may assume, and what follows when it is done.\<close>

lemma dual_v4:
  assumes "dual_inv E base m"
  obtains base' A where "engine_inv E base' (cm_v4 m) A []"
    and "\<And>t B. engine_inv E base' t B [] \<Longrightarrow> dual_inv E base (m\<lparr>cm_v4 := t\<rparr>)"
proof -
  obtain M F A own where I: "engine_inv E (\<lambda>d. base d + own d) (cm_v4 m) A []" and v: "engine6_rep E own (cm_v6 m) F"
    using assms by (auto simp: dual_inv_def cm_rep_def)
  have "dual_inv E base (m\<lparr>cm_v4 := t\<rparr>)" if "engine_inv E (\<lambda>d. base d + own d) t B []" for t B
    unfolding dual_inv_def cm_rep_def using that v by fastforce
  with I show thesis by (rule that)
qed

lemma dual_v6:
  assumes "dual_inv E base m"
  obtains base' A where "engine_inv6 E base' ((cm_v6 m)\<lparr>dev_refcnt6 := dev_refcnt (cm_v4 m)\<rparr>) A []"
    and "\<And>t B. engine_inv6 E base' t B [] \<Longrightarrow>
      dual_inv E base (m\<lparr>cm_v4 := (cm_v4 m)\<lparr>dev_refcnt := dev_refcnt6 t\<rparr>, cm_v6 := t\<rparr>)"
proof -
  obtain M F A own where I: "engine_inv E (\<lambda>d. base d + own d) (cm_v4 m) A []" and v: "engine6_rep E own (cm_v6 m) F"
    using assms by (auto simp: dual_inv_def cm_rep_def)
  let ?r = "\<lambda>d. base d + int (dev_uses (cm_v4 m) (connl A @ []) d)"
  have r: "dev_refcnt (cm_v4 m) = (\<lambda>d. ?r d + own d)" by (rule ext) (simp only: refs_of_base [OF I] ac_simps)
  obtain B where J: "engine_inv6 E ?r ((cm_v6 m)\<lparr>dev_refcnt6 := dev_refcnt (cm_v4 m)\<rparr>) B []"
    unfolding r by (rule engine6_repE [OF v])
  have "dual_inv E base (m\<lparr>cm_v4 := (cm_v4 m)\<lparr>dev_refcnt := dev_refcnt6 t\<rparr>, cm_v6 := t\<rparr>)"
    if t: "engine_inv6 E ?r t C []" for t C
  proof -
    obtain own' where o: "engine6_rep E own' t (flow_keys6 t C)" "dev_refcnt6 t = (\<lambda>d. ?r d + own' d)"
      using engine6_repI [OF t refl] by blast
    have "engine_inv E (\<lambda>d. base d + own' d) ((cm_v4 m)\<lparr>dev_refcnt := dev_refcnt6 t\<rparr>) A []"
      by (rule engine_rebase [OF I]) (simp add: o(2))
    with o(1) show ?thesis unfolding dual_inv_def cm_rep_def by fastforce
  qed
  with J show thesis by (rule that)
qed

lemma dual_hold: "dual_inv E base m \<Longrightarrow> dual_inv E (base(d := base d + 1)) (cm_dev_hold d m)"
  unfolding dual_inv_def using cm_rep_hold by blast

lemma dual_put: "dual_inv E (base(d := base d + 1)) m \<Longrightarrow> dual_inv E base (cm_dev_put d m)"
  unfolding dual_inv_def using cm_rep_put [of E _ "base(d := base d + 1)" "[]" m _ _ d] by fastforce

section \<open>What is kept\<close>

text \<open>The variables of the classifier itself.\<close>

definition fc_same :: "fast_classifier \<Rightarrow> fast_classifier \<Rightarrow> bool" where
  "fc_same s t \<longleftrightarrow> fc_conns t = fc_conns s \<and> fc_live t = fc_live s \<and> fc_conn_ht t = fc_conn_ht s \<and>
     sfe_connections_size t = sfe_connections_size s \<and> fc_sent t = fc_sent s \<and>
     offload_at_pkts t = offload_at_pkts s \<and> cts (fc_m t) = cts (fc_m s)"

definition sent_count :: "fc_command \<Rightarrow> fast_classifier \<Rightarrow> nat" where
  "sent_count c s = length (filter (\<lambda>x. fst x = c) (fc_sent s))"

text \<open>Every connection announced as offloaded is an entry that is offloaded, or was announced as done.\<close>

definition fc_books :: "fast_classifier \<Rightarrow> bool" where
  "fc_books s \<longleftrightarrow> sent_count FAST_CLASSIFIER_C_OFFLOADED s =
     sent_count FAST_CLASSIFIER_C_DONE s + card {p \<in> fc_live s. offloaded (fc_conns s p)}"

definition fc_inv :: "(u32 \<Rightarrow> u32) \<Rightarrow> sfe_env \<Rightarrow> (netdev \<Rightarrow> int) \<Rightarrow> fast_classifier \<Rightarrow> bool" where
  "fc_inv H E base s \<longleftrightarrow> fc_table_inv H s \<and> fc_books s \<and> dual_inv E base (fc_m s)"

definition fc_refs :: "fast_classifier \<Rightarrow> fast_classifier \<Rightarrow> bool" where
  "fc_refs s t \<longleftrightarrow> kept_refs (fc_m s) (fc_m t)"

lemma fc_refs_refl [simp]: "fc_refs s s"
  by (simp add: fc_refs_def kept_refs_def)

lemma fc_refs_trans: "fc_refs s t \<Longrightarrow> fc_refs t u \<Longrightarrow> fc_refs s u"
  by (simp add: fc_refs_def kept_refs_def)

lemma fc_same_inv:
  assumes "fc_same s t" and "fc_inv H E base s" and "dual_inv E base (fc_m t)"
  shows "fc_inv H E base t"
proof -
  have "fc_listed H t (fc_live s) = fc_listed H s (fc_live s)"
    using assms(1) by (intro listed_cong) (simp_all add: fc_same_def)
  then show ?thesis
    using assms by (simp add: fc_inv_def fc_table_inv_def fc_books_def fc_same_def sent_count_def)
qed

lemma fc_v4_kept:
  assumes I: "dual_inv E base (fc_m s)" and f: "safe4 E f (cm_v4 (fc_m s))"
  obtains r t where "fc_v4 f s = Some (r, t)" and "dual_inv E base (fc_m t)" and "fc_same s t" and "fc_refs s t"
proof -
  obtain base' A where J: "engine_inv E base' (cm_v4 (fc_m s)) A []"
    and k: "\<And>t B. engine_inv E base' t B [] \<Longrightarrow> dual_inv E base ((fc_m s)\<lparr>cm_v4 := t\<rparr>)"
    using dual_v4 [OF I] by blast
  obtain r t B where "f (cm_v4 (fc_m s)) = Some (r, t)" "engine_inv E base' t B []"
    using f J unfolding safe4_def by blast
  then show thesis using k
    by (intro that [of r "s\<lparr>fc_m := (fc_m s)\<lparr>cm_v4 := t\<rparr>\<rparr>"])
      (auto simp: fc_v4_def fc_same_def fc_refs_def kept_refs_def)
qed

lemma fc_v6_kept:
  assumes I: "dual_inv E base (fc_m s)" and f: "safe6 E f (cm_v6 (fc_m s))"
  obtains r t where "fc_v6 f s = Some (r, t)" and "dual_inv E base (fc_m t)" and "fc_same s t" and "fc_refs s t"
proof -
  let ?m = "fc_m s"
  obtain base' A where J: "engine_inv6 E base' ((cm_v6 ?m)\<lparr>dev_refcnt6 := dev_refcnt (cm_v4 ?m)\<rparr>) A []"
    and k: "\<And>t B. engine_inv6 E base' t B [] \<Longrightarrow>
      dual_inv E base (?m\<lparr>cm_v4 := (cm_v4 ?m)\<lparr>dev_refcnt := dev_refcnt6 t\<rparr>, cm_v6 := t\<rparr>)"
    using dual_v6 [OF I] by blast
  obtain r t B where "f ((cm_v6 ?m)\<lparr>dev_refcnt6 := dev_refcnt (cm_v4 ?m)\<rparr>) = Some (r, t)" "engine_inv6 E base' t B []"
    using f J unfolding safe6_def by blast
  then show thesis using k
    by (intro that [of r "s\<lparr>fc_m := ?m\<lparr>cm_v4 := (cm_v4 ?m)\<lparr>dev_refcnt := dev_refcnt6 t\<rparr>, cm_v6 := t\<rparr>\<rparr>"])
      (auto simp: fc_v6_def fc_same_def fc_refs_def kept_refs_def Let_def)
qed

text \<open>A step that ends, keeps the invariant and gives back the references.\<close>

definition keeps :: "(u32 \<Rightarrow> u32) \<Rightarrow> sfe_env \<Rightarrow> (netdev \<Rightarrow> int) \<Rightarrow> fast_classifier \<Rightarrow> fast_classifier option \<Rightarrow> bool" where
  "keeps H E base s r \<longleftrightarrow> (\<exists>t. r = Some t \<and> fc_inv H E base t \<and> fc_refs s t)"

lemma keepsI: "fc_inv H E base t \<Longrightarrow> fc_refs s t \<Longrightarrow> keeps H E base s (Some t)"
  by (simp add: keeps_def)

lemma keeps_bind:
  assumes "keeps H E base s r" and "\<And>t. r = Some t \<Longrightarrow> fc_inv H E base t \<Longrightarrow> fc_refs s t \<Longrightarrow> keeps H E base t (g t)"
  shows "keeps H E base s (r \<bind> g)"
  using assms fc_refs_trans unfolding keeps_def by fastforce

lemma either_kept:
  assumes d: "dual_inv E base (fc_m s)"
    and f4: "is_v4 \<Longrightarrow> safe4 E f4 (cm_v4 (fc_m s))" and f6: "\<not> is_v4 \<Longrightarrow> safe6 E f6 (cm_v6 (fc_m s))"
  obtains r t where "(if is_v4 then fc_v4 f4 s else fc_v6 f6 s) = Some (r, t)" and "dual_inv E base (fc_m t)"
    and "fc_same s t" and "fc_refs s t"
proof (cases is_v4)
  case True
  then show thesis using that by (auto intro: fc_v4_kept [OF d f4])
next
  case False
  then show thesis using that by (auto intro: fc_v6_kept [OF d f6])
qed

lemma call_kept:
  assumes I: "fc_inv H E base s"
    and "is_v4 \<Longrightarrow> safe4 E f4 (cm_v4 (fc_m s))" and "\<not> is_v4 \<Longrightarrow> safe6 E f6 (cm_v6 (fc_m s))"
  obtains r t where "(if is_v4 then fc_v4 f4 s else fc_v6 f6 s) = Some (r, t)" and "fc_inv H E base t"
    and "fc_same s t" and "fc_refs s t"
proof -
  have d: "dual_inv E base (fc_m s)" using I by (simp add: fc_inv_def)
  show thesis by (rule either_kept [OF d assms(2,3)]) (auto intro: that fc_same_inv [OF _ I])
qed

lemma calls_keep:
  assumes I: "fc_inv H E base s"
  shows "keeps H E base s (fc_update_rule E is_v4 sic s)" and "keeps H E base s (fc_mark_rule E is_v4 mark s)"
    and "keeps H E base s (fc_destroy_rule E is_v4 sid sis now s)"
    and "keeps H E base s (fc_destroy_all E is_v4 dev sis nows s)"
proof -
  note k = call_kept [OF I, of is_v4]
  show "keeps H E base s (fc_update_rule E is_v4 sic s)"
    unfolding fc_update_rule_def by (rule k [OF rule_ops_safe4(1) rule_ops_safe6(1)]) (auto simp: keeps_def)
  show "keeps H E base s (fc_mark_rule E is_v4 mark s)"
    unfolding fc_mark_rule_def by (rule k [OF rule_ops_safe4(2) rule_ops_safe6(2)]) (auto simp: keeps_def)
  show "keeps H E base s (fc_destroy_rule E is_v4 sid sis now s)"
    unfolding fc_destroy_rule_def by (rule k [OF rule_ops_safe4(3) rule_ops_safe6(3)]) (auto simp: keeps_def)
  show "keeps H E base s (fc_destroy_all E is_v4 dev sis nows s)"
    unfolding fc_destroy_all_def by (rule k [OF rule_ops_safe4(4) rule_ops_safe6(4)]) (auto simp: keeps_def)
qed

section \<open>Entries\<close>

definition same_entry :: "sfe_connection \<Rightarrow> sfe_connection \<Rightarrow> bool" where
  "same_entry c c' \<longleftrightarrow> fc_is_v4 c' = fc_is_v4 c \<and> conn_fc_key c' = conn_fc_key c \<and>
     conn_fc_hash c' = conn_fc_hash c \<and> sic_protocol (fc_sic c') = sic_protocol (fc_sic c)"

lemma same_entryI:
  assumes "fc_is_v4 c' = fc_is_v4 c" and "sic_protocol (fc_sic c') = sic_protocol (fc_sic c)"
    and "sic_src_ip (fc_sic c') = sic_src_ip (fc_sic c)" and "sic_dest_ip (fc_sic c') = sic_dest_ip (fc_sic c)"
    and "sic_src_port (fc_sic c') = sic_src_port (fc_sic c)" and "sic_dest_port (fc_sic c') = sic_dest_port (fc_sic c)"
  shows "same_entry c c'"
  using assms by (simp add: same_entry_def conn_fc_key_def sic_fc_key_def conn_fc_hash_def)

lemma upd_fc_simps [simp]:
  "fc_m (upd_fc p f s) = fc_m s" "fc_live (upd_fc p f s) = fc_live s" "fc_sent (upd_fc p f s) = fc_sent s"
  "fc_conn_ht (upd_fc p f s) = fc_conn_ht s" "sfe_connections_size (upd_fc p f s) = sfe_connections_size s"
  "fc_conns (upd_fc p f s) = (fc_conns s)(p := f (fc_conns s p))" "offload_at_pkts (upd_fc p f s) = offload_at_pkts s"
  by (simp_all add: upd_fc_def)

lemma upd_fc_table:
  assumes "same_entry (fc_conns s p) (f (fc_conns s p))"
  shows "fc_table_inv H (upd_fc p f s) = fc_table_inv H s"
proof -
  have "fc_listed H (upd_fc p f s) L = fc_listed H s L" for L
    using assms by (intro listed_cong) (auto simp: same_entry_def)
  then show ?thesis by (simp add: fc_table_inv_def)
qed

lemma upd_fc_inv:
  assumes "same_entry (fc_conns s p) (f (fc_conns s p))" and "offloaded (f (fc_conns s p)) = offloaded (fc_conns s p)"
  shows "fc_inv H E base (upd_fc p f s) = fc_inv H E base s"
proof -
  have "{q \<in> fc_live s. offloaded (fc_conns (upd_fc p f s) q)} = {q \<in> fc_live s. offloaded (fc_conns s q)}"
    using assms(2) by auto
  then have "fc_books (upd_fc p f s) = fc_books s" by (simp add: fc_books_def sent_count_def)
  then show ?thesis using upd_fc_table [of s p f H] assms(1) by (simp add: fc_inv_def)
qed

lemma incr_fc_simps [simp]:
  "fc_m (fast_classifier_incr_exceptions e s) = fc_m s" "fc_live (fast_classifier_incr_exceptions e s) = fc_live s"
  "fc_conns (fast_classifier_incr_exceptions e s) = fc_conns s" "fc_sent (fast_classifier_incr_exceptions e s) = fc_sent s"
  "fc_conn_ht (fast_classifier_incr_exceptions e s) = fc_conn_ht s"
  "sfe_connections_size (fast_classifier_incr_exceptions e s) = sfe_connections_size s"
  "offload_at_pkts (fast_classifier_incr_exceptions e s) = offload_at_pkts s"
  by (simp_all add: fast_classifier_incr_exceptions_def)

lemma fc_same_cong:
  assumes "fc_same s t" and "fc_m t = fc_m s"
  shows "fc_inv H E base t = fc_inv H E base s"
proof
  show "fc_inv H E base t" if "fc_inv H E base s"
    using fc_same_inv [OF assms(1) that] that assms(2) by (simp add: fc_inv_def)
  have "fc_same t s" using assms(1) by (simp add: fc_same_def)
  then show "fc_inv H E base s" if "fc_inv H E base t"
    using fc_same_inv [OF _ that] that assms(2) by (simp add: fc_inv_def)
qed

lemma incr_fc_inv [simp]: "fc_inv H E base (fast_classifier_incr_exceptions e s) = fc_inv H E base s"
  by (rule fc_same_cong) (simp_all add: fc_same_def)

lemma incr_fc_refs [simp]:
  "fc_refs s (fast_classifier_incr_exceptions e t) = fc_refs s t" "fc_refs s (upd_fc p f t) = fc_refs s t"
  by (simp_all add: fc_refs_def)

section \<open>Packets that leave\<close>

lemma windows_entry: "same_entry c (c\<lparr>fc_sic := describe_windows K ct (fc_sic c)\<rparr>)"
  by (rule same_entryI) (simp_all add: describe_windows_def Let_def)

lemma update_protocol_kept:
  assumes "fast_classifier_update_protocol K p ct s = (ok, t)"
  shows "fc_inv H E base t = fc_inv H E base s" and "fc_m t = fc_m s" and "fc_live t = fc_live s"
    and "offloaded (fc_conns t p) = offloaded (fc_conns s p)" and "fc_conn_ht t = fc_conn_ht s"
    and "\<And>q. same_entry (fc_conns s q) (fc_conns t q)"
  using assms windows_entry
  by (auto simp: fast_classifier_update_protocol_def Let_def upd_fc_inv same_entry_def split: if_splits)

lemma locked_kept:
  assumes I: "fc_inv H E base s" and l: "fc_locked H K is_v4 sic s = (todo, t)"
  shows "fc_inv H E base t" and "fc_m t = fc_m s" and "fc_live t = fc_live s"
    and "todo = FcOffload p \<Longrightarrow> p \<in> fc_live t \<and> \<not> offloaded (fc_conns t p)"
    and "todo = FcRefresh p \<Longrightarrow> p \<in> fc_live t" and "todo = FcLearn \<Longrightarrow> t = s"
proof -
  let ?f = "fast_classifier_find_conn H (sic_src_ip sic) (sic_dest_ip sic) (sic_src_port sic) (sic_dest_port sic)
      (ucast (sic_protocol sic)) is_v4 s"
  have L: "fc_listed H s (fc_live s)" using I by (simp add: fc_inv_def fc_table_inv_def)
  have "fc_inv H E base t \<and> fc_m t = fc_m s \<and> fc_live t = fc_live s \<and>
    (todo = FcOffload p \<longrightarrow> p \<in> fc_live t \<and> \<not> offloaded (fc_conns t p)) \<and>
    (todo = FcRefresh p \<longrightarrow> p \<in> fc_live t) \<and> (todo = FcLearn \<longrightarrow> t = s)"
  proof (cases ?f)
    case None
    then show ?thesis using I l by (auto simp: fc_locked_def)
  next
    case (Some q)
    let ?s1 = "upd_fc q (\<lambda>c. c\<lparr>hits := hits c + 1\<rparr>) s"
    have q: "q \<in> fc_live s" using Some find_conn_iff [OF L] by simp
    have s1: "fc_inv H E base ?s1 = fc_inv H E base s" by (rule upd_fc_inv) (auto intro: same_entryI)
    obtain ok u where u: "fast_classifier_update_protocol K q (cts (fc_m ?s1) (fc_ct (fc_conns ?s1 q))) ?s1 = (ok, u)"
      by fastforce
    note k = update_protocol_kept [OF u]
    show ?thesis
    proof (cases "\<not> offloaded (fc_conns ?s1 q) \<and>
        (offload_permit (fc_conns ?s1 q) \<or> sint (offload_at_pkts ?s1) \<le> sint (hits (fc_conns ?s1 q)))")
      case True
      then have "(case (ok, u) of (False, s2) \<Rightarrow> (FcStop, fast_classifier_incr_exceptions FC_UPDATE_PROTOCOL_FAIL s2)
          | (True, s2) \<Rightarrow> (FcOffload q, s2)) = (todo, t)"
        using l Some unfolding fc_locked_def u [symmetric] by (simp only: option.case Let_def if_True simp_thms)
      then show ?thesis using I s1 k q True by (cases ok) auto
    next
      case False
      then have "(FcRefresh q, ?s1) = (todo, t)"
        using l Some unfolding fc_locked_def by (simp only: option.case Let_def if_False)
      then show ?thesis using I s1 q by auto
    qed
  qed
  then show "fc_inv H E base t" and "fc_m t = fc_m s" and "fc_live t = fc_live s"
    and "todo = FcOffload p \<Longrightarrow> p \<in> fc_live t \<and> \<not> offloaded (fc_conns t p)"
    and "todo = FcRefresh p \<Longrightarrow> p \<in> fc_live t" and "todo = FcLearn \<Longrightarrow> t = s" by blast+
qed

text \<open>Memory the allocator returns is not in use.\<close>

definition hook_fresh :: "fc_hook \<Rightarrow> fast_classifier \<Rightarrow> bool" where
  "hook_fresh h s \<longleftrightarrow> (if hk_is_v4 h then alloc_fresh (hk_rule_alloc h) (cm_v4 (fc_m s))
       else alloc_fresh6 (hk_rule_alloc h) (cm_v6 (fc_m s))) \<and>
     (\<forall>p. fc_al_conn (hk_conn_alloc h) = Some p \<longrightarrow> p \<notin> fc_live s)"

lemma send_msg_simps [simp]:
  "fc_m (fast_classifier_send_genl_msg nl c m s) = fc_m s"
  "fc_live (fast_classifier_send_genl_msg nl c m s) = fc_live s"
  "fc_conns (fast_classifier_send_genl_msg nl c m s) = fc_conns s"
  "fc_conn_ht (fast_classifier_send_genl_msg nl c m s) = fc_conn_ht s"
  "sfe_connections_size (fast_classifier_send_genl_msg nl c m s) = sfe_connections_size s"
  "fc_sent (fast_classifier_send_genl_msg nl c m s) = fc_sent s @ [(c, m)]"
  "offload_at_pkts (fast_classifier_send_genl_msg nl c m s) = offload_at_pkts s"
  by (simp_all add: fast_classifier_send_genl_msg_def Let_def split: option.split fc_command.split)

lemma offload_inv:
  assumes I: "fc_inv H E base t" and p: "p \<in> fc_live t" and o: "\<not> offloaded (fc_conns t p)"
  shows "fc_inv H E base (upd_fc p (\<lambda>c. c\<lparr>offloaded := True\<rparr>)
    (fast_classifier_send_genl_msg nl FAST_CLASSIFIER_C_OFFLOADED m t))" (is "fc_inv H E base ?u")
proof -
  let ?t = "fast_classifier_send_genl_msg nl FAST_CLASSIFIER_C_OFFLOADED m t"
  have T: "fc_table_inv H t" and b: "fc_books t" and d: "dual_inv E base (fc_m t)" using I by (simp_all add: fc_inv_def)
  have "fc_listed H ?t L = fc_listed H t L" for L by (rule listed_cong) simp_all
  then have "fc_table_inv H ?t" using T by (simp add: fc_table_inv_def)
  then have "fc_table_inv H ?u" by (subst upd_fc_table) (auto intro: same_entryI)
  moreover have "{q \<in> fc_live t. offloaded (fc_conns ?u q)} = insert p {q \<in> fc_live t. offloaded (fc_conns t q)}"
    using p by auto
  then have "fc_books ?u" using b o T by (simp add: fc_books_def sent_count_def fc_table_inv_def)
  ultimately show ?thesis using d by (simp add: fc_inv_def)
qed

lemma offload_keeps:
  assumes I: "fc_inv H E base s" and p: "p \<in> fc_live s" and o: "\<not> offloaded (fc_conns s p)"
    and fresh: "if is_v4 then alloc_fresh al (cm_v4 (fc_m s)) else alloc_fresh6 al (cm_v6 (fc_m s))"
  shows "keeps H E base s (fc_offload E is_v4 al j nl junk sic p s)"
proof -
  obtain r t where c: "fc_create_rule E is_v4 (fc_sic (fc_conns s p)) al j s = Some (r, t)"
    and t: "fc_inv H E base t" "fc_same s t" "fc_refs s t"
    unfolding fc_create_rule_def
    by (rule call_kept [OF I, of is_v4 "sfe_ipv4_create_rule E (fc_sic (fc_conns s p)) al j"
          "sfe_ipv6_create_rule E (fc_sic (fc_conns s p)) al j"])
      (use fresh in \<open>auto intro: create_safe4 create_safe6\<close>)
  have "p \<in> fc_live t" "\<not> offloaded (fc_conns t p)" using t(2) p o by (simp_all add: fc_same_def)
  from offload_inv [OF t(1) this] show ?thesis
    using t p c by (auto simp: fc_offload_def keeps_def fc_refs_def)
qed

lemma refresh_keeps:
  assumes I: "fc_inv H E base s" and p: "p \<in> fc_live s"
  shows "keeps H E base s (fc_refresh E is_v4 p s)"
proof -
  have "keeps H E base s (if offloaded (fc_conns s p) then fc_update_rule E is_v4 (fc_sic (fc_conns s p)) s else Some s)"
    using calls_keep(1) [OF I] I by (simp add: keeps_def)
  then show ?thesis unfolding fc_refresh_def using p
    by (simp add: keeps_bind [OF _ keepsI])
qed

end
