(* ===== verification/Fc_Hooks.thy ===== *)
theory Fc_Hooks
  imports Fc_Inv
begin

text \<open>
  The hooks of the fast classifier as a whole: new entries, packets that leave and arrive, the end of
  connections, devices, requests and reports all keep the invariant. The steps of the module are these,
  in any order and with any arguments.
\<close>

section \<open>New entries\<close>

lemma on_cm_simps [simp]:
  "fc_m (on_cm f s) = f (fc_m s)" "fc_conns (on_cm f s) = fc_conns s" "fc_live (on_cm f s) = fc_live s"
  "fc_conn_ht (on_cm f s) = fc_conn_ht s" "sfe_connections_size (on_cm f s) = sfe_connections_size s"
  "fc_sent (on_cm f s) = fc_sent s" "skip_to_bridge_ingress (on_cm f s) = skip_to_bridge_ingress s"
  by (simp_all add: on_cm_def)

lemma on_cm_hold_put [simp]: "on_cm (cm_dev_put d) (on_cm (cm_dev_hold d) s) = s"
  by (simp add: on_cm_def)

lemma fc_m_update: "s\<lparr>fc_m := cm_dev_hold d (fc_m s)\<rparr> = on_cm (cm_dev_hold d) s" "s\<lparr>fc_m := fc_m s\<rparr> = s"
  by (simp_all add: on_cm_def)

lemma find_conn_on_cm [simp]:
  "fast_classifier_find_conn H a b p q pr v (on_cm f s) = fast_classifier_find_conn H a b p q pr v s"
  by (simp add: fast_classifier_find_conn_def)

lemma find_conn_cong:
  "fc_conns t = fc_conns s \<Longrightarrow> fc_conn_ht t = fc_conn_ht s \<Longrightarrow>
     fast_classifier_find_conn H a b p q pr v t = fast_classifier_find_conn H a b p q pr v s"
  by (simp add: fast_classifier_find_conn_def)

lemma add_conn_on_cm:
  "fast_classifier_add_conn H p (on_cm f s) = map_prod id (on_cm f) (fast_classifier_add_conn H p s)"
  by (simp add: fast_classifier_add_conn_def Let_def fc_hash_add_def split: option.split)
    (simp add: on_cm_def)

lemma learn_conn_on_cm: "fc_learn_conn H v al ct sic (on_cm f s) = on_cm f (fc_learn_conn H v al ct sic s)"
proof -
  have u: "(on_cm f s)\<lparr>fc_conns := c, fc_live := l\<rparr> = on_cm f (s\<lparr>fc_conns := c, fc_live := l\<rparr>)" for c l
    by (simp add: on_cm_def)
  have l: "(on_cm f t)\<lparr>fc_live := l\<rparr> = on_cm f (t\<lparr>fc_live := l\<rparr>)" for t l
    by (simp add: on_cm_def)
  show ?thesis
    by (auto simp: fc_learn_conn_def u add_conn_on_cm l Let_def split: option.split prod.split bool.split)
qed

lemma incr_on_cm:
  "fast_classifier_incr_exceptions e (on_cm f s) = on_cm f (fast_classifier_incr_exceptions e s)"
  by (simp add: fast_classifier_incr_exceptions_def on_cm_def)

lemma find_dev_fc:
  assumes "\<forall>d. dev_addr_len K d \<le> ETH_ALEN"
  shows "fast_classifier_find_dev_and_mac_addr K route a old is_v4 s =
     (case neighbour K route a is_v4 of
        None \<Rightarrow> Some (None, s)
      | Some (d, n) \<Rightarrow> Some (Some (d, \<lambda>i. if i < dev_addr_len K d then neigh_ha K n i else old i), on_cm (cm_dev_hold d) s))"
  by (auto simp: fast_classifier_find_dev_and_mac_addr_def find_dev_conv [OF assms] fc_m_update split: option.split)

text \<open>The message of a new entry: devices, MTU and mark besides the hardware addresses.\<close>

definition entry_for ::
  "cm_kernel \<Rightarrow> u32 \<Rightarrow> sfe_connection_create \<Rightarrow> netdev \<times> netdev \<Rightarrow> sfe_connection_create \<Rightarrow> bool" where
  "entry_for K mark sic devs sic' \<longleftrightarrow> (\<forall>v. sic_fc_key v sic' = sic_fc_key v sic) \<and>
     sic_protocol sic' = sic_protocol sic \<and> sic_nat sic' = sic_nat sic \<and>
     sic_dest_ip_xlate sic' = sic_dest_ip_xlate sic \<and>
     sic_src_dev sic' = fst devs \<and> sic_dest_dev sic' = snd devs \<and> sic_mark sic' = mark \<and>
     sic_src_mtu sic' = dev_mtu K (fst devs) \<and> sic_dest_mtu sic' = dev_mtu K (snd devs)"

lemma learn_between_conv:
  "fc_learn_between H K v al ct mark d1 d4 sic (on_cm (cm_dev_hold d4) (on_cm (cm_dev_hold d1) s)) =
    (case do { src \<leftarrow> bridged K d1; dest \<leftarrow> bridged K d4; Some (src, dest) } of
       None \<Rightarrow> fast_classifier_incr_exceptions FC_NO_BRIDGE s
     | Some (src, dest) \<Rightarrow> fc_learn_conn H v al ct (sic\<lparr>sic_src_dev := src, sic_dest_dev := dest,
         sic_src_mtu := dev_mtu K src, sic_dest_mtu := dev_mtu K dest, sic_mark := mark\<rparr>) s)"
proof -
  have put: "on_cm (put_bridge None) t = t" "on_cm (put_bridge (Some b)) t = on_cm (cm_dev_put b) t" for b t
    by (simp_all add: on_cm_def)
  have br: "bridge_of K d m = (if dev_is_bridge_port K d
      then (case bridged K d of None \<Rightarrow> None | Some b \<Rightarrow> Some (Some b, cm_dev_hold b m)) else Some (None, m))" for d m
    using not_bridged [of K d] by (simp add: bridge_of_conv split: option.split)
  have X: "fc_learn_conn H v al ct x (t\<lparr>fc_m := m\<rparr>) = (fc_learn_conn H v al ct x t)\<lparr>fc_m := m\<rparr>"
    "fast_classifier_incr_exceptions e (t\<lparr>fc_m := m\<rparr>) = (fast_classifier_incr_exceptions e t)\<lparr>fc_m := m\<rparr>"
    "(fc_learn_conn H v al ct x t)\<lparr>fc_m := fc_m t\<rparr> = fc_learn_conn H v al ct x t"
    "(fast_classifier_incr_exceptions e t)\<lparr>fc_m := fc_m t\<rparr> = fast_classifier_incr_exceptions e t" for x t m e
    using learn_conn_on_cm [of H v al ct x "\<lambda>_. m" t] incr_on_cm [of e "\<lambda>_. m" t]
      learn_conn_on_cm [of H v al ct x "\<lambda>_. fc_m t" t]
    by (simp_all add: on_cm_def fast_classifier_incr_exceptions_def)
  note simps = fc_learn_between_def br Let_def put X on_cm_def comp_def not_bridged
  show ?thesis
    by (cases "dev_is_bridge_port K d1"; cases "dev_is_bridge_port K d4"; cases "bridged K d1"; cases "bridged K d4")
      (simp_all add: simps)
qed

lemma learn_conv:
  assumes fit: "\<forall>d. dev_addr_len K d \<le> ETH_ALEN"
  shows "\<exists>e sic'. (\<forall>devs. resolve K v p (sic_src_ip sic, sic_dest_ip sic) (sic_src_ip_xlate sic, sic_dest_ip_xlate sic) =
       Some devs \<longrightarrow> entry_for K mark sic devs sic') \<and>
     fc_learn H K v al ct mark p sic s = Some
      (case resolve K v p (sic_src_ip sic, sic_dest_ip sic) (sic_src_ip_xlate sic, sic_dest_ip_xlate sic) of
         None \<Rightarrow> fast_classifier_incr_exceptions e s
       | Some devs \<Rightarrow> fc_learn_conn H v al ct sic' s)"
proof -
  note conv = find_dev_fc [OF fit]
  note defs = fc_learn_def resolve_def conv Let_def incr_on_cm
  consider "neighbour K None (sic_src_ip sic) v = None"
    | d n where "neighbour K None (sic_src_ip sic) v = Some (d, n)"
      "neighbour K None (sic_src_ip_xlate sic) v = None"
    | d n d' n' where "neighbour K None (sic_src_ip sic) v = Some (d, n)"
      "neighbour K None (sic_src_ip_xlate sic) v = Some (d', n')"
      "neighbour K (if v then None else Some (pkt_dst p)) (sic_dest_ip sic) v = None"
    | d n d' n' e m where "neighbour K None (sic_src_ip sic) v = Some (d, n)"
      "neighbour K None (sic_src_ip_xlate sic) v = Some (d', n')"
      "neighbour K (if v then None else Some (pkt_dst p)) (sic_dest_ip sic) v = Some (e, m)"
      "neighbour K (Some (pkt_dst p)) (sic_dest_ip_xlate sic) v = None"
    | d n d' n' e m e' m' where "neighbour K None (sic_src_ip sic) v = Some (d, n)"
      "neighbour K None (sic_src_ip_xlate sic) v = Some (d', n')"
      "neighbour K (if v then None else Some (pkt_dst p)) (sic_dest_ip sic) v = Some (e, m)"
      "neighbour K (Some (pkt_dst p)) (sic_dest_ip_xlate sic) v = Some (e', m')"
    by (metis not_Some_eq surj_pair)
  then show ?thesis
  proof cases
    case 5
    let ?mac = "\<lambda>d n (old :: mac) i. if i < dev_addr_len K d then neigh_ha K n i else old i"
    let ?sic = "sic\<lparr>sic_src_mac := ?mac d n (sic_src_mac sic), sic_src_mac_xlate := ?mac d' n' (sic_src_mac_xlate sic),
        sic_dest_mac := ?mac e m (sic_dest_mac sic), sic_dest_mac_xlate := ?mac e' m' (sic_dest_mac_xlate sic)\<rparr>"
    have run: "fc_learn H K v al ct mark p sic s = Some (fc_learn_between H K v al ct mark d e' ?sic
        (on_cm (cm_dev_hold e') (on_cm (cm_dev_hold d) s)))"
      using 5 by (simp add: defs cong: if_cong)
    have res: "resolve K v p (sic_src_ip sic, sic_dest_ip sic) (sic_src_ip_xlate sic, sic_dest_ip_xlate sic) =
        do { src \<leftarrow> bridged K d; dest \<leftarrow> bridged K e'; Some (src, dest) }"
      using 5 by (simp add: resolve_def)
    let ?e = "\<lambda>src dest. ?sic\<lparr>sic_src_dev := src, sic_dest_dev := dest,
         sic_src_mtu := dev_mtu K src, sic_dest_mtu := dev_mtu K dest, sic_mark := mark\<rparr>"
    have "entry_for K mark sic (src, dest) (?e src dest)" for src dest
      by (simp add: entry_for_def sic_fc_key_def sic_nat_def)
    then show ?thesis unfolding run res learn_between_conv
      by (intro exI [of _ FC_NO_BRIDGE]
          exI [of _ "case do { src \<leftarrow> bridged K d; dest \<leftarrow> bridged K e'; Some (src, dest) } of
             Some (src, dest) \<Rightarrow> ?e src dest | None \<Rightarrow> sic"]) (auto split: option.split)
  qed (auto simp: defs)
qed

lemma learn_conn_inv:
  assumes I: "fc_inv H E base s" and fresh: "\<forall>p. fc_al_conn al = Some p \<longrightarrow> p \<notin> fc_live s"
    and pr: "fc_protocol (sic_protocol sic)"
  shows "fc_inv H E base (fc_learn_conn H v al ct sic s)" and "fc_m (fc_learn_conn H v al ct sic s) = fc_m s"
proof -
  have "fc_inv H E base (fc_learn_conn H v al ct sic s) \<and> fc_m (fc_learn_conn H v al ct sic s) = fc_m s"
  proof (cases "fc_al_conn al = None \<or> \<not> fc_al_sic al")
    case True
    then show ?thesis using I by (auto simp: fc_learn_conn_def split: option.split)
  next
    case False
    then obtain p where p: "fc_al_conn al = Some p" "fc_al_sic al" "p \<notin> fc_live s" using fresh by auto
    let ?c = "fc_new_conn v ct sic"
    let ?s1 = "s\<lparr>fc_conns := (fc_conns s)(p := ?c), fc_live := insert p (fc_live s)\<rparr>"
    have T: "fc_table_inv H s" and b: "fc_books s" and d: "dual_inv E base (fc_m s)"
      using I by (simp_all add: fc_inv_def)
    have off: "{q \<in> insert p (fc_live s). offloaded (((fc_conns s)(p := ?c)) q)} = {q \<in> fc_live s. offloaded (fc_conns s q)}"
      and off': "{q \<in> fc_live s. offloaded (((fc_conns s)(p := ?c)) q)} = {q \<in> fc_live s. offloaded (fc_conns s q)}"
      using p(3) by (auto simp: fc_new_conn_def)
    have L: "fc_listed H ?s1 (fc_live s)"
      using T p(3) by (subst listed_cong [where s = s]) (auto simp: fc_table_inv_def)
    show ?thesis
    proof (cases "conn_fc_key ?c \<in> (\<lambda>q. conn_fc_key (fc_conns ?s1 q)) ` fc_live s")
      case True
      then have "fast_classifier_add_conn H p ?s1 = (False, ?s1)" by (intro add_conn_dup [OF L]) simp
      then have r: "fc_learn_conn H v al ct sic s = ?s1\<lparr>fc_live := fc_live s\<rparr>"
        using p by (simp add: fc_learn_conn_def Let_def)
      have "fc_listed H (?s1\<lparr>fc_live := fc_live s\<rparr>) (fc_live s)"
        using L by (subst listed_cong [where s = ?s1]) simp_all
      then show ?thesis unfolding r using T b d off' by (simp add: fc_inv_def fc_table_inv_def fc_books_def sent_count_def)
    next
      case False
      let ?t = "(fc_hash_add (H (conn_fc_hash (fc_conns ?s1 p))) p ?s1)\<lparr>sfe_connections_size := sfe_connections_size ?s1 + 1\<rparr>"
      have pr': "fc_protocol (sic_protocol (fc_sic (fc_conns ?s1 p)))" using pr by (simp add: fc_new_conn_def)
      have new: "conn_fc_key (fc_conns ?s1 p) \<notin> (\<lambda>q. conn_fc_key (fc_conns ?s1 q)) ` fc_live s" using False by simp
      note add = add_conn_listed [OF L p(3) pr' new]
      have r: "fc_learn_conn H v al ct sic s = ?t"
        using p add(1) by (simp add: fc_learn_conn_def Let_def)
      have "fc_live ?t = insert p (fc_live s)" "fc_conns ?t = (fc_conns s)(p := ?c)" "fc_m ?t = fc_m s" "fc_sent ?t = fc_sent s"
        "sfe_connections_size ?t = sfe_connections_size s + 1"
        by (simp_all add: fc_hash_add_def)
      then show ?thesis unfolding r using add(2) T b d off p(3)
        by (simp add: fc_inv_def fc_table_inv_def fc_books_def sent_count_def)
    qed
  qed
  then show "fc_inv H E base (fc_learn_conn H v al ct sic s)" and "fc_m (fc_learn_conn H v al ct sic s) = fc_m s"
    by blast+
qed

section \<open>Packets that leave\<close>

lemma describe_protocol: "fc_describe E K v p ctab = Inr (c, sic) \<Longrightarrow> fc_protocol (sic_protocol sic)"
  by (auto simp: fc_describe_def fc_describe_transport_def fc_protocol_def describe_ports_def describe_priority_def
      Let_def split: sum.splits if_splits)

theorem post_routing_keeps:
  assumes I: "fc_inv H E base s" and fit: "\<forall>d. dev_addr_len K d \<le> ETH_ALEN" and fresh: "hook_fresh h s"
  shows "keeps H E base s (fast_classifier_post_routing E H K h s)"
proof (cases "fc_describe E K (hk_is_v4 h) (hk_packet h) (cts (fc_m s))")
  case (Inl e)
  then show ?thesis using I by (cases e) (simp_all add: fast_classifier_post_routing_def keeps_def)
next
  case (Inr x)
  obtain ct sic where x: "x = (ct, sic)" by (cases x)
  obtain todo s1 where l: "fc_locked H K (hk_is_v4 h) sic s = (todo, s1)" by fastforce
  note k = locked_kept [OF I l]
  have run: "fast_classifier_post_routing E H K h s = fc_unlocked E H K h ct sic todo s1"
    by (simp add: fast_classifier_post_routing_def Inr x l)
  have r: "fc_refs s s1" using k(2) by (simp add: fc_refs_def kept_refs_def)
  have "keeps H E base s1 (fc_unlocked E H K h ct sic todo s1)"
  proof (cases todo)
    case FcStop
    then show ?thesis using k(1) by (simp add: fc_unlocked_def keeps_def)
  next
    case (FcOffload p)
    then show ?thesis using offload_keeps [OF k(1)] k(4) [OF FcOffload] fresh k(2)
      by (simp add: fc_unlocked_def hook_fresh_def)
  next
    case (FcRefresh p)
    then show ?thesis using refresh_keeps [OF k(1)] k(5) [OF FcRefresh] by (simp add: fc_unlocked_def)
  next
    case FcLearn
    then have s1: "s1 = s" using k(6) by simp
    let ?res = "resolve K (hk_is_v4 h) (hk_packet h) (sic_src_ip sic, sic_dest_ip sic) (sic_src_ip_xlate sic, sic_dest_ip_xlate sic)"
    obtain e sic' where d: "\<forall>devs. ?res = Some devs \<longrightarrow> entry_for K (hk_mark h) sic devs sic'"
      and run: "fc_learn H K (hk_is_v4 h) (hk_conn_alloc h) ct (hk_mark h) (hk_packet h) sic s = Some
        (case ?res of None \<Rightarrow> fast_classifier_incr_exceptions e s
         | Some devs \<Rightarrow> fc_learn_conn H (hk_is_v4 h) (hk_conn_alloc h) ct sic' s)"
      using learn_conv [OF fit] by blast
    show ?thesis
    proof (cases ?res)
      case None
      then show ?thesis using FcLearn I run by (simp add: fc_unlocked_def s1 keeps_def)
    next
      case (Some devs)
      have "fc_protocol (sic_protocol sic')"
        using d Some describe_protocol [OF Inr [unfolded x]] by (auto simp: entry_for_def)
      then show ?thesis using learn_conn_inv [OF I] fresh run Some FcLearn
        by (simp add: fc_unlocked_def s1 keeps_def fc_refs_def kept_refs_def hook_fresh_def)
    qed
  qed
  then show ?thesis unfolding run using fc_refs_trans [OF r] by (auto simp: keeps_def)
qed

section \<open>Packets that arrive\<close>

definition skb_fine :: "sk_buff \<Rightarrow> bool" where
  "skb_fine skb \<longleftrightarrow> skb_ok skb \<and> bounded skb \<and> tcp_linear skb \<and> tcp_linear6 skb"

lemma recv_from_kept:
  assumes I: "fc_inv H E base s" and N: "kernel_ok N" and skb: "skb_fine skb"
  obtains out t where "fc_recv_from E N K proto dev skb sis now s = Some (out, t)" and "fc_inv H E base t" and "fc_refs s t"
proof -
  have s4: "safe4 E (sfe_ipv4_recv E N dev skb sis now) x" and s6: "safe6 E (sfe_ipv6_recv E N dev skb sis now) y" for x y
    using recv_safe4 [OF N] recv_safe6 [OF N] skb by (simp_all add: skb_fine_def)
  consider (v4) "fc_recv_from E N K proto dev skb sis now s = fc_v4 (sfe_ipv4_recv E N dev skb sis now) s"
    | (v6) "fc_recv_from E N K proto dev skb sis now s = fc_v6 (sfe_ipv6_recv E N dev skb sis now) s"
    | (none) "fc_recv_from E N K proto dev skb sis now s = Some (NotForwarded skb, s)"
    unfolding fc_recv_from_def by presburger
  then show thesis
  proof cases
    case v4
    then show ?thesis using call_kept [OF I, of True, OF s4 s6] that by auto
  next
    case v6
    then show ?thesis using call_kept [OF I, of False, OF s4 s6] that by auto
  next
    case none
    then show ?thesis using I that by auto
  qed
qed

lemma on_cm_inv:
  "fc_inv H E base (on_cm f s) \<longleftrightarrow> fc_table_inv H s \<and> fc_books s \<and> dual_inv E base (f (fc_m s))"
proof -
  have "fc_listed H (on_cm f s) L = fc_listed H s L" for L by (rule listed_cong) simp_all
  then show ?thesis by (simp add: fc_inv_def fc_table_inv_def fc_books_def sent_count_def)
qed

theorem recv_kept:
  assumes I: "fc_inv H E base s" and N: "kernel_ok N" and skb: "skb_fine skb"
  obtains out t where "fast_classifier_recv E N K proto skb sis now s = Some (out, t)" and "fc_inv H E base t"
    and "fc_refs s t"
proof (cases "skip_to_bridge_ingress s \<and> dev_is_bridge_port K (skb_dev skb)")
  case False
  obtain out t where "fc_recv_from E N K proto (skb_dev skb) skb sis now s = Some (out, t)" "fc_inv H E base t" "fc_refs s t"
    using recv_from_kept [OF I N skb] by blast
  then show thesis using False by (intro that) (auto simp: fast_classifier_recv_def Let_def)
next
  case True
  show thesis
  proof (cases "dev_master K (skb_dev skb)")
    case None
    then show thesis using True I that by (auto simp: fast_classifier_recv_def Let_def)
  next
    case (Some d)
    let ?s1 = "on_cm (cm_dev_hold d) s"
    have "fc_inv H E (base(d := base d + 1)) ?s1"
      using I dual_hold [of E base "fc_m s" d] unfolding on_cm_inv by (simp add: fc_inv_def)
    then obtain out u where u: "fc_recv_from E N K proto d skb sis now ?s1 = Some (out, u)"
      "fc_inv H E (base(d := base d + 1)) u" "fc_refs ?s1 u" using recv_from_kept N skb by blast
    have "fc_inv H E base (on_cm (cm_dev_put d) u)"
      using u(2) dual_put [of E base d "fc_m u"] unfolding on_cm_inv by (simp add: fc_inv_def)
    moreover have "fc_refs s (on_cm (cm_dev_put d) u)" using u(3) by (simp add: fc_refs_def kept_refs_def)
    ultimately show thesis using True Some u(1) by (intro that) (auto simp: fast_classifier_recv_def Let_def)
  qed
qed

section \<open>The end of connections, marks and devices\<close>

lemma update_mark_inv [simp]:
  "fc_inv H E base (fast_classifier_update_mark H mark v s) = fc_inv H E base s"
  "fc_refs s (fast_classifier_update_mark H mark v s)" "fc_m (fast_classifier_update_mark H mark v s) = fc_m s"
proof -
  have "fc_inv H E base (upd_fc p (\<lambda>c. c\<lparr>fc_sic := (fc_sic c)\<lparr>sic_mark := m\<rparr>\<rparr>) s) = fc_inv H E base s" for p m
    by (rule upd_fc_inv) (auto intro: same_entryI)
  then show "fc_inv H E base (fast_classifier_update_mark H mark v s) = fc_inv H E base s"
    and "fc_refs s (fast_classifier_update_mark H mark v s)" and "fc_m (fast_classifier_update_mark H mark v s) = fc_m s"
    by (simp_all add: fast_classifier_update_mark_def split: option.split)
qed

lemma mark_event_keeps: "fc_inv H E base s \<Longrightarrow> keeps H E base s (fc_mark_event E H v sid mark s)"
  unfolding fc_mark_event_def Let_def by (rule keeps_bind [OF calls_keep(2)]) (auto intro!: keepsI)

lemma remove_conn_simps [simp]:
  "fc_m (fc_remove_conn p s) = fc_m s" "fc_conns (fc_remove_conn p s) = fc_conns s"
  "fc_sent (fc_remove_conn p s) = fc_sent s"
  by (simp_all add: fc_remove_conn_def fc_hash_del_def Let_def)

text \<open>Forgetting an entry leaves the books short by the announcement that is still to be made.\<close>

lemma forget_kept:
  assumes I: "fc_inv H E base s" and f: "fc_forget H v sid junk s = (msg, t)"
  shows "fc_table_inv H t" and "fc_m t = fc_m s" and "msg = None \<Longrightarrow> fc_inv H E base t"
    and "msg = Some m \<Longrightarrow> sent_count FAST_CLASSIFIER_C_OFFLOADED t =
      Suc (sent_count FAST_CLASSIFIER_C_DONE t) + card {p \<in> fc_live t. offloaded (fc_conns t p)}"
proof -
  let ?f = "fast_classifier_find_conn H (sid_src_ip sid) (sid_dest_ip sid) (sid_src_port sid) (sid_dest_port sid)
      (ucast (sid_protocol sid)) v s"
  have T: "fc_table_inv H s" and b: "fc_books s" and d: "dual_inv E base (fc_m s)" using I by (simp_all add: fc_inv_def)
  then have L: "fc_listed H s (fc_live s)" and fin: "finite (fc_live s)" by (simp_all add: fc_table_inv_def)
  have "fc_table_inv H t \<and> fc_m t = fc_m s \<and> (msg = None \<longrightarrow> fc_inv H E base t) \<and>
    (msg = Some m \<longrightarrow> sent_count FAST_CLASSIFIER_C_OFFLOADED t =
      Suc (sent_count FAST_CLASSIFIER_C_DONE t) + card {p \<in> fc_live t. offloaded (fc_conns t p)})"
  proof (cases ?f)
    case None
    then have "msg = None" "t = fast_classifier_incr_exceptions FC_CT_DESTROY_MISS s" using f by (simp_all add: fc_forget_def)
    then show ?thesis using I incr_fc_inv [of H E base FC_CT_DESTROY_MISS s] by (simp add: fc_inv_def)
  next
    case (Some p)
    have p: "p \<in> fc_live s" using Some find_conn_iff [OF L] by simp
    have msg: "msg = (if offloaded (fc_conns s p) then Some (fc_tuple v junk (fc_sic (fc_conns s p)) (fc_conns s p)) else None)"
      and t: "t = fc_remove_conn p s" using f Some by (auto simp: fc_forget_def Let_def)
    note r = remove_conn_inv [OF T p]
    let ?off = "{q \<in> fc_live s. offloaded (fc_conns s q)}"
    have off: "{q \<in> fc_live t. offloaded (fc_conns t q)} = ?off - {p}" and sent: "sent_count c t = sent_count c s" for c
      by (auto simp: t r(2) sent_count_def)
    show ?thesis
    proof (cases "offloaded (fc_conns s p)")
      case True
      then have "card ?off = Suc (card (?off - {p}))" using fin p by (intro card_Suc_Diff1 [symmetric]) auto
      then show ?thesis using True msg b r(1) unfolding off sent by (simp add: t fc_books_def)
    next
      case False
      then have "?off - {p} = ?off" by auto
      then have "fc_books t" using b unfolding fc_books_def off sent by simp
      then show ?thesis using False msg r(1) d by (simp add: t fc_inv_def)
    qed
  qed
  then show "fc_table_inv H t" and "fc_m t = fc_m s" and "msg = None \<Longrightarrow> fc_inv H E base t"
    and "msg = Some m \<Longrightarrow> sent_count FAST_CLASSIFIER_C_OFFLOADED t =
      Suc (sent_count FAST_CLASSIFIER_C_DONE t) + card {p \<in> fc_live t. offloaded (fc_conns t p)}" by blast+
qed

lemma sent_inv:
  assumes "fc_table_inv H t" and "dual_inv E base (fc_m t)"
    and "sent_count FAST_CLASSIFIER_C_OFFLOADED t =
      Suc (sent_count FAST_CLASSIFIER_C_DONE t) + card {p \<in> fc_live t. offloaded (fc_conns t p)}"
  shows "fc_inv H E base (fast_classifier_send_genl_msg nl FAST_CLASSIFIER_C_DONE m t)"
proof -
  let ?t = "fast_classifier_send_genl_msg nl FAST_CLASSIFIER_C_DONE m t"
  have "fc_listed H ?t L = fc_listed H t L" for L by (rule listed_cong) simp_all
  then show ?thesis using assms by (simp add: fc_inv_def fc_table_inv_def fc_books_def sent_count_def)
qed

theorem conntrack_event_keeps:
  assumes I: "fc_inv H E base s"
  shows "keeps H E base s (fast_classifier_conntrack_event E H sis now ev ct s)"
proof (cases ct)
  case None
  then show ?thesis using I by (simp add: fast_classifier_conntrack_event_def keeps_def)
next
  case ct: (Some c)
  show ?thesis
  proof (cases "fc_sid (ev_junk ev) (ct_orig (cts (fc_m s) c))")
    case None
    then show ?thesis using I ct by (simp add: fast_classifier_conntrack_event_def keeps_def)
  next
    case (Some x)
    obtain v sid where x: "x = (v, sid)" by (cases x)
    let ?mark = "\<lambda>s. if ev_mark ev \<and> ev_ct_mark ev \<noteq> 0 then fc_mark_event E H v sid (ev_ct_mark ev) s else Some s"
    let ?destroy = "\<lambda>s. do {
        let (msg, s) = fc_forget H v sid (ev_msg ev) s;
        s \<leftarrow> fc_destroy_rule E v sid sis now s;
        Some (case msg of None \<Rightarrow> s
          | Some fc_msg \<Rightarrow> fast_classifier_send_genl_msg (ev_netlink ev) FAST_CLASSIFIER_C_DONE fc_msg s)
      }"
    have run: "fast_classifier_conntrack_event E H sis now ev ct s =
        do { s \<leftarrow> ?mark s; if \<not> ev_destroy ev then Some s else ?destroy s }"
      by (simp add: fast_classifier_conntrack_event_def ct Some x)
    have m: "keeps H E base s (?mark s)" using mark_event_keeps [OF I] I by (simp add: keeps_def)
    have e: "keeps H E base t (?destroy t)" if J: "fc_inv H E base t" for t
    proof -
      obtain msg u where f: "fc_forget H v sid (ev_msg ev) t = (msg, u)" by fastforce
      note k = forget_kept [OF J f]
      have d: "dual_inv E base (fc_m u)" using J k(2) by (simp add: fc_inv_def)
      obtain r w where w: "(if v then fc_v4 (no_result (sfe_ipv4_destroy_rule E sid sis now)) u
          else fc_v6 (no_result (sfe_ipv6_destroy_rule E sid sis now)) u) = Some (r, w)"
        and dw: "dual_inv E base (fc_m w)" and same: "fc_same u w" and refs: "fc_refs u w"
        by (rule either_kept [OF d rule_ops_safe4(3) rule_ops_safe6(3)])
      have "fc_listed H w L = fc_listed H u L" for L using same by (intro listed_cong) (simp_all add: fc_same_def)
      then have tw: "fc_table_inv H w" using k(1) same by (simp add: fc_table_inv_def fc_same_def)
      have "fc_inv H E base (case msg of None \<Rightarrow> w
          | Some fc_msg \<Rightarrow> fast_classifier_send_genl_msg (ev_netlink ev) FAST_CLASSIFIER_C_DONE fc_msg w)"
      proof (cases msg)
        case None
        then show ?thesis using fc_same_inv [OF same k(3) dw] by simp
      next
        case (Some m)
        have "sent_count FAST_CLASSIFIER_C_OFFLOADED w =
            Suc (sent_count FAST_CLASSIFIER_C_DONE w) + card {p \<in> fc_live w. offloaded (fc_conns w p)}"
          using k(4) [OF Some] same by (simp add: fc_same_def sent_count_def)
        from sent_inv [OF tw dw this] show ?thesis by (simp add: Some)
      qed
      moreover have "fc_refs t w" using refs k(2) by (simp add: fc_refs_def kept_refs_def)
      moreover have "fc_destroy_rule E v sid sis now u = Some w" unfolding fc_destroy_rule_def w by simp
      ultimately show ?thesis by (simp add: f keeps_def fc_refs_def split: option.split)
    qed
    show ?thesis unfolding run
      by (rule keeps_bind [OF m]) (use e in \<open>auto simp: keeps_def\<close>)
  qed
qed

theorem device_events_keep:
  assumes I: "fc_inv H E base s"
  shows "keeps H E base s (fast_classifier_device_event E sis now event dev s)"
    and "keeps H E base s (fast_classifier_inet_event E sis now event dev s)"
    and "keeps H E base s (fast_classifier_inet6_event E sis now event dev s)"
proof -
  have n: "keeps H E base s (Some s)" using I by (rule keepsI) simp
  show "keeps H E base s (fast_classifier_device_event E sis now event dev s)"
    unfolding fast_classifier_device_event_def using n keeps_bind [OF calls_keep(4) [OF I] calls_keep(4)] by simp
  show "keeps H E base s (fast_classifier_inet_event E sis now event dev s)"
    "keeps H E base s (fast_classifier_inet6_event E sis now event dev s)"
    unfolding fast_classifier_inet_event_def fast_classifier_inet6_event_def using n calls_keep(4) [OF I] by simp_all
qed

section \<open>Requests, settings and reports\<close>

lemma request_inv:
  assumes "fc_inv H E base s"
  shows "fc_inv H E base (fast_classifier_offload_genl_msg H m s)" and "fc_refs s (fast_classifier_offload_genl_msg H m s)"
proof -
  have c: "fc_inv H E base (t\<lparr>offload_no_match_msgs := n\<rparr>) = fc_inv H E base t"
    "fc_inv H E base (t\<lparr>offload_msgs := n\<rparr>) = fc_inv H E base t" for t n
    by (rule fc_same_cong, simp_all add: fc_same_def)+
  have "fc_inv H E base (upd_fc p (\<lambda>c. c\<lparr>offload_permit := True\<rparr>) s) = fc_inv H E base s" for p
    by (rule upd_fc_inv) (auto intro: same_entryI)
  with assms show "fc_inv H E base (fast_classifier_offload_genl_msg H m s)"
    and "fc_refs s (fast_classifier_offload_genl_msg H m s)"
    by (simp_all add: fast_classifier_offload_genl_msg_def Let_def c fc_refs_def kept_refs_def split: option.split)
qed

text \<open>What the settings and the statistics of a bridge change does not matter to the invariant.\<close>

lemma settings_inv [simp]:
  "fc_inv H E base (s\<lparr>offload_at_pkts := n\<rparr>) = fc_inv H E base s"
  "fc_inv H E base (s\<lparr>skip_to_bridge_ingress := b\<rparr>) = fc_inv H E base s"
  "fc_inv H E base (s\<lparr>br_stats := x\<rparr>) = fc_inv H E base s"
proof -
  have L: "fc_listed H (s\<lparr>offload_at_pkts := n\<rparr>) L = fc_listed H s L" for L by (rule listed_cong) simp_all
  show "fc_inv H E base (s\<lparr>offload_at_pkts := n\<rparr>) = fc_inv H E base s"
    by (simp add: fc_inv_def fc_table_inv_def fc_books_def sent_count_def L)
qed (rule fc_same_cong, simp_all add: fc_same_def)+

lemma cts_inv: "dual_inv E base (m\<lparr>cts := f\<rparr>) = dual_inv E base m"
  by (simp add: dual_inv_def cm_rep_def)

lemma sync_rule_inv:
  assumes "fc_inv H E base s"
  shows "fc_inv H E base (fast_classifier_sync_rule K sis s)" and "fc_refs s (fast_classifier_sync_rule K sis s)"
    and "cm_v4 (fc_m (fast_classifier_sync_rule K sis s)) = cm_v4 (fc_m s)"
    and "cm_v6 (fc_m (fast_classifier_sync_rule K sis s)) = cm_v6 (fc_m s)"
proof -
  let ?br = "\<lambda>t. if skip_to_bridge_ingress s then
      br_dev_update_stats (sis_dest_dev sis) (sis_dest_new_packet_count sis) (sis_dest_new_byte_count sis)
        (br_dev_update_stats (sis_src_dev sis) (sis_src_new_packet_count sis) (sis_src_new_byte_count sis) t) else t"
  have b: "fc_inv H E base (br_dev_update_stats d p q t) = fc_inv H E base t" "fc_m (br_dev_update_stats d p q t) = fc_m t" for d p q t
    by (simp_all add: br_dev_update_stats_def)
  have i: "fc_inv H E base (on_cm f t) \<longleftrightarrow> fc_inv H E base t" if "dual_inv E base (f (fc_m t)) = dual_inv E base (fc_m t)" for f t
    unfolding on_cm_inv that by (simp add: fc_inv_def)
  have "fc_inv H E base (fast_classifier_sync_rule K sis s) \<and> fc_refs s (fast_classifier_sync_rule K sis s) \<and>
    cm_v4 (fc_m (fast_classifier_sync_rule K sis s)) = cm_v4 (fc_m s) \<and>
    cm_v6 (fc_m (fast_classifier_sync_rule K sis s)) = cm_v6 (fc_m s)"
  proof (cases "nf_conntrack_find_get K (sync_tuple sis)")
    case None
    then show ?thesis using assms by (simp add: fast_classifier_sync_rule_def b fc_refs_def kept_refs_def)
  next
    case (Some c)
    let ?f = "\<lambda>m. nf_ct_put c ((nf_ct_get_ref c m)\<lparr>cts := (cts (nf_ct_get_ref c m))(c := fc_sync_conn sis (cts (nf_ct_get_ref c m) c))\<rparr>)"
    have run: "fast_classifier_sync_rule K sis s = on_cm ?f (?br s)"
      by (simp add: fast_classifier_sync_rule_def Some Let_def on_cm_def)
    have "dual_inv E base (?f m) = dual_inv E base m" for m
      by (simp add: dual_inv_def cm_rep_def nf_ct_put_def nf_ct_get_ref_def)
    then show ?thesis unfolding run using assms
      by (simp add: i b fc_refs_def kept_refs_def nf_ct_put_def nf_ct_get_ref_def)
  qed
  then show "fc_inv H E base (fast_classifier_sync_rule K sis s)" and "fc_refs s (fast_classifier_sync_rule K sis s)"
    and "cm_v4 (fc_m (fast_classifier_sync_rule K sis s)) = cm_v4 (fc_m s)"
    and "cm_v6 (fc_m (fast_classifier_sync_rule K sis s)) = cm_v6 (fc_m s)" by blast+
qed

lemma reports_inv:
  "fc_inv H E base t \<Longrightarrow> fc_inv H E base (fold (fast_classifier_sync_rule K) ms t) \<and>
     fc_refs t (fold (fast_classifier_sync_rule K) ms t)"
proof (induction ms arbitrary: t)
  case (Cons m ms)
  let ?u = "fast_classifier_sync_rule K m t"
  have "fc_refs t ?u" by (rule sync_rule_inv(2) [OF Cons.prems])
  with Cons.IH [OF sync_rule_inv(1) [OF Cons.prems], of K m] show ?case
    by (auto intro: fc_refs_trans [of t ?u])
qed simp

lemma report_inv: "fc_inv H E base t \<Longrightarrow> fc_inv H E base (fc_report K s t) \<and> fc_refs t (fc_report K s t)"
  by (simp only: fc_report_def Let_def reports_inv)

end
