(* ===== verification/Fc_Life.thy ===== *)
theory Fc_Life
  imports Fc_Hooks
begin

text \<open>
  The fast classifier from its start to its end. The steps are its entry points and the timers of the
  engines, each followed by the reports the engines have made; a run is any sequence of them.
\<close>

section \<open>Timers\<close>

definition fc_tick4 :: "sfe_connection_sync \<Rightarrow> u64 \<Rightarrow> fast_classifier \<Rightarrow> fast_classifier option" where
  "fc_tick4 sis now s = map_option snd (fc_v4 (no_result (sfe_ipv4_periodic_sync sis now)) s)"

definition fc_tick6 :: "sfe_connection_sync \<Rightarrow> u64 \<Rightarrow> fast_classifier \<Rightarrow> fast_classifier option" where
  "fc_tick6 sis now s = map_option snd (fc_v6 (no_result (sfe_ipv6_periodic_sync sis now)) s)"

lemma tick_safe4: "safe4 E (no_result (sfe_ipv4_periodic_sync sis now)) s"
proof (rule safe4_no_result)
  fix base A
  assume I: "engine_inv E base s A []"
  obtain t where t: "sfe_ipv4_periodic_sync sis now s = Some t" using periodic_sync_ends [OF I] by blast
  with periodic_sync_settled [OF I t]
  show "\<exists>t B. sfe_ipv4_periodic_sync sis now s = Some t \<and> engine_inv E base t B []" by blast
qed

lemma tick_safe6: "safe6 E (no_result (sfe_ipv6_periodic_sync sis now)) s"
  by (rule safe6_no_result, erule periodic_sync_engine6 [where sis = sis and now = now]) blast

lemma ticks_keep:
  assumes I: "fc_inv H E base s"
  shows "keeps H E base s (fc_tick4 sis now s)" and "keeps H E base s (fc_tick6 sis now s)"
proof -
  show "keeps H E base s (fc_tick4 sis now s)" unfolding fc_tick4_def
    by (rule call_kept [OF I, of True "no_result (sfe_ipv4_periodic_sync sis now)"
          "no_result (sfe_ipv6_periodic_sync sis now)", OF tick_safe4]) (auto simp: keeps_def)
  show "keeps H E base s (fc_tick6 sis now s)" unfolding fc_tick6_def
    by (rule call_kept [OF I, of False "no_result (sfe_ipv4_periodic_sync sis now)"
          "no_result (sfe_ipv6_periodic_sync sis now)", OF _ tick_safe6]) (auto simp: keeps_def)
qed

section \<open>Steps and runs\<close>

inductive fc_step ::
  "sfe_env \<Rightarrow> kernel \<Rightarrow> cm_kernel \<Rightarrow> (u32 \<Rightarrow> u32) \<Rightarrow> fast_classifier \<Rightarrow> fast_classifier \<Rightarrow> bool" for E N K H where
  fc_leaves: "fast_classifier_post_routing E H K h s = Some t \<Longrightarrow> hook_fresh h s \<Longrightarrow>
    fc_step E N K H s (fc_report K s t)"
| fc_arrives: "fast_classifier_recv E N K proto skb sis now s = Some (out, t) \<Longrightarrow> skb_fine skb \<Longrightarrow>
    fc_step E N K H s (fc_report K s t)"
| fc_event: "fast_classifier_conntrack_event E H sis now ev ct s = Some t \<Longrightarrow> fc_step E N K H s (fc_report K s t)"
| fc_device: "fast_classifier_device_event E sis nows event dev s = Some t \<Longrightarrow> fc_step E N K H s (fc_report K s t)"
| fc_inet: "fast_classifier_inet_event E sis nows event dev s = Some t \<Longrightarrow> fc_step E N K H s (fc_report K s t)"
| fc_inet6: "fast_classifier_inet6_event E sis nows event dev s = Some t \<Longrightarrow> fc_step E N K H s (fc_report K s t)"
| fc_request: "fc_step E N K H s (fast_classifier_offload_genl_msg H m s)"
| fc_at_pkts: "fc_step E N K H s (snd (fast_classifier_set_offload_at_pkts ret new count s))"
| fc_skip: "fc_step E N K H s (snd (fast_classifier_set_skip_bridge_ingress ret new count s))"
| fc_timer4: "fc_tick4 sis now s = Some t \<Longrightarrow> fc_step E N K H s (fc_report K s t)"
| fc_timer6: "fc_tick6 sis now s = Some t \<Longrightarrow> fc_step E N K H s (fc_report K s t)"
| fc_conntrack: "fc_step E N K H s (on_cm (\<lambda>m. m\<lparr>cts := f\<rparr>) s)"

inductive fc_run ::
  "sfe_env \<Rightarrow> kernel \<Rightarrow> cm_kernel \<Rightarrow> (u32 \<Rightarrow> u32) \<Rightarrow> fast_classifier \<Rightarrow> fast_classifier \<Rightarrow> bool" for E N K H s where
  fc_none: "fc_run E N K H s s"
| fc_more: "fc_run E N K H s t \<Longrightarrow> fc_step E N K H t u \<Longrightarrow> fc_run E N K H s u"

lemma keeps_report:
  assumes "keeps H E base s r" and "r = Some t"
  shows "fc_inv H E base (fc_report K s t) \<and> fc_refs s (fc_report K s t)"
proof -
  have t: "fc_inv H E base t" "fc_refs s t" using assms by (simp_all add: keeps_def)
  with report_inv [OF t(1), of K s] show ?thesis by (auto intro: fc_refs_trans)
qed

theorem fc_step_inv:
  assumes "fc_step E N K H s t" and I: "fc_inv H E base s" and fit: "\<forall>d. dev_addr_len K d \<le> ETH_ALEN"
    and N: "kernel_ok N"
  shows "fc_inv H E base t \<and> fc_refs s t"
  using assms(1)
proof cases
  case (fc_leaves h u)
  then show ?thesis using keeps_report [OF post_routing_keeps [OF I fit fc_leaves(3)]] by simp
next
  case (fc_arrives proto skb sis now out u)
  obtain out' u' where "fast_classifier_recv E N K proto skb sis now s = Some (out', u')" "fc_inv H E base u'" "fc_refs s u'"
    by (rule recv_kept [OF I N fc_arrives(3)])
  then have "keeps H E base s (Some u)" using fc_arrives(2) by (simp add: keeps_def)
  from keeps_report [OF this refl] fc_arrives(1) show ?thesis by simp
next
  case (fc_event sis now ev ct u)
  then show ?thesis using keeps_report [OF conntrack_event_keeps [OF I]] by simp
next
  case (fc_device sis nows event dev u)
  then show ?thesis using keeps_report [OF device_events_keep(1) [OF I]] by simp
next
  case (fc_inet sis nows event dev u)
  then show ?thesis using keeps_report [OF device_events_keep(2) [OF I]] by simp
next
  case (fc_inet6 sis nows event dev u)
  then show ?thesis using keeps_report [OF device_events_keep(3) [OF I]] by simp
next
  case (fc_request m)
  then show ?thesis using request_inv [OF I] by simp
next
  case (fc_at_pkts ret new count)
  then show ?thesis using I by (simp add: fast_classifier_set_offload_at_pkts_def fc_refs_def kept_refs_def)
next
  case (fc_skip ret new count)
  then show ?thesis using I by (simp add: fast_classifier_set_skip_bridge_ingress_def fc_refs_def kept_refs_def)
next
  case (fc_timer4 sis now u)
  then show ?thesis using keeps_report [OF ticks_keep(1) [OF I]] by simp
next
  case (fc_timer6 sis now u)
  then show ?thesis using keeps_report [OF ticks_keep(2) [OF I]] by simp
next
  case (fc_conntrack f)
  have "dual_inv E base (fc_m s)" "fc_table_inv H s" "fc_books s" using I by (simp_all add: fc_inv_def)
  then show ?thesis unfolding fc_conntrack on_cm_inv by (simp add: cts_inv fc_refs_def kept_refs_def)
qed

lemma fc_run_inv:
  assumes "fc_run E N K H s t" and "fc_inv H E base s" and "\<forall>d. dev_addr_len K d \<le> ETH_ALEN" and "kernel_ok N"
  shows "fc_inv H E base t \<and> fc_refs s t"
  using assms(1)
proof induction
  case fc_none
  then show ?case using assms(2) by simp
next
  case (fc_more t u)
  then show ?case
    using fc_step_inv [OF fc_more.hyps(2) _ assms(3,4)] by (auto intro: fc_refs_trans [of s t])
qed

section \<open>Start and end of the module\<close>

datatype fc_resource =
    FcDir | FcOffloadAtPktsFile | FcDebugInfoFile | FcSkipBridgeFile | FcExceptionsFile | FcDevNotifier
  | FcInetNotifier | FcInet6Notifier | FcPostRoutingHooks | FcConntrackNotifier | FcGenlFamily | FcReceiveHook

text \<open>What the kernel answers during the initialisation.\<close>

record fc_init_results =
  kobject_ok :: bool
  at_pkts_file :: int
  debug_info_file :: int
  skip_bridge_file :: int
  exceptions_file :: int
  hooks_result :: int
  notifier_result :: int
  genl_result :: int

text \<open>The static variables of a module that has just been loaded.\<close>

definition fc_load :: "fast_classifier \<Rightarrow> fast_classifier" where
  "fc_load mem = mem\<lparr>fc_live := {}, fc_conn_ht := (\<lambda>_. []), sfe_connections_size := 0, fc_exceptions := (\<lambda>_. 0),
     offload_at_pkts := 128, skip_to_bridge_ingress := False, offload_msgs := 0, offload_no_match_msgs := 0,
     offloaded_msgs := 0, done_msgs := 0, offloaded_fail_msgs := 0, done_fail_msgs := 0, fc_sent := [], br_stats := []\<rparr>"

definition fc_register_callbacks :: "nat option \<Rightarrow> fast_classifier \<Rightarrow> fast_classifier" where
  "fc_register_callbacks cb = on_cm (\<lambda>m. m\<lparr>cm_v4 := sfe_ipv4_register_sync_rule_callback cb (cm_v4 m),
     cm_v6 := sfe_ipv6_register_sync_rule_callback cb (cm_v6 m)\<rparr>)"

text \<open>\<open>kobject_put\<close> removes the directory with the files still in it.\<close>

definition fc_kobject_put :: "fc_resource set \<Rightarrow> fc_resource set" where
  "fc_kobject_put held = held - {FcDir, FcOffloadAtPktsFile, FcDebugInfoFile, FcSkipBridgeFile, FcExceptionsFile}"

text \<open>The labels at which the initialisation gives up, and what each of them still releases.\<close>

definition fc_exit3 :: "fc_resource set \<Rightarrow> fc_resource set" where
  "fc_exit3 held = fc_kobject_put (held - {FcInetNotifier} - {FcInet6Notifier} - {FcDevNotifier} -
     {FcOffloadAtPktsFile} - {FcDebugInfoFile} - {FcSkipBridgeFile} - {FcExceptionsFile})"

definition fc_exit4 :: "fc_resource set \<Rightarrow> fc_resource set" where
  "fc_exit4 held = fc_exit3 (held - {FcPostRoutingHooks})"

definition fc_exit5 :: "fc_resource set \<Rightarrow> fc_resource set" where
  "fc_exit5 held = fc_exit4 (held - {FcConntrackNotifier})"

text \<open>The files of the directory, in the order they are created; each failure removes those before it.\<close>

definition fc_create_files :: "fc_init_results \<Rightarrow> fc_resource set \<Rightarrow> int \<times> fc_resource set" where
  "fc_create_files R held =
     (if at_pkts_file R \<noteq> 0 then (at_pkts_file R, fc_kobject_put held)
      else
        (let held = insert FcOffloadAtPktsFile held
         in if debug_info_file R \<noteq> 0 then (debug_info_file R, fc_kobject_put (held - {FcOffloadAtPktsFile}))
            else
              (let held = insert FcDebugInfoFile held
               in if skip_bridge_file R \<noteq> 0
                  then (skip_bridge_file R, fc_kobject_put (held - {FcOffloadAtPktsFile} - {FcDebugInfoFile}))
                  else
                    (let held = insert FcSkipBridgeFile held
                     in if exceptions_file R \<noteq> 0
                        then (exceptions_file R,
                          fc_kobject_put (held - {FcOffloadAtPktsFile} - {FcDebugInfoFile} - {FcSkipBridgeFile}))
                        else (0, insert FcExceptionsFile held)))))"

definition fast_classifier_init ::
  "cm_config \<Rightarrow> fc_init_results \<Rightarrow> nat \<Rightarrow> fast_classifier \<Rightarrow> int \<times> fc_resource set \<times> fast_classifier" where
  "fast_classifier_init C R sync_rule s =
     (let s = s\<lparr>fc_conn_ht := (\<lambda>_. [])\<rparr>
      in if \<not> kobject_ok R then (-1, {}, s)
         else case fc_create_files R {FcDir} of (result, held) \<Rightarrow>
           (if result \<noteq> 0 then (result, held, s)
            else
              (let held = insert FcInet6Notifier (insert FcInetNotifier (insert FcDevNotifier held))
               in if hooks_result R < 0 then (hooks_result R, fc_exit3 held, s)
                  else
                    (let held = insert FcPostRoutingHooks held
                     in if \<not> conntrack_chain_events C \<and> notifier_result R < 0
                        then (notifier_result R, fc_exit4 held, s)
                        else
                          (let held = insert FcConntrackNotifier held
                           in if genl_result R \<noteq> 0 then (genl_result R, fc_exit5 held, s)
                              else (0, insert FcReceiveHook (insert FcGenlFamily held),
                                fc_register_callbacks (Some sync_rule) s))))))"

definition fast_classifier_exit ::
  "sfe_env \<Rightarrow> sfe_connection_sync \<Rightarrow> (nat \<Rightarrow> u64) \<Rightarrow> fc_resource set \<times> fast_classifier \<Rightarrow>
   (fc_resource set \<times> fast_classifier) option" where
  "fast_classifier_exit E sis now x = do {
     let s = fc_register_callbacks None (snd x);
     let held = fst x - {FcReceiveHook};
     s \<leftarrow> fc_destroy_all E True None sis now s;
     s \<leftarrow> fc_destroy_all E False None sis now s;
     let held = held - {FcGenlFamily} - {FcConntrackNotifier} - {FcPostRoutingHooks} - {FcInet6Notifier} -
       {FcInetNotifier} - {FcDevNotifier};
     Some (fc_kobject_put held, s)
   }"

text \<open>Both engines have started before; their state is zero, the rest of the memory is arbitrary.\<close>

definition fc_start :: "fast_classifier \<Rightarrow> fast_classifier" where
  "fc_start mem = fc_load (on_cm dual_start mem)"

lemma register_dual:
  assumes "dual_inv E base m"
  shows "dual_inv E base (m\<lparr>cm_v4 := sfe_ipv4_register_sync_rule_callback cb (cm_v4 m),
     cm_v6 := sfe_ipv6_register_sync_rule_callback cb (cm_v6 m)\<rparr>)"
proof -
  obtain A own F where "engine_inv E (\<lambda>d. base d + own d) (cm_v4 m) A []" "engine6_rep E own (cm_v6 m) F"
    using assms by (auto simp: dual_inv_def cm_rep_def)
  from register_engine [OF this(1), of cb] engine6_registered [OF this(2), of cb] show ?thesis
    unfolding dual_inv_def cm_rep_def by fastforce
qed

lemma register_inv: "fc_inv H E base s \<Longrightarrow> fc_inv H E base (fc_register_callbacks cb s)"
  unfolding fc_register_callbacks_def on_cm_inv using register_dual by (simp add: fc_inv_def)

lemma dual_start_dual: "dual_inv E (dev_refcnt (cm_v4 m)) (dual_start m)"
proof -
  have "engine_inv E (dev_refcnt (cm_v4 m)) (engine_start (cm_v4 m)) abs_start []" by (rule engine_start_inv)
  moreover have "engine_inv6 E (\<lambda>_. 0) ((engine_start6 (cm_v6 m))\<lparr>dev_refcnt6 := \<lambda>_. 0\<rparr>) abs_start6 []"
    by (rule engine_rebase6 [OF engine_start_inv6]) (simp add: abs_start6_def)
  then have "engine6_rep E (\<lambda>_. 0) (engine_start6 (cm_v6 m)) (flow_keys6 (engine_start6 (cm_v6 m)) abs_start6)"
    unfolding engine6_rep_def by blast
  ultimately show ?thesis unfolding dual_inv_def cm_rep_def dual_start_def
    by (intro exI [of _ "flow_map (engine_start (cm_v4 m)) abs_start"] exI [of _ abs_start] exI [of _ "\<lambda>_. 0"]
        exI [of _ "flow_keys6 (engine_start6 (cm_v6 m)) abs_start6"]) simp
qed

lemma fc_start_inv: "fc_inv H E (dev_refcnt (cm_v4 (fc_m mem))) (fc_start mem)"
  using dual_start_dual [of E "fc_m mem"]
  by (simp add: fc_start_def fc_load_def fc_inv_def fc_table_inv_def fc_listed_def fc_books_def sent_count_def)

text \<open>The initialisation succeeds with everything or fails with nothing.\<close>

lemmas fc_init_defs = fast_classifier_init_def fc_create_files_def fc_exit3_def fc_exit4_def fc_exit5_def
  fc_kobject_put_def Let_def

lemma fc_resources_all: "x \<in> {FcDir, FcOffloadAtPktsFile, FcDebugInfoFile, FcSkipBridgeFile, FcExceptionsFile,
    FcDevNotifier, FcInetNotifier, FcInet6Notifier, FcPostRoutingHooks, FcConntrackNotifier, FcGenlFamily, FcReceiveHook}"
  by (cases x) simp_all

lemma fc_init_outcome:
  assumes "fast_classifier_init C R cb s = (result, held, t)"
  shows "result = 0 \<and> held = UNIV \<and> t = fc_register_callbacks (Some cb) (s\<lparr>fc_conn_ht := (\<lambda>_. [])\<rparr>) \<or>
    result \<noteq> 0 \<and> held = {} \<and> t = s\<lparr>fc_conn_ht := (\<lambda>_. [])\<rparr>"
proof (cases "result = 0")
  case True
  then have "held = {FcDir, FcOffloadAtPktsFile, FcDebugInfoFile, FcSkipBridgeFile, FcExceptionsFile,
    FcDevNotifier, FcInetNotifier, FcInet6Notifier, FcPostRoutingHooks, FcConntrackNotifier, FcGenlFamily, FcReceiveHook}"
    "t = fc_register_callbacks (Some cb) (s\<lparr>fc_conn_ht := (\<lambda>_. [])\<rparr>)"
    using assms by (auto simp: fc_init_defs split: if_splits)
  then show ?thesis using True fc_resources_all by auto
next
  case False
  then show ?thesis using assms by (auto simp: fc_init_defs split: if_splits)
qed

text \<open>The end: the engines are empty and all references are back, but no entry of the table is freed.\<close>

lemma destroy_all_same:
  "fc_destroy_all E v dev sis now s = Some t \<Longrightarrow> fc_live t = fc_live s \<and> fc_conns t = fc_conns s \<and> fc_sent t = fc_sent s"
  by (auto simp: fc_destroy_all_def fc_v4_def fc_v6_def no_result_def Let_def bind_eq_Some_conv split: if_splits)

theorem fc_exit_effect:
  assumes I: "fc_inv H E base s"
  obtains t where "fast_classifier_exit E sis now (UNIV, s) = Some ({}, t)" and "dev_refcnt (cm_v4 (fc_m t)) = base"
    and "conn_live (cm_v4 (fc_m t)) = {}" and "cm_live (cm_v4 (fc_m t)) = {}"
    and "conn_live6 (cm_v6 (fc_m t)) = {}" and "cm_live6 (cm_v6 (fc_m t)) = {}"
    and "fc_live t = fc_live s" and "fc_refs s t"
proof -
  let ?s = "fc_register_callbacks None s"
  have J: "fc_inv H E base ?s" by (rule register_inv [OF I])
  then obtain M F where R: "cm_rep E (engine6_rep E) base [] (fc_m ?s) M F"
    by (auto simp: fc_inv_def dual_inv_def)
  obtain u where u: "fc_destroy_all E True None sis now ?s = Some u" "fc_inv H E base u" "fc_refs ?s u"
    using calls_keep(4) [OF J, of True None sis now] by (auto simp: keeps_def)
  obtain t where t: "fc_destroy_all E False None sis now u = Some t" "fc_inv H E base t" "fc_refs u t"
    using calls_keep(4) [OF u(2), of False None sis now] by (auto simp: keeps_def)
  obtain m where m: "cm_destroy_v4 E None sis now (fc_m ?s) = Some m"
    and R4: "cm_rep E (engine6_rep E) base [] m (without_dev None M) F"
    by (rule destroy_all_v4_rep [OF R])
  have um: "fc_m u = m"
    using u(1) m by (auto simp: fc_destroy_all_def fc_v4_def no_result_def cm_destroy_v4_def bind_eq_Some_conv)
  obtain N :: kernel and alloc :: "sfe_ipv6 \<Rightarrow> allocation" and j :: u64 where True by blast
  let ?V = "engine6_ops E N alloc j sis now"
  obtain F' where R6: "cm_rep E (engine6_rep E) base [] (cm_destroy_v6 ?V None m) (without_dev None M) F'" and F': "F' = {}"
    by (rule v6.destroy_v6_rep [OF R4, where dev = None]) blast
  have "fc_m t = cm_destroy_v6 ?V None m"
    using t(1) um by (auto simp: fc_destroy_all_def fc_v6_def no_result_def cm_destroy_v6_def engine6_ops_def on_refs6_def
        Let_def bind_eq_Some_conv split: option.splits)
  moreover have "without_dev None M = Map.empty" by simp
  ultimately have E': "cm_rep E (engine6_rep E) base [] (fc_m t) Map.empty {}" using R6 F' by simp
  have held: "fc_kobject_put (UNIV - {FcReceiveHook} - {FcGenlFamily} - {FcConntrackNotifier} - {FcPostRoutingHooks} -
      {FcInet6Notifier} - {FcInetNotifier} - {FcDevNotifier}) = {}"
    using fc_resources_all by (auto simp: fc_kobject_put_def)
  have "fast_classifier_exit E sis now (UNIV, s) = Some ({}, t)"
    unfolding fast_classifier_exit_def Let_def using u(1) t(1) held by simp
  moreover have "fc_live t = fc_live s"
    using destroy_all_same [OF u(1)] destroy_all_same [OF t(1)] by (simp add: fc_register_callbacks_def)
  moreover have "fc_refs s t" using u(3) t(3) by (simp add: fc_refs_def kept_refs_def fc_register_callbacks_def)
  ultimately show thesis using dual_empty [OF E'] by (intro that) simp_all
qed

end
