(* ===== verification/Fc_Rules.thy ===== *)
theory Fc_Rules
  imports Fc_Life
begin

text \<open>
  The entries of the fast classifier and the rules of the engines: when an entry becomes a rule, that what
  user space is told as offloaded has a rule, and that the end of a connection ends both.
\<close>

section \<open>Rules, as the engines find them\<close>

definition fc_engine6 :: "fast_classifier \<Rightarrow> sfe_ipv6" where
  "fc_engine6 s = (cm_v6 (fc_m s))\<lparr>dev_refcnt6 := dev_refcnt (cm_v4 (fc_m s))\<rparr>"

definition fc_has_rule :: "sfe_env \<Rightarrow> fc_key \<Rightarrow> fast_classifier \<Rightarrow> bool" where
  "fc_has_rule E k s =
     (case (case k of
             Fc4 proto (saddr, sport) (daddr, dport) \<Rightarrow>
               sfe_ipv4_find_sfe_ipv4_connection E (ucast proto) saddr sport daddr dport (cm_v4 (fc_m s))
           | Fc6 proto (saddr, sport) (daddr, dport) \<Rightarrow>
               sfe_ipv6_find_connection E (ucast proto) saddr sport daddr dport (fc_engine6 s)) of
        Some (Some _) \<Rightarrow> True
      | _ \<Rightarrow> False)"

lemma has_rule4:
  assumes I: "engine_inv E base (cm_v4 (fc_m s)) A []"
  shows "fc_has_rule E (Fc4 pr (a, p) (b, q)) s \<longleftrightarrow>
    (ucast pr, a, p, b, q) \<in> conn_key (cm_v4 (fc_m s)) ` set (connl A)"
proof (rule find_conn_raw [OF engine_table [OF I], of "ucast pr" a p b q])
  fix r
  assume "sfe_ipv4_find_sfe_ipv4_connection E (ucast pr) a p b q (cm_v4 (fc_m s)) = Some r"
    and "\<And>c. r = Some c \<Longrightarrow> c \<in> set (connl A) \<and> conn_key (cm_v4 (fc_m s)) c = (ucast pr, a, p, b, q)"
    and "r = None \<Longrightarrow> (ucast pr, a, p, b, q) \<notin> conn_key (cm_v4 (fc_m s)) ` set (connl A)"
  then show ?thesis by (cases r) (auto simp: fc_has_rule_def intro: rev_image_eqI)
qed

lemma has_rule6:
  assumes I: "engine_inv6 E base (fc_engine6 s) A []"
  shows "fc_has_rule E (Fc6 pr (a, p) (b, q)) s \<longleftrightarrow>
    (ucast pr, a, p, b, q) \<in> conn_key6 (fc_engine6 s) ` set (connl6 A)"
proof (rule find_conn_raw6 [OF engine_table6 [OF I], of "ucast pr" a p b q])
  fix r
  assume "sfe_ipv6_find_connection E (ucast pr) a p b q (fc_engine6 s) = Some r"
    and "\<And>c. r = Some c \<Longrightarrow> c \<in> set (connl6 A) \<and> conn_key6 (fc_engine6 s) c = (ucast pr, a, p, b, q)"
    and "r = None \<Longrightarrow> (ucast pr, a, p, b, q) \<notin> conn_key6 (fc_engine6 s) ` set (connl6 A)"
  then show ?thesis by (cases r) (auto simp: fc_has_rule_def intro: rev_image_eqI)
qed

lemma protocol_round: "fc_protocol w \<Longrightarrow> ucast (ucast w :: u8) = w"
  by (auto simp: fc_protocol_def IPPROTO_TCP_def IPPROTO_UDP_def)

text \<open>Creation succeeds, or finds the rule there, exactly under these conditions.\<close>

definition rule_possible :: "sfe_env \<Rightarrow> bool \<Rightarrow> sfe_connection_create \<Rightarrow> allocation \<Rightarrow> fast_classifier \<Rightarrow> bool" where
  "rule_possible E v sic al s \<longleftrightarrow>
     nd_registered (netdev E (sic_src_dev sic)) \<and> nd_registered (netdev E (sic_dest_dev sic)) \<and>
     (fc_has_rule E (sic_fc_key v sic) s \<or> al_conn al \<noteq> None \<and> al_original al \<noteq> None \<and> al_reply al \<noteq> None)"

lemma create_rule_effect4:
  assumes I: "engine_inv E base (cm_v4 (fc_m s)) A []" and pr: "fc_protocol (sic_protocol sic)"
    and fresh: "alloc_fresh al (cm_v4 (fc_m s))" and c: "fc_create_rule E True sic al j s = Some (ret, t)"
  shows "(ret = CREATED \<or> ret = EADDRINUSE \<longleftrightarrow> rule_possible E True sic al s) \<and>
    (ret = CREATED \<or> ret = EADDRINUSE \<longrightarrow> fc_has_rule E (sic_fc_key True sic) t)"
proof (rule create_rule [OF I fresh, where sic = sic and j = j])
  fix res u B
  assume u: "sfe_ipv4_create_rule E sic al j (cm_v4 (fc_m s)) = Some (res, u)" and J: "engine_inv E base u B []"
    and res: "res = create_outcome E sic al (conn_key (cm_v4 (fc_m s)) ` set (connl A))"
    and no: "res \<noteq> CREATED \<Longrightarrow> B = A \<and> conn_key u = conn_key (cm_v4 (fc_m s))"
    and yes: "res = CREATED \<Longrightarrow> \<exists>c. al_conn al = Some c \<and> connl B = connl A @ [c] \<and> conn_key u c = sic_key sic \<and>
       (\<forall>d\<in>set (connl A). conn_key u d = conn_key (cm_v4 (fc_m s)) d)"
  have ret: "ret = res" and t: "cm_v4 (fc_m t) = u" using c u by (auto simp: fc_create_rule_def fc_v4_def)
  have k: "fc_has_rule E (sic_fc_key True sic) s \<longleftrightarrow> sic_key sic \<in> conn_key (cm_v4 (fc_m s)) ` set (connl A)"
    using has_rule4 [OF I] by (simp add: sic_fc_key_def tuple_fc_key_def sic_key_def protocol_round [OF pr])
  have kt: "fc_has_rule E (sic_fc_key True sic) t \<longleftrightarrow> sic_key sic \<in> conn_key u ` set (connl B)"
    using has_rule4 [of E base t B] J by (simp add: sic_fc_key_def tuple_fc_key_def sic_key_def protocol_round [OF pr] t)
  have "sic_key sic \<in> conn_key u ` set (connl B)" if "res = CREATED"
    using yes [OF that] by (auto intro: rev_image_eqI)
  then show ?thesis unfolding ret using no res kt k
    by (simp add: create_outcome_def rule_possible_def devs_registered_def split: if_splits)
qed

lemma create_rule_effect6:
  assumes I: "engine_inv6 E base (fc_engine6 s) A []" and pr: "fc_protocol (sic_protocol sic)"
    and fresh: "alloc_fresh6 al (cm_v6 (fc_m s))" and c: "fc_create_rule E False sic al j s = Some (ret, t)"
  shows "(ret = CREATED \<or> ret = EADDRINUSE \<longleftrightarrow> rule_possible E False sic al s) \<and>
    (ret = CREATED \<or> ret = EADDRINUSE \<longrightarrow> fc_has_rule E (sic_fc_key False sic) t)"
proof -
  have f: "alloc_fresh6 al (fc_engine6 s)" using fresh by (auto simp: fc_engine6_def alloc_fresh6_def split: option.splits)
  show ?thesis
  proof (rule create_rule6 [OF I f, where sic = sic and j = j])
    fix res u B
    assume u: "sfe_ipv6_create_rule E sic al j (fc_engine6 s) = Some (res, u)" and J: "engine_inv6 E base u B []"
      and res: "res = create_outcome6 E sic al (conn_key6 (fc_engine6 s) ` set (connl6 A))"
      and no: "res \<noteq> CREATED \<Longrightarrow> B = A \<and> conn_key6 u = conn_key6 (fc_engine6 s)"
      and yes: "res = CREATED \<Longrightarrow> \<exists>c. al_conn al = Some c \<and> connl6 B = connl6 A @ [c] \<and> conn_key6 u c = sic_key6 sic \<and>
         (\<forall>d\<in>set (connl6 A). conn_key6 u d = conn_key6 (fc_engine6 s) d)"
    have ret: "ret = res" and t: "fc_engine6 t = u"
      using c u by (auto simp: fc_create_rule_def fc_v6_def fc_engine6_def Let_def)
    have k: "fc_has_rule E (sic_fc_key False sic) s \<longleftrightarrow> sic_key6 sic \<in> conn_key6 (fc_engine6 s) ` set (connl6 A)"
      using has_rule6 [OF I] by (simp add: sic_fc_key_def tuple_fc_key_def sic_key6_def protocol_round [OF pr])
    have kt: "fc_has_rule E (sic_fc_key False sic) t \<longleftrightarrow> sic_key6 sic \<in> conn_key6 u ` set (connl6 B)"
      using has_rule6 [of E base t B] J by (simp add: sic_fc_key_def tuple_fc_key_def sic_key6_def protocol_round [OF pr] t)
    have "sic_key6 sic \<in> conn_key6 u ` set (connl6 B)" if "res = CREATED"
      using yes [OF that] by (auto intro: rev_image_eqI)
    then show ?thesis unfolding ret using no res kt k
      by (simp add: create_outcome6_def rule_possible_def devs_registered6_def split: if_splits)
  qed
qed

lemma dual_engines:
  assumes "dual_inv E base (fc_m s)"
  obtains base4 A base6 B where "engine_inv E base4 (cm_v4 (fc_m s)) A []" and "engine_inv6 E base6 (fc_engine6 s) B []"
proof -
  obtain base4 A where "engine_inv E base4 (cm_v4 (fc_m s)) A []" by (rule dual_v4 [OF assms])
  moreover obtain base6 B where "engine_inv6 E base6 (fc_engine6 s) B []"
    by (rule dual_v6 [OF assms, folded fc_engine6_def])
  ultimately show thesis by (rule that)
qed

lemma create_rule_effect:
  assumes I: "fc_inv H E base s" and pr: "fc_protocol (sic_protocol sic)"
    and fresh: "if v then alloc_fresh al (cm_v4 (fc_m s)) else alloc_fresh6 al (cm_v6 (fc_m s))"
    and c: "fc_create_rule E v sic al j s = Some (ret, t)"
  shows "ret = CREATED \<or> ret = EADDRINUSE \<longleftrightarrow> rule_possible E v sic al s"
    and "ret = CREATED \<or> ret = EADDRINUSE \<Longrightarrow> fc_has_rule E (sic_fc_key v sic) t"
proof -
  have "dual_inv E base (fc_m s)" using I by (simp add: fc_inv_def)
  then obtain base4 A base6 B where J: "engine_inv E base4 (cm_v4 (fc_m s)) A []"
    and J6: "engine_inv6 E base6 (fc_engine6 s) B []" by (rule dual_engines)
  have "(ret = CREATED \<or> ret = EADDRINUSE \<longleftrightarrow> rule_possible E v sic al s) \<and>
      (ret = CREATED \<or> ret = EADDRINUSE \<longrightarrow> fc_has_rule E (sic_fc_key v sic) t)"
  proof (cases v)
    case True
    then have v: "v = True" by simp
    show ?thesis unfolding v by (rule create_rule_effect4 [OF J pr]) (use True fresh c in simp_all)
  next
    case False
    then have v: "v = False" by simp
    show ?thesis unfolding v by (rule create_rule_effect6 [OF J6 pr]) (use False fresh c in simp_all)
  qed
  then show "ret = CREATED \<or> ret = EADDRINUSE \<longleftrightarrow> rule_possible E v sic al s"
    and "ret = CREATED \<or> ret = EADDRINUSE \<Longrightarrow> fc_has_rule E (sic_fc_key v sic) t" by blast+
qed

text \<open>Destruction removes the rule of its key and no other.\<close>

definition sid_fc_key :: "bool \<Rightarrow> sfe_connection_destroy \<Rightarrow> fc_key" where
  "sid_fc_key is_v4 sid = tuple_fc_key is_v4 (ucast (sid_protocol sid)) (sid_src_ip sid) (sid_src_port sid)
     (sid_dest_ip sid) (sid_dest_port sid)"

text \<open>The rules of one engine do not depend on the references, which is all the other one changes.\<close>

lemma other_refs4:
  assumes I: "engine_inv E base (cm_v4 (fc_m s)) A []" and t: "cm_v4 (fc_m t) = (cm_v4 (fc_m s))\<lparr>dev_refcnt := r\<rparr>"
  shows "fc_has_rule E (Fc4 pr x y) t = fc_has_rule E (Fc4 pr x y) s"
proof -
  have "engine_inv E (\<lambda>d. base d + (r d - dev_refcnt (cm_v4 (fc_m s)) d)) (cm_v4 (fc_m t)) A []"
    by (rule engine_refs [OF I]) (simp_all add: t same_table_def)
  moreover have "conn_key (cm_v4 (fc_m t)) = conn_key (cm_v4 (fc_m s))" by (rule ext) (simp add: t conn_key_def)
  ultimately show ?thesis using has_rule4 [OF I] has_rule4 [of E _ t A] by (cases x; cases y) simp
qed

lemma other_refs6:
  assumes I: "engine_inv6 E base (fc_engine6 s) A []" and t: "fc_engine6 t = (fc_engine6 s)\<lparr>dev_refcnt6 := r\<rparr>"
  shows "fc_has_rule E (Fc6 pr x y) t = fc_has_rule E (Fc6 pr x y) s"
proof -
  have "r d = (base d + (r d - dev_refcnt6 (fc_engine6 s) d)) + int (dev_uses6 (fc_engine6 s) (connl6 A @ []) d)" for d
    using refs_of_base6 [OF I] by (simp add: fun_eq_iff)
  from engine_rebase6 [OF I, of r, OF this]
  have "engine_inv6 E (\<lambda>d. base d + (r d - dev_refcnt6 (fc_engine6 s) d)) (fc_engine6 t) A []" by (simp add: t)
  moreover have "conn_key6 (fc_engine6 t) = conn_key6 (fc_engine6 s)" by (rule ext) (simp add: t conn_key6_def)
  ultimately show ?thesis using has_rule6 [OF I] has_rule6 [of E _ t A] by (cases x; cases y) simp
qed

lemma destroy_rule_effect:
  assumes d: "dual_inv E base (fc_m s)" and pr: "fc_protocol (sid_protocol sid)"
    and c: "fc_destroy_rule E v sid sis now s = Some t"
  shows "fc_has_rule E k t \<longleftrightarrow> k \<noteq> sid_fc_key v sid \<and> fc_has_rule E k s"
proof -
  obtain base4 A base6 A6 where J: "engine_inv E base4 (cm_v4 (fc_m s)) A []" and J6: "engine_inv6 E base6 (fc_engine6 s) A6 []"
    by (rule dual_engines [OF d])
  note simps = sid_fc_key_def tuple_fc_key_def sid_key_def sid_key6_def
  have u8: "ucast pr = sid_protocol sid \<longleftrightarrow> pr = ucast (sid_protocol sid)" for pr :: u8
    using ucast8_inj [of pr "ucast (sid_protocol sid)"] by (simp add: protocol_round [OF pr])
  show ?thesis
  proof (cases v)
    case True
    obtain u B where u: "sfe_ipv4_destroy_rule E sid sis now (cm_v4 (fc_m s)) = Some u" "engine_inv E base4 u B []"
      and B: "connl B = filter (\<lambda>c. conn_key (cm_v4 (fc_m s)) c \<noteq> sid_key sid) (connl A)" "conn_key u = conn_key (cm_v4 (fc_m s))"
      by (rule destroy_rule [OF J, where sid = sid and sis = sis and now = now])
    have t: "t = s\<lparr>fc_m := (fc_m s)\<lparr>cm_v4 := u\<rparr>\<rparr>"
      using c True u(1) by (auto simp: fc_destroy_rule_def fc_v4_def no_result_def)
    have t4: "cm_v4 (fc_m t) = u" and t6: "fc_engine6 t = (fc_engine6 s)\<lparr>dev_refcnt6 := dev_refcnt u\<rparr>"
      by (simp_all add: t fc_engine6_def)
    show ?thesis
    proof (cases k)
      case (Fc4 pr x y)
      obtain a p b q where xy: "x = (a, p)" "y = (b, q)" by (cases x; cases y)
      have "fc_has_rule E k t \<longleftrightarrow> (ucast pr, a, p, b, q) \<in> conn_key u ` set (connl B)"
        using has_rule4 [of E base4 t B, unfolded t4, OF u(2)] by (simp add: Fc4 xy)
      also have "\<dots> \<longleftrightarrow> (ucast pr, a, p, b, q) \<noteq> sid_key sid \<and> fc_has_rule E k s"
        using has_rule4 [OF J] by (auto simp: Fc4 xy B)
      finally show ?thesis using True u8 by (auto simp: Fc4 xy simps)
    next
      case (Fc6 pr x y)
      then show ?thesis using True other_refs6 [OF J6 t6] by (simp add: simps)
    qed
  next
    case False
    obtain u B where u: "sfe_ipv6_destroy_rule E sid sis now (fc_engine6 s) = Some u" "engine_inv6 E base6 u B []"
      and B: "connl6 B = filter (\<lambda>c. conn_key6 (fc_engine6 s) c \<noteq> sid_key6 sid) (connl6 A6)"
        "conn_key6 u = conn_key6 (fc_engine6 s)"
      by (rule destroy_rule6 [OF J6, where sid = sid and sis = sis and now = now])
    have t: "t = s\<lparr>fc_m := (fc_m s)\<lparr>cm_v4 := (cm_v4 (fc_m s))\<lparr>dev_refcnt := dev_refcnt6 u\<rparr>, cm_v6 := u\<rparr>\<rparr>"
      using c False u(1) by (auto simp: fc_destroy_rule_def fc_v6_def no_result_def Let_def fc_engine6_def)
    have t4: "cm_v4 (fc_m t) = (cm_v4 (fc_m s))\<lparr>dev_refcnt := dev_refcnt6 u\<rparr>" and t6: "fc_engine6 t = u"
      by (simp_all add: t fc_engine6_def)
    show ?thesis
    proof (cases k)
      case (Fc6 pr x y)
      obtain a p b q where xy: "x = (a, p)" "y = (b, q)" by (cases x; cases y)
      have "fc_has_rule E k t \<longleftrightarrow> (ucast pr, a, p, b, q) \<in> conn_key6 u ` set (connl6 B)"
        using has_rule6 [of E base6 t B, unfolded t6, OF u(2)] by (simp add: Fc6 xy)
      also have "\<dots> \<longleftrightarrow> (ucast pr, a, p, b, q) \<noteq> sid_key6 sid \<and> fc_has_rule E k s"
        using has_rule6 [OF J6] by (auto simp: Fc6 xy B)
      finally show ?thesis using False u8 by (auto simp: Fc6 xy simps)
    next
      case (Fc4 pr x y)
      then show ?thesis using False other_refs4 [OF J t4] by (simp add: simps)
    qed
  qed
qed

end
