(* ===== verification/Fc_Entry.thy ===== *)
theory Fc_Entry
  imports Fc_Rules
begin

text \<open>
  What a packet does to the entry of its connection: each packet counts as a hit, and the entry becomes a
  rule with the packet that reaches the threshold, or the first one after user space has asked for it.
\<close>

section \<open>One packet\<close>

lemma fc_v4_same: "fc_v4 f s = Some (r, t) \<Longrightarrow> fc_same s t"
  by (auto simp: fc_v4_def fc_same_def bind_eq_Some_conv)

lemma fc_v6_same: "fc_v6 f s = Some (r, t) \<Longrightarrow> fc_same s t"
  by (auto simp: fc_v6_def fc_same_def Let_def bind_eq_Some_conv)

lemma update_rule_same: "fc_update_rule E v sic s = Some t \<Longrightarrow> fc_same s t"
  by (auto simp: fc_update_rule_def split: if_splits dest: fc_v4_same fc_v6_same)

lemma create_rule_same: "fc_create_rule E v sic al j s = Some (r, t) \<Longrightarrow> fc_same s t"
  by (auto simp: fc_create_rule_def split: if_splits dest: fc_v4_same fc_v6_same)

lemma has_rule_cong:
  assumes m: "fc_m t = fc_m s"
  shows "fc_has_rule E k t = fc_has_rule E k s"
proof -
  have e: "fc_engine6 t = fc_engine6 s" by (simp only: fc_engine6_def m)
  show ?thesis by (simp only: fc_has_rule_def e m)
qed

text \<open>Two entries that differ in the windows of their message only.\<close>

definition same_conn :: "sfe_connection \<Rightarrow> sfe_connection \<Rightarrow> bool" where
  "same_conn c c' \<longleftrightarrow> same_entry c c' \<and> hits c' = hits c \<and> offloaded c' = offloaded c \<and>
     offload_permit c' = offload_permit c \<and> fc_ct c' = fc_ct c \<and> fc_smac c' = fc_smac c \<and> fc_dmac c' = fc_dmac c \<and>
     (\<forall>v. sic_fc_key v (fc_sic c') = sic_fc_key v (fc_sic c)) \<and>
     sic_src_dev (fc_sic c') = sic_src_dev (fc_sic c) \<and> sic_dest_dev (fc_sic c') = sic_dest_dev (fc_sic c)"

lemma same_conn_refl: "same_conn c c"
  by (simp add: same_conn_def same_entry_def)

lemma windows_conn: "same_conn c (c\<lparr>fc_sic := describe_windows K ct (fc_sic c)\<rparr>)"
  using windows_entry [of c K ct] by (simp add: same_conn_def describe_windows_def Let_def sic_fc_key_def)

definition settled_for :: "nf_conn \<Rightarrow> sfe_connection \<Rightarrow> bool" where
  "settled_for ct c \<longleftrightarrow> (sic_protocol (fc_sic c) = IPPROTO_TCP \<longrightarrow> ct_established ct)"

lemma update_protocol_conv:
  assumes "fc_protocol (sic_protocol (fc_sic (fc_conns s p)))"
  obtains c' where "same_conn (fc_conns s p) c'"
    and "fast_classifier_update_protocol K p ct s = (settled_for ct (fc_conns s p),
      (if settled_for ct (fc_conns s p) then id else fast_classifier_incr_exceptions FC_TCP_NOT_ESTABLISHED)
        (upd_fc p (\<lambda>_. c') s))"
proof (cases "sic_protocol (fc_sic (fc_conns s p)) = IPPROTO_TCP")
  case True
  let ?c = "fc_conns s p"
  have u: "upd_fc p (\<lambda>c. c\<lparr>fc_sic := describe_windows K ct (fc_sic c)\<rparr>) s =
      upd_fc p (\<lambda>_. ?c\<lparr>fc_sic := describe_windows K ct (fc_sic ?c)\<rparr>) s"
    by (simp add: upd_fc_def)
  show thesis
    by (rule that [OF windows_conn [of ?c K ct]])
      (simp add: fast_classifier_update_protocol_def True settled_for_def u Let_def)
next
  case False
  then have "sic_protocol (fc_sic (fc_conns s p)) = IPPROTO_UDP" using assms by (simp add: fc_protocol_def)
  moreover have "upd_fc p (\<lambda>_. fc_conns s p) s = s" by (simp add: upd_fc_def)
  moreover have "IPPROTO_UDP \<noteq> IPPROTO_TCP" by (simp add: IPPROTO_TCP_def IPPROTO_UDP_def)
  ultimately show thesis
    by (intro that [OF same_conn_refl [of "fc_conns s p"]])
      (simp add: fast_classifier_update_protocol_def settled_for_def Let_def)
qed

definition due :: "fast_classifier \<Rightarrow> sfe_connection \<Rightarrow> bool" where
  "due s c \<longleftrightarrow> \<not> offloaded c \<and> (offload_permit c \<or> sint (offload_at_pkts s) \<le> sint (hits c + 1))"

text \<open>The entry before and after a packet of its connection.\<close>

definition packet_effect ::
  "sfe_env \<Rightarrow> fc_hook \<Rightarrow> sfe_connection_create \<Rightarrow> fc_ptr \<Rightarrow> fast_classifier \<Rightarrow> fast_classifier \<Rightarrow> bool" where
  "packet_effect E h sic p s t \<longleftrightarrow>
     (let c = fc_conns s p; v = hk_is_v4 h;
          now = due s c \<and> settled_for (cts (fc_m s) (fc_ct c)) c \<and> rule_possible E v (fc_sic c) (hk_rule_alloc h) s
      in hits (fc_conns t p) = hits c + 1 \<and> (offloaded (fc_conns t p) \<longleftrightarrow> offloaded c \<or> now) \<and>
         (now \<longrightarrow> fc_has_rule E (conn_fc_key c) t) \<and>
         fc_sent t = fc_sent s @ (if now then [(FAST_CLASSIFIER_C_OFFLOADED, fc_tuple v (hk_junk h) sic c)] else []) \<and>
         fc_live t = fc_live s \<and> (\<forall>q. q \<noteq> p \<longrightarrow> fc_conns t q = fc_conns s q) \<and>
         cts (fc_m t) = cts (fc_m s) \<and> offload_at_pkts t = offload_at_pkts s \<and>
         same_entry c (fc_conns t p) \<and> offload_permit (fc_conns t p) = offload_permit c \<and>
         fc_ct (fc_conns t p) = fc_ct c \<and> sic_src_dev (fc_sic (fc_conns t p)) = sic_src_dev (fc_sic c) \<and>
         sic_dest_dev (fc_sic (fc_conns t p)) = sic_dest_dev (fc_sic c))"

lemma found_entry:
  assumes I: "fc_inv H E base s" and p: "p \<in> fc_live s" and k: "conn_fc_key (fc_conns s p) = sic_fc_key v sic"
  shows "fast_classifier_find_conn H (sic_src_ip sic) (sic_dest_ip sic) (sic_src_port sic) (sic_dest_port sic)
      (ucast (sic_protocol sic)) v s = Some p"
    and "fc_is_v4 (fc_conns s p) = v" and "fc_protocol (sic_protocol (fc_sic (fc_conns s p)))"
proof -
  have L: "fc_listed H s (fc_live s)" using I by (simp add: fc_inv_def fc_table_inv_def)
  then show "fc_protocol (sic_protocol (fc_sic (fc_conns s p)))" using p by (simp add: fc_listed_def)
  show "fast_classifier_find_conn H (sic_src_ip sic) (sic_dest_ip sic) (sic_src_port sic) (sic_dest_port sic)
      (ucast (sic_protocol sic)) v s = Some p"
    using p k by (simp add: find_conn_iff [OF L] sic_fc_key_def)
  show "fc_is_v4 (fc_conns s p) = v"
    using k by (cases "fc_is_v4 (fc_conns s p)"; cases v) (simp_all add: conn_fc_key_def sic_fc_key_def tuple_fc_key_def)
qed

theorem post_routing_effect:
  assumes I: "fc_inv H E base s" and fresh: "hook_fresh h s"
    and d: "fc_describe E K (hk_is_v4 h) (hk_packet h) (cts (fc_m s)) = Inr (ct, sic)"
    and p: "p \<in> fc_live s" and k: "conn_fc_key (fc_conns s p) = sic_fc_key (hk_is_v4 h) sic"
  shows "\<exists>t. fast_classifier_post_routing E H K h s = Some t \<and> packet_effect E h sic p s t"
proof -
  let ?v = "hk_is_v4 h" and ?c = "fc_conns s p" and ?al = "hk_rule_alloc h"
  let ?s1 = "upd_fc p (\<lambda>c. c\<lparr>hits := hits c + 1\<rparr>) s"
  let ?c1 = "fc_conns ?s1 p"
  let ?ct = "cts (fc_m s) (fc_ct ?c)"
  note found = found_entry [OF I p k]
  have I1: "fc_inv H E base ?s1" using I by (subst upd_fc_inv) (auto intro: same_entryI)
  have c1: "?c1 = ?c\<lparr>hits := hits ?c + 1\<rparr>" by simp
  have se: "same_entry ?c ?c1" by (rule same_entryI) simp_all
  have run: "fast_classifier_post_routing E H K h s =
      (let (todo, t) = fc_locked H K ?v sic s in fc_unlocked E H K h ct sic todo t)"
    by (simp add: fast_classifier_post_routing_def d)
  have locked: "fc_locked H K ?v sic s = (if due s ?c then
      (case fast_classifier_update_protocol K p ?ct ?s1 of
         (False, s2) \<Rightarrow> (FcStop, fast_classifier_incr_exceptions FC_UPDATE_PROTOCOL_FAIL s2)
       | (True, s2) \<Rightarrow> (FcOffload p, s2)) else (FcRefresh p, ?s1))"
    by (simp add: fc_locked_def found(1) due_def Let_def)
  show ?thesis
  proof (cases "due s ?c")
    case False
    have "keeps H E base ?s1 (if offloaded ?c1 then fc_update_rule E ?v (fc_sic ?c1) ?s1 else Some ?s1)"
      using calls_keep(1) [OF I1] I1 by (simp add: keeps_def)
    then obtain u where u: "(if offloaded ?c1 then fc_update_rule E ?v (fc_sic ?c1) ?s1 else Some ?s1) = Some u"
      by (auto simp: keeps_def)
    have "fc_same ?s1 ?s1" by (simp add: fc_same_def)
    then have same: "fc_same ?s1 u" using u update_rule_same by (auto split: if_splits)
    have "fast_classifier_post_routing E H K h s = Some (fast_classifier_incr_exceptions FC_WAIT_FOR_ACCELERATION u)"
      unfolding run locked using False u p by (simp add: fc_unlocked_def fc_refresh_def)
    moreover have "packet_effect E h sic p s (fast_classifier_incr_exceptions FC_WAIT_FOR_ACCELERATION u)"
      using False same se by (simp add: packet_effect_def fc_same_def Let_def)
    ultimately show ?thesis by blast
  next
    case True
    have pr1: "fc_protocol (sic_protocol (fc_sic ?c1))" using found(3) by simp
    have st: "settled_for ?ct ?c1 = settled_for ?ct ?c" by (simp add: settled_for_def)
    obtain c' where c': "same_conn ?c1 c'" and upd: "fast_classifier_update_protocol K p ?ct ?s1 = (settled_for ?ct ?c,
        (if settled_for ?ct ?c then id else fast_classifier_incr_exceptions FC_TCP_NOT_ESTABLISHED) (upd_fc p (\<lambda>_. c') ?s1))"
      by (rule update_protocol_conv [OF pr1, of K ?ct, unfolded st])
    let ?s2 = "upd_fc p (\<lambda>_. c') ?s1"
    have conn2: "fc_conns ?s2 p = c'" by simp
    have I2: "fc_inv H E base ?s2" using I1 c' by (subst upd_fc_inv) (auto simp: same_conn_def)
    have se2: "same_entry ?c c'" using c' se by (auto simp: same_conn_def same_entry_def)
    show ?thesis
    proof (cases "settled_for ?ct ?c")
      case False
      let ?t = "fast_classifier_incr_exceptions FC_UPDATE_PROTOCOL_FAIL
          (fast_classifier_incr_exceptions FC_TCP_NOT_ESTABLISHED ?s2)"
      have "fast_classifier_post_routing E H K h s = Some ?t"
        unfolding run locked using False True upd by (simp add: fc_unlocked_def)
      moreover have "packet_effect E h sic p s ?t"
        using False c' se2 by (simp add: packet_effect_def same_conn_def Let_def)
      ultimately show ?thesis by blast
    next
      case settled: True
      have o2: "\<not> offloaded (fc_conns ?s2 p)" using True c' by (simp add: due_def same_conn_def)
      have fr: "if ?v then alloc_fresh ?al (cm_v4 (fc_m ?s2)) else alloc_fresh6 ?al (cm_v6 (fc_m ?s2))"
        using fresh by (simp add: hook_fresh_def)
      obtain ret u where u: "fc_create_rule E ?v (fc_sic c') ?al (hk_jiffies h) ?s2 = Some (ret, u)"
        unfolding fc_create_rule_def
        by (rule call_kept [OF I2, of ?v "sfe_ipv4_create_rule E (fc_sic c') ?al (hk_jiffies h)"
              "sfe_ipv6_create_rule E (fc_sic c') ?al (hk_jiffies h)"])
          (use fr in \<open>auto intro: create_safe4 create_safe6\<close>)
      have pr2: "fc_protocol (sic_protocol (fc_sic c'))" using pr1 c' by (simp add: same_conn_def same_entry_def)
      note eff = create_rule_effect [OF I2 pr2 fr u]
      have same: "fc_same ?s2 u" by (rule create_rule_same [OF u])
      have key: "sic_fc_key ?v (fc_sic c') = conn_fc_key ?c"
        using c' found(2) by (simp add: same_conn_def conn_fc_key_def)
      have kv: "sic_fc_key ?v (fc_sic ?c) = conn_fc_key ?c" using found(2) by (simp add: conn_fc_key_def)
      have poss: "rule_possible E ?v (fc_sic c') ?al ?s2 = rule_possible E ?v (fc_sic ?c) ?al s"
        using c' has_rule_cong [of ?s2 s E "conn_fc_key ?c"] by (simp add: rule_possible_def key kv same_conn_def)
      let ?ok = "ret = CREATED \<or> ret = EADDRINUSE"
      let ?t = "if ?ok then upd_fc p (\<lambda>c. c\<lparr>offloaded := True\<rparr>)
          (fast_classifier_send_genl_msg (hk_netlink h) FAST_CLASSIFIER_C_OFFLOADED (fc_tuple ?v (hk_junk h) sic (fc_conns u p)) u) else u"
      have run': "fast_classifier_post_routing E H K h s = Some ?t"
        unfolding run locked using True settled upd u p conn2 by (simp add: fc_unlocked_def fc_offload_def)
      have up: "fc_conns u p = c'" using same by (simp add: fc_same_def)
      have tup: "fc_tuple ?v (hk_junk h) sic c' = fc_tuple ?v (hk_junk h) sic ?c"
        using c' by (simp add: fc_tuple_def same_conn_def Let_def)
      show ?thesis
      proof (cases ?ok)
        case ok: True
        let ?t' = "upd_fc p (\<lambda>c. c\<lparr>offloaded := True\<rparr>) (fast_classifier_send_genl_msg (hk_netlink h)
            FAST_CLASSIFIER_C_OFFLOADED (fc_tuple ?v (hk_junk h) sic (fc_conns u p)) u)"
        have t: "?t = ?t'" by (rule if_P [OF ok])
        have rule: "fc_has_rule E (conn_fc_key ?c) ?t'"
          using eff(2) [OF ok] has_rule_cong [of ?t' u E "conn_fc_key ?c"] by (simp add: key)
        have rp: "rule_possible E ?v (fc_sic ?c) ?al s" using eff(1) ok poss by simp
        have "conn_fc_key (c'\<lparr>offloaded := True\<rparr>) = conn_fc_key c'" "conn_fc_hash (c'\<lparr>offloaded := True\<rparr>) = conn_fc_hash c'"
          by (simp_all add: conn_fc_key_def conn_fc_hash_def)
        then have se3: "same_entry ?c (c'\<lparr>offloaded := True\<rparr>)" using se2 by (simp add: same_entry_def)
        have "packet_effect E h sic p s ?t'"
          unfolding packet_effect_def Let_def using same c' rule rp True settled tup se3
          by (simp add: up fc_same_def same_conn_def)
        then show ?thesis using run' unfolding t by blast
      next
        case no: False
        have t: "?t = u" by (rule if_not_P [OF no])
        have rp: "\<not> rule_possible E ?v (fc_sic ?c) ?al s" using eff(1) no poss by simp
        have "packet_effect E h sic p s u"
          unfolding packet_effect_def Let_def using same c' rp se2 by (simp add: fc_same_def same_conn_def)
        then show ?thesis using run' unfolding t by blast
      qed
    qed
  qed
qed

end
