(* ===== verification/Fc_End.thy ===== *)
theory Fc_End
  imports Fc_Entry
begin

text \<open>
  The first packet of a connection, which makes its entry, and the end of a connection, which ends the
  entry and its rule; and what happens when the end comes while a packet is between the look-up, made
  under the lock, and the creation of the rule, made without it.
\<close>

section \<open>Marks keep keys and rules\<close>

lemma mark_rule_keys4:
  assumes I: "engine_inv E base s A []" and m: "sfe_ipv4_mark_rule E mark s = Some t"
  shows "engine_inv E base t A [] \<and> conn_key t = conn_key s \<and> dev_refcnt t = dev_refcnt s"
proof -
  have "conn_key (upd_conn c (\<lambda>d. d\<lparr>c_mark := x\<rparr>) s) = conn_key s" for c x
    by (rule ext) (simp add: conn_key_def upd_conn_def Let_def)
  moreover have "engine_inv E base t A []"
    by (rule mark_rule [OF I, of mark]) (use m in simp)
  ultimately show ?thesis using m
    by (auto simp: sfe_ipv4_mark_rule_def upd_conn_def bind_eq_Some_conv split: option.splits)
qed

lemma mark_rule_keys6:
  assumes I: "engine_inv6 E base s A []" and m: "sfe_ipv6_mark_rule E mark s = Some t"
  shows "engine_inv6 E base t A [] \<and> conn_key6 t = conn_key6 s \<and> dev_refcnt6 t = dev_refcnt6 s"
proof -
  have "conn_key6 (upd_conn6 c (\<lambda>d. d\<lparr>c_mark6 := x\<rparr>) s) = conn_key6 s" for c x
    by (rule ext) (simp add: conn_key6_def upd_conn6_def Let_def)
  moreover have "engine_inv6 E base t A []"
    by (rule mark_rule6 [OF I, of mark]) (use m in simp)
  ultimately show ?thesis using m
    by (auto simp: sfe_ipv6_mark_rule_def upd_conn6_def bind_eq_Some_conv split: option.splits)
qed

lemma mark_rule_effect:
  assumes d: "dual_inv E base (fc_m s)" and c: "fc_mark_rule E v mark s = Some t"
  shows "fc_has_rule E k t = fc_has_rule E k s"
proof -
  obtain base4 A base6 A6 where J: "engine_inv E base4 (cm_v4 (fc_m s)) A []" and J6: "engine_inv6 E base6 (fc_engine6 s) A6 []"
    by (rule dual_engines [OF d])
  show ?thesis
  proof (cases v)
    case True
    then obtain u where u: "sfe_ipv4_mark_rule E mark (cm_v4 (fc_m s)) = Some u" and t: "t = s\<lparr>fc_m := (fc_m s)\<lparr>cm_v4 := u\<rparr>\<rparr>"
      using c by (auto simp: fc_mark_rule_def fc_v4_def no_result_def bind_eq_Some_conv)
    note K = mark_rule_keys4 [OF J u]
    have e: "fc_engine6 t = fc_engine6 s" using K by (simp add: t fc_engine6_def)
    show ?thesis
    proof (cases k)
      case (Fc4 pr x y)
      obtain a p b q where xy: "x = (a, p)" "y = (b, q)" by (cases x; cases y)
      have "engine_inv E base4 (cm_v4 (fc_m t)) A []" using K by (simp add: t)
      from has_rule4 [OF this] show ?thesis using has_rule4 [OF J] K by (simp add: Fc4 xy t)
    next
      case (Fc6 pr x y)
      then show ?thesis by (simp add: fc_has_rule_def e)
    qed
  next
    case False
    then obtain u where u: "sfe_ipv6_mark_rule E mark (fc_engine6 s) = Some u"
      and t: "t = s\<lparr>fc_m := (fc_m s)\<lparr>cm_v4 := (cm_v4 (fc_m s))\<lparr>dev_refcnt := dev_refcnt6 u\<rparr>, cm_v6 := u\<rparr>\<rparr>"
      using c by (auto simp: fc_mark_rule_def fc_v6_def no_result_def Let_def fc_engine6_def bind_eq_Some_conv)
    note K = mark_rule_keys6 [OF J6 u]
    have t6: "fc_engine6 t = u" and t4: "cm_v4 (fc_m t) = (cm_v4 (fc_m s))\<lparr>dev_refcnt := dev_refcnt6 u\<rparr>"
      by (simp_all add: t fc_engine6_def)
    show ?thesis
    proof (cases k)
      case (Fc6 pr x y)
      obtain a p b q where xy: "x = (a, p)" "y = (b, q)" by (cases x; cases y)
      have "engine_inv6 E base6 (fc_engine6 t) A6 []" using K by (simp add: t6)
      from has_rule6 [OF this] show ?thesis using has_rule6 [OF J6] K by (simp add: Fc6 xy t6)
    next
      case (Fc4 pr x y)
      then show ?thesis using other_refs4 [OF J t4] by simp
    qed
  qed
qed

text \<open>Two states with the same entries, but for the mark and the windows of their messages.\<close>

definition same_entries :: "fast_classifier \<Rightarrow> fast_classifier \<Rightarrow> bool" where
  "same_entries s t \<longleftrightarrow> fc_live t = fc_live s \<and> fc_sent t = fc_sent s \<and> cts (fc_m t) = cts (fc_m s) \<and>
     (\<forall>p. conn_fc_key (fc_conns t p) = conn_fc_key (fc_conns s p) \<and> offloaded (fc_conns t p) = offloaded (fc_conns s p))"

lemma mark_event_effect:
  assumes I: "fc_inv H E base s" and m: "fc_mark_event E H v sid ct_mark s = Some t"
  shows "fc_has_rule E k t = fc_has_rule E k s" and "same_entries s t"
proof -
  obtain u where u: "fc_mark_rule E v \<lparr>scm_protocol = sid_protocol sid, scm_src_ip = sid_src_ip sid,
      scm_dest_ip = sid_dest_ip sid, scm_src_port = sid_src_port sid, scm_dest_port = sid_dest_port sid,
      scm_mark = ct_mark\<rparr> s = Some u"
    and t: "t = fast_classifier_update_mark H \<lparr>scm_protocol = sid_protocol sid, scm_src_ip = sid_src_ip sid,
      scm_dest_ip = sid_dest_ip sid, scm_src_port = sid_src_port sid, scm_dest_port = sid_dest_port sid,
      scm_mark = ct_mark\<rparr> v u"
    using m by (auto simp: fc_mark_event_def Let_def bind_eq_Some_conv)
  have d: "dual_inv E base (fc_m s)" using I by (simp add: fc_inv_def)
  have mt: "fc_m t = fc_m u" by (simp add: t)
  show "fc_has_rule E k t = fc_has_rule E k s"
    using mark_rule_effect [OF d u] has_rule_cong [OF mt] by simp
  have su: "fc_same s u" and cu: "cts (fc_m u) = cts (fc_m s)"
    using u by (auto simp: fc_mark_rule_def fc_v4_def fc_v6_def fc_same_def Let_def bind_eq_Some_conv split: if_splits)
  have "same_entries u t" unfolding t fast_classifier_update_mark_def
    by (auto simp: same_entries_def conn_fc_key_def sic_fc_key_def split: option.split)
  then show "same_entries s t" using su cu by (simp add: same_entries_def fc_same_def)
qed

section \<open>The end of a connection\<close>

text \<open>The key of a tracked connection, if it is one the classifier knows.\<close>

definition ct_fc_key :: "nf_tuple \<Rightarrow> fc_key option" where
  "ct_fc_key tup =
     (if \<not> fc_protocol (ucast (tup_protonum tup)) then None
      else if tup_l3num tup = AF_INET then
        Some (Fc4 (tup_protonum tup) (ip (tup_src_ip tup), tup_src_port tup) (ip (tup_dst_ip tup), tup_dst_port tup))
      else if tup_l3num tup = AF_INET6 then
        Some (Fc6 (tup_protonum tup) (tup_src_ip tup, tup_src_port tup) (tup_dst_ip tup, tup_dst_port tup))
      else None)"

lemma sid_of_key:
  assumes "ct_fc_key tup = Some k"
  obtains v sid where "fc_sid junk tup = Some (v, sid)" and "sid_fc_key v sid = k" and "fc_protocol (sid_protocol sid)"
proof -
  have "fc_protocol (ucast (tup_protonum tup))" using assms by (simp add: ct_fc_key_def split: if_splits)
  moreover have "AF_INET6 \<noteq> AF_INET" by (simp add: AF_INET6_def AF_INET_def)
  moreover have "tup_l3num tup = AF_INET \<or> tup_l3num tup = AF_INET6"
    using assms by (simp add: ct_fc_key_def split: if_splits)
  ultimately have "\<exists>v sid. fc_sid junk tup = Some (v, sid) \<and> sid_fc_key v sid = k \<and> fc_protocol (sid_protocol sid)"
    using assms
    by (elim disjE; intro exI [of _ "tup_l3num tup = AF_INET"]) (simp_all add: ct_fc_key_def fc_sid_def Let_def fc_protocol_def sid_fc_key_def tuple_fc_key_def ucast8_round)
  then show thesis using that by blast
qed

lemma forget_effect:
  assumes I: "fc_inv H E base s" and f: "fc_forget H v sid junk s = (msg, t)"
  shows "fc_live t = {p \<in> fc_live s. conn_fc_key (fc_conns s p) \<noteq> sid_fc_key v sid}"
    and "fc_conns t = fc_conns s" and "fc_sent t = fc_sent s"
    and "msg \<noteq> None \<longleftrightarrow> (\<exists>p\<in>fc_live s. conn_fc_key (fc_conns s p) = sid_fc_key v sid \<and> offloaded (fc_conns s p))"
proof -
  have T: "fc_table_inv H s" using I by (simp add: fc_inv_def)
  then have L: "fc_listed H s (fc_live s)" by (simp add: fc_table_inv_def)
  let ?k = "sid_fc_key v sid"
  note find = find_conn_iff [OF L, of "sid_src_ip sid" "sid_dest_ip sid" "sid_src_port sid" "sid_dest_port sid"
      "ucast (sid_protocol sid)" v, folded sid_fc_key_def]
  have "fc_live t = {p \<in> fc_live s. conn_fc_key (fc_conns s p) \<noteq> ?k} \<and> fc_conns t = fc_conns s \<and> fc_sent t = fc_sent s \<and>
    (msg \<noteq> None \<longleftrightarrow> (\<exists>p\<in>fc_live s. conn_fc_key (fc_conns s p) = ?k \<and> offloaded (fc_conns s p)))"
  proof (cases "fast_classifier_find_conn H (sid_src_ip sid) (sid_dest_ip sid) (sid_src_port sid) (sid_dest_port sid)
      (ucast (sid_protocol sid)) v s")
    case None
    then have "msg = None" "t = fast_classifier_incr_exceptions FC_CT_DESTROY_MISS s" using f by (simp_all add: fc_forget_def)
    moreover have "conn_fc_key (fc_conns s q) \<noteq> ?k" if "q \<in> fc_live s" for q using find [of q] None that by simp
    ultimately show ?thesis by auto
  next
    case (Some p)
    have p: "p \<in> fc_live s" "conn_fc_key (fc_conns s p) = ?k" using Some find by simp_all
    have "msg = (if offloaded (fc_conns s p) then Some (fc_tuple v junk (fc_sic (fc_conns s p)) (fc_conns s p)) else None)"
      and "t = fc_remove_conn p s" using f Some by (auto simp: fc_forget_def Let_def)
    moreover have only: "q = p" if "q \<in> fc_live s" "conn_fc_key (fc_conns s q) = ?k" for q
      using find [of q] Some that by simp
    moreover have "{q \<in> fc_live s. conn_fc_key (fc_conns s q) \<noteq> ?k} = fc_live s - {p}" using p only by blast
    moreover have "(\<exists>q\<in>fc_live s. conn_fc_key (fc_conns s q) = ?k \<and> offloaded (fc_conns s q)) \<longleftrightarrow> offloaded (fc_conns s p)"
      using p only by blast
    ultimately show ?thesis using remove_conn_inv(2) [OF T p(1)] by simp
  qed
  then show "fc_live t = {p \<in> fc_live s. conn_fc_key (fc_conns s p) \<noteq> ?k}" and "fc_conns t = fc_conns s"
    and "fc_sent t = fc_sent s"
    and "msg \<noteq> None \<longleftrightarrow> (\<exists>p\<in>fc_live s. conn_fc_key (fc_conns s p) = ?k \<and> offloaded (fc_conns s p))" by blast+
qed

text \<open>What a destroy event of the connection with key \<open>k\<close> does.\<close>

definition end_effect :: "sfe_env \<Rightarrow> fc_key \<Rightarrow> fast_classifier \<Rightarrow> fast_classifier \<Rightarrow> bool" where
  "end_effect E k s t \<longleftrightarrow>
     fc_live t = {p \<in> fc_live s. conn_fc_key (fc_conns s p) \<noteq> k} \<and>
     (\<forall>k'. fc_has_rule E k' t \<longleftrightarrow> k' \<noteq> k \<and> fc_has_rule E k' s) \<and>
     map fst (fc_sent t) = map fst (fc_sent s) @
       (if \<exists>p\<in>fc_live s. conn_fc_key (fc_conns s p) = k \<and> offloaded (fc_conns s p) then [FAST_CLASSIFIER_C_DONE] else [])"

theorem conntrack_event_effect:
  assumes I: "fc_inv H E base s" and k: "ct_fc_key (ct_orig (cts (fc_m s) c)) = Some k" and d: "ev_destroy ev"
  shows "\<exists>t. fast_classifier_conntrack_event E H sis now ev (Some c) s = Some t \<and> end_effect E k s t"
proof -
  obtain v sid where sid: "fc_sid (ev_junk ev) (ct_orig (cts (fc_m s) c)) = Some (v, sid)"
    and key: "sid_fc_key v sid = k" and pr: "fc_protocol (sid_protocol sid)" by (rule sid_of_key [OF k])
  obtain t where t: "fast_classifier_conntrack_event E H sis now ev (Some c) s = Some t"
    using conntrack_event_keeps [OF I, of sis now ev "Some c"] by (auto simp: keeps_def)
  then obtain s1 where s1: "(if ev_mark ev \<and> ev_ct_mark ev \<noteq> 0 then fc_mark_event E H v sid (ev_ct_mark ev) s else Some s) = Some s1"
    by (auto simp: fast_classifier_conntrack_event_def sid bind_eq_Some_conv)
  have I1: "fc_inv H E base s1"
  proof (cases "ev_mark ev \<and> ev_ct_mark ev \<noteq> 0")
    case True
    then show ?thesis using mark_event_keeps [OF I, of v sid "ev_ct_mark ev"] s1 by (simp add: keeps_def)
  qed (use s1 I in auto)
  have e1: "same_entries s s1" and r1: "fc_has_rule E k' s1 = fc_has_rule E k' s" for k'
    using s1 mark_event_effect [OF I] by (auto simp: same_entries_def split: if_splits)
  obtain msg s2 where f: "fc_forget H v sid (ev_msg ev) s1 = (msg, s2)" by fastforce
  note F = forget_effect [OF I1 f, unfolded key]
  have m2: "fc_m s2 = fc_m s1" by (rule forget_kept(2) [OF I1 f])
  obtain s3 where s3: "fc_destroy_rule E v sid sis now s2 = Some s3"
    and t3: "t = (case msg of None \<Rightarrow> s3
      | Some fc_msg \<Rightarrow> fast_classifier_send_genl_msg (ev_netlink ev) FAST_CLASSIFIER_C_DONE fc_msg s3)"
    using t s1 by (auto simp: fast_classifier_conntrack_event_def sid d f bind_eq_Some_conv)
  have same: "fc_same s2 s3" using s3
    by (auto simp: fc_destroy_rule_def split: if_splits dest: fc_v4_same fc_v6_same)
  have "dual_inv E base (fc_m s2)" using I1 by (simp add: m2 fc_inv_def)
  note R = destroy_rule_effect [OF this pr s3, unfolded key]
  have mt: "fc_m t = fc_m s3" by (simp add: t3 split: option.split)
  have "fc_has_rule E k' t \<longleftrightarrow> k' \<noteq> k \<and> fc_has_rule E k' s" for k'
    using R [of k'] has_rule_cong [OF mt] has_rule_cong [OF m2] r1 by simp
  moreover have "fc_live t = fc_live s2"
    using same by (auto simp: t3 fc_same_def split: option.split)
  moreover have "map fst (fc_sent t) = map fst (fc_sent s2) @ (if msg = None then [] else [FAST_CLASSIFIER_C_DONE])"
    using same by (auto simp: t3 fc_same_def split: option.split)
  ultimately have "end_effect E k s t"
    using F e1 by (auto simp: end_effect_def same_entries_def)
  with t show ?thesis by blast
qed

section \<open>The first packet\<close>

text \<open>The state with a new entry \<open>p\<close>.\<close>

definition entry_added ::
  "cm_kernel \<Rightarrow> fc_hook \<Rightarrow> ct_ptr \<Rightarrow> sfe_connection_create \<Rightarrow> fc_ptr \<Rightarrow> netdev \<times> netdev \<Rightarrow> fast_classifier \<Rightarrow> fast_classifier \<Rightarrow> bool" where
  "entry_added K h ct sic p devs s t \<longleftrightarrow> fc_live t = insert p (fc_live s) \<and>
     (\<forall>q. q \<noteq> p \<longrightarrow> fc_conns t q = fc_conns s q) \<and>
     (\<exists>sic'. fc_conns t p = fc_new_conn (hk_is_v4 h) ct sic' \<and> entry_for K (hk_mark h) sic devs sic')"

lemma learn_conn_new:
  assumes I: "fc_inv H E base s" and p: "fc_al_conn al = Some p" "fc_al_sic al" "p \<notin> fc_live s"
    and pr: "fc_protocol (sic_protocol sic)"
    and new: "\<forall>q\<in>fc_live s. conn_fc_key (fc_conns s q) \<noteq> sic_fc_key v sic"
  shows "fc_live (fc_learn_conn H v al ct sic s) = insert p (fc_live s)"
    and "fc_conns (fc_learn_conn H v al ct sic s) = (fc_conns s)(p := fc_new_conn v ct sic)"
proof -
  let ?c = "fc_new_conn v ct sic"
  let ?s1 = "s\<lparr>fc_conns := (fc_conns s)(p := ?c), fc_live := insert p (fc_live s)\<rparr>"
  have L: "fc_listed H ?s1 (fc_live s)"
    using I p(3) by (subst listed_cong [where s = s]) (auto simp: fc_inv_def fc_table_inv_def)
  have k: "conn_fc_key ?c = sic_fc_key v sic" by (simp add: conn_fc_key_def fc_new_conn_def)
  have pr': "fc_protocol (sic_protocol (fc_sic (fc_conns ?s1 p)))" using pr by (simp add: fc_new_conn_def)
  have other: "conn_fc_key (fc_conns ?s1 q) \<noteq> sic_fc_key v sic" if "q \<in> fc_live s" for q
    using new p(3) that by (cases "q = p") simp_all
  have "conn_fc_key (fc_conns ?s1 p) \<notin> (\<lambda>q. conn_fc_key (fc_conns ?s1 q)) ` fc_live s"
  proof (intro notI, elim imageE)
    fix q
    assume "conn_fc_key (fc_conns ?s1 p) = conn_fc_key (fc_conns ?s1 q)" "q \<in> fc_live s"
    moreover have "fc_conns ?s1 p = ?c" by simp
    ultimately show False using k other [of q] by metis
  qed
  from add_conn_listed(1) [OF L p(3) pr' this]
  show "fc_live (fc_learn_conn H v al ct sic s) = insert p (fc_live s)"
    and "fc_conns (fc_learn_conn H v al ct sic s) = (fc_conns s)(p := ?c)"
    using p by (simp_all add: fc_learn_conn_def fc_hash_add_def Let_def)
qed

theorem post_routing_first:
  assumes I: "fc_inv H E base s" and fit: "\<forall>d. dev_addr_len K d \<le> ETH_ALEN" and fresh: "hook_fresh h s"
    and d: "fc_describe E K (hk_is_v4 h) (hk_packet h) (cts (fc_m s)) = Inr (ct, sic)"
    and new: "\<forall>q\<in>fc_live s. conn_fc_key (fc_conns s q) \<noteq> sic_fc_key (hk_is_v4 h) sic"
  shows "\<exists>t. fast_classifier_post_routing E H K h s = Some t \<and> fc_m t = fc_m s \<and> fc_sent t = fc_sent s \<and>
    (case (fc_al_conn (hk_conn_alloc h), resolve K (hk_is_v4 h) (hk_packet h) (sic_src_ip sic, sic_dest_ip sic)
         (sic_src_ip_xlate sic, sic_dest_ip_xlate sic)) of
       (Some p, Some devs) \<Rightarrow> if fc_al_sic (hk_conn_alloc h) then entry_added K h ct sic p devs s t else fc_live t = fc_live s
     | _ \<Rightarrow> fc_live t = fc_live s)"
proof -
  let ?v = "hk_is_v4 h" and ?al = "hk_conn_alloc h"
  let ?r = "resolve K ?v (hk_packet h) (sic_src_ip sic, sic_dest_ip sic) (sic_src_ip_xlate sic, sic_dest_ip_xlate sic)"
  have L: "fc_listed H s (fc_live s)" using I by (simp add: fc_inv_def fc_table_inv_def)
  have "fast_classifier_find_conn H (sic_src_ip sic) (sic_dest_ip sic) (sic_src_port sic) (sic_dest_port sic)
      (ucast (sic_protocol sic)) ?v s = None"
    using new by (auto simp: find_conn_none [OF L] sic_fc_key_def)
  then have locked: "fc_locked H K ?v sic s = (FcLearn, s)" by (simp add: fc_locked_def)
  obtain e sic' where sic': "\<And>devs. ?r = Some devs \<Longrightarrow> entry_for K (hk_mark h) sic devs sic'"
    and run: "fc_learn H K ?v ?al ct (hk_mark h) (hk_packet h) sic s = Some
      (case ?r of None \<Rightarrow> fast_classifier_incr_exceptions e s | Some devs \<Rightarrow> fc_learn_conn H ?v ?al ct sic' s)"
    using learn_conv [OF fit, of ?v "hk_packet h" sic "hk_mark h" H ?al ct s] by blast
  have post: "fast_classifier_post_routing E H K h s = Some
      (case ?r of None \<Rightarrow> fast_classifier_incr_exceptions e s | Some devs \<Rightarrow> fc_learn_conn H ?v ?al ct sic' s)"
    by (simp add: fast_classifier_post_routing_def d locked fc_unlocked_def run)
  have sent: "fc_sent (fc_learn_conn H ?v ?al ct sic' s) = fc_sent s" "fc_m (fc_learn_conn H ?v ?al ct sic' s) = fc_m s"
    by (auto simp: fc_learn_conn_def fast_classifier_add_conn_def fc_hash_add_def Let_def split: option.split)
  show ?thesis
  proof (cases "fc_al_conn ?al = None \<or> \<not> fc_al_sic ?al \<or> ?r = None")
    case True
    then show ?thesis unfolding post using sent by (auto simp: fc_learn_conn_def split: option.split)
  next
    case False
    then obtain p devs where p: "fc_al_conn ?al = Some p" "fc_al_sic ?al" and r: "?r = Some devs" by auto
    have fp: "p \<notin> fc_live s" using fresh p(1) by (simp add: hook_fresh_def)
    note ef = sic' [OF r]
    then have pr: "fc_protocol (sic_protocol sic')" and k: "sic_fc_key ?v sic' = sic_fc_key ?v sic"
      using describe_protocol [OF d] by (simp_all add: entry_for_def)
    note n = learn_conn_new [OF I p fp pr new [folded k], of ct]
    then have "entry_added K h ct sic p devs s (fc_learn_conn H ?v ?al ct sic' s)"
      using ef by (auto simp: entry_added_def)
    then show ?thesis unfolding post using sent p r by simp
  qed
qed

section \<open>The end between look-up and rule\<close>

lemma locked_offload:
  assumes I: "fc_inv H E base s" and p: "p \<in> fc_live s" and k: "conn_fc_key (fc_conns s p) = sic_fc_key v sic"
    and due: "due s (fc_conns s p)" and st: "settled_for (cts (fc_m s) (fc_ct (fc_conns s p))) (fc_conns s p)"
  obtains s1 where "fc_locked H K v sic s = (FcOffload p, s1)" and "fc_inv H E base s1" and "fc_m s1 = fc_m s"
    and "conn_fc_key (fc_conns s1 p) = conn_fc_key (fc_conns s p)" and "p \<in> fc_live s1"
proof -
  let ?c = "fc_conns s p" and ?s1 = "upd_fc p (\<lambda>c. c\<lparr>hits := hits c + 1\<rparr>) s"
  note found = found_entry [OF I p k]
  have I1: "fc_inv H E base ?s1" using I by (subst upd_fc_inv) (auto intro: same_entryI)
  have pr1: "fc_protocol (sic_protocol (fc_sic (fc_conns ?s1 p)))" using found(3) by simp
  have st1: "settled_for (cts (fc_m s) (fc_ct ?c)) (fc_conns ?s1 p)" using st by (simp add: settled_for_def)
  obtain c' where c': "same_conn (fc_conns ?s1 p) c'"
    and upd: "fast_classifier_update_protocol K p (cts (fc_m s) (fc_ct ?c)) ?s1 = (True, upd_fc p (\<lambda>_. c') ?s1)"
    by (rule update_protocol_conv [OF pr1, of K "cts (fc_m s) (fc_ct ?c)"]) (use st1 in simp)
  have "fc_inv H E base (upd_fc p (\<lambda>_. c') ?s1)" using I1 c' by (subst upd_fc_inv) (auto simp: same_conn_def)
  moreover have "fc_locked H K v sic s = (FcOffload p, upd_fc p (\<lambda>_. c') ?s1)"
    using due upd by (simp add: fc_locked_def found(1) due_def Let_def)
  moreover have "conn_fc_key c' = conn_fc_key ?c"
    using c' by (simp add: same_conn_def same_entry_def conn_fc_key_def)
  ultimately show thesis using p by (intro that [of "upd_fc p (\<lambda>_. c') ?s1"]) simp_all
qed

end
