(* ===== verification/Fc_Props.thy ===== *)
theory Fc_Props
  imports Fc_End Sfe6_Props
begin

text \<open>
  The properties of the fast classifier as a whole, with a small machine on which they are applied: the
  connection of the demonstration of the connection manager, known to the classifier.
\<close>

section \<open>The machine\<close>

definition fcd_tuple :: fast_classifier_tuple where
  "fcd_tuple = \<lparr>fct_ethertype = 0, fct_proto = 0, fct_src_saddr = v4_addr 0, fct_dst_saddr = v4_addr 0, fct_sport = 0,
     fct_dport = 0, fct_smac = (\<lambda>_. 0), fct_dmac = (\<lambda>_. 0)\<rparr>"

definition fcd_conn :: sfe_connection where
  "fcd_conn = \<lparr>fc_sic = demo_sic, fc_ct = 0, hits = 0, offload_permit = False, offloaded = False, fc_is_v4 = True,
     fc_smac = (\<lambda>_. 0), fc_dmac = (\<lambda>_. 0)\<rparr>"

definition fcd_mem :: fast_classifier where
  "fcd_mem = \<lparr>fc_m = \<lparr>cm_v4 = blank_mem, cm_v6 = blank_mem6, cm_exceptions = (\<lambda>_. 0), cts = (\<lambda>_. demo_ct),
       ct_refs = (\<lambda>_. 0), neigh_refs = (\<lambda>_. 0), dst_refs = (\<lambda>_. 0)\<rparr>,
     fc_conns = (\<lambda>_. fcd_conn), fc_live = {}, fc_conn_ht = (\<lambda>_. []), sfe_connections_size = 0,
     fc_exceptions = (\<lambda>_. 0), offload_at_pkts = 0, skip_to_bridge_ingress = False, offload_msgs = 0,
     offload_no_match_msgs = 0, offloaded_msgs = 0, done_msgs = 0, offloaded_fail_msgs = 0, done_fail_msgs = 0,
     fc_sent = [], br_stats = []\<rparr>"

text \<open>The module after its start, and with an entry for a connection of the given message.\<close>

definition fcd_start :: fast_classifier where
  "fcd_start = fc_register_callbacks (Some 7) (fc_start fcd_mem)"

definition fcd_alloc :: fc_allocation where
  "fcd_alloc = \<lparr>fc_al_conn = Some 0, fc_al_sic = True\<rparr>"

definition fcd_with :: "sfe_connection_create \<Rightarrow> fast_classifier" where
  "fcd_with sic = fc_learn_conn (\<lambda>k. k) True fcd_alloc 0 sic fcd_start"

definition fcd_hook :: fc_hook where
  "fcd_hook = \<lparr>hk_is_v4 = True, hk_packet = demo_pkt, hk_mark = 0, hk_rule_alloc = demo_alloc,
     hk_conn_alloc = \<lparr>fc_al_conn = Some 1, fc_al_sic = True\<rparr>, hk_jiffies = 100, hk_netlink = Some 0, hk_junk = fcd_tuple\<rparr>"

lemma fcd_start_inv: "fc_inv H demo_env no_refs fcd_start"
  using register_inv [OF fc_start_inv, of H demo_env fcd_mem "Some 7"]
  by (simp add: fcd_start_def fcd_mem_def blank_mem_def no_refs_def)

lemma fcd_start_simps:
  "fc_live fcd_start = {}" "fc_conn_ht fcd_start = (\<lambda>_. [])" "cts (fc_m fcd_start) = (\<lambda>_. demo_ct)"
  "sfe_connections_size fcd_start = 0" "offload_at_pkts fcd_start = 128" "fc_sent fcd_start = []"
  "conn_live (cm_v4 (fc_m fcd_start)) = {}" "cm_live (cm_v4 (fc_m fcd_start)) = {}" "offload_msgs fcd_start = 0"
  "offload_no_match_msgs fcd_start = 0"
  by (simp_all add: fcd_start_def fc_register_callbacks_def fc_start_def fc_load_def fcd_mem_def on_cm_def dual_start_def
      engine_start_def sfe_ipv4_register_sync_rule_callback_def)

lemma fcd_with_inv: "fc_protocol (sic_protocol sic) \<Longrightarrow> fc_inv (\<lambda>k. k) demo_env no_refs (fcd_with sic)"
  unfolding fcd_with_def by (rule learn_conn_inv [OF fcd_start_inv]) (simp_all add: fcd_start_simps)

lemma fcd_with_simps:
  "fc_live (fcd_with sic) = {0}" "fc_conns (fcd_with sic) 0 = fc_new_conn True 0 sic"
  "fc_m (fcd_with sic) = fc_m fcd_start" "offload_at_pkts (fcd_with sic) = 128" "fc_sent (fcd_with sic) = []"
proof -
  let ?s1 = "fcd_start\<lparr>fc_conns := (fc_conns fcd_start)(0 := fc_new_conn True 0 sic), fc_live := insert 0 (fc_live fcd_start)\<rparr>"
  have "fast_classifier_find_conn (\<lambda>k. k) a b p q pr v ?s1 = None" for a b p q pr v
    by (simp add: fast_classifier_find_conn_def fcd_start_simps)
  then have "fcd_with sic = snd (fast_classifier_add_conn (\<lambda>k. k) 0 ?s1)"
    by (simp add: fcd_with_def fc_learn_conn_def fcd_alloc_def fast_classifier_add_conn_def Let_def)
  moreover have "fast_classifier_find_conn (\<lambda>k. k) a b p q pr v ?s1 = None" for a b p q pr v
    by (simp add: fast_classifier_find_conn_def fcd_start_simps)
  ultimately show "fc_live (fcd_with sic) = {0}" "fc_conns (fcd_with sic) 0 = fc_new_conn True 0 sic"
    "fc_m (fcd_with sic) = fc_m fcd_start" "offload_at_pkts (fcd_with sic) = 128" "fc_sent (fcd_with sic) = []"
    by (simp_all add: fast_classifier_add_conn_def fc_hash_add_def Let_def fcd_start_simps)
qed

lemma fcd_described:
  obtains sic where "fc_describe demo_env demo_cmk True demo_pkt (\<lambda>_. demo_ct) = Inr (0, sic)"
    and "sic_fc_key True sic = sic_fc_key True demo_sic"
proof -
  have "\<exists>sic. fc_describe demo_env demo_cmk True demo_pkt (\<lambda>_. demo_ct) = Inr (0, sic) \<and>
      sic_fc_key True sic = sic_fc_key True demo_sic"
    by (simp add: fc_describe_def fc_admit_def fc_describe_addresses_def fc_describe_transport_def describe_ports_def
        describe_priority_def describe_dscp_def demo_pkt_def demo_cmk_def demo_ct_def demo_orig_def demo_reply_def
        demo_env_def zero_sic_def zero_ip_addr_def v4_addr_def ipv4_is_multicast_def ntohl_def ntohs_def
        sic_fc_key_def tuple_fc_key_def demo_sic_def IPPROTO_TCP_def IPPROTO_UDP_def Let_def)
  then show thesis using that by blast
qed

lemma fcd_cmk_fit: "\<forall>d. dev_addr_len demo_cmk d \<le> ETH_ALEN"
  by (simp add: demo_cmk_def ETH_ALEN_def)

lemma fcd_fresh: "hook_fresh fcd_hook fcd_start" "hook_fresh fcd_hook (fcd_with sic)"
  by (simp_all add: hook_fresh_def fcd_hook_def alloc_fresh_def demo_alloc_def fcd_start_simps fcd_with_simps)

section \<open>Every run\<close>

text \<open>
  C19: In every state the module reaches after its start the table lists each entry once, in the bucket of
  its key and with a key of its own, its size is the number of entries, the announcements of offloaded
  connections to user space are as many as the announcements of their end and the entries that are
  offloaded now, both engines are consistent, and no reference on a neighbour, a route or a tracked
  connection has been kept. (No device has hardware addresses longer than six bytes.)\<close>

theorem classifier_invariant:
  assumes run: "fc_run E N K H (fc_register_callbacks (Some cb) (fc_start mem)) t"
    and fit: "\<forall>d. dev_addr_len K d \<le> ETH_ALEN" and N: "kernel_ok N"
  shows "fc_table_inv H t \<and> fc_books t \<and> dual_inv E (dev_refcnt (cm_v4 (fc_m mem))) (fc_m t) \<and>
    kept_refs (fc_m mem) (fc_m t)"
proof -
  have "fc_inv H E (dev_refcnt (cm_v4 (fc_m mem))) (fc_register_callbacks (Some cb) (fc_start mem))"
    by (rule register_inv [OF fc_start_inv])
  from fc_run_inv [OF run this fit N] show ?thesis
    by (simp_all add: fc_inv_def fc_refs_def fc_register_callbacks_def fc_start_def fc_load_def dual_start_def kept_refs_def)
qed

theorem classifier_invariant_witness:
  "\<exists>t. fc_run demo_env demo_kernel demo_cmk (\<lambda>k. k) fcd_start t \<and>
    fast_classifier_post_routing demo_env (\<lambda>k. k) demo_cmk fcd_hook fcd_start \<noteq> None \<and>
    fc_table_inv (\<lambda>k. k) t \<and> fc_books t \<and> dual_inv demo_env (dev_refcnt (cm_v4 (fc_m fcd_mem))) (fc_m t) \<and>
    kept_refs (fc_m fcd_mem) (fc_m t)"
proof -
  obtain u where u: "fast_classifier_post_routing demo_env (\<lambda>k. k) demo_cmk fcd_hook fcd_start = Some u"
    using post_routing_keeps [OF fcd_start_inv fcd_cmk_fit fcd_fresh(1), of "\<lambda>k. k"] by (auto simp: keeps_def)
  have run: "fc_run demo_env demo_kernel demo_cmk (\<lambda>k. k) fcd_start (fc_report demo_cmk fcd_start u)"
    by (rule fc_more [OF fc_none fc_leaves [OF u fcd_fresh(1)]])
  with classifier_invariant [OF run [unfolded fcd_start_def] fcd_cmk_fit demo_kernel_ok] u show ?thesis
    unfolding fcd_start_def by blast
qed

text \<open>
  In every state the module reaches, every entry point of the fast classifier returns: no freed entry
  is read and no NULL link followed. (The hypotheses are restrictions: no device has hardware addresses longer than
  six bytes, and a TCP packet has the options it claims in the linear area.)\<close>

theorem classifier_returns:
  assumes run: "fc_run E N K H (fc_register_callbacks (Some cb) (fc_start mem)) t"
    and fit: "\<forall>d. dev_addr_len K d \<le> ETH_ALEN" and N: "kernel_ok N"
  shows "\<forall>h. hook_fresh h t \<longrightarrow> fast_classifier_post_routing E H K h t \<noteq> None"
    and "\<forall>skb. skb_fine skb \<longrightarrow> fast_classifier_recv E N K proto skb sis now t \<noteq> None"
    and "fast_classifier_conntrack_event E H sis now ev ct t \<noteq> None"
    and "fast_classifier_device_event E sis nows event dev t \<noteq> None"
    and "fast_classifier_inet_event E sis nows event dev t \<noteq> None"
    and "fast_classifier_inet6_event E sis nows event dev t \<noteq> None"
    and "fc_tick4 sis now t \<noteq> None" and "fc_tick6 sis now t \<noteq> None"
proof -
  have "fc_inv H E (dev_refcnt (cm_v4 (fc_m mem))) (fc_register_callbacks (Some cb) (fc_start mem))"
    by (rule register_inv [OF fc_start_inv])
  from fc_run_inv [OF run this fit N] have I: "fc_inv H E (dev_refcnt (cm_v4 (fc_m mem))) t" by blast
  have k: "r \<noteq> None" if "keeps H E (dev_refcnt (cm_v4 (fc_m mem))) t r" for r using that by (auto simp: keeps_def)
  show "\<forall>h. hook_fresh h t \<longrightarrow> fast_classifier_post_routing E H K h t \<noteq> None"
    using k [OF post_routing_keeps [OF I fit]] by blast
  show "\<forall>skb. skb_fine skb \<longrightarrow> fast_classifier_recv E N K proto skb sis now t \<noteq> None"
  proof (intro allI impI)
    fix skb
    assume "skb_fine skb"
    then show "fast_classifier_recv E N K proto skb sis now t \<noteq> None"
      by (rule recv_kept [OF I N, where K = K and proto = proto and sis = sis and now = now]) simp
  qed
  show "fast_classifier_conntrack_event E H sis now ev ct t \<noteq> None" by (rule k [OF conntrack_event_keeps [OF I]])
  show "fast_classifier_device_event E sis nows event dev t \<noteq> None"
    "fast_classifier_inet_event E sis nows event dev t \<noteq> None"
    "fast_classifier_inet6_event E sis nows event dev t \<noteq> None"
    by (rule k [OF device_events_keep(1) [OF I]] k [OF device_events_keep(2) [OF I]] k [OF device_events_keep(3) [OF I]])+
  show "fc_tick4 sis now t \<noteq> None" "fc_tick6 sis now t \<noteq> None"
    by (rule k [OF ticks_keep(1) [OF I]] k [OF ticks_keep(2) [OF I]])+
qed

theorem classifier_returns_witness:
  "fc_run demo_env demo_kernel demo_cmk (\<lambda>k. k) fcd_start fcd_start \<and>
   fast_classifier_post_routing demo_env (\<lambda>k. k) demo_cmk fcd_hook fcd_start \<noteq> None \<and>
   fast_classifier_device_event demo_env demo_sis (\<lambda>_. 9) NETDEV_DOWN (Some 1) fcd_start \<noteq> None"
proof -
  have run: "fc_run demo_env demo_kernel demo_cmk (\<lambda>k. k) fcd_start fcd_start" by (rule fc_none)
  note r = classifier_returns [OF run [unfolded fcd_start_def] fcd_cmk_fit demo_kernel_ok, folded fcd_start_def]
  have "fast_classifier_post_routing demo_env (\<lambda>k. k) demo_cmk fcd_hook fcd_start \<noteq> None"
    using r(1) fcd_fresh(1) by blast
  with r(4) [of demo_sis "\<lambda>_. 9" NETDEV_DOWN "Some 1"] run show ?thesis by blast
qed

section \<open>Packets of a known connection\<close>

text \<open>
  C22: A packet of a connection that has an entry counts as one hit of this entry and changes no other. The
  entry becomes a rule exactly when it is not one yet, user space has asked for it or the threshold is
  reached, the connection is established if it is TCP, and the engine can take the rule; then, and only
  then, user space is told, and the engine has the rule.\<close>

theorem packet_counts_and_offloads:
  assumes I: "fc_inv H E base s" and fit: "\<forall>d. dev_addr_len K d \<le> ETH_ALEN" and fresh: "hook_fresh h s"
    and d: "fc_describe E K (hk_is_v4 h) (hk_packet h) (cts (fc_m s)) = Inr (ct, sic)"
    and p: "p \<in> fc_live s" and k: "conn_fc_key (fc_conns s p) = sic_fc_key (hk_is_v4 h) sic"
  shows "\<exists>t. fast_classifier_post_routing E H K h s = Some t \<and> fc_inv H E base t \<and> packet_effect E h sic p s t"
proof -
  obtain t where t: "fast_classifier_post_routing E H K h s = Some t" and e: "packet_effect E h sic p s t"
    using post_routing_effect [OF I fresh d p k] by blast
  have "fc_inv H E base t" using post_routing_keeps [OF I fit fresh] t by (simp add: keeps_def)
  with t e show ?thesis by blast
qed

lemma fcd_key: "conn_fc_key (fc_conns (fcd_with demo_sic) 0) = sic_fc_key True demo_sic"
  by (simp add: fcd_with_simps fc_new_conn_def conn_fc_key_def)

lemma demo_sic_protocol: "fc_protocol (sic_protocol demo_sic)"
  by (simp add: demo_sic_def fc_protocol_def IPPROTO_UDP_def)

theorem packet_counts_and_offloads_witness:
  "\<exists>t. fast_classifier_post_routing demo_env (\<lambda>k. k) demo_cmk fcd_hook (fcd_with demo_sic) = Some t \<and>
    hits (fc_conns t 0) = 1 \<and> \<not> offloaded (fc_conns t 0)"
proof -
  obtain sic where d: "fc_describe demo_env demo_cmk True demo_pkt (\<lambda>_. demo_ct) = Inr (0, sic)"
    and k: "sic_fc_key True sic = sic_fc_key True demo_sic" by (rule fcd_described)
  have "fc_describe demo_env demo_cmk (hk_is_v4 fcd_hook) (hk_packet fcd_hook) (cts (fc_m (fcd_with demo_sic))) = Inr (0, sic)"
    using d by (simp add: fcd_hook_def fcd_with_simps fcd_start_simps)
  moreover have "conn_fc_key (fc_conns (fcd_with demo_sic) 0) = sic_fc_key (hk_is_v4 fcd_hook) sic"
    using k by (simp add: fcd_key fcd_hook_def)
  ultimately obtain t where "fast_classifier_post_routing demo_env (\<lambda>k. k) demo_cmk fcd_hook (fcd_with demo_sic) = Some t"
    "packet_effect demo_env fcd_hook sic 0 (fcd_with demo_sic) t"
    using packet_counts_and_offloads [OF fcd_with_inv [OF demo_sic_protocol] fcd_cmk_fit fcd_fresh(2)]
    by (auto simp: fcd_with_simps)
  then show ?thesis
    by (intro exI [of _ t]) (simp add: packet_effect_def fcd_with_simps fc_new_conn_def due_def Let_def)
qed





section \<open>From the first packet to the last\<close>

text \<open>
  C28: The first packet of a qualifying connection makes exactly one entry, with the key, the tracked
  connection and the devices its addresses resolve to, if they resolve and memory is available; otherwise
  it makes none. It makes no rule, tells user space nothing and leaves the engines and all references as
  they were.\<close>

theorem first_packet_makes_entry:
  assumes I: "fc_inv H E base s" and fit: "\<forall>d. dev_addr_len K d \<le> ETH_ALEN" and fresh: "hook_fresh h s"
    and d: "fc_describe E K (hk_is_v4 h) (hk_packet h) (cts (fc_m s)) = Inr (ct, sic)"
    and new: "\<forall>q\<in>fc_live s. conn_fc_key (fc_conns s q) \<noteq> sic_fc_key (hk_is_v4 h) sic"
  shows "\<exists>t. fast_classifier_post_routing E H K h s = Some t \<and> fc_inv H E base t \<and> fc_m t = fc_m s \<and> fc_sent t = fc_sent s \<and>
    (case (fc_al_conn (hk_conn_alloc h), resolve K (hk_is_v4 h) (hk_packet h) (sic_src_ip sic, sic_dest_ip sic)
         (sic_src_ip_xlate sic, sic_dest_ip_xlate sic)) of
       (Some p, Some devs) \<Rightarrow> if fc_al_sic (hk_conn_alloc h) then entry_added K h ct sic p devs s t else fc_live t = fc_live s
     | _ \<Rightarrow> fc_live t = fc_live s)"
proof -
  note first = post_routing_first [OF I fit fresh d new]
  have "fc_inv H E base t" if "fast_classifier_post_routing E H K h s = Some t" for t
    using post_routing_keeps [OF I fit fresh] that by (simp add: keeps_def)
  with first show ?thesis by blast
qed

lemma fcd_hook_simps:
  "hk_is_v4 fcd_hook = True" "hk_packet fcd_hook = demo_pkt" "fc_al_conn (hk_conn_alloc fcd_hook) = Some 1"
  "fc_al_sic (hk_conn_alloc fcd_hook)"
  by (simp_all add: fcd_hook_def)

lemma fcd_resolves:
  assumes "fc_describe demo_env demo_cmk True demo_pkt (\<lambda>_. demo_ct) = Inr (0, sic)"
  shows "resolve demo_cmk True demo_pkt (sic_src_ip sic, sic_dest_ip sic) (sic_src_ip_xlate sic, sic_dest_ip_xlate sic) =
    Some (1, 2)"
  using assms
  by (auto simp: fc_describe_def fc_admit_def fc_describe_addresses_def fc_describe_transport_def describe_ports_def
      describe_priority_def describe_dscp_def demo_pkt_def demo_cmk_def demo_ct_def demo_orig_def demo_reply_def
      demo_env_def zero_sic_def zero_ip_addr_def v4_addr_def ipv4_is_multicast_def ntohl_def ntohs_def
      IPPROTO_TCP_def IPPROTO_UDP_def Let_def resolve_def neighbour_def bridged_def)

theorem first_packet_makes_entry_witness:
  "\<exists>t. fast_classifier_post_routing demo_env (\<lambda>k. k) demo_cmk fcd_hook fcd_start = Some t \<and>
    fc_live t = {1} \<and> conn_fc_key (fc_conns t 1) = sic_fc_key True demo_sic \<and> sic_dest_dev (fc_sic (fc_conns t 1)) = 2"
proof -
  obtain sic where d: "fc_describe demo_env demo_cmk True demo_pkt (\<lambda>_. demo_ct) = Inr (0, sic)"
    and k: "sic_fc_key True sic = sic_fc_key True demo_sic" by (rule fcd_described)
  have "fc_describe demo_env demo_cmk (hk_is_v4 fcd_hook) (hk_packet fcd_hook) (cts (fc_m fcd_start)) = Inr (0, sic)"
    using d by (simp add: fcd_hook_simps fcd_start_simps)
  from first_packet_makes_entry [OF fcd_start_inv fcd_cmk_fit fcd_fresh(1) this]
  obtain t where t: "fast_classifier_post_routing demo_env (\<lambda>k. k) demo_cmk fcd_hook fcd_start = Some t"
    and e: "entry_added demo_cmk fcd_hook 0 sic 1 (1, 2) fcd_start t"
    using fcd_resolves [OF d] by (auto simp: fcd_start_simps fcd_hook_simps)
  then obtain sic' where "fc_conns t 1 = fc_new_conn True 0 sic'" "entry_for demo_cmk (hk_mark fcd_hook) sic (1, 2) sic'"
    "fc_live t = {1}"
    by (auto simp: entry_added_def fcd_start_simps fcd_hook_simps)
  with t k show ?thesis by (intro exI [of _ t]) (simp add: conn_fc_key_def fc_new_conn_def entry_for_def)
qed

text \<open>
  C33: The end of a tracked connection takes exactly the entry with its key out of the table and exactly
  the rule with its key out of the engines, whether or not the mark changed with the same event, and
  tells user space once if, and only if, the entry was announced as offloaded.\<close>

theorem event_ends_entry_and_rule:
  assumes I: "fc_inv H E base s" and k: "ct_fc_key (ct_orig (cts (fc_m s) c)) = Some k" and d: "ev_destroy ev"
  shows "\<exists>t. fast_classifier_conntrack_event E H sis now ev (Some c) s = Some t \<and> fc_inv H E base t \<and> end_effect E k s t"
  using conntrack_event_effect [OF I k d, of sis now] conntrack_event_keeps [OF I, of sis now ev "Some c"]
  by (auto simp: keeps_def)

definition fcd_event :: fc_event where
  "fcd_event = \<lparr>ev_mark = True, ev_destroy = True, ev_ct_mark = 5, ev_junk = demo_sid, ev_msg = fcd_tuple, ev_netlink = None\<rparr>"

lemma fcd_ct_key: "ct_fc_key (ct_orig demo_ct) = Some (sic_fc_key True demo_sic)"
  by (simp add: ct_fc_key_def demo_ct_def demo_orig_def demo_sic_def sic_fc_key_def tuple_fc_key_def fc_protocol_def
      IPPROTO_UDP_def AF_INET_def v4_addr_def)

theorem event_ends_entry_and_rule_witness:
  "\<exists>t. fast_classifier_conntrack_event demo_env (\<lambda>k. k) demo_sis 9 fcd_event (Some 0) (fcd_with demo_sic) = Some t \<and>
    fc_live t = {} \<and> fc_sent t = []"
proof -
  have "ct_fc_key (ct_orig (cts (fc_m (fcd_with demo_sic)) 0)) = Some (sic_fc_key True demo_sic)"
    by (simp add: fcd_with_simps fcd_start_simps fcd_ct_key)
  moreover have "ev_destroy fcd_event" by (simp add: fcd_event_def)
  ultimately obtain t where "fast_classifier_conntrack_event demo_env (\<lambda>k. k) demo_sis 9 fcd_event (Some 0) (fcd_with demo_sic) = Some t"
    "end_effect demo_env (sic_fc_key True demo_sic) (fcd_with demo_sic) t"
    using event_ends_entry_and_rule [OF fcd_with_inv [OF demo_sic_protocol], of 0 _ fcd_event demo_sis 9] by blast
  moreover have "{p \<in> fc_live (fcd_with demo_sic). conn_fc_key (fc_conns (fcd_with demo_sic) p) \<noteq> sic_fc_key True demo_sic} = {}"
    using fcd_key unfolding fcd_with_simps(1) by blast
  moreover have "\<not> (\<exists>p\<in>fc_live (fcd_with demo_sic). conn_fc_key (fc_conns (fcd_with demo_sic) p) = sic_fc_key True demo_sic \<and>
      offloaded (fc_conns (fcd_with demo_sic) p))"
    by (simp add: fcd_with_simps(1,2) fc_new_conn_def)
  ultimately show ?thesis by (intro exI [of _ t]) (simp add: end_effect_def fcd_with_simps(5))
qed

text \<open>
  C36: Between the look-up of a packet that is to make a rule, under the lock, and the creation of the
  rule, without it, the end of the connection may be handled on another processor: then the entry has been
  freed when its message is read. Without the event in between the hook goes on safely.\<close>

theorem offload_races_with_end:
  assumes I: "fc_inv H E base s" and fit: "\<forall>d. dev_addr_len K d \<le> ETH_ALEN" and fresh: "hook_fresh h s"
    and d: "fc_describe E K (hk_is_v4 h) (hk_packet h) (cts (fc_m s)) = Inr (ct, sic)"
    and p: "p \<in> fc_live s" and k: "conn_fc_key (fc_conns s p) = sic_fc_key (hk_is_v4 h) sic"
    and due: "due s (fc_conns s p)" and st: "settled_for (cts (fc_m s) (fc_ct (fc_conns s p))) (fc_conns s p)"
    and c: "ct_fc_key (ct_orig (cts (fc_m s) c)) = Some (sic_fc_key (hk_is_v4 h) sic)" and ev: "ev_destroy ev"
  shows "\<exists>s1 t. fc_locked H K (hk_is_v4 h) sic s = (FcOffload p, s1) \<and>
    fc_unlocked E H K h ct sic (FcOffload p) s1 \<noteq> None \<and>
    fast_classifier_conntrack_event E H sis now ev (Some c) s1 = Some t \<and>
    fc_unlocked E H K h ct sic (FcOffload p) t = None"
proof -
  obtain s1 where s1: "fc_locked H K (hk_is_v4 h) sic s = (FcOffload p, s1)" "fc_inv H E base s1" "fc_m s1 = fc_m s"
    "conn_fc_key (fc_conns s1 p) = conn_fc_key (fc_conns s p)" by (rule locked_offload [OF I p k due st])
  have "fc_unlocked E H K h ct sic (FcOffload p) s1 \<noteq> None"
    using post_routing_keeps [OF I fit fresh] by (auto simp: fast_classifier_post_routing_def d s1(1) keeps_def)
  moreover obtain t where t: "fast_classifier_conntrack_event E H sis now ev (Some c) s1 = Some t"
    "end_effect E (sic_fc_key (hk_is_v4 h) sic) s1 t"
    using conntrack_event_effect [OF s1(2) c [folded s1(3)] ev] by blast
  have "p \<notin> fc_live t" using t(2) s1(4) k by (simp add: end_effect_def)
  then have "fc_unlocked E H K h ct sic (FcOffload p) t = None" by (simp add: fc_unlocked_def fc_offload_def)
  ultimately show ?thesis using s1(1) t(1) by blast
qed

theorem offload_races_with_end_witness:
  "\<exists>sic s1 t. fc_locked (\<lambda>k. k) demo_cmk True sic ((fcd_with demo_sic)\<lparr>offload_at_pkts := 1\<rparr>) = (FcOffload 0, s1) \<and>
    fast_classifier_conntrack_event demo_env (\<lambda>k. k) demo_sis 9 fcd_event (Some 0) s1 = Some t \<and>
    fc_unlocked demo_env (\<lambda>k. k) demo_cmk fcd_hook 0 sic (FcOffload 0) t = None"
proof -
  let ?s = "(fcd_with demo_sic)\<lparr>offload_at_pkts := 1\<rparr>"
  have I: "fc_inv (\<lambda>k. k) demo_env no_refs ?s" using fcd_with_inv [OF demo_sic_protocol] by simp
  have fr: "hook_fresh fcd_hook ?s" using fcd_fresh(2) [of demo_sic] by (simp add: hook_fresh_def)
  obtain sic where d: "fc_describe demo_env demo_cmk True demo_pkt (\<lambda>_. demo_ct) = Inr (0, sic)"
    and k: "sic_fc_key True sic = sic_fc_key True demo_sic" by (rule fcd_described)
  have d': "fc_describe demo_env demo_cmk (hk_is_v4 fcd_hook) (hk_packet fcd_hook) (cts (fc_m ?s)) = Inr (0, sic)"
    using d by (simp add: fcd_hook_simps fcd_with_simps fcd_start_simps)
  have 0: "0 \<in> fc_live ?s" "conn_fc_key (fc_conns ?s 0) = sic_fc_key (hk_is_v4 fcd_hook) sic" "due ?s (fc_conns ?s 0)"
    "settled_for (cts (fc_m ?s) (fc_ct (fc_conns ?s 0))) (fc_conns ?s 0)"
    "ct_fc_key (ct_orig (cts (fc_m ?s) 0)) = Some (sic_fc_key (hk_is_v4 fcd_hook) sic)" "ev_destroy fcd_event"
    using fcd_key k fcd_ct_key
    by (simp_all add: fcd_with_simps fcd_start_simps fcd_hook_simps due_def fc_new_conn_def settled_for_def demo_sic_def
        IPPROTO_TCP_def fcd_event_def)
  from offload_races_with_end [OF I fcd_cmk_fit fr d' 0, of demo_sis 9] show ?thesis
    by (simp add: fcd_hook_simps) blast
qed

section \<open>Requests of user space\<close>

text \<open>
  C34: A request of user space that names an entry, and no other one in either direction, is granted exactly
  when the tuple it names, with the translated destination, has the bucket of the entry, which is that of
  the original destination; otherwise it counts as a request without a match.\<close>

theorem request_found_by_bucket:
  assumes I: "fc_inv H E base s" and p: "p \<in> fc_live s"
    and names: "fc_is_sb (fc_conns s p) (fct_src_saddr m) (fct_dst_saddr m) (fct_sport m) (fct_dport m) (fct_proto m)
      (fct_ethertype m = AF_INET)"
    and only: "\<forall>q\<in>fc_live s. fc_is_sb (fc_conns s q) (fct_src_saddr m) (fct_dst_saddr m) (fct_sport m) (fct_dport m)
        (fct_proto m) (fct_ethertype m = AF_INET) \<or>
      fc_is_sb (fc_conns s q) (fct_dst_saddr m) (fct_src_saddr m) (fct_dport m) (fct_sport m)
        (fct_proto m) (fct_ethertype m = AF_INET) \<longrightarrow> q = p"
  shows "fast_classifier_offload_genl_msg H m s =
    (if H (fc_conn_hash (fct_src_saddr m) (fct_dst_saddr m) (fct_sport m) (fct_dport m) (fct_ethertype m = AF_INET)) =
        H (conn_fc_hash (fc_conns s p))
     then (upd_fc p (\<lambda>c. c\<lparr>offload_permit := True\<rparr>) s)\<lparr>offload_msgs := offload_msgs s + 1\<rparr>
     else s\<lparr>offload_no_match_msgs := offload_no_match_msgs s + 1\<rparr>)"
proof -
  let ?v = "fct_ethertype m = AF_INET" and ?a = "fct_src_saddr m" and ?b = "fct_dst_saddr m"
  let ?x = "fct_sport m" and ?y = "fct_dport m" and ?h = "conn_fc_hash (fc_conns s p)"
  let ?P = "\<lambda>q. fc_is_sb (fc_conns s q) ?a ?b ?x ?y (fct_proto m) ?v"
  let ?R = "\<lambda>q. fc_is_sb (fc_conns s q) ?b ?a ?y ?x (fct_proto m) ?v"
  have bucket: "set (fc_conn_ht s i) = {q \<in> fc_live s. H (conn_fc_hash (fc_conns s q)) = i}" for i
    using I by (simp add: fc_inv_def fc_table_inv_def fc_listed_def)
  have turned: "fc_conn_hash ?b ?a ?y ?x ?v = fc_conn_hash ?a ?b ?x ?y ?v" if "?R p"
  proof -
    have "?x = ?y" using names that unfolding fc_is_sb_def Let_def by metis
    moreover have "if ?v then ip ?a = ip ?b else ?a = ?b"
      using names that unfolding fc_is_sb_def Let_def addr_equal_iff by metis
    ultimately show ?thesis by (cases ?v) (simp_all add: fc_conn_hash_def)
  qed
  have "fast_classifier_sb_find_conn H ?a ?b ?x ?y (fct_proto m) ?v s =
      (if H (fc_conn_hash ?a ?b ?x ?y ?v) = H ?h then Some p else None)"
  proof (cases "H (fc_conn_hash ?a ?b ?x ?y ?v) = H ?h")
    case True
    have "List.find ?P (fc_conn_ht s (H ?h)) = Some p"
    proof (rule find_unique)
      show "p \<in> set (fc_conn_ht s (H ?h))" using p by (simp add: bucket)
      show "?P p" by (rule names)
      show "q = p" if "q \<in> set (fc_conn_ht s (H ?h))" "?P q" for q using that only unfolding bucket by blast
    qed
    then show ?thesis using True by (simp add: fast_classifier_sb_find_conn_def)
  next
    case False
    have "List.find ?P (fc_conn_ht s (H (fc_conn_hash ?a ?b ?x ?y ?v))) = None"
    proof -
      have "\<not> ?P q" if "q \<in> set (fc_conn_ht s (H (fc_conn_hash ?a ?b ?x ?y ?v)))" for q
      proof
        assume "?P q"
        then have "q = p" using that only unfolding bucket by blast
        then show False using that False unfolding bucket by simp
      qed
      then show ?thesis by (auto simp: find_None_iff)
    qed
    moreover have "List.find ?R (fc_conn_ht s (H (fc_conn_hash ?b ?a ?y ?x ?v))) = None"
    proof -
      have "\<not> ?R q" if "q \<in> set (fc_conn_ht s (H (fc_conn_hash ?b ?a ?y ?x ?v)))" for q
      proof
        assume R: "?R q"
        then have "q = p" using that only unfolding bucket by blast
        then show False using that False turned R unfolding bucket by simp
      qed
      then show ?thesis by (auto simp: find_None_iff)
    qed
    ultimately show ?thesis using False by (simp add: fast_classifier_sb_find_conn_def)
  qed
  then show ?thesis by (simp add: fast_classifier_offload_genl_msg_def Let_def upd_fc_def)
qed

text \<open>A request for the connection of a message, as it is announced.\<close>

definition fcd_request :: "sfe_connection_create \<Rightarrow> fast_classifier_tuple" where
  "fcd_request sic = fc_tuple True fcd_tuple sic fcd_conn"

lemma fcd_request_granted:
  assumes "sic_protocol sic = IPPROTO_UDP" and "sic_src_ip sic = v4_addr 0x0a000002" and "sic_dest_ip_xlate sic = v4_addr 0x08080808"
  shows "fc_is_sb (fc_conns (fcd_with sic) 0) (fct_src_saddr (fcd_request sic)) (fct_dst_saddr (fcd_request sic))
      (fct_sport (fcd_request sic)) (fct_dport (fcd_request sic)) (fct_proto (fcd_request sic)) (fct_ethertype (fcd_request sic) = AF_INET)"
  using assms
  by (simp add: fcd_with_simps fcd_request_def fc_tuple_def fcd_tuple_def fcd_conn_def fc_new_conn_def fc_is_sb_def
      addr_equal_iff v4_addr_def IPPROTO_UDP_def Let_def)

theorem request_found_by_bucket_witness:
  "offload_permit (fc_conns (fast_classifier_offload_genl_msg (\<lambda>k. k) (fcd_request demo_sic) (fcd_with demo_sic)) 0) \<and>
   (let sic = demo_sic\<lparr>sic_dest_port := 8080\<rparr>
    in \<not> offload_permit (fc_conns (fast_classifier_offload_genl_msg (\<lambda>k. k) (fcd_request sic) (fcd_with sic)) 0))"
proof -
  let ?sic = "demo_sic\<lparr>sic_dest_port := 8080\<rparr>"
  have f: "sic_protocol s = IPPROTO_UDP \<and> sic_src_ip s = v4_addr 0x0a000002 \<and> sic_dest_ip_xlate s = v4_addr 0x08080808"
    if "s = demo_sic \<or> s = ?sic" for s
    using that by (auto simp: demo_sic_def IPPROTO_UDP_def)
  have r: "fast_classifier_offload_genl_msg (\<lambda>k. k) (fcd_request s) (fcd_with s) =
    (if fc_conn_hash (fct_src_saddr (fcd_request s)) (fct_dst_saddr (fcd_request s)) (fct_sport (fcd_request s))
         (fct_dport (fcd_request s)) (fct_ethertype (fcd_request s) = AF_INET) = conn_fc_hash (fc_conns (fcd_with s) 0)
     then (upd_fc 0 (\<lambda>c. c\<lparr>offload_permit := True\<rparr>) (fcd_with s))\<lparr>offload_msgs := offload_msgs (fcd_with s) + 1\<rparr>
     else (fcd_with s)\<lparr>offload_no_match_msgs := offload_no_match_msgs (fcd_with s) + 1\<rparr>)"
    if "s = demo_sic \<or> s = ?sic" for s
  proof (rule request_found_by_bucket)
    show "fc_inv (\<lambda>k. k) demo_env no_refs (fcd_with s)"
      using f [OF that] by (intro fcd_with_inv) (simp add: fc_protocol_def)
    show "fc_is_sb (fc_conns (fcd_with s) 0) (fct_src_saddr (fcd_request s)) (fct_dst_saddr (fcd_request s))
      (fct_sport (fcd_request s)) (fct_dport (fcd_request s)) (fct_proto (fcd_request s)) (fct_ethertype (fcd_request s) = AF_INET)"
      by (rule fcd_request_granted) (use f [OF that] in simp_all)
  qed (simp_all add: fcd_with_simps)
  note v = fcd_request_def fc_tuple_def fcd_tuple_def fcd_conn_def fcd_with_simps fc_new_conn_def conn_fc_hash_def
    fc_conn_hash_def demo_sic_def v4_addr_def Let_def
  have "offload_permit (fc_conns (fast_classifier_offload_genl_msg (\<lambda>k. k) (fcd_request demo_sic) (fcd_with demo_sic)) 0)"
    by (subst r) (simp_all add: v)
  moreover have "\<not> offload_permit (fc_conns (fast_classifier_offload_genl_msg (\<lambda>k. k) (fcd_request ?sic) (fcd_with ?sic)) 0)"
    by (subst r) (simp_all add: v)
  ultimately show ?thesis by (simp add: Let_def)
qed

section \<open>The module\<close>

text \<open>
  C38: A start that fails leaves nothing registered. After one that succeeds, and any run, the end of the module
  returns, unregisters everything, empties both engines and returns every reference; but the entries of the
  table are all still in memory, although nothing refers to them any more.\<close>

theorem classifier_module_ends:
  assumes init: "fast_classifier_init C R cb (fc_start mem) = (result, held, s)"
    and run: "fc_run E N K H s t" and fit: "\<forall>d. dev_addr_len K d \<le> ETH_ALEN" and N: "kernel_ok N"
  shows "(result \<noteq> 0 \<longrightarrow> held = {}) \<and> (result = 0 \<longrightarrow> held = UNIV \<and>
    (\<exists>u. fast_classifier_exit E sis nows (held, t) = Some ({}, u) \<and> dev_refcnt (cm_v4 (fc_m u)) = dev_refcnt (cm_v4 (fc_m mem)) \<and>
       conn_live (cm_v4 (fc_m u)) = {} \<and> cm_live (cm_v4 (fc_m u)) = {} \<and> conn_live6 (cm_v6 (fc_m u)) = {} \<and>
       cm_live6 (cm_v6 (fc_m u)) = {} \<and> kept_refs (fc_m mem) (fc_m u) \<and> fc_live u = fc_live t))"
proof -
  let ?base = "dev_refcnt (cm_v4 (fc_m mem))"
  have ht: "(fc_start mem)\<lparr>fc_conn_ht := (\<lambda>_. [])\<rparr> = fc_start mem" by (simp add: fc_start_def fc_load_def)
  note o = fc_init_outcome [OF init, unfolded ht]
  have "result \<noteq> 0 \<longrightarrow> held = {}" using o by blast
  moreover have "result = 0 \<longrightarrow> held = UNIV \<and>
    (\<exists>u. fast_classifier_exit E sis nows (held, t) = Some ({}, u) \<and> dev_refcnt (cm_v4 (fc_m u)) = ?base \<and>
       conn_live (cm_v4 (fc_m u)) = {} \<and> cm_live (cm_v4 (fc_m u)) = {} \<and> conn_live6 (cm_v6 (fc_m u)) = {} \<and>
       cm_live6 (cm_v6 (fc_m u)) = {} \<and> kept_refs (fc_m mem) (fc_m u) \<and> fc_live u = fc_live t)"
  proof
    assume "result = 0"
    then have held: "held = UNIV" and s: "s = fc_register_callbacks (Some cb) (fc_start mem)" using o by blast+
    have "fc_inv H E ?base s" unfolding s by (rule register_inv [OF fc_start_inv])
    from fc_run_inv [OF run this fit N] have I: "fc_inv H E ?base t" and r: "fc_refs s t" by blast+
    have r0: "kept_refs (fc_m mem) (fc_m s)"
      by (simp add: s fc_register_callbacks_def fc_start_def fc_load_def dual_start_def kept_refs_def)
    obtain u where u: "fast_classifier_exit E sis nows (UNIV, t) = Some ({}, u)" "dev_refcnt (cm_v4 (fc_m u)) = ?base"
      "conn_live (cm_v4 (fc_m u)) = {}" "cm_live (cm_v4 (fc_m u)) = {}" "conn_live6 (cm_v6 (fc_m u)) = {}"
      "cm_live6 (cm_v6 (fc_m u)) = {}" "fc_live u = fc_live t" "fc_refs t u" by (rule fc_exit_effect [OF I])
    have "kept_refs (fc_m mem) (fc_m u)" using r0 r u(8) by (simp add: fc_refs_def kept_refs_def)
    with u held show "held = UNIV \<and> (\<exists>u. fast_classifier_exit E sis nows (held, t) = Some ({}, u) \<and> dev_refcnt (cm_v4 (fc_m u)) = ?base \<and>
       conn_live (cm_v4 (fc_m u)) = {} \<and> cm_live (cm_v4 (fc_m u)) = {} \<and> conn_live6 (cm_v6 (fc_m u)) = {} \<and>
       cm_live6 (cm_v6 (fc_m u)) = {} \<and> kept_refs (fc_m mem) (fc_m u) \<and> fc_live u = fc_live t)" by blast
  qed
  ultimately show ?thesis by blast
qed

definition fcd_config :: cm_config where
  "fcd_config = \<lparr>conntrack_events = True, conntrack_chain_events = True\<rparr>"

definition fcd_answers :: fc_init_results where
  "fcd_answers = \<lparr>kobject_ok = True, at_pkts_file = 0, debug_info_file = 0, skip_bridge_file = 0, exceptions_file = 0,
     hooks_result = 0, notifier_result = 0, genl_result = 0\<rparr>"

lemma fcd_init: "fast_classifier_init fcd_config fcd_answers 7 (fc_start fcd_mem) =
    (0, fst (snd (fast_classifier_init fcd_config fcd_answers 7 (fc_start fcd_mem))), fcd_start)"
proof -
  have "(fc_start fcd_mem)\<lparr>fc_conn_ht := (\<lambda>_. [])\<rparr> = fc_start fcd_mem" by (simp add: fc_start_def fc_load_def)
  then show ?thesis by (simp add: fc_init_defs fcd_answers_def fcd_start_def)
qed

text \<open>The witness learns the connection of the demonstration; its entry is left behind.\<close>

lemma report_live: "fc_live (fc_report K s t) = fc_live t"
proof -
  have "fc_live (fast_classifier_sync_rule K m u) = fc_live u" for m u
    by (simp add: fast_classifier_sync_rule_def br_dev_update_stats_def Let_def on_cm_def split: option.split)
  then have "fc_live (fold (fast_classifier_sync_rule K) ms u) = fc_live u" for ms u by (induction ms arbitrary: u) simp_all
  then show ?thesis by (simp add: fc_report_def Let_def)
qed

theorem classifier_module_ends_witness:
  "\<exists>held t u. fast_classifier_init fcd_config fcd_answers 7 (fc_start fcd_mem) = (0, held, fcd_start) \<and>
    fc_run demo_env demo_kernel demo_cmk (\<lambda>k. k) fcd_start t \<and>
    fast_classifier_exit demo_env demo_sis (\<lambda>_. 9) (held, t) = Some ({}, u) \<and> fc_live u = {1}"
proof -
  obtain sic where d: "fc_describe demo_env demo_cmk True demo_pkt (\<lambda>_. demo_ct) = Inr (0, sic)"
    and k: "sic_fc_key True sic = sic_fc_key True demo_sic" by (rule fcd_described)
  have "fc_describe demo_env demo_cmk (hk_is_v4 fcd_hook) (hk_packet fcd_hook) (cts (fc_m fcd_start)) = Inr (0, sic)"
    using d by (simp add: fcd_hook_simps fcd_start_simps)
  from post_routing_first [OF fcd_start_inv fcd_cmk_fit fcd_fresh(1) this]
  obtain t where t: "fast_classifier_post_routing demo_env (\<lambda>k. k) demo_cmk fcd_hook fcd_start = Some t" and e: "entry_added demo_cmk fcd_hook 0 sic 1 (1, 2) fcd_start t"
    using fcd_resolves [OF d] by (auto simp: fcd_start_simps fcd_hook_simps)
  then have live: "fc_live t = {1}" by (simp add: entry_added_def fcd_start_simps)
  have run: "fc_run demo_env demo_kernel demo_cmk (\<lambda>k. k) fcd_start (fc_report demo_cmk fcd_start t)"
    by (rule fc_more [OF fc_none fc_leaves [OF t fcd_fresh(1)]])
  from classifier_module_ends [OF fcd_init run fcd_cmk_fit demo_kernel_ok, where sis = demo_sis and nows = "\<lambda>_. 9"] fcd_init run
  show ?thesis using live by (auto simp: report_live)
qed

end
