(* ===== verification/Spec2Isabelle.thy ===== *)
theory Spec2Isabelle
  imports Sfe_Path Sfe_Dump Sfe_Tcp_Props Sfe_Rewrite Sfe_System Sfe_Cm_Life Sfe6_Dump Sfe6_Props Fc_Props
begin

text \<open>
  The shortcut forwarding engine of OpenWrt (package/network/utils/shortcut-fe/src): a kernel module that
  forwards packets of known flows past the network stack. The files are sfe_ipv4.c (the engine for
  IPv4), sfe_ipv6.c (its twin for IPv6), sfe_cm.c (the connection manager, which feeds both) and
  sfe_cm.h (their messages); and the other manager of the same engines, fast-classifier.c
  (package/network/utils/fast-classifier/src), with its messages fast-classifier.h. Line numbers in the manifest are those of these files.

  The program. An engine keeps connections; each has two matches, one per direction, with the translation
  of addresses and ports, the precomputed adjustment of the transport checksum, the outgoing
  device and the tracked TCP windows. Connections are in a hash table and on a list of all
  connections, matches in a second hash table and, while they have traffic to report, on an active
  list. A packet that matches is rewritten and handed to the outgoing device; any other packet goes to
  the network stack, and a packet that says its flow is over or not understood makes the engine
  give the flow up. A timer function reports the counts of active flows. The connection manager learns
  flows from packets that leave the machine (post routing hook) and from connection tracking, makes
  rules of them, adds the reports to connection tracking, and takes rules away when a connection ends
  or a device goes down. The fast classifier takes the place of the connection manager: it keeps a table
  of watched connections, makes a rule of one when it has had enough packets or when user space asks for it
  over netlink, and announces to user space what it does.

  How the model corresponds to the code.
  Objects in kernel memory are numbers; their link fields are heaps of their own, their other fields one
  record; which objects are allocated is part of the state, as are the references on devices,
  neighbours, routes and connection tracking entries. A pointer the code compares with NULL is an
  option. Integers have the width of the code; values in network byte order are kept as the code keeps
  them, and \<open>ntohs\<close>, \<open>ntohl\<close> depend on the byte order of the machine, which is a parameter. A packet is the
  bytes from \<open>skb->data\<close> on with its total and its linear length; reading or writing outside the linear
  part, following a NULL link and an endless loop are the result None, so a theorem that an operation
  returns Some says that none of them happens. The heaps of the engines are total: following a link to a
  freed object is not None there, but the invariants say that tables and lists hold only allocated objects
  (\<open>conn_live\<close>, \<open>cm_live\<close>) and that releases free exactly what was taken out of them. In the fast classifier,
  whose hook keeps an entry after it released the lock, the use of a freed entry is None. Uninitialised stack objects, the clock, the
  results of allocations and registrations are arguments.

  Theories of the IPv4 engine, sfe_ipv4.c:
  \<^item> \<open>Prelude\<close>, \<open>Dll\<close>: shared vocabulary; intrusive doubly linked lists as the locales \<open>dlist_store\<close> and, with
    a tail pointer, \<open>dlist_tail_store\<close>, interpreted on the two hash tables and two lists of each engine.
  \<^item> \<open>Sfe_Types\<close>, \<open>Sfe_Table\<close>, \<open>Sfe_Table_Inv\<close>, \<open>Sfe_Lookup\<close>: data, hash tables, insertion and removal; the
    invariant \<open>table_inv\<close> with its abstract content \<open>sfe_abs\<close>; the contract of a look-up as the locale \<open>flow_table\<close>.
  \<^item> \<open>Sfe_Csum\<close>, \<open>Sfe_Rewrite\<close>: checksum arithmetic modulo 65535 and what the rewriting of a packet does.
  \<^item> \<open>Sfe_Sync\<close>, \<open>Sfe_Sync_Inv\<close>, \<open>Sfe_Sync_Loop\<close>, \<open>Sfe_Sync_Drain\<close>: statistics, reports, release of a
    connection and the timer function, which refines a walk over an abstract list.
  \<^item> \<open>Sfe_Rule\<close>, \<open>Sfe_Rule_Inv\<close>, \<open>Sfe_Rule_Ops\<close>: creation, update and destruction of rules; \<open>engine_inv\<close>, the
    invariant of the whole engine (tables, references, objects, the relation of a connection to its
    matches); each operation as an update of the set of known flows.
  \<^item> \<open>Sfe_Skb\<close>, \<open>Sfe_Tcp\<close>, \<open>Sfe_Tcp_Props\<close>, \<open>Sfe_Recv\<close>, \<open>Sfe_Recv_Inv\<close>, \<open>Sfe_Recv_Safe\<close>, \<open>Sfe_Forward\<close>, \<open>Sfe_Path\<close>: packets, the
    TCP option parser and window checks, the UDP, TCP and ICMP handlers; they keep the invariant,
    return, and forward only what they should.
  \<^item> \<open>Sfe_Text\<close>, \<open>Sfe_Debug\<close>, \<open>Sfe_Debug_Props\<close>, \<open>Sfe_Dump\<close>: the XML dump of the debug device.
  \<^item> \<open>Sfe_Init\<close>, \<open>Sfe_System\<close>, \<open>Sfe_Flow_Map\<close>: start and end; the interleaving of the locked sections of several
    processors as a step relation; the engine as a map from flows to translations.

  Theories of the IPv6 engine, sfe_ipv6.c: \<open>Sfe6_X\<close> is the counterpart of \<open>Sfe_X\<close>, and a name that would clash
  ends in 6. The code has the engine twice, and the model follows it; what the code shares or
  repeats literally (messages, flags, TCP windows, the option parser, list locales, \<open>flow_table\<close>, the
  walk of the timer function, the copying of the debug dump) is taken from the first. Its own are
  addresses of four words, checksum adjustments over nine words with carry, the walk over
  extension headers and ICMPv6. \<open>Sfe6_Props\<close> has its properties.

  Theories of the connection manager, sfe_cm.c: \<open>Sfe_Cm\<close> has the definitions; \<open>Sfe_Cm_Engines\<close> states what the
  manager needs of an IPv6 engine as the locale \<open>ipv6_engine\<close>, in which \<open>Sfe_Cm_Post\<close> (post routing) and
  \<open>Sfe_Cm_Events\<close> (all other entry points) prove what each entry point does. The locale is interpreted twice: on
  the stubs of sfe_cm.h for a build without IPv6, on which \<open>Sfe_Cm_System\<close> (refinement of a NAT table),
  \<open>Sfe_Cm_Runs\<close>, \<open>Sfe_Cm_Account\<close> and \<open>Sfe_Cm_Life\<close> rest; and in \<open>Sfe6_System\<close> on the IPv6 engine, on which
  \<open>Sfe6_Dual\<close> builds the module with both engines, whose device references they share.
  Reports a flush makes are recorded in \<open>sync_calls\<close>; their delivery to the connection tracking, which may
  change its entries at any time, is a step of its own (\<open>delivery_is_a_step\<close>). The devices and the kernel's
  answers about addresses are the same over a run. The end of the module is one step, except in the
  theorem of \<open>Sfe_Cm_Life\<close> about the race between its two halves and a packet.
  \<open>Sfe_Demo\<close>, \<open>Sfe6_Demo\<close> and \<open>Sfe_Cm_Props\<close> define the small machine the witnesses run on.

  Theories of the fast classifier, fast-classifier.c, on both engines: \<open>Fc_Table\<close> (data and hash table, an instance
  of \<open>flow_table\<close>), \<open>Fc\<close> (all operations), \<open>Fc_Inv\<close>, \<open>Fc_Hooks\<close> and \<open>Fc_Life\<close> (invariant, every entry point, runs, start
  and end), \<open>Fc_Rules\<close>, \<open>Fc_Entry\<close>, \<open>Fc_End\<close> (rules as a set of keys; the effect of a packet of a known connection,
  of the first packet and of the end), \<open>Fc_Props\<close> (properties). A hook is the part under the lock of the
  table (\<open>fc_locked\<close>) and the rest (\<open>fc_unlocked\<close>); in a run it is one step, and what an event between the
  two parts does is a theorem of its own.

  What the lemmas show. Every operation keeps the invariants, on every branch, error paths included;
  look-ups, creation and destruction have exactly the effect of the set or map operation they
  stand for; loops end (searches of chains because chains are finite lists, destruction because a
  connection goes away each time, the timer function by its quota, extension headers because each is at
  least eight bytes long); a forwarded packet is the translation of the one that came; references are
  returned; and runs of all entry points together refine the NAT table.

  Hypotheses, each with a witness:
  \<^item> \<open>kernel_ok\<close>: \<open>pskb_may_pull\<close> and \<open>skb_unshare\<close> keep the packet and, for the first, make the bytes linear.
  \<^item> \<open>skb_ok\<close>: the linear part is not longer than the packet; \<open>bounded\<close>: the packet is shorter than 2 GB.
  \<^item> \<open>tcp_linear\<close>, \<open>tcp_linear6\<close>: if the packet is TCP and its header claims options, they are in the linear area, and
    one byte follows them there or none of them is cut off after its kind byte. A header without options needs
    nothing. The code does not check this before it parses them (lemma \<open>tcp_options_read_past_packet\<close>).
  \<^item> \<open>alloc_fresh\<close>: \<open>kmalloc\<close> returns distinct objects that are not in use.
  \<^item> \<open>cm_kernel_ok\<close>, and \<open>dev_addr_len\<close> in other theorems: hardware addresses have at most six bytes, and the
    neighbour of an IPv4 address depends on that address only. The first is a restriction to such devices, not
    a fact about the kernel: the code copies longer addresses past the end of their field. \<open>names_ok\<close>: device names have at most 15 characters.

  Bounds. The only fuel is the structural bound of the timer function's loop, which is the code's own quota
  (a 64th of the connections, rounded up); the other loops are partial functions into an option, for which
  None is non-termination, proved not to happen. 64 quiet periods drain the active list because each
  covers a 64th. The dump needs a buffer of its text plus one message of 768 bytes. The offset into the
  buffer of the dump is a nat: read(2) asks for less than \<open>2 ^ 31\<close> bytes, so the int of the code does not
  wrap; \<open>copied_at\<close> records the copies that succeed.

  Not modelled, and why:
  \<^item> CONFIG_NF_FLOW_COOKIE: its flow table is filled by functions that are not in the repository.
  \<^item> Locks and timers themselves (locked sections are atomic steps), the rearming of the timer, RCU, debug
    messages, and the release function of the debug device, which only frees its state.
  \<^item> Pointers into a packet that stay behind when a pull moves its data: a packet is its content.
  \<^item> The kernel versions before 4.19 the code also compiles for, and sfe_backport.h, which is macros.
  \<^item> Of the fast classifier the text of three sysfs files that are only read, and the bytes of a netlink message.
  \<^item> Everything outside these two modules: kernel drivers, build system, packages and configuration.
\<close>

section \<open>Rules\<close>

text \<open>
  C5: Creating a rule returns EINVAL exactly when one of the two devices is not registered, else
  EADDRINUSE exactly when a connection with the same protocol, addresses and ports is there, else ENOMEM
  exactly when an allocation fails; the rule is added exactly in the remaining case. In every case
  the tables, the active list, the device references and the allocated objects stay consistent.
\<close>

theorem create_rule_refines:
  assumes "engine_inv E base s A D" and "alloc_fresh al s"
  shows "\<exists>s' A'. sfe_ipv4_create_rule E sic al now s =
      Some (create_outcome E sic al (flow_keys s A), s') \<and> engine_inv E base s' A' D \<and>
    flow_keys s' A' = (if create_outcome E sic al (flow_keys s A) = CREATED
      then insert (sic_key sic) (flow_keys s A) else flow_keys s A)"
proof (rule create_rule [OF assms, where sic = sic and j = now])
  fix res s' A'
  assume c: "sfe_ipv4_create_rule E sic al now s = Some (res, s')" and I: "engine_inv E base s' A' D"
    and r: "res = create_outcome E sic al (conn_key s ` set (connl A))"
    and no: "res \<noteq> CREATED \<Longrightarrow> A' = A \<and> conn_key s' = conn_key s"
    and yes: "res = CREATED \<Longrightarrow> \<exists>c. al_conn al = Some c \<and> connl A' = connl A @ [c] \<and>
      conn_key s' c = sic_key sic \<and> (\<forall>d\<in>set (connl A). conn_key s' d = conn_key s d)"
  have "flow_keys s' A' = (if res = CREATED then insert (sic_key sic) (flow_keys s A) else flow_keys s A)"
    using no yes by (auto simp: flow_keys_def)
  with c I r show ?thesis by (auto simp: flow_keys_def)
qed

theorem create_rule_refines_witness:
  "\<exists>s' A'. sfe_ipv4_create_rule demo_env demo_sic demo_alloc 100 demo_start =
      Some (create_outcome demo_env demo_sic demo_alloc (flow_keys demo_start abs_start), s') \<and>
    engine_inv demo_env no_refs s' A' [] \<and>
    flow_keys s' A' = (if create_outcome demo_env demo_sic demo_alloc (flow_keys demo_start abs_start) = CREATED
      then insert (sic_key demo_sic) (flow_keys demo_start abs_start) else flow_keys demo_start abs_start)"
  by (rule create_rule_refines [OF demo_start_inv])
    (simp add: alloc_fresh_def demo_alloc_def demo_start_def engine_start_def
        sfe_ipv4_register_sync_rule_callback_def)

text \<open>
  C6: Destroying a rule removes the connection with its protocol, addresses and ports, if there is
  one, and no other; the walk over the hash chain ends, and the tables, the device references and
  the allocated objects stay consistent.
\<close>

theorem destroy_rule_refines:
  assumes "engine_inv E base s A D"
  shows "\<exists>s' A'. sfe_ipv4_destroy_rule E sid sis now s = Some s' \<and> engine_inv E base s' A' D \<and>
    flow_keys s' A' = flow_keys s A - {sid_key sid}"
proof (rule destroy_rule [OF assms, where sid = sid and sis = sis and now = now])
  fix s' A'
  assume "sfe_ipv4_destroy_rule E sid sis now s = Some s'" "engine_inv E base s' A' D"
    "connl A' = filter (\<lambda>c. conn_key s c \<noteq> sid_key sid) (connl A)" "conn_key s' = conn_key s"
  with flow_keys_remove [OF assms, of A' "sid_key sid" s'] show ?thesis by blast
qed

theorem destroy_rule_refines_witness:
  "\<exists>A s' A'. engine_inv demo_env no_refs demo_state A [] \<and> sid_key demo_sid \<in> flow_keys demo_state A \<and>
    sfe_ipv4_destroy_rule demo_env demo_sid demo_sis 5 demo_state = Some s' \<and>
    engine_inv demo_env no_refs s' A' [] \<and>
    flow_keys s' A' = flow_keys demo_state A - {sid_key demo_sid}"
proof (rule demo_inv)
  fix A
  assume I: "engine_inv demo_env no_refs demo_state A []" and A: "connl A = [0]"
    and k: "conn_key demo_state 0 = sic_key demo_sic"
  have "sid_key demo_sid \<in> flow_keys demo_state A"
    by (simp add: flow_keys_def A k sid_key_def sic_key_def demo_sid_def demo_sic_def)
  then show ?thesis using I destroy_rule_refines [OF I, of demo_sid demo_sis 5] by blast
qed

text \<open>
  C25: Destroying the rules of a device ends and leaves exactly the connections that use the device in
  neither direction, in their order; without a device it leaves none.
\<close>

theorem destroy_all_rules_filters:
  assumes "engine_inv E base s A D"
  shows "\<exists>s' A'. sfe_ipv4_destroy_all_rules_for_dev E dev sis now 0 s = Some s' \<and>
    engine_inv E base s' A' D \<and>
    connl A' = filter (\<lambda>c. \<not> uses_dev dev (conns s c)) (connl A)"
  using destroy_all_rules [OF assms] by blast

theorem destroy_all_rules_filters_witness:
  "\<exists>A s' A'. engine_inv demo_env no_refs demo_state A [] \<and> connl A = [0] \<and>
    sfe_ipv4_destroy_all_rules_for_dev demo_env None demo_sis (\<lambda>_. 5) 0 demo_state = Some s' \<and>
    engine_inv demo_env no_refs s' A' [] \<and> connl A' = []"
proof (rule demo_inv)
  fix A
  assume I: "engine_inv demo_env no_refs demo_state A []" and A: "connl A = [0]"
  show ?thesis
    using destroy_all_rules_filters [OF I, of None demo_sis "\<lambda>_. 5"] I A by (auto simp: uses_dev_def)
qed

text \<open>
  C26: Unloading the module ends with an empty engine: no connection, every object freed, and
  every device reference the engine took given back; the timer, the character device and the sysfs
  files are unregistered.
\<close>

theorem exit_leaves_nothing:
  assumes "engine_inv E base s A []"
  shows "\<exists>s'. sfe_ipv4_exit E sis now held s = Some ({}, s') \<and> dev_refcnt s' = base \<and>
    conn_live s' = {} \<and> cm_live s' = {} \<and> num_connections s' = 0"
  by (rule exit_clean [OF assms, where sis = sis and now = now and held = held]) blast

theorem exit_leaves_nothing_witness:
  "\<exists>s'. sfe_ipv4_exit demo_env demo_sis (\<lambda>_. 5) {SysDir, DebugDevFile, CharDev, Timer} demo_state =
      Some ({}, s') \<and> dev_refcnt s' = no_refs \<and> conn_live s' = {} \<and> cm_live s' = {} \<and>
    num_connections s' = 0"
  by (rule demo_inv) (rule exit_leaves_nothing)

text \<open>
  Loading the module either succeeds with the sysfs directory, the debug file, the character
  device and the timer in place, or fails with nothing left registered.
\<close>

theorem init_all_or_nothing:
  "snd (snd (sfe_ipv4_init dir_ok file_result chrdev_result)) =
     (if fst (sfe_ipv4_init dir_ok file_result chrdev_result) = 0
      then {SysDir, DebugDevFile, CharDev, Timer} else {})"
  by (rule sfe_ipv4_init_held)

section \<open>Look-up\<close>

text \<open>
  C23: Looking up a packet's flow never runs off a chain or in a circle; it finds a match exactly when
  a connection of the engine has one for the device, protocol, addresses and ports of the packet, and
  the one it finds is such a match. Moving the hit to the front of its chain loses no flow.
\<close>

theorem find_match_exact:
  assumes "sfe_inv E s"
  shows "\<exists>r s'. find_match E k s = Some (r, s') \<and>
    (case r of Some p \<Rightarrow> p \<in> tabled_matches s \<and> match_key s p = k
     | None \<Rightarrow> k \<notin> match_key s ` tabled_matches s) \<and>
    sfe_inv E s' \<and> tabled_matches s' = tabled_matches s \<and> match_key s' = match_key s"
proof -
  obtain r s' where f: "find_match E k s = Some (r, s')" using mtab.find_total [OF assms, of k] by auto
  have "case r of Some p \<Rightarrow> p \<in> tabled_matches s \<and> match_key s p = k
     | None \<Rightarrow> k \<notin> match_key s ` tabled_matches s"
  proof (cases r)
    case None
    show ?thesis using mtab.find_complete [OF assms f [unfolded None]] by (auto simp: None)
  next
    case (Some p)
    show ?thesis using mtab.find_sound [OF assms f [unfolded Some]] by (simp add: Some)
  qed
  with f mtab.find_keeps [OF assms f] show ?thesis by auto
qed

theorem find_match_exact_witness:
  "\<exists>r s'. find_match demo_env (1, 17, 0x0a000002, 4096, 0x08080808, 53) demo_state = Some (r, s') \<and>
    (case r of Some p \<Rightarrow> p \<in> tabled_matches demo_state \<and>
        match_key demo_state p = (1, 17, 0x0a000002, 4096, 0x08080808, 53)
     | None \<Rightarrow> (1, 17, 0x0a000002, 4096, 0x08080808, 53) \<notin> match_key demo_state ` tabled_matches demo_state) \<and>
    sfe_inv demo_env s' \<and> tabled_matches s' = tabled_matches demo_state \<and>
    match_key s' = match_key demo_state"
proof (rule demo_inv)
  fix A
  assume "engine_inv demo_env no_refs demo_state A []"
  then have "sfe_inv demo_env demo_state" by (auto simp: sfe_inv_def engine_inv_def)
  then show ?thesis by (rule find_match_exact)
qed

section \<open>Synchronisation\<close>

text \<open>
  C17: A period of the synchronisation never follows a NULL link, keeps the engine consistent,
  reports at most a 64th of the connections (rounded up), each of them once and all of them connections
  of the engine, and changes no packet or byte total.
\<close>

theorem periodic_sync_reports:
  assumes "engine_inv E base s A D" and "sync_rule_callback s = Some cb"
  shows "\<exists>t A' ms. sfe_ipv4_periodic_sync sis now s = Some t \<and> engine_inv E base t A' D \<and>
    flow_keys t A' = flow_keys s A \<and> sync_calls t = sync_calls s @ map (Pair cb) ms \<and>
    distinct (map sis_key ms) \<and> set (map sis_key ms) \<subseteq> flow_keys s A \<and> length ms \<le> sync_quota s \<and>
    (\<forall>p. total_packets (cms t p) = total_packets (cms s p) \<and> total_bytes (cms t p) = total_bytes (cms s p))"
proof -
  obtain t A' ms where p: "sfe_ipv4_periodic_sync sis now s = Some t" "engine_inv E base t A' D"
      "sync_calls t = sync_calls s @ map (Pair cb) ms" "distinct (map sis_key ms)" "length ms \<le> sync_quota s"
    and o: "only_synced s t" and k: "conn_key t = conn_key s" "connl A' = connl A"
    and sub: "set (map sis_key ms) \<subseteq> conn_key s ` set (connl A)"
    using period_reports [OF assms, of sis now] by blast
  have "flow_keys t A' = flow_keys s A" "set (map sis_key ms) \<subseteq> flow_keys s A"
    using sub by (simp_all add: flow_keys_def k)
  with p only_synced_totals [OF o] show ?thesis by blast
qed

theorem periodic_sync_reports_witness:
  "\<exists>A t A' ms. actives A \<noteq> [] \<and> sfe_ipv4_periodic_sync demo_sis 5 demo_busy = Some t \<and>
    engine_inv demo_env no_refs t A' [] \<and> flow_keys t A' = flow_keys demo_busy A \<and>
    sync_calls t = sync_calls demo_busy @ map (Pair 7) ms \<and>
    distinct (map sis_key ms) \<and> set (map sis_key ms) \<subseteq> flow_keys demo_busy A \<and> length ms \<le> sync_quota demo_busy \<and>
    (\<forall>p. total_packets (cms t p) = total_packets (cms demo_busy p) \<and> total_bytes (cms t p) = total_bytes (cms demo_busy p))"
proof (rule demo_busy)
  fix B
  assume "engine_inv demo_env no_refs demo_busy B []" and "actives B \<noteq> []"
  with periodic_sync_reports [OF this(1) demo_busy_fields(1), of demo_sis 5] show ?thesis by blast
qed

text \<open>
  C18: 64 periods without traffic in between report every active connection exactly once and leave the
  active list empty (for fewer than 2 to the 32 less 63 connections).
\<close>

theorem sync_drains:
  assumes "engine_inv E base s A D" and "sync_rule_callback s = Some cb"
    and "length (connl A) < 2 ^ 32 - 63"
  shows "\<exists>t ms. sync_periods 64 sis now s = Some t \<and> active_head t = None \<and>
    sync_calls t = sync_calls s @ map (Pair cb) ms \<and> distinct (map sis_key ms) \<and>
    set (map sis_key ms) = flow_key s ` set (actives A)"
  using periods_drain [OF assms, of sis now] by blast

theorem sync_drains_witness:
  "\<exists>(A :: sfe_abs) t ms. sync_periods 64 demo_sis (\<lambda>n. of_nat n) demo_busy = Some t \<and> active_head t = None \<and>
    sync_calls t = sync_calls demo_busy @ map (Pair 7) ms \<and> distinct (map sis_key ms) \<and>
    set (map sis_key ms) = flow_key demo_busy ` set (actives A) \<and> actives A \<noteq> []"
proof (rule demo_busy)
  fix B
  assume I: "engine_inv demo_env no_refs demo_busy B []" and a: "actives B \<noteq> []" and "length (connl B) \<le> 1"
  then have l: "length (connl B) < 2 ^ 32 - 63" by simp
  from sync_drains [OF I demo_busy_fields(1) l, of demo_sis "\<lambda>n. of_nat n"] a show ?thesis by blast
qed

section \<open>Checksums and rewriting\<close>

text \<open>
  C11: Forwarding a UDP packet without IP options rewrites exactly the TOS byte, the TTL, the header
  checksum, the addresses, the ports and the UDP checksum: the TTL drops by one, the header checksum is
  valid, source and destination are those of the translated flow, and a UDP checksum of zero stays
  zero while any other stays nonzero and covers the new addresses as it covered the old ones.
\<close>

theorem udp_rewrite_translates:
  assumes "28 \<le> unat (skb_headlen skb)" and "rd16 E skb 26 = Some ck"
    and "rd32 E skb 12 = Some (match_src_ip m)" and "rd16 E skb 20 = Some (match_src_port m)"
    and "rd32 E skb 16 = Some (match_dest_ip m)" and "rd16 E skb 22 = Some (match_dest_port m)"
    and "adjusted m" and "\<not> skb_partial skb"
  shows "\<exists>skb' ck'. udp_rewrite E m 20 ttl skb = Some skb' \<and>
    patched ({1, 8} \<union> {10..<24} \<union> {26, 27}) skb skb' \<and> rd8 skb' 8 = Some (ttl - 1) \<and>
    ip_header_sum E skb' mod 65535 = 0 \<and>
    rd32 E skb' 12 = Some (fst (eff_src m)) \<and> rd16 E skb' 20 = Some (snd (eff_src m)) \<and>
    rd32 E skb' 16 = Some (fst (eff_dest m)) \<and> rd16 E skb' 22 = Some (snd (eff_dest m)) \<and>
    rd16 E skb' 26 = Some ck' \<and> (ck' = 0 \<longleftrightarrow> ck = 0) \<and>
    (ck \<noteq> 0 \<longrightarrow>
      (unat ck' + unat (fst (eff_src m)) + unat (snd (eff_src m)) + unat (fst (eff_dest m))
        + unat (snd (eff_dest m))) mod 65535 =
      (unat ck + unat (match_src_ip m) + unat (match_src_port m) + unat (match_dest_ip m)
        + unat (match_dest_port m)) mod 65535)"
proof -
  have l: "26 + 1 < unat (skb_headlen skb)" and o: "20 \<le> (20 :: nat)" "20 + 3 < (26 :: nat)"
    and d: "rd16 E skb (20 + 2) = Some (match_dest_port m)" using assms by simp_all
  obtain skb' where r: "l4_rewrite E True 26 m 20 ttl skb = Some skb'"
    and p: "patched ({1, 8, 10, 11} \<union> {12..<20} \<union> {20..<20 + 4} \<union> {26, 26 + 1}) skb skb'"
    and f: "rd8 skb' 8 = Some (ttl - 1)" "ip_header_sum E skb' mod 65535 = 0"
      "rd32 E skb' 12 = Some (fst (eff_src m))" "rd16 E skb' 20 = Some (snd (eff_src m))"
      "rd32 E skb' 16 = Some (fst (eff_dest m))" "rd16 E skb' (20 + 2) = Some (snd (eff_dest m))"
      "rd16 E skb' 26 = Some (rewritten_check m True (skb_partial skb) ck)"
    by (rule l4_rewrite_spec [OF l o assms(2-5) d, of True ttl])
  let ?ck = "rewritten_check m True False ck"
  have "?ck = 0 \<longleftrightarrow> ck = 0" using rewritten_check_nonzero [of ck m True False] rewritten_check_zero by auto
  moreover have "patched ({1, 8} \<union> {10..<24} \<union> {26, 27}) skb skb'" using p by (rule patched_mono) auto
  ultimately show ?thesis
    using r f assms(8) rewritten_check_mod [OF assms(7), of ck True]
    by (intro exI [of _ skb'] exI [of _ ?ck]) (simp add: rewrite_conv)
qed

definition demo_cm :: sfe_ipv4_connection_match where
  "demo_cm = sfe_ipv4_connection_match_compute_translations
     (blank_cm\<lparr>cm_flags := FLAG_XLATE_SRC, match_src_ip := 0x0a000002, match_src_port := 4096,
        match_dest_ip := 0x08080808, match_dest_port := 53,
        xlate_src_ip := 0x01020304, xlate_src_port := 8192\<rparr>)"

lemma demo_rd:
  "rd16 demo_env demo_skb 26 = Some 0x1234" "rd32 demo_env demo_skb 12 = Some 0x0a000002"
  "rd16 demo_env demo_skb 20 = Some 4096" "rd32 demo_env demo_skb 16 = Some 0x08080808"
  "rd16 demo_env demo_skb 22 = Some 53"
  by (simp_all add: rd32_def rd16_def rd8_def demo_skb_def demo_bytes_def demo_env_def mk16_def mk32_def
      push_bit_of_1 push_bit_eq_mult)

theorem udp_rewrite_translates_witness:
  "\<exists>skb' ck'. udp_rewrite demo_env demo_cm 20 64 demo_skb = Some skb' \<and>
    patched ({1, 8} \<union> {10..<24} \<union> {26, 27}) demo_skb skb' \<and> rd8 skb' 8 = Some (64 - 1) \<and>
    ip_header_sum demo_env skb' mod 65535 = 0 \<and>
    rd32 demo_env skb' 12 = Some (fst (eff_src demo_cm)) \<and> rd16 demo_env skb' 20 = Some (snd (eff_src demo_cm)) \<and>
    rd32 demo_env skb' 16 = Some (fst (eff_dest demo_cm)) \<and> rd16 demo_env skb' 22 = Some (snd (eff_dest demo_cm)) \<and>
    rd16 demo_env skb' 26 = Some ck' \<and> (ck' = 0 \<longleftrightarrow> (0x1234 :: u16) = 0) \<and>
    ((0x1234 :: u16) \<noteq> 0 \<longrightarrow>
      (unat ck' + unat (fst (eff_src demo_cm)) + unat (snd (eff_src demo_cm)) + unat (fst (eff_dest demo_cm))
        + unat (snd (eff_dest demo_cm))) mod 65535 =
      (unat (0x1234 :: u16) + unat (match_src_ip demo_cm) + unat (match_src_port demo_cm)
        + unat (match_dest_ip demo_cm) + unat (match_dest_port demo_cm)) mod 65535)"
proof (rule udp_rewrite_translates)
  have "match_src_ip demo_cm = 0x0a000002" "match_src_port demo_cm = 4096"
    "match_dest_ip demo_cm = 0x08080808" "match_dest_port demo_cm = 53"
    by (simp_all add: demo_cm_def frame_simps)
  then show "rd32 demo_env demo_skb 12 = Some (match_src_ip demo_cm)"
    "rd16 demo_env demo_skb 20 = Some (match_src_port demo_cm)"
    "rd32 demo_env demo_skb 16 = Some (match_dest_ip demo_cm)"
    "rd16 demo_env demo_skb 22 = Some (match_dest_port demo_cm)"
    "rd16 demo_env demo_skb 26 = Some 0x1234"
    by (simp_all add: demo_rd)
  show "adjusted demo_cm"
    using compute_translations_adjustments by (simp add: adjusted_def demo_cm_def frame_simps)
qed (simp_all add: demo_skb_def)

text \<open>
  When the transport checksum is left to the device, the adjusted checksum field stays the sum of
  the pseudo header: it changes by the change of the addresses and does not depend on the ports.
\<close>

theorem partial_checksum_follows_addresses:
  assumes "adjusted m" and "ck \<noteq> 0"
  shows "(unat (rewritten_check m sz True ck) + unat (match_src_ip m) + unat (match_dest_ip m)) mod 65535 =
    (unat ck + unat (fst (eff_src m)) + unat (fst (eff_dest m))) mod 65535"
  by (rule rewritten_partial_check_mod [OF assms])

theorem partial_checksum_follows_addresses_witness:
  "(unat (rewritten_check demo_cm True True 0x1234) + unat (match_src_ip demo_cm)
      + unat (match_dest_ip demo_cm)) mod 65535 =
    (unat (0x1234 :: u16) + unat (fst (eff_src demo_cm)) + unat (fst (eff_dest demo_cm))) mod 65535"
  by (rule partial_checksum_follows_addresses)
    (use compute_translations_adjustments in \<open>simp_all add: adjusted_def demo_cm_def frame_simps\<close>)

section \<open>TCP\<close>

text \<open>
  C29: The option parser reads back what a sender encodes: on the encoding of a list of well-formed
  options, padded by an end of list, it accepts and returns the greatest right edge of all SACK blocks
  and the acknowledgement.
\<close>

theorem sack_parser_roundtrip:
  assumes "bytes_at skb (th + 20) (concat (map opt_bytes opts) @ rest)" and "\<forall>q\<in>set opts. opt_wf q"
    and "20 + length (concat (map opt_bytes opts) @ rest) = unat data_offs" and "unat data_offs \<le> 60"
    and "rest = [] \<or> hd rest = TCPOPT_EOL"
  shows "sack_options skb th data_offs 20 ack = Some (True, fold opt_ack opts ack)"
  by (rule sack_options_encoded) (use assms in simp_all)

definition sack_skb :: sk_buff where
  "sack_skb = demo_skb\<lparr>skb_bytes := (\<lambda>i. if i < 32 then
     ([0, 0, 0, 0, 0, 0, 0, 0, 0, 0, 0, 0, 0, 0, 0, 0, 0, 0, 0, 0,
       1, 5, 10, 0, 0, 0, 1, 0, 0, 0, 9, 0] :: u8 list) ! i else 0)\<rparr>"

theorem sack_parser_roundtrip_witness:
  "sack_options sack_skb 0 32 20 7 = Some (True, fold opt_ack [Nop, Sack [(1, 9)]] 7)"
  by (rule sack_parser_roundtrip [where rest = "[0]"])
    (simp_all add: sack_skb_def demo_skb_def rd8_def be_bytes_def tcpopt_defs)

text \<open>
  C30: The parser ends and stays inside the packet on arbitrary option bytes, as long as the header
  length given by the packet and one more byte are in the linear area.
\<close>

theorem sack_parser_safe:
  assumes "th + unat data_offs < unat (skb_headlen skb)" and "20 \<le> unat data_offs"
    and "unat data_offs \<le> 60"
  shows "\<exists>valid sack. sfe_ipv4_process_tcp_option_sack skb th data_offs ack = Some (valid, sack)"
  using process_sack_total [OF assms, of ack] by auto

theorem sack_parser_safe_witness:
  "\<exists>valid sack. sfe_ipv4_process_tcp_option_sack sack_skb 0 31 7 = Some (valid, sack)"
  by (rule sack_parser_safe) (simp_all add: sack_skb_def demo_skb_def)

text \<open>
  C31: The shortcut for a header with nothing but a timestamp changes nothing: where the parser
  with the shortcut gives a result, the loop over the options alone gives the same.
\<close>

theorem timestamp_shortcut_equivalent:
  assumes "sfe_ipv4_process_tcp_option_sack skb th data_offs ack = Some r"
  shows "sack_options skb th data_offs SIZEOF_TCP_HDR ack = Some r"
  using process_sack_loop [OF assms] by (simp add: SIZEOF_TCP_HDR_def)

definition timestamp_skb :: sk_buff where
  "timestamp_skb = demo_skb\<lparr>skb_bytes := (\<lambda>i. if i < 32 then
     ([0, 0, 0, 0, 0, 0, 0, 0, 0, 0, 0, 0, 0, 0, 0, 0, 0, 0, 0, 0,
       1, 1, 8, 10, 0, 0, 0, 1, 0, 0, 0, 9] :: u8 list) ! i else 0)\<rparr>"

theorem timestamp_shortcut_equivalent_witness:
  "sack_options timestamp_skb 0 32 SIZEOF_TCP_HDR 7 = Some (True, 7)"
  by (rule timestamp_shortcut_equivalent)
    (simp add: sfe_ipv4_process_tcp_option_sack_def only_timestamp_def timestamp_skb_def demo_skb_def
      rd8_def tcpopt_defs SIZEOF_TCP_HDR_def)

text \<open>
  C32: An accepted segment never moves a window backwards: the greatest window and the
  tracked end only grow (in sequence number order), and so does the right edge of the other direction;
  the window scale never changes.
\<close>

theorem tcp_windows_grow:
  fixes own counter end_seq sack ack window
  defines "u \<equiv> tcp_advance own counter end_seq sack ack window"
  shows "max_win own \<le> max_win (upd_own u) \<and> 0 \<le> sint (tcp_end (upd_own u) - tcp_end own) \<and>
    0 \<le> sint (upd_counter_max_end u - max_end counter) \<and>
    win_scale (upd_own u) = win_scale own \<and> max_end (upd_own u) = max_end own"
  using tcp_advance_forward [of u own counter end_seq sack ack window] by (simp add: u_def)

end
